(* ===== verification/Prelude.thy ===== *)
theory Prelude
  imports Main "HOL-Library.Word" "HOL-Library.Monad_Syntax"
begin

text \<open>
  Shared vocabulary of the development: the C integer types the flashrom sources compute
  with, the byte-buffer operations (\<^verbatim>\<open>memcpy\<close>, \<^verbatim>\<open>memset\<close>, \<^verbatim>\<open>memcmp\<close> on a buffer and an
  offset), the conventions for results, and the lemmas about them that the component
  theories use as rewrite rules.

  Conventions.
  \<^item> An \<^verbatim>\<open>unsigned int\<close>, \<^verbatim>\<open>chipoff_t\<close> or \<^verbatim>\<open>chipsize_t\<close> is a natural number below
    \<open>2 ^ 32\<close>; every addition, subtraction or multiplication the code makes on such values is
    written with \<open>add32\<close>, \<open>sub32\<close>, \<open>mul32\<close>, which wrap around.
  \<^item> A byte is an \<open>8 word\<close>; a buffer is a list of bytes, and a pointer into it is an offset.
  \<^item> A function that may fail to return (a loop that need not end, a call through a null
    function pointer) has an \<open>option\<close> result, and \<open>None\<close> means that it does not return.
  \<^item> A C result code is an \<open>int\<close>; 0 is success, as in the sources.
\<close>

unbundle bit_operations_syntax

type_synonym u8 = "8 word"
type_synonym bytes = "u8 list"

named_theorems buf_simps \<open>pointwise characterisation of buffer operations\<close>
named_theorems c_simps \<open>C integer arithmetic when nothing wraps\<close>

section \<open>C integer arithmetic\<close>

definition u32 :: "nat \<Rightarrow> nat" where
  "u32 n = n mod 4294967296"

definition add32 :: "nat \<Rightarrow> nat \<Rightarrow> nat" where
  "add32 a b = (a + b) mod 4294967296"

definition sub32 :: "nat \<Rightarrow> nat \<Rightarrow> nat" where
  "sub32 a b = nat ((int a - int b) mod 4294967296)"

definition mul32 :: "nat \<Rightarrow> nat \<Rightarrow> nat" where
  "mul32 a b = (a * b) mod 4294967296"

text \<open>Sums of \<^verbatim>\<open>size_t\<close> values.\<close>

definition add64 :: "nat \<Rightarrow> nat \<Rightarrow> nat" where
  "add64 a b = (a + b) mod 18446744073709551616"

text \<open>Conversion of an \<^verbatim>\<open>unsigned int\<close> to \<^verbatim>\<open>int\<close> (two's complement) and back.\<close>

definition s32 :: "nat \<Rightarrow> int" where
  "s32 n = (if n < 2147483648 then int n else int n - 4294967296)"

definition u32_of_int :: "int \<Rightarrow> nat" where
  "u32_of_int i = nat (i mod 4294967296)"

text \<open>Division of C \<^verbatim>\<open>int\<close> values truncates towards zero.\<close>

definition c_div :: "int \<Rightarrow> int \<Rightarrow> int" where
  "c_div a b = sgn a * sgn b * (\<bar>a\<bar> div \<bar>b\<bar>)"

lemma u32_id [c_simps]: "n < 4294967296 \<Longrightarrow> u32 n = n"
  by (simp add: u32_def)

lemma add32_no_wrap [c_simps]: "a + b < 4294967296 \<Longrightarrow> add32 a b = a + b"
  by (simp add: add32_def)

lemma mul32_no_wrap [c_simps]: "a * b < 4294967296 \<Longrightarrow> mul32 a b = a * b"
  by (simp add: mul32_def)

lemma sub32_no_wrap [c_simps]: "b \<le> a \<Longrightarrow> a < 4294967296 \<Longrightarrow> sub32 a b = a - b"
  by (simp add: sub32_def nat_diff_distrib' mod_pos_pos_trivial flip: of_nat_diff)

lemma add64_no_wrap [c_simps]: "a + b < 18446744073709551616 \<Longrightarrow> add64 a b = a + b"
  by (simp add: add64_def)

lemma u32_bound [simp]: "u32 n < 4294967296"
  by (simp add: u32_def)

lemma add32_bound [simp]: "add32 a b < 4294967296"
  by (simp add: add32_def)

lemma sub32_bound [simp]: "sub32 a b < 4294967296"
proof -
  have "(int a - int b) mod 4294967296 < 4294967296"
    by (rule pos_mod_bound) simp
  then show ?thesis by (simp add: sub32_def nat_less_iff)
qed

lemma s32_small [c_simps]: "n < 2147483648 \<Longrightarrow> s32 n = int n"
  by (simp add: s32_def)

lemma u32_of_int_s32: "n < 4294967296 \<Longrightarrow> u32_of_int (s32 n) = n"
  by (auto simp: u32_of_int_def s32_def mod_pos_pos_trivial)

section \<open>Buffers\<close>

text \<open>\<open>bslice a n xs\<close>: the \<open>n\<close> bytes at \<open>xs + a\<close>.\<close>

definition bslice :: "nat \<Rightarrow> nat \<Rightarrow> 'a list \<Rightarrow> 'a list" where
  "bslice a n xs = take n (drop a xs)"

text \<open>\<open>blit a src dst\<close>: \<^verbatim>\<open>memcpy(dst + a, src, length src)\<close>. A byte whose place is outside the
  destination is dropped; the components prove that their copies stay inside.\<close>

definition blit :: "nat \<Rightarrow> 'a list \<Rightarrow> 'a list \<Rightarrow> 'a list" where
  "blit a src dst =
     map (\<lambda>i. if a \<le> i \<and> i < a + length src then src ! (i - a) else dst ! i) [0..<length dst]"

text \<open>\<open>memset_at a v n dst\<close>: \<^verbatim>\<open>memset(dst + a, v, n)\<close>.\<close>

definition memset_at :: "nat \<Rightarrow> 'a \<Rightarrow> nat \<Rightarrow> 'a list \<Rightarrow> 'a list" where
  "memset_at a v n dst = blit a (replicate n v) dst"

lemma length_bslice [simp]: "length (bslice a n xs) = min n (length xs - a)"
  by (simp add: bslice_def)

lemma nth_bslice [buf_simps]: "i < n \<Longrightarrow> a + i < length xs \<Longrightarrow> bslice a n xs ! i = xs ! (a + i)"
  by (simp add: bslice_def)

lemma length_blit [simp]: "length (blit a src dst) = length dst"
  by (simp add: blit_def)

lemma length_memset_at [simp]: "length (memset_at a v n dst) = length dst"
  by (simp add: memset_at_def)

lemma nth_blit [buf_simps]:
  "i < length dst \<Longrightarrow>
     blit a src dst ! i = (if a \<le> i \<and> i < a + length src then src ! (i - a) else dst ! i)"
  by (simp add: blit_def)

lemma nth_memset_at [buf_simps]:
  "i < length dst \<Longrightarrow> memset_at a v n dst ! i = (if a \<le> i \<and> i < a + n then v else dst ! i)"
  by (auto simp: memset_at_def buf_simps)

lemma blit_nil [simp]: "blit a [] dst = dst"
  by (rule nth_equalityI) (auto simp: buf_simps)

lemma blit_append: "blit a (xs @ ys) dst = blit (a + length xs) ys (blit a xs dst)"
  by (rule nth_equalityI) (auto simp: buf_simps nth_append)

lemma bslice_zero [simp]: "bslice a 0 xs = []"
  by (simp add: bslice_def)

lemma bslice_full [simp]: "bslice 0 (length xs) xs = xs"
  by (simp add: bslice_def)

lemma bslice_eq_iff:
  assumes "a + n \<le> length xs" and "a + n \<le> length ys"
  shows "bslice a n xs = bslice a n ys \<longleftrightarrow> (\<forall>i. a \<le> i \<and> i < a + n \<longrightarrow> xs ! i = ys ! i)"
proof
  assume eq: "bslice a n xs = bslice a n ys"
  show "\<forall>i. a \<le> i \<and> i < a + n \<longrightarrow> xs ! i = ys ! i"
  proof (intro allI impI)
    fix i assume i: "a \<le> i \<and> i < a + n"
    have "bslice a n xs ! (i - a) = bslice a n ys ! (i - a)" using eq by simp
    with i assms show "xs ! i = ys ! i"
      using nth_bslice [of "i - a" n a xs] nth_bslice [of "i - a" n a ys]
      by (simp add: less_diff_conv2)
  qed
next
  assume "\<forall>i. a \<le> i \<and> i < a + n \<longrightarrow> xs ! i = ys ! i"
  with assms show "bslice a n xs = bslice a n ys"
    by (intro nth_equalityI) (auto simp: nth_bslice)
qed

lemma bslice_eq_map: "a + n \<le> length xs \<Longrightarrow> bslice a n xs = map (\<lambda>i. xs ! i) [a..<a + n]"
  by (rule nth_equalityI) (auto simp: buf_simps)

lemma replicate_eq_map: "(\<And>i. a \<le> i \<Longrightarrow> i < a + n \<Longrightarrow> f i = v) \<Longrightarrow> replicate n v = map f [a..<a + n]"
  by (rule nth_equalityI) auto

lemma take_blit: "length bs = k \<Longrightarrow> k \<le> length buf \<Longrightarrow> bslice 0 k (blit 0 bs buf) = bs"
  by (rule nth_equalityI) (auto simp: buf_simps)

lemma blit_two: "length a = k \<Longrightarrow> length b = m \<Longrightarrow> length buf = k + m \<Longrightarrow> blit k b (blit 0 a buf) = a @ b"
  by (rule nth_equalityI) (auto simp: buf_simps nth_append)

lemma bslice_add: "a + k + m \<le> length xs \<Longrightarrow> bslice a k xs @ bslice (a + k) m xs = bslice a (k + m) xs"
  by (simp add: bslice_def take_add add.commute)

lemma drop_bslice: "drop k (bslice a (k + m) xs) = bslice (a + k) m xs"
  by (simp add: bslice_def drop_take add.commute)

lemma bslice_bslice: "p + k \<le> len \<Longrightarrow> bslice p k (bslice a len xs) = bslice (a + p) k xs"
  by (simp add: bslice_def drop_take min_def add.commute)

lemma bslice_mid: "length xs = a \<Longrightarrow> length ys = k \<Longrightarrow> bslice a k (xs @ ys @ zs) = ys"
  by (simp add: bslice_def)

section \<open>Numbers in memory\<close>

text \<open>The value of little-endian bytes, and the bytes of a value.\<close>

fun le_value :: "bytes \<Rightarrow> nat" where
  "le_value [] = 0"
| "le_value (b # bs) = unat b + 256 * le_value bs"

fun le_bytes :: "nat \<Rightarrow> nat \<Rightarrow> bytes" where
  "le_bytes 0 n = []"
| "le_bytes (Suc k) n = word_of_nat n # le_bytes k (n div 256)"

lemma length_le_bytes [simp]: "length (le_bytes k n) = k"
  by (induction k arbitrary: n) simp_all

lemma le_value_le_bytes: "le_value (le_bytes k n) = n mod 256 ^ k"
proof (induction k arbitrary: n)
  case (Suc k)
  have "n mod 256 ^ Suc k = n mod 256 + 256 * (n div 256 mod 256 ^ k)"
    by (simp add: mod_mult2_eq)
  then show ?case by (simp add: Suc unat_of_nat)
qed simp

lemma le_value_bound: "le_value bs < 256 ^ length bs"
proof (induction bs)
  case (Cons b bs)
  have "unat b < 256" using unsigned_less [of b, where ?'a = nat] by simp
  with Cons have "unat b + 256 * le_value bs < 256 * 256 ^ length bs" by linarith
  then show ?case by simp
qed simp

text \<open>The \<open>w\<close> bits of a number from bit \<open>off\<close> on.\<close>

definition field :: "nat \<Rightarrow> nat \<Rightarrow> nat \<Rightarrow> nat" where
  "field n off w = n div 2 ^ off mod 2 ^ w"

lemma field_bound: "field n off w < 2 ^ w"
  by (simp add: field_def)

section \<open>Lists\<close>

lemma upt_append: "a \<le> b \<Longrightarrow> b \<le> c \<Longrightarrow> [a..<c] = [a..<b] @ [b..<c]"
  by (metis le_add_diff_inverse upt_add_eq_append)

lemma sorted_wrt_same:
  "(\<And>x y. x \<in> set xs \<Longrightarrow> y \<in> set xs \<Longrightarrow> P x y = Q x y) \<Longrightarrow> sorted_wrt P xs = sorted_wrt Q xs"
  by (induction xs) auto

end
