(* ===== verification/Helpers.thy ===== *)
theory Helpers
  imports Prelude
begin

text \<open>
  The pure helper routines of \<^verbatim>\<open>flashrom/helpers.c\<close>: address width, population count, integer
  minimum and maximum, string lowering and concatenation, and the bit reversal that
  programmers with LSB-first shift registers use. C strings are HOL strings without the
  terminating NUL.
\<close>

section \<open>Definitions\<close>

text \<open>The loop of \<^verbatim>\<open>address_to_bits\<close>: the shift count \<^verbatim>\<open>31 - lzb\<close> leaves the range in which C
  defines the shift when no bit of the address is set; the model returns \<open>None\<close> there.\<close>

function address_to_bits_loop :: "32 word \<Rightarrow> nat \<Rightarrow> nat option" where
  "address_to_bits_loop addr lzb =
     (if 31 < lzb then None
      else if push_bit (31 - lzb) 1 AND NOT addr \<noteq> 0 then address_to_bits_loop addr (Suc lzb)
      else Some (32 - lzb))"
  by pat_completeness auto
termination
  by (relation "measure (\<lambda>(addr, lzb). 32 - lzb)") auto

declare address_to_bits_loop.simps [simp del]

definition address_to_bits :: "32 word \<Rightarrow> nat option" where
  "address_to_bits addr = address_to_bits_loop addr 0"

lemma unat_drop_bit_less: "a \<noteq> 0 \<Longrightarrow> unat (drop_bit 1 (a :: 64 word)) < unat a"
proof -
  assume "a \<noteq> 0"
  then have "0 < unat a" by (simp add: unat_gt_0)
  moreover have "unat (drop_bit 1 a) = unat a div 2"
    by (simp add: drop_bit_Suc unat_div)
  ultimately show ?thesis by simp
qed

function bitcount_loop :: "64 word \<Rightarrow> nat \<Rightarrow> nat" where
  "bitcount_loop a i =
     (if a = 0 then i
      else bitcount_loop (drop_bit 1 a) (if a AND 1 \<noteq> 0 then Suc i else i))"
  by pat_completeness auto
termination
  by (relation "measure (\<lambda>(a, i). unat a)") (auto simp: unat_drop_bit_less simp del: One_nat_def)

declare bitcount_loop.simps [simp del]

definition bitcount :: "64 word \<Rightarrow> nat" where
  "bitcount a = bitcount_loop a 0"

definition c_max :: "int \<Rightarrow> int \<Rightarrow> int" where
  "c_max a b = (if a > b then a else b)"

definition c_min :: "int \<Rightarrow> int \<Rightarrow> int" where
  "c_min a b = (if a < b then a else b)"

text \<open>\<^verbatim>\<open>min\<close> takes \<^verbatim>\<open>int\<close> arguments; the callers pass \<^verbatim>\<open>unsigned int\<close> values and store the result
  in one. \<open>min32\<close> is that composition of conversions.\<close>

definition min32 :: "nat \<Rightarrow> nat \<Rightarrow> nat" where
  "min32 a b = u32_of_int (c_min (s32 a) (s32 b))"

text \<open>The flag says whether \<^verbatim>\<open>realloc\<close> succeeds.\<close>

definition strcat_realloc :: "bool \<Rightarrow> string \<Rightarrow> string \<Rightarrow> string option" where
  "strcat_realloc realloc_ok dest src = (if \<not> realloc_ok then None else Some (dest @ src))"

definition c_tolower :: "char \<Rightarrow> char" where
  "c_tolower c =
     (if 65 \<le> (of_char c :: nat) \<and> (of_char c :: nat) \<le> 90
      then char_of ((of_char c :: nat) + 32) else c)"

fun tolower_string :: "string \<Rightarrow> string" where
  "tolower_string [] = []"
| "tolower_string (c # str) = c_tolower c # tolower_string str"

definition reverse_byte :: "u8 \<Rightarrow> u8" where
  "reverse_byte x0 =
     (let x1 = (drop_bit 1 x0 AND 0x55) OR (push_bit 1 x0 AND 0xaa);
          x2 = (drop_bit 2 x1 AND 0x33) OR (push_bit 2 x1 AND 0xcc);
          x3 = (drop_bit 4 x2 AND 0x0f) OR (push_bit 4 x2 AND 0xf0)
      in x3)"

text \<open>\<^verbatim>\<open>reverse_bytes(dst, src, length)\<close>: the loop index runs from \<open>i\<close> to \<open>length\<close>.\<close>

function reverse_bytes_loop :: "bytes \<Rightarrow> bytes \<Rightarrow> nat \<Rightarrow> nat \<Rightarrow> bytes" where
  "reverse_bytes_loop dst src i len =
     (if i < len then reverse_bytes_loop (dst[i := reverse_byte (src ! i)]) src (Suc i) len
      else dst)"
  by pat_completeness auto
termination
  by (relation "measure (\<lambda>(dst, src, i, len). len - i)") auto

declare reverse_bytes_loop.simps [simp del]

definition reverse_bytes :: "bytes \<Rightarrow> bytes \<Rightarrow> nat \<Rightarrow> bytes" where
  "reverse_bytes dst src len = reverse_bytes_loop dst src 0 len"

section \<open>Address width and population count\<close>

lemma shifted_one_and_not:
  "k < 32 \<Longrightarrow> 2 ^ k AND NOT (addr :: 32 word) = 0 \<longleftrightarrow> bit addr k"
proof -
  assume k: "k < 32"
  have "(NOT addr) AND 2 ^ k = 0 \<longleftrightarrow> \<not> bit (NOT addr) k"
    by (rule and_exp_eq_0_iff_not_bit)
  then show ?thesis using k
    by (simp add: bit_not_iff and.commute)
qed

lemma address_to_bits_loop_None:
  "address_to_bits_loop 0 lzb = None"
  by (induction "0 :: 32 word" lzb rule: address_to_bits_loop.induct)
    (subst address_to_bits_loop.simps, auto simp: shifted_one_and_not)

lemma address_to_bits_loop_Some:
  assumes "\<forall>k. 31 - lzb < k \<and> k < 32 \<longrightarrow> \<not> bit addr k" and "lzb \<le> 31"
    and "\<exists>k \<le> 31 - lzb. bit addr k"
  shows "\<exists>n. address_to_bits_loop addr lzb = Some n \<and> 0 < n \<and> n \<le> 32 \<and> bit addr (n - 1) \<and>
           (\<forall>k. n \<le> k \<and> k < 32 \<longrightarrow> \<not> bit addr k)"
  using assms
proof (induction addr lzb rule: address_to_bits_loop.induct)
  case (1 addr lzb)
  show ?case
  proof (cases "bit addr (31 - lzb)")
    case True
    with "1.prems" show ?thesis
      by (subst address_to_bits_loop.simps) (auto simp: shifted_one_and_not Suc_diff_Suc)
  next
    case False
    obtain k where k: "k \<le> 31 - lzb" "bit addr k" using "1.prems"(3) by blast
    with False have "k \<noteq> 31 - lzb" by auto
    with k have less: "k < 31 - lzb" by simp
    then have lzb: "lzb < 31" by simp
    have above: "\<forall>j. 31 - Suc lzb < j \<and> j < 32 \<longrightarrow> \<not> bit addr j"
    proof (intro allI impI)
      fix j assume "31 - Suc lzb < j \<and> j < 32"
      then have "j = 31 - lzb \<or> 31 - lzb < j \<and> j < 32" using lzb by arith
      then show "\<not> bit addr j" using False "1.prems"(1) by blast
    qed
    have "\<exists>k \<le> 31 - Suc lzb. bit addr k" using k less by (intro exI [of _ k]) auto
    with "1.IH" above lzb False show ?thesis
      by (subst address_to_bits_loop.simps) (auto simp: shifted_one_and_not)
  qed
qed

lemma unat_bounds_of_bits:
  fixes addr :: "32 word"
  assumes "0 < n" and "bit addr (n - 1)" and "\<forall>k. n \<le> k \<and> k < 32 \<longrightarrow> \<not> bit addr k"
  shows "2 ^ (n - 1) \<le> unat addr" and "unat addr < 2 ^ n"
proof -
  have "bit (unat addr) (n - 1)" using assms(2) by (simp add: bit_unsigned_iff)
  then have "odd (unat addr div 2 ^ (n - 1))" by (simp add: bit_iff_odd)
  then have "unat addr div 2 ^ (n - 1) \<noteq> 0" by (intro notI) simp
  then show "2 ^ (n - 1) \<le> unat addr" by (simp add: div_eq_0_iff not_less)
  have "take_bit n addr = addr"
  proof (rule bit_eqI)
    fix k show "bit (take_bit n addr) k = bit addr k"
      using assms(3) bit_imp_le_length [of addr k] by (auto simp: bit_take_bit_iff not_less)
  qed
  then have "unat addr = take_bit n (unat addr)" by (metis unsigned_take_bit_eq)
  then show "unat addr < 2 ^ n" by (metis take_bit_nat_less_exp)
qed

text \<open>For every nonzero address, \<^verbatim>\<open>address_to_bits\<close> returns the number of bits needed to represent it, i.e. the \<open>n\<close>
  with \<open>2 ^ (n - 1) \<le> addr < 2 ^ n\<close>; for address zero the shift count leaves its defined range.\<close>

theorem address_to_bits_correct:
  "address_to_bits addr =
     (if addr = 0 then None
      else Some (LEAST n. unat addr < 2 ^ n))"
proof (cases "addr = 0")
  case True
  then show ?thesis by (simp add: address_to_bits_def address_to_bits_loop_None)
next
  case False
  then obtain k where k: "bit addr k"
    by (metis bit_eqI bit_0_eq bot_apply bot_bool_def)
  then have "k \<le> 31" using bit_imp_le_length [of addr k] by simp
  with k have "\<exists>n. address_to_bits_loop addr 0 = Some n \<and> 0 < n \<and> n \<le> 32 \<and> bit addr (n - 1) \<and>
      (\<forall>k. n \<le> k \<and> k < 32 \<longrightarrow> \<not> bit addr k)"
    by (intro address_to_bits_loop_Some) auto
  then obtain n where n: "address_to_bits_loop addr 0 = Some n" "0 < n"
    and lo: "2 ^ (n - 1) \<le> unat addr" and hi: "unat addr < 2 ^ n"
    using unat_bounds_of_bits by blast
  have "(LEAST n. unat addr < 2 ^ n) = n"
  proof (rule Least_equality [where P = "\<lambda>n. unat addr < 2 ^ n", OF hi])
    fix m assume "unat addr < 2 ^ m"
    with lo have "(2 :: nat) ^ (n - 1) < 2 ^ m" by (rule le_less_trans)
    then have "n - 1 < m" by (rule power_less_imp_less_exp [rotated]) simp
    then show "n \<le> m" by simp
  qed
  with n False show ?thesis by (simp add: address_to_bits_def)
qed

lemma bits_split:
  "{n. bit (a :: 64 word) n} =
     (if bit a 0 then {0} else {}) \<union> Suc ` {n. bit (drop_bit 1 a) n}"
proof (rule set_eqI)
  fix n show "(n \<in> {n. bit a n}) =
      (n \<in> (if bit a 0 then {0} else {}) \<union> Suc ` {n. bit (drop_bit 1 a) n})"
    by (cases n) (auto simp: bit_drop_bit_eq)
qed

lemma finite_bits: "finite {n. bit (a :: 64 word) n}"
proof (rule finite_subset)
  show "{n. bit a n} \<subseteq> {..<64}" using bit_imp_le_length [of a] by auto
qed simp

lemma bitcount_loop_card: "bitcount_loop a i = i + card {n. bit a n}"
proof (induction a i rule: bitcount_loop.induct)
  case (1 a i)
  show ?case
  proof (cases "a = 0")
    case True
    then show ?thesis by (subst bitcount_loop.simps) (simp flip: bot_set_def)
  next
    case False
    have "card {n. bit a n} = (if bit a 0 then 1 else 0) + card {n. bit (drop_bit 1 a) n}"
      by (subst bits_split) (auto simp: card_image finite_bits)
    moreover have "(a AND 1 \<noteq> 0) = bit a 0"
      by (simp add: and_one_eq bit_0 odd_iff_mod_2_eq_one)
    ultimately show ?thesis using "1.IH" [OF False] False
      by (subst bitcount_loop.simps) simp
  qed
qed

theorem bitcount_card: "bitcount a = card {n. bit a n}"
  by (simp add: bitcount_def bitcount_loop_card)

section \<open>Minimum of unsigned values\<close>

lemma min32_small [c_simps]:
  "a < 2147483648 \<Longrightarrow> b < 2147483648 \<Longrightarrow> min32 a b = min a b"
  by (auto simp: min32_def c_min_def s32_def u32_of_int_def mod_pos_pos_trivial min_def)

section \<open>Bit reversal\<close>

lemma reverse_byte_bit:
  assumes "n < 8" shows "bit (reverse_byte x) n = bit x (7 - n)"
proof -
  have "n \<in> {0, 1, 2, 3, 4, 5, 6, 7}" using assms by auto
  then show ?thesis
    unfolding reverse_byte_def Let_def bit_or_iff bit_and_iff bit_push_bit_iff bit_drop_bit_eq
      o_def
    by (elim insertE; simp add: bit_simps numeral_3_eq_3 numeral_2_eq_2)
qed

text \<open>\<^verbatim>\<open>reverse_byte\<close> is its own inverse, so data sent through a programmer that shifts the other way round
  arrives unchanged.\<close>

theorem reverse_byte_involution: "reverse_byte (reverse_byte x) = x"
proof (rule bit_word_eqI)
  fix n assume "n < LENGTH(8)"
  then have "n < 8" by simp
  then show "bit (reverse_byte (reverse_byte x)) n = bit x n"
    by (simp add: reverse_byte_bit)
qed

lemma reverse_bytes_loop_nth:
  "len \<le> length dst \<Longrightarrow> k < length dst \<Longrightarrow>
     reverse_bytes_loop dst src i len ! k =
       (if i \<le> k \<and> k < len then reverse_byte (src ! k) else dst ! k) \<and>
     length (reverse_bytes_loop dst src i len) = length dst"
proof (induction dst src i len rule: reverse_bytes_loop.induct)
  case (1 dst src i len)
  show ?case
  proof (cases "i < len")
    case True
    with 1 show ?thesis
      by (subst (1 2) reverse_bytes_loop.simps) (auto simp: nth_list_update)
  next
    case False
    with "1.prems" show ?thesis by (subst (1 2) reverse_bytes_loop.simps) auto
  qed
qed

lemma tolower_string_idem: "tolower_string (tolower_string s) = tolower_string s"
  by (induction s) (auto simp: c_tolower_def of_char_of)

end
