(* ===== verification/Layout.thy ===== *)
theory Layout
  imports Helpers
begin

text \<open>
  The flash layout of \<^verbatim>\<open>flashrom/layout.c\<close>: a singly linked list of named regions, the
  \<^verbatim>\<open>-i\<close> include arguments that select some of them, the iterators the read, erase, write
  and verify drivers walk the layout with, and the checks made before the chip is touched.

  A linked list is the list of its entries from the head on; a pointer to an entry is the
  suffix that starts with it, and the null pointer is the empty suffix. Printing is left out.
  String duplication (\<^verbatim>\<open>strdup\<close>, \<^verbatim>\<open>strndup\<close>) is taken to succeed; where the code allocates
  a list node the outcome of the allocation is an argument.
\<close>

section \<open>Data\<close>

record flash_region =
  fr_name :: string
  fr_start :: nat
  fr_end :: nat
  fr_read_prot :: bool
  fr_write_prot :: bool

record romentry =
  re_included :: bool
  re_file :: "string option"
  re_region :: flash_region

type_synonym layout = "romentry list"

record layout_include_args =
  ia_name :: string
  ia_file :: "string option"

section \<open>Iterators and lookup\<close>

definition layout_next :: "layout \<Rightarrow> layout \<Rightarrow> layout" where
  "layout_next l it = (case it of [] \<Rightarrow> l | e # nxt \<Rightarrow> nxt)"

text \<open>The loop of \<^verbatim>\<open>layout_next_included\<close>, from the candidate that \<^verbatim>\<open>layout_next\<close> gave.\<close>

fun skip_excluded :: "layout \<Rightarrow> layout" where
  "skip_excluded [] = []"
| "skip_excluded (e # nxt) = (if re_included e then e # nxt else skip_excluded nxt)"

definition layout_next_included :: "layout \<Rightarrow> layout \<Rightarrow> layout" where
  "layout_next_included l it = skip_excluded (layout_next l it)"

fun next_included_region_loop :: "romentry option \<Rightarrow> layout \<Rightarrow> nat \<Rightarrow> romentry option" where
  "next_included_region_loop lowest [] wh = lowest"
| "next_included_region_loop lowest (e # es) wh =
     (if \<not> re_included e then next_included_region_loop lowest es wh
      else if fr_end (re_region e) < wh then next_included_region_loop lowest es wh
      else next_included_region_loop
             (case lowest of
                None \<Rightarrow> Some e
              | Some low \<Rightarrow>
                  if fr_start (re_region low) > fr_start (re_region e) then Some e else Some low)
             es wh)"

definition layout_next_included_region :: "layout \<Rightarrow> nat \<Rightarrow> romentry option" where
  "layout_next_included_region l wh = next_included_region_loop None l wh"

text \<open>\<^verbatim>\<open>_layout_entry_by_name\<close>: the position of the first entry with the name.\<close>

fun layout_entry_by_name :: "layout \<Rightarrow> string \<Rightarrow> nat option" where
  "layout_entry_by_name [] name = None"
| "layout_entry_by_name (e # es) name =
     (if fr_name (re_region e) = name then Some 0
      else map_option Suc (layout_entry_by_name es name))"

section \<open>Building a layout\<close>

definition flashrom_layout_new :: "bool \<Rightarrow> int \<times> layout option" where
  "flashrom_layout_new alloc_ok = (if \<not> alloc_ok then (1, None) else (0, Some []))"

text \<open>The \<^verbatim>\<open>size_t\<close> bounds are stored in \<^verbatim>\<open>chipoff_t\<close> fields, i.e. modulo \<open>2 ^ 32\<close>; the
  protection flags of the new region are zero-initialised.\<close>

definition flashrom_layout_add_region :: "bool \<Rightarrow> layout \<Rightarrow> nat \<Rightarrow> nat \<Rightarrow> string \<Rightarrow> int \<times> layout" where
  "flashrom_layout_add_region alloc_ok l start fin name =
     (if \<not> alloc_ok then (1, l)
      else (0, \<lparr>re_included = False, re_file = None,
                re_region = \<lparr>fr_name = name, fr_start = u32 start, fr_end = u32 fin,
                             fr_read_prot = False, fr_write_prot = False\<rparr>\<rparr> # l))"

definition c_isspace :: "char \<Rightarrow> bool" where
  "c_isspace c = (let n = (of_char c :: nat) in n = 32 \<or> 9 \<le> n \<and> n \<le> 13)"

fun sanitise_filename :: "string \<Rightarrow> string" where
  "sanitise_filename [] = []"
| "sanitise_filename (c # cs) = (if c_isspace c then CHR ''_'' else c) # sanitise_filename cs"

definition include_region :: "layout \<Rightarrow> string \<Rightarrow> string option \<Rightarrow> int \<times> layout" where
  "include_region l name file =
     (case layout_entry_by_name l name of
        Some i \<Rightarrow>
          (0, l[i := (l ! i)\<lparr>re_included := True,
                             re_file := (case file of Some f \<Rightarrow> Some (sanitise_filename f)
                                         | None \<Rightarrow> re_file (l ! i))\<rparr>])
      | None \<Rightarrow> (1, l))"

definition exclude_region :: "layout \<Rightarrow> string \<Rightarrow> int \<times> layout" where
  "exclude_region l name =
     (case layout_entry_by_name l name of
        Some i \<Rightarrow> (0, l[i := (l ! i)\<lparr>re_included := False\<rparr>])
      | None \<Rightarrow> (1, l))"

definition flashrom_layout_include_region :: "layout \<Rightarrow> string \<Rightarrow> int \<times> layout" where
  "flashrom_layout_include_region l name = include_region l name None"

definition flashrom_layout_exclude_region :: "layout \<Rightarrow> string \<Rightarrow> int \<times> layout" where
  "flashrom_layout_exclude_region l name = exclude_region l name"

text \<open>The start and length of a named region; \<open>None\<close> stands for the result code 1.\<close>

definition flashrom_layout_get_region_range :: "layout \<Rightarrow> string \<Rightarrow> (nat \<times> nat) option" where
  "flashrom_layout_get_region_range l name =
     (case layout_entry_by_name l name of
        Some i \<Rightarrow>
          (let r = re_region (l ! i)
           in Some (fr_start r, add32 (sub32 (fr_end r) (fr_start r)) 1))
      | None \<Rightarrow> None)"

fun prepare_layout_for_extraction :: "layout \<Rightarrow> layout" where
  "prepare_layout_for_extraction [] = []"
| "prepare_layout_for_extraction (e # es) =
     e\<lparr>re_included := True,
       re_file := (case re_file e of
                     None \<Rightarrow> Some (sanitise_filename (fr_name (re_region e)))
                   | Some f \<Rightarrow> Some f)\<rparr>
     # prepare_layout_for_extraction es"

section \<open>Include arguments\<close>

text \<open>\<open>split_colon\<close> is \<^verbatim>\<open>strchr(arg, ':')\<close> with the text before and after the colon.\<close>

fun split_colon :: "string \<Rightarrow> string \<times> string option" where
  "split_colon [] = ([], None)"
| "split_colon (c # cs) =
     (if c = CHR '':'' then ([], Some cs)
      else let (n, f) = split_colon cs in (c # n, f))"

definition parse_include_args :: "string option \<Rightarrow> (string \<times> string option) option" where
  "parse_include_args arg =
     (case arg of
        None \<Rightarrow> None
      | Some a \<Rightarrow>
          (case split_colon a of
             (n, Some f) \<Rightarrow> if f = [] then None else Some (n, Some f)
           | (n, None) \<Rightarrow> Some (a, None)))"

definition register_include_arg ::
    "bool \<Rightarrow> layout_include_args list \<Rightarrow> string option \<Rightarrow> int \<times> layout_include_args list" where
  "register_include_arg alloc_ok args arg =
     (case parse_include_args arg of
        None \<Rightarrow> (1, args)
      | Some (name, file) \<Rightarrow>
          if \<exists>t \<in> set args. ia_name t = name then (1, args)
          else if \<not> alloc_ok then (1, args)
          else (0, \<lparr>ia_name = name, ia_file = file\<rparr> # args))"

definition romentry_exists :: "layout \<Rightarrow> string \<Rightarrow> string option \<Rightarrow> int \<times> layout" where
  "romentry_exists l name file =
     (if l = [] then (-1, l)
      else case include_region l name file of
             (r, l') \<Rightarrow> if r \<noteq> 0 then (-1, l') else (0, l'))"

fun process_include_loop :: "layout \<Rightarrow> layout_include_args list \<Rightarrow> int \<times> layout" where
  "process_include_loop l [] = (0, l)"
| "process_include_loop l (a # as) =
     (case romentry_exists l (ia_name a) (ia_file a) of
        (r, l') \<Rightarrow> if r < 0 then (1, l') else process_include_loop l' as)"

text \<open>The layout pointer may be null.\<close>

definition process_include_args ::
    "layout option \<Rightarrow> layout_include_args list \<Rightarrow> int \<times> layout option" where
  "process_include_args l args =
     (if args = [] then (0, l)
      else case l of
             None \<Rightarrow> (1, None)
           | Some es \<Rightarrow>
               if es = [] then (1, Some es)
               else (case process_include_loop es args of (r, es') \<Rightarrow> (r, Some es')))"

fun check_include_args_filename :: "layout_include_args list \<Rightarrow> int" where
  "check_include_args_filename [] = 0"
| "check_include_args_filename (a # as) =
     (case ia_file a of
        None \<Rightarrow> 1
      | Some f \<Rightarrow> if f = [] then 1 else check_include_args_filename as)"

section \<open>Checks\<close>

fun overlap_with :: "flash_region \<Rightarrow> layout \<Rightarrow> int \<Rightarrow> int" where
  "overlap_with lhsr [] ov = ov"
| "overlap_with lhsr (rhs # es) ov =
     (let rhsr = re_region rhs
      in if \<not> re_included rhs then overlap_with lhsr es ov
         else if fr_start lhsr > fr_end rhsr then overlap_with lhsr es ov
         else if fr_end lhsr < fr_start rhsr then overlap_with lhsr es ov
         else overlap_with lhsr es 1)"

fun included_regions_overlap_loop :: "layout \<Rightarrow> int \<Rightarrow> int" where
  "included_regions_overlap_loop [] ov = ov"
| "included_regions_overlap_loop (lhs # es) ov =
     (if \<not> re_included lhs then included_regions_overlap_loop es ov
      else included_regions_overlap_loop es (overlap_with (re_region lhs) es ov))"

definition included_regions_overlap :: "layout \<Rightarrow> int" where
  "included_regions_overlap l = included_regions_overlap_loop l 0"

text \<open>The body of the loop of \<^verbatim>\<open>layout_sanity_checks\<close>; \<open>total_size\<close> is the chip size in bytes.\<close>

fun sanity_loop :: "nat \<Rightarrow> layout \<Rightarrow> int \<Rightarrow> int" where
  "sanity_loop total_size [] ret = ret"
| "sanity_loop total_size (e # es) ret =
     (let r = re_region e;
          ret1 = (if (fr_start r \<ge> total_size \<or> fr_end r \<ge> total_size) \<and> re_included e
                  then 1 else ret);
          ret2 = (if fr_start r > fr_end r then 1 else ret1)
      in sanity_loop total_size es ret2)"

text \<open>\<open>total_kib\<close> is \<^verbatim>\<open>flash->chip->total_size\<close>, in kilobytes.\<close>

definition layout_sanity_checks :: "nat \<Rightarrow> layout \<Rightarrow> int" where
  "layout_sanity_checks total_kib l = sanity_loop (mul32 total_kib 1024) l 0"

section \<open>Reading a layout file\<close>

text \<open>\<^verbatim>\<open>fscanf("%255s")\<close>: skip white space, then at most 255 other characters.\<close>

fun take_word :: "nat \<Rightarrow> string \<Rightarrow> string \<times> string" where
  "take_word 0 cs = ([], cs)"
| "take_word (Suc n) [] = ([], [])"
| "take_word (Suc n) (c # cs) =
     (if c_isspace c then ([], c # cs)
      else let (w, r) = take_word n cs in (c # w, r))"

definition scan_word :: "string \<Rightarrow> string \<times> string" where
  "scan_word cs = take_word 255 (dropWhile c_isspace cs)"

text \<open>\<^verbatim>\<open>strtok(s, ":")\<close> and a following \<^verbatim>\<open>strtok(NULL, ":")\<close>.\<close>

definition strtok_colon :: "string \<Rightarrow> string option \<times> string" where
  "strtok_colon s =
     (let t = dropWhile (\<lambda>c. c = CHR '':'') s;
          w = takeWhile (\<lambda>c. c \<noteq> CHR '':'') t
      in if t = [] then (None, []) else (Some w, drop (Suc (length w)) t))"

definition hex_digit :: "char \<Rightarrow> nat option" where
  "hex_digit c =
     (let n = (of_char c :: nat)
      in if 48 \<le> n \<and> n \<le> 57 then Some (n - 48)
         else if 65 \<le> n \<and> n \<le> 70 then Some (n - 55)
         else if 97 \<le> n \<and> n \<le> 102 then Some (n - 87)
         else None)"

fun hex_value :: "nat \<Rightarrow> string \<Rightarrow> nat" where
  "hex_value acc [] = acc"
| "hex_value acc (c # cs) =
     (case hex_digit c of None \<Rightarrow> acc | Some d \<Rightarrow> hex_value (16 * acc + d) cs)"

text \<open>\<^verbatim>\<open>strtol(s, NULL, 16)\<close> with a 64-bit \<^verbatim>\<open>long\<close>: white space, sign, optional \<^verbatim>\<open>0x\<close>, digits,
  clamped to the range of the type.\<close>

definition strtol16 :: "string \<Rightarrow> int" where
  "strtol16 s0 =
     (let s = dropWhile c_isspace s0;
          (neg, s) = (case s of [] \<Rightarrow> (False, [])
                      | c # cs \<Rightarrow> if c = CHR ''-'' then (True, cs)
                                 else if c = CHR ''+'' then (False, cs) else (False, c # cs));
          s = (case s of
                 c0 # c1 # c2 # cs \<Rightarrow>
                   if c0 = CHR ''0'' \<and> (c1 = CHR ''x'' \<or> c1 = CHR ''X'') \<and> hex_digit c2 \<noteq> None
                   then c2 # cs else s
               | _ \<Rightarrow> s);
          v = int (hex_value 0 s);
          v = (if neg then - v else v)
      in max (- 9223372036854775808) (min 9223372036854775807 v))"

definition size_t_of_long :: "int \<Rightarrow> nat" where
  "size_t_of_long v = nat (v mod 18446744073709551616)"

lemma take_word_length: "length (snd (take_word n cs)) \<le> length cs"
  by (induction n cs rule: take_word.induct) (auto split: prod.splits)

lemma take_word_rest: "take_word n cs = (w, r) \<Longrightarrow> length w + length r = length cs"
  by (induction n cs arbitrary: w r rule: take_word.induct) (auto split: prod.splits if_splits)

lemma scan_word_shrinks: "scan_word cs = (w, r) \<Longrightarrow> w \<noteq> [] \<Longrightarrow> length r < length cs"
proof -
  assume a: "scan_word cs = (w, r)" and w: "w \<noteq> []"
  have "length w + length r = length (dropWhile c_isspace cs)"
    using a by (simp add: scan_word_def take_word_rest)
  moreover have "length (dropWhile c_isspace cs) \<le> length cs" by (rule length_dropWhile_le)
  ultimately show ?thesis using w by (cases w) auto
qed

lemma scan_word_length: "scan_word cs = (w, r) \<Longrightarrow> length r \<le> length cs"
  using scan_word_shrinks [of cs w r] take_word_rest [of 255 "dropWhile c_isspace cs" w r]
    length_dropWhile_le [of c_isspace cs]
  by (simp add: scan_word_def)

lemma scan_two_shrinks:
  assumes "scan_word inp = (w1, r1)" and "w1 \<noteq> []" and "scan_word r1 = (w2, r2)"
  shows "length (dropWhile c_isspace r2) < length inp"
proof -
  have "length r1 < length inp" and "length r2 \<le> length r1"
    using assms scan_word_shrinks scan_word_length by blast+
  then show ?thesis using length_dropWhile_le [of c_isspace r2] by linarith
qed

text \<open>The \<^verbatim>\<open>while (!feof(romlayout))\<close> loop: an iteration that cannot read two words has reached
  the end of the file; one that read two has reached it when only white space is left, which
  the trailing newline of the format consumes.\<close>

function layout_file_loop :: "bool \<Rightarrow> layout \<Rightarrow> string \<Rightarrow> int \<times> layout" where
  "layout_file_loop alloc_ok l inp =
     (case scan_word inp of
        (w1, r1) \<Rightarrow> if w1 = [] then (0, l) else
     (case scan_word r1 of
        (w2, r2) \<Rightarrow> if w2 = [] then (0, l) else
     (case strtok_colon w1 of
        (None, _) \<Rightarrow> (1, l)
      | (Some t1, rest) \<Rightarrow>
     (case strtok_colon rest of
        (None, _) \<Rightarrow> (1, l)
      | (Some t2, _) \<Rightarrow>
     (case flashrom_layout_add_region alloc_ok l
             (size_t_of_long (strtol16 t1)) (size_t_of_long (strtol16 t2)) w2 of
        (r, l') \<Rightarrow> if r \<noteq> 0 then (1, l') else
     (let r3 = dropWhile c_isspace r2
      in if r3 = [] then (0, l') else layout_file_loop alloc_ok l' r3))))))"
  by pat_completeness auto
termination
  by (relation "measure (\<lambda>(a, l, inp). length inp)")
    (auto intro: scan_two_shrinks [OF sym _ sym])

declare layout_file_loop.simps [simp del]

text \<open>\<open>file\<close> is the contents of the layout file, \<open>None\<close> when it cannot be opened; the flags are the
  outcomes of the allocations of the layout and of its entries.\<close>

definition layout_from_file ::
    "bool \<Rightarrow> bool \<Rightarrow> string option \<Rightarrow> int \<times> layout option" where
  "layout_from_file new_ok alloc_ok file =
     (case flashrom_layout_new new_ok of
        (r, None) \<Rightarrow> (1, None)
      | (r, Some l) \<Rightarrow>
          if r \<noteq> 0 then (1, Some l)
          else (case file of
                  None \<Rightarrow> (-1, Some l)
                | Some inp \<Rightarrow>
                    (case layout_file_loop alloc_ok l inp of (r, l') \<Rightarrow> (r, Some l'))))"

section \<open>Walking the included entries\<close>

text \<open>The entries that a loop \<^verbatim>\<open>while ((entry = layout_next_included(layout, entry)))\<close> visits when it
  continues from the iterator \<open>it\<close>.\<close>

lemma skip_excluded_length: "length (skip_excluded es) \<le> length es"
  by (induction es) auto

function walk_included :: "layout \<Rightarrow> layout \<Rightarrow> romentry list" where
  "walk_included l it =
     (case layout_next_included l it of
        [] \<Rightarrow> []
      | e # nxt \<Rightarrow> e # walk_included l (e # nxt))"
  by pat_completeness auto
termination
proof (relation "measure (\<lambda>(l, it). if it = [] then Suc (length l) else length it)", simp)
  fix l it :: layout and e nxt
  assume "layout_next_included l it = e # nxt"
  then have "length (e # nxt) \<le> length (layout_next l it)"
    by (metis layout_next_included_def skip_excluded_length)
  then show "((l, e # nxt), (l, it)) \<in>
      measure (\<lambda>(l, it). if it = [] then Suc (length l) else length it)"
    by (cases it) (auto simp: layout_next_def)
qed

declare walk_included.simps [simp del]

lemma walk_included_from: "walk_included l (e # es) = filter re_included es"
proof (induction es arbitrary: e)
  case Nil
  then show ?case
    by (subst walk_included.simps) (simp add: layout_next_included_def layout_next_def)
next
  case (Cons x es)
  have step: "walk_included l (e # x # es) =
      (case skip_excluded (x # es) of [] \<Rightarrow> [] | y # n \<Rightarrow> y # walk_included l (y # n))"
    by (subst walk_included.simps) (simp add: layout_next_included_def layout_next_def)
  have step': "walk_included l (e # es) =
      (case skip_excluded es of [] \<Rightarrow> [] | y # n \<Rightarrow> y # walk_included l (y # n))"
    by (subst walk_included.simps) (simp add: layout_next_included_def layout_next_def)
  show ?case using Cons.IH step step' by (cases "re_included x") auto
qed

lemma walk_included_all [simp]: "walk_included l [] = filter re_included l"
proof -
  have "walk_included l [] = walk_included l (undefined # l)"
    by (subst (1 2) walk_included.simps) (simp add: layout_next_included_def layout_next_def)
  then show ?thesis by (simp add: walk_included_from)
qed

section \<open>A sample layout\<close>

text \<open>The two-region layout that the instances below are evaluated on: a 4 KiB boot block that is
  included and an excluded main region on an 8 KiB chip.\<close>

definition sample_entry :: "bool \<Rightarrow> string \<Rightarrow> nat \<Rightarrow> nat \<Rightarrow> romentry" where
  "sample_entry inc name a b =
     \<lparr>re_included = inc, re_file = None,
      re_region = \<lparr>fr_name = name, fr_start = a, fr_end = b,
                   fr_read_prot = False, fr_write_prot = False\<rparr>\<rparr>"

definition sample_layout :: layout where
  "sample_layout = [sample_entry True ''boot'' 0 4095, sample_entry False ''main'' 4096 8191]"

lemmas sample_layout_simps = sample_layout_def sample_entry_def

section \<open>The lowest included region above an address\<close>

text \<open>The candidates that \<^verbatim>\<open>layout_next_included_region\<close> chooses from.\<close>

definition candidates :: "layout \<Rightarrow> nat \<Rightarrow> romentry list" where
  "candidates l wh = filter (\<lambda>e. re_included e \<and> wh \<le> fr_end (re_region e)) l"

definition lowest_of :: "romentry option \<Rightarrow> romentry list \<Rightarrow> romentry \<Rightarrow> bool" where
  "lowest_of low es e \<longleftrightarrow>
     e \<in> set_option low \<union> set es \<and>
     (\<forall>x \<in> set_option low \<union> set es. fr_start (re_region e) \<le> fr_start (re_region x))"

lemma next_included_region_loop_cases:
  "(case next_included_region_loop low l wh of
      None \<Rightarrow> low = None \<and> candidates l wh = []
    | Some e \<Rightarrow> lowest_of low (candidates l wh) e)"
proof (induction low l wh rule: next_included_region_loop.induct)
  case (1 low wh)
  then show ?case by (auto simp: candidates_def lowest_of_def split: option.splits)
next
  case (2 low e es wh)
  consider (skip) "\<not> re_included e \<or> fr_end (re_region e) < wh"
    | (take) "re_included e" "wh \<le> fr_end (re_region e)" by fastforce
  then show ?case
  proof cases
    case skip
    then have c: "candidates (e # es) wh = candidates es wh" by (auto simp: candidates_def)
    from skip have n: "next_included_region_loop low (e # es) wh = next_included_region_loop low es wh"
      by auto
    from skip 2 show ?thesis unfolding c n by (cases "re_included e") auto
  next
    case take
    then have c: "candidates (e # es) wh = e # candidates es wh" by (auto simp: candidates_def)
    have "\<not> fr_end (re_region e) < wh" using take by simp
    note IH = "2"(3) [OF _ this]
    show ?thesis
      using IH take unfolding c
      by (cases low) (auto simp: lowest_of_def split: option.splits if_splits)
  qed
qed

text \<open>\<^verbatim>\<open>layout_next_included_region\<close> returns nothing exactly when no included region ends at or after the given
  address, and otherwise an included region ending there whose start is the lowest among all such regions.\<close>

theorem layout_next_included_region_spec:
  "case layout_next_included_region l wh of
     None \<Rightarrow> \<not> (\<exists>e \<in> set l. re_included e \<and> wh \<le> fr_end (re_region e))
   | Some e \<Rightarrow> e \<in> set l \<and> re_included e \<and> wh \<le> fr_end (re_region e) \<and>
       Min (fr_start ` re_region ` {x \<in> set l. re_included x \<and> wh \<le> fr_end (re_region x)}) =
         fr_start (re_region e)"
proof (cases "layout_next_included_region l wh")
  case None
  then show ?thesis
    using next_included_region_loop_cases [of None l wh]
    by (auto simp: layout_next_included_region_def candidates_def filter_empty_conv)
next
  case (Some e)
  then have low: "lowest_of None (candidates l wh) e"
    using next_included_region_loop_cases [of None l wh]
    by (simp add: layout_next_included_region_def)
  then have "Min (fr_start ` re_region ` {x \<in> set l. re_included x \<and> wh \<le> fr_end (re_region x)}) =
      fr_start (re_region e)"
    by (intro Min_eqI) (auto simp: lowest_of_def candidates_def)
  with low Some show ?thesis by (auto simp: lowest_of_def candidates_def)
qed

lemma layout_next_included_region_None:
  "layout_next_included_region l wh = None \<longleftrightarrow>
     (\<forall>e \<in> set l. re_included e \<longrightarrow> fr_end (re_region e) < wh)"
  using next_included_region_loop_cases [of None l wh]
  by (auto simp: layout_next_included_region_def candidates_def filter_empty_conv lowest_of_def
      not_less split: option.splits)

lemma layout_next_included_region_Some:
  assumes "layout_next_included_region l wh = Some e"
  shows "e \<in> set l" and "re_included e" and "wh \<le> fr_end (re_region e)"
    and "\<And>x. x \<in> set l \<Longrightarrow> re_included x \<Longrightarrow> wh \<le> fr_end (re_region x) \<Longrightarrow>
           fr_start (re_region e) \<le> fr_start (re_region x)"
  using assms next_included_region_loop_cases [of None l wh]
  by (auto simp: layout_next_included_region_def candidates_def lowest_of_def)

section \<open>Overlap and sanity checks\<close>

definition region_addrs :: "flash_region \<Rightarrow> nat set" where
  "region_addrs r = {fr_start r..fr_end r}"

definition regions_meet :: "flash_region \<Rightarrow> flash_region \<Rightarrow> bool" where
  "regions_meet a b \<longleftrightarrow> fr_start a \<le> fr_end b \<and> fr_start b \<le> fr_end a"

lemma overlap_with_eq:
  "overlap_with r es ov =
     (if \<exists>e \<in> set es. re_included e \<and> regions_meet r (re_region e) then 1 else ov)"
  by (induction r es ov rule: overlap_with.induct) (auto simp: regions_meet_def Let_def)

lemma included_regions_overlap_loop_eq:
  "included_regions_overlap_loop l ov =
     (if sorted_wrt (\<lambda>a b. \<not> regions_meet (re_region a) (re_region b)) (filter re_included l)
      then ov else 1)"
  by (induction l ov rule: included_regions_overlap_loop.induct) (auto simp: overlap_with_eq)

lemma regions_meet_iff:
  "fr_start a \<le> fr_end a \<Longrightarrow> fr_start b \<le> fr_end b \<Longrightarrow>
     regions_meet a b \<longleftrightarrow> region_addrs a \<inter> region_addrs b \<noteq> {}"
  by (auto simp: regions_meet_def region_addrs_def Int_atLeastAtMost)

text \<open>If every included region has a positive size, \<^verbatim>\<open>included_regions_overlap\<close> returns 0 exactly when no two
  included regions share an address.\<close>

theorem included_regions_overlap_iff:
  assumes "\<forall>e \<in> set l. re_included e \<longrightarrow> fr_start (re_region e) \<le> fr_end (re_region e)"
  shows "included_regions_overlap l = 0 \<longleftrightarrow>
    sorted_wrt (\<lambda>a b. region_addrs (re_region a) \<inter> region_addrs (re_region b) = {})
      (filter re_included l)"
proof -
  have "sorted_wrt (\<lambda>a b. \<not> regions_meet (re_region a) (re_region b)) (filter re_included l) =
    sorted_wrt (\<lambda>a b. region_addrs (re_region a) \<inter> region_addrs (re_region b) = {})
      (filter re_included l)"
    using assms by (intro sorted_wrt_same) (auto simp: regions_meet_iff)
  then show ?thesis by (simp add: included_regions_overlap_def included_regions_overlap_loop_eq)
qed

theorem included_regions_overlap_witness: "included_regions_overlap sample_layout = 0"
  using included_regions_overlap_iff [of sample_layout] by (simp add: sample_layout_simps)

lemma sanity_loop_eq:
  "sanity_loop n l ret =
     (if \<forall>e \<in> set l. fr_start (re_region e) \<le> fr_end (re_region e) \<and>
           (re_included e \<longrightarrow> fr_start (re_region e) < n \<and> fr_end (re_region e) < n)
      then ret else 1)"
  by (induction n l ret rule: sanity_loop.induct) (auto simp: Let_def not_le not_less)

text \<open>A layout passes \<^verbatim>\<open>layout_sanity_checks\<close> exactly when every region has a positive size and every included
  region lies inside the chip.\<close>

theorem layout_sanity_checks_iff:
  "layout_sanity_checks kib l = 0 \<longleftrightarrow>
     (\<forall>e \<in> set l. fr_start (re_region e) \<le> fr_end (re_region e) \<and>
        (re_included e \<longrightarrow> fr_end (re_region e) < mul32 kib 1024))"
  by (auto simp: layout_sanity_checks_def sanity_loop_eq)

theorem layout_sanity_checks_witness: "layout_sanity_checks 8 sample_layout = 0"
  using layout_sanity_checks_iff [of 8 sample_layout] by (simp add: sample_layout_simps mul32_def)

lemma layout_sanity_checksD:
  assumes "layout_sanity_checks kib l = 0" and "e \<in> set l" and "re_included e"
  shows "fr_start (re_region e) \<le> fr_end (re_region e)"
    and "fr_end (re_region e) < mul32 kib 1024"
  using assms by (auto simp: layout_sanity_checks_def sanity_loop_eq split: if_splits)

section \<open>Include arguments select named entries\<close>

text \<open>Looking a name up depends on the names only, which including an entry does not change.\<close>

abbreviation entry_names :: "layout \<Rightarrow> string list" where
  "entry_names l \<equiv> map (\<lambda>e. fr_name (re_region e)) l"

lemma layout_entry_by_name_Some:
  "layout_entry_by_name l name = Some i \<Longrightarrow> i < length l \<and> fr_name (re_region (l ! i)) = name"
  by (induction l name arbitrary: i rule: layout_entry_by_name.induct) (auto split: if_splits)

lemma layout_entry_by_name_None:
  "layout_entry_by_name l name = None \<longleftrightarrow> name \<notin> set (entry_names l)"
  by (induction l name rule: layout_entry_by_name.induct) auto

lemma layout_entry_by_name_cong:
  "entry_names l = entry_names l' \<Longrightarrow> layout_entry_by_name l name = layout_entry_by_name l' name"
proof (induction l name arbitrary: l' rule: layout_entry_by_name.induct)
  case (1 name)
  then show ?case by simp
next
  case (2 e es name)
  then obtain e' es' where "l' = e' # es'" by (cases l') auto
  with 2 show ?case by auto
qed

lemma entry_names_update:
  "fr_name (re_region e) = fr_name (re_region (l ! i)) \<Longrightarrow> entry_names (l[i := e]) = entry_names l"
  by (cases "i < length l") (auto simp: map_update list_update_same_conv list_update_beyond)

lemma include_region_names [simp]: "entry_names (snd (include_region l name file)) = entry_names l"
  by (auto simp: include_region_def entry_names_update split: option.splits)

lemma include_region_length [simp]: "length (snd (include_region l name file)) = length l"
  by (auto simp: include_region_def split: option.splits)

lemma include_region_included:
  assumes "i < length l"
  shows "re_included (snd (include_region l name file) ! i) \<longleftrightarrow>
           re_included (l ! i) \<or> layout_entry_by_name l name = Some i"
  using assms
  by (auto simp: include_region_def nth_list_update split: option.splits dest: layout_entry_by_name_Some)

lemma include_region_regions:
  "i < length l \<Longrightarrow> re_region (snd (include_region l name file) ! i) = re_region (l ! i)"
  by (auto simp: include_region_def nth_list_update split: option.splits
      dest: layout_entry_by_name_Some)

lemma process_include_loop_spec:
  assumes "l \<noteq> []" and "process_include_loop l args = (r, l')"
  shows "(r = 0 \<longleftrightarrow> ia_name ` set args \<subseteq> set (entry_names l)) \<and>
    length l' = length l \<and> entry_names l' = entry_names l \<and>
    (r = 0 \<longrightarrow> (\<forall>i < length l. re_included (l' ! i) \<longleftrightarrow>
       re_included (l ! i) \<or> (\<exists>a \<in> set args. layout_entry_by_name l (ia_name a) = Some i)))"
  using assms
proof (induction l args rule: process_include_loop.induct)
  case (1 l)
  then show ?case by simp
next
  case (2 l a as)
  let ?l1 = "snd (include_region l (ia_name a) (ia_file a))"
  show ?case
  proof (cases "layout_entry_by_name l (ia_name a)")
    case None
    then have "process_include_loop l (a # as) = (1, l)"
      using \<open>l \<noteq> []\<close> by (simp add: romentry_exists_def include_region_def)
    with 2 None show ?thesis by (auto simp: layout_entry_by_name_None)
  next
    case (Some k)
    then have "fst (include_region l (ia_name a) (ia_file a)) = 0" by (simp add: include_region_def)
    then have ex: "romentry_exists l (ia_name a) (ia_file a) = (0, ?l1)"
      using \<open>l \<noteq> []\<close> by (cases "include_region l (ia_name a) (ia_file a)") (auto simp: romentry_exists_def)
    have ne: "?l1 \<noteq> []" using \<open>l \<noteq> []\<close> by (metis include_region_length length_0_conv)
    have rec: "process_include_loop ?l1 as = (r, l')" using 2(3) ex by simp
    note IH = 2(1) [OF ex [symmetric] _ ne rec, simplified]
    have names: "\<And>n. layout_entry_by_name ?l1 n = layout_entry_by_name l n"
      by (rule layout_entry_by_name_cong) simp
    have "ia_name a \<in> set (entry_names l)"
      using Some layout_entry_by_name_None [of l "ia_name a"] by force
    with IH Some show ?thesis by (auto simp: names include_region_included)
  qed
qed

text \<open>Processing a non-empty list of \<^verbatim>\<open>-i\<close> arguments against a non-empty layout succeeds exactly when every
  argument names a region of the layout; on success the included regions are those that were included before and
  the first region of each given name, and the layout has the same regions in the same order.\<close>

theorem process_include_args_spec:
  assumes "l \<noteq> []" and "args \<noteq> []" and "process_include_args (Some l) args = (r, Some l')"
  shows "(r = 0 \<longleftrightarrow> ia_name ` set args \<subseteq> set (entry_names l)) \<and>
    length l' = length l \<and> entry_names l' = entry_names l \<and>
    (r = 0 \<longrightarrow> (\<forall>i < length l. re_included (l' ! i) \<longleftrightarrow>
       re_included (l ! i) \<or> (\<exists>a \<in> set args. layout_entry_by_name l (ia_name a) = Some i)))"
proof (rule process_include_loop_spec)
  show "l \<noteq> []" by (rule assms(1))
  show "process_include_loop l args = (r, l')"
    using assms by (auto simp: process_include_args_def split: prod.splits)
qed

theorem process_include_args_witness:
  "fst (process_include_args (Some sample_layout) [\<lparr>ia_name = ''main'', ia_file = None\<rparr>]) = 0"
proof -
  have ne: "sample_layout \<noteq> []" by (simp add: sample_layout_simps)
  obtain r l' where "process_include_loop sample_layout [\<lparr>ia_name = ''main'', ia_file = None\<rparr>] = (r, l')"
    by fastforce
  with ne have r: "process_include_args (Some sample_layout) [\<lparr>ia_name = ''main'', ia_file = None\<rparr>] =
      (r, Some l')"
    by (simp add: process_include_args_def)
  from process_include_args_spec [OF ne _ r] have "r = 0" by (simp add: sample_layout_simps)
  with r show ?thesis by simp
qed

section \<open>Layout files\<close>

text \<open>A layout file in the documented form: one line \<^verbatim>\<open>start:end name\<close> per region, with hexadecimal
  bounds.\<close>

definition hex_char :: "nat \<Rightarrow> char" where
  "hex_char d = (if d < 10 then char_of (48 + d) else char_of (87 + d))"

fun to_hex :: "nat \<Rightarrow> string" where
  "to_hex n = (if n < 16 then [hex_char n] else to_hex (n div 16) @ [hex_char (n mod 16)])"

declare to_hex.simps [simp del]

definition print_region :: "nat \<times> nat \<times> string \<Rightarrow> string" where
  "print_region = (\<lambda>(a, b, name). to_hex a @ '':'' @ to_hex b @ '' '' @ name @ [CHR 0x0A])"

definition new_entry :: "nat \<times> nat \<times> string \<Rightarrow> romentry" where
  "new_entry = (\<lambda>(a, b, name).
     \<lparr>re_included = False, re_file = None,
      re_region = \<lparr>fr_name = name, fr_start = a, fr_end = b,
                   fr_read_prot = False, fr_write_prot = False\<rparr>\<rparr>)"

definition valid_name :: "string \<Rightarrow> bool" where
  "valid_name name \<longleftrightarrow> name \<noteq> [] \<and> length name \<le> 255 \<and> (\<forall>c \<in> set name. \<not> c_isspace c)"

definition lower_hex :: "char \<Rightarrow> bool" where
  "lower_hex c \<longleftrightarrow> (\<exists>d < 16. c = hex_char d)"

lemma hex_digit_hex_char: "d < 16 \<Longrightarrow> hex_digit (hex_char d) = Some d"
  by (auto simp: hex_digit_def hex_char_def Let_def of_char_of)

lemma lower_hex_props:
  assumes "lower_hex c"
  shows "\<not> c_isspace c" and "c \<noteq> CHR '':''" and "c \<noteq> CHR ''-''" and "c \<noteq> CHR ''+''"
    and "c \<noteq> CHR ''x''" and "c \<noteq> CHR ''X''"
proof -
  obtain d where d: "d < 16" "c = hex_char d" using assms by (auto simp: lower_hex_def)
  have dig: "hex_digit c = Some d" using d by (simp add: hex_digit_hex_char)
  show "\<not> c_isspace c"
    using dig by (auto simp: c_isspace_def hex_digit_def Let_def split: if_splits)
  show "c \<noteq> CHR '':''" and "c \<noteq> CHR ''-''" and "c \<noteq> CHR ''+''" and "c \<noteq> CHR ''x''" and "c \<noteq> CHR ''X''"
    using dig by (auto simp: hex_digit_def)
qed

lemma to_hex_chars: "c \<in> set (to_hex n) \<Longrightarrow> lower_hex c"
proof (induction n rule: to_hex.induct)
  case (1 n)
  then show ?case
    by (cases "n < 16") (auto simp: to_hex.simps [of n] lower_hex_def intro: exI [of _ "n mod 16"])
qed

lemma to_hex_nonempty: "to_hex n \<noteq> []"
  by (subst to_hex.simps) simp

lemma to_hex_length: "n < 16 ^ k \<Longrightarrow> 0 < k \<Longrightarrow> length (to_hex n) \<le> k"
proof (induction n arbitrary: k rule: to_hex.induct)
  case (1 n)
  show ?case
  proof (cases "n < 16")
    case True
    with "1.prems" show ?thesis by (simp add: to_hex.simps [of n])
  next
    case False
    with "1.prems" have k: "1 < k" by (cases k) (auto, metis One_nat_def neq0_conv power_0 mult_1_right)
    have "n div 16 < 16 ^ (k - 1)"
      using "1.prems" k by (simp add: less_mult_imp_div_less power_eq_if mult.commute)
    with "1.IH" [OF False] k have "length (to_hex (n div 16)) \<le> k - 1" by simp
    with False k show ?thesis by (simp add: to_hex.simps [of n])
  qed
qed

lemma hex_value_append:
  "\<forall>c \<in> set s. hex_digit c \<noteq> None \<Longrightarrow> hex_value acc (s @ t) = hex_value (hex_value acc s) t"
  by (induction acc s rule: hex_value.induct) auto

lemma hex_value_to_hex: "hex_value 0 (to_hex n) = n"
proof (induction n rule: to_hex.induct)
  case (1 n)
  have dig: "\<forall>c \<in> set (to_hex (n div 16)). hex_digit c \<noteq> None"
    using to_hex_chars by (fastforce simp: lower_hex_def hex_digit_hex_char)
  show ?case
  proof (cases "n < 16")
    case True
    then show ?thesis by (simp add: to_hex.simps [of n] hex_digit_hex_char)
  next
    case False
    with "1.IH" dig show ?thesis
      by (simp add: to_hex.simps [of n] hex_value_append hex_digit_hex_char)
  qed
qed

lemma strtol16_to_hex: "n < 4294967296 \<Longrightarrow> strtol16 (to_hex n) = int n"
proof -
  assume n: "n < 4294967296"
  obtain c cs where s: "to_hex n = c # cs" using to_hex_nonempty by (cases "to_hex n") auto
  have c: "lower_hex c" and cs: "\<forall>x \<in> set cs. lower_hex x"
    using to_hex_chars [of _ n] s by auto
  have "hex_value 0 (c # cs) = n" using hex_value_to_hex [of n] s by simp
  with n c cs s show ?thesis
    by (cases cs rule: list.exhaust)
      (auto simp: strtol16_def lower_hex_props split: list.splits)
qed

lemma take_word_Nil: "take_word n [] = ([], [])"
  by (cases n) auto

lemma take_word_append:
  "\<forall>c \<in> set w. \<not> c_isspace c \<Longrightarrow> length w \<le> n \<Longrightarrow> c_isspace c \<Longrightarrow>
     take_word n (w @ c # r) = (w, c # r)"
proof (induction w arbitrary: n)
  case Nil
  then show ?case by (cases n) auto
next
  case (Cons x w)
  then obtain m where "n = Suc m" by (cases n) auto
  with Cons show ?case by simp
qed

lemma scan_word_append:
  assumes "w \<noteq> []" and "\<forall>c \<in> set w. \<not> c_isspace c" and "length w \<le> 255" and "c_isspace c"
    and "\<forall>c \<in> set ws. c_isspace c"
  shows "scan_word (ws @ w @ c # r) = (w, c # r)"
proof -
  have "dropWhile c_isspace (ws @ w @ c # r) = w @ c # r"
    using assms(1,2,5) by (cases w) (auto simp: dropWhile_append)
  then show ?thesis using assms by (simp add: scan_word_def take_word_append)
qed

lemma strtok_colon_hex:
  assumes "\<forall>c \<in> set w. c \<noteq> CHR '':''" and "w \<noteq> []"
  shows "strtok_colon (w @ CHR '':'' # r) = (Some w, r)" and "strtok_colon w = (Some w, [])"
proof -
  have d: "dropWhile (\<lambda>c. c = CHR '':'') (w @ t) = w @ t" for t
    using assms by (cases w) auto
  have t1: "takeWhile (\<lambda>c. c \<noteq> CHR '':'') (w @ CHR '':'' # r) = w"
    using assms(1) by (simp add: takeWhile_append2)
  have t2: "takeWhile (\<lambda>c. c \<noteq> CHR '':'') w = w"
    using assms(1) by (simp add: takeWhile_eq_all_conv)
  show "strtok_colon (w @ CHR '':'' # r) = (Some w, r)"
    using d [of "CHR '':'' # r"] t1 assms(2) by (simp add: strtok_colon_def Let_def)
  show "strtok_colon w = (Some w, [])"
    using d [of "[]"] assms(2)
    by (simp add: strtok_colon_def Let_def t2 del: takeWhile_eq_all_conv)
qed

lemma layout_file_loop_print:
  assumes "\<forall>(a, b, name) \<in> set rs. a < 4294967296 \<and> b < 4294967296 \<and> valid_name name"
  shows "layout_file_loop True l (concat (map print_region rs)) = (0, rev (map new_entry rs) @ l)"
  using assms
proof (induction rs arbitrary: l)
  case Nil
  then show ?case by (subst layout_file_loop.simps) (simp add: scan_word_def take_word_Nil)
next
  case (Cons x rs)
  obtain a b name where x: "x = (a, b, name)" by (cases x) auto
  with Cons.prems have ab: "a < 4294967296" "b < 4294967296" and nm: "valid_name name" by auto
  define rest where "rest = concat (map print_region rs)"
  let ?w1 = "to_hex a @ CHR '':'' # to_hex b"
  have len: "length ?w1 \<le> 255"
    using to_hex_length [of a 8] to_hex_length [of b 8] ab by simp
  have hex: "\<forall>c \<in> set (to_hex n). \<not> c_isspace c \<and> c \<noteq> CHR '':''" for n
    using to_hex_chars lower_hex_props by blast
  have sp: "c_isspace CHR '' ''" "c_isspace (CHR 0x0A)" "\<not> c_isspace CHR '':''"
    by (simp_all add: c_isspace_def)
  have inp: "concat (map print_region (x # rs)) =
      [] @ ?w1 @ CHR '' '' # name @ CHR 0x0A # rest"
    by (simp add: x print_region_def rest_def)
  have s1: "scan_word (concat (map print_region (x # rs))) = (?w1, CHR '' '' # name @ CHR 0x0A # rest)"
    unfolding inp by (rule scan_word_append) (use len hex sp in auto)
  have s2: "scan_word (CHR '' '' # name @ CHR 0x0A # rest) = (name, CHR 0x0A # rest)"
    using scan_word_append [of name "CHR 0x0A" "[CHR '' '']" rest] nm sp
    by (simp add: valid_name_def)
  have t: "strtok_colon ?w1 = (Some (to_hex a), to_hex b)" "strtok_colon (to_hex b) = (Some (to_hex b), [])"
    using strtok_colon_hex hex to_hex_nonempty by auto
  have conv: "u32 (size_t_of_long (strtol16 (to_hex n))) = n" if "n < 4294967296" for n
    using that by (simp add: strtol16_to_hex size_t_of_long_def u32_def mod_pos_pos_trivial)
  have add: "flashrom_layout_add_region True l (size_t_of_long (strtol16 (to_hex a)))
      (size_t_of_long (strtol16 (to_hex b))) name = (0, new_entry x # l)"
    by (simp add: flashrom_layout_add_region_def new_entry_def x conv ab)
  have drop: "dropWhile c_isspace (CHR 0x0A # rest) = rest"
  proof (cases rs)
    case Nil
    then show ?thesis by (simp add: sp rest_def)
  next
    case (Cons y ys)
    obtain a' b' n' where y: "y = (a', b', n')" by (cases y) auto
    then show ?thesis
      using Cons sp hex [of a'] to_hex_nonempty [of a']
      by (cases "to_hex a'") (auto simp: print_region_def rest_def)
  qed
  show ?case
  proof (cases "rs = []")
    case True
    then have "rest = []" by (simp add: rest_def)
    with True show ?thesis using s1 s2 t add drop nm
      by (subst layout_file_loop.simps) (simp add: valid_name_def del: dropWhile.simps dropWhile_eq_Nil_conv)
  next
    case False
    then have ne: "rest \<noteq> []" by (cases rs) (auto simp: print_region_def rest_def split: prod.splits)
    have IH: "layout_file_loop True (new_entry x # l) rest = (0, rev (map new_entry rs) @ new_entry x # l)"
      unfolding rest_def using Cons by auto
    show ?thesis using s1 s2 t add drop nm ne IH
      by (subst layout_file_loop.simps) (simp add: valid_name_def del: dropWhile.simps dropWhile_eq_Nil_conv)
  qed
qed

text \<open>C26: reading back a layout file written in the documented format gives the regions of the
  file, not included and last region first, provided the bounds fit in 32 bits and the names
  are non-empty, have no white space and at most 255 characters.\<close>

theorem layout_from_file_roundtrip:
  assumes "\<forall>(a, b, name) \<in> set rs. a < 4294967296 \<and> b < 4294967296 \<and> valid_name name"
  shows "layout_from_file True True (Some (concat (map print_region rs))) =
           (0, Some (rev (map new_entry rs)))"
  using layout_file_loop_print [OF assms, of "[]"]
  by (simp add: layout_from_file_def flashrom_layout_new_def)

theorem layout_from_file_roundtrip_witness:
  "layout_from_file True True
     (Some (print_region (0, 4095, ''boot'') @ print_region (4096, 8191, ''main''))) =
   (0, Some [new_entry (4096, 8191, ''main''), new_entry (0, 4095, ''boot'')])"
  using layout_from_file_roundtrip [of "[(0, 4095, ''boot''), (4096, 8191, ''main'')]"]
  by (simp add: valid_name_def c_isspace_def)

end
