(* ===== verification/FlashCtx.thy ===== *)
theory FlashCtx
  imports Layout
begin

text \<open>
  The data model of \<^verbatim>\<open>flashrom/include/flash.h\<close> and \<^verbatim>\<open>include/programmer.h\<close>: chip
  descriptions, programmer masters and the flash context that every operation receives, with
  the small queries on them (\<^verbatim>\<open>flashrom.c\<close>).

  The context is polymorphic in \<open>'s\<close>, the state of the programmer and the chip behind it. The
  driver functions that the chip description names (\<^verbatim>\<open>chip->read\<close>, \<^verbatim>\<open>chip->write\<close>,
  \<^verbatim>\<open>block_eraser.block_erase\<close>) are enumeration values, looked up in a table of functions on
  that state, as the \<^verbatim>\<open>lookup_*_func_ptr\<close> functions do.
\<close>

section \<open>Enumerations\<close>

datatype write_granularity =
    WRITE_GRAN_256BYTES
  | WRITE_GRAN_1BIT
  | WRITE_GRAN_1BYTE
  | WRITE_GRAN_128BYTES
  | WRITE_GRAN_264BYTES
  | WRITE_GRAN_512BYTES
  | WRITE_GRAN_528BYTES
  | WRITE_GRAN_1024BYTES
  | WRITE_GRAN_1056BYTES
  | WRITE_GRAN_1BYTE_IMPLICIT_ERASE

datatype test_state = OK | NT | BAD | DEP | NA

datatype spi_cmd_set = SPI25 | SPI_EDI

datatype probe_func =
    NO_PROBE_FUNC | PROBE_JEDEC | PROBE_JEDEC_29GL | PROBE_OPAQUE | PROBE_EDI_KB9012 | PROBE_AT82802AB
  | PROBE_W29EE011 | PROBE_EN29LV640B | PROBE_SPI_AT25F | PROBE_SPI_AT45DB | PROBE_SPI_AT45DB_E
  | PROBE_SPI_BIG_SPANSION | PROBE_SPI_RDID | PROBE_SPI_RDID4 | PROBE_SPI_REMS | PROBE_SPI_RES1
  | PROBE_SPI_RES2 | PROBE_SPI_SFDP | PROBE_SPI_ST95

datatype write_func =
    NO_WRITE_FUNC | WRITE_JEDEC | WRITE_JEDEC1 | WRITE_OPAQUE | SPI_CHIP_WRITE1
  | SPI_CHIP_WRITE256 | SPI_WRITE_AAI | SPI_WRITE_AT45DB | WRITE_28SF040 | WRITE_82802AB
  | WRITE_EN29LV640B | EDI_CHIP_WRITE

datatype read_func =
    NO_READ_FUNC | SPI_CHIP_READ | READ_OPAQUE | READ_MEMMAPPED | EDI_CHIP_READ
  | SPI_READ_AT45DB | SPI_READ_AT45DB_E8

datatype block_erase_func =
    NO_BLOCK_ERASE_FUNC | SPI_BLOCK_ERASE_EMULATION | SPI_BLOCK_ERASE_20 | SPI_BLOCK_ERASE_21
  | SPI_BLOCK_ERASE_40 | SPI_BLOCK_ERASE_50 | SPI_BLOCK_ERASE_52 | SPI_BLOCK_ERASE_53
  | SPI_BLOCK_ERASE_5C | SPI_BLOCK_ERASE_60 | SPI_BLOCK_ERASE_62 | SPI_BLOCK_ERASE_81
  | SPI_BLOCK_ERASE_C4 | SPI_BLOCK_ERASE_C7 | SPI_BLOCK_ERASE_D7 | SPI_BLOCK_ERASE_D8
  | SPI_BLOCK_ERASE_DB | SPI_BLOCK_ERASE_DC | S25FL_BLOCK_ERASE | S25FS_BLOCK_ERASE_D8
  | JEDEC_SECTOR_ERASE | JEDEC_BLOCK_ERASE | JEDEC_CHIP_BLOCK_ERASE | OPAQUE_ERASE
  | SPI_ERASE_AT45CS_SECTOR | SPI_ERASE_AT45DB_BLOCK | SPI_ERASE_AT45DB_CHIP
  | SPI_ERASE_AT45DB_PAGE | SPI_ERASE_AT45DB_SECTOR | ERASE_CHIP_28SF040 | ERASE_SECTOR_28SF040
  | ERASE_BLOCK_82802AB | ERASE_SECTOR_49LFXXXC | STM50_SECTOR_ERASE | EDI_CHIP_BLOCK_ERASE

text \<open>Bus types are bit masks.\<close>

type_synonym bus_mask = "32 word"

definition BUS_NONE :: bus_mask where "BUS_NONE = 0"
definition BUS_PARALLEL :: bus_mask where "BUS_PARALLEL = 1"
definition BUS_LPC :: bus_mask where "BUS_LPC = 2"
definition BUS_FWH :: bus_mask where "BUS_FWH = 4"
definition BUS_SPI :: bus_mask where "BUS_SPI = 8"
definition BUS_PROG :: bus_mask where "BUS_PROG = 16"
definition BUS_NONSPI :: bus_mask where "BUS_NONSPI = BUS_PARALLEL OR BUS_LPC OR BUS_FWH"

definition has_bus :: "bus_mask \<Rightarrow> bus_mask \<Rightarrow> bool" where
  "has_bus m b \<longleftrightarrow> m AND b \<noteq> 0"

lemmas bus_defs = BUS_NONE_def BUS_PARALLEL_def BUS_LPC_def BUS_FWH_def BUS_SPI_def BUS_PROG_def
  BUS_NONSPI_def has_bus_def

definition FEATURE_ERASED_ZERO :: "32 word" where "FEATURE_ERASED_ZERO = 0x40000"
definition FEATURE_NO_ERASE :: "32 word" where "FEATURE_NO_ERASE = 0x80000"

section \<open>Result codes and timings\<close>

definition ERROR_FLASHROM_FATAL :: int where "ERROR_FLASHROM_FATAL = -0xee"
definition ERROR_FLASHROM_BUG :: int where "ERROR_FLASHROM_BUG = -200"
definition ERROR_FLASHROM_LIMIT :: int where "ERROR_FLASHROM_LIMIT = -201"
definition ERROR_FLASHROM_PROBE_NO_CHIPS_FOUND :: int where "ERROR_FLASHROM_PROBE_NO_CHIPS_FOUND = -1"
definition ERROR_FLASHROM_PROBE_INTERNAL_ERROR :: int where "ERROR_FLASHROM_PROBE_INTERNAL_ERROR = -2"

definition TIMING_FIXME :: int where "TIMING_FIXME = -1"
definition TIMING_ZERO :: int where "TIMING_ZERO = -2"

section \<open>Chip descriptions\<close>

record eraseblock =
  eb_size :: nat
  eb_count :: nat

text \<open>\<open>be_blocks\<close> is the array of \<^verbatim>\<open>NUM_ERASEREGIONS\<close> entries.\<close>

record block_eraser =
  be_blocks :: "eraseblock list"
  be_erase :: block_erase_func

record tested =
  t_probe :: test_state
  t_read :: test_state
  t_erase :: test_state
  t_write :: test_state
  t_wp :: test_state

record flashchip =
  ch_vendor :: "string option"
  ch_name :: "string option"
  ch_bustype :: bus_mask
  ch_manufacture_id :: nat
  ch_model_id :: nat
  ch_total_size :: nat
  ch_page_size :: nat
  ch_feature_bits :: "32 word"
  ch_tested :: tested
  ch_spi_cmd_set :: spi_cmd_set
  ch_probe :: probe_func
  ch_probe_timing :: int
  ch_erasers :: "block_eraser list"
  ch_write :: write_func
  ch_read :: read_func
  ch_gran :: write_granularity

definition NUM_ERASEREGIONS :: nat where "NUM_ERASEREGIONS = 5"
definition NUM_ERASEFUNCTIONS :: nat where "NUM_ERASEFUNCTIONS = 8"

section \<open>Masters, drivers and the context\<close>

text \<open>The callbacks of a registered master that the core logic consults; \<open>None\<close> is a null
  function pointer.\<close>

record master =
  m_buses_supported :: bus_mask
  m_opaque_get_region :: "(nat \<Rightarrow> flash_region) option"
  m_spi_get_region :: "(nat \<Rightarrow> flash_region) option"
  m_spi_probe_opcode :: "(u8 \<Rightarrow> bool) option"

text \<open>The chip drivers. A read returns its result code, the bytes it stored in the buffer and
  the new state; a write and an erase return their result code and the new state.\<close>

record 's drivers =
  drv_read :: "read_func \<Rightarrow> nat \<Rightarrow> nat \<Rightarrow> 's \<Rightarrow> (int \<times> bytes \<times> 's) option"
  drv_write :: "write_func \<Rightarrow> bytes \<Rightarrow> nat \<Rightarrow> nat \<Rightarrow> 's \<Rightarrow> (int \<times> 's) option"
  drv_erase :: "block_erase_func \<Rightarrow> nat \<Rightarrow> nat \<Rightarrow> 's \<Rightarrow> (int \<times> 's) option"

record flags =
  fl_force :: bool
  fl_force_boardmismatch :: bool
  fl_verify_after_write :: bool
  fl_verify_whole_chip :: bool
  fl_skip_unreadable_regions :: bool
  fl_skip_unwritable_regions :: bool

text \<open>\<open>c_malloc n\<close> says whether an allocation of \<open>n\<close> bytes succeeds, and \<open>c_fresh i\<close> is what byte \<open>i\<close> of
  a fresh allocation happens to hold; \<open>fresh_buf\<close> is such an uninitialised buffer.\<close>

record 's flashctx =
  c_chip :: flashchip
  c_mst :: master
  c_layout :: "layout option"
  c_default_layout :: layout
  c_flags :: flags
  c_sacrifice_ratio :: int
  c_drivers :: "'s drivers"
  c_malloc :: "nat \<Rightarrow> bool"
  c_fresh :: "nat \<Rightarrow> u8"

definition fresh_buf :: "'s flashctx \<Rightarrow> nat \<Rightarrow> bytes" where
  "fresh_buf c len = map (c_fresh c) [0..<len]"

lemma length_fresh_buf [simp]: "length (fresh_buf c len) = len"
  by (simp add: fresh_buf_def)

definition ERASED_VALUE :: "'s flashctx \<Rightarrow> u8" where
  "ERASED_VALUE c = (if ch_feature_bits (c_chip c) AND FEATURE_ERASED_ZERO \<noteq> 0 then 0x00 else 0xff)"

definition UNERASED_VALUE :: "'s flashctx \<Rightarrow> u8" where
  "UNERASED_VALUE c = (if ch_feature_bits (c_chip c) AND FEATURE_ERASED_ZERO \<noteq> 0 then 0xff else 0x00)"

definition get_default_layout :: "'s flashctx \<Rightarrow> layout" where
  "get_default_layout c = c_default_layout c"

definition get_layout :: "'s flashctx \<Rightarrow> layout" where
  "get_layout c = (case c_layout c of Some l \<Rightarrow> l | None \<Rightarrow> get_default_layout c)"

definition flashrom_flash_getsize :: "'s flashctx \<Rightarrow> nat" where
  "flashrom_flash_getsize c = mul32 (ch_total_size (c_chip c)) 1024"

definition get_flash_region :: "'s flashctx \<Rightarrow> nat \<Rightarrow> flash_region" where
  "get_flash_region c addr =
     (case (has_bus (m_buses_supported (c_mst c)) BUS_PROG, m_opaque_get_region (c_mst c)) of
        (True, Some f) \<Rightarrow> f addr
      | _ \<Rightarrow>
     (case (has_bus (m_buses_supported (c_mst c)) BUS_SPI, m_spi_get_region (c_mst c)) of
        (True, Some f) \<Rightarrow> f addr
      | _ \<Rightarrow>
        \<lparr>fr_name = [], fr_start = 0, fr_end = sub32 (flashrom_flash_getsize c) 1,
         fr_read_prot = False, fr_write_prot = False\<rparr>))"

section \<open>Driver lookup\<close>

definition lookup_read_func_ptr ::
    "'s flashctx \<Rightarrow> (nat \<Rightarrow> nat \<Rightarrow> 's \<Rightarrow> (int \<times> bytes \<times> 's) option) option" where
  "lookup_read_func_ptr c =
     (case ch_read (c_chip c) of
        NO_READ_FUNC \<Rightarrow> None
      | f \<Rightarrow> Some (drv_read (c_drivers c) f))"

definition lookup_write_func_ptr ::
    "'s flashctx \<Rightarrow> (bytes \<Rightarrow> nat \<Rightarrow> nat \<Rightarrow> 's \<Rightarrow> (int \<times> 's) option) option" where
  "lookup_write_func_ptr c =
     (case ch_write (c_chip c) of
        NO_WRITE_FUNC \<Rightarrow> None
      | f \<Rightarrow> Some (drv_write (c_drivers c) f))"

text \<open>Opcode 0x40 is listed in the enumeration but has no function.\<close>

definition lookup_erase_func_ptr ::
    "'s flashctx \<Rightarrow> block_eraser \<Rightarrow> (nat \<Rightarrow> nat \<Rightarrow> 's \<Rightarrow> (int \<times> 's) option) option" where
  "lookup_erase_func_ptr c eraser =
     (case be_erase eraser of
        NO_BLOCK_ERASE_FUNC \<Rightarrow> None
      | SPI_BLOCK_ERASE_40 \<Rightarrow> None
      | f \<Rightarrow> Some (drv_erase (c_drivers c) f))"

section \<open>Usable erasers\<close>

text \<open>\<^verbatim>\<open>spi_probe_opcode\<close> of \<^verbatim>\<open>spi.c\<close>: a null callback means that every opcode is supported.\<close>

definition spi_probe_opcode :: "'s flashctx \<Rightarrow> u8 \<Rightarrow> bool" where
  "spi_probe_opcode c opc =
     (case m_spi_probe_opcode (c_mst c) of None \<Rightarrow> True | Some f \<Rightarrow> f opc)"

text \<open>The opcode table of \<^verbatim>\<open>spi.c\<close>; an opcode string ends at its zero byte.\<close>

definition function_opcode_list :: "(block_erase_func \<times> u8 list) list" where
  "function_opcode_list =
     [(SPI_BLOCK_ERASE_20, [0x20]), (SPI_BLOCK_ERASE_21, [0x21]), (SPI_BLOCK_ERASE_50, [0x50]),
      (SPI_BLOCK_ERASE_52, [0x52]), (SPI_BLOCK_ERASE_53, [0x53]), (SPI_BLOCK_ERASE_5C, [0x5c]),
      (SPI_BLOCK_ERASE_60, [0x60]), (SPI_BLOCK_ERASE_62, [0x62]), (SPI_BLOCK_ERASE_81, [0x81]),
      (SPI_BLOCK_ERASE_C4, [0xc4]), (SPI_BLOCK_ERASE_C7, [0xc7]), (SPI_BLOCK_ERASE_D7, [0xd7]),
      (SPI_BLOCK_ERASE_D8, [0xd8]), (SPI_BLOCK_ERASE_DB, [0xdb]), (SPI_BLOCK_ERASE_DC, [0xdc]),
      (SPI_ERASE_AT45CS_SECTOR, [0x50, 0x7c]), (SPI_ERASE_AT45DB_PAGE, [0x81]),
      (SPI_ERASE_AT45DB_BLOCK, [0x50]), (SPI_ERASE_AT45DB_SECTOR, [0x7c]),
      (SPI_ERASE_AT45DB_CHIP, [0xc7]), (S25FL_BLOCK_ERASE, [0xdc]), (S25FS_BLOCK_ERASE_D8, [0xd8])]"

definition spi_get_opcode_from_erasefn :: "block_erase_func \<Rightarrow> u8 list option" where
  "spi_get_opcode_from_erasefn func = map_of function_opcode_list func"

text \<open>\<^verbatim>\<open>check_block_eraser\<close> with its log output left out; the result is 0 for a usable eraser.\<close>

definition check_block_eraser :: "'s flashctx \<Rightarrow> nat \<Rightarrow> int" where
  "check_block_eraser c k =
     (let eraser = ch_erasers (c_chip c) ! k;
          count0 = eb_count (be_blocks eraser ! 0)
      in if be_erase eraser = NO_BLOCK_ERASE_FUNC \<and> count0 = 0 then 1
         else if be_erase eraser = NO_BLOCK_ERASE_FUNC \<and> count0 \<noteq> 0 then 1
         else if be_erase eraser \<noteq> NO_BLOCK_ERASE_FUNC \<and> count0 = 0 then 1
         else if has_bus (m_buses_supported (c_mst c)) BUS_SPI \<and>
                 (case spi_get_opcode_from_erasefn (be_erase eraser) of
                    None \<Rightarrow> False
                  | Some opcs \<Rightarrow> \<exists>opc \<in> set opcs. \<not> spi_probe_opcode c opc) then 1
         else 0)"

definition count_usable_erasers :: "'s flashctx \<Rightarrow> nat" where
  "count_usable_erasers c =
     length (filter (\<lambda>k. check_block_eraser c k = 0) [0..<NUM_ERASEFUNCTIONS])"

text \<open>The erasers that \<^verbatim>\<open>create_erase_layout\<close> builds a layer for, in its order.\<close>

definition usable_erasers :: "'s flashctx \<Rightarrow> block_eraser list" where
  "usable_erasers c =
     map (\<lambda>k. ch_erasers (c_chip c) ! k)
       (filter (\<lambda>k. check_block_eraser c k = 0) [0..<NUM_ERASEFUNCTIONS])"

lemma length_usable_erasers: "length (usable_erasers c) = count_usable_erasers c"
  by (simp add: usable_erasers_def count_usable_erasers_def)

end
