(* ===== verification/WriteGran.thy ===== *)
theory WriteGran
  imports FlashCtx
begin

text \<open>
  The comparison routines of \<^verbatim>\<open>flashrom/flashrom.c\<close> that decide what has to be erased and what has
  to be written: \<^verbatim>\<open>compare_range\<close>, \<^verbatim>\<open>need_erase\<close> and \<^verbatim>\<open>get_next_write\<close>. Both routines look at a
  buffer in chunks of the write granularity; the lemmas relate them to one abstract relation,
  \<open>programmable\<close>, and to the list of chunks that differ.

  A buffer argument \<^verbatim>\<open>have\<close>, \<^verbatim>\<open>want\<close> with length \<^verbatim>\<open>len\<close> is the list of the bytes from the pointer on.
\<close>

section \<open>Definitions\<close>

text \<open>\<^verbatim>\<open>compare_range\<close>: the number of differing bytes is only used for the messages and for the
  result code.\<close>

definition compare_range :: "bytes \<Rightarrow> bytes \<Rightarrow> nat \<Rightarrow> int" where
  "compare_range wantbuf havebuf len =
     (let failcount = length (filter (\<lambda>i. wantbuf ! i \<noteq> havebuf ! i) [0..<len])
      in if failcount \<noteq> 0 then -1 else 0)"

function need_erase_gran_loop :: "bytes \<Rightarrow> bytes \<Rightarrow> nat \<Rightarrow> nat \<Rightarrow> u8 \<Rightarrow> nat \<Rightarrow> int" where
  "need_erase_gran_loop have want len gran erased_value j =
     (if j < len div gran then
        let limit = min32 gran (sub32 len (mul32 j gran))
        in if bslice (mul32 j gran) limit have = bslice (mul32 j gran) limit want
           then need_erase_gran_loop have want len gran erased_value (Suc j)
           else if \<exists>i \<in> set [0..<limit]. have ! (mul32 j gran + i) \<noteq> erased_value then 1
           else need_erase_gran_loop have want len gran erased_value (Suc j)
      else 0)"
  by pat_completeness auto
termination
  by (relation "measure (\<lambda>(have, want, len, gran, ev, j). len div gran - j)") auto

declare need_erase_gran_loop.simps [simp del]

definition need_erase_gran_bytes :: "bytes \<Rightarrow> bytes \<Rightarrow> nat \<Rightarrow> nat \<Rightarrow> u8 \<Rightarrow> int" where
  "need_erase_gran_bytes have want len gran erased_value =
     need_erase_gran_loop have want len gran erased_value 0"

fun need_erase :: "bytes \<Rightarrow> bytes \<Rightarrow> nat \<Rightarrow> write_granularity \<Rightarrow> u8 \<Rightarrow> int" where
  "need_erase have want len WRITE_GRAN_1BIT erased_value =
     (if \<exists>i \<in> set [0..<len]. have ! i AND want ! i \<noteq> want ! i then 1 else 0)"
| "need_erase have want len WRITE_GRAN_1BYTE erased_value =
     (if \<exists>i \<in> set [0..<len]. have ! i \<noteq> want ! i \<and> have ! i \<noteq> erased_value then 1 else 0)"
| "need_erase have want len WRITE_GRAN_128BYTES erased_value =
     need_erase_gran_bytes have want len 128 erased_value"
| "need_erase have want len WRITE_GRAN_256BYTES erased_value =
     need_erase_gran_bytes have want len 256 erased_value"
| "need_erase have want len WRITE_GRAN_264BYTES erased_value =
     need_erase_gran_bytes have want len 264 erased_value"
| "need_erase have want len WRITE_GRAN_512BYTES erased_value =
     need_erase_gran_bytes have want len 512 erased_value"
| "need_erase have want len WRITE_GRAN_528BYTES erased_value =
     need_erase_gran_bytes have want len 528 erased_value"
| "need_erase have want len WRITE_GRAN_1024BYTES erased_value =
     need_erase_gran_bytes have want len 1024 erased_value"
| "need_erase have want len WRITE_GRAN_1056BYTES erased_value =
     need_erase_gran_bytes have want len 1056 erased_value"
| "need_erase have want len WRITE_GRAN_1BYTE_IMPLICIT_ERASE erased_value = 0"

text \<open>The switch at the head of \<^verbatim>\<open>get_next_write\<close>.\<close>

fun gran_stride :: "write_granularity \<Rightarrow> nat" where
  "gran_stride WRITE_GRAN_1BIT = 1"
| "gran_stride WRITE_GRAN_1BYTE = 1"
| "gran_stride WRITE_GRAN_1BYTE_IMPLICIT_ERASE = 1"
| "gran_stride WRITE_GRAN_128BYTES = 128"
| "gran_stride WRITE_GRAN_256BYTES = 256"
| "gran_stride WRITE_GRAN_264BYTES = 264"
| "gran_stride WRITE_GRAN_512BYTES = 512"
| "gran_stride WRITE_GRAN_528BYTES = 528"
| "gran_stride WRITE_GRAN_1024BYTES = 1024"
| "gran_stride WRITE_GRAN_1056BYTES = 1056"

text \<open>The loop of \<^verbatim>\<open>get_next_write\<close>; the result is the final \<^verbatim>\<open>i\<close>, \<^verbatim>\<open>need_write\<close> and \<^verbatim>\<open>rel_start\<close>.\<close>

function next_write_loop ::
    "bytes \<Rightarrow> bytes \<Rightarrow> nat \<Rightarrow> nat \<Rightarrow> nat \<Rightarrow> bool \<Rightarrow> nat \<Rightarrow> nat \<times> bool \<times> nat" where
  "next_write_loop have want len stride i need_write rel_start =
     (if i < len div stride then
        let limit = min32 stride (sub32 len (mul32 i stride))
        in if bslice (mul32 i stride) limit have \<noteq> bslice (mul32 i stride) limit want
           then next_write_loop have want len stride (Suc i) True
                  (if \<not> need_write then mul32 i stride else rel_start)
           else if need_write then (i, need_write, rel_start)
           else next_write_loop have want len stride (Suc i) need_write rel_start
      else (i, need_write, rel_start))"
  by pat_completeness auto
termination
  by (relation "measure (\<lambda>(have, want, len, stride, i, nw, rs). len div stride - i)") auto

declare next_write_loop.simps [simp del]

text \<open>The result is the length of the area and the increased \<^verbatim>\<open>*first_start\<close>.\<close>

definition get_next_write ::
    "bytes \<Rightarrow> bytes \<Rightarrow> nat \<Rightarrow> nat \<Rightarrow> write_granularity \<Rightarrow> nat \<times> nat" where
  "get_next_write have want len first_start gran =
     (let stride = gran_stride gran;
          (i, need_write, rel_start) = next_write_loop have want len stride 0 False 0;
          first_len = (if need_write then min32 (sub32 (mul32 i stride) rel_start) len else 0)
      in (first_len, add32 first_start rel_start))"

lemma compare_range_0:
  "compare_range wantbuf havebuf len = 0 \<longleftrightarrow> (\<forall>i < len. wantbuf ! i = havebuf ! i)"
  by (auto simp: compare_range_def Let_def filter_empty_conv)

lemma compare_range_result: "compare_range wantbuf havebuf len = 0 \<or> compare_range wantbuf havebuf len = -1"
  by (simp add: compare_range_def Let_def)

section \<open>Chunks\<close>

text \<open>Chunk \<open>j\<close> of size \<open>g\<close> is the same in both buffers.\<close>

definition chunk_eq :: "bytes \<Rightarrow> bytes \<Rightarrow> nat \<Rightarrow> nat \<Rightarrow> bool" where
  "chunk_eq have want g j \<longleftrightarrow> (\<forall>i. j * g \<le> i \<and> i < Suc j * g \<longrightarrow> have ! i = want ! i)"

definition chunk_all :: "bytes \<Rightarrow> nat \<Rightarrow> nat \<Rightarrow> u8 \<Rightarrow> bool" where
  "chunk_all have g j v \<longleftrightarrow> (\<forall>i. j * g \<le> i \<and> i < Suc j * g \<longrightarrow> have ! i = v)"

lemma chunk_limit:
  assumes "j < len div g" and "len < 2147483648" and "0 < g"
  shows "mul32 j g = j * g" and "min32 g (sub32 len (j * g)) = g" and "Suc j * g \<le> len"
proof -
  have "Suc j * g \<le> len div g * g" using assms(1) by (intro mult_right_mono) auto
  also have "\<dots> \<le> len" by simp
  finally show le: "Suc j * g \<le> len" .
  then have jg: "j * g + g \<le> len" by simp
  then show "mul32 j g = j * g" using assms(2) by (simp add: c_simps)
  show "min32 g (sub32 len (j * g)) = g"
    using jg assms(2) by (simp add: c_simps)
qed

lemma chunk_bslice:
  assumes "Suc j * g \<le> length have" and "Suc j * g \<le> length want"
  shows "bslice (j * g) g have = bslice (j * g) g want \<longleftrightarrow> chunk_eq have want g j"
  using assms bslice_eq_iff [of "j * g" g "have" want] by (auto simp: chunk_eq_def add.commute)

text \<open>The relation that \<^verbatim>\<open>need_erase\<close> decides: the buffer can be programmed to the wanted content
  without an erase.\<close>

definition programmable :: "write_granularity \<Rightarrow> u8 \<Rightarrow> bytes \<Rightarrow> bytes \<Rightarrow> nat \<Rightarrow> bool" where
  "programmable gran ev have want len \<longleftrightarrow>
     (case gran of
        WRITE_GRAN_1BIT \<Rightarrow> \<forall>i < len. have ! i AND want ! i = want ! i
      | WRITE_GRAN_1BYTE_IMPLICIT_ERASE \<Rightarrow> True
      | _ \<Rightarrow> \<forall>j < len div gran_stride gran.
               chunk_eq have want (gran_stride gran) j \<or> chunk_all have (gran_stride gran) j ev)"

lemma gran_stride_pos [simp]: "0 < gran_stride gran"
  by (cases gran) auto

lemma all_from_split:
  "j < (n::nat) \<Longrightarrow> (\<forall>k. j \<le> k \<and> k < n \<longrightarrow> P k) \<longleftrightarrow> P j \<and> (\<forall>k. Suc j \<le> k \<and> k < n \<longrightarrow> P k)"
  by (metis Suc_leD Suc_le_eq le_eq_less_or_eq)

lemma chunk_all_upt: "(\<exists>i \<in> set [0..<g]. have ! (j * g + i) \<noteq> ev) \<longleftrightarrow> \<not> chunk_all have g j ev"
proof -
  have "(\<forall>i < g. have ! (j * g + i) = ev) \<longleftrightarrow> chunk_all have g j ev"
    unfolding chunk_all_def
    by (metis add.commute add_less_cancel_left le_add1 le_add_diff_inverse mult_Suc)
  then show ?thesis by auto
qed

lemma need_erase_gran_loop_eq:
  assumes "len \<le> length have" and "len \<le> length want" and "len < 2147483648" and "0 < g"
  shows "need_erase_gran_loop have want len g ev j = 0 \<longleftrightarrow>
    (\<forall>k. j \<le> k \<and> k < len div g \<longrightarrow> chunk_eq have want g k \<or> chunk_all have g k ev)"
proof (induction "len div g - j" arbitrary: j)
  case 0
  then show ?case by (subst need_erase_gran_loop.simps) auto
next
  case (Suc x)
  then have j: "j < len div g" by simp
  note lim = chunk_limit [OF j assms(3,4)]
  have eq: "bslice (j * g) g have = bslice (j * g) g want \<longleftrightarrow> chunk_eq have want g j"
    using lim assms by (intro chunk_bslice) auto
  have "need_erase_gran_loop have want len g ev j =
      (if chunk_eq have want g j then need_erase_gran_loop have want len g ev (Suc j)
       else if \<not> chunk_all have g j ev then 1
       else need_erase_gran_loop have want len g ev (Suc j))"
    by (subst need_erase_gran_loop.simps) (simp only: j if_True Let_def lim eq chunk_all_upt)
  moreover have "x = len div g - Suc j" using Suc by simp
  ultimately show ?case using Suc.hyps(1) [of "Suc j"] by (subst all_from_split [OF j]) auto
qed

lemma chunk_eq_1: "chunk_eq have want (Suc 0) j \<longleftrightarrow> have ! j = want ! j"
  by (auto simp: chunk_eq_def) (metis le_antisym less_Suc_eq_le)

lemma chunk_all_1: "chunk_all have (Suc 0) j ev \<longleftrightarrow> have ! j = ev"
  by (auto simp: chunk_all_def) (metis le_antisym less_Suc_eq_le)

lemma need_erase_programmable:
  assumes "len \<le> length have" and "len \<le> length want" and "len < 2147483648"
  shows "need_erase have want len gran ev = 0 \<longleftrightarrow> programmable gran ev have want len"
  using assms
  by (cases gran)
    (auto simp: programmable_def need_erase_gran_bytes_def need_erase_gran_loop_eq
      chunk_eq_1 chunk_all_1)



section \<open>Programming byte by byte\<close>

text \<open>The same relation for one byte of a whole image: byte \<open>i\<close> of \<open>old\<close> can be programmed to that of
  \<open>new\<close>, where chunks are counted from address 0.\<close>

definition prog_at :: "write_granularity \<Rightarrow> u8 \<Rightarrow> bytes \<Rightarrow> bytes \<Rightarrow> nat \<Rightarrow> bool" where
  "prog_at gran ev old new i \<longleftrightarrow>
     (case gran of
        WRITE_GRAN_1BIT \<Rightarrow> old ! i AND new ! i = new ! i
      | WRITE_GRAN_1BYTE_IMPLICIT_ERASE \<Rightarrow> True
      | _ \<Rightarrow> chunk_eq old new (gran_stride gran) (i div gran_stride gran) \<or>
            chunk_all old (gran_stride gran) (i div gran_stride gran) ev)"

lemma chunk_mem: "0 < g \<Longrightarrow> (j * g \<le> i \<and> i < Suc j * g) \<longleftrightarrow> i div g = (j::nat)"
proof
  assume "0 < g" and "j * g \<le> i \<and> i < Suc j * g"
  then show "i div g = j"
    by (metis Suc_le_eq div_le_mono le_antisym less_mult_imp_div_less less_Suc_eq_le
        nonzero_mult_div_cancel_right not_gr_zero)
next
  assume "0 < g" and "i div g = j"
  then show "j * g \<le> i \<and> i < Suc j * g"
    by (metis div_times_less_eq_dividend dividend_less_div_times mult_Suc add.commute)
qed

lemma chunk_in_range:
  assumes "g dvd a" and "g dvd m" and "0 < (g::nat)" and "a \<le> i" and "i < a + m" and "k div g = i div g"
  shows "a \<le> k" and "k < a + m"
proof -
  obtain x y where a: "a = x * g" and m: "m = y * g" using assms(1,2) by (metis dvd_div_mult_self)
  have "x \<le> i div g" using assms(3,4) a by (metis div_le_mono nonzero_mult_div_cancel_right not_gr_zero)
  moreover have "i div g < x + y"
    using assms(5) a m by (metis add_mult_distrib less_mult_imp_div_less)
  ultimately have "x \<le> k div g" "k div g < x + y" using assms(6) by simp_all
  then show "a \<le> k" and "k < a + m"
    using a m assms(3) by (metis div_times_less_eq_dividend le_trans mult_le_mono1,
        metis add_mult_distrib dividend_less_times_div div_less_iff_less_mult)
qed

lemma prog_at_cong:
  assumes "\<And>k. k div gran_stride gran = i div gran_stride gran \<Longrightarrow> old ! k = old' ! k \<and> new ! k = new' ! k"
  shows "prog_at gran ev old new i = prog_at gran ev old' new' i"
proof -
  have "chunk_eq old new (gran_stride gran) (i div gran_stride gran) =
      chunk_eq old' new' (gran_stride gran) (i div gran_stride gran)"
    and "chunk_all old (gran_stride gran) (i div gran_stride gran) ev =
      chunk_all old' (gran_stride gran) (i div gran_stride gran) ev"
    unfolding chunk_eq_def chunk_all_def chunk_mem [OF gran_stride_pos] using assms by auto
  moreover have "old ! i = old' ! i" "new ! i = new' ! i" using assms [of i] by auto
  ultimately show ?thesis by (cases gran) (simp_all add: prog_at_def)
qed

text \<open>Counting chunks from the start of a buffer that begins at a chunk boundary of the image.\<close>

lemma chunk_drop:
  assumes "0 < g" and "st \<le> length xs" and "st \<le> length ys"
  shows "chunk_eq (drop st xs) (drop st ys) g j \<longleftrightarrow>
      (\<forall>i. st + j * g \<le> i \<and> i < st + Suc j * g \<longrightarrow> xs ! i = ys ! i)"
    and "chunk_all (drop st xs) g j ev \<longleftrightarrow> (\<forall>i. st + j * g \<le> i \<and> i < st + Suc j * g \<longrightarrow> xs ! i = ev)"
proof -
  have shift: "(\<forall>i. j * g \<le> i \<and> i < Suc j * g \<longrightarrow> P (st + i)) \<longleftrightarrow>
      (\<forall>i. st + j * g \<le> i \<and> i < st + Suc j * g \<longrightarrow> P i)" for P
  proof (intro iffI allI impI)
    fix i assume all: "\<forall>i. j * g \<le> i \<and> i < Suc j * g \<longrightarrow> P (st + i)"
      and i: "st + j * g \<le> i \<and> i < st + Suc j * g"
    then have "j * g \<le> i - st \<and> i - st < Suc j * g" by linarith
    with all have "P (st + (i - st))" by blast
    with i show "P i" by simp
  qed simp
  show "chunk_eq (drop st xs) (drop st ys) g j \<longleftrightarrow>
      (\<forall>i. st + j * g \<le> i \<and> i < st + Suc j * g \<longrightarrow> xs ! i = ys ! i)"
    using assms shift [of "\<lambda>i. xs ! i = ys ! i"] by (simp add: chunk_eq_def)
  show "chunk_all (drop st xs) g j ev \<longleftrightarrow> (\<forall>i. st + j * g \<le> i \<and> i < st + Suc j * g \<longrightarrow> xs ! i = ev)"
    using assms shift [of "\<lambda>i. xs ! i = ev"] by (simp add: chunk_all_def)
qed

lemma chunk_eq_drop:
  assumes "0 < g" and "g dvd st" and "st \<le> length xs" and "st \<le> length ys"
  shows "chunk_eq (drop st xs) (drop st ys) g j = chunk_eq xs ys g (st div g + j)"
proof -
  have st: "(st div g + j) * g = st + j * g" "Suc (st div g + j) * g = st + Suc j * g"
    using assms(2) by (simp_all add: add_mult_distrib)
  show ?thesis unfolding chunk_drop(1) [OF assms(1,3,4)] chunk_eq_def [of xs] st ..
qed

lemma chunk_all_drop:
  assumes "0 < g" and "g dvd st" and "st \<le> length xs"
  shows "chunk_all (drop st xs) g j ev = chunk_all xs g (st div g + j) ev"
proof -
  have st: "(st div g + j) * g = st + j * g" "Suc (st div g + j) * g = st + Suc j * g"
    using assms(2) by (simp_all add: add_mult_distrib)
  show ?thesis unfolding chunk_drop(2) [OF assms(1,3,3)] chunk_all_def [of xs] st ..
qed

lemma programmable_prog_at:
  assumes "programmable gran ev (drop st cur) (drop st new) len"
    and "gran_stride gran dvd st" and "gran_stride gran dvd len"
    and "st + len \<le> length cur" and "st + len \<le> length new" and "st \<le> i" and "i < st + len"
  shows "prog_at gran ev cur new i"
proof -
  let ?g = "gran_stride gran"
  have j: "i div ?g = st div ?g + (i - st) div ?g"
    using assms(2,6) by (metis dvd_imp_mod_0 div_plus_div_distrib_dvd_left le_add_diff_inverse)
  have lt: "(i - st) div ?g < len div ?g"
    using assms(3,6,7) by (metis div_less_dividend less_diff_conv2 add.commute less_mult_imp_div_less
        dvd_div_mult_self)
  have e: "chunk_eq (drop st cur) (drop st new) ?g ((i - st) div ?g) = chunk_eq cur new ?g (i div ?g)"
    and a: "chunk_all (drop st cur) ?g ((i - st) div ?g) ev = chunk_all cur ?g (i div ?g) ev"
    using assms j by (simp_all add: chunk_eq_drop chunk_all_drop)
  show ?thesis
  proof (cases "gran = WRITE_GRAN_1BIT \<or> gran = WRITE_GRAN_1BYTE_IMPLICIT_ERASE")
    case False
    have "chunk_eq (drop st cur) (drop st new) ?g ((i - st) div ?g) \<or>
        chunk_all (drop st cur) ?g ((i - st) div ?g) ev"
      using False assms(1) lt by (cases gran) (auto simp: programmable_def)
    then have "chunk_eq cur new ?g (i div ?g) \<or> chunk_all cur ?g (i div ?g) ev" unfolding e a .
    with False show ?thesis by (cases gran) (auto simp: prog_at_def)
  next
    case True
    have "cur ! i AND new ! i = new ! i" if "gran = WRITE_GRAN_1BIT"
    proof -
      have "drop st cur ! (i - st) AND drop st new ! (i - st) = drop st new ! (i - st)"
        using assms(1,6,7) that by (auto simp: programmable_def)
      then show ?thesis using assms(4-7) by simp
    qed
    with True show ?thesis by (auto simp: prog_at_def)
  qed
qed

section \<open>The next area to write\<close>

definition differing :: "bytes \<Rightarrow> bytes \<Rightarrow> nat \<Rightarrow> nat \<Rightarrow> nat set" where
  "differing have want g n = {j. j < n \<and> \<not> chunk_eq have want g j}"

lemma next_write_loop_eq:
  assumes "len \<le> length have" and "len \<le> length want" and "len < 2147483648" and "0 < g"
    and "i \<le> len div g" and "next_write_loop have want len g i nw rs = (i', nw', rs')"
  shows "i \<le> i' \<and> i' \<le> len div g \<and>
    (if nw then nw' \<and> rs' = rs \<and> (\<forall>k. i \<le> k \<and> k < i' \<longrightarrow> \<not> chunk_eq have want g k) \<and>
        (i' < len div g \<longrightarrow> chunk_eq have want g i')
     else if nw' then
       (\<exists>a. i \<le> a \<and> a < i' \<and> rs' = a * g \<and> (\<forall>k. i \<le> k \<and> k < a \<longrightarrow> chunk_eq have want g k) \<and>
          (\<forall>k. a \<le> k \<and> k < i' \<longrightarrow> \<not> chunk_eq have want g k) \<and>
          (i' < len div g \<longrightarrow> chunk_eq have want g i'))
     else rs' = rs \<and> i' = len div g \<and>
       (\<forall>k. i \<le> k \<and> k < len div g \<longrightarrow> chunk_eq have want g k))"
  using assms(5,6)
proof (induction "len div g - i" arbitrary: i nw rs)
  case 0
  then show ?case by (auto simp: next_write_loop.simps [of "have" want len g i])
next
  case (Suc x)
  then have i: "i < len div g" by simp
  note lim = chunk_limit [OF i assms(3,4)]
  have eq: "bslice (i * g) g have = bslice (i * g) g want \<longleftrightarrow> chunk_eq have want g i"
    using lim assms by (intro chunk_bslice) auto
  have step: "next_write_loop have want len g i nw rs =
      (if \<not> chunk_eq have want g i
       then next_write_loop have want len g (Suc i) True (if \<not> nw then i * g else rs)
       else if nw then (i, nw, rs)
       else next_write_loop have want len g (Suc i) nw rs)"
    by (subst next_write_loop.simps) (simp only: i if_True Let_def lim eq)
  have x: "x = len div g - Suc i" "Suc i \<le> len div g" using Suc i by simp_all
  show ?case
  proof (cases "chunk_eq have want g i")
    case False
    with Suc.prems step have
      "next_write_loop have want len g (Suc i) True (if \<not> nw then i * g else rs) = (i', nw', rs')"
      by simp
    note IH = Suc.hyps(1) [OF x this]
    have up: "(\<forall>k. i \<le> k \<and> k < i' \<longrightarrow> \<not> chunk_eq have want g k)"
    proof (intro allI impI)
      fix k assume "i \<le> k \<and> k < i'"
      then consider "k = i" | "Suc i \<le> k \<and> k < i'" by linarith
      then show "\<not> chunk_eq have want g k" using IH False by cases auto
    qed
    show ?thesis
    proof (cases nw)
      case True
      with IH up show ?thesis by auto
    next
      case nnw: False
      with IH up have "i \<le> i \<and> i < i' \<and> rs' = i * g \<and>
          (\<forall>k. i \<le> k \<and> k < i \<longrightarrow> chunk_eq have want g k) \<and>
          (\<forall>k. i \<le> k \<and> k < i' \<longrightarrow> \<not> chunk_eq have want g k) \<and>
          (i' < len div g \<longrightarrow> chunk_eq have want g i')" by auto
      then have "\<exists>a. i \<le> a \<and> a < i' \<and> rs' = a * g \<and> (\<forall>k. i \<le> k \<and> k < a \<longrightarrow> chunk_eq have want g k) \<and>
          (\<forall>k. a \<le> k \<and> k < i' \<longrightarrow> \<not> chunk_eq have want g k) \<and>
          (i' < len div g \<longrightarrow> chunk_eq have want g i')" by blast
      with nnw IH show ?thesis by auto
    qed
  next
    case True
    show ?thesis
    proof (cases nw)
      case nw: True
      with True Suc.prems step i show ?thesis by auto
    next
      case nw: False
      with True Suc.prems step have "next_write_loop have want len g (Suc i) False rs = (i', nw', rs')"
        by simp
      note IH = Suc.hyps(1) [OF x this]
      have ext: "\<forall>k. Suc i \<le> k \<and> k < m \<longrightarrow> chunk_eq have want g k \<Longrightarrow>
          \<forall>k. i \<le> k \<and> k < m \<longrightarrow> chunk_eq have want g k" for m
        using True by (metis Suc_le_eq le_neq_implies_less)
      show ?thesis
      proof (cases nw')
        case True
        with IH ext nw show ?thesis by (auto dest: Suc_leD)
      next
        case False
        with IH ext nw show ?thesis by auto
      qed
    qed
  qed
qed

text \<open>The specification of \<^verbatim>\<open>get_next_write\<close>: \<open>write_area have want g n a b\<close> says that chunks \<open>a\<close> up to
  (not including) \<open>b\<close> are the first maximal run of chunks that differ.\<close>

definition write_area :: "bytes \<Rightarrow> bytes \<Rightarrow> nat \<Rightarrow> nat \<Rightarrow> nat \<Rightarrow> nat \<Rightarrow> bool" where
  "write_area have want g n a b \<longleftrightarrow> a < b \<and> b \<le> n \<and>
     (\<forall>k < a. chunk_eq have want g k) \<and>
     (\<forall>k. a \<le> k \<and> k < b \<longrightarrow> \<not> chunk_eq have want g k) \<and>
     (b < n \<longrightarrow> chunk_eq have want g b)"

lemma get_next_write_cases:
  assumes "len \<le> length have" and "len \<le> length want" and "len < 2147483648"
    and "fs + len < 4294967296"
    and "get_next_write have want len fs gran = (n, fs')"
  shows "(n = 0 \<and> fs' = fs \<and> (\<forall>k < len div gran_stride gran. chunk_eq have want (gran_stride gran) k)) \<or>
    (\<exists>a b. write_area have want (gran_stride gran) (len div gran_stride gran) a b \<and>
       n = (b - a) * gran_stride gran \<and> fs' = fs + a * gran_stride gran)"
proof -
  let ?g = "gran_stride gran"
  obtain i nw rs where l: "next_write_loop have want len ?g 0 False 0 = (i, nw, rs)"
    by (metis prod_cases3)
  note spec = next_write_loop_eq [OF assms(1-3) gran_stride_pos le0 l]
  have le: "k * ?g \<le> len" if "k \<le> len div ?g" for k
    using that by (metis div_times_less_eq_dividend le_trans mult_le_mono1)
  show ?thesis
  proof (cases nw)
    case False
    with assms(4,5) l spec show ?thesis by (simp add: get_next_write_def c_simps)
  next
    case True
    with spec obtain a where a: "a < i" "rs = a * ?g" "i \<le> len div ?g"
      and w: "write_area have want ?g (len div ?g) a i"
      by (auto simp: write_area_def)
    have ai: "a * ?g \<le> i * ?g" and ig: "i * ?g \<le> len" using a le by auto
    then have "(i - a) * ?g \<le> len" by (simp add: diff_mult_distrib)
    with True assms a l ai ig have "n = (i - a) * ?g" "fs' = fs + a * ?g"
      by (auto simp: get_next_write_def Let_def c_simps diff_mult_distrib)
    with w show ?thesis by blast
  qed
qed

text \<open>C17: on buffers below 2 GiB, \<^verbatim>\<open>get_next_write\<close> returns length 0 exactly when every whole chunk
  of the write granularity is already right, and otherwise the offset and the length of the
  first maximal run of chunks that differ.\<close>

theorem get_next_write_correct:
  assumes "len \<le> length have" and "len \<le> length want" and "len < 2147483648"
    and "fs + len < 4294967296"
  shows "case get_next_write have want len fs gran of
     (n, fs') \<Rightarrow>
       (n = 0 \<longleftrightarrow> (\<forall>k < len div gran_stride gran. chunk_eq have want (gran_stride gran) k)) \<and>
       (if n = 0 then fs' = fs
        else \<exists>a b. write_area have want (gran_stride gran) (len div gran_stride gran) a b \<and>
               n = (b - a) * gran_stride gran \<and> fs' = fs + a * gran_stride gran)"
proof -
  obtain n fs' where r: "get_next_write have want len fs gran = (n, fs')" by fastforce
  consider (none) "n = 0" "fs' = fs"
      "\<forall>k < len div gran_stride gran. chunk_eq have want (gran_stride gran) k"
    | (area) a b where "write_area have want (gran_stride gran) (len div gran_stride gran) a b"
      "n = (b - a) * gran_stride gran" "fs' = fs + a * gran_stride gran"
    using get_next_write_cases [OF assms r] by blast
  then show ?thesis
  proof cases
    case none
    with r show ?thesis by simp
  next
    case area
    then have "a < b" and "a < len div gran_stride gran" and
      "\<not> chunk_eq have want (gran_stride gran) a"
      by (auto simp: write_area_def)
    with r area show ?thesis by auto
  qed
qed

theorem get_next_write_witness:
  "fst (get_next_write [0, 0, 0] [0, 1, 0] 3 16 WRITE_GRAN_1BYTE) \<noteq> 0"
  using get_next_write_correct [of 3 "[0, 0, 0]" "[0, 1, 0]" 16 WRITE_GRAN_1BYTE]
  by (auto simp: chunk_eq_1 numeral_3_eq_3 All_less_Suc split: prod.splits)

end
