(* ===== verification/EraseLayout.thy ===== *)
theory EraseLayout
  imports WriteGran
begin

text \<open>
  The erase layout of \<^verbatim>\<open>flashrom/erasure_layout.c\<close>: for every usable erase function of the chip a
  layer of erase blocks, finest first, in which each block knows the range of blocks of the
  layer below that it covers; the construction of the layers, the alignment of a region to
  block boundaries, and the selection of the blocks to erase.

  An access outside one of the arrays is \<open>None\<close>; the lemmas show that it does not happen on the
  layouts that \<^verbatim>\<open>create_erase_layout\<close> builds. The sub-block indices are stored as \<open>int\<close>, the
  type the code reads them with.
\<close>

section \<open>Data\<close>

record eraseblock_data =
  ed_start :: nat
  ed_end :: nat
  ed_selected :: bool
  ed_block_num :: nat
  ed_first_sub :: int
  ed_last_sub :: int

record erase_layer =
  el_blocks :: "eraseblock_data list"
  el_eraser :: block_eraser

type_synonym erase_layout = "erase_layer list"

section \<open>Construction\<close>

fun calculate_block_count_loop :: "nat \<Rightarrow> eraseblock list \<Rightarrow> nat \<Rightarrow> nat \<Rightarrow> nat option" where
  "calculate_block_count_loop total_bytes blocks addr block_count =
     (if addr < total_bytes then
        (case blocks of
           [] \<Rightarrow> None
         | b # bs \<Rightarrow>
             calculate_block_count_loop total_bytes bs (add32 addr (mul32 (eb_size b) (eb_count b)))
               (block_count + eb_count b))
      else Some block_count)"

declare calculate_block_count_loop.simps [simp del]

definition calculate_block_count :: "flashchip \<Rightarrow> block_eraser \<Rightarrow> nat option" where
  "calculate_block_count chip eraser =
     calculate_block_count_loop (mul32 (ch_total_size chip) 1024) (be_blocks eraser) 0 0"

text \<open>The loop of \<^verbatim>\<open>init_eraseblock\<close> over the blocks of the layer below.\<close>

function sub_block_loop :: "eraseblock_data list \<Rightarrow> nat \<Rightarrow> nat \<Rightarrow> nat \<Rightarrow> nat" where
  "sub_block_loop sub i start_addr end_addr =
     (if i < length sub \<and> ed_start (sub ! i) \<ge> start_addr \<and> ed_end (sub ! i) \<le> end_addr
      then sub_block_loop sub (Suc i) start_addr end_addr else i)"
  by pat_completeness auto
termination
  by (relation "measure (\<lambda>(sub, i, s, e). length sub - i)") auto

declare sub_block_loop.simps [simp del]

text \<open>\<open>below\<close> is the layer below, \<open>None\<close> for layer 0; the result is the initialised block and the
  new \<^verbatim>\<open>*sub_block_index\<close>.\<close>

definition init_eraseblock ::
    "eraseblock_data list option \<Rightarrow> nat \<Rightarrow> nat \<Rightarrow> nat \<Rightarrow> nat \<Rightarrow> eraseblock_data \<times> nat" where
  "init_eraseblock below block_num start_addr end_addr sub_block_index =
     (let edata = \<lparr>ed_start = start_addr, ed_end = end_addr, ed_selected = False,
                   ed_block_num = block_num, ed_first_sub = 0, ed_last_sub = 0\<rparr>
      in case below of
           None \<Rightarrow> (edata, sub_block_index)
         | Some sub \<Rightarrow>
             (let i = sub_block_loop sub sub_block_index start_addr end_addr
              in (edata\<lparr>ed_first_sub := int sub_block_index, ed_last_sub := int i - 1\<rparr>, i)))"

text \<open>The inner loop of \<^verbatim>\<open>create_erase_layout\<close>: \<open>n\<close> more blocks of \<open>sz\<close> bytes; \<open>bs\<close> are the blocks
  made so far, so that \<^verbatim>\<open>block_num\<close> is their number.\<close>

fun layer_blocks_run ::
    "eraseblock_data list option \<Rightarrow> nat \<Rightarrow> nat \<Rightarrow> nat \<Rightarrow> nat \<Rightarrow> eraseblock_data list
     \<Rightarrow> nat \<times> nat \<times> eraseblock_data list" where
  "layer_blocks_run below sz 0 start_addr sub bs = (start_addr, sub, bs)"
| "layer_blocks_run below sz (Suc n) start_addr sub bs =
     (let end_addr = sub32 (add32 start_addr sz) 1;
          (edata, sub') = init_eraseblock below (length bs) start_addr end_addr sub
      in layer_blocks_run below sz n (add32 end_addr 1) sub' (bs @ [edata]))"

fun layer_blocks ::
    "eraseblock_data list option \<Rightarrow> eraseblock list \<Rightarrow> nat \<Rightarrow> nat \<Rightarrow> nat \<Rightarrow> eraseblock_data list
     \<Rightarrow> eraseblock_data list option" where
  "layer_blocks below regions block_count start_addr sub bs =
     (if length bs < block_count then
        (case regions of
           [] \<Rightarrow> None
         | r # rs \<Rightarrow>
             (case layer_blocks_run below (eb_size r) (eb_count r) start_addr sub bs of
                (start_addr', sub', bs') \<Rightarrow> layer_blocks below rs block_count start_addr' sub' bs'))
      else Some bs)"

declare layer_blocks.simps [simp del]

text \<open>The outer loop over the usable erasers; \<open>layers\<close> are the layers made so far. The result of the
  whole is the result code with the layout, if one was stored, or \<open>None\<close> for a read past the
  end of \<^verbatim>\<open>eraseblocks\<close>.\<close>

fun create_layers ::
    "'s flashctx \<Rightarrow> block_eraser list \<Rightarrow> erase_layout \<Rightarrow> (int \<times> erase_layout option) option" where
  "create_layers c [] layers = Some (int (length layers), Some layers)"
| "create_layers c (e # es) layers =
     (case calculate_block_count (c_chip c) e of
        None \<Rightarrow> None
      | Some block_count \<Rightarrow>
          if \<not> c_malloc c (block_count * 40) then Some (-1, None)
          else
            (case layer_blocks (if layers = [] then None else Some (el_blocks (last layers)))
                    (be_blocks e) block_count 0 0 [] of
               None \<Rightarrow> None
             | Some bs \<Rightarrow> create_layers c es (layers @ [\<lparr>el_blocks = bs, el_eraser = e\<rparr>])))"

definition create_erase_layout :: "'s flashctx \<Rightarrow> (int \<times> erase_layout option) option" where
  "create_erase_layout c =
     (if count_usable_erasers c = 0 then Some (0, None)
      else if \<not> c_malloc c (count_usable_erasers c * 24) then Some (-1, None)
      else create_layers c (usable_erasers c) [])"

section \<open>Alignment\<close>

fun align_diffs :: "eraseblock_data list \<Rightarrow> nat \<Rightarrow> nat \<Rightarrow> nat \<Rightarrow> nat \<Rightarrow> nat \<times> nat" where
  "align_diffs [] region_start region_end start_diff end_diff = (start_diff, end_diff)"
| "align_diffs (ll # lls) region_start region_end start_diff end_diff =
     (let sd = (if ed_start ll \<le> region_start
                then (if sub32 region_start (ed_start ll) > start_diff then start_diff
                      else sub32 region_start (ed_start ll))
                else start_diff);
          ed = (if ed_end ll \<ge> region_end
                then (if sub32 (ed_end ll) region_end > end_diff then end_diff
                      else sub32 (ed_end ll) region_end)
                else end_diff)
      in align_diffs lls region_start region_end sd ed)"

definition align_region :: "erase_layout \<Rightarrow> nat \<Rightarrow> nat \<Rightarrow> nat \<times> nat" where
  "align_region layout region_start region_end =
     (case align_diffs (concat (map el_blocks layout)) region_start region_end 4294967295 4294967295 of
        (start_diff, end_diff) \<Rightarrow>
          (if start_diff \<noteq> 0 then sub32 region_start start_diff else region_start,
           if end_diff \<noteq> 0 then add32 region_end end_diff else region_end))"

section \<open>Selection\<close>

abbreviation blk :: "erase_layout \<Rightarrow> nat \<Rightarrow> nat \<Rightarrow> eraseblock_data" where
  "blk l i k \<equiv> el_blocks (l ! i) ! k"

definition set_selected :: "nat \<Rightarrow> nat \<Rightarrow> bool \<Rightarrow> erase_layout \<Rightarrow> erase_layout" where
  "set_selected i k v l =
     l[i := (l ! i)\<lparr>el_blocks := (el_blocks (l ! i))[k := (blk l i k)\<lparr>ed_selected := v\<rparr>]\<rparr>]"

text \<open>An index into layer \<open>i\<close> is in range.\<close>

definition in_layer :: "erase_layout \<Rightarrow> nat \<Rightarrow> int \<Rightarrow> bool" where
  "in_layer l i k \<longleftrightarrow> i < length l \<and> 0 \<le> k \<and> k < int (length (el_blocks (l ! i)))"

function deselect_range :: "nat \<Rightarrow> int \<Rightarrow> int \<Rightarrow> erase_layout \<Rightarrow> erase_layout" where
  "deselect_range i j sub_block_end l =
     (if j \<le> sub_block_end
      then deselect_range i (j + 1) sub_block_end (set_selected i (nat j) False l) else l)"
  by pat_completeness auto
termination
  by (relation "measure (\<lambda>(i, j, e, l). nat (e + 1 - j))") auto

declare deselect_range.simps [simp del]

primrec deselect_erase_functions :: "nat \<Rightarrow> int \<Rightarrow> int \<Rightarrow> erase_layout \<Rightarrow> erase_layout option" where
  "deselect_erase_functions 0 sub_block_start sub_block_end l =
     (if in_layer l 0 sub_block_start \<and> in_layer l 0 sub_block_end
      then Some (deselect_range 0 sub_block_start sub_block_end l) else None)"
| "deselect_erase_functions (Suc i) sub_block_start sub_block_end l =
     (if in_layer l (Suc i) sub_block_start \<and> in_layer l (Suc i) sub_block_end
      then deselect_erase_functions i
             (ed_first_sub (blk l (Suc i) (nat sub_block_start)))
             (ed_last_sub (blk l (Suc i) (nat sub_block_end)))
             (deselect_range (Suc i) sub_block_start sub_block_end l)
      else None)"

text \<open>The loop of \<^verbatim>\<open>select_erase_functions\<close> over the sub-blocks of a block of layer \<open>Suc f\<close>: \<open>sel\<close>
  is the recursive call at layer \<open>f\<close>, \<open>count\<close> counts the sub-blocks it selects.\<close>

function select_loop ::
    "(nat \<Rightarrow> erase_layout \<Rightarrow> erase_layout option) \<Rightarrow> nat \<Rightarrow> int \<Rightarrow> int \<Rightarrow> int \<Rightarrow> erase_layout
     \<Rightarrow> (int \<times> erase_layout) option" where
  "select_loop sel f j sub_block_end count l =
     (if j \<le> sub_block_end then
        (if \<not> in_layer l f j then None
         else case sel (nat j) l of
                None \<Rightarrow> None
              | Some l' \<Rightarrow>
                  select_loop sel f (j + 1) sub_block_end
                    (if ed_selected (blk l' f (nat j)) then count + 1 else count) l')
      else Some (count, l))"
  by pat_completeness auto
termination
  by (relation "measure (\<lambda>(sel, f, j, e, c, l). nat (e + 1 - j))") auto

declare select_loop.simps [simp del]

primrec select_erase_functions ::
    "'s flashctx \<Rightarrow> nat \<Rightarrow> bytes \<Rightarrow> bytes \<Rightarrow> nat \<Rightarrow> nat \<Rightarrow> nat \<Rightarrow> erase_layout \<Rightarrow> erase_layout option" where
  "select_erase_functions c 0 curcontents newcontents rstart rend block_num l =
     (if \<not> in_layer l 0 (int block_num) then None
      else
        let ll = blk l 0 block_num
        in if ed_start ll \<ge> rstart \<and> ed_end ll \<le> rend then
             let erase_len = add32 (sub32 (ed_end ll) (ed_start ll)) 1
             in Some (set_selected 0 block_num
                  (need_erase (drop (ed_start ll) curcontents) (drop (ed_start ll) newcontents)
                     erase_len (ch_gran (c_chip c)) (ERASED_VALUE c) \<noteq> 0) l)
           else Some l)"
| "select_erase_functions c (Suc f) curcontents newcontents rstart rend block_num l =
     (if \<not> in_layer l (Suc f) (int block_num) then None
      else
        let ll = blk l (Suc f) block_num;
            sub_block_start = ed_first_sub ll;
            sub_block_end = ed_last_sub ll
        in case select_loop
                  (\<lambda>j l. select_erase_functions c f curcontents newcontents rstart rend j l)
                  f sub_block_start sub_block_end 0 l of
             None \<Rightarrow> None
           | Some (count, l1) \<Rightarrow>
               let total_blocks = sub_block_end - sub_block_start + 1
               in if total_blocks - count \<le> c_div (total_blocks * c_sacrifice_ratio c) 100 \<and>
                     ed_start ll \<ge> rstart \<and> ed_end ll \<le> rend
                  then
                    (case deselect_erase_functions f sub_block_start sub_block_end l1 of
                       None \<Rightarrow> None
                     | Some l2 \<Rightarrow> Some (set_selected (Suc f) block_num True l2))
                  else Some l1)"

end
