(* ===== verification/EraseSelect.thy ===== *)
theory EraseSelect
  imports EraseLayout
begin

text \<open>
  Correctness of the block selection of \<^verbatim>\<open>erasure_layout.c\<close>. A layout is well formed (\<open>wf_layout\<close>) when
  each layer tiles the chip and each block above layer 0 is exactly covered by the blocks of
  the layer below that it points to. On such layouts \<^verbatim>\<open>select_erase_functions\<close> never leaves the
  arrays, selects blocks inside the requested region only, and selects blocks that together
  cover every smallest block of the region that cannot be programmed without an erase.
\<close>

section \<open>Tilings\<close>

fun tiles :: "nat \<Rightarrow> eraseblock_data list \<Rightarrow> nat \<Rightarrow> bool" where
  "tiles a [] n \<longleftrightarrow> a = n"
| "tiles a (b # bs) n \<longleftrightarrow> ed_start b = a \<and> a \<le> ed_end b \<and> tiles (Suc (ed_end b)) bs n"

lemma tiles_le: "tiles a bs n \<Longrightarrow> a \<le> n"
  by (induction a bs n rule: tiles.induct) auto

lemma tiles_bounds:
  "tiles a bs n \<Longrightarrow> k < length bs \<Longrightarrow>
     a \<le> ed_start (bs ! k) \<and> ed_start (bs ! k) \<le> ed_end (bs ! k) \<and> ed_end (bs ! k) < n"
proof (induction a bs n arbitrary: k rule: tiles.induct)
  case (2 a b bs n)
  then show ?case using tiles_le [of "Suc (ed_end b)" bs n] by (cases k) fastforce+
qed simp

lemma tiles_less:
  "tiles a bs n \<Longrightarrow> j < k \<Longrightarrow> k < length bs \<Longrightarrow> ed_end (bs ! j) < ed_start (bs ! k)"
proof (induction a bs n arbitrary: j k rule: tiles.induct)
  case (2 a b bs n)
  then obtain k' where k: "k = Suc k'" by (cases k) auto
  show ?case
  proof (cases j)
    case 0
    with 2 k show ?thesis using tiles_bounds [of "Suc (ed_end b)" bs n k'] by auto
  next
    case (Suc j')
    with 2 k show ?thesis by auto
  qed
qed simp

lemma tiles_cover:
  "tiles a bs n \<Longrightarrow> a \<le> x \<Longrightarrow> x < n \<Longrightarrow>
     \<exists>k < length bs. ed_start (bs ! k) \<le> x \<and> x \<le> ed_end (bs ! k)"
proof (induction a bs n rule: tiles.induct)
  case (2 a b bs n)
  show ?case
  proof (cases "x \<le> ed_end b")
    case True
    with 2 show ?thesis by (intro exI [of _ 0]) auto
  next
    case False
    with 2 obtain k where "k < length bs" "ed_start (bs ! k) \<le> x" "x \<le> ed_end (bs ! k)" by auto
    then show ?thesis by (intro exI [of _ "Suc k"]) auto
  qed
qed simp

lemma tiles_next:
  "tiles a bs n \<Longrightarrow> Suc k < length bs \<Longrightarrow> ed_start (bs ! Suc k) = Suc (ed_end (bs ! k))"
proof (induction a bs n arbitrary: k rule: tiles.induct)
  case (2 a b bs n)
  then show ?case by (cases k; cases bs) auto
qed simp

lemma tiles_first: "tiles a bs n \<Longrightarrow> bs \<noteq> [] \<Longrightarrow> ed_start (bs ! 0) = a"
  by (cases bs) auto

lemma tiles_last: "tiles a bs n \<Longrightarrow> bs \<noteq> [] \<Longrightarrow> Suc (ed_end (bs ! (length bs - 1))) = n"
proof (induction a bs n rule: tiles.induct)
  case (2 a b bs n)
  then show ?case by (cases bs) auto
qed simp

lemma tiles_order:
  assumes "tiles a bs n" and "j < length bs" and "k < length bs"
  shows "ed_start (bs ! j) \<le> ed_start (bs ! k) \<longleftrightarrow> j \<le> k"
    and "ed_end (bs ! j) \<le> ed_end (bs ! k) \<longleftrightarrow> j \<le> k"
    and "ed_start (bs ! j) \<le> ed_end (bs ! k) \<longleftrightarrow> j \<le> k"
proof -
  note jk = tiles_less [OF assms(1), of j k] and kj = tiles_less [OF assms(1), of k j]
    and bj = tiles_bounds [OF assms(1,2)] and bk = tiles_bounds [OF assms(1,3)]
  consider "j < k" "ed_end (bs ! j) < ed_start (bs ! k)" | "j = k"
    | "k < j" "ed_end (bs ! k) < ed_start (bs ! j)"
    using jk kj assms(2,3) by (cases j k rule: linorder_cases) auto
  note split = this
  show "ed_start (bs ! j) \<le> ed_start (bs ! k) \<longleftrightarrow> j \<le> k" using bj bk by (cases rule: split) auto
  show "ed_end (bs ! j) \<le> ed_end (bs ! k) \<longleftrightarrow> j \<le> k" using bj bk by (cases rule: split) auto
  show "ed_start (bs ! j) \<le> ed_end (bs ! k) \<longleftrightarrow> j \<le> k" using bj bk by (cases rule: split) auto
qed

section \<open>Well-formed layouts\<close>

definition nested :: "erase_layout \<Rightarrow> nat \<Rightarrow> eraseblock_data \<Rightarrow> bool" where
  "nested l i b \<longleftrightarrow>
     0 \<le> ed_first_sub b \<and> ed_first_sub b \<le> ed_last_sub b \<and>
     ed_last_sub b < int (length (el_blocks (l ! i))) \<and>
     ed_start (blk l i (nat (ed_first_sub b))) = ed_start b \<and>
     ed_end (blk l i (nat (ed_last_sub b))) = ed_end b"

definition wf_layout :: "nat \<Rightarrow> erase_layout \<Rightarrow> bool" where
  "wf_layout n l \<longleftrightarrow>
     (\<forall>i < length l. tiles 0 (el_blocks (l ! i)) n) \<and>
     (\<forall>i. Suc i < length l \<longrightarrow> (\<forall>b \<in> set (el_blocks (l ! Suc i)). nested l i b))"

text \<open>The layout without its selection flags; two layouts with the same \<open>shape\<close> differ in their
  selection flags only.\<close>

definition bshape :: "eraseblock_data \<Rightarrow> nat \<times> nat \<times> nat \<times> int \<times> int" where
  "bshape b = (ed_start b, ed_end b, ed_block_num b, ed_first_sub b, ed_last_sub b)"

definition shape :: "erase_layout \<Rightarrow> (block_eraser \<times> (nat \<times> nat \<times> nat \<times> int \<times> int) list) list" where
  "shape l = map (\<lambda>lv. (el_eraser lv, map bshape (el_blocks lv))) l"

abbreviation sel :: "erase_layout \<Rightarrow> nat \<Rightarrow> nat \<Rightarrow> bool" where
  "sel l i k \<equiv> ed_selected (blk l i k)"

lemma shape_length: "shape l = shape l' \<Longrightarrow> length l = length l'"
  by (drule arg_cong [where f = length]) (simp add: shape_def)

lemma shape_layer:
  assumes "shape l = shape l'" and "i < length l"
  shows "map bshape (el_blocks (l ! i)) = map bshape (el_blocks (l' ! i))"
    and "el_eraser (l ! i) = el_eraser (l' ! i)"
proof -
  have "shape l ! i = shape l' ! i" using assms by simp
  then have "(el_eraser (l ! i), map bshape (el_blocks (l ! i))) =
      (el_eraser (l' ! i), map bshape (el_blocks (l' ! i)))"
    using assms shape_length [OF assms(1)] by (simp add: shape_def)
  then show "map bshape (el_blocks (l ! i)) = map bshape (el_blocks (l' ! i))"
    and "el_eraser (l ! i) = el_eraser (l' ! i)" by blast+
qed

lemma shape_block:
  assumes "shape l = shape l'" and "i < length l"
  shows "length (el_blocks (l ! i)) = length (el_blocks (l' ! i))"
    and "k < length (el_blocks (l ! i)) \<Longrightarrow>
      ed_start (blk l i k) = ed_start (blk l' i k) \<and> ed_end (blk l i k) = ed_end (blk l' i k) \<and>
      ed_first_sub (blk l i k) = ed_first_sub (blk l' i k) \<and>
      ed_last_sub (blk l i k) = ed_last_sub (blk l' i k)"
proof -
  note eq = shape_layer(1) [OF assms]
  show len: "length (el_blocks (l ! i)) = length (el_blocks (l' ! i))"
    using arg_cong [OF eq, of length] by simp
  assume k: "k < length (el_blocks (l ! i))"
  have "bshape (blk l i k) = bshape (blk l' i k)"
    using arg_cong [OF eq, of "\<lambda>xs. xs ! k"] k len by simp
  then show "ed_start (blk l i k) = ed_start (blk l' i k) \<and> ed_end (blk l i k) = ed_end (blk l' i k) \<and>
      ed_first_sub (blk l i k) = ed_first_sub (blk l' i k) \<and>
      ed_last_sub (blk l i k) = ed_last_sub (blk l' i k)"
    by (simp add: bshape_def)
qed

lemma tiles_shape: "map bshape bs = map bshape bs' \<Longrightarrow> tiles a bs n \<Longrightarrow> tiles a bs' n"
proof (induction bs arbitrary: a bs')
  case (Cons b bs)
  have "map bshape bs' = bshape b # map bshape bs" using Cons.prems(1) by simp
  then obtain b' cs where bs': "bs' = b' # cs"
    and eq: "map bshape bs = map bshape cs" "bshape b = bshape b'"
    unfolding map_eq_Cons_conv by metis
  have "ed_start b = ed_start b'" "ed_end b = ed_end b'" using eq(2) by (simp_all add: bshape_def)
  with Cons.IH [OF eq(1)] Cons.prems(2) bs' show ?case by simp
qed simp

lemma in_layer_shape:
  assumes "shape l = shape l'"
  shows "in_layer l i k = in_layer l' i k"
proof (cases "i < length l")
  case True
  then show ?thesis
    using shape_length [OF assms] shape_block(1) [OF assms True] by (simp add: in_layer_def)
next
  case False
  then show ?thesis using shape_length [OF assms] by (simp add: in_layer_def)
qed

lemma wf_layout_shape: "shape l = shape l' \<Longrightarrow> wf_layout n l \<Longrightarrow> wf_layout n l'"
proof -
  assume u: "shape l = shape l'" and wf: "wf_layout n l"
  note len = shape_length [OF u]
  have "tiles 0 (el_blocks (l' ! i)) n" if "i < length l'" for i
    using wf that len shape_layer(1) [OF u, of i] by (auto simp: wf_layout_def intro: tiles_shape)
  moreover have "nested l' i b" if i: "Suc i < length l'" and b: "b \<in> set (el_blocks (l' ! Suc i))" for i b
  proof -
    from b obtain k where k: "k < length (el_blocks (l' ! Suc i))" "b = blk l' (Suc i) k"
      by (auto simp: in_set_conv_nth)
    have i': "Suc i < length l" "i < length l" using i len by auto
    have k': "k < length (el_blocks (l ! Suc i))" using k shape_block(1) [OF u i'(1)] by simp
    have "nested l i (blk l (Suc i) k)" using wf i' k' by (auto simp: wf_layout_def)
    then show ?thesis
      using shape_block(2) [OF u i'(1) k'] shape_block(1) [OF u i'(2)] k
        shape_block(2) [OF u i'(2), of "nat (ed_first_sub b)"]
        shape_block(2) [OF u i'(2), of "nat (ed_last_sub b)"]
      by (auto simp: nested_def)
  qed
  ultimately show ?thesis by (auto simp: wf_layout_def)
qed

lemma wf_tiles: "wf_layout n l \<Longrightarrow> i < length l \<Longrightarrow> tiles 0 (el_blocks (l ! i)) n"
  by (simp add: wf_layout_def)

lemma wf_nested:
  "wf_layout n l \<Longrightarrow> Suc i < length l \<Longrightarrow> k < length (el_blocks (l ! Suc i)) \<Longrightarrow>
     nested l i (blk l (Suc i) k)"
  by (auto simp: wf_layout_def)

text \<open>Block boundaries. Every boundary of a layer is a boundary of the layers below, so that no block
  straddles a boundary of a layer above it.\<close>

definition bnd :: "erase_layout \<Rightarrow> nat \<Rightarrow> nat set" where
  "bnd l i = ed_start ` set (el_blocks (l ! i))"

lemma bnd_Suc: "wf_layout n l \<Longrightarrow> Suc i < length l \<Longrightarrow> bnd l (Suc i) \<subseteq> bnd l i"
proof
  fix x assume wf: "wf_layout n l" and i: "Suc i < length l" and "x \<in> bnd l (Suc i)"
  then obtain k where k: "k < length (el_blocks (l ! Suc i))" "x = ed_start (blk l (Suc i) k)"
    by (auto simp: bnd_def in_set_conv_nth)
  let ?m = "nat (ed_first_sub (blk l (Suc i) k))"
  have "nested l i (blk l (Suc i) k)" using wf i k(1) by (rule wf_nested)
  then have "?m < length (el_blocks (l ! i))" and "ed_start (blk l i ?m) = x"
    using k(2) by (auto simp: nested_def)
  then show "x \<in> bnd l i" unfolding bnd_def by (metis image_eqI nth_mem)
qed

lemma bnd_mono: "wf_layout n l \<Longrightarrow> i \<le> f \<Longrightarrow> f < length l \<Longrightarrow> bnd l f \<subseteq> bnd l i"
proof (induction f)
  case (Suc f)
  then show ?case using bnd_Suc [of n l f] by (cases "i = Suc f") auto
qed simp

lemma no_straddle:
  assumes "wf_layout n l" and "i \<le> f" and "f < length l" and "k < length (el_blocks (l ! i))"
    and "x \<in> bnd l f"
  shows "ed_end (blk l i k) < x \<or> x \<le> ed_start (blk l i k)"
proof -
  have "x \<in> bnd l i" using assms bnd_mono by blast
  then obtain m where m: "m < length (el_blocks (l ! i))" "x = ed_start (blk l i m)"
    by (auto simp: bnd_def in_set_conv_nth)
  have t: "tiles 0 (el_blocks (l ! i)) n" using assms by (auto intro: wf_tiles)
  show ?thesis
    using tiles_order(1) [OF t m(1) assms(4)] tiles_less [OF t, of k m] m by (meson not_le)
qed

end
