(* ===== verification/ErasePlan.thy ===== *)
theory ErasePlan
  imports EraseSelect
begin

text \<open>
  The plan that \<^verbatim>\<open>select_erase_functions\<close> makes on a well-formed layout: what each of the functions
  that change selection flags does to the flags, and the contract \<open>sel_spec\<close> of the selection. The
  geometry of the layout is that of a fixed layout \<open>L\<close>; the layouts \<open>l\<close>, \<open>l'\<close> before and after a step have
  its shape and differ in the flags.
\<close>

section \<open>Blocks and address ranges\<close>

definition rng :: "erase_layout \<Rightarrow> nat \<Rightarrow> nat \<Rightarrow> bool" where
  "rng L i k \<longleftrightarrow> i < length L \<and> k < length (el_blocks (L ! i))"

definition within :: "erase_layout \<Rightarrow> nat \<Rightarrow> nat \<Rightarrow> nat \<Rightarrow> nat \<Rightarrow> bool" where
  "within L i k a b \<longleftrightarrow> a \<le> ed_start (blk L i k) \<and> ed_end (blk L i k) \<le> b"

lemma rng_shape: "shape l = shape L \<Longrightarrow> rng l i k = rng L i k"
  using shape_length [of l L] shape_block(1) [of l L i] by (auto simp: rng_def)

lemma blk_shape:
  assumes "shape l = shape L" and "rng L i k"
  shows "ed_start (blk l i k) = ed_start (blk L i k)" and "ed_end (blk l i k) = ed_end (blk L i k)"
    and "ed_first_sub (blk l i k) = ed_first_sub (blk L i k)"
    and "ed_last_sub (blk l i k) = ed_last_sub (blk L i k)"
proof -
  have "rng l i k" using rng_shape [OF assms(1)] assms(2) by simp
  then show "ed_start (blk l i k) = ed_start (blk L i k)" and "ed_end (blk l i k) = ed_end (blk L i k)"
    and "ed_first_sub (blk l i k) = ed_first_sub (blk L i k)"
    and "ed_last_sub (blk l i k) = ed_last_sub (blk L i k)"
    using shape_block(2) [OF assms(1)] by (simp_all add: rng_def)
qed

lemma in_layer_rng: "shape l = shape L \<Longrightarrow> in_layer l i k \<longleftrightarrow> 0 \<le> k \<and> rng L i (nat k)"
  by (drule in_layer_shape [of l L i k]) (auto simp: in_layer_def rng_def)

lemma rng_bounds:
  assumes "wf_layout n L" and "rng L i k"
  shows "ed_start (blk L i k) \<le> ed_end (blk L i k)" and "ed_end (blk L i k) < n"
  using tiles_bounds [OF wf_tiles [OF assms(1)], of i k] assms(2) by (auto simp: rng_def)

lemma rng_order:
  assumes "wf_layout n L" and "rng L i j" and "rng L i k"
  shows "ed_start (blk L i j) \<le> ed_start (blk L i k) \<longleftrightarrow> j \<le> k"
    and "ed_end (blk L i j) \<le> ed_end (blk L i k) \<longleftrightarrow> j \<le> k"
    and "ed_start (blk L i j) \<le> ed_end (blk L i k) \<longleftrightarrow> j \<le> k"
  using tiles_order [OF wf_tiles [OF assms(1)], of i j k] assms(2,3) by (auto simp: rng_def)

lemma rng_next:
  "wf_layout n L \<Longrightarrow> rng L i (Suc k) \<Longrightarrow> ed_start (blk L i (Suc k)) = Suc (ed_end (blk L i k))"
  using tiles_next [OF wf_tiles, of n L i k] by (auto simp: rng_def)

lemma rng_nested:
  assumes "wf_layout n L" and "rng L (Suc i) k"
  obtains s e where "ed_first_sub (blk L (Suc i) k) = int s" and "ed_last_sub (blk L (Suc i) k) = int e"
    and "s \<le> e" and "rng L i s" and "rng L i e"
    and "ed_start (blk L i s) = ed_start (blk L (Suc i) k)"
    and "ed_end (blk L i e) = ed_end (blk L (Suc i) k)"
proof -
  have "nested L i (blk L (Suc i) k)" using assms by (auto simp: rng_def intro: wf_nested)
  with assms(2) show ?thesis
    by (intro that [of "nat (ed_first_sub (blk L (Suc i) k))" "nat (ed_last_sub (blk L (Suc i) k))"])
      (auto simp: nested_def rng_def)
qed

text \<open>A block that lies below a boundary of a layer above does not straddle it.\<close>

lemma rng_no_straddle:
  assumes "wf_layout n L" and "rng L i k" and "i \<le> f" and "rng L f m"
  shows "ed_end (blk L i k) < ed_start (blk L f m) \<or> ed_start (blk L f m) \<le> ed_start (blk L i k)"
  using assms no_straddle [OF assms(1,3), of k "ed_start (blk L f m)"]
  by (auto simp: rng_def bnd_def)

text \<open>Hence a block inside two adjacent blocks of a layer above is inside one of them.\<close>

lemma within_split:
  assumes "wf_layout n L" and "rng L i k" and "i \<le> f" and "rng L f (Suc m)"
    and "within L i k a b"
  shows "within L i k a (ed_end (blk L f m)) \<or> within L i k (ed_start (blk L f (Suc m))) b"
  using rng_no_straddle [OF assms(1-4)] rng_next [OF assms(1,4)] assms(5) by (auto simp: within_def)

section \<open>What the flag updates do\<close>

lemma set_selected_shape [simp]: "shape (set_selected i k v l) = shape l"
proof (cases "i < length l")
  case True
  have "map bshape ((el_blocks (l ! i))[k := (blk l i k)\<lparr>ed_selected := v\<rparr>]) =
      map bshape (el_blocks (l ! i))"
    by (cases "k < length (el_blocks (l ! i))")
      (auto simp: map_update bshape_def list_update_same_conv list_update_beyond)
  with True show ?thesis
    by (simp add: set_selected_def shape_def map_update list_update_same_conv)
qed (simp add: set_selected_def list_update_beyond)

lemma set_selected_sel:
  assumes "rng l i k"
  shows "sel (set_selected i k v l) i' k' = (if i' = i \<and> k' = k then v else sel l i' k')"
  using assms by (auto simp: set_selected_def rng_def nth_list_update)

lemma deselect_range_spec:
  assumes "shape l = shape L" and "s \<le> Suc e" and "e < length (el_blocks (L ! i))" and "i < length L"
  shows "shape (deselect_range i (int s) (int e) l) = shape L \<and>
    (\<forall>i' k. sel (deselect_range i (int s) (int e) l) i' k \<longleftrightarrow>
       sel l i' k \<and> \<not> (i' = i \<and> s \<le> k \<and> k \<le> e))"
  using assms(1,2)
proof (induction "Suc e - s" arbitrary: s l)
  case 0
  then show ?case by (subst (1 2) deselect_range.simps) auto
next
  case (Suc x)
  then have s: "s \<le> e" by simp
  let ?l1 = "set_selected i s False l"
  have r: "rng l i s" using rng_shape [OF Suc.prems(1)] s assms(3,4) by (simp add: rng_def)
  have step: "deselect_range i (int s) (int e) l = deselect_range i (int (Suc s)) (int e) ?l1"
    using s by (subst deselect_range.simps) (simp add: add.commute)
  have "shape ?l1 = shape L" using Suc.prems(1) by simp
  with Suc.hyps(1) [of "Suc s" ?l1] Suc.hyps(2) s
  have IH: "shape (deselect_range i (int (Suc s)) (int e) ?l1) = shape L"
    "\<And>i' k. sel (deselect_range i (int (Suc s)) (int e) ?l1) i' k \<longleftrightarrow>
       sel ?l1 i' k \<and> \<not> (i' = i \<and> Suc s \<le> k \<and> k \<le> e)"
    by auto
  have "sel ?l1 i' k \<and> \<not> (i' = i \<and> Suc s \<le> k \<and> k \<le> e) \<longleftrightarrow>
      sel l i' k \<and> \<not> (i' = i \<and> s \<le> k \<and> k \<le> e)" for i' k
    using s by (cases "k = s") (auto simp: set_selected_sel [OF r])
  with IH show ?case unfolding step by blast
qed

lemma deselect_spec:
  assumes "wf_layout n L" and "shape l = shape L" and "rng L f s" and "rng L f e" and "s \<le> e"
  shows "\<exists>l'. deselect_erase_functions f (int s) (int e) l = Some l' \<and> shape l' = shape L \<and>
    (\<forall>i k. rng L i k \<longrightarrow> sel l' i k =
       (sel l i k \<and> \<not> (i \<le> f \<and> within L i k (ed_start (blk L f s)) (ed_end (blk L f e)))))"
  using assms(2-5)
proof (induction f arbitrary: s e l)
  case 0
  note d = deselect_range_spec [OF 0(1), of s e 0]
  have il: "in_layer l 0 (int s)" "in_layer l 0 (int e)"
    using 0 by (simp_all add: in_layer_rng)
  have "within L 0 k (ed_start (blk L 0 s)) (ed_end (blk L 0 e)) \<longleftrightarrow> s \<le> k \<and> k \<le> e" if "rng L 0 k" for k
    using rng_order [OF assms(1)] that 0 by (simp add: within_def)
  with il d 0 show ?case by (auto simp: rng_def)
next
  case (Suc f)
  let ?l1 = "deselect_range (Suc f) (int s) (int e) l"
  have "s \<le> Suc e" "e < length (el_blocks (L ! Suc f))" "Suc f < length L"
    using Suc.prems by (auto simp: rng_def)
  note d = deselect_range_spec [OF Suc.prems(1) this]
  have il: "in_layer l (Suc f) (int s)" "in_layer l (Suc f) (int e)"
    using Suc.prems by (simp_all add: in_layer_rng)
  obtain s1 s2 where s1: "ed_first_sub (blk L (Suc f) s) = int s1" "rng L f s1"
      "ed_start (blk L f s1) = ed_start (blk L (Suc f) s)"
    using rng_nested [OF assms(1) Suc.prems(2)] by metis
  obtain e1 where e1: "ed_last_sub (blk L (Suc f) e) = int e1" "rng L f e1"
      "ed_end (blk L f e1) = ed_end (blk L (Suc f) e)"
    using rng_nested [OF assms(1) Suc.prems(3)] by metis
  have "ed_start (blk L (Suc f) s) \<le> ed_end (blk L (Suc f) e)"
    using rng_order(3) [OF assms(1) Suc.prems(2,3)] Suc.prems(4) by simp
  then have "s1 \<le> e1" using rng_order(3) [OF assms(1) s1(2) e1(2)] s1(3) e1(3) by simp
  with Suc.IH [of ?l1 s1 e1] d s1(2) e1(2)
  obtain l' where l': "deselect_erase_functions f (int s1) (int e1) ?l1 = Some l'" "shape l' = shape L"
    "\<forall>i k. rng L i k \<longrightarrow> sel l' i k =
       (sel ?l1 i k \<and> \<not> (i \<le> f \<and> within L i k (ed_start (blk L f s1)) (ed_end (blk L f e1))))"
    by blast
  have top: "within L (Suc f) k (ed_start (blk L (Suc f) s)) (ed_end (blk L (Suc f) e)) \<longleftrightarrow> s \<le> k \<and> k \<le> e"
    if "rng L (Suc f) k" for k
    using rng_order [OF assms(1)] that Suc.prems by (simp add: within_def)
  have "sel l' i k = (sel l i k \<and> \<not> (i \<le> Suc f \<and>
      within L i k (ed_start (blk L (Suc f) s)) (ed_end (blk L (Suc f) e))))" if r: "rng L i k" for i k
    using l'(3) r d top s1(3) e1(3) by (cases "i = Suc f") (auto simp: le_Suc_eq)
  then show ?case
    using l' il s1(1) e1(1) blk_shape [OF Suc.prems(1)] Suc.prems(2,3) by auto
qed

section \<open>The contract of the selection\<close>

text \<open>The smallest block \<open>k\<close> holds data that cannot be programmed without an erase, as \<^verbatim>\<open>need_erase\<close>
  says.\<close>

definition needs :: "'s flashctx \<Rightarrow> bytes \<Rightarrow> bytes \<Rightarrow> erase_layout \<Rightarrow> nat \<Rightarrow> bool" where
  "needs c cur new L k \<longleftrightarrow>
     need_erase (drop (ed_start (blk L 0 k)) cur) (drop (ed_start (blk L 0 k)) new)
       (add32 (sub32 (ed_end (blk L 0 k)) (ed_start (blk L 0 k))) 1)
       (ch_gran (c_chip c)) (ERASED_VALUE c) \<noteq> 0"

text \<open>Block \<open>k\<close> of layer \<open>i\<close> is a selected block of the layers up to \<open>f\<close> inside \<open>[a, b]\<close>.\<close>

definition chosen :: "erase_layout \<Rightarrow> erase_layout \<Rightarrow> nat \<Rightarrow> nat \<Rightarrow> nat \<Rightarrow> nat \<Rightarrow> nat \<Rightarrow> bool" where
  "chosen L l f a b i k \<longleftrightarrow> i \<le> f \<and> rng L i k \<and> within L i k a b \<and> sel l i k"

definition disjoint_blocks :: "erase_layout \<Rightarrow> nat \<Rightarrow> nat \<Rightarrow> nat \<Rightarrow> nat \<Rightarrow> bool" where
  "disjoint_blocks L i k i' k' \<longleftrightarrow>
     ed_end (blk L i k) < ed_start (blk L i' k') \<or> ed_end (blk L i' k') < ed_start (blk L i k)"

text \<open>\<open>sel_spec\<close>: from \<open>l\<close> to \<open>l'\<close> only flags of blocks of the layers up to \<open>f\<close> inside \<open>[a, b]\<close> change;
  the blocks selected there lie in the region \<open>[rs, re]\<close>, do not overlap, and cover every smallest
  block of the region inside \<open>[a, b]\<close> that needs an erase.\<close>

definition sel_frame :: "erase_layout \<Rightarrow> nat \<Rightarrow> nat \<Rightarrow> nat \<Rightarrow> erase_layout \<Rightarrow> erase_layout \<Rightarrow> bool" where
  "sel_frame L f a b l l' \<longleftrightarrow> shape l' = shape L \<and>
     (\<forall>i k. rng L i k \<and> \<not> (i \<le> f \<and> within L i k a b) \<longrightarrow> sel l' i k = sel l i k)"

definition sel_good ::
    "'s flashctx \<Rightarrow> bytes \<Rightarrow> bytes \<Rightarrow> nat \<Rightarrow> nat \<Rightarrow> erase_layout \<Rightarrow> nat \<Rightarrow> nat \<Rightarrow> nat \<Rightarrow> erase_layout \<Rightarrow> bool" where
  "sel_good c cur new rs re L f a b l' \<longleftrightarrow>
     (\<forall>i k. chosen L l' f a b i k \<longrightarrow> within L i k rs re) \<and>
     (\<forall>i k i' k'. chosen L l' f a b i k \<and> chosen L l' f a b i' k' \<and> (i, k) \<noteq> (i', k') \<longrightarrow>
        disjoint_blocks L i k i' k') \<and>
     (\<forall>k. rng L 0 k \<and> within L 0 k a b \<and> within L 0 k rs re \<and> needs c cur new L k \<longrightarrow>
        (\<exists>i m. chosen L l' f a b i m \<and>
           within L 0 k (ed_start (blk L i m)) (ed_end (blk L i m))))"

definition sel_spec ::
    "'s flashctx \<Rightarrow> bytes \<Rightarrow> bytes \<Rightarrow> nat \<Rightarrow> nat \<Rightarrow> erase_layout \<Rightarrow> nat \<Rightarrow> nat \<Rightarrow> nat \<Rightarrow> erase_layout
     \<Rightarrow> erase_layout \<Rightarrow> bool" where
  "sel_spec c cur new rs re L f a b l l' \<longleftrightarrow>
     sel_frame L f a b l l' \<and> sel_good c cur new rs re L f a b l'"

definition none_sel :: "erase_layout \<Rightarrow> nat \<Rightarrow> nat \<Rightarrow> nat \<Rightarrow> erase_layout \<Rightarrow> bool" where
  "none_sel L f a b l \<longleftrightarrow> \<not> (\<exists>i k. chosen L l f a b i k)"

lemma none_selD:
  "none_sel L f a b l \<Longrightarrow> i \<le> f \<Longrightarrow> rng L i k \<Longrightarrow> within L i k a b \<Longrightarrow> \<not> sel l i k"
  by (auto simp: none_sel_def chosen_def)

lemma none_sel_mono:
  "none_sel L f a b l \<Longrightarrow> f' \<le> f \<Longrightarrow> a \<le> a' \<Longrightarrow> b' \<le> b \<Longrightarrow> none_sel L f' a' b' l"
  unfolding none_sel_def chosen_def within_def by (meson le_trans)

text \<open>Selecting in two adjacent ranges one after the other.\<close>

lemma sel_spec_join:
  assumes wf: "wf_layout n L" and r: "rng L f (Suc m)"
    and 1: "sel_spec c cur new rs re L f a (ed_end (blk L f m)) l l1"
    and 2: "sel_spec c cur new rs re L f (ed_start (blk L f (Suc m))) b l1 l2"
    and ab: "a \<le> ed_end (blk L f m)" "ed_start (blk L f (Suc m)) \<le> b"
  shows "sel_spec c cur new rs re L f a b l l2"
proof -
  let ?e = "ed_end (blk L f m)" and ?s = "ed_start (blk L f (Suc m))"
  have next_start: "?s = Suc ?e" using wf r by (rule rng_next)
  have f1: "sel_frame L f a ?e l l1" and g1: "sel_good c cur new rs re L f a ?e l1"
    and f2: "sel_frame L f ?s b l1 l2" and g2: "sel_good c cur new rs re L f ?s b l2"
    using 1 2 by (auto simp: sel_spec_def)
  have outer: "within L i k a b" if "within L i k a ?e \<or> within L i k ?s b" for i k
    using that ab next_start by (auto simp: within_def)
  have left: "sel l2 i k = sel l1 i k" if "rng L i k" "within L i k a ?e" for i k
  proof -
    have "\<not> within L i k ?s b"
      using that rng_bounds [OF wf that(1)] next_start by (auto simp: within_def)
    with f2 that(1) show ?thesis by (auto simp: sel_frame_def)
  qed
  have split: "chosen L l1 f a ?e i k \<or> chosen L l2 f ?s b i k" if "chosen L l2 f a b i k" for i k
    using that within_split [OF wf _ _ r, of i k a b] left by (auto simp: chosen_def)
  have join1: "chosen L l2 f a b i k" if "chosen L l1 f a ?e i k" for i k
    using that left outer by (auto simp: chosen_def)
  have join2: "chosen L l2 f a b i k" if "chosen L l2 f ?s b i k" for i k
    using that outer by (auto simp: chosen_def)
  have apart: "disjoint_blocks L i k i' k' \<and> disjoint_blocks L i' k' i k"
    if "chosen L l1 f a ?e i k" "chosen L l2 f ?s b i' k'" for i k i' k'
    using that next_start by (auto simp: chosen_def within_def disjoint_blocks_def)
  have "sel_frame L f a b l l2"
    using f1 f2 outer unfolding sel_frame_def by blast
  moreover have "within L i k rs re" if "chosen L l2 f a b i k" for i k
    using split [OF that] g1 g2 unfolding sel_good_def by blast
  moreover have "disjoint_blocks L i k i' k'"
    if "chosen L l2 f a b i k" "chosen L l2 f a b i' k'" "(i, k) \<noteq> (i', k')" for i k i' k'
    using split [OF that(1)] split [OF that(2)] that(3) g1 g2 apart unfolding sel_good_def by blast
  moreover have "\<exists>i m. chosen L l2 f a b i m \<and> within L 0 k (ed_start (blk L i m)) (ed_end (blk L i m))"
    if "rng L 0 k" "within L 0 k a b" "within L 0 k rs re" "needs c cur new L k" for k
    using within_split [OF wf that(1) _ r that(2)] that g1 g2 join1 join2
    unfolding sel_good_def by blast
  ultimately show ?thesis unfolding sel_spec_def sel_good_def by blast
qed

lemma none_sel_after:
  assumes wf: "wf_layout n L" and r: "rng L f (Suc m)"
    and fr: "sel_frame L f a (ed_end (blk L f m)) l l1"
    and none: "none_sel L f a b l" and a: "a \<le> ed_start (blk L f (Suc m))"
  shows "none_sel L f (ed_start (blk L f (Suc m))) b l1"
proof -
  have "\<not> chosen L l1 f (ed_start (blk L f (Suc m))) b i k" for i k
  proof
    assume ch: "chosen L l1 f (ed_start (blk L f (Suc m))) b i k"
    then have k: "rng L i k" "i \<le> f" "within L i k (ed_start (blk L f (Suc m))) b" "sel l1 i k"
      by (auto simp: chosen_def)
    have "\<not> within L i k a (ed_end (blk L f m))"
      using k rng_bounds(1) [OF wf k(1)] rng_next [OF wf r] by (auto simp: within_def)
    with fr k have "sel l i k" by (auto simp: sel_frame_def)
    moreover have "within L i k a b" using k(3) a by (auto simp: within_def)
    ultimately show False using none k by (auto simp: none_sel_def chosen_def)
  qed
  then show ?thesis by (auto simp: none_sel_def)
qed

lemma select_loop_spec:
  assumes wf: "wf_layout n L"
    and rec: "\<And>j l. shape l = shape L \<Longrightarrow> rng L f j \<Longrightarrow>
      none_sel L f (ed_start (blk L f j)) (ed_end (blk L f j)) l \<Longrightarrow>
      \<exists>l'. selfn j l = Some l' \<and>
        sel_spec c cur new rs re L f (ed_start (blk L f j)) (ed_end (blk L f j)) l l'"
    and "shape l = shape L" and "rng L f s" and "rng L f e" and "s \<le> e"
    and "none_sel L f (ed_start (blk L f s)) (ed_end (blk L f e)) l"
  shows "\<exists>cnt l'. select_loop selfn f (int s) (int e) c0 l = Some (cnt, l') \<and>
    sel_spec c cur new rs re L f (ed_start (blk L f s)) (ed_end (blk L f e)) l l'"
  using assms(3-7)
proof (induction "e - s" arbitrary: s l c0)
  case 0
  then have e: "e = s" by simp
  from rec [OF 0(2,3)] 0(6) obtain l1 where l1: "selfn s l = Some l1"
    "sel_spec c cur new rs re L f (ed_start (blk L f s)) (ed_end (blk L f s)) l l1" unfolding e by blast
  have "in_layer l f (int s)" using 0(2,3) by (simp add: in_layer_rng)
  with l1 show ?case unfolding e
    by (subst select_loop.simps) (auto simp: select_loop.simps [of selfn f "int s + 1"])
next
  case (Suc x)
  then have se: "s < e" by simp
  have rS: "rng L f (Suc s)" using Suc.prems(3) se by (simp add: rng_def)
  have ends: "ed_end (blk L f s) \<le> ed_end (blk L f e)" "ed_start (blk L f (Suc s)) \<le> ed_end (blk L f e)"
    using rng_order(2) [OF wf Suc.prems(2,3)] rng_order(3) [OF wf rS Suc.prems(3)] se by auto
  have starts: "ed_start (blk L f s) \<le> ed_end (blk L f s)" "ed_start (blk L f s) \<le> ed_start (blk L f (Suc s))"
    using rng_bounds(1) [OF wf Suc.prems(2)] rng_order(1) [OF wf Suc.prems(2) rS] by auto
  have "none_sel L f (ed_start (blk L f s)) (ed_end (blk L f s)) l"
    using Suc.prems(5) ends(1) by (auto intro: none_sel_mono)
  from rec [OF Suc.prems(1,2) this] obtain l1 where l1: "selfn s l = Some l1"
    and sp: "sel_spec c cur new rs re L f (ed_start (blk L f s)) (ed_end (blk L f s)) l l1" by blast
  have sh: "shape l1 = shape L" and fr: "sel_frame L f (ed_start (blk L f s)) (ed_end (blk L f s)) l l1"
    using sp by (auto simp: sel_spec_def sel_frame_def)
  have "none_sel L f (ed_start (blk L f (Suc s))) (ed_end (blk L f e)) l1"
    using wf rS fr Suc.prems(5) starts(2) by (rule none_sel_after)
  from Suc.hyps(1) [OF _ sh rS Suc.prems(3) _ this] Suc.hyps(2) se
  obtain cnt l' where rest:
    "select_loop selfn f (int (Suc s)) (int e) (if sel l1 f s then c0 + 1 else c0) l1 = Some (cnt, l')"
    "sel_spec c cur new rs re L f (ed_start (blk L f (Suc s))) (ed_end (blk L f e)) l1 l'"
    by (metis Suc_diff_Suc Suc_leI diff_Suc_1)
  have "in_layer l f (int s)" using Suc.prems(1,2) by (simp add: in_layer_rng)
  then have "select_loop selfn f (int s) (int e) c0 l = Some (cnt, l')"
    using l1 rest(1) se by (subst select_loop.simps) (simp add: add.commute)
  moreover have "sel_spec c cur new rs re L f (ed_start (blk L f s)) (ed_end (blk L f e)) l l'"
    using wf rS sp rest(2) starts(1) ends(2) by (rule sel_spec_join)
  ultimately show ?case by blast
qed

text \<open>Layer 0: the flag of the block becomes what \<^verbatim>\<open>need_erase\<close> says, if the block is in the region.\<close>

lemma only_block:
  assumes "wf_layout n L" and "rng L f k" and "rng L f m"
    and "within L f m (ed_start (blk L f k)) (ed_end (blk L f k))"
  shows "m = k"
  using assms(4) rng_order(1) [OF assms(1,2,3)] rng_order(2) [OF assms(1,3,2)]
  by (auto simp: within_def)

lemma select_leaf:
  assumes wf: "wf_layout n L" and sh: "shape l = shape L" and r: "rng L 0 k"
    and none: "none_sel L 0 (ed_start (blk L 0 k)) (ed_end (blk L 0 k)) l"
  shows "\<exists>l'. select_erase_functions c 0 cur new rs re k l = Some l' \<and>
    sel_spec c cur new rs re L 0 (ed_start (blk L 0 k)) (ed_end (blk L 0 k)) l l'"
proof -
  let ?a = "ed_start (blk L 0 k)" and ?b = "ed_end (blk L 0 k)"
  have il: "in_layer l 0 (int k)" using sh r by (simp add: in_layer_rng)
  have self: "within L 0 k ?a ?b" by (simp add: within_def)
  have one: "m = k" if "rng L 0 m" "within L 0 m ?a ?b" for m
    using only_block [OF wf r that] .
  note bs = blk_shape [OF sh r]
  show ?thesis
  proof (cases "within L 0 k rs re")
    case True
    let ?l' = "set_selected 0 k (needs c cur new L k) l"
    have rl: "rng l 0 k" using r rng_shape [OF sh] by simp
    have "select_erase_functions c 0 cur new rs re k l = Some ?l'"
      using il True by (simp add: Let_def bs within_def needs_def)
    moreover have "sel_frame L 0 ?a ?b l ?l'"
      using sh self by (auto simp: sel_frame_def set_selected_sel [OF rl])
    moreover have "sel_good c cur new rs re L 0 ?a ?b ?l'"
      using True one self r
      by (auto simp: sel_good_def chosen_def set_selected_sel [OF rl])
    ultimately show ?thesis by (auto simp: sel_spec_def)
  next
    case False
    have "select_erase_functions c 0 cur new rs re k l = Some l"
      using il False by (auto simp: Let_def bs within_def)
    moreover have "sel_good c cur new rs re L 0 ?a ?b l"
      using False one none by (auto simp: sel_good_def none_sel_def)
    ultimately show ?thesis using sh by (auto simp: sel_spec_def sel_frame_def)
  qed
qed

text \<open>A block of a higher layer whose sub-blocks are done: either nothing else happens, or the
  sub-blocks are deselected and the block is selected instead.\<close>

lemma sel_spec_keep:
  assumes wf: "wf_layout n L" and r: "rng L (Suc f) k"
    and sp: "sel_spec c cur new rs re L f (ed_start (blk L (Suc f) k)) (ed_end (blk L (Suc f) k)) l l1"
    and none: "none_sel L (Suc f) (ed_start (blk L (Suc f) k)) (ed_end (blk L (Suc f) k)) l"
  shows "sel_spec c cur new rs re L (Suc f) (ed_start (blk L (Suc f) k)) (ed_end (blk L (Suc f) k)) l l1"
proof -
  let ?a = "ed_start (blk L (Suc f) k)" and ?b = "ed_end (blk L (Suc f) k)"
  have fr: "sel_frame L f ?a ?b l l1" and g: "sel_good c cur new rs re L f ?a ?b l1"
    using sp by (auto simp: sel_spec_def)
  have "\<not> sel l1 (Suc f) m" if "rng L (Suc f) m" "within L (Suc f) m ?a ?b" for m
    using fr none that by (auto simp: sel_frame_def none_sel_def chosen_def)
  then have ch: "chosen L l1 (Suc f) ?a ?b i m \<longleftrightarrow> chosen L l1 f ?a ?b i m" for i m
    by (auto simp: chosen_def le_Suc_eq)
  have "sel_frame L (Suc f) ?a ?b l l1" using fr by (auto simp: sel_frame_def)
  with g show ?thesis by (simp add: sel_spec_def sel_good_def ch)
qed

lemma sel_spec_replace:
  assumes wf: "wf_layout n L" and r: "rng L (Suc f) k"
    and fr: "sel_frame L f (ed_start (blk L (Suc f) k)) (ed_end (blk L (Suc f) k)) l l1"
    and sh: "shape l2 = shape L"
    and des: "\<forall>i m. rng L i m \<longrightarrow> sel l2 i m =
      (sel l1 i m \<and> \<not> (i \<le> f \<and> within L i m (ed_start (blk L (Suc f) k)) (ed_end (blk L (Suc f) k))))"
    and w: "within L (Suc f) k rs re"
  shows "sel_spec c cur new rs re L (Suc f) (ed_start (blk L (Suc f) k)) (ed_end (blk L (Suc f) k)) l
    (set_selected (Suc f) k True l2)"
proof -
  let ?a = "ed_start (blk L (Suc f) k)" and ?b = "ed_end (blk L (Suc f) k)"
  let ?l' = "set_selected (Suc f) k True l2"
  have rl: "rng l2 (Suc f) k" using r rng_shape [OF sh] by simp
  have ww: "within L (Suc f) k ?a ?b" by (simp add: within_def)
  have "sel ?l' i m = sel l i m" if "rng L i m" "\<not> (i \<le> Suc f \<and> within L i m ?a ?b)" for i m
  proof -
    have "(i, m) \<noteq> (Suc f, k)" using that(2) ww by auto
    then have "sel ?l' i m = sel l2 i m" by (auto simp: set_selected_sel [OF rl])
    also have "\<dots> = sel l1 i m" using des that by auto
    also have "\<dots> = sel l i m" using fr that unfolding sel_frame_def by (meson le_SucI)
    finally show ?thesis .
  qed
  then have "sel_frame L (Suc f) ?a ?b l ?l'" using sh by (auto simp: sel_frame_def)
  moreover have only: "chosen L ?l' (Suc f) ?a ?b i m \<longleftrightarrow> i = Suc f \<and> m = k" for i m
  proof
    assume ch: "chosen L ?l' (Suc f) ?a ?b i m"
    then have "i = Suc f" using des by (auto simp: chosen_def set_selected_sel [OF rl] split: if_splits)
    with ch only_block [OF wf r, of m] show "i = Suc f \<and> m = k" by (auto simp: chosen_def)
  next
    assume "i = Suc f \<and> m = k"
    with r ww show "chosen L ?l' (Suc f) ?a ?b i m" by (auto simp: chosen_def set_selected_sel [OF rl])
  qed
  then have "sel_good c cur new rs re L (Suc f) ?a ?b ?l'"
    unfolding sel_good_def only using w by auto
  ultimately show ?thesis by (simp add: sel_spec_def)
qed

lemma select_spec:
  assumes wf: "wf_layout n L"
  shows "shape l = shape L \<Longrightarrow> rng L f k \<Longrightarrow>
    none_sel L f (ed_start (blk L f k)) (ed_end (blk L f k)) l \<Longrightarrow>
    \<exists>l'. select_erase_functions c f cur new rs re k l = Some l' \<and>
      sel_spec c cur new rs re L f (ed_start (blk L f k)) (ed_end (blk L f k)) l l'"
proof (induction f arbitrary: k l)
  case 0
  with select_leaf [OF wf] show ?case by blast
next
  case (Suc f)
  note sh = Suc.prems(1) and r = Suc.prems(2) and none = Suc.prems(3)
  let ?a = "ed_start (blk L (Suc f) k)" and ?b = "ed_end (blk L (Suc f) k)"
  obtain s e where se: "ed_first_sub (blk L (Suc f) k) = int s" "ed_last_sub (blk L (Suc f) k) = int e"
    "s \<le> e" "rng L f s" "rng L f e" "ed_start (blk L f s) = ?a" "ed_end (blk L f e) = ?b"
    using rng_nested [OF wf r] by metis
  have "none_sel L f ?a ?b l" using none by (auto intro: none_sel_mono)
  then obtain cnt l1 where l1:
    "select_loop (\<lambda>j l. select_erase_functions c f cur new rs re j l) f (int s) (int e) 0 l = Some (cnt, l1)"
    "sel_spec c cur new rs re L f ?a ?b l l1"
    using select_loop_spec [OF wf Suc.IH sh se(4,5,3), of 0] unfolding se(6,7) by blast
  have sh1: "shape l1 = shape L" and fr1: "sel_frame L f ?a ?b l l1"
    using l1(2) by (auto simp: sel_spec_def sel_frame_def)
  from deselect_spec [OF wf sh1 se(4,5,3)] obtain l2 where
    l2: "deselect_erase_functions f (int s) (int e) l1 = Some l2" "shape l2 = shape L"
    "\<forall>i m. rng L i m \<longrightarrow> sel l2 i m = (sel l1 i m \<and> \<not> (i \<le> f \<and> within L i m ?a ?b))"
    unfolding se(6,7) by blast
  have il: "in_layer l (Suc f) (int k)" using sh r by (simp add: in_layer_rng)
  note bs = blk_shape [OF sh r]
  let ?cond = "int e - int s + 1 - cnt \<le> c_div ((int e - int s + 1) * c_sacrifice_ratio c) 100"
  have run: "select_erase_functions c (Suc f) cur new rs re k l =
      Some (if ?cond \<and> within L (Suc f) k rs re then set_selected (Suc f) k True l2 else l1)"
    using il l1(1) l2(1) by (simp add: Let_def bs se(1,2) within_def)
  show ?case
  proof (cases "?cond \<and> within L (Suc f) k rs re")
    case True
    with run sel_spec_replace [OF wf r fr1 l2(2,3)] show ?thesis by auto
  next
    case False
    with run sel_spec_keep [OF wf r l1(2) none] show ?thesis by auto
  qed
qed

end
