(* ===== verification/FlashOps.thy ===== *)
theory FlashOps
  imports WriteGran
begin

text \<open>
  The access wrappers of \<^verbatim>\<open>flashrom/flashrom.c\<close> that every higher operation goes through:
  \<^verbatim>\<open>check_for_unwritable_regions\<close>, \<^verbatim>\<open>read_flash\<close>, \<^verbatim>\<open>verify_range\<close>, \<^verbatim>\<open>check_erased_range\<close> and
  \<^verbatim>\<open>write_flash\<close>. Each walks the regions that the programmer reports and applies the policy for
  protected regions.

  The loops advance by what \<^verbatim>\<open>get_flash_region\<close> reports, so that they need not end for every
  programmer: they are partial functions, and \<open>None\<close> also stands for an access outside a buffer
  and for a call through a null function pointer. The interface \<open>flash_regions\<close> and its
  extensions state what a programmer has to promise; under it the wrappers are proved to return.
\<close>

section \<open>Definitions\<close>

partial_function (option) unwritable_loop :: "'s flashctx \<Rightarrow> nat \<Rightarrow> nat \<Rightarrow> nat \<Rightarrow> int option" where
  "unwritable_loop c start len addr =
     (if addr < add32 start len then
        (if fr_write_prot (get_flash_region c addr) then Some (-1)
         else unwritable_loop c start len (add32 (fr_end (get_flash_region c addr)) 1))
      else Some 0)"

definition check_for_unwritable_regions :: "'s flashctx \<Rightarrow> nat \<Rightarrow> nat \<Rightarrow> int option" where
  "check_for_unwritable_regions c start len = unwritable_loop c start len start"

text \<open>The length of the piece from \<open>addr\<close> to the end of its region or of the range:
  \<^verbatim>\<open>min(start + len, region.end + 1) - addr\<close>.\<close>

definition piece_len :: "'s flashctx \<Rightarrow> nat \<Rightarrow> nat \<Rightarrow> nat \<Rightarrow> nat" where
  "piece_len c start len addr =
     sub32 (min32 (add32 start len) (add32 (fr_end (get_flash_region c addr)) 1)) addr"

text \<open>\<open>buf\<close> is the destination buffer and \<open>off\<close> the place in it where byte \<open>start\<close> goes. A driver
  that returns hands back the bytes it stored.\<close>

partial_function (option) read_flash_loop ::
    "'s flashctx \<Rightarrow> nat \<Rightarrow> nat \<Rightarrow> nat \<Rightarrow> bytes \<Rightarrow> nat \<Rightarrow> 's \<Rightarrow> (int \<times> bytes \<times> 's) option" where
  "read_flash_loop c off start len buf addr s =
     (if addr < add32 start len then
        (if addr < start \<or> length buf < off + (addr - start) + piece_len c start len addr then None
         else if fr_read_prot (get_flash_region c addr) then
           (if fl_skip_unreadable_regions (c_flags c) then
              read_flash_loop c off start len
                (memset_at (off + (addr - start)) (ERASED_VALUE c) (piece_len c start len addr) buf)
                (add32 addr (piece_len c start len addr)) s
            else Some (-1, buf, s))
         else
           Option.bind (lookup_read_func_ptr c) (\<lambda>read_func.
             Option.bind (read_func addr (piece_len c start len addr) s)
               (\<lambda>(ret, bs, s').
                  if ret \<noteq> 0 then Some (-1, blit (off + (addr - start)) bs buf, s')
                  else read_flash_loop c off start len (blit (off + (addr - start)) bs buf)
                         (add32 addr (piece_len c start len addr)) s')))
      else Some (0, buf, s))"

definition read_flash ::
    "'s flashctx \<Rightarrow> bytes \<Rightarrow> nat \<Rightarrow> nat \<Rightarrow> nat \<Rightarrow> 's \<Rightarrow> (int \<times> bytes \<times> 's) option" where
  "read_flash c buf off start len s = read_flash_loop c off start len buf start s"

text \<open>\<open>off\<close> is the place in \<open>buf\<close> of the byte for address \<open>start\<close>.\<close>

partial_function (option) write_flash_loop ::
    "'s flashctx \<Rightarrow> bytes \<Rightarrow> nat \<Rightarrow> nat \<Rightarrow> nat \<Rightarrow> nat \<Rightarrow> 's \<Rightarrow> (int \<times> 's) option" where
  "write_flash_loop c buf off start len addr s =
     (if addr < add32 start len then
        (if addr < start \<or> length buf < off + (addr - start) + piece_len c start len addr then None
         else if fr_write_prot (get_flash_region c addr) then
           write_flash_loop c buf off start len (add32 addr (piece_len c start len addr)) s
         else
           Option.bind (lookup_write_func_ptr c) (\<lambda>write_func.
             Option.bind (write_func (bslice (off + (addr - start)) (piece_len c start len addr) buf)
                     addr (piece_len c start len addr) s)
               (\<lambda>(ret, s').
                  if ret \<noteq> 0 then Some (-1, s')
                  else write_flash_loop c buf off start len
                         (add32 addr (piece_len c start len addr)) s')))
      else Some (0, s))"

definition write_flash ::
    "'s flashctx \<Rightarrow> bytes \<Rightarrow> nat \<Rightarrow> nat \<Rightarrow> nat \<Rightarrow> 's \<Rightarrow> (int \<times> 's) option" where
  "write_flash c buf off start len s =
     Option.bind (if \<not> fl_skip_unwritable_regions (c_flags c)
                  then check_for_unwritable_regions c start len else Some 0)
       (\<lambda>r. if r \<noteq> 0 then Some (-1, s)
            else write_flash_loop c buf off start len start s)"

text \<open>The loop of \<^verbatim>\<open>verify_range\<close>. Its address is a \<^verbatim>\<open>size_t\<close>, so that the increment does not wrap
  at 32 bits; \<open>readbuf\<close> is the scratch buffer of \<open>len\<close> bytes, not initialised at first.\<close>

partial_function (option) verify_range_loop ::
    "'s flashctx \<Rightarrow> bytes \<Rightarrow> nat \<Rightarrow> nat \<Rightarrow> bytes \<Rightarrow> nat \<Rightarrow> 's \<Rightarrow> (int \<times> 's) option" where
  "verify_range_loop c cmpbuf start len readbuf addr s =
     (if addr < add32 start len then
        (if (fr_write_prot (get_flash_region c (u32 addr)) \<and> fl_skip_unwritable_regions (c_flags c)) \<or>
            (fr_read_prot (get_flash_region c (u32 addr)) \<and> fl_skip_unreadable_regions (c_flags c))
         then verify_range_loop c cmpbuf start len readbuf
                (addr + piece_len c start len (u32 addr)) s
         else if fr_read_prot (get_flash_region c (u32 addr)) then Some (0, s)
         else
           Option.bind (read_flash c readbuf 0 (u32 addr) (piece_len c start len (u32 addr)) s)
             (\<lambda>(ret, readbuf', s').
                if ret \<noteq> 0 then Some (-1, s')
                else if length cmpbuf < addr - start + piece_len c start len (u32 addr) then None
                else if compare_range (drop (addr - start) cmpbuf) readbuf'
                          (piece_len c start len (u32 addr)) \<noteq> 0 then Some (-1, s')
                else verify_range_loop c cmpbuf start len readbuf'
                       (addr + piece_len c start len (u32 addr)) s'))
      else Some (0, s))"

definition verify_range :: "'s flashctx \<Rightarrow> bytes \<Rightarrow> nat \<Rightarrow> nat \<Rightarrow> 's \<Rightarrow> (int \<times> 's) option" where
  "verify_range c cmpbuf start len s =
     (if len = 0 then Some (-1, s)
      else if add32 start len > mul32 (ch_total_size (c_chip c)) 1024 then Some (-1, s)
      else if \<not> c_malloc c len then Some (-1, s)
      else verify_range_loop c cmpbuf start len (fresh_buf c len) start s)"

definition check_erased_range :: "'s flashctx \<Rightarrow> nat \<Rightarrow> nat \<Rightarrow> 's \<Rightarrow> (int \<times> 's) option" where
  "check_erased_range c start len s =
     (if \<not> c_malloc c len then Some (-1, s)
      else verify_range c (replicate len (ERASED_VALUE c)) start len s)"

section \<open>Regions and what a read shows\<close>

text \<open>What a read shows of byte \<open>i\<close> of a chip that holds \<open>img\<close>: unreadable regions read as erased.\<close>

definition visible :: "'s flashctx \<Rightarrow> bytes \<Rightarrow> nat \<Rightarrow> u8" where
  "visible c img i = (if fr_read_prot (get_flash_region c i) then ERASED_VALUE c else img ! i)"

definition readable :: "'s flashctx \<Rightarrow> nat \<Rightarrow> nat \<Rightarrow> bool" where
  "readable c start len \<longleftrightarrow> fl_skip_unreadable_regions (c_flags c) \<or>
     (\<forall>i. start \<le> i \<and> i < start + len \<longrightarrow> \<not> fr_read_prot (get_flash_region c i))"

definition write_protected :: "'s flashctx \<Rightarrow> nat \<Rightarrow> bool" where
  "write_protected c i \<longleftrightarrow> fr_write_prot (get_flash_region c i)"

section \<open>The programmer's promises\<close>

text \<open>\<open>flash_regions\<close>: the chip has \<open>n\<close> bytes, below 2 GiB, and the region reported for an address
  contains it and lies on the chip.\<close>

locale flash_regions =
  fixes c :: "'s flashctx" and n :: nat
  assumes size: "n = ch_total_size (c_chip c) * 1024" and size_pos: "0 < n" and size_bound: "n < 2147483648"
    and region_end: "a < n \<Longrightarrow> a \<le> fr_end (get_flash_region c a) \<and> fr_end (get_flash_region c a) < n"
    and region_same: "a < n \<Longrightarrow> a \<le> b \<Longrightarrow> b \<le> fr_end (get_flash_region c a) \<Longrightarrow>
      get_flash_region c b = get_flash_region c a"
begin

lemma chip_bytes: "mul32 (ch_total_size (c_chip c)) 1024 = n"
  using size size_bound by (simp add: c_simps)

text \<open>The piece of a range from \<open>addr\<close> on is not empty, stays in the range, and lies in one region.\<close>

lemma piece_bounds:
  assumes "start \<le> addr" and "addr < start + len" and "start + len \<le> n"
  shows "piece_len c start len addr = min (start + len) (Suc (fr_end (get_flash_region c addr))) - addr"
    and "0 < piece_len c start len addr" and "addr + piece_len c start len addr \<le> start + len"
    and "add32 addr (piece_len c start len addr) = addr + piece_len c start len addr"
    and "add32 start len = start + len"
    and "addr \<le> i \<Longrightarrow> i < addr + piece_len c start len addr \<Longrightarrow>
      get_flash_region c i = get_flash_region c addr"
proof -
  have r: "addr \<le> fr_end (get_flash_region c addr)" "fr_end (get_flash_region c addr) < n"
    using region_end [of addr] assms by auto
  show al: "add32 start len = start + len" using assms size_bound by (simp add: c_simps)
  show pl: "piece_len c start len addr = min (start + len) (Suc (fr_end (get_flash_region c addr))) - addr"
    using r assms size_bound by (simp add: piece_len_def al c_simps)
  show "0 < piece_len c start len addr" and le: "addr + piece_len c start len addr \<le> start + len"
    using r assms by (auto simp: pl)
  then show "add32 addr (piece_len c start len addr) = addr + piece_len c start len addr"
    using assms size_bound by (simp add: c_simps)
  show "get_flash_region c i = get_flash_region c addr"
    if "addr \<le> i" "i < addr + piece_len c start len addr"
    using that assms r region_same [of addr i] by (auto simp: pl)
qed

lemma unwritable_loop_eq:
  assumes "start \<le> addr" and "start + len \<le> n"
  shows "unwritable_loop c start len addr =
    Some (if \<exists>a. addr \<le> a \<and> a < start + len \<and> fr_write_prot (get_flash_region c a) then -1 else 0)"
  using assms
proof (induction "start + len - addr" arbitrary: addr rule: less_induct)
  case less
  let ?r = "get_flash_region c addr"
  have al: "add32 start len = start + len" using less.prems size_bound by (simp add: c_simps)
  show ?case
  proof (cases "addr < start + len \<and> \<not> fr_write_prot ?r")
    case True
    then have r: "addr \<le> fr_end ?r" "fr_end ?r < n" using region_end [of addr] less.prems by auto
    have nx: "add32 (fr_end ?r) 1 = Suc (fr_end ?r)" using r size_bound by (simp add: c_simps)
    have skip: "(addr \<le> a \<and> a < start + len \<and> fr_write_prot (get_flash_region c a)) \<longleftrightarrow>
        (Suc (fr_end ?r) \<le> a \<and> a < start + len \<and> fr_write_prot (get_flash_region c a))" for a
      using region_same [of addr a] True r less.prems by (cases "a \<le> fr_end ?r") auto
    have "unwritable_loop c start len (Suc (fr_end ?r)) =
        Some (if \<exists>a. Suc (fr_end ?r) \<le> a \<and> a < start + len \<and> fr_write_prot (get_flash_region c a)
              then -1 else 0)"
      using True r less.prems by (intro less.hyps) auto
    with True al nx show ?thesis by (subst unwritable_loop.simps) (simp add: skip)
  next
    case False
    with al show ?thesis by (subst unwritable_loop.simps) (auto intro: exI [of _ addr])
  qed
qed

lemma check_for_unwritable_regions_eq:
  "start + len \<le> n \<Longrightarrow> check_for_unwritable_regions c start len =
    Some (if \<exists>a. start \<le> a \<and> a < start + len \<and> fr_write_prot (get_flash_region c a) then -1 else 0)"
  by (simp add: check_for_unwritable_regions_def unwritable_loop_eq)

end

text \<open>\<open>flash_reader\<close>: behind the programmer is a chip whose state \<open>s\<close> holds \<open>contents s\<close>; while it is in
  order (\<open>dev_ok\<close>), the chip's read driver delivers the addressed bytes and changes nothing.\<close>

locale flash_reader = flash_regions c n
  for c :: "'s flashctx" and n :: nat +
  fixes dev_ok :: "'s \<Rightarrow> bool" and contents :: "'s \<Rightarrow> bytes"
  assumes contents_length: "dev_ok s \<Longrightarrow> length (contents s) = n"
    and has_read: "ch_read (c_chip c) \<noteq> NO_READ_FUNC"
    and read_law: "dev_ok s \<Longrightarrow> 0 < len \<Longrightarrow> a + len \<le> n \<Longrightarrow>
      \<exists>s'. drv_read (c_drivers c) (ch_read (c_chip c)) a len s = Some (0, bslice a len (contents s), s') \<and>
        dev_ok s' \<and> contents s' = contents s"
begin

lemma lookup_read: "lookup_read_func_ptr c = Some (drv_read (c_drivers c) (ch_read (c_chip c)))"
  using has_read by (cases "ch_read (c_chip c)") (auto simp: lookup_read_func_ptr_def)

lemma read_flash_loop_ok:
  assumes "start \<le> addr" and "addr \<le> start + len" and "start + len \<le> n" and "off + len \<le> length buf"
    and "dev_ok s" and "readable c start len"
  shows "\<exists>s'. read_flash_loop c off start len buf addr s =
      Some (0, blit (off + (addr - start)) (map (visible c (contents s)) [addr..<start + len]) buf, s') \<and>
    dev_ok s' \<and> contents s' = contents s"
  using assms
proof (induction "start + len - addr" arbitrary: addr buf s rule: less_induct)
  case less
  show ?case
  proof (cases "addr < start + len")
    case False
    then have "addr = start + len" using less.prems by simp
    with less.prems size_bound show ?thesis
      by (subst read_flash_loop.simps) (auto simp: c_simps)
  next
    case True
    let ?p = "piece_len c start len addr" and ?o = "off + (addr - start)"
    note pb = piece_bounds [OF less.prems(1) True less.prems(3)]
    have fits: "\<not> (addr < start \<or> length buf < ?o + ?p)" using less.prems pb(3) by auto
    have nxt: "?o + ?p = off + (addr + ?p - start)" using less.prems(1) by simp
    have vis: "map (visible c (contents s)) [addr..<start + len] =
        map (visible c (contents s)) [addr..<addr + ?p] @ map (visible c (contents s)) [addr + ?p..<start + len]"
      using pb(3) by (subst upt_append [of addr "addr + ?p"]) auto
    show ?thesis
    proof (cases "fr_read_prot (get_flash_region c addr)")
      case rp: True
      then have skip: "fl_skip_unreadable_regions (c_flags c)" using less.prems True by (auto simp: readable_def)
      have "fr_read_prot (get_flash_region c i)" if "addr \<le> i" "i < addr + ?p" for i
        unfolding pb(6) [OF that] by (rule rp)
      then have ev: "replicate ?p (ERASED_VALUE c) = map (visible c (contents s)) [addr..<addr + ?p]"
        by (intro replicate_eq_map) (simp add: visible_def)
      let ?buf = "blit ?o (map (visible c (contents s)) [addr..<addr + ?p]) buf"
      have step: "read_flash_loop c off start len buf addr s =
          read_flash_loop c off start len ?buf (addr + ?p) s"
        by (subst read_flash_loop.simps)
          (simp only: True fits rp skip pb(4,5) if_True if_False memset_at_def ev)
      have "start + len - (addr + ?p) < start + len - addr" using pb(2,3) by simp
      from less.hyps [OF this, of ?buf s] less.prems pb(3)
      show ?thesis unfolding step by (auto simp: vis blit_append nxt add.assoc)
    next
      case rp: False
      have "addr + ?p \<le> n" using pb(3) less.prems by simp
      with read_law [OF less.prems(5) pb(2)] obtain s1 where
        s1: "drv_read (c_drivers c) (ch_read (c_chip c)) addr ?p s = Some (0, bslice addr ?p (contents s), s1)"
        "dev_ok s1" "contents s1 = contents s" by blast
      have "\<not> fr_read_prot (get_flash_region c i)" if "addr \<le> i" "i < addr + ?p" for i
        unfolding pb(6) [OF that] by (rule rp)
      then have data: "bslice addr ?p (contents s) = map (visible c (contents s)) [addr..<addr + ?p]"
        using contents_length [OF less.prems(5)] \<open>addr + ?p \<le> n\<close>
        by (subst bslice_eq_map) (auto simp: visible_def)
      have same: "visible c (contents s1) = visible c (contents s)" by (simp add: s1(3))
      let ?buf = "blit ?o (map (visible c (contents s)) [addr..<addr + ?p]) buf"
      have step: "read_flash_loop c off start len buf addr s =
          read_flash_loop c off start len ?buf (addr + ?p) s1"
        by (subst read_flash_loop.simps)
          (simp only: True fits rp pb(4,5) if_True if_False lookup_read data s1(1)
            bind.bind_lunit prod.case simp_thms)
      have "start + len - (addr + ?p) < start + len - addr" using pb(2,3) by simp
      from less.hyps [OF this, of ?buf s1] less.prems pb(3) s1
      show ?thesis unfolding step by (auto simp: vis blit_append nxt same add.assoc)
    qed
  qed
qed

lemma read_flash_ok:
  assumes "start + len \<le> n" and "off + len \<le> length buf" and "dev_ok s" and "readable c start len"
  shows "\<exists>s'. read_flash c buf off start len s =
      Some (0, blit off (map (visible c (contents s)) [start..<start + len]) buf, s') \<and>
    dev_ok s' \<and> contents s' = contents s"
  using read_flash_loop_ok [of start start len off buf s] assms by (simp add: read_flash_def)

lemma read_flash_unreadable:
  assumes "start + len \<le> n" and "off + len \<le> length buf" and "dev_ok s" and "\<not> readable c start len"
  shows "\<exists>buf' s'. read_flash c buf off start len s = Some (-1, buf', s') \<and> length buf' = length buf \<and>
    dev_ok s' \<and> contents s' = contents s"
proof -
  have "\<exists>buf' s'. read_flash_loop c off start len buf addr s = Some (-1, buf', s') \<and>
      length buf' = length buf \<and> dev_ok s' \<and> contents s' = contents s"
    if "start \<le> addr" "start + len \<le> n" "off + len \<le> length buf" "dev_ok s"
      "\<not> fl_skip_unreadable_regions (c_flags c)"
      "\<exists>i. addr \<le> i \<and> i < start + len \<and> fr_read_prot (get_flash_region c i)" for addr buf s
    using that
  proof (induction "start + len - addr" arbitrary: addr buf s rule: less_induct)
    case less
    then have lt: "addr < start + len" by auto
    let ?p = "piece_len c start len addr" and ?o = "off + (addr - start)"
    note pb = piece_bounds [OF less.prems(1) lt less.prems(2)]
    have fits: "\<not> (addr < start \<or> length buf < ?o + ?p)" using less.prems pb(3) by auto
    show ?case
    proof (cases "fr_read_prot (get_flash_region c addr)")
      case True
      with less.prems fits lt pb(5) show ?thesis
        by (subst read_flash_loop.simps) (simp only: if_True if_False, blast)
    next
      case False
      have "addr + ?p \<le> n" using pb(3) less.prems by simp
      with read_law [OF less.prems(4) pb(2)] obtain s1 where
        s1: "drv_read (c_drivers c) (ch_read (c_chip c)) addr ?p s = Some (0, bslice addr ?p (contents s), s1)"
        "dev_ok s1" "contents s1 = contents s" by blast
      have step: "read_flash_loop c off start len buf addr s =
          read_flash_loop c off start len (blit ?o (bslice addr ?p (contents s)) buf) (addr + ?p) s1"
        by (subst read_flash_loop.simps)
          (simp only: lt fits False pb(4,5) if_True if_False lookup_read s1(1)
            bind.bind_lunit prod.case simp_thms)
      have ex: "\<exists>i. addr + ?p \<le> i \<and> i < start + len \<and> fr_read_prot (get_flash_region c i)"
        using less.prems(6) False pb(6) by (metis not_le)
      have "start + len - (addr + ?p) < start + len - addr" using pb(2,3) lt by simp
      from less.hyps [OF this, of "blit ?o (bslice addr ?p (contents s)) buf" s1] less.prems s1 ex
      show ?thesis unfolding step by simp
    qed
  qed
  with assms show ?thesis by (auto simp: read_flash_def readable_def)
qed

end

end
