(* ===== verification/FlashDevice.thy ===== *)
theory FlashDevice
  imports FlashOps
begin

text \<open>
  What the erase and write logic needs of a chip and its drivers, as an interface: a write
  driver programs bytes that can be programmed (\<open>prog_at\<close>; nothing is promised about others, as
  on a NOR flash), and an erase driver sets one erase block to the erased value. Under it,
  \<^verbatim>\<open>write_flash\<close> is shown to program the requested range but not a protected region, and
  \<^verbatim>\<open>verify_range\<close> and \<^verbatim>\<open>check_erased_range\<close> to decide whether the range has the contents.
\<close>

section \<open>Erase blocks of an eraser\<close>

text \<open>The erase blocks of an eraser as start and length, in address order.\<close>

definition eraser_sizes :: "block_eraser \<Rightarrow> nat list" where
  "eraser_sizes e = concat (map (\<lambda>b. replicate (eb_count b) (eb_size b)) (be_blocks e))"

fun ranges_from :: "nat \<Rightarrow> nat list \<Rightarrow> (nat \<times> nat) list" where
  "ranges_from a [] = []"
| "ranges_from a (sz # szs) = (a, sz) # ranges_from (a + sz) szs"

definition eraser_blocks :: "block_eraser \<Rightarrow> (nat \<times> nat) list" where
  "eraser_blocks e = ranges_from 0 (eraser_sizes e)"

section \<open>Verification\<close>

text \<open>The bytes that \<^verbatim>\<open>verify_range\<close> compares: those of regions that the flags do not exempt.\<close>

definition verified :: "'s flashctx \<Rightarrow> nat \<Rightarrow> bool" where
  "verified c i \<longleftrightarrow>
     \<not> (fr_write_prot (get_flash_region c i) \<and> fl_skip_unwritable_regions (c_flags c)) \<and>
     \<not> (fr_read_prot (get_flash_region c i) \<and> fl_skip_unreadable_regions (c_flags c))"

context flash_reader
begin

lemma verify_range_loop_ok:
  assumes "dev_ok s" and "start \<le> addr" and "addr \<le> start + len" and "start + len \<le> n"
    and "len \<le> length cmp" and "length readbuf = len"
    and "\<forall>i. addr \<le> i \<and> i < start + len \<and> verified c i \<longrightarrow> \<not> fr_read_prot (get_flash_region c i)"
  shows "\<exists>s'. verify_range_loop c cmp start len readbuf addr s =
      Some (if \<forall>i. addr \<le> i \<and> i < start + len \<and> verified c i \<longrightarrow> cmp ! (i - start) = contents s ! i
            then 0 else -1, s') \<and> dev_ok s' \<and> contents s' = contents s"
  using assms
proof (induction "start + len - addr" arbitrary: addr readbuf s rule: less_induct)
  case less
  show ?case
  proof (cases "addr < start + len")
    case False
    with less.prems size_bound show ?thesis
      by (subst verify_range_loop.simps) (auto simp: c_simps)
  next
    case True
    let ?p = "piece_len c start len addr"
    note pb = piece_bounds [OF less.prems(2) True less.prems(4)]
    have u: "u32 addr = addr" using True less.prems(4) size_bound by (simp add: c_simps)
    have dec: "start + len - (addr + ?p) < start + len - addr" using pb(2,3) by simp
    have same: "verified c i = verified c addr" if "addr \<le> i" "i < addr + ?p" for i
      unfolding verified_def pb(6) [OF that] ..
    have split: "(\<forall>i. addr \<le> i \<and> i < start + len \<and> verified c i \<longrightarrow> P i) \<longleftrightarrow>
        (verified c addr \<longrightarrow> (\<forall>i < ?p. P (addr + i))) \<and>
        (\<forall>i. addr + ?p \<le> i \<and> i < start + len \<and> verified c i \<longrightarrow> P i)" for P
    proof -
      have "(\<forall>i. addr \<le> i \<and> i < start + len \<and> verified c i \<longrightarrow> P i) \<longleftrightarrow>
          (\<forall>i. addr \<le> i \<and> i < addr + ?p \<and> verified c i \<longrightarrow> P i) \<and>
          (\<forall>i. addr + ?p \<le> i \<and> i < start + len \<and> verified c i \<longrightarrow> P i)"
        using pb(3) by (meson le_add1 le_trans less_le_trans not_le)
      moreover have "(\<forall>i. addr \<le> i \<and> i < addr + ?p \<and> verified c i \<longrightarrow> P i) \<longleftrightarrow>
          (verified c addr \<longrightarrow> (\<forall>i < ?p. P (addr + i)))"
        using same by (metis add_less_cancel_left le_add1 le_add_diff_inverse)
      ultimately show ?thesis by simp
    qed
    show ?thesis
    proof (cases "verified c addr")
      case False
      then have step: "verify_range_loop c cmp start len readbuf addr s =
          verify_range_loop c cmp start len readbuf (addr + ?p) s"
        using True pb(5) by (subst verify_range_loop.simps) (auto simp: u verified_def)
      have "\<forall>i. addr + ?p \<le> i \<and> i < start + len \<and> verified c i \<longrightarrow> \<not> fr_read_prot (get_flash_region c i)"
        using less.prems(7) by auto
      from less.hyps [OF dec less.prems(1) _ pb(3) less.prems(4-6) this] less.prems(2)
      show ?thesis unfolding step split using False by simp
    next
      case ver: True
      have nrp: "\<not> fr_read_prot (get_flash_region c addr)" using less.prems(7) True ver by auto
      have "\<not> fr_read_prot (get_flash_region c i)" if "addr \<le> i" "i < addr + ?p" for i
        unfolding pb(6) [OF that] by (rule nrp)
      then have rd: "readable c addr ?p" and vis: "map (visible c (contents s)) [addr..<addr + ?p] =
          map (\<lambda>i. contents s ! i) [addr..<addr + ?p]"
        by (auto simp: readable_def visible_def)
      have "addr + ?p \<le> n" "0 + ?p \<le> length readbuf" using pb(3) less.prems by auto
      from read_flash_ok [OF this less.prems(1) rd] obtain s1 where
        s1: "read_flash c readbuf 0 addr ?p s = Some (0, blit 0 (map (\<lambda>i. contents s ! i) [addr..<addr + ?p]) readbuf, s1)"
        "dev_ok s1" "contents s1 = contents s" unfolding vis by blast
      let ?rb = "blit 0 (map (\<lambda>i. contents s ! i) [addr..<addr + ?p]) readbuf"
      have cmp: "compare_range (drop (addr - start) cmp) ?rb ?p = 0 \<longleftrightarrow>
          (\<forall>i < ?p. cmp ! (addr + i - start) = contents s ! (addr + i))"
        using less.prems pb(3) by (auto simp: buf_simps compare_range_0)
      have fits: "\<not> length cmp < addr - start + ?p" using less.prems pb(3) by simp
      have step: "verify_range_loop c cmp start len readbuf addr s =
          (if compare_range (drop (addr - start) cmp) ?rb ?p \<noteq> 0 then Some (-1, s1)
           else verify_range_loop c cmp start len ?rb (addr + ?p) s1)"
        by (subst verify_range_loop.simps)
          (simp only: True pb(5) conjunct1 [OF ver [unfolded verified_def]] nrp fits u s1(1)
            if_True if_False bind.bind_lunit prod.case simp_thms)
      show ?thesis
      proof (cases "compare_range (drop (addr - start) cmp) ?rb ?p = 0")
        case False
        then have "\<not> (\<forall>i < ?p. cmp ! (addr + i - start) = contents s ! (addr + i))" using cmp by simp
        with False step s1 ver show ?thesis unfolding split by simp
      next
        case eq: True
        then have all: "\<forall>i < ?p. cmp ! (addr + i - start) = contents s ! (addr + i)" using cmp by simp
        have "\<forall>i. addr + ?p \<le> i \<and> i < start + len \<and> verified c i \<longrightarrow> \<not> fr_read_prot (get_flash_region c i)"
          using less.prems(7) by auto
        from less.hyps [OF dec s1(2) _ pb(3) less.prems(4,5) _ this] less.prems(2,6)
        show ?thesis unfolding step split using eq all s1(3) by simp
      qed
    qed
  qed
qed

lemma verify_range_ok:
  assumes "dev_ok s" and "0 < len" and "start + len \<le> n" and "len \<le> length cmp" and "c_malloc c len"
    and "\<forall>i. start \<le> i \<and> i < start + len \<and> verified c i \<longrightarrow> \<not> fr_read_prot (get_flash_region c i)"
  shows "\<exists>s'. verify_range c cmp start len s =
      Some (if \<forall>i. start \<le> i \<and> i < start + len \<and> verified c i \<longrightarrow> cmp ! (i - start) = contents s ! i
            then 0 else -1, s') \<and> dev_ok s' \<and> contents s' = contents s"
proof -
  have "add32 start len = start + len" using assms size_bound by (simp add: c_simps)
  with assms have "verify_range c cmp start len s =
      verify_range_loop c cmp start len (fresh_buf c len) start s"
    by (simp add: verify_range_def chip_bytes)
  with verify_range_loop_ok [of s start start len cmp "fresh_buf c len"] assms show ?thesis by simp
qed

lemma check_erased_range_ok:
  assumes "dev_ok s" and "0 < len" and "start + len \<le> n" and "c_malloc c len"
    and "\<forall>i. start \<le> i \<and> i < start + len \<longrightarrow> \<not> fr_read_prot (get_flash_region c i)"
    and "\<forall>i. start \<le> i \<and> i < start + len \<longrightarrow> contents s ! i = ERASED_VALUE c"
  shows "\<exists>s'. check_erased_range c start len s = Some (0, s') \<and> dev_ok s' \<and> contents s' = contents s"
proof -
  have "\<forall>i. start \<le> i \<and> i < start + len \<and> verified c i \<longrightarrow>
      replicate len (ERASED_VALUE c) ! (i - start) = contents s ! i"
    using assms(6) by auto
  with verify_range_ok [of s len start "replicate len (ERASED_VALUE c)"] assms show ?thesis
    by (simp add: check_erased_range_def)
qed

text \<open>A range that starts in an unreadable region which the flags do not exempt is reported as
  verified, whatever it is compared with.\<close>

lemma verify_range_unreadable:
  assumes "0 < len" and "start + len \<le> n" and "c_malloc c len" and "verified c start"
    and "fr_read_prot (get_flash_region c start)"
  shows "verify_range c cmp start len s = Some (0, s)"
proof -
  have "add32 start len = start + len" "u32 start = start"
    using assms size_bound by (simp_all add: c_simps)
  with assms show ?thesis
    by (simp add: verify_range_def chip_bytes)
      (subst verify_range_loop.simps, auto simp: verified_def)
qed

end

section \<open>The device interface\<close>

text \<open>The contents after \<open>buf\<close> was written to the range, seen from address \<open>addr\<close> of it on; bytes of
  write-protected regions stay.\<close>

definition written ::
    "'s flashctx \<Rightarrow> bytes \<Rightarrow> nat \<Rightarrow> nat \<Rightarrow> nat \<Rightarrow> nat \<Rightarrow> bytes \<Rightarrow> bytes" where
  "written c buf off start len addr img =
     map (\<lambda>i. if addr \<le> i \<and> i < start + len \<and> \<not> write_protected c i then buf ! (off + (i - start))
              else img ! i) [0..<length img]"

lemma length_written [simp]: "length (written c buf off start len addr img) = length img"
  by (simp add: written_def)

lemma nth_written [buf_simps]:
  "i < length img \<Longrightarrow> written c buf off start len addr img ! i =
     (if addr \<le> i \<and> i < start + len \<and> \<not> write_protected c i then buf ! (off + (i - start))
      else img ! i)"
  by (simp add: written_def)

definition writable :: "'s flashctx \<Rightarrow> nat \<Rightarrow> nat \<Rightarrow> bool" where
  "writable c start len \<longleftrightarrow> fl_skip_unwritable_regions (c_flags c) \<or>
     (\<forall>i. start \<le> i \<and> i < start + len \<longrightarrow> \<not> write_protected c i)"

context flash_regions
begin

text \<open>Without the flag, a range that touches a protected region is refused before anything is
  written.\<close>

lemma write_flash_refused:
  assumes "start + len \<le> n" and "\<not> writable c start len"
  shows "write_flash c buf off start len s = Some (-1, s)"
proof -
  have "\<not> fl_skip_unwritable_regions (c_flags c)" "check_for_unwritable_regions c start len = Some (-1)"
    using assms check_for_unwritable_regions_eq [of start len]
    by (auto simp: writable_def write_protected_def)
  then show ?thesis by (simp add: write_flash_def)
qed

end

locale flash_device = flash_reader c n dev_ok contents
  for c :: "'s flashctx" and n :: nat and dev_ok :: "'s \<Rightarrow> bool" and contents :: "'s \<Rightarrow> bytes" +
  assumes has_write: "ch_write (c_chip c) \<noteq> NO_WRITE_FUNC"
    and write_law: "dev_ok s \<Longrightarrow> 0 < length buf \<Longrightarrow> a + length buf \<le> n \<Longrightarrow>
      gran_stride (ch_gran (c_chip c)) dvd a \<Longrightarrow> gran_stride (ch_gran (c_chip c)) dvd length buf \<Longrightarrow>
      \<forall>i. a \<le> i \<and> i < a + length buf \<longrightarrow>
        prog_at (ch_gran (c_chip c)) (ERASED_VALUE c) (contents s) (blit a buf (contents s)) i \<Longrightarrow>
      \<exists>s'. drv_write (c_drivers c) (ch_write (c_chip c)) buf a (length buf) s = Some (0, s') \<and>
        dev_ok s' \<and> contents s' = blit a buf (contents s)"
    and erase_law: "e \<in> set (usable_erasers c) \<Longrightarrow> (a, len) \<in> set (eraser_blocks e) \<Longrightarrow> dev_ok s \<Longrightarrow>
      \<exists>s'. drv_erase (c_drivers c) (be_erase e) a len s = Some (0, s') \<and>
        dev_ok s' \<and> contents s' = memset_at a (ERASED_VALUE c) len (contents s)"
    and erase_func: "e \<in> set (usable_erasers c) \<Longrightarrow> be_erase e \<noteq> SPI_BLOCK_ERASE_40"
    and region_chunks: "a < n \<Longrightarrow> gran_stride (ch_gran (c_chip c)) dvd Suc (fr_end (get_flash_region c a))"
    and malloc_ok: "c_malloc c m"
begin

lemma lookup_write: "lookup_write_func_ptr c = Some (drv_write (c_drivers c) (ch_write (c_chip c)))"
  using has_write by (cases "ch_write (c_chip c)") (auto simp: lookup_write_func_ptr_def)

abbreviation prog_ok :: "nat \<Rightarrow> nat \<Rightarrow> bytes \<Rightarrow> bytes \<Rightarrow> bool" where
  "prog_ok a m old new \<equiv> \<forall>i. a \<le> i \<and> i < m \<and> \<not> write_protected c i \<longrightarrow>
     prog_at (ch_gran (c_chip c)) (ERASED_VALUE c) old new i"

text \<open>One piece: its chunks lie inside it, so that programming it does not depend on the rest.\<close>

lemma write_piece:
  assumes ok: "dev_ok s" and addr: "start \<le> addr" "addr < start + len" "start + len \<le> n"
    and buf: "off + len \<le> length buf"
    and g: "gran_stride (ch_gran (c_chip c)) dvd addr" "gran_stride (ch_gran (c_chip c)) dvd start + len"
    and prog: "prog_ok addr (start + len) (contents s) (written c buf off start len addr (contents s))"
    and wp: "\<not> write_protected c addr"
  defines "p \<equiv> piece_len c start len addr"
  shows "gran_stride (ch_gran (c_chip c)) dvd addr + p" (is ?dvd)
    and "\<exists>s'. drv_write (c_drivers c) (ch_write (c_chip c)) (bslice (off + (addr - start)) p buf) addr p s =
        Some (0, s') \<and> dev_ok s' \<and> contents s' = blit addr (bslice (off + (addr - start)) p buf) (contents s)"
proof -
  let ?g = "gran_stride (ch_gran (c_chip c))" and ?b = "bslice (off + (addr - start)) p buf"
  note pb = piece_bounds [OF addr, folded p_def]
  have len: "length ?b = p" using pb(3) buf addr(1) by simp
  have "addr + p = min (start + len) (Suc (fr_end (get_flash_region c addr)))" using pb(1,2) by simp
  then show dvd: ?dvd using g(2) region_chunks [of addr] addr by (simp add: min_def)
  have p: "?g dvd p" using dvd g(1) by (simp add: dvd_add_right_iff)
  have nwp: "\<not> write_protected c i" if "addr \<le> i" "i < addr + p" for i
    using wp unfolding write_protected_def pb(6) [OF that] .
  have "prog_at (ch_gran (c_chip c)) (ERASED_VALUE c) (contents s) (blit addr ?b (contents s)) i"
    if i: "addr \<le> i" "i < addr + p" for i
  proof -
    have "(contents s) ! k = (contents s) ! k \<and>
        blit addr ?b (contents s) ! k = written c buf off start len addr (contents s) ! k"
      if "k div ?g = i div ?g" for k
    proof -
      have k: "addr \<le> k" "k < addr + p"
        using chunk_in_range [OF g(1) p gran_stride_pos i that] by auto
      moreover have "k < length (contents s)" using k pb(3) addr contents_length [OF ok] by simp
      ultimately show ?thesis
        using nwp [OF k] pb(3) len addr buf
        by (auto simp: buf_simps nth_bslice algebra_simps)
    qed
    then have "prog_at (ch_gran (c_chip c)) (ERASED_VALUE c) (contents s) (blit addr ?b (contents s)) i =
        prog_at (ch_gran (c_chip c)) (ERASED_VALUE c) (contents s)
          (written c buf off start len addr (contents s)) i"
      by (rule prog_at_cong)
    then show ?thesis using prog i nwp [OF i] pb(3) by auto
  qed
  then show "\<exists>s'. drv_write (c_drivers c) (ch_write (c_chip c)) ?b addr p s = Some (0, s') \<and> dev_ok s' \<and>
      contents s' = blit addr ?b (contents s)"
    using write_law [OF ok, of ?b addr] len pb(2,3) addr g(1) p by auto
qed

lemma written_step:
  assumes "start \<le> addr" and "addr + p \<le> start + len" and "off + len \<le> length buf"
    and "\<And>i. addr \<le> i \<Longrightarrow> i < addr + p \<Longrightarrow> \<not> write_protected c i"
  shows "written c buf off start len (addr + p) (blit addr (bslice (off + (addr - start)) p buf) img) =
    written c buf off start len addr img"
  by (rule nth_equalityI) (use assms in \<open>auto simp: buf_simps nth_bslice algebra_simps\<close>)

lemma written_skip:
  assumes "\<And>i. addr \<le> i \<Longrightarrow> i < addr + p \<Longrightarrow> write_protected c i"
  shows "written c buf off start len (addr + p) img = written c buf off start len addr img"
  by (rule nth_equalityI) (use assms in \<open>auto simp: buf_simps not_le\<close>)

lemma write_flash_loop_ok:
  assumes "dev_ok s" and "start \<le> addr" and "addr \<le> start + len" and "start + len \<le> n"
    and "off + len \<le> length buf"
    and "gran_stride (ch_gran (c_chip c)) dvd addr" and "gran_stride (ch_gran (c_chip c)) dvd start + len"
    and "prog_ok addr (start + len) (contents s) (written c buf off start len addr (contents s))"
  shows "\<exists>s'. write_flash_loop c buf off start len addr s = Some (0, s') \<and> dev_ok s' \<and>
    contents s' = written c buf off start len addr (contents s)"
  using assms
proof (induction "start + len - addr" arbitrary: addr s rule: less_induct)
  case less
  let ?g = "gran_stride (ch_gran (c_chip c))"
  show ?case
  proof (cases "addr < start + len")
    case False
    then have "written c buf off start len addr (contents s) = contents s"
      by (intro nth_equalityI) (auto simp: buf_simps)
    with False less.prems size_bound show ?thesis
      by (subst write_flash_loop.simps) (auto simp: c_simps)
  next
    case True
    let ?p = "piece_len c start len addr" and ?o = "off + (addr - start)"
    note pb = piece_bounds [OF less.prems(2) True less.prems(4)]
    have fits: "\<not> (addr < start \<or> length buf < ?o + ?p)" using less.prems pb(3) by auto
    have dec: "start + len - (addr + ?p) < start + len - addr" using pb(2,3) by simp
    have "addr + ?p = min (start + len) (Suc (fr_end (get_flash_region c addr)))" using pb(1,2) by simp
    then have dvd: "?g dvd addr + ?p"
      using less.prems(7) region_chunks [of addr] True less.prems(4) by (simp add: min_def)
    show ?thesis
    proof (cases "write_protected c addr")
      case wp: True
      have "write_protected c i" if "addr \<le> i" "i < addr + ?p" for i
        using wp unfolding write_protected_def pb(6) [OF that] .
      note skip = written_skip [OF this, where buf = buf and off = off and start = start and len = len and img = "contents s"]
      have step: "write_flash_loop c buf off start len addr s =
          write_flash_loop c buf off start len (addr + ?p) s"
        by (subst write_flash_loop.simps)
          (simp only: True fits wp [unfolded write_protected_def] pb(4,5) if_True if_False)
      have "\<exists>s'. write_flash_loop c buf off start len (addr + ?p) s = Some (0, s') \<and> dev_ok s' \<and>
          contents s' = written c buf off start len (addr + ?p) (contents s)"
        by (rule less.hyps [OF dec less.prems(1)]) (use less.prems pb(3) dvd skip in auto)
      then show ?thesis by (simp only: step skip)
    next
      case wp: False
      have nwp: "\<not> write_protected c i" if "addr \<le> i" "i < addr + ?p" for i
        using wp unfolding write_protected_def pb(6) [OF that] .
      let ?b = "bslice ?o ?p buf"
      obtain s1 where s1: "drv_write (c_drivers c) (ch_write (c_chip c)) ?b addr ?p s = Some (0, s1)"
        "dev_ok s1" "contents s1 = blit addr ?b (contents s)"
        using write_piece(2) [OF less.prems(1,2) True less.prems(4-8) wp] by blast
      have step: "write_flash_loop c buf off start len addr s =
          write_flash_loop c buf off start len (addr + ?p) s1"
        by (subst write_flash_loop.simps)
          (simp only: True fits wp [unfolded write_protected_def] pb(4,5) if_True if_False lookup_write
            s1(1) bind.bind_lunit prod.case simp_thms)
      have same: "written c buf off start len (addr + ?p) (contents s1) =
          written c buf off start len addr (contents s)"
        unfolding s1(3) by (rule written_step) (use less.prems pb(3) nwp in auto)
      have len: "length (contents s) = n" using contents_length less.prems(1) by simp
      have "prog_at (ch_gran (c_chip c)) (ERASED_VALUE c) (contents s1)
          (written c buf off start len addr (contents s)) i"
        if i: "addr + ?p \<le> i" "i < start + len" "\<not> write_protected c i" for i
      proof -
        have g2: "?g dvd start + len - (addr + ?p)" using dvd less.prems(7) by (rule dvd_diff_nat [rotated])
        have "contents s1 ! k = contents s ! k" if "k div ?g = i div ?g" for k
        proof -
          have "addr + ?p \<le> k" "k < start + len"
            using chunk_in_range [OF dvd g2 gran_stride_pos i(1) _ that] i pb(3) by auto
          then show ?thesis using len less.prems(4) pb(3) fits by (auto simp: s1(3) buf_simps)
        qed
        then have "prog_at (ch_gran (c_chip c)) (ERASED_VALUE c) (contents s1)
            (written c buf off start len addr (contents s)) i =
          prog_at (ch_gran (c_chip c)) (ERASED_VALUE c) (contents s)
            (written c buf off start len addr (contents s)) i"
          by (intro prog_at_cong) auto
        with less.prems(8) i pb(2) show ?thesis by auto
      qed
      then show ?thesis unfolding step same [symmetric]
        by (intro less.hyps [OF dec s1(2)]) (use less.prems pb(3) dvd same in auto)
    qed
  qed
qed

lemma write_flash_ok:
  assumes "dev_ok s" and "start + len \<le> n" and "off + len \<le> length buf" and "writable c start len"
    and "gran_stride (ch_gran (c_chip c)) dvd start" and "gran_stride (ch_gran (c_chip c)) dvd len"
    and "prog_ok start (start + len) (contents s) (written c buf off start len start (contents s))"
  shows "\<exists>s'. write_flash c buf off start len s = Some (0, s') \<and> dev_ok s' \<and>
    contents s' = written c buf off start len start (contents s)"
proof -
  have "(if \<not> fl_skip_unwritable_regions (c_flags c) then check_for_unwritable_regions c start len
      else Some 0) = Some 0"
    using assms(2,4) check_for_unwritable_regions_eq [of start len]
    by (auto simp: writable_def write_protected_def)
  with write_flash_loop_ok [of s start start len off buf] assms show ?thesis
    by (simp add: write_flash_def dvd_add)
qed

end

end
