(* ===== verification/EraseBuild.thy ===== *)
theory EraseBuild
  imports ErasePlan FlashDevice
begin

text \<open>
  \<^verbatim>\<open>create_erase_layout\<close> builds a well-formed layout for every chip whose usable erasers cover the
  chip and are nested (each block boundary of an eraser is one of the eraser before it). The
  layer built for an eraser is described by \<open>gen_blocks\<close>, the blocks for a list of block sizes.
\<close>

section \<open>Chip geometry\<close>

definition bounds_of :: "block_eraser \<Rightarrow> nat list" where
  "bounds_of e = map fst (eraser_blocks e)"

definition eraser_ok :: "nat \<Rightarrow> block_eraser \<Rightarrow> bool" where
  "eraser_ok n e \<longleftrightarrow> (\<forall>b \<in> set (be_blocks e). eb_count b = 0 \<or> 0 < eb_size b) \<and> sum_list (eraser_sizes e) = n"

fun nested_erasers :: "block_eraser list \<Rightarrow> bool" where
  "nested_erasers (d # e # es) \<longleftrightarrow> set (bounds_of e) \<subseteq> set (bounds_of d) \<and> nested_erasers (e # es)"
| "nested_erasers _ \<longleftrightarrow> True"

definition geometry_ok :: "nat \<Rightarrow> block_eraser list \<Rightarrow> bool" where
  "geometry_ok n es \<longleftrightarrow> (\<forall>e \<in> set es. eraser_ok n e) \<and> nested_erasers es"

section \<open>The blocks of a layer\<close>

definition sub_after :: "eraseblock_data list option \<Rightarrow> nat \<Rightarrow> nat \<Rightarrow> nat \<Rightarrow> nat" where
  "sub_after below a e sub = (case below of None \<Rightarrow> sub | Some bs \<Rightarrow> sub_block_loop bs sub a e)"

lemma init_eraseblock_sub [simp]: "snd (init_eraseblock below k a e sub) = sub_after below a e sub"
  by (simp add: init_eraseblock_def sub_after_def Let_def split: option.split)

fun gen_blocks :: "eraseblock_data list option \<Rightarrow> nat list \<Rightarrow> nat \<Rightarrow> nat \<Rightarrow> nat \<Rightarrow> eraseblock_data list" where
  "gen_blocks below [] a sub k = []"
| "gen_blocks below (sz # szs) a sub k =
     fst (init_eraseblock below k a (a + sz - 1) sub) #
     gen_blocks below szs (a + sz) (sub_after below a (a + sz - 1) sub) (Suc k)"

fun gen_sub :: "eraseblock_data list option \<Rightarrow> nat list \<Rightarrow> nat \<Rightarrow> nat \<Rightarrow> nat" where
  "gen_sub below [] a sub = sub"
| "gen_sub below (sz # szs) a sub =
     gen_sub below szs (a + sz) (sub_after below a (a + sz - 1) sub)"

lemma init_eraseblock_fields [simp]:
  "ed_start (fst (init_eraseblock below k a e sub)) = a"
  "ed_end (fst (init_eraseblock below k a e sub)) = e"
  "\<not> ed_selected (fst (init_eraseblock below k a e sub))"
  by (simp_all add: init_eraseblock_def Let_def split: option.split)

lemma gen_blocks_append:
  "gen_blocks below (xs @ ys) a sub k =
     gen_blocks below xs a sub k @ gen_blocks below ys (a + sum_list xs) (gen_sub below xs a sub) (k + length xs)"
  by (induction xs arbitrary: a sub k) (simp_all add: add.assoc)

lemma gen_sub_append:
  "gen_sub below (xs @ ys) a sub = gen_sub below ys (a + sum_list xs) (gen_sub below xs a sub)"
  by (induction xs arbitrary: a sub) (simp_all add: add.assoc)

lemma length_gen_blocks [simp]: "length (gen_blocks below szs a sub k) = length szs"
  by (induction szs arbitrary: a sub k) simp_all

lemma gen_blocks_unselected: "b \<in> set (gen_blocks below szs a sub k) \<Longrightarrow> \<not> ed_selected b"
  by (induction szs arbitrary: a sub k) auto

lemma gen_blocks_tiles:
  "\<forall>sz \<in> set szs. 0 < sz \<Longrightarrow> tiles a (gen_blocks below szs a sub k) (a + sum_list szs)"
proof (induction szs arbitrary: a sub k)
  case (Cons sz szs)
  then have "Suc (a + sz - 1) = a + sz" by simp
  with Cons show ?case by (auto simp: add.assoc [symmetric])
qed simp

lemma gen_blocks_ranges:
  "\<forall>sz \<in> set szs. 0 < sz \<Longrightarrow>
     map (\<lambda>b. (ed_start b, Suc (ed_end b) - ed_start b)) (gen_blocks below szs a sub k) = ranges_from a szs"
  by (induction szs arbitrary: a sub k) auto

section \<open>The construction loops\<close>

lemma layer_blocks_run_eq:
  assumes "0 < sz" and "a + m * sz < 4294967296"
  shows "layer_blocks_run below sz m a sub bs =
    (a + m * sz, gen_sub below (replicate m sz) a sub, bs @ gen_blocks below (replicate m sz) a sub (length bs))"
  using assms
proof (induction m arbitrary: a sub bs)
  case (Suc m)
  then have le: "a + sz < 4294967296" by simp
  then have e: "sub32 (add32 a sz) 1 = a + sz - 1" "add32 (a + sz - 1) 1 = a + sz"
    using Suc.prems by (simp_all add: c_simps)
  have "a + sz + m * sz < 4294967296" using Suc.prems by simp
  note IH = Suc.IH [OF Suc.prems(1) this]
  show ?case
    by (simp add: Let_def e [unfolded One_nat_def] split_beta IH add.assoc)
qed simp

definition region_sizes :: "eraseblock list \<Rightarrow> nat list" where
  "region_sizes rs = concat (map (\<lambda>b. replicate (eb_count b) (eb_size b)) rs)"

lemma region_sizes_simps [simp]:
  "region_sizes [] = []"
  "region_sizes (r # rs) = replicate (eb_count r) (eb_size r) @ region_sizes rs"
  by (simp_all add: region_sizes_def)

definition regions_ok :: "eraseblock list \<Rightarrow> bool" where
  "regions_ok rs \<longleftrightarrow> (\<forall>b \<in> set rs. eb_count b = 0 \<or> 0 < eb_size b)"

lemma regions_ok_Cons [simp]:
  "regions_ok (r # rs) \<longleftrightarrow> (eb_count r = 0 \<or> 0 < eb_size r) \<and> regions_ok rs"
  by (simp add: regions_ok_def)

lemma region_sizes_pos: "regions_ok rs \<Longrightarrow> sz \<in> set (region_sizes rs) \<Longrightarrow> 0 < sz"
  by (induction rs) (auto simp: regions_ok_def)

lemma region_sizes_empty: "regions_ok rs \<Longrightarrow> sum_list (region_sizes rs) = 0 \<Longrightarrow> region_sizes rs = []"
  using region_sizes_pos by (metis list.set_intros(1) neq_Nil_conv not_gr_zero sum_list_eq_0_iff)

lemma calculate_block_count_loop_eq:
  assumes "regions_ok rs" and "a + sum_list (region_sizes rs) = n" and "n < 4294967296"
  shows "calculate_block_count_loop n rs a k = Some (k + length (region_sizes rs))"
  using assms
proof (induction rs arbitrary: a k)
  case Nil
  then show ?case by (subst calculate_block_count_loop.simps) simp
next
  case (Cons r rs)
  show ?case
  proof (cases "a < n")
    case False
    then have "region_sizes (r # rs) = []" using Cons.prems by (intro region_sizes_empty) auto
    with False show ?thesis by (subst calculate_block_count_loop.simps) simp
  next
    case True
    have s: "a + eb_size r * eb_count r + sum_list (region_sizes rs) = n"
      using Cons.prems by (simp add: sum_list_replicate mult.commute)
    then have "add32 a (mul32 (eb_size r) (eb_count r)) = a + eb_size r * eb_count r"
      using Cons.prems(3) by (simp add: c_simps)
    with Cons.IH [OF _ s] Cons.prems True show ?thesis
      by (subst calculate_block_count_loop.simps) (simp add: add.assoc)
  qed
qed

lemma layer_blocks_eq:
  assumes "regions_ok rs" and "a + sum_list (region_sizes rs) < 4294967296"
    and "count = length bs + length (region_sizes rs)"
  shows "layer_blocks below rs count a sub bs =
    Some (bs @ gen_blocks below (region_sizes rs) a sub (length bs))"
  using assms
proof (induction rs arbitrary: a sub bs)
  case Nil
  then show ?case by (subst layer_blocks.simps) simp
next
  case (Cons r rs)
  show ?case
  proof (cases "length bs < count")
    case False
    then have "region_sizes (r # rs) = []" using Cons.prems(3) by simp
    with False show ?thesis by (subst layer_blocks.simps) (simp only: if_False gen_blocks.simps append_Nil2)
  next
    case True
    let ?m = "eb_count r" and ?z = "eb_size r"
    have s: "a + ?m * ?z + sum_list (region_sizes rs) < 4294967296"
      using Cons.prems(2) by (simp add: sum_list_replicate add.assoc)
    have run: "layer_blocks_run below ?z ?m a sub bs = (a + ?m * ?z,
        gen_sub below (replicate ?m ?z) a sub, bs @ gen_blocks below (replicate ?m ?z) a sub (length bs))"
    proof (cases "?m = 0")
      case False
      then show ?thesis using Cons.prems(1) s by (intro layer_blocks_run_eq) auto
    qed simp
    have "layer_blocks below (r # rs) count a sub bs =
        layer_blocks below rs count (a + ?m * ?z) (gen_sub below (replicate ?m ?z) a sub)
          (bs @ gen_blocks below (replicate ?m ?z) a sub (length bs))"
      using True run by (subst layer_blocks.simps) simp
    also have "\<dots> = Some (bs @ gen_blocks below (region_sizes (r # rs)) a sub (length bs))"
      using Cons.prems s
      by (subst Cons.IH) (simp_all add: gen_blocks_append sum_list_replicate)
    finally show ?thesis .
  qed
qed

section \<open>Sub-block ranges\<close>

text \<open>\<open>at_bound bs n i t\<close>: address \<open>t\<close> is where block \<open>i\<close> of the layer starts, or its end.\<close>

definition at_bound :: "eraseblock_data list \<Rightarrow> nat \<Rightarrow> nat \<Rightarrow> nat \<Rightarrow> bool" where
  "at_bound bs n i t \<longleftrightarrow> (i < length bs \<and> ed_start (bs ! i) = t) \<or> (i = length bs \<and> t = n)"

lemma sub_block_loop_at_bound:
  assumes t: "tiles 0 bs n" and b: "at_bound bs n m t" and "j \<le> m" and "j < length bs \<longrightarrow> a \<le> ed_start (bs ! j)"
    and "0 < t"
  shows "sub_block_loop bs j a (t - 1) = m"
  using assms(3,4)
proof (induction "length bs - j" arbitrary: j rule: less_induct)
  case less
  show ?case
  proof (cases "j = m")
    case True
    have "\<not> ed_end (bs ! m) \<le> t - 1" if "m < length bs"
      using b that tiles_bounds [OF t that] assms(5) by (auto simp: at_bound_def)
    with True show ?thesis by (subst sub_block_loop.simps) auto
  next
    case False
    then have j: "j < m" and jl: "j < length bs" using less.prems b by (auto simp: at_bound_def)
    have "ed_end (bs ! j) < t"
    proof (cases "m < length bs")
      case True
      then show ?thesis using tiles_less [OF t j] b by (auto simp: at_bound_def)
    next
      case False
      then show ?thesis using tiles_bounds [OF t jl] b by (auto simp: at_bound_def)
    qed
    moreover have "a \<le> ed_start (bs ! Suc j)" if "Suc j < length bs"
      using less.prems(2) jl tiles_order(1) [OF t jl that] by (auto intro: le_trans)
    ultimately show ?thesis
      using less.hyps [of "Suc j"] less.prems jl j by (subst sub_block_loop.simps) auto
  qed
qed

lemma at_bound_unique: "tiles 0 bs n \<Longrightarrow> at_bound bs n i t \<Longrightarrow> at_bound bs n j t \<Longrightarrow> i = j"
  using tiles_bounds [of 0 bs n i] tiles_bounds [of 0 bs n j] tiles_order(1) [of 0 bs n i j]
    tiles_order(1) [of 0 bs n j i]
  by (auto simp: at_bound_def)

lemma at_bound_less:
  assumes t: "tiles 0 bs n" and "at_bound bs n i s" and "at_bound bs n j e" and "s < e"
  shows "i < j"
proof (cases "j < length bs")
  case True
  then show ?thesis using assms tiles_order(1) [OF t, of j i] tiles_bounds [OF t True]
    by (auto simp: at_bound_def)
next
  case False
  then show ?thesis using assms by (auto simp: at_bound_def)
qed

text \<open>The blocks of a layer whose boundaries are boundaries of the layer below.\<close>

lemma gen_blocks_nested:
  assumes t: "tiles 0 (el_blocks (l ! i)) n" and "at_bound (el_blocks (l ! i)) n sub a"
    and "\<forall>sz \<in> set szs. 0 < sz" and "a + sum_list szs = n"
    and "\<forall>(s, m) \<in> set (ranges_from a szs). s \<in> ed_start ` set (el_blocks (l ! i))"
    and "b \<in> set (gen_blocks (Some (el_blocks (l ! i))) szs a sub k)"
  shows "nested l i b"
  using assms(2-6)
proof (induction szs arbitrary: a sub k)
  case (Cons sz szs)
  let ?bs = "el_blocks (l ! i)"
  have "0 < sz" using Cons.prems by simp
  have "\<exists>m. at_bound ?bs n m (a + sz)"
  proof (cases szs)
    case Nil
    with Cons.prems have "a + sz = n" by simp
    then show ?thesis by (auto simp: at_bound_def)
  next
    case (Cons z zs)
    with Cons.prems(4) have "a + sz \<in> ed_start ` set ?bs" by simp
    then show ?thesis by (auto simp: at_bound_def in_set_conv_nth)
  qed
  then obtain m where m: "at_bound ?bs n m (a + sz)" by blast
  have lt: "sub < m" using at_bound_less [OF t Cons.prems(1) m] \<open>0 < sz\<close> by simp
  have sa: "sub_block_loop ?bs sub a (a + sz - 1) = m"
    using lt Cons.prems(1) \<open>0 < sz\<close> by (intro sub_block_loop_at_bound [OF t m]) (auto simp: at_bound_def)
  have blk_end: "ed_end (?bs ! (m - 1)) = a + sz - 1"
  proof (cases "m < length ?bs")
    case True
    then have "ed_start (?bs ! m) = Suc (ed_end (?bs ! (m - 1)))"
      using tiles_next [OF t, of "m - 1"] lt by simp
    then show ?thesis using True m by (auto simp: at_bound_def)
  next
    case False
    then have "m = length ?bs" "a + sz = n" using m by (auto simp: at_bound_def)
    then show ?thesis using tiles_last [OF t] lt by fastforce
  qed
  show ?case
  proof (cases "b = fst (init_eraseblock (Some ?bs) k a (a + sz - 1) sub)")
    case True
    have "ed_first_sub b = int sub" "ed_last_sub b = int m - 1" "ed_start b = a" "ed_end b = a + sz - 1"
      using sa True by (simp_all add: init_eraseblock_def Let_def)
    moreover have "m \<le> length ?bs" using m by (auto simp: at_bound_def)
    moreover have "nat (int m - 1) = m - 1" using lt by simp
    ultimately show ?thesis using lt Cons.prems(1) blk_end by (auto simp: nested_def at_bound_def)
  next
    case False
    then have "b \<in> set (gen_blocks (Some ?bs) szs (a + sz) m (Suc k))"
      using Cons.prems(5) sa by (simp add: sub_after_def)
    from Cons.IH [OF m _ _ _ this] show ?thesis using Cons.prems(2-4) by (simp add: add.assoc)
  qed
qed simp

section \<open>The layout that is built\<close>

text \<open>\<open>layout_of l es\<close>: the layers of \<open>l\<close> are those of the erasers \<open>es\<close>, in order, nothing selected.\<close>

definition layout_of :: "erase_layout \<Rightarrow> block_eraser list \<Rightarrow> bool" where
  "layout_of l es \<longleftrightarrow> map el_eraser l = es \<and>
     (\<forall>i < length l. map (\<lambda>b. (ed_start b, Suc (ed_end b) - ed_start b)) (el_blocks (l ! i)) =
        eraser_blocks (es ! i)) \<and>
     (\<forall>i < length l. \<forall>b \<in> set (el_blocks (l ! i)). \<not> ed_selected b)"

lemma eraser_sizes_region: "eraser_sizes e = region_sizes (be_blocks e)"
  by (simp add: eraser_sizes_def region_sizes_def)

lemma eraser_okD:
  assumes "eraser_ok n e"
  shows "regions_ok (be_blocks e)" and "sum_list (region_sizes (be_blocks e)) = n"
    and "\<forall>sz \<in> set (region_sizes (be_blocks e)). 0 < sz"
  using assms region_sizes_pos by (auto simp: eraser_ok_def regions_ok_def eraser_sizes_region)

lemma bounds_of_layer:
  "map (\<lambda>b. (ed_start b, Suc (ed_end b) - ed_start b)) bs = eraser_blocks e \<Longrightarrow>
     set (bounds_of e) = ed_start ` set bs"
  by (simp add: bounds_of_def flip: set_map) (metis (mono_tags, lifting) comp_apply fst_conv list.map_comp list.map_cong0)

lemma nested_append:
  assumes "i < length l" and "nested l i b"
  shows "nested (l @ [x]) i b"
  using assms by (auto simp: nested_def nth_append)

lemma nested_erasers_last:
  "nested_erasers (ds @ e # es) \<Longrightarrow> ds \<noteq> [] \<Longrightarrow> set (bounds_of e) \<subseteq> set (bounds_of (last ds))"
proof (induction ds)
  case (Cons d ds)
  then show ?case by (cases ds) auto
qed simp

lemma create_layers_ok:
  assumes n: "n = ch_total_size (c_chip c) * 1024" "n < 4294967296" "0 < n" and m: "\<And>k. c_malloc c k"
    and "wf_layout n l" and "layout_of l ds" and "geometry_ok n (ds @ es)"
  shows "\<exists>l'. create_layers c es l = Some (int (length (ds @ es)), Some l') \<and> wf_layout n l' \<and>
    layout_of l' (ds @ es)"
  using assms(5-7)
proof (induction es arbitrary: l ds)
  case Nil
  then show ?case by (auto simp: layout_of_def)
next
  case (Cons e es)
  have ok: "eraser_ok n e" using Cons.prems(3) by (simp add: geometry_ok_def)
  let ?below = "if l = [] then None else Some (el_blocks (last l))"
  let ?bs = "gen_blocks ?below (region_sizes (be_blocks e)) 0 0 0"
  let ?lv = "\<lparr>el_blocks = ?bs, el_eraser = e\<rparr>"
  have "mul32 (ch_total_size (c_chip c)) 1024 = n" using n by (simp add: c_simps)
  then have cnt: "calculate_block_count (c_chip c) e = Some (length (region_sizes (be_blocks e)))"
    using calculate_block_count_loop_eq [OF eraser_okD(1) [OF ok], of 0 n 0] eraser_okD(2) [OF ok] n
    by (simp add: calculate_block_count_def)
  have lay: "layer_blocks ?below (be_blocks e) (length (region_sizes (be_blocks e))) 0 0 [] = Some ?bs"
    using layer_blocks_eq [OF eraser_okD(1) [OF ok], of 0 _ "[]"] eraser_okD(2) [OF ok] n by simp
  have step: "create_layers c (e # es) l = create_layers c es (l @ [?lv])"
    using cnt lay m by simp
  have len: "length ds = length l" using Cons.prems(2) by (auto simp: layout_of_def)
  have tl: "tiles 0 ?bs n"
    using gen_blocks_tiles [OF eraser_okD(3) [OF ok], of 0] eraser_okD(2) [OF ok] by simp
  have rg: "map (\<lambda>b. (ed_start b, Suc (ed_end b) - ed_start b)) ?bs = eraser_blocks e"
    using gen_blocks_ranges [OF eraser_okD(3) [OF ok]] by (simp add: eraser_blocks_def eraser_sizes_region)
  have nest: "nested (l @ [?lv]) i b"
    if "l \<noteq> []" "i = length l - 1" "b \<in> set ?bs" for i b
  proof -
    have i: "i < length l" "last l = l ! i" using that by (simp_all add: last_conv_nth)
    have t: "tiles 0 (el_blocks (l ! i)) n" using Cons.prems(1) i by (auto intro: wf_tiles)
    have "nested_erasers (ds @ e # es)" using Cons.prems(3) by (simp add: geometry_ok_def)
    moreover have "ds \<noteq> []" using that(1) len by auto
    moreover from this have "last ds = ds ! i" using that(2) len by (simp add: last_conv_nth)
    ultimately have "set (bounds_of e) \<subseteq> set (bounds_of (ds ! i))"
      using nested_erasers_last [of ds e es] by simp
    moreover have "set (bounds_of (ds ! i)) = ed_start ` set (el_blocks (l ! i))"
      using Cons.prems(2) i by (intro bounds_of_layer) (auto simp: layout_of_def)
    ultimately have sub: "\<forall>(s, m) \<in> set (ranges_from 0 (region_sizes (be_blocks e))).
        s \<in> ed_start ` set (el_blocks (l ! i))"
      by (force simp: bounds_of_def eraser_blocks_def eraser_sizes_region)
    have ne: "el_blocks (l ! i) \<noteq> []" using t n by auto
    then have "at_bound (el_blocks (l ! i)) n 0 0" using tiles_first [OF t ne] by (simp add: at_bound_def)
    from gen_blocks_nested [OF t this eraser_okD(3) [OF ok] _ sub] that i eraser_okD(2) [OF ok]
    have "nested l i b" by simp
    with i show ?thesis by (intro nested_append) auto
  qed
  have "wf_layout n (l @ [?lv])"
    unfolding wf_layout_def
  proof (intro conjI allI impI ballI)
    fix i assume "i < length (l @ [?lv])"
    then show "tiles 0 (el_blocks ((l @ [?lv]) ! i)) n"
      using tl Cons.prems(1) by (cases "i < length l") (auto simp: nth_append wf_layout_def less_Suc_eq)
  next
    fix i b assume i: "Suc i < length (l @ [?lv])" and b: "b \<in> set (el_blocks ((l @ [?lv]) ! Suc i))"
    show "nested (l @ [?lv]) i b"
    proof (cases "Suc i < length l")
      case True
      then show ?thesis using Cons.prems(1) b by (intro nested_append) (auto simp: wf_layout_def nth_append)
    next
      case False
      then have "i = length l - 1" "l \<noteq> []" using i by auto
      moreover have "b \<in> set ?bs" using False i b by (simp add: nth_append)
      ultimately show ?thesis by (intro nest)
    qed
  qed
  moreover have "layout_of (l @ [?lv]) (ds @ [e])"
    using Cons.prems(2) rg len gen_blocks_unselected
    by (auto simp: layout_of_def nth_append less_Suc_eq)
  ultimately show ?case
    using Cons.IH [of "l @ [?lv]" "ds @ [e]"] Cons.prems(3) unfolding step by simp
qed

lemma create_erase_layout_ok:
  assumes "n = ch_total_size (c_chip c) * 1024" and "n < 4294967296" and "0 < n" and "\<And>k. c_malloc c k"
    and "usable_erasers c \<noteq> []" and "geometry_ok n (usable_erasers c)"
  shows "\<exists>l. create_erase_layout c = Some (int (length (usable_erasers c)), Some l) \<and> wf_layout n l \<and>
    layout_of l (usable_erasers c)"
proof -
  have "wf_layout n []" "layout_of [] []" by (simp_all add: wf_layout_def layout_of_def)
  from create_layers_ok [OF assms(1-3) assms(4) this, of "usable_erasers c"] assms(4-6)
  show ?thesis by (simp add: create_erase_layout_def flip: length_usable_erasers)
qed

section \<open>Alignment\<close>

lemma align_diffs_spec:
  assumes "align_diffs bs a b sd ed = (sd', ed')" and "\<forall>x \<in> set bs. ed_start x < 4294967296 \<and> ed_end x < 4294967296"
    and "a < 4294967296" and "b < 4294967296"
  shows "sd' \<le> sd" and "\<forall>x \<in> set bs. ed_start x \<le> a \<longrightarrow> sd' \<le> a - ed_start x"
    and "sd' = sd \<or> (\<exists>x \<in> set bs. ed_start x \<le> a \<and> sd' = a - ed_start x)"
    and "ed' \<le> ed" and "\<forall>x \<in> set bs. b \<le> ed_end x \<longrightarrow> ed' \<le> ed_end x - b"
    and "ed' = ed \<or> (\<exists>x \<in> set bs. b \<le> ed_end x \<and> ed' = ed_end x - b)"
proof -
  have "sd' \<le> sd \<and> (\<forall>x \<in> set bs. ed_start x \<le> a \<longrightarrow> sd' \<le> a - ed_start x) \<and>
      (sd' = sd \<or> (\<exists>x \<in> set bs. ed_start x \<le> a \<and> sd' = a - ed_start x)) \<and>
      ed' \<le> ed \<and> (\<forall>x \<in> set bs. b \<le> ed_end x \<longrightarrow> ed' \<le> ed_end x - b) \<and>
      (ed' = ed \<or> (\<exists>x \<in> set bs. b \<le> ed_end x \<and> ed' = ed_end x - b))"
    using assms
  proof (induction bs arbitrary: sd ed)
    case (Cons x bs)
    let ?sd = "if ed_start x \<le> a then min sd (a - ed_start x) else sd"
      and ?ed = "if b \<le> ed_end x then min ed (ed_end x - b) else ed"
    have "sub32 a (ed_start x) = a - ed_start x" if "ed_start x \<le> a"
      using that Cons.prems by (simp add: c_simps)
    moreover have "sub32 (ed_end x) b = ed_end x - b" if "b \<le> ed_end x"
      using that Cons.prems by (simp add: c_simps)
    ultimately have "align_diffs bs a b ?sd ?ed = (sd', ed')"
      using Cons.prems(1) by (auto simp: Let_def min_def not_le split: if_splits)
    note IH = Cons.IH [OF this]
    have sd: "sd' \<le> ?sd" "\<forall>x \<in> set bs. ed_start x \<le> a \<longrightarrow> sd' \<le> a - ed_start x"
      "sd' = ?sd \<or> (\<exists>x \<in> set bs. ed_start x \<le> a \<and> sd' = a - ed_start x)"
      and ed: "ed' \<le> ?ed" "\<forall>x \<in> set bs. b \<le> ed_end x \<longrightarrow> ed' \<le> ed_end x - b"
      "ed' = ?ed \<or> (\<exists>x \<in> set bs. b \<le> ed_end x \<and> ed' = ed_end x - b)"
      using IH Cons.prems by auto
    from sd ed show ?case by (auto simp: min_def split: if_splits)
  qed simp
  then show "sd' \<le> sd" and "\<forall>x \<in> set bs. ed_start x \<le> a \<longrightarrow> sd' \<le> a - ed_start x"
    and "sd' = sd \<or> (\<exists>x \<in> set bs. ed_start x \<le> a \<and> sd' = a - ed_start x)"
    and "ed' \<le> ed" and "\<forall>x \<in> set bs. b \<le> ed_end x \<longrightarrow> ed' \<le> ed_end x - b"
    and "ed' = ed \<or> (\<exists>x \<in> set bs. b \<le> ed_end x \<and> ed' = ed_end x - b)" by blast+
qed

text \<open>The start of the smallest block around an address is the last block start, of any layer, up to
  it; the same for ends.\<close>

lemma wf_leaf:
  assumes "wf_layout n L" and "L \<noteq> []" and "a < n"
  obtains k where "rng L 0 k" and "ed_start (blk L 0 k) \<le> a" and "a \<le> ed_end (blk L 0 k)"
  using tiles_cover [OF wf_tiles [OF assms(1), of 0], of a] assms(2,3) by (auto simp: rng_def)

lemma leaf_start_last:
  assumes wf: "wf_layout n L" and r: "rng L 0 k" and a: "a \<le> ed_end (blk L 0 k)"
    and i: "rng L i m" "ed_start (blk L i m) \<le> a"
  shows "ed_start (blk L i m) \<le> ed_start (blk L 0 k)"
  using rng_no_straddle [OF wf r _ i(1)] i(2) a by auto

lemma leaf_end_first:
  assumes wf: "wf_layout n L" and r: "rng L 0 k" and b: "ed_start (blk L 0 k) \<le> b"
    and i: "rng L i m" "b \<le> ed_end (blk L i m)"
  shows "ed_end (blk L 0 k) \<le> ed_end (blk L i m)"
proof (cases "rng L i (Suc m)")
  case True
  then show ?thesis
    using rng_no_straddle [OF wf r _ True] rng_next [OF wf True] b i by auto
next
  case False
  then have "m = length (el_blocks (L ! i)) - 1" "el_blocks (L ! i) \<noteq> []" using i(1) by (auto simp: rng_def)
  then have "Suc (ed_end (blk L i m)) = n"
    using tiles_last [OF wf_tiles [OF wf]] i(1) by (auto simp: rng_def)
  then show ?thesis using rng_bounds(2) [OF wf r] by simp
qed

lemma mem_layers: "x \<in> set (concat (map el_blocks L)) \<longleftrightarrow> (\<exists>i j. rng L i j \<and> x = blk L i j)"
proof
  assume "x \<in> set (concat (map el_blocks L))"
  then obtain lv where "lv \<in> set L" "x \<in> set (el_blocks lv)" by auto
  then obtain i j where "i < length L" "lv = L ! i" "j < length (el_blocks lv)" "x = el_blocks lv ! j"
    by (metis in_set_conv_nth)
  then show "\<exists>i j. rng L i j \<and> x = blk L i j" by (auto simp: rng_def)
next
  assume "\<exists>i j. rng L i j \<and> x = blk L i j"
  then obtain i j where r: "rng L i j" "x = blk L i j" by blast
  then have "L ! i \<in> set L" "x \<in> set (el_blocks (L ! i))" by (simp_all add: rng_def)
  then show "x \<in> set (concat (map el_blocks L))" by auto
qed

lemma align_region_ok:
  assumes wf: "wf_layout n L" and n: "n < 4294967296"
    and ka: "rng L 0 k" "ed_start (blk L 0 k) \<le> a" "a \<le> ed_end (blk L 0 k)"
    and kb: "rng L 0 m" "ed_start (blk L 0 m) \<le> b" "b \<le> ed_end (blk L 0 m)"
  shows "align_region L a b = (ed_start (blk L 0 k), ed_end (blk L 0 m))"
proof -
  let ?bs = "concat (map el_blocks L)"
  note mem = mem_layers [of _ L]
  have bd: "\<forall>x \<in> set ?bs. ed_start x < 4294967296 \<and> ed_end x < 4294967296"
  proof
    fix x assume "x \<in> set ?bs"
    then obtain i j where "rng L i j" "x = blk L i j" using mem by blast
    then show "ed_start x < 4294967296 \<and> ed_end x < 4294967296"
      using rng_bounds [OF wf, of i j] n by simp
  qed
  have ab: "a < 4294967296" "b < 4294967296"
    using rng_bounds(2) [OF wf ka(1)] rng_bounds(2) [OF wf kb(1)] ka(3) kb(3) n by simp_all
  obtain sd ed where al: "align_diffs ?bs a b 4294967295 4294967295 = (sd, ed)" by fastforce
  note sp = align_diffs_spec [OF al bd ab]
  have ks: "sd \<le> a - ed_start (blk L 0 k)" using sp(2) ka mem by blast
  have "sd = a - ed_start (blk L 0 k)"
  proof (cases "\<exists>x \<in> set ?bs. ed_start x \<le> a \<and> sd = a - ed_start x")
    case True
    then obtain x where "x \<in> set ?bs" "ed_start x \<le> a" "sd = a - ed_start x" by blast
    with mem obtain i j where "rng L i j" "ed_start (blk L i j) \<le> a" "sd = a - ed_start (blk L i j)"
      by metis
    then show ?thesis using leaf_start_last [OF wf ka(1,3)] ks by fastforce
  next
    case False
    then show ?thesis using sp(3) ks ab by auto
  qed
  moreover have me: "ed \<le> ed_end (blk L 0 m) - b" using sp(5) kb mem by blast
  moreover have "ed = ed_end (blk L 0 m) - b"
  proof (cases "\<exists>x \<in> set ?bs. b \<le> ed_end x \<and> ed = ed_end x - b")
    case True
    then obtain x where "x \<in> set ?bs" "b \<le> ed_end x" "ed = ed_end x - b" by blast
    with mem obtain i j where "rng L i j" "b \<le> ed_end (blk L i j)" "ed = ed_end (blk L i j) - b"
      by metis
    then show ?thesis using leaf_end_first [OF wf kb(1,2)] me by fastforce
  next
    case False
    have "ed_end (blk L 0 m) < 4294967296" using bd mem kb(1) by blast
    then show ?thesis using False sp(6) me by auto
  qed
  moreover have "ed_end (blk L 0 m) < 4294967296" using bd mem kb(1) by blast
  ultimately show ?thesis using ka(2) kb(3) ab al by (auto simp: align_region_def c_simps)
qed

end
