(* ===== verification/EraseWrite.thy ===== *)
theory EraseWrite
  imports EraseBuild
begin

text \<open>
  The erase and write algorithm of \<^verbatim>\<open>flashrom/erasure_layout.c\<close>: \<^verbatim>\<open>erase_write_helper\<close> selects the
  blocks to erase, erases them and writes what differs; \<^verbatim>\<open>erase_write\<close> aligns the region to erase
  blocks, keeps what the alignment added, and runs the helper on each region of the programmer.

  The buffers \<^verbatim>\<open>curcontents\<close>, \<^verbatim>\<open>newcontents\<close>, the erase layout and the flag \<^verbatim>\<open>*all_skipped\<close> are
  changed in place by the code; here they are arguments and part of the result. The progress
  callback is left out.
\<close>

section \<open>Definitions\<close>

text \<open>The first loop of \<^verbatim>\<open>erase_write_helper\<close>, over the blocks of the top layer.\<close>

fun select_top ::
    "'s flashctx \<Rightarrow> nat \<Rightarrow> bytes \<Rightarrow> bytes \<Rightarrow> nat \<Rightarrow> nat \<Rightarrow> nat list \<Rightarrow> erase_layout \<Rightarrow> erase_layout option" where
  "select_top c lev cur new rs re [] l = Some l"
| "select_top c lev cur new rs re (i # is) l =
     (if ed_start (blk l lev i) \<le> re \<and> rs \<le> ed_end (blk l lev i)
      then Option.bind (select_erase_functions c lev cur new rs re i l)
             (\<lambda>l'. select_top c lev cur new rs re is l')
      else select_top c lev cur new rs re is l)"

text \<open>The second loop, over all blocks of all layers. The result is the result code, \<^verbatim>\<open>curcontents\<close>, the
  layout, the flag and the state.\<close>

type_synonym 's ew_state = "bytes \<times> erase_layout \<times> bool \<times> 's"

fun erase_selected ::
    "'s flashctx \<Rightarrow> (nat \<times> nat) list \<Rightarrow> 's ew_state \<Rightarrow> (int \<times> 's ew_state) option" where
  "erase_selected c [] st = Some (0, st)"
| "erase_selected c ((i, j) # is) (cur, l, skipped, s) =
     (if \<not> ed_selected (blk l i j) then erase_selected c is (cur, l, skipped, s)
      else
        let start_addr = ed_start (blk l i j);
            block_len = add32 (sub32 (ed_end (blk l i j)) start_addr) 1
        in Option.bind (lookup_erase_func_ptr c (el_eraser (l ! i))) (\<lambda>erasefn.
           Option.bind (erasefn start_addr block_len s)
             (\<lambda>(r1, s1).
               if r1 \<noteq> 0 then Some (-1, (cur, l, skipped, s1))
               else Option.bind (if fl_verify_after_write (c_flags c)
                                 then check_erased_range c start_addr block_len s1 else Some (0, s1))
                 (\<lambda>(r2, s2).
                    if r2 \<noteq> 0 then Some (-1, (cur, l, skipped, s2))
                    else if length cur < start_addr + block_len then None
                    else erase_selected c is
                           (memset_at start_addr (ERASED_VALUE c) block_len cur,
                            set_selected i j False l, False, s2)))))"

text \<open>The loop that writes. \<^verbatim>\<open>get_next_write\<close> moves \<^verbatim>\<open>start_here\<close> to the next area that differs.\<close>

partial_function (option) write_areas ::
    "'s flashctx \<Rightarrow> nat \<Rightarrow> nat \<Rightarrow> bytes \<Rightarrow> bytes \<Rightarrow> nat \<Rightarrow> bool \<Rightarrow> 's \<Rightarrow> (int \<times> bytes \<times> bool \<times> 's) option" where
  "write_areas c rs erase_len cur new start_here skipped s =
     (if length cur < rs + start_here + sub32 erase_len start_here \<or>
         length new < rs + start_here + sub32 erase_len start_here then None
      else
        case get_next_write (drop (rs + start_here) cur) (drop (rs + start_here) new)
               (sub32 erase_len start_here) start_here (ch_gran (c_chip c)) of
          (len_here, start_here') \<Rightarrow>
            if len_here = 0 then Some (0, cur, skipped, s)
            else Option.bind (write_flash c new (rs + start_here') (add32 rs start_here') len_here s)
              (\<lambda>(ret, s').
                 if ret \<noteq> 0 then Some (-1, cur, skipped, s')
                 else write_areas c rs erase_len
                        (blit (rs + start_here') (bslice (rs + start_here') len_here new) cur)
                        new start_here' False s'))"

definition layer_indices :: "erase_layout \<Rightarrow> nat \<Rightarrow> (nat \<times> nat) list" where
  "layer_indices l count =
     concat (map (\<lambda>i. map (\<lambda>j. (i, j)) [0..<length (el_blocks (l ! i))]) [0..<count])"

definition erase_write_helper ::
    "'s flashctx \<Rightarrow> nat \<Rightarrow> nat \<Rightarrow> bytes \<Rightarrow> 's ew_state \<Rightarrow> (int \<times> 's ew_state) option" where
  "erase_write_helper c region_start region_end new = (\<lambda>(cur, l, skipped, s).
     let erasefn_count = count_usable_erasers c
     in if erasefn_count = 0 \<or> length l < erasefn_count then None
        else Option.bind
          (select_top c (erasefn_count - 1) cur new region_start region_end
             [0..<length (el_blocks (l ! (erasefn_count - 1)))] l)
          (\<lambda>l1. Option.bind (erase_selected c (layer_indices l1 erasefn_count) (cur, l1, skipped, s))
             (\<lambda>(ret, cur2, l2, skipped2, s2).
                if ret \<noteq> 0 then Some (ret, (cur2, l2, skipped2, s2))
                else Option.bind
                  (write_areas c region_start (add32 (sub32 region_end region_start) 1) cur2 new 0 skipped2 s2)
                  (\<lambda>(ret3, cur3, skipped3, s3). Some (ret3, (cur3, l2, skipped3, s3))))))"

text \<open>The loop of \<^verbatim>\<open>erase_write\<close> over the regions.\<close>

partial_function (option) erase_write_loop ::
    "'s flashctx \<Rightarrow> nat \<Rightarrow> bytes \<Rightarrow> nat \<Rightarrow> 's ew_state \<Rightarrow> (int \<times> 's ew_state) option" where
  "erase_write_loop c region_end new addr st =
     (if addr \<le> region_end then
        let len = add32 (sub32 (min32 region_end (fr_end (get_flash_region c addr))) addr) 1
        in if fr_write_prot (get_flash_region c addr)
           then erase_write_loop c region_end new (add32 addr len) st
           else Option.bind (erase_write_helper c addr (sub32 (add32 addr len) 1) new st)
             (\<lambda>(ret, st').
                if ret \<noteq> 0 then Some (ret, st')
                else erase_write_loop c region_end new (add32 addr len) st')
      else Some (0, st))"

text \<open>Keeping the bytes that the alignment added on one side: they are read from the chip into
  \<^verbatim>\<open>curcontents\<close> and stand in for those of \<^verbatim>\<open>newcontents\<close>; the replaced bytes are saved. The result of
  the read is not looked at. \<open>None\<close> inside the result is a failed allocation.\<close>

definition keep_margin ::
    "'s flashctx \<Rightarrow> nat \<Rightarrow> nat \<Rightarrow> bytes \<Rightarrow> bytes \<Rightarrow> 's \<Rightarrow> (bytes \<times> bytes \<times> bytes option \<times> bool \<times> 's) option" where
  "keep_margin c off len cur new s =
     (if len = 0 then Some (cur, new, None, True, s)
      else if \<not> c_malloc c len then Some (cur, new, None, False, s)
      else Option.bind (read_flash c cur off off len s) (\<lambda>(r, cur', s').
        if length new < off + len then None
        else Some (cur', blit off (bslice off len cur') new, Some (bslice off len new), True, s')))"

definition restore_margin :: "nat \<Rightarrow> bytes option \<Rightarrow> bytes \<Rightarrow> bytes" where
  "restore_margin off old new = (case old of None \<Rightarrow> new | Some bs \<Rightarrow> blit off bs new)"

definition erase_write ::
    "'s flashctx \<Rightarrow> nat \<Rightarrow> nat \<Rightarrow> bytes \<Rightarrow> 's ew_state \<Rightarrow> (int \<times> bytes \<times> 's ew_state) option" where
  "erase_write c old_start old_end new = (\<lambda>(cur, l, skipped, s).
     let (region_start, region_end) = align_region l old_start old_end
     in Option.bind
          (if \<not> fl_skip_unwritable_regions (c_flags c)
           then check_for_unwritable_regions c region_start (add32 (sub32 region_end region_start) 1)
           else Some 0)
        (\<lambda>r. if r \<noteq> 0 then Some (-1, new, (cur, l, skipped, s)) else
        Option.bind (keep_margin c region_start (sub32 old_start region_start) cur new s)
        (\<lambda>(cur1, new1, old_start_buf, ok1, s1).
           if \<not> ok1 then Some (-1, new1, (cur1, l, skipped, s1)) else
        Option.bind (keep_margin c (add32 old_end 1) (sub32 region_end old_end) cur1 new1 s1)
        (\<lambda>(cur2, new2, old_end_buf, ok2, s2).
           if \<not> ok2
           then Some (-1, restore_margin region_start old_start_buf new2, (cur2, l, skipped, s2)) else
        Option.bind (erase_write_loop c region_end new2 region_start (cur2, l, skipped, s2))
        (\<lambda>(ret, st').
           Some (ret,
                 restore_margin (add32 old_end 1) old_end_buf
                   (restore_margin region_start old_start_buf new2),
                 st'))))))"

end
