(* ===== verification/EraseWriteOk.thy ===== *)
theory EraseWriteOk
  imports EraseWrite
begin

text \<open>
  Correctness of the erase and write algorithm. The interface \<open>erase_device\<close> adds to \<open>flash_device\<close> what
  the algorithm needs of the chip description: erasers that cover the chip and are nested, and
  blocks and regions made of whole write chunks. Under it, \<^verbatim>\<open>erase_write\<close> returns with success, the
  requested bytes are programmed, and all others keep their value.
\<close>

section \<open>Selection over the whole top layer\<close>

text \<open>The loop of the helper skips the blocks of the top layer that do not meet the region; this is
  the selection loop with the skipping built into the callback.\<close>

lemma select_top_loop:
  assumes "select_loop (\<lambda>i l. if ed_start (blk l lev i) \<le> re \<and> rs \<le> ed_end (blk l lev i)
      then select_erase_functions c lev cur new rs re i l else Some l) lev (int i) (int m - 1) c0 l = Some (cnt, l')"
    and "i \<le> m"
  shows "select_top c lev cur new rs re [i..<m] l = Some l'"
  using assms
proof (induction "m - i" arbitrary: i c0 l)
  case 0
  then show ?case by (subst (asm) select_loop.simps) auto
next
  case (Suc x)
  then have im: "i < m" by simp
  let ?f = "\<lambda>i l. if ed_start (blk l lev i) \<le> re \<and> rs \<le> ed_end (blk l lev i)
      then select_erase_functions c lev cur new rs re i l else Some l"
  from Suc.prems(1) im obtain l1 c1 where l1: "?f i l = Some l1"
    and rest: "select_loop ?f lev (int (Suc i)) (int m - 1) c1 l1 = Some (cnt, l')"
    by (subst (asm) select_loop.simps) (auto simp: add.commute split: if_splits option.splits)
  have "select_top c lev cur new rs re [Suc i..<m] l1 = Some l'"
    using Suc.hyps im by (intro Suc.hyps(1) [OF _ rest]) auto
  with l1 im show ?case by (auto simp: upt_conv_Cons split: if_splits)
qed

definition clean :: "erase_layout \<Rightarrow> erase_layout \<Rightarrow> bool" where
  "clean L l \<longleftrightarrow> shape l = shape L \<and> (\<forall>i k. rng L i k \<longrightarrow> \<not> sel l i k)"

text \<open>The plan after the selection: \<open>picked L l i k\<close> is a block to erase.\<close>

definition picked :: "erase_layout \<Rightarrow> erase_layout \<Rightarrow> nat \<Rightarrow> nat \<Rightarrow> bool" where
  "picked L l i k \<longleftrightarrow> rng L i k \<and> sel l i k"

lemma select_top_ok:
  assumes wf: "wf_layout n L" and ne: "L \<noteq> []" "0 < n" and cl: "clean L l"
  defines "lev \<equiv> length L - 1"
  shows "\<exists>l'. select_top c lev cur new rs re [0..<length (el_blocks (l ! lev))] l = Some l' \<and> shape l' = shape L \<and>
    (\<forall>i k. picked L l' i k \<longrightarrow> within L i k rs re) \<and>
    (\<forall>i k i' k'. picked L l' i k \<and> picked L l' i' k' \<and> (i, k) \<noteq> (i', k') \<longrightarrow> disjoint_blocks L i k i' k') \<and>
    (\<forall>k. rng L 0 k \<and> within L 0 k rs re \<and> needs c cur new L k \<longrightarrow>
       (\<exists>i m. picked L l' i m \<and> within L 0 k (ed_start (blk L i m)) (ed_end (blk L i m))))"
proof -
  let ?f = "\<lambda>i l. if ed_start (blk l lev i) \<le> re \<and> rs \<le> ed_end (blk l lev i)
      then select_erase_functions c lev cur new rs re i l else Some l"
  have lev: "lev < length L" using ne by (simp add: lev_def)
  have t: "tiles 0 (el_blocks (L ! lev)) n" using wf lev by (rule wf_tiles)
  then have bne: "el_blocks (L ! lev) \<noteq> []" using ne(2) by auto
  have sh: "shape l = shape L" using cl by (simp add: clean_def)
  let ?m = "length (el_blocks (L ! lev))"
  have len: "length (el_blocks (l ! lev)) = ?m" using shape_block(1) [OF sh] shape_length [OF sh] lev by simp
  have r: "rng L lev 0" "rng L lev (?m - 1)" using lev bne by (auto simp: rng_def)
  have all: "within L i k 0 (ed_end (blk L lev (?m - 1)))" if "rng L i k" for i k
    using rng_bounds(2) [OF wf that] tiles_last [OF t bne] by (auto simp: within_def)
  have st0: "ed_start (blk L lev 0) = 0" using tiles_first [OF t bne] .
  have rec: "\<exists>l'. ?f j l = Some l' \<and> sel_spec c cur new rs re L lev (ed_start (blk L lev j)) (ed_end (blk L lev j)) l l'"
    if j: "shape l = shape L" "rng L lev j" "none_sel L lev (ed_start (blk L lev j)) (ed_end (blk L lev j)) l" for j l
  proof (cases "ed_start (blk L lev j) \<le> re \<and> rs \<le> ed_end (blk L lev j)")
    case True
    then show ?thesis using select_spec [OF wf j] by (simp add: blk_shape [OF j(1,2)])
  next
    case False
    have "\<not> (within L 0 k (ed_start (blk L lev j)) (ed_end (blk L lev j)) \<and> within L 0 k rs re)" if "rng L 0 k" for k
      using False rng_bounds(1) [OF wf that] by (auto simp: within_def)
    then have "sel_good c cur new rs re L lev (ed_start (blk L lev j)) (ed_end (blk L lev j)) l"
      using j(3) by (auto simp: sel_good_def none_sel_def)
    with False j(1) show ?thesis by (auto simp: blk_shape [OF j(1,2)] sel_spec_def sel_frame_def)
  qed
  have "none_sel L lev (ed_start (blk L lev 0)) (ed_end (blk L lev (?m - 1))) l"
    using cl by (auto simp: none_sel_def chosen_def clean_def)
  with select_loop_spec [OF wf rec sh r, of 0] obtain cnt l' where
    l': "select_loop ?f lev (int 0) (int (?m - 1)) 0 l = Some (cnt, l')"
    "sel_spec c cur new rs re L lev (ed_start (blk L lev 0)) (ed_end (blk L lev (?m - 1))) l l'"
    by blast
  have "int (?m - 1) = int ?m - 1" using bne by (cases "el_blocks (L ! lev)") auto
  with l'(1) have "select_top c lev cur new rs re [0..<?m] l = Some l'"
    by (intro select_top_loop [where cnt = cnt]) (auto simp: )
  moreover have "chosen L l' lev 0 (ed_end (blk L lev (?m - 1))) i k \<longleftrightarrow> picked L l' i k" for i k
    using all [of i k] by (auto simp: chosen_def picked_def rng_def lev_def)
  ultimately show ?thesis
    using l'(2) all unfolding len st0 sel_spec_def sel_good_def sel_frame_def by auto
qed

section \<open>The interface\<close>

lemma usable_has_func: "e \<in> set (usable_erasers c) \<Longrightarrow> be_erase e \<noteq> NO_BLOCK_ERASE_FUNC"
proof
  assume "e \<in> set (usable_erasers c)" and no: "be_erase e = NO_BLOCK_ERASE_FUNC"
  then obtain k where k: "e = ch_erasers (c_chip c) ! k" "check_block_eraser c k = 0"
    by (auto simp: usable_erasers_def)
  have "check_block_eraser c k = 1"
    using no by (simp add: check_block_eraser_def Let_def flip: k(1))
  with k(2) show False by simp
qed

locale erase_device = flash_device c n dev_ok contents
  for c :: "'s flashctx" and n :: nat and dev_ok :: "'s \<Rightarrow> bool" and contents :: "'s \<Rightarrow> bytes" +
  assumes erasers: "usable_erasers c \<noteq> []" and geometry: "geometry_ok n (usable_erasers c)"
    and block_chunks: "sz \<in> set (eraser_sizes (usable_erasers c ! 0)) \<Longrightarrow>
      gran_stride (ch_gran (c_chip c)) dvd sz"
    and region_blocks: "a < n \<Longrightarrow> Suc (fr_end (get_flash_region c a)) = n \<or>
      Suc (fr_end (get_flash_region c a)) \<in> set (bounds_of (usable_erasers c ! 0))"
    and bit_erased: "ch_gran (c_chip c) = WRITE_GRAN_1BIT \<Longrightarrow> ERASED_VALUE c = 0xff"
    and all_readable: "a < n \<Longrightarrow> \<not> fr_read_prot (get_flash_region c a)"
begin

lemma lookup_erase:
  "e \<in> set (usable_erasers c) \<Longrightarrow> lookup_erase_func_ptr c e = Some (drv_erase (c_drivers c) (be_erase e))"
  using erase_func [of e] usable_has_func [of e c]
  by (cases "be_erase e") (auto simp: lookup_erase_func_ptr_def)

text \<open>A layout that \<^verbatim>\<open>create_erase_layout\<close> made for this chip.\<close>

definition built :: "erase_layout \<Rightarrow> bool" where
  "built L \<longleftrightarrow> wf_layout n L \<and> layout_of L (usable_erasers c)"

lemma built_exists:
  "\<exists>L. create_erase_layout c = Some (int (length (usable_erasers c)), Some L) \<and> built L"
  using create_erase_layout_ok [OF size] size_bound size_pos malloc_ok erasers geometry
  by (simp add: built_def)

lemma built_wf: "built L \<Longrightarrow> wf_layout n L"
  by (simp add: built_def)

lemma built_length: "built L \<Longrightarrow> length L = count_usable_erasers c"
proof -
  assume "built L"
  then have "map el_eraser L = usable_erasers c" by (simp add: built_def layout_of_def)
  from arg_cong [OF this, of length] show ?thesis by (simp add: length_usable_erasers)
qed

lemma built_nonempty: "built L \<Longrightarrow> L \<noteq> []"
  using erasers by (auto simp: built_def layout_of_def)

lemma built_clean: "built L \<Longrightarrow> clean L L"
  by (auto simp: built_def layout_of_def clean_def rng_def)

lemma built_eraser:
  assumes "built L" and "shape l = shape L" and "rng L i k"
  shows "el_eraser (l ! i) \<in> set (usable_erasers c)"
    and "(ed_start (blk L i k), Suc (ed_end (blk L i k)) - ed_start (blk L i k)) \<in> set (eraser_blocks (el_eraser (l ! i)))"
proof -
  have i: "i < length L" using assms(3) by (simp add: rng_def)
  have e: "el_eraser (l ! i) = el_eraser (L ! i)"
    using shape_layer(2) [OF assms(2)] shape_length [OF assms(2)] i by simp
  have us: "map el_eraser L = usable_erasers c" using assms(1) by (simp add: built_def layout_of_def)
  show "el_eraser (l ! i) \<in> set (usable_erasers c)" using i by (simp add: e flip: us)
  have "map (\<lambda>b. (ed_start b, Suc (ed_end b) - ed_start b)) (el_blocks (L ! i)) = eraser_blocks (el_eraser (L ! i))"
    using assms(1) i by (auto simp: built_def layout_of_def simp flip: us)
  moreover have "blk L i k \<in> set (el_blocks (L ! i))" using assms(3) by (simp add: rng_def)
  ultimately show "(ed_start (blk L i k), Suc (ed_end (blk L i k)) - ed_start (blk L i k)) \<in>
      set (eraser_blocks (el_eraser (l ! i)))"
    unfolding e by (metis (no_types, lifting) image_eqI set_map)
qed

end

section \<open>The erase loop\<close>

definition erase_img :: "u8 \<Rightarrow> (nat \<Rightarrow> bool) \<Rightarrow> bytes \<Rightarrow> bytes" where
  "erase_img v P img = map (\<lambda>x. if P x then v else img ! x) [0..<length img]"

lemma length_erase_img [simp]: "length (erase_img v P img) = length img"
  by (simp add: erase_img_def)

lemma nth_erase_img [buf_simps]: "x < length img \<Longrightarrow> erase_img v P img ! x = (if P x then v else img ! x)"
  by (simp add: erase_img_def)

text \<open>Byte \<open>x\<close> is in a selected block of the list.\<close>

definition in_picked :: "erase_layout \<Rightarrow> erase_layout \<Rightarrow> (nat \<times> nat) list \<Rightarrow> nat \<Rightarrow> bool" where
  "in_picked L l is x \<longleftrightarrow>
     (\<exists>i j. (i, j) \<in> set is \<and> sel l i j \<and> ed_start (blk L i j) \<le> x \<and> x \<le> ed_end (blk L i j))"

lemma in_picked_Cons:
  "in_picked L l ((i, j) # is) x \<longleftrightarrow>
     sel l i j \<and> ed_start (blk L i j) \<le> x \<and> x \<le> ed_end (blk L i j) \<or> in_picked L l is x"
  by (auto simp: in_picked_def)

lemma erase_img_memset:
  assumes "s \<le> e" and "\<And>x. P x \<longleftrightarrow> s \<le> x \<and> x \<le> e \<or> Q x"
  shows "erase_img v Q (memset_at s v (Suc e - s) img) = erase_img v P img"
  by (rule nth_equalityI) (use assms in \<open>auto simp: buf_simps\<close>)

context erase_device
begin

lemma erase_selected_ok:
  assumes b: "built L"
  shows "dev_ok s \<Longrightarrow> shape l = shape L \<Longrightarrow> length cur = n \<Longrightarrow> distinct is \<Longrightarrow>
    \<forall>(i, j) \<in> set is. rng L i j \<Longrightarrow>
    \<exists>l' sk' s'. erase_selected c is (cur, l, sk, s) =
        Some (0, (erase_img (ERASED_VALUE c) (in_picked L l is) cur, l', sk', s')) \<and>
      dev_ok s' \<and> contents s' = erase_img (ERASED_VALUE c) (in_picked L l is) (contents s) \<and>
      shape l' = shape L \<and> (\<forall>i j. rng L i j \<longrightarrow> sel l' i j = (sel l i j \<and> (i, j) \<notin> set is)) \<and>
      (sk' \<longrightarrow> sk \<and> contents s' = contents s)"
proof (induction "is" arbitrary: cur l sk s)
  case Nil
  have "erase_img v (in_picked L l []) img = img" for v img
    by (rule nth_equalityI) (auto simp: buf_simps in_picked_def)
  with Nil show ?case by simp
next
  case (Cons ij "is")
  obtain i j where ij: "ij = (i, j)" by (cases ij)
  have r: "rng L i j" using Cons.prems(5) ij by simp
  note bs = blk_shape [OF Cons.prems(2) r]
  show ?case
  proof (cases "sel l i j")
    case False
    have "in_picked L l ((i, j) # is) = in_picked L l is"
      using False by (auto simp: in_picked_Cons fun_eq_iff)
    then have img: "erase_img v (in_picked L l (ij # is)) x = erase_img v (in_picked L l is) x" for v x
      by (simp add: ij)
    have run: "erase_selected c (ij # is) (cur, l, sk, s) = erase_selected c is (cur, l, sk, s)"
      using False by (simp add: ij)
    have flags: "(sel l i' j' \<and> (i', j') \<notin> set (ij # is)) = (sel l i' j' \<and> (i', j') \<notin> set is)" for i' j'
      using False by (auto simp: ij)
    show ?thesis unfolding run img flags using Cons.IH [OF Cons.prems(1-3), of sk] Cons.prems(4,5) by simp
  next
    case True
    let ?a = "ed_start (blk L i j)" and ?e = "ed_end (blk L i j)"
    have bd: "?a \<le> ?e" "?e < n" using rng_bounds [OF built_wf [OF b] r] by auto
    have bl: "add32 (sub32 ?e ?a) 1 = Suc ?e - ?a" using bd size_bound by (simp add: c_simps)
    have eu: "el_eraser (l ! i) \<in> set (usable_erasers c)"
      and eb: "(?a, Suc ?e - ?a) \<in> set (eraser_blocks (el_eraser (l ! i)))"
      using built_eraser [OF b Cons.prems(2) r] by auto
    obtain s1 where s1: "drv_erase (c_drivers c) (be_erase (el_eraser (l ! i))) ?a (Suc ?e - ?a) s = Some (0, s1)"
      "dev_ok s1" "contents s1 = memset_at ?a (ERASED_VALUE c) (Suc ?e - ?a) (contents s)"
      using erase_law [OF eu eb Cons.prems(1)] by blast
    have "\<exists>s2. check_erased_range c ?a (Suc ?e - ?a) s1 = Some (0, s2) \<and> dev_ok s2 \<and> contents s2 = contents s1"
    proof (rule check_erased_range_ok [OF s1(2)])
      show "0 < Suc ?e - ?a" "?a + (Suc ?e - ?a) \<le> n" using bd by auto
      show "c_malloc c (Suc ?e - ?a)" by (rule malloc_ok)
      show "\<forall>x. ?a \<le> x \<and> x < ?a + (Suc ?e - ?a) \<longrightarrow> \<not> fr_read_prot (get_flash_region c x)"
        using all_readable bd by auto
      show "\<forall>x. ?a \<le> x \<and> x < ?a + (Suc ?e - ?a) \<longrightarrow> contents s1 ! x = ERASED_VALUE c"
        using bd contents_length [OF Cons.prems(1)] by (auto simp: s1(3) buf_simps)
    qed
    then obtain s2 where s2: "(if fl_verify_after_write (c_flags c)
          then check_erased_range c ?a (Suc ?e - ?a) s1 else Some (0, s1)) = Some (0, s2)"
      "dev_ok s2" "contents s2 = contents s1"
      using s1(2) by (cases "fl_verify_after_write (c_flags c)") auto
    let ?cur = "memset_at ?a (ERASED_VALUE c) (Suc ?e - ?a) cur" and ?l = "set_selected i j False l"
    have fits: "\<not> length cur < ?a + (Suc ?e - ?a)" using bd Cons.prems(3) by simp
    have step: "erase_selected c ((i, j) # is) (cur, l, sk, s) = erase_selected c is (?cur, ?l, False, s2)"
      by (subst erase_selected.simps)
        (simp only: True Let_def bs bl lookup_erase [OF eu] s1(1) s2(1) fits if_True if_False
          bind.bind_lunit prod.case simp_thms)
    have rl: "rng l i j" using r rng_shape [OF Cons.prems(2)] by simp
    have ni: "(i, j) \<notin> set is" using Cons.prems(4) ij by simp
    have same: "in_picked L ?l is = in_picked L l is"
      using ni by (auto simp: in_picked_def set_selected_sel [OF rl] fun_eq_iff)
    have split: "in_picked L l ((i, j) # is) x \<longleftrightarrow> ?a \<le> x \<and> x \<le> ?e \<or> in_picked L l is x" for x
      using True by (simp add: in_picked_Cons)
    have img: "erase_img (ERASED_VALUE c) (in_picked L l is) (memset_at ?a (ERASED_VALUE c) (Suc ?e - ?a) x) =
        erase_img (ERASED_VALUE c) (in_picked L l ((i, j) # is)) x" for x
      by (rule erase_img_memset [OF bd(1) split])
    have c2: "contents s2 = memset_at ?a (ERASED_VALUE c) (Suc ?e - ?a) (contents s)"
      using s2(3) s1(3) by simp
    from Cons.IH [of s2 ?l ?cur False] Cons.prems s2(2) obtain l' sk' s' where
      rest: "erase_selected c is (?cur, ?l, False, s2) =
        Some (0, (erase_img (ERASED_VALUE c) (in_picked L l ((i, j) # is)) cur, l', sk', s'))"
      "dev_ok s'" "contents s' = erase_img (ERASED_VALUE c) (in_picked L l ((i, j) # is)) (contents s)"
      "shape l' = shape L" "\<forall>i j. rng L i j \<longrightarrow> sel l' i j = (sel ?l i j \<and> (i, j) \<notin> set is)" "\<not> sk'"
      unfolding same c2 img by auto
    then show ?thesis unfolding ij step by (auto simp: set_selected_sel [OF rl])
  qed
qed

text \<open>The smallest blocks are made of whole chunks.\<close>

lemma ranges_dvd:
  "(g :: nat) dvd a \<Longrightarrow> \<forall>sz \<in> set szs. g dvd sz \<Longrightarrow> (st, len) \<in> set (ranges_from a szs) \<Longrightarrow> g dvd st \<and> g dvd len"
proof (induction szs arbitrary: a)
  case (Cons sz szs)
  then show ?case using Cons.IH [of "a + sz"] by auto
qed simp

lemma dvd_sum_list': "(\<And>x. x \<in> set xs \<Longrightarrow> (g :: nat) dvd x) \<Longrightarrow> g dvd sum_list xs"
  by (induction xs) auto

lemma leaf_dvd:
  assumes "built L" and "rng L 0 k"
  shows "gran_stride (ch_gran (c_chip c)) dvd ed_start (blk L 0 k)"
    and "gran_stride (ch_gran (c_chip c)) dvd Suc (ed_end (blk L 0 k)) - ed_start (blk L 0 k)"
proof -
  have "el_eraser (L ! 0) = usable_erasers c ! 0"
    using assms built_nonempty [OF assms(1)] by (auto simp: built_def layout_of_def simp flip: nth_map)
  with built_eraser(2) [OF assms(1) refl assms(2)]
  have "(ed_start (blk L 0 k), Suc (ed_end (blk L 0 k)) - ed_start (blk L 0 k)) \<in>
      set (ranges_from 0 (eraser_sizes (usable_erasers c ! 0)))"
    by (simp add: eraser_blocks_def)
  with block_chunks show "gran_stride (ch_gran (c_chip c)) dvd ed_start (blk L 0 k)"
    and "gran_stride (ch_gran (c_chip c)) dvd Suc (ed_end (blk L 0 k)) - ed_start (blk L 0 k)"
    using ranges_dvd [of _ 0] by blast+
qed

lemma size_chunks: "gran_stride (ch_gran (c_chip c)) dvd n"
proof -
  have "sum_list (eraser_sizes (usable_erasers c ! 0)) = n"
    using geometry erasers by (simp add: geometry_ok_def eraser_ok_def)
  moreover have "gran_stride (ch_gran (c_chip c)) dvd sum_list (eraser_sizes (usable_erasers c ! 0))"
    using block_chunks by (intro dvd_sum_list') blast
  ultimately show ?thesis by simp
qed

text \<open>After the selected blocks are erased, every byte of the region can be programmed.\<close>

lemma erased_prog_at:
  assumes "\<And>k. k div gran_stride (ch_gran (c_chip c)) = i div gran_stride (ch_gran (c_chip c)) \<Longrightarrow>
    img ! k = ERASED_VALUE c"
  shows "prog_at (ch_gran (c_chip c)) (ERASED_VALUE c) img new i"
proof (cases "ch_gran (c_chip c) = WRITE_GRAN_1BIT")
  case True
  then have "img ! i = 0xff" using assms [of i] bit_erased by simp
  moreover have "(0xff :: u8) = - 1" by simp
  ultimately show ?thesis using True by (simp add: prog_at_def)
next
  case False
  have "chunk_all img (gran_stride (ch_gran (c_chip c))) (i div gran_stride (ch_gran (c_chip c))) (ERASED_VALUE c)"
    unfolding chunk_all_def chunk_mem [OF gran_stride_pos] using assms by blast
  with False show ?thesis by (cases "ch_gran (c_chip c)") (auto simp: prog_at_def)
qed

lemma not_needs_prog_at:
  assumes b: "built L" and k: "rng L 0 k" and len: "length cur = n" "length new = n"
    and nn: "\<not> needs c cur new L k" and x: "ed_start (blk L 0 k) \<le> x" "x \<le> ed_end (blk L 0 k)"
  shows "prog_at (ch_gran (c_chip c)) (ERASED_VALUE c) cur new x"
proof -
  let ?s = "ed_start (blk L 0 k)" and ?e = "ed_end (blk L 0 k)"
  have bd: "?s \<le> ?e" "?e < n" using rng_bounds [OF built_wf [OF b] k] by auto
  have len': "add32 (sub32 ?e ?s) 1 = Suc ?e - ?s" using bd size_bound by (simp add: c_simps)
  have "programmable (ch_gran (c_chip c)) (ERASED_VALUE c) (drop ?s cur) (drop ?s new) (Suc ?e - ?s)"
    using nn bd size_bound len
    by (subst need_erase_programmable [symmetric]) (auto simp: needs_def len' [unfolded One_nat_def])
  then show ?thesis by (rule programmable_prog_at) (use leaf_dvd [OF b k] bd x len in auto)
qed

lemma plan_prog_at:
  assumes b: "built L" and len: "length cur = n" "length new = n"
    and plan: "\<forall>k. rng L 0 k \<and> within L 0 k rs re \<and> needs c cur new L k \<longrightarrow>
      (\<exists>i m. picked L l i m \<and> within L 0 k (ed_start (blk L i m)) (ed_end (blk L i m)))"
    and k: "rng L 0 k" "within L 0 k rs re" and x: "ed_start (blk L 0 k) \<le> x" "x \<le> ed_end (blk L 0 k)"
    and idx: "\<And>i j. rng L i j \<longleftrightarrow> (i, j) \<in> set is"
  shows "prog_at (ch_gran (c_chip c)) (ERASED_VALUE c)
    (erase_img (ERASED_VALUE c) (in_picked L l is) cur) new x"
proof -
  let ?g = "gran_stride (ch_gran (c_chip c))" and ?P = "in_picked L l is"
  let ?s = "ed_start (blk L 0 k)" and ?e = "ed_end (blk L 0 k)"
  note wf = built_wf [OF b]
  have bd: "?s \<le> ?e" "?e < n" using rng_bounds [OF wf k(1)] by auto
  note dv = leaf_dvd [OF b k(1)]
  have inleaf: "?s \<le> y \<and> y \<le> ?e" if "y div ?g = x div ?g" for y
    using chunk_in_range [OF dv gran_stride_pos x(1) _ that] x(2) bd by auto
  show ?thesis
  proof (cases "\<exists>i m. picked L l i m \<and> within L 0 k (ed_start (blk L i m)) (ed_end (blk L i m))")
    case True
    then obtain i m where im: "picked L l i m" "within L 0 k (ed_start (blk L i m)) (ed_end (blk L i m))" by blast
    have "?P y" if "?s \<le> y" "y \<le> ?e" for y
      using im idx that by (force simp: in_picked_def picked_def within_def)
    then have "erase_img (ERASED_VALUE c) ?P cur ! y = ERASED_VALUE c" if "?s \<le> y" "y \<le> ?e" for y
      using that bd len(1) by (simp add: buf_simps)
    then show ?thesis using inleaf by (intro erased_prog_at) blast
  next
    case False
    then have nn: "\<not> needs c cur new L k" using plan k by blast
    have nP: "\<not> ?P y" if y: "?s \<le> y" "y \<le> ?e" for y
    proof
      assume "?P y"
      then obtain i j where ij: "rng L i j" "sel l i j" "ed_start (blk L i j) \<le> y" "y \<le> ed_end (blk L i j)"
        using idx by (auto simp: in_picked_def)
      have "within L 0 k (ed_start (blk L i j)) (ed_end (blk L i j))"
        using leaf_start_last [OF wf k(1) y(2) ij(1,3)] leaf_end_first [OF wf k(1) y(1) ij(1,4)]
        by (simp add: within_def)
      with False ij show False by (auto simp: picked_def)
    qed
    have "prog_at (ch_gran (c_chip c)) (ERASED_VALUE c) cur new x"
      using b k(1) len nn x by (rule not_needs_prog_at)
    moreover have "erase_img (ERASED_VALUE c) ?P cur ! y = cur ! y" if "?s \<le> y" "y \<le> ?e" for y
      using that nP bd len(1) by (simp add: buf_simps)
    then have "prog_at (ch_gran (c_chip c)) (ERASED_VALUE c) (erase_img (ERASED_VALUE c) ?P cur) new x =
        prog_at (ch_gran (c_chip c)) (ERASED_VALUE c) cur new x"
      using inleaf by (intro prog_at_cong) blast
    ultimately show ?thesis by simp
  qed
qed

section \<open>The write loop\<close>

text \<open>\<open>synced\<close>: the buffer \<^verbatim>\<open>curcontents\<close> agrees with the chip on \<open>[a, b]\<close>.\<close>

definition synced :: "bytes \<Rightarrow> 's \<Rightarrow> nat \<Rightarrow> nat \<Rightarrow> bool" where
  "synced cur s a b \<longleftrightarrow> (\<forall>i. a \<le> i \<and> i \<le> b \<longrightarrow> cur ! i = contents s ! i)"

text \<open>The part of the image outside \<open>[a, b]\<close> is the same.\<close>

definition same_outside :: "nat \<Rightarrow> nat \<Rightarrow> bytes \<Rightarrow> bytes \<Rightarrow> bool" where
  "same_outside a b img img' \<longleftrightarrow> length img' = length img \<and>
     (\<forall>i < length img. \<not> (a \<le> i \<and> i \<le> b) \<longrightarrow> img' ! i = img ! i)"

lemma same_outside_trans:
  "same_outside a b x y \<Longrightarrow> same_outside a b y z \<Longrightarrow> same_outside a b x z"
  by (auto simp: same_outside_def)

lemma same_outsideD: "same_outside a b x y \<Longrightarrow> i < length x \<Longrightarrow> \<not> (a \<le> i \<and> i \<le> b) \<Longrightarrow> y ! i = x ! i"
  by (simp add: same_outside_def)

lemma same_outside_refl [simp]: "same_outside a b x x"
  by (simp add: same_outside_def)

text \<open>Programming one area: the chip and the buffer take the new bytes.\<close>

lemma write_area_ok:
  assumes ok: "dev_ok s" and len: "length cur = n" "length new = n" and rg: "rs \<le> st" "st + m \<le> Suc re" "re < n"
    and g: "gran_stride (ch_gran (c_chip c)) dvd st" "gran_stride (ch_gran (c_chip c)) dvd m"
    and sy: "synced cur s rs re" and nwp: "\<forall>i. rs \<le> i \<and> i \<le> re \<longrightarrow> \<not> write_protected c i"
    and pr: "\<forall>i. rs \<le> i \<and> i \<le> re \<longrightarrow> prog_at (ch_gran (c_chip c)) (ERASED_VALUE c) cur new i"
  shows "\<exists>s'. write_flash c new st st m s = Some (0, s') \<and> dev_ok s' \<and>
    contents s' = blit st (bslice st m new) (contents s)"
proof -
  have lc: "length (contents s) = n" using ok by (rule contents_length)
  have w: "written c new st st m st (contents s) = blit st (bslice st m new) (contents s)"
    by (rule nth_equalityI) (use nwp rg lc len in \<open>auto simp: buf_simps\<close>)
  have "prog_at (ch_gran (c_chip c)) (ERASED_VALUE c) (contents s) (written c new st st m st (contents s)) i"
    if i: "st \<le> i" "i < st + m" for i
  proof -
    have "contents s ! k = cur ! k \<and> written c new st st m st (contents s) ! k = new ! k"
      if "k div gran_stride (ch_gran (c_chip c)) = i div gran_stride (ch_gran (c_chip c))" for k
    proof -
      have k: "st \<le> k" "k < st + m" using chunk_in_range [OF g gran_stride_pos i that] by auto
      then show ?thesis using sy nwp rg lc by (auto simp: synced_def buf_simps)
    qed
    then have "prog_at (ch_gran (c_chip c)) (ERASED_VALUE c) (contents s) (written c new st st m st (contents s)) i =
        prog_at (ch_gran (c_chip c)) (ERASED_VALUE c) cur new i" by (rule prog_at_cong)
    with pr i rg show ?thesis by auto
  qed
  with write_flash_ok [of s st m st new] ok rg len nwp g show ?thesis unfolding w by (auto simp: writable_def)
qed

lemma prog_at_after:
  assumes "prog_at gran ev cur new i" and "gran_stride gran dvd st" and "gran_stride gran dvd m"
    and "st + m \<le> length cur" and "length cur = length new"
    and "gran_stride gran dvd length cur" and "i < length cur"
  shows "prog_at gran ev (blit st (bslice st m new) cur) new i"
proof (cases "st \<le> i \<and> i < st + m")
  case True
  have "blit st (bslice st m new) cur ! k = new ! k" if "k div gran_stride gran = i div gran_stride gran" for k
    using chunk_in_range [OF assms(2,3) gran_stride_pos _ _ that] True assms by (auto simp: buf_simps)
  then have "prog_at gran ev (blit st (bslice st m new) cur) new i = prog_at gran ev new new i"
    by (intro prog_at_cong) auto
  moreover have "prog_at gran ev new new i" by (cases gran) (auto simp: prog_at_def chunk_eq_def)
  ultimately show ?thesis by simp
next
  case False
  have "blit st (bslice st m new) cur ! k = cur ! k" if "k div gran_stride gran = i div gran_stride gran" for k
  proof -
    have "k < length cur"
      using chunk_in_range [of "gran_stride gran" 0 "length cur" i k] assms(6,7) that by simp
    moreover have "\<not> (st \<le> k \<and> k < st + m)"
      using chunk_in_range [OF assms(2,3) gran_stride_pos _ _ that [symmetric]] False by blast
    ultimately show ?thesis using assms by (auto simp: buf_simps)
  qed
  then have "prog_at gran ev (blit st (bslice st m new) cur) new i = prog_at gran ev cur new i"
    by (intro prog_at_cong) auto
  with assms(1) show ?thesis by simp
qed

lemma write_areas_ok:
  assumes g: "gran_stride (ch_gran (c_chip c)) dvd rs" "gran_stride (ch_gran (c_chip c)) dvd el"
    and rg: "0 < el" "rs + el \<le> n"
    and nwp: "\<forall>i. rs \<le> i \<and> i \<le> rs + el - 1 \<longrightarrow> \<not> write_protected c i" and ln: "length new = n"
  shows "dev_ok s \<Longrightarrow> length cur = n \<Longrightarrow> synced cur s rs (rs + el - 1) \<Longrightarrow> sh \<le> el \<Longrightarrow>
    gran_stride (ch_gran (c_chip c)) dvd sh \<Longrightarrow> \<forall>i. rs \<le> i \<and> i < rs + sh \<longrightarrow> cur ! i = new ! i \<Longrightarrow>
    \<forall>i. rs \<le> i \<and> i \<le> rs + el - 1 \<longrightarrow> prog_at (ch_gran (c_chip c)) (ERASED_VALUE c) cur new i \<Longrightarrow>
    \<exists>cur' sk' s'. write_areas c rs el cur new sh sk s = Some (0, cur', sk', s') \<and> dev_ok s' \<and>
      (\<forall>i. rs \<le> i \<and> i \<le> rs + el - 1 \<longrightarrow> cur' ! i = new ! i \<and> contents s' ! i = new ! i) \<and>
      same_outside rs (rs + el - 1) cur cur' \<and> same_outside rs (rs + el - 1) (contents s) (contents s') \<and>
      (sk' \<longrightarrow> sk \<and> contents s' = contents s)"
proof (induction "card {i. rs \<le> i \<and> i \<le> rs + el - 1 \<and> cur ! i \<noteq> new ! i}" arbitrary: cur sh sk s rule: less_induct)
  case less
  let ?g = "gran_stride (ch_gran (c_chip c))"
  have subs: "sub32 el sh = el - sh" using less.prems(4) rg size_bound by (simp add: c_simps)
  have fits: "\<not> (length cur < rs + sh + sub32 el sh \<or> length new < rs + sh + sub32 el sh)"
    using less.prems rg ln by (simp add: subs)
  have dsh: "?g dvd el - sh" "?g dvd rs + sh" using g less.prems(5) by (auto intro: dvd_diff_nat)
  obtain m sh' where nw: "get_next_write (drop (rs + sh) cur) (drop (rs + sh) new) (el - sh) sh (ch_gran (c_chip c)) = (m, sh')"
    by fastforce
  have lens: "el - sh \<le> length (drop (rs + sh) cur)" "el - sh \<le> length (drop (rs + sh) new)"
    "el - sh < 2147483648" "sh + (el - sh) < 4294967296"
    using less.prems rg ln size_bound by auto
  have ch: "chunk_eq (drop (rs + sh) cur) (drop (rs + sh) new) ?g k \<longleftrightarrow>
      (\<forall>i. rs + sh + k * ?g \<le> i \<and> i < rs + sh + Suc k * ?g \<longrightarrow> cur ! i = new ! i)" for k
    using less.prems rg ln by (intro chunk_drop(1)) auto
  have eqs: "cur ! i = new ! i"
    if "\<forall>k < b. chunk_eq (drop (rs + sh) cur) (drop (rs + sh) new) ?g k" "rs + sh \<le> i" "i < rs + sh + b * ?g" for b i
  proof -
    let ?k = "(i - (rs + sh)) div ?g"
    have "?k < b" using that(2,3) by (simp add: less_mult_imp_div_less less_diff_conv2)
    with that(1) have "chunk_eq (drop (rs + sh) cur) (drop (rs + sh) new) ?g ?k" by blast
    moreover have "?k * ?g \<le> i - (rs + sh) \<and> i - (rs + sh) < Suc ?k * ?g"
      using chunk_mem [OF gran_stride_pos] by blast
    then have "rs + sh + ?k * ?g \<le> i \<and> i < rs + sh + Suc ?k * ?g" using that(2) by linarith
    ultimately show ?thesis unfolding ch by blast
  qed
  from get_next_write_cases [OF lens nw] show ?case
  proof (elim disjE exE conjE)
    assume m: "m = 0" and sh': "sh' = sh"
      and eq: "\<forall>k < (el - sh) div ?g. chunk_eq (drop (rs + sh) cur) (drop (rs + sh) new) ?g k"
    have run: "write_areas c rs el cur new sh sk s = Some (0, cur, sk, s)"
      using m nw fits by (subst write_areas.simps) (simp add: subs)
    have "(el - sh) div ?g * ?g = el - sh" using dsh by simp
    then have "cur ! i = new ! i" if "rs \<le> i" "i \<le> rs + el - 1" for i
      using eqs [OF eq, of i] less.prems(4,6) that rg by (cases "i < rs + sh") auto
    then show ?thesis using run less.prems by (auto simp: synced_def)
  next
    fix a b assume wa: "write_area (drop (rs + sh) cur) (drop (rs + sh) new) ?g ((el - sh) div ?g) a b"
      and m: "m = (b - a) * ?g" and sh': "sh' = sh + a * ?g"
    have ab: "a < b" "b \<le> (el - sh) div ?g" "\<forall>k < a. chunk_eq (drop (rs + sh) cur) (drop (rs + sh) new) ?g k"
      "\<not> chunk_eq (drop (rs + sh) cur) (drop (rs + sh) new) ?g a"
      using wa by (auto simp: write_area_def)
    have bg: "b * ?g \<le> el - sh" using ab(2) by (metis div_times_less_eq_dividend le_trans mult_le_mono1)
    have m0: "m \<noteq> 0" and shm: "sh' + m \<le> el"
      using ab(1) bg less.prems(4) mult_le_mono1 [of a b ?g] by (auto simp: m sh' diff_mult_distrib)
    let ?st = "rs + sh'"
    have dst: "?g dvd ?st" "?g dvd m" using dsh by (auto simp: sh' m add.assoc [symmetric])
    have st32: "add32 rs sh' = ?st" using shm rg size_bound by (simp add: c_simps)
    have "rs + el - 1 < n" "?st + m \<le> Suc (rs + el - 1)" using rg shm by linarith+
    then obtain s1 where s1: "write_flash c new ?st ?st m s = Some (0, s1)" "dev_ok s1"
      "contents s1 = blit ?st (bslice ?st m new) (contents s)"
      using write_area_ok [OF less.prems(1,2) ln, of rs ?st m "rs + el - 1"] shm rg dst less.prems(3,7) nwp by auto
    let ?cur = "blit ?st (bslice ?st m new) cur"
    have run: "write_areas c rs el cur new sh sk s = write_areas c rs el ?cur new sh' False s1"
      using m0 nw fits s1(1) by (subst write_areas.simps) (simp add: subs st32)
    have lc: "length (contents s) = n" using less.prems(1) by (rule contents_length)
    have cur': "?cur ! i = (if ?st \<le> i \<and> i < ?st + m then new ! i else cur ! i)"
      and con': "contents s1 ! i = (if ?st \<le> i \<and> i < ?st + m then new ! i else contents s ! i)" if "i < n" for i
      using that shm rg ln less.prems(2) lc s1(3) by (auto simp: buf_simps)
    have sy: "synced ?cur s1 rs (rs + el - 1)"
      using less.prems(3) rg cur' con' by (auto simp: synced_def)
    have eqb: "?cur ! i = new ! i" if "rs \<le> i" "i < rs + sh'" for i
      using that cur' [of i] less.prems(6) eqs [OF ab(3), of i] shm rg by (cases "i < rs + sh") (auto simp: sh')
    have pr: "\<forall>i. rs \<le> i \<and> i \<le> rs + el - 1 \<longrightarrow> prog_at (ch_gran (c_chip c)) (ERASED_VALUE c) ?cur new i"
      using less.prems(2,7) dst shm rg ln size_chunks by (intro allI impI prog_at_after) auto
    obtain x where x: "?st \<le> x" "x < ?st + ?g" "cur ! x \<noteq> new ! x"
      using ab(4) unfolding ch by (auto simp: sh' add.assoc)
    have gm: "?g \<le> m" using ab(1) by (simp add: m)
    have "card {i. rs \<le> i \<and> i \<le> rs + el - 1 \<and> ?cur ! i \<noteq> new ! i} <
        card {i. rs \<le> i \<and> i \<le> rs + el - 1 \<and> cur ! i \<noteq> new ! i}"
    proof (rule psubset_card_mono)
      show "finite {i. rs \<le> i \<and> i \<le> rs + el - 1 \<and> cur ! i \<noteq> new ! i}" by simp
      have "{i. rs \<le> i \<and> i \<le> rs + el - 1 \<and> ?cur ! i \<noteq> new ! i} \<subseteq>
          {i. rs \<le> i \<and> i \<le> rs + el - 1 \<and> cur ! i \<noteq> new ! i}"
        using cur' rg by (auto split: if_splits)
      moreover have "x \<in> {i. rs \<le> i \<and> i \<le> rs + el - 1 \<and> cur ! i \<noteq> new ! i}"
        "x \<notin> {i. rs \<le> i \<and> i \<le> rs + el - 1 \<and> ?cur ! i \<noteq> new ! i}"
        using x gm shm rg cur' [of x] by auto
      ultimately show "{i. rs \<le> i \<and> i \<le> rs + el - 1 \<and> ?cur ! i \<noteq> new ! i} \<subset>
          {i. rs \<le> i \<and> i \<le> rs + el - 1 \<and> cur ! i \<noteq> new ! i}" by blast
    qed
    from less.hyps [OF this s1(2) _ sy _ _ _ pr, of sh' False] less.prems(2,5) shm eqb
    obtain cur2 sk2 s2 where r2: "write_areas c rs el ?cur new sh' False s1 = Some (0, cur2, sk2, s2)" "dev_ok s2"
      "\<forall>i. rs \<le> i \<and> i \<le> rs + el - 1 \<longrightarrow> cur2 ! i = new ! i \<and> contents s2 ! i = new ! i"
      "same_outside rs (rs + el - 1) ?cur cur2" "same_outside rs (rs + el - 1) (contents s1) (contents s2)" "\<not> sk2"
      by (auto simp: sh')
    have "same_outside rs (rs + el - 1) cur ?cur" "same_outside rs (rs + el - 1) (contents s) (contents s1)"
      using shm rg s1(3) less.prems(2) lc by (auto simp: same_outside_def buf_simps)
    then show ?thesis unfolding run using r2 by (auto intro: same_outside_trans)
  qed
qed

section \<open>The helper\<close>

lemma layer_indices_set: "shape l = shape L \<Longrightarrow> (i, j) \<in> set (layer_indices l (length L)) \<longleftrightarrow> rng L i j"
  using shape_block(1) [of l L i] shape_length [of l L] by (force simp: layer_indices_def rng_def)

lemma distinct_layer_indices: "distinct (layer_indices l m)"
  unfolding layer_indices_def
  by (induction m) (auto simp: distinct_map inj_on_def)

definition leaf_aligned :: "erase_layout \<Rightarrow> nat \<Rightarrow> nat \<Rightarrow> bool" where
  "leaf_aligned L a b \<longleftrightarrow> a \<le> b \<and> (\<exists>k. rng L 0 k \<and> ed_start (blk L 0 k) = a) \<and>
     (\<exists>k. rng L 0 k \<and> ed_end (blk L 0 k) = b)"

lemma leaf_aligned_leaf:
  assumes wf: "wf_layout n L" and al: "leaf_aligned L a b" and x: "a \<le> x" "x \<le> b"
  obtains k where "rng L 0 k" and "within L 0 k a b" and "ed_start (blk L 0 k) \<le> x" and "x \<le> ed_end (blk L 0 k)"
proof -
  obtain p q where p: "rng L 0 p" "ed_start (blk L 0 p) = a" and q: "rng L 0 q" "ed_end (blk L 0 q) = b"
    using al by (auto simp: leaf_aligned_def)
  have "x < n" using rng_bounds(2) [OF wf q(1)] q(2) x(2) by simp
  moreover have "L \<noteq> []" using p(1) by (auto simp: rng_def)
  ultimately obtain k where k: "rng L 0 k" "ed_start (blk L 0 k) \<le> x" "x \<le> ed_end (blk L 0 k)"
    using wf_leaf [OF wf] by blast
  have "within L 0 k a b"
    using leaf_start_last [OF wf k(1,3) p(1)] leaf_end_first [OF wf k(1,2) q(1)] p(2) q(2) x
    by (simp add: within_def)
  with k that show ?thesis by blast
qed

lemma leaf_aligned_bounds:
  assumes "built L" and "leaf_aligned L a b"
  shows "b < n" and "gran_stride (ch_gran (c_chip c)) dvd a" and "gran_stride (ch_gran (c_chip c)) dvd Suc b - a"
proof -
  obtain p q where p: "rng L 0 p" "ed_start (blk L 0 p) = a" and q: "rng L 0 q" "ed_end (blk L 0 q) = b"
    and ab: "a \<le> b"
    using assms(2) by (auto simp: leaf_aligned_def)
  show "b < n" using rng_bounds(2) [OF built_wf [OF assms(1)] q(1)] q(2) by simp
  show a: "gran_stride (ch_gran (c_chip c)) dvd a" using leaf_dvd(1) [OF assms(1) p(1)] p(2) by simp
  have le: "ed_start (blk L 0 q) \<le> Suc b" using rng_bounds(1) [OF built_wf [OF assms(1)] q(1)] q(2) by simp
  have "gran_stride (ch_gran (c_chip c)) dvd (Suc b - ed_start (blk L 0 q)) + ed_start (blk L 0 q)"
    using leaf_dvd [OF assms(1) q(1)] q(2) by (intro dvd_add) auto
  with le have "gran_stride (ch_gran (c_chip c)) dvd Suc b" by simp
  then show "gran_stride (ch_gran (c_chip c)) dvd Suc b - a" using a by (rule dvd_diff_nat)
qed

text \<open>What the buffer \<^verbatim>\<open>curcontents\<close> has to be: it agrees with the chip on every smallest block that does
  not look as if it needed an erase. A block that does is erased, and then they agree again.\<close>

definition good_cur :: "erase_layout \<Rightarrow> bytes \<Rightarrow> bytes \<Rightarrow> 's \<Rightarrow> nat \<Rightarrow> nat \<Rightarrow> bool" where
  "good_cur L cur new s a b \<longleftrightarrow>
     (\<forall>k. rng L 0 k \<and> within L 0 k a b \<and> \<not> needs c cur new L k \<longrightarrow>
        synced cur s (ed_start (blk L 0 k)) (ed_end (blk L 0 k)))"

lemma needs_cong:
  assumes b: "built L" and k: "rng L 0 k" and len: "length cur = n" "length cur' = n" "length new = n"
    and eq: "\<And>i. ed_start (blk L 0 k) \<le> i \<Longrightarrow> i \<le> ed_end (blk L 0 k) \<Longrightarrow> cur' ! i = cur ! i"
  shows "needs c cur' new L k = needs c cur new L k"
proof -
  let ?s = "ed_start (blk L 0 k)" and ?e = "ed_end (blk L 0 k)" and ?gr = "ch_gran (c_chip c)"
  let ?g = "gran_stride ?gr"
  have bd: "?s \<le> ?e" "?e < n" using rng_bounds [OF built_wf [OF b] k] by auto
  have len': "add32 (sub32 ?e ?s) 1 = Suc ?e - ?s" using bd size_bound by (simp add: c_simps)
  have nth: "drop ?s cur' ! i = drop ?s cur ! i" if "i < Suc ?e - ?s" for i
    using that eq [of "?s + i"] bd len by simp
  have mem: "i < Suc ?e - ?s" if j: "j < (Suc ?e - ?s) div ?g" "j * ?g \<le> i \<and> i < Suc j * ?g" for i j
  proof -
    have "Suc j * ?g \<le> (Suc ?e - ?s) div ?g * ?g" using j(1) by (intro mult_le_mono1 Suc_leI)
    also have "\<dots> \<le> Suc ?e - ?s" by simp
    finally show ?thesis using j(2) by linarith
  qed
  have "chunk_eq (drop ?s cur') (drop ?s new) ?g j = chunk_eq (drop ?s cur) (drop ?s new) ?g j"
    "chunk_all (drop ?s cur') ?g j (ERASED_VALUE c) = chunk_all (drop ?s cur) ?g j (ERASED_VALUE c)"
    if "j < (Suc ?e - ?s) div ?g" for j
    unfolding chunk_eq_def chunk_all_def using nth mem [OF that] by auto
  then have "programmable ?gr (ERASED_VALUE c) (drop ?s cur') (drop ?s new) (Suc ?e - ?s) =
      programmable ?gr (ERASED_VALUE c) (drop ?s cur) (drop ?s new) (Suc ?e - ?s)"
    using nth by (cases ?gr) (simp_all add: programmable_def)
  then show ?thesis
    using bd size_bound len
    by (simp add: needs_def len' [unfolded One_nat_def] need_erase_programmable)
qed

lemma helper_ok:
  assumes b: "built L" and cl: "clean L l" and ok: "dev_ok s" and len: "length cur = n" "length new = n"
    and al: "leaf_aligned L rs re" and sy: "good_cur L cur new s rs re"
    and nwp: "\<forall>i. rs \<le> i \<and> i \<le> re \<longrightarrow> \<not> write_protected c i"
  shows "\<exists>cur' l' sk' s'. erase_write_helper c rs re new (cur, l, sk, s) = Some (0, (cur', l', sk', s')) \<and>
    dev_ok s' \<and> clean L l' \<and>
    (\<forall>i. rs \<le> i \<and> i \<le> re \<longrightarrow> cur' ! i = new ! i \<and> contents s' ! i = new ! i) \<and>
    same_outside rs re cur cur' \<and> same_outside rs re (contents s) (contents s') \<and>
    (sk' \<longrightarrow> sk \<and> contents s' = contents s)"
proof -
  note wf = built_wf [OF b] and bd = leaf_aligned_bounds [OF b al]
  have lenL: "length L = count_usable_erasers c" using b by (rule built_length)
  have sh: "shape l = shape L" using cl by (simp add: clean_def)
  let ?lev = "length L - 1"
  from select_top_ok [OF wf built_nonempty [OF b] size_pos cl, of c cur new rs re] obtain l1 where
    l1: "select_top c ?lev cur new rs re [0..<length (el_blocks (l ! ?lev))] l = Some l1" "shape l1 = shape L"
    "\<forall>i k. picked L l1 i k \<longrightarrow> within L i k rs re"
    "\<forall>k. rng L 0 k \<and> within L 0 k rs re \<and> needs c cur new L k \<longrightarrow>
       (\<exists>i m. picked L l1 i m \<and> within L 0 k (ed_start (blk L i m)) (ed_end (blk L i m)))"
    by blast
  let ?is = "layer_indices l1 (length L)"
  have idx: "rng L i j \<longleftrightarrow> (i, j) \<in> set ?is" for i j using layer_indices_set [OF l1(2)] by simp
  let ?P = "in_picked L l1 ?is" and ?ev = "ERASED_VALUE c"
  from erase_selected_ok [OF b ok l1(2) len(1) distinct_layer_indices, of l1 "length L" sk] idx
  obtain l2 sk2 s2 where e: "erase_selected c ?is (cur, l1, sk, s) = Some (0, (erase_img ?ev ?P cur, l2, sk2, s2))"
    "dev_ok s2" "contents s2 = erase_img ?ev ?P (contents s)" "shape l2 = shape L"
    "\<forall>i j. rng L i j \<longrightarrow> sel l2 i j = (sel l1 i j \<and> (i, j) \<notin> set ?is)" "sk2 \<longrightarrow> sk \<and> contents s2 = contents s"
    by auto
  have cl2: "clean L l2" using e(4,5) idx by (auto simp: clean_def)
  have inP: "rs \<le> x \<and> x \<le> re" if "?P x" for x
    using that l1(3) idx by (fastforce simp: in_picked_def picked_def within_def)
  have lc: "length (contents s) = n" using ok by (rule contents_length)
  have so: "same_outside rs re cur (erase_img ?ev ?P cur)" "same_outside rs re (contents s) (contents s2)"
    using inP by (auto simp: same_outside_def buf_simps e(3))
  let ?el = "Suc re - rs"
  have el: "add32 (sub32 re rs) 1 = ?el" "rs + ?el - 1 = re" "0 < ?el" "rs + ?el \<le> n"
    using al bd(1) size_bound by (auto simp: leaf_aligned_def c_simps)
  have sy2: "synced (erase_img ?ev ?P cur) s2 rs re"
    unfolding synced_def
  proof (intro allI impI)
    fix x assume x: "rs \<le> x \<and> x \<le> re"
    with leaf_aligned_leaf [OF wf al] obtain k where
      k: "rng L 0 k" "within L 0 k rs re" "ed_start (blk L 0 k) \<le> x" "x \<le> ed_end (blk L 0 k)" by blast
    have "cur ! x = contents s ! x" if "\<not> ?P x"
    proof -
      have "\<not> needs c cur new L k"
      proof
        assume "needs c cur new L k"
        with l1(4) k(1,2) obtain i m where "picked L l1 i m" "within L 0 k (ed_start (blk L i m)) (ed_end (blk L i m))"
          by blast
        with k(3,4) idx have "?P x" by (force simp: in_picked_def picked_def within_def)
        with that show False by simp
      qed
      with sy k show ?thesis by (auto simp: good_cur_def synced_def)
    qed
    with x bd(1) len(1) lc show "erase_img ?ev ?P cur ! x = contents s2 ! x" by (auto simp: e(3) buf_simps)
  qed
  have pr: "prog_at (ch_gran (c_chip c)) ?ev (erase_img ?ev ?P cur) new x" if "rs \<le> x \<and> x \<le> re" for x
  proof -
    from leaf_aligned_leaf [OF wf al] that obtain k where
      "rng L 0 k" "within L 0 k rs re" "ed_start (blk L 0 k) \<le> x" "x \<le> ed_end (blk L 0 k)" by blast
    then show ?thesis using plan_prog_at [OF b len l1(4) _ _ _ _ idx] by blast
  qed
  have z: "\<forall>i. rs \<le> i \<and> i < rs + 0 \<longrightarrow> erase_img ?ev ?P cur ! i = new ! i" by auto
  from write_areas_ok [OF bd(2,3) el(3,4) _ len(2), of s2 "erase_img ?ev ?P cur" 0 sk2, unfolded el(2),
      OF nwp e(2) _ sy2 _ _ z] len(1) pr
  obtain cur3 sk3 s3 where w: "write_areas c rs ?el (erase_img ?ev ?P cur) new 0 sk2 s2 = Some (0, cur3, sk3, s3)"
    "dev_ok s3" "\<forall>i. rs \<le> i \<and> i \<le> re \<longrightarrow> cur3 ! i = new ! i \<and> contents s3 ! i = new ! i"
    "same_outside rs re (erase_img ?ev ?P cur) cur3" "same_outside rs re (contents s2) (contents s3)"
    "sk3 \<longrightarrow> sk2 \<and> contents s3 = contents s2" by auto
  have "\<not> (count_usable_erasers c = 0 \<or> length l < count_usable_erasers c)"
    using built_nonempty [OF b] shape_length [OF sh] by (simp flip: lenL)
  then have "erase_write_helper c rs re new (cur, l, sk, s) = Some (0, (cur3, l2, sk3, s3))"
    using l1(1) e(1) w(1) el(1) by (simp add: erase_write_helper_def Let_def lenL)
  with cl2 w e(6) so show ?thesis by (auto intro: same_outside_trans)
qed

section \<open>The region loop\<close>

text \<open>\<open>updated\<close>: inside \<open>[a, b]\<close> the bytes that are not write-protected are those of \<open>new\<close>, all other
  bytes are as before.\<close>

definition updated :: "bytes \<Rightarrow> nat \<Rightarrow> nat \<Rightarrow> bytes \<Rightarrow> bytes \<Rightarrow> bool" where
  "updated new a b img img' \<longleftrightarrow> length img' = length img \<and>
     (\<forall>i < length img. img' ! i = (if a \<le> i \<and> i \<le> b \<and> \<not> write_protected c i then new ! i else img ! i))"

lemma bounds_leaf:
  assumes "built L" and "x \<in> set (bounds_of (usable_erasers c ! 0))"
  shows "\<exists>k. rng L 0 k \<and> ed_start (blk L 0 k) = x"
proof -
  have "0 < length L" using built_nonempty [OF assms(1)] by simp
  then have "map (\<lambda>b. (ed_start b, Suc (ed_end b) - ed_start b)) (el_blocks (L ! 0)) = eraser_blocks (usable_erasers c ! 0)"
    using assms(1) by (auto simp: built_def layout_of_def)
  from bounds_of_layer [OF this] assms(2) have "x \<in> ed_start ` set (el_blocks (L ! 0))" by simp
  then obtain k where "k < length (el_blocks (L ! 0))" "x = ed_start (blk L 0 k)" by (auto simp: in_set_conv_nth)
  with \<open>0 < length L\<close> show ?thesis by (auto simp: rng_def)
qed

text \<open>The start of a leaf other than the first is one past the end of a leaf.\<close>

lemma leaf_prev:
  assumes "wf_layout n L" and "rng L 0 k" and "ed_start (blk L 0 k) = Suc e"
  shows "\<exists>m. rng L 0 m \<and> ed_end (blk L 0 m) = e"
proof (cases k)
  case 0
  have "tiles 0 (el_blocks (L ! 0)) n" using assms by (auto intro: wf_tiles simp: rng_def)
  with assms 0 tiles_first [of 0 "el_blocks (L ! 0)" n] show ?thesis by (force simp: rng_def)
next
  case (Suc m)
  have "ed_start (blk L 0 (Suc m)) = Suc (ed_end (blk L 0 m))"
    using rng_next [OF assms(1), of 0 m] assms(2) Suc by simp
  with assms Suc show ?thesis by (intro exI [of _ m]) (auto simp: rng_def)
qed

lemma last_leaf:
  assumes "built L"
  shows "\<exists>m. rng L 0 m \<and> Suc (ed_end (blk L 0 m)) = n"
proof -
  have t: "tiles 0 (el_blocks (L ! 0)) n"
    using built_nonempty [OF assms] built_wf [OF assms] by (auto intro: wf_tiles)
  then have "el_blocks (L ! 0) \<noteq> []" using size_pos by auto
  with tiles_last [OF t] built_nonempty [OF assms] show ?thesis
    by (intro exI [of _ "length (el_blocks (L ! 0)) - 1"]) (auto simp: rng_def)
qed

lemma piece_aligned:
  assumes b: "built L" and al: "leaf_aligned L a re" and "a \<le> x" and "x \<le> re"
    and xs: "\<exists>k. rng L 0 k \<and> ed_start (blk L 0 k) = x"
  shows "leaf_aligned L x (min re (fr_end (get_flash_region c x)))"
    and "min re (fr_end (get_flash_region c x)) < re \<Longrightarrow>
      \<exists>k. rng L 0 k \<and> ed_start (blk L 0 k) = Suc (min re (fr_end (get_flash_region c x)))"
proof -
  let ?f = "fr_end (get_flash_region c x)"
  have xn: "x < n" using leaf_aligned_bounds(1) [OF b al] assms(4) by simp
  note re = region_end [OF xn]
  have "\<exists>m. rng L 0 m \<and> ed_end (blk L 0 m) = ?f"
    using region_blocks [OF xn] last_leaf [OF b] bounds_leaf [OF b, of "Suc ?f"] leaf_prev [OF built_wf [OF b]]
    by auto
  with al xs assms(4) re show "leaf_aligned L x (min re ?f)" by (auto simp: leaf_aligned_def min_def)
  assume "min re ?f < re"
  then have lt: "?f < re" by simp
  then have "Suc ?f \<noteq> n" using leaf_aligned_bounds(1) [OF b al] by simp
  with region_blocks [OF xn] bounds_leaf [OF b] lt
  show "\<exists>k. rng L 0 k \<and> ed_start (blk L 0 k) = Suc (min re ?f)" by (simp add: min_def)
qed

lemma piece_arith:
  assumes "x \<le> e" and "e < 2147483648"
  shows "add32 (sub32 e x) 1 = Suc e - x" and "add32 x (Suc e - x) = Suc e" and "sub32 (Suc e) 1 = e"
  using assms by (simp_all add: c_simps)

lemma erase_write_loop_ok:
  assumes b: "built L" and al: "leaf_aligned L a re" and ln: "length new = n"
  shows "dev_ok s \<Longrightarrow> clean L l \<Longrightarrow> length cur = n \<Longrightarrow> a \<le> x \<Longrightarrow> x \<le> Suc re \<Longrightarrow>
    (x \<le> re \<Longrightarrow> \<exists>k. rng L 0 k \<and> ed_start (blk L 0 k) = x) \<Longrightarrow> good_cur L cur new s x re \<Longrightarrow>
    \<exists>cur' l' sk' s'. erase_write_loop c re new x (cur, l, sk, s) = Some (0, (cur', l', sk', s')) \<and>
      dev_ok s' \<and> clean L l' \<and> updated new x re (contents s) (contents s') \<and> updated new x re cur cur' \<and>
      (sk' \<longrightarrow> sk \<and> contents s' = contents s)"
proof (induction "Suc re - x" arbitrary: x cur l sk s rule: less_induct)
  case less
  have ren: "re < n" using leaf_aligned_bounds(1) [OF b al] .
  show ?case
  proof (cases "x \<le> re")
    case False
    then show ?thesis using less.prems
      by (subst erase_write_loop.simps) (auto simp: updated_def)
  next
    case True
    let ?e = "min re (fr_end (get_flash_region c x))"
    have xn: "x < n" using True ren by simp
    note reg = region_end [OF xn]
    have pa: "leaf_aligned L x ?e"
      and nx: "?e < re \<Longrightarrow> \<exists>k. rng L 0 k \<and> ed_start (blk L 0 k) = Suc ?e"
      using piece_aligned [OF b al less.prems(4) True less.prems(6) [OF True]] by auto
    have xe: "x \<le> ?e" "?e \<le> re" using True reg by auto
    have m32: "min32 re (fr_end (get_flash_region c x)) = ?e" using ren reg size_bound by (simp add: c_simps)
    have ar: "add32 (sub32 ?e x) 1 = Suc ?e - x" "add32 x (Suc ?e - x) = Suc ?e" "sub32 (Suc ?e) 1 = ?e"
      using piece_arith [OF xe(1)] xe ren size_bound by simp_all
    have same: "get_flash_region c i = get_flash_region c x" if "x \<le> i" "i \<le> ?e" for i
      using region_same [OF xn that(1)] that(2) by simp
    have dec: "Suc re - Suc ?e < Suc re - x"
      by (rule diff_less_mono2) (use xe(1) True in \<open>simp_all add: less_Suc_eq_le\<close>)
    have ax: "a \<le> Suc ?e" and sx: "Suc ?e \<le> Suc re" using less.prems(4) xe by linarith+
    have nx': "\<exists>k. rng L 0 k \<and> ed_start (blk L 0 k) = Suc ?e" if "Suc ?e \<le> re"
      using nx that by (simp only: Suc_le_eq)
    have lc: "length (contents s) = n" using less.prems(1) by (rule contents_length)
    show ?thesis
    proof (cases "write_protected c x")
      case wp: True
      have wpi: "write_protected c i" if "x \<le> i" "i \<le> ?e" for i
        using wp unfolding write_protected_def same [OF that] .
      have run: "erase_write_loop c re new x (cur, l, sk, s) = erase_write_loop c re new (Suc ?e) (cur, l, sk, s)"
        by (subst erase_write_loop.simps)
          (simp only: True if_True Let_def m32 ar wp [unfolded write_protected_def])
      have upd: "updated new (Suc ?e) re img img' \<Longrightarrow> updated new x re img img'" for img img'
        using wpi xe by (auto simp: updated_def not_less_eq_eq)
      have "within L 0 k x re" if "within L 0 k (Suc ?e) re" for k
        using that xe(1) by (auto simp: within_def)
      then have "good_cur L cur new s (Suc ?e) re" using less.prems(7) by (auto simp: good_cur_def)
      from less.hyps [OF dec less.prems(1-3) ax sx nx' this, of sk]
      show ?thesis unfolding run using upd by blast
    next
      case wp: False
      have wpi: "\<not> write_protected c i" if "x \<le> i \<and> i \<le> ?e" for i
        using wp unfolding write_protected_def same [OF conjunct1 [OF that] conjunct2 [OF that]] .
      have "within L 0 k x re" if "within L 0 k x ?e" for k
        using that xe(2) by (auto simp: within_def)
      then have "good_cur L cur new s x ?e" using less.prems(7) by (auto simp: good_cur_def)
      from helper_ok [OF b less.prems(2,1,3) ln pa this, of sk] wpi obtain cur1 l1 sk1 s1 where
        h: "erase_write_helper c x ?e new (cur, l, sk, s) = Some (0, (cur1, l1, sk1, s1))" "dev_ok s1" "clean L l1"
        "\<forall>i. x \<le> i \<and> i \<le> ?e \<longrightarrow> cur1 ! i = new ! i \<and> contents s1 ! i = new ! i"
        "same_outside x ?e cur cur1" "same_outside x ?e (contents s) (contents s1)"
        "sk1 \<longrightarrow> sk \<and> contents s1 = contents s" by blast
      have run: "erase_write_loop c re new x (cur, l, sk, s) = erase_write_loop c re new (Suc ?e) (cur1, l1, sk1, s1)"
        by (subst erase_write_loop.simps)
          (simp only: True if_True if_False Let_def m32 ar wp [unfolded write_protected_def] h(1)
            bind.bind_lunit prod.case simp_thms)
      have l1: "length cur1 = n" "length (contents s1) = n"
        using h(5) less.prems(3) contents_length [OF h(2)] by (auto simp: same_outside_def)
      have out: "cur1 ! i = cur ! i" "contents s1 ! i = contents s ! i" if "Suc ?e \<le> i" "i < n" for i
      proof -
        have "\<not> (x \<le> i \<and> i \<le> ?e)" using that(1) by linarith
        then show "cur1 ! i = cur ! i" "contents s1 ! i = contents s ! i"
          using same_outsideD [OF h(5)] same_outsideD [OF h(6)] less.prems(3) lc that(2) by simp_all
      qed
      have "good_cur L cur1 new s1 (Suc ?e) re"
        unfolding good_cur_def
      proof (intro allI impI)
        fix k assume k: "rng L 0 k \<and> within L 0 k (Suc ?e) re \<and> \<not> needs c cur1 new L k"
        have bd: "ed_end (blk L 0 k) < n" using rng_bounds(2) [OF built_wf [OF b]] k by blast
        have inn: "Suc ?e \<le> i \<and> i < n" if "ed_start (blk L 0 k) \<le> i" "i \<le> ed_end (blk L 0 k)" for i
          using that k bd unfolding within_def by linarith
        have "\<not> needs c cur new L k"
          using needs_cong [OF b _ less.prems(3) l1(1) ln, of k] k out inn by blast
        moreover have "within L 0 k x re" using k xe(1) by (auto simp: within_def)
        ultimately have "synced cur s (ed_start (blk L 0 k)) (ed_end (blk L 0 k))"
          using less.prems(7) k by (auto simp: good_cur_def)
        then show "synced cur1 s1 (ed_start (blk L 0 k)) (ed_end (blk L 0 k))"
          using out inn by (auto simp: synced_def)
      qed
      from less.hyps [OF dec h(2,3) l1(1) ax sx nx' this, of sk1]
      obtain cur2 l2 sk2 s2 where r: "erase_write_loop c re new (Suc ?e) (cur1, l1, sk1, s1) = Some (0, (cur2, l2, sk2, s2))"
        "dev_ok s2" "clean L l2" "updated new (Suc ?e) re (contents s1) (contents s2)"
        "updated new (Suc ?e) re cur1 cur2" "sk2 \<longrightarrow> sk1 \<and> contents s2 = contents s1"
        by blast
      have upd: "updated new x re img img2"
        if "updated new (Suc ?e) re img1 img2" "same_outside x ?e img img1" "length img = n"
          "\<forall>i. x \<le> i \<and> i \<le> ?e \<longrightarrow> img1 ! i = new ! i" for img img1 img2
        unfolding updated_def
      proof (intro conjI allI impI)
        show "length img2 = length img" using that by (simp add: updated_def same_outside_def)
        fix i assume "i < length img"
        with that wpi [of i] xe show "img2 ! i = (if x \<le> i \<and> i \<le> re \<and> \<not> write_protected c i then new ! i else img ! i)"
          by (cases "x \<le> i \<and> i \<le> ?e") (auto simp: updated_def same_outside_def)
      qed
      show ?thesis unfolding run
        using r h(4,7) upd [OF r(4) h(6) lc] upd [OF r(5) h(5) less.prems(3)] by auto
    qed
  qed
qed

section \<open>The whole operation\<close>

lemma keep_margin_ok:
  assumes ok: "dev_ok s" and len: "length cur = n" "length new = n" and m: "off + m \<le> n"
  shows "\<exists>s'. keep_margin c off m cur new s =
      Some (blit off (bslice off m (contents s)) cur, blit off (bslice off m (contents s)) new,
            if m = 0 then None else Some (bslice off m new), True, s') \<and>
    dev_ok s' \<and> contents s' = contents s"
proof (cases "m = 0")
  case True
  with ok show ?thesis by (simp add: keep_margin_def)
next
  case False
  have lc: "length (contents s) = n" using ok by (rule contents_length)
  have vis: "map (visible c (contents s)) [off..<off + m] = bslice off m (contents s)"
    using all_readable m lc by (subst bslice_eq_map) (auto simp: visible_def)
  have "readable c off m" using all_readable m by (auto simp: readable_def)
  from read_flash_ok [OF m _ ok this, of off cur] m len obtain s' where
    s': "read_flash c cur off off m s = Some (0, blit off (bslice off m (contents s)) cur, s')"
    "dev_ok s'" "contents s' = contents s" unfolding vis by auto
  have "bslice off m (blit off (bslice off m (contents s)) cur) = bslice off m (contents s)"
    using m len lc by (intro nth_equalityI) (auto simp: buf_simps)
  with False m len s' malloc_ok show ?thesis by (simp add: keep_margin_def)
qed

text \<open>A byte of \<^verbatim>\<open>curcontents\<close> that makes its block need an erase, whatever the chip holds: the code
  fills the buffer with such bytes when it erases.\<close>

definition dirty :: "write_granularity \<Rightarrow> u8 \<Rightarrow> bytes \<Rightarrow> bytes \<Rightarrow> nat \<Rightarrow> bool" where
  "dirty gran ev cur new i \<longleftrightarrow> gran \<noteq> WRITE_GRAN_1BYTE_IMPLICIT_ERASE \<and> cur ! i \<noteq> new ! i \<and> cur ! i \<noteq> ev \<and>
     (gran = WRITE_GRAN_1BIT \<longrightarrow> cur ! i AND new ! i \<noteq> new ! i)"

lemma prog_at_not_dirty: "prog_at gran ev cur new i \<Longrightarrow> \<not> dirty gran ev cur new i"
proof -
  have "i div gran_stride gran * gran_stride gran \<le> i \<and> i < Suc (i div gran_stride gran) * gran_stride gran"
    using chunk_mem [OF gran_stride_pos] by blast
  then show "prog_at gran ev cur new i \<Longrightarrow> \<not> dirty gran ev cur new i"
    by (cases gran) (auto simp: prog_at_def dirty_def chunk_eq_def chunk_all_def)
qed

text \<open>\<^verbatim>\<open>erase_write\<close> succeeds, programs the bytes of the region that are not write-protected, keeps all
  other bytes of the chip, gives \<^verbatim>\<open>newcontents\<close> back as it was, keeps the buffer \<^verbatim>\<open>curcontents\<close> in step with
  the chip, and reports \<^verbatim>\<open>all_skipped\<close> only if nothing has changed.\<close>

lemma erase_write_ok:
  assumes b: "built L" and cl: "clean L l" and ok: "dev_ok s" and len: "length cur = n" "length new = n"
    and ab: "a \<le> e" "e < n"
    and sy: "\<forall>i. a \<le> i \<and> i \<le> e \<longrightarrow>
      cur ! i = contents s ! i \<or> dirty (ch_gran (c_chip c)) (ERASED_VALUE c) cur new i"
    and wr: "fl_skip_unwritable_regions (c_flags c) \<or> (\<forall>i < n. \<not> write_protected c i)"
  shows "\<exists>cur' l' sk' s'. erase_write c a e new (cur, l, sk, s) = Some (0, new, (cur', l', sk', s')) \<and>
    dev_ok s' \<and> clean L l' \<and> length cur' = n \<and> updated new a e (contents s) (contents s') \<and>
    (\<forall>i < n. cur' ! i = contents s' ! i \<or> cur' ! i = cur ! i \<and> contents s' ! i = contents s ! i) \<and>
    (sk' \<longrightarrow> sk \<and> contents s' = contents s)"
proof -
  note wf = built_wf [OF b] and ne = built_nonempty [OF b]
  have sh: "shape l = shape L" using cl by (simp add: clean_def)
  have wfl: "wf_layout n l" using wf_layout_shape [OF sh [symmetric] wf] .
  obtain p where p: "rng L 0 p" "ed_start (blk L 0 p) \<le> a" "a \<le> ed_end (blk L 0 p)"
    using wf_leaf [OF wf ne le_less_trans [OF ab]] by blast
  obtain q where q: "rng L 0 q" "ed_start (blk L 0 q) \<le> e" "e \<le> ed_end (blk L 0 q)"
    using wf_leaf [OF wf ne ab(2)] by blast
  define rs where "rs = ed_start (blk L 0 p)"
  define re where "re = ed_end (blk L 0 q)"
  have n32: "n < 4294967296" using size_bound by simp
  have al: "align_region l a e = (rs, re)"
    using align_region_ok [OF wfl n32, of p a q e] p q
    by (simp add: rng_shape [OF sh] blk_shape [OF sh p(1)] blk_shape [OF sh q(1)] rs_def re_def)
  have bd: "rs \<le> a" "e \<le> re" "re < n" using p q rng_bounds(2) [OF wf q(1)] by (auto simp: rs_def re_def)
  have lal: "leaf_aligned L rs re" using p(1) q(1) bd ab by (auto simp: leaf_aligned_def rs_def re_def)
  have ar: "add32 (sub32 re rs) 1 = Suc re - rs" "sub32 a rs = a - rs" "add32 e 1 = Suc e" "sub32 re e = re - e"
    using bd ab size_bound piece_arith [of rs re] by (simp_all add: c_simps)
  have chk: "(if \<not> fl_skip_unwritable_regions (c_flags c)
      then check_for_unwritable_regions c rs (Suc re - rs) else Some 0) = Some 0"
    using wr check_for_unwritable_regions_eq [of rs "Suc re - rs"] bd ab
    by (auto simp: write_protected_def)
  have lc: "length (contents s) = n" using ok by (rule contents_length)
  let ?A = "bslice rs (a - rs) (contents s)" and ?B = "bslice (Suc e) (re - e) (contents s)"
  obtain s1 where s1: "keep_margin c rs (a - rs) cur new s = Some (blit rs ?A cur, blit rs ?A new,
      if a - rs = 0 then None else Some (bslice rs (a - rs) new), True, s1)" "dev_ok s1" "contents s1 = contents s"
    using keep_margin_ok [OF ok len, of rs "a - rs"] bd ab by auto
  obtain s2 where s2: "keep_margin c (Suc e) (re - e) (blit rs ?A cur) (blit rs ?A new) s1 =
      Some (blit (Suc e) ?B (blit rs ?A cur), blit (Suc e) ?B (blit rs ?A new),
        if re - e = 0 then None else Some (bslice (Suc e) (re - e) (blit rs ?A new)), True, s2)"
      "dev_ok s2" "contents s2 = contents s"
    using keep_margin_ok [OF s1(2), of "blit rs ?A cur" "blit rs ?A new" "Suc e" "re - e"] len bd ab
    by (auto simp: s1(3))
  define cur2 where "cur2 = blit (Suc e) ?B (blit rs ?A cur)"
  define new2 where "new2 = blit (Suc e) ?B (blit rs ?A new)"
  have c2: "cur2 ! i = (if rs \<le> i \<and> i < a \<or> e < i \<and> i \<le> re then contents s ! i else cur ! i)"
    and n2: "new2 ! i = (if rs \<le> i \<and> i < a \<or> e < i \<and> i \<le> re then contents s ! i else new ! i)" if "i < n" for i
    using that len bd ab lc by (auto simp: cur2_def new2_def buf_simps)
  have l2: "length cur2 = n" "length new2 = n" using len by (simp_all add: cur2_def new2_def)
  have sy2: "good_cur L cur2 new2 s2 rs re"
    unfolding good_cur_def synced_def
  proof (intro allI impI)
    fix k i assume k: "rng L 0 k \<and> within L 0 k rs re \<and> \<not> needs c cur2 new2 L k"
      and i: "ed_start (blk L 0 k) \<le> i \<and> i \<le> ed_end (blk L 0 k)"
    have ire: "rs \<le> i" "i \<le> re" "i < n" using k i bd unfolding within_def by linarith+
    have "prog_at (ch_gran (c_chip c)) (ERASED_VALUE c) cur2 new2 i"
      using not_needs_prog_at [OF b _ l2] k i by blast
    then have "\<not> dirty (ch_gran (c_chip c)) (ERASED_VALUE c) cur2 new2 i" by (rule prog_at_not_dirty)
    then show "cur2 ! i = contents s2 ! i"
      using sy ire c2 [of i] n2 [of i] by (auto simp: s2(3) dirty_def not_le not_less)
  qed
  have restore: "restore_margin (Suc e) (if re - e = 0 then None else Some (bslice (Suc e) (re - e) (blit rs ?A new)))
      (restore_margin rs (if a - rs = 0 then None else Some (bslice rs (a - rs) new)) new2) = new"
    using len bd ab by (intro nth_equalityI) (auto simp: restore_margin_def new2_def buf_simps)
  have rsl: "rs \<le> re \<Longrightarrow> \<exists>k. rng L 0 k \<and> ed_start (blk L 0 k) = rs" using p(1) by (auto simp: rs_def)
  from erase_write_loop_ok [OF b lal l2(2) s2(2) cl l2(1) _ _ rsl sy2, of sk] bd ab
  obtain cur' l' sk' s' where w: "erase_write_loop c re new2 rs (cur2, l, sk, s2) = Some (0, (cur', l', sk', s'))"
    "dev_ok s'" "clean L l'" "updated new2 rs re (contents s2) (contents s')" "updated new2 rs re cur2 cur'"
    "sk' \<longrightarrow> sk \<and> contents s' = contents s2" by auto
  have run: "erase_write c a e new (cur, l, sk, s) = Some (0, new, (cur', l', sk', s'))"
    by (simp only: erase_write_def prod.case al Let_def ar chk bind.bind_lunit s1(1) s2(1) simp_thms
        if_False if_True w(1) [unfolded cur2_def new2_def] restore [unfolded new2_def])
  have upd: "updated new a e (contents s) (contents s')"
    using w(4) n2 lc ab bd(1,2) by (auto simp: updated_def s2(3))
  have "cur' ! i = contents s' ! i \<or> cur' ! i = cur ! i \<and> contents s' ! i = contents s ! i" if "i < n" for i
    using w(4,5) that c2 [of i] lc l2 by (auto simp: updated_def s2(3))
  with run w upd l2(1) s2(3) show ?thesis by (auto simp: updated_def)
qed

end

end
