(* ===== verification/WpRanges.thy ===== *)
theory WpRanges
  imports Helpers
begin

text \<open>
  Decoding of write-protect bits into a protected range (\<^verbatim>\<open>flashrom/writeprotect_ranges.c\<close>, with the
  data of \<^verbatim>\<open>include/writeprotect.h\<close>).

  A \<^verbatim>\<open>size_t\<close> is a natural number below \<open>2 ^ 64\<close>, subtracted with \<open>sub64\<close>. The helper functions
  \<^verbatim>\<open>min\<close> and \<^verbatim>\<open>max\<close> (\<open>c_min\<close>, \<open>c_max\<close>) take and return \<^verbatim>\<open>int\<close>, so their arguments are truncated to 32 bits and their
  results are sign-extended. A shift \<^verbatim>\<open>1 << n\<close> with \<open>n \<ge> 31\<close>, and a read past the end of the array
  \<^verbatim>\<open>bp\<close>, are undefined and have the result \<open>None\<close>.
\<close>

section \<open>Data\<close>

record wp_range =
  wr_start :: nat
  wr_len :: nat

record wp_bits =
  srp_bit_present :: bool
  srp :: u8
  srl_bit_present :: bool
  srl :: u8
  cmp_bit_present :: bool
  cmp :: u8
  sec_bit_present :: bool
  sec :: u8
  tb_bit_present :: bool
  tb :: u8
  bp_bit_count :: nat
  bp :: "u8 list"

definition MAX_BP_BITS :: nat where "MAX_BP_BITS = 4"

section \<open>Machine arithmetic\<close>

definition sub64 :: "nat \<Rightarrow> nat \<Rightarrow> nat" where
  "sub64 a b = nat ((int a - int b) mod 18446744073709551616)"

definition size_of_int :: "int \<Rightarrow> nat" where
  "size_of_int i = nat (i mod 18446744073709551616)"

definition size_min :: "nat \<Rightarrow> nat \<Rightarrow> nat" where
  "size_min a b = size_of_int (c_min (s32 (u32 a)) (s32 (u32 b)))"

definition size_max :: "nat \<Rightarrow> nat \<Rightarrow> nat" where
  "size_max a b = size_of_int (c_max (s32 (u32 a)) (s32 (u32 b)))"

definition shl_one :: "nat \<Rightarrow> nat option" where
  "shl_one k = (if k < 31 then Some (2 ^ k) else None)"

lemma sub64_no_wrap [c_simps]: "b \<le> a \<Longrightarrow> a < 18446744073709551616 \<Longrightarrow> sub64 a b = a - b"
  by (simp add: sub64_def mod_pos_pos_trivial nat_diff_distrib' flip: of_nat_diff)

lemma size_min_small [c_simps]: "a < 2147483648 \<Longrightarrow> b < 2147483648 \<Longrightarrow> size_min a b = min a b"
  by (simp add: size_min_def c_min_def c_simps size_of_int_def mod_pos_pos_trivial)

lemma size_max_small [c_simps]: "a < 2147483648 \<Longrightarrow> b < 2147483648 \<Longrightarrow> size_max a b = max a b"
  by (simp add: size_max_def c_max_def c_simps size_of_int_def mod_pos_pos_trivial)

lemma shl_one_small [c_simps]: "k < 31 \<Longrightarrow> shl_one k = Some (2 ^ k)"
  by (simp add: shl_one_def)

section \<open>Decoding\<close>

text \<open>The loop that reads the BP bits as a number: \<open>bp\<close> and \<open>bp_max\<close>.\<close>

fun bp_loop :: "u8 list \<Rightarrow> nat list \<Rightarrow> nat \<times> nat \<Rightarrow> nat \<times> nat" where
  "bp_loop bits [] acc = acc"
| "bp_loop bits (i # js) (v, m) = bp_loop bits js (v OR push_bit i (unat (bits ! i)), m OR push_bit i 1)"

definition bp_number :: "wp_bits \<Rightarrow> (nat \<times> nat) option" where
  "bp_number bits =
     (if length (bp bits) < bp_bit_count bits then None
      else Some (bp_loop (bp bits) [0..<bp_bit_count bits] (0, 0)))"

text \<open>The length for BP bits that are neither all zero nor all one.\<close>

definition coeff_len :: "wp_bits \<Rightarrow> nat \<Rightarrow> bool \<Rightarrow> nat \<Rightarrow> nat \<Rightarrow> nat \<Rightarrow> nat option" where
  "coeff_len bits chip_len fixed_block_len coeff_offset v m =
     Option.bind (shl_one (sub64 v coeff_offset)) (\<lambda>coeff.
     Option.bind (shl_one (sub64 (sub64 m coeff_offset) 1)) (\<lambda>max_coeff.
       let sector_len = 4 * 1024; default_block_len = 64 * 1024
       in Some
         (if sec_bit_present bits \<and> sec bits = 1
          then size_min (sector_len * coeff) (default_block_len div 2)
          else
            let block_len = (if fixed_block_len then default_block_len
                             else size_max (chip_len div 2 div max_coeff) default_block_len)
            in size_min (block_len * coeff) chip_len)))"

definition decode_range_generic ::
    "wp_bits \<Rightarrow> nat \<Rightarrow> bool \<Rightarrow> bool \<Rightarrow> nat \<Rightarrow> wp_range option" where
  "decode_range_generic bits chip_len fixed_block_len apply_cmp_to_bp coeff_offset =
     (let cm = (cmp_bit_present bits \<and> cmp bits = 1)
      in Option.bind (bp_number bits) (\<lambda>(v0, m).
         let v = (if cm \<and> apply_cmp_to_bp then v0 XOR m else v0)
         in Option.bind
              (if v = 0 then Some 0
               else if v = m then Some chip_len
               else coeff_len bits chip_len fixed_block_len coeff_offset v m)
            (\<lambda>len0.
               let protect_top0 = (if tb_bit_present bits then tb bits = 0 else True);
                   len = (if cm then sub64 chip_len len0 else len0);
                   protect_top = (if cm then \<not> protect_top0 else protect_top0)
               in Some \<lparr>wr_start = (if protect_top \<and> len > 0 then sub64 chip_len len else 0),
                        wr_len = len\<rparr>)))"

definition decode_range_spi25 :: "wp_bits \<Rightarrow> nat \<Rightarrow> wp_range option" where
  "decode_range_spi25 bits chip_len = decode_range_generic bits chip_len False False 1"

definition decode_range_spi25_64k_block :: "wp_bits \<Rightarrow> nat \<Rightarrow> wp_range option" where
  "decode_range_spi25_64k_block bits chip_len = decode_range_generic bits chip_len True False 1"

definition decode_range_spi25_bit_cmp :: "wp_bits \<Rightarrow> nat \<Rightarrow> wp_range option" where
  "decode_range_spi25_bit_cmp bits chip_len = decode_range_generic bits chip_len False True 1"

definition decode_range_spi25_2x_block :: "wp_bits \<Rightarrow> nat \<Rightarrow> wp_range option" where
  "decode_range_spi25_2x_block bits chip_len = decode_range_generic bits chip_len False False 0"

lemmas decode_range_defs = decode_range_spi25_def decode_range_spi25_64k_block_def
  decode_range_spi25_bit_cmp_def decode_range_spi25_2x_block_def

section \<open>The BP number\<close>

text \<open>Bits as \<^verbatim>\<open>read_wp_bits\<close> and the enumeration of ranges make them: each is 0 or 1, and there are at
  most four BP bits.\<close>

definition wp_bits_ok :: "wp_bits \<Rightarrow> bool" where
  "wp_bits_ok bits \<longleftrightarrow> bp_bit_count bits \<le> MAX_BP_BITS \<and> length (bp bits) = MAX_BP_BITS \<and>
     (\<forall>i < bp_bit_count bits. bp bits ! i \<le> 1)"

lemma bit_value: "(b :: u8) \<le> 1 \<Longrightarrow> b = 0 \<or> b = 1"
proof -
  assume "b \<le> 1"
  then have "unat b \<le> 1" by (simp add: word_le_nat_alt)
  then have "unat b = unat (0 :: u8) \<or> unat b = unat (1 :: u8)" by auto
  then show ?thesis by (simp only: word_unat_eq_iff)
qed

lemma bp_loop_bounds:
  assumes "n \<le> length bits" and "\<forall>i < n. bits ! i \<le> 1"
  shows "\<exists>v. bp_loop bits [0..<n] (0, 0) = (v, mask n) \<and> v < 2 ^ n \<and> (\<forall>i. bit v i \<longleftrightarrow> i < n \<and> bits ! i = 1)"
  using assms
proof (induction n)
  case 0
  then show ?case by simp
next
  case (Suc n)
  have app: "bp_loop bits (xs @ [j]) a =
      (fst (bp_loop bits xs a) OR push_bit j (unat (bits ! j)), snd (bp_loop bits xs a) OR push_bit j 1)" for xs j a
    by (induction bits xs a rule: bp_loop.induct) auto
  from Suc obtain v where v: "bp_loop bits [0..<n] (0, 0) = (v, mask n)" "\<forall>i. bit v i \<longleftrightarrow> i < n \<and> bits ! i = 1"
    by auto
  let ?v = "v OR push_bit n (unat (bits ! n))"
  have b: "bits ! n = 0 \<or> bits ! n = 1" using Suc.prems by (intro bit_value) auto
  have pb: "bit (push_bit n (unat (bits ! n))) i \<longleftrightarrow> i = n \<and> bits ! n = 1" for i
    using b by (auto simp: bit_push_bit_iff bit_1_iff bit_Suc_0_iff simp del: push_bit_of_1)
  have bits: "bit ?v i \<longleftrightarrow> i < Suc n \<and> bits ! i = 1" for i
    unfolding bit_or_iff pb using v(2) by (auto simp: less_Suc_eq)
  have "mask n OR push_bit n 1 = (mask (Suc n) :: nat)"
    by (rule bit_eqI) (auto simp: bit_simps)
  moreover have "take_bit (Suc n) ?v = ?v"
    by (rule bit_eqI) (unfold bit_take_bit_iff bits, blast)
  then have "?v < 2 ^ Suc n" by (simp only: take_bit_nat_eq_self_iff)
  ultimately show ?case using bits by (auto simp: app v(1))
qed

text \<open>The number encoded by the BP bits, and the length it stands for without CMP.\<close>

definition bp_value :: "wp_bits \<Rightarrow> nat" where
  "bp_value bits = fst (bp_loop (bp bits) [0..<bp_bit_count bits] (0, 0))"

lemma bp_number_ok:
  assumes "wp_bits_ok bits"
  shows "bp_number bits = Some (bp_value bits, 2 ^ bp_bit_count bits - 1)" "bp_value bits < 2 ^ bp_bit_count bits"
    "bp_bit_count bits \<le> 4"
  using assms bp_loop_bounds [of "bp_bit_count bits" "bp bits"]
  by (auto simp: wp_bits_ok_def MAX_BP_BITS_def bp_number_def bp_value_def mask_eq_exp_minus_1)

lemma bp_xor:
  assumes "v < 2 ^ n"
  shows "v XOR (2 ^ n - 1) = 2 ^ n - 1 - (v :: nat)"
proof -
  have "v XOR mask n = take_bit n (nat (NOT (int v) mod 2 ^ n))"
  proof (rule bit_eqI)
    fix i
    have "bit v i \<Longrightarrow> i < n" using assms by (metis bit_take_bit_iff take_bit_nat_eq_self_iff)
    moreover have "bit (nat (NOT (int v) mod 2 ^ n)) i \<longleftrightarrow> i < n \<and> \<not> bit v i"
      by (simp add: bit_nat_iff bit_take_bit_iff bit_not_iff bit_of_nat_iff flip: take_bit_eq_mod)
    ultimately show "bit (v XOR mask n) i \<longleftrightarrow> bit (take_bit n (nat (NOT (int v) mod 2 ^ n))) i"
      by (auto simp: bit_xor_iff bit_mask_iff bit_take_bit_iff)
  qed
  also have "NOT (int v) mod 2 ^ n = int (2 ^ n - 1 - v)"
  proof -
    have "NOT (int v) = - int v - 1" by (simp add: not_int_def)
    then have "NOT (int v) mod 2 ^ n = (2 ^ n - 1 - int v) mod 2 ^ n" by (simp add: mod_eq_dvd_iff)
    also have "\<dots> = 2 ^ n - 1 - int v" using assms by (intro mod_pos_pos_trivial) (auto simp flip: of_nat_power)
    finally show ?thesis using assms by (simp add: of_nat_diff)
  qed
  finally have "v XOR mask n = take_bit n (2 ^ n - 1 - v)" by (simp only: nat_int)
  moreover have "take_bit n (2 ^ n - 1 - v) = 2 ^ n - 1 - v" using assms by (simp add: take_bit_nat_eq_self_iff)
  ultimately show ?thesis by (simp only: mask_eq_exp_minus_1)
qed

lemma coeff_len_ok:
  assumes v: "0 < v" "v < 2 ^ k - 1" "k \<le> 4" and off: "off \<le> 1" and chip: "chip_len < 2147483648" "32768 \<le> chip_len"
  shows "\<exists>l. coeff_len bits chip_len fx off v (2 ^ k - 1) = Some l \<and> 0 < l \<and> l \<le> chip_len"
proof -
  have k: "(2 :: nat) ^ k \<le> 16" using power_increasing [OF v(3), of "2 :: nat"] by simp
  define m where "m = (2 :: nat) ^ k - 1"
  have m: "v < m" "m \<le> 15" using v(2) k by (auto simp: m_def)
  have sh: "shl_one (sub64 v off) = Some (2 ^ (v - off))"
    "shl_one (sub64 (sub64 m off) 1) = Some (2 ^ (m - off - 1))"
    using m v(1) off by (auto simp: c_simps)
  have le: "(2 :: nat) ^ (v - off) \<le> 2 ^ (m - off - 1)" using m by (intro power_increasing) auto
  have c14: "(2 :: nat) ^ (v - off) \<le> 2 ^ 14" using m by (intro power_increasing) auto
  define q where "q = chip_len div 2 div 2 ^ (m - off - 1)"
  have q: "q * 2 ^ (v - off) \<le> chip_len div 2" using le div_times_less_eq_dividend [of "chip_len div 2" "2 ^ (m - off - 1)"]
    unfolding q_def by (meson le_trans mult_le_mono2)
  have "q \<le> chip_len" unfolding q_def by (meson div_le_dividend le_trans)
  then have mx: "size_max q 65536 = max q 65536" using chip by (intro size_max_small) auto
  have b: "max q 65536 * 2 ^ (v - off) < 2147483648" using q c14 chip(1) by (auto simp: max_def)
  have b1: "65536 * 2 ^ (v - off) < (2147483648 :: nat)" "4096 * 2 ^ (v - off) < (2147483648 :: nat)" using c14 by auto
  show ?thesis
    unfolding coeff_len_def m_def [symmetric] sh Let_def bind.bind_lunit q_def [symmetric]
    using b b1 chip by (auto simp: c_simps mx)
qed

section \<open>The decoded range\<close>

text \<open>The length selected by the BP bits before the CMP bit is applied to the range.\<close>

definition base_len :: "wp_bits \<Rightarrow> nat \<Rightarrow> bool \<Rightarrow> nat \<Rightarrow> nat \<Rightarrow> nat option" where
  "base_len bits chip_len fx off v =
     (if v = 0 then Some 0 else if v = 2 ^ bp_bit_count bits - 1 then Some chip_len
      else coeff_len bits chip_len fx off v (2 ^ bp_bit_count bits - 1))"

definition cmp_set :: "wp_bits \<Rightarrow> bool" where
  "cmp_set bits \<longleftrightarrow> cmp_bit_present bits \<and> cmp bits = 1"

definition tb_top :: "wp_bits \<Rightarrow> bool" where
  "tb_top bits \<longleftrightarrow> (tb_bit_present bits \<longrightarrow> tb bits = 0)"

lemma base_len_ok:
  assumes "v < 2 ^ bp_bit_count bits" and "bp_bit_count bits \<le> 4" and "off \<le> 1"
    and "chip_len < 2147483648" and "32768 \<le> chip_len"
  shows "\<exists>l \<le> chip_len. base_len bits chip_len fx off v = Some l"
proof -
  have "v < 2 ^ bp_bit_count bits - 1" if "v \<noteq> 2 ^ bp_bit_count bits - 1" using that assms(1) by linarith
  with coeff_len_ok [of v "bp_bit_count bits" off chip_len bits fx] assms show ?thesis
    by (auto simp: base_len_def)
qed

text \<open>What the generic decoder computes: the complement swaps the length and the end of the chip.\<close>

lemma decode_range_generic_eq:
  assumes ok: "wp_bits_ok bits" and off: "off \<le> 1" and chip: "chip_len < 2147483648" "32768 \<le> chip_len"
    and v: "v = (if cmp_set bits \<and> neg then 2 ^ bp_bit_count bits - 1 - bp_value bits else bp_value bits)"
    and l: "base_len bits chip_len fx off v = Some l"
  shows "decode_range_generic bits chip_len fx neg off =
      Some (let l' = if cmp_set bits then chip_len - l else l
            in \<lparr>wr_start = if tb_top bits \<noteq> cmp_set bits \<and> 0 < l' then chip_len - l' else 0, wr_len = l'\<rparr>)"
    and "l \<le> chip_len"
proof -
  note bn = bp_number_ok [OF ok]
  have "v < 2 ^ bp_bit_count bits" using bn(2) v by (auto split: if_splits)
  from base_len_ok [OF this bn(3) off chip, of fx] l show le: "l \<le> chip_len" by auto
  have v': "(if cmp_set bits \<and> neg then bp_value bits XOR (2 ^ bp_bit_count bits - 1) else bp_value bits) = v"
    using bp_xor [OF bn(2)] v by simp
  have "sub64 chip_len l = chip_len - l" "sub64 chip_len (chip_len - l) = l" using le chip by (simp_all add: c_simps)
  moreover have s64: "sub64 chip_len x = chip_len - x" if "x \<le> chip_len" for x using that chip by (simp add: c_simps)
  ultimately show "decode_range_generic bits chip_len fx neg off =
      Some (let l' = if cmp_set bits then chip_len - l else l
            in \<lparr>wr_start = if tb_top bits \<noteq> cmp_set bits \<and> 0 < l' then chip_len - l' else 0, wr_len = l'\<rparr>)"
    unfolding decode_range_generic_def bn(1) cmp_set_def [symmetric] Let_def bind.bind_lunit prod.case v'
      base_len_def [symmetric] l
    using le by (auto simp: tb_top_def)
qed

lemma decode_range_generic_ok:
  assumes ok: "wp_bits_ok bits" and off: "off \<le> 1" and chip: "chip_len < 2147483648" "32768 \<le> chip_len"
  shows "\<exists>r. decode_range_generic bits chip_len fx neg off = Some r \<and> wr_start r + wr_len r \<le> chip_len \<and>
    (wr_start r = 0 \<or> wr_start r + wr_len r = chip_len) \<and> (wr_len r = 0 \<longrightarrow> wr_start r = 0)"
proof -
  note bn = bp_number_ok [OF ok]
  define v where "v = (if cmp_set bits \<and> neg then 2 ^ bp_bit_count bits - 1 - bp_value bits else bp_value bits)"
  have "v < 2 ^ bp_bit_count bits" using bn(2) by (auto simp: v_def)
  from base_len_ok [OF this bn(3) off chip, of fx] obtain l where "l \<le> chip_len" "base_len bits chip_len fx off v = Some l"
    by auto
  from decode_range_generic_eq(1) [OF ok off chip v_def this(2)] this(1) show ?thesis by (auto simp: Let_def)
qed

section \<open>Properties\<close>

definition range_has :: "wp_range \<Rightarrow> nat \<Rightarrow> bool" where
  "range_has r i \<longleftrightarrow> wr_start r \<le> i \<and> i < wr_start r + wr_len r"

text \<open>For every chip of at least 32 KiB and below 2 GiB, the four decoding functions are defined on all
  well-formed bits, and the decoded range lies in the chip, touches one of its ends, and starts at 0 if it is
  empty. No shift or 32-bit conversion of the code goes wrong there.\<close>

theorem decode_range_in_chip:
  assumes "wp_bits_ok bits" and "32768 \<le> chip_len" and "chip_len < 2147483648"
    and "decode \<in> {decode_range_spi25, decode_range_spi25_64k_block, decode_range_spi25_bit_cmp,
                   decode_range_spi25_2x_block}"
  shows "\<exists>r. decode bits chip_len = Some r \<and> wr_start r + wr_len r \<le> chip_len \<and>
    (wr_start r = 0 \<or> wr_start r + wr_len r = chip_len) \<and> (wr_len r = 0 \<longrightarrow> wr_start r = 0)"
  using assms(4) decode_range_generic_ok [OF assms(1) _ assms(3,2)] by (auto simp: decode_range_defs)

definition sample_bits :: wp_bits where
  "sample_bits = \<lparr>srp_bit_present = True, srp = 0, srl_bit_present = False, srl = 0,
     cmp_bit_present = True, cmp = 1, sec_bit_present = True, sec = 0, tb_bit_present = True, tb = 1,
     bp_bit_count = 3, bp = [1, 1, 0, 0]\<rparr>"

lemma sample_bits_ok: "wp_bits_ok sample_bits"
  by (auto simp: wp_bits_ok_def sample_bits_def MAX_BP_BITS_def less_Suc_eq numeral_3_eq_3)

theorem decode_range_in_chip_witness:
  "\<exists>r. decode_range_spi25 sample_bits 16777216 = Some r \<and> wr_start r + wr_len r \<le> 16777216"
  using decode_range_in_chip [OF sample_bits_ok, of 16777216 decode_range_spi25] by auto

text \<open>Except for the chips that also negate their BP bits, setting the CMP bit selects exactly the complement
  of the range.\<close>

theorem decode_range_cmp_complement:
  assumes "wp_bits_ok bits" and "cmp_bit_present bits" and "32768 \<le> chip_len" and "chip_len < 2147483648"
    and "decode \<in> {decode_range_spi25, decode_range_spi25_64k_block, decode_range_spi25_2x_block}"
    and "i < chip_len"
  shows "\<exists>r r'. decode (bits\<lparr>cmp := 0\<rparr>) chip_len = Some r \<and> decode (bits\<lparr>cmp := 1\<rparr>) chip_len = Some r' \<and>
    (range_has r' i \<longleftrightarrow> \<not> range_has r i)"
proof -
  have gen: "\<exists>r r'. decode_range_generic (bits\<lparr>cmp := 0\<rparr>) chip_len fx False off = Some r \<and>
      decode_range_generic (bits\<lparr>cmp := 1\<rparr>) chip_len fx False off = Some r' \<and> (range_has r' i \<longleftrightarrow> \<not> range_has r i)"
    if off: "off \<le> 1" for fx off
  proof -
    note bn = bp_number_ok [OF assms(1)]
    have ok: "wp_bits_ok (bits\<lparr>cmp := x\<rparr>)" for x using assms(1) by (simp add: wp_bits_ok_def)
    have val: "bp_value (bits\<lparr>cmp := x\<rparr>) = bp_value bits" for x by (simp add: bp_value_def)
    have bl: "base_len (bits\<lparr>cmp := x\<rparr>) chip_len fx off v = base_len bits chip_len fx off v" for x v
      by (simp add: base_len_def coeff_len_def)
    obtain l where l: "l \<le> chip_len" "base_len bits chip_len fx off (bp_value bits) = Some l"
      using base_len_ok [OF bn(2,3) off assms(4,3)] by blast
    show ?thesis
      using decode_range_generic_eq(1) [OF ok off assms(4,3) refl, where neg = False and fx = fx and l = l] l assms(2,6)
      by (auto simp: bl val cmp_set_def tb_top_def range_has_def Let_def)
  qed
  show ?thesis using assms(5) gen by (auto simp: decode_range_defs)
qed

theorem decode_range_cmp_complement_witness:
  "\<exists>r r'. decode_range_spi25 (sample_bits\<lparr>cmp := 0\<rparr>) 16777216 = Some r \<and>
    decode_range_spi25 (sample_bits\<lparr>cmp := 1\<rparr>) 16777216 = Some r' \<and> (range_has r' 5 \<longleftrightarrow> \<not> range_has r 5)"
  using decode_range_cmp_complement [OF sample_bits_ok, of 16777216 decode_range_spi25 5]
  by (simp add: sample_bits_def)

text \<open>The block length is chosen such that the largest coefficient reaches at least half of the chip: with SEC
  and CMP clear and the BP bits one below all ones, at least half of the chip (up to rounding to the largest
  coefficient) is protected.\<close>

theorem decode_range_half_chip:
  assumes "wp_bits_ok bits" and "\<not> cmp_set bits" and "\<not> (sec_bit_present bits \<and> sec bits = 1)"
    and "2 \<le> bp_bit_count bits" and "bp_value bits = 2 ^ bp_bit_count bits - 2"
    and "32768 \<le> chip_len" and "chip_len < 2147483648"
    and "2 * 2 ^ (2 ^ bp_bit_count bits - 3) dvd chip_len"
  shows "\<exists>r. decode_range_spi25 bits chip_len = Some r \<and> chip_len \<le> 2 * wr_len r"
proof -
  note bn = bp_number_ok [OF assms(1)]
  have c4: "(4 :: nat) \<le> 2 ^ bp_bit_count bits" using power_increasing [OF assms(4), of "2 :: nat"] by simp
  have k: "(2 :: nat) ^ bp_bit_count bits \<le> 16" using power_increasing [OF bn(3), of "2 :: nat"] by simp
  define m where "m = (2 :: nat) ^ bp_bit_count bits - 1"
  have m: "bp_value bits = m - 1" "3 \<le> m" "m \<le> 15" "2 ^ bp_bit_count bits - 3 = m - 2"
    using c4 k assms(5) by (auto simp: m_def)
  define q where "q = chip_len div 2 div 2 ^ (m - 2)"
  have chip: "chip_len = 2 * (q * 2 ^ (m - 2))" using assms(8) unfolding m(4) q_def by (auto elim!: dvdE)
  have p: "(2 :: nat) ^ (m - 2) \<le> 2 ^ 13" using m by (intro power_increasing) auto
  have "q \<le> chip_len" unfolding q_def by (meson div_le_dividend le_trans)
  then have mx: "size_max q 65536 = max q 65536" using assms(7) by (intro size_max_small) auto
  have b: "max q 65536 * 2 ^ (m - 2) < 2147483648" using p chip assms(7) by (auto simp: max_def)
  have sh: "shl_one (sub64 (m - 1) 1) = Some (2 ^ (m - 2))" "shl_one (sub64 (sub64 m 1) 1) = Some (2 ^ (m - 2))"
    using m by (auto simp: c_simps)
  have "coeff_len bits chip_len False 1 (m - 1) m = Some (min (max q 65536 * 2 ^ (m - 2)) chip_len)"
    unfolding coeff_len_def sh Let_def bind.bind_lunit q_def [symmetric]
    using b assms(3,7) by (auto simp: mx c_simps)
  then have "base_len bits chip_len False 1 (bp_value bits) = Some (min (max q 65536 * 2 ^ (m - 2)) chip_len)"
    using m unfolding base_len_def m_def [symmetric] by auto
  from decode_range_generic_eq(1) [OF assms(1) _ assms(7,6) _ this, of False] assms(2)
  have "\<exists>r. decode_range_spi25 bits chip_len = Some r \<and> wr_len r = min (max q 65536 * 2 ^ (m - 2)) chip_len"
    by (simp add: decode_range_spi25_def Let_def)
  moreover have "chip_len \<le> 2 * min (max q 65536 * 2 ^ (m - 2)) chip_len" using chip by (auto simp: max_def min_def)
  ultimately show ?thesis by auto
qed

theorem decode_range_half_chip_witness:
  "\<exists>r. decode_range_spi25 (sample_bits\<lparr>cmp := 0, bp := [0, 1, 1, 0]\<rparr>) 67108864 = Some r \<and> 67108864 \<le> 2 * wr_len r"
proof -
  let ?b = "sample_bits\<lparr>cmp := 0, bp := [0, 1, 1, 0]\<rparr>"
  have "wp_bits_ok ?b" by (auto simp: wp_bits_ok_def sample_bits_def MAX_BP_BITS_def less_Suc_eq numeral_3_eq_3)
  moreover have "bp_value ?b = 2 ^ bp_bit_count ?b - 2"
    by (simp add: bp_value_def sample_bits_def upt_conv_Cons)
  ultimately show ?thesis
    using decode_range_half_chip [of ?b 67108864] by (simp add: sample_bits_def cmp_set_def)
qed

end
