(* ===== verification/WriteProtect.thy ===== *)
theory WriteProtect
  imports WpRanges FlashCtx
begin

text \<open>
  Reading and changing the write protection of a chip through its registers
  (\<^verbatim>\<open>flashrom/writeprotect.c\<close>), and the entry points of \<^verbatim>\<open>libflashrom.c\<close>.

  The record \<open>wp_env\<close> holds what the functions take from the flash context: the bus mask, the register
  access functions of an opaque master, those of \<^verbatim>\<open>spi25_statusreg.c\<close>, the bit layout and the decoding
  function of the chip, and its size. \<open>we_junk\<close> is what the uninitialised local \<^verbatim>\<open>struct wp_bits\<close>
  happens to hold. \<open>None\<close> is undefined behaviour.
\<close>

section \<open>Data\<close>

datatype flash_reg = INVALID_REG | STATUS1 | STATUS2 | STATUS3 | SECURITY | CONFIG

datatype writability = RO | RW | OTP

record reg_bit_info =
  bi_reg :: flash_reg
  bi_index :: nat
  bi_writability :: writability

record reg_bit_map =
  rb_srp :: reg_bit_info
  rb_srl :: reg_bit_info
  rb_bp :: "reg_bit_info list"
  rb_tb :: reg_bit_info
  rb_sec :: reg_bit_info
  rb_cmp :: reg_bit_info
  rb_wps :: reg_bit_info

datatype decode_range_func =
    NO_DECODE_RANGE_FUNC | DECODE_RANGE_SPI25 | DECODE_RANGE_SPI25_64K_BLOCK
  | DECODE_RANGE_SPI25_BIT_CMP | DECODE_RANGE_SPI25_2X_BLOCK

datatype wp_result =
    FLASHROM_WP_OK | FLASHROM_WP_ERR_CHIP_UNSUPPORTED | FLASHROM_WP_ERR_OTHER
  | FLASHROM_WP_ERR_READ_FAILED | FLASHROM_WP_ERR_WRITE_FAILED | FLASHROM_WP_ERR_VERIFY_FAILED
  | FLASHROM_WP_ERR_RANGE_UNSUPPORTED | FLASHROM_WP_ERR_MODE_UNSUPPORTED
  | FLASHROM_WP_ERR_RANGE_LIST_UNAVAILABLE | FLASHROM_WP_ERR_UNSUPPORTED_STATE

datatype wp_mode =
    FLASHROM_WP_MODE_DISABLED | FLASHROM_WP_MODE_HARDWARE | FLASHROM_WP_MODE_POWER_CYCLE
  | FLASHROM_WP_MODE_PERMANENT

record wp_cfg =
  cfg_mode :: wp_mode
  cfg_range :: wp_range

record wp_range_and_bits =
  rab_bits :: wp_bits
  rab_range :: wp_range

record 's wp_env =
  we_buses :: bus_mask
  we_opaque_read :: "(flash_reg \<Rightarrow> 's \<Rightarrow> int \<times> u8 \<times> 's) option"
  we_opaque_write :: "(flash_reg \<Rightarrow> u8 \<Rightarrow> 's \<Rightarrow> int \<times> 's) option"
  we_spi_read :: "flash_reg \<Rightarrow> 's \<Rightarrow> int \<times> u8 \<times> 's"
  we_spi_write :: "flash_reg \<Rightarrow> u8 \<Rightarrow> 's \<Rightarrow> int \<times> 's"
  we_opaque_write_cfg :: "(wp_cfg \<Rightarrow> 's \<Rightarrow> wp_result \<times> 's) option"
  we_opaque_read_cfg :: "(wp_cfg \<Rightarrow> 's \<Rightarrow> wp_result \<times> wp_cfg \<times> 's) option"
  we_reg_bits :: reg_bit_map
  we_decode_range :: decode_range_func
  we_chip_len :: nat
  we_calloc :: bool
  we_junk :: wp_bits

definition SPI_INVALID_OPCODE :: int where "SPI_INVALID_OPCODE = -2"

section \<open>Registers\<close>

definition wp_write_register :: "'s wp_env \<Rightarrow> flash_reg \<Rightarrow> u8 \<Rightarrow> 's \<Rightarrow> int \<times> 's" where
  "wp_write_register e reg v s =
     (case (case (has_bus (we_buses e) BUS_PROG, we_opaque_write e) of
              (True, Some f) \<Rightarrow> f reg v s
            | _ \<Rightarrow> we_spi_write e reg v s) of
        (ret, s') \<Rightarrow> (if ret = SPI_INVALID_OPCODE \<and> reg \<noteq> STATUS1 then 0 else ret, s'))"

definition wp_read_register :: "'s wp_env \<Rightarrow> flash_reg \<Rightarrow> 's \<Rightarrow> int \<times> u8 \<times> 's" where
  "wp_read_register e reg s =
     (case (case (has_bus (we_buses e) BUS_PROG, we_opaque_read e) of
              (True, Some f) \<Rightarrow> f reg s
            | _ \<Rightarrow> we_spi_read e reg s) of
        (ret, v, s') \<Rightarrow> if ret = SPI_INVALID_OPCODE \<and> reg \<noteq> STATUS1 then (0, 0, s') else (ret, v, s'))"

section \<open>Reading the bits\<close>

text \<open>The result of \<open>read_bit\<close> is the result code, the value, whether the bit is present, and the state.\<close>

definition read_bit :: "'s wp_env \<Rightarrow> reg_bit_info \<Rightarrow> 's \<Rightarrow> wp_result \<times> u8 \<times> bool \<times> 's" where
  "read_bit e b s =
     (if bi_reg b \<noteq> INVALID_REG
      then (case wp_read_register e (bi_reg b) s of
              (r, v, s') \<Rightarrow>
                if r \<noteq> 0 then (FLASHROM_WP_ERR_READ_FAILED, v, True, s')
                else (FLASHROM_WP_OK, drop_bit (bi_index b) v AND 1, True, s'))
      else (FLASHROM_WP_OK, 0, False, s))"

text \<open>One statement \<^verbatim>\<open>ret = read_bit(...); if (ret != FLASHROM_WP_OK) return ret;\<close> followed by the rest.\<close>

definition read_field ::
    "'s wp_env \<Rightarrow> reg_bit_info \<Rightarrow> (u8 \<Rightarrow> bool \<Rightarrow> wp_bits \<Rightarrow> wp_bits) \<Rightarrow>
     (wp_bits \<Rightarrow> 's \<Rightarrow> wp_result \<times> wp_bits \<times> 's) \<Rightarrow> wp_bits \<Rightarrow> 's \<Rightarrow> wp_result \<times> wp_bits \<times> 's" where
  "read_field e b store rest bits s =
     (case read_bit e b s of
        (ret, v, present, s') \<Rightarrow>
          let bits' = store v present bits
          in if ret \<noteq> FLASHROM_WP_OK then (ret, bits', s') else rest bits' s')"

fun read_bp_loop :: "'s wp_env \<Rightarrow> nat list \<Rightarrow> wp_bits \<Rightarrow> 's \<Rightarrow> wp_result \<times> wp_bits \<times> 's" where
  "read_bp_loop e [] bits s = (FLASHROM_WP_OK, bits, s)"
| "read_bp_loop e (i # js) bits s =
     (if bi_reg (rb_bp (we_reg_bits e) ! i) = INVALID_REG then (FLASHROM_WP_OK, bits, s)
      else read_field e (rb_bp (we_reg_bits e) ! i)
             (\<lambda>v p bits. bits\<lparr>bp_bit_count := Suc i, bp := (bp bits)[i := v]\<rparr>) (read_bp_loop e js) bits s)"

definition read_wp_bits :: "'s wp_env \<Rightarrow> wp_bits \<Rightarrow> 's \<Rightarrow> wp_result \<times> wp_bits \<times> 's" where
  "read_wp_bits e bits s =
     (let m = we_reg_bits e;
          fields =
            read_field e (rb_tb m) (\<lambda>v p b. b\<lparr>tb := v, tb_bit_present := p\<rparr>)
           (read_field e (rb_sec m) (\<lambda>v p b. b\<lparr>sec := v, sec_bit_present := p\<rparr>)
           (read_field e (rb_cmp m) (\<lambda>v p b. b\<lparr>cmp := v, cmp_bit_present := p\<rparr>)
           (read_field e (rb_srp m) (\<lambda>v p b. b\<lparr>srp := v, srp_bit_present := p\<rparr>)
           (read_field e (rb_srl m) (\<lambda>v p b. b\<lparr>srl := v, srl_bit_present := p\<rparr>)
           (read_bp_loop e [0..<MAX_BP_BITS])))))
      in if bi_reg (rb_wps m) \<noteq> INVALID_REG \<and> bi_writability (rb_wps m) \<noteq> RW
         then (case read_bit e (rb_wps m) s of
                 (ret, wps, present, s') \<Rightarrow>
                   if ret \<noteq> FLASHROM_WP_OK then (ret, bits, s')
                   else if present \<and> wps \<noteq> 0 then (FLASHROM_WP_ERR_UNSUPPORTED_STATE, bits, s')
                   else fields bits s')
         else fields bits s)"

section \<open>Writing the bits\<close>

text \<open>The arrays \<^verbatim>\<open>reg_values\<close>, \<^verbatim>\<open>bit_masks\<close> and \<^verbatim>\<open>write_masks\<close>, indexed by register.\<close>

record reg_masks =
  rm_values :: "flash_reg \<Rightarrow> u8"
  rm_bits :: "flash_reg \<Rightarrow> u8"
  rm_write :: "flash_reg \<Rightarrow> u8"

definition set_reg_bit :: "reg_bit_info \<Rightarrow> u8 \<Rightarrow> reg_masks \<Rightarrow> reg_masks" where
  "set_reg_bit b v m =
     (if bi_reg b \<noteq> INVALID_REG
      then \<lparr>rm_values = (rm_values m)(bi_reg b := rm_values m (bi_reg b) OR push_bit (bi_index b) v),
            rm_bits = (rm_bits m)(bi_reg b := rm_bits m (bi_reg b) OR push_bit (bi_index b) 1),
            rm_write = (if bi_writability b = RW
                        then (rm_write m)(bi_reg b := rm_write m (bi_reg b) OR push_bit (bi_index b) 1)
                        else rm_write m)\<rparr>
      else m)"

definition get_wp_bits_reg_values :: "reg_bit_map \<Rightarrow> wp_bits \<Rightarrow> reg_masks" where
  "get_wp_bits_reg_values rb bits =
     (let m0 = \<lparr>rm_values = \<lambda>r. 0, rm_bits = \<lambda>r. 0, rm_write = \<lambda>r. 0\<rparr>;
          m1 = fold (\<lambda>i. set_reg_bit (rb_bp rb ! i) (bp bits ! i)) [0..<bp_bit_count bits] m0
      in set_reg_bit (rb_wps rb) 0
        (set_reg_bit (rb_srl rb) (srl bits)
        (set_reg_bit (rb_srp rb) (srp bits)
        (set_reg_bit (rb_cmp rb) (cmp bits)
        (set_reg_bit (rb_sec rb) (sec bits)
        (set_reg_bit (rb_tb rb) (tb bits) m1))))))"

text \<open>The registers in the order of the loops of \<^verbatim>\<open>write_wp_bits\<close>.\<close>

definition all_regs :: "flash_reg list" where
  "all_regs = [STATUS1, STATUS2, STATUS3, SECURITY, CONFIG]"

fun write_regs :: "'s wp_env \<Rightarrow> reg_masks \<Rightarrow> flash_reg list \<Rightarrow> 's \<Rightarrow> wp_result \<times> 's" where
  "write_regs e m [] s = (FLASHROM_WP_OK, s)"
| "write_regs e m (reg # rs) s =
     (if rm_write m reg = 0 then write_regs e m rs s
      else
        (case wp_read_register e reg s of
           (r, v, s1) \<Rightarrow>
             if r \<noteq> 0 then (FLASHROM_WP_ERR_READ_FAILED, s1)
             else
               let actual = v AND rm_write m reg; expected = rm_values m reg AND rm_write m reg
               in if actual = expected then write_regs e m rs s1
                  else
                    (case wp_write_register e reg ((v AND NOT (rm_write m reg)) OR expected) s1 of
                       (w, s2) \<Rightarrow>
                         if w \<noteq> 0 then (FLASHROM_WP_ERR_WRITE_FAILED, s2) else write_regs e m rs s2)))"

fun verify_regs :: "'s wp_env \<Rightarrow> reg_masks \<Rightarrow> wp_result \<Rightarrow> flash_reg list \<Rightarrow> 's \<Rightarrow> wp_result \<times> 's" where
  "verify_regs e m ret [] s = (ret, s)"
| "verify_regs e m ret (reg # rs) s =
     (if rm_bits m reg = 0 then verify_regs e m ret rs s
      else
        (case wp_read_register e reg s of
           (r, v, s1) \<Rightarrow>
             if r \<noteq> 0 then (FLASHROM_WP_ERR_READ_FAILED, s1)
             else verify_regs e m
                    (if v AND rm_bits m reg \<noteq> rm_values m reg AND rm_bits m reg
                     then FLASHROM_WP_ERR_VERIFY_FAILED else ret) rs s1))"

definition write_wp_bits :: "'s wp_env \<Rightarrow> wp_bits \<Rightarrow> 's \<Rightarrow> wp_result \<times> 's" where
  "write_wp_bits e bits s =
     (let m = get_wp_bits_reg_values (we_reg_bits e) bits
      in case write_regs e m all_regs s of
           (r, s') \<Rightarrow> if r \<noteq> FLASHROM_WP_OK then (r, s') else verify_regs e m FLASHROM_WP_OK all_regs s')"

section \<open>Ranges\<close>

definition lookup_decode_range_func_ptr :: "decode_range_func \<Rightarrow> (wp_bits \<Rightarrow> nat \<Rightarrow> wp_range option) option" where
  "lookup_decode_range_func_ptr d =
     (case d of
        DECODE_RANGE_SPI25 \<Rightarrow> Some decode_range_spi25
      | DECODE_RANGE_SPI25_64K_BLOCK \<Rightarrow> Some decode_range_spi25_64k_block
      | DECODE_RANGE_SPI25_BIT_CMP \<Rightarrow> Some decode_range_spi25_bit_cmp
      | DECODE_RANGE_SPI25_2X_BLOCK \<Rightarrow> Some decode_range_spi25_2x_block
      | NO_DECODE_RANGE_FUNC \<Rightarrow> None)"

text \<open>The last argument is the old value of the output \<^verbatim>\<open>*range\<close>.\<close>

definition get_wp_range :: "'s wp_env \<Rightarrow> wp_bits \<Rightarrow> wp_range \<Rightarrow> (wp_result \<times> wp_range) option" where
  "get_wp_range e bits rg =
     (case lookup_decode_range_func_ptr (we_decode_range e) of
        None \<Rightarrow> Some (FLASHROM_WP_ERR_OTHER, rg)
      | Some decode \<Rightarrow> map_option (\<lambda>r. (FLASHROM_WP_OK, r)) (decode bits (we_chip_len e)))"

text \<open>The differences are of type \<^verbatim>\<open>size_t\<close> for the range and \<^verbatim>\<open>int\<close> for the bits, and are stored in an
  \<^verbatim>\<open>int\<close>.\<close>

definition size_diff :: "nat \<Rightarrow> nat \<Rightarrow> int" where
  "size_diff a b = s32 (u32_of_int (int a - int b))"

definition bit_diff :: "u8 \<Rightarrow> u8 \<Rightarrow> int" where
  "bit_diff a b = int (unat a) - int (unat b)"

definition compare_ranges :: "wp_range_and_bits \<Rightarrow> wp_range_and_bits \<Rightarrow> int" where
  "compare_ranges a b =
     (let next = (\<lambda>d ord. if ord = 0 then d else ord);
          ord = size_diff (wr_len (rab_range a)) (wr_len (rab_range b));
          ord = next (size_diff (wr_start (rab_range a)) (wr_start (rab_range b))) ord;
          ord = next (bit_diff (cmp (rab_bits a)) (cmp (rab_bits b))) ord;
          ord = next (bit_diff (sec (rab_bits a)) (sec (rab_bits b))) ord;
          ord = next (bit_diff (tb (rab_bits a)) (tb (rab_bits b))) ord
      in fold (\<lambda>i. next (bit_diff (bp (rab_bits a) ! i) (bp (rab_bits b) ! i)))
           (rev [0..<bp_bit_count (rab_bits a)]) ord)"

text \<open>The sorting of the C library: elements that compare equal are in an unspecified order there.\<close>

fun insert_range :: "wp_range_and_bits \<Rightarrow> wp_range_and_bits list \<Rightarrow> wp_range_and_bits list" where
  "insert_range x [] = [x]"
| "insert_range x (y # ys) = (if compare_ranges x y \<le> 0 then x # y # ys else y # insert_range x ys)"

fun qsort_ranges :: "wp_range_and_bits list \<Rightarrow> wp_range_and_bits list" where
  "qsort_ranges [] = []"
| "qsort_ranges (x # xs) = insert_range x (qsort_ranges xs)"

definition can_write_bit :: "reg_bit_info \<Rightarrow> bool" where
  "can_write_bit b \<longleftrightarrow> bi_reg b \<noteq> INVALID_REG \<and> bi_writability b = RW"

text \<open>The array \<^verbatim>\<open>range_bits\<close> of pointers to members of \<^verbatim>\<open>bits\<close>.\<close>

datatype bit_ptr = BP_PTR nat | TB_PTR | SEC_PTR | CMP_PTR

fun store_bit :: "bit_ptr \<Rightarrow> u8 \<Rightarrow> wp_bits \<Rightarrow> wp_bits" where
  "store_bit (BP_PTR i) v b = b\<lparr>bp := (bp b)[i := v]\<rparr>"
| "store_bit TB_PTR v b = b\<lparr>tb := v\<rparr>"
| "store_bit SEC_PTR v b = b\<lparr>sec := v\<rparr>"
| "store_bit CMP_PTR v b = b\<lparr>cmp := v\<rparr>"

definition range_bit_ptrs :: "reg_bit_map \<Rightarrow> bit_ptr list" where
  "range_bit_ptrs rb =
     map BP_PTR (filter (\<lambda>i. can_write_bit (rb_bp rb ! i)) [0..<MAX_BP_BITS]) @
     (if can_write_bit (rb_tb rb) then [TB_PTR] else []) @
     (if can_write_bit (rb_sec rb) then [SEC_PTR] else []) @
     (if can_write_bit (rb_cmp rb) then [CMP_PTR] else [])"

definition assign_bits :: "bit_ptr list \<Rightarrow> nat \<Rightarrow> wp_bits \<Rightarrow> wp_bits" where
  "assign_bits ptrs idx bits =
     fold (\<lambda>i. store_bit (ptrs ! i) (of_nat (drop_bit i idx AND 1))) [0..<length ptrs] bits"

fun enum_ranges ::
    "'s wp_env \<Rightarrow> bit_ptr list \<Rightarrow> nat list \<Rightarrow> wp_bits \<Rightarrow> (wp_result \<times> wp_range_and_bits list) option" where
  "enum_ranges e ptrs [] bits = Some (FLASHROM_WP_OK, [])"
| "enum_ranges e ptrs (idx # rest) bits =
     (let bits' = assign_bits ptrs idx bits
      in Option.bind (get_wp_range e bits' \<lparr>wr_start = 0, wr_len = 0\<rparr>) (\<lambda>(ret, rg).
           if ret \<noteq> FLASHROM_WP_OK then Some (ret, [])
           else map_option (\<lambda>(r, xs). (r, \<lparr>rab_bits = bits', rab_range = rg\<rparr> # xs))
                  (enum_ranges e ptrs rest bits')))"

fun dedup_ranges :: "wp_range option \<Rightarrow> wp_range_and_bits list \<Rightarrow> wp_range_and_bits list" where
  "dedup_ranges prev [] = []"
| "dedup_ranges prev (x # xs) =
     (case prev of
        Some r \<Rightarrow>
          if wr_start (rab_range x) \<noteq> wr_start r \<or> wr_len (rab_range x) \<noteq> wr_len r
          then x # dedup_ranges (Some (rab_range x)) xs else dedup_ranges prev xs
      | None \<Rightarrow> x # dedup_ranges (Some (rab_range x)) xs)"

text \<open>The result of \<^verbatim>\<open>calloc\<close> is used without a check.\<close>

definition get_ranges_and_wp_bits ::
    "'s wp_env \<Rightarrow> wp_bits \<Rightarrow> (wp_result \<times> wp_range_and_bits list) option" where
  "get_ranges_and_wp_bits e bits =
     (let ptrs = range_bit_ptrs (we_reg_bits e); count = 2 ^ length ptrs
      in if \<not> we_calloc e then None
         else Option.bind (enum_ranges e ptrs [0..<count] bits) (\<lambda>(ret, xs).
           if ret \<noteq> FLASHROM_WP_OK then Some (ret, [])
           else Some (FLASHROM_WP_OK, dedup_ranges None (qsort_ranges xs))))"

definition ranges_equal :: "wp_range \<Rightarrow> wp_range \<Rightarrow> bool" where
  "ranges_equal a b \<longleftrightarrow> wr_start a = wr_start b \<and> wr_len a = wr_len b"

definition set_wp_range :: "'s wp_env \<Rightarrow> wp_bits \<Rightarrow> wp_range \<Rightarrow> (wp_result \<times> wp_bits) option" where
  "set_wp_range e bits rg =
     Option.bind (get_ranges_and_wp_bits e bits) (\<lambda>(ret, ranges).
       if ret \<noteq> FLASHROM_WP_OK then Some (ret, bits)
       else Some (case find (\<lambda>x. ranges_equal (rab_range x) rg) ranges of
                    Some x \<Rightarrow> (FLASHROM_WP_OK, rab_bits x)
                  | None \<Rightarrow> (FLASHROM_WP_ERR_RANGE_UNSUPPORTED, bits)))"

section \<open>Modes\<close>

definition get_wp_mode :: "wp_bits \<Rightarrow> wp_mode option" where
  "get_wp_mode bits =
     (if srl bits = 0 \<and> srp bits = 0 then Some FLASHROM_WP_MODE_DISABLED
      else if srl bits = 0 \<and> srp bits = 1 then Some FLASHROM_WP_MODE_HARDWARE
      else if srl bits = 1 \<and> srp bits = 0 then Some FLASHROM_WP_MODE_POWER_CYCLE
      else if srl bits = 1 \<and> srp bits = 1 then Some FLASHROM_WP_MODE_PERMANENT
      else None)"

definition set_wp_mode :: "wp_bits \<Rightarrow> wp_mode \<Rightarrow> wp_result \<times> wp_bits" where
  "set_wp_mode bits mode =
     (case mode of
        FLASHROM_WP_MODE_DISABLED \<Rightarrow> (FLASHROM_WP_OK, bits\<lparr>srl := 0, srp := 0\<rparr>)
      | FLASHROM_WP_MODE_HARDWARE \<Rightarrow>
          if \<not> srp_bit_present bits then (FLASHROM_WP_ERR_MODE_UNSUPPORTED, bits)
          else (FLASHROM_WP_OK, bits\<lparr>srl := 0, srp := 1\<rparr>)
      | _ \<Rightarrow> (FLASHROM_WP_ERR_MODE_UNSUPPORTED, bits))"

section \<open>Configurations\<close>

definition chip_supported :: "'s wp_env \<Rightarrow> bool" where
  "chip_supported e \<longleftrightarrow> we_decode_range e \<noteq> NO_DECODE_RANGE_FUNC"

definition wp_operations_available :: "'s wp_env \<Rightarrow> bool" where
  "wp_operations_available e \<longleftrightarrow> has_bus (we_buses e) BUS_SPI \<or>
     (has_bus (we_buses e) BUS_PROG \<and> we_opaque_read e \<noteq> None \<and> we_opaque_write e \<noteq> None)"

definition wp_read_cfg :: "'s wp_env \<Rightarrow> wp_cfg \<Rightarrow> 's \<Rightarrow> (wp_result \<times> wp_cfg \<times> 's) option" where
  "wp_read_cfg e cfg s =
     (if \<not> chip_supported e then Some (FLASHROM_WP_ERR_CHIP_UNSUPPORTED, cfg, s)
      else
        (case read_wp_bits e (we_junk e) s of
           (ret, bits, s') \<Rightarrow>
             if ret \<noteq> FLASHROM_WP_OK then Some (ret, cfg, s')
             else Option.bind (get_wp_range e bits (cfg_range cfg)) (\<lambda>(ret, rg).
               let cfg' = cfg\<lparr>cfg_range := rg\<rparr>
               in if ret \<noteq> FLASHROM_WP_OK then Some (ret, cfg', s')
                  else map_option (\<lambda>mode. (FLASHROM_WP_OK, cfg'\<lparr>cfg_mode := mode\<rparr>, s')) (get_wp_mode bits))))"

definition wp_write_cfg :: "'s wp_env \<Rightarrow> wp_cfg \<Rightarrow> 's \<Rightarrow> (wp_result \<times> 's) option" where
  "wp_write_cfg e cfg s =
     (if \<not> chip_supported e then Some (FLASHROM_WP_ERR_CHIP_UNSUPPORTED, s)
      else
        (case read_wp_bits e (we_junk e) s of
           (ret, bits, s1) \<Rightarrow>
             if ret \<noteq> FLASHROM_WP_OK then Some (ret, s1)
             else Option.bind (set_wp_range e bits (cfg_range cfg)) (\<lambda>(ret, bits1).
               if ret \<noteq> FLASHROM_WP_OK then Some (ret, s1)
               else
                 (case write_wp_bits e bits1 s1 of
                    (ret, s2) \<Rightarrow>
                      if ret \<noteq> FLASHROM_WP_OK then Some (ret, s2)
                      else
                        (case set_wp_mode bits1 (cfg_mode cfg) of
                           (ret, bits2) \<Rightarrow>
                             if ret \<noteq> FLASHROM_WP_OK then Some (ret, s2)
                             else Some (write_wp_bits e bits2 s2))))))"

text \<open>The list of ranges is allocated anew; \<open>ok\<close> says whether that works.\<close>

definition wp_get_available_ranges ::
    "'s wp_env \<Rightarrow> bool \<Rightarrow> 's \<Rightarrow> (wp_result \<times> wp_range list \<times> 's) option" where
  "wp_get_available_ranges e ok s =
     (if \<not> chip_supported e then Some (FLASHROM_WP_ERR_CHIP_UNSUPPORTED, [], s)
      else
        (case read_wp_bits e (we_junk e) s of
           (ret, bits, s') \<Rightarrow>
             if ret \<noteq> FLASHROM_WP_OK then Some (ret, [], s')
             else Option.bind (get_ranges_and_wp_bits e bits) (\<lambda>(ret, pairs).
               if ret \<noteq> FLASHROM_WP_OK then Some (ret, [], s')
               else if \<not> ok then Some (FLASHROM_WP_ERR_OTHER, [], s')
               else Some (FLASHROM_WP_OK, map rab_range pairs, s'))))"

definition wp_cfg_to_reg_values :: "'s wp_env \<Rightarrow> wp_cfg \<Rightarrow> 's \<Rightarrow> ((wp_result \<times> reg_masks option) \<times> 's) option" where
  "wp_cfg_to_reg_values e cfg s =
     (if \<not> chip_supported e then Some ((FLASHROM_WP_ERR_CHIP_UNSUPPORTED, None), s)
      else
        (case read_wp_bits e (we_junk e) s of
           (ret, bits, s1) \<Rightarrow>
             if ret \<noteq> FLASHROM_WP_OK then Some ((ret, None), s1)
             else Option.bind (set_wp_range e bits (cfg_range cfg)) (\<lambda>(ret, bits1).
               if ret \<noteq> FLASHROM_WP_OK then Some ((ret, None), s1)
               else
                 (case set_wp_mode bits1 (cfg_mode cfg) of
                    (ret, bits2) \<Rightarrow>
                      if ret \<noteq> FLASHROM_WP_OK then Some ((ret, None), s1)
                      else Some ((FLASHROM_WP_OK, Some (get_wp_bits_reg_values (we_reg_bits e) bits2)), s1)))))"

definition flashrom_wp_write_cfg :: "'s wp_env \<Rightarrow> wp_cfg \<Rightarrow> 's \<Rightarrow> (wp_result \<times> 's) option" where
  "flashrom_wp_write_cfg e cfg s =
     (case (has_bus (we_buses e) BUS_PROG, we_opaque_write_cfg e) of
        (True, Some f) \<Rightarrow> Some (f cfg s)
      | _ \<Rightarrow> if wp_operations_available e then wp_write_cfg e cfg s else Some (FLASHROM_WP_ERR_OTHER, s))"

definition flashrom_wp_read_cfg :: "'s wp_env \<Rightarrow> wp_cfg \<Rightarrow> 's \<Rightarrow> (wp_result \<times> wp_cfg \<times> 's) option" where
  "flashrom_wp_read_cfg e cfg s =
     (case (has_bus (we_buses e) BUS_PROG, we_opaque_read_cfg e) of
        (True, Some f) \<Rightarrow> Some (f cfg s)
      | _ \<Rightarrow> if wp_operations_available e then wp_read_cfg e cfg s else Some (FLASHROM_WP_ERR_OTHER, cfg, s))"

end
