(* ===== verification/FlashAccess.thy ===== *)
theory FlashAccess
  imports FlashOps WriteProtect
begin

text \<open>
  Gaining access to a chip before an operation and giving it back: \<^verbatim>\<open>chip_safety_check\<close>,
  \<^verbatim>\<open>can_change_target_regions\<close>, \<^verbatim>\<open>unlock_flash_wp\<close>, \<^verbatim>\<open>prepare_flash_access\<close> and
  \<^verbatim>\<open>finalize_flash_access\<close> of \<^verbatim>\<open>flashrom/flashrom.c\<close>.

  The calls that only talk to the hardware are collected in the record \<open>access\<close>: mapping and
  unmapping the chip, the register access of the write-protect support (\<open>wp_env\<close>), the unlock
  function of the chip, the addressing modes and the delay. The array \<^verbatim>\<open>chip_restore_fn\<close> of the context
  is a list of restore functions, each with its data bound, in the order of registration.
\<close>

section \<open>Data\<close>

definition FEATURE_4BA_ENTER :: "32 word" where "FEATURE_4BA_ENTER = 0x400"
definition FEATURE_4BA_ENTER_WREN :: "32 word" where "FEATURE_4BA_ENTER_WREN = 0x800"
definition FEATURE_4BA_ENTER_EAR7 :: "32 word" where "FEATURE_4BA_ENTER_EAR7 = 0x1000"
definition FEATURE_4BA_READ :: "32 word" where "FEATURE_4BA_READ = 0x8000"
definition FEATURE_4BA_FAST_READ :: "32 word" where "FEATURE_4BA_FAST_READ = 0x10000"
definition FEATURE_4BA_WRITE :: "32 word" where "FEATURE_4BA_WRITE = 0x20000"
definition FEATURE_4BA_NATIVE :: "32 word" where
  "FEATURE_4BA_NATIVE = FEATURE_4BA_READ OR FEATURE_4BA_FAST_READ OR FEATURE_4BA_WRITE"

definition SPI_MASTER_4BA :: "32 word" where "SPI_MASTER_4BA = 1"
definition SPI_MASTER_NO_4BA_MODES :: "32 word" where "SPI_MASTER_NO_4BA_MODES = 2"

definition MAX_CHIP_RESTORE_FUNCTIONS :: nat where "MAX_CHIP_RESTORE_FUNCTIONS = 4"

type_synonym 's restore_fns = "('s \<Rightarrow> (int \<times> 's) option) list"

text \<open>\<open>ac_cfg_alloc\<close> says whether \<^verbatim>\<open>flashrom_wp_cfg_new\<close> gets its memory; \<open>ac_clear_addressing\<close> sets
  \<^verbatim>\<open>address_high_byte\<close> and \<^verbatim>\<open>in_4ba_mode\<close>; \<open>ac_image_mismatch\<close> says that the programmer is the internal
  one and the image is for another board.\<close>

record 's access =
  ac_programmer_may_write :: bool
  ac_spi_features :: "32 word"
  ac_map_flash :: "'s \<Rightarrow> int \<times> 's"
  ac_unmap_flash :: "'s \<Rightarrow> 's"
  ac_wp :: "'s wp_env"
  ac_cfg_alloc :: bool
  ac_blockprotect :: "('s restore_fns \<Rightarrow> 's \<Rightarrow> (int \<times> 's restore_fns \<times> 's) option) option"
  ac_protected_ranges :: "flash_region list"
  ac_clear_addressing :: "'s \<Rightarrow> 's"
  ac_enter_4ba :: "'s \<Rightarrow> (int \<times> 's) option"
  ac_exit_4ba :: "'s \<Rightarrow> (int \<times> 's) option"
  ac_delay :: "'s \<Rightarrow> 's"
  ac_image_mismatch :: "bytes \<Rightarrow> bool"

section \<open>Operations\<close>

definition spi_master_4ba :: "'s flashctx \<Rightarrow> 's access \<Rightarrow> bool" where
  "spi_master_4ba c a \<longleftrightarrow>
     has_bus (m_buses_supported (c_mst c)) BUS_SPI \<and> ac_spi_features a AND SPI_MASTER_4BA \<noteq> 0"

definition spi_master_no_4ba_modes :: "'s flashctx \<Rightarrow> 's access \<Rightarrow> bool" where
  "spi_master_no_4ba_modes c a \<longleftrightarrow>
     has_bus (m_buses_supported (c_mst c)) BUS_SPI \<and> ac_spi_features a AND SPI_MASTER_NO_4BA_MODES \<noteq> 0"

definition spi_chip_4ba :: "'s flashctx \<Rightarrow> bool" where
  "spi_chip_4ba c \<longleftrightarrow> ch_bustype (c_chip c) = BUS_SPI \<and>
     ch_feature_bits (c_chip c) AND
       (FEATURE_4BA_ENTER OR FEATURE_4BA_ENTER_WREN OR FEATURE_4BA_ENTER_EAR7) \<noteq> 0"

text \<open>The checks in the order of the code; each \<open>else\<close> is the code going on after a passed check.\<close>

definition chip_safety_check ::
    "'s flashctx \<Rightarrow> 's access \<Rightarrow> bool \<Rightarrow> bool \<Rightarrow> bool \<Rightarrow> bool \<Rightarrow> bool \<Rightarrow> int" where
  "chip_safety_check c a force read_it write_it erase_it verify_it =
     (let chip = c_chip c; t = ch_tested chip in
      if \<not> ac_programmer_may_write a \<and> (write_it \<or> erase_it) \<and> \<not> force then 1
      else if (read_it \<or> erase_it \<or> write_it \<or> verify_it) \<and> t_read t = BAD \<and> \<not> force then 1
      else if (read_it \<or> erase_it \<or> write_it \<or> verify_it) \<and> lookup_read_func_ptr c = None then 1
      else if (erase_it \<or> write_it) \<and> t_erase t = NA then 1
      else if (erase_it \<or> write_it) \<and> t_erase t = BAD \<and> \<not> force then 1
      else if (erase_it \<or> write_it) \<and> count_usable_erasers c = 0 then 1
      else if write_it \<and> t_write t = NA then 1
      else if write_it \<and> t_write t = BAD \<and> \<not> force then 1
      else if write_it \<and> lookup_write_func_ptr c = None then 1
      else 0)"

text \<open>The functions that undo changes of the chip when access ends.\<close>

definition register_chip_restore ::
    "('s \<Rightarrow> (int \<times> 's) option) \<Rightarrow> 's restore_fns \<Rightarrow> int \<times> 's restore_fns" where
  "register_chip_restore f fns =
     (if length fns \<ge> MAX_CHIP_RESTORE_FUNCTIONS then (1, fns) else (0, fns @ [f]))"

fun run_restores :: "'s restore_fns \<Rightarrow> int \<Rightarrow> 's \<Rightarrow> (int \<times> 's) option" where
  "run_restores [] rc s = Some (rc, s)"
| "run_restores (f # fns) rc s = Option.bind (f s) (\<lambda>(r, s'). run_restores fns (rc OR r) s')"

definition deregister_chip_restore :: "'s restore_fns \<Rightarrow> 's \<Rightarrow> (int \<times> 's) option" where
  "deregister_chip_restore fns s = run_restores (rev fns) 0 s"

text \<open>Unlocking through the write-protect support, with the configuration found to be restored later.\<close>

definition new_wp_cfg :: wp_cfg where
  "new_wp_cfg = \<lparr>cfg_mode = FLASHROM_WP_MODE_DISABLED, cfg_range = \<lparr>wr_start = 0, wr_len = 0\<rparr>\<rparr>"

definition restore_flash_wp :: "'s access \<Rightarrow> wp_cfg \<Rightarrow> 's \<Rightarrow> (int \<times> 's) option" where
  "restore_flash_wp a cfg s =
     map_option (\<lambda>(r, s'). (if r = FLASHROM_WP_OK then 0 else -1, s')) (flashrom_wp_write_cfg (ac_wp a) cfg s)"

definition save_initial_flash_wp ::
    "'s access \<Rightarrow> 's restore_fns \<Rightarrow> 's \<Rightarrow> (int \<times> 's restore_fns \<times> 's) option" where
  "save_initial_flash_wp a fns s =
     (if \<not> ac_cfg_alloc a then Some (-1, fns, s)
      else Option.bind (flashrom_wp_read_cfg (ac_wp a) new_wp_cfg s) (\<lambda>(r, cfg, s').
        if r \<noteq> FLASHROM_WP_OK then Some (-1, fns, s')
        else case register_chip_restore (restore_flash_wp a cfg) fns of
               (e, fns') \<Rightarrow> Some (if e \<noteq> 0 then -1 else 0, fns', s')))"

definition unlock_flash_wp ::
    "'s access \<Rightarrow> bool \<Rightarrow> bool \<Rightarrow> 's restore_fns \<Rightarrow> 's \<Rightarrow> (int \<times> 's restore_fns \<times> 's) option" where
  "unlock_flash_wp a write_it erase_it fns s =
     (if \<not> write_it \<and> \<not> erase_it then Some (-1, fns, s)
      else Option.bind (save_initial_flash_wp a fns s) (\<lambda>(r, fns', s1).
        if r \<noteq> 0 then Some (-1, fns', s1)
        else if \<not> ac_cfg_alloc a then Some (-1, fns', s1)
        else map_option (\<lambda>(w, s2). (if w \<noteq> FLASHROM_WP_OK then -1 else 0, fns', s2))
               (flashrom_wp_write_cfg (ac_wp a) new_wp_cfg s1)))"

text \<open>The loop of \<^verbatim>\<open>can_change_target_regions\<close> over the included regions; the sums of the code are
  \<^verbatim>\<open>size_t\<close> sums and do not wrap.\<close>

fun target_regions_loop ::
    "'s flashctx \<Rightarrow> 's access \<Rightarrow> (nat \<times> nat) option \<Rightarrow> romentry list \<Rightarrow> bool option" where
  "target_regions_loop c a wp [] = Some True"
| "target_regions_loop c a wp (e # es) =
     (let r = re_region e
      in Option.bind
           (if \<not> fl_skip_unwritable_regions (c_flags c)
            then check_for_unwritable_regions c (fr_start r) (add32 (sub32 (fr_end r) (fr_start r)) 1)
            else Some 0)
         (\<lambda>u. if u \<noteq> 0 then Some False
              else if (case wp of
                         Some (wp_start, wp_len) \<Rightarrow> fr_start r < wp_start + wp_len \<and> wp_start \<le> fr_end r
                       | None \<Rightarrow> False) then Some False
              else if (\<exists>p \<in> set (ac_protected_ranges a).
                         fr_write_prot p \<and> fr_start p \<le> fr_end r \<and> fr_end p \<ge> fr_start r) then Some False
              else target_regions_loop c a wp es))"

text \<open>The active write-protect range, if the configuration can be read and one is active.\<close>

definition active_wp_range :: "'s access \<Rightarrow> 's \<Rightarrow> ((nat \<times> nat) option \<times> 's) option" where
  "active_wp_range a s =
     (if \<not> ac_cfg_alloc a then Some (None, s)
      else map_option
        (\<lambda>(r, cfg, s').
           (if r = FLASHROM_WP_OK \<and> cfg_mode cfg \<noteq> FLASHROM_WP_MODE_DISABLED \<and> wr_len (cfg_range cfg) \<noteq> 0
            then Some (wr_start (cfg_range cfg), wr_len (cfg_range cfg)) else None, s'))
        (flashrom_wp_read_cfg (ac_wp a) new_wp_cfg s))"

definition can_change_target_regions :: "'s flashctx \<Rightarrow> 's access \<Rightarrow> 's \<Rightarrow> (bool \<times> 's) option" where
  "can_change_target_regions c a s =
     Option.bind (active_wp_range a s) (\<lambda>(wp, s').
       map_option (\<lambda>b. (b, s')) (target_regions_loop c a wp (walk_included (get_layout c) [])))"

text \<open>The last part of \<^verbatim>\<open>prepare_flash_access\<close>: the addressing modes.\<close>

definition prepare_4ba :: "'s flashctx \<Rightarrow> 's access \<Rightarrow> 's \<Rightarrow> (int \<times> 's) option" where
  "prepare_4ba c a s =
     (let s1 = ac_clear_addressing a s
      in if ch_total_size (c_chip c) > 16 * 1024 \<and> spi_master_no_4ba_modes c a \<and>
            (ch_feature_bits (c_chip c) AND FEATURE_4BA_NATIVE \<noteq> FEATURE_4BA_NATIVE \<or> \<not> spi_master_4ba c a)
         then Some (1, s1)
         else if spi_chip_4ba c
         then map_option (\<lambda>(ret, s2). (if ret \<noteq> 0 then 1 else 0, s2))
                (if spi_master_4ba c a then ac_enter_4ba a s1 else ac_exit_4ba a s1)
         else Some (0, s1))"

text \<open>The middle part: unlocking with the write-protect support, or else with the function of the chip.\<close>

definition unlock_chip :: "'s access \<Rightarrow> bool \<Rightarrow> bool \<Rightarrow> 's \<Rightarrow> ('s restore_fns \<times> 's) option" where
  "unlock_chip a write_it erase_it s =
     Option.bind
       (if we_decode_range (ac_wp a) \<noteq> NO_DECODE_RANGE_FUNC \<or>
           has_bus (we_buses (ac_wp a)) BUS_PROG \<and> we_opaque_write_cfg (ac_wp a) \<noteq> None
        then unlock_flash_wp a write_it erase_it [] s else Some (1, [], s))
       (\<lambda>(ret, fns, s1).
          case ac_blockprotect a of
            Some f \<Rightarrow> if ret \<noteq> 0 then map_option snd (f fns s1) else Some (fns, s1)
          | None \<Rightarrow> Some (fns, s1))"

definition prepare_flash_access ::
    "'s flashctx \<Rightarrow> 's access \<Rightarrow> bool \<Rightarrow> bool \<Rightarrow> bool \<Rightarrow> bool \<Rightarrow> 's restore_fns \<Rightarrow> 's \<Rightarrow>
     (int \<times> 's restore_fns \<times> 's) option" where
  "prepare_flash_access c a read_it write_it erase_it verify_it fns0 s =
     (if chip_safety_check c a (fl_force (c_flags c)) read_it write_it erase_it verify_it \<noteq> 0 then Some (1, fns0, s)
      else if layout_sanity_checks (ch_total_size (c_chip c)) (get_layout c) \<noteq> 0 then Some (1, fns0, s)
      else
        (case ac_map_flash a s of
           (m, s1) \<Rightarrow>
             if m \<noteq> 0 then Some (1, fns0, s1)
             else Option.bind (unlock_chip a write_it erase_it s1) (\<lambda>(fns, s3).
               Option.bind
                 (if (write_it \<or> erase_it) \<and> \<not> fl_force (c_flags c)
                  then can_change_target_regions c a s3 else Some (True, s3))
                 (\<lambda>(ok, s4). if \<not> ok then Some (1, fns, s4)
                             else map_option (\<lambda>(r, s5). (r, fns, s5)) (prepare_4ba c a s4)))))"

definition finalize_flash_access :: "'s access \<Rightarrow> 's restore_fns \<Rightarrow> 's \<Rightarrow> 's option" where
  "finalize_flash_access a fns s =
     map_option (\<lambda>(rc, s'). ac_unmap_flash a s') (deregister_chip_restore fns s)"

end
