(* ===== verification/ImageOps.thy ===== *)
theory ImageOps
  imports EraseWriteOk FlashAccess
begin

text \<open>
  The operations of \<^verbatim>\<open>libflashrom\<close> on a whole image: read, erase, write and verify, with the
  per-layout drivers they are made of (\<^verbatim>\<open>flashrom/flashrom.c\<close>). Messages and the progress callback
  are left out. The buffer of the caller is an argument and part of the result, since
  \<^verbatim>\<open>flashrom_image_write\<close> may change it.
\<close>

section \<open>The default layout\<close>

text \<open>\<^verbatim>\<open>init_default_layout\<close>: a layout with one included region for the whole chip. \<open>alloc1\<close> and \<open>alloc2\<close> say
  whether the two allocations succeed.\<close>

definition init_default_layout :: "bool \<Rightarrow> bool \<Rightarrow> flashchip \<Rightarrow> int \<times> layout option" where
  "init_default_layout alloc1 alloc2 chip =
     (case flashrom_layout_new alloc1 of
        (r, None) \<Rightarrow> (-1, None)
      | (r, Some l0) \<Rightarrow>
          if r \<noteq> 0 then (-1, Some l0)
          else
            (case flashrom_layout_add_region alloc2 l0 0 (sub32 (mul32 (ch_total_size chip) 1024) 1) ''complete flash'' of
               (r1, l1) \<Rightarrow>
                 if r1 \<noteq> 0 then (-1, Some l1)
                 else
                   (case flashrom_layout_include_region l1 ''complete flash'' of
                      (r2, l2) \<Rightarrow> (if r2 \<noteq> 0 then -1 else 0, Some l2))))"

section \<open>Operations per layout\<close>

definition region_len :: "flash_region \<Rightarrow> nat" where
  "region_len r = add32 (sub32 (fr_end r) (fr_start r)) 1"

fun read_by_layout_loop ::
    "'s flashctx \<Rightarrow> romentry list \<Rightarrow> bytes \<Rightarrow> 's \<Rightarrow> (int \<times> bytes \<times> 's) option" where
  "read_by_layout_loop c [] buf s = Some (0, buf, s)"
| "read_by_layout_loop c (e # es) buf s =
     Option.bind (read_flash c buf (fr_start (re_region e)) (fr_start (re_region e))
                    (region_len (re_region e)) s)
       (\<lambda>(r, buf', s'). if r \<noteq> 0 then Some (1, buf', s') else read_by_layout_loop c es buf' s')"

definition read_by_layout :: "'s flashctx \<Rightarrow> bytes \<Rightarrow> 's \<Rightarrow> (int \<times> bytes \<times> 's) option" where
  "read_by_layout c buf s = read_by_layout_loop c (walk_included (get_layout c) []) buf s"

text \<open>The loop shared by \<^verbatim>\<open>erase_by_layout\<close> and \<^verbatim>\<open>write_by_layout\<close>; \<open>ret0\<close> is the value of \<^verbatim>\<open>ret\<close> before it.\<close>

fun erase_write_entries ::
    "'s flashctx \<Rightarrow> romentry list \<Rightarrow> int \<Rightarrow> bytes \<Rightarrow> 's ew_state \<Rightarrow> (int \<times> bytes \<times> 's ew_state) option" where
  "erase_write_entries c [] ret0 new st = Some (ret0, new, st)"
| "erase_write_entries c (e # es) ret0 new st =
     Option.bind (erase_write c (fr_start (re_region e)) (fr_end (re_region e)) new st)
       (\<lambda>(r, new', st'). if r \<noteq> 0 then Some (r, new', st') else erase_write_entries c es r new' st')"

text \<open>The pointer \<^verbatim>\<open>erase_layout\<close> is not initialised, and \<^verbatim>\<open>create_erase_layout\<close> does not set it when
  there is no usable eraser or no memory: using it then is undefined.\<close>

definition erase_by_layout :: "'s flashctx \<Rightarrow> 's \<Rightarrow> (int \<times> 's) option" where
  "erase_by_layout c s =
     (let flash_size = mul32 (ch_total_size (c_chip c)) 1024
      in Option.bind (create_erase_layout c) (\<lambda>(n, el).
         Option.bind el (\<lambda>l.
           if \<not> c_malloc c flash_size then Some (1, s)
           else Option.bind
             (erase_write_entries c (walk_included (get_layout c) []) 0
                (replicate flash_size (ERASED_VALUE c))
                (replicate flash_size (NOT (ERASED_VALUE c)), l, True, s))
             (\<lambda>(r, new, cur, l', sk, s'). Some (if r \<noteq> 0 then 1 else 0, s')))))"

text \<open>The result is the result code, the buffers \<^verbatim>\<open>curcontents\<close>, \<^verbatim>\<open>newcontents\<close>, the flag and the state.\<close>

definition write_by_layout ::
    "'s flashctx \<Rightarrow> bytes \<Rightarrow> bytes \<Rightarrow> bool \<Rightarrow> 's \<Rightarrow> (int \<times> bytes \<times> bytes \<times> bool \<times> 's) option" where
  "write_by_layout c cur new all_skipped s =
     Option.bind (create_erase_layout c) (\<lambda>(n, el).
     Option.bind el (\<lambda>l.
     Option.bind (erase_write_entries c (walk_included (get_layout c) []) 1 new (cur, l, all_skipped, s))
       (\<lambda>(r, new', cur', l', sk', s'). Some (r, cur', new', sk', s'))))"

fun verify_by_layout ::
    "'s flashctx \<Rightarrow> romentry list \<Rightarrow> bytes \<Rightarrow> bytes \<Rightarrow> 's \<Rightarrow> (int \<times> bytes \<times> 's) option" where
  "verify_by_layout c [] cur new s = Some (0, cur, s)"
| "verify_by_layout c (e # es) cur new s =
     (let a = fr_start (re_region e); len = region_len (re_region e)
      in Option.bind (read_flash c cur a a len s) (\<lambda>(r, cur', s').
           if r \<noteq> 0 then Some (1, cur', s')
           else if length new < a + len then None
           else if compare_range (drop a new) (drop a cur') len \<noteq> 0 then Some (3, cur', s')
           else verify_by_layout c es cur' new s'))"

partial_function (option) combine_loop ::
    "'s flashctx \<Rightarrow> bytes \<Rightarrow> nat \<Rightarrow> bytes \<Rightarrow> bytes option" where
  "combine_loop c old start new =
     (case layout_next_included_region (get_layout c) start of
        Some e \<Rightarrow>
          let a = fr_start (re_region e);
              new' = (if a > start then blit start (bslice start (a - start) old) new else new);
              start' = add32 (fr_end (re_region e)) 1
          in if a > start \<and> (length old < a \<or> length new < a) then None
             else if start' = 0 then Some new' else combine_loop c old start' new'
      | None \<Rightarrow>
          let copy_len = sub32 (mul32 (ch_total_size (c_chip c)) 1024) start
          in if length old < start + copy_len \<or> length new < start + copy_len then None
             else Some (blit start (bslice start copy_len old) new))"

definition combine_image_by_layout :: "'s flashctx \<Rightarrow> bytes \<Rightarrow> bytes \<Rightarrow> bytes option" where
  "combine_image_by_layout c new old = combine_loop c old 0 new"

section \<open>Operations on an image\<close>

definition ERROR_FLASHROM_PREPARE_FLASH_ACCESS :: int where
  "ERROR_FLASHROM_PREPARE_FLASH_ACCESS = -3"

definition flashrom_flash_erase ::
    "'s flashctx \<Rightarrow> 's access \<Rightarrow> 's restore_fns \<Rightarrow> 's \<Rightarrow> (int \<times> 's) option" where
  "flashrom_flash_erase c a fns0 s =
     Option.bind (prepare_flash_access c a False False True (fl_verify_after_write (c_flags c)) fns0 s)
       (\<lambda>(r, fns, s1).
          if r \<noteq> 0
          then map_option (\<lambda>s2. (ERROR_FLASHROM_PREPARE_FLASH_ACCESS, s2)) (finalize_flash_access a fns s1)
          else Option.bind (erase_by_layout c s1)
                 (\<lambda>(ret, s2). map_option (\<lambda>s3. (ret, s3)) (finalize_flash_access a fns s2)))"

definition flashrom_image_read ::
    "'s flashctx \<Rightarrow> 's access \<Rightarrow> 's restore_fns \<Rightarrow> bytes \<Rightarrow> 's \<Rightarrow> (int \<times> bytes \<times> 's) option" where
  "flashrom_image_read c a fns0 buffer s =
     (if mul32 (ch_total_size (c_chip c)) 1024 > length buffer then Some (2, buffer, s)
      else Option.bind (prepare_flash_access c a True False False False fns0 s)
        (\<lambda>(r, fns, s1).
           if r \<noteq> 0 then Some (1, buffer, s1)
           else Option.bind (read_by_layout c buffer s1)
                  (\<lambda>(r2, buffer', s2).
                     map_option (\<lambda>s3. (if r2 \<noteq> 0 then 1 else 0, buffer', s3)) (finalize_flash_access a fns s2))))"

definition flashrom_image_verify ::
    "'s flashctx \<Rightarrow> 's access \<Rightarrow> 's restore_fns \<Rightarrow> bytes \<Rightarrow> 's \<Rightarrow> (int \<times> 's) option" where
  "flashrom_image_verify c a fns0 buffer s =
     (let flash_size = mul32 (ch_total_size (c_chip c)) 1024
      in if length buffer \<noteq> flash_size then Some (2, s)
         else if \<not> c_malloc c flash_size then Some (1, s)
         else Option.bind (prepare_flash_access c a False False False True fns0 s)
           (\<lambda>(r, fns, s1).
              if r \<noteq> 0 then Some (1, s1)
              else Option.bind
                (verify_by_layout c (walk_included (get_layout c) []) (fresh_buf c flash_size) buffer s1)
                (\<lambda>(ret, cur, s2). map_option (\<lambda>s3. (ret, s3)) (finalize_flash_access a fns s2))))"

text \<open>The first phase of \<^verbatim>\<open>flashrom_image_write\<close> after access was prepared: the old contents. The
  result is a result code, \<^verbatim>\<open>curcontents\<close>, \<^verbatim>\<open>oldcontents\<close> and the state.\<close>

definition write_old_contents ::
    "'s flashctx \<Rightarrow> bytes option \<Rightarrow> 's \<Rightarrow> (int \<times> bytes \<times> bytes \<times> 's) option" where
  "write_old_contents c refcontents s =
     (let flash_size = mul32 (ch_total_size (c_chip c)) 1024; fresh = fresh_buf c flash_size
      in case refcontents of
           Some ref \<Rightarrow> if length ref < flash_size then None
                      else Some (0, take flash_size ref, take flash_size ref, s)
         | None \<Rightarrow>
             if fl_verify_whole_chip (c_flags c)
             then Option.bind (read_flash c fresh 0 0 flash_size s)
                    (\<lambda>(r, old, s'). Some (r, if r \<noteq> 0 then fresh else old, old, s'))
             else Option.bind (read_by_layout c fresh s)
                    (\<lambda>(r, cur, s'). Some (r, cur, fresh, s')))"

text \<open>The last phase: verification, only if something has changed.\<close>

definition write_verify ::
    "'s flashctx \<Rightarrow> 's access \<Rightarrow> bytes \<Rightarrow> bytes \<Rightarrow> bytes \<Rightarrow> bool \<Rightarrow> 's \<Rightarrow> (int \<times> bytes \<times> 's) option" where
  "write_verify c a cur new old all_skipped s =
     (if fl_verify_after_write (c_flags c) \<and> \<not> all_skipped
      then
        let s1 = (if ch_bustype (c_chip c) AND BUS_NONSPI \<noteq> 0 then ac_delay a s else s);
            verify_all = fl_verify_whole_chip (c_flags c);
            verify_layout = (if verify_all then get_default_layout c else get_layout c)
        in Option.bind (if verify_all then combine_image_by_layout c new old else Some new)
             (\<lambda>new'. Option.bind (verify_by_layout c (walk_included verify_layout []) cur new' s1)
                (\<lambda>(ret, cur', s2). Some (ret, new', s2)))
      else Some (0, new, s))"

definition flashrom_image_write ::
    "'s flashctx \<Rightarrow> 's access \<Rightarrow> 's restore_fns \<Rightarrow> bytes \<Rightarrow> bytes option \<Rightarrow> 's \<Rightarrow> (int \<times> bytes \<times> 's) option" where
  "flashrom_image_write c a fns0 buffer refbuffer s =
     (let flash_size = mul32 (ch_total_size (c_chip c)) 1024
      in if length buffer \<noteq> flash_size then Some (4, buffer, s)
         else if \<not> c_malloc c flash_size then Some (1, buffer, s)
         else if ac_image_mismatch a buffer \<and> \<not> fl_force_boardmismatch (c_flags c) then Some (1, buffer, s)
         else Option.bind
           (prepare_flash_access c a False True False (fl_verify_after_write (c_flags c)) fns0 s)
           (\<lambda>(p, fns, s1).
              let done = (\<lambda>ret new s'. map_option (\<lambda>s''. (ret, new, s'')) (finalize_flash_access a fns s'))
              in if p \<noteq> 0 then done 1 buffer s1
              else Option.bind (write_old_contents c refbuffer s1)
           (\<lambda>(r, cur, old, s2).
              if r \<noteq> 0 then done 1 buffer s2
              else Option.bind (write_by_layout c cur buffer True s2)
           (\<lambda>(w, cur', new', all_skipped, s3).
              if w \<noteq> 0
              then (if fl_verify_whole_chip (c_flags c)
                    then Option.bind (read_flash c cur' 0 0 flash_size s3) (\<lambda>(r2, cur'', s4). done 2 new' s4)
                    else done 2 new' s3)
              else Option.bind (write_verify c a cur' new' old all_skipped s3)
           (\<lambda>(ret, new'', s4). done ret new'' s4)))))"

end
