(* ===== verification/ImageOpsOk.thy ===== *)
theory ImageOpsOk
  imports ImageOps
begin

text \<open>
  Correctness of the image operations. The interface \<open>image_device\<close> adds to \<open>erase_device\<close> that
  gaining access works and leaves the contents of the chip alone, and that the layout passes
  \<^verbatim>\<open>layout_sanity_checks\<close>. \<open>covered\<close> is the set of bytes in included regions.
\<close>

section \<open>Included bytes\<close>

definition covered :: "romentry list \<Rightarrow> nat \<Rightarrow> bool" where
  "covered es i \<longleftrightarrow>
     (\<exists>e \<in> set es. re_included e \<and> fr_start (re_region e) \<le> i \<and> i \<le> fr_end (re_region e))"

definition entries_ok :: "nat \<Rightarrow> romentry list \<Rightarrow> bool" where
  "entries_ok n es \<longleftrightarrow>
     (\<forall>e \<in> set es. re_included e \<longrightarrow> fr_start (re_region e) \<le> fr_end (re_region e) \<and> fr_end (re_region e) < n)"

definition in_entries :: "romentry list \<Rightarrow> nat \<Rightarrow> bool" where
  "in_entries es i \<longleftrightarrow> (\<exists>e \<in> set es. fr_start (re_region e) \<le> i \<and> i \<le> fr_end (re_region e))"

definition all_ok :: "nat \<Rightarrow> romentry list \<Rightarrow> bool" where
  "all_ok n es \<longleftrightarrow> (\<forall>e \<in> set es. fr_start (re_region e) \<le> fr_end (re_region e) \<and> fr_end (re_region e) < n)"

lemma entries_walk:
  "entries_ok n l \<Longrightarrow> all_ok n (walk_included l [])" "in_entries (walk_included l []) = covered l"
  by (auto simp: entries_ok_def all_ok_def in_entries_def covered_def fun_eq_iff)

lemma in_entries_simps [simp]:
  "in_entries [] i = False"
  "in_entries (e # es) i \<longleftrightarrow> fr_start (re_region e) \<le> i \<and> i \<le> fr_end (re_region e) \<or> in_entries es i"
  by (auto simp: in_entries_def)

lemma all_ok_simps [simp]:
  "all_ok n (e # es) \<longleftrightarrow> fr_start (re_region e) \<le> fr_end (re_region e) \<and> fr_end (re_region e) < n \<and> all_ok n es"
  by (auto simp: all_ok_def)

text \<open>\<open>overlay new P img\<close>: the image \<open>img\<close> with the bytes at the places \<open>P\<close> taken from \<open>new\<close>.\<close>

definition overlay :: "bytes \<Rightarrow> (nat \<Rightarrow> bool) \<Rightarrow> bytes \<Rightarrow> bytes" where
  "overlay new P img = map (\<lambda>i. if P i then new ! i else img ! i) [0..<length img]"

lemma length_overlay [simp]: "length (overlay new P img) = length img"
  by (simp add: overlay_def)

lemma nth_overlay [buf_simps]: "i < length img \<Longrightarrow> overlay new P img ! i = (if P i then new ! i else img ! i)"
  by (simp add: overlay_def)

section \<open>The default layout\<close>

definition whole_chip :: "nat \<Rightarrow> layout" where
  "whole_chip n = [\<lparr>re_included = True, re_file = None,
     re_region = \<lparr>fr_name = ''complete flash'', fr_start = 0, fr_end = n - 1, fr_read_prot = False, fr_write_prot = False\<rparr>\<rparr>]"

lemma init_default_layout_eq:
  assumes "n = ch_total_size chip * 1024" and "0 < n" and "n \<le> 4294967296"
  shows "init_default_layout True True chip = (0, Some (whole_chip n))"
proof -
  have "sub32 (mul32 (ch_total_size chip) 1024) 1 = n - 1"
  proof (cases "n = 4294967296")
    case True
    then have "mul32 (ch_total_size chip) 1024 = 0" using assms(1) by (simp add: mul32_def)
    then show ?thesis using True by (simp add: sub32_def)
  next
    case False
    then show ?thesis using assms by (simp add: c_simps)
  qed
  with assms show ?thesis
    by (simp add: init_default_layout_def flashrom_layout_new_def flashrom_layout_add_region_def
        flashrom_layout_include_region_def include_region_def whole_chip_def u32_def)
qed

lemma covered_whole_chip: "0 < n \<Longrightarrow> covered (whole_chip n) i \<longleftrightarrow> i < n"
  by (auto simp: covered_def whole_chip_def)

lemma walk_whole_chip [simp]: "walk_included (whole_chip n) [] = whole_chip n"
  by (simp add: whole_chip_def)

lemma whole_chip_checked:
  assumes "0 < kib" and "kib * 1024 < 4294967296"
  shows "layout_sanity_checks kib (whole_chip (kib * 1024)) = 0"
  using assms by (simp add: layout_sanity_checks_def whole_chip_def c_simps)

lemma entries_whole_chip: "0 < n \<Longrightarrow> entries_ok n (whole_chip n)"
  by (auto simp: entries_ok_def whole_chip_def)

section \<open>Combining the image with the old contents\<close>

lemma combine_loop_ok:
  assumes n: "n = ch_total_size (c_chip c) * 1024" "n < 2147483648" and ok: "entries_ok n (get_layout c)"
    and "length old = n" and "length new = n" and "start \<le> n"
  shows "\<exists>new'. combine_loop c old start new = Some new' \<and> length new' = n \<and>
    (\<forall>i < n. new' ! i = (if start \<le> i \<and> \<not> covered (get_layout c) i then old ! i else new ! i))"
  using assms(4-6)
proof (induction "n - start" arbitrary: start new rule: less_induct)
  case less
  have mul: "mul32 (ch_total_size (c_chip c)) 1024 = n" using n by (simp add: c_simps)
  show ?case
  proof (cases "layout_next_included_region (get_layout c) start")
    case None
    then have nc: "\<not> covered (get_layout c) i" if "start \<le> i" for i
      using that unfolding layout_next_included_region_None covered_def by fastforce
    have "sub32 n start = n - start" using less.prems n by (simp add: c_simps)
    with None mul less.prems have "combine_loop c old start new = Some (blit start (bslice start (n - start) old) new)"
      by (subst combine_loop.simps) (simp add: Let_def)
    with nc less.prems show ?thesis by (auto simp: buf_simps)
  next
    case (Some e)
    let ?a = "fr_start (re_region e)" and ?e = "fr_end (re_region e)"
    note sm = layout_next_included_region_Some [OF Some]
    have ae: "?a \<le> ?e" "?e < n" using ok sm(1,2) by (auto simp: entries_ok_def)
    have st: "add32 ?e 1 = Suc ?e" using ae n by (simp add: c_simps)
    define new1 where "new1 = (if ?a > start then blit start (bslice start (?a - start) old) new else new)"
    have run: "combine_loop c old start new = combine_loop c old (Suc ?e) new1"
      using Some ae less.prems st by (subst combine_loop.simps) (auto simp: Let_def new1_def)
    have l1: "length new1 = n" using less.prems by (simp add: new1_def)
    have n1: "new1 ! i = (if start \<le> i \<and> i < ?a then old ! i else new ! i)" if "i < n" for i
      using that less.prems ae by (auto simp: new1_def buf_simps)
    have "n - Suc ?e < n - start" using sm(3) ae by simp
    from less.hyps [OF this less.prems(1) l1] ae obtain new' where
      r: "combine_loop c old (Suc ?e) new1 = Some new'" "length new' = n"
      "\<forall>i < n. new' ! i = (if Suc ?e \<le> i \<and> \<not> covered (get_layout c) i then old ! i else new1 ! i)" by auto
    have gap: "\<not> covered (get_layout c) i" if "start \<le> i" "i < ?a" for i
      using sm(4) that unfolding covered_def by fastforce
    have cov: "covered (get_layout c) i" if "?a \<le> i" "i \<le> ?e" for i
      using sm(1,2) that by (auto simp: covered_def)
    have "new' ! i = (if start \<le> i \<and> \<not> covered (get_layout c) i then old ! i else new ! i)" if "i < n" for i
      using r(3) n1 [OF that] gap [of i] cov [of i] that sm(3) by (cases "i < ?a"; cases "i \<le> ?e") auto
    with r run show ?thesis by auto
  qed
qed

lemma combine_image_ok:
  assumes "n = ch_total_size (c_chip c) * 1024" and "n < 2147483648" and "entries_ok n (get_layout c)"
    and "length old = n" and "length new = n"
  shows "combine_image_by_layout c new old =
    Some (map (\<lambda>i. if covered (get_layout c) i then new ! i else old ! i) [0..<n])"
proof -
  from combine_loop_ok [OF assms, of 0] obtain new' where
    r: "combine_loop c old 0 new = Some new'" "length new' = n"
    "\<forall>i < n. new' ! i = (if \<not> covered (get_layout c) i then old ! i else new ! i)" by auto
  have "new' = map (\<lambda>i. if covered (get_layout c) i then new ! i else old ! i) [0..<n]"
    using r(2,3) by (intro nth_equalityI) auto
  with r show ?thesis by (simp add: combine_image_by_layout_def)
qed

section \<open>Reading and verifying per layout\<close>

lemma region_len_ok: "fr_start r \<le> fr_end r \<Longrightarrow> fr_end r < 2147483648 \<Longrightarrow> region_len r = Suc (fr_end r) - fr_start r"
  by (simp add: region_len_def c_simps)

text \<open>A chip without read-protected regions.\<close>

locale full_reader = flash_reader c n dev_ok contents
  for c :: "'s flashctx" and n :: nat and dev_ok :: "'s \<Rightarrow> bool" and contents :: "'s \<Rightarrow> bytes" +
  assumes no_read_protection: "a < n \<Longrightarrow> \<not> fr_read_prot (get_flash_region c a)"
begin

lemma all_visible: "i < n \<Longrightarrow> visible c img i = img ! i" "start + len \<le> n \<Longrightarrow> readable c start len"
  using no_read_protection by (auto simp: visible_def readable_def)

lemma read_region_ok:
  assumes "dev_ok s" and "fr_start r \<le> fr_end r" and "fr_end r < n" and "n \<le> length buf"
  shows "\<exists>buf' s'. read_flash c buf (fr_start r) (fr_start r) (region_len r) s = Some (0, buf', s') \<and>
    dev_ok s' \<and> contents s' = contents s \<and> length buf' = length buf \<and>
    (\<forall>i < length buf. buf' ! i = (if fr_start r \<le> i \<and> i \<le> fr_end r then contents s ! i else buf ! i))"
proof -
  have rl: "region_len r = Suc (fr_end r) - fr_start r" using assms size_bound by (intro region_len_ok) auto
  have le: "fr_start r + (Suc (fr_end r) - fr_start r) \<le> n" using assms by simp
  from read_flash_ok [OF le _ assms(1) all_visible(2) [OF le], of "fr_start r" buf] assms obtain s' where
    r: "read_flash c buf (fr_start r) (fr_start r) (region_len r) s = Some (0,
        blit (fr_start r) (map (visible c (contents s)) [fr_start r..<fr_start r + (Suc (fr_end r) - fr_start r)]) buf, s')"
    "dev_ok s'" "contents s' = contents s" unfolding rl by auto
  have "blit (fr_start r) (map (visible c (contents s)) [fr_start r..<fr_start r + (Suc (fr_end r) - fr_start r)]) buf ! i =
      (if fr_start r \<le> i \<and> i \<le> fr_end r then contents s ! i else buf ! i)" if "i < length buf" for i
    using that assms all_visible(1) by (auto simp: buf_simps simp del: upt_Suc)
  with r show ?thesis by auto
qed

lemma read_by_layout_loop_ok:
  "dev_ok s \<Longrightarrow> all_ok n es \<Longrightarrow> n \<le> length buf \<Longrightarrow>
    \<exists>buf' s'. read_by_layout_loop c es buf s = Some (0, buf', s') \<and> dev_ok s' \<and> contents s' = contents s \<and>
      length buf' = length buf \<and>
      (\<forall>i < length buf. buf' ! i = (if in_entries es i then contents s ! i else buf ! i))"
proof (induction es arbitrary: buf s)
  case (Cons e es)
  from read_region_ok [OF Cons.prems(1), of "re_region e" buf] Cons.prems obtain b1 s1 where
    1: "read_flash c buf (fr_start (re_region e)) (fr_start (re_region e)) (region_len (re_region e)) s = Some (0, b1, s1)"
    "dev_ok s1" "contents s1 = contents s" "length b1 = length buf"
    "\<forall>i < length buf. b1 ! i = (if fr_start (re_region e) \<le> i \<and> i \<le> fr_end (re_region e) then contents s ! i else buf ! i)"
    by auto
  from Cons.IH [OF 1(2), of b1] Cons.prems 1(4) obtain b2 s2 where
    2: "read_by_layout_loop c es b1 s1 = Some (0, b2, s2)" "dev_ok s2" "contents s2 = contents s1"
    "length b2 = length b1" "\<forall>i < length b1. b2 ! i = (if in_entries es i then contents s1 ! i else b1 ! i)"
    by auto
  with 1 show ?case by auto
qed simp

lemma verify_by_layout_ok:
  "dev_ok s \<Longrightarrow> all_ok n es \<Longrightarrow> length cur = n \<Longrightarrow> length new = n \<Longrightarrow>
    \<exists>cur' s'. verify_by_layout c es cur new s =
        Some (if \<forall>i. in_entries es i \<longrightarrow> new ! i = contents s ! i then 0 else 3, cur', s') \<and>
      dev_ok s' \<and> contents s' = contents s"
proof (induction es arbitrary: cur s)
  case (Cons e es)
  let ?r = "re_region e"
  from Cons.prems have ok: "fr_start ?r \<le> fr_end ?r" "fr_end ?r < n" by auto
  from read_region_ok [OF Cons.prems(1) ok, of cur] Cons.prems obtain b1 s1 where
    1: "read_flash c cur (fr_start ?r) (fr_start ?r) (region_len ?r) s = Some (0, b1, s1)"
    "dev_ok s1" "contents s1 = contents s" "length b1 = n"
    "\<forall>i < n. b1 ! i = (if fr_start ?r \<le> i \<and> i \<le> fr_end ?r then contents s ! i else cur ! i)"
    by auto
  have rl: "region_len ?r = Suc (fr_end ?r) - fr_start ?r" using ok size_bound by (intro region_len_ok) auto
  have cmp: "compare_range (drop (fr_start ?r) new) (drop (fr_start ?r) b1) (region_len ?r) = 0 \<longleftrightarrow>
      (\<forall>i. fr_start ?r \<le> i \<and> i \<le> fr_end ?r \<longrightarrow> new ! i = contents s ! i)" (is "_ \<longleftrightarrow> ?eq")
  proof -
    have "(\<forall>i < region_len ?r. drop (fr_start ?r) new ! i = drop (fr_start ?r) b1 ! i) \<longleftrightarrow>
        (\<forall>i < region_len ?r. new ! (fr_start ?r + i) = contents s ! (fr_start ?r + i))"
      using ok Cons.prems 1(4,5) rl by auto
    also have "\<dots> \<longleftrightarrow> ?eq"
    proof
      assume all: "\<forall>i < region_len ?r. new ! (fr_start ?r + i) = contents s ! (fr_start ?r + i)"
      show ?eq
      proof (intro allI impI)
        fix i assume "fr_start ?r \<le> i \<and> i \<le> fr_end ?r"
        then have "i - fr_start ?r < region_len ?r" "fr_start ?r + (i - fr_start ?r) = i" using rl by auto
        with all show "new ! i = contents s ! i" by metis
      qed
    next
      assume eq: ?eq
      show "\<forall>i < region_len ?r. new ! (fr_start ?r + i) = contents s ! (fr_start ?r + i)"
        using eq rl by auto
    qed
    finally show ?thesis by (simp add: compare_range_0)
  qed
  have fits: "\<not> length new < fr_start ?r + region_len ?r" using ok Cons.prems(4) rl by simp
  show ?case
  proof (cases ?eq)
    case True
    from Cons.IH [OF 1(2) _ 1(4) Cons.prems(4)] Cons.prems(2) obtain cur' s' where
      2: "verify_by_layout c es b1 new s1 =
        Some (if \<forall>i. in_entries es i \<longrightarrow> new ! i = contents s1 ! i then 0 else 3, cur', s')"
      "dev_ok s'" "contents s' = contents s1" by auto
    have "verify_by_layout c (e # es) cur new s = verify_by_layout c es b1 new s1"
      using 1(1) cmp fits True by (simp add: Let_def)
    with 2 1(3) True show ?thesis by auto
  next
    case False
    then have "verify_by_layout c (e # es) cur new s = Some (3, b1, s1)"
      using 1(1) cmp fits by (simp add: Let_def)
    with False 1 show ?thesis by auto
  qed
qed simp

end

section \<open>Erasing and writing per layout\<close>

sublocale erase_device \<subseteq> full_reader c n dev_ok contents
  by unfold_locales (rule all_readable)

context erase_device
begin

lemma erase_write_entries_ok:
  assumes b: "built L" and nwp: "\<forall>i < n. \<not> write_protected c i" and ln: "length new = n"
  shows "dev_ok s \<Longrightarrow> clean L l \<Longrightarrow> length cur = n \<Longrightarrow> all_ok n es \<Longrightarrow>
    \<forall>i < n. in_entries es i \<longrightarrow>
      cur ! i = contents s ! i \<or> dirty (ch_gran (c_chip c)) (ERASED_VALUE c) cur new i \<Longrightarrow>
    \<exists>cur' l' sk' s'. erase_write_entries c es r0 new (cur, l, sk, s) =
        Some (if es = [] then r0 else 0, new, (cur', l', sk', s')) \<and>
      dev_ok s' \<and> length cur' = n \<and> contents s' = overlay new (in_entries es) (contents s) \<and>
      (sk' \<longrightarrow> sk \<and> contents s' = contents s)"
proof (induction es arbitrary: cur l sk s r0)
  case Nil
  have "overlay new (\<lambda>i. False) (contents s) = contents s" by (rule nth_equalityI) (auto simp: buf_simps)
  with Nil show ?case by simp
next
  case (Cons e es)
  let ?a = "fr_start (re_region e)" and ?e = "fr_end (re_region e)"
  have ab: "?a \<le> ?e" "?e < n" using Cons.prems(4) by auto
  have sy: "\<forall>i. ?a \<le> i \<and> i \<le> ?e \<longrightarrow>
      cur ! i = contents s ! i \<or> dirty (ch_gran (c_chip c)) (ERASED_VALUE c) cur new i"
    using Cons.prems(5) ab by auto
  from erase_write_ok [OF b Cons.prems(2,1,3) ln ab sy, of sk] nwp obtain cur1 l1 sk1 s1 where
    1: "erase_write c ?a ?e new (cur, l, sk, s) = Some (0, new, (cur1, l1, sk1, s1))" "dev_ok s1" "clean L l1"
    "length cur1 = n" "updated new ?a ?e (contents s) (contents s1)"
    "\<forall>i < n. cur1 ! i = contents s1 ! i \<or> cur1 ! i = cur ! i \<and> contents s1 ! i = contents s ! i"
    "sk1 \<longrightarrow> sk \<and> contents s1 = contents s" by blast
  have sy1: "\<forall>i < n. in_entries es i \<longrightarrow>
      cur1 ! i = contents s1 ! i \<or> dirty (ch_gran (c_chip c)) (ERASED_VALUE c) cur1 new i"
  proof (intro allI impI)
    fix i assume i: "i < n" "in_entries es i"
    have old: "cur ! i = contents s ! i \<or> dirty (ch_gran (c_chip c)) (ERASED_VALUE c) cur new i"
      using Cons.prems(5) i by simp
    show "cur1 ! i = contents s1 ! i \<or> dirty (ch_gran (c_chip c)) (ERASED_VALUE c) cur1 new i"
    proof (cases "cur1 ! i = contents s1 ! i")
      case False
      then have "cur1 ! i = cur ! i" "contents s1 ! i = contents s ! i" using 1(6) i(1) by blast+
      with old False show ?thesis by (simp add: dirty_def)
    qed simp
  qed
  from Cons.IH [OF 1(2,3,4) _ sy1, of 0 sk1] Cons.prems(4) obtain cur2 l2 sk2 s2 where
    2: "erase_write_entries c es 0 new (cur1, l1, sk1, s1) = Some (0, new, (cur2, l2, sk2, s2))" "dev_ok s2"
    "length cur2 = n" "contents s2 = overlay new (in_entries es) (contents s1)"
    "sk2 \<longrightarrow> sk1 \<and> contents s2 = contents s1" by auto
  have lc: "length (contents s) = n" using Cons.prems(1) by (rule contents_length)
  have "contents s2 = overlay new (in_entries (e # es)) (contents s)"
    using 1(5) nwp lc by (intro nth_equalityI) (auto simp: 2(4) buf_simps updated_def)
  with 1(1,7) 2 show ?case by (auto simp del: in_entries_simps)
qed

text \<open>Reaching the layout: \<^verbatim>\<open>write_by_layout\<close> and \<^verbatim>\<open>erase_by_layout\<close>.\<close>

lemma write_by_layout_ok:
  assumes ok: "dev_ok s" and len: "length cur = n" "length new = n" and lay: "entries_ok n (get_layout c)"
    and some: "walk_included (get_layout c) [] \<noteq> []" and nwp: "\<forall>i < n. \<not> write_protected c i"
    and sy: "\<forall>i < n. covered (get_layout c) i \<longrightarrow> cur ! i = contents s ! i"
  shows "\<exists>cur' sk' s'. write_by_layout c cur new sk s = Some (0, cur', new, sk', s') \<and> dev_ok s' \<and> length cur' = n \<and>
    contents s' = overlay new (covered (get_layout c)) (contents s) \<and> (sk' \<longrightarrow> sk \<and> contents s' = contents s)"
proof -
  obtain L where L: "create_erase_layout c = Some (int (length (usable_erasers c)), Some L)" "built L"
    using built_exists by blast
  have sy': "\<forall>i < n. in_entries (walk_included (get_layout c) []) i \<longrightarrow>
      cur ! i = contents s ! i \<or> dirty (ch_gran (c_chip c)) (ERASED_VALUE c) cur new i"
    using sy by (simp only: entries_walk(2)) blast
  from erase_write_entries_ok [OF L(2) nwp len(2) ok built_clean [OF L(2)] len(1) entries_walk(1) [OF lay] sy', of 1 sk] some
  show ?thesis unfolding write_by_layout_def L(1) by (auto simp: entries_walk(2) simp del: walk_included_all)
qed

lemma erase_by_layout_ok:
  assumes ok: "dev_ok s" and lay: "entries_ok n (get_layout c)" and nwp: "\<forall>i < n. \<not> write_protected c i"
    and gr: "ch_gran (c_chip c) \<noteq> WRITE_GRAN_1BYTE_IMPLICIT_ERASE"
  shows "\<exists>s'. erase_by_layout c s = Some (0, s') \<and> dev_ok s' \<and>
    contents s' = overlay (replicate n (ERASED_VALUE c)) (covered (get_layout c)) (contents s)"
proof -
  obtain L where L: "create_erase_layout c = Some (int (length (usable_erasers c)), Some L)" "built L"
    using built_exists by blast
  let ?cur = "replicate n (NOT (ERASED_VALUE c))" and ?new = "replicate n (ERASED_VALUE c)"
  have "dirty (ch_gran (c_chip c)) (ERASED_VALUE c) ?cur ?new i" if "i < n" for i
  proof -
    have "NOT (ERASED_VALUE c) \<noteq> ERASED_VALUE c" by (simp add: ERASED_VALUE_def)
    moreover have "NOT (ERASED_VALUE c) AND ERASED_VALUE c \<noteq> ERASED_VALUE c" if "ch_gran (c_chip c) = WRITE_GRAN_1BIT"
      using bit_erased [OF that] by simp
    ultimately show ?thesis using that gr by (auto simp: dirty_def)
  qed
  then have sy: "\<forall>i < n. in_entries (walk_included (get_layout c) []) i \<longrightarrow>
      ?cur ! i = contents s ! i \<or> dirty (ch_gran (c_chip c)) (ERASED_VALUE c) ?cur ?new i" by blast
  from erase_write_entries_ok [OF L(2) nwp _ ok built_clean [OF L(2)] _ entries_walk(1) [OF lay] sy, of 0 True]
  obtain cur' l' sk' s' where
    w: "erase_write_entries c (walk_included (get_layout c) []) 0 ?new (?cur, L, True, s) = Some (0, ?new, (cur', l', sk', s'))"
    "dev_ok s'" "contents s' = overlay ?new (covered (get_layout c)) (contents s)"
    by (auto simp: entries_walk(2) simp del: walk_included_all)
  then show ?thesis
    unfolding erase_by_layout_def L(1) Let_def chip_bytes using malloc_ok by (simp del: walk_included_all)
qed

end

section \<open>Gaining access\<close>

text \<open>\<open>start_ok\<close> describes the chip before an operation, \<open>read_ok\<close> and \<open>dev_ok\<close> while access is held for
  reading and for writing, and \<open>end_ok\<close> afterwards. Unlocking leads from the first to one of the others,
  and the restore functions it registers lead to the last.\<close>

locale image_device = erase_device c n dev_ok contents + reader: full_reader c n read_ok contents
  for c :: "'s flashctx" and n :: nat and dev_ok :: "'s \<Rightarrow> bool" and contents :: "'s \<Rightarrow> bytes"
    and read_ok :: "'s \<Rightarrow> bool" +
  fixes a :: "'s access" and start_ok :: "'s \<Rightarrow> bool" and end_ok :: "'s \<Rightarrow> bool"
  assumes checks: "chip_safety_check c a (fl_force (c_flags c)) rd wr er ve = 0"
    and layout_checked: "layout_sanity_checks (ch_total_size (c_chip c)) (get_layout c) = 0"
    and default_layout: "entries_ok n (get_default_layout c)"
    and map_law: "start_ok s \<Longrightarrow> \<exists>s'. ac_map_flash a s = (0, s') \<and> start_ok s' \<and> contents s' = contents s"
    and unlock_write_law: "start_ok s \<Longrightarrow> wr \<or> er \<Longrightarrow> \<exists>fns s'. unlock_chip a wr er s = Some (fns, s') \<and> dev_ok s' \<and>
      contents s' = contents s \<and>
      (\<forall>t. dev_ok t \<longrightarrow> (\<exists>t'. finalize_flash_access a fns t = Some t' \<and> end_ok t' \<and> contents t' = contents t))"
    and unlock_read_law: "start_ok s \<Longrightarrow> \<exists>fns s'. unlock_chip a False False s = Some (fns, s') \<and> read_ok s' \<and>
      contents s' = contents s \<and>
      (\<forall>t. read_ok t \<longrightarrow> (\<exists>t'. finalize_flash_access a fns t = Some t' \<and> end_ok t' \<and> contents t' = contents t))"
    and wp_law: "dev_ok s \<Longrightarrow> \<exists>s'. active_wp_range a s = Some (None, s') \<and> dev_ok s' \<and> contents s' = contents s"
    and no_protected: "ac_protected_ranges a = []"
    and no_write_protection: "i < n \<Longrightarrow> \<not> write_protected c i"
    and addressing_law: "dev_ok s \<Longrightarrow> \<exists>s'. prepare_4ba c a s = Some (0, s') \<and> dev_ok s' \<and> contents s' = contents s"
    and addressing_read_law: "read_ok s \<Longrightarrow> \<exists>s'. prepare_4ba c a s = Some (0, s') \<and> read_ok s' \<and> contents s' = contents s"
    and delay_law: "dev_ok s \<Longrightarrow> dev_ok (ac_delay a s) \<and> contents (ac_delay a s) = contents s"
begin

lemma layout_entries: "entries_ok n (get_layout c)"
  using layout_sanity_checksD [OF layout_checked] by (auto simp: entries_ok_def chip_bytes)

lemma target_regions_ok:
  "all_ok n es \<Longrightarrow> target_regions_loop c a None es = Some True"
proof (induction es)
  case (Cons e es)
  let ?r = "re_region e"
  have "add32 (sub32 (fr_end ?r) (fr_start ?r)) 1 = Suc (fr_end ?r) - fr_start ?r"
    using region_len_ok [of ?r] Cons.prems size_bound by (simp add: region_len_def)
  moreover have "check_for_unwritable_regions c (fr_start ?r) (Suc (fr_end ?r) - fr_start ?r) = Some 0"
    using Cons.prems no_write_protection by (subst check_for_unwritable_regions_eq) (auto simp: write_protected_def)
  ultimately show ?case using Cons by (simp add: Let_def no_protected)
qed simp

lemma prepare_write_ok:
  assumes "start_ok s" and "wr \<or> er"
  shows "\<exists>fns s'. prepare_flash_access c a rd wr er ve fns0 s = Some (0, fns, s') \<and> dev_ok s' \<and> contents s' = contents s \<and>
    (\<forall>t. dev_ok t \<longrightarrow> (\<exists>t'. finalize_flash_access a fns t = Some t' \<and> end_ok t' \<and> contents t' = contents t))"
proof -
  obtain s1 where s1: "ac_map_flash a s = (0, s1)" "start_ok s1" "contents s1 = contents s"
    using map_law [OF assms(1)] by blast
  obtain fns s3 where s3: "unlock_chip a wr er s1 = Some (fns, s3)" "dev_ok s3" "contents s3 = contents s"
    "\<forall>t. dev_ok t \<longrightarrow> (\<exists>t'. finalize_flash_access a fns t = Some t' \<and> end_ok t' \<and> contents t' = contents t)"
    using unlock_write_law [OF s1(2) assms(2)] s1(3) by auto
  have "target_regions_loop c a None (walk_included (get_layout c) []) = Some True"
    using layout_entries by (intro target_regions_ok entries_walk)
  with wp_law [OF s3(2)] obtain s4 where
    "can_change_target_regions c a s3 = Some (True, s4)" "dev_ok s4" "contents s4 = contents s3"
    by (auto simp: can_change_target_regions_def)
  then obtain s5 where s5: "(if (wr \<or> er) \<and> \<not> fl_force (c_flags c) then can_change_target_regions c a s3
      else Some (True, s3)) = Some (True, s5)" "dev_ok s5" "contents s5 = contents s"
    using s3 by (cases "(wr \<or> er) \<and> \<not> fl_force (c_flags c)") auto
  obtain s6 where s6: "prepare_4ba c a s5 = Some (0, s6)" "dev_ok s6" "contents s6 = contents s"
    using addressing_law [OF s5(2)] s5(3) by auto
  have "prepare_flash_access c a rd wr er ve fns0 s = Some (0, fns, s6)"
    by (simp only: prepare_flash_access_def checks layout_checked s1(1) s3(1) s5(1) s6(1) prod.case bind.bind_lunit
        option.map simp_thms if_False if_True)
  with s6 s3(4) show ?thesis by blast
qed

lemma prepare_read_ok:
  assumes "start_ok s"
  shows "\<exists>fns s'. prepare_flash_access c a rd False False ve fns0 s = Some (0, fns, s') \<and> read_ok s' \<and>
    contents s' = contents s \<and>
    (\<forall>t. read_ok t \<longrightarrow> (\<exists>t'. finalize_flash_access a fns t = Some t' \<and> end_ok t' \<and> contents t' = contents t))"
proof -
  obtain s1 where s1: "ac_map_flash a s = (0, s1)" "start_ok s1" "contents s1 = contents s"
    using map_law [OF assms] by blast
  obtain fns s3 where s3: "unlock_chip a False False s1 = Some (fns, s3)" "read_ok s3" "contents s3 = contents s"
    "\<forall>t. read_ok t \<longrightarrow> (\<exists>t'. finalize_flash_access a fns t = Some t' \<and> end_ok t' \<and> contents t' = contents t)"
    using unlock_read_law [OF s1(2)] s1(3) by auto
  obtain s6 where s6: "prepare_4ba c a s3 = Some (0, s6)" "read_ok s6" "contents s6 = contents s"
    using addressing_read_law [OF s3(2)] s3(3) by auto
  have "prepare_flash_access c a rd False False ve fns0 s = Some (0, fns, s6)"
    by (simp only: prepare_flash_access_def checks layout_checked s1(1) s3(1) s6(1) prod.case bind.bind_lunit
        option.map simp_thms if_False if_True)
  with s6 s3(4) show ?thesis by blast
qed

section \<open>The image operations\<close>

lemma image_read_ok:
  assumes ok: "start_ok s" and len: "n \<le> length buf"
  shows "\<exists>buf' s'. flashrom_image_read c a fns0 buf s = Some (0, buf', s') \<and> end_ok s' \<and> contents s' = contents s \<and>
    length buf' = length buf \<and>
    (\<forall>i < length buf. buf' ! i = (if covered (get_layout c) i then contents s ! i else buf ! i))"
proof -
  obtain fns s1 where s1: "prepare_flash_access c a True False False False fns0 s = Some (0, fns, s1)" "read_ok s1"
    "contents s1 = contents s"
    "\<forall>t. read_ok t \<longrightarrow> (\<exists>t'. finalize_flash_access a fns t = Some t' \<and> end_ok t' \<and> contents t' = contents t)"
    using prepare_read_ok [OF ok] by blast
  from reader.read_by_layout_loop_ok [OF s1(2) entries_walk(1) [OF layout_entries] len] obtain buf' s2 where
    s2: "read_by_layout c buf s1 = Some (0, buf', s2)" "read_ok s2" "contents s2 = contents s1" "length buf' = length buf"
    "\<forall>i < length buf. buf' ! i = (if covered (get_layout c) i then contents s1 ! i else buf ! i)"
    by (auto simp: read_by_layout_def entries_walk(2) simp del: walk_included_all)
  obtain s3 where s3: "finalize_flash_access a fns s2 = Some s3" "end_ok s3" "contents s3 = contents s2"
    using s1(4) s2(2) by blast
  have "flashrom_image_read c a fns0 buf s = Some (0, buf', s3)"
    using len s1(1) s2(1) s3(1) by (simp add: flashrom_image_read_def chip_bytes)
  with s1(3) s2 s3 show ?thesis by auto
qed

lemma image_verify_ok:
  assumes ok: "start_ok s" and len: "length buf = n"
  shows "\<exists>s'. flashrom_image_verify c a fns0 buf s =
      Some (if \<forall>i. covered (get_layout c) i \<longrightarrow> buf ! i = contents s ! i then 0 else 3, s') \<and>
    end_ok s' \<and> contents s' = contents s"
proof -
  obtain fns s1 where s1: "prepare_flash_access c a False False False True fns0 s = Some (0, fns, s1)" "read_ok s1"
    "contents s1 = contents s"
    "\<forall>t. read_ok t \<longrightarrow> (\<exists>t'. finalize_flash_access a fns t = Some t' \<and> end_ok t' \<and> contents t' = contents t)"
    using prepare_read_ok [OF ok] by blast
  from reader.verify_by_layout_ok [OF s1(2) entries_walk(1) [OF layout_entries] _ len, of "fresh_buf c n"] obtain cur s2 where
    s2: "verify_by_layout c (walk_included (get_layout c) []) (fresh_buf c n) buf s1 =
      Some (if \<forall>i. covered (get_layout c) i \<longrightarrow> buf ! i = contents s1 ! i then 0 else 3, cur, s2)"
    "read_ok s2" "contents s2 = contents s1"
    by (auto simp: entries_walk(2) simp del: walk_included_all)
  obtain s3 where s3: "finalize_flash_access a fns s2 = Some s3" "end_ok s3" "contents s3 = contents s2"
    using s1(4) s2(2) by blast
  have "flashrom_image_verify c a fns0 buf s =
      Some (if \<forall>i. covered (get_layout c) i \<longrightarrow> buf ! i = contents s1 ! i then 0 else 3, s3)"
    using len s1(1) s2(1) s3(1) malloc_ok
    by (simp add: flashrom_image_verify_def chip_bytes del: walk_included_all)
  with s1(3) s2 s3 show ?thesis by auto
qed

lemma flash_erase_ok:
  assumes ok: "start_ok s" and gr: "ch_gran (c_chip c) \<noteq> WRITE_GRAN_1BYTE_IMPLICIT_ERASE"
  shows "\<exists>s'. flashrom_flash_erase c a fns0 s = Some (0, s') \<and> end_ok s' \<and>
    contents s' = overlay (replicate n (ERASED_VALUE c)) (covered (get_layout c)) (contents s)"
proof -
  obtain fns s1 where s1: "prepare_flash_access c a False False True (fl_verify_after_write (c_flags c)) fns0 s = Some (0, fns, s1)"
    "dev_ok s1" "contents s1 = contents s"
    "\<forall>t. dev_ok t \<longrightarrow> (\<exists>t'. finalize_flash_access a fns t = Some t' \<and> end_ok t' \<and> contents t' = contents t)"
    using prepare_write_ok [OF ok, of False True] by blast
  from erase_by_layout_ok [OF s1(2) layout_entries _ gr] no_write_protection obtain s2 where
    s2: "erase_by_layout c s1 = Some (0, s2)" "dev_ok s2"
    "contents s2 = overlay (replicate n (ERASED_VALUE c)) (covered (get_layout c)) (contents s1)" by auto
  obtain s3 where s3: "finalize_flash_access a fns s2 = Some s3" "end_ok s3" "contents s3 = contents s2"
    using s1(4) s2(2) by blast
  have "flashrom_flash_erase c a fns0 s = Some (0, s3)"
    using s1(1) s2(1) s3(1) by (simp add: flashrom_flash_erase_def)
  with s1(3) s2 s3 show ?thesis by auto
qed

text \<open>The buffers after the first phase: \<^verbatim>\<open>curcontents\<close> has the included bytes of the chip, and
  \<^verbatim>\<open>oldcontents\<close> the whole chip if the whole chip is to be verified.\<close>

lemma write_old_contents_ok:
  assumes ok: "dev_ok s" and ref: "ref = None \<or> ref = Some (contents s)"
  shows "\<exists>cur old s'. write_old_contents c ref s = Some (0, cur, old, s') \<and> dev_ok s' \<and> contents s' = contents s \<and>
    length cur = n \<and> (\<forall>i < n. covered (get_layout c) i \<longrightarrow> cur ! i = contents s ! i) \<and>
    (fl_verify_whole_chip (c_flags c) \<longrightarrow> old = contents s)"
proof -
  have lc: "length (contents s) = n" using ok by (rule contents_length)
  consider (given) "ref = Some (contents s)" | (all) "ref = None" "fl_verify_whole_chip (c_flags c)"
    | (layout) "ref = None" "\<not> fl_verify_whole_chip (c_flags c)" using ref by blast
  then show ?thesis
  proof cases
    case given
    then show ?thesis using ok lc by (simp add: write_old_contents_def chip_bytes)
  next
    case all
    have le: "0 + n \<le> n" by simp
    from read_flash_ok [OF le _ ok all_visible(2) [OF le], of 0 "fresh_buf c n"] obtain s' where
      r: "read_flash c (fresh_buf c n) 0 0 n s = Some (0, blit 0 (map (visible c (contents s)) [0..<n]) (fresh_buf c n), s')"
      "dev_ok s'" "contents s' = contents s" by auto
    have "blit 0 (map (visible c (contents s)) [0..<n]) (fresh_buf c n) = contents s"
      using lc all_visible(1) by (intro nth_equalityI) (auto simp: buf_simps)
    with all r lc show ?thesis by (simp add: write_old_contents_def chip_bytes)
  next
    case layout
    from read_by_layout_loop_ok [OF ok entries_walk(1) [OF layout_entries], of "fresh_buf c n"] obtain cur s' where
      r: "read_by_layout c (fresh_buf c n) s = Some (0, cur, s')" "dev_ok s'" "contents s' = contents s" "length cur = n"
      "\<forall>i < n. cur ! i = (if covered (get_layout c) i then contents s ! i else fresh_buf c n ! i)"
      by (auto simp: read_by_layout_def entries_walk(2) simp del: walk_included_all)
    with layout show ?thesis by (simp add: write_old_contents_def chip_bytes)
  qed
qed

lemma write_verify_ok:
  assumes ok: "dev_ok s" and len: "length cur = n" "length new = n" "length img = n"
    and cont: "contents s = overlay new (covered (get_layout c)) img"
    and old: "fl_verify_whole_chip (c_flags c) \<longrightarrow> old = img"
  shows "\<exists>new' s'. write_verify c a cur new old sk s = Some (0, new', s') \<and> dev_ok s' \<and> contents s' = contents s \<and>
    (new' = new \<or> new' = contents s)"
proof (cases "fl_verify_after_write (c_flags c) \<and> \<not> sk")
  case False
  then show ?thesis using ok by (auto simp: write_verify_def)
next
  case True
  define s1 where "s1 = (if ch_bustype (c_chip c) AND BUS_NONSPI \<noteq> 0 then ac_delay a s else s)"
  have s1: "dev_ok s1" "contents s1 = contents s" using ok delay_law by (auto simp: s1_def)
  define lay where "lay = (if fl_verify_whole_chip (c_flags c) then get_default_layout c else get_layout c)"
  have lay: "entries_ok n lay" using default_layout layout_entries by (simp add: lay_def)
  define new1 where "new1 = (if fl_verify_whole_chip (c_flags c) then contents s else new)"
  have comb: "(if fl_verify_whole_chip (c_flags c) then combine_image_by_layout c new old else Some new) = Some new1"
    using combine_image_ok [OF size size_bound layout_entries, of img new] len old
    by (simp add: new1_def cont overlay_def)
  have eq: "new1 ! i = contents s1 ! i" if "covered lay i" for i
  proof -
    have "i < n" using that lay by (auto simp: covered_def entries_ok_def)
    with that len show ?thesis
      by (cases "fl_verify_whole_chip (c_flags c)") (auto simp: new1_def s1(2) cont lay_def buf_simps)
  qed
  have "length new1 = n" using len contents_length [OF ok] by (simp add: new1_def)
  with verify_by_layout_ok [OF s1(1) entries_walk(1) [OF lay] len(1)] eq obtain cur' s2 where
    "verify_by_layout c (walk_included lay []) cur new1 s1 = Some (0, cur', s2)" "dev_ok s2" "contents s2 = contents s1"
    unfolding entries_walk(2) by fastforce
  with True comb s1(2) show ?thesis
    unfolding write_verify_def Let_def s1_def [symmetric] lay_def [symmetric] by (auto simp: new1_def)
qed

text \<open>Writing an image: the included bytes are those of the image and all others are kept; the
  verification succeeds.\<close>

lemma image_write_ok:
  assumes ok: "start_ok s" and len: "length buf = n" and ref: "ref = None \<or> ref = Some (contents s)"
    and some: "walk_included (get_layout c) [] \<noteq> []"
    and img: "ac_image_mismatch a buf \<longrightarrow> fl_force_boardmismatch (c_flags c)"
  shows "\<exists>buf' s'. flashrom_image_write c a fns0 buf ref s = Some (0, buf', s') \<and> end_ok s' \<and>
    contents s' = overlay buf (covered (get_layout c)) (contents s) \<and> (buf' = buf \<or> buf' = contents s')"
proof -
  obtain fns s1 where s1: "prepare_flash_access c a False True False (fl_verify_after_write (c_flags c)) fns0 s = Some (0, fns, s1)"
    "dev_ok s1" "contents s1 = contents s"
    "\<forall>t. dev_ok t \<longrightarrow> (\<exists>t'. finalize_flash_access a fns t = Some t' \<and> end_ok t' \<and> contents t' = contents t)"
    using prepare_write_ok [OF ok, of True False] by blast
  have lc: "length (contents s) = n" using contents_length [OF s1(2)] s1(3) by simp
  obtain cur old s2 where s2: "write_old_contents c ref s1 = Some (0, cur, old, s2)" "dev_ok s2" "contents s2 = contents s"
    "length cur = n" "\<forall>i < n. covered (get_layout c) i \<longrightarrow> cur ! i = contents s ! i"
    "fl_verify_whole_chip (c_flags c) \<longrightarrow> old = contents s"
    using write_old_contents_ok [OF s1(2), of ref] ref s1(3) by auto
  from write_by_layout_ok [OF s2(2,4) len layout_entries some, of True] no_write_protection s2(3,5)
  obtain cur3 sk s3 where s3: "write_by_layout c cur buf True s2 = Some (0, cur3, buf, sk, s3)" "dev_ok s3" "length cur3 = n"
    "contents s3 = overlay buf (covered (get_layout c)) (contents s)" by auto
  from write_verify_ok [OF s3(2,3) len lc s3(4) s2(6), of sk] obtain buf' s4 where
    s4: "write_verify c a cur3 buf old sk s3 = Some (0, buf', s4)" "dev_ok s4" "contents s4 = contents s3"
    "buf' = buf \<or> buf' = contents s3" by blast
  obtain s5 where s5: "finalize_flash_access a fns s4 = Some s5" "end_ok s5" "contents s5 = contents s4"
    using s1(4) s4(2) by blast
  have "flashrom_image_write c a fns0 buf ref s = Some (0, buf', s5)"
    using len img s1(1) s2(1) s3(1) s4(1) s5(1) malloc_ok by (simp add: flashrom_image_write_def chip_bytes Let_def)
  with s3 s4 s5 show ?thesis by auto
qed

end

end
