(* ===== verification/Dummy.thy ===== *)
theory Dummy
  imports ImageOpsOk
begin

text \<open>
  The dummy programmer of \<^verbatim>\<open>flashrom/programmers/dummyflasher.c\<close>: its data, the set-up of an emulated
  chip, and the opaque interface to a chip of variable size with \<^verbatim>\<open>opaque.c\<close>. Reading or writing
  outside the array \<^verbatim>\<open>flashchip_contents\<close> is undefined (\<open>None\<close>). Images in files and the delays are
  left out.

  The opaque chip provides the interfaces of the erase, write and image algorithms, for every size.
\<close>

section \<open>Data\<close>

datatype emu_chip =
    EMULATE_NONE | EMULATE_ST_M25P10_RES | EMULATE_SST_SST25VF040_REMS | EMULATE_SST_SST25VF032B
  | EMULATE_MACRONIX_MX25L6436 | EMULATE_WINBOND_W25Q128FV | EMULATE_SPANSION_S25FL128L
  | EMULATE_VARIABLE_SIZE

text \<open>\<open>emu_aai_offs\<close> is the static variable \<^verbatim>\<open>aai_offs\<close> of \<^verbatim>\<open>emulate_spi_chip_response\<close>.\<close>

record emu_data =
  emu_chip :: emu_chip
  emu_chip_size :: nat
  emu_wrsr_ext2 :: bool
  emu_wrsr_ext3 :: bool
  erase_to_zero :: bool
  emu_modified :: bool
  emu_status :: "u8 list"
  emu_status_len :: nat
  emu_max_byteprogram_size :: nat
  emu_max_aai_size :: nat
  emu_jedec_se_size :: nat
  emu_jedec_be_52_size :: nat
  emu_jedec_be_d8_size :: nat
  emu_jedec_ce_60_size :: nat
  emu_jedec_ce_c7_size :: nat
  spi_blacklist :: "u8 list"
  spi_ignorelist :: "u8 list"
  hwwp :: bool
  wp_start :: nat
  wp_end :: nat
  spi_write_256_chunksize :: nat
  flashchip_contents :: bytes
  emu_aai_offs :: nat

section \<open>Setting up a chip\<close>

text \<open>The sizes of a chip in the order of the assignments.\<close>

definition set_chip ::
    "emu_chip \<Rightarrow> nat \<Rightarrow> nat \<Rightarrow> nat \<Rightarrow> nat \<Rightarrow> nat \<Rightarrow> nat \<Rightarrow> nat \<Rightarrow> nat \<Rightarrow> nat \<Rightarrow> emu_data \<Rightarrow> emu_data" where
  "set_chip ch sz bytep aai slen se be52 bed8 ce60 cec7 d =
     d\<lparr>emu_chip := ch, emu_chip_size := sz, emu_max_byteprogram_size := bytep, emu_max_aai_size := aai,
       emu_status_len := slen, emu_jedec_se_size := se, emu_jedec_be_52_size := be52,
       emu_jedec_be_d8_size := bed8, emu_jedec_ce_60_size := ce60, emu_jedec_ce_c7_size := cec7\<rparr>"

text \<open>The part of \<^verbatim>\<open>init_data\<close> for the parameters \<^verbatim>\<open>emulate\<close> (\<open>name\<close>) and \<^verbatim>\<open>size\<close> (\<open>sz\<close>, -1 if not
  given); \<open>None\<close> is the return value 1.\<close>

definition init_emulate :: "string \<Rightarrow> int \<Rightarrow> emu_data \<Rightarrow> emu_data option" where
  "init_emulate name sz d =
     (let d1 =
        (if name = ''M25P10.RES''
         then set_chip EMULATE_ST_M25P10_RES (128 * 1024) 128 0 1 0 0 (32 * 1024) 0 (128 * 1024) d
         else if name = ''SST25VF040.REMS''
         then set_chip EMULATE_SST_SST25VF040_REMS (512 * 1024) 1 0 1 (4 * 1024) (32 * 1024) 0 (512 * 1024) 0 d
         else if name = ''SST25VF032B''
         then set_chip EMULATE_SST_SST25VF032B (4 * 1024 * 1024) 1 2 1 (4 * 1024) (32 * 1024) (64 * 1024)
                (4 * 1024 * 1024) (4 * 1024 * 1024) d
         else if name = ''MX25L6436''
         then set_chip EMULATE_MACRONIX_MX25L6436 (8 * 1024 * 1024) 256 0 1 (4 * 1024) (32 * 1024) (64 * 1024)
                (8 * 1024 * 1024) (8 * 1024 * 1024) d
         else if name = ''W25Q128FV''
         then (set_chip EMULATE_WINBOND_W25Q128FV (16 * 1024 * 1024) 256 0 3 (4 * 1024) (32 * 1024) (64 * 1024)
                 (16 * 1024 * 1024) (16 * 1024 * 1024) d)\<lparr>emu_wrsr_ext2 := True\<rparr>
         else if name = ''S25FL128L''
         then (set_chip EMULATE_SPANSION_S25FL128L (16 * 1024 * 1024) 256 0 3 (4 * 1024) (32 * 1024) (64 * 1024)
                 (16 * 1024 * 1024) (16 * 1024 * 1024) d)\<lparr>emu_wrsr_ext2 := True, emu_wrsr_ext3 := True\<rparr>
         else d)
      in if name = ''VARIABLE_SIZE''
         then (if sz = -1 then None
               else Some (d1\<lparr>emu_chip := EMULATE_VARIABLE_SIZE, emu_chip_size := nat sz\<rparr>))
         else if sz \<noteq> -1 then None
         else if emu_chip d1 = EMULATE_NONE then None
         else Some d1)"

text \<open>\<^verbatim>\<open>dummy_init\<close> starts from zeroed data with the default chunk size, and fills the contents of an
  emulated chip with the erased value. \<open>status\<close> is the parameter \<^verbatim>\<open>spi_status\<close>.\<close>

definition zero_data :: emu_data where
  "zero_data =
     \<lparr>emu_chip = EMULATE_NONE, emu_chip_size = 0, emu_wrsr_ext2 = False, emu_wrsr_ext3 = False,
      erase_to_zero = False, emu_modified = False, emu_status = [0, 0, 0], emu_status_len = 0,
      emu_max_byteprogram_size = 0, emu_max_aai_size = 0, emu_jedec_se_size = 0, emu_jedec_be_52_size = 0,
      emu_jedec_be_d8_size = 0, emu_jedec_ce_60_size = 0, emu_jedec_ce_c7_size = 0, spi_blacklist = [],
      spi_ignorelist = [], hwwp = False, wp_start = 0, wp_end = 0, spi_write_256_chunksize = 256,
      flashchip_contents = [], emu_aai_offs = 0\<rparr>"

definition init_fill :: "emu_data \<Rightarrow> emu_data" where
  "init_fill d =
     d\<lparr>flashchip_contents := replicate (emu_chip_size d) (if erase_to_zero d then 0x00 else 0xff)\<rparr>"

section \<open>The opaque interface\<close>

definition dummy_opaque_read :: "nat \<Rightarrow> nat \<Rightarrow> emu_data \<Rightarrow> (int \<times> bytes \<times> emu_data) option" where
  "dummy_opaque_read start len d =
     (if length (flashchip_contents d) < start + len then None
      else Some (0, bslice start len (flashchip_contents d), d))"

definition dummy_opaque_write :: "bytes \<Rightarrow> nat \<Rightarrow> nat \<Rightarrow> emu_data \<Rightarrow> (int \<times> emu_data) option" where
  "dummy_opaque_write buf start len d =
     (if length (flashchip_contents d) < start + len \<or> length buf < len then None
      else Some (0, d\<lparr>flashchip_contents := blit start (take len buf) (flashchip_contents d), emu_modified := True\<rparr>))"

definition dummy_opaque_erase :: "nat \<Rightarrow> nat \<Rightarrow> emu_data \<Rightarrow> (int \<times> emu_data) option" where
  "dummy_opaque_erase blockaddr blocklen d =
     (if length (flashchip_contents d) < blockaddr + blocklen then None
      else Some (0, d\<lparr>flashchip_contents :=
                        memset_at blockaddr (if erase_to_zero d then 0x00 else 0xff) blocklen (flashchip_contents d),
                      emu_modified := True\<rparr>))"

text \<open>The chip entry is changed by the probe function; the result is its return value and the chip.\<close>

definition probe_variable_size :: "flashchip \<Rightarrow> emu_data \<Rightarrow> int \<times> flashchip" where
  "probe_variable_size chip d =
     (if emu_chip d \<noteq> EMULATE_VARIABLE_SIZE then (0, chip)
      else
        let chip1 = chip\<lparr>ch_total_size := emu_chip_size d div 1024,
                         ch_tested := \<lparr>t_probe = OK, t_read = OK, t_erase = OK, t_write = OK, t_wp = OK\<rparr>,
                         ch_feature_bits := (if erase_to_zero d then ch_feature_bits chip OR FEATURE_ERASED_ZERO
                                             else ch_feature_bits chip)\<rparr>;
            eraser = ch_erasers chip ! 0
        in if be_erase eraser = NO_BLOCK_ERASE_FUNC then (1, chip1)
           else (1, chip1\<lparr>ch_erasers := (ch_erasers chip)
                  [0 := eraser\<lparr>be_blocks := (be_blocks eraser)[0 := \<lparr>eb_size = emu_chip_size d, eb_count = 1\<rparr>]\<rparr>]\<rparr>))"

definition dummy_wp_read_cfg :: "wp_cfg \<Rightarrow> emu_data \<Rightarrow> wp_result \<times> wp_cfg \<times> emu_data" where
  "dummy_wp_read_cfg cfg d =
     (FLASHROM_WP_OK, cfg\<lparr>cfg_mode := FLASHROM_WP_MODE_DISABLED, cfg_range := \<lparr>wr_start = 0, wr_len = 0\<rparr>\<rparr>, d)"

definition dummy_wp_write_cfg :: "wp_cfg \<Rightarrow> emu_data \<Rightarrow> wp_result \<times> emu_data" where
  "dummy_wp_write_cfg cfg d =
     (if cfg_mode cfg \<noteq> FLASHROM_WP_MODE_DISABLED then (FLASHROM_WP_ERR_MODE_UNSUPPORTED, d)
      else if wr_start (cfg_range cfg) \<noteq> 0 \<or> wr_len (cfg_range cfg) \<noteq> 0 then (FLASHROM_WP_ERR_RANGE_UNSUPPORTED, d)
      else (FLASHROM_WP_OK, d))"

definition PROGMANUF_ID :: nat where "PROGMANUF_ID = 0xFFFE"
definition PROGDEV_ID :: nat where "PROGDEV_ID = 0x01"

text \<open>The chip entry \<^verbatim>\<open>"Opaque flash chip"\<close> of \<^verbatim>\<open>flashchips.c\<close>.\<close>

definition no_eraser :: block_eraser where
  "no_eraser = \<lparr>be_blocks = replicate NUM_ERASEREGIONS \<lparr>eb_size = 0, eb_count = 0\<rparr>, be_erase = NO_BLOCK_ERASE_FUNC\<rparr>"

definition opaque_chip :: flashchip where
  "opaque_chip =
     \<lparr>ch_vendor = Some ''Programmer'', ch_name = Some ''Opaque flash chip'', ch_bustype = BUS_PROG,
      ch_manufacture_id = PROGMANUF_ID, ch_model_id = PROGDEV_ID, ch_total_size = 0, ch_page_size = 256, ch_feature_bits = 0,
      ch_tested = \<lparr>t_probe = OK, t_read = NT, t_erase = NT, t_write = NT, t_wp = NT\<rparr>,
      ch_spi_cmd_set = SPI25, ch_probe = PROBE_OPAQUE, ch_probe_timing = 0,
      ch_erasers = no_eraser\<lparr>be_erase := OPAQUE_ERASE\<rparr> # replicate (NUM_ERASEFUNCTIONS - 1) no_eraser,
      ch_write = WRITE_OPAQUE, ch_read = READ_OPAQUE, ch_gran = WRITE_GRAN_256BYTES\<rparr>"


section \<open>The opaque master of the dummy programmer\<close>

text \<open>The master of \<^verbatim>\<open>opaque_master_dummyflasher\<close>; it has no region callback, so that the whole chip is one
  region. The drivers are those of \<^verbatim>\<open>opaque.c\<close>; the other driver functions would call through null
  pointers of this master.\<close>

definition opaque_master :: master where
  "opaque_master = \<lparr>m_buses_supported = BUS_PROG, m_opaque_get_region = None, m_spi_get_region = None,
     m_spi_probe_opcode = None\<rparr>"

definition opaque_drivers :: "emu_data drivers" where
  "opaque_drivers =
     \<lparr>drv_read = (\<lambda>f start len d. if f = READ_OPAQUE then dummy_opaque_read start len d else None),
      drv_write = (\<lambda>f buf start len d. if f = WRITE_OPAQUE then dummy_opaque_write buf start len d else None),
      drv_erase = (\<lambda>f a len d. if f = OPAQUE_ERASE then dummy_opaque_erase a len d else None)\<rparr>"

text \<open>The context after a successful probe of a programmer with data \<open>d0\<close>, for a layout of the user,
  flags, the sacrifice ratio and the contents \<open>fresh\<close> of uninitialised memory.\<close>

definition opaque_ctx :: "emu_data \<Rightarrow> layout option \<Rightarrow> flags \<Rightarrow> int \<Rightarrow> (nat \<Rightarrow> u8) \<Rightarrow> emu_data flashctx" where
  "opaque_ctx d0 lay fl ratio fresh =
     (let chip = snd (probe_variable_size opaque_chip d0)
      in \<lparr>c_chip = chip, c_mst = opaque_master, c_layout = lay,
          c_default_layout = (case snd (init_default_layout True True chip) of Some l \<Rightarrow> l | None \<Rightarrow> []),
          c_flags = fl, c_sacrifice_ratio = ratio, c_drivers = opaque_drivers, c_malloc = (\<lambda>m. True),
          c_fresh = fresh\<rparr>)"

text \<open>Write protection goes through the configuration functions of the master; the register functions and
  the range decoder are those of a chip without them.\<close>

definition no_bit :: reg_bit_info where
  "no_bit = \<lparr>bi_reg = INVALID_REG, bi_index = 0, bi_writability = RO\<rparr>"

definition opaque_wp_env :: "emu_data wp_env" where
  "opaque_wp_env =
     \<lparr>we_buses = BUS_PROG, we_opaque_read = None, we_opaque_write = None,
      we_spi_read = (\<lambda>r d. (SPI_INVALID_OPCODE, 0, d)), we_spi_write = (\<lambda>r v d. (SPI_INVALID_OPCODE, d)),
      we_opaque_write_cfg = Some dummy_wp_write_cfg, we_opaque_read_cfg = Some dummy_wp_read_cfg,
      we_reg_bits = \<lparr>rb_srp = no_bit, rb_srl = no_bit, rb_bp = replicate MAX_BP_BITS no_bit, rb_tb = no_bit,
                     rb_sec = no_bit, rb_cmp = no_bit, rb_wps = no_bit\<rparr>,
      we_decode_range = NO_DECODE_RANGE_FUNC, we_chip_len = 0, we_calloc = True,
      we_junk = \<lparr>srp_bit_present = False, srp = 0, srl_bit_present = False, srl = 0, cmp_bit_present = False,
                 cmp = 0, sec_bit_present = False, sec = 0, tb_bit_present = False, tb = 0, bp_bit_count = 0,
                 bp = replicate MAX_BP_BITS 0\<rparr>\<rparr>"

definition opaque_access :: "emu_data access" where
  "opaque_access =
     \<lparr>ac_programmer_may_write = True, ac_spi_features = 0, ac_map_flash = (\<lambda>d. (0, d)), ac_unmap_flash = (\<lambda>d. d),
      ac_wp = opaque_wp_env, ac_cfg_alloc = True, ac_blockprotect = None, ac_protected_ranges = [],
      ac_clear_addressing = (\<lambda>d. d), ac_enter_4ba = (\<lambda>d. None), ac_exit_4ba = (\<lambda>d. None), ac_delay = (\<lambda>d. d),
      ac_image_mismatch = (\<lambda>b. False)\<rparr>"

definition opaque_ok :: "emu_data \<Rightarrow> emu_data \<Rightarrow> bool" where
  "opaque_ok d0 d \<longleftrightarrow> length (flashchip_contents d) = emu_chip_size d0 \<and> erase_to_zero d = erase_to_zero d0"

text \<open>Data of a programmer that emulates a chip of variable size: the checks of \<^verbatim>\<open>init_data\<close> on the size.\<close>

definition variable_chip :: "emu_data \<Rightarrow> bool" where
  "variable_chip d0 \<longleftrightarrow> emu_chip d0 = EMULATE_VARIABLE_SIZE \<and> 0 < emu_chip_size d0 \<and> 1024 dvd emu_chip_size d0 \<and>
     emu_chip_size d0 < 2147483648"

lemma variable_chip_kib: "variable_chip d0 \<Longrightarrow> emu_chip_size d0 div 1024 * 1024 = emu_chip_size d0"
  by (simp add: variable_chip_def)

lemma upt8: "[0..<8] = [0, 1, 2, 3, 4, 5, 6, 7]"
  by (simp add: upt_rec)

lemma replicate5: "replicate 5 x = x # replicate 4 x"
  by (simp add: numeral_nat)

lemma replicate7: "replicate 7 x = [x, x, x, x, x, x, x]"
  by (simp add: numeral_nat)

lemma opaque_probe:
  assumes "variable_chip d0"
  shows "probe_variable_size opaque_chip d0 =
    (1, opaque_chip\<lparr>ch_total_size := emu_chip_size d0 div 1024,
         ch_tested := \<lparr>t_probe = OK, t_read = OK, t_erase = OK, t_write = OK, t_wp = OK\<rparr>,
         ch_feature_bits := if erase_to_zero d0 then FEATURE_ERASED_ZERO else 0,
         ch_erasers := \<lparr>be_blocks = \<lparr>eb_size = emu_chip_size d0, eb_count = 1\<rparr> #
             replicate 4 \<lparr>eb_size = 0, eb_count = 0\<rparr>, be_erase = OPAQUE_ERASE\<rparr> # replicate 7 no_eraser\<rparr>)"
  using assms
  by (simp add: probe_variable_size_def opaque_chip_def variable_chip_def Let_def no_eraser_def NUM_ERASEREGIONS_def
      NUM_ERASEFUNCTIONS_def replicate5)

lemma opaque_ctx_simps:
  fixes lay :: "layout option" and fl :: flags and ratio :: int and fresh :: "nat \<Rightarrow> u8"
  assumes "variable_chip d0"
  defines "c \<equiv> opaque_ctx d0 lay fl ratio fresh"
  shows "ch_total_size (c_chip c) = emu_chip_size d0 div 1024"
    and "ch_total_size (c_chip c) * 1024 = emu_chip_size d0"
    and "c_mst c = opaque_master" "c_layout c = lay" "c_flags c = fl" "c_drivers c = opaque_drivers"
    and "c_malloc c = (\<lambda>m. True)" "c_default_layout c = whole_chip (emu_chip_size d0)"
    and "ch_gran (c_chip c) = WRITE_GRAN_256BYTES" "ch_read (c_chip c) = READ_OPAQUE" "ch_write (c_chip c) = WRITE_OPAQUE"
    and "ERASED_VALUE c = (if erase_to_zero d0 then 0x00 else 0xff)"
    and "ch_tested (c_chip c) = \<lparr>t_probe = OK, t_read = OK, t_erase = OK, t_write = OK, t_wp = OK\<rparr>"
    and "ch_bustype (c_chip c) = BUS_PROG"
    and "usable_erasers c = [\<lparr>be_blocks = \<lparr>eb_size = emu_chip_size d0, eb_count = 1\<rparr> #
             replicate 4 \<lparr>eb_size = 0, eb_count = 0\<rparr>, be_erase = OPAQUE_ERASE\<rparr>]"
proof -
  note chip = opaque_probe [OF assms(1)]
  show "ch_total_size (c_chip c) = emu_chip_size d0 div 1024" by (simp add: c_def opaque_ctx_def Let_def chip)
  show kib: "ch_total_size (c_chip c) * 1024 = emu_chip_size d0"
    using variable_chip_kib [OF assms(1)] by (simp add: c_def opaque_ctx_def Let_def chip)
  show "c_mst c = opaque_master" "c_layout c = lay" "c_flags c = fl" "c_drivers c = opaque_drivers"
    "c_malloc c = (\<lambda>m. True)" by (simp_all add: c_def opaque_ctx_def Let_def)
  have "init_default_layout True True (c_chip c) = (0, Some (whole_chip (emu_chip_size d0)))"
    by (rule init_default_layout_eq) (use kib assms(1) in \<open>auto simp: variable_chip_def\<close>)
  then show "c_default_layout c = whole_chip (emu_chip_size d0)" by (simp add: c_def opaque_ctx_def Let_def)
  show "ch_gran (c_chip c) = WRITE_GRAN_256BYTES" "ch_read (c_chip c) = READ_OPAQUE" "ch_write (c_chip c) = WRITE_OPAQUE"
    "ch_bustype (c_chip c) = BUS_PROG"
    by (simp_all only: c_def opaque_ctx_def Let_def chip flashctx.simps snd_conv flashchip.simps) (simp_all add: opaque_chip_def)
  show "ERASED_VALUE c = (if erase_to_zero d0 then 0x00 else 0xff)"
    by (simp add: c_def opaque_ctx_def Let_def chip ERASED_VALUE_def FEATURE_ERASED_ZERO_def)
  show "ch_tested (c_chip c) = \<lparr>t_probe = OK, t_read = OK, t_erase = OK, t_write = OK, t_wp = OK\<rparr>"
    by (simp add: c_def opaque_ctx_def Let_def chip)
  show "usable_erasers c = [\<lparr>be_blocks = \<lparr>eb_size = emu_chip_size d0, eb_count = 1\<rparr> #
             replicate 4 \<lparr>eb_size = 0, eb_count = 0\<rparr>, be_erase = OPAQUE_ERASE\<rparr>]"
    by (simp add: usable_erasers_def c_def opaque_ctx_def Let_def chip check_block_eraser_def opaque_master_def
        bus_defs NUM_ERASEFUNCTIONS_def upt8 replicate7 no_eraser_def NUM_ERASEREGIONS_def replicate5)
qed

lemma opaque_region:
  assumes "variable_chip d0"
  shows "get_flash_region (opaque_ctx d0 lay fl ratio fresh) a =
    \<lparr>fr_name = [], fr_start = 0, fr_end = emu_chip_size d0 - 1, fr_read_prot = False, fr_write_prot = False\<rparr>"
proof -
  have "mul32 (emu_chip_size d0 div 1024) 1024 = emu_chip_size d0"
    using assms variable_chip_kib [OF assms] by (simp add: variable_chip_def c_simps)
  with assms show ?thesis
    by (simp add: get_flash_region_def flashrom_flash_getsize_def opaque_ctx_simps opaque_master_def bus_defs
        variable_chip_def c_simps)
qed

lemma opaque_eraser_blocks:
  "eraser_sizes \<lparr>be_blocks = \<lparr>eb_size = n, eb_count = Suc 0\<rparr> # replicate 4 \<lparr>eb_size = 0, eb_count = 0\<rparr>, be_erase = f\<rparr> = [n]"
  "eraser_blocks \<lparr>be_blocks = \<lparr>eb_size = n, eb_count = Suc 0\<rparr> # replicate 4 \<lparr>eb_size = 0, eb_count = 0\<rparr>, be_erase = f\<rparr> = [(0, n)]"
  by (simp_all add: eraser_blocks_def eraser_sizes_def numeral_nat)

lemma opaque_reader:
  assumes v: "variable_chip d0"
  shows "flash_reader (opaque_ctx d0 lay fl ratio fresh) (emu_chip_size d0) (opaque_ok d0) flashchip_contents"
  using v
  by unfold_locales
    (auto simp: opaque_ctx_simps opaque_region variable_chip_def opaque_ok_def opaque_drivers_def dummy_opaque_read_def)

lemma opaque_erase_device:
  assumes v: "variable_chip d0"
  shows "erase_device (opaque_ctx d0 lay fl ratio fresh) (emu_chip_size d0) (opaque_ok d0) flashchip_contents"
proof -
  have "256 dvd emu_chip_size d0" using v dvd_trans [of 256 1024 "emu_chip_size d0"] by (simp add: variable_chip_def)
  with v show ?thesis
    by (intro erase_device.intro flash_device.intro opaque_reader flash_device_axioms.intro erase_device_axioms.intro)
      (auto simp: opaque_ctx_simps [OF v] opaque_region [OF v] opaque_ok_def opaque_drivers_def dummy_opaque_write_def
       dummy_opaque_erase_def opaque_eraser_blocks geometry_ok_def eraser_ok_def variable_chip_def bounds_of_def)
qed

lemma opaque_full_reader:
  assumes v: "variable_chip d0"
  shows "full_reader (opaque_ctx d0 lay fl ratio fresh) (emu_chip_size d0) (opaque_ok d0) flashchip_contents"
  using v by (intro full_reader.intro full_reader_axioms.intro opaque_reader) (auto simp: opaque_region)

lemma opaque_unlock:
  "unlock_chip opaque_access True er d = Some ([restore_flash_wp opaque_access new_wp_cfg], d)"
  "unlock_chip opaque_access wr True d = Some ([restore_flash_wp opaque_access new_wp_cfg], d)"
  "unlock_chip opaque_access False False d = Some ([], d)"
  by (auto simp: unlock_chip_def opaque_access_def opaque_wp_env_def bus_defs unlock_flash_wp_def
      save_initial_flash_wp_def flashrom_wp_read_cfg_def flashrom_wp_write_cfg_def dummy_wp_read_cfg_def
      dummy_wp_write_cfg_def new_wp_cfg_def register_chip_restore_def MAX_CHIP_RESTORE_FUNCTIONS_def)

lemma opaque_finalize:
  "finalize_flash_access opaque_access [restore_flash_wp opaque_access new_wp_cfg] d = Some d"
  "finalize_flash_access opaque_access [] d = Some d"
  by (simp_all add: finalize_flash_access_def deregister_chip_restore_def restore_flash_wp_def opaque_access_def
      opaque_wp_env_def bus_defs flashrom_wp_write_cfg_def dummy_wp_write_cfg_def new_wp_cfg_def)

lemma opaque_checks:
  assumes v: "variable_chip d0"
  shows "chip_safety_check (opaque_ctx d0 lay fl ratio fresh) opaque_access force rd wr er ve = 0"
  by (simp add: chip_safety_check_def opaque_ctx_simps [OF v] Let_def lookup_read_func_ptr_def lookup_write_func_ptr_def
      opaque_access_def length_usable_erasers [symmetric])

lemma opaque_image_device:
  assumes v: "variable_chip d0"
    and lay: "layout_sanity_checks (emu_chip_size d0 div 1024) (get_layout (opaque_ctx d0 lay fl ratio fresh)) = 0"
  shows "image_device (opaque_ctx d0 lay fl ratio fresh) (emu_chip_size d0) (opaque_ok d0) flashchip_contents
    (opaque_ok d0) opaque_access (opaque_ok d0) (opaque_ok d0)"
proof (intro image_device.intro image_device_axioms.intro opaque_erase_device opaque_full_reader v)
  let ?c = "opaque_ctx d0 lay fl ratio fresh"
  show "chip_safety_check ?c opaque_access (fl_force (c_flags ?c)) rd wr er ve = 0" for rd wr er ve
    using v by (rule opaque_checks)
  show "layout_sanity_checks (ch_total_size (c_chip ?c)) (get_layout ?c) = 0" using lay by (simp add: opaque_ctx_simps [OF v])
  show "entries_ok (emu_chip_size d0) (get_default_layout ?c)"
    using v by (simp add: get_default_layout_def opaque_ctx_simps [OF v] entries_whole_chip variable_chip_def)
  show "\<exists>s'. ac_map_flash opaque_access s = (0, s') \<and> opaque_ok d0 s' \<and> flashchip_contents s' = flashchip_contents s"
    if "opaque_ok d0 s" for s using that by (simp add: opaque_access_def)
  show "\<exists>fns s'. unlock_chip opaque_access wr er s = Some (fns, s') \<and> opaque_ok d0 s' \<and>
      flashchip_contents s' = flashchip_contents s \<and>
      (\<forall>t. opaque_ok d0 t \<longrightarrow> (\<exists>t'. finalize_flash_access opaque_access fns t = Some t' \<and> opaque_ok d0 t' \<and>
        flashchip_contents t' = flashchip_contents t))" if "opaque_ok d0 s" "wr \<or> er" for s wr er
    using that by (auto simp: opaque_unlock opaque_finalize)
  show "\<exists>fns s'. unlock_chip opaque_access False False s = Some (fns, s') \<and> opaque_ok d0 s' \<and>
      flashchip_contents s' = flashchip_contents s \<and>
      (\<forall>t. opaque_ok d0 t \<longrightarrow> (\<exists>t'. finalize_flash_access opaque_access fns t = Some t' \<and> opaque_ok d0 t' \<and>
        flashchip_contents t' = flashchip_contents t))" if "opaque_ok d0 s" for s
    using that by (auto simp: opaque_unlock opaque_finalize)
  show "\<exists>s'. active_wp_range opaque_access s = Some (None, s') \<and> opaque_ok d0 s' \<and> flashchip_contents s' = flashchip_contents s"
    if "opaque_ok d0 s" for s
    using that by (simp add: active_wp_range_def opaque_access_def opaque_wp_env_def bus_defs flashrom_wp_read_cfg_def
        dummy_wp_read_cfg_def)
  show "ac_protected_ranges opaque_access = []" by (simp add: opaque_access_def)
  show "\<not> write_protected ?c i" for i using v by (simp add: write_protected_def opaque_region)
  have "prepare_4ba ?c opaque_access s = Some (0, s)" for s
    by (simp add: prepare_4ba_def opaque_ctx_simps [OF v] opaque_master_def bus_defs spi_master_no_4ba_modes_def
        spi_chip_4ba_def opaque_access_def)
  then show "\<exists>s'. prepare_4ba ?c opaque_access s = Some (0, s') \<and> opaque_ok d0 s' \<and> flashchip_contents s' = flashchip_contents s"
    if "opaque_ok d0 s" for s using that by blast
  then show "\<exists>s'. prepare_4ba ?c opaque_access s = Some (0, s') \<and> opaque_ok d0 s' \<and> flashchip_contents s' = flashchip_contents s"
    if "opaque_ok d0 s" for s using that by blast
  show "opaque_ok d0 (ac_delay opaque_access s) \<and> flashchip_contents (ac_delay opaque_access s) = flashchip_contents s"
    if "opaque_ok d0 s" for s using that by (simp add: opaque_access_def)
qed

section \<open>Image operations on a chip of variable size\<close>

text \<open>The programmer that the comment in \<^verbatim>\<open>init_data\<close> gives as an example:
  \<^verbatim>\<open>emulate=VARIABLE_SIZE,size=4194304\<close>.\<close>

definition sample_data :: emu_data where
  "sample_data = (case init_emulate ''VARIABLE_SIZE'' 4194304 zero_data of Some d \<Rightarrow> init_fill d | None \<Rightarrow> zero_data)"

definition sample_flags :: flags where
  "sample_flags = \<lparr>fl_force = False, fl_force_boardmismatch = False, fl_verify_after_write = True,
     fl_verify_whole_chip = True, fl_skip_unreadable_regions = False, fl_skip_unwritable_regions = False\<rparr>"

definition sample_ctx :: "emu_data flashctx" where
  "sample_ctx = opaque_ctx sample_data None sample_flags 0 (\<lambda>i. 0)"

lemma sample_data_simps:
  "emu_chip sample_data = EMULATE_VARIABLE_SIZE" "emu_chip_size sample_data = 4194304" "\<not> erase_to_zero sample_data"
  "flashchip_contents sample_data = replicate 4194304 0xff"
  by (simp_all add: sample_data_def init_emulate_def init_fill_def zero_data_def Let_def)

lemma sample_variable_chip: "variable_chip sample_data" "opaque_ok sample_data sample_data"
  by (simp_all add: variable_chip_def opaque_ok_def sample_data_simps)

lemma default_layout_checked:
  assumes "variable_chip d0"
  shows "get_layout (opaque_ctx d0 None fl ratio fresh) = whole_chip (emu_chip_size d0)"
    and "layout_sanity_checks (emu_chip_size d0 div 1024) (get_layout (opaque_ctx d0 None fl ratio fresh)) = 0"
proof -
  show l: "get_layout (opaque_ctx d0 None fl ratio fresh) = whole_chip (emu_chip_size d0)"
    by (simp add: get_layout_def get_default_layout_def opaque_ctx_simps [OF assms])
  show "layout_sanity_checks (emu_chip_size d0 div 1024) (get_layout (opaque_ctx d0 None fl ratio fresh)) = 0"
    using whole_chip_checked [of "emu_chip_size d0 div 1024"] assms variable_chip_kib [OF assms]
    unfolding l by (auto simp: variable_chip_def)
qed

interpretation opq: image_device sample_ctx 4194304 "opaque_ok sample_data" flashchip_contents
    "opaque_ok sample_data" opaque_access "opaque_ok sample_data" "opaque_ok sample_data"
  unfolding sample_ctx_def sample_data_simps(2) [symmetric]
  by (rule opaque_image_device [OF sample_variable_chip(1) default_layout_checked(2) [OF sample_variable_chip(1)]])

text \<open>\<^verbatim>\<open>flashrom_image_write\<close> on a chip of the dummy programmer, of every size and for every layout that passes
  the sanity checks, returns 0, and afterwards the chip holds the bytes of the image in the included regions and
  its old bytes everywhere else. It may be given the old contents as a reference.\<close>

theorem opaque_image_write_correct:
  assumes v: "variable_chip d0"
    and lay: "layout_sanity_checks (emu_chip_size d0 div 1024) (get_layout (opaque_ctx d0 lay fl ratio fresh)) = 0"
    and some: "\<exists>e \<in> set (get_layout (opaque_ctx d0 lay fl ratio fresh)). re_included e"
    and ok: "opaque_ok d0 d" and len: "length buf = emu_chip_size d0"
    and ref: "ref = None \<or> ref = Some (flashchip_contents d)"
  shows "\<exists>buf' d'. flashrom_image_write (opaque_ctx d0 lay fl ratio fresh) opaque_access fns0 buf ref d = Some (0, buf', d') \<and>
    opaque_ok d0 d' \<and>
    flashchip_contents d' = overlay buf (covered (get_layout (opaque_ctx d0 lay fl ratio fresh))) (flashchip_contents d)"
proof -
  have "walk_included (get_layout (opaque_ctx d0 lay fl ratio fresh)) [] \<noteq> []"
    using some by (auto simp: filter_empty_conv)
  moreover have "ac_image_mismatch opaque_access buf \<longrightarrow> fl_force_boardmismatch (c_flags (opaque_ctx d0 lay fl ratio fresh))"
    by (simp add: opaque_access_def)
  ultimately show ?thesis
    using image_device.image_write_ok [OF opaque_image_device [OF v lay] ok len ref] by blast
qed

theorem opaque_image_write_witness:
  "\<exists>buf' d'. flashrom_image_write sample_ctx opaque_access [] (replicate 4194304 0x5a) None sample_data = Some (0, buf', d') \<and>
    opaque_ok sample_data d' \<and>
    flashchip_contents d' = overlay (replicate 4194304 0x5a) (covered (get_layout sample_ctx)) (flashchip_contents sample_data)"
  unfolding sample_ctx_def
  by (rule opaque_image_write_correct [OF sample_variable_chip(1) default_layout_checked(2) [OF sample_variable_chip(1)]])
    (simp_all add: sample_variable_chip default_layout_checked(1) [OF sample_variable_chip(1)] sample_data_simps whole_chip_def)

text \<open>Writing an image with the default layout and reading the chip back returns the image: both operations
  return 0, and the second fills the buffer with the bytes given to the first.\<close>

theorem opaque_write_read_roundtrip:
  assumes v: "variable_chip d0" and ok: "opaque_ok d0 d"
    and len: "length img = emu_chip_size d0" "length buf = emu_chip_size d0"
  shows "\<exists>b1 d1 d2.
    flashrom_image_write (opaque_ctx d0 None fl ratio fresh) opaque_access fns0 img None d = Some (0, b1, d1) \<and>
    flashrom_image_read (opaque_ctx d0 None fl ratio fresh) opaque_access fns1 buf d1 = Some (0, img, d2) \<and>
    flashchip_contents d2 = img"
proof -
  let ?c = "opaque_ctx d0 None fl ratio fresh"
  note dev = opaque_image_device [OF v default_layout_checked(2) [OF v], of fl ratio fresh]
  have pos: "0 < emu_chip_size d0" using v by (simp add: variable_chip_def)
  have w: "walk_included (get_layout ?c) [] \<noteq> []" unfolding default_layout_checked(1) [OF v] by (simp add: whole_chip_def)
  have m: "ac_image_mismatch opaque_access img \<longrightarrow> fl_force_boardmismatch (c_flags ?c)" by (simp add: opaque_access_def)
  obtain b1 d1 where 1: "flashrom_image_write ?c opaque_access fns0 img None d = Some (0, b1, d1)" "opaque_ok d0 d1"
    "flashchip_contents d1 = overlay img (covered (get_layout ?c)) (flashchip_contents d)"
    using image_device.image_write_ok [OF dev ok len(1) _ w m] by blast
  have img: "flashchip_contents d1 = img"
    unfolding 1(3) default_layout_checked(1) [OF v] using ok len
    by (intro nth_equalityI) (auto simp: opaque_ok_def buf_simps covered_whole_chip [OF pos])
  obtain b2 d2 where 2: "flashrom_image_read ?c opaque_access fns1 buf d1 = Some (0, b2, d2)"
    "flashchip_contents d2 = flashchip_contents d1" "length b2 = length buf"
    "\<forall>i < length buf. b2 ! i = (if covered (get_layout ?c) i then flashchip_contents d1 ! i else buf ! i)"
    using image_device.image_read_ok [OF dev 1(2), where buf = buf and ?fns0.0 = fns1] len by auto
  have "b2 = img" using 2(3,4) len unfolding img default_layout_checked(1) [OF v]
    by (intro nth_equalityI) (auto simp: covered_whole_chip [OF pos])
  with 1 2 img show ?thesis by blast
qed

theorem opaque_write_read_witness:
  "\<exists>b1 d1 d2.
    flashrom_image_write sample_ctx opaque_access [] (replicate 4194304 0x5a) None sample_data = Some (0, b1, d1) \<and>
    flashrom_image_read sample_ctx opaque_access [] (replicate 4194304 0) d1 = Some (0, replicate 4194304 0x5a, d2) \<and>
    flashchip_contents d2 = replicate 4194304 0x5a"
  unfolding sample_ctx_def
  by (rule opaque_write_read_roundtrip) (simp_all add: sample_variable_chip sample_data_simps)

text \<open>\<^verbatim>\<open>flashrom_flash_erase\<close> on a chip of the dummy programmer returns 0 and sets exactly the bytes of the
  included regions to the erased value, although the only erase block is the whole chip.\<close>

theorem opaque_flash_erase_correct:
  assumes v: "variable_chip d0"
    and lay: "layout_sanity_checks (emu_chip_size d0 div 1024) (get_layout (opaque_ctx d0 lay fl ratio fresh)) = 0"
    and ok: "opaque_ok d0 d"
  shows "\<exists>d'. flashrom_flash_erase (opaque_ctx d0 lay fl ratio fresh) opaque_access fns0 d = Some (0, d') \<and> opaque_ok d0 d' \<and>
    flashchip_contents d' = overlay (replicate (emu_chip_size d0) (if erase_to_zero d0 then 0x00 else 0xff))
      (covered (get_layout (opaque_ctx d0 lay fl ratio fresh))) (flashchip_contents d)"
  using image_device.flash_erase_ok [OF opaque_image_device [OF v lay] ok, of fns0] by (simp add: opaque_ctx_simps [OF v])

theorem opaque_flash_erase_witness:
  "\<exists>d'. flashrom_flash_erase sample_ctx opaque_access [] sample_data = Some (0, d') \<and> opaque_ok sample_data d' \<and>
    flashchip_contents d' = overlay (replicate (emu_chip_size sample_data) (if erase_to_zero sample_data then 0x00 else 0xff))
      (covered (get_layout sample_ctx)) (flashchip_contents sample_data)"
  unfolding sample_ctx_def
  by (rule opaque_flash_erase_correct [OF sample_variable_chip(1) default_layout_checked(2) [OF sample_variable_chip(1)]])
    (rule sample_variable_chip(2))

text \<open>\<^verbatim>\<open>flashrom_image_verify\<close> on a chip of the dummy programmer returns 0 if and only if the image agrees with
  the chip on the included regions, returns 3 otherwise, and never changes the contents.\<close>

theorem opaque_image_verify_correct:
  assumes v: "variable_chip d0"
    and lay: "layout_sanity_checks (emu_chip_size d0 div 1024) (get_layout (opaque_ctx d0 lay fl ratio fresh)) = 0"
    and ok: "opaque_ok d0 d" and len: "length buf = emu_chip_size d0"
  shows "\<exists>d'. flashrom_image_verify (opaque_ctx d0 lay fl ratio fresh) opaque_access fns0 buf d =
      Some (if \<forall>i. covered (get_layout (opaque_ctx d0 lay fl ratio fresh)) i \<longrightarrow> buf ! i = flashchip_contents d ! i
            then 0 else 3, d') \<and> flashchip_contents d' = flashchip_contents d"
  using image_device.image_verify_ok [OF opaque_image_device [OF v lay] ok len, of fns0] by blast

theorem opaque_image_verify_witness:
  "\<exists>d'. flashrom_image_verify sample_ctx opaque_access [] (replicate 4194304 0x5a) sample_data =
      Some (if \<forall>i. covered (get_layout sample_ctx) i \<longrightarrow> replicate 4194304 0x5a ! i = flashchip_contents sample_data ! i
            then 0 else 3, d') \<and> flashchip_contents d' = flashchip_contents sample_data"
  unfolding sample_ctx_def
  by (rule opaque_image_verify_correct [OF sample_variable_chip(1) default_layout_checked(2) [OF sample_variable_chip(1)]])
    (simp_all add: sample_variable_chip sample_data_simps)

end
