(* ===== verification/Spi.thy ===== *)
theory Spi
  imports FlashAccess
begin

text \<open>
  The SPI layer of flashrom: sending commands (\<^verbatim>\<open>flashrom/spi.c\<close>), the status registers
  (\<^verbatim>\<open>spi25_statusreg.c\<close>), and the chip functions of the 25 series (\<^verbatim>\<open>spi25.c\<close>): addressing,
  erasing, programming, reading and probing.

  The master is a record of its callbacks on the state \<open>'d\<close> of the hardware; a command takes the bytes
  to write and the number of bytes to read, and returns a result code and the bytes read. The state
  of the layer is the hardware with the fields \<^verbatim>\<open>address_high_byte\<close> and \<^verbatim>\<open>in_4ba_mode\<close> of the context.
  \<open>None\<close> is undefined behaviour or a loop without end; delays and messages are left out.
\<close>

section \<open>Opcodes and features\<close>

definition JEDEC_RDID :: u8 where "JEDEC_RDID = 0x9f"
definition JEDEC_REMS :: u8 where "JEDEC_REMS = 0x90"
definition JEDEC_RES :: u8 where "JEDEC_RES = 0xab"
definition JEDEC_SFDP :: u8 where "JEDEC_SFDP = 0x5a"
definition AT25F_RDID :: u8 where "AT25F_RDID = 0x15"
definition JEDEC_WREN :: u8 where "JEDEC_WREN = 0x06"
definition JEDEC_WRDI :: u8 where "JEDEC_WRDI = 0x04"
definition JEDEC_EWSR :: u8 where "JEDEC_EWSR = 0x50"
definition JEDEC_RDSR :: u8 where "JEDEC_RDSR = 0x05"
definition JEDEC_RDSR2 :: u8 where "JEDEC_RDSR2 = 0x35"
definition JEDEC_RDSR3 :: u8 where "JEDEC_RDSR3 = 0x15"
definition JEDEC_RDSCUR :: u8 where "JEDEC_RDSCUR = 0x2b"
definition JEDEC_RDCR :: u8 where "JEDEC_RDCR = 0x15"
definition JEDEC_WRSR :: u8 where "JEDEC_WRSR = 0x01"
definition JEDEC_WRSR2 :: u8 where "JEDEC_WRSR2 = 0x31"
definition JEDEC_WRSR3 :: u8 where "JEDEC_WRSR3 = 0x11"
definition JEDEC_READ :: u8 where "JEDEC_READ = 0x03"
definition JEDEC_READ_4BA :: u8 where "JEDEC_READ_4BA = 0x13"
definition JEDEC_BYTE_PROGRAM :: u8 where "JEDEC_BYTE_PROGRAM = 0x02"
definition JEDEC_BYTE_PROGRAM_4BA :: u8 where "JEDEC_BYTE_PROGRAM_4BA = 0x12"
definition JEDEC_AAI_WORD_PROGRAM :: u8 where "JEDEC_AAI_WORD_PROGRAM = 0xad"
definition JEDEC_SE :: u8 where "JEDEC_SE = 0x20"
definition JEDEC_BE_50 :: u8 where "JEDEC_BE_50 = 0x50"
definition JEDEC_BE_52 :: u8 where "JEDEC_BE_52 = 0x52"
definition JEDEC_BE_81 :: u8 where "JEDEC_BE_81 = 0x81"
definition JEDEC_BE_C4 :: u8 where "JEDEC_BE_C4 = 0xc4"
definition JEDEC_BE_D7 :: u8 where "JEDEC_BE_D7 = 0xd7"
definition JEDEC_BE_D8 :: u8 where "JEDEC_BE_D8 = 0xd8"
definition JEDEC_CE_60 :: u8 where "JEDEC_CE_60 = 0x60"
definition JEDEC_CE_62 :: u8 where "JEDEC_CE_62 = 0x62"
definition JEDEC_CE_C7 :: u8 where "JEDEC_CE_C7 = 0xc7"
definition JEDEC_ENTER_4_BYTE_ADDR_MODE :: u8 where "JEDEC_ENTER_4_BYTE_ADDR_MODE = 0xb7"
definition JEDEC_EXIT_4_BYTE_ADDR_MODE :: u8 where "JEDEC_EXIT_4_BYTE_ADDR_MODE = 0xe9"
definition JEDEC_WRITE_EXT_ADDR_REG :: u8 where "JEDEC_WRITE_EXT_ADDR_REG = 0xc5"
definition ALT_WRITE_EXT_ADDR_REG_17 :: u8 where "ALT_WRITE_EXT_ADDR_REG_17 = 0x17"

lemmas opcode_defs = JEDEC_RDID_def JEDEC_REMS_def JEDEC_RES_def JEDEC_SFDP_def JEDEC_WREN_def JEDEC_WRDI_def
  JEDEC_EWSR_def JEDEC_RDSR_def JEDEC_RDSR2_def JEDEC_RDSR3_def JEDEC_WRSR_def JEDEC_WRSR2_def JEDEC_WRSR3_def
  JEDEC_READ_def JEDEC_READ_4BA_def JEDEC_BYTE_PROGRAM_def JEDEC_BYTE_PROGRAM_4BA_def
  JEDEC_AAI_WORD_PROGRAM_def JEDEC_SE_def JEDEC_BE_52_def JEDEC_BE_D8_def JEDEC_CE_60_def JEDEC_CE_C7_def

definition SPI_SR_WIP :: u8 where "SPI_SR_WIP = 0x01"
definition SPI_SR_WEL :: u8 where "SPI_SR_WEL = 0x02"
definition SPI_SR_AAI :: u8 where "SPI_SR_AAI = 0x40"

definition FEATURE_WRSR_EWSR :: "32 word" where "FEATURE_WRSR_EWSR = 0x40"
definition FEATURE_WRSR_WREN :: "32 word" where "FEATURE_WRSR_WREN = 0x80"
definition FEATURE_OTP :: "32 word" where "FEATURE_OTP = 0x100"
definition FEATURE_4BA_EAR_C5C8 :: "32 word" where "FEATURE_4BA_EAR_C5C8 = 0x2000"
definition FEATURE_4BA_EAR_1716 :: "32 word" where "FEATURE_4BA_EAR_1716 = 0x4000"
definition FEATURE_WRSR_EXT2 :: "32 word" where "FEATURE_WRSR_EXT2 = 0x100000"
definition FEATURE_WRSR2 :: "32 word" where "FEATURE_WRSR2 = 0x200000"
definition FEATURE_WRSR_EXT3 :: "32 word" where "FEATURE_WRSR_EXT3 = 0x400000 OR FEATURE_WRSR_EXT2"
definition FEATURE_WRSR3 :: "32 word" where "FEATURE_WRSR3 = 0x800000"
definition FEATURE_SCUR :: "32 word" where "FEATURE_SCUR = 0x1000000"
definition FEATURE_CFGR :: "32 word" where "FEATURE_CFGR = 0x2000000"

definition has_feature :: "flashchip \<Rightarrow> 32 word \<Rightarrow> bool" where
  "has_feature chip f \<longleftrightarrow> ch_feature_bits chip AND f \<noteq> 0"

definition SPI_GENERIC_ERROR :: int where "SPI_GENERIC_ERROR = -1"
definition TIMEOUT_ERROR :: int where "TIMEOUT_ERROR = -101"
definition MAX_DATA_UNSPECIFIED :: nat where "MAX_DATA_UNSPECIFIED = 0"

section \<open>Masters and state\<close>

record 'd spi_master =
  sm_features :: "32 word"
  sm_max_data_read :: nat
  sm_max_data_write :: nat
  sm_command :: "(bytes \<Rightarrow> nat \<Rightarrow> 'd \<Rightarrow> (int \<times> bytes \<times> 'd) option) option"
  sm_multicommand :: "((bytes \<times> nat) list \<Rightarrow> 'd \<Rightarrow> (int \<times> bytes list \<times> 'd) option) option"
  sm_probe_opcode :: "(u8 \<Rightarrow> 'd \<Rightarrow> bool) option"

record 'd spi_state =
  sp_dev :: 'd
  sp_address_high_byte :: int
  sp_in_4ba_mode :: bool

text \<open>A command of the master on the state of the layer.\<close>

definition lift_dev :: "'d spi_state \<Rightarrow> (int \<times> 'r \<times> 'd) option \<Rightarrow> (int \<times> 'r \<times> 'd spi_state) option" where
  "lift_dev s r = map_option (\<lambda>(ret, v, d). (ret, v, s\<lparr>sp_dev := d\<rparr>)) r"

section \<open>Sending commands\<close>

text \<open>The two default functions call each other's dispatcher: a master with neither callback would never
  return (\<^verbatim>\<open>register_spi_master\<close> refuses it).\<close>

definition spi_send_command :: "'d spi_master \<Rightarrow> bytes \<Rightarrow> nat \<Rightarrow> 'd spi_state \<Rightarrow> (int \<times> bytes \<times> 'd spi_state) option" where
  "spi_send_command m writearr readcnt s =
     lift_dev s
       (case sm_command m of
          Some f \<Rightarrow> f writearr readcnt (sp_dev s)
        | None \<Rightarrow>
            (case sm_multicommand m of
               Some g \<Rightarrow> map_option (\<lambda>(ret, rs, d). (ret, case rs of r # _ \<Rightarrow> r | [] \<Rightarrow> [], d)) (g [(writearr, readcnt)] (sp_dev s))
             | None \<Rightarrow> None))"

text \<open>The list of commands ends with an empty one.\<close>

fun default_spi_send_multicommand ::
    "'d spi_master \<Rightarrow> (bytes \<times> nat) list \<Rightarrow> int \<Rightarrow> 'd spi_state \<Rightarrow> (int \<times> bytes list \<times> 'd spi_state) option" where
  "default_spi_send_multicommand m [] result s = Some (result, [], s)"
| "default_spi_send_multicommand m ((writearr, readcnt) # cmds) result s =
     (if (writearr \<noteq> [] \<or> readcnt \<noteq> 0) \<and> result = 0
      then Option.bind (spi_send_command m writearr readcnt s) (\<lambda>(ret, r, s1).
             map_option (\<lambda>(ret', rs, s2). (ret', r # rs, s2)) (default_spi_send_multicommand m cmds ret s1))
      else Some (result, [], s))"

definition spi_send_multicommand ::
    "'d spi_master \<Rightarrow> (bytes \<times> nat) list \<Rightarrow> 'd spi_state \<Rightarrow> (int \<times> bytes list \<times> 'd spi_state) option" where
  "spi_send_multicommand m cmds s =
     (case sm_multicommand m of
        Some g \<Rightarrow> lift_dev s (g cmds (sp_dev s))
      | None \<Rightarrow> default_spi_send_multicommand m cmds 0 s)"

definition spi_opcode_supported :: "'d spi_master \<Rightarrow> u8 \<Rightarrow> 'd spi_state \<Rightarrow> bool" where
  "spi_opcode_supported m opc s = (case sm_probe_opcode m of None \<Rightarrow> True | Some f \<Rightarrow> f opc (sp_dev s))"

definition spi_write_enable :: "'d spi_master \<Rightarrow> 'd spi_state \<Rightarrow> (int \<times> 'd spi_state) option" where
  "spi_write_enable m s = map_option (\<lambda>(ret, r, s'). (ret, s')) (spi_send_command m [JEDEC_WREN] 0 s)"

definition spi_write_disable :: "'d spi_master \<Rightarrow> 'd spi_state \<Rightarrow> (int \<times> 'd spi_state) option" where
  "spi_write_disable m s = map_option (\<lambda>(ret, r, s'). (ret, s')) (spi_send_command m [JEDEC_WRDI] 0 s)"

section \<open>Status registers\<close>

text \<open>The opcode that reads a register, if the chip has it.\<close>

definition register_read_cmd :: "flashchip \<Rightarrow> flash_reg \<Rightarrow> u8 option" where
  "register_read_cmd chip reg =
     (case reg of
        STATUS1 \<Rightarrow> Some JEDEC_RDSR
      | STATUS2 \<Rightarrow> if has_feature chip (FEATURE_WRSR_EXT2 OR FEATURE_WRSR2) then Some JEDEC_RDSR2 else None
      | STATUS3 \<Rightarrow>
          if ch_feature_bits chip AND FEATURE_WRSR_EXT3 = FEATURE_WRSR_EXT3 \<or> has_feature chip FEATURE_WRSR3
          then Some JEDEC_RDSR3 else None
      | SECURITY \<Rightarrow> if has_feature chip FEATURE_SCUR then Some JEDEC_RDSCUR else None
      | CONFIG \<Rightarrow> if has_feature chip FEATURE_CFGR then Some JEDEC_RDCR else None
      | INVALID_REG \<Rightarrow> None)"

text \<open>On failure the output variable is not written; the value is then 0 here, and no caller uses it.\<close>

definition spi_read_register ::
    "flashchip \<Rightarrow> 'd spi_master \<Rightarrow> flash_reg \<Rightarrow> 'd spi_state \<Rightarrow> (int \<times> u8 \<times> 'd spi_state) option" where
  "spi_read_register chip m reg s =
     (case register_read_cmd chip reg of
        None \<Rightarrow> Some (1, 0, s)
      | Some read_cmd \<Rightarrow>
          if \<not> spi_opcode_supported m read_cmd s then Some (SPI_INVALID_OPCODE, 0, s)
          else Option.bind (spi_send_command m [read_cmd] 2 s) (\<lambda>(ret, readarr, s').
                 if ret \<noteq> 0 then Some (ret, 0, s')
                 else if readarr = [] then None
                 else Some (0, readarr ! 0, s')))"

text \<open>The registers below \<open>reg\<close>, read for writing them back.\<close>

fun wrsr_ext_loop ::
    "flashchip \<Rightarrow> 'd spi_master \<Rightarrow> flash_reg list \<Rightarrow> 'd spi_state \<Rightarrow> (bytes option \<times> 'd spi_state) option" where
  "wrsr_ext_loop chip m [] s = Some (Some [], s)"
| "wrsr_ext_loop chip m (r # rs) s =
     Option.bind (spi_read_register chip m r s) (\<lambda>(ret, sr, s1).
       if ret \<noteq> 0 then Some (None, s1)
       else map_option (\<lambda>(bs, s2). (map_option (\<lambda>xs. sr # xs) bs, s2)) (wrsr_ext_loop chip m rs s1))"

definition spi_prepare_wrsr_ext ::
    "flashchip \<Rightarrow> 'd spi_master \<Rightarrow> flash_reg \<Rightarrow> u8 \<Rightarrow> 'd spi_state \<Rightarrow> (bytes option \<times> 'd spi_state) option" where
  "spi_prepare_wrsr_ext chip m reg v s =
     map_option (\<lambda>(bs, s'). (map_option (\<lambda>xs. JEDEC_WRSR # xs @ [v]) bs, s'))
       (wrsr_ext_loop chip m (case reg of STATUS2 \<Rightarrow> [STATUS1] | STATUS3 \<Rightarrow> [STATUS1, STATUS2] | _ \<Rightarrow> []) s)"

text \<open>The first part of \<^verbatim>\<open>spi_write_register\<close>: the command sequence, or \<open>None\<close> for the result code 1.\<close>

definition register_write_cmd ::
    "flashchip \<Rightarrow> 'd spi_master \<Rightarrow> flash_reg \<Rightarrow> u8 \<Rightarrow> 'd spi_state \<Rightarrow> (bytes option \<times> 'd spi_state) option" where
  "register_write_cmd chip m reg v s =
     (case reg of
        STATUS1 \<Rightarrow> Some (Some [JEDEC_WRSR, v], s)
      | STATUS2 \<Rightarrow>
          if has_feature chip FEATURE_WRSR2 then Some (Some [JEDEC_WRSR2, v], s)
          else if has_feature chip FEATURE_WRSR_EXT2 then spi_prepare_wrsr_ext chip m reg v s
          else Some (None, s)
      | STATUS3 \<Rightarrow>
          if has_feature chip FEATURE_WRSR3 then Some (Some [JEDEC_WRSR3, v], s)
          else if ch_feature_bits chip AND FEATURE_WRSR_EXT3 = FEATURE_WRSR_EXT3 then spi_prepare_wrsr_ext chip m reg v s
          else Some (None, s)
      | CONFIG \<Rightarrow>
          if has_feature chip FEATURE_CFGR
          then Option.bind (spi_read_register chip m STATUS1 s) (\<lambda>(ret, sr, s').
                 if ret \<noteq> 0 then Some (None, s') else Some (Some [JEDEC_WRSR, sr, v], s'))
          else Some (None, s)
      | SECURITY \<Rightarrow> Some (None, s)
      | INVALID_REG \<Rightarrow> Some (None, s))"

text \<open>The waiting loop of \<^verbatim>\<open>spi_write_register\<close>, for the number of 10 ms steps left.\<close>

primrec wrsr_wait :: "flashchip \<Rightarrow> 'd spi_master \<Rightarrow> nat \<Rightarrow> 'd spi_state \<Rightarrow> (int \<times> 'd spi_state) option" where
  "wrsr_wait chip m 0 s = Some (TIMEOUT_ERROR, s)"
| "wrsr_wait chip m (Suc k) s =
     Option.bind (spi_read_register chip m STATUS1 s) (\<lambda>(ret, status, s').
       if ret \<noteq> 0 then Some (ret, s')
       else if status AND SPI_SR_WIP = 0 then Some (0, s')
       else wrsr_wait chip m k s')"

definition spi_write_register ::
    "flashchip \<Rightarrow> 'd spi_master \<Rightarrow> flash_reg \<Rightarrow> u8 \<Rightarrow> 'd spi_state \<Rightarrow> (int \<times> 'd spi_state) option" where
  "spi_write_register chip m reg v s =
     Option.bind (register_write_cmd chip m reg v s) (\<lambda>(cmd, s1).
       case cmd of
         None \<Rightarrow> Some (1, s1)
       | Some write_cmd \<Rightarrow>
           if \<not> spi_opcode_supported m (write_cmd ! 0) s1 then Some (SPI_INVALID_OPCODE, s1)
           else
             let enable_cmd = (if has_feature chip FEATURE_WRSR_WREN then JEDEC_WREN else JEDEC_EWSR)
             in Option.bind (spi_send_multicommand m [([enable_cmd], 0), (write_cmd, 0)] s1) (\<lambda>(result, rs, s2).
                  if result \<noteq> 0 then Some (result, s2)
                  else wrsr_wait chip m (if reg = STATUS1 then 490 else 500) s2))"

text \<open>\<^verbatim>\<open>spi_disable_blockprotect_generic\<close> registers a function that restores the status register. \<open>alloc\<close> says
  whether the memory for the saved value is available.\<close>

definition spi_restore_status :: "flashchip \<Rightarrow> 'd spi_master \<Rightarrow> u8 \<Rightarrow> 'd spi_state \<Rightarrow> (int \<times> 'd spi_state) option" where
  "spi_restore_status chip m status s = spi_write_register chip m STATUS1 status s"

definition clear_lock_bits ::
    "flashchip \<Rightarrow> 'd spi_master \<Rightarrow> u8 \<Rightarrow> u8 \<Rightarrow> u8 \<Rightarrow> 'd spi_state \<Rightarrow> (int \<times> u8 \<times> 'd spi_state) option" where
  "clear_lock_bits chip m lock_mask wp_mask status s =
     (if status AND lock_mask = 0 then Some (0, status, s)
      else if wp_mask \<noteq> 0 \<and> status AND wp_mask = 0 then Some (1, status, s)
      else Option.bind (spi_write_register chip m STATUS1 (status AND NOT lock_mask) s) (\<lambda>(result, s1).
        if result \<noteq> 0 then Some (result, status, s1)
        else Option.bind (spi_read_register chip m STATUS1 s1) (\<lambda>(ret, status', s2).
          if ret \<noteq> 0 then Some (ret, status, s2)
          else if status' AND lock_mask \<noteq> 0 then Some (1, status', s2)
          else Some (0, status', s2))))"

definition spi_disable_blockprotect_generic ::
    "flashchip \<Rightarrow> 'd spi_master \<Rightarrow> bool \<Rightarrow> u8 \<Rightarrow> u8 \<Rightarrow> u8 \<Rightarrow> u8 \<Rightarrow> 'd spi_state restore_fns \<Rightarrow> 'd spi_state \<Rightarrow>
     (int \<times> 'd spi_state restore_fns \<times> 'd spi_state) option" where
  "spi_disable_blockprotect_generic chip m alloc bp_mask lock_mask wp_mask unprotect_mask fns s =
     Option.bind (spi_read_register chip m STATUS1 s) (\<lambda>(ret, status, s1).
       if ret \<noteq> 0 then Some (ret, fns, s1)
       else if status AND bp_mask = 0 then Some (0, fns, s1)
       else if \<not> alloc then Some (1, fns, s1)
       else
         let fns' = snd (register_chip_restore (spi_restore_status chip m status) fns)
         in Option.bind (clear_lock_bits chip m lock_mask wp_mask status s1) (\<lambda>(r, status1, s2).
              if r \<noteq> 0 then Some (r, fns', s2)
              else Option.bind
                (spi_write_register chip m STATUS1 (status1 AND NOT (bp_mask OR lock_mask) AND unprotect_mask) s2)
                (\<lambda>(result, s3).
                  if result \<noteq> 0 then Some (result, fns', s3)
                  else map_option
                    (\<lambda>(ret, status2, s4).
                       (if ret \<noteq> 0 then ret else if status2 AND bp_mask \<noteq> 0 then 1 else 0, fns', s4))
                    (spi_read_register chip m STATUS1 s3))))"

definition spi_disable_blockprotect ::
    "flashchip \<Rightarrow> 'd spi_master \<Rightarrow> bool \<Rightarrow> 'd spi_state restore_fns \<Rightarrow> 'd spi_state \<Rightarrow>
     (int \<times> 'd spi_state restore_fns \<times> 'd spi_state) option" where
  "spi_disable_blockprotect chip m alloc = spi_disable_blockprotect_generic chip m alloc 0x3C 0 0 0xFF"

section \<open>Writing commands\<close>

partial_function (option) spi_poll_wip ::
    "flashchip \<Rightarrow> 'd spi_master \<Rightarrow> 'd spi_state \<Rightarrow> (int \<times> 'd spi_state) option" where
  "spi_poll_wip chip m s =
     Option.bind (spi_read_register chip m STATUS1 s) (\<lambda>(ret, status, s').
       if ret \<noteq> 0 then Some (ret, s')
       else if status AND SPI_SR_WIP = 0 then Some (0, s')
       else spi_poll_wip chip m s')"

text \<open>\<open>poll\<close> says that the polling delay is not zero.\<close>

definition spi_simple_write_cmd ::
    "flashchip \<Rightarrow> 'd spi_master \<Rightarrow> u8 \<Rightarrow> bool \<Rightarrow> 'd spi_state \<Rightarrow> (int \<times> 'd spi_state) option" where
  "spi_simple_write_cmd chip m op poll s =
     Option.bind (spi_send_multicommand m [([JEDEC_WREN], 0), ([op], 0)] s) (\<lambda>(result, rs, s1).
     Option.bind (if poll then spi_poll_wip chip m s1 else Some (0, s1)) (\<lambda>(status, s2).
       Some (if result \<noteq> 0 then result else status, s2)))"

definition spi_write_extended_address_register ::
    "flashchip \<Rightarrow> 'd spi_master \<Rightarrow> u8 \<Rightarrow> 'd spi_state \<Rightarrow> (int \<times> 'd spi_state) option" where
  "spi_write_extended_address_register chip m regdata s =
     (if has_feature chip FEATURE_4BA_EAR_C5C8
      then map_option (\<lambda>(r, rs, s'). (r, s'))
             (spi_send_multicommand m [([JEDEC_WREN], 0), ([JEDEC_WRITE_EXT_ADDR_REG, regdata], 0)] s)
      else if has_feature chip FEATURE_4BA_EAR_1716
      then map_option (\<lambda>(r, rs, s'). (r, s'))
             (spi_send_multicommand m [([JEDEC_WREN], 0), ([ALT_WRITE_EXT_ADDR_REG_17, regdata], 0)] s)
      else Some (-1, s))"

definition spi_set_extended_address ::
    "flashchip \<Rightarrow> 'd spi_master \<Rightarrow> u8 \<Rightarrow> 'd spi_state \<Rightarrow> (int \<times> 'd spi_state) option" where
  "spi_set_extended_address chip m addr_high s =
     Option.bind
       (if sp_address_high_byte s \<noteq> int (unat addr_high) then spi_write_extended_address_register chip m addr_high s
        else Some (0, s))
       (\<lambda>(r, s'). if r \<noteq> 0 then Some (-1, s') else Some (0, s'\<lparr>sp_address_high_byte := int (unat addr_high)\<rparr>))"

definition addr_byte :: "nat \<Rightarrow> nat \<Rightarrow> u8" where
  "addr_byte k addr = of_nat (addr div 256 ^ k mod 256)"

text \<open>The address bytes of a command, or \<open>None\<close> for the result code -1.\<close>

definition spi_prepare_address ::
    "flashchip \<Rightarrow> 'd spi_master \<Rightarrow> bool \<Rightarrow> nat \<Rightarrow> 'd spi_state \<Rightarrow> (bytes option \<times> 'd spi_state) option" where
  "spi_prepare_address chip m native_4ba addr s =
     (if native_4ba \<or> sp_in_4ba_mode s
      then (if sm_features m AND SPI_MASTER_4BA = 0 then Some (None, s)
            else Some (Some [addr_byte 3 addr, addr_byte 2 addr, addr_byte 1 addr, addr_byte 0 addr], s))
      else
        let low = Some [addr_byte 2 addr, addr_byte 1 addr, addr_byte 0 addr]
        in if has_feature chip (FEATURE_4BA_EAR_C5C8 OR FEATURE_4BA_EAR_1716)
           then map_option (\<lambda>(r, s'). (if r \<noteq> 0 then None else low, s'))
                  (spi_set_extended_address chip m (addr_byte 3 addr) s)
           else Some (if addr div 2 ^ 24 \<noteq> 0 then None else low, s))"

text \<open>The command buffer has room for the opcode, four address bytes and 256 data bytes. The data is given
  as a list, so that its length is \<^verbatim>\<open>out_len\<close>.\<close>

definition spi_write_cmd ::
    "flashchip \<Rightarrow> 'd spi_master \<Rightarrow> u8 \<Rightarrow> bool \<Rightarrow> nat \<Rightarrow> bytes \<Rightarrow> 'd spi_state \<Rightarrow> (int \<times> 'd spi_state) option" where
  "spi_write_cmd chip m op native_4ba addr out_bytes s =
     Option.bind (spi_prepare_address chip m native_4ba addr s) (\<lambda>(abytes, s1).
       case abytes of
         None \<Rightarrow> Some (1, s1)
       | Some ab \<Rightarrow>
           if 1 + length ab + length out_bytes > 1 + 4 + 256 then Some (1, s1)
           else Option.bind (spi_send_multicommand m [([JEDEC_WREN], 0), (op # ab @ out_bytes, 0)] s1) (\<lambda>(result, rs, s2).
                Option.bind (spi_poll_wip chip m s2) (\<lambda>(status, s3).
                  Some (if result \<noteq> 0 then result else status, s3))))"

section \<open>Erasing\<close>

text \<open>The chip erase functions check that the block is the whole chip.\<close>

definition spi_chip_erase ::
    "flashchip \<Rightarrow> 'd spi_master \<Rightarrow> u8 \<Rightarrow> nat \<Rightarrow> nat \<Rightarrow> 'd spi_state \<Rightarrow> (int \<times> 'd spi_state) option" where
  "spi_chip_erase chip m op addr blocklen s =
     (if addr \<noteq> 0 \<or> blocklen \<noteq> mul32 (ch_total_size chip) 1024 then Some (-1, s)
      else spi_simple_write_cmd chip m op True s)"

text \<open>The erase functions of \<^verbatim>\<open>spi25.c\<close> by the value that names them; \<open>None\<close> for functions of other files.\<close>

definition spi_block_erase ::
    "flashchip \<Rightarrow> 'd spi_master \<Rightarrow> block_erase_func \<Rightarrow> (nat \<Rightarrow> nat \<Rightarrow> 'd spi_state \<Rightarrow> (int \<times> 'd spi_state) option) option" where
  "spi_block_erase chip m f =
     (let three = (\<lambda>op. Some (\<lambda>addr blocklen. spi_write_cmd chip m op False addr []));
          four = (\<lambda>op. Some (\<lambda>addr blocklen. spi_write_cmd chip m op True addr []))
      in case f of
           SPI_BLOCK_ERASE_52 \<Rightarrow> three JEDEC_BE_52
         | SPI_BLOCK_ERASE_C4 \<Rightarrow> three JEDEC_BE_C4
         | SPI_BLOCK_ERASE_D8 \<Rightarrow> three JEDEC_BE_D8
         | SPI_BLOCK_ERASE_D7 \<Rightarrow> three JEDEC_BE_D7
         | SPI_BLOCK_ERASE_DB \<Rightarrow> three 0xdb
         | SPI_BLOCK_ERASE_20 \<Rightarrow> three JEDEC_SE
         | SPI_BLOCK_ERASE_50 \<Rightarrow> three JEDEC_BE_50
         | SPI_BLOCK_ERASE_81 \<Rightarrow> three JEDEC_BE_81
         | SPI_BLOCK_ERASE_60 \<Rightarrow> Some (spi_chip_erase chip m JEDEC_CE_60)
         | SPI_BLOCK_ERASE_62 \<Rightarrow> Some (spi_chip_erase chip m JEDEC_CE_62)
         | SPI_BLOCK_ERASE_C7 \<Rightarrow> Some (spi_chip_erase chip m JEDEC_CE_C7)
         | SPI_BLOCK_ERASE_21 \<Rightarrow> four 0x21
         | SPI_BLOCK_ERASE_53 \<Rightarrow> four 0x53
         | SPI_BLOCK_ERASE_5C \<Rightarrow> four 0x5c
         | SPI_BLOCK_ERASE_DC \<Rightarrow> four 0xdc
         | _ \<Rightarrow> None)"

definition spi25_function_opcode_list :: "(block_erase_func \<times> u8) list" where
  "spi25_function_opcode_list =
     [(SPI_BLOCK_ERASE_20, 0x20), (SPI_BLOCK_ERASE_21, 0x21), (SPI_BLOCK_ERASE_50, 0x50), (SPI_BLOCK_ERASE_52, 0x52),
      (SPI_BLOCK_ERASE_53, 0x53), (SPI_BLOCK_ERASE_5C, 0x5c), (SPI_BLOCK_ERASE_60, 0x60), (SPI_BLOCK_ERASE_62, 0x62),
      (SPI_BLOCK_ERASE_81, 0x81), (SPI_BLOCK_ERASE_C4, 0xc4), (SPI_BLOCK_ERASE_C7, 0xc7), (SPI_BLOCK_ERASE_D7, 0xd7),
      (SPI_BLOCK_ERASE_D8, 0xd8), (SPI_BLOCK_ERASE_DB, 0xdb), (SPI_BLOCK_ERASE_DC, 0xdc)]"

definition spi25_get_erasefn_from_opcode :: "u8 \<Rightarrow> block_erase_func" where
  "spi25_get_erasefn_from_opcode opc =
     (case find (\<lambda>p. snd p = opc) spi25_function_opcode_list of Some p \<Rightarrow> fst p | None \<Rightarrow> NO_BLOCK_ERASE_FUNC)"

section \<open>Programming and reading\<close>

definition spi_nbyte_program ::
    "flashchip \<Rightarrow> 'd spi_master \<Rightarrow> nat \<Rightarrow> bytes \<Rightarrow> 'd spi_state \<Rightarrow> (int \<times> 'd spi_state) option" where
  "spi_nbyte_program chip m addr bs s =
     (let native_4ba = has_feature chip FEATURE_4BA_WRITE \<and> sm_features m AND SPI_MASTER_4BA \<noteq> 0
      in spi_write_cmd chip m (if native_4ba then JEDEC_BYTE_PROGRAM_4BA else JEDEC_BYTE_PROGRAM) native_4ba addr bs s)"

definition spi_nbyte_read ::
    "flashchip \<Rightarrow> 'd spi_master \<Rightarrow> nat \<Rightarrow> nat \<Rightarrow> 'd spi_state \<Rightarrow> (int \<times> bytes \<times> 'd spi_state) option" where
  "spi_nbyte_read chip m address len s =
     (let native_4ba = has_feature chip FEATURE_4BA_READ \<and> sm_features m AND SPI_MASTER_4BA \<noteq> 0
      in Option.bind (spi_prepare_address chip m native_4ba address s) (\<lambda>(abytes, s1).
           case abytes of
             None \<Rightarrow> Some (1, [], s1)
           | Some ab \<Rightarrow> spi_send_command m ((if native_4ba then JEDEC_READ_4BA else JEDEC_READ) # ab) len s1))"

text \<open>\<open>acc\<close> is what was read so far.\<close>

partial_function (option) read_chunked_loop ::
    "flashchip \<Rightarrow> 'd spi_master \<Rightarrow> nat \<Rightarrow> nat \<Rightarrow> nat \<Rightarrow> bytes \<Rightarrow> 'd spi_state \<Rightarrow> (int \<times> bytes \<times> 'd spi_state) option" where
  "read_chunked_loop chip m chunksize start len acc s =
     (if len = 0 then Some (0, acc, s)
      else
        let to_read = min chunksize len
        in Option.bind (spi_nbyte_read chip m start to_read s) (\<lambda>(ret, bs, s').
             if ret \<noteq> 0 then Some (ret, acc @ bs, s')
             else read_chunked_loop chip m chunksize (add32 start to_read) (len - to_read) (acc @ bs) s'))"

definition spi_read_chunked ::
    "flashchip \<Rightarrow> 'd spi_master \<Rightarrow> nat \<Rightarrow> nat \<Rightarrow> nat \<Rightarrow> 'd spi_state \<Rightarrow> (int \<times> bytes \<times> 'd spi_state) option" where
  "spi_read_chunked chip m start len chunksize s = read_chunked_loop chip m chunksize start len [] s"

definition default_spi_read ::
    "flashchip \<Rightarrow> 'd spi_master \<Rightarrow> nat \<Rightarrow> nat \<Rightarrow> 'd spi_state \<Rightarrow> (int \<times> bytes \<times> 'd spi_state) option" where
  "default_spi_read chip m start len s =
     (if sm_max_data_read m = MAX_DATA_UNSPECIFIED then Some (1, [], s)
      else spi_read_chunked chip m start len (sm_max_data_read m) s)"

text \<open>\<^verbatim>\<open>ALIGN_DOWN(start + 16*MiB, 16*MiB) - start\<close>, with a 32-bit sum and a 64-bit difference.\<close>

definition to_boundary :: "nat \<Rightarrow> nat" where
  "to_boundary start = sub64 (add32 start 16777216 div 16777216 * 16777216) start"

partial_function (option) chip_read_loop ::
    "(nat \<Rightarrow> nat \<Rightarrow> 'd spi_state \<Rightarrow> (int \<times> bytes \<times> 'd spi_state) option) \<Rightarrow> nat \<Rightarrow> nat \<Rightarrow> bytes \<Rightarrow> 'd spi_state \<Rightarrow>
     (int \<times> bytes \<times> 'd spi_state) option" where
  "chip_read_loop rd start len acc s =
     (if len = 0 then Some (0, acc, s)
      else
        let to_read = min (to_boundary start) len
        in Option.bind (rd start to_read s) (\<lambda>(ret, bs, s').
             if ret \<noteq> 0 then Some (ret, acc @ bs, s')
             else chip_read_loop rd (add32 start to_read) (len - to_read) (acc @ bs) s'))"

text \<open>\<open>rd\<close> is the callback \<^verbatim>\<open>read\<close> of the master.\<close>

definition spi_chip_read ::
    "(nat \<Rightarrow> nat \<Rightarrow> 'd spi_state \<Rightarrow> (int \<times> bytes \<times> 'd spi_state) option) \<Rightarrow> nat \<Rightarrow> nat \<Rightarrow> 'd spi_state \<Rightarrow>
     (int \<times> bytes \<times> 'd spi_state) option" where
  "spi_chip_read rd start len s = chip_read_loop rd start len [] s"

text \<open>The inner loop of \<^verbatim>\<open>spi_write_chunked\<close>: the bytes of one page, from \<open>j\<close> on.\<close>

partial_function (option) write_page_loop ::
    "flashchip \<Rightarrow> 'd spi_master \<Rightarrow> bytes \<Rightarrow> nat \<Rightarrow> nat \<Rightarrow> nat \<Rightarrow> nat \<Rightarrow> nat \<Rightarrow> 'd spi_state \<Rightarrow> (int \<times> 'd spi_state) option" where
  "write_page_loop chip m buf start chunksize starthere lenhere j s =
     (if j < lenhere
      then
        let towrite = min chunksize (sub32 lenhere j); off = starthere - start + j
        in if length buf < off + towrite then None
           else Option.bind (spi_nbyte_program chip m (add32 starthere j) (bslice off towrite buf) s) (\<lambda>(rc, s').
                  if rc \<noteq> 0 then Some (rc, s')
                  else write_page_loop chip m buf start chunksize starthere lenhere (add32 j chunksize) s')
      else Some (0, s))"

partial_function (option) write_pages_loop ::
    "flashchip \<Rightarrow> 'd spi_master \<Rightarrow> bytes \<Rightarrow> nat \<Rightarrow> nat \<Rightarrow> nat \<Rightarrow> nat \<Rightarrow> 'd spi_state \<Rightarrow> (int \<times> 'd spi_state) option" where
  "write_pages_loop chip m buf start len chunksize i s =
     (let page_size = ch_page_size chip
      in if i \<le> sub32 (add32 start len) 1 div page_size
         then
           let starthere = max start (mul32 i page_size);
               lenhere = sub32 (min (add32 start len) (mul32 (add32 i 1) page_size)) starthere
           in Option.bind (write_page_loop chip m buf start chunksize starthere lenhere 0 s) (\<lambda>(rc, s').
                if rc \<noteq> 0 then Some (rc, s')
                else write_pages_loop chip m buf start len chunksize (add32 i 1) s')
         else Some (0, s))"

definition spi_write_chunked ::
    "flashchip \<Rightarrow> 'd spi_master \<Rightarrow> bytes \<Rightarrow> nat \<Rightarrow> nat \<Rightarrow> nat \<Rightarrow> 'd spi_state \<Rightarrow> (int \<times> 'd spi_state) option" where
  "spi_write_chunked chip m buf start len chunksize s =
     (if ch_page_size chip = 0 then None
      else write_pages_loop chip m buf start len chunksize (start div ch_page_size chip) s)"

definition default_spi_write_256 ::
    "flashchip \<Rightarrow> 'd spi_master \<Rightarrow> bytes \<Rightarrow> nat \<Rightarrow> nat \<Rightarrow> 'd spi_state \<Rightarrow> (int \<times> 'd spi_state) option" where
  "default_spi_write_256 chip m buf start len s =
     (if sm_max_data_write m = MAX_DATA_UNSPECIFIED then Some (1, s)
      else spi_write_chunked chip m buf start len (sm_max_data_write m) s)"

partial_function (option) write_1_loop ::
    "flashchip \<Rightarrow> 'd spi_master \<Rightarrow> bytes \<Rightarrow> nat \<Rightarrow> nat \<Rightarrow> nat \<Rightarrow> 'd spi_state \<Rightarrow> (int \<times> 'd spi_state) option" where
  "write_1_loop chip m buf start len i s =
     (if i < add32 start len
      then if length buf \<le> i - start then None
           else Option.bind (spi_nbyte_program chip m i [buf ! (i - start)] s) (\<lambda>(r, s').
                  if r \<noteq> 0 then Some (1, s') else write_1_loop chip m buf start len (add32 i 1) s')
      else Some (0, s))"

definition spi_chip_write_1 ::
    "flashchip \<Rightarrow> 'd spi_master \<Rightarrow> bytes \<Rightarrow> nat \<Rightarrow> nat \<Rightarrow> 'd spi_state \<Rightarrow> (int \<times> 'd spi_state) option" where
  "spi_chip_write_1 chip m buf start len s = write_1_loop chip m buf start len start s"

section \<open>Auto address increment\<close>

text \<open>The loop over pairs of bytes; the first component of the result says whether it ran to its end.\<close>

partial_function (option) aai_loop ::
    "flashchip \<Rightarrow> 'd spi_master \<Rightarrow> bytes \<Rightarrow> nat \<Rightarrow> nat \<Rightarrow> nat \<Rightarrow> 'd spi_state \<Rightarrow> (bool \<times> nat \<times> 'd spi_state) option" where
  "aai_loop chip m buf start len pos s =
     (if pos < sub32 (add32 start len) 1
      then if length buf \<le> Suc pos - start then None
           else Option.bind (spi_send_command m [JEDEC_AAI_WORD_PROGRAM, buf ! (pos - start), buf ! (Suc pos - start)] 0 s)
             (\<lambda>(result, r, s1).
                if result \<noteq> 0 then Some (False, add32 pos 2, s1)
                else Option.bind (spi_poll_wip chip m s1) (\<lambda>(w, s2).
                  if w \<noteq> 0 then Some (False, add32 pos 2, s2)
                  else aai_loop chip m buf start len (add32 pos 2) s2))
      else Some (True, pos, s))"

definition aai_bailout :: "'d spi_master \<Rightarrow> 'd spi_state \<Rightarrow> (int \<times> 'd spi_state) option" where
  "aai_bailout m s = map_option (\<lambda>(r, s'). (SPI_GENERIC_ERROR, s')) (spi_write_disable m s)"

definition default_spi_write_aai ::
    "flashchip \<Rightarrow> 'd spi_master \<Rightarrow> bytes \<Rightarrow> nat \<Rightarrow> nat \<Rightarrow> 'd spi_state \<Rightarrow> (int \<times> 'd spi_state) option" where
  "default_spi_write_aai chip m buf start len s =
     Option.bind
       (if start mod 2 \<noteq> 0 then spi_chip_write_1 chip m buf start (start mod 2) s else Some (0, s))
       (\<lambda>(r, s1).
          if r \<noteq> 0 then Some (SPI_GENERIC_ERROR, s1)
          else
            let pos = add32 start (start mod 2)
            in if length buf < pos - start + 2 then None
               else Option.bind (spi_write_cmd chip m JEDEC_AAI_WORD_PROGRAM False start (bslice (pos - start) 2 buf) s1)
               (\<lambda>(result, s2).
                  if result \<noteq> 0 then aai_bailout m s2
                  else Option.bind (aai_loop chip m buf start len (add32 pos 2) s2) (\<lambda>(through, pos', s3).
                    if \<not> through then aai_bailout m s3
                    else Option.bind (spi_write_disable m s3) (\<lambda>(result, s4).
                      if result \<noteq> 0 then Some (SPI_GENERIC_ERROR, s4)
                      else if pos' < add32 start len
                      then map_option (\<lambda>(w, s5). (if w \<noteq> 0 then SPI_GENERIC_ERROR else 0, s5))
                             (spi_chip_write_1 chip m (drop (pos' - start) buf) pos' (pos' mod 2) s4)
                      else Some (0, s4)))))"

section \<open>Address modes\<close>

definition spi_enter_exit_4ba ::
    "flashchip \<Rightarrow> 'd spi_master \<Rightarrow> bool \<Rightarrow> 'd spi_state \<Rightarrow> (int \<times> 'd spi_state) option" where
  "spi_enter_exit_4ba chip m enter s =
     (let cmd = (if enter then JEDEC_ENTER_4_BYTE_ADDR_MODE else JEDEC_EXIT_4_BYTE_ADDR_MODE)
      in map_option (\<lambda>(ret, s'). (ret, if ret = 0 then s'\<lparr>sp_in_4ba_mode := enter\<rparr> else s'))
        (if has_feature chip FEATURE_4BA_ENTER
         then map_option (\<lambda>(r, bs, s'). (r, s')) (spi_send_command m [cmd] 0 s)
         else if has_feature chip FEATURE_4BA_ENTER_WREN then spi_simple_write_cmd chip m cmd False s
         else if has_feature chip FEATURE_4BA_ENTER_EAR7
         then spi_set_extended_address chip m (if enter then 0x80 else 0x00) s
         else Some (1, s)))"

end
