(* ===== verification/DummySpi.thy ===== *)
theory DummySpi
  imports Dummy Spi
begin

text \<open>
  The SPI chips that the dummy programmer emulates: the write protection of the array, the commands
  (\<^verbatim>\<open>emulate_spi_chip_response\<close>, here one function per group of opcodes) and the master callback
  \<^verbatim>\<open>dummy_spi_send_command\<close> of \<^verbatim>\<open>flashrom/programmers/dummyflasher.c\<close>.

  A command gets the bytes written (\<open>w\<close>, so that \<^verbatim>\<open>writecnt\<close> is its length) and the bytes to be read (\<open>r\<close>, with
  their initial value). Access outside of \<^verbatim>\<open>writearr\<close>, \<^verbatim>\<open>readarr\<close> or the array of the chip is undefined (\<open>None\<close>).
\<close>

section \<open>Registers and write protection\<close>

definition wp_register_chip :: "emu_chip \<Rightarrow> bool" where
  "wp_register_chip ch \<longleftrightarrow> ch = EMULATE_WINBOND_W25Q128FV \<or> ch = EMULATE_SPANSION_S25FL128L"

definition emu_srp0 :: "emu_data \<Rightarrow> bool" where
  "emu_srp0 d \<longleftrightarrow> drop_bit 7 (emu_status d ! 0) \<noteq> 0"

definition emu_srp1 :: "emu_data \<Rightarrow> bool" where
  "emu_srp1 d \<longleftrightarrow> emu_status d ! 1 AND 1 \<noteq> 0"

text \<open>The result of the failed assertion for other registers is not used by the callers.\<close>

definition get_reg_ro_bit_mask :: "emu_data \<Rightarrow> flash_reg \<Rightarrow> u8" where
  "get_reg_ro_bit_mask d reg =
     (let ro_bits = (if reg = STATUS1 then SPI_SR_WIP else 0);
          wp_active = (emu_srp1 d \<or> (emu_srp0 d \<and> hwwp d));
          ro1 = (if emu_chip d = EMULATE_WINBOND_W25Q128FV
                 then (if wp_active then 0xff
                       else if reg = STATUS2 then 0x84 OR (emu_status d ! 1 AND 0x38)
                       else if reg = STATUS3 then 0x1b else ro_bits)
                 else ro_bits)
      in if emu_chip d = EMULATE_SPANSION_S25FL128L
         then (if wp_active then 0xff
               else if reg = STATUS2 then 0x80 OR (emu_status d ! 1 AND 0x3c)
               else if reg = STATUS3 then 0x11 else ro1)
         else ro1)"

definition emu_wp_bits :: "emu_data \<Rightarrow> wp_bits" where
  "emu_wp_bits d =
     (let s0 = emu_status d ! 0; s1 = emu_status d ! 1
      in \<lparr>srp_bit_present = False, srp = drop_bit 7 s0, srl_bit_present = False, srl = s1 AND 1,
          cmp_bit_present = True, cmp = drop_bit 6 s1 AND 1, sec_bit_present = True, sec = drop_bit 6 s0 AND 1,
          tb_bit_present = True, tb = drop_bit 5 s0 AND 1, bp_bit_count = 3,
          bp = [drop_bit 2 s0 AND 1, drop_bit 3 s0 AND 1, drop_bit 4 s0 AND 1, 0]\<rparr>)"

definition update_write_protection :: "emu_data \<Rightarrow> emu_data option" where
  "update_write_protection d =
     (if \<not> wp_register_chip (emu_chip d) then Some d
      else map_option (\<lambda>r. d\<lparr>wp_start := u32 (wr_start r), wp_end := u32 (wr_start r + wr_len r)\<rparr>)
             (decode_range_spi25 (emu_wp_bits d) (emu_chip_size d)))"

definition is_write_protected :: "emu_data \<Rightarrow> nat \<Rightarrow> nat \<Rightarrow> bool" where
  "is_write_protected d start len =
     (if len = 0 then False
      else let last_byte = sub32 (add32 start len) 1 in start < wp_end d \<and> last_byte \<ge> wp_start d)"

definition write_flash_data :: "emu_data \<Rightarrow> nat \<Rightarrow> bytes \<Rightarrow> (int \<times> emu_data) option" where
  "write_flash_data d start buf =
     (if is_write_protected d start (length buf) then Some (1, d)
      else if length (flashchip_contents d) < start + length buf then None
      else Some (0, d\<lparr>flashchip_contents := blit start buf (flashchip_contents d), emu_modified := True\<rparr>))"

definition erase_flash_data :: "emu_data \<Rightarrow> nat \<Rightarrow> nat \<Rightarrow> (int \<times> emu_data) option" where
  "erase_flash_data d start len =
     (if is_write_protected d start len then Some (1, d)
      else if length (flashchip_contents d) < start + len then None
      else Some (0, d\<lparr>flashchip_contents := memset_at start 0xff len (flashchip_contents d), emu_modified := True\<rparr>))"

section \<open>Commands\<close>

text \<open>The result of a group: \<open>Some code\<close> for a \<^verbatim>\<open>return\<close> inside the switch and \<open>None\<close> for a \<^verbatim>\<open>break\<close>, the bytes
  read, and the new data.\<close>

type_synonym emu_result = "(int option \<times> bytes \<times> emu_data) option"

definition brk :: "bytes \<Rightarrow> emu_data \<Rightarrow> emu_result" where
  "brk r d = Some (None, r, d)"

definition fail :: "bytes \<Rightarrow> emu_data \<Rightarrow> emu_result" where
  "fail r d = Some (Some 1, r, d)"

definition addr24 :: "bytes \<Rightarrow> nat option" where
  "addr24 w = (if length w < 4 then None
     else Some (unat (w ! 1) * 65536 + unat (w ! 2) * 256 + unat (w ! 3)))"

definition addr32 :: "bytes \<Rightarrow> nat option" where
  "addr32 w = (if length w < 5 then None
     else Some (unat (w ! 1) * 16777216 + unat (w ! 2) * 65536 + unat (w ! 3) * 256 + unat (w ! 4)))"

text \<open>The bytes of an answer, as far as they fit.\<close>

definition answer :: "bytes \<Rightarrow> bytes \<Rightarrow> bytes" where
  "answer a r = blit 0 (take (length r) a) r"

definition alternate :: "bytes \<Rightarrow> nat \<Rightarrow> bytes \<Rightarrow> bytes" where
  "alternate two offs r = map (\<lambda>i. two ! (add32 offs i mod 2)) [0..<length r]"

definition fill :: "u8 \<Rightarrow> bytes \<Rightarrow> bytes" where
  "fill v r = replicate (length r) v"

definition rems_response :: "emu_chip \<Rightarrow> bytes option" where
  "rems_response ch =
     (case ch of
        EMULATE_SST_SST25VF040_REMS \<Rightarrow> Some [0xbf, 0x44]
      | EMULATE_SST_SST25VF032B \<Rightarrow> Some [0xbf, 0x4a]
      | EMULATE_MACRONIX_MX25L6436 \<Rightarrow> Some [0xc2, 0x16]
      | EMULATE_WINBOND_W25Q128FV \<Rightarrow> Some [0xef, 0x17]
      | _ \<Rightarrow> None)"

definition emu_res :: "bytes \<Rightarrow> bytes \<Rightarrow> emu_data \<Rightarrow> emu_result" where
  "emu_res w r d =
     (if length w < 4 then brk r d
      else Option.bind (addr24 w) (\<lambda>a.
        let offs = add32 a (length w - 4)
        in brk (case emu_chip d of
                  EMULATE_ST_M25P10_RES \<Rightarrow> fill 0x10 r
                | EMULATE_SST_SST25VF040_REMS \<Rightarrow> alternate [0xbf, 0x44] offs r
                | EMULATE_SST_SST25VF032B \<Rightarrow> alternate [0xbf, 0x4a] offs r
                | EMULATE_MACRONIX_MX25L6436 \<Rightarrow> fill 0x16 r
                | EMULATE_WINBOND_W25Q128FV \<Rightarrow> fill 0x17 r
                | EMULATE_SPANSION_S25FL128L \<Rightarrow> answer [0x60, 0x18] r
                | _ \<Rightarrow> r) d))"

definition emu_rems :: "bytes \<Rightarrow> bytes \<Rightarrow> emu_data \<Rightarrow> emu_result" where
  "emu_rems w r d =
     (if length w < 4 then brk r d
      else Option.bind (addr24 w) (\<lambda>a.
        brk (case rems_response (emu_chip d) of
               Some two \<Rightarrow> alternate two (add32 a (length w - 4)) r
             | None \<Rightarrow> r) d))"

definition emu_rdid :: "bytes \<Rightarrow> emu_data \<Rightarrow> emu_result" where
  "emu_rdid r d =
     brk (case emu_chip d of
            EMULATE_SST_SST25VF032B \<Rightarrow> answer [0xbf, 0x25, 0x4a] r
          | EMULATE_MACRONIX_MX25L6436 \<Rightarrow> answer [0xc2, 0x20, 0x17] r
          | EMULATE_WINBOND_W25Q128FV \<Rightarrow> answer [0xef, 0x40, 0x18] r
          | EMULATE_SPANSION_S25FL128L \<Rightarrow> answer [0x01, 0x60, 0x18] r
          | EMULATE_VARIABLE_SIZE \<Rightarrow>
              answer [of_nat (PROGMANUF_ID div 256), of_nat (PROGMANUF_ID mod 256),
                      of_nat (PROGDEV_ID div 256), of_nat (PROGDEV_ID mod 256)] r
          | _ \<Rightarrow> r) d"

text \<open>Writing a status register keeps its read-only bits.\<close>

definition put_reg :: "flash_reg \<Rightarrow> nat \<Rightarrow> u8 \<Rightarrow> emu_data \<Rightarrow> emu_data" where
  "put_reg reg k v d =
     (let ro_bits = get_reg_ro_bit_mask d reg
      in d\<lparr>emu_status := (emu_status d)[k := (emu_status d ! k AND ro_bits) OR (v AND NOT ro_bits)]\<rparr>)"

definition wel_set :: "emu_data \<Rightarrow> bool" where
  "wel_set d \<longleftrightarrow> emu_status d ! 0 AND SPI_SR_WEL \<noteq> 0"

definition emu_wrsr :: "bytes \<Rightarrow> bytes \<Rightarrow> emu_data \<Rightarrow> emu_result" where
  "emu_wrsr w r d =
     (if \<not> wel_set d then brk r d
      else
        let wrsr_ext2 = (length w = 3 \<and> emu_wrsr_ext2 d); wrsr_ext3 = (length w = 4 \<and> emu_wrsr_ext3 d)
        in if length w < 2 then None
           else
             let d1 = put_reg STATUS1 0 (w ! 1) d;
                 d2 = (if wrsr_ext2 \<or> wrsr_ext3 then put_reg STATUS2 1 (w ! 2) d1 else d1);
                 d3 = (if wrsr_ext3 then put_reg STATUS3 2 (w ! 3) d2 else d2)
             in Option.bind (update_write_protection d3) (brk r))"

definition emu_wrsr2 :: "bytes \<Rightarrow> bytes \<Rightarrow> emu_data \<Rightarrow> emu_result" where
  "emu_wrsr2 w r d =
     (if emu_status_len d < 2 then brk r d
      else if \<not> wel_set d then brk r d
      else if length w < 2 then None
      else Option.bind (update_write_protection (put_reg STATUS2 1 (w ! 1) d)) (brk r))"

definition emu_wrsr3 :: "bytes \<Rightarrow> bytes \<Rightarrow> emu_data \<Rightarrow> emu_result" where
  "emu_wrsr3 w r d =
     (if emu_status_len d < 3 then brk r d
      else if \<not> wel_set d then brk r d
      else if length w < 2 then None
      else brk r (put_reg STATUS3 2 (w ! 1) d))"

definition emu_read :: "nat option \<Rightarrow> bytes \<Rightarrow> emu_data \<Rightarrow> emu_result" where
  "emu_read addr r d =
     Option.bind addr (\<lambda>a.
       if emu_chip_size d = 0 then None
       else
         let offs = a mod emu_chip_size d
         in if r \<noteq> [] \<and> length (flashchip_contents d) < offs + length r then None
            else brk (bslice offs (length r) (flashchip_contents d)) d)"

text \<open>\<open>k\<close> is the number of bytes before the data.\<close>

definition emu_program :: "nat option \<Rightarrow> nat \<Rightarrow> bytes \<Rightarrow> bytes \<Rightarrow> emu_data \<Rightarrow> emu_result" where
  "emu_program addr k w r d =
     Option.bind addr (\<lambda>a.
       if emu_chip_size d = 0 then None
       else if length w < Suc k then fail r d
       else if length w - k > emu_max_byteprogram_size d then fail r d
       else Option.bind (write_flash_data d (a mod emu_chip_size d) (drop k w))
              (\<lambda>(e, d'). if e \<noteq> 0 then fail r d' else brk r d'))"

definition emu_aai :: "bytes \<Rightarrow> bytes \<Rightarrow> emu_data \<Rightarrow> emu_result" where
  "emu_aai w r d =
     (if emu_max_aai_size d = 0 then brk r d
      else if emu_status d ! 0 AND SPI_SR_AAI = 0
      then
        (if length w \<noteq> 6 then fail r d
         else if emu_chip_size d = 0 then None
         else Option.bind (addr24 w) (\<lambda>a.
           let d1 = d\<lparr>emu_status := (emu_status d)[0 := emu_status d ! 0 OR SPI_SR_AAI],
                      emu_aai_offs := a mod emu_chip_size d\<rparr>
           in Option.bind (write_flash_data d1 (emu_aai_offs d1) (drop 4 w)) (\<lambda>(e, d2).
                if e \<noteq> 0 then fail r d2 else brk r (d2\<lparr>emu_aai_offs := add32 (emu_aai_offs d2) 2\<rparr>))))
      else
        (if length w \<noteq> 3 then fail r d
         else Option.bind (write_flash_data d (emu_aai_offs d) (drop 1 w)) (\<lambda>(e, d2).
           if e \<noteq> 0 then fail r d2 else brk r (d2\<lparr>emu_aai_offs := add32 (emu_aai_offs d2) 2\<rparr>))))"

definition emu_wrdi :: "bytes \<Rightarrow> emu_data \<Rightarrow> emu_result" where
  "emu_wrdi r d =
     brk r (if emu_max_aai_size d \<noteq> 0
            then d\<lparr>emu_status := (emu_status d)[0 := emu_status d ! 0 AND NOT SPI_SR_AAI]\<rparr> else d)"

text \<open>\<^verbatim>\<open>offs & ~(size - 1)\<close> on 32-bit integers.\<close>

definition align_mask :: "nat \<Rightarrow> nat \<Rightarrow> nat" where
  "align_mask offs sz = unat ((word_of_nat offs :: 32 word) AND NOT (word_of_nat sz - 1))"

definition emu_block_erase :: "nat \<Rightarrow> bytes \<Rightarrow> bytes \<Rightarrow> emu_data \<Rightarrow> emu_result" where
  "emu_block_erase sz w r d =
     (if sz = 0 then brk r d
      else if length w \<noteq> 4 then fail r d
      else if r \<noteq> [] then fail r d
      else Option.bind (addr24 w) (\<lambda>a.
        Option.bind (erase_flash_data d (align_mask a sz) sz) (\<lambda>(e, d').
          if e \<noteq> 0 then fail r d' else brk r d')))"

definition emu_chip_erase :: "nat \<Rightarrow> bytes \<Rightarrow> bytes \<Rightarrow> emu_data \<Rightarrow> emu_result" where
  "emu_chip_erase sz w r d =
     (if sz = 0 then brk r d
      else if length w \<noteq> 1 then fail r d
      else if r \<noteq> [] then fail r d
      else Option.bind (erase_flash_data d 0 sz) (\<lambda>(e, d'). if e \<noteq> 0 then fail r d' else brk r d'))"

definition sfdp_table :: bytes where
  "sfdp_table =
     [0x53, 0x46, 0x44, 0x50, 0x00, 0x01, 0x01, 0xFF, 0x00, 0x00, 0x01, 0x09, 0x1C, 0x00, 0x00, 0xFF,
      0xC2, 0x00, 0x01, 0x04, 0x48, 0x00, 0x00, 0xFF, 0xFF, 0xFF, 0xFF, 0xFF, 0xE5, 0x20, 0xC9, 0xFF,
      0xFF, 0xFF, 0xFF, 0x03, 0x00, 0xFF, 0x08, 0x6B, 0x08, 0x3B, 0x00, 0xFF, 0xEE, 0xFF, 0xFF, 0xFF,
      0xFF, 0xFF, 0x00, 0x00, 0xFF, 0xFF, 0x00, 0xFF, 0x0C, 0x20, 0x0F, 0x52, 0x10, 0xD8, 0x00, 0xFF,
      0xFF, 0xFF, 0xFF, 0xFF, 0xFF, 0xFF, 0xFF, 0xFF, 0x00, 0x36, 0x00, 0x27, 0xF4, 0x4F, 0xFF, 0xFF,
      0xD9, 0xC8, 0xFF, 0xFF, 0xFF, 0xFF, 0xFF, 0xFF]"

text \<open>Without the dummy byte the first byte read is skipped; \<^verbatim>\<open>readcnt--\<close> of an empty read wraps around, and the
  copy then runs out of the buffer.\<close>

definition emu_sfdp :: "bytes \<Rightarrow> bytes \<Rightarrow> emu_data \<Rightarrow> emu_result" where
  "emu_sfdp w r d =
     (if emu_chip d \<noteq> EMULATE_MACRONIX_MX25L6436 then brk r d
      else if length w < 4 then brk r d
      else Option.bind (addr24 w) (\<lambda>a.
        let skip = (if length w = 4 then 1 else 0 :: nat);
            offs0 = (if length w = 4 then a else add32 a (length w - 5));
            offs = (if offs0 \<ge> length sfdp_table then offs0 mod length sfdp_table else offs0)
        in if length r < skip then None
           else brk (blit skip (bslice offs (min (length sfdp_table - offs) (length r - skip)) sfdp_table) r) d))"

text \<open>The switch on the opcode.\<close>

definition emu_switch :: "u8 \<Rightarrow> bytes \<Rightarrow> bytes \<Rightarrow> emu_data \<Rightarrow> emu_result" where
  "emu_switch opc w r d =
     (if opc = JEDEC_RES then emu_res w r d
      else if opc = JEDEC_REMS then emu_rems w r d
      else if opc = JEDEC_RDID then emu_rdid r d
      else if opc = JEDEC_RDSR then brk (fill (emu_status d ! 0) r) d
      else if opc = JEDEC_RDSR2 then brk (if emu_status_len d \<ge> 2 then fill (emu_status d ! 1) r else r) d
      else if opc = JEDEC_RDSR3 then brk (if emu_status_len d \<ge> 3 then fill (emu_status d ! 2) r else r) d
      else if opc = JEDEC_EWSR \<or> opc = JEDEC_WREN
      then brk r (d\<lparr>emu_status := (emu_status d)[0 := emu_status d ! 0 OR SPI_SR_WEL]\<rparr>)
      else if opc = JEDEC_WRSR then emu_wrsr w r d
      else if opc = JEDEC_WRSR2 then emu_wrsr2 w r d
      else if opc = JEDEC_WRSR3 then emu_wrsr3 w r d
      else if opc = JEDEC_READ then emu_read (addr24 w) r d
      else if opc = JEDEC_READ_4BA then emu_read (addr32 w) r d
      else if opc = JEDEC_BYTE_PROGRAM then emu_program (addr24 w) 4 w r d
      else if opc = JEDEC_BYTE_PROGRAM_4BA then emu_program (addr32 w) 5 w r d
      else if opc = JEDEC_AAI_WORD_PROGRAM then emu_aai w r d
      else if opc = JEDEC_WRDI then emu_wrdi r d
      else if opc = JEDEC_SE then emu_block_erase (emu_jedec_se_size d) w r d
      else if opc = JEDEC_BE_52 then emu_block_erase (emu_jedec_be_52_size d) w r d
      else if opc = JEDEC_BE_D8 then emu_block_erase (emu_jedec_be_d8_size d) w r d
      else if opc = JEDEC_CE_60 then emu_chip_erase (emu_jedec_ce_60_size d) w r d
      else if opc = JEDEC_CE_C7 then emu_chip_erase (emu_jedec_ce_c7_size d) w r d
      else if opc = JEDEC_SFDP then emu_sfdp w r d
      else brk r d)"

definition clear_wel :: "emu_data \<Rightarrow> emu_data" where
  "clear_wel d = d\<lparr>emu_status := (emu_status d)[0 := emu_status d ! 0 AND NOT SPI_SR_WEL]\<rparr>"

definition emulate_spi_chip_response :: "bytes \<Rightarrow> bytes \<Rightarrow> emu_data \<Rightarrow> (int \<times> bytes \<times> emu_data) option" where
  "emulate_spi_chip_response w r d =
     (case w of
        [] \<Rightarrow> Some (1, r, d)
      | opc # _ \<Rightarrow>
          if opc \<in> set (spi_blacklist d) then Some (SPI_INVALID_OPCODE, r, d)
          else if opc \<in> set (spi_ignorelist d) then Some (0, r, d)
          else if emu_max_aai_size d \<noteq> 0 \<and> emu_status d ! 0 AND SPI_SR_AAI \<noteq> 0 \<and>
                  opc \<noteq> JEDEC_AAI_WORD_PROGRAM \<and> opc \<noteq> JEDEC_WRDI \<and> opc \<noteq> JEDEC_RDSR
          then Some (0, r, d)
          else map_option
            (\<lambda>(ret, r', d').
               case ret of
                 Some code \<Rightarrow> (code, r', d')
               | None \<Rightarrow> (0, r', if opc \<noteq> JEDEC_WREN \<and> opc \<noteq> JEDEC_EWSR then clear_wel d' else d'))
            (emu_switch opc w r d))"

definition dummy_spi_send_command :: "bytes \<Rightarrow> nat \<Rightarrow> emu_data \<Rightarrow> (int \<times> bytes \<times> emu_data) option" where
  "dummy_spi_send_command w readcnt d =
     (let r = replicate readcnt 0xff
      in if emu_chip d = EMULATE_NONE then Some (0, r, d)
         else map_option (\<lambda>(e, r', d'). (if e \<noteq> 0 then 1 else 0, r', d')) (emulate_spi_chip_response w r d))"

definition dummy_spi_probe_opcode :: "u8 \<Rightarrow> emu_data \<Rightarrow> bool" where
  "dummy_spi_probe_opcode opc d \<longleftrightarrow> opc \<notin> set (spi_blacklist d)"

text \<open>The master \<^verbatim>\<open>spi_master_dummyflasher\<close>, and its callbacks \<^verbatim>\<open>read\<close> and \<^verbatim>\<open>write_256\<close>.\<close>

definition spi_master_dummyflasher :: "emu_data spi_master" where
  "spi_master_dummyflasher =
     \<lparr>sm_features = SPI_MASTER_4BA, sm_max_data_read = 64 * 1024, sm_max_data_write = MAX_DATA_UNSPECIFIED,
      sm_command = Some dummy_spi_send_command, sm_multicommand = None,
      sm_probe_opcode = Some dummy_spi_probe_opcode\<rparr>"

definition dummy_spi_write_256 ::
    "flashchip \<Rightarrow> bytes \<Rightarrow> nat \<Rightarrow> nat \<Rightarrow> emu_data spi_state \<Rightarrow> (int \<times> emu_data spi_state) option" where
  "dummy_spi_write_256 chip buf start len s =
     spi_write_chunked chip spi_master_dummyflasher buf start len (spi_write_256_chunksize (sp_dev s)) s"

end
