(* ===== verification/SpiOk.thy ===== *)
theory SpiOk
  imports Spi
begin

text \<open>
  Correctness of the SPI layer for chips with three address bytes. The interface \<open>spi_chip\<close> says what the
  commands do: reading the status register finds the chip idle, reading returns the contents, and
  after a write enable a page program stores its bytes and an erase sets its block to 0xff. The chunked
  reading and writing, the erase functions and the polling are shown to work on every such chip.
\<close>

section \<open>Address bytes\<close>

definition abytes :: "nat \<Rightarrow> bytes" where
  "abytes a = [addr_byte 2 a, addr_byte 1 a, addr_byte 0 a]"

lemma unat_addr_byte: "unat (addr_byte k a) = a div 256 ^ k mod 256"
  by (simp add: addr_byte_def unat_of_nat take_bit_eq_mod)

lemma length_abytes [simp]: "length (abytes a) = 3"
  by (simp add: abytes_def)

lemma bslice_split: "k \<le> len \<Longrightarrow> bslice a len xs = bslice a k xs @ bslice (a + k) (len - k) xs"
  by (simp add: bslice_def add.commute [of a] take_add [symmetric] flip: drop_drop)

section \<open>The interface\<close>

text \<open>The state of the layer: three-byte addressing on a chip in order, and the contents of the chip.\<close>

definition on_dev :: "('d \<Rightarrow> bool) \<Rightarrow> 'd spi_state \<Rightarrow> bool" where
  "on_dev P s \<longleftrightarrow> P (sp_dev s) \<and> \<not> sp_in_4ba_mode s"

definition dev_img :: "('d \<Rightarrow> bytes) \<Rightarrow> 'd spi_state \<Rightarrow> bytes" where
  "dev_img f s = f (sp_dev s)"

locale spi_reader =
  fixes chip :: flashchip and m :: "'d spi_master" and command :: "bytes \<Rightarrow> nat \<Rightarrow> 'd \<Rightarrow> (int \<times> bytes \<times> 'd) option"
    and n :: nat and dev_ok :: "'d \<Rightarrow> bool" and contents :: "'d \<Rightarrow> bytes"
  assumes single: "sm_command m = Some command" and no_multi: "sm_multicommand m = None"
    and max_data: "sm_max_data_read m \<noteq> 0"
    and size: "n = ch_total_size chip * 1024" and three_bytes: "n \<le> 16777216"
    and no_4ba: "\<not> has_feature chip (FEATURE_4BA_EAR_C5C8 OR FEATURE_4BA_EAR_1716)"
      "\<not> has_feature chip FEATURE_4BA_WRITE" "\<not> has_feature chip FEATURE_4BA_READ"
    and length_law: "dev_ok d \<Longrightarrow> length (contents d) = n"
    and rdsr_law: "dev_ok d \<Longrightarrow> (case sm_probe_opcode m of None \<Rightarrow> True | Some f \<Rightarrow> f JEDEC_RDSR d) \<and>
      (\<exists>v r d'. command [JEDEC_RDSR] 2 d = Some (0, v # r, d') \<and> v AND SPI_SR_WIP = 0 \<and> dev_ok d' \<and> contents d' = contents d)"
    and read_cmd_law: "dev_ok d \<Longrightarrow> 0 < len \<Longrightarrow> a + len \<le> n \<Longrightarrow>
      \<exists>d'. command (JEDEC_READ # abytes a) len d = Some (0, bslice a len (contents d), d') \<and> dev_ok d' \<and> contents d' = contents d"
begin

abbreviation st_ok :: "'d spi_state \<Rightarrow> bool" where "st_ok \<equiv> on_dev dev_ok"

abbreviation img :: "'d spi_state \<Rightarrow> bytes" where "img \<equiv> dev_img contents"

lemma length_img: "st_ok s \<Longrightarrow> length (img s) = n"
  by (simp add: on_dev_def dev_img_def length_law)

lemma send_eq: "spi_send_command m w k s = lift_dev s (command w k (sp_dev s))"
  by (simp add: spi_send_command_def single)

lemma st_ok_step: "st_ok s \<Longrightarrow> dev_ok d \<Longrightarrow> st_ok (s\<lparr>sp_dev := d\<rparr>)"
  by (simp add: on_dev_def)

lemma read_status_ok:
  assumes "st_ok s"
  shows "\<exists>v s'. spi_read_register chip m STATUS1 s = Some (0, v, s') \<and> v AND SPI_SR_WIP = 0 \<and> st_ok s' \<and> img s' = img s"
proof -
  have ok: "dev_ok (sp_dev s)" using assms by (simp add: on_dev_def)
  obtain v r d' where d': "command [JEDEC_RDSR] 2 (sp_dev s) = Some (0, v # r, d')" "v AND SPI_SR_WIP = 0" "dev_ok d'"
    "contents d' = contents (sp_dev s)" using rdsr_law [OF ok] by blast
  have "spi_opcode_supported m JEDEC_RDSR s" using rdsr_law [OF ok] by (simp add: spi_opcode_supported_def)
  then have "spi_read_register chip m STATUS1 s = Some (0, v, s\<lparr>sp_dev := d'\<rparr>)"
    using d'(1) by (simp add: spi_read_register_def register_read_cmd_def send_eq lift_dev_def)
  with d' assms st_ok_step show ?thesis by (auto simp: dev_img_def)
qed

lemma poll_wip_ok:
  assumes "st_ok s"
  shows "\<exists>s'. spi_poll_wip chip m s = Some (0, s') \<and> st_ok s' \<and> img s' = img s"
proof -
  obtain v s' where "spi_read_register chip m STATUS1 s = Some (0, v, s')" "v AND SPI_SR_WIP = 0" "st_ok s'" "img s' = img s"
    using read_status_ok [OF assms] by blast
  then show ?thesis by (subst spi_poll_wip.simps) simp
qed

text \<open>A write enable and a command, then polling.\<close>

lemma write_sequence:
  assumes ok: "st_ok s" and w: "w \<noteq> []"
    and run: "command [JEDEC_WREN] 0 (sp_dev s) = Some (0, r1, d1)" "command w 0 d1 = Some (0, r2, d2)" "dev_ok d2"
  shows "\<exists>s'. Option.bind (spi_send_multicommand m [([JEDEC_WREN], 0), (w, 0)] s) (\<lambda>(result, rs, s2).
      Option.bind (spi_poll_wip chip m s2) (\<lambda>(status, s3). Some (if result \<noteq> 0 then result else status, s3))) = Some (0, s') \<and>
    st_ok s' \<and> img s' = contents d2"
proof -
  let ?s = "s\<lparr>sp_dev := d2\<rparr>"
  have "spi_send_multicommand m [([JEDEC_WREN], 0), (w, 0)] s = Some (0, [r1, r2], ?s)"
    using w run by (simp add: spi_send_multicommand_def no_multi send_eq lift_dev_def)
  moreover obtain s' where "spi_poll_wip chip m ?s = Some (0, s')" "st_ok s'" "img s' = img ?s"
    using poll_wip_ok [OF st_ok_step [OF ok run(3)]] by blast
  ultimately show ?thesis by (auto simp: dev_img_def)
qed

lemma prepare_address_ok:
  assumes "st_ok s" and "a < n"
  shows "spi_prepare_address chip m False a s = Some (Some (abytes a), s)"
  using assms three_bytes no_4ba by (simp add: spi_prepare_address_def on_dev_def abytes_def Let_def)

section \<open>Reading in chunks\<close>

lemma nbyte_read_ok:
  assumes "st_ok s" and "0 < len" and "a + len \<le> n"
  shows "\<exists>s'. spi_nbyte_read chip m a len s = Some (0, bslice a len (img s), s') \<and> st_ok s' \<and> img s' = img s"
proof -
  have ok: "dev_ok (sp_dev s)" using assms by (simp add: on_dev_def)
  obtain d' where d': "command (JEDEC_READ # abytes a) len (sp_dev s) = Some (0, bslice a len (img s), d')" "dev_ok d'"
    "contents d' = img s" using read_cmd_law [OF ok assms(2,3)] by (auto simp: dev_img_def)
  with prepare_address_ok [OF assms(1), of a] assms no_4ba st_ok_step [OF assms(1) d'(2)] show ?thesis
    by (auto simp: spi_nbyte_read_def send_eq lift_dev_def dev_img_def)
qed

lemma read_chunked_ok:
  assumes "0 < chunksize"
  shows "st_ok s \<Longrightarrow> a + len \<le> n \<Longrightarrow>
    \<exists>s'. read_chunked_loop chip m chunksize a len acc s = Some (0, acc @ bslice a len (img s), s') \<and> st_ok s' \<and> img s' = img s"
proof (induction len arbitrary: a acc s rule: less_induct)
  case (less len)
  show ?case
  proof (cases "len = 0")
    case True
    with less.prems show ?thesis by (subst read_chunked_loop.simps) simp
  next
    case False
    let ?k = "min chunksize len"
    have k: "0 < ?k" "?k \<le> len" "len - ?k < len" using assms False by auto
    then have "a + ?k \<le> n" using less.prems(2) by simp
    with nbyte_read_ok [OF less.prems(1) k(1), of a] obtain s1 where
      s1: "spi_nbyte_read chip m a ?k s = Some (0, bslice a ?k (img s), s1)" "st_ok s1" "img s1 = img s" by blast
    have add: "add32 a ?k = a + ?k" using less.prems(2) k(2) three_bytes by (simp add: c_simps)
    have "a + ?k + (len - ?k) \<le> n" using less.prems(2) k(2) by simp
    from less.IH [OF k(3) s1(2) this] obtain s2 where
      s2: "read_chunked_loop chip m chunksize (a + ?k) (len - ?k) (acc @ bslice a ?k (img s)) s1 =
        Some (0, (acc @ bslice a ?k (img s)) @ bslice (a + ?k) (len - ?k) (img s1), s2)" "st_ok s2" "img s2 = img s1" by blast
    have "read_chunked_loop chip m chunksize a len acc s =
        read_chunked_loop chip m chunksize (a + ?k) (len - ?k) (acc @ bslice a ?k (img s)) s1"
      using False s1(1) add by (subst read_chunked_loop.simps) (simp add: Let_def)
    with s1(3) s2 bslice_split [OF k(2), of a "img s"] show ?thesis by simp
  qed
qed

lemma default_read_ok:
  assumes "st_ok s" and "a + len \<le> n"
  shows "\<exists>s'. default_spi_read chip m a len s = Some (0, bslice a len (img s), s') \<and> st_ok s' \<and> img s' = img s"
  using read_chunked_ok [of "sm_max_data_read m" s a len "[]"] assms max_data
  by (simp add: default_spi_read_def spi_read_chunked_def MAX_DATA_UNSPECIFIED_def)

text \<open>A chip of at most 16 MiB has no boundary inside.\<close>

lemma chip_read_ok:
  assumes ok: "st_ok s" and len: "0 < len" "a + len \<le> n"
  shows "\<exists>s'. spi_chip_read (default_spi_read chip m) a len s = Some (0, bslice a len (img s), s') \<and> st_ok s' \<and> img s' = img s"
proof -
  have a: "a < 16777216" "a + len \<le> 16777216" using len three_bytes by auto
  then have "(a + 16777216) div 16777216 = 1" by (simp add: div_add_self2)
  with a have "to_boundary a = 16777216 - a" by (simp add: to_boundary_def c_simps)
  with a have k: "min (to_boundary a) len = len" by simp
  obtain s' where s': "default_spi_read chip m a len s = Some (0, bslice a len (img s), s')" "st_ok s'" "img s' = img s"
    using default_read_ok [OF ok len(2)] by blast
  have "chip_read_loop (default_spi_read chip m) a len [] s = Some (0, bslice a len (img s), s')"
    using len k s'(1) by (subst chip_read_loop.simps) (subst chip_read_loop.simps, simp add: Let_def)
  with s' show ?thesis by (simp add: spi_chip_read_def)
qed

end

section \<open>Programming and erasing\<close>

text \<open>\<open>block_ops\<close> are the erase commands with the size of their blocks, \<open>chip_ops\<close> those for the whole chip.\<close>

locale spi_chip = spi_reader chip m command n dev_ok contents
  for chip :: flashchip and m :: "'d spi_master" and command :: "bytes \<Rightarrow> nat \<Rightarrow> 'd \<Rightarrow> (int \<times> bytes \<times> 'd) option"
    and n :: nat and dev_ok :: "'d \<Rightarrow> bool" and contents :: "'d \<Rightarrow> bytes" +
  fixes block_ops :: "(u8 \<times> nat) set" and chip_ops :: "u8 set"
  assumes program_law: "dev_ok d \<Longrightarrow> 0 < length bs \<Longrightarrow> length bs \<le> 256 \<Longrightarrow> a + length bs \<le> n \<Longrightarrow>
      \<exists>r1 d1 r2 d2. command [JEDEC_WREN] 0 d = Some (0, r1, d1) \<and>
        command (JEDEC_BYTE_PROGRAM # abytes a @ bs) 0 d1 = Some (0, r2, d2) \<and> dev_ok d2 \<and> contents d2 = blit a bs (contents d)"
    and block_erase_law: "dev_ok d \<Longrightarrow> (op, sz) \<in> block_ops \<Longrightarrow> sz dvd a \<Longrightarrow> a + sz \<le> n \<Longrightarrow>
      \<exists>r1 d1 r2 d2. command [JEDEC_WREN] 0 d = Some (0, r1, d1) \<and>
        command (op # abytes a) 0 d1 = Some (0, r2, d2) \<and> dev_ok d2 \<and> contents d2 = memset_at a 0xff sz (contents d)"
    and chip_erase_law: "dev_ok d \<Longrightarrow> op \<in> chip_ops \<Longrightarrow>
      \<exists>r1 d1 r2 d2. command [JEDEC_WREN] 0 d = Some (0, r1, d1) \<and>
        command [op] 0 d1 = Some (0, r2, d2) \<and> dev_ok d2 \<and> contents d2 = memset_at 0 0xff n (contents d)"
begin

lemma nbyte_program_ok:
  assumes "st_ok s" and "0 < length bs" and "length bs \<le> 256" and "a + length bs \<le> n"
  shows "\<exists>s'. spi_nbyte_program chip m a bs s = Some (0, s') \<and> st_ok s' \<and> img s' = blit a bs (img s)"
proof -
  have ok: "dev_ok (sp_dev s)" using assms by (simp add: on_dev_def)
  obtain r1 d1 r2 d2 where run: "command [JEDEC_WREN] 0 (sp_dev s) = Some (0, r1, d1)"
    "command (JEDEC_BYTE_PROGRAM # abytes a @ bs) 0 d1 = Some (0, r2, d2)" "dev_ok d2" "contents d2 = blit a bs (img s)"
    using program_law [OF ok assms(2-4)] by (auto simp: dev_img_def)
  from write_sequence [OF assms(1) _ run(1-3)] prepare_address_ok [OF assms(1), of a] assms(2-4) no_4ba show ?thesis
    by (simp add: spi_nbyte_program_def spi_write_cmd_def run(4))
qed

lemma block_erase_cmd_ok:
  assumes "st_ok s" and "(op, sz) \<in> block_ops" and "sz dvd a" and "a + sz \<le> n" and "0 < sz"
  shows "\<exists>s'. spi_write_cmd chip m op False a [] s = Some (0, s') \<and> st_ok s' \<and> img s' = memset_at a 0xff sz (img s)"
proof -
  have ok: "dev_ok (sp_dev s)" using assms by (simp add: on_dev_def)
  obtain r1 d1 r2 d2 where run: "command [JEDEC_WREN] 0 (sp_dev s) = Some (0, r1, d1)"
    "command (op # abytes a) 0 d1 = Some (0, r2, d2)" "dev_ok d2" "contents d2 = memset_at a 0xff sz (img s)"
    using block_erase_law [OF ok assms(2-4)] by (auto simp: dev_img_def)
  from write_sequence [OF assms(1) _ run(1-3)] prepare_address_ok [OF assms(1), of a] assms(4,5) show ?thesis
    by (simp add: spi_write_cmd_def run(4))
qed

lemma chip_erase_cmd_ok:
  assumes "st_ok s" and "op \<in> chip_ops"
  shows "\<exists>s'. spi_chip_erase chip m op 0 n s = Some (0, s') \<and> st_ok s' \<and> img s' = memset_at 0 0xff n (img s)"
proof -
  have ok: "dev_ok (sp_dev s)" using assms by (simp add: on_dev_def)
  obtain r1 d1 r2 d2 where run: "command [JEDEC_WREN] 0 (sp_dev s) = Some (0, r1, d1)"
    "command [op] 0 d1 = Some (0, r2, d2)" "dev_ok d2" "contents d2 = memset_at 0 0xff n (img s)"
    using chip_erase_law [OF ok assms(2)] by (auto simp: dev_img_def)
  have "mul32 (ch_total_size chip) 1024 = n" using size three_bytes by (simp add: c_simps)
  with write_sequence [OF assms(1) _ run(1-3)] show ?thesis
    by (simp add: spi_chip_erase_def spi_simple_write_cmd_def run(4))
qed

section \<open>Writing in pages\<close>

lemma write_page_ok:
  assumes cs: "0 < cs" "cs < 2147483648" and here: "start \<le> here" "here + lenh \<le> n" "lenh \<le> 256"
    and buf: "here - start + lenh \<le> length buf"
  shows "st_ok s \<Longrightarrow> \<exists>s'. write_page_loop chip m buf start cs here lenh j s = Some (0, s') \<and> st_ok s' \<and>
    img s' = blit (here + j) (bslice (here - start + j) (lenh - j) buf) (img s)"
proof (induction "lenh - j" arbitrary: j s rule: less_induct)
  case less
  show ?case
  proof (cases "j < lenh")
    case False
    then show ?thesis using less.prems by (subst write_page_loop.simps) simp
  next
    case True
    let ?k = "min cs (lenh - j)" and ?o = "here - start + j"
    have sub: "sub32 lenh j = lenh - j" using True here by (simp add: c_simps)
    have add: "add32 here j = here + j" "add32 j cs = j + cs" using True here cs three_bytes by (simp_all add: c_simps)
    have k: "0 < ?k" "?k \<le> lenh - j" "?k \<le> 256" using True cs here by auto
    have lb: "length (bslice ?o ?k buf) = ?k" using buf True k by simp
    have "here + j + ?k \<le> n" using k(2) here(2) True by linarith
    with nbyte_program_ok [OF less.prems, of "bslice ?o ?k buf" "here + j"] k obtain s1 where
      s1: "spi_nbyte_program chip m (here + j) (bslice ?o ?k buf) s = Some (0, s1)" "st_ok s1"
        "img s1 = blit (here + j) (bslice ?o ?k buf) (img s)" unfolding lb by blast
    have fits: "\<not> length buf < ?o + ?k" using k(2) buf True by linarith
    have run: "write_page_loop chip m buf start cs here lenh j s = write_page_loop chip m buf start cs here lenh (j + cs) s1"
      using True fits s1(1) by (subst write_page_loop.simps) (simp add: Let_def sub add)
    have "lenh - (j + cs) < lenh - j" using True cs by simp
    from less.hyps [OF this s1(2)] obtain s2 where
      s2: "write_page_loop chip m buf start cs here lenh (j + cs) s1 = Some (0, s2)" "st_ok s2"
        "img s2 = blit (here + (j + cs)) (bslice (here - start + (j + cs)) (lenh - (j + cs)) buf) (img s1)" by blast
    have "img s2 = blit (here + j) (bslice ?o (lenh - j) buf) (img s)"
    proof (cases "cs \<le> lenh - j")
      case True
      then have "bslice ?o (lenh - j) buf = bslice ?o ?k buf @ bslice (here - start + (j + cs)) (lenh - (j + cs)) buf"
        using bslice_split [of cs "lenh - j" ?o buf] by (simp add: add.assoc)
      then show ?thesis using lb True by (simp add: s2(3) s1(3) blit_append add.assoc)
    next
      case False
      then have "lenh - (j + cs) = 0" "?k = lenh - j" by auto
      then show ?thesis by (simp add: s2(3) s1(3))
    qed
    with run s2 show ?thesis by auto
  qed
qed

lemma write_pages_ok:
  assumes cs: "0 < cs" "cs < 2147483648" and pg: "0 < ch_page_size chip" "ch_page_size chip \<le> 256"
    and len: "0 < len" "start + len \<le> n" "length buf = len"
  shows "st_ok s \<Longrightarrow> start div ch_page_size chip \<le> i \<Longrightarrow> i \<le> Suc ((start + len - 1) div ch_page_size chip) \<Longrightarrow>
    \<exists>s'. write_pages_loop chip m buf start len cs i s = Some (0, s') \<and> st_ok s' \<and>
      img s' = blit (max start (i * ch_page_size chip)) (drop (max start (i * ch_page_size chip) - start) buf) (img s)"
proof (induction "Suc ((start + len - 1) div ch_page_size chip) - i" arbitrary: i s rule: less_induct)
  case less
  let ?P = "ch_page_size chip" and ?last = "(start + len - 1) div ch_page_size chip"
  have lim: "sub32 (add32 start len) 1 = start + len - 1" using len three_bytes by (simp add: c_simps)
  show ?case
  proof (cases "i \<le> ?last")
    case False
    then have i: "i = Suc ?last" using less.prems(3) by simp
    have "start + len - 1 < i * ?P" using pg(1) dividend_less_div_times [of ?P "start + len - 1"] by (simp add: i)
    then have "drop (max start (i * ?P) - start) buf = []" using len by simp
    with False less.prems lim show ?thesis by (subst write_pages_loop.simps) (simp add: Let_def)
  next
    case True
    let ?here = "max start (i * ?P)" and ?lenh = "min (start + len) (Suc i * ?P) - max start (i * ?P)"
    have iP: "i * ?P \<le> start + len - 1" using True pg(1) by (simp add: less_eq_div_iff_mult_less_eq)
    have next_gt: "start < Suc i * ?P"
    proof -
      have "start < Suc (start div ?P) * ?P" using dividend_less_div_times [of ?P start] pg(1) by simp
      also have "\<dots> \<le> Suc i * ?P" using less.prems(2) by (intro mult_le_mono1) simp
      finally show ?thesis .
    qed
    have P: "Suc i * ?P = i * ?P + ?P" by simp
    have small: "i * ?P + ?P < 4294967296" "i < 4294967295"
    proof -
      show "i * ?P + ?P < 4294967296" using iP len three_bytes pg by linarith
      have "i \<le> i * ?P" using pg(1) by simp
      then show "i < 4294967295" using iP len three_bytes by linarith
    qed
    have m: "mul32 i ?P = i * ?P" "mul32 (add32 i 1) ?P = Suc i * ?P" "add32 i 1 = Suc i"
      using small by (simp_all add: c_simps algebra_simps)
    have here: "start \<le> ?here" "?here + ?lenh \<le> n" "?lenh \<le> 256" "?here < min (start + len) (Suc i * ?P)"
      using iP next_gt len(1,2) pg P by (auto simp: max_def min_def)
    have lh: "sub32 (min (add32 start len) (mul32 (add32 i 1) ?P)) ?here = ?lenh"
      using here len three_bytes m by (simp add: c_simps)
    have buf: "?here - start + ?lenh \<le> length buf" using here len by auto
    obtain s1 where s1: "write_page_loop chip m buf start cs ?here ?lenh 0 s = Some (0, s1)" "st_ok s1"
      "img s1 = blit ?here (bslice (?here - start) ?lenh buf) (img s)"
      using write_page_ok [OF cs here(1-3) buf less.prems(1), of 0] by auto
    have run: "write_pages_loop chip m buf start len cs i s = write_pages_loop chip m buf start len cs (Suc i) s1"
      using True lim m(1,3) lh s1(1) by (subst write_pages_loop.simps) (simp add: Let_def)
    have "Suc ?last - Suc i < Suc ?last - i" using True by simp
    from less.hyps [OF this s1(2)] less.prems(2) True obtain s2 where
      s2: "write_pages_loop chip m buf start len cs (Suc i) s1 = Some (0, s2)" "st_ok s2"
      "img s2 = blit (max start (Suc i * ?P)) (drop (max start (Suc i * ?P) - start) buf) (img s1)" by auto
    have nx: "max start (Suc i * ?P) = Suc i * ?P" using next_gt by simp
    have "img s2 = blit ?here (drop (?here - start) buf) (img s)"
    proof (rule nth_equalityI)
      show "length (img s2) = length (blit ?here (drop (?here - start) buf) (img s))" by (simp add: s2(3) s1(3))
      fix x assume "x < length (img s2)"
      then have x: "x < length (img s)" by (simp add: s2(3) s1(3))
      show "img s2 ! x = blit ?here (drop (?here - start) buf) (img s) ! x"
        using x here len next_gt unfolding s2(3) s1(3) nx
        by (cases "x < Suc i * ?P"; cases "?here \<le> x") (auto simp: buf_simps nth_bslice)
    qed
    with run s2 show ?thesis by auto
  qed
qed

lemma write_chunked_ok:
  assumes cs: "0 < cs" "cs < 2147483648" and pg: "0 < ch_page_size chip" "ch_page_size chip \<le> 256"
    and len: "0 < length buf" "start + length buf \<le> n" and ok: "st_ok s"
  shows "\<exists>s'. spi_write_chunked chip m buf start (length buf) cs s = Some (0, s') \<and> st_ok s' \<and>
    img s' = blit start buf (img s)"
proof -
  have "start div ch_page_size chip \<le> Suc ((start + length buf - 1) div ch_page_size chip)"
    using len by (intro le_SucI div_le_mono) linarith
  moreover have "max start (start div ch_page_size chip * ch_page_size chip) = start" by simp
  ultimately show ?thesis
    using write_pages_ok [OF cs pg len refl ok order_refl] pg by (simp add: spi_write_chunked_def)
qed

end

end
