(* ===== verification/WpEnum.thy ===== *)
theory WpEnum
  imports WriteProtect
begin

text \<open>
  The enumeration of protection ranges: \<^verbatim>\<open>get_ranges_and_wp_bits\<close> lists every range that some setting of
  the writable range bits selects, once, ordered by length and start, with bits that select it.
\<close>

section \<open>Sorting and removing duplicates\<close>

definition range_le :: "wp_range \<Rightarrow> wp_range \<Rightarrow> bool" where
  "range_le a b \<longleftrightarrow> wr_len a < wr_len b \<or> (wr_len a = wr_len b \<and> wr_start a \<le> wr_start b)"

definition small_range :: "wp_range \<Rightarrow> bool" where
  "small_range r \<longleftrightarrow> wr_start r < 2147483648 \<and> wr_len r < 2147483648"

lemma wp_range_eqI: "wr_start a = wr_start b \<Longrightarrow> wr_len a = wr_len b \<Longrightarrow> (a :: wp_range) = b"
  by simp

lemma size_diff_small: "a < 2147483648 \<Longrightarrow> b < 2147483648 \<Longrightarrow> size_diff a b = int a - int b"
proof (cases "b \<le> a")
  case True
  assume "a < 2147483648"
  with True have "u32_of_int (int a - int b) = a - b"
    by (simp add: u32_of_int_def mod_pos_pos_trivial nat_diff_distrib' flip: of_nat_diff)
  with \<open>a < 2147483648\<close> True show ?thesis by (simp add: size_diff_def s32_def of_nat_diff)
next
  case False
  assume "a < 2147483648" "b < 2147483648"
  have "(int a - int b) mod 4294967296 = (int a - int b + 4294967296) mod 4294967296" by simp
  also have "\<dots> = int a - int b + 4294967296"
    using False \<open>b < 2147483648\<close> by (intro mod_pos_pos_trivial) auto
  finally show ?thesis using False \<open>b < 2147483648\<close> by (simp add: size_diff_def u32_of_int_def s32_def)
qed

lemma fold_next_nonzero: "ord \<noteq> 0 \<Longrightarrow> fold (\<lambda>i ord. if ord = 0 then d i else ord) xs ord = (ord :: int)"
  by (induction xs) auto

lemma compare_ranges_le:
  assumes "small_range (rab_range a)" and "small_range (rab_range b)"
  shows "compare_ranges a b \<le> 0 \<Longrightarrow> range_le (rab_range a) (rab_range b)"
    and "\<not> compare_ranges a b \<le> 0 \<Longrightarrow> range_le (rab_range b) (rab_range a)"
proof -
  let ?l = "size_diff (wr_len (rab_range a)) (wr_len (rab_range b))"
  let ?s = "size_diff (wr_start (rab_range a)) (wr_start (rab_range b))"
  have l: "?l = int (wr_len (rab_range a)) - int (wr_len (rab_range b))"
    and s: "?s = int (wr_start (rab_range a)) - int (wr_start (rab_range b))"
    using assms by (auto simp: small_range_def intro!: size_diff_small)
  have "compare_ranges a b = ?l" if "?l \<noteq> 0" using that by (simp add: compare_ranges_def Let_def fold_next_nonzero)
  moreover have "compare_ranges a b = ?s" if "?l = 0" "?s \<noteq> 0"
    using that by (simp add: compare_ranges_def Let_def fold_next_nonzero)
  ultimately show "compare_ranges a b \<le> 0 \<Longrightarrow> range_le (rab_range a) (rab_range b)"
    and "\<not> compare_ranges a b \<le> 0 \<Longrightarrow> range_le (rab_range b) (rab_range a)"
    using l s by (cases "?l = 0"; cases "?s = 0"; force simp: range_le_def)+
qed

lemma set_insert_range [simp]: "set (insert_range x ys) = insert x (set ys)"
  by (induction ys) auto

lemma set_qsort_ranges [simp]: "set (qsort_ranges xs) = set xs"
  by (induction xs) auto

lemma range_le_trans: "range_le a b \<Longrightarrow> range_le b c \<Longrightarrow> range_le a c"
  by (auto simp: range_le_def)

abbreviation ranges_sorted :: "wp_range_and_bits list \<Rightarrow> bool" where
  "ranges_sorted xs \<equiv> sorted_wrt (\<lambda>a b. range_le (rab_range a) (rab_range b)) xs"

lemma insert_range_sorted:
  "ranges_sorted ys \<Longrightarrow> \<forall>y \<in> insert x (set ys). small_range (rab_range y) \<Longrightarrow> ranges_sorted (insert_range x ys)"
proof (induction ys)
  case (Cons y ys)
  then show ?case
    using compare_ranges_le [of x y] by (auto intro: range_le_trans)
qed simp

lemma qsort_ranges_sorted: "\<forall>x \<in> set xs. small_range (rab_range x) \<Longrightarrow> ranges_sorted (qsort_ranges xs)"
  by (induction xs) (auto intro!: insert_range_sorted)

lemma dedup_subset: "set (dedup_ranges prev xs) \<subseteq> set xs"
  by (induction xs arbitrary: prev) (fastforce split: option.splits if_splits)+

lemma dedup_ranges_image:
  "insert r (rab_range ` set (dedup_ranges (Some r) xs)) = insert r (rab_range ` set xs)"
proof (induction xs arbitrary: r)
  case (Cons x xs)
  show ?case
  proof (cases "rab_range x = r")
    case True
    then show ?thesis using Cons.IH [of r] by simp
  next
    case False
    then have "wr_start (rab_range x) \<noteq> wr_start r \<or> wr_len (rab_range x) \<noteq> wr_len r" using wp_range_eqI by blast
    then show ?thesis using Cons.IH [of "rab_range x"] by simp
  qed
qed simp

lemma dedup_sorted:
  "ranges_sorted xs \<Longrightarrow> \<forall>x \<in> set xs. range_le r (rab_range x) \<Longrightarrow>
    distinct (map rab_range (dedup_ranges (Some r) xs)) \<and> r \<notin> rab_range ` set (dedup_ranges (Some r) xs) \<and>
    ranges_sorted (dedup_ranges (Some r) xs)"
proof (induction xs arbitrary: r)
  case (Cons x xs)
  show ?case
  proof (cases "rab_range x = r")
    case True
    then show ?thesis using Cons by simp
  next
    case False
    then have ne: "wr_start (rab_range x) \<noteq> wr_start r \<or> wr_len (rab_range x) \<noteq> wr_len r" using wp_range_eqI by blast
    let ?ys = "dedup_ranges (Some (rab_range x)) xs"
    have IH: "distinct (map rab_range ?ys)" "rab_range x \<notin> rab_range ` set ?ys" "ranges_sorted ?ys"
      using Cons.IH [of "rab_range x"] Cons.prems by auto
    have le: "range_le (rab_range x) (rab_range y)" if "y \<in> set ?ys" for y
      using that dedup_subset [of "Some (rab_range x)" xs] Cons.prems(1) by auto
    have "r \<notin> rab_range ` set ?ys"
    proof
      assume "r \<in> rab_range ` set ?ys"
      with le have "range_le (rab_range x) r" by auto
      moreover have "range_le r (rab_range x)" using Cons.prems(2) by simp
      ultimately show False using ne unfolding range_le_def by linarith
    qed
    moreover have "dedup_ranges (Some r) (x # xs) = x # ?ys" using ne by simp
    moreover have "rab_range x \<notin> set (map rab_range ?ys)" using IH(2) by (simp only: set_map not_False_eq_True)
    ultimately show ?thesis using IH(1,3) le False
      by (simp only: list.map distinct.simps sorted_wrt.simps list.set image_insert insert_iff) blast
  qed
qed simp

lemma dedup_qsort:
  assumes "\<forall>x \<in> set xs. small_range (rab_range x)"
  shows "distinct (map rab_range (dedup_ranges None (qsort_ranges xs))) \<and>
    ranges_sorted (dedup_ranges None (qsort_ranges xs)) \<and>
    rab_range ` set (dedup_ranges None (qsort_ranges xs)) = rab_range ` set xs \<and>
    set (dedup_ranges None (qsort_ranges xs)) \<subseteq> set xs"
proof -
  note so = qsort_ranges_sorted [OF assms]
  have sub: "set (dedup_ranges None (qsort_ranges xs)) \<subseteq> set xs" using dedup_subset [of None "qsort_ranges xs"] by simp
  show ?thesis
  proof (cases "qsort_ranges xs")
    case Nil
    then have "xs = []" using set_qsort_ranges [of xs] by (metis list.set(1) set_empty)
    with Nil show ?thesis by simp
  next
    case (Cons y ys)
    have "rab_range ` set xs = insert (rab_range y) (rab_range ` set ys)"
      using set_qsort_ranges [of xs] by (metis Cons image_insert list.simps(15))
    moreover have "range_le (rab_range y) (rab_range z)" if "z \<in> set (dedup_ranges (Some (rab_range y)) ys)" for z
      using that dedup_subset [of "Some (rab_range y)" ys] so Cons by auto
    ultimately show ?thesis
      using dedup_sorted [of ys "rab_range y"] so dedup_ranges_image [of "rab_range y" ys] Cons sub by auto
  qed
qed

section \<open>Settings of the range bits\<close>

fun load_bit :: "bit_ptr \<Rightarrow> wp_bits \<Rightarrow> u8" where
  "load_bit (BP_PTR i) b = bp b ! i"
| "load_bit TB_PTR b = tb b"
| "load_bit SEC_PTR b = sec b"
| "load_bit CMP_PTR b = cmp b"

fun ptr_ok :: "bit_ptr \<Rightarrow> wp_bits \<Rightarrow> bool" where
  "ptr_ok (BP_PTR i) b \<longleftrightarrow> i < length (bp b)"
| "ptr_ok p b \<longleftrightarrow> True"

text \<open>Everything that the enumeration does not change.\<close>

definition bits_frame :: "wp_bits \<Rightarrow> wp_bits" where
  "bits_frame b = b\<lparr>tb := 0, sec := 0, cmp := 0, bp := replicate (length (bp b)) 0\<rparr>"

lemma store_bit_props [simp]:
  "bits_frame (store_bit p v b) = bits_frame b"
  "ptr_ok q (store_bit p v b) = ptr_ok q b"
  "ptr_ok p b \<Longrightarrow> load_bit q (store_bit p v b) = (if q = p then v else load_bit q b)"
  by (cases p; cases q; auto simp: bits_frame_def)+

lemma wp_bits_eqI:
  assumes "bits_frame a = bits_frame b" and "\<And>p. ptr_ok p a \<Longrightarrow> load_bit p a = load_bit p b"
  shows "a = b"
proof -
  have len: "length (bp a) = length (bp b)"
    using arg_cong [OF assms(1), of "\<lambda>x. length (bp x)"] by (simp add: bits_frame_def)
  have "bp a = bp b" using len assms(2) [of "BP_PTR i" for i] by (intro nth_equalityI) auto
  moreover have "tb a = tb b" "sec a = sec b" "cmp a = cmp b"
    using assms(2) [of TB_PTR] assms(2) [of SEC_PTR] assms(2) [of CMP_PTR] by auto
  ultimately show ?thesis using assms(1) by (cases a; cases b) (simp add: bits_frame_def)
qed

text \<open>\<open>variant rb b b'\<close>: \<open>b'\<close> differs from \<open>b\<close> only in writable range bits.\<close>

definition variant :: "reg_bit_map \<Rightarrow> wp_bits \<Rightarrow> wp_bits \<Rightarrow> bool" where
  "variant rb b b' \<longleftrightarrow> bits_frame b' = bits_frame b \<and>
     (\<forall>p. ptr_ok p b \<longrightarrow> (if p \<in> set (range_bit_ptrs rb) then load_bit p b' \<le> 1 else load_bit p b' = load_bit p b))"

lemma range_bit_ptrs_distinct [simp]: "distinct (range_bit_ptrs rb)"
  by (auto simp: range_bit_ptrs_def distinct_map inj_on_def)

lemma range_bit_ptrs_ok: "wp_bits_ok b \<Longrightarrow> p \<in> set (range_bit_ptrs rb) \<Longrightarrow> ptr_ok p b"
  by (auto simp: range_bit_ptrs_def wp_bits_ok_def split: if_splits)

lemma assign_bits_load:
  assumes "distinct ptrs" and "\<forall>p \<in> set ptrs. ptr_ok p b" and "n \<le> length ptrs"
  shows "bits_frame (fold (\<lambda>i. store_bit (ptrs ! i) (f i)) [0..<n] b) = bits_frame b \<and>
    (\<forall>p. ptr_ok p (fold (\<lambda>i. store_bit (ptrs ! i) (f i)) [0..<n] b) = ptr_ok p b) \<and>
    (\<forall>i < n. load_bit (ptrs ! i) (fold (\<lambda>i. store_bit (ptrs ! i) (f i)) [0..<n] b) = f i) \<and>
    (\<forall>p. p \<notin> set (take n ptrs) \<longrightarrow> load_bit p (fold (\<lambda>i. store_bit (ptrs ! i) (f i)) [0..<n] b) = load_bit p b)"
  using assms(3)
proof (induction n)
  case (Suc n)
  let ?b = "fold (\<lambda>i. store_bit (ptrs ! i) (f i)) [0..<n] b"
  from Suc have IH: "bits_frame ?b = bits_frame b" "\<forall>p. ptr_ok p ?b = ptr_ok p b"
    "\<forall>i < n. load_bit (ptrs ! i) ?b = f i" "\<forall>p. p \<notin> set (take n ptrs) \<longrightarrow> load_bit p ?b = load_bit p b" by auto
  have ok: "ptr_ok (ptrs ! n) ?b" using IH(2) assms(2) Suc.prems by simp
  have ne: "ptrs ! i \<noteq> ptrs ! n" if "i < n" for i using that assms(1) Suc.prems by (simp add: nth_eq_iff_index_eq)
  have "set (take (Suc n) ptrs) = insert (ptrs ! n) (set (take n ptrs))"
    using Suc.prems by (simp add: take_Suc_conv_app_nth)
  with IH ok ne show ?case by (auto simp: less_Suc_eq)
qed simp

lemma assign_bits_variant:
  assumes "wp_bits_ok b"
  shows "variant rb b (assign_bits (range_bit_ptrs rb) idx b)"
proof -
  let ?ps = "range_bit_ptrs rb"
  note al = assign_bits_load [OF range_bit_ptrs_distinct, of rb b "length ?ps" "\<lambda>i. of_nat (drop_bit i idx AND 1)"]
  have bit: "of_nat (drop_bit i idx AND 1) \<le> (1 :: u8)" for i by (cases "bit idx i") (simp_all add: and_one_eq bit_iff_odd_drop_bit odd_iff_mod_2_eq_one)
  have "load_bit p (assign_bits ?ps idx b) \<le> 1" if "p \<in> set ?ps" for p
    using al range_bit_ptrs_ok [OF assms] bit that by (auto simp: assign_bits_def in_set_conv_nth)
  then show ?thesis
    using al range_bit_ptrs_ok [OF assms] by (auto simp: variant_def assign_bits_def)
qed

text \<open>Every such setting is enumerated, under the number that its bits spell.\<close>

lemma variant_assign_bits:
  assumes ok: "wp_bits_ok b" and v: "variant rb b b'"
  shows "\<exists>idx < 2 ^ length (range_bit_ptrs rb). assign_bits (range_bit_ptrs rb) idx b = b'"
proof -
  let ?ps = "range_bit_ptrs rb"
  define idx :: nat where "idx = horner_sum of_bool 2 (map (\<lambda>p. load_bit p b' = 1) ?ps)"
  have bit: "bit idx i \<longleftrightarrow> i < length ?ps \<and> load_bit (?ps ! i) b' = 1" for i
    by (auto simp: idx_def bit_horner_sum_bit_iff)
  have "take_bit (length ?ps) idx = idx"
    by (rule bit_eqI) (unfold bit_take_bit_iff bit, blast)
  then have lt: "idx < 2 ^ length ?ps" by (simp only: take_bit_nat_eq_self_iff)
  have val: "of_nat (drop_bit i idx AND 1) = load_bit (?ps ! i) b'" if "i < length ?ps" for i
  proof -
    have m: "?ps ! i \<in> set ?ps" using that by simp
    with v range_bit_ptrs_ok [OF ok m] have "load_bit (?ps ! i) b' \<le> 1" by (auto simp: variant_def)
    then have "load_bit (?ps ! i) b' = 0 \<or> load_bit (?ps ! i) b' = 1" by (rule bit_value)
    moreover have "drop_bit i idx AND 1 = of_bool (bit idx i)" by (simp add: bit_iff_odd_drop_bit and_one_eq mod_2_eq_odd)
    ultimately show ?thesis using that bit [of i] by auto
  qed
  have "\<forall>p \<in> set ?ps. ptr_ok p b" using range_bit_ptrs_ok [OF ok] by simp
  note al = assign_bits_load [OF range_bit_ptrs_distinct this order_refl, of "\<lambda>i. of_nat (drop_bit i idx AND 1)"]
  have "assign_bits ?ps idx b = b'"
  proof (rule wp_bits_eqI)
    show "bits_frame (assign_bits ?ps idx b) = bits_frame b'" using al v by (simp add: assign_bits_def variant_def)
    fix p assume "ptr_ok p (assign_bits ?ps idx b)"
    then have okp: "ptr_ok p b" using al by (simp add: assign_bits_def)
    show "load_bit p (assign_bits ?ps idx b) = load_bit p b'"
    proof (cases "p \<in> set ?ps")
      case True
      then show ?thesis using al val by (auto simp: assign_bits_def in_set_conv_nth)
    next
      case False
      then show ?thesis using al v okp by (simp add: assign_bits_def variant_def)
    qed
  qed
  with lt show ?thesis by blast
qed

lemma variant_ptr_ok:
  assumes "variant rb b b1"
  shows "ptr_ok p b1 = ptr_ok p b" "length (bp b1) = length (bp b)" "bp_bit_count b1 = bp_bit_count b"
proof -
  have fr: "bits_frame b1 = bits_frame b" using assms by (simp add: variant_def)
  show "length (bp b1) = length (bp b)" "bp_bit_count b1 = bp_bit_count b"
    using arg_cong [OF fr, of "\<lambda>x. length (bp x)"] arg_cong [OF fr, of bp_bit_count] by (simp_all add: bits_frame_def)
  then show "ptr_ok p b1 = ptr_ok p b" by (cases p) auto
qed

lemma assign_bits_again:
  assumes ok: "wp_bits_ok b" and v: "variant rb b b1"
  shows "assign_bits (range_bit_ptrs rb) idx b1 = assign_bits (range_bit_ptrs rb) idx b"
proof -
  let ?ps = "range_bit_ptrs rb"
  have "\<forall>p \<in> set ?ps. ptr_ok p b" "\<forall>p \<in> set ?ps. ptr_ok p b1"
    using range_bit_ptrs_ok [OF ok] variant_ptr_ok(1) [OF v] by auto
  note al = this [THEN assign_bits_load [OF range_bit_ptrs_distinct _ order_refl], of "\<lambda>i. of_nat (drop_bit i idx AND 1)"]
  show ?thesis
  proof (rule wp_bits_eqI)
    show "bits_frame (assign_bits ?ps idx b1) = bits_frame (assign_bits ?ps idx b)"
      using al v by (simp add: assign_bits_def variant_def)
    fix p assume "ptr_ok p (assign_bits ?ps idx b1)"
    then have okp: "ptr_ok p b" using al(2) variant_ptr_ok(1) [OF v] by (simp add: assign_bits_def)
    show "load_bit p (assign_bits ?ps idx b1) = load_bit p (assign_bits ?ps idx b)"
    proof (cases "p \<in> set ?ps")
      case True
      then show ?thesis using al by (auto simp: assign_bits_def in_set_conv_nth)
    next
      case False
      then show ?thesis using al v okp by (simp add: assign_bits_def variant_def)
    qed
  qed
qed

section \<open>The enumeration\<close>

text \<open>A chip with a decoding function and a size for which the decoders are defined.\<close>

definition wp_chip_ok :: "'s wp_env \<Rightarrow> bool" where
  "wp_chip_ok e \<longleftrightarrow> we_decode_range e \<noteq> NO_DECODE_RANGE_FUNC \<and> 32768 \<le> we_chip_len e \<and> we_chip_len e < 2147483648"

definition selects :: "'s wp_env \<Rightarrow> wp_bits \<Rightarrow> wp_range \<Rightarrow> bool" where
  "selects e b r \<longleftrightarrow> get_wp_range e b \<lparr>wr_start = 0, wr_len = 0\<rparr> = Some (FLASHROM_WP_OK, r)"

lemma get_wp_range_ok:
  assumes "wp_chip_ok e" and "wp_bits_ok b"
  shows "\<exists>r. get_wp_range e b r0 = Some (FLASHROM_WP_OK, r) \<and> selects e b r \<and> small_range r"
proof -
  obtain d where d: "lookup_decode_range_func_ptr (we_decode_range e) = Some d"
    "\<exists>r. d b (we_chip_len e) = Some r \<and> wr_start r + wr_len r \<le> we_chip_len e"
    using assms decode_range_generic_ok [OF assms(2), of _ "we_chip_len e"]
    by (cases "we_decode_range e") (fastforce simp: lookup_decode_range_func_ptr_def wp_chip_ok_def decode_range_defs)+
  then show ?thesis
    using assms(1) by (fastforce simp: get_wp_range_def selects_def small_range_def wp_chip_ok_def)
qed

lemma selects_unique: "selects e b r \<Longrightarrow> selects e b r' \<Longrightarrow> r = r'"
  by (simp add: selects_def)

lemma variant_ok:
  assumes "wp_bits_ok b" and "variant rb b b'"
  shows "wp_bits_ok b'"
proof -
  have "bp b' ! i \<le> 1" if "i < bp_bit_count b" for i
  proof -
    have "ptr_ok (BP_PTR i) b" using that assms(1) by (simp add: wp_bits_ok_def)
    with assms(2) have "load_bit (BP_PTR i) b' \<le> 1 \<or> load_bit (BP_PTR i) b' = load_bit (BP_PTR i) b"
      unfolding variant_def by (metis (full_types))
    then show ?thesis using that assms(1) by (auto simp: wp_bits_ok_def)
  qed
  with variant_ptr_ok(2,3) [OF assms(2)] assms(1) show ?thesis by (simp add: wp_bits_ok_def)
qed

lemma variant_trans: "variant rb b b1 \<Longrightarrow> variant rb b1 b2 \<Longrightarrow> variant rb b b2"
  using variant_ptr_ok(1) [of rb b b1] by (auto simp: variant_def split: if_splits)

lemma enum_ranges_ok:
  assumes e: "wp_chip_ok e" and "wp_bits_ok b"
  defines "rb \<equiv> we_reg_bits e"
  shows "\<exists>xs. enum_ranges e (range_bit_ptrs rb) idxs b = Some (FLASHROM_WP_OK, xs) \<and>
    (\<forall>x \<in> set xs. variant rb b (rab_bits x) \<and> selects e (rab_bits x) (rab_range x) \<and> small_range (rab_range x)) \<and>
    (\<forall>i \<in> set idxs. assign_bits (range_bit_ptrs rb) i b \<in> rab_bits ` set xs)"
  using assms(2)
proof (induction idxs arbitrary: b)
  case (Cons i idxs)
  let ?b = "assign_bits (range_bit_ptrs rb) i b"
  have v: "variant rb b ?b" by (rule assign_bits_variant [OF Cons.prems])
  then have ok: "wp_bits_ok ?b" by (rule variant_ok [OF Cons.prems])
  obtain r where r: "get_wp_range e ?b \<lparr>wr_start = 0, wr_len = 0\<rparr> = Some (FLASHROM_WP_OK, r)"
    "selects e ?b r" "small_range r"
    using get_wp_range_ok [OF e ok] by (metis (no_types))
  from Cons.IH [OF ok] obtain xs where
    xs: "enum_ranges e (range_bit_ptrs rb) idxs ?b = Some (FLASHROM_WP_OK, xs)"
    "\<forall>x \<in> set xs. variant rb ?b (rab_bits x) \<and> selects e (rab_bits x) (rab_range x) \<and> small_range (rab_range x)"
    "\<forall>i \<in> set idxs. assign_bits (range_bit_ptrs rb) i ?b \<in> rab_bits ` set xs"
    by blast
  have run: "enum_ranges e (range_bit_ptrs rb) (i # idxs) b =
      Some (FLASHROM_WP_OK, \<lparr>rab_bits = ?b, rab_range = r\<rparr> # xs)"
    using r(1) xs(1) by (simp add: Let_def)
  have "\<forall>x \<in> set xs. variant rb b (rab_bits x) \<and> selects e (rab_bits x) (rab_range x) \<and> small_range (rab_range x)"
    using xs(2) variant_trans [OF v] by blast
  with run v r(2,3) xs(3) assign_bits_again [OF Cons.prems v] show ?case by simp
qed simp

lemma get_ranges_and_wp_bits_ok:
  assumes e: "wp_chip_ok e" and ok: "wp_bits_ok b" and al: "we_calloc e"
  defines "rb \<equiv> we_reg_bits e"
  shows "\<exists>xs. get_ranges_and_wp_bits e b = Some (FLASHROM_WP_OK, xs) \<and> distinct (map rab_range xs) \<and>
    ranges_sorted xs \<and> (\<forall>x \<in> set xs. variant rb b (rab_bits x) \<and> selects e (rab_bits x) (rab_range x)) \<and>
    (\<forall>b' r. variant rb b b' \<and> selects e b' r \<longrightarrow> r \<in> rab_range ` set xs)"
proof -
  let ?ps = "range_bit_ptrs rb"
  from enum_ranges_ok [OF e ok, of "[0..<2 ^ length ?ps]"] obtain xs where
    xs: "enum_ranges e ?ps [0..<2 ^ length ?ps] b = Some (FLASHROM_WP_OK, xs)"
    "\<forall>x \<in> set xs. variant rb b (rab_bits x) \<and> selects e (rab_bits x) (rab_range x) \<and> small_range (rab_range x)"
    "\<forall>i < 2 ^ length ?ps. assign_bits ?ps i b \<in> rab_bits ` set xs"
    unfolding rb_def by auto
  let ?ys = "dedup_ranges None (qsort_ranges xs)"
  have ys: "distinct (map rab_range ?ys)" "ranges_sorted ?ys" "rab_range ` set ?ys = rab_range ` set xs" "set ?ys \<subseteq> set xs"
    using dedup_qsort [of xs] xs(2) by blast+
  have run: "get_ranges_and_wp_bits e b = Some (FLASHROM_WP_OK, ?ys)"
    using xs(1) al unfolding get_ranges_and_wp_bits_def rb_def Let_def by simp
  have all: "r \<in> rab_range ` set ?ys" if v: "variant rb b b'" and r: "selects e b' r" for b' r
  proof -
    from variant_assign_bits [OF ok v] xs(3) have "b' \<in> rab_bits ` set xs" by fastforce
    then obtain x where x: "x \<in> set xs" "rab_bits x = b'" by blast
    with xs(2) r have "rab_range x = r" using selects_unique by blast
    with x ys(3) show ?thesis by blast
  qed
  show ?thesis
    by (intro exI conjI allI impI, rule run, rule ys(1), rule ys(2)) (use xs(2) ys(4) all in blast)+
qed

section \<open>Properties\<close>

text \<open>The bit layout of the Winbond W25Q128.V in \<^verbatim>\<open>flashchips/winbond.c\<close>.\<close>

definition w25q128_reg_bits :: reg_bit_map where
  "w25q128_reg_bits =
     (let bit = (\<lambda>r i. \<lparr>bi_reg = r, bi_index = i, bi_writability = RW\<rparr>);
          none = \<lparr>bi_reg = INVALID_REG, bi_index = 0, bi_writability = RO\<rparr>
      in \<lparr>rb_srp = bit STATUS1 7, rb_srl = bit STATUS2 0,
          rb_bp = [bit STATUS1 2, bit STATUS1 3, bit STATUS1 4, none, none],
          rb_tb = bit STATUS1 5, rb_sec = bit STATUS1 6, rb_cmp = bit STATUS2 6, rb_wps = bit STATUS3 2\<rparr>)"

definition sample_env :: "unit wp_env" where
  "sample_env =
     \<lparr>we_buses = BUS_SPI, we_opaque_read = None, we_opaque_write = None,
      we_spi_read = (\<lambda>r s. (0, 0, s)), we_spi_write = (\<lambda>r v s. (0, s)),
      we_opaque_write_cfg = None, we_opaque_read_cfg = None, we_reg_bits = w25q128_reg_bits,
      we_decode_range = DECODE_RANGE_SPI25, we_chip_len = 16777216, we_calloc = True, we_junk = sample_bits\<rparr>"

lemma sample_env_ok: "wp_chip_ok sample_env" "we_calloc sample_env"
  by (simp_all add: wp_chip_ok_def sample_env_def)

text \<open>C18: \<^verbatim>\<open>get_ranges_and_wp_bits\<close> succeeds and lists exactly the ranges that some setting of the writable
  range bits selects, each once and with bits that select it and differ from the given ones only in
  writable range bits, ordered by length and then by start.\<close>

theorem get_ranges_and_wp_bits_correct:
  assumes "wp_chip_ok e" and "wp_bits_ok b" and "we_calloc e"
  shows "\<exists>xs. get_ranges_and_wp_bits e b = Some (FLASHROM_WP_OK, xs) \<and> distinct (map rab_range xs) \<and>
    sorted_wrt (\<lambda>x y. range_le (rab_range x) (rab_range y)) xs \<and>
    (\<forall>x \<in> set xs. variant (we_reg_bits e) b (rab_bits x) \<and> selects e (rab_bits x) (rab_range x)) \<and>
    rab_range ` set xs = {r. \<exists>b'. variant (we_reg_bits e) b b' \<and> selects e b' r}"
proof -
  obtain xs where xs: "get_ranges_and_wp_bits e b = Some (FLASHROM_WP_OK, xs)" "distinct (map rab_range xs)" "ranges_sorted xs"
    "\<forall>x \<in> set xs. variant (we_reg_bits e) b (rab_bits x) \<and> selects e (rab_bits x) (rab_range x)"
    "\<forall>b' r. variant (we_reg_bits e) b b' \<and> selects e b' r \<longrightarrow> r \<in> rab_range ` set xs"
    using get_ranges_and_wp_bits_ok [OF assms] by blast
  have "rab_range ` set xs = {r. \<exists>b'. variant (we_reg_bits e) b b' \<and> selects e b' r}"
    using xs(4,5) by (intro set_eqI) blast
  with xs show ?thesis by blast
qed

theorem get_ranges_and_wp_bits_witness:
  "\<exists>xs. get_ranges_and_wp_bits sample_env sample_bits = Some (FLASHROM_WP_OK, xs) \<and> distinct (map rab_range xs)"
  using get_ranges_and_wp_bits_correct [OF sample_env_ok(1) sample_bits_ok sample_env_ok(2)] by blast

lemma set_wp_range_ok:
  assumes "wp_chip_ok e" and "wp_bits_ok b" and "we_calloc e"
  shows "if \<exists>b'. variant (we_reg_bits e) b b' \<and> selects e b' r
    then \<exists>b1. set_wp_range e b r = Some (FLASHROM_WP_OK, b1) \<and> variant (we_reg_bits e) b b1 \<and> selects e b1 r
    else set_wp_range e b r = Some (FLASHROM_WP_ERR_RANGE_UNSUPPORTED, b)"
proof -
  obtain xs where xs: "get_ranges_and_wp_bits e b = Some (FLASHROM_WP_OK, xs)"
    "\<forall>x \<in> set xs. variant (we_reg_bits e) b (rab_bits x) \<and> selects e (rab_bits x) (rab_range x)"
    "\<forall>b' r. variant (we_reg_bits e) b b' \<and> selects e b' r \<longrightarrow> r \<in> rab_range ` set xs"
    using get_ranges_and_wp_bits_ok [OF assms] by blast
  show ?thesis
  proof (cases "find (\<lambda>x. ranges_equal (rab_range x) r) xs")
    case None
    then have "\<not> (\<exists>b'. variant (we_reg_bits e) b b' \<and> selects e b' r)"
      using xs(3) by (fastforce simp: find_None_iff ranges_equal_def)
    with None xs(1) show ?thesis by (simp add: set_wp_range_def)
  next
    case (Some x)
    then obtain i where i: "i < length xs" "ranges_equal (rab_range x) r" "x = xs ! i" by (auto simp: find_Some_iff)
    then have x: "x \<in> set xs" "rab_range x = r" by (simp_all add: ranges_equal_def)
    then have "variant (we_reg_bits e) b (rab_bits x) \<and> selects e (rab_bits x) r" using xs(2) by blast
    moreover have "set_wp_range e b r = Some (FLASHROM_WP_OK, rab_bits x)" using Some xs(1) by (simp add: set_wp_range_def)
    ultimately show ?thesis by auto
  qed
qed

text \<open>\<^verbatim>\<open>set_wp_range\<close> finds bits for a range exactly if some setting of the writable range bits selects it; the
  bits it returns select the range and differ from the given ones only in writable range bits. Otherwise it
  reports that the range is unsupported and changes nothing.\<close>

theorem set_wp_range_correct:
  assumes "wp_chip_ok e" and "wp_bits_ok b" and "we_calloc e"
  shows "(\<exists>b1. set_wp_range e b r = Some (FLASHROM_WP_OK, b1) \<and> variant (we_reg_bits e) b b1 \<and> selects e b1 r) \<or>
    (set_wp_range e b r = Some (FLASHROM_WP_ERR_RANGE_UNSUPPORTED, b) \<and>
     \<not> (\<exists>b'. variant (we_reg_bits e) b b' \<and> selects e b' r))"
  using set_wp_range_ok [OF assms, of r] by (simp split: if_splits)

theorem set_wp_range_witness:
  "set_wp_range sample_env sample_bits \<lparr>wr_start = 0, wr_len = 0\<rparr> \<noteq> None"
  using set_wp_range_correct [OF sample_env_ok(1) sample_bits_ok sample_env_ok(2), of "\<lparr>wr_start = 0, wr_len = 0\<rparr>"]
  by auto

end
