(* ===== verification/WpDevice.thy ===== *)
theory WpDevice
  imports WpEnum
begin

text \<open>
  The contract of the register access functions, as the interfaces \<open>wp_registers\<close> (reading) and
  \<open>wp_writer\<close> (writing), and what follows for the operations of \<^verbatim>\<open>writeprotect.c\<close>: the configuration
  that \<^verbatim>\<open>wp_read_cfg\<close> reports, and that \<^verbatim>\<open>wp_write_cfg\<close> establishes an available range and mode.
\<close>

section \<open>Bits in registers\<close>

definition hw_bit :: "(flash_reg \<Rightarrow> u8) \<Rightarrow> reg_bit_info \<Rightarrow> u8" where
  "hw_bit R b = (if bi_reg b = INVALID_REG then 0 else drop_bit (bi_index b) (R (bi_reg b)) AND 1)"

definition bp_count :: "reg_bit_map \<Rightarrow> nat" where
  "bp_count rb = length (takeWhile (\<lambda>b. bi_reg b \<noteq> INVALID_REG) (take MAX_BP_BITS (rb_bp rb)))"

text \<open>The bits of the chip whose registers hold \<open>R\<close>; array elements that are not read keep the value
  they had.\<close>

definition hw_bits :: "reg_bit_map \<Rightarrow> wp_bits \<Rightarrow> (flash_reg \<Rightarrow> u8) \<Rightarrow> wp_bits" where
  "hw_bits rb junk R =
     \<lparr>srp_bit_present = bi_reg (rb_srp rb) \<noteq> INVALID_REG, srp = hw_bit R (rb_srp rb),
      srl_bit_present = bi_reg (rb_srl rb) \<noteq> INVALID_REG, srl = hw_bit R (rb_srl rb),
      cmp_bit_present = bi_reg (rb_cmp rb) \<noteq> INVALID_REG, cmp = hw_bit R (rb_cmp rb),
      sec_bit_present = bi_reg (rb_sec rb) \<noteq> INVALID_REG, sec = hw_bit R (rb_sec rb),
      tb_bit_present = bi_reg (rb_tb rb) \<noteq> INVALID_REG, tb = hw_bit R (rb_tb rb),
      bp_bit_count = bp_count rb,
      bp = map (\<lambda>i. if i < bp_count rb then hw_bit R (rb_bp rb ! i) else bp junk ! i) [0..<MAX_BP_BITS]\<rparr>"

definition wp_infos :: "reg_bit_map \<Rightarrow> reg_bit_info list" where
  "wp_infos rb = take (bp_count rb) (rb_bp rb) @
     [rb_tb rb, rb_sec rb, rb_cmp rb, rb_srp rb, rb_srl rb, rb_wps rb]"

text \<open>The layouts of real chips: BP bits come first in their array, no two bits share a place, and at
  least one BP bit exists.\<close>

definition bit_map_ok :: "reg_bit_map \<Rightarrow> bool" where
  "bit_map_ok rb \<longleftrightarrow> length (rb_bp rb) = Suc MAX_BP_BITS \<and> 0 < bp_count rb \<and>
     (\<forall>i < Suc MAX_BP_BITS. bp_count rb \<le> i \<longrightarrow> bi_reg (rb_bp rb ! i) = INVALID_REG) \<and>
     (\<forall>b \<in> set (wp_infos rb). bi_index b < 8) \<and>
     distinct (map (\<lambda>b. (bi_reg b, bi_index b)) (filter (\<lambda>b. bi_reg b \<noteq> INVALID_REG) (wp_infos rb)))"

lemma hw_bit_le [simp]: "hw_bit R b \<le> 1"
  by (cases "bit (R (bi_reg b)) (bi_index b)") (simp_all add: hw_bit_def and_one_eq bit_iff_odd_drop_bit odd_iff_mod_2_eq_one)

lemma hw_bit_eq_iff: "bi_reg b \<noteq> INVALID_REG \<Longrightarrow> hw_bit R b = hw_bit R' b \<longleftrightarrow>
    bit (R (bi_reg b)) (bi_index b) = bit (R' (bi_reg b)) (bi_index b)"
  by (cases "bit (R (bi_reg b)) (bi_index b)"; cases "bit (R' (bi_reg b)) (bi_index b)")
    (simp_all add: hw_bit_def and_one_eq bit_iff_odd_drop_bit odd_iff_mod_2_eq_one even_iff_mod_2_eq_zero)

lemma hw_bit_one_iff: "bi_reg b \<noteq> INVALID_REG \<Longrightarrow> hw_bit R b = 1 \<longleftrightarrow> bit (R (bi_reg b)) (bi_index b)"
  by (cases "bit (R (bi_reg b)) (bi_index b)")
    (simp_all add: hw_bit_def and_one_eq bit_iff_odd_drop_bit odd_iff_mod_2_eq_one even_iff_mod_2_eq_zero)

lemma bp_count_props:
  assumes "Suc MAX_BP_BITS = length (rb_bp rb)"
  shows "bp_count rb \<le> MAX_BP_BITS" "i < bp_count rb \<Longrightarrow> bi_reg (rb_bp rb ! i) \<noteq> INVALID_REG"
    "bp_count rb < MAX_BP_BITS \<Longrightarrow> bi_reg (rb_bp rb ! bp_count rb) = INVALID_REG"
proof -
  let ?xs = "take MAX_BP_BITS (rb_bp rb)" and ?P = "\<lambda>b. bi_reg b \<noteq> INVALID_REG"
  have len: "length ?xs = MAX_BP_BITS" using assms by simp
  show le: "bp_count rb \<le> MAX_BP_BITS" unfolding bp_count_def using length_takeWhile_le [of ?P ?xs] len by simp
  { assume i: "i < bp_count rb"
    then have "takeWhile ?P ?xs ! i \<in> set (takeWhile ?P ?xs)" by (simp add: bp_count_def)
    then have "?P (takeWhile ?P ?xs ! i)" by (rule set_takeWhileD [THEN conjunct2])
    then show "bi_reg (rb_bp rb ! i) \<noteq> INVALID_REG"
      using i le by (simp add: takeWhile_nth bp_count_def) }
  { assume "bp_count rb < MAX_BP_BITS"
    then show "bi_reg (rb_bp rb ! bp_count rb) = INVALID_REG"
      using nth_length_takeWhile [of ?P ?xs] len by (simp add: bp_count_def) }
qed

lemma hw_bits_ok: "bit_map_ok rb \<Longrightarrow> wp_bits_ok (hw_bits rb junk R)"
  using bp_count_props(1) [of rb] by (auto simp: wp_bits_ok_def hw_bits_def bit_map_ok_def)

section \<open>Reading\<close>

locale wp_registers =
  fixes e :: "'s wp_env" and dev_ok :: "'s \<Rightarrow> bool" and regs :: "'s \<Rightarrow> flash_reg \<Rightarrow> u8"
  assumes chip: "wp_chip_ok e" and map_ok: "bit_map_ok (we_reg_bits e)" and calloc_ok: "we_calloc e"
    and junk: "length (bp (we_junk e)) = MAX_BP_BITS"
    and read_law: "dev_ok s \<Longrightarrow> b \<in> set (wp_infos (we_reg_bits e)) \<Longrightarrow> bi_reg b \<noteq> INVALID_REG \<Longrightarrow>
      \<exists>s'. wp_read_register e (bi_reg b) s = (0, regs s (bi_reg b), s') \<and> dev_ok s' \<and> regs s' = regs s"
    and wps_law: "dev_ok s \<Longrightarrow> bi_writability (rb_wps (we_reg_bits e)) \<noteq> RW \<Longrightarrow> hw_bit (regs s) (rb_wps (we_reg_bits e)) = 0"
begin

abbreviation rb :: reg_bit_map where "rb \<equiv> we_reg_bits e"

lemma read_bit_ok:
  "dev_ok s \<Longrightarrow> b \<in> set (wp_infos rb) \<Longrightarrow>
    \<exists>s'. read_bit e b s = (FLASHROM_WP_OK, hw_bit (regs s) b, bi_reg b \<noteq> INVALID_REG, s') \<and> dev_ok s' \<and> regs s' = regs s"
  using read_law [of s b] by (cases "bi_reg b = INVALID_REG") (auto simp: read_bit_def hw_bit_def)

lemma read_field_ok:
  assumes "dev_ok s" and "b \<in> set (wp_infos rb)"
    and "\<And>s'. dev_ok s' \<Longrightarrow> regs s' = regs s \<Longrightarrow>
      \<exists>s''. rest (store (hw_bit (regs s) b) (bi_reg b \<noteq> INVALID_REG) bits) s' = (FLASHROM_WP_OK, bits', s'') \<and>
        dev_ok s'' \<and> regs s'' = regs s"
  shows "\<exists>s'. read_field e b store rest bits s = (FLASHROM_WP_OK, bits', s') \<and> dev_ok s' \<and> regs s' = regs s"
  using read_bit_ok [OF assms(1,2)] assms(3) by (auto simp: read_field_def Let_def)

lemma bp_info: "i < bp_count rb \<Longrightarrow> rb_bp rb ! i \<in> set (wp_infos rb)"
  using map_ok bp_count_props(1) [of rb]
  by (auto simp: wp_infos_def bit_map_ok_def in_set_conv_nth intro!: exI [of _ i])

lemma read_bp_loop_ok:
  assumes "i \<le> bp_count rb" and "dev_ok s" and "bp_bit_count bits = i \<or> i = 0" and "length (bp bits) = MAX_BP_BITS"
  shows "\<exists>s'. read_bp_loop e [i..<MAX_BP_BITS] bits s =
      (FLASHROM_WP_OK, bits\<lparr>bp_bit_count := bp_count rb,
         bp := map (\<lambda>j. if i \<le> j \<and> j < bp_count rb then hw_bit (regs s) (rb_bp rb ! j) else bp bits ! j) [0..<MAX_BP_BITS]\<rparr>, s') \<and>
    dev_ok s' \<and> regs s' = regs s"
  using assms
proof (induction "bp_count rb - i" arbitrary: i s bits)
  case 0
  then have i: "i = bp_count rb" "0 < bp_count rb" "bp_bit_count bits = bp_count rb" using map_ok by (auto simp: bit_map_ok_def)
  note pr = bp_count_props [of rb]
  have "read_bp_loop e [i..<MAX_BP_BITS] bits s = (FLASHROM_WP_OK, bits, s)"
    using pr map_ok i by (cases "i < MAX_BP_BITS") (auto simp: upt_conv_Cons bit_map_ok_def)
  moreover have "bits\<lparr>bp_bit_count := bp_count rb,
      bp := map (\<lambda>j. if i \<le> j \<and> j < bp_count rb then hw_bit (regs s) (rb_bp rb ! j) else bp bits ! j) [0..<MAX_BP_BITS]\<rparr> = bits"
  proof -
    have "map (\<lambda>j. if i \<le> j \<and> j < bp_count rb then hw_bit (regs s) (rb_bp rb ! j) else bp bits ! j) [0..<MAX_BP_BITS] = bp bits"
      using i 0 by (intro nth_equalityI) auto
    then show ?thesis using i by simp
  qed
  ultimately show ?case using 0 by simp
next
  case (Suc x)
  note pr = bp_count_props [of rb]
  have i: "i < bp_count rb" "i < MAX_BP_BITS" "bi_reg (rb_bp rb ! i) \<noteq> INVALID_REG"
    using Suc pr map_ok by (auto simp: bit_map_ok_def)
  let ?b = "rb_bp rb ! i"
  define b1 where "b1 = bits\<lparr>bp_bit_count := Suc i, bp := (bp bits)[i := hw_bit (regs s) ?b]\<rparr>"
  have run: "read_bp_loop e [i..<MAX_BP_BITS] bits s = read_field e ?b
      (\<lambda>v p bits. bits\<lparr>bp_bit_count := Suc i, bp := (bp bits)[i := v]\<rparr>) (read_bp_loop e [Suc i..<MAX_BP_BITS]) bits s"
    using i by (simp add: upt_conv_Cons)
  have eq: "b1\<lparr>bp_bit_count := bp_count rb,
      bp := map (\<lambda>j. if Suc i \<le> j \<and> j < bp_count rb then hw_bit (regs s) (rb_bp rb ! j) else bp b1 ! j) [0..<MAX_BP_BITS]\<rparr> =
    bits\<lparr>bp_bit_count := bp_count rb,
      bp := map (\<lambda>j. if i \<le> j \<and> j < bp_count rb then hw_bit (regs s) (rb_bp rb ! j) else bp bits ! j) [0..<MAX_BP_BITS]\<rparr>"
    using i Suc.prems(4) by (auto simp: b1_def nth_list_update)
  have "x = bp_count rb - Suc i" "Suc i \<le> bp_count rb" using Suc.hyps(2) i by auto
  note IH = Suc.hyps(1) [OF this, of _ b1]
  have pre: "bp_bit_count b1 = Suc i \<or> Suc i = 0" "length (bp b1) = MAX_BP_BITS"
    using Suc.prems(4) by (simp_all add: b1_def)
  show ?case unfolding run eq [symmetric]
  proof (rule read_field_ok)
    fix s' assume s': "dev_ok s'" "regs s' = regs s"
    show "\<exists>s''. read_bp_loop e [Suc i..<MAX_BP_BITS] (bits\<lparr>bp_bit_count := Suc i, bp := (bp bits)[i := hw_bit (regs s) ?b]\<rparr>) s' =
       (FLASHROM_WP_OK, b1\<lparr>bp_bit_count := bp_count rb,
          bp := map (\<lambda>j. if Suc i \<le> j \<and> j < bp_count rb then hw_bit (regs s) (rb_bp rb ! j) else bp b1 ! j) [0..<MAX_BP_BITS]\<rparr>, s'') \<and>
       dev_ok s'' \<and> regs s'' = regs s"
      using IH [OF s'(1) pre] unfolding s'(2) b1_def [symmetric] .
  qed (use Suc.prems(2) bp_info [OF i(1)] in auto)
qed

lemma fixed_infos [simp]:
  "rb_tb rb \<in> set (wp_infos rb)" "rb_sec rb \<in> set (wp_infos rb)" "rb_cmp rb \<in> set (wp_infos rb)"
  "rb_srp rb \<in> set (wp_infos rb)" "rb_srl rb \<in> set (wp_infos rb)" "rb_wps rb \<in> set (wp_infos rb)"
  by (simp_all add: wp_infos_def)

text \<open>A read that ends well and leaves the registers at \<open>R\<close>.\<close>

definition gives :: "(flash_reg \<Rightarrow> u8) \<Rightarrow> wp_result \<times> wp_bits \<times> 's \<Rightarrow> wp_bits \<Rightarrow> bool" where
  "gives R r bits \<longleftrightarrow> (\<exists>s'. r = (FLASHROM_WP_OK, bits, s') \<and> dev_ok s' \<and> regs s' = R)"

lemma read_field_gives:
  assumes "b \<in> set (wp_infos rb)" and "dev_ok s" and "regs s = R"
    and "\<And>s'. dev_ok s' \<Longrightarrow> regs s' = R \<Longrightarrow>
      gives R (rest (store (hw_bit R b) (bi_reg b \<noteq> INVALID_REG) bits) s') bits'"
  shows "gives R (read_field e b store rest bits s) bits'"
  using read_field_ok [OF assms(2,1)] assms(3,4) unfolding gives_def by blast

lemma read_bp_loop_gives:
  assumes "dev_ok s" and "regs s = R" and "length (bp bits) = MAX_BP_BITS"
    and "bits\<lparr>bp_bit_count := bp_count rb,
      bp := map (\<lambda>j. if j < bp_count rb then hw_bit R (rb_bp rb ! j) else bp bits ! j) [0..<MAX_BP_BITS]\<rparr> = bits'"
  shows "gives R (read_bp_loop e [0..<MAX_BP_BITS] bits s) bits'"
  using read_bp_loop_ok [of 0 s bits] assms(1,3) unfolding gives_def assms(2) assms(4) [symmetric] by simp

lemma read_wp_bits_ok:
  assumes "dev_ok s"
  shows "\<exists>s'. read_wp_bits e (we_junk e) s = (FLASHROM_WP_OK, hw_bits rb (we_junk e) (regs s), s') \<and>
    dev_ok s' \<and> regs s' = regs s"
proof -
  define fields where "fields =
      read_field e (rb_tb rb) (\<lambda>v p b. b\<lparr>tb := v, tb_bit_present := p\<rparr>)
     (read_field e (rb_sec rb) (\<lambda>v p b. b\<lparr>sec := v, sec_bit_present := p\<rparr>)
     (read_field e (rb_cmp rb) (\<lambda>v p b. b\<lparr>cmp := v, cmp_bit_present := p\<rparr>)
     (read_field e (rb_srp rb) (\<lambda>v p b. b\<lparr>srp := v, srp_bit_present := p\<rparr>)
     (read_field e (rb_srl rb) (\<lambda>v p b. b\<lparr>srl := v, srl_bit_present := p\<rparr>)
     (read_bp_loop e [0..<MAX_BP_BITS])))))"
  have fields: "gives R (fields (we_junk e) s') (hw_bits rb (we_junk e) R)" if "dev_ok s'" "regs s' = R" for R s'
    unfolding fields_def
    by (rule read_field_gives [OF fixed_infos(1) that], rule read_field_gives [OF fixed_infos(2)], assumption, assumption,
        rule read_field_gives [OF fixed_infos(3)], assumption, assumption,
        rule read_field_gives [OF fixed_infos(4)], assumption, assumption,
        rule read_field_gives [OF fixed_infos(5)], assumption, assumption,
        rule read_bp_loop_gives) (use junk in \<open>auto simp: hw_bits_def\<close>)
  obtain s1 where s1: "read_bit e (rb_wps rb) s =
      (FLASHROM_WP_OK, hw_bit (regs s) (rb_wps rb), bi_reg (rb_wps rb) \<noteq> INVALID_REG, s1)" "dev_ok s1" "regs s1 = regs s"
    using read_bit_ok [OF assms fixed_infos(6)] by blast
  have "read_wp_bits e (we_junk e) s =
      (if bi_reg (rb_wps rb) \<noteq> INVALID_REG \<and> bi_writability (rb_wps rb) \<noteq> RW then fields (we_junk e) s1 else fields (we_junk e) s)"
    unfolding read_wp_bits_def Let_def fields_def [symmetric] s1(1) using wps_law [OF assms] by simp
  then have "gives (regs s) (read_wp_bits e (we_junk e) s) (hw_bits rb (we_junk e) (regs s))"
    using fields [OF assms refl] fields [OF s1(2,3)] by simp
  then show ?thesis by (simp add: gives_def)
qed

text \<open>What \<^verbatim>\<open>wp_read_cfg\<close> reports.\<close>

lemma hw_mode:
  "\<exists>m. get_wp_mode (hw_bits rb (we_junk e) R) = Some m"
proof -
  have "hw_bit R b = 0 \<or> hw_bit R b = 1" for b by (rule bit_value) simp
  from this [of "rb_srp rb"] this [of "rb_srl rb"] show ?thesis by (auto simp: get_wp_mode_def hw_bits_def)
qed

lemma wp_read_cfg_ok:
  assumes "dev_ok s"
  shows "\<exists>m r s'. wp_read_cfg e cfg s = Some (FLASHROM_WP_OK, \<lparr>cfg_mode = m, cfg_range = r\<rparr>, s') \<and>
    dev_ok s' \<and> regs s' = regs s \<and> selects e (hw_bits rb (we_junk e) (regs s)) r \<and>
    get_wp_mode (hw_bits rb (we_junk e) (regs s)) = Some m"
proof -
  obtain s' where r: "read_wp_bits e (we_junk e) s = (FLASHROM_WP_OK, hw_bits rb (we_junk e) (regs s), s')"
    "dev_ok s'" "regs s' = regs s" using read_wp_bits_ok [OF assms] by blast
  obtain rg where rg: "get_wp_range e (hw_bits rb (we_junk e) (regs s)) (cfg_range cfg) = Some (FLASHROM_WP_OK, rg)"
    "selects e (hw_bits rb (we_junk e) (regs s)) rg"
    using get_wp_range_ok [OF chip hw_bits_ok [OF map_ok]] by (metis (no_types))
  obtain m where m: "get_wp_mode (hw_bits rb (we_junk e) (regs s)) = Some m" using hw_mode by blast
  have "chip_supported e" using chip by (simp add: chip_supported_def wp_chip_ok_def)
  with r rg m show ?thesis by (cases cfg) (auto simp: wp_read_cfg_def Let_def)
qed

text \<open>A range that no setting of the writable bits selects is refused and nothing is written.\<close>

lemma wp_write_cfg_unsupported:
  assumes "dev_ok s" and "\<not> (\<exists>b. variant rb (hw_bits rb (we_junk e) (regs s)) b \<and> selects e b (cfg_range cfg))"
  shows "\<exists>s'. wp_write_cfg e cfg s = Some (FLASHROM_WP_ERR_RANGE_UNSUPPORTED, s') \<and> dev_ok s' \<and> regs s' = regs s"
proof -
  obtain s' where rd: "read_wp_bits e (we_junk e) s = (FLASHROM_WP_OK, hw_bits rb (we_junk e) (regs s), s')"
    "dev_ok s'" "regs s' = regs s" using read_wp_bits_ok [OF assms(1)] by blast
  have "set_wp_range e (hw_bits rb (we_junk e) (regs s)) (cfg_range cfg) =
      Some (FLASHROM_WP_ERR_RANGE_UNSUPPORTED, hw_bits rb (we_junk e) (regs s))"
    using set_wp_range_ok [OF chip hw_bits_ok [OF map_ok] calloc_ok, of "we_junk e" "regs s" "cfg_range cfg"] assms(2)
    by (simp split: if_splits)
  with chip rd show ?thesis by (simp add: wp_write_cfg_def chip_supported_def wp_chip_ok_def)
qed

end

section \<open>Writing\<close>

text \<open>The value that the fields of \<open>bits\<close> give to each described bit.\<close>

definition field_values :: "reg_bit_map \<Rightarrow> wp_bits \<Rightarrow> (reg_bit_info \<times> u8) list" where
  "field_values rb bits =
     map (\<lambda>i. (rb_bp rb ! i, bp bits ! i)) [0..<bp_bit_count bits] @
     [(rb_tb rb, tb bits), (rb_sec rb, sec bits), (rb_cmp rb, cmp bits), (rb_srp rb, srp bits),
      (rb_srl rb, srl bits), (rb_wps rb, 0)]"

lemma reg_values_fold:
  "get_wp_bits_reg_values rb bits = fold (\<lambda>(b, v). set_reg_bit b v) (field_values rb bits)
     \<lparr>rm_values = \<lambda>r. 0, rm_bits = \<lambda>r. 0, rm_write = \<lambda>r. 0\<rparr>"
  by (simp add: get_wp_bits_reg_values_def field_values_def Let_def fold_map comp_def)

lemma set_reg_bits_bit:
  assumes "i < 8"
  shows "bit (rm_values (fold (\<lambda>(b, v). set_reg_bit b v) xs m) r) i \<longleftrightarrow> bit (rm_values m r) i \<or>
      (\<exists>(b, v) \<in> set xs. bi_reg b = r \<and> r \<noteq> INVALID_REG \<and> bi_index b \<le> i \<and> bit v (i - bi_index b))" (is ?V)
    and "bit (rm_bits (fold (\<lambda>(b, v). set_reg_bit b v) xs m) r) i \<longleftrightarrow> bit (rm_bits m r) i \<or>
      (\<exists>(b, v) \<in> set xs. bi_reg b = r \<and> r \<noteq> INVALID_REG \<and> bi_index b = i)" (is ?B)
    and "bit (rm_write (fold (\<lambda>(b, v). set_reg_bit b v) xs m) r) i \<longleftrightarrow> bit (rm_write m r) i \<or>
      (\<exists>(b, v) \<in> set xs. bi_reg b = r \<and> r \<noteq> INVALID_REG \<and> bi_index b = i \<and> bi_writability b = RW)" (is ?W)
proof -
  have one: "bit (push_bit k (1 :: u8)) i \<longleftrightarrow> k = i" for k
    using assms by (auto simp: bit_push_bit_iff bit_1_iff simp del: push_bit_of_1)
  show ?V ?B ?W
    using assms one
    by (induction xs arbitrary: m)
      (auto simp: set_reg_bit_def bit_or_iff bit_push_bit_iff split: if_splits simp del: push_bit_of_1)
qed

text \<open>For a field list whose places are distinct and whose values are bits, the arrays describe exactly
  the fields.\<close>

lemma reg_masks_fields:
  assumes xs: "\<forall>(b, v) \<in> set xs. bi_index b < 8 \<and> v \<le> 1"
    and dist: "\<forall>(b, v) \<in> set xs. \<forall>(b', v') \<in> set xs. bi_reg b = bi_reg b' \<and> bi_reg b \<noteq> INVALID_REG \<and>
      bi_index b = bi_index b' \<longrightarrow> (b, v) = (b', v')"
    and mem: "(b, v) \<in> set xs" "bi_reg b \<noteq> INVALID_REG"
  defines "m \<equiv> fold (\<lambda>(b, v). set_reg_bit b v) xs \<lparr>rm_values = \<lambda>r. 0, rm_bits = \<lambda>r. 0, rm_write = \<lambda>r. 0\<rparr>"
  shows "hw_bit (rm_values m) b = v" and "bit (rm_write m (bi_reg b)) (bi_index b) \<longleftrightarrow> bi_writability b = RW"
proof -
  have i: "bi_index b < 8" using xs mem(1) by auto
  have v01: "v' = 0 \<or> v' = 1" if "(b', v') \<in> set xs" for b' v' using xs that bit_value by fastforce
  have "bit (rm_values m (bi_reg b)) (bi_index b) \<longleftrightarrow>
      (\<exists>(b', v') \<in> set xs. bi_reg b' = bi_reg b \<and> bi_index b' \<le> bi_index b \<and> bit v' (bi_index b - bi_index b'))"
    unfolding m_def set_reg_bits_bit(1) [OF i] using mem(2) by auto
  also have "\<dots> \<longleftrightarrow> v = 1"
  proof
    assume "\<exists>(b', v') \<in> set xs. bi_reg b' = bi_reg b \<and> bi_index b' \<le> bi_index b \<and> bit v' (bi_index b - bi_index b')"
    then obtain b' v' where b': "(b', v') \<in> set xs" "bi_reg b' = bi_reg b" "bi_index b' \<le> bi_index b"
      "bit v' (bi_index b - bi_index b')" by blast
    with v01 [OF b'(1)] have "v' = 1" "bi_index b' = bi_index b" by (auto simp: bit_1_iff)
    with b' dist mem show "v = 1" by fastforce
  next
    assume "v = 1"
    with mem(1) show "\<exists>(b', v') \<in> set xs. bi_reg b' = bi_reg b \<and> bi_index b' \<le> bi_index b \<and> bit v' (bi_index b - bi_index b')"
      by (intro bexI [of _ "(b, v)"]) auto
  qed
  finally have "hw_bit (rm_values m) b = 1 \<longleftrightarrow> v = 1" using mem(2) by (simp add: hw_bit_one_iff)
  moreover have "hw_bit (rm_values m) b = 0 \<or> hw_bit (rm_values m) b = 1" by (rule bit_value) simp
  ultimately show "hw_bit (rm_values m) b = v" using v01 [OF mem(1)] by auto
  have "bit (rm_write m (bi_reg b)) (bi_index b) \<longleftrightarrow>
      (\<exists>(b', v') \<in> set xs. bi_reg b' = bi_reg b \<and> bi_index b' = bi_index b \<and> bi_writability b' = RW)"
    unfolding m_def set_reg_bits_bit(3) [OF i] using mem(2) by auto
  also have "\<dots> \<longleftrightarrow> bi_writability b = RW"
  proof
    assume "\<exists>(b', v') \<in> set xs. bi_reg b' = bi_reg b \<and> bi_index b' = bi_index b \<and> bi_writability b' = RW"
    then obtain b' v' where "(b', v') \<in> set xs" "bi_reg b' = bi_reg b" "bi_index b' = bi_index b" "bi_writability b' = RW"
      by blast
    with dist mem show "bi_writability b = RW" by fastforce
  qed (use mem(1) in \<open>auto intro!: bexI [of _ "(b, v)"]\<close>)
  finally show "bit (rm_write m (bi_reg b)) (bi_index b) \<longleftrightarrow> bi_writability b = RW" .
qed

text \<open>The fields of bits that are well formed for a chip.\<close>

definition fields_ok :: "reg_bit_map \<Rightarrow> wp_bits \<Rightarrow> bool" where
  "fields_ok rb bits \<longleftrightarrow> bp_bit_count bits = bp_count rb \<and> (\<forall>(b, v) \<in> set (field_values rb bits). v \<le> 1)"

lemma field_infos:
  assumes "bit_map_ok rb" and "bp_bit_count bits = bp_count rb"
  shows "map fst (field_values rb bits) = wp_infos rb"
proof -
  have "bp_count rb \<le> length (rb_bp rb)" using assms(1) bp_count_props(1) [of rb] by (simp add: bit_map_ok_def)
  then have "map ((!) (rb_bp rb)) [0..<bp_count rb] = take (bp_count rb) (rb_bp rb)"
    by (intro nth_equalityI) auto
  then show ?thesis using assms(2) by (simp add: field_values_def wp_infos_def comp_def)
qed

lemma distinct_filter_map:
  "distinct (map f (filter P ys)) \<Longrightarrow> map fst xs = ys \<Longrightarrow> x \<in> set xs \<Longrightarrow> x' \<in> set xs \<Longrightarrow> P (fst x) \<Longrightarrow> P (fst x') \<Longrightarrow>
    f (fst x) = f (fst x') \<Longrightarrow> x = x'"
proof (induction xs arbitrary: ys)
  case (Cons z xs)
  then obtain y ys' where ys: "ys = y # ys'" "fst z = y" "map fst xs = ys'" by auto
  have no: "w = z" if "w = z \<or> w \<in> set xs" "P (fst w)" "P y" "f (fst w) = f y" for w
  proof (rule ccontr)
    assume "w \<noteq> z"
    then have "fst w \<in> set ys'" using that(1) ys(3) by auto
    then show False using Cons.prems(1) ys(1) that by (auto simp: image_iff)
  qed
  show ?case
  proof (cases "x = z \<or> x' = z")
    case True
    then show ?thesis using no [of x] no [of x'] Cons.prems ys by auto
  next
    case False
    then have "x \<in> set xs" "x' \<in> set xs" using Cons.prems by auto
    moreover have "distinct (map f (filter P ys'))" using Cons.prems(1) ys(1) by (auto split: if_splits)
    ultimately show ?thesis using Cons.IH ys(3) Cons.prems(5-7) by blast
  qed
qed simp

lemma reg_values_fields:
  assumes ok: "bit_map_ok rb" "fields_ok rb bits" and mem: "(b, v) \<in> set (field_values rb bits)" "bi_reg b \<noteq> INVALID_REG"
  shows "hw_bit (rm_values (get_wp_bits_reg_values rb bits)) b = v"
    and "bit (rm_write (get_wp_bits_reg_values rb bits) (bi_reg b)) (bi_index b) \<longleftrightarrow> bi_writability b = RW"
proof -
  let ?xs = "field_values rb bits"
  have infos: "map fst ?xs = wp_infos rb" using ok by (intro field_infos) (auto simp: fields_ok_def)
  have idx: "bi_index b' < 8" if "(b', v') \<in> set ?xs" for b' v'
  proof -
    have "b' \<in> set (wp_infos rb)" unfolding infos [symmetric] using that by force
    then show ?thesis using ok(1) by (simp add: bit_map_ok_def)
  qed
  have xs: "\<forall>(b, v) \<in> set ?xs. bi_index b < 8 \<and> v \<le> 1" using idx ok(2) by (fastforce simp: fields_ok_def)
  have dist: "\<forall>(b, v) \<in> set ?xs. \<forall>(b', v') \<in> set ?xs. bi_reg b = bi_reg b' \<and> bi_reg b \<noteq> INVALID_REG \<and>
      bi_index b = bi_index b' \<longrightarrow> (b, v) = (b', v')"
  proof -
    have "distinct (map (\<lambda>b. (bi_reg b, bi_index b)) (filter (\<lambda>b. bi_reg b \<noteq> INVALID_REG) (wp_infos rb)))"
      using ok(1) by (simp add: bit_map_ok_def)
    from distinct_filter_map [OF this infos] show ?thesis unfolding case_prod_unfold prod.collapse by fastforce
  qed
  show "hw_bit (rm_values (get_wp_bits_reg_values rb bits)) b = v"
    "bit (rm_write (get_wp_bits_reg_values rb bits) (bi_reg b)) (bi_index b) \<longleftrightarrow> bi_writability b = RW"
    unfolding reg_values_fold by (rule reg_masks_fields [OF xs dist mem])+
qed

text \<open>Which bits the masks have at all.\<close>

lemma reg_masks_domain:
  assumes ok: "bit_map_ok rb" "bp_bit_count bits = bp_count rb" and i: "i < 8"
  shows "bit (rm_bits (get_wp_bits_reg_values rb bits) r) i \<longleftrightarrow>
      (\<exists>b \<in> set (wp_infos rb). bi_reg b = r \<and> r \<noteq> INVALID_REG \<and> bi_index b = i)"
    and "bit (rm_write (get_wp_bits_reg_values rb bits) r) i \<longleftrightarrow>
      (\<exists>b \<in> set (wp_infos rb). bi_reg b = r \<and> r \<noteq> INVALID_REG \<and> bi_index b = i \<and> bi_writability b = RW)"
  unfolding reg_values_fold set_reg_bits_bit(2,3) [OF i] field_infos [OF ok, symmetric] by (auto simp: case_prod_unfold)

lemma word8_eqI: "(\<And>i. i < 8 \<Longrightarrow> bit (a :: u8) i = bit b i) \<Longrightarrow> a = b"
  by (rule bit_word_eqI) simp

locale wp_writer = wp_registers e dev_ok regs
  for e :: "'s wp_env" and dev_ok :: "'s \<Rightarrow> bool" and regs :: "'s \<Rightarrow> flash_reg \<Rightarrow> u8" +
  fixes unlocked :: "(flash_reg \<Rightarrow> u8) \<Rightarrow> bool"
  assumes write_law: "dev_ok s \<Longrightarrow> unlocked (regs s) \<Longrightarrow> b \<in> set (wp_infos (we_reg_bits e)) \<Longrightarrow>
      bi_reg b \<noteq> INVALID_REG \<Longrightarrow>
      \<exists>s'. wp_write_register e (bi_reg b) v s = (0, s') \<and> dev_ok s' \<and>
        (\<forall>b' \<in> set (wp_infos (we_reg_bits e)). bi_reg b' \<noteq> INVALID_REG \<longrightarrow>
          hw_bit (regs s') b' = hw_bit ((regs s)(bi_reg b := v)) b')"
    and lock_law: "hw_bit R (rb_srp (we_reg_bits e)) = hw_bit R' (rb_srp (we_reg_bits e)) \<Longrightarrow>
      hw_bit R (rb_srl (we_reg_bits e)) = hw_bit R' (rb_srl (we_reg_bits e)) \<Longrightarrow> unlocked R = unlocked R'"
    and srl_clear: "dev_ok s \<Longrightarrow> unlocked (regs s) \<Longrightarrow> hw_bit (regs s) (rb_srl (we_reg_bits e)) = 0"
    and srp_rw: "bi_reg (rb_srp (we_reg_bits e)) \<noteq> INVALID_REG \<Longrightarrow> bi_writability (rb_srp (we_reg_bits e)) = RW"
begin

text \<open>The described bits of register \<open>r\<close> have the values of \<open>bits\<close>.\<close>

definition holds :: "wp_bits \<Rightarrow> flash_reg \<Rightarrow> 's \<Rightarrow> bool" where
  "holds bits r s \<longleftrightarrow> (\<forall>(b, v) \<in> set (field_values rb bits). bi_reg b = r \<and> r \<noteq> INVALID_REG \<longrightarrow> hw_bit (regs s) b = v)"

definition ro_holds :: "wp_bits \<Rightarrow> 's \<Rightarrow> bool" where
  "ro_holds bits s \<longleftrightarrow> (\<forall>(b, v) \<in> set (field_values rb bits). bi_reg b \<noteq> INVALID_REG \<and> bi_writability b \<noteq> RW \<longrightarrow>
     hw_bit (regs s) b = v)"

lemma field_info: "fields_ok rb bits \<Longrightarrow> (b, v) \<in> set (field_values rb bits) \<Longrightarrow> b \<in> set (wp_infos rb)"
  using field_infos [OF map_ok, of bits] unfolding fields_ok_def by (metis fst_conv image_eqI list.set_map)

lemma info_field: "fields_ok rb bits \<Longrightarrow> b \<in> set (wp_infos rb) \<Longrightarrow> \<exists>v. (b, v) \<in> set (field_values rb bits)"
  using field_infos [OF map_ok, of bits] unfolding fields_ok_def by (metis (no_types, lifting) imageE list.set_map prod.collapse)

lemma written_value:
  assumes ok: "fields_ok rb bits" and f: "(b, v) \<in> set (field_values rb bits)" "bi_reg b = r" "r \<noteq> INVALID_REG"
    and ro: "bi_writability b \<noteq> RW \<longrightarrow> hw_bit (regs s) b = v"
  defines "m \<equiv> get_wp_bits_reg_values rb bits"
  shows "hw_bit ((regs s)(r := (regs s r AND NOT (rm_write m r)) OR (rm_values m r AND rm_write m r))) b = v"
    and "regs s r AND rm_write m r = rm_values m r AND rm_write m r \<Longrightarrow> hw_bit (regs s) b = v"
proof -
  have b: "bi_reg b \<noteq> INVALID_REG" using f by simp
  note rv = reg_values_fields [OF map_ok ok f(1) b, folded m_def, unfolded f(2)]
  let ?w = "(regs s r AND NOT (rm_write m r)) OR (rm_values m r AND rm_write m r)"
  have i: "bi_index b < 8" using field_info [OF ok f(1)] map_ok by (simp add: bit_map_ok_def)
  have w: "bit ?w (bi_index b) \<longleftrightarrow>
      (if bi_writability b = RW then bit (rm_values m r) (bi_index b) else bit (regs s r) (bi_index b))"
    using rv(2) i by (auto simp: bit_or_iff bit_and_iff bit_not_iff)
  have "hw_bit ((regs s)(r := ?w)) b = (if bi_writability b = RW then hw_bit (rm_values m) b else hw_bit (regs s) b)"
    using w b f(2) by (auto simp: hw_bit_eq_iff)
  with rv(1) ro show "hw_bit ((regs s)(r := ?w)) b = v" by (simp split: if_splits)
  assume "regs s r AND rm_write m r = rm_values m r AND rm_write m r"
  then have "bit (regs s r AND rm_write m r) (bi_index b) = bit (rm_values m r AND rm_write m r) (bi_index b)" by simp
  then have "bi_writability b = RW \<Longrightarrow> hw_bit (regs s) b = hw_bit (rm_values m) b"
    using rv(2) b f(2) by (simp add: hw_bit_eq_iff bit_and_iff)
  with rv(1) ro show "hw_bit (regs s) b = v" by (cases "bi_writability b = RW") auto
qed

text \<open>One register of the first loop of \<^verbatim>\<open>write_wp_bits\<close>.\<close>

lemma write_reg_step:
  assumes ok: "fields_ok rb bits" and s: "dev_ok s" "ro_holds bits s" and go: "unlocked (regs s) \<or> holds bits r s"
    and r: "r \<noteq> INVALID_REG"
  defines "m \<equiv> get_wp_bits_reg_values rb bits"
  shows "\<exists>s1. write_regs e m (r # rs) s = write_regs e m rs s1 \<and> dev_ok s1 \<and>
    (\<forall>(b, v) \<in> set (field_values rb bits). bi_reg b \<noteq> INVALID_REG \<longrightarrow>
       hw_bit (regs s1) b = (if bi_reg b = r then v else hw_bit (regs s) b)) \<and>
    (unlocked (regs s) \<and> (holds bits r s \<or> hw_bit (regs s1) (rb_srp rb) = hw_bit (regs s) (rb_srp rb) \<and>
       hw_bit (regs s1) (rb_srl rb) = hw_bit (regs s) (rb_srl rb)) \<longrightarrow> unlocked (regs s1))"
proof (cases "rm_write m r = 0")
  case True
  have cnt: "bp_bit_count bits = bp_count rb" using ok by (simp add: fields_ok_def)
  have "bi_writability b \<noteq> RW" if "(b, v) \<in> set (field_values rb bits)" "bi_reg b = r" for b v
    using reg_values_fields(2) [OF map_ok ok that(1)] that(2) r True by (simp add: m_def)
  then have "hw_bit (regs s) b = v" if "(b, v) \<in> set (field_values rb bits)" "bi_reg b = r" for b v
    using s(2) that r unfolding ro_holds_def by fastforce
  then show ?thesis using True s(1) by (intro exI [of _ s]) auto
next
  case False
  then obtain i where i: "bit (rm_write m r) i" by (auto simp: bit_eq_iff)
  then have "i < 8" using bit_imp_le_length [of "rm_write m r" i] by simp
  have cnt: "bp_bit_count bits = bp_count rb" using ok by (simp add: fields_ok_def)
  from i obtain b0 where b0: "b0 \<in> set (wp_infos rb)" "bi_reg b0 = r"
    unfolding m_def reg_masks_domain(2) [OF map_ok cnt \<open>i < 8\<close>] by blast
  obtain s1 where rd: "wp_read_register e r s = (0, regs s r, s1)" "dev_ok s1" "regs s1 = regs s"
    using read_law [OF s(1) b0(1)] b0(2) r by auto
  have un1: "unlocked (regs s) \<Longrightarrow> unlocked (regs s1)" using rd(3) by simp
  have ro: "bi_writability b \<noteq> RW \<longrightarrow> hw_bit (regs s) b = v"
    if "(b, v) \<in> set (field_values rb bits)" "bi_reg b = r" for b v
    using s(2) that r unfolding ro_holds_def by fastforce
  note wv = written_value [OF ok _ _ r ro, folded m_def]
  show ?thesis
  proof (cases "regs s r AND rm_write m r = rm_values m r AND rm_write m r")
    case True
    have "write_regs e m (r # rs) s = write_regs e m rs s1" using False rd(1) True by (simp add: Let_def)
    with rd(2,3) un1 wv(2) True show ?thesis by (intro exI [of _ s1]) auto
  next
    case ne: False
    let ?w = "(regs s r AND NOT (rm_write m r)) OR (rm_values m r AND rm_write m r)"
    have "\<not> holds bits r s"
    proof
      assume h: "holds bits r s"
      have "regs s r AND rm_write m r = rm_values m r AND rm_write m r"
      proof (rule word8_eqI)
        fix j :: nat assume j: "j < 8"
        show "bit (regs s r AND rm_write m r) j = bit (rm_values m r AND rm_write m r) j"
        proof (cases "bit (rm_write m r) j")
          case True
          then obtain b where b: "b \<in> set (wp_infos rb)" "bi_reg b = r" "bi_index b = j"
            unfolding m_def reg_masks_domain(2) [OF map_ok cnt j] by blast
          obtain v where f: "(b, v) \<in> set (field_values rb bits)" using info_field [OF ok b(1)] by blast
          have "hw_bit (regs s) b = hw_bit (rm_values m) b"
            using h f b r reg_values_fields(1) [OF map_ok ok f] unfolding holds_def m_def by fastforce
          then show ?thesis using b r hw_bit_eq_iff [of b "regs s" "rm_values m"] by (simp add: bit_and_iff)
        qed (simp add: bit_and_iff)
      qed
      with ne show False by simp
    qed
    with go have "unlocked (regs s)" by simp
    with write_law [OF rd(2) un1 b0(1), of ?w] b0(2) r obtain s2 where
      w: "wp_write_register e r ?w s1 = (0, s2)" "dev_ok s2"
      "\<forall>b' \<in> set (wp_infos rb). bi_reg b' \<noteq> INVALID_REG \<longrightarrow> hw_bit (regs s2) b' = hw_bit ((regs s1)(r := ?w)) b'" by auto
    have keep: "hw_bit (regs s2) (rb_srp rb) = hw_bit (regs s) (rb_srp rb) \<and>
         hw_bit (regs s2) (rb_srl rb) = hw_bit (regs s) (rb_srl rb) \<longrightarrow> unlocked (regs s2)"
      using lock_law [of "regs s2" "regs s"] \<open>unlocked (regs s)\<close> by blast
    have run: "write_regs e m (r # rs) s = write_regs e m rs s2"
      using False rd(1) ne w(1) by (simp add: Let_def)
    have "hw_bit (regs s2) b = (if bi_reg b = r then v else hw_bit (regs s) b)"
      if "(b, v) \<in> set (field_values rb bits)" "bi_reg b \<noteq> INVALID_REG" for b v
    proof -
      have "hw_bit (regs s2) b = hw_bit ((regs s)(r := ?w)) b"
        using w(3) field_info [OF ok that(1)] that(2) rd(3) by simp
      moreover have "hw_bit ((regs s)(r := ?w)) b = hw_bit (regs s) b" if "bi_reg b \<noteq> r" using that by (simp add: hw_bit_def)
      ultimately show ?thesis using wv(1) [OF that(1)] that(1) by (cases "bi_reg b = r") simp_all
    qed
    with run w(2) keep \<open>\<not> holds bits r s\<close> show ?thesis by (intro exI [of _ s2]) auto
  qed
qed

text \<open>The whole loop: if no write can lock the registers, or if only one register is to be written.\<close>

abbreviation valid_reg :: "flash_reg \<Rightarrow> bool" where "valid_reg r \<equiv> r \<noteq> INVALID_REG"

lemma holds_step:
  assumes "\<forall>(b, v) \<in> set (field_values rb bits). bi_reg b \<noteq> INVALID_REG \<longrightarrow>
       hw_bit (regs s1) b = (if bi_reg b = r then v else hw_bit (regs s) b)"
  shows "holds bits r s1" and "holds bits r' s \<Longrightarrow> holds bits r' s1" and "ro_holds bits s \<Longrightarrow> ro_holds bits s1"
  using assms by (fastforce simp: holds_def ro_holds_def)+

lemma holds_same:
  assumes "\<forall>(b, v) \<in> set (field_values rb bits). bi_reg b \<noteq> INVALID_REG \<longrightarrow>
       hw_bit (regs s1) b = (if bi_reg b = r then v else hw_bit (regs s) b)"
    and "(b, hw_bit (regs s) b) \<in> set (field_values rb bits)"
  shows "hw_bit (regs s1) b = hw_bit (regs s) b"
proof (cases "bi_reg b = INVALID_REG")
  case True
  then show ?thesis by (simp add: hw_bit_def)
next
  case False
  then show ?thesis using assms by fastforce
qed

lemma write_regs_keep:
  assumes ok: "fields_ok rb bits"
  shows "dev_ok s \<Longrightarrow> ro_holds bits s \<Longrightarrow> unlocked (regs s) \<Longrightarrow> \<forall>r \<in> set rs. valid_reg r \<Longrightarrow>
    hw_bit (regs s) (rb_srp rb) = srp bits \<Longrightarrow> hw_bit (regs s) (rb_srl rb) = srl bits \<Longrightarrow>
    \<exists>s'. write_regs e (get_wp_bits_reg_values rb bits) rs s = (FLASHROM_WP_OK, s') \<and> dev_ok s' \<and> unlocked (regs s') \<and>
      (\<forall>r. r \<in> set rs \<or> holds bits r s \<longrightarrow> holds bits r s')"
proof (induction rs arbitrary: s)
  case (Cons r rs)
  have "valid_reg r" using Cons.prems(4) by simp
  from write_reg_step [OF ok Cons.prems(1,2) _ this, of rs] Cons.prems(3) obtain s1 where
    s1: "write_regs e (get_wp_bits_reg_values rb bits) (r # rs) s = write_regs e (get_wp_bits_reg_values rb bits) rs s1"
    "dev_ok s1"
    "\<forall>(b, v) \<in> set (field_values rb bits). bi_reg b \<noteq> INVALID_REG \<longrightarrow>
       hw_bit (regs s1) b = (if bi_reg b = r then v else hw_bit (regs s) b)"
    "hw_bit (regs s1) (rb_srp rb) = hw_bit (regs s) (rb_srp rb) \<and>
       hw_bit (regs s1) (rb_srl rb) = hw_bit (regs s) (rb_srl rb) \<longrightarrow> unlocked (regs s1)" by blast
  have mode: "hw_bit (regs s1) (rb_srp rb) = hw_bit (regs s) (rb_srp rb)" "hw_bit (regs s1) (rb_srl rb) = hw_bit (regs s) (rb_srl rb)"
    by (rule holds_same [OF s1(3)], simp add: Cons.prems(5,6) field_values_def)+
  note st = holds_step [OF s1(3)]
  from Cons.IH [OF s1(2) st(3) [OF Cons.prems(2)]] s1(4) mode Cons.prems(4,5,6) obtain s' where
    "write_regs e (get_wp_bits_reg_values rb bits) rs s1 = (FLASHROM_WP_OK, s')" "dev_ok s'" "unlocked (regs s')"
    "\<forall>r. r \<in> set rs \<or> holds bits r s1 \<longrightarrow> holds bits r s'" by auto
  with s1(1) st(1,2) show ?case by auto
qed simp

lemma write_regs_one:
  assumes ok: "fields_ok rb bits"
  shows "dev_ok s \<Longrightarrow> ro_holds bits s \<Longrightarrow> unlocked (regs s) \<or> holds bits r0 s \<Longrightarrow> \<forall>r. r \<noteq> r0 \<longrightarrow> holds bits r s \<Longrightarrow>
    \<forall>r \<in> set rs. valid_reg r \<Longrightarrow>
    \<exists>s'. write_regs e (get_wp_bits_reg_values rb bits) rs s = (FLASHROM_WP_OK, s') \<and> dev_ok s' \<and>
      (\<forall>r. r \<in> set rs \<or> holds bits r s \<longrightarrow> holds bits r s')"
proof (induction rs arbitrary: s)
  case (Cons r rs)
  have "valid_reg r" using Cons.prems(5) by simp
  moreover have "unlocked (regs s) \<or> holds bits r s" using Cons.prems(3,4) by metis
  ultimately obtain s1 where
    s1: "write_regs e (get_wp_bits_reg_values rb bits) (r # rs) s = write_regs e (get_wp_bits_reg_values rb bits) rs s1"
    "dev_ok s1"
    "\<forall>(b, v) \<in> set (field_values rb bits). bi_reg b \<noteq> INVALID_REG \<longrightarrow>
       hw_bit (regs s1) b = (if bi_reg b = r then v else hw_bit (regs s) b)"
    "unlocked (regs s) \<and> holds bits r s \<longrightarrow> unlocked (regs s1)"
    using write_reg_step [OF ok Cons.prems(1,2), of r rs] by blast
  note st = holds_step [OF s1(3)]
  have "unlocked (regs s1) \<or> holds bits r0 s1"
  proof (cases "r = r0")
    case True
    then show ?thesis using st(1) by simp
  next
    case False
    then show ?thesis using Cons.prems(3,4) s1(4) st(2) by blast
  qed
  with Cons.IH [OF s1(2) st(3) [OF Cons.prems(2)]] st(2) Cons.prems(4,5) obtain s' where
    "write_regs e (get_wp_bits_reg_values rb bits) rs s1 = (FLASHROM_WP_OK, s')" "dev_ok s'"
    "\<forall>r. r \<in> set rs \<or> holds bits r s1 \<longrightarrow> holds bits r s'" by auto
  with s1(1) st(1,2) show ?case by auto
qed simp

text \<open>The second loop: registers that hold the bits pass.\<close>

lemma verify_regs_ok:
  assumes ok: "fields_ok rb bits"
  shows "dev_ok s \<Longrightarrow> \<forall>r \<in> set rs. valid_reg r \<and> holds bits r s \<Longrightarrow>
    \<exists>s'. verify_regs e (get_wp_bits_reg_values rb bits) FLASHROM_WP_OK rs s = (FLASHROM_WP_OK, s') \<and> dev_ok s' \<and>
      regs s' = regs s \<and> (unlocked (regs s) \<longrightarrow> unlocked (regs s'))"
proof (induction rs arbitrary: s)
  case (Cons r rs)
  let ?m = "get_wp_bits_reg_values rb bits"
  have cnt: "bp_bit_count bits = bp_count rb" using ok by (simp add: fields_ok_def)
  show ?case
  proof (cases "rm_bits ?m r = 0")
    case True
    then show ?thesis using Cons by simp
  next
    case False
    then obtain i where i: "bit (rm_bits ?m r) i" by (auto simp: bit_eq_iff)
    then have "i < 8" using bit_imp_le_length [of "rm_bits ?m r" i] by simp
    from i obtain b0 where b0: "b0 \<in> set (wp_infos rb)" "bi_reg b0 = r"
      unfolding reg_masks_domain(1) [OF map_ok cnt \<open>i < 8\<close>] by blast
    have r: "valid_reg r" "holds bits r s" using Cons.prems(2) by auto
    obtain s1 where rd: "wp_read_register e r s = (0, regs s r, s1)" "dev_ok s1" "regs s1 = regs s"
      using read_law [OF Cons.prems(1) b0(1)] b0(2) r by auto
    have un: "unlocked (regs s) \<longrightarrow> unlocked (regs s1)" using rd(3) by simp
    have eq: "regs s r AND rm_bits ?m r = rm_values ?m r AND rm_bits ?m r"
    proof (rule word8_eqI)
      fix j :: nat assume j: "j < 8"
      show "bit (regs s r AND rm_bits ?m r) j = bit (rm_values ?m r AND rm_bits ?m r) j"
      proof (cases "bit (rm_bits ?m r) j")
        case True
        then obtain b where b: "b \<in> set (wp_infos rb)" "bi_reg b = r" "bi_index b = j"
          unfolding reg_masks_domain(1) [OF map_ok cnt j] by blast
        obtain v where f: "(b, v) \<in> set (field_values rb bits)" using info_field [OF ok b(1)] by blast
        have "hw_bit (regs s) b = hw_bit (rm_values ?m) b"
          using r f b reg_values_fields(1) [OF map_ok ok f] unfolding holds_def by fastforce
        then show ?thesis using b r hw_bit_eq_iff [of b "regs s" "rm_values ?m"] by (simp add: bit_and_iff)
      qed (simp add: bit_and_iff)
    qed
    have "holds bits r' s1 = holds bits r' s" for r' by (simp add: holds_def rd(3))
    then have "\<forall>r \<in> set rs. valid_reg r \<and> holds bits r s1" using Cons.prems(2) by simp
    from Cons.IH [OF rd(2) this] rd(3) un eq rd(1) False show ?thesis by auto
  qed
qed simp

lemma all_regs_valid: "\<forall>r \<in> set all_regs. valid_reg r" "valid_reg r \<Longrightarrow> r \<in> set all_regs"
  by (auto simp: all_regs_def) (cases r, auto)

lemma write_wp_bits_ok:
  assumes ok: "fields_ok rb bits" and s: "dev_ok s" "ro_holds bits s" "unlocked (regs s)"
    and "hw_bit (regs s) (rb_srp rb) = srp bits \<and> hw_bit (regs s) (rb_srl rb) = srl bits \<or> (\<forall>r. r \<noteq> r0 \<longrightarrow> holds bits r s)"
  shows "\<exists>s'. write_wp_bits e bits s = (FLASHROM_WP_OK, s') \<and> dev_ok s' \<and> (\<forall>r. holds bits r s') \<and>
    (hw_bit (regs s) (rb_srp rb) = srp bits \<and> hw_bit (regs s) (rb_srl rb) = srl bits \<longrightarrow> unlocked (regs s'))"
proof -
  let ?m = "get_wp_bits_reg_values rb bits"
  obtain s1 where s1: "write_regs e ?m all_regs s = (FLASHROM_WP_OK, s1)" "dev_ok s1"
    "\<forall>r. r \<in> set all_regs \<or> holds bits r s \<longrightarrow> holds bits r s1"
    "hw_bit (regs s) (rb_srp rb) = srp bits \<and> hw_bit (regs s) (rb_srl rb) = srl bits \<longrightarrow> unlocked (regs s1)"
    using assms(5) write_regs_keep [OF ok s all_regs_valid(1)] write_regs_one [OF ok s(1,2), of r0 all_regs] s(3) all_regs_valid(1)
    by (cases "hw_bit (regs s) (rb_srp rb) = srp bits \<and> hw_bit (regs s) (rb_srl rb) = srl bits") blast+
  have "holds bits INVALID_REG s1" by (simp add: holds_def)
  then have all: "holds bits r s1" for r using s1(3) all_regs_valid(2) [of r] by blast
  then obtain s2 where s2: "verify_regs e ?m FLASHROM_WP_OK all_regs s1 = (FLASHROM_WP_OK, s2)" "dev_ok s2" "regs s2 = regs s1"
    "unlocked (regs s1) \<longrightarrow> unlocked (regs s2)"
    using verify_regs_ok [OF ok s1(2), of all_regs] all_regs_valid(1) by blast
  have "holds bits r s2" for r using all [of r] by (simp add: holds_def s2(3))
  with s1(1,4) s2 show ?thesis by (simp add: write_wp_bits_def)
qed

text \<open>The fields of a setting of the range bits.\<close>

abbreviation cur_bits :: "'s \<Rightarrow> wp_bits" where "cur_bits s \<equiv> hw_bits rb (we_junk e) (regs s)"

lemma ptr_mem:
  "TB_PTR \<in> set (range_bit_ptrs rb) \<longleftrightarrow> can_write_bit (rb_tb rb)" "SEC_PTR \<in> set (range_bit_ptrs rb) \<longleftrightarrow> can_write_bit (rb_sec rb)"
  "CMP_PTR \<in> set (range_bit_ptrs rb) \<longleftrightarrow> can_write_bit (rb_cmp rb)"
  "BP_PTR i \<in> set (range_bit_ptrs rb) \<longleftrightarrow> i < MAX_BP_BITS \<and> can_write_bit (rb_bp rb ! i)"
  by (auto simp: range_bit_ptrs_def)

lemma variant_values:
  assumes "variant rb (cur_bits s) b1"
  shows "if can_write_bit (rb_tb rb) then tb b1 \<le> 1 else tb b1 = hw_bit (regs s) (rb_tb rb)"
    and "if can_write_bit (rb_sec rb) then sec b1 \<le> 1 else sec b1 = hw_bit (regs s) (rb_sec rb)"
    and "if can_write_bit (rb_cmp rb) then cmp b1 \<le> 1 else cmp b1 = hw_bit (regs s) (rb_cmp rb)"
    and "i < MAX_BP_BITS \<Longrightarrow> if can_write_bit (rb_bp rb ! i) then bp b1 ! i \<le> 1 else bp b1 ! i = bp (cur_bits s) ! i"
    and "srp b1 = hw_bit (regs s) (rb_srp rb)" and "srl b1 = hw_bit (regs s) (rb_srl rb)"
    and "bp_bit_count b1 = bp_count rb" and "length (bp b1) = MAX_BP_BITS"
    and "srp_bit_present b1 = (bi_reg (rb_srp rb) \<noteq> INVALID_REG)"
proof -
  have fr: "bits_frame b1 = bits_frame (cur_bits s)" using assms by (simp add: variant_def)
  show "srp b1 = hw_bit (regs s) (rb_srp rb)" "srl b1 = hw_bit (regs s) (rb_srl rb)" "bp_bit_count b1 = bp_count rb"
    "length (bp b1) = MAX_BP_BITS" "srp_bit_present b1 = (bi_reg (rb_srp rb) \<noteq> INVALID_REG)"
    using arg_cong [OF fr, of srp] arg_cong [OF fr, of srl] arg_cong [OF fr, of bp_bit_count]
      arg_cong [OF fr, of "\<lambda>x. length (bp x)"] arg_cong [OF fr, of srp_bit_present]
    by (simp_all add: bits_frame_def hw_bits_def)
  have v: "ptr_ok p (cur_bits s) \<Longrightarrow> if p \<in> set (range_bit_ptrs rb) then load_bit p b1 \<le> 1
      else load_bit p b1 = load_bit p (cur_bits s)" for p using assms by (simp add: variant_def)
  show "if can_write_bit (rb_tb rb) then tb b1 \<le> 1 else tb b1 = hw_bit (regs s) (rb_tb rb)"
    using v [of TB_PTR] by (simp add: ptr_mem hw_bits_def split: if_splits)
  show "if can_write_bit (rb_sec rb) then sec b1 \<le> 1 else sec b1 = hw_bit (regs s) (rb_sec rb)"
    using v [of SEC_PTR] by (simp add: ptr_mem hw_bits_def split: if_splits)
  show "if can_write_bit (rb_cmp rb) then cmp b1 \<le> 1 else cmp b1 = hw_bit (regs s) (rb_cmp rb)"
    using v [of CMP_PTR] by (simp add: ptr_mem hw_bits_def split: if_splits)
  show "i < MAX_BP_BITS \<Longrightarrow> if can_write_bit (rb_bp rb ! i) then bp b1 ! i \<le> 1 else bp b1 ! i = bp (cur_bits s) ! i"
    using v [of "BP_PTR i"] by (simp add: ptr_mem hw_bits_def split: if_splits)
qed

lemma variant_fields:
  assumes v: "variant rb (cur_bits s) b1" and f: "(b, x) \<in> set (field_values rb b1)"
  shows "x \<le> 1 \<and> ((b, x) = (rb_wps rb, 0) \<or> can_write_bit b \<or> x = hw_bit (regs s) b)"
proof -
  note vv = variant_values [OF v]
  from f consider (bits) i where "i < bp_count rb" "b = rb_bp rb ! i" "x = bp b1 ! i"
    | (tb) "(b, x) = (rb_tb rb, tb b1)" | (sec) "(b, x) = (rb_sec rb, sec b1)" | (cmp) "(b, x) = (rb_cmp rb, cmp b1)"
    | (srp) "(b, x) = (rb_srp rb, srp b1)" | (srl) "(b, x) = (rb_srl rb, srl b1)" | (wps) "(b, x) = (rb_wps rb, 0)"
    unfolding field_values_def vv(7) by auto
  then show ?thesis
  proof cases
    case bits
    moreover have "bp_count rb \<le> MAX_BP_BITS" using bp_count_props(1) [of rb] map_ok by (simp add: bit_map_ok_def)
    ultimately show ?thesis using vv(4) [of i] by (auto simp: hw_bits_def split: if_splits)
  next
    case tb
    then show ?thesis using vv(1) by (auto split: if_splits)
  next
    case sec
    then show ?thesis using vv(2) by (auto split: if_splits)
  next
    case cmp
    then show ?thesis using vv(3) by (auto split: if_splits)
  next
    case srp
    then show ?thesis using vv(5) by auto
  next
    case srl
    then show ?thesis using vv(6) by auto
  next
    case wps
    then show ?thesis by simp
  qed
qed

lemma variant_writable:
  assumes s: "dev_ok s" and v: "variant rb (cur_bits s) b1"
  shows "fields_ok rb b1" and "ro_holds b1 s"
proof -
  show "fields_ok rb b1" using variant_values(7) [OF v] variant_fields [OF v] by (fastforce simp: fields_ok_def)
  have "hw_bit (regs s) b = x" if "(b, x) \<in> set (field_values rb b1)" "bi_reg b \<noteq> INVALID_REG" "bi_writability b \<noteq> RW" for b x
    using variant_fields [OF v that(1)] wps_law [OF s] that by (auto simp: can_write_bit_def)
  then show "ro_holds b1 s" by (auto simp: ro_holds_def)
qed

text \<open>Registers that hold such a setting show exactly it.\<close>

lemma holds_cur_bits:
  assumes v: "variant rb (cur_bits s) b1" and h: "\<And>r. holds b1' r s'"
    and b1': "b1' = b1\<lparr>srp := p, srl := q\<rparr>" "bi_reg (rb_srp rb) = INVALID_REG \<Longrightarrow> p = 0" "bi_reg (rb_srl rb) = INVALID_REG \<Longrightarrow> q = 0"
  shows "cur_bits s' = b1'"
proof -
  note vv = variant_values [OF v]
  have fr: "bits_frame b1 = bits_frame (cur_bits s)" using v by (simp add: variant_def)
  have val: "hw_bit (regs s') b = x" if "(b, x) \<in> set (field_values rb b1')" "bi_reg b = INVALID_REG \<Longrightarrow> x = 0" for b x
    using h [of "bi_reg b"] that by (cases "bi_reg b = INVALID_REG") (fastforce simp: holds_def hw_bit_def)+
  have inv: "bi_reg b = INVALID_REG \<Longrightarrow> \<not> can_write_bit b" for b by (simp add: can_write_bit_def)
  have hi: "bi_reg b = INVALID_REG \<Longrightarrow> hw_bit R b = 0" for b R by (simp add: hw_bit_def)
  have bp: "bp (cur_bits s') = bp b1"
  proof (rule nth_equalityI)
    show len: "length (bp (cur_bits s')) = length (bp b1)" using vv(8) by (simp add: hw_bits_def)
    fix i assume i: "i < length (bp (cur_bits s'))"
    then have i4: "i < MAX_BP_BITS" by (simp add: hw_bits_def)
    show "bp (cur_bits s') ! i = bp b1 ! i"
    proof (cases "i < bp_count rb")
      case True
      then have "(rb_bp rb ! i, bp b1 ! i) \<in> set (field_values rb b1')" using vv(7) b1'(1) by (auto simp: field_values_def)
      moreover have "bi_reg (rb_bp rb ! i) \<noteq> INVALID_REG"
        using bp_count_props(2) [of rb i] map_ok True by (simp add: bit_map_ok_def)
      ultimately have "hw_bit (regs s') (rb_bp rb ! i) = bp b1 ! i" using val by blast
      then show ?thesis using True i4 by (simp add: hw_bits_def)
    next
      case False
      then have "bi_reg (rb_bp rb ! i) = INVALID_REG" using map_ok i4 by (auto simp: bit_map_ok_def)
      then have "bp b1 ! i = bp (cur_bits s) ! i" using vv(4) [OF i4] inv by simp
      then show ?thesis using False i4 by (simp add: hw_bits_def)
    qed
  qed
  have f: "hw_bit (regs s') (rb_tb rb) = tb b1" "hw_bit (regs s') (rb_sec rb) = sec b1" "hw_bit (regs s') (rb_cmp rb) = cmp b1"
    "hw_bit (regs s') (rb_srp rb) = p" "hw_bit (regs s') (rb_srl rb) = q"
    using vv(1-3) inv hi b1' by (auto simp: field_values_def intro!: val)
  have "cur_bits s' = (cur_bits s)\<lparr>srp := p, srl := q, tb := tb b1, sec := sec b1, cmp := cmp b1, bp := bp b1\<rparr>"
    using bp f by (simp add: hw_bits_def)
  also have "\<dots> = b1'"
  proof -
    have "(bits_frame b1)\<lparr>srp := p, srl := q, tb := tb b1, sec := sec b1, cmp := cmp b1, bp := bp b1\<rparr> = b1'"
      by (simp add: bits_frame_def b1'(1))
    moreover have "(bits_frame (cur_bits s))\<lparr>srp := p, srl := q, tb := tb b1, sec := sec b1, cmp := cmp b1, bp := bp b1\<rparr> =
        (cur_bits s)\<lparr>srp := p, srl := q, tb := tb b1, sec := sec b1, cmp := cmp b1, bp := bp b1\<rparr>" by (simp add: bits_frame_def)
    ultimately show ?thesis using fr by metis
  qed
  finally show ?thesis .
qed

lemma selects_mode: "selects e (b\<lparr>srp := p, srl := q\<rparr>) r = selects e b r"
proof -
  let ?b = "b\<lparr>srp := p, srl := q\<rparr>"
  have same: "coeff_len ?b = coeff_len b" "bp_number ?b = bp_number b" "cmp ?b = cmp b" "tb ?b = tb b"
    "cmp_bit_present ?b = cmp_bit_present b" "tb_bit_present ?b = tb_bit_present b"
    by (auto simp: coeff_len_def bp_number_def fun_eq_iff)
  have "decode_range_generic ?b = decode_range_generic b"
    by (intro ext) (simp only: decode_range_generic_def same)
  then show ?thesis
    by (simp add: selects_def get_wp_range_def lookup_decode_range_func_ptr_def decode_range_defs split: decode_range_func.split)
qed

text \<open>\<^verbatim>\<open>wp_write_cfg\<close> with an available range and a supported mode.\<close>

lemma wp_write_cfg_ok:
  assumes s: "dev_ok s" "unlocked (regs s)" and avail: "variant rb (cur_bits s) b" "selects e b (cfg_range cfg)"
    and mode: "cfg_mode cfg = FLASHROM_WP_MODE_DISABLED \<or>
      cfg_mode cfg = FLASHROM_WP_MODE_HARDWARE \<and> bi_reg (rb_srp rb) \<noteq> INVALID_REG"
  shows "\<exists>s'. wp_write_cfg e cfg s = Some (FLASHROM_WP_OK, s') \<and> dev_ok s' \<and> selects e (cur_bits s') (cfg_range cfg) \<and>
    get_wp_mode (cur_bits s') = Some (cfg_mode cfg)"
proof -
  obtain s1 where rd: "read_wp_bits e (we_junk e) s = (FLASHROM_WP_OK, cur_bits s, s1)" "dev_ok s1" "regs s1 = regs s"
    using read_wp_bits_ok [OF s(1)] by blast
  have un1: "unlocked (regs s1)" using s(2) rd(3) by simp
  obtain b1 where b1: "set_wp_range e (cur_bits s) (cfg_range cfg) = Some (FLASHROM_WP_OK, b1)"
    "variant rb (cur_bits s) b1" "selects e b1 (cfg_range cfg)"
    using set_wp_range_ok [OF chip hw_bits_ok [OF map_ok] calloc_ok, of "we_junk e" "regs s" "cfg_range cfg"] avail
    by (auto split: if_splits)
  have v1: "variant rb (cur_bits s1) b1" using b1(2) rd(3) by simp
  note vv = variant_values [OF v1]
  obtain s2 where w1: "write_wp_bits e b1 s1 = (FLASHROM_WP_OK, s2)" "dev_ok s2" "\<forall>r. holds b1 r s2" "unlocked (regs s2)"
    using write_wp_bits_ok [OF variant_writable(1) [OF rd(2) v1] rd(2) variant_writable(2) [OF rd(2) v1] un1] vv(5,6) by auto
  have inv: "bi_reg (rb_srp rb) = INVALID_REG \<Longrightarrow> srp b1 = 0" "bi_reg (rb_srl rb) = INVALID_REG \<Longrightarrow> srl b1 = 0"
    using vv(5,6) by (simp_all add: hw_bit_def)
  have c2: "cur_bits s2 = b1"
    using holds_cur_bits [OF v1, where b1' = b1 and s' = s2 and p = "srp b1" and q = "srl b1"] w1(3) inv by simp
  define p :: u8 where "p = (if cfg_mode cfg = FLASHROM_WP_MODE_DISABLED then 0 else 1)"
  define b2 where "b2 = b1\<lparr>srp := p, srl := 0\<rparr>"
  have sm: "set_wp_mode b1 (cfg_mode cfg) = (FLASHROM_WP_OK, b2)"
    using mode vv(9) by (auto simp: set_wp_mode_def b2_def p_def)
  have p: "p \<le> 1" "bi_reg (rb_srp rb) = INVALID_REG \<Longrightarrow> p = 0" using mode by (auto simp: p_def)
  have srl0: "srl b1 = 0" using srl_clear [OF rd(2) un1] vv(6) by simp
  have fv: "(b, x) \<in> set (field_values rb b2) \<Longrightarrow> (b, x) \<in> set (field_values rb b1) \<or> (b, x) = (rb_srp rb, p)" for b x
    using srl0 by (auto simp: field_values_def b2_def)
  have ok2: "fields_ok rb b2"
    using variant_writable(1) [OF rd(2) v1] fv p(1) by (fastforce simp: fields_ok_def b2_def)
  have h1: "hw_bit (regs s2) b = x" if "(b, x) \<in> set (field_values rb b1)" "bi_reg b \<noteq> INVALID_REG" for b x
    using w1(3) that by (fastforce simp: holds_def)
  have "ro_holds b2 s2" unfolding ro_holds_def using fv h1 srp_rw by fastforce
  moreover have "holds b2 r s2" if "r \<noteq> bi_reg (rb_srp rb)" for r
    unfolding holds_def using fv h1 that by fastforce
  ultimately obtain s3 where w2: "write_wp_bits e b2 s2 = (FLASHROM_WP_OK, s3)" "dev_ok s3" "\<forall>r. holds b2 r s3"
    using write_wp_bits_ok [OF ok2 w1(2) _ w1(4), of "bi_reg (rb_srp rb)"] by blast
  have c3: "cur_bits s3 = b2" using holds_cur_bits [OF v1, where b1' = b2 and s' = s3 and p = p and q = 0] w2(3) b2_def p(2) by simp
  have "wp_write_cfg e cfg s = Some (FLASHROM_WP_OK, s3)"
    using chip rd(1) b1(1) w1(1) sm w2(1) by (simp add: wp_write_cfg_def chip_supported_def wp_chip_ok_def)
  moreover have "selects e (cur_bits s3) (cfg_range cfg)" using b1(3) by (simp add: c3 b2_def selects_mode)
  moreover have "get_wp_mode (cur_bits s3) = Some (cfg_mode cfg)"
    using mode by (auto simp: c3 b2_def get_wp_mode_def p_def)
  ultimately show ?thesis using w2(2) by blast
qed

end

end
