(* ===== verification/W25q.thy ===== *)
theory W25q
  imports DummySpi SpiOk WpDevice
begin

text \<open>
  The emulated Winbond W25Q128FV as flashrom sees it: the chip entry \<^verbatim>\<open>W25Q128.V\<close> of
  \<^verbatim>\<open>flashchips/winbond.c\<close>, the SPI drivers on the dummy programmer, and its write-protect registers. The
  interfaces \<open>spi_chip\<close>, \<open>wp_registers\<close>, \<open>wp_writer\<close> and \<open>image_device\<close> hold for it.
\<close>

section \<open>The chip\<close>

definition uniform_eraser :: "nat \<Rightarrow> nat \<Rightarrow> block_erase_func \<Rightarrow> block_eraser" where
  "uniform_eraser sz count f =
     \<lparr>be_blocks = \<lparr>eb_size = sz, eb_count = count\<rparr> # replicate (NUM_ERASEREGIONS - 1) \<lparr>eb_size = 0, eb_count = 0\<rparr>, be_erase = f\<rparr>"

definition w25q128_chip :: flashchip where
  "w25q128_chip =
     \<lparr>ch_vendor = Some ''Winbond'', ch_name = Some ''W25Q128.V'', ch_bustype = BUS_SPI,
      ch_manufacture_id = 0xEF, ch_model_id = 0x4018, ch_total_size = 16384, ch_page_size = 256,
      ch_feature_bits = FEATURE_WRSR_WREN OR FEATURE_OTP OR FEATURE_WRSR_EXT2 OR FEATURE_WRSR2 OR FEATURE_WRSR3,
      ch_tested = \<lparr>t_probe = OK, t_read = OK, t_erase = OK, t_write = OK, t_wp = OK\<rparr>,
      ch_spi_cmd_set = SPI25, ch_probe = PROBE_SPI_RDID, ch_probe_timing = TIMING_ZERO,
      ch_erasers =
        [uniform_eraser (4 * 1024) 4096 SPI_BLOCK_ERASE_20, uniform_eraser (32 * 1024) 512 SPI_BLOCK_ERASE_52,
         uniform_eraser (64 * 1024) 256 SPI_BLOCK_ERASE_D8, uniform_eraser (16 * 1024 * 1024) 1 SPI_BLOCK_ERASE_60,
         uniform_eraser (16 * 1024 * 1024) 1 SPI_BLOCK_ERASE_C7, no_eraser, no_eraser, no_eraser],
      ch_write = SPI_CHIP_WRITE256, ch_read = SPI_CHIP_READ, ch_gran = WRITE_GRAN_256BYTES\<rparr>"

section \<open>The emulated chip at rest\<close>

text \<open>The data that \<^verbatim>\<open>init_data\<close> sets for this chip, with no command blocked, an array of the right size,
  and a status register that shows neither a write in progress nor an enabled write.\<close>

definition w25_ok :: "emu_data \<Rightarrow> bool" where
  "w25_ok d \<longleftrightarrow> emu_chip d = EMULATE_WINBOND_W25Q128FV \<and> emu_chip_size d = 16777216 \<and>
     emu_max_byteprogram_size d = 256 \<and> emu_max_aai_size d = 0 \<and> emu_status_len d = 3 \<and>
     emu_jedec_se_size d = 4096 \<and> emu_jedec_be_52_size d = 32768 \<and> emu_jedec_be_d8_size d = 65536 \<and>
     emu_jedec_ce_60_size d = 16777216 \<and> emu_jedec_ce_c7_size d = 16777216 \<and>
     spi_blacklist d = [] \<and> spi_ignorelist d = [] \<and>
     0 < spi_write_256_chunksize d \<and> spi_write_256_chunksize d < 2147483648 \<and>
     length (flashchip_contents d) = 16777216 \<and> length (emu_status d) = 3 \<and> emu_status d ! 0 AND 3 = 0"

definition unprotected :: "emu_data \<Rightarrow> bool" where
  "unprotected d \<longleftrightarrow> wp_start d = 0 \<and> wp_end d = 0"

text \<open>The protected range of the emulator is the one that the status registers select, and the registers can
  be written.\<close>

definition wp_sync :: "emu_data \<Rightarrow> bool" where
  "wp_sync d \<longleftrightarrow> (case decode_range_spi25 (emu_wp_bits d) (emu_chip_size d) of
     Some r \<Rightarrow> wp_start d = u32 (wr_start r) \<and> wp_end d = u32 (wr_start r + wr_len r) | None \<Rightarrow> False)"

definition reg_unlocked :: "emu_data \<Rightarrow> bool" where
  "reg_unlocked d \<longleftrightarrow> \<not> emu_srp1 d \<and> \<not> (emu_srp0 d \<and> hwwp d)"

definition w25_inv :: "bool \<Rightarrow> emu_data \<Rightarrow> bool" where
  "w25_inv hw d \<longleftrightarrow> w25_ok d \<and> wp_sync d \<and> hwwp d = hw \<and> reg_unlocked d"

text \<open>The same with the values of the status registers.\<close>

definition w25_keep :: "bool \<Rightarrow> u8 list \<Rightarrow> emu_data \<Rightarrow> bool" where
  "w25_keep hw S d \<longleftrightarrow> w25_inv hw d \<and> emu_status d = S"

definition w25_writable :: "bool \<Rightarrow> emu_data \<Rightarrow> bool" where
  "w25_writable hw d \<longleftrightarrow> w25_inv hw d \<and> unprotected d"

lemma idle_bits:
  assumes "v AND 3 = (0 :: u8)"
  shows "v AND SPI_SR_WIP = 0" "v AND SPI_SR_WEL = 0" "v AND NOT SPI_SR_WEL = v" "(v OR SPI_SR_WEL) AND NOT SPI_SR_WEL = v"
    "(v OR SPI_SR_WEL) AND SPI_SR_WEL \<noteq> 0"
proof -
  have "bit (v AND 3) 0 = False" "bit (v AND 3) 1 = False" unfolding assms by simp_all
  then have b: "\<not> bit v 0" "\<not> bit v 1" by (simp_all add: bit_and_iff bit_numeral_rec)
  have wel: "bit SPI_SR_WEL k \<longleftrightarrow> k = 1" "bit SPI_SR_WIP k \<longleftrightarrow> k = 0" for k
    using bit_push_bit_iff [of 1 "1 :: u8" k] by (auto simp: SPI_SR_WEL_def SPI_SR_WIP_def bit_1_iff bit_2_iff)
  show "v AND SPI_SR_WIP = 0" "v AND SPI_SR_WEL = 0" "v AND NOT SPI_SR_WEL = v"
    using b by (auto intro!: bit_eqI simp: bit_and_iff bit_not_iff wel)
  show "(v OR SPI_SR_WEL) AND NOT SPI_SR_WEL = v"
    using b by (auto intro!: bit_eqI simp: bit_and_iff bit_not_iff bit_or_iff wel)
  show "(v OR SPI_SR_WEL) AND SPI_SR_WEL \<noteq> 0"
  proof
    assume "(v OR SPI_SR_WEL) AND SPI_SR_WEL = 0"
    then have "bit ((v OR SPI_SR_WEL) AND SPI_SR_WEL) 1 = False" by simp
    then show False by (simp add: bit_and_iff bit_or_iff wel)
  qed
qed

definition plain :: "emu_data \<Rightarrow> bool" where
  "plain d \<longleftrightarrow> emu_chip d \<noteq> EMULATE_NONE \<and> spi_blacklist d = [] \<and> spi_ignorelist d = [] \<and> emu_max_aai_size d = 0"

definition finish :: "u8 \<Rightarrow> int option \<times> bytes \<times> emu_data \<Rightarrow> int \<times> bytes \<times> emu_data" where
  "finish opc = (\<lambda>(ret, r, d).
     case ret of
       Some code \<Rightarrow> (if code \<noteq> 0 then 1 else 0, r, d)
     | None \<Rightarrow> (0, r, if opc \<noteq> JEDEC_WREN \<and> opc \<noteq> JEDEC_EWSR then clear_wel d else d))"

lemma send_plain:
  assumes "plain d"
  shows "dummy_spi_send_command (opc # w) k d = map_option (finish opc) (emu_switch opc (opc # w) (replicate k 0xff) d)"
  using assms
  by (cases "emu_switch opc (opc # w) (replicate k 0xff) d")
    (auto simp: dummy_spi_send_command_def emulate_spi_chip_response_def plain_def Let_def finish_def split: option.splits)

lemma w25_plain: "w25_ok d \<Longrightarrow> plain d"
  by (simp add: w25_ok_def plain_def)

text \<open>The chip after a write enable.\<close>

definition enabled :: "emu_data \<Rightarrow> emu_data" where
  "enabled d = d\<lparr>emu_status := (emu_status d)[0 := emu_status d ! 0 OR SPI_SR_WEL]\<rparr>"

lemma enabled_simps [simp]:
  "emu_chip (enabled d) = emu_chip d" "emu_chip_size (enabled d) = emu_chip_size d"
  "emu_max_byteprogram_size (enabled d) = emu_max_byteprogram_size d" "emu_max_aai_size (enabled d) = emu_max_aai_size d"
  "emu_status_len (enabled d) = emu_status_len d" "emu_jedec_se_size (enabled d) = emu_jedec_se_size d"
  "emu_jedec_be_52_size (enabled d) = emu_jedec_be_52_size d" "emu_jedec_be_d8_size (enabled d) = emu_jedec_be_d8_size d"
  "emu_jedec_ce_60_size (enabled d) = emu_jedec_ce_60_size d" "emu_jedec_ce_c7_size (enabled d) = emu_jedec_ce_c7_size d"
  "spi_blacklist (enabled d) = spi_blacklist d" "spi_ignorelist (enabled d) = spi_ignorelist d"
  "flashchip_contents (enabled d) = flashchip_contents d" "wp_start (enabled d) = wp_start d" "wp_end (enabled d) = wp_end d"
  "hwwp (enabled d) = hwwp d" "length (emu_status (enabled d)) = length (emu_status d)" "plain (enabled d) = plain d"
  by (simp_all add: enabled_def plain_def)

lemma wren_cmd:
  assumes "plain d"
  shows "dummy_spi_send_command [JEDEC_WREN] k d = Some (0, replicate k 0xff, enabled d)"
  by (simp add: send_plain [OF assms] emu_switch_def opcode_defs brk_def finish_def enabled_def)

lemma clear_wel_idle: "w25_ok d \<Longrightarrow> clear_wel d = d"
  by (simp add: clear_wel_def w25_ok_def idle_bits)

lemma rdsr_cmds:
  assumes "w25_ok d"
  shows "dummy_spi_send_command [JEDEC_RDSR] k d = Some (0, replicate k (emu_status d ! 0), d)"
    and "dummy_spi_send_command [JEDEC_RDSR2] k d = Some (0, replicate k (emu_status d ! 1), d)"
    and "dummy_spi_send_command [JEDEC_RDSR3] k d = Some (0, replicate k (emu_status d ! 2), d)"
proof -
  have len: "emu_status_len d = 3" using assms by (simp add: w25_ok_def)
  show "dummy_spi_send_command [JEDEC_RDSR] k d = Some (0, replicate k (emu_status d ! 0), d)"
    "dummy_spi_send_command [JEDEC_RDSR2] k d = Some (0, replicate k (emu_status d ! 1), d)"
    "dummy_spi_send_command [JEDEC_RDSR3] k d = Some (0, replicate k (emu_status d ! 2), d)"
    by (simp_all add: send_plain [OF w25_plain [OF assms]] emu_switch_def opcode_defs brk_def finish_def fill_def
        clear_wel_idle [OF assms] len)
qed

lemma addr24_abytes:
  assumes "a < 16777216"
  shows "addr24 (opc # abytes a @ w) = Some a"
proof -
  have top: "a div 65536 mod 256 = a div 65536" using assms by (intro mod_less) (simp add: div_less_iff_less_mult)
  have "a = a div 256 * 256 + a mod 256" "a div 256 = a div 65536 * 256 + a div 256 mod 256"
    using div_mult2_eq [of a 256 256] by simp_all
  then have "a div 65536 * 65536 + a div 256 mod 256 * 256 + a mod 256 = a" by linarith
  with top show ?thesis by (simp add: addr24_def abytes_def unat_addr_byte)
qed

lemma read_cmd:
  assumes "w25_ok d" and "0 < len" and "a + len \<le> 16777216"
  shows "dummy_spi_send_command (JEDEC_READ # abytes a) len d = Some (0, bslice a len (flashchip_contents d), d)"
proof -
  have "a < 16777216" using assms by simp
  then have "addr24 (0x03 # abytes a) = Some a" using addr24_abytes [of a 3 "[]"] by simp
  moreover have "emu_chip_size d = 16777216" "length (flashchip_contents d) = 16777216"
    using assms(1) by (simp_all add: w25_ok_def)
  ultimately show ?thesis using assms(2,3)
    by (simp add: send_plain [OF w25_plain [OF assms(1)]] emu_switch_def opcode_defs emu_read_def brk_def finish_def Let_def
        clear_wel_idle [OF assms(1)])
qed

text \<open>Programming and erasing, on a chip without write protection.\<close>

definition with_contents :: "bytes \<Rightarrow> emu_data \<Rightarrow> emu_data" where
  "with_contents xs d = d\<lparr>flashchip_contents := xs, emu_modified := True\<rparr>"

lemma with_contents_ok:
  "w25_ok d \<Longrightarrow> length xs = 16777216 \<Longrightarrow> w25_ok (with_contents xs d)"
  "unprotected (with_contents xs d) = unprotected d" "flashchip_contents (with_contents xs d) = xs"
  "wp_sync (with_contents xs d) = wp_sync d" "hwwp (with_contents xs d) = hwwp d"
  "reg_unlocked (with_contents xs d) = reg_unlocked d"
  by (simp_all add: w25_ok_def with_contents_def unprotected_def wp_sync_def emu_wp_bits_def reg_unlocked_def emu_srp0_def
      emu_srp1_def split: option.split)

lemma clear_wel_enabled:
  assumes "w25_ok d"
  shows "clear_wel (with_contents xs (enabled d)) = with_contents xs d"
proof -
  have "emu_status d ! 0 AND 3 = 0" "0 < length (emu_status d)" using assms by (auto simp: w25_ok_def)
  then show ?thesis by (simp add: clear_wel_def with_contents_def enabled_def idle_bits(4))
qed

lemma unprotected_range: "unprotected d \<Longrightarrow> \<not> is_write_protected d a len"
  by (simp add: unprotected_def is_write_protected_def Let_def)

lemma program_cmd:
  assumes ok: "w25_ok d" and u: "unprotected d" and len: "0 < length bs" "length bs \<le> 256" "a + length bs \<le> 16777216"
  shows "dummy_spi_send_command (JEDEC_BYTE_PROGRAM # abytes a @ bs) 0 (enabled d) =
    Some (0, [], with_contents (blit a bs (flashchip_contents d)) d)"
proof -
  have "a < 16777216" using len by linarith
  then have a: "addr24 (0x02 # abytes a @ bs) = Some a" by (rule addr24_abytes)
  have am: "a mod 16777216 = a" using \<open>a < 16777216\<close> by simp
  have dr: "drop 4 (0x02 # abytes a @ bs) = bs" by (simp add: abytes_def)
  have c: "emu_chip_size d = 16777216" "length (flashchip_contents d) = 16777216" "emu_max_byteprogram_size d = 256"
    using ok by (simp_all add: w25_ok_def)
  have np: "\<not> is_write_protected (enabled d) a (length bs)" using u by (intro unprotected_range) (simp add: unprotected_def)
  have "write_flash_data (enabled d) a bs = Some (0, with_contents (blit a bs (flashchip_contents d)) (enabled d))"
    using np len c by (simp add: write_flash_data_def with_contents_def)
  then have "emu_program (addr24 (0x02 # abytes a @ bs)) 4 (0x02 # abytes a @ bs) [] (enabled d) =
      brk [] (with_contents (blit a bs (flashchip_contents d)) (enabled d))"
    using len c by (simp add: emu_program_def a dr am)
  then show ?thesis using ok w25_plain [OF ok]
    by (simp add: send_plain emu_switch_def opcode_defs brk_def finish_def clear_wel_enabled)
qed

lemma align_mask_pow2:
  assumes "2 ^ k dvd a" and "a < 2 ^ 32" and "k < 32"
  shows "align_mask a (2 ^ k) = a"
proof -
  have "(word_of_nat a :: 32 word) AND NOT (word_of_nat (2 ^ k) - 1) = word_of_nat a"
  proof (rule bit_word_eqI)
    fix j assume j: "j < LENGTH(32)"
    have "\<not> bit a j" if "j < k"
    proof -
      obtain q where q: "a = 2 ^ k * q" using assms(1) by (rule dvdE)
      have "(2 :: nat) ^ k = 2 ^ j * (2 * 2 ^ (k - Suc j))" using that by (simp flip: power_Suc power_add)
      then have "a div 2 ^ j = 2 * (2 ^ (k - Suc j) * q)" by (simp add: q mult.assoc)
      then show ?thesis by (simp add: bit_iff_odd)
    qed
    moreover have "bit ((word_of_nat (2 ^ k) :: 32 word) - 1) j \<longleftrightarrow> j < k"
      using j by (simp add: flip: mask_eq_exp_minus_1) (simp add: bit_mask_iff)
    ultimately show "bit ((word_of_nat a :: 32 word) AND NOT (word_of_nat (2 ^ k) - 1)) j = bit (word_of_nat a :: 32 word) j"
      using j by (auto simp: bit_and_iff bit_not_iff bit_of_nat_iff)
  qed
  then show ?thesis using assms(2) by (simp add: align_mask_def unat_of_nat take_bit_nat_eq_self)
qed

lemma erase_data:
  assumes "w25_ok d" and "unprotected d" and "a + sz \<le> 16777216"
  shows "erase_flash_data (enabled d) a sz = Some (0, with_contents (memset_at a 0xff sz (flashchip_contents d)) (enabled d))"
proof -
  have "\<not> is_write_protected (enabled d) a sz" using assms(2) by (intro unprotected_range) (simp add: unprotected_def)
  with assms show ?thesis by (simp add: erase_flash_data_def with_contents_def w25_ok_def)
qed

lemma block_erase_cmd:
  assumes ok: "w25_ok d" and u: "unprotected d" and op: "(op, sz) \<in> {(JEDEC_SE, 4096), (JEDEC_BE_52, 32768), (JEDEC_BE_D8, 65536)}"
    and a: "sz dvd a" "a + sz \<le> 16777216"
  shows "dummy_spi_send_command (op # abytes a) 0 (enabled d) =
    Some (0, [], with_contents (memset_at a 0xff sz (flashchip_contents d)) d)"
proof -
  have "\<exists>k < 32. sz = 2 ^ k"
    using op by (auto intro: exI [of _ 12] exI [of _ 15] exI [of _ 16])
  then obtain k where k: "sz = 2 ^ k" "k < 32" by blast
  have "0 < sz" using k by simp
  with a have "a < 16777216" by linarith
  then have al: "align_mask a sz = a" unfolding k(1) using k a by (intro align_mask_pow2) auto
  have ad: "addr24 (op # abytes a) = Some a" using addr24_abytes [OF \<open>a < 16777216\<close>, of op "[]"] by simp
  have "emu_block_erase sz (op # abytes a) [] (enabled d) =
      brk [] (with_contents (memset_at a 0xff sz (flashchip_contents d)) (enabled d))"
    using \<open>0 < sz\<close> erase_data [OF ok u a(2)] by (simp add: emu_block_erase_def ad al)
  moreover have "emu_switch op (op # abytes a) [] (enabled d) = emu_block_erase sz (op # abytes a) [] (enabled d)"
    using op ok by (auto simp: emu_switch_def opcode_defs w25_ok_def)
  moreover have "op \<noteq> JEDEC_WREN" "op \<noteq> JEDEC_EWSR" using op by (auto simp: opcode_defs)
  ultimately show ?thesis using ok w25_plain [OF ok]
    by (simp add: send_plain brk_def finish_def clear_wel_enabled)
qed

lemma chip_erase_cmd:
  assumes ok: "w25_ok d" and u: "unprotected d" and op: "op \<in> {JEDEC_CE_60, JEDEC_CE_C7}"
  shows "dummy_spi_send_command [op] 0 (enabled d) =
    Some (0, [], with_contents (memset_at 0 0xff 16777216 (flashchip_contents d)) d)"
proof -
  have "emu_chip_erase 16777216 [op] [] (enabled d) =
      brk [] (with_contents (memset_at 0 0xff 16777216 (flashchip_contents d)) (enabled d))"
    using erase_data [OF ok u, of 0 16777216] by (simp add: emu_chip_erase_def)
  moreover have "emu_switch op [op] [] (enabled d) = emu_chip_erase 16777216 [op] [] (enabled d)"
    using op ok by (auto simp: emu_switch_def opcode_defs w25_ok_def)
  moreover have "op \<noteq> JEDEC_WREN" "op \<noteq> JEDEC_EWSR" using op by (auto simp: opcode_defs)
  ultimately show ?thesis using ok w25_plain [OF ok]
    by (simp add: send_plain brk_def finish_def clear_wel_enabled)
qed

definition w25_block_ops :: "(u8 \<times> nat) set" where
  "w25_block_ops = {(JEDEC_SE, 4096), (JEDEC_BE_52, 32768), (JEDEC_BE_D8, 65536)}"

definition w25_chip_ops :: "u8 set" where
  "w25_chip_ops = {JEDEC_CE_60, JEDEC_CE_C7}"

lemma w25_features:
  "\<not> has_feature w25q128_chip (FEATURE_4BA_EAR_C5C8 OR FEATURE_4BA_EAR_1716)"
  "\<not> has_feature w25q128_chip FEATURE_4BA_WRITE" "\<not> has_feature w25q128_chip FEATURE_4BA_READ"
  "has_feature w25q128_chip (FEATURE_WRSR_EXT2 OR FEATURE_WRSR2)" "has_feature w25q128_chip FEATURE_WRSR2"
  "has_feature w25q128_chip FEATURE_WRSR3" "has_feature w25q128_chip FEATURE_WRSR_WREN"
  "\<not> has_feature w25q128_chip FEATURE_SCUR" "\<not> has_feature w25q128_chip FEATURE_CFGR"
  by (simp_all add: has_feature_def w25q128_chip_def FEATURE_4BA_EAR_C5C8_def FEATURE_4BA_EAR_1716_def
      FEATURE_4BA_WRITE_def FEATURE_4BA_READ_def FEATURE_WRSR_WREN_def FEATURE_OTP_def FEATURE_WRSR_EXT2_def
      FEATURE_WRSR2_def FEATURE_WRSR3_def FEATURE_SCUR_def FEATURE_CFGR_def)

interpretation w25r: spi_reader w25q128_chip spi_master_dummyflasher dummy_spi_send_command 16777216 "w25_keep hw S" flashchip_contents
  for hw S
proof
  show "sm_command spi_master_dummyflasher = Some dummy_spi_send_command" "sm_multicommand spi_master_dummyflasher = None"
    "sm_max_data_read spi_master_dummyflasher \<noteq> 0"
    by (simp_all add: spi_master_dummyflasher_def)
  show "16777216 = ch_total_size w25q128_chip * 1024" by (simp add: w25q128_chip_def)
  show "\<not> has_feature w25q128_chip (FEATURE_4BA_EAR_C5C8 OR FEATURE_4BA_EAR_1716)"
    "\<not> has_feature w25q128_chip FEATURE_4BA_WRITE" "\<not> has_feature w25q128_chip FEATURE_4BA_READ" by (rule w25_features)+
next
  fix d assume inv: "w25_keep hw S d"
  then have ok: "w25_ok d" by (simp add: w25_keep_def w25_inv_def)
  then show "length (flashchip_contents d) = 16777216" by (simp add: w25_ok_def)
  have "emu_status d ! 0 AND SPI_SR_WIP = 0" using ok by (intro idle_bits) (simp add: w25_ok_def)
  with ok inv show "(case sm_probe_opcode spi_master_dummyflasher of None \<Rightarrow> True | Some f \<Rightarrow> f JEDEC_RDSR d) \<and>
      (\<exists>v r d'. dummy_spi_send_command [JEDEC_RDSR] 2 d = Some (0, v # r, d') \<and> v AND SPI_SR_WIP = 0 \<and> w25_keep hw S d' \<and>
        flashchip_contents d' = flashchip_contents d)"
    by (simp add: rdsr_cmds spi_master_dummyflasher_def dummy_spi_probe_opcode_def w25_ok_def numeral_2_eq_2)
  show "\<exists>d'. dummy_spi_send_command (JEDEC_READ # abytes a) len d = Some (0, bslice a len (flashchip_contents d), d') \<and>
      w25_keep hw S d' \<and> flashchip_contents d' = flashchip_contents d" if "0 < len" "a + len \<le> 16777216" for a len
    using read_cmd [OF ok that] inv by simp
qed simp

interpretation w25: spi_chip w25q128_chip spi_master_dummyflasher dummy_spi_send_command 16777216 "w25_writable hw"
    flashchip_contents w25_block_ops w25_chip_ops for hw
proof
  fix d assume wr: "w25_writable hw d"
  then have ok: "w25_ok d" "unprotected d" and inv: "w25_inv hw d" by (simp_all add: w25_writable_def w25_inv_def)
  show len: "length (flashchip_contents d) = 16777216" using ok(1) by (simp add: w25_ok_def)
  have "emu_status d ! 0 AND SPI_SR_WIP = 0" using ok(1) by (intro idle_bits) (simp add: w25_ok_def)
  with ok wr show "(case sm_probe_opcode spi_master_dummyflasher of None \<Rightarrow> True | Some f \<Rightarrow> f JEDEC_RDSR d) \<and>
      (\<exists>v r d'. dummy_spi_send_command [JEDEC_RDSR] 2 d = Some (0, v # r, d') \<and> v AND SPI_SR_WIP = 0 \<and> w25_writable hw d' \<and>
        flashchip_contents d' = flashchip_contents d)"
    by (simp add: rdsr_cmds spi_master_dummyflasher_def dummy_spi_probe_opcode_def w25_ok_def numeral_2_eq_2)
  show "\<exists>d'. dummy_spi_send_command (JEDEC_READ # abytes a) len d = Some (0, bslice a len (flashchip_contents d), d') \<and>
      w25_writable hw d' \<and> flashchip_contents d' = flashchip_contents d" if "0 < len" "a + len \<le> 16777216" for a len
    using read_cmd [OF ok(1) that] wr by simp
  have en: "dummy_spi_send_command [JEDEC_WREN] 0 d = Some (0, [], enabled d)"
    using wren_cmd [OF w25_plain [OF ok(1)], of 0] by simp
  have wc: "w25_writable hw (with_contents xs d)" if "length xs = 16777216" for xs
    using with_contents_ok(1) [OF ok(1) that] wr by (simp add: w25_writable_def w25_inv_def with_contents_ok(2-))
  show "\<exists>r1 d1 r2 d2. dummy_spi_send_command [JEDEC_WREN] 0 d = Some (0, r1, d1) \<and>
      dummy_spi_send_command (JEDEC_BYTE_PROGRAM # abytes a @ bs) 0 d1 = Some (0, r2, d2) \<and> w25_writable hw d2 \<and>
      flashchip_contents d2 = blit a bs (flashchip_contents d)"
    if "0 < length bs" "length bs \<le> 256" "a + length bs \<le> 16777216" for a bs
    using program_cmd [OF ok that] en wc [of "blit a bs (flashchip_contents d)"] len by (simp add: with_contents_ok)
  show "\<exists>r1 d1 r2 d2. dummy_spi_send_command [JEDEC_WREN] 0 d = Some (0, r1, d1) \<and>
      dummy_spi_send_command (op # abytes a) 0 d1 = Some (0, r2, d2) \<and> w25_writable hw d2 \<and>
      flashchip_contents d2 = memset_at a 0xff sz (flashchip_contents d)"
    if "(op, sz) \<in> w25_block_ops" "sz dvd a" "a + sz \<le> 16777216" for op sz a
    using block_erase_cmd [OF ok that(1) [unfolded w25_block_ops_def] that(2,3)] en
      wc [of "memset_at a 0xff sz (flashchip_contents d)"] len by (simp add: with_contents_ok)
  show "\<exists>r1 d1 r2 d2. dummy_spi_send_command [JEDEC_WREN] 0 d = Some (0, r1, d1) \<and>
      dummy_spi_send_command [op] 0 d1 = Some (0, r2, d2) \<and> w25_writable hw d2 \<and>
      flashchip_contents d2 = memset_at 0 0xff 16777216 (flashchip_contents d)"
    if "op \<in> w25_chip_ops" for op
    using chip_erase_cmd [OF ok that [unfolded w25_chip_ops_def]] en
      wc [of "memset_at 0 0xff 16777216 (flashchip_contents d)"] len by (simp add: with_contents_ok)
qed (rule w25r.single w25r.no_multi w25r.max_data w25r.size w25r.three_bytes w25r.no_4ba)+

section \<open>Uniform erasers\<close>

lemma eraser_sizes_uniform: "eraser_sizes (uniform_eraser sz count f) = replicate count sz"
  by (simp add: eraser_sizes_def uniform_eraser_def NUM_ERASEREGIONS_def numeral_nat)

lemma ranges_from_replicate: "ranges_from a (replicate k sz) = map (\<lambda>i. (a + i * sz, sz)) [0..<k]"
proof (induction k arbitrary: a)
  case (Suc k)
  have "map (\<lambda>i. (a + i * sz, sz)) [0..<Suc k] = (a, sz) # map (\<lambda>i. (a + sz + i * sz, sz)) [0..<k]"
    by (simp add: upt_conv_Cons map_Suc_upt [symmetric] del: upt_Suc map_Suc_upt)
  with Suc show ?case by simp
qed simp

lemma eraser_blocks_uniform: "eraser_blocks (uniform_eraser sz count f) = map (\<lambda>i. (i * sz, sz)) [0..<count]"
  by (simp add: eraser_blocks_def eraser_sizes_uniform ranges_from_replicate)

lemma bounds_uniform: "set (bounds_of (uniform_eraser sz count f)) = (\<lambda>i. i * sz) ` {..<count}"
  by (auto simp: bounds_of_def eraser_blocks_uniform)

lemma eraser_ok_uniform: "0 < sz \<Longrightarrow> count * sz = n \<Longrightarrow> eraser_ok n (uniform_eraser sz count f)"
  by (auto simp: eraser_ok_def eraser_sizes_uniform sum_list_replicate) (auto simp: uniform_eraser_def)

lemma nested_uniform:
  assumes "count = k * count'" and "sz' = k * sz" and "0 < k"
  shows "set (bounds_of (uniform_eraser sz' count' g)) \<subseteq> set (bounds_of (uniform_eraser sz count f))"
proof
  fix x assume "x \<in> set (bounds_of (uniform_eraser sz' count' g))"
  then obtain i where i: "x = i * sz'" "i < count'" by (auto simp: bounds_uniform)
  have "x = (i * k) * sz" "i * k < count" using i assms by (simp_all add: mult.commute)
  then show "x \<in> set (bounds_of (uniform_eraser sz count f))" by (auto simp: bounds_uniform)
qed

section \<open>The context\<close>

definition w25_drivers :: "emu_data spi_state drivers" where
  "w25_drivers =
     \<lparr>drv_read = (\<lambda>f start len s.
        if f = SPI_CHIP_READ then spi_chip_read (default_spi_read w25q128_chip spi_master_dummyflasher) start len s else None),
      drv_write = (\<lambda>f buf start len s.
        if f = SPI_CHIP_WRITE256 then dummy_spi_write_256 w25q128_chip buf start len s else None),
      drv_erase = (\<lambda>f a len s.
        case spi_block_erase w25q128_chip spi_master_dummyflasher f of Some g \<Rightarrow> g a len s | None \<Rightarrow> None)\<rparr>"

definition spi_dummy_master :: "emu_data \<Rightarrow> master" where
  "spi_dummy_master d0 = \<lparr>m_buses_supported = BUS_SPI, m_opaque_get_region = None, m_spi_get_region = None,
     m_spi_probe_opcode = Some (\<lambda>opc. dummy_spi_probe_opcode opc d0)\<rparr>"

definition w25_ctx :: "emu_data \<Rightarrow> layout option \<Rightarrow> flags \<Rightarrow> int \<Rightarrow> (nat \<Rightarrow> u8) \<Rightarrow> emu_data spi_state flashctx" where
  "w25_ctx d0 lay fl ratio fresh =
     \<lparr>c_chip = w25q128_chip, c_mst = spi_dummy_master d0, c_layout = lay,
      c_default_layout = (case snd (init_default_layout True True w25q128_chip) of Some l \<Rightarrow> l | None \<Rightarrow> []),
      c_flags = fl, c_sacrifice_ratio = ratio, c_drivers = w25_drivers, c_malloc = (\<lambda>m. True), c_fresh = fresh\<rparr>"

definition w25_erasers :: "block_eraser list" where
  "w25_erasers =
     [uniform_eraser 4096 4096 SPI_BLOCK_ERASE_20, uniform_eraser 32768 512 SPI_BLOCK_ERASE_52,
      uniform_eraser 65536 256 SPI_BLOCK_ERASE_D8, uniform_eraser 16777216 1 SPI_BLOCK_ERASE_60,
      uniform_eraser 16777216 1 SPI_BLOCK_ERASE_C7]"

lemma w25_chip_simps:
  "ch_total_size w25q128_chip = 16384" "ch_page_size w25q128_chip = 256" "ch_gran w25q128_chip = WRITE_GRAN_256BYTES"
  "ch_read w25q128_chip = SPI_CHIP_READ" "ch_write w25q128_chip = SPI_CHIP_WRITE256" "ch_bustype w25q128_chip = BUS_SPI"
  "ch_tested w25q128_chip = \<lparr>t_probe = OK, t_read = OK, t_erase = OK, t_write = OK, t_wp = OK\<rparr>"
  by (simp_all add: w25q128_chip_def)

lemma w25_default_layout: "init_default_layout True True w25q128_chip = (0, Some (whole_chip 16777216))"
  by (rule init_default_layout_eq) (simp_all add: w25_chip_simps)

lemma w25_ctx_simps:
  "c_chip (w25_ctx d0 lay fl ratio fresh) = w25q128_chip" "c_mst (w25_ctx d0 lay fl ratio fresh) = spi_dummy_master d0"
  "c_layout (w25_ctx d0 lay fl ratio fresh) = lay" "c_flags (w25_ctx d0 lay fl ratio fresh) = fl"
  "c_drivers (w25_ctx d0 lay fl ratio fresh) = w25_drivers" "c_malloc (w25_ctx d0 lay fl ratio fresh) = (\<lambda>m. True)"
  "c_default_layout (w25_ctx d0 lay fl ratio fresh) = whole_chip 16777216"
  by (simp_all add: w25_ctx_def w25_default_layout)

lemma w25_erased: "ERASED_VALUE (w25_ctx d0 lay fl ratio fresh) = 0xff"
  by (simp add: ERASED_VALUE_def w25_ctx_simps w25q128_chip_def FEATURE_ERASED_ZERO_def FEATURE_WRSR_WREN_def
      FEATURE_OTP_def FEATURE_WRSR_EXT2_def FEATURE_WRSR2_def FEATURE_WRSR3_def)

lemma w25_usable:
  assumes "spi_blacklist d0 = []"
  shows "usable_erasers (w25_ctx d0 lay fl ratio fresh) = w25_erasers"
proof -
  have ch: "ch_erasers w25q128_chip = w25_erasers @ [no_eraser, no_eraser, no_eraser]"
    by (simp add: w25q128_chip_def w25_erasers_def)
  have "check_block_eraser (w25_ctx d0 lay fl ratio fresh) k = (if k < 5 then 0 else 1)" if "k < 8" for k
  proof -
    have "k \<in> {0, 1, 2, 3, 4, 5, 6, 7}" using that by auto
    then show ?thesis
      using assms
      by (elim insertE emptyE) (simp_all add: check_block_eraser_def w25_ctx_simps ch w25_erasers_def uniform_eraser_def
          Let_def spi_dummy_master_def bus_defs spi_get_opcode_from_erasefn_def function_opcode_list_def
          spi_probe_opcode_def dummy_spi_probe_opcode_def no_eraser_def NUM_ERASEREGIONS_def replicate5 split: option.splits)
  qed
  then have "filter (\<lambda>k. check_block_eraser (w25_ctx d0 lay fl ratio fresh) k = 0) [0..<8] = [0, 1, 2, 3, 4]"
    by (simp add: upt8)
  then show ?thesis by (simp add: usable_erasers_def NUM_ERASEFUNCTIONS_def w25_ctx_simps ch w25_erasers_def)
qed

lemma w25_region:
  "get_flash_region (w25_ctx d0 lay fl ratio fresh) a =
    \<lparr>fr_name = [], fr_start = 0, fr_end = 16777215, fr_read_prot = False, fr_write_prot = False\<rparr>"
  by (simp add: get_flash_region_def flashrom_flash_getsize_def w25_ctx_simps spi_dummy_master_def bus_defs w25_chip_simps c_simps)

section \<open>Reading, writing and erasing\<close>

lemma w25_reader:
  assumes read: "\<And>s a len. P s \<Longrightarrow> 0 < len \<Longrightarrow> a + len \<le> 16777216 \<Longrightarrow>
      \<exists>s'. spi_chip_read (default_spi_read w25q128_chip spi_master_dummyflasher) a len s =
        Some (0, bslice a len (dev_img flashchip_contents s), s') \<and> P s' \<and> dev_img flashchip_contents s' = dev_img flashchip_contents s"
    and len: "\<And>s. P s \<Longrightarrow> length (dev_img flashchip_contents s) = 16777216"
  shows "flash_reader (w25_ctx d0 lay fl ratio fresh) 16777216 P (dev_img flashchip_contents)"
  by unfold_locales (use read len in \<open>auto simp: w25_ctx_simps w25_chip_simps w25_region w25_drivers_def\<close>)

lemma w25_full_reader: "full_reader (w25_ctx d0 lay fl ratio fresh) 16777216 (on_dev (w25_keep hw S)) (dev_img flashchip_contents)"
  by (intro full_reader.intro full_reader_axioms.intro w25_reader w25r.chip_read_ok w25r.length_img) (simp_all add: w25_region)

lemma w25_write:
  assumes "on_dev (w25_writable hw) s" and "0 < length buf" and "a + length buf \<le> 16777216"
  shows "\<exists>s'. drv_write w25_drivers SPI_CHIP_WRITE256 buf a (length buf) s = Some (0, s') \<and> on_dev (w25_writable hw) s' \<and>
    dev_img flashchip_contents s' = blit a buf (dev_img flashchip_contents s)"
  using assms w25.write_chunked_ok [of "spi_write_256_chunksize (sp_dev s)" buf a hw s]
  by (simp add: w25_drivers_def dummy_spi_write_256_def w25_chip_simps on_dev_def w25_writable_def w25_inv_def w25_ok_def)

lemma w25_erase:
  assumes e: "e \<in> set w25_erasers" and b: "(a, len) \<in> set (eraser_blocks e)" and ok: "on_dev (w25_writable hw) s"
  shows "\<exists>s'. drv_erase w25_drivers (be_erase e) a len s = Some (0, s') \<and> on_dev (w25_writable hw) s' \<and>
    dev_img flashchip_contents s' = memset_at a 0xff len (dev_img flashchip_contents s)"
proof -
  have fit: "sz dvd a \<and> len = sz \<and> a + sz \<le> 16777216" if u: "e = uniform_eraser sz count f" and n: "count * sz = 16777216" for sz count f
  proof -
    have "\<exists>i < count. a = i * sz \<and> len = sz" using b by (auto simp: u eraser_blocks_uniform)
    then obtain i where i: "a = i * sz" "len = sz" "i < count" by blast
    have "Suc i * sz \<le> count * sz" using i(3) by (intro mult_le_mono1) simp
    with i n show ?thesis by simp
  qed
  consider "e = uniform_eraser 4096 4096 SPI_BLOCK_ERASE_20" | "e = uniform_eraser 32768 512 SPI_BLOCK_ERASE_52"
    | "e = uniform_eraser 65536 256 SPI_BLOCK_ERASE_D8" | "e = uniform_eraser 16777216 1 SPI_BLOCK_ERASE_60"
    | "e = uniform_eraser 16777216 1 SPI_BLOCK_ERASE_C7" using e by (auto simp: w25_erasers_def)
  then show ?thesis
  proof cases
    case 1
    with fit [OF this] w25.block_erase_cmd_ok [OF ok, of JEDEC_SE 4096 a] show ?thesis
      by (simp add: w25_drivers_def spi_block_erase_def uniform_eraser_def w25_block_ops_def)
  next
    case 2
    with fit [OF this] w25.block_erase_cmd_ok [OF ok, of JEDEC_BE_52 32768 a] show ?thesis
      by (simp add: w25_drivers_def spi_block_erase_def uniform_eraser_def w25_block_ops_def)
  next
    case 3
    with fit [OF this] w25.block_erase_cmd_ok [OF ok, of JEDEC_BE_D8 65536 a] show ?thesis
      by (simp add: w25_drivers_def spi_block_erase_def uniform_eraser_def w25_block_ops_def)
  next
    case 4
    with fit [OF this] w25.chip_erase_cmd_ok [OF ok, of JEDEC_CE_60] show ?thesis
      by (simp add: w25_drivers_def spi_block_erase_def uniform_eraser_def w25_chip_ops_def)
  next
    case 5
    with fit [OF this] w25.chip_erase_cmd_ok [OF ok, of JEDEC_CE_C7] show ?thesis
      by (simp add: w25_drivers_def spi_block_erase_def uniform_eraser_def w25_chip_ops_def)
  qed
qed

lemma w25_geometry: "geometry_ok 16777216 w25_erasers"
proof -
  have "nested_erasers w25_erasers"
    unfolding w25_erasers_def
    by (simp only: nested_erasers.simps simp_thms) (intro conjI nested_uniform [where k = 8] nested_uniform [where k = 2]
        nested_uniform [where k = 256] nested_uniform [where k = 1]; simp)
  moreover have "eraser_ok 16777216 e" if "e \<in> set w25_erasers" for e
    using that by (auto simp: w25_erasers_def intro!: eraser_ok_uniform)
  ultimately show ?thesis by (simp add: geometry_ok_def)
qed

lemma w25_erase_device:
  assumes "spi_blacklist d0 = []"
  shows "erase_device (w25_ctx d0 lay fl ratio fresh) 16777216 (on_dev (w25_writable hw)) (dev_img flashchip_contents)"
proof (intro erase_device.intro flash_device.intro w25_reader w25.chip_read_ok w25.length_img
      flash_device_axioms.intro erase_device_axioms.intro)
  let ?c = "w25_ctx d0 lay fl ratio fresh"
  note us = w25_usable [OF assms]
  show "\<exists>s'. drv_write (c_drivers ?c) (ch_write (c_chip ?c)) buf a (length buf) s = Some (0, s') \<and> on_dev (w25_writable hw) s' \<and>
      dev_img flashchip_contents s' = blit a buf (dev_img flashchip_contents s)"
    if "on_dev (w25_writable hw) s" "0 < length buf" "a + length buf \<le> 16777216" for s buf a
    using w25_write [OF that] by (simp add: w25_ctx_simps w25_chip_simps)
  show "\<exists>s'. drv_erase (c_drivers ?c) (be_erase e) a len s = Some (0, s') \<and> on_dev (w25_writable hw) s' \<and>
      dev_img flashchip_contents s' = memset_at a (ERASED_VALUE ?c) len (dev_img flashchip_contents s)"
    if "e \<in> set (usable_erasers ?c)" "(a, len) \<in> set (eraser_blocks e)" "on_dev (w25_writable hw) s" for e a len s
    using w25_erase [OF that(1) [unfolded us] that(2,3)] by (simp add: w25_ctx_simps w25_erased)
  show "be_erase e \<noteq> SPI_BLOCK_ERASE_40" if "e \<in> set (usable_erasers ?c)" for e
    using that by (auto simp: us w25_erasers_def uniform_eraser_def)
  show "geometry_ok 16777216 (usable_erasers ?c)" by (simp add: us w25_geometry)
  show "gran_stride (ch_gran (c_chip ?c)) dvd sz" if "sz \<in> set (eraser_sizes (usable_erasers ?c ! 0))" for sz
    using that by (simp add: us w25_erasers_def eraser_sizes_uniform w25_ctx_simps w25_chip_simps)
qed (simp_all add: w25_usable [OF assms] w25_ctx_simps w25_chip_simps w25_region w25_erasers_def)

end
