(* ===== verification/W25Wp.thy ===== *)
theory W25Wp
  imports W25q
begin

text \<open>
  The status registers of the emulated W25Q128FV through \<^verbatim>\<open>spi25_statusreg.c\<close>, and the write-protect
  operations of \<^verbatim>\<open>writeprotect.c\<close> on them: the interfaces \<open>wp_registers\<close> and \<open>wp_writer\<close>. The range that
  flashrom selects is the range that the emulator protects.
\<close>

section \<open>Writing a register\<close>

definition reg_index :: "flash_reg \<Rightarrow> nat" where
  "reg_index r = (case r of STATUS1 \<Rightarrow> 0 | STATUS2 \<Rightarrow> 1 | STATUS3 \<Rightarrow> 2 | _ \<Rightarrow> 3)"

text \<open>The value of the register after \<open>v\<close> was written to it, with the registers unlocked.\<close>

definition new_value :: "flash_reg \<Rightarrow> u8 \<Rightarrow> emu_data \<Rightarrow> u8" where
  "new_value r v d =
     (let ro = get_reg_ro_bit_mask d r
      in if r = STATUS1 then v AND NOT (SPI_SR_WIP OR SPI_SR_WEL) else (emu_status d ! reg_index r AND ro) OR (v AND NOT ro))"

lemma status_bits: "bit SPI_SR_WIP k \<longleftrightarrow> k = 0" "bit SPI_SR_WEL k \<longleftrightarrow> k = 1"
  by (auto simp: SPI_SR_WIP_def SPI_SR_WEL_def bit_1_iff bit_2_iff)

lemma and_one_le: "(x AND 1 :: u8) \<le> 1"
  by (simp add: and_one_eq odd_iff_mod_2_eq_one word_le_nat_alt unat_mod)

lemma emu_bits_ok: "wp_bits_ok (emu_wp_bits d)"
  by (auto simp: wp_bits_ok_def emu_wp_bits_def Let_def MAX_BP_BITS_def less_Suc_eq numeral_nat and_one_le)

lemma decode_ok:
  "\<exists>r. decode_range_spi25 (emu_wp_bits d) 16777216 = Some r \<and> wr_start r + wr_len r \<le> 16777216"
  using decode_range_generic_ok [OF emu_bits_ok, where off = 1 and chip_len = 16777216 and fx = False and neg = False]
  unfolding decode_range_spi25_def by fastforce

text \<open>The chip with other register values, and the protected range they select.\<close>

definition with_status :: "u8 list \<Rightarrow> emu_data \<Rightarrow> emu_data" where
  "with_status S d =
     (case update_write_protection (d\<lparr>emu_status := S\<rparr>) of Some d' \<Rightarrow> d' | None \<Rightarrow> d)"

lemma emu_wp_bits_cong:
  assumes "\<And>k. 2 \<le> k \<Longrightarrow> bit (emu_status d ! 0) k = bit (emu_status d' ! 0) k" and "emu_status d ! 1 = emu_status d' ! 1"
  shows "emu_wp_bits d = emu_wp_bits d'"
proof -
  have "drop_bit k (emu_status d ! 0) = drop_bit k (emu_status d' ! 0)" if "2 \<le> k" for k
    using assms(1) that by (intro bit_eqI) (simp add: bit_drop_bit_eq)
  then show ?thesis by (simp add: emu_wp_bits_def Let_def assms(2) [unfolded One_nat_def])
qed

lemma update_wp:
  assumes "emu_chip d = EMULATE_WINBOND_W25Q128FV" and "emu_chip_size d = 16777216"
  shows "\<exists>r. decode_range_spi25 (emu_wp_bits d) 16777216 = Some r \<and> wr_start r + wr_len r \<le> 16777216 \<and>
    update_write_protection d = Some (d\<lparr>wp_start := wr_start r, wp_end := wr_start r + wr_len r\<rparr>)"
  using decode_ok [of d] assms by (auto simp: update_write_protection_def wp_register_chip_def c_simps)

lemma with_status_props:
  assumes ok: "w25_ok d" and S: "length S = 3" "S ! 0 AND 3 = 0"
  shows "w25_ok (with_status S d)" "wp_sync (with_status S d)" "emu_status (with_status S d) = S"
    "hwwp (with_status S d) = hwwp d" "flashchip_contents (with_status S d) = flashchip_contents d"
proof -
  have c: "emu_chip (d\<lparr>emu_status := S\<rparr>) = EMULATE_WINBOND_W25Q128FV" "emu_chip_size (d\<lparr>emu_status := S\<rparr>) = 16777216"
    using ok by (simp_all add: w25_ok_def)
  obtain r where r: "decode_range_spi25 (emu_wp_bits (d\<lparr>emu_status := S\<rparr>)) 16777216 = Some r" "wr_start r + wr_len r \<le> 16777216"
    "update_write_protection (d\<lparr>emu_status := S\<rparr>) = Some (d\<lparr>emu_status := S, wp_start := wr_start r, wp_end := wr_start r + wr_len r\<rparr>)"
    using update_wp [OF c] by auto
  have eq: "with_status S d = d\<lparr>emu_status := S, wp_start := wr_start r, wp_end := wr_start r + wr_len r\<rparr>"
    by (simp add: with_status_def r(3))
  show "w25_ok (with_status S d)" using ok S by (simp add: eq w25_ok_def)
  show "emu_status (with_status S d) = S" "hwwp (with_status S d) = hwwp d"
    "flashchip_contents (with_status S d) = flashchip_contents d" by (simp_all add: eq)
  have "emu_wp_bits (with_status S d) = emu_wp_bits (d\<lparr>emu_status := S\<rparr>)" by (simp add: eq emu_wp_bits_def)
  then show "wp_sync (with_status S d)"
    using r(1,2) c(2) by (simp add: wp_sync_def eq c_simps)
qed

text \<open>A write enable, a register write that keeps the high bits of the first register or sets them, and the
  end of the command.\<close>

lemma clear_wel_update:
  assumes ok: "w25_ok d" and S: "length S = 3" "length S' = 3" "S' ! 0 = S ! 0 AND NOT SPI_SR_WEL" "S' ! 1 = S ! 1" "S' ! 2 = S ! 2"
  shows "map_option clear_wel (update_write_protection (d\<lparr>emu_status := S\<rparr>)) = Some (with_status S' d)"
proof -
  have c: "emu_chip (d\<lparr>emu_status := T\<rparr>) = EMULATE_WINBOND_W25Q128FV" "emu_chip_size (d\<lparr>emu_status := T\<rparr>) = 16777216" for T
    using ok by (simp_all add: w25_ok_def)
  have bits: "bit (S' ! 0) k = bit (S ! 0) k" if "2 \<le> k" for k
    using that bit_imp_le_length [of "S ! 0" k] by (auto simp: S(3) bit_and_iff bit_not_iff status_bits)
  have same: "emu_wp_bits (d\<lparr>emu_status := S'\<rparr>) = emu_wp_bits (d\<lparr>emu_status := S\<rparr>)"
    by (rule emu_wp_bits_cong) (use bits S in auto)
  obtain r where r: "decode_range_spi25 (emu_wp_bits (d\<lparr>emu_status := S\<rparr>)) 16777216 = Some r" "wr_start r + wr_len r \<le> 16777216"
    "update_write_protection (d\<lparr>emu_status := S\<rparr>) = Some (d\<lparr>emu_status := S, wp_start := wr_start r, wp_end := wr_start r + wr_len r\<rparr>)"
    using update_wp [OF c] by auto
  have r': "update_write_protection (d\<lparr>emu_status := S'\<rparr>) = Some (d\<lparr>emu_status := S', wp_start := wr_start r, wp_end := wr_start r + wr_len r\<rparr>)"
    using update_wp [OF c, of S'] r(1) by (auto simp: same)
  have "S[0 := S ! 0 AND NOT SPI_SR_WEL] = S'"
    using S by (intro nth_equalityI) (auto simp: nth_list_update less_Suc_eq numeral_nat)
  then show ?thesis by (simp add: r(3) with_status_def r' clear_wel_def)
qed

lemma enabled_other: "emu_status (enabled d) ! Suc k = emu_status d ! Suc k"
  by (simp add: enabled_def)

lemma enabled_unlocked:
  assumes "w25_ok d"
  shows "emu_srp0 (enabled d) = emu_srp0 d" "emu_srp1 (enabled d) = emu_srp1 d" "wel_set (enabled d)"
    "get_reg_ro_bit_mask (enabled d) r = get_reg_ro_bit_mask d r"
proof -
  have l: "length (emu_status d) = 3" "emu_status d ! 0 AND 3 = 0" using assms by (simp_all add: w25_ok_def)
  have "drop_bit 7 (emu_status d ! 0 OR SPI_SR_WEL) = drop_bit 7 (emu_status d ! 0)"
    by (rule bit_eqI) (simp add: bit_drop_bit_eq bit_or_iff status_bits)
  then show a: "emu_srp0 (enabled d) = emu_srp0 d" using l by (simp add: emu_srp0_def enabled_def)
  show b: "emu_srp1 (enabled d) = emu_srp1 d" by (simp add: emu_srp1_def enabled_def)
  show "wel_set (enabled d)" using l idle_bits(5) by (simp add: wel_set_def enabled_def)
  show "get_reg_ro_bit_mask (enabled d) r = get_reg_ro_bit_mask d r"
    unfolding get_reg_ro_bit_mask_def Let_def a b enabled_simps by (simp add: enabled_other)
qed

lemma enabled_update: "(enabled d)\<lparr>emu_status := S\<rparr> = d\<lparr>emu_status := S\<rparr>"
  by (simp add: enabled_def)

lemma reg_masks_unlocked:
  assumes "w25_ok d" and "reg_unlocked d"
  shows "get_reg_ro_bit_mask d STATUS1 = SPI_SR_WIP"
    "get_reg_ro_bit_mask d STATUS2 = 0x84 OR (emu_status d ! 1 AND 0x38)" "get_reg_ro_bit_mask d STATUS3 = 0x1b"
  using assms by (auto simp: get_reg_ro_bit_mask_def w25_ok_def reg_unlocked_def Let_def)

lemma list3: "length xs = 3 \<Longrightarrow> xs = [xs ! 0, xs ! 1, xs ! 2]"
  by (rule nth_equalityI) (auto simp: less_Suc_eq numeral_nat)

lemma write_status_cmds:
  assumes ok: "w25_ok d" and un: "reg_unlocked d"
  shows "dummy_spi_send_command [JEDEC_WRSR, v] 0 (enabled d) =
      Some (0, [], with_status ((emu_status d)[0 := new_value STATUS1 v d]) d)"
    and "dummy_spi_send_command [JEDEC_WRSR2, v] 0 (enabled d) =
      Some (0, [], with_status ((emu_status d)[1 := new_value STATUS2 v d]) d)"
proof -
  have len: "length (emu_status d) = 3" "0 < length (emu_status d)" "emu_status_len d = 3" and idle: "emu_status d ! 0 AND 3 = 0"
    using ok by (simp_all add: w25_ok_def)
  note pl = w25_plain [OF ok]
  let ?S = "(emu_status d)[0 := (emu_status d ! 0 OR SPI_SR_WEL) AND SPI_SR_WIP OR v AND NOT SPI_SR_WIP]"
  have p1: "put_reg STATUS1 0 v (enabled d) = d\<lparr>emu_status := ?S\<rparr>"
    using len by (simp add: put_reg_def Let_def enabled_unlocked [OF ok] reg_masks_unlocked [OF ok un] enabled_update)
      (simp add: enabled_def)
  have v1: "(((emu_status d ! 0 OR SPI_SR_WEL) AND SPI_SR_WIP) OR v AND NOT SPI_SR_WIP) AND NOT SPI_SR_WEL =
      v AND NOT (SPI_SR_WIP OR SPI_SR_WEL)"
  proof (rule bit_eqI)
    fix k :: nat
    have "\<not> bit (emu_status d ! 0) 0"
    proof
      assume "bit (emu_status d ! 0) 0"
      then have "bit (emu_status d ! 0 AND 3) 0" by (simp add: bit_and_iff)
      with idle show False by simp
    qed
    then show "bit ((((emu_status d ! 0 OR SPI_SR_WEL) AND SPI_SR_WIP) OR v AND NOT SPI_SR_WIP) AND NOT SPI_SR_WEL) k =
        bit (v AND NOT (SPI_SR_WIP OR SPI_SR_WEL)) k"
      by (auto simp: bit_and_iff bit_or_iff bit_not_iff status_bits)
  qed
  have "map_option clear_wel (update_write_protection (d\<lparr>emu_status := ?S\<rparr>)) =
      Some (with_status ((emu_status d)[0 := new_value STATUS1 v d]) d)"
    by (rule clear_wel_update [OF ok]) (use len v1 in \<open>simp_all add: new_value_def\<close>)
  moreover have "emu_switch JEDEC_WRSR [JEDEC_WRSR, v] [] (enabled d) = Option.bind (update_write_protection (d\<lparr>emu_status := ?S\<rparr>)) (brk [])"
    by (simp add: emu_switch_def opcode_defs emu_wrsr_def enabled_unlocked [OF ok] p1)
  ultimately show "dummy_spi_send_command [JEDEC_WRSR, v] 0 (enabled d) =
      Some (0, [], with_status ((emu_status d)[0 := new_value STATUS1 v d]) d)"
    using pl by (auto simp: send_plain finish_def brk_def opcode_defs)
  let ?T = "(emu_status (enabled d))[1 := new_value STATUS2 v d]"
  have p2: "put_reg STATUS2 1 v (enabled d) = d\<lparr>emu_status := ?T\<rparr>"
    using len by (simp add: put_reg_def Let_def enabled_unlocked [OF ok] enabled_update new_value_def reg_index_def)
      (simp add: enabled_def)
  have "map_option clear_wel (update_write_protection (d\<lparr>emu_status := ?T\<rparr>)) =
      Some (with_status ((emu_status d)[1 := new_value STATUS2 v d]) d)"
    by (rule clear_wel_update [OF ok]) (use len idle_bits(4) [OF idle] in \<open>simp_all add: enabled_def\<close>)
  moreover have "emu_switch JEDEC_WRSR2 [JEDEC_WRSR2, v] [] (enabled d) = Option.bind (update_write_protection (d\<lparr>emu_status := ?T\<rparr>)) (brk [])"
    using len(3) by (simp add: emu_switch_def opcode_defs emu_wrsr2_def enabled_unlocked [OF ok] p2 [unfolded One_nat_def])
  ultimately show "dummy_spi_send_command [JEDEC_WRSR2, v] 0 (enabled d) =
      Some (0, [], with_status ((emu_status d)[1 := new_value STATUS2 v d]) d)"
    using pl by (auto simp: send_plain finish_def brk_def opcode_defs)
qed

lemma with_status3:
  assumes ok: "w25_ok d" and sync: "wp_sync d"
  shows "with_status ((emu_status d)[2 := x]) d = d\<lparr>emu_status := (emu_status d)[2 := x]\<rparr>"
proof -
  let ?S = "(emu_status d)[2 := x]"
  have "emu_chip (d\<lparr>emu_status := ?S\<rparr>) = EMULATE_WINBOND_W25Q128FV" "emu_chip_size (d\<lparr>emu_status := ?S\<rparr>) = 16777216"
    using ok by (simp_all add: w25_ok_def)
  from update_wp [OF this] obtain r where
    r: "decode_range_spi25 (emu_wp_bits (d\<lparr>emu_status := ?S\<rparr>)) 16777216 = Some r" "wr_start r + wr_len r \<le> 16777216"
    "update_write_protection (d\<lparr>emu_status := ?S\<rparr>) = Some (d\<lparr>emu_status := ?S, wp_start := wr_start r, wp_end := wr_start r + wr_len r\<rparr>)"
    by auto
  have "emu_wp_bits (d\<lparr>emu_status := ?S\<rparr>) = emu_wp_bits d" by (rule emu_wp_bits_cong) simp_all
  then have "wp_start d = wr_start r" "wp_end d = wr_start r + wr_len r"
    using sync r(1,2) ok by (simp_all add: wp_sync_def w25_ok_def c_simps)
  then show ?thesis by (simp add: with_status_def r(3))
qed

lemma write_status3_cmd:
  assumes ok: "w25_ok d" and sync: "wp_sync d"
  shows "dummy_spi_send_command [JEDEC_WRSR3, v] 0 (enabled d) =
      Some (0, [], with_status ((emu_status d)[2 := new_value STATUS3 v d]) d)"
proof -
  have len: "length (emu_status d) = 3" "emu_status_len d = 3" and idle: "emu_status d ! 0 AND 3 = 0"
    using ok by (simp_all add: w25_ok_def)
  have p3: "put_reg STATUS3 2 v (enabled d) = d\<lparr>emu_status := (emu_status (enabled d))[2 := new_value STATUS3 v d]\<rparr>"
    using len by (simp add: put_reg_def Let_def enabled_unlocked [OF ok] enabled_update new_value_def reg_index_def)
      (simp add: enabled_def)
  have "clear_wel (put_reg STATUS3 2 v (enabled d)) = d\<lparr>emu_status := (emu_status d)[2 := new_value STATUS3 v d]\<rparr>"
    using len idle_bits(4) [OF idle] list3 [OF len(1)] unfolding p3
    by (simp add: clear_wel_def enabled_def list_update_swap)
  moreover have "emu_switch JEDEC_WRSR3 [JEDEC_WRSR3, v] [] (enabled d) = brk [] (put_reg STATUS3 2 v (enabled d))"
    using len by (simp add: emu_switch_def opcode_defs emu_wrsr3_def enabled_unlocked [OF ok])
  ultimately show ?thesis
    using w25_plain [OF ok] by (simp add: send_plain finish_def brk_def opcode_defs with_status3 [OF ok sync])
qed

section \<open>The register functions of the SPI layer\<close>

definition w25_regs :: "emu_data spi_state \<Rightarrow> flash_reg \<Rightarrow> u8" where
  "w25_regs s r = (case r of STATUS1 \<Rightarrow> emu_status (sp_dev s) ! 0 | STATUS2 \<Rightarrow> emu_status (sp_dev s) ! 1
     | STATUS3 \<Rightarrow> emu_status (sp_dev s) ! 2 | _ \<Rightarrow> 0)"

lemma read_register_ok:
  assumes ok: "w25_ok (sp_dev s)" and r: "r \<in> {STATUS1, STATUS2, STATUS3}"
  shows "spi_read_register w25q128_chip spi_master_dummyflasher r s = Some (0, w25_regs s r, s)"
proof -
  have "spi_blacklist (sp_dev s) = []" using ok by (simp add: w25_ok_def)
  then have sup: "spi_opcode_supported spi_master_dummyflasher opc s" for opc
    by (simp add: spi_opcode_supported_def spi_master_dummyflasher_def dummy_spi_probe_opcode_def)
  have send: "spi_send_command spi_master_dummyflasher w k s = lift_dev s (dummy_spi_send_command w k (sp_dev s))" for w k
    by (simp add: spi_send_command_def spi_master_dummyflasher_def)
  show ?thesis
    using r w25_features(4,6) by (auto simp: spi_read_register_def register_read_cmd_def sup send lift_dev_def
        rdsr_cmds [OF ok] w25_regs_def numeral_2_eq_2)
qed

lemma write_register_ok:
  fixes s :: "emu_data spi_state" and v :: u8
  assumes ok: "w25_ok (sp_dev s)" and sync: "wp_sync (sp_dev s)" and un: "reg_unlocked (sp_dev s)"
    and r: "r \<in> {STATUS1, STATUS2, STATUS3}"
  defines "d' \<equiv> with_status ((emu_status (sp_dev s))[reg_index r := new_value r v (sp_dev s)]) (sp_dev s)"
  shows "spi_write_register w25q128_chip spi_master_dummyflasher r v s = Some (0, s\<lparr>sp_dev := d'\<rparr>)" (is ?run)
    and "w25_ok d'" (is ?ok) and "wp_sync d'" (is ?sync)
    and "emu_status d' = (emu_status (sp_dev s))[reg_index r := new_value r v (sp_dev s)]" (is ?st)
    and "hwwp d' = hwwp (sp_dev s)" (is ?hw) and "flashchip_contents d' = flashchip_contents (sp_dev s)" (is ?con)
proof -
  let ?d = "sp_dev s" and ?m = spi_master_dummyflasher
  let ?S = "(emu_status ?d)[reg_index r := new_value r v ?d]"
  have len: "length (emu_status ?d) = 3" and idle: "emu_status ?d ! 0 AND 3 = 0" using ok by (simp_all add: w25_ok_def)
  have zero: "(v AND NOT (SPI_SR_WIP OR SPI_SR_WEL)) AND 3 = 0"
  proof (rule bit_eqI)
    fix k :: nat
    have "bit (3 :: u8) k \<longleftrightarrow> k = 0 \<or> k = 1" by (auto simp: bit_numeral_rec bit_1_iff split: nat.splits)
    then show "bit ((v AND NOT (SPI_SR_WIP OR SPI_SR_WEL)) AND 3) k = bit (0 :: u8) k"
      by (auto simp: bit_and_iff bit_or_iff bit_not_iff status_bits)
  qed
  have S: "length ?S = 3" "?S ! 0 AND 3 = 0"
    using len idle zero r by (auto simp: reg_index_def new_value_def)
  note props = with_status_props [OF ok S, folded d'_def]
  show ?ok ?sync ?st ?hw ?con by (fact props)+
  have "spi_blacklist ?d = []" using ok by (simp add: w25_ok_def)
  then have sup: "spi_opcode_supported ?m opc s" for opc
    by (simp add: spi_opcode_supported_def spi_master_dummyflasher_def dummy_spi_probe_opcode_def)
  have send: "spi_send_command ?m w k t = lift_dev t (dummy_spi_send_command w k (sp_dev t))" for w k t
    by (simp add: spi_send_command_def spi_master_dummyflasher_def)
  have w: "\<exists>opc. register_write_cmd w25q128_chip ?m r v s = Some (Some [opc, v], s) \<and>
      dummy_spi_send_command [opc, v] 0 (enabled ?d) = Some (0, [], d')"
    using r write_status_cmds [OF ok un, of v] write_status3_cmd [OF ok sync, of v] w25_features(5,6)
    by (auto simp: register_write_cmd_def d'_def reg_index_def)
  then obtain opc where opc: "register_write_cmd w25q128_chip ?m r v s = Some (Some [opc, v], s)"
    "dummy_spi_send_command [opc, v] 0 (enabled ?d) = Some (0, [], d')" by blast
  have multi: "spi_send_multicommand ?m [([JEDEC_WREN], 0), ([opc, v], 0)] s = Some (0, [[], []], s\<lparr>sp_dev := d'\<rparr>)"
    using wren_cmd [OF w25_plain [OF ok], of 0] opc(2)
    by (simp add: spi_send_multicommand_def w25r.no_multi send lift_dev_def)
  have st: "spi_read_register w25q128_chip ?m STATUS1 (s\<lparr>sp_dev := d'\<rparr>) = Some (0, emu_status d' ! 0, s\<lparr>sp_dev := d'\<rparr>)"
    using read_register_ok [of "s\<lparr>sp_dev := d'\<rparr>" STATUS1] props(1) by (simp add: w25_regs_def)
  have "emu_status d' ! 0 AND SPI_SR_WIP = 0" using props(1) by (intro idle_bits) (simp add: w25_ok_def)
  with st have wait: "wrsr_wait w25q128_chip ?m (Suc k) (s\<lparr>sp_dev := d'\<rparr>) = Some (0, s\<lparr>sp_dev := d'\<rparr>)" for k by simp
  have "wrsr_wait w25q128_chip ?m (if r = STATUS1 then 490 else 500) (s\<lparr>sp_dev := d'\<rparr>) = Some (0, s\<lparr>sp_dev := d'\<rparr>)"
    using wait [of 489] wait [of 499] by (cases "r = STATUS1") (simp_all only: if_True if_False, simp_all add: numeral_eq_Suc)
  with opc(1) multi sup w25_features(7) show ?run by (simp add: spi_write_register_def Let_def)
qed

section \<open>Write protection\<close>

text \<open>The register functions never fail to return on this chip (\<open>read_register_ok\<close>, \<open>write_register_ok\<close>), so that
  the default values here are not used. \<open>junk\<close> is what the local \<^verbatim>\<open>struct wp_bits\<close> holds.\<close>

definition w25_env :: "wp_bits \<Rightarrow> emu_data spi_state wp_env" where
  "w25_env junk =
     \<lparr>we_buses = BUS_SPI, we_opaque_read = None, we_opaque_write = None,
      we_spi_read = (\<lambda>r s. case spi_read_register w25q128_chip spi_master_dummyflasher r s of
         Some x \<Rightarrow> x | None \<Rightarrow> (SPI_GENERIC_ERROR, 0, s)),
      we_spi_write = (\<lambda>r v s. case spi_write_register w25q128_chip spi_master_dummyflasher r v s of
         Some x \<Rightarrow> x | None \<Rightarrow> (SPI_GENERIC_ERROR, s)),
      we_opaque_write_cfg = None, we_opaque_read_cfg = None, we_reg_bits = w25q128_reg_bits,
      we_decode_range = DECODE_RANGE_SPI25, we_chip_len = 16777216, we_calloc = True, we_junk = junk\<rparr>"

text \<open>The states during register access: the contents \<open>X\<close> of the array do not change.\<close>

definition wp_dev :: "bool \<Rightarrow> bytes \<Rightarrow> emu_data spi_state \<Rightarrow> bool" where
  "wp_dev hw X = on_dev (\<lambda>d. w25_ok d \<and> wp_sync d \<and> hwwp d = hw \<and> flashchip_contents d = X)"

definition regs_unlocked :: "bool \<Rightarrow> (flash_reg \<Rightarrow> u8) \<Rightarrow> bool" where
  "regs_unlocked hw R \<longleftrightarrow> \<not> bit (R STATUS2) 0 \<and> \<not> (bit (R STATUS1) 7 \<and> hw)"

lemma reg_unlocked_iff: "hwwp (sp_dev s) = hw \<Longrightarrow> reg_unlocked (sp_dev s) = regs_unlocked hw (w25_regs s)"
proof -
  assume hw: "hwwp (sp_dev s) = hw"
  have "emu_srp1 (sp_dev s) \<longleftrightarrow> bit (emu_status (sp_dev s) ! 1) 0"
    by (simp add: emu_srp1_def and_one_eq bit_0 odd_iff_mod_2_eq_one even_iff_mod_2_eq_zero)
  moreover have "emu_srp0 (sp_dev s) \<longleftrightarrow> bit (emu_status (sp_dev s) ! 0) 7"
  proof -
    have "drop_bit 7 x \<noteq> 0 \<longleftrightarrow> bit x 7" for x :: u8
    proof
      assume "drop_bit 7 x \<noteq> 0"
      then obtain k where "bit (drop_bit 7 x) k" by (auto simp: bit_eq_iff)
      then have b: "bit x (7 + k)" by (simp add: bit_drop_bit_eq)
      then have "7 + k < 8" using bit_imp_le_length by fastforce
      with b show "bit x 7" by simp
    next
      assume "bit x 7"
      then have "bit (drop_bit 7 x) 0" by (simp add: bit_drop_bit_eq)
      then show "drop_bit 7 x \<noteq> 0" by auto
    qed
    then show ?thesis by (simp add: emu_srp0_def)
  qed
  ultimately show ?thesis by (simp add: reg_unlocked_def regs_unlocked_def w25_regs_def hw)
qed

lemma w25_infos:
  "bp_count w25q128_reg_bits = 3"
  "wp_infos w25q128_reg_bits = map (\<lambda>(r, i). \<lparr>bi_reg = r, bi_index = i, bi_writability = RW\<rparr>)
     [(STATUS1, 2), (STATUS1, 3), (STATUS1, 4), (STATUS1, 5), (STATUS1, 6), (STATUS2, 6), (STATUS1, 7), (STATUS2, 0), (STATUS3, 2)]"
  by (simp_all add: wp_infos_def bp_count_def w25q128_reg_bits_def Let_def MAX_BP_BITS_def numeral_nat)

lemma new_value_bits:
  assumes "w25_ok d" and "reg_unlocked d" and "b \<in> set (wp_infos w25q128_reg_bits)"
  shows "bit (new_value (bi_reg b) v d) (bi_index b) = bit v (bi_index b)"
proof -
  note masks = reg_masks_unlocked [OF assms(1,2)]
  have ro2: "\<not> bit (0x84 OR (x AND 0x38) :: u8) 0" "\<not> bit (0x84 OR (x AND 0x38) :: u8) 6" "\<not> bit (0x1b :: u8) 2" for x
    by (simp_all add: bit_or_iff bit_and_iff bit_numeral_rec numeral_eq_Suc)
  show ?thesis
    using assms(3) ro2
    by (auto simp: w25_infos new_value_def masks bit_and_iff bit_or_iff bit_not_iff status_bits Let_def)
qed

lemma w25_info_reg: "b \<in> set (wp_infos w25q128_reg_bits) \<Longrightarrow> bi_reg b \<in> {STATUS1, STATUS2, STATUS3}"
  by (auto simp: w25_infos)

lemma w25_bit_map_ok: "bit_map_ok w25q128_reg_bits"
  by (simp add: bit_map_ok_def w25_infos) (simp add: w25q128_reg_bits_def Let_def MAX_BP_BITS_def less_Suc_eq numeral_nat)

lemma w25_registers:
  assumes "length (bp junk) = MAX_BP_BITS"
  shows "wp_registers (w25_env junk) (wp_dev hw X) w25_regs"
proof
  show "wp_chip_ok (w25_env junk)" by (simp add: wp_chip_ok_def w25_env_def)
  show "bit_map_ok (we_reg_bits (w25_env junk))" by (simp add: w25_env_def w25_bit_map_ok)
  show "we_calloc (w25_env junk)" "length (bp (we_junk (w25_env junk))) = MAX_BP_BITS" using assms by (simp_all add: w25_env_def)
  show "\<exists>s'. wp_read_register (w25_env junk) (bi_reg b) s = (0, w25_regs s (bi_reg b), s') \<and> wp_dev hw X s' \<and> w25_regs s' = w25_regs s"
    if "wp_dev hw X s" "b \<in> set (wp_infos (we_reg_bits (w25_env junk)))" "bi_reg b \<noteq> INVALID_REG" for s b
    using that read_register_ok [of s "bi_reg b"] w25_info_reg [of b]
    by (simp add: wp_read_register_def w25_env_def bus_defs wp_dev_def on_dev_def SPI_INVALID_OPCODE_def)
  show "hw_bit (w25_regs s) (rb_wps (we_reg_bits (w25_env junk))) = 0"
    if "bi_writability (rb_wps (we_reg_bits (w25_env junk))) \<noteq> RW" for s
    using that by (simp add: w25_env_def w25q128_reg_bits_def Let_def)
qed

lemma w25_write_law:
  assumes dev: "wp_dev hw X s" and un: "regs_unlocked hw (w25_regs s)" and b: "b \<in> set (wp_infos w25q128_reg_bits)"
  shows "\<exists>s'. wp_write_register (w25_env junk) (bi_reg b) v s = (0, s') \<and> wp_dev hw X s' \<and>
    (\<forall>b' \<in> set (wp_infos w25q128_reg_bits). bi_reg b' \<noteq> INVALID_REG \<longrightarrow>
       hw_bit (w25_regs s') b' = hw_bit ((w25_regs s)(bi_reg b := v)) b')"
proof -
  have d: "w25_ok (sp_dev s)" "wp_sync (sp_dev s)" "hwwp (sp_dev s) = hw" "flashchip_contents (sp_dev s) = X"
    "\<not> sp_in_4ba_mode s" using dev by (simp_all add: wp_dev_def on_dev_def)
  have ru: "reg_unlocked (sp_dev s)" using un reg_unlocked_iff [OF d(3)] by simp
  note w = write_register_ok [OF d(1,2) ru w25_info_reg [OF b], of v]
  let ?d = "with_status ((emu_status (sp_dev s))[reg_index (bi_reg b) := new_value (bi_reg b) v (sp_dev s)]) (sp_dev s)"
  let ?s = "s\<lparr>sp_dev := ?d\<rparr>"
  have "wp_write_register (w25_env junk) (bi_reg b) v s = (0, ?s)"
    using w(1) by (simp add: wp_write_register_def w25_env_def bus_defs SPI_INVALID_OPCODE_def)
  moreover have "wp_dev hw X ?s" using w(2,3,5,6) d by (simp add: wp_dev_def on_dev_def)
  moreover have "hw_bit (w25_regs ?s) b' = hw_bit ((w25_regs s)(bi_reg b := v)) b'" if b': "b' \<in> set (wp_infos w25q128_reg_bits)" for b'
  proof -
    have len: "length (emu_status (sp_dev s)) = 3" using d(1) by (simp add: w25_ok_def)
    have rs: "w25_regs ?s r = (if r = bi_reg b then new_value r v (sp_dev s) else w25_regs s r)"
      if "r \<in> {STATUS1, STATUS2, STATUS3}" for r
      using that w25_info_reg [OF b] w(4) len by (auto simp: w25_regs_def reg_index_def)
    have inv: "bi_reg b' \<noteq> INVALID_REG" using w25_info_reg [OF b'] by auto
    show ?thesis
      using rs [OF w25_info_reg [OF b']] new_value_bits [OF d(1) ru b', of v]
      by (subst hw_bit_eq_iff [OF inv]) auto
  qed
  ultimately show ?thesis by blast
qed

lemma w25_writer:
  assumes "length (bp junk) = MAX_BP_BITS"
  shows "wp_writer (w25_env junk) (wp_dev hw X) w25_regs (regs_unlocked hw)"
proof (intro wp_writer.intro wp_writer_axioms.intro w25_registers assms)
  have rb: "we_reg_bits (w25_env junk) = w25q128_reg_bits" by (simp add: w25_env_def)
  show "\<exists>s'. wp_write_register (w25_env junk) (bi_reg b) v s = (0, s') \<and> wp_dev hw X s' \<and>
      (\<forall>b' \<in> set (wp_infos (we_reg_bits (w25_env junk))). bi_reg b' \<noteq> INVALID_REG \<longrightarrow>
        hw_bit (w25_regs s') b' = hw_bit ((w25_regs s)(bi_reg b := v)) b')"
    if "wp_dev hw X s" "regs_unlocked hw (w25_regs s)" "b \<in> set (wp_infos (we_reg_bits (w25_env junk)))" for s b v
    using w25_write_law [OF that [unfolded rb]] by (simp only: rb)
  have srp: "rb_srp w25q128_reg_bits = \<lparr>bi_reg = STATUS1, bi_index = 7, bi_writability = RW\<rparr>"
    and srl: "rb_srl w25q128_reg_bits = \<lparr>bi_reg = STATUS2, bi_index = 0, bi_writability = RW\<rparr>"
    by (simp_all add: w25q128_reg_bits_def Let_def)
  show "regs_unlocked hw R = regs_unlocked hw R'"
    if "hw_bit R (rb_srp (we_reg_bits (w25_env junk))) = hw_bit R' (rb_srp (we_reg_bits (w25_env junk)))"
      "hw_bit R (rb_srl (we_reg_bits (w25_env junk))) = hw_bit R' (rb_srl (we_reg_bits (w25_env junk)))" for R R'
    using that unfolding rb srp srl by (simp add: hw_bit_eq_iff regs_unlocked_def)
  show "hw_bit (w25_regs s) (rb_srl (we_reg_bits (w25_env junk))) = 0" if "regs_unlocked hw (w25_regs s)" for s
    using that hw_bit_one_iff [of "rb_srl w25q128_reg_bits" "w25_regs s"] bit_value [OF hw_bit_le, of "w25_regs s" "rb_srl w25q128_reg_bits"]
    unfolding rb srl by (auto simp: regs_unlocked_def)
  show "bi_writability (rb_srp (we_reg_bits (w25_env junk))) = RW" by (simp add: rb srp)
qed

text \<open>The interfaces hold for every content of the array and both states of the WP pin.\<close>

definition sample_junk :: wp_bits where
  "sample_junk = \<lparr>srp_bit_present = True, srp = 0xaa, srl_bit_present = True, srl = 0xaa, cmp_bit_present = True,
     cmp = 0xaa, sec_bit_present = True, sec = 0xaa, tb_bit_present = True, tb = 0xaa, bp_bit_count = 170,
     bp = [0xaa, 0xaa, 0xaa, 0xaa]\<rparr>"

interpretation w25wp: wp_writer "w25_env sample_junk" "wp_dev hw X" w25_regs "regs_unlocked hw" for hw X
  by (rule w25_writer) (simp add: sample_junk_def MAX_BP_BITS_def)

section \<open>The range that flashrom sets and the range that the emulator protects\<close>

lemma decode_range_cong:
  assumes "bp_number b = bp_number b'" and "cmp_bit_present b = cmp_bit_present b'" "cmp b = cmp b'"
    and "sec_bit_present b = sec_bit_present b'" "sec b = sec b'" and "tb_bit_present b = tb_bit_present b'" "tb b = tb b'"
  shows "decode_range_generic b n fx neg off = decode_range_generic b' n fx neg off"
proof -
  have "coeff_len b = coeff_len b'" by (simp add: coeff_len_def fun_eq_iff assms)
  then show ?thesis by (simp only: decode_range_generic_def assms)
qed

lemma decode_hw_bits:
  assumes "length (bp junk) = MAX_BP_BITS"
  shows "decode_range_spi25 (hw_bits w25q128_reg_bits junk (w25_regs s)) n = decode_range_spi25 (emu_wp_bits (sp_dev s)) n"
  unfolding decode_range_spi25_def
proof (rule decode_range_cong)
  show "bp_number (hw_bits w25q128_reg_bits junk (w25_regs s)) = bp_number (emu_wp_bits (sp_dev s))"
    by (simp add: bp_number_def hw_bits_def w25_infos emu_wp_bits_def Let_def MAX_BP_BITS_def)
      (simp add: w25q128_reg_bits_def hw_bit_def w25_regs_def Let_def numeral_nat upt_rec)
qed (simp_all add: hw_bits_def emu_wp_bits_def Let_def w25q128_reg_bits_def hw_bit_def w25_regs_def)

lemma selects_iff: "selects (w25_env junk) b r \<longleftrightarrow> decode_range_spi25 b 16777216 = Some r"
  by (auto simp: selects_def get_wp_range_def w25_env_def lookup_decode_range_func_ptr_def)

lemma protected_range:
  assumes "wp_dev hw X s" and "length (bp junk) = MAX_BP_BITS"
    and "selects (w25_env junk) (hw_bits w25q128_reg_bits junk (w25_regs s)) r"
  shows "wp_start (sp_dev s) = wr_start r" "wp_end (sp_dev s) = wr_start r + wr_len r" "wr_start r + wr_len r \<le> 16777216"
proof -
  have r: "decode_range_spi25 (emu_wp_bits (sp_dev s)) 16777216 = Some r"
    using assms(3) by (simp add: selects_iff decode_hw_bits [OF assms(2)])
  show le: "wr_start r + wr_len r \<le> 16777216" using r decode_ok [of "sp_dev s"] by auto
  have "wp_sync (sp_dev s)" "emu_chip_size (sp_dev s) = 16777216" using assms(1) by (simp_all add: wp_dev_def on_dev_def w25_ok_def)
  then show "wp_start (sp_dev s) = wr_start r" "wp_end (sp_dev s) = wr_start r + wr_len r"
    using r le by (simp_all add: wp_sync_def c_simps)
qed

lemma w25_env_simps:
  "we_reg_bits (w25_env junk) = w25q128_reg_bits" "we_junk (w25_env junk) = junk" "chip_supported (w25_env junk)"
  "flashrom_wp_write_cfg (w25_env junk) = wp_write_cfg (w25_env junk)"
  "flashrom_wp_read_cfg (w25_env junk) = wp_read_cfg (w25_env junk)"
  by (simp_all add: w25_env_def chip_supported_def flashrom_wp_write_cfg_def flashrom_wp_read_cfg_def fun_eq_iff bus_defs
      wp_operations_available_def)

lemma mode_cases:
  "get_wp_mode (hw_bits w25q128_reg_bits junk R) = Some FLASHROM_WP_MODE_DISABLED \<longleftrightarrow> \<not> bit (R STATUS1) 7 \<and> \<not> bit (R STATUS2) 0"
  "get_wp_mode (hw_bits w25q128_reg_bits junk R) = Some FLASHROM_WP_MODE_HARDWARE \<longleftrightarrow> bit (R STATUS1) 7 \<and> \<not> bit (R STATUS2) 0"
proof -
  let ?p = "rb_srp w25q128_reg_bits" and ?l = "rb_srl w25q128_reg_bits"
  have reg: "bi_reg ?p = STATUS1" "bi_index ?p = 7" "bi_reg ?l = STATUS2" "bi_index ?l = 0"
    by (simp_all add: w25q128_reg_bits_def Let_def)
  have one: "hw_bit R ?p = 1 \<longleftrightarrow> bit (R STATUS1) 7" "hw_bit R ?l = 1 \<longleftrightarrow> bit (R STATUS2) 0"
    using hw_bit_one_iff [of ?p R] hw_bit_one_iff [of ?l R] reg by simp_all
  have zero: "hw_bit R ?p = 0 \<longleftrightarrow> \<not> bit (R STATUS1) 7" "hw_bit R ?l = 0 \<longleftrightarrow> \<not> bit (R STATUS2) 0"
    using one bit_value [OF hw_bit_le, of R ?p] bit_value [OF hw_bit_le, of R ?l] by auto
  show "get_wp_mode (hw_bits w25q128_reg_bits junk R) = Some FLASHROM_WP_MODE_DISABLED \<longleftrightarrow> \<not> bit (R STATUS1) 7 \<and> \<not> bit (R STATUS2) 0"
    "get_wp_mode (hw_bits w25q128_reg_bits junk R) = Some FLASHROM_WP_MODE_HARDWARE \<longleftrightarrow> bit (R STATUS1) 7 \<and> \<not> bit (R STATUS2) 0"
    unfolding get_wp_mode_def by (simp_all add: hw_bits_def one zero)
qed

lemma available_ranges:
  assumes dev: "wp_dev hw X s" and j: "length (bp junk) = MAX_BP_BITS"
  shows "\<exists>rs s'. wp_get_available_ranges (w25_env junk) True s = Some (FLASHROM_WP_OK, rs, s') \<and> wp_dev hw X s' \<and>
    w25_regs s' = w25_regs s \<and>
    (\<forall>r \<in> set rs. \<exists>b. variant w25q128_reg_bits (hw_bits w25q128_reg_bits junk (w25_regs s)) b \<and> selects (w25_env junk) b r)"
proof -
  let ?b = "hw_bits w25q128_reg_bits junk (w25_regs s)"
  obtain s' where rd: "read_wp_bits (w25_env junk) junk s = (FLASHROM_WP_OK, ?b, s')" "wp_dev hw X s'" "w25_regs s' = w25_regs s"
    using wp_registers.read_wp_bits_ok [OF w25_registers [OF j] dev] by (auto simp: w25_env_simps)
  have "wp_chip_ok (w25_env junk)" "we_calloc (w25_env junk)" by (simp_all add: wp_chip_ok_def w25_env_def)
  from get_ranges_and_wp_bits_ok [OF this(1) hw_bits_ok [OF w25_bit_map_ok] this(2), of junk "w25_regs s"] obtain xs where
    "get_ranges_and_wp_bits (w25_env junk) ?b = Some (FLASHROM_WP_OK, xs)"
    "\<forall>x \<in> set xs. variant w25q128_reg_bits ?b (rab_bits x) \<and> selects (w25_env junk) (rab_bits x) (rab_range x)"
    by (auto simp: w25_env_simps)
  with rd show ?thesis by (auto simp: wp_get_available_ranges_def w25_env_simps)
qed

text \<open>Every range that some register values select can be set from every state of the bits.\<close>

lemma variant_any:
  assumes "length (bp junk) = MAX_BP_BITS"
  shows "\<exists>b. variant w25q128_reg_bits (hw_bits w25q128_reg_bits junk R) b \<and>
    decode_range_spi25 b n = decode_range_spi25 (emu_wp_bits d) n"
proof -
  let ?e = "emu_wp_bits d" and ?h = "hw_bits w25q128_reg_bits junk R"
  let ?b = "?h\<lparr>cmp := cmp ?e, sec := sec ?e, tb := tb ?e, bp := [bp ?e ! 0, bp ?e ! 1, bp ?e ! 2, bp ?h ! 3]\<rparr>"
  have ptrs: "set (range_bit_ptrs w25q128_reg_bits) = {BP_PTR 0, BP_PTR 1, BP_PTR 2, TB_PTR, SEC_PTR, CMP_PTR}"
    by (auto simp: range_bit_ptrs_def w25q128_reg_bits_def can_write_bit_def Let_def MAX_BP_BITS_def numeral_nat upt_rec
        less_Suc_eq)
  have len: "length (bp ?h) = 4" by (simp add: hw_bits_def MAX_BP_BITS_def)
  have le: "cmp ?e \<le> 1" "sec ?e \<le> 1" "tb ?e \<le> 1" "bp ?e ! 0 \<le> 1" "bp ?e ! 1 \<le> 1" "bp ?e ! 2 \<le> 1"
    by (simp_all add: emu_wp_bits_def Let_def and_one_le)
  have "if p \<in> set (range_bit_ptrs w25q128_reg_bits) then load_bit p ?b \<le> 1 else load_bit p ?b = load_bit p ?h"
    if "ptr_ok p ?h" for p
    using that le by (cases p) (auto simp: ptrs len less_Suc_eq numeral_nat)
  moreover have "bits_frame ?b = bits_frame ?h" by (simp add: bits_frame_def len numeral_nat)
  ultimately have "variant w25q128_reg_bits ?h ?b" unfolding variant_def by blast
  moreover have "decode_range_spi25 ?b n = decode_range_spi25 ?e n"
    unfolding decode_range_spi25_def
  proof (rule decode_range_cong)
    show "bp_number ?b = bp_number ?e"
      by (simp add: bp_number_def hw_bits_def w25_infos emu_wp_bits_def Let_def numeral_nat upt_rec)
  qed (simp_all add: hw_bits_def emu_wp_bits_def Let_def w25q128_reg_bits_def)
  ultimately show ?thesis by blast
qed

text \<open>Writing a configuration through the interface \<open>wp_writer\<close>.\<close>

lemma write_cfg_ok:
  assumes j: "length (bp junk) = MAX_BP_BITS" and dev: "wp_dev hw X s" and un: "regs_unlocked hw (w25_regs s)"
    and range: "decode_range_spi25 (emu_wp_bits d) 16777216 = Some (cfg_range cfg)"
    and mode: "cfg_mode cfg = FLASHROM_WP_MODE_DISABLED \<or> cfg_mode cfg = FLASHROM_WP_MODE_HARDWARE"
  shows "\<exists>s'. wp_write_cfg (w25_env junk) cfg s = Some (FLASHROM_WP_OK, s') \<and> wp_dev hw X s' \<and>
    selects (w25_env junk) (hw_bits w25q128_reg_bits junk (w25_regs s')) (cfg_range cfg) \<and>
    get_wp_mode (hw_bits w25q128_reg_bits junk (w25_regs s')) = Some (cfg_mode cfg)"
proof -
  note wr = w25_writer [OF j, of hw X]
  obtain b where "variant w25q128_reg_bits (hw_bits w25q128_reg_bits junk (w25_regs s)) b"
    "selects (w25_env junk) b (cfg_range cfg)"
    using variant_any [OF j, of "w25_regs s" 16777216 d] range by (auto simp: selects_iff)
  moreover have "bi_reg (rb_srp w25q128_reg_bits) \<noteq> INVALID_REG" by (simp add: w25q128_reg_bits_def Let_def)
  ultimately show ?thesis
    using wp_writer.wp_write_cfg_ok [OF wr dev un, of b cfg] mode by (simp add: w25_env_simps)
qed

text \<open>C9: on the emulated W25Q128FV with writable status registers, \<^verbatim>\<open>flashrom_wp_write_cfg\<close> sets every range that
  some register values select, without write protection of the registers or with hardware protection:
  it returns OK, the contents of the array stay, the emulator then protects exactly the requested range,
  and \<^verbatim>\<open>flashrom_wp_read_cfg\<close> reads the same configuration back.\<close>

theorem wp_write_cfg_protects:
  assumes j: "length (bp junk) = MAX_BP_BITS" and s: "on_dev (w25_inv hw) s"
    and range: "decode_range_spi25 (emu_wp_bits d) 16777216 = Some (cfg_range cfg)"
    and mode: "cfg_mode cfg = FLASHROM_WP_MODE_DISABLED \<or> cfg_mode cfg = FLASHROM_WP_MODE_HARDWARE"
  shows "\<exists>s' s''. flashrom_wp_write_cfg (w25_env junk) cfg s = Some (FLASHROM_WP_OK, s') \<and>
    flashchip_contents (sp_dev s') = flashchip_contents (sp_dev s) \<and>
    wp_start (sp_dev s') = wr_start (cfg_range cfg) \<and>
    wp_end (sp_dev s') = wr_start (cfg_range cfg) + wr_len (cfg_range cfg) \<and>
    flashrom_wp_read_cfg (w25_env junk) cfg0 s' = Some (FLASHROM_WP_OK, cfg, s'')"
proof -
  let ?X = "flashchip_contents (sp_dev s)"
  have dev: "wp_dev hw ?X s" using s by (simp add: wp_dev_def on_dev_def w25_inv_def)
  have "hwwp (sp_dev s) = hw" "reg_unlocked (sp_dev s)" using s by (simp_all add: on_dev_def w25_inv_def)
  then have un: "regs_unlocked hw (w25_regs s)" using reg_unlocked_iff by simp
  obtain s' where s': "wp_write_cfg (w25_env junk) cfg s = Some (FLASHROM_WP_OK, s')" "wp_dev hw ?X s'"
    "selects (w25_env junk) (hw_bits w25q128_reg_bits junk (w25_regs s')) (cfg_range cfg)"
    "get_wp_mode (hw_bits w25q128_reg_bits junk (w25_regs s')) = Some (cfg_mode cfg)"
    using write_cfg_ok [OF j dev un range mode] by blast
  have "\<exists>s''. wp_read_cfg (w25_env junk) cfg0 s' = Some (FLASHROM_WP_OK, cfg, s'')"
    using wp_registers.wp_read_cfg_ok [OF w25_registers [OF j] s'(2), of cfg0] s'(3,4)
    by (cases cfg) (auto simp: w25_env_simps selects_iff)
  moreover have "flashchip_contents (sp_dev s') = ?X" using s'(2) by (simp add: wp_dev_def on_dev_def)
  ultimately show ?thesis using s'(1) protected_range [OF s'(2) j s'(3)] by (auto simp: w25_env_simps)
qed

text \<open>The programmer for \<^verbatim>\<open>emulate=W25Q128FV\<close>.\<close>

definition w25_data :: emu_data where
  "w25_data = (case init_emulate ''W25Q128FV'' (-1) zero_data of Some d \<Rightarrow> init_fill d | None \<Rightarrow> zero_data)"

definition w25_state :: "emu_data spi_state" where
  "w25_state = \<lparr>sp_dev = w25_data, sp_address_high_byte = -1, sp_in_4ba_mode = False\<rparr>"

lemma w25_data_simps:
  "emu_status w25_data = [0, 0, 0]" "hwwp w25_data = False" "wp_start w25_data = 0" "wp_end w25_data = 0"
  "flashchip_contents w25_data = replicate 16777216 0xff" "spi_blacklist w25_data = []"
  "w25_ok w25_data" "emu_chip_size w25_data = 16777216"
  by (simp_all add: w25_data_def init_emulate_def init_fill_def zero_data_def set_chip_def Let_def w25_ok_def)

lemma upt3: "[0..<3] = [0, 1, 2]"
  by (simp add: upt_rec)

lemmas decode_evals = decode_range_spi25_def decode_range_generic_def bp_number_def coeff_len_def shl_one_def size_min_small
  size_max_small sub64_def Let_def upt3

lemma w25_data_inv: "w25_inv False w25_data"
proof -
  have "decode_range_spi25 (emu_wp_bits w25_data) 16777216 = Some \<lparr>wr_start = 0, wr_len = 0\<rparr>"
    by (simp add: emu_wp_bits_def w25_data_simps decode_evals)
  then show ?thesis
    by (simp add: w25_inv_def w25_data_simps wp_sync_def reg_unlocked_def emu_srp0_def emu_srp1_def u32_def)
qed

text \<open>The upper half of the chip, with the registers under hardware protection.\<close>

theorem wp_write_cfg_protects_witness:
  "\<exists>s' s''. flashrom_wp_write_cfg (w25_env sample_junk)
        \<lparr>cfg_mode = FLASHROM_WP_MODE_HARDWARE, cfg_range = \<lparr>wr_start = 8388608, wr_len = 8388608\<rparr>\<rparr> w25_state =
      Some (FLASHROM_WP_OK, s') \<and>
    flashchip_contents (sp_dev s') = flashchip_contents (sp_dev w25_state) \<and>
    wp_start (sp_dev s') = 8388608 \<and> wp_end (sp_dev s') = 8388608 + 8388608 \<and>
    flashrom_wp_read_cfg (w25_env sample_junk) new_wp_cfg s' =
      Some (FLASHROM_WP_OK, \<lparr>cfg_mode = FLASHROM_WP_MODE_HARDWARE, cfg_range = \<lparr>wr_start = 8388608, wr_len = 8388608\<rparr>\<rparr>, s'')"
proof -
  have "decode_range_spi25 (emu_wp_bits (w25_data\<lparr>emu_status := [0x18, 0, 0]\<rparr>)) 16777216 =
      Some \<lparr>wr_start = 8388608, wr_len = 8388608\<rparr>"
    by (simp add: emu_wp_bits_def decode_evals)
  then show ?thesis
    using wp_write_cfg_protects [of sample_junk False w25_state "w25_data\<lparr>emu_status := [0x18, 0, 0]\<rparr>"
        "\<lparr>cfg_mode = FLASHROM_WP_MODE_HARDWARE, cfg_range = \<lparr>wr_start = 8388608, wr_len = 8388608\<rparr>\<rparr>" new_wp_cfg] w25_data_inv
    by (simp add: sample_junk_def MAX_BP_BITS_def w25_state_def on_dev_def)
qed

end
