(* ===== verification/W25Image.thy ===== *)
theory W25Image
  imports W25Wp
begin

text \<open>
  The image operations on the emulated W25Q128FV: every layer from \<^verbatim>\<open>flashrom_image_write\<close> down to the SPI
  commands of \<^verbatim>\<open>dummyflasher.c\<close>. The write protection found on the chip is removed for the operation,
  by \<^verbatim>\<open>unlock_flash_wp\<close> or \<^verbatim>\<open>spi_disable_blockprotect\<close>, and restored afterwards.
\<close>

section \<open>Unlocking and restoring\<close>

definition w25_access :: "wp_bits \<Rightarrow> emu_data spi_state access" where
  "w25_access junk =
     \<lparr>ac_programmer_may_write = True, ac_spi_features = sm_features spi_master_dummyflasher, ac_map_flash = (\<lambda>s. (0, s)),
      ac_unmap_flash = (\<lambda>s. s), ac_wp = w25_env junk, ac_cfg_alloc = True,
      ac_blockprotect = Some (spi_disable_blockprotect w25q128_chip spi_master_dummyflasher True),
      ac_protected_ranges = [],
      ac_clear_addressing = (\<lambda>s. s\<lparr>sp_address_high_byte := -1, sp_in_4ba_mode := False\<rparr>),
      ac_enter_4ba = spi_enter_exit_4ba w25q128_chip spi_master_dummyflasher True,
      ac_exit_4ba = spi_enter_exit_4ba w25q128_chip spi_master_dummyflasher False,
      ac_delay = (\<lambda>s. s), ac_image_mismatch = (\<lambda>b. False)\<rparr>"

lemma w25_access_simps:
  "ac_wp (w25_access junk) = w25_env junk" "ac_cfg_alloc (w25_access junk)" "ac_protected_ranges (w25_access junk) = []"
  "ac_map_flash (w25_access junk) s = (0, s)" "ac_unmap_flash (w25_access junk) s = s" "ac_delay (w25_access junk) s = s"
  "ac_programmer_may_write (w25_access junk)" "\<not> ac_image_mismatch (w25_access junk) buf"
  by (simp_all add: w25_access_def)

lemma w25_dev_inv:
  "on_dev (w25_inv hw) s \<longleftrightarrow> wp_dev hw (flashchip_contents (sp_dev s)) s \<and> regs_unlocked hw (w25_regs s)"
  by (auto simp: on_dev_def wp_dev_def w25_inv_def reg_unlocked_iff)

lemma wp_dev_inv: "wp_dev hw X s \<Longrightarrow> regs_unlocked hw (w25_regs s) \<Longrightarrow> on_dev (w25_inv hw) s \<and> flashchip_contents (sp_dev s) = X"
  unfolding w25_dev_inv by (auto simp: wp_dev_def on_dev_def)

text \<open>The registers are unlocked in the mode DISABLED, and in the mode HARDWARE when the pin is not active.\<close>

lemma unlocked_mode:
  "regs_unlocked hw R \<longleftrightarrow> get_wp_mode (hw_bits w25q128_reg_bits junk R) = Some FLASHROM_WP_MODE_DISABLED \<or>
     get_wp_mode (hw_bits w25q128_reg_bits junk R) = Some FLASHROM_WP_MODE_HARDWARE \<and> \<not> hw"
  by (auto simp: mode_cases regs_unlocked_def)

text \<open>Restoring a configuration that left the registers unlocked.\<close>

lemma write_cfg_inv:
  assumes j: "length (bp junk) = MAX_BP_BITS" and s: "on_dev (w25_inv hw) s"
    and range: "decode_range_spi25 (emu_wp_bits d) 16777216 = Some (cfg_range cfg)"
    and mode: "cfg_mode cfg = FLASHROM_WP_MODE_DISABLED \<or> cfg_mode cfg = FLASHROM_WP_MODE_HARDWARE \<and> \<not> hw"
  shows "\<exists>s'. flashrom_wp_write_cfg (w25_env junk) cfg s = Some (FLASHROM_WP_OK, s') \<and> on_dev (w25_inv hw) s' \<and>
    dev_img flashchip_contents s' = dev_img flashchip_contents s \<and>
    wp_start (sp_dev s') = wr_start (cfg_range cfg) \<and> wp_end (sp_dev s') = wr_start (cfg_range cfg) + wr_len (cfg_range cfg)"
proof -
  let ?X = "flashchip_contents (sp_dev s)"
  have dev: "wp_dev hw ?X s" "regs_unlocked hw (w25_regs s)" using s by (simp_all add: w25_dev_inv)
  have m: "cfg_mode cfg = FLASHROM_WP_MODE_DISABLED \<or> cfg_mode cfg = FLASHROM_WP_MODE_HARDWARE" using mode by blast
  obtain s' where s': "wp_write_cfg (w25_env junk) cfg s = Some (FLASHROM_WP_OK, s')" "wp_dev hw ?X s'"
    "selects (w25_env junk) (hw_bits w25q128_reg_bits junk (w25_regs s')) (cfg_range cfg)"
    "get_wp_mode (hw_bits w25q128_reg_bits junk (w25_regs s')) = Some (cfg_mode cfg)"
    using write_cfg_ok [OF j dev range m] by blast
  have un: "regs_unlocked hw (w25_regs s')" unfolding unlocked_mode [of _ _ junk] s'(4) using mode by auto
  from wp_dev_inv [OF s'(2) un] protected_range [OF s'(2) j s'(3)] s'(1) show ?thesis
    by (auto simp: w25_env_simps dev_img_def)
qed

text \<open>Registers of value zero select the empty range.\<close>

lemma empty_range: "decode_range_spi25 (emu_wp_bits (zero_data\<lparr>emu_status := [0, 0, 0]\<rparr>)) 16777216 = Some \<lparr>wr_start = 0, wr_len = 0\<rparr>"
  by (simp add: emu_wp_bits_def decode_evals)

lemma disable_ok:
  assumes j: "length (bp junk) = MAX_BP_BITS" and s: "on_dev (w25_inv hw) s"
  shows "\<exists>s'. flashrom_wp_write_cfg (w25_env junk) new_wp_cfg s = Some (FLASHROM_WP_OK, s') \<and> on_dev (w25_writable hw) s' \<and>
    dev_img flashchip_contents s' = dev_img flashchip_contents s"
  using write_cfg_inv [OF j s, of "zero_data\<lparr>emu_status := [0, 0, 0]\<rparr>" new_wp_cfg]
  by (auto simp: empty_range new_wp_cfg_def w25_writable_def on_dev_def unprotected_def)

lemma read_cfg_inv:
  assumes j: "length (bp junk) = MAX_BP_BITS" and s: "on_dev (w25_inv hw) s"
  shows "\<exists>cfg s'. flashrom_wp_read_cfg (w25_env junk) cfg0 s = Some (FLASHROM_WP_OK, cfg, s') \<and> on_dev (w25_inv hw) s' \<and>
    dev_img flashchip_contents s' = dev_img flashchip_contents s \<and> wp_start (sp_dev s') = wp_start (sp_dev s) \<and>
    wp_end (sp_dev s') = wp_end (sp_dev s) \<and>
    decode_range_spi25 (emu_wp_bits (sp_dev s)) 16777216 = Some (cfg_range cfg) \<and>
    wp_start (sp_dev s) = wr_start (cfg_range cfg) \<and> wp_end (sp_dev s) = wr_start (cfg_range cfg) + wr_len (cfg_range cfg) \<and>
    (cfg_mode cfg = FLASHROM_WP_MODE_DISABLED \<or> cfg_mode cfg = FLASHROM_WP_MODE_HARDWARE \<and> \<not> hw)"
proof -
  let ?X = "flashchip_contents (sp_dev s)"
  have dev: "wp_dev hw ?X s" and un: "regs_unlocked hw (w25_regs s)" using s by (simp_all add: w25_dev_inv)
  obtain m r s' where r: "wp_read_cfg (w25_env junk) cfg0 s = Some (FLASHROM_WP_OK, \<lparr>cfg_mode = m, cfg_range = r\<rparr>, s')"
    "wp_dev hw ?X s'" "w25_regs s' = w25_regs s" "selects (w25_env junk) (hw_bits w25q128_reg_bits junk (w25_regs s)) r"
    "get_wp_mode (hw_bits w25q128_reg_bits junk (w25_regs s)) = Some m"
    using wp_registers.wp_read_cfg_ok [OF w25_registers [OF j] dev, of cfg0] by (auto simp: w25_env_simps)
  have sel': "selects (w25_env junk) (hw_bits w25q128_reg_bits junk (w25_regs s')) r" using r(3,4) by simp
  have inv: "on_dev (w25_inv hw) s'" "dev_img flashchip_contents s' = dev_img flashchip_contents s"
    using wp_dev_inv [OF r(2)] un r(3) by (auto simp: dev_img_def)
  have "m = FLASHROM_WP_MODE_DISABLED \<or> m = FLASHROM_WP_MODE_HARDWARE \<and> \<not> hw"
    using un [unfolded unlocked_mode [of _ _ junk] r(5)] by auto
  then show ?thesis
    using r(1,4) inv protected_range [OF dev j r(4)] protected_range [OF r(2) j sel']
    by (auto simp: w25_env_simps selects_iff decode_hw_bits [OF j])
qed

lemma unlock_write_ok:
  assumes j: "length (bp junk) = MAX_BP_BITS" and s: "on_dev (w25_inv hw) s" and "wr \<or> er"
  shows "\<exists>fns s'. unlock_chip (w25_access junk) wr er s = Some (fns, s') \<and> on_dev (w25_writable hw) s' \<and>
    dev_img flashchip_contents s' = dev_img flashchip_contents s \<and>
    (\<forall>t. on_dev (w25_writable hw) t \<longrightarrow> (\<exists>t'. finalize_flash_access (w25_access junk) fns t = Some t' \<and>
       on_dev (w25_inv hw) t' \<and> dev_img flashchip_contents t' = dev_img flashchip_contents t \<and>
       wp_start (sp_dev t') = wp_start (sp_dev s) \<and> wp_end (sp_dev t') = wp_end (sp_dev s)))"
proof -
  obtain cfg s1 where r: "flashrom_wp_read_cfg (w25_env junk) new_wp_cfg s = Some (FLASHROM_WP_OK, cfg, s1)"
    "on_dev (w25_inv hw) s1" "dev_img flashchip_contents s1 = dev_img flashchip_contents s"
    "decode_range_spi25 (emu_wp_bits (sp_dev s)) 16777216 = Some (cfg_range cfg)"
    "wp_start (sp_dev s) = wr_start (cfg_range cfg)" "wp_end (sp_dev s) = wr_start (cfg_range cfg) + wr_len (cfg_range cfg)"
    "cfg_mode cfg = FLASHROM_WP_MODE_DISABLED \<or> cfg_mode cfg = FLASHROM_WP_MODE_HARDWARE \<and> \<not> hw"
    using read_cfg_inv [OF j s, of new_wp_cfg] by blast
  obtain s2 where w: "flashrom_wp_write_cfg (w25_env junk) new_wp_cfg s1 = Some (FLASHROM_WP_OK, s2)"
    "on_dev (w25_writable hw) s2" "dev_img flashchip_contents s2 = dev_img flashchip_contents s1"
    using disable_ok [OF j r(2)] by blast
  let ?f = "restore_flash_wp (w25_access junk) cfg"
  have dr: "we_decode_range (w25_env junk) \<noteq> NO_DECODE_RANGE_FUNC" by (simp add: w25_env_def)
  have "unlock_flash_wp (w25_access junk) wr er [] s = Some (0, [?f], s2)"
    using assms(3) r(1) w(1) by (auto simp: unlock_flash_wp_def save_initial_flash_wp_def w25_access_simps
        register_chip_restore_def MAX_CHIP_RESTORE_FUNCTIONS_def)
  then have u: "unlock_chip (w25_access junk) wr er s = Some ([?f], s2)"
    using dr by (simp add: unlock_chip_def w25_access_simps split: option.split)
  have fin: "\<exists>t'. finalize_flash_access (w25_access junk) [?f] t = Some t' \<and> on_dev (w25_inv hw) t' \<and>
      dev_img flashchip_contents t' = dev_img flashchip_contents t \<and>
      wp_start (sp_dev t') = wp_start (sp_dev s) \<and> wp_end (sp_dev t') = wp_end (sp_dev s)" if t: "on_dev (w25_writable hw) t" for t
  proof -
    have "on_dev (w25_inv hw) t" using t by (simp add: on_dev_def w25_writable_def)
    from write_cfg_inv [OF j this r(4,7)] show ?thesis
      using r(5,6) by (auto simp: finalize_flash_access_def deregister_chip_restore_def restore_flash_wp_def w25_access_simps)
  qed
  from u w(2,3) r(3) fin show ?thesis by (intro exI [where x = "[?f]"] exI [where x = s2]) auto
qed

text \<open>For reading, the block protection bits of the first register are cleared and restored.\<close>

lemma write_status1_inv:
  assumes s: "on_dev (w25_inv hw) s" and v: "\<not> (bit v 7 \<and> hw)"
  shows "\<exists>s'. spi_write_register w25q128_chip spi_master_dummyflasher STATUS1 v s = Some (0, s') \<and> on_dev (w25_inv hw) s' \<and>
    dev_img flashchip_contents s' = dev_img flashchip_contents s \<and>
    emu_status (sp_dev s') = (emu_status (sp_dev s))[0 := v AND NOT (SPI_SR_WIP OR SPI_SR_WEL)]"
proof -
  have d: "w25_ok (sp_dev s)" "wp_sync (sp_dev s)" "hwwp (sp_dev s) = hw" "reg_unlocked (sp_dev s)" "\<not> sp_in_4ba_mode s"
    using s by (simp_all add: on_dev_def w25_inv_def)
  let ?S = "(emu_status (sp_dev s))[reg_index STATUS1 := new_value STATUS1 v (sp_dev s)]"
  let ?s = "s\<lparr>sp_dev := with_status ?S (sp_dev s)\<rparr>"
  note w = write_register_ok [OF d(1,2,4), of STATUS1 v, simplified]
  have len: "length (emu_status (sp_dev s)) = 3" using d(1) by (simp add: w25_ok_def)
  have R: "w25_regs ?s STATUS2 = w25_regs s STATUS2" "bit (w25_regs ?s STATUS1) 7 = bit v 7"
    using w(4) len by (simp_all add: w25_regs_def reg_index_def new_value_def Let_def bit_and_iff bit_or_iff bit_not_iff status_bits)
  have "regs_unlocked hw (w25_regs s)" using d(4) reg_unlocked_iff [OF d(3)] by simp
  then have "regs_unlocked hw (w25_regs ?s)" unfolding regs_unlocked_def R using v by blast
  then have "reg_unlocked (sp_dev ?s)" using reg_unlocked_iff [of ?s hw] w(5) d(3) by simp
  then have "on_dev (w25_inv hw) ?s" using w(2,3,5) d(3,5) by (simp add: on_dev_def w25_inv_def)
  with w(1,4,6) show ?thesis by (auto simp: dev_img_def reg_index_def new_value_def)
qed

definition status_unprotected :: "u8 list \<Rightarrow> u8 list" where
  "status_unprotected S =
     (if S ! 0 AND 0x3C = 0 then S else S[0 := (S ! 0 AND NOT (0x3C OR 0) AND 0xFF) AND NOT (SPI_SR_WIP OR SPI_SR_WEL)])"

text \<open>The protected range at the end is that of \<open>d0\<close>.\<close>

definition w25_end :: "bool \<Rightarrow> emu_data \<Rightarrow> emu_data \<Rightarrow> bool" where
  "w25_end hw d0 d \<longleftrightarrow> w25_inv hw d \<and> wp_start d = wp_start d0 \<and> wp_end d = wp_end d0"

lemma same_range:
  assumes "w25_inv hw d" and "w25_inv hw d0" and "emu_status d ! 0 = emu_status d0 ! 0" "emu_status d ! 1 = emu_status d0 ! 1"
  shows "w25_end hw d0 d"
proof -
  have "emu_wp_bits d = emu_wp_bits d0" using assms(3,4) by (intro emu_wp_bits_cong) simp_all
  then show ?thesis
    using assms(1,2) by (auto simp: w25_end_def w25_inv_def wp_sync_def w25_ok_def split: option.splits)
qed

lemma idle_value: "v AND 3 = (0 :: u8) \<Longrightarrow> v AND NOT (SPI_SR_WIP OR SPI_SR_WEL) = v"
proof -
  assume v: "v AND 3 = 0"
  have "\<not> bit v 0" "\<not> bit v 1"
    using v bit_and_iff [of v 3 0] bit_and_iff [of v 3 1] by (simp_all add: bit_numeral_rec)
  then have "k \<noteq> 0 \<and> k \<noteq> 1" if "bit v k" for k using that by metis
  then show ?thesis
    by (intro bit_word_eqI) (auto simp: bit_and_iff bit_or_iff bit_not_iff status_bits)
qed

lemma unlocked_value:
  assumes "w25_inv hw d"
  shows "\<not> (bit (emu_status d ! 0) 7 \<and> hw)" "length (emu_status d) = 3" "emu_status d ! 0 AND 3 = 0"
proof -
  have "regs_unlocked hw (w25_regs \<lparr>sp_dev = d, sp_address_high_byte = 0, sp_in_4ba_mode = False\<rparr>)"
    using assms reg_unlocked_iff [of "\<lparr>sp_dev = d, sp_address_high_byte = 0, sp_in_4ba_mode = False\<rparr>" hw]
    by (simp add: w25_inv_def)
  then show "\<not> (bit (emu_status d ! 0) 7 \<and> hw)" by (simp add: regs_unlocked_def w25_regs_def)
  show "length (emu_status d) = 3" "emu_status d ! 0 AND 3 = 0" using assms by (simp_all add: w25_inv_def w25_ok_def)
qed

lemma restore_status_ok:
  assumes t: "on_dev (w25_inv hw) t" "emu_status (sp_dev t) ! 1 = emu_status d0 ! 1" and d0: "w25_inv hw d0"
  shows "\<exists>t'. finalize_flash_access (w25_access junk) [spi_restore_status w25q128_chip spi_master_dummyflasher (emu_status d0 ! 0)] t =
      Some t' \<and> on_dev (w25_end hw d0) t' \<and> dev_img flashchip_contents t' = dev_img flashchip_contents t"
proof -
  have l: "length (emu_status (sp_dev t)) = 3" using t(1) by (simp add: on_dev_def w25_inv_def w25_ok_def)
  from write_status1_inv [OF t(1) unlocked_value(1) [OF d0]] obtain t' where
    t': "spi_write_register w25q128_chip spi_master_dummyflasher STATUS1 (emu_status d0 ! 0) t = Some (0, t')"
    "on_dev (w25_inv hw) t'" "dev_img flashchip_contents t' = dev_img flashchip_contents t"
    "emu_status (sp_dev t') = (emu_status (sp_dev t))[0 := emu_status d0 ! 0]"
    using idle_value [OF unlocked_value(3) [OF d0]] by auto
  have "w25_end hw d0 (sp_dev t')" using t'(2,4) d0 t(2) l by (intro same_range) (simp_all add: on_dev_def)
  with t' show ?thesis
    by (auto simp: finalize_flash_access_def deregister_chip_restore_def spi_restore_status_def w25_access_simps on_dev_def)
qed

lemma unlock_read_eq:
  "unlock_chip (w25_access junk) False False s =
     map_option snd (spi_disable_blockprotect w25q128_chip spi_master_dummyflasher True [] s)"
proof -
  have "we_decode_range (w25_env junk) \<noteq> NO_DECODE_RANGE_FUNC"
    "ac_blockprotect (w25_access junk) = Some (spi_disable_blockprotect w25q128_chip spi_master_dummyflasher True)"
    by (simp_all add: w25_env_def w25_access_def)
  then show ?thesis by (simp add: unlock_chip_def w25_access_simps unlock_flash_wp_def)
qed

lemma unlock_read_ok:
  assumes s: "on_dev (w25_keep hw (emu_status d0)) s" and d0: "w25_inv hw d0"
  shows "\<exists>fns s'. unlock_chip (w25_access junk) False False s = Some (fns, s') \<and>
    on_dev (w25_keep hw (status_unprotected (emu_status d0))) s' \<and> dev_img flashchip_contents s' = dev_img flashchip_contents s \<and>
    (\<forall>t. on_dev (w25_keep hw (status_unprotected (emu_status d0))) t \<longrightarrow>
       (\<exists>t'. finalize_flash_access (w25_access junk) fns t = Some t' \<and> on_dev (w25_end hw d0) t' \<and>
         dev_img flashchip_contents t' = dev_img flashchip_contents t))"
proof -
  let ?chip = w25q128_chip and ?m = spi_master_dummyflasher and ?v = "emu_status d0 ! 0"
  have inv: "on_dev (w25_inv hw) s" "emu_status (sp_dev s) = emu_status d0" using s by (simp_all add: on_dev_def w25_keep_def)
  have rd: "spi_read_register ?chip ?m STATUS1 t = Some (0, emu_status (sp_dev t) ! 0, t)" if "on_dev (w25_inv hw) t" for t
    using that read_register_ok [of t STATUS1] by (simp add: on_dev_def w25_inv_def w25_regs_def)
  show ?thesis
  proof (cases "?v AND 0x3C = 0")
    case True
    then have "spi_disable_blockprotect ?chip ?m True [] s = Some (0, [], s)"
      by (simp add: spi_disable_blockprotect_def spi_disable_blockprotect_generic_def rd [OF inv(1)] inv(2))
    moreover have "status_unprotected (emu_status d0) = emu_status d0" using True by (simp add: status_unprotected_def)
    moreover have "on_dev (w25_end hw d0) t" if "on_dev (w25_keep hw (emu_status d0)) t" for t
      using that same_range [OF _ d0] by (simp add: on_dev_def w25_keep_def)
    ultimately show ?thesis
      using s by (auto simp: unlock_read_eq finalize_flash_access_def deregister_chip_restore_def w25_access_simps)
  next
    case False
    let ?w = "?v AND NOT (0x3C OR 0) AND 0xFF"
    have "\<not> (bit ?w 7 \<and> hw)" using unlocked_value(1) [OF d0] by (auto simp only: bit_and_iff)
    from write_status1_inv [OF inv(1) this] obtain s1 where
      s1: "spi_write_register ?chip ?m STATUS1 ?w s = Some (0, s1)" "on_dev (w25_inv hw) s1"
      "dev_img flashchip_contents s1 = dev_img flashchip_contents s" "emu_status (sp_dev s1) = status_unprotected (emu_status d0)"
      using inv(2) False by (auto simp: status_unprotected_def)
    have "\<exists>r. spi_disable_blockprotect ?chip ?m True [] s = Some (r, [spi_restore_status ?chip ?m ?v], s1)"
      using False s1(1) by (simp add: spi_disable_blockprotect_def spi_disable_blockprotect_generic_def rd [OF inv(1)] rd [OF s1(2)]
          inv(2) clear_lock_bits_def register_chip_restore_def MAX_CHIP_RESTORE_FUNCTIONS_def Let_def)
    then have u: "unlock_chip (w25_access junk) False False s = Some ([spi_restore_status ?chip ?m ?v], s1)"
      by (auto simp: unlock_read_eq)
    have "status_unprotected (emu_status d0) ! 1 = emu_status d0 ! 1" by (simp add: status_unprotected_def)
    then have "\<exists>t'. finalize_flash_access (w25_access junk) [spi_restore_status ?chip ?m ?v] t = Some t' \<and> on_dev (w25_end hw d0) t' \<and>
        dev_img flashchip_contents t' = dev_img flashchip_contents t" if "on_dev (w25_keep hw (status_unprotected (emu_status d0))) t" for t
      using restore_status_ok [OF _ _ d0, of t] that by (simp add: on_dev_def w25_keep_def)
    with u s1(2-4) show ?thesis by (auto simp: on_dev_def w25_keep_def)
  qed
qed

section \<open>The image operations\<close>

lemma w25_no_4ba_chip: "\<not> spi_chip_4ba (w25_ctx d0 lay fl ratio fresh)"
  by (simp add: spi_chip_4ba_def w25_ctx_simps w25q128_chip_def FEATURE_4BA_ENTER_def FEATURE_4BA_ENTER_WREN_def
      FEATURE_4BA_ENTER_EAR7_def FEATURE_WRSR_WREN_def FEATURE_OTP_def FEATURE_WRSR_EXT2_def FEATURE_WRSR2_def FEATURE_WRSR3_def)

lemma w25_prepare_4ba:
  "prepare_4ba (w25_ctx d0 lay fl ratio fresh) (w25_access junk) s = Some (0, s\<lparr>sp_address_high_byte := -1, sp_in_4ba_mode := False\<rparr>)"
  by (simp add: prepare_4ba_def w25_no_4ba_chip w25_ctx_simps w25_chip_simps w25_access_def)

lemma w25_checks:
  assumes "spi_blacklist d0 = []"
  shows "chip_safety_check (w25_ctx d0 lay fl ratio fresh) (w25_access junk) force rd wr er ve = 0"
  by (simp add: chip_safety_check_def w25_ctx_simps w25_chip_simps Let_def lookup_read_func_ptr_def lookup_write_func_ptr_def
      w25_access_simps length_usable_erasers [symmetric] w25_usable [OF assms] w25_erasers_def)

lemma w25_active_range:
  assumes j: "length (bp junk) = MAX_BP_BITS" and s: "on_dev (w25_writable hw) s"
  shows "\<exists>s'. active_wp_range (w25_access junk) s = Some (None, s') \<and> on_dev (w25_writable hw) s' \<and>
    dev_img flashchip_contents s' = dev_img flashchip_contents s"
proof -
  have "on_dev (w25_inv hw) s" "wp_end (sp_dev s) = 0" "wp_start (sp_dev s) = 0"
    using s by (simp_all add: on_dev_def w25_writable_def unprotected_def)
  with read_cfg_inv [OF j this(1), of new_wp_cfg] show ?thesis
    by (auto simp: active_wp_range_def w25_access_simps on_dev_def w25_writable_def unprotected_def)
qed

lemma w25_image_device:
  assumes j: "length (bp junk) = MAX_BP_BITS" and d0: "w25_inv hw d0"
    and lay: "layout_sanity_checks 16384 (get_layout (w25_ctx d0 lay fl ratio fresh)) = 0"
  shows "image_device (w25_ctx d0 lay fl ratio fresh) 16777216 (on_dev (w25_writable hw)) (dev_img flashchip_contents)
    (on_dev (w25_keep hw (status_unprotected (emu_status d0)))) (w25_access junk) (on_dev (w25_keep hw (emu_status d0)))
    (on_dev (w25_end hw d0))"
proof -
  have bl: "spi_blacklist d0 = []" using d0 by (simp add: w25_inv_def w25_ok_def)
  let ?c = "w25_ctx d0 lay fl ratio fresh" and ?a = "w25_access junk"
  show ?thesis
  proof (intro image_device.intro image_device_axioms.intro w25_erase_device w25_full_reader bl)
    show "chip_safety_check ?c ?a (fl_force (c_flags ?c)) rd wr er ve = 0" for rd wr er ve by (rule w25_checks [OF bl])
    show "layout_sanity_checks (ch_total_size (c_chip ?c)) (get_layout ?c) = 0" using lay by (simp add: w25_ctx_simps w25_chip_simps)
    show "entries_ok 16777216 (get_default_layout ?c)" by (simp add: get_default_layout_def w25_ctx_simps entries_whole_chip)
    show "\<exists>fns s'. unlock_chip ?a wr er s = Some (fns, s') \<and> on_dev (w25_writable hw) s' \<and>
        dev_img flashchip_contents s' = dev_img flashchip_contents s \<and>
        (\<forall>t. on_dev (w25_writable hw) t \<longrightarrow> (\<exists>t'. finalize_flash_access ?a fns t = Some t' \<and> on_dev (w25_end hw d0) t' \<and>
          dev_img flashchip_contents t' = dev_img flashchip_contents t))" if "on_dev (w25_keep hw (emu_status d0)) s" "wr \<or> er" for s wr er
    proof -
      have "on_dev (w25_inv hw) s" "w25_end hw d0 (sp_dev s)" using that(1) same_range [OF _ d0, of "sp_dev s"]
        by (simp_all add: on_dev_def w25_keep_def)
      then have e: "on_dev (w25_end hw d0) t \<longleftrightarrow> on_dev (w25_inv hw) t \<and> wp_start (sp_dev t) = wp_start (sp_dev s) \<and>
          wp_end (sp_dev t) = wp_end (sp_dev s)" for t by (auto simp: w25_end_def on_dev_def)
      from unlock_write_ok [OF j \<open>on_dev (w25_inv hw) s\<close> that(2)] show ?thesis by (fastforce simp: e)
    qed
    show "\<exists>fns s'. unlock_chip ?a False False s = Some (fns, s') \<and> on_dev (w25_keep hw (status_unprotected (emu_status d0))) s' \<and>
        dev_img flashchip_contents s' = dev_img flashchip_contents s \<and>
        (\<forall>t. on_dev (w25_keep hw (status_unprotected (emu_status d0))) t \<longrightarrow> (\<exists>t'. finalize_flash_access ?a fns t = Some t' \<and>
          on_dev (w25_end hw d0) t' \<and> dev_img flashchip_contents t' = dev_img flashchip_contents t))"
      if "on_dev (w25_keep hw (emu_status d0)) s" for s using unlock_read_ok [OF that d0] .
    show "\<exists>s'. active_wp_range ?a s = Some (None, s') \<and> on_dev (w25_writable hw) s' \<and>
        dev_img flashchip_contents s' = dev_img flashchip_contents s" if "on_dev (w25_writable hw) s" for s
      using w25_active_range [OF j that] .
    show "\<not> write_protected ?c i" for i by (simp add: write_protected_def w25_region)
  qed (simp_all add: w25_access_simps w25_prepare_4ba on_dev_def dev_img_def)
qed

lemma w25_default_checked:
  "get_layout (w25_ctx d0 None fl ratio fresh) = whole_chip 16777216"
  "layout_sanity_checks 16384 (get_layout (w25_ctx d0 None fl ratio fresh)) = 0"
  using whole_chip_checked [of 16384] by (simp_all add: get_layout_def get_default_layout_def w25_ctx_simps)

text \<open>The chip as the emulator starts, and one with the protection of the upper half.\<close>

definition w25_protected :: emu_data where
  "w25_protected = w25_data\<lparr>emu_status := [0x18, 0, 0], wp_start := 8388608, wp_end := 16777216\<rparr>"

definition w25_protected_state :: "emu_data spi_state" where
  "w25_protected_state = \<lparr>sp_dev = w25_protected, sp_address_high_byte = -1, sp_in_4ba_mode = False\<rparr>"

lemma w25_protected_inv: "w25_inv False w25_protected"
proof -
  have "decode_range_spi25 (emu_wp_bits w25_protected) 16777216 = Some \<lparr>wr_start = 8388608, wr_len = 8388608\<rparr>"
    by (simp add: emu_wp_bits_def w25_protected_def decode_evals)
  moreover have "w25_ok w25_protected"
    using w25_data_simps(7) by (simp add: w25_ok_def w25_protected_def)
  moreover have "emu_chip_size w25_protected = 16777216" "\<not> hwwp w25_protected" by (simp_all add: w25_protected_def w25_data_simps)
  ultimately show ?thesis
    by (simp add: w25_inv_def wp_sync_def reg_unlocked_def emu_srp0_def emu_srp1_def u32_def)
      (simp add: w25_protected_def)
qed

interpretation w25i: image_device "w25_ctx w25_protected None sample_flags 0 (\<lambda>i. 0)" 16777216 "on_dev (w25_writable False)"
    "dev_img flashchip_contents" "on_dev (w25_keep False (status_unprotected (emu_status w25_protected)))" "w25_access sample_junk"
    "on_dev (w25_keep False (emu_status w25_protected))" "on_dev (w25_end False w25_protected)"
  by (rule w25_image_device [OF _ w25_protected_inv w25_default_checked(2)]) (simp add: sample_junk_def MAX_BP_BITS_def)

lemma w25_image_write:
  assumes j: "length (bp junk) = MAX_BP_BITS" and s: "on_dev (w25_inv hw) s"
    and lay: "layout_sanity_checks 16384 (get_layout (w25_ctx (sp_dev s) lay fl ratio fresh)) = 0"
    and some: "\<exists>e \<in> set (get_layout (w25_ctx (sp_dev s) lay fl ratio fresh)). re_included e"
    and len: "length buf = 16777216" and ref: "ref = None \<or> ref = Some (flashchip_contents (sp_dev s))"
  shows "\<exists>buf' s'. flashrom_image_write (w25_ctx (sp_dev s) lay fl ratio fresh) (w25_access junk) fns0 buf ref s = Some (0, buf', s') \<and>
    on_dev (w25_inv hw) s' \<and> wp_start (sp_dev s') = wp_start (sp_dev s) \<and> wp_end (sp_dev s') = wp_end (sp_dev s) \<and>
    flashchip_contents (sp_dev s') = overlay buf (covered (get_layout (w25_ctx (sp_dev s) lay fl ratio fresh))) (flashchip_contents (sp_dev s))"
proof -
  have d0: "w25_inv hw (sp_dev s)" "on_dev (w25_keep hw (emu_status (sp_dev s))) s" using s by (simp_all add: on_dev_def w25_keep_def)
  have w: "walk_included (get_layout (w25_ctx (sp_dev s) lay fl ratio fresh)) [] \<noteq> []" using some by (auto simp: filter_empty_conv)
  have m: "ac_image_mismatch (w25_access junk) buf \<longrightarrow> fl_force_boardmismatch (c_flags (w25_ctx (sp_dev s) lay fl ratio fresh))"
    by (simp add: w25_access_simps)
  have r: "ref = None \<or> ref = Some (dev_img flashchip_contents s)" using ref by (simp add: dev_img_def)
  from image_device.image_write_ok [OF w25_image_device [OF j d0(1) lay] d0(2) len r w m, of fns0] show ?thesis
    by (auto simp: on_dev_def w25_end_def dev_img_def)
qed

text \<open>C3: \<^verbatim>\<open>flashrom_image_write\<close> on the emulated W25Q128FV, through the SPI layer, for every layout that passes
  the sanity checks and includes a region: whatever range the status registers protect, as long as they can
  be written, it returns 0, the chip then holds the image in the included regions and its old bytes
  elsewhere, and the range found at the start is protected again.\<close>

theorem w25_image_write_correct:
  assumes j: "length (bp junk) = MAX_BP_BITS" and s: "on_dev (w25_inv hw) s"
    and lay: "layout_sanity_checks 16384 (get_layout (w25_ctx (sp_dev s) lay fl ratio fresh)) = 0"
    and some: "\<exists>e \<in> set (get_layout (w25_ctx (sp_dev s) lay fl ratio fresh)). re_included e"
    and len: "length buf = 16777216" and ref: "ref = None \<or> ref = Some (flashchip_contents (sp_dev s))"
  shows "\<exists>buf' s'. flashrom_image_write (w25_ctx (sp_dev s) lay fl ratio fresh) (w25_access junk) fns0 buf ref s = Some (0, buf', s') \<and>
    on_dev (w25_inv hw) s' \<and> wp_start (sp_dev s') = wp_start (sp_dev s) \<and> wp_end (sp_dev s') = wp_end (sp_dev s) \<and>
    flashchip_contents (sp_dev s') = overlay buf (covered (get_layout (w25_ctx (sp_dev s) lay fl ratio fresh))) (flashchip_contents (sp_dev s))"
  using assms by (rule w25_image_write)

theorem w25_image_write_witness:
  "\<exists>buf' s'. flashrom_image_write (w25_ctx (sp_dev w25_protected_state) None sample_flags 0 (\<lambda>i. 0)) (w25_access sample_junk) []
      (replicate 16777216 0x5a) None w25_protected_state = Some (0, buf', s') \<and>
    on_dev (w25_inv False) s' \<and> wp_start (sp_dev s') = 8388608 \<and> wp_end (sp_dev s') = 16777216 \<and>
    flashchip_contents (sp_dev s') = overlay (replicate 16777216 0x5a)
      (covered (get_layout (w25_ctx (sp_dev w25_protected_state) None sample_flags 0 (\<lambda>i. 0)))) (flashchip_contents w25_protected)"
proof -
  have dev: "sp_dev w25_protected_state = w25_protected" by (simp add: w25_protected_state_def)
  have "wp_start w25_protected = 8388608" "wp_end w25_protected = 16777216" by (simp_all add: w25_protected_def)
  moreover have "on_dev (w25_inv False) w25_protected_state"
    by (simp add: on_dev_def w25_protected_inv w25_protected_state_def)
  ultimately show ?thesis
    using w25_image_write_correct [of sample_junk False w25_protected_state None sample_flags 0 "\<lambda>i. 0" "replicate 16777216 0x5a" None "[]"]
      w25_default_checked(2)
    unfolding dev by (simp add: sample_junk_def MAX_BP_BITS_def w25_default_checked(1) whole_chip_def)
qed

lemma w25_flash_erase:
  assumes j: "length (bp junk) = MAX_BP_BITS" and s: "on_dev (w25_inv hw) s"
    and lay: "layout_sanity_checks 16384 (get_layout (w25_ctx (sp_dev s) lay fl ratio fresh)) = 0"
  shows "\<exists>s'. flashrom_flash_erase (w25_ctx (sp_dev s) lay fl ratio fresh) (w25_access junk) fns0 s = Some (0, s') \<and>
    on_dev (w25_inv hw) s' \<and> wp_start (sp_dev s') = wp_start (sp_dev s) \<and> wp_end (sp_dev s') = wp_end (sp_dev s) \<and>
    flashchip_contents (sp_dev s') =
      overlay (replicate 16777216 0xff) (covered (get_layout (w25_ctx (sp_dev s) lay fl ratio fresh))) (flashchip_contents (sp_dev s))"
proof -
  have d0: "w25_inv hw (sp_dev s)" "on_dev (w25_keep hw (emu_status (sp_dev s))) s" using s by (simp_all add: on_dev_def w25_keep_def)
  have "ch_gran (c_chip (w25_ctx (sp_dev s) lay fl ratio fresh)) \<noteq> WRITE_GRAN_1BYTE_IMPLICIT_ERASE"
    by (simp add: w25_ctx_simps w25_chip_simps)
  from image_device.flash_erase_ok [OF w25_image_device [OF j d0(1) lay] d0(2) this, of fns0] show ?thesis
    by (auto simp: on_dev_def w25_end_def dev_img_def w25_erased)
qed

text \<open>C10: \<^verbatim>\<open>flashrom_flash_erase\<close> on the emulated W25Q128FV returns 0 and sets exactly the bytes of the included
  regions to 0xff, with whatever mixture of the five erase functions of the chip it chooses, and protects
  the range found at the start again.\<close>

theorem w25_flash_erase_correct:
  assumes j: "length (bp junk) = MAX_BP_BITS" and s: "on_dev (w25_inv hw) s"
    and lay: "layout_sanity_checks 16384 (get_layout (w25_ctx (sp_dev s) lay fl ratio fresh)) = 0"
  shows "\<exists>s'. flashrom_flash_erase (w25_ctx (sp_dev s) lay fl ratio fresh) (w25_access junk) fns0 s = Some (0, s') \<and>
    on_dev (w25_inv hw) s' \<and> wp_start (sp_dev s') = wp_start (sp_dev s) \<and> wp_end (sp_dev s') = wp_end (sp_dev s) \<and>
    flashchip_contents (sp_dev s') =
      overlay (replicate 16777216 0xff) (covered (get_layout (w25_ctx (sp_dev s) lay fl ratio fresh))) (flashchip_contents (sp_dev s))"
  using assms by (rule w25_flash_erase)

theorem w25_flash_erase_witness:
  "\<exists>s'. flashrom_flash_erase (w25_ctx (sp_dev w25_state) None sample_flags 0 (\<lambda>i. 0)) (w25_access sample_junk) [] w25_state = Some (0, s') \<and>
    on_dev (w25_inv False) s' \<and> wp_start (sp_dev s') = wp_start (sp_dev w25_state) \<and> wp_end (sp_dev s') = wp_end (sp_dev w25_state) \<and>
    flashchip_contents (sp_dev s') = overlay (replicate 16777216 0xff)
      (covered (get_layout (w25_ctx (sp_dev w25_state) None sample_flags 0 (\<lambda>i. 0)))) (flashchip_contents (sp_dev w25_state))"
  by (rule w25_flash_erase_correct)
    (simp_all add: sample_junk_def MAX_BP_BITS_def w25_data_inv w25_state_def on_dev_def w25_default_checked(2))

lemma w25_image_read:
  assumes j: "length (bp junk) = MAX_BP_BITS" and s: "on_dev (w25_inv hw) s"
    and lay: "layout_sanity_checks 16384 (get_layout (w25_ctx (sp_dev s) lay fl ratio fresh)) = 0"
    and len: "length buf = 16777216"
  shows "\<exists>s'. flashrom_image_read (w25_ctx (sp_dev s) lay fl ratio fresh) (w25_access junk) fns0 buf s =
      Some (0, overlay (flashchip_contents (sp_dev s)) (covered (get_layout (w25_ctx (sp_dev s) lay fl ratio fresh))) buf, s') \<and>
    on_dev (w25_inv hw) s' \<and> wp_start (sp_dev s') = wp_start (sp_dev s) \<and> wp_end (sp_dev s') = wp_end (sp_dev s) \<and>
    flashchip_contents (sp_dev s') = flashchip_contents (sp_dev s)"
proof -
  let ?c = "w25_ctx (sp_dev s) lay fl ratio fresh"
  have d0: "w25_inv hw (sp_dev s)" "on_dev (w25_keep hw (emu_status (sp_dev s))) s" using s by (simp_all add: on_dev_def w25_keep_def)
  obtain b s' where r: "flashrom_image_read ?c (w25_access junk) fns0 buf s = Some (0, b, s')" "on_dev (w25_end hw (sp_dev s)) s'"
    "dev_img flashchip_contents s' = dev_img flashchip_contents s" "length b = length buf"
    "\<forall>i < length buf. b ! i = (if covered (get_layout ?c) i then dev_img flashchip_contents s ! i else buf ! i)"
    using image_device.image_read_ok [OF w25_image_device [OF j d0(1) lay] d0(2), of buf fns0] len by auto
  have "b = overlay (flashchip_contents (sp_dev s)) (covered (get_layout ?c)) buf"
    using r(4,5) by (intro nth_equalityI) (auto simp: buf_simps dev_img_def)
  with r show ?thesis by (auto simp: on_dev_def w25_end_def dev_img_def)
qed

text \<open>\<^verbatim>\<open>flashrom_image_read\<close> on the emulated W25Q128FV returns 0, fills the included regions of the buffer with
  the contents of the chip, leaves the rest of the buffer and the contents alone, and restores the protection
  that it lifted before reading.\<close>

theorem w25_image_read_correct:
  assumes j: "length (bp junk) = MAX_BP_BITS" and s: "on_dev (w25_inv hw) s"
    and lay: "layout_sanity_checks 16384 (get_layout (w25_ctx (sp_dev s) lay fl ratio fresh)) = 0"
    and len: "length buf = 16777216"
  shows "\<exists>s'. flashrom_image_read (w25_ctx (sp_dev s) lay fl ratio fresh) (w25_access junk) fns0 buf s =
      Some (0, overlay (flashchip_contents (sp_dev s)) (covered (get_layout (w25_ctx (sp_dev s) lay fl ratio fresh))) buf, s') \<and>
    on_dev (w25_inv hw) s' \<and> wp_start (sp_dev s') = wp_start (sp_dev s) \<and> wp_end (sp_dev s') = wp_end (sp_dev s) \<and>
    flashchip_contents (sp_dev s') = flashchip_contents (sp_dev s)"
  using assms by (rule w25_image_read)

theorem w25_image_read_witness:
  "\<exists>s'. flashrom_image_read (w25_ctx (sp_dev w25_protected_state) None sample_flags 0 (\<lambda>i. 0)) (w25_access sample_junk) []
      (replicate 16777216 0) w25_protected_state =
      Some (0, overlay (flashchip_contents (sp_dev w25_protected_state))
        (covered (get_layout (w25_ctx (sp_dev w25_protected_state) None sample_flags 0 (\<lambda>i. 0)))) (replicate 16777216 0), s') \<and>
    on_dev (w25_inv False) s' \<and> wp_start (sp_dev s') = wp_start (sp_dev w25_protected_state) \<and>
    wp_end (sp_dev s') = wp_end (sp_dev w25_protected_state) \<and>
    flashchip_contents (sp_dev s') = flashchip_contents (sp_dev w25_protected_state)"
  by (rule w25_image_read_correct)
    (simp_all add: sample_junk_def MAX_BP_BITS_def w25_protected_inv w25_protected_state_def on_dev_def w25_default_checked(2))

end
