(* ===== verification/EmuSafety.thy ===== *)
theory EmuSafety
  imports W25Image
begin

text \<open>
  What the emulated chips guarantee whatever the programmer sends: no SPI command changes a byte of the
  protected range, and a chip with locked status registers keeps the lock, the range and the bytes in it
  under every sequence of commands. The sequences are the step relation \<open>spi_reach\<close>.
\<close>

section \<open>The array\<close>

definition in_range :: "emu_data \<Rightarrow> nat \<Rightarrow> bool" where
  "in_range d i \<longleftrightarrow> wp_start d \<le> i \<and> i < wp_end d"

definition bytes_kept :: "emu_data \<Rightarrow> emu_data \<Rightarrow> bool" where
  "bytes_kept d d' \<longleftrightarrow> length (flashchip_contents d') = length (flashchip_contents d) \<and>
     (\<forall>i < length (flashchip_contents d). in_range d i \<longrightarrow> flashchip_contents d' ! i = flashchip_contents d ! i)"

named_theorems emu_kept \<open>what the command groups keep\<close>

lemma bytes_kept_refl [emu_kept, simp]: "bytes_kept d d"
  by (simp add: bytes_kept_def)

lemma bytes_kept_status [emu_kept, simp]:
  "bytes_kept d (d'\<lparr>emu_status := S\<rparr>) = bytes_kept d d'" "bytes_kept (d\<lparr>emu_status := S\<rparr>) d' = bytes_kept d d'"
  "bytes_kept d (d'\<lparr>emu_aai_offs := x\<rparr>) = bytes_kept d d'" "bytes_kept (d\<lparr>emu_aai_offs := x\<rparr>) d' = bytes_kept d d'"
  by (simp_all add: bytes_kept_def in_range_def)

lemma bytes_kept_simps [emu_kept, simp]:
  "bytes_kept d (clear_wel d') = bytes_kept d d'" "bytes_kept d (put_reg reg k v d') = bytes_kept d d'"
  by (simp_all add: clear_wel_def put_reg_def Let_def)

lemma bytes_kept_update [emu_kept]: "update_write_protection d = Some d' \<Longrightarrow> bytes_kept d0 d' = bytes_kept d0 d"
  by (auto simp: update_write_protection_def bytes_kept_def split: if_splits)

text \<open>The check against the protected range is right as long as addresses do not wrap around.\<close>

lemma unprotected_disjoint:
  assumes "\<not> is_write_protected d start len" and "start + len \<le> 4294967296" and "in_range d i"
  shows "i < start \<or> start + len \<le> i"
proof (cases "len = 0")
  case False
  then have "sub32 (add32 start len) 1 = start + len - 1"
  proof (cases "start + len = 4294967296")
    case True
    then show ?thesis by (simp add: add32_def sub32_def)
  next
    case False
    with assms(2) \<open>len \<noteq> 0\<close> show ?thesis by (simp add: c_simps)
  qed
  with assms False show ?thesis by (auto simp: is_write_protected_def in_range_def Let_def)
qed auto

lemma write_flash_data_kept [emu_kept]:
  assumes "write_flash_data d start buf = Some (e, d')" and "length (flashchip_contents d) \<le> 4294967296"
  shows "bytes_kept d d'"
proof (cases "is_write_protected d start (length buf)")
  case False
  with assms have d': "start + length buf \<le> length (flashchip_contents d)"
    "flashchip_contents d' = blit start buf (flashchip_contents d)"
    by (auto simp: write_flash_data_def split: if_splits)
  have "blit start buf (flashchip_contents d) ! i = flashchip_contents d ! i"
    if "in_range d i" "i < length (flashchip_contents d)" for i
    using unprotected_disjoint [OF False _ that(1)] assms(2) d'(1) that(2) by (auto simp: buf_simps)
  with d' show ?thesis by (simp add: bytes_kept_def)
qed (use assms in \<open>simp add: write_flash_data_def\<close>)

lemma erase_flash_data_kept [emu_kept]:
  assumes "erase_flash_data d start len = Some (e, d')" and "length (flashchip_contents d) \<le> 4294967296"
  shows "bytes_kept d d'"
proof (cases "is_write_protected d start len")
  case False
  with assms have d': "start + len \<le> length (flashchip_contents d)"
    "flashchip_contents d' = memset_at start 0xff len (flashchip_contents d)"
    by (auto simp: erase_flash_data_def split: if_splits)
  have "memset_at start 0xff len (flashchip_contents d) ! i = flashchip_contents d ! i"
    if "in_range d i" "i < length (flashchip_contents d)" for i
    using unprotected_disjoint [OF False _ that(1)] assms(2) d'(1) that(2) by (auto simp: buf_simps)
  with d' show ?thesis by (simp add: bytes_kept_def)
qed (use assms in \<open>simp add: erase_flash_data_def\<close>)

text \<open>The command groups, and a whole command.\<close>

lemma update_kept: "Option.bind (update_write_protection d) (brk r) = Some (ret, r', d') \<Longrightarrow> bytes_kept d0 d \<Longrightarrow> bytes_kept d0 d'"
  by (cases "update_write_protection d") (auto simp: brk_def bytes_kept_update)

lemma program_kept:
  "Option.bind (write_flash_data d a buf) (\<lambda>(e, d'). if e \<noteq> 0 then fail r d' else brk r d') = Some (ret, r', d') \<Longrightarrow>
    length (flashchip_contents d) \<le> 4294967296 \<Longrightarrow> bytes_kept d d'"
  by (cases "write_flash_data d a buf") (auto simp: brk_def fail_def write_flash_data_kept split: if_splits)

lemma erase_kept:
  "Option.bind (erase_flash_data d a len) (\<lambda>(e, d'). if e \<noteq> 0 then fail r d' else brk r d') = Some (ret, r', d') \<Longrightarrow>
    length (flashchip_contents d) \<le> 4294967296 \<Longrightarrow> bytes_kept d d'"
  by (cases "erase_flash_data d a len") (auto simp: brk_def fail_def erase_flash_data_kept split: if_splits)

lemma aai_kept:
  assumes "Option.bind (write_flash_data d a buf) (\<lambda>(e, d2).
      if e \<noteq> 0 then fail r d2 else brk r (d2\<lparr>emu_aai_offs := add32 (emu_aai_offs d2) 2\<rparr>)) = Some (ret, r', d')"
    and "length (flashchip_contents d) \<le> 4294967296"
  shows "bytes_kept d d'"
  using assms by (cases "write_flash_data d a buf") (auto simp: brk_def fail_def write_flash_data_kept split: if_splits)

lemma emu_aai_kept:
  assumes run: "emu_aai w r d = Some (ret, r', d')" and len: "length (flashchip_contents d) \<le> 4294967296"
  shows "bytes_kept d d'"
proof -
  consider "d' = d" | a where "addr24 w = Some a" "emu_chip_size d \<noteq> 0"
      "Option.bind (write_flash_data (d\<lparr>emu_status := (emu_status d)[0 := emu_status d ! 0 OR SPI_SR_AAI],
          emu_aai_offs := a mod emu_chip_size d\<rparr>) (a mod emu_chip_size d) (drop 4 w))
        (\<lambda>(e, d2). if e \<noteq> 0 then fail r d2 else brk r (d2\<lparr>emu_aai_offs := add32 (emu_aai_offs d2) 2\<rparr>)) = Some (ret, r', d')"
    | "Option.bind (write_flash_data d (emu_aai_offs d) (drop 1 w))
        (\<lambda>(e, d2). if e \<noteq> 0 then fail r d2 else brk r (d2\<lparr>emu_aai_offs := add32 (emu_aai_offs d2) 2\<rparr>)) = Some (ret, r', d')"
    using run by (auto simp: emu_aai_def brk_def fail_def Let_def bind_eq_Some_conv split: if_splits)
  then show ?thesis
  proof cases
    case 2
    from aai_kept [OF 2(3)] len show ?thesis by simp
  next
    case 3
    from aai_kept [OF 3 len] show ?thesis .
  qed simp
qed

lemma emu_groups_kept:
  assumes len: "length (flashchip_contents d) \<le> 4294967296"
  shows "emu_program addr k w r d = Some (ret, r', d') \<Longrightarrow> bytes_kept d d'"
    and "emu_block_erase sz w r d = Some (ret, r', d') \<Longrightarrow> bytes_kept d d'"
    and "emu_chip_erase sz w r d = Some (ret, r', d') \<Longrightarrow> bytes_kept d d'"
    and "emu_wrsr w r d = Some (ret, r', d') \<Longrightarrow> bytes_kept d d'"
    and "emu_wrsr2 w r d = Some (ret, r', d') \<Longrightarrow> bytes_kept d d'"
    and "emu_wrsr3 w r d = Some (ret, r', d') \<Longrightarrow> bytes_kept d d'"
proof -
  show "emu_program addr k w r d = Some (ret, r', d') \<Longrightarrow> bytes_kept d d'"
    by (cases addr) (auto simp: emu_program_def fail_def split: if_splits dest: program_kept [OF _ len])
  show "emu_block_erase sz w r d = Some (ret, r', d') \<Longrightarrow> bytes_kept d d'"
    by (cases "addr24 w") (auto simp: emu_block_erase_def brk_def fail_def split: if_splits
        dest: erase_kept [OF _ len])
  show "emu_chip_erase sz w r d = Some (ret, r', d') \<Longrightarrow> bytes_kept d d'"
    by (auto simp: emu_chip_erase_def brk_def fail_def split: if_splits dest: erase_kept [OF _ len])
  show "emu_wrsr w r d = Some (ret, r', d') \<Longrightarrow> bytes_kept d d'"
    by (auto simp: emu_wrsr_def Let_def split: if_splits elim!: update_kept) (auto simp: brk_def)
  show "emu_wrsr2 w r d = Some (ret, r', d') \<Longrightarrow> bytes_kept d d'"
    by (auto simp: emu_wrsr2_def split: if_splits elim!: update_kept) (auto simp: brk_def)
  show "emu_wrsr3 w r d = Some (ret, r', d') \<Longrightarrow> bytes_kept d d'"
    by (auto simp: emu_wrsr3_def brk_def split: if_splits)
qed

text \<open>The other groups answer without changing anything but the latch.\<close>

lemma emu_answers:
  "emu_res w r d = Some (ret, r', d') \<Longrightarrow> d' = d" "emu_rems w r d = Some (ret, r', d') \<Longrightarrow> d' = d"
  "emu_rdid r d = Some (ret, r', d') \<Longrightarrow> d' = d" "emu_read addr r d = Some (ret, r', d') \<Longrightarrow> d' = d"
  "emu_sfdp w r d = Some (ret, r', d') \<Longrightarrow> d' = d" "brk x d = Some (ret, r', d') \<Longrightarrow> d' = d"
  by (auto simp: emu_res_def emu_rems_def emu_rdid_def emu_read_def emu_sfdp_def brk_def Let_def bind_eq_Some_conv split: if_splits)

text \<open>A property that every group establishes holds after the switch.\<close>

lemma emu_switch_rule:
  assumes run: "emu_switch opc w r d = Some (ret, r', d')"
    and same: "P d" and wren: "P (d\<lparr>emu_status := (emu_status d)[0 := emu_status d ! 0 OR SPI_SR_WEL]\<rparr>)"
    and wrsr: "emu_wrsr w r d = Some (ret, r', d') \<Longrightarrow> P d'" and wrsr2: "emu_wrsr2 w r d = Some (ret, r', d') \<Longrightarrow> P d'"
    and wrsr3: "emu_wrsr3 w r d = Some (ret, r', d') \<Longrightarrow> P d'"
    and program: "\<And>addr k. emu_program addr k w r d = Some (ret, r', d') \<Longrightarrow> P d'"
    and aai: "emu_aai w r d = Some (ret, r', d') \<Longrightarrow> P d'" and wrdi: "emu_wrdi r d = Some (ret, r', d') \<Longrightarrow> P d'"
    and block: "\<And>sz. emu_block_erase sz w r d = Some (ret, r', d') \<Longrightarrow> P d'"
    and chip: "\<And>sz. emu_chip_erase sz w r d = Some (ret, r', d') \<Longrightarrow> P d'"
  shows "P d'"
proof -
  have ans: "d' = d \<Longrightarrow> P d'" using same by simp
  have wr: "brk r (d\<lparr>emu_status := (emu_status d)[0 := emu_status d ! 0 OR SPI_SR_WEL]\<rparr>) = Some (ret, r', d') \<Longrightarrow> P d'"
    using wren by (auto simp: brk_def)
  note answers = emu_answers [THEN ans]
  show ?thesis
    using run unfolding emu_switch_def
    by (auto split: if_split_asm intro: answers wr wrsr wrsr2 wrsr3 program aai wrdi block chip)
qed

lemma emu_switch_kept:
  assumes "emu_switch opc w r d = Some (ret, r', d')" and "length (flashchip_contents d) \<le> 4294967296"
  shows "bytes_kept d d'"
  by (rule emu_switch_rule [OF assms(1)])
    (simp_all add: emu_groups_kept [OF assms(2)] emu_aai_kept [OF _ assms(2)], auto simp: emu_wrdi_def brk_def)

lemma command_kept:
  assumes "dummy_spi_send_command w k d = Some (e, r, d')" and "length (flashchip_contents d) \<le> 4294967296"
  shows "bytes_kept d d'"
proof (cases w)
  case Nil
  with assms show ?thesis by (auto simp: dummy_spi_send_command_def emulate_spi_chip_response_def Let_def split: if_splits)
next
  case (Cons opc ws)
  with assms emu_switch_kept [OF _ assms(2), of opc w "replicate k 0xff"] show ?thesis
    by (auto simp: dummy_spi_send_command_def emulate_spi_chip_response_def Let_def split: if_splits option.splits) 
qed

section \<open>Locked registers\<close>

text \<open>A chip with the write-protect registers of the W25Q128FV, locked by SRP1, or by SRP0 and the pin.\<close>

definition locked :: "emu_data \<Rightarrow> bool" where
  "locked d \<longleftrightarrow> wp_register_chip (emu_chip d) \<and> \<not> reg_unlocked d \<and> wp_sync d \<and> emu_max_aai_size d = 0 \<and>
     length (emu_status d) = 3 \<and> length (flashchip_contents d) \<le> 4294967296"

text \<open>A locked chip changes only in the array, outside the protected range, and in the write-enable latch.\<close>

definition lock_kept :: "emu_data \<Rightarrow> emu_data \<Rightarrow> bool" where
  "lock_kept d d' \<longleftrightarrow> (\<exists>X m v. d' = d\<lparr>flashchip_contents := X, emu_modified := m, emu_status := (emu_status d)[0 := v]\<rparr> \<and>
     v OR SPI_SR_WEL = emu_status d ! 0 OR SPI_SR_WEL)"

lemma lock_kept_refl: "lock_kept d d"
  unfolding lock_kept_def by (rule exI [where x = "flashchip_contents d"], rule exI [where x = "emu_modified d"],
      rule exI [where x = "emu_status d ! 0"]) simp

lemma lock_kept_trans:
  assumes "lock_kept d d1" and "lock_kept d1 d2" and "length (emu_status d) = 3"
  shows "lock_kept d d2"
proof -
  obtain X m v where 1: "d1 = d\<lparr>flashchip_contents := X, emu_modified := m, emu_status := (emu_status d)[0 := v]\<rparr>"
    "v OR SPI_SR_WEL = emu_status d ! 0 OR SPI_SR_WEL" using assms(1) unfolding lock_kept_def by blast
  obtain Y n u where 2: "d2 = d1\<lparr>flashchip_contents := Y, emu_modified := n, emu_status := (emu_status d1)[0 := u]\<rparr>"
    "u OR SPI_SR_WEL = emu_status d1 ! 0 OR SPI_SR_WEL" using assms(2) unfolding lock_kept_def by blast
  have "0 < length (emu_status d)" using assms(3) by simp
  then have "d2 = d\<lparr>flashchip_contents := Y, emu_modified := n, emu_status := (emu_status d)[0 := u]\<rparr>"
    "u OR SPI_SR_WEL = emu_status d ! 0 OR SPI_SR_WEL" using 1 2 by simp_all
  then show ?thesis unfolding lock_kept_def by blast
qed

lemma latch_bit: "v OR SPI_SR_WEL = u OR SPI_SR_WEL \<Longrightarrow> k \<noteq> 1 \<Longrightarrow> bit v k = bit (u :: u8) k"
proof -
  assume "v OR SPI_SR_WEL = u OR SPI_SR_WEL" "k \<noteq> 1"
  then have "bit (v OR SPI_SR_WEL) k = bit (u OR SPI_SR_WEL) k" by simp
  with \<open>k \<noteq> 1\<close> show ?thesis by (simp add: bit_or_iff status_bits)
qed

lemma locked_kept:
  assumes "locked d" and "lock_kept d d'" and "bytes_kept d d'"
  shows "locked d'" "wp_start d' = wp_start d" "wp_end d' = wp_end d" "emu_status d' ! 1 = emu_status d ! 1"
    "hwwp d' = hwwp d" "emu_wp_bits d' = emu_wp_bits d"
proof -
  obtain X m v where d': "d' = d\<lparr>flashchip_contents := X, emu_modified := m, emu_status := (emu_status d)[0 := v]\<rparr>"
    and v: "v OR SPI_SR_WEL = emu_status d ! 0 OR SPI_SR_WEL" using assms(2) unfolding lock_kept_def by blast
  have len: "length (emu_status d) = 3" using assms(1) by (simp add: locked_def)
  then have s0: "emu_status d' ! 0 = v" by (simp add: d')
  show "wp_start d' = wp_start d" "wp_end d' = wp_end d" and s1: "emu_status d' ! 1 = emu_status d ! 1"
    and hw: "hwwp d' = hwwp d" by (simp_all add: d')
  have "bit v k = bit (emu_status d ! 0) k" if "2 \<le> k" for k using latch_bit [OF v, of k] that by simp
  then have high: "bit (emu_status d' ! 0) k = bit (emu_status d ! 0) k" if "2 \<le> k" for k using that s0 by simp
  then show bits: "emu_wp_bits d' = emu_wp_bits d" using s1 by (intro emu_wp_bits_cong) simp_all
  have "drop_bit 7 (emu_status d' ! 0) = drop_bit 7 (emu_status d ! 0)"
    by (rule bit_eqI) (simp add: bit_drop_bit_eq high)
  then have "reg_unlocked d' = reg_unlocked d" by (simp add: reg_unlocked_def emu_srp0_def emu_srp1_def s1 [unfolded One_nat_def] hw)
  moreover have "wp_sync d' = wp_sync d" unfolding wp_sync_def bits by (simp add: d' split: option.split)
  moreover have "length (flashchip_contents d') = length (flashchip_contents d)" using assms(3) by (simp add: bytes_kept_def)
  ultimately show "locked d'" using assms(1) by (simp add: locked_def) (simp add: d')
qed

lemma put_reg_locked:
  assumes "locked d"
  shows "put_reg reg k v d = d"
proof -
  have "get_reg_ro_bit_mask d reg = 0xff"
    using assms by (cases "emu_chip d")
      (auto simp: locked_def wp_register_chip_def reg_unlocked_def get_reg_ro_bit_mask_def Let_def)
  moreover have "(x AND 0xff) OR (v AND NOT 0xff) = x" for x :: u8
  proof -
    have "(0xff :: u8) = -1" by simp
    then show ?thesis by (simp only: and.right_neutral bit.compl_one bit.conj_zero_right or.right_neutral)
  qed
  ultimately show ?thesis by (simp add: put_reg_def)
qed

lemma update_locked: "locked d \<Longrightarrow> update_write_protection d = Some d"
  by (auto simp: locked_def update_write_protection_def wp_sync_def split: option.splits)

lemma lock_kept_data:
  "write_flash_data d a buf = Some (e, d') \<Longrightarrow> lock_kept d d'" "erase_flash_data d a len = Some (e, d') \<Longrightarrow> lock_kept d d'"
proof -
  have "lock_kept d (d\<lparr>flashchip_contents := X, emu_modified := m\<rparr>)" for X m
    unfolding lock_kept_def by (rule exI [where x = X], rule exI [where x = m], rule exI [where x = "emu_status d ! 0"]) simp
  then show "write_flash_data d a buf = Some (e, d') \<Longrightarrow> lock_kept d d'" "erase_flash_data d a len = Some (e, d') \<Longrightarrow> lock_kept d d'"
    using lock_kept_refl by (auto simp: write_flash_data_def erase_flash_data_def split: if_splits)
qed

lemma lock_kept_latch:
  "lock_kept d (clear_wel d)" "lock_kept d (d\<lparr>emu_status := (emu_status d)[0 := emu_status d ! 0 OR SPI_SR_WEL]\<rparr>)"
proof -
  have "lock_kept d (d\<lparr>emu_status := (emu_status d)[0 := v]\<rparr>)" if "v OR SPI_SR_WEL = emu_status d ! 0 OR SPI_SR_WEL" for v
    unfolding lock_kept_def
    by (rule exI [where x = "flashchip_contents d"], rule exI [where x = "emu_modified d"], rule exI [where x = v]) (simp add: that)
  moreover have "(x AND NOT SPI_SR_WEL) OR SPI_SR_WEL = x OR SPI_SR_WEL" "(x OR SPI_SR_WEL) OR SPI_SR_WEL = x OR SPI_SR_WEL" for x :: u8
    by (auto intro!: bit_eqI simp: bit_and_iff bit_or_iff bit_not_iff)
  ultimately show "lock_kept d (clear_wel d)" "lock_kept d (d\<lparr>emu_status := (emu_status d)[0 := emu_status d ! 0 OR SPI_SR_WEL]\<rparr>)"
    by (simp_all add: clear_wel_def)
qed

lemma write_groups_locked:
  "Option.bind (write_flash_data d a buf) (\<lambda>(e, d'). if e \<noteq> 0 then fail r d' else brk r d') = Some (ret, r', d') \<Longrightarrow> lock_kept d d'"
  "Option.bind (erase_flash_data d a len) (\<lambda>(e, d'). if e \<noteq> 0 then fail r d' else brk r d') = Some (ret, r', d') \<Longrightarrow> lock_kept d d'"
  by (cases "write_flash_data d a buf"; auto simp: brk_def fail_def lock_kept_data(1) split: if_splits)
    (cases "erase_flash_data d a len"; auto simp: brk_def fail_def lock_kept_data(2) split: if_splits)

lemma emu_groups_locked:
  assumes lk: "locked d"
  shows "emu_program addr k w r d = Some (ret, r', d') \<Longrightarrow> lock_kept d d'"
    and "emu_block_erase sz w r d = Some (ret, r', d') \<Longrightarrow> lock_kept d d'"
    and "emu_chip_erase sz w r d = Some (ret, r', d') \<Longrightarrow> lock_kept d d'"
    and "emu_wrsr w r d = Some (ret, r', d') \<Longrightarrow> lock_kept d d'"
    and "emu_wrsr2 w r d = Some (ret, r', d') \<Longrightarrow> lock_kept d d'"
    and "emu_wrsr3 w r d = Some (ret, r', d') \<Longrightarrow> lock_kept d d'"
    and "emu_aai w r d = Some (ret, r', d') \<Longrightarrow> lock_kept d d'"
    and "emu_wrdi r d = Some (ret, r', d') \<Longrightarrow> lock_kept d d'"
proof -
  note rf = lock_kept_refl
  show "emu_program addr k w r d = Some (ret, r', d') \<Longrightarrow> lock_kept d d'"
    by (cases addr) (auto simp: emu_program_def fail_def rf split: if_splits dest: write_groups_locked(1))
  show "emu_block_erase sz w r d = Some (ret, r', d') \<Longrightarrow> lock_kept d d'"
    by (cases "addr24 w") (auto simp: emu_block_erase_def brk_def fail_def rf split: if_splits dest: write_groups_locked(2))
  show "emu_chip_erase sz w r d = Some (ret, r', d') \<Longrightarrow> lock_kept d d'"
    by (auto simp: emu_chip_erase_def brk_def fail_def rf split: if_splits dest: write_groups_locked(2))
  note same = put_reg_locked [OF lk] update_locked [OF lk]
  show "emu_wrsr w r d = Some (ret, r', d') \<Longrightarrow> lock_kept d d'" "emu_wrsr2 w r d = Some (ret, r', d') \<Longrightarrow> lock_kept d d'"
    "emu_wrsr3 w r d = Some (ret, r', d') \<Longrightarrow> lock_kept d d'"
    by (auto simp: emu_wrsr_def emu_wrsr2_def emu_wrsr3_def same brk_def Let_def rf split: if_splits)
  show "emu_aai w r d = Some (ret, r', d') \<Longrightarrow> lock_kept d d'" "emu_wrdi r d = Some (ret, r', d') \<Longrightarrow> lock_kept d d'"
    using lk by (auto simp: locked_def emu_aai_def emu_wrdi_def brk_def rf)
qed

lemma emu_switch_locked:
  assumes "emu_switch opc w r d = Some (ret, r', d')" and "locked d"
  shows "lock_kept d d'"
  by (rule emu_switch_rule [OF assms(1)])
    (blast intro: emu_groups_locked [OF assms(2)] lock_kept_refl lock_kept_latch(2))+

lemma command_locked:
  assumes "dummy_spi_send_command w k d = Some (e, r, d')" and lk: "locked d"
  shows "lock_kept d d'"
proof -
  have len: "length (emu_status d) = 3" using lk by (simp add: locked_def)
  have "lock_kept d (clear_wel d1)" if "lock_kept d d1" for d1
    using lock_kept_trans [OF that lock_kept_latch(1) len] .
  with assms emu_switch_locked [OF _ lk, of "hd w" w "replicate k 0xff"] lock_kept_refl [of d] show ?thesis
    by (cases w) (auto simp: dummy_spi_send_command_def emulate_spi_chip_response_def Let_def split: if_splits option.splits)
qed

section \<open>Sequences of commands\<close>

inductive spi_reach :: "emu_data \<Rightarrow> emu_data \<Rightarrow> bool" where
  start: "spi_reach d d"
| command: "spi_reach d d1 \<Longrightarrow> dummy_spi_send_command w k d1 = Some (e, r, d2) \<Longrightarrow> spi_reach d d2"

lemma reach_locked:
  assumes "spi_reach d d'" and "locked d"
  shows "locked d' \<and> bytes_kept d d' \<and> emu_wp_bits d' = emu_wp_bits d \<and> wp_start d' = wp_start d \<and> wp_end d' = wp_end d"
  using assms
proof (induction rule: spi_reach.induct)
  case (command d d1 w k e r d2)
  then have 1: "locked d1" "bytes_kept d d1" "emu_wp_bits d1 = emu_wp_bits d" "wp_start d1 = wp_start d" "wp_end d1 = wp_end d"
    by blast+
  have "length (flashchip_contents d1) \<le> 4294967296" using 1(1) by (simp add: locked_def)
  with command have k: "bytes_kept d1 d2" by (blast intro: command_kept)
  note l = locked_kept [OF 1(1) command_locked [OF command.hyps(2) 1(1)] k]
  have "bytes_kept d d2" using 1(2,4,5) k by (auto simp: bytes_kept_def in_range_def)
  with l 1 show ?case by auto
qed simp

text \<open>C2: no SPI command changes a byte of the range that the emulated chip protects, nor the size of its
  array, whatever the opcode, the address and the data are and whatever chip is emulated.\<close>

theorem emulator_protects_range:
  assumes "dummy_spi_send_command w k d = Some (e, r, d')" and "length (flashchip_contents d) \<le> 4294967296"
    and "wp_start d \<le> i" and "i < wp_end d" and "i < length (flashchip_contents d)"
  shows "flashchip_contents d' ! i = flashchip_contents d ! i \<and> length (flashchip_contents d') = length (flashchip_contents d)"
  using command_kept [OF assms(1,2)] assms(3-5) by (simp add: bytes_kept_def in_range_def)

lemma protected_simps:
  "wp_start w25_protected = 8388608" "wp_end w25_protected = 16777216" "emu_status w25_protected = [0x18, 0, 0]"
  "flashchip_contents w25_protected = replicate 16777216 0xff" "spi_blacklist w25_protected = []" "spi_ignorelist w25_protected = []"
  "emu_max_aai_size w25_protected = 0" "emu_chip w25_protected = EMULATE_WINBOND_W25Q128FV" "emu_chip_size w25_protected = 16777216"
  "emu_max_byteprogram_size w25_protected = 256"
  using w25_data_simps(7) by (simp_all add: w25_protected_def w25_data_simps w25_ok_def)

text \<open>Programming the first byte of the protected upper half fails and leaves the byte alone.\<close>

theorem emulator_protects_witness:
  "\<exists>d'. dummy_spi_send_command [JEDEC_BYTE_PROGRAM, 0x80, 0, 0, 0x42] 0 w25_protected = Some (1, [], d') \<and>
     flashchip_contents d' ! 8388608 = flashchip_contents w25_protected ! 8388608 \<and>
     length (flashchip_contents d') = length (flashchip_contents w25_protected)"
proof -
  have "dummy_spi_send_command [JEDEC_BYTE_PROGRAM, 0x80, 0, 0, 0x42] 0 w25_protected = Some (1, [], w25_protected)"
    by (simp add: dummy_spi_send_command_def emulate_spi_chip_response_def protected_simps emu_switch_def opcode_defs
        emu_program_def addr24_def write_flash_data_def is_write_protected_def add32_def sub32_def Let_def fail_def)
  moreover from emulator_protects_range [OF this, of 8388608]
  have "flashchip_contents w25_protected ! 8388608 = flashchip_contents w25_protected ! 8388608 \<and>
      length (flashchip_contents w25_protected) = length (flashchip_contents w25_protected)" by (simp add: protected_simps)
  ultimately show ?thesis by blast
qed

text \<open>C8: a chip whose status registers are locked, by SRP1 or by SRP0 with an active WP pin, stays locked under
  every sequence of SPI commands: the protected range stays the same and so do the bytes in it.\<close>

theorem locked_range_invariant:
  assumes "spi_reach d d'" and "locked d"
  shows "locked d' \<and> wp_start d' = wp_start d \<and> wp_end d' = wp_end d \<and>
    (\<forall>i. wp_start d \<le> i \<and> i < wp_end d \<and> i < length (flashchip_contents d) \<longrightarrow>
      flashchip_contents d' ! i = flashchip_contents d ! i)"
  using reach_locked [OF assms] by (simp add: bytes_kept_def in_range_def)

text \<open>The protected chip with SRP1 set, after an attempt to clear its registers.\<close>

definition w25_locked :: emu_data where
  "w25_locked = w25_protected\<lparr>emu_status := [0x18, 1, 0]\<rparr>"

lemma w25_locked_simps:
  "wp_start w25_locked = 8388608" "wp_end w25_locked = 16777216" "emu_status w25_locked = [0x18, 1, 0]"
  "flashchip_contents w25_locked = replicate 16777216 0xff" "spi_blacklist w25_locked = []" "spi_ignorelist w25_locked = []"
  "emu_max_aai_size w25_locked = 0" "emu_chip w25_locked = EMULATE_WINBOND_W25Q128FV" "emu_chip_size w25_locked = 16777216"
  by (simp_all add: w25_locked_def protected_simps)

lemma w25_locked: "locked w25_locked"
proof -
  have "decode_range_spi25 (emu_wp_bits w25_locked) 16777216 = Some \<lparr>wr_start = 8388608, wr_len = 8388608\<rparr>"
    by (simp add: emu_wp_bits_def w25_locked_simps decode_evals)
  then show ?thesis
    by (simp add: locked_def w25_locked_simps wp_register_chip_def reg_unlocked_def emu_srp1_def wp_sync_def u32_def)
qed

theorem locked_range_witness:
  "\<exists>d'. spi_reach w25_locked d' \<and> dummy_spi_send_command [JEDEC_WREN] 0 w25_locked = Some (0, [], d') \<and>
     locked d' \<and> wp_start d' = 8388608 \<and> wp_end d' = 16777216 \<and> flashchip_contents d' ! 8388608 = 0xff"
proof -
  let ?d = "w25_locked\<lparr>emu_status := [0x1a, 1, 0]\<rparr>"
  have c: "dummy_spi_send_command [JEDEC_WREN] 0 w25_locked = Some (0, [], ?d)"
    by (simp add: dummy_spi_send_command_def emulate_spi_chip_response_def w25_locked_simps emu_switch_def opcode_defs
        brk_def SPI_SR_WEL_def)
  have r: "spi_reach w25_locked ?d" by (rule spi_reach.command [OF spi_reach.start c])
  from locked_range_invariant [OF r w25_locked]
  have "locked ?d" "wp_start ?d = 8388608" "wp_end ?d = 16777216" "flashchip_contents ?d ! 8388608 = 0xff"
    by (simp_all add: w25_locked_simps)
  with c r show ?thesis by blast
qed

end
