(* ===== verification/SpiProbe.thy ===== *)
theory SpiProbe
  imports W25Image
begin

text \<open>
  The probing functions of \<^verbatim>\<open>flashrom/spi25.c\<close>: reading the identification of a chip with RDID, REMS and RES,
  the cache of the answers, and the comparison with the table of chips. The static variable
  \<^verbatim>\<open>id_cache\<close> is passed as a map from the type of identification to an entry. \<open>junk\<close> is what the local
  arrays hold.
\<close>

section \<open>Data\<close>

datatype id_type = RDID | RDID4 | REMS | RES2 | RES3

record id_entry =
  is_cached :: bool
  id_bytes :: bytes

type_synonym id_cache = "id_type \<Rightarrow> id_entry"

definition GENERIC_MANUF_ID :: nat where "GENERIC_MANUF_ID = 0xFFFF"
definition GENERIC_DEVICE_ID :: nat where "GENERIC_DEVICE_ID = 0xFFFF"

definition clear_spi_id_cache :: id_cache where
  "clear_spi_id_cache = (\<lambda>t. \<lparr>is_cached = False, id_bytes = [0, 0, 0, 0]\<rparr>)"

section \<open>Reading the identification\<close>

text \<open>The result code, the buffer and the new state; the bytes the master delivers overwrite the buffer.\<close>

definition read_id :: "'d spi_master \<Rightarrow> bytes \<Rightarrow> nat \<Rightarrow> bytes \<Rightarrow> 'd spi_state \<Rightarrow> (int \<times> bytes \<times> 'd spi_state) option" where
  "read_id m cmd n readarr s = map_option (\<lambda>(ret, bs, s'). (ret, blit 0 (take n bs) readarr, s')) (spi_send_command m cmd n s)"

definition spi_rdid :: "'d spi_master \<Rightarrow> bytes \<Rightarrow> nat \<Rightarrow> 'd spi_state \<Rightarrow> (int \<times> bytes \<times> 'd spi_state) option" where
  "spi_rdid m readarr n s = read_id m [JEDEC_RDID] n readarr s"

definition spi_rems :: "'d spi_master \<Rightarrow> bytes \<Rightarrow> 'd spi_state \<Rightarrow> (int \<times> bytes \<times> 'd spi_state) option" where
  "spi_rems m readarr s = read_id m [JEDEC_REMS, 0, 0, 0] 2 readarr s"

definition spi_res :: "'d spi_master \<Rightarrow> bytes \<Rightarrow> nat \<Rightarrow> 'd spi_state \<Rightarrow> (int \<times> bytes \<times> 'd spi_state) option" where
  "spi_res m readarr n s = read_id m [JEDEC_RES, 0, 0, 0] n readarr s"

definition rdid_get_ids :: "bytes \<Rightarrow> nat \<Rightarrow> nat \<times> nat" where
  "rdid_get_ids readarr n =
     (if readarr ! 0 = 0x7f
      then (unat (readarr ! 0) * 256 + unat (readarr ! 1),
            if n > 3 then unat (readarr ! 2) * 256 + unat (readarr ! 3) else unat (readarr ! 2))
      else (unat (readarr ! 0), unat (readarr ! 1) * 256 + unat (readarr ! 2)))"

definition compare_id :: "flashchip \<Rightarrow> nat \<Rightarrow> nat \<Rightarrow> int" where
  "compare_id chip id1 id2 =
     (if id1 = ch_manufacture_id chip \<and> id2 = ch_model_id chip then 1
      else if id1 = ch_manufacture_id chip \<and> GENERIC_DEVICE_ID = ch_model_id chip then 1
      else if GENERIC_MANUF_ID = ch_manufacture_id chip \<and> id1 \<noteq> 0xff \<and> id1 \<noteq> 0x00 then 1
      else 0)"

section \<open>Probing\<close>

text \<open>The use of the cache that the functions share: the buffer of the entry is filled by \<open>f\<close> unless it is
  valid, and \<open>g\<close> judges it.\<close>

definition cached_probe ::
    "id_type \<Rightarrow> (bytes \<Rightarrow> 's \<Rightarrow> (int \<times> bytes \<times> 's) option) \<Rightarrow> (bytes \<Rightarrow> int) \<Rightarrow> id_cache \<Rightarrow> 's \<Rightarrow> (int \<times> id_cache \<times> 's) option" where
  "cached_probe t f g cache s =
     (if is_cached (cache t) then Some (g (id_bytes (cache t)), cache, s)
      else map_option
        (\<lambda>(ret, bs, s'). if ret \<noteq> 0 then (0, cache(t := (cache t)\<lparr>id_bytes := bs\<rparr>), s')
                         else (g bs, cache(t := \<lparr>is_cached = True, id_bytes = bs\<rparr>), s'))
        (f (id_bytes (cache t)) s))"

definition probe_spi_rdid_generic ::
    "flashchip \<Rightarrow> 'd spi_master \<Rightarrow> nat \<Rightarrow> id_cache \<Rightarrow> 'd spi_state \<Rightarrow> (int \<times> id_cache \<times> 'd spi_state) option" where
  "probe_spi_rdid_generic chip m n cache s =
     cached_probe (if n = 3 then RDID else RDID4) (\<lambda>readarr. spi_rdid m readarr n)
       (\<lambda>bs. case rdid_get_ids bs n of (id1, id2) \<Rightarrow> compare_id chip id1 id2) cache s"

definition probe_spi_rdid ::
    "flashchip \<Rightarrow> 'd spi_master \<Rightarrow> id_cache \<Rightarrow> 'd spi_state \<Rightarrow> (int \<times> id_cache \<times> 'd spi_state) option" where
  "probe_spi_rdid chip m cache s = probe_spi_rdid_generic chip m 3 cache s"

definition probe_spi_rdid4 ::
    "flashchip \<Rightarrow> 'd spi_master \<Rightarrow> id_cache \<Rightarrow> 'd spi_state \<Rightarrow> (int \<times> id_cache \<times> 'd spi_state) option" where
  "probe_spi_rdid4 chip m cache s = probe_spi_rdid_generic chip m 4 cache s"

definition probe_spi_rems ::
    "flashchip \<Rightarrow> 'd spi_master \<Rightarrow> id_cache \<Rightarrow> 'd spi_state \<Rightarrow> (int \<times> id_cache \<times> 'd spi_state) option" where
  "probe_spi_rems chip m cache s =
     cached_probe REMS (spi_rems m) (\<lambda>bs. compare_id chip (unat (bs ! 0)) (unat (bs ! 1))) cache s"

definition probe_spi_res2 ::
    "flashchip \<Rightarrow> 'd spi_master \<Rightarrow> id_cache \<Rightarrow> 'd spi_state \<Rightarrow> (int \<times> id_cache \<times> 'd spi_state) option" where
  "probe_spi_res2 chip m cache s =
     cached_probe RES2 (\<lambda>readarr. spi_res m readarr 2)
       (\<lambda>bs. if unat (bs ! 0) \<noteq> ch_manufacture_id chip \<or> unat (bs ! 1) \<noteq> ch_model_id chip then 0 else 1) cache s"

definition probe_spi_res3 ::
    "flashchip \<Rightarrow> 'd spi_master \<Rightarrow> id_cache \<Rightarrow> 'd spi_state \<Rightarrow> (int \<times> id_cache \<times> 'd spi_state) option" where
  "probe_spi_res3 chip m cache s =
     cached_probe RES3 (\<lambda>readarr. spi_res m readarr 3)
       (\<lambda>bs. if unat (bs ! 0) * 256 + unat (bs ! 1) \<noteq> ch_manufacture_id chip \<or> unat (bs ! 3) \<noteq> ch_model_id chip
             then 0 else 1) cache s"

definition all_same :: "u8 \<Rightarrow> nat \<Rightarrow> bytes \<Rightarrow> bool" where
  "all_same v n readarr \<longleftrightarrow> (\<forall>i < n. readarr ! i = v)"

definition usable_id :: "int \<Rightarrow> nat \<Rightarrow> bytes \<Rightarrow> bool" where
  "usable_id ret n readarr \<longleftrightarrow> ret = 0 \<and> \<not> all_same 0xff n readarr \<and> \<not> all_same 0x00 n readarr"

definition probe_spi_res1 :: "flashchip \<Rightarrow> 'd spi_master \<Rightarrow> bytes \<Rightarrow> 'd spi_state \<Rightarrow> (int \<times> 'd spi_state) option" where
  "probe_spi_res1 chip m junk s =
     Option.bind (spi_rdid m junk 3 s) (\<lambda>(r1, b1, s1).
       if usable_id r1 3 b1 then Some (0, s1)
       else Option.bind (spi_rems m b1 s1) (\<lambda>(r2, b2, s2).
         if usable_id r2 2 b2 then Some (0, s2)
         else map_option (\<lambda>(r3, b3, s3). (if r3 \<noteq> 0 then 0 else if unat (b3 ! 0) \<noteq> ch_model_id chip then 0 else 1, s3))
                (spi_res m b2 1 s2)))"

definition probe_spi_at25f :: "flashchip \<Rightarrow> 'd spi_master \<Rightarrow> bytes \<Rightarrow> 'd spi_state \<Rightarrow> (int \<times> 'd spi_state) option" where
  "probe_spi_at25f chip m junk s =
     map_option
       (\<lambda>(ret, bs, s'). (if ret \<noteq> 0 then 0
          else if unat (bs ! 0) = ch_manufacture_id chip \<and> unat (bs ! 1) = ch_model_id chip then 1 else 0, s'))
       (read_id m [AT25F_RDID] 2 junk s)"

section \<open>The cache\<close>

text \<open>The bytes with which the emulated W25Q128FV answers, and a cache that holds nothing else.\<close>

definition w25_id :: "id_type \<Rightarrow> bytes" where
  "w25_id t = (case t of RDID \<Rightarrow> [0xef, 0x40, 0x18] | RDID4 \<Rightarrow> [0xef, 0x40, 0x18, 0xff] | REMS \<Rightarrow> [0xef, 0x17]
     | RES2 \<Rightarrow> [0x17, 0x17] | RES3 \<Rightarrow> [0x17, 0x17, 0x17])"

definition coherent :: "id_cache \<Rightarrow> bool" where
  "coherent cache \<longleftrightarrow> (\<forall>t. length (id_bytes (cache t)) = 4 \<and>
     (is_cached (cache t) \<longrightarrow> take (length (w25_id t)) (id_bytes (cache t)) = w25_id t))"

lemma coherent_clear: "coherent clear_spi_id_cache"
  by (simp add: coherent_def clear_spi_id_cache_def)

lemma small_lists:
  "replicate 2 x = [x, x]" "replicate 3 x = [x, x, x]" "replicate 4 x = [x, x, x, x]"
  "[0..<2] = [0, 1]" "[0..<3] = [0, 1, 2]" "[0..<4] = [0, 1, 2, 3]"
  by (simp_all add: numeral_nat upt_rec)

lemma w25_id_cmds:
  assumes ok: "w25_ok d"
  shows "dummy_spi_send_command [JEDEC_RDID] 3 d = Some (0, w25_id RDID, d)"
    and "dummy_spi_send_command [JEDEC_RDID] 4 d = Some (0, w25_id RDID4, d)"
    and "dummy_spi_send_command [JEDEC_REMS, 0, 0, 0] 2 d = Some (0, w25_id REMS, d)"
    and "dummy_spi_send_command [JEDEC_RES, 0, 0, 0] 2 d = Some (0, w25_id RES2, d)"
    and "dummy_spi_send_command [JEDEC_RES, 0, 0, 0] 3 d = Some (0, w25_id RES3, d)"
proof -
  have chip: "emu_chip d = EMULATE_WINBOND_W25Q128FV" "emu_status d ! 0 AND 3 = 0" using ok by (simp_all add: w25_ok_def)
  note evals = send_plain [OF w25_plain [OF ok]] finish_def emu_switch_def opcode_defs emu_rdid_def emu_rems_def emu_res_def
    chip rems_response_def addr24_def alternate_def fill_def answer_def blit_def brk_def w25_id_def clear_wel_def
    idle_bits [OF chip(2)] add32_def small_lists
  show "dummy_spi_send_command [JEDEC_RDID] 3 d = Some (0, w25_id RDID, d)"
    "dummy_spi_send_command [JEDEC_RDID] 4 d = Some (0, w25_id RDID4, d)" by (simp_all add: evals)
  show "dummy_spi_send_command [JEDEC_REMS, 0, 0, 0] 2 d = Some (0, w25_id REMS, d)"
    "dummy_spi_send_command [JEDEC_RES, 0, 0, 0] 2 d = Some (0, w25_id RES2, d)"
    "dummy_spi_send_command [JEDEC_RES, 0, 0, 0] 3 d = Some (0, w25_id RES3, d)" by (simp_all add: evals)
qed

lemma w25_read_id:
  assumes "dummy_spi_send_command cmd n (sp_dev s) = Some (0, bs, sp_dev s)" and "length bs = n" and "length arr = 4" and "n \<le> 4"
  shows "\<exists>b. read_id spi_master_dummyflasher cmd n arr s = Some (0, b, s) \<and> length b = 4 \<and> take n b = bs"
proof -
  have "take n (blit 0 (take n bs) arr) = bs"
    using assms(2-4) by (intro nth_equalityI) (auto simp: buf_simps)
  then show ?thesis
    using assms by (auto simp: read_id_def spi_send_command_def spi_master_dummyflasher_def lift_dev_def)
qed

lemma id_nths:
  fixes b :: bytes
  shows "take 2 b = [x, y] \<Longrightarrow> b ! 0 = x \<and> b ! 1 = y" "take 3 b = [x, y, z] \<Longrightarrow> b ! 0 = x \<and> b ! 1 = y \<and> b ! 2 = z"
    "take 4 b = [x, y, z, u] \<Longrightarrow> b ! 0 = x \<and> b ! 1 = y \<and> b ! 2 = z"
  using nth_take [of 0 2 b] nth_take [of 1 2 b] nth_take [of 0 3 b] nth_take [of 1 3 b] nth_take [of 2 3 b]
    nth_take [of 0 4 b] nth_take [of 1 4 b] nth_take [of 2 4 b] by simp_all

text \<open>With a coherent cache a probe judges the answer of the chip, whether it reads it or finds it in the cache.\<close>

lemma cached_probe_ok:
  assumes c: "coherent cache" and n: "length (w25_id t) = n"
    and f: "\<And>arr. length arr = 4 \<Longrightarrow> \<exists>b. f arr s = Some (0, b, s) \<and> length b = 4 \<and> take n b = w25_id t"
    and g: "\<And>b. take n b = w25_id t \<Longrightarrow> g b = v"
  shows "\<exists>cache'. cached_probe t f g cache s = Some (v, cache', s) \<and> coherent cache'"
proof (cases "is_cached (cache t)")
  case True
  with c g show ?thesis by (auto simp: cached_probe_def coherent_def n)
next
  case False
  have "length (id_bytes (cache t)) = 4" using c by (simp add: coherent_def)
  from f [OF this] obtain b where b: "f (id_bytes (cache t)) s = Some (0, b, s)" "length b = 4"
    "take n b = w25_id t" by blast
  have "coherent (cache(t := \<lparr>is_cached = True, id_bytes = b\<rparr>))" using c b by (simp add: coherent_def n)
  with False b g show ?thesis by (auto simp: cached_probe_def)
qed

lemma w25_rdid_correct:
  assumes ok: "w25_ok (sp_dev s)" and c: "coherent cache"
  shows "\<exists>cache'. probe_spi_rdid chip spi_master_dummyflasher cache s = Some (compare_id chip 0xef 0x4018, cache', s) \<and> coherent cache'"
proof -
  note cmds = w25_id_cmds [OF ok]
  show ?thesis
    unfolding probe_spi_rdid_def probe_spi_rdid_generic_def
  proof (simp, rule cached_probe_ok [OF c])
    show "length (w25_id RDID) = 3" by (simp add: w25_id_def)
    then show "\<exists>b. spi_rdid spi_master_dummyflasher arr 3 s = Some (0, b, s) \<and> length b = 4 \<and> take 3 b = w25_id RDID" if "length arr = 4" for arr
      using w25_read_id [OF cmds(1) _ that] by (simp add: spi_rdid_def)
  qed (auto simp: w25_id_def rdid_get_ids_def dest: id_nths)
qed



text \<open>\<^verbatim>\<open>probe_spi_res3\<close> compares the model with the fourth byte of the cache entry although it reads three bytes:
  as that byte is zero initially and never written, it finds no chip with a nonzero model number, whatever the
  master answers.\<close>

theorem probe_spi_res3_model_zero:
  assumes len: "length (id_bytes (cache RES3)) = 4" "id_bytes (cache RES3) ! 3 = 0"
    and run: "probe_spi_res3 chip m cache s = Some (r, cache', s')"
  shows "(ch_model_id chip \<noteq> 0 \<longrightarrow> r = 0) \<and> length (id_bytes (cache' RES3)) = 4 \<and> id_bytes (cache' RES3) ! 3 = 0"
proof (cases "is_cached (cache RES3)")
  case True
  with run len show ?thesis by (auto simp: probe_spi_res3_def cached_probe_def split: if_splits)
next
  case False
  have b: "length b = 4 \<and> b ! 3 = 0" if "spi_res m (id_bytes (cache RES3)) 3 s = Some (ret, b, s1)" for ret b s1
    using that len by (auto simp: spi_res_def read_id_def buf_simps)
  from run False obtain ret bs s1 where res: "spi_res m (id_bytes (cache RES3)) 3 s = Some (ret, bs, s1)"
    by (auto simp: probe_spi_res3_def cached_probe_def)
  show ?thesis
    using run False res b [OF res] by (cases "ret = 0") (auto simp: probe_spi_res3_def cached_probe_def split: if_splits)
qed

text \<open>The emulated chip with an entry for exactly its answer 0x17, 0x17, 0x17.\<close>

theorem probe_spi_res3_witness:
  "\<exists>cache' s'. probe_spi_res3 (w25q128_chip\<lparr>ch_manufacture_id := 0x1717, ch_model_id := 0x17\<rparr>) spi_master_dummyflasher
      clear_spi_id_cache w25_state = Some (0, cache', s') \<and> id_bytes (cache' RES3) ! 3 = 0"
proof -
  let ?chip = "w25q128_chip\<lparr>ch_manufacture_id := 0x1717, ch_model_id := 0x17\<rparr>"
  have ok: "w25_ok (sp_dev w25_state)" by (simp add: w25_state_def w25_data_simps)
  have "\<exists>b. spi_res spi_master_dummyflasher [0, 0, 0, 0] 3 w25_state = Some (0, b, w25_state)"
    using w25_read_id [OF w25_id_cmds(5) [OF ok], of "[0, 0, 0, 0]"] by (auto simp: spi_res_def w25_id_def)
  then obtain r cache' where run: "probe_spi_res3 ?chip spi_master_dummyflasher clear_spi_id_cache w25_state = Some (r, cache', w25_state)"
    by (auto simp: probe_spi_res3_def cached_probe_def clear_spi_id_cache_def)
  from probe_spi_res3_model_zero [OF _ _ run] have "r = 0" "id_bytes (cache' RES3) ! 3 = 0"
    by (simp_all add: clear_spi_id_cache_def)
  with run show ?thesis by blast
qed

end
