(* ===== verification/SpiFacts.thy ===== *)
theory SpiFacts
  imports DummySpi
begin

text \<open>
  Properties of the SPI layer that hold for every master and every chip: the functions that lift the block
  protection, the table of erase opcodes, and the loss of the last byte in \<^verbatim>\<open>default_spi_write_aai\<close>.
\<close>

section \<open>Lifting the block protection\<close>

type_synonym 'd unlock_fn =
  "flashchip \<Rightarrow> 'd spi_master \<Rightarrow> bool \<Rightarrow> 'd spi_state restore_fns \<Rightarrow> 'd spi_state \<Rightarrow> (int \<times> 'd spi_state restore_fns \<times> 'd spi_state) option"

datatype blockprotect_func =
    NO_BLOCKPROTECT_FUNC | SPI_DISABLE_BLOCKPROTECT | SPI_DISABLE_BLOCKPROTECT_BP2_EP_SRWD
  | SPI_DISABLE_BLOCKPROTECT_BP1_SRWD | SPI_DISABLE_BLOCKPROTECT_BP2_SRWD | SPI_DISABLE_BLOCKPROTECT_BP3_SRWD
  | SPI_DISABLE_BLOCKPROTECT_BP4_SRWD | SPI_DISABLE_BLOCKPROTECT_AT45DB | SPI_DISABLE_BLOCKPROTECT_AT25F
  | SPI_DISABLE_BLOCKPROTECT_AT25FS010 | SPI_DISABLE_BLOCKPROTECT_AT25FS040 | SPI_DISABLE_BLOCKPROTECT_AT25F512A
  | SPI_DISABLE_BLOCKPROTECT_AT25F512B | SPI_DISABLE_BLOCKPROTECT_AT2X_GLOBAL_UNPROTECT
  | SPI_DISABLE_BLOCKPROTECT_AT2X_GLOBAL_UNPROTECT_SEC | SPI_DISABLE_BLOCKPROTECT_SST26_GLOBAL_UNPROTECT
  | SPI_DISABLE_BLOCKPROTECT_N25Q | UNLOCK_REGSPACE2_BLOCK_ERASER_0 | UNLOCK_REGSPACE2_BLOCK_ERASER_1
  | UNLOCK_REGSPACE2_UNIFORM_32K | UNLOCK_REGSPACE2_UNIFORM_64K | UNLOCK_28F004S5 | UNLOCK_LH28F008BJT
  | UNLOCK_SST_FWHUB | UNPROTECT_28SF040

definition spi_disable_blockprotect_sst26_global_unprotect :: "'d unlock_fn" where
  "spi_disable_blockprotect_sst26_global_unprotect chip m alloc fns s =
     Option.bind (spi_write_enable m s) (\<lambda>(result, s1).
       if result \<noteq> 0 then Some (result, fns, s1)
       else map_option (\<lambda>(r, bs, s2). (r, fns, s2)) (spi_send_command m [0x98] 0 s1))"

definition spi_disable_blockprotect_bp1_srwd :: "'d unlock_fn" where
  "spi_disable_blockprotect_bp1_srwd chip m alloc = spi_disable_blockprotect_generic chip m alloc 0x0C 0x80 0 0xFF"

definition spi_disable_blockprotect_bp2_srwd :: "'d unlock_fn" where
  "spi_disable_blockprotect_bp2_srwd chip m alloc = spi_disable_blockprotect_generic chip m alloc 0x1C 0x80 0 0xFF"

definition spi_disable_blockprotect_bp3_srwd :: "'d unlock_fn" where
  "spi_disable_blockprotect_bp3_srwd chip m alloc = spi_disable_blockprotect_generic chip m alloc 0x3C 0x80 0 0xFF"

definition spi_disable_blockprotect_bp4_srwd :: "'d unlock_fn" where
  "spi_disable_blockprotect_bp4_srwd chip m alloc = spi_disable_blockprotect_generic chip m alloc 0x7C 0x80 0 0xFF"

definition spi_disable_blockprotect_at2x_global_unprotect :: "'d unlock_fn" where
  "spi_disable_blockprotect_at2x_global_unprotect chip m alloc = spi_disable_blockprotect_generic chip m alloc 0x0C 0x80 0x10 0x00"

definition spi_disable_blockprotect_at2x_global_unprotect_sec :: "'d unlock_fn" where
  "spi_disable_blockprotect_at2x_global_unprotect_sec = spi_disable_blockprotect_at2x_global_unprotect"

definition spi_disable_blockprotect_at25f :: "'d unlock_fn" where
  "spi_disable_blockprotect_at25f chip m alloc = spi_disable_blockprotect_generic chip m alloc 0x0C 0x80 0 0xFF"

definition spi_disable_blockprotect_at25f512a :: "'d unlock_fn" where
  "spi_disable_blockprotect_at25f512a chip m alloc = spi_disable_blockprotect_generic chip m alloc 0x04 0x80 0 0xFF"

definition spi_disable_blockprotect_at25f512b :: "'d unlock_fn" where
  "spi_disable_blockprotect_at25f512b chip m alloc = spi_disable_blockprotect_generic chip m alloc 0x04 0x80 0x10 0xFF"

definition spi_disable_blockprotect_at25fs010 :: "'d unlock_fn" where
  "spi_disable_blockprotect_at25fs010 chip m alloc = spi_disable_blockprotect_generic chip m alloc 0x6C 0x80 0 0xFF"

definition spi_disable_blockprotect_at25fs040 :: "'d unlock_fn" where
  "spi_disable_blockprotect_at25fs040 chip m alloc = spi_disable_blockprotect_generic chip m alloc 0x7C 0x80 0 0xFF"

definition spi_disable_blockprotect_n25q :: "'d unlock_fn" where
  "spi_disable_blockprotect_n25q chip m alloc = spi_disable_blockprotect_generic chip m alloc 0x5C 0x80 0 0xFF"

definition spi_disable_blockprotect_bp2_ep_srwd :: "'d unlock_fn" where
  "spi_disable_blockprotect_bp2_ep_srwd = spi_disable_blockprotect_bp2_srwd"

text \<open>\<open>other\<close> gives the functions of \<^verbatim>\<open>at45db.c\<close>, \<^verbatim>\<open>jedec.c\<close>, \<^verbatim>\<open>82802ab.c\<close>, \<^verbatim>\<open>sst_fwhub.c\<close> and \<^verbatim>\<open>sst28sf040.c\<close>.\<close>

definition lookup_blockprotect_func_ptr ::
    "(blockprotect_func \<Rightarrow> 'd unlock_fn option) \<Rightarrow> blockprotect_func \<Rightarrow> 'd unlock_fn option" where
  "lookup_blockprotect_func_ptr other f =
     (case f of
        SPI_DISABLE_BLOCKPROTECT \<Rightarrow> Some spi_disable_blockprotect
      | SPI_DISABLE_BLOCKPROTECT_BP2_EP_SRWD \<Rightarrow> Some spi_disable_blockprotect_bp2_ep_srwd
      | SPI_DISABLE_BLOCKPROTECT_BP1_SRWD \<Rightarrow> Some spi_disable_blockprotect_bp1_srwd
      | SPI_DISABLE_BLOCKPROTECT_BP2_SRWD \<Rightarrow> Some spi_disable_blockprotect_bp2_srwd
      | SPI_DISABLE_BLOCKPROTECT_BP3_SRWD \<Rightarrow> Some spi_disable_blockprotect_bp3_srwd
      | SPI_DISABLE_BLOCKPROTECT_BP4_SRWD \<Rightarrow> Some spi_disable_blockprotect_bp4_srwd
      | SPI_DISABLE_BLOCKPROTECT_AT25F \<Rightarrow> Some spi_disable_blockprotect_at25f
      | SPI_DISABLE_BLOCKPROTECT_AT25FS010 \<Rightarrow> Some spi_disable_blockprotect_at25fs010
      | SPI_DISABLE_BLOCKPROTECT_AT25FS040 \<Rightarrow> Some spi_disable_blockprotect_at25fs040
      | SPI_DISABLE_BLOCKPROTECT_AT25F512A \<Rightarrow> Some spi_disable_blockprotect_at25f512a
      | SPI_DISABLE_BLOCKPROTECT_AT25F512B \<Rightarrow> Some spi_disable_blockprotect_at25f512b
      | SPI_DISABLE_BLOCKPROTECT_AT2X_GLOBAL_UNPROTECT \<Rightarrow> Some spi_disable_blockprotect_at2x_global_unprotect
      | SPI_DISABLE_BLOCKPROTECT_AT2X_GLOBAL_UNPROTECT_SEC \<Rightarrow> Some spi_disable_blockprotect_at2x_global_unprotect_sec
      | SPI_DISABLE_BLOCKPROTECT_SST26_GLOBAL_UNPROTECT \<Rightarrow> Some spi_disable_blockprotect_sst26_global_unprotect
      | SPI_DISABLE_BLOCKPROTECT_N25Q \<Rightarrow> Some spi_disable_blockprotect_n25q
      | NO_BLOCKPROTECT_FUNC \<Rightarrow> None
      | _ \<Rightarrow> other f)"

text \<open>When \<^verbatim>\<open>spi_disable_blockprotect_generic\<close> reports success, the status register it read last had no block
  protection bit set, for every master and every choice of the masks.\<close>

theorem blockprotect_success:
  assumes "spi_disable_blockprotect_generic chip m alloc bp_mask lock_mask wp_mask unprotect_mask fns s = Some (0, fns', s')"
  shows "\<exists>t v. spi_read_register chip m STATUS1 t = Some (0, v, s') \<and> v AND bp_mask = 0"
  using assms unfolding spi_disable_blockprotect_generic_def
  by (auto simp: bind_eq_Some_conv Let_def split: if_splits)

lemma replicate2: "replicate 2 x = [x, x]"
  by (simp add: numeral_2_eq_2)

text \<open>A chip without protection: the register is read once.\<close>

theorem blockprotect_success_witness:
  "\<exists>t v. spi_read_register opaque_chip spi_master_dummyflasher STATUS1 t =
      Some (0, v, \<lparr>sp_dev = zero_data\<lparr>emu_chip := EMULATE_WINBOND_W25Q128FV\<rparr>, sp_address_high_byte = -1, sp_in_4ba_mode = False\<rparr>) \<and> v AND 0x3C = 0"
proof (rule blockprotect_success)
  let ?s = "\<lparr>sp_dev = zero_data\<lparr>emu_chip := EMULATE_WINBOND_W25Q128FV\<rparr>, sp_address_high_byte = -1, sp_in_4ba_mode = False\<rparr>"
  have "spi_read_register opaque_chip spi_master_dummyflasher STATUS1 ?s = Some (0, 0, ?s)"
    by (simp add: spi_read_register_def register_read_cmd_def spi_opcode_supported_def spi_master_dummyflasher_def
        dummy_spi_probe_opcode_def zero_data_def spi_send_command_def dummy_spi_send_command_def lift_dev_def
        emulate_spi_chip_response_def emu_switch_def opcode_defs brk_def fill_def clear_wel_def Let_def replicate2)
  then show "spi_disable_blockprotect_generic opaque_chip spi_master_dummyflasher True 0x3C 0 0 0xFF [] ?s = Some (0, [], ?s)"
    by (simp add: spi_disable_blockprotect_generic_def)
qed

section \<open>Erase opcodes\<close>

text \<open>The erase function that an opcode is mapped to sends this opcode, and the SPI layer implements it.\<close>

theorem erase_opcode_roundtrip:
  fixes m :: "'d spi_master"
  assumes "spi25_get_erasefn_from_opcode opc = f" and "f \<noteq> NO_BLOCK_ERASE_FUNC"
  shows "spi_get_opcode_from_erasefn f = Some [opc] \<and> spi_block_erase chip m f \<noteq> None"
  using assms
  by (auto simp: spi25_get_erasefn_from_opcode_def spi25_function_opcode_list_def spi_get_opcode_from_erasefn_def
      function_opcode_list_def spi_block_erase_def split: if_splits)

theorem erase_opcode_witness:
  "spi_get_opcode_from_erasefn SPI_BLOCK_ERASE_D8 = Some [0xd8] \<and> spi_block_erase opaque_chip spi_master_dummyflasher SPI_BLOCK_ERASE_D8 \<noteq> None"
  using erase_opcode_roundtrip [where opc = "0xd8" and f = SPI_BLOCK_ERASE_D8 and chip = opaque_chip and m = spi_master_dummyflasher]
  by (simp add: spi25_get_erasefn_from_opcode_def spi25_function_opcode_list_def)

section \<open>Auto address increment\<close>

lemma aai_loop_odd:
  assumes "even pos" and "even start" and "odd len" and "start \<le> pos" and "pos < start + len" and "start + len < 4294967296"
    and "3 \<le> len"
  shows "aai_loop chip m buf start len pos s = aai_loop chip m buf start (len - 1) pos s \<and>
    (\<forall>p s'. aai_loop chip m buf start len pos s = Some (True, p, s') \<longrightarrow> p = start + len - 1)"
  using assms(1,4,5)
proof (induction "start + len - pos" arbitrary: pos s rule: less_induct)
  case less
  have E: "sub32 (add32 start len) 1 = start + len - 1" "sub32 (add32 start (len - 1)) 1 = start + len - 2"
    using assms by (simp_all add: c_simps)
  have ev: "even (start + len - 1)" using assms by (simp add: even_diff_nat)
  show ?case
  proof (cases "pos < start + len - 1")
    case True
    then have lt: "pos < start + len - 2" and p2: "pos + 2 < start + len" using less.prems ev by presburger+
    have a2: "add32 pos 2 = pos + 2" using p2 assms(6) by (simp add: c_simps)
    have "start + len - (pos + 2) < start + len - pos" "even (pos + 2)" "start \<le> pos + 2" using less.prems p2 by simp_all
    note ih = less.hyps [OF this p2]
    let ?step = "\<lambda>loop. if length buf \<le> Suc pos - start then None
      else Option.bind (spi_send_command m [JEDEC_AAI_WORD_PROGRAM, buf ! (pos - start), buf ! (Suc pos - start)] 0 s)
        (\<lambda>(result, r, s1). if result \<noteq> 0 then Some (False, pos + 2, s1)
           else Option.bind (spi_poll_wip chip m s1) (\<lambda>(w, s2). if w \<noteq> 0 then Some (False, pos + 2, s2) else loop s2))"
    have run: "aai_loop chip m buf start len pos s = ?step (aai_loop chip m buf start len (pos + 2))"
      using True by (subst aai_loop.simps) (simp only: E a2 if_True)
    have run': "aai_loop chip m buf start (len - 1) pos s = ?step (aai_loop chip m buf start (len - 1) (pos + 2))"
      using lt by (subst aai_loop.simps) (simp only: E a2 if_True)
    have same: "aai_loop chip m buf start (len - 1) (pos + 2) = aai_loop chip m buf start len (pos + 2)"
      using ih by (intro ext) simp
    have "p = start + len - 1" if "?step (aai_loop chip m buf start len (pos + 2)) = Some (True, p, s')" for p s'
    proof -
      from that obtain s2 where "aai_loop chip m buf start len (pos + 2) s2 = Some (True, p, s')"
        by (auto simp: bind_eq_Some_conv split: if_splits)
      with ih [of s2] show ?thesis by blast
    qed
    then show ?thesis unfolding run run' same by blast
  next
    case False
    with less.prems have p: "pos = start + len - 1" "\<not> pos < start + len - 1" "\<not> pos < start + len - 2" by simp_all
    have "aai_loop chip m buf start len pos s = Some (True, pos, s)" "aai_loop chip m buf start (len - 1) pos s = Some (True, pos, s)"
      using p(2,3) by (subst aai_loop.simps, simp only: E if_False)+
    then show ?thesis using p(1) by simp
  qed
qed

text \<open>With an even start address and an odd length, \<^verbatim>\<open>default_spi_write_aai\<close> does exactly what it does for the
  length without the last byte, on every master: that byte is never sent, and the result is the same.\<close>

theorem default_spi_write_aai_drops_last:
  assumes "even start" and "odd len" and "3 \<le> len" and "start + len < 4294967296"
  shows "default_spi_write_aai chip m buf start len s = default_spi_write_aai chip m buf start (len - 1) s"
proof -
  define q where "q = add32 start 2"
  have q: "q = start + 2" and p0: "add32 start 0 = start" using assms by (simp_all add: c_simps q_def)
  have loop: "aai_loop chip m buf start len q t = aai_loop chip m buf start (len - 1) q t \<and>
      (\<forall>p t'. aai_loop chip m buf start len q t = Some (True, p, t') \<longrightarrow> p = start + len - 1)" for t
    by (rule aai_loop_odd) (use assms q in auto)
  have E: "add32 start len = start + len" "add32 start (len - 1) = start + len - 1" "even (start + len - 1)"
    using assms by (simp_all add: c_simps even_diff_nat)
  have w1: "spi_chip_write_1 chip m b (start + len - 1) 0 t = Some (0, t)" for b t
    unfolding spi_chip_write_1_def using assms by (subst write_1_loop.simps) (simp add: c_simps)
  have tail: "Option.bind (aai_loop chip m buf start len q t) (\<lambda>(through, pos', s3).
        if \<not> through then aai_bailout m s3
        else Option.bind (spi_write_disable m s3) (\<lambda>(result, s4).
          if result \<noteq> 0 then Some (SPI_GENERIC_ERROR, s4)
          else if pos' < add32 start len
          then map_option (\<lambda>(w, s5). (if w \<noteq> 0 then SPI_GENERIC_ERROR else 0, s5))
                 (spi_chip_write_1 chip m (drop (pos' - start) buf) pos' (pos' mod 2) s4)
          else Some (0, s4))) =
      Option.bind (aai_loop chip m buf start (len - 1) q t) (\<lambda>(through, pos', s3).
        if \<not> through then aai_bailout m s3
        else Option.bind (spi_write_disable m s3) (\<lambda>(result, s4).
          if result \<noteq> 0 then Some (SPI_GENERIC_ERROR, s4)
          else if pos' < add32 start (len - 1)
          then map_option (\<lambda>(w, s5). (if w \<noteq> 0 then SPI_GENERIC_ERROR else 0, s5))
                 (spi_chip_write_1 chip m (drop (pos' - start) buf) pos' (pos' mod 2) s4)
          else Some (0, s4)))" for t
  proof (cases "aai_loop chip m buf start len q t")
    case (Some x)
    obtain through p t' where x: "x = (through, p, t')" by (cases x)
    have l: "aai_loop chip m buf start (len - 1) q t = Some (through, p, t')" using loop [of t] Some x by simp
    show ?thesis
    proof (cases through)
      case True
      then have "p = start + len - 1" using loop [of t] Some x by simp
      moreover have "(start + len - 1) mod 2 = 0" using E(3) by presburger
      ultimately show ?thesis
        using Some x l True E assms w1 by (cases "spi_write_disable m t'") (auto simp: split: prod.splits)
    next
      case False
      then show ?thesis by (simp only: Some x l bind.bind_lunit prod.case if_True simp_thms)
    qed
  qed (use loop [of t] in simp)
  show ?thesis
    using assms(1)
    by (simp add: default_spi_write_aai_def Let_def p0 flip: q_def)
      (intro impI Option.bind_cong refl, simp add: tail [unfolded One_nat_def q_def] split: prod.split)
qed

theorem default_spi_write_aai_witness:
  "\<forall>s. default_spi_write_aai opaque_chip spi_master_dummyflasher [1, 2, 3] 0 3 s =
     default_spi_write_aai opaque_chip spi_master_dummyflasher [1, 2, 3] 0 2 s"
  using default_spi_write_aai_drops_last [of 0 3 opaque_chip spi_master_dummyflasher "[1, 2, 3]"] by simp

section \<open>Waiting for the chip\<close>

text \<open>\<open>ready_after chip m k s\<close>: the chip answers \<open>k\<close> reads of the status register as busy, and the next one as ready.\<close>

fun ready_after :: "flashchip \<Rightarrow> 'd spi_master \<Rightarrow> nat \<Rightarrow> 'd spi_state \<Rightarrow> 'd spi_state \<Rightarrow> bool" where
  "ready_after chip m 0 s t \<longleftrightarrow> (\<exists>v. spi_read_register chip m STATUS1 s = Some (0, v, t) \<and> v AND SPI_SR_WIP = 0)"
| "ready_after chip m (Suc k) s t \<longleftrightarrow>
     (\<exists>v s'. spi_read_register chip m STATUS1 s = Some (0, v, s') \<and> v AND SPI_SR_WIP \<noteq> 0 \<and> ready_after chip m k s' t)"

lemma poll_ready: "ready_after chip m k s t \<Longrightarrow> spi_poll_wip chip m s = Some (0, t)"
proof (induction k arbitrary: s)
  case 0
  then show ?case by (subst spi_poll_wip.simps) auto
next
  case (Suc k)
  then show ?case by (subst spi_poll_wip.simps) auto
qed

lemma poll_returns:
  assumes "spi_poll_wip chip m s = Some r"
  shows "fst r = 0 \<longrightarrow> (\<exists>k. ready_after chip m k s (snd r))"
  using assms
proof (rule spi_poll_wip.raw_induct [rotated])
  fix poll and chip and m :: "'a spi_master" and s r
  assume IH: "\<And>chip m s r. poll chip m s = Some r \<Longrightarrow> fst r = 0 \<longrightarrow> (\<exists>k. ready_after chip m k s (snd r))"
    and run: "Option.bind (spi_read_register chip m STATUS1 s) (\<lambda>(ret, status, s').
      if ret \<noteq> 0 then Some (ret, s') else if status AND SPI_SR_WIP = 0 then Some (0, s') else poll chip m s') = Some r"
  obtain ret v s' where rd: "spi_read_register chip m STATUS1 s = Some (ret, v, s')"
    using run by (auto simp: bind_eq_Some_conv)
  show "fst r = 0 \<longrightarrow> (\<exists>k. ready_after chip m k s (snd r))"
  proof (cases "ret = 0 \<and> v AND SPI_SR_WIP \<noteq> 0")
    case True
    then have "poll chip m s' = Some r" using run rd by simp
    from IH [OF this] show ?thesis using rd True by (metis ready_after.simps(2))
  next
    case False
    then have "fst r = 0 \<longrightarrow> ready_after chip m 0 s (snd r)" using run rd by (auto split: if_splits)
    then show ?thesis by blast
  qed
qed

text \<open>C27: \<^verbatim>\<open>spi_poll_wip\<close> returns success exactly when the chip becomes ready after finitely many reads of its
  status register; on a chip that stays busy it never returns.\<close>

theorem spi_poll_wip_returns:
  "spi_poll_wip chip m s = Some (0, t) \<longleftrightarrow> (\<exists>k. ready_after chip m k s t)"
  using poll_ready poll_returns [of chip m s "(0, t)"] by auto

end
