(* ===== verification/Regions.thy ===== *)
theory Regions
  imports W25Image
begin

text \<open>
  Chips behind a programmer that reports flash regions with access rights (the \<^verbatim>\<open>get_region\<close> callback): what
  \<^verbatim>\<open>read_flash\<close>, \<^verbatim>\<open>write_flash\<close>, \<^verbatim>\<open>verify_range\<close> and \<^verbatim>\<open>erase_write\<close> do to regions that may not be read or written.
  The callback is a parameter \<open>gr\<close>; it reports for every address a region that contains it.
\<close>

section \<open>Adding regions to a context\<close>

definition with_regions :: "(nat \<Rightarrow> flash_region) \<Rightarrow> 's flashctx \<Rightarrow> 's flashctx" where
  "with_regions gr c = c\<lparr>c_mst := (c_mst c)\<lparr>m_spi_get_region := Some gr\<rparr>\<rparr>"

definition reports_regions :: "nat \<Rightarrow> (nat \<Rightarrow> flash_region) \<Rightarrow> bool" where
  "reports_regions n gr \<longleftrightarrow> (\<forall>a < n. a \<le> fr_end (gr a) \<and> fr_end (gr a) < n \<and>
     (\<forall>b. a \<le> b \<and> b \<le> fr_end (gr a) \<longrightarrow> gr b = gr a))"

definition spi_only :: "'s flashctx \<Rightarrow> bool" where
  "spi_only c \<longleftrightarrow> m_buses_supported (c_mst c) = BUS_SPI"

lemma with_regions_simps [simp]:
  "c_chip (with_regions gr c) = c_chip c" "c_flags (with_regions gr c) = c_flags c" "c_drivers (with_regions gr c) = c_drivers c"
  "c_malloc (with_regions gr c) = c_malloc c" "ERASED_VALUE (with_regions gr c) = ERASED_VALUE c"
  by (simp_all add: with_regions_def ERASED_VALUE_def)

lemma with_regions_region: "spi_only c \<Longrightarrow> get_flash_region (with_regions gr c) a = gr a"
  by (simp add: get_flash_region_def with_regions_def spi_only_def bus_defs)

lemma with_regions_usable: "usable_erasers (with_regions gr c) = usable_erasers c"
proof -
  have "spi_probe_opcode (with_regions gr c) = spi_probe_opcode c"
    "m_buses_supported (c_mst (with_regions gr c)) = m_buses_supported (c_mst c)"
    by (simp_all add: spi_probe_opcode_def with_regions_def fun_eq_iff)
  then have "check_block_eraser (with_regions gr c) k = check_block_eraser c k" for k
    by (simp only: check_block_eraser_def with_regions_simps)
  then show ?thesis by (simp add: usable_erasers_def)
qed

lemma reader_with_regions:
  assumes dev: "flash_reader c n dev_ok contents" and spi: "spi_only c" and gr: "reports_regions n gr"
  shows "flash_reader (with_regions gr c) n dev_ok contents"
proof -
  note rd = flash_reader.axioms(1) [OF dev]
  show ?thesis
  proof (intro flash_reader.intro flash_regions.intro flash_reader_axioms.intro)
    show "n = ch_total_size (c_chip (with_regions gr c)) * 1024" "0 < n" "n < 2147483648"
      using flash_regions.size [OF rd] flash_regions.size_pos [OF rd] flash_regions.size_bound [OF rd] by simp_all
    show "a \<le> fr_end (get_flash_region (with_regions gr c) a) \<and> fr_end (get_flash_region (with_regions gr c) a) < n" if "a < n" for a
      using gr that unfolding with_regions_region [OF spi] reports_regions_def by blast
    show "get_flash_region (with_regions gr c) b = get_flash_region (with_regions gr c) a"
      if "a < n" "a \<le> b" "b \<le> fr_end (get_flash_region (with_regions gr c) a)" for a b
      using gr that unfolding with_regions_region [OF spi] reports_regions_def by blast
    show "length (contents s) = n" if "dev_ok s" for s using flash_reader.contents_length [OF dev that] .
    show "ch_read (c_chip (with_regions gr c)) \<noteq> NO_READ_FUNC" using flash_reader.has_read [OF dev] by simp
    show "\<exists>s'. drv_read (c_drivers (with_regions gr c)) (ch_read (c_chip (with_regions gr c))) a len s =
        Some (0, bslice a len (contents s), s') \<and> dev_ok s' \<and> contents s' = contents s"
      if "dev_ok s" "0 < len" "a + len \<le> n" for a len s using flash_reader.read_law [OF dev that] by simp
  qed
qed

lemma device_with_regions:
  assumes dev: "flash_device c n dev_ok contents" and spi: "spi_only c" and gr: "reports_regions n gr"
    and chunks: "\<And>a. a < n \<Longrightarrow> gran_stride (ch_gran (c_chip c)) dvd Suc (fr_end (gr a))"
  shows "flash_device (with_regions gr c) n dev_ok contents"
proof -
  note rd = flash_device.axioms(1) [OF dev]
  show ?thesis
    by (intro flash_device.intro flash_device_axioms.intro reader_with_regions rd spi gr;
        simp only: with_regions_region [OF spi] with_regions_usable with_regions_simps;
        rule flash_device.has_write [OF dev] flash_device.write_law [OF dev] flash_device.erase_law [OF dev]
          flash_device.erase_func [OF dev] flash_device.malloc_ok [OF dev] chunks; assumption)
qed

lemma eraser_with_regions:
  assumes dev: "erase_device c n dev_ok contents" and spi: "spi_only c" and gr: "reports_regions n gr"
    and chunks: "\<And>a. a < n \<Longrightarrow> gran_stride (ch_gran (c_chip c)) dvd Suc (fr_end (gr a))"
    and blocks: "\<And>a. a < n \<Longrightarrow> Suc (fr_end (gr a)) = n \<or> Suc (fr_end (gr a)) \<in> set (bounds_of (usable_erasers c ! 0))"
    and readable: "\<And>a. a < n \<Longrightarrow> \<not> fr_read_prot (gr a)"
  shows "erase_device (with_regions gr c) n dev_ok contents"
proof -
  note fd = erase_device.axioms(1) [OF dev]
  show ?thesis
    by (intro erase_device.intro erase_device_axioms.intro device_with_regions fd spi gr chunks;
        simp only: with_regions_region [OF spi] with_regions_usable with_regions_simps;
        rule erase_device.erasers [OF dev] erase_device.geometry [OF dev] erase_device.block_chunks [OF dev]
          erase_device.bit_erased [OF dev] blocks readable; assumption)
qed

section \<open>The emulated W25Q128FV with regions\<close>

lemma w25_spi_only: "spi_only (w25_ctx d0 lay fl ratio fresh)"
  by (simp add: spi_only_def w25_ctx_simps spi_dummy_master_def)

lemmas w25_region_simps = with_regions_region [OF w25_spi_only] w25_ctx_simps w25_chip_simps

lemma w25_regions:
  assumes "reports_regions 16777216 gr"
  shows "flash_reader (with_regions gr (w25_ctx d0 lay fl ratio fresh)) 16777216 (on_dev (w25_keep hw S)) (dev_img flashchip_contents)"
  by (rule reader_with_regions [OF full_reader.axioms(1) [OF w25_full_reader] w25_spi_only assms])

text \<open>The programmer reports three regions: the first 4 KiB are read-only, the next 4 KiB cannot be read.\<close>

definition sample_regions :: "nat \<Rightarrow> flash_region" where
  "sample_regions a =
     (if a < 4096 then \<lparr>fr_name = ''ro'', fr_start = 0, fr_end = 4095, fr_read_prot = False, fr_write_prot = True\<rparr>
      else if a < 8192 then \<lparr>fr_name = ''hidden'', fr_start = 4096, fr_end = 8191, fr_read_prot = True, fr_write_prot = False\<rparr>
      else \<lparr>fr_name = ''rest'', fr_start = 8192, fr_end = 16777215, fr_read_prot = False, fr_write_prot = False\<rparr>)"

lemma sample_reports: "reports_regions 16777216 sample_regions"
  by (auto simp: reports_regions_def sample_regions_def)

text \<open>Without the flag to skip them, \<^verbatim>\<open>write_flash\<close> refuses a range that touches a write-protected region: it
  returns an error and sends nothing to the chip.\<close>

theorem write_flash_protected:
  assumes gr: "reports_regions 16777216 gr" and le: "start + len \<le> 16777216" and fl: "\<not> fl_skip_unwritable_regions fl"
    and wp: "start \<le> i" "i < start + len" "fr_write_prot (gr i)"
  shows "write_flash (with_regions gr (w25_ctx d0 lay fl ratio fresh)) buf off start len s = Some (-1, s)"
proof -
  let ?c = "with_regions gr (w25_ctx d0 lay fl ratio fresh)"
  have rg: "flash_regions ?c 16777216" using w25_regions [OF gr] by (rule flash_reader.axioms(1))
  have "\<not> writable ?c start len" using fl wp by (auto simp: writable_def write_protected_def w25_region_simps)
  from flash_regions.write_flash_refused [OF rg le this] show ?thesis .
qed

theorem write_flash_protected_witness:
  "write_flash (with_regions sample_regions (w25_ctx w25_data None sample_flags 0 (\<lambda>i. 0))) (replicate 8192 0) 0 4000 200 w25_state =
     Some (-1, w25_state)"
  by (rule write_flash_protected [OF sample_reports, where i = 4000]) (simp_all add: sample_flags_def sample_regions_def)

text \<open>\<^verbatim>\<open>read_flash\<close> delivers the bytes of the readable regions of the range and the erased value for the others,
  if unreadable regions are absent or to be skipped, and leaves the rest of the buffer alone.\<close>

theorem read_flash_regions:
  assumes gr: "reports_regions 16777216 gr" and le: "start + len \<le> 16777216" "off + len \<le> length buf" and s: "on_dev (w25_inv hw) s"
    and rd: "fl_skip_unreadable_regions fl \<or> (\<forall>i. start \<le> i \<and> i < start + len \<longrightarrow> \<not> fr_read_prot (gr i))"
  shows "\<exists>s'. read_flash (with_regions gr (w25_ctx d0 lay fl ratio fresh)) buf off start len s =
      Some (0, blit off (map (\<lambda>i. if fr_read_prot (gr i) then 0xff else flashchip_contents (sp_dev s) ! i) [start..<start + len]) buf, s') \<and>
    flashchip_contents (sp_dev s') = flashchip_contents (sp_dev s)"
proof -
  let ?c = "with_regions gr (w25_ctx d0 lay fl ratio fresh)"
  have k: "on_dev (w25_keep hw (emu_status (sp_dev s))) s" using s by (simp add: on_dev_def w25_keep_def)
  have "readable ?c start len" using rd by (auto simp: readable_def w25_region_simps)
  moreover have "visible ?c (dev_img flashchip_contents s) = (\<lambda>i. if fr_read_prot (gr i) then 0xff else flashchip_contents (sp_dev s) ! i)"
    by (simp add: fun_eq_iff visible_def dev_img_def w25_region_simps w25_erased)
  ultimately show ?thesis
    using flash_reader.read_flash_ok [OF w25_regions [OF gr] le k, of d0 lay fl ratio fresh] by (auto simp: dev_img_def)
qed

theorem read_flash_regions_witness:
  "\<exists>s'. read_flash (with_regions sample_regions (w25_ctx w25_data None (sample_flags\<lparr>fl_skip_unreadable_regions := True\<rparr>) 0 (\<lambda>i. 0)))
      (replicate 200 0) 0 8100 200 w25_state =
      Some (0, blit 0 (map (\<lambda>i. if fr_read_prot (sample_regions i) then 0xff else flashchip_contents (sp_dev w25_state) ! i) [8100..<8100 + 200])
        (replicate 200 0), s') \<and>
    flashchip_contents (sp_dev s') = flashchip_contents (sp_dev w25_state)"
  by (rule read_flash_regions [OF sample_reports, where hw = False]) (simp_all add: w25_state_def on_dev_def w25_data_inv)

text \<open>\<^verbatim>\<open>verify_range\<close> reports a range as verified, whatever it is compared with, when the range starts in a region
  that cannot be read and is not to be skipped.\<close>

theorem verify_range_hidden:
  assumes gr: "reports_regions 16777216 gr" and le: "0 < len" "start + len \<le> 16777216"
    and hidden: "fr_read_prot (gr start)" "\<not> fl_skip_unreadable_regions fl"
    and wr: "\<not> (fr_write_prot (gr start) \<and> fl_skip_unwritable_regions fl)"
  shows "verify_range (with_regions gr (w25_ctx d0 lay fl ratio fresh)) cmpbuf start len s = Some (0, s)"
proof (rule flash_reader.verify_range_unreadable [OF w25_regions [OF gr] le])
  show "verified (with_regions gr (w25_ctx d0 lay fl ratio fresh)) start"
    using hidden wr by (simp add: verified_def w25_region_simps)
qed (use hidden in \<open>simp_all add: w25_region_simps\<close>)

theorem verify_range_hidden_witness:
  "verify_range (with_regions sample_regions (w25_ctx w25_data None sample_flags 0 (\<lambda>i. 0))) (replicate 4096 0x42) 4096 4096 w25_state =
     Some (0, w25_state)"
  by (rule verify_range_hidden [OF sample_reports]) (simp_all add: sample_regions_def sample_flags_def)

lemma w25_eraser_regions:
  assumes bl: "spi_blacklist d0 = []" and gr: "reports_regions 16777216 gr"
    and al: "\<And>a. a < 16777216 \<Longrightarrow> 4096 dvd Suc (fr_end (gr a))" and rd: "\<And>a. a < 16777216 \<Longrightarrow> \<not> fr_read_prot (gr a)"
  shows "erase_device (with_regions gr (w25_ctx d0 lay fl ratio fresh)) 16777216 (on_dev (w25_writable hw)) (dev_img flashchip_contents)"
proof (rule eraser_with_regions [OF w25_erase_device [OF bl] w25_spi_only gr])
  let ?c = "w25_ctx d0 lay fl ratio fresh"
  show "gran_stride (ch_gran (c_chip ?c)) dvd Suc (fr_end (gr a))" if "a < 16777216" for a
    using al [OF that] dvd_trans [of 256 4096 "Suc (fr_end (gr a))"] by (simp add: w25_ctx_simps w25_chip_simps)
  show "Suc (fr_end (gr a)) = 16777216 \<or> Suc (fr_end (gr a)) \<in> set (bounds_of (usable_erasers ?c ! 0))" if lt: "a < 16777216" for a
  proof -
    obtain i where i: "Suc (fr_end (gr a)) = i * 4096" using al [OF lt] by (metis dvd_div_mult_self)
    have "fr_end (gr a) < 16777216" using gr lt unfolding reports_regions_def by blast
    then have "i < 4096 \<or> i * 4096 = 16777216" using i by auto
    then show ?thesis using i by (auto simp: w25_usable [OF bl] w25_erasers_def bounds_uniform)
  qed
qed (rule rd)


text \<open>A protected first block, and a write of the first 64 KiB.\<close>

definition boot_region :: "nat \<Rightarrow> flash_region" where
  "boot_region a =
     (if a < 4096 then \<lparr>fr_name = ''boot'', fr_start = 0, fr_end = 4095, fr_read_prot = False, fr_write_prot = True\<rparr>
      else \<lparr>fr_name = ''rest'', fr_start = 4096, fr_end = 16777215, fr_read_prot = False, fr_write_prot = False\<rparr>)"


end
