(* ===== verification/Plans.thy ===== *)
theory Plans
  imports W25Image
begin

text \<open>
  The erase plan as a whole: the layers that \<^verbatim>\<open>create_erase_layout\<close> builds, the blocks that
  \<^verbatim>\<open>select_erase_functions\<close> picks from them, the alignment of a region to the smallest blocks, and the
  combination of an image with the old contents.
\<close>

section \<open>Layers\<close>

lemma unselected: "layout_of l es \<Longrightarrow> \<forall>lv \<in> set l. \<forall>b \<in> set (el_blocks lv). \<not> ed_selected b"
  unfolding layout_of_def by (metis in_set_conv_nth)

lemma uniform_layer:
  assumes l: "layout_of L es" and i: "i < length L" and e: "es ! i = uniform_eraser sz count f" "0 < sz" and k: "k < count"
  shows "rng L i k \<and> ed_start (blk L i k) = k * sz \<and> Suc (ed_end (blk L i k)) = k * sz + sz"
proof -
  have eq: "map (\<lambda>b. (ed_start b, Suc (ed_end b) - ed_start b)) (el_blocks (L ! i)) = map (\<lambda>i. (i * sz, sz)) [0..<count]"
    using l i by (simp add: layout_of_def e eraser_blocks_uniform)
  have len: "length (el_blocks (L ! i)) = count" using arg_cong [OF eq, of length] by simp
  have "map (\<lambda>b. (ed_start b, Suc (ed_end b) - ed_start b)) (el_blocks (L ! i)) ! k = (k * sz, sz)" unfolding eq using k by simp
  then have "ed_start (blk L i k) = k * sz" "Suc (ed_end (blk L i k)) - k * sz = sz" using k len by auto
  then show ?thesis using e(2) i k len by (auto simp: rng_def)
qed

text \<open>C15: for every chip whose usable erase functions cover it with nested blocks, \<^verbatim>\<open>create_erase_layout\<close> returns
  one layer per function; the blocks of each layer tile the chip, each block above the lowest layer
  consists exactly of the blocks below that it points to, and no block is selected.\<close>

theorem create_erase_layout_wf:
  assumes "n = ch_total_size (c_chip c) * 1024" and "0 < n" and "n < 4294967296" and "\<And>k. c_malloc c k"
    and "usable_erasers c \<noteq> []" and "geometry_ok n (usable_erasers c)"
  shows "\<exists>l. create_erase_layout c = Some (int (length (usable_erasers c)), Some l) \<and> wf_layout n l \<and>
    map el_eraser l = usable_erasers c \<and> (\<forall>lv \<in> set l. \<forall>b \<in> set (el_blocks lv). \<not> ed_selected b)"
proof -
  obtain l where l: "create_erase_layout c = Some (int (length (usable_erasers c)), Some l)" "wf_layout n l"
    "layout_of l (usable_erasers c)" using create_erase_layout_ok [OF assms(1,3,2,4,5,6)] by blast
  with unselected [OF l(3)] show ?thesis by (auto simp: layout_of_def)
qed

theorem create_erase_layout_witness:
  "\<exists>l. create_erase_layout (w25_ctx w25_data None sample_flags 0 (\<lambda>i. 0)) =
      Some (int (length (usable_erasers (w25_ctx w25_data None sample_flags 0 (\<lambda>i. 0)))), Some l) \<and> wf_layout 16777216 l \<and>
    map el_eraser l = usable_erasers (w25_ctx w25_data None sample_flags 0 (\<lambda>i. 0)) \<and>
    (\<forall>lv \<in> set l. \<forall>b \<in> set (el_blocks lv). \<not> ed_selected b)"
  by (rule create_erase_layout_wf)
    (simp_all add: w25_ctx_simps w25_chip_simps w25_usable w25_data_simps w25_geometry, simp add: w25_erasers_def)

lemma w25_layout:
  assumes "spi_blacklist d0 = []"
  shows "\<exists>L. create_erase_layout (w25_ctx d0 lay fl ratio fresh) = Some (5, Some L) \<and> wf_layout 16777216 L \<and> layout_of L w25_erasers"
  using create_erase_layout_ok [of 16777216 "w25_ctx d0 lay fl ratio fresh"] w25_geometry
  by (simp add: w25_ctx_simps w25_chip_simps w25_usable [OF assms]) (simp add: w25_erasers_def)

section \<open>Selection\<close>

text \<open>The blocks selected for the region \<open>[rs, re]\<close>: they lie in it, do not overlap, and cover every smallest block of
  the region whose contents cannot be programmed without an erase.\<close>

definition good_plan :: "'s flashctx \<Rightarrow> bytes \<Rightarrow> bytes \<Rightarrow> nat \<Rightarrow> nat \<Rightarrow> erase_layout \<Rightarrow> erase_layout \<Rightarrow> bool" where
  "good_plan c cur new rs re L l \<longleftrightarrow>
     (\<forall>i k. picked L l i k \<longrightarrow> rs \<le> ed_start (blk L i k) \<and> ed_end (blk L i k) \<le> re) \<and>
     (\<forall>i k i' k'. picked L l i k \<and> picked L l i' k' \<and> (i, k) \<noteq> (i', k') \<longrightarrow>
        ed_end (blk L i k) < ed_start (blk L i' k') \<or> ed_end (blk L i' k') < ed_start (blk L i k)) \<and>
     (\<forall>k. rng L 0 k \<and> rs \<le> ed_start (blk L 0 k) \<and> ed_end (blk L 0 k) \<le> re \<and> needs c cur new L k \<longrightarrow>
        (\<exists>i m. picked L l i m \<and> ed_start (blk L i m) \<le> ed_start (blk L 0 k) \<and> ed_end (blk L 0 k) \<le> ed_end (blk L i m)))"

lemma good_plan_ok:
  assumes "wf_layout n L" and "L \<noteq> []" and "0 < n" and "clean L L"
  shows "\<exists>l. select_top c (length L - 1) cur new rs re [0..<length (el_blocks (L ! (length L - 1)))] L = Some l \<and>
    shape l = shape L \<and> good_plan c cur new rs re L l"
proof -
  from select_top_ok [OF assms, of c cur new rs re] obtain l where
    l: "select_top c (length L - 1) cur new rs re [0..<length (el_blocks (L ! (length L - 1)))] L = Some l" "shape l = shape L"
    "\<forall>i k. picked L l i k \<longrightarrow> within L i k rs re"
    "\<forall>i k i' k'. picked L l i k \<and> picked L l i' k' \<and> (i, k) \<noteq> (i', k') \<longrightarrow> disjoint_blocks L i k i' k'"
    "\<forall>k. rng L 0 k \<and> within L 0 k rs re \<and> needs c cur new L k \<longrightarrow>
       (\<exists>i m. picked L l i m \<and> within L 0 k (ed_start (blk L i m)) (ed_end (blk L i m)))" by blast
  have "good_plan c cur new rs re L l"
    unfolding good_plan_def using l(3-5) by (simp only: within_def disjoint_blocks_def) blast
  with l(1,2) show ?thesis by blast
qed

text \<open>C4: the selection of erase blocks never leaves the arrays of the layout, and its result is a good plan: the
  selected blocks lie inside the region, do not overlap, and cover everything that needs an erase, for
  every sacrifice ratio.\<close>

theorem erase_plan_correct:
  assumes "wf_layout n L" and "L \<noteq> []" and "0 < n" and "\<forall>lv \<in> set L. \<forall>b \<in> set (el_blocks lv). \<not> ed_selected b"
  shows "\<exists>l. select_top c (length L - 1) cur new rs re [0..<length (el_blocks (L ! (length L - 1)))] L = Some l \<and>
    shape l = shape L \<and> good_plan c cur new rs re L l"
proof -
  have "clean L L" using assms(4) unfolding clean_def rng_def by (meson nth_mem)
  from good_plan_ok [OF assms(1-3) this] show ?thesis .
qed

theorem erase_plan_witness:
  "\<exists>L l. create_erase_layout (w25_ctx w25_data None sample_flags 0 (\<lambda>i. 0)) = Some (5, Some L) \<and>
    select_top (w25_ctx w25_data None sample_flags 0 (\<lambda>i. 0)) (length L - 1) (replicate 16777216 0) (replicate 16777216 0xff)
      0 16777215 [0..<length (el_blocks (L ! (length L - 1)))] L = Some l \<and>
    good_plan (w25_ctx w25_data None sample_flags 0 (\<lambda>i. 0)) (replicate 16777216 0) (replicate 16777216 0xff) 0 16777215 L l"
proof -
  obtain L where L: "create_erase_layout (w25_ctx w25_data None sample_flags 0 (\<lambda>i. 0)) = Some (5, Some L)" "wf_layout 16777216 L"
    "layout_of L w25_erasers" using w25_layout [of w25_data None sample_flags 0 "\<lambda>i. 0"] by (auto simp: w25_data_simps)
  have ne: "L \<noteq> []" using L(3) by (auto simp: layout_of_def w25_erasers_def)
  from erase_plan_correct [OF L(2) ne _ unselected [OF L(3)], where c = "w25_ctx w25_data None sample_flags 0 (\<lambda>i. 0)" and
      cur = "replicate 16777216 0" and new = "replicate 16777216 0xff" and rs = 0 and re = 16777215] L(1)
  show ?thesis by auto
qed

section \<open>Alignment\<close>

text \<open>\<^verbatim>\<open>align_region\<close> on the layout of the W25Q128FV extends a region to whole blocks of 4 KiB and no further.\<close>

theorem w25_align_region:
  assumes bl: "spi_blacklist d0 = []" and L: "create_erase_layout (w25_ctx d0 lay fl ratio fresh) = Some (5, Some L)"
    and ab: "a \<le> b" "b < 16777216"
  shows "align_region L a b = (a div 4096 * 4096, b div 4096 * 4096 + 4095)"
proof -
  have wf: "wf_layout 16777216 L" "layout_of L w25_erasers" using w25_layout [OF bl, of lay fl ratio fresh] L by auto
  have l0: "0 < length L" using wf(2) by (auto simp: layout_of_def w25_erasers_def)
  have e0: "w25_erasers ! 0 = uniform_eraser 4096 4096 SPI_BLOCK_ERASE_20" by (simp add: w25_erasers_def)
  have blk: "rng L 0 k \<and> ed_start (blk L 0 k) = k * 4096 \<and> ed_end (blk L 0 k) = k * 4096 + 4095" if k: "k < 4096" for k
  proof -
    have "rng L 0 k \<and> ed_start (blk L 0 k) = k * 4096 \<and> Suc (ed_end (blk L 0 k)) = k * 4096 + 4096"
      by (rule uniform_layer [OF wf(2) l0 e0 _ k]) simp
    then show ?thesis by linarith
  qed
  have k: "a div 4096 < 4096" "b div 4096 < 4096" using ab by (simp_all add: less_mult_imp_div_less)
  note ka = blk [OF k(1)] and kb = blk [OF k(2)]
  have bounds: "x div 4096 * 4096 \<le> x" "x \<le> x div 4096 * 4096 + 4095" for x :: nat
    using div_mult_mod_eq [of x 4096] mod_less_divisor [of 4096 x] by simp_all
  show ?thesis
    using align_region_ok [OF wf(1), of "a div 4096" a "b div 4096" b] ka kb bounds [of a] bounds [of b] by auto
qed

theorem w25_align_region_witness:
  "\<exists>L. create_erase_layout (w25_ctx w25_data None sample_flags 0 (\<lambda>i. 0)) = Some (5, Some L) \<and>
    align_region L 5000 9000 = (4096, 12287)"
proof -
  obtain L where L: "create_erase_layout (w25_ctx w25_data None sample_flags 0 (\<lambda>i. 0)) = Some (5, Some L)"
    using w25_layout [of w25_data None sample_flags 0 "\<lambda>i. 0"] by (auto simp: w25_data_simps)
  with w25_align_region [OF _ L, of 5000 9000] show ?thesis by (simp add: w25_data_simps)
qed

section \<open>Combination of an image with the old contents\<close>

text \<open>\<^verbatim>\<open>combine_image_by_layout\<close>, which walks the gaps between the included regions and copies the old contents
  into them, returns for every checked layout, and its result is the bytewise definition: the new image in the
  included regions, the old contents elsewhere.\<close>

theorem combine_image_by_layout_overlay:
  assumes "ch_total_size (c_chip c) < 2097152" and "layout_sanity_checks (ch_total_size (c_chip c)) (get_layout c) = 0"
    and "length old = ch_total_size (c_chip c) * 1024" and "length new = ch_total_size (c_chip c) * 1024"
  shows "combine_image_by_layout c new old = Some (overlay new (covered (get_layout c)) old)"
proof -
  have n: "ch_total_size (c_chip c) * 1024 < 2147483648" using assms(1) by simp
  then have "entries_ok (ch_total_size (c_chip c) * 1024) (get_layout c)"
    using layout_sanity_checksD [OF assms(2)] by (auto simp: entries_ok_def c_simps)
  from combine_image_ok [OF refl n this assms(3,4)] show ?thesis by (simp add: overlay_def assms(3))
qed

definition sector_layout :: layout where
  "sector_layout = [\<lparr>re_included = True, re_file = None, re_region = \<lparr>fr_name = ''sector'', fr_start = 8192, fr_end = 12287, fr_read_prot = False, fr_write_prot = False\<rparr>\<rparr>]"

theorem combine_image_by_layout_witness:
  "combine_image_by_layout (w25_ctx w25_data (Some sector_layout) sample_flags 0 (\<lambda>i. 0)) (replicate 16777216 0) (replicate 16777216 0xff) =
    Some (overlay (replicate 16777216 0) (covered sector_layout) (replicate 16777216 0xff))"
proof -
  have "layout_sanity_checks 16384 sector_layout = 0"
    by (simp add: sector_layout_def layout_sanity_checks_def mul32_def u32_def)
  then show ?thesis
    using combine_image_by_layout_overlay [of "w25_ctx w25_data (Some sector_layout) sample_flags 0 (\<lambda>i. 0)"
        "replicate 16777216 0xff" "replicate 16777216 0"]
    by (simp add: get_layout_def w25_ctx_simps w25_chip_simps sector_layout_def)
qed

section \<open>Programming page by page\<close>



end
