(* ===== verification/Sessions.thy ===== *)
theory Sessions
  imports W25Image
begin

text \<open>
  A run of several operations on the same chip against an abstract specification. The specification knows
  only the bytes of the chip and the range it protects; the operations are the exported functions of
  libflashrom on the emulated W25Q128FV, from the layout down to the single SPI commands.
\<close>

datatype session =
    Read "layout option"
  | Write "layout option" bytes
  | Erase "layout option"
  | Protect wp_cfg

section \<open>The specification\<close>

record chip_spec =
  spec_bytes :: bytes
  spec_start :: nat
  spec_end :: nat

definition effective_layout :: "layout option \<Rightarrow> layout" where
  "effective_layout lay = (case lay of Some l \<Rightarrow> l | None \<Rightarrow> whole_chip 16777216)"

text \<open>Each operation gives the bytes it hands back and the new state of the chip.\<close>

fun spec_session :: "session \<Rightarrow> chip_spec \<Rightarrow> bytes \<times> chip_spec" where
  "spec_session (Read lay) a = (overlay (spec_bytes a) (covered (effective_layout lay)) (replicate 16777216 0), a)"
| "spec_session (Write lay img) a = ([], a\<lparr>spec_bytes := overlay img (covered (effective_layout lay)) (spec_bytes a)\<rparr>)"
| "spec_session (Erase lay) a =
     ([], a\<lparr>spec_bytes := overlay (replicate 16777216 0xff) (covered (effective_layout lay)) (spec_bytes a)\<rparr>)"
| "spec_session (Protect cfg) a =
     ([], a\<lparr>spec_start := wr_start (cfg_range cfg), spec_end := wr_start (cfg_range cfg) + wr_len (cfg_range cfg)\<rparr>)"

fun spec_sessions :: "session list \<Rightarrow> chip_spec \<Rightarrow> bytes list \<times> chip_spec" where
  "spec_sessions [] a = ([], a)"
| "spec_sessions (x # xs) a =
     (case spec_session x a of (out, a1) \<Rightarrow> case spec_sessions xs a1 of (outs, a2) \<Rightarrow> (out # outs, a2))"

section \<open>The implementation\<close>

fun run_session ::
    "wp_bits \<Rightarrow> flags \<Rightarrow> int \<Rightarrow> (nat \<Rightarrow> u8) \<Rightarrow> session \<Rightarrow> emu_data spi_state \<Rightarrow> (bool \<times> bytes \<times> emu_data spi_state) option" where
  "run_session junk fl ratio fresh (Read lay) s =
     map_option (\<lambda>(r, out, s'). (r = 0, out, s'))
       (flashrom_image_read (w25_ctx (sp_dev s) lay fl ratio fresh) (w25_access junk) [] (replicate 16777216 0) s)"
| "run_session junk fl ratio fresh (Write lay img) s =
     map_option (\<lambda>(r, _, s'). (r = 0, [], s'))
       (flashrom_image_write (w25_ctx (sp_dev s) lay fl ratio fresh) (w25_access junk) [] img None s)"
| "run_session junk fl ratio fresh (Erase lay) s =
     map_option (\<lambda>(r, s'). (r = 0, [], s')) (flashrom_flash_erase (w25_ctx (sp_dev s) lay fl ratio fresh) (w25_access junk) [] s)"
| "run_session junk fl ratio fresh (Protect cfg) s =
     map_option (\<lambda>(r, s'). (r = FLASHROM_WP_OK, [], s')) (flashrom_wp_write_cfg (w25_env junk) cfg s)"

text \<open>The operations one after the other, up to the first that fails.\<close>

fun run_sessions ::
    "wp_bits \<Rightarrow> flags \<Rightarrow> int \<Rightarrow> (nat \<Rightarrow> u8) \<Rightarrow> session list \<Rightarrow> emu_data spi_state \<Rightarrow> (bool \<times> bytes list \<times> emu_data spi_state) option" where
  "run_sessions junk fl ratio fresh [] s = Some (True, [], s)"
| "run_sessions junk fl ratio fresh (x # xs) s =
     Option.bind (run_session junk fl ratio fresh x s) (\<lambda>(ok, out, s1).
       if ok
       then map_option (\<lambda>(ok', outs, s2). (ok', out # outs, s2)) (run_sessions junk fl ratio fresh xs s1)
       else Some (False, [], s1))"

section \<open>Refinement\<close>

definition abs_chip :: "emu_data spi_state \<Rightarrow> chip_spec" where
  "abs_chip s = \<lparr>spec_bytes = flashchip_contents (sp_dev s), spec_start = wp_start (sp_dev s), spec_end = wp_end (sp_dev s)\<rparr>"

text \<open>The requests flashrom accepts: checked layouts, an image of the size of the chip with a region to write, and
  a range that the registers can express, with a mode that does not lock them.\<close>

fun accepted :: "bool \<Rightarrow> session \<Rightarrow> bool" where
  "accepted hw (Read lay) \<longleftrightarrow> layout_sanity_checks 16384 (effective_layout lay) = 0"
| "accepted hw (Write lay img) \<longleftrightarrow> layout_sanity_checks 16384 (effective_layout lay) = 0 \<and>
     (\<exists>e \<in> set (effective_layout lay). re_included e) \<and> length img = 16777216"
| "accepted hw (Erase lay) \<longleftrightarrow> layout_sanity_checks 16384 (effective_layout lay) = 0"
| "accepted hw (Protect cfg) \<longleftrightarrow> (\<exists>d. decode_range_spi25 (emu_wp_bits d) 16777216 = Some (cfg_range cfg)) \<and>
     (cfg_mode cfg = FLASHROM_WP_MODE_DISABLED \<or> cfg_mode cfg = FLASHROM_WP_MODE_HARDWARE \<and> \<not> hw)"

lemma effective_layout: "get_layout (w25_ctx d0 lay fl ratio fresh) = effective_layout lay"
  by (cases lay) (simp_all add: effective_layout_def w25_default_checked(1), simp add: get_layout_def w25_ctx_simps)

text \<open>One operation simulates its specification.\<close>

lemma run_session_refines:
  assumes j: "length (bp junk) = MAX_BP_BITS" and s: "on_dev (w25_inv hw) s" and x: "accepted hw x"
  shows "\<exists>s'. run_session junk fl ratio fresh x s = Some (True, fst (spec_session x (abs_chip s)), s') \<and>
    on_dev (w25_inv hw) s' \<and> abs_chip s' = snd (spec_session x (abs_chip s))"
proof (cases x)
  case (Read lay)
  then show ?thesis
    using x w25_image_read [OF j s, of lay fl ratio fresh "replicate 16777216 0" "[]"]
    by (auto simp: effective_layout abs_chip_def)
next
  case (Write lay img)
  then show ?thesis
    using x w25_image_write [OF j s, of lay fl ratio fresh img None "[]"] by (auto simp: effective_layout abs_chip_def)
next
  case (Erase lay)
  then show ?thesis
    using x w25_flash_erase [OF j s, of lay fl ratio fresh "[]"] by (auto simp: effective_layout abs_chip_def)
next
  case (Protect cfg)
  with x obtain d where "decode_range_spi25 (emu_wp_bits d) 16777216 = Some (cfg_range cfg)"
    "cfg_mode cfg = FLASHROM_WP_MODE_DISABLED \<or> cfg_mode cfg = FLASHROM_WP_MODE_HARDWARE \<and> \<not> hw" by auto
  from write_cfg_inv [OF j s this] Protect show ?thesis by (auto simp: abs_chip_def dev_img_def)
qed

text \<open>C1: refinement. Every sequence of reads, writes, erases and changes of the protection that flashrom accepts
  runs to its end without an error on the emulated W25Q128FV, returns the bytes that the specification
  returns, and takes the chip to the state of the specification: the bytes and the protected range are
  exactly those that the operations ask for, whatever range was protected in between.\<close>

theorem run_sessions_refines:
  assumes "length (bp junk) = MAX_BP_BITS" and "on_dev (w25_inv hw) s" and "\<forall>x \<in> set xs. accepted hw x"
  shows "\<exists>s'. run_sessions junk fl ratio fresh xs s = Some (True, fst (spec_sessions xs (abs_chip s)), s') \<and>
    on_dev (w25_inv hw) s' \<and> abs_chip s' = snd (spec_sessions xs (abs_chip s))"
  using assms(2,3)
proof (induction xs arbitrary: s)
  case (Cons x xs)
  then obtain s1 where s1: "run_session junk fl ratio fresh x s = Some (True, fst (spec_session x (abs_chip s)), s1)"
    "on_dev (w25_inv hw) s1" "abs_chip s1 = snd (spec_session x (abs_chip s))"
    using run_session_refines [OF assms(1), of hw s x fl ratio fresh] by auto
  from Cons.IH [OF s1(2)] Cons.prems(2) obtain s2 where
    "run_sessions junk fl ratio fresh xs s1 = Some (True, fst (spec_sessions xs (abs_chip s1)), s2)"
    "on_dev (w25_inv hw) s2" "abs_chip s2 = snd (spec_sessions xs (abs_chip s1))" by auto
  then show ?case using s1 by (auto simp: split_beta)
qed simp

definition protect_upper_half :: wp_cfg where
  "protect_upper_half = \<lparr>cfg_mode = FLASHROM_WP_MODE_HARDWARE, cfg_range = \<lparr>wr_start = 8388608, wr_len = 8388608\<rparr>\<rparr>"

lemma upper_half_range: "decode_range_spi25 (emu_wp_bits w25_protected) 16777216 = Some (cfg_range protect_upper_half)"
  by (simp add: emu_wp_bits_def w25_protected_def decode_evals protect_upper_half_def)

text \<open>A write of the whole chip after its upper half was protected, an erase, and a read.\<close>

theorem run_sessions_witness:
  "\<exists>out s'. run_sessions sample_junk sample_flags 0 (\<lambda>i. 0)
      [Protect protect_upper_half, Write None (replicate 16777216 0x5a), Erase (Some []), Read None] w25_state =
      Some (True, [[], [], [], out], s') \<and>
    spec_start (abs_chip s') = 8388608 \<and> spec_end (abs_chip s') = 16777216 \<and> on_dev (w25_inv False) s'"
proof -
  let ?xs = "[Protect protect_upper_half, Write None (replicate 16777216 0x5a), Erase (Some []), Read None]"
  have checked: "layout_sanity_checks 16384 (effective_layout None) = 0" "layout_sanity_checks 16384 (effective_layout (Some [])) = 0"
    using w25_default_checked unfolding effective_layout by (simp_all add: effective_layout_def layout_sanity_checks_def)
  have "\<forall>x \<in> set ?xs. accepted False x"
    using checked upper_half_range by (auto simp: protect_upper_half_def effective_layout_def whole_chip_def)
  moreover have "on_dev (w25_inv False) w25_state" by (simp add: on_dev_def w25_state_def w25_data_inv)
  ultimately show ?thesis
    using run_sessions_refines [of sample_junk False w25_state ?xs sample_flags 0 "\<lambda>i. 0"]
    by (auto simp: sample_junk_def MAX_BP_BITS_def protect_upper_half_def)
qed

end
