(* ===== verification/Fmap.thy ===== *)
theory Fmap
  imports Dummy
begin

text \<open>
  Flash maps: the search for a map in a buffer or on the chip (\<^verbatim>\<open>flashrom/fmap.c\<close>) and the layout made from its
  areas (\<^verbatim>\<open>flashrom_layout_parse_fmap\<close> and its callers in \<^verbatim>\<open>libflashrom.c\<close>).

  A map in memory is a list of bytes: the packed \<^verbatim>\<open>struct fmap\<close> of 56 bytes followed by areas of 42 bytes each. A
  \<^verbatim>\<open>size_t\<close> is a natural number; sums that may exceed 64 bits are written with \<open>add64\<close>.
\<close>

section \<open>The format\<close>

definition FMAP_SIGNATURE :: bytes where
  "FMAP_SIGNATURE = [0x5f, 0x5f, 0x46, 0x4d, 0x41, 0x50, 0x5f, 0x5f]"

definition FMAP_VER_MAJOR :: u8 where "FMAP_VER_MAJOR = 1"
definition FMAP_STRLEN :: nat where "FMAP_STRLEN = 32"

text \<open>The sizes of the packed structures.\<close>

definition FMAP_HEADER :: nat where "FMAP_HEADER = 56"
definition FMAP_AREA :: nat where "FMAP_AREA = 42"

text \<open>The fields of the header.\<close>

definition fm_ver_major :: "bytes \<Rightarrow> u8" where "fm_ver_major fm = fm ! 8"
definition fm_size :: "bytes \<Rightarrow> nat" where "fm_size fm = le_value (bslice 18 4 fm)"
definition fm_name :: "bytes \<Rightarrow> bytes" where "fm_name fm = bslice 22 32 fm"
definition fm_nareas :: "bytes \<Rightarrow> nat" where "fm_nareas fm = le_value (bslice 54 2 fm)"

definition fmap_size :: "bytes \<Rightarrow> nat" where
  "fmap_size fm = FMAP_HEADER + fm_nareas fm * FMAP_AREA"

definition c_isgraph :: "u8 \<Rightarrow> bool" where
  "c_isgraph b \<longleftrightarrow> 0x21 \<le> b \<and> b \<le> 0x7e"

text \<open>The loop over the name: it ends at a null byte; a full array without one is refused.\<close>

fun fmap_name_ok :: "bytes \<Rightarrow> bool" where
  "fmap_name_ok [] = False"
| "fmap_name_ok (b # bs) = (if b = 0 then True else if \<not> c_isgraph b then False else fmap_name_ok bs)"

definition is_valid_fmap :: "bytes \<Rightarrow> bool" where
  "is_valid_fmap fm =
     (if bslice 0 8 fm \<noteq> FMAP_SIGNATURE then False
      else if fm_ver_major fm \<noteq> FMAP_VER_MAJOR then False
      else if fm_size fm < fmap_size fm then False
      else fmap_name_ok (fm_name fm))"

section \<open>The linear search\<close>

function lsearch_loop :: "bytes \<Rightarrow> nat \<Rightarrow> nat \<Rightarrow> nat option" where
  "lsearch_loop buf limit offset =
     (if offset \<le> limit
      then if is_valid_fmap (drop offset buf) then Some offset else lsearch_loop buf limit (Suc offset)
      else None)"
  by pat_completeness auto
termination by (relation "measure (\<lambda>(buf, limit, offset). Suc limit - offset)") auto

declare lsearch_loop.simps [simp del]

definition fmap_lsearch :: "bytes \<Rightarrow> nat \<Rightarrow> int" where
  "fmap_lsearch buf len =
     (if len < FMAP_HEADER then -1
      else case lsearch_loop buf (len - FMAP_HEADER) 0 of
             None \<Rightarrow> -1
           | Some offset \<Rightarrow> if offset + fmap_size (drop offset buf) > len then -2 else int offset)"

text \<open>\<open>malloc\<close> tells which allocations succeed. The copy is the second component.\<close>

definition fmap_read_from_buffer :: "(nat \<Rightarrow> bool) \<Rightarrow> bytes \<Rightarrow> nat \<Rightarrow> int \<times> bytes option" where
  "fmap_read_from_buffer malloc buf len =
     (let offset = fmap_lsearch buf len
      in if offset < 0 then (2, None)
         else let fm = drop (nat offset) buf
              in if \<not> malloc (fmap_size fm) then (1, None) else (0, Some (take (fmap_size fm) fm)))"

section \<open>Searching the chip\<close>

definition fmap_lsearch_rom ::
    "'s flashctx \<Rightarrow> 's access \<Rightarrow> 's restore_fns \<Rightarrow> nat \<Rightarrow> nat \<Rightarrow> 's \<Rightarrow> (int \<times> bytes option \<times> 's) option" where
  "fmap_lsearch_rom c a fns0 rom_offset len s =
     Option.bind (prepare_flash_access c a True False False False fns0 s) (\<lambda>(p, fns, s1).
       let fin = (\<lambda>ret out s'. map_option (\<lambda>s''. (ret, out, s'')) (finalize_flash_access a fns s'))
       in if p \<noteq> 0 then fin (-1) None s1
          else if \<not> c_malloc c (add64 rom_offset len) then fin (-1) None s1
          else Option.bind
            (read_flash c (fresh_buf c (add64 rom_offset len)) rom_offset (u32 rom_offset) (u32 len) s1) (\<lambda>(r, buf, s2).
              if r \<noteq> 0 then fin r None s2
              else case fmap_read_from_buffer (c_malloc c) (drop rom_offset buf) len of (ret, out) \<Rightarrow> fin ret out s2))"

text \<open>The inner loop of \<^verbatim>\<open>fmap_bsearch_rom\<close>: \<open>limit\<close> is the last offset at which a header fits, \<open>chk\<close> the flag
  \<^verbatim>\<open>check_offset_0\<close>, \<open>fm\<close> the header buffer. The first component of the result is the offset of a map.\<close>

partial_function (option) bsearch_offsets ::
    "'s flashctx \<Rightarrow> nat \<Rightarrow> nat \<Rightarrow> nat \<Rightarrow> bool \<Rightarrow> bytes \<Rightarrow> int \<Rightarrow> 's \<Rightarrow> (nat option \<times> bool \<times> bytes \<times> int \<times> 's) option" where
  "bsearch_offsets c limit stride offset chk fm ret s =
     (if stride = 0 then None
      else if offset \<le> limit then
        (if offset mod (stride * 2) = 0 \<and> offset \<noteq> 0
         then bsearch_offsets c limit stride (add64 offset stride) chk fm ret s
         else if offset = 0 \<and> \<not> chk
         then bsearch_offsets c limit stride (add64 offset stride) chk fm ret s
         else Option.bind (read_flash c fm 0 (u32 offset) 8 s) (\<lambda>(r1, fm1, s1).
           if r1 \<noteq> 0 \<or> bslice 0 8 fm1 \<noteq> FMAP_SIGNATURE
           then bsearch_offsets c limit stride (add64 offset stride) False fm1 ret s1
           else Option.bind (read_flash c fm1 8 (u32 (add64 offset 8)) (FMAP_HEADER - 8) s1) (\<lambda>(r2, fm2, s2).
             if r2 \<noteq> 0 then bsearch_offsets c limit stride (add64 offset stride) False fm2 ret s2
             else if is_valid_fmap fm2 then Some (Some offset, False, fm2, ret, s2)
             else bsearch_offsets c limit stride (add64 offset stride) False fm2 2 s2)))
      else Some (None, chk, fm, ret, s))"

partial_function (option) bsearch_strides ::
    "'s flashctx \<Rightarrow> nat \<Rightarrow> nat \<Rightarrow> nat \<Rightarrow> nat \<Rightarrow> bool \<Rightarrow> bytes \<Rightarrow> int \<Rightarrow> 's \<Rightarrow> (nat option \<times> bytes \<times> int \<times> 's) option" where
  "bsearch_strides c rom_offset len min_stride stride chk fm ret s =
     (if min_stride \<le> stride then
        (if len < stride then bsearch_strides c rom_offset len min_stride (stride div 2) chk fm ret s
         else Option.bind (bsearch_offsets c (add64 rom_offset len - FMAP_HEADER) stride rom_offset chk fm ret s)
           (\<lambda>(found, chk', fm', ret', s').
              case found of
                Some offset \<Rightarrow> Some (Some offset, fm', ret', s')
              | None \<Rightarrow> bsearch_strides c rom_offset len min_stride (stride div 2) chk' fm' ret' s'))
      else Some (None, fm, ret, s))"

text \<open>While the search runs, unreadable regions are skipped.\<close>

definition skipping_unreadable :: "'s flashctx \<Rightarrow> 's flashctx" where
  "skipping_unreadable c = c\<lparr>c_flags := (c_flags c)\<lparr>fl_skip_unreadable_regions := True\<rparr>\<rparr>"

definition fmap_bsearch_rom ::
    "'s flashctx \<Rightarrow> 's access \<Rightarrow> 's restore_fns \<Rightarrow> nat \<Rightarrow> nat \<Rightarrow> nat \<Rightarrow> 's \<Rightarrow> (int \<times> bytes option \<times> 's) option" where
  "fmap_bsearch_rom c a fns0 rom_offset len min_stride s =
     (let chip_size = mul32 (ch_total_size (c_chip c)) 1024
      in if add64 rom_offset len > chip_size then Some (1, None, s)
         else if len < FMAP_HEADER then Some (1, None, s)
         else Option.bind (prepare_flash_access c a True False False False fns0 s) (\<lambda>(p, fns, s1).
           let fin = (\<lambda>ret out s'. map_option (\<lambda>s''. (ret, out, s'')) (finalize_flash_access a fns s'))
           in if p \<noteq> 0 then Some (1, None, s1)
              else if \<not> c_malloc c FMAP_HEADER then fin 1 None s1
              else Option.bind
                (bsearch_strides (skipping_unreadable c) rom_offset len min_stride (chip_size div 2) True
                   (fresh_buf c FMAP_HEADER) 1 s1) (\<lambda>(found, fm, ret, s2).
                  case found of
                    None \<Rightarrow> fin ret None s2
                  | Some offset \<Rightarrow>
                      let fmap_len = fmap_size fm
                      in if \<not> c_malloc c fmap_len then fin ret None s2
                         else Option.bind
                           (read_flash c (fm @ drop FMAP_HEADER (fresh_buf c fmap_len)) FMAP_HEADER
                              (u32 (add64 offset FMAP_HEADER)) (u32 (fmap_len - FMAP_HEADER)) s2) (\<lambda>(r, fm', s3).
                              if r \<noteq> 0 then fin 2 None s3 else fin 0 (Some fm') s3))))"

definition fmap_read_from_rom ::
    "'s flashctx \<Rightarrow> 's access \<Rightarrow> 's restore_fns \<Rightarrow> nat \<Rightarrow> nat \<Rightarrow> 's \<Rightarrow> (int \<times> bytes option \<times> 's) option" where
  "fmap_read_from_rom c a fns0 rom_offset len s =
     Option.bind (fmap_bsearch_rom c a fns0 rom_offset len 256 s) (\<lambda>(ret, out, s1).
       if ret \<noteq> 0 then fmap_lsearch_rom c a fns0 rom_offset len s1 else Some (ret, out, s1))"

section \<open>The layout of a map\<close>

text \<open>The characters up to the first null byte; \<open>None\<close> when there is none before the end of the memory.\<close>

definition c_string :: "bytes \<Rightarrow> string option" where
  "c_string bs = (if 0 \<in> set bs then Some (map (\<lambda>b. char_of (unat b)) (takeWhile (\<lambda>b. b \<noteq> 0) bs)) else None)"

definition area_offset :: "bytes \<Rightarrow> nat" where "area_offset ar = le_value (bslice 0 4 ar)"
definition area_size :: "bytes \<Rightarrow> nat" where "area_size ar = le_value (bslice 4 4 ar)"

text \<open>The loop over \<open>k\<close> areas, \<open>ar\<close> pointing to the first. \<^verbatim>\<open>snprintf\<close> copies at most 32 characters of the name.\<close>

fun parse_areas :: "bool \<Rightarrow> nat \<Rightarrow> bytes \<Rightarrow> layout \<Rightarrow> (int \<times> layout option) option" where
  "parse_areas alloc 0 ar l = Some (0, Some l)"
| "parse_areas alloc (Suc k) ar l =
     (if area_size ar = 0 then parse_areas alloc k (drop FMAP_AREA ar) l
      else Option.bind (c_string (drop 8 ar)) (\<lambda>name.
        case flashrom_layout_add_region alloc l (area_offset ar) (sub32 (add32 (area_offset ar) (area_size ar)) 1)
               (take FMAP_STRLEN name) of
          (r, l') \<Rightarrow> if r \<noteq> 0 then Some (1, None) else parse_areas alloc k (drop FMAP_AREA ar) l'))"

definition flashrom_layout_parse_fmap :: "bool \<Rightarrow> bool \<Rightarrow> bytes option \<Rightarrow> (int \<times> layout option) option" where
  "flashrom_layout_parse_fmap new_ok alloc fmo =
     (case fmo of
        None \<Rightarrow> Some (1, None)
      | Some fm \<Rightarrow>
          (case flashrom_layout_new new_ok of
             (r, Some l) \<Rightarrow>
               if r \<noteq> 0 then Some (1, None) else parse_areas alloc (fm_nareas fm) (drop FMAP_HEADER fm) l
           | (r, None) \<Rightarrow> Some (1, None)))"

definition flashrom_layout_read_fmap_from_rom ::
    "'s flashctx \<Rightarrow> 's access \<Rightarrow> 's restore_fns \<Rightarrow> bool \<Rightarrow> bool \<Rightarrow> nat \<Rightarrow> nat \<Rightarrow> 's \<Rightarrow> (int \<times> layout option \<times> 's) option" where
  "flashrom_layout_read_fmap_from_rom c a fns0 new_ok alloc offset len s =
     Option.bind (fmap_read_from_rom c a fns0 offset len s) (\<lambda>(r, fm, s1).
       if r \<noteq> 0 then Some (1, None, s1)
       else map_option (\<lambda>(p, l). (if p \<noteq> 0 then 1 else 0, l, s1)) (flashrom_layout_parse_fmap new_ok alloc fm))"

definition flashrom_layout_read_fmap_from_buffer ::
    "(nat \<Rightarrow> bool) \<Rightarrow> bool \<Rightarrow> bool \<Rightarrow> bytes option \<Rightarrow> nat \<Rightarrow> (int \<times> layout option) option" where
  "flashrom_layout_read_fmap_from_buffer malloc new_ok alloc buf len =
     (case buf of
        None \<Rightarrow> Some (1, None)
      | Some bs \<Rightarrow>
          if len = 0 then Some (1, None)
          else case fmap_read_from_buffer malloc bs len of
                 (r, fm) \<Rightarrow>
                   if r \<noteq> 0 then Some (1, None)
                   else map_option (\<lambda>(p, l). (if p \<noteq> 0 then 1 else 0, l)) (flashrom_layout_parse_fmap new_ok alloc fm))"

end
