(* ===== verification/FmapOk.thy ===== *)
theory FmapOk
  imports Fmap
begin

text \<open>
  Correctness of the search for flash maps. The interface \<open>fmap_device\<close> is a chip that can be accessed again after
  an operation; on it the search of the chip finds a map exactly when there is one. A map that is encoded
  and parsed again gives the layout of its areas.
\<close>

section \<open>The linear search\<close>

definition map_at :: "bytes \<Rightarrow> nat \<Rightarrow> bool" where
  "map_at buf offset \<longleftrightarrow> is_valid_fmap (drop offset buf)"

lemma lsearch_loop_eq:
  "lsearch_loop buf limit offset =
     (if \<exists>p. offset \<le> p \<and> p \<le> limit \<and> map_at buf p then Some (LEAST p. offset \<le> p \<and> map_at buf p) else None)"
proof (induction buf limit offset rule: lsearch_loop.induct)
  case (1 buf limit offset)
  show ?case
  proof (cases "offset \<le> limit \<and> \<not> map_at buf offset")
    case True
    then have eq: "(offset \<le> p \<and> p \<le> limit \<and> map_at buf p) = (Suc offset \<le> p \<and> p \<le> limit \<and> map_at buf p)"
      "(offset \<le> p \<and> map_at buf p) = (Suc offset \<le> p \<and> map_at buf p)" for p
      by (metis Suc_le_eq le_eq_less_or_eq)+
    have "lsearch_loop buf limit offset = lsearch_loop buf limit (Suc offset)"
      using True by (subst lsearch_loop.simps) (simp add: map_at_def)
    also have "\<dots> = (if \<exists>p. Suc offset \<le> p \<and> p \<le> limit \<and> map_at buf p then Some (LEAST p. Suc offset \<le> p \<and> map_at buf p) else None)"
      using 1 True by (simp only: map_at_def simp_thms)
    finally show ?thesis by (simp only: eq)
  next
    case False
    have "(LEAST p. offset \<le> p \<and> map_at buf p) = offset" if "map_at buf offset"
      using that by (intro Least_equality) auto
    with False show ?thesis by (subst lsearch_loop.simps) (auto simp: map_at_def)
  qed
qed

text \<open>\<^verbatim>\<open>fmap_lsearch\<close> returns the lowest offset with a valid header if its areas end inside the buffer, -2 if they
  do not, and -1 exactly when no header is valid at any offset where one fits.\<close>

theorem fmap_lsearch_correct:
  "fmap_lsearch buf len =
     (if \<exists>p. p + 56 \<le> len \<and> is_valid_fmap (drop p buf)
      then let p = LEAST p. is_valid_fmap (drop p buf)
           in if p + fmap_size (drop p buf) \<le> len then int p else -2
      else -1)"
proof -
  have "(\<exists>p. p + 56 \<le> len \<and> is_valid_fmap (drop p buf)) \<longleftrightarrow> 56 \<le> len \<and> (\<exists>p. p \<le> len - 56 \<and> map_at buf p)"
    by (auto simp: map_at_def le_diff_conv2)
  then show ?thesis
    by (auto simp: fmap_lsearch_def FMAP_HEADER_def lsearch_loop_eq map_at_def Let_def)
qed

section \<open>The search of the chip\<close>

context full_reader
begin

lemma reader_flags: "full_reader (c\<lparr>c_flags := f\<rparr>) n dev_ok contents"
proof -
  have r: "get_flash_region (c\<lparr>c_flags := f\<rparr>) = get_flash_region c"
    by (auto simp: fun_eq_iff get_flash_region_def flashrom_flash_getsize_def split: bool.split option.split)
  show ?thesis
  proof (intro full_reader.intro flash_reader.intro flash_regions.intro flash_reader_axioms.intro full_reader_axioms.intro)
    show "get_flash_region (c\<lparr>c_flags := f\<rparr>) y = get_flash_region (c\<lparr>c_flags := f\<rparr>) x"
      if "x < n" "x \<le> y" "y \<le> fr_end (get_flash_region (c\<lparr>c_flags := f\<rparr>) x)" for x y
      using that unfolding r by (rule region_same)
  qed (use size size_pos size_bound region_end contents_length has_read read_law no_read_protection in \<open>simp_all add: r\<close>)
qed

lemma read_plain:
  assumes "start + len \<le> n" and "off + len \<le> length buf" and "dev_ok s"
  shows "\<exists>s'. read_flash c buf off start len s = Some (0, blit off (bslice start len (contents s)) buf, s') \<and>
    dev_ok s' \<and> contents s' = contents s"
proof -
  have "map (visible c (contents s)) [start..<start + len] = bslice start len (contents s)"
    using assms(1) contents_length [OF assms(3)] by (simp add: bslice_eq_map all_visible(1))
  with read_flash_ok [OF assms all_visible(2) [OF assms(1)]] show ?thesis by simp
qed

end

text \<open>A header is judged by its 56 bytes.\<close>

lemma valid_take:
  assumes "56 \<le> length fm"
  shows "is_valid_fmap (take 56 fm) = is_valid_fmap fm" "fmap_size (take 56 fm) = fmap_size fm"
proof -
  have sl: "bslice a k (take 56 fm) = bslice a k fm" if "a + k \<le> 56" for a k
    using that by (auto simp: bslice_def drop_take min_def)
  show "fmap_size (take 56 fm) = fmap_size fm" by (simp add: fmap_size_def fm_nareas_def sl)
  then show "is_valid_fmap (take 56 fm) = is_valid_fmap fm"
    by (simp add: is_valid_fmap_def fm_ver_major_def fm_size_def fm_name_def sl)
qed

lemma valid_bslice:
  assumes "p + 56 \<le> length xs"
  shows "is_valid_fmap (bslice p 56 xs) = is_valid_fmap (drop p xs)" "fmap_size (bslice p 56 xs) = fmap_size (drop p xs)"
  using valid_take [of "drop p xs"] assms by (simp_all add: bslice_def)

text \<open>The search range and the maps in it.\<close>

definition complete_maps :: "bytes \<Rightarrow> nat \<Rightarrow> nat \<Rightarrow> bool" where
  "complete_maps img rom_offset len \<longleftrightarrow>
     (\<forall>p. rom_offset \<le> p \<and> p + 56 \<le> rom_offset + len \<and> map_at img p \<longrightarrow> p + fmap_size (drop p img) \<le> rom_offset + len)"

definition found_map :: "bytes \<Rightarrow> nat \<Rightarrow> nat \<Rightarrow> bytes \<Rightarrow> bool" where
  "found_map img rom_offset len fm \<longleftrightarrow>
     (\<exists>p. rom_offset \<le> p \<and> p + 56 \<le> rom_offset + len \<and> map_at img p \<and> fm = bslice p (fmap_size (drop p img)) img)"

text \<open>A search of a part of the image sees the maps of that part.\<close>

lemma map_at_part:
  assumes "a + len \<le> length img" and "p + 56 \<le> len"
  shows "map_at (bslice a len img) p = map_at img (a + p)" "fmap_size (drop p (bslice a len img)) = fmap_size (drop (a + p) img)"
proof -
  have "p + 56 \<le> length (bslice a len img)" "a + p + 56 \<le> length img" using assms by simp_all
  note v = valid_bslice [OF this(1)] valid_bslice [OF this(2)]
  show "map_at (bslice a len img) p = map_at img (a + p)" "fmap_size (drop p (bslice a len img)) = fmap_size (drop (a + p) img)"
    using v assms(2) by (simp_all add: map_at_def bslice_bslice)
qed

lemma read_from_buffer_ok:
  assumes "\<And>k. malloc k" and "complete_maps buf 0 len"
  shows "if \<exists>p. p + 56 \<le> len \<and> map_at buf p
    then \<exists>fm. fmap_read_from_buffer malloc buf len = (0, Some fm) \<and> found_map buf 0 len fm
    else fmap_read_from_buffer malloc buf len = (2, None)"
proof (cases "\<exists>p. p + 56 \<le> len \<and> map_at buf p")
  case True
  then obtain q where q: "q + 56 \<le> len" "map_at buf q" by blast
  define p where "p = (LEAST p. map_at buf p)"
  have p: "map_at buf p" "p + 56 \<le> len" using LeastI [of "map_at buf" q] Least_le [of "map_at buf" q] q by (auto simp: p_def)
  have le: "p + fmap_size (drop p buf) \<le> len" using assms(2) p by (simp add: complete_maps_def)
  have "fmap_lsearch buf len = int p"
    using True le p_def unfolding fmap_lsearch_correct map_at_def Let_def by auto
  then have "fmap_read_from_buffer malloc buf len = (0, Some (bslice p (fmap_size (drop p buf)) buf))"
    using assms(1) by (simp add: fmap_read_from_buffer_def bslice_def Let_def)
  with True p show ?thesis by (auto simp: found_map_def)
next
  case False
  then show ?thesis unfolding fmap_read_from_buffer_def fmap_lsearch_correct map_at_def by auto
qed

locale fmap_device = image_device c n dev_ok contents read_ok a start_ok end_ok
  for c :: "'s flashctx" and n :: nat and dev_ok :: "'s \<Rightarrow> bool" and contents :: "'s \<Rightarrow> bytes"
    and read_ok :: "'s \<Rightarrow> bool" and a :: "'s access" and start_ok :: "'s \<Rightarrow> bool" and end_ok :: "'s \<Rightarrow> bool" +
  assumes restart: "end_ok s \<Longrightarrow> start_ok s"
begin

abbreviation skipping :: "'s flashctx" where "skipping \<equiv> skipping_unreadable c"

lemma skipping_reader: "full_reader skipping n read_ok contents"
  unfolding skipping_unreadable_def by (rule reader.reader_flags)

text \<open>The inner loop returns and what it finds is a map.\<close>

lemma bsearch_offsets_ok:
  assumes "0 < stride" and "stride < 4294967296" and "limit + 56 \<le> n"
    and "length fm = 56" and "ret = 1 \<or> ret = 2" and "read_ok s"
  shows "\<exists>found chk' fm' ret' s'. bsearch_offsets skipping limit stride offset chk fm ret s = Some (found, chk', fm', ret', s') \<and>
    length fm' = 56 \<and> (ret' = 1 \<or> ret' = 2) \<and> read_ok s' \<and> contents s' = contents s \<and>
    (\<forall>p. found = Some p \<longrightarrow> offset \<le> p \<and> p \<le> limit \<and> fm' = bslice p 56 (contents s) \<and> is_valid_fmap fm')"
  using assms(4-6)
proof (induction "Suc limit - offset" arbitrary: offset chk fm ret s rule: less_induct)
  case less
  show ?case
  proof (cases "offset \<le> limit")
    case False
    with less.prems assms(1) show ?thesis by (subst bsearch_offsets.simps) simp
  next
    case True
    note b = assms(2,3) size_bound
    have nx: "add64 offset stride = offset + stride" "add64 0 stride = stride" "add64 offset 8 = offset + 8" "u32 offset = offset" "u32 (offset + 8) = offset + 8"
      using True b by (simp_all add: c_simps)
    have IH: "\<exists>found chk' fm' ret' s'. bsearch_offsets skipping limit stride (offset + stride) chk fm ret s = Some (found, chk', fm', ret', s') \<and>
        length fm' = 56 \<and> (ret' = 1 \<or> ret' = 2) \<and> read_ok s' \<and> contents s' = contents s \<and>
        (\<forall>p. found = Some p \<longrightarrow> offset \<le> p \<and> p \<le> limit \<and> fm' = bslice p 56 (contents s) \<and> is_valid_fmap fm')"
      if "length fm = 56" "ret = 1 \<or> ret = 2" "read_ok s" for chk fm ret s
      using less.hyps [of "offset + stride" fm ret s chk] that True assms(1) by fastforce
    show ?thesis
    proof (cases "offset mod (stride * 2) = 0 \<and> offset \<noteq> 0 \<or> offset = 0 \<and> \<not> chk")
      case skip: True
      then have "bsearch_offsets skipping limit stride offset chk fm ret s = bsearch_offsets skipping limit stride (offset + stride) chk fm ret s"
        using True assms(1) by (subst bsearch_offsets.simps) (auto simp: nx)
      with IH [OF less.prems] show ?thesis by simp
    next
      case look: False
      have le8: "offset + 8 \<le> n" "0 + 8 \<le> length fm" using True b less.prems(1) by simp_all
      obtain s1 where s1: "read_flash skipping fm 0 offset 8 s = Some (0, blit 0 (bslice offset 8 (contents s)) fm, s1)"
        "read_ok s1" "contents s1 = contents s"
        using full_reader.read_plain [OF skipping_reader le8 less.prems(3)] by blast
      have len: "length (contents s) = n" using less.prems(3) by (rule reader.contents_length)
      define X where "X = bslice offset 8 (contents s)"
      define fm1 where "fm1 = blit 0 X fm"
      have sl: "length X = 8" "length fm1 = 56" using le8 len less.prems(1) by (simp_all add: X_def fm1_def)
      have sig: "bslice 0 8 fm1 = X" using sl le8(2) unfolding fm1_def by (intro take_blit) simp_all
      note rd1 = s1(1) [folded X_def, folded fm1_def]
      show ?thesis
      proof (cases "X = FMAP_SIGNATURE")
        case False
        then have "bsearch_offsets skipping limit stride offset chk fm ret s =
            bsearch_offsets skipping limit stride (offset + stride) False fm1 ret s1"
          using True assms(1) look by (subst bsearch_offsets.simps) (auto simp: nx rd1 sig)
        with IH [OF sl(2) less.prems(2) s1(2), of False] s1(3) show ?thesis by simp
      next
        case sigok: True
        have le48: "offset + 8 + 48 \<le> n" "8 + 48 \<le> length fm1" using True b sl by simp_all
        obtain s2 where s2: "read_flash skipping fm1 8 (offset + 8) 48 s1 =
            Some (0, blit 8 (bslice (offset + 8) 48 (contents s1)) fm1, s2)" "read_ok s2" "contents s2 = contents s1"
          using full_reader.read_plain [OF skipping_reader le48 s1(2)] by blast
        have "blit 8 (bslice (offset + 8) 48 (contents s1)) fm1 = X @ bslice (offset + 8) 48 (contents s)"
          unfolding s1(3) fm1_def using sl le48 len less.prems(1) by (intro blit_two [where m = 48]) simp_all
        also have "\<dots> = bslice offset 56 (contents s)"
          using bslice_add [of offset 8 48 "contents s"] le48 len by (simp add: X_def)
        finally have fm2: "blit 8 (bslice (offset + 8) 48 (contents s1)) fm1 = bslice offset 56 (contents s)" .
        have l2: "length (bslice offset 56 (contents s)) = 56" using True b len by simp
        show ?thesis
        proof (cases "is_valid_fmap (bslice offset 56 (contents s))")
          case valid: True
          have "bsearch_offsets skipping limit stride offset chk fm ret s = Some (Some offset, False, bslice offset 56 (contents s), ret, s2)"
            using True assms(1) look sigok valid
            by (subst bsearch_offsets.simps) (auto simp: nx rd1 sig s2(1) [unfolded fm2] FMAP_HEADER_def)
          with True valid l2 less.prems s1(3) s2(2,3) show ?thesis by auto
        next
          case invalid: False
          have "bsearch_offsets skipping limit stride offset chk fm ret s =
              bsearch_offsets skipping limit stride (offset + stride) False (bslice offset 56 (contents s)) 2 s2"
            using True assms(1) look sigok invalid
            by (subst bsearch_offsets.simps) (auto simp: nx rd1 sig s2(1) [unfolded fm2] FMAP_HEADER_def)
          with IH [of "bslice offset 56 (contents s)" 2 s2 False] l2 s1(3) s2(2,3) show ?thesis by simp
        qed
      qed
    qed
  qed
qed

lemma bsearch_strides_ok:
  assumes "0 < min_stride" and "rom_offset + len \<le> n" and "56 \<le> len" and "stride < 4294967296"
    and "length fm = 56" and "ret = 1 \<or> ret = 2" and "read_ok s"
  shows "\<exists>found fm' ret' s'. bsearch_strides skipping rom_offset len min_stride stride chk fm ret s = Some (found, fm', ret', s') \<and>
    length fm' = 56 \<and> (ret' = 1 \<or> ret' = 2) \<and> read_ok s' \<and> contents s' = contents s \<and>
    (\<forall>p. found = Some p \<longrightarrow> rom_offset \<le> p \<and> p + 56 \<le> rom_offset + len \<and> fm' = bslice p 56 (contents s) \<and> is_valid_fmap fm')"
  using assms(4-7)
proof (induction stride arbitrary: chk fm ret s rule: less_induct)
  case (less stride)
  show ?case
  proof (cases "min_stride \<le> stride")
    case False
    with less.prems show ?thesis by (subst bsearch_strides.simps) simp
  next
    case True
    then have half: "stride div 2 < stride" "stride div 2 < 4294967296" using assms(1) less.prems(1) by simp_all
    note IH = less.IH [OF half]
    show ?thesis
    proof (cases "len < stride")
      case skip: True
      then have "bsearch_strides skipping rom_offset len min_stride stride chk fm ret s =
          bsearch_strides skipping rom_offset len min_stride (stride div 2) chk fm ret s"
        using True by (subst bsearch_strides.simps) simp
      with IH [OF less.prems(2-4), of chk] show ?thesis by simp
    next
      case look: False
      have lim: "add64 rom_offset len - FMAP_HEADER = rom_offset + len - 56"
        using assms(2) size_bound by (simp add: c_simps FMAP_HEADER_def)
      have pre: "0 < stride" "rom_offset + len - 56 + 56 \<le> n" using True assms(1-3) by simp_all
      obtain found chk' fm' ret' s' where
        r: "bsearch_offsets skipping (rom_offset + len - 56) stride rom_offset chk fm ret s = Some (found, chk', fm', ret', s')"
        "length fm' = 56" "ret' = 1 \<or> ret' = 2" "read_ok s'" "contents s' = contents s"
        "\<forall>p. found = Some p \<longrightarrow> rom_offset \<le> p \<and> p \<le> rom_offset + len - 56 \<and> fm' = bslice p 56 (contents s) \<and> is_valid_fmap fm'"
        using bsearch_offsets_ok [OF pre(1) less.prems(1) pre(2) less.prems(2-4), of rom_offset chk] by blast
      show ?thesis
      proof (cases found)
        case None
        then have "bsearch_strides skipping rom_offset len min_stride stride chk fm ret s =
            bsearch_strides skipping rom_offset len min_stride (stride div 2) chk' fm' ret' s'"
          using True look by (subst bsearch_strides.simps) (simp add: lim r(1))
        with IH [OF r(2-4), of chk'] r(5) show ?thesis by simp
      next
        case (Some p)
        then have "bsearch_strides skipping rom_offset len min_stride stride chk fm ret s = Some (Some p, fm', ret', s')"
          using True look by (subst bsearch_strides.simps) (simp add: lim r(1))
        moreover have "p + 56 \<le> rom_offset + len" using r(6) Some assms(3) by auto
        ultimately show ?thesis using r(2-6) Some by auto
      qed
    qed
  qed
qed

lemma bsearch_rom_ok:
  assumes s: "start_ok s" and le: "rom_offset + len \<le> n" "56 \<le> len" and min: "0 < min_stride"
    and full: "complete_maps (contents s) rom_offset len"
  shows "\<exists>ret out s'. fmap_bsearch_rom c a fns0 rom_offset len min_stride s = Some (ret, out, s') \<and>
    end_ok s' \<and> contents s' = contents s \<and> (ret = 0 \<longrightarrow> (\<exists>fm. out = Some fm \<and> found_map (contents s) rom_offset len fm))"
proof -
  obtain fns s1 where s1: "prepare_flash_access c a True False False False fns0 s = Some (0, fns, s1)" "read_ok s1"
    "contents s1 = contents s" and fin: "read_ok t \<Longrightarrow> \<exists>t'. finalize_flash_access a fns t = Some t' \<and> end_ok t' \<and> contents t' = contents t" for t
    using prepare_read_ok [OF s] by blast
  have g: "\<not> n < add64 rom_offset len" "\<not> len < FMAP_HEADER" "n div 2 < 4294967296"
    using le size_bound by (simp_all add: c_simps FMAP_HEADER_def)
  have fr: "length (fresh_buf c FMAP_HEADER) = 56" by (simp add: FMAP_HEADER_def)
  obtain found fm ret s2 where
    r: "bsearch_strides skipping rom_offset len min_stride (n div 2) True (fresh_buf c FMAP_HEADER) 1 s1 = Some (found, fm, ret, s2)"
    "length fm = 56" "ret = 1 \<or> ret = 2" "read_ok s2" "contents s2 = contents s"
    "\<forall>p. found = Some p \<longrightarrow> rom_offset \<le> p \<and> p + 56 \<le> rom_offset + len \<and> fm = bslice p 56 (contents s) \<and> is_valid_fmap fm"
    using bsearch_strides_ok [OF min le g(3) fr _ s1(2), of 1 True] s1(3) by auto
  obtain t2 where t2: "finalize_flash_access a fns s2 = Some t2" "end_ok t2" "contents t2 = contents s" using fin [OF r(4)] r(5) by auto
  show ?thesis
  proof (cases found)
    case None
    then have "fmap_bsearch_rom c a fns0 rom_offset len min_stride s = Some (ret, None, t2)"
      using g malloc_ok by (simp add: fmap_bsearch_rom_def Let_def chip_bytes s1(1) r(1) t2(1))
    with r(3) t2 show ?thesis by auto
  next
    case (Some p)
    have p: "rom_offset \<le> p" "p + 56 \<le> rom_offset + len" "fm = bslice p 56 (contents s)" "is_valid_fmap fm" using r(6) Some by auto
    have lc: "length (contents s) = n" using reader.contents_length [OF r(4)] r(5) by simp
    have eq: "is_valid_fmap fm = map_at (contents s) p" "fmap_size fm = fmap_size (drop p (contents s))"
      using valid_bslice [of p "contents s"] p(2) le(1) lc by (simp_all add: p(3) map_at_def)
    define L where "L = fmap_size fm"
    have L: "56 \<le> L" "p + L \<le> rom_offset + len"
      using full p eq by (auto simp: L_def complete_maps_def) (simp add: fmap_size_def FMAP_HEADER_def)
    have ar: "u32 (add64 p 56) = p + 56" "u32 (L - 56) = L - 56" "FMAP_HEADER = 56"
      using L p(2) le size_bound by (simp_all add: c_simps FMAP_HEADER_def)
    let ?b = "fm @ drop 56 (fresh_buf c L)"
    have "p + 56 + (L - 56) \<le> n" "56 + (L - 56) \<le> length ?b" using L le r(2) by simp_all
    then obtain s3 where s3: "read_flash c ?b 56 (p + 56) (L - 56) s2 = Some (0, blit 56 (bslice (p + 56) (L - 56) (contents s2)) ?b, s3)"
      "read_ok s3" "contents s3 = contents s2" using reader.read_plain [OF _ _ r(4)] by blast
    have "blit 56 (bslice (p + 56) (L - 56) (contents s2)) ?b = bslice p L (contents s)"
      using L le lc r(2,5) p(3) by (intro nth_equalityI) (auto simp: buf_simps nth_append)
    note s3 = s3(1) [unfolded this] s3(2,3)
    obtain t3 where t3: "finalize_flash_access a fns s3 = Some t3" "end_ok t3" "contents t3 = contents s"
      using fin [OF s3(2)] s3(3) r(5) by auto
    have "fmap_bsearch_rom c a fns0 rom_offset len min_stride s = Some (0, Some (bslice p L (contents s)), t3)"
      using g malloc_ok Some by (simp add: fmap_bsearch_rom_def Let_def chip_bytes s1(1) r(1) [unfolded ar(3)] L_def [symmetric] ar s3(1) t3(1))
    moreover have "found_map (contents s) rom_offset len (bslice p L (contents s))"
      using p(1,2,4) eq unfolding found_map_def L_def by auto
    ultimately show ?thesis using t3 by auto
  qed
qed

lemma lsearch_rom_ok:
  assumes s: "start_ok s" and le: "rom_offset + len \<le> n" and full: "complete_maps (contents s) rom_offset len"
  shows "if \<exists>p. rom_offset \<le> p \<and> p + 56 \<le> rom_offset + len \<and> map_at (contents s) p
    then \<exists>fm s'. fmap_lsearch_rom c a fns0 rom_offset len s = Some (0, Some fm, s') \<and> found_map (contents s) rom_offset len fm \<and>
      end_ok s' \<and> contents s' = contents s
    else \<exists>s'. fmap_lsearch_rom c a fns0 rom_offset len s = Some (2, None, s') \<and> end_ok s' \<and> contents s' = contents s"
proof -
  obtain fns s1 where s1: "prepare_flash_access c a True False False False fns0 s = Some (0, fns, s1)" "read_ok s1"
    "contents s1 = contents s" and fin: "read_ok t \<Longrightarrow> \<exists>t'. finalize_flash_access a fns t = Some t' \<and> end_ok t' \<and> contents t' = contents t" for t
    using prepare_read_ok [OF s] by blast
  have ar: "add64 rom_offset len = rom_offset + len" "u32 rom_offset = rom_offset" "u32 len = len"
    using le size_bound by (simp_all add: c_simps)
  let ?b = "fresh_buf c (rom_offset + len)" and ?part = "bslice rom_offset len (contents s)"
  obtain s2 where s2: "read_flash c ?b rom_offset rom_offset len s1 = Some (0, blit rom_offset ?part ?b, s2)"
    "read_ok s2" "contents s2 = contents s" using reader.read_plain [OF le _ s1(2), of rom_offset ?b] s1(3) by auto
  have lc: "length (contents s) = n" using reader.contents_length [OF s2(2)] s2(3) by simp
  have part: "drop rom_offset (blit rom_offset ?part ?b) = ?part"
    using le lc by (intro nth_equalityI) (auto simp: buf_simps)
  obtain t2 where t2: "finalize_flash_access a fns s2 = Some t2" "end_ok t2" "contents t2 = contents s"
    using fin [OF s2(2)] s2(3) by auto
  have run: "fmap_lsearch_rom c a fns0 rom_offset len s =
      (case fmap_read_from_buffer (c_malloc c) ?part len of (ret, out) \<Rightarrow> Some (ret, out, t2))"
    using malloc_ok by (simp add: fmap_lsearch_rom_def s1(1) ar s2(1) part t2(1) Let_def)
  note at = map_at_part [OF le [folded lc]]
  have ex: "(\<exists>p. p + 56 \<le> len \<and> map_at ?part p) = (\<exists>p. rom_offset \<le> p \<and> p + 56 \<le> rom_offset + len \<and> map_at (contents s) p)"
    using at(1) by (auto simp: le_iff_add) (metis add.assoc add_le_cancel_left)+
  have "complete_maps ?part 0 len"
    unfolding complete_maps_def
  proof (intro allI impI)
    fix p assume p: "0 \<le> p \<and> p + 56 \<le> 0 + len \<and> map_at ?part p"
    then have "rom_offset + p + fmap_size (drop (rom_offset + p) (contents s)) \<le> rom_offset + len"
      using full [unfolded complete_maps_def, rule_format, of "rom_offset + p"] at(1) [of p] by simp
    with p at(2) [of p] show "p + fmap_size (drop p ?part) \<le> 0 + len" by simp
  qed
  from read_from_buffer_ok [OF malloc_ok this]
  have rd: "if \<exists>p. p + 56 \<le> len \<and> map_at ?part p
    then \<exists>fm. fmap_read_from_buffer (c_malloc c) ?part len = (0, Some fm) \<and> found_map ?part 0 len fm
    else fmap_read_from_buffer (c_malloc c) ?part len = (2, None)" .
  have tr: "found_map (contents s) rom_offset len fm" if f: "found_map ?part 0 len fm" for fm
  proof -
    obtain p where p: "p + 56 \<le> len" "map_at ?part p" "fm = bslice p (fmap_size (drop p ?part)) ?part"
      using f by (auto simp: found_map_def)
    have "p + fmap_size (drop p ?part) \<le> len" using \<open>complete_maps ?part 0 len\<close> p by (simp add: complete_maps_def)
    then have "fm = bslice (rom_offset + p) (fmap_size (drop (rom_offset + p) (contents s))) (contents s)"
      using p at(2) by (simp add: bslice_bslice)
    with p at(1) show ?thesis unfolding found_map_def by (intro exI [of _ "rom_offset + p"]) auto
  qed
  show ?thesis using rd t2 unfolding run ex by (auto split: if_splits intro: tr)
qed

lemma read_from_rom_ok:
  assumes s: "start_ok s" and le: "rom_offset + len \<le> n" "56 \<le> len" and full: "complete_maps (contents s) rom_offset len"
  shows "if \<exists>p. rom_offset \<le> p \<and> p + 56 \<le> rom_offset + len \<and> map_at (contents s) p
    then \<exists>fm s'. fmap_read_from_rom c a fns0 rom_offset len s = Some (0, Some fm, s') \<and> found_map (contents s) rom_offset len fm \<and>
      end_ok s' \<and> contents s' = contents s
    else \<exists>s'. fmap_read_from_rom c a fns0 rom_offset len s = Some (2, None, s') \<and> end_ok s' \<and> contents s' = contents s"
proof -
  obtain ret out s1 where b: "fmap_bsearch_rom c a fns0 rom_offset len 256 s = Some (ret, out, s1)" "end_ok s1" "contents s1 = contents s"
    "ret = 0 \<longrightarrow> (\<exists>fm. out = Some fm \<and> found_map (contents s) rom_offset len fm)"
    using bsearch_rom_ok [OF s le _ full, of 256 fns0] by auto
  have run: "fmap_read_from_rom c a fns0 rom_offset len s =
      (if ret \<noteq> 0 then fmap_lsearch_rom c a fns0 rom_offset len s1 else Some (ret, out, s1))"
    by (simp add: fmap_read_from_rom_def b(1))
  show ?thesis
  proof (cases "ret = 0")
    case True
    with b(4) obtain fm where fm: "out = Some fm" "found_map (contents s) rom_offset len fm" by blast
    then have "\<exists>p. rom_offset \<le> p \<and> p + 56 \<le> rom_offset + len \<and> map_at (contents s) p" by (auto simp: found_map_def)
    with fm b(2,3) True show ?thesis unfolding run by auto
  next
    case False
    with lsearch_rom_ok [OF restart [OF b(2)] le(1), of fns0] full show ?thesis unfolding run b(3) by auto
  qed
qed

end

lemma opaque_fmap_device:
  assumes "variable_chip d0" and "layout_sanity_checks (emu_chip_size d0 div 1024) (get_layout (opaque_ctx d0 lay fl ratio fresh)) = 0"
  shows "fmap_device (opaque_ctx d0 lay fl ratio fresh) (emu_chip_size d0) (opaque_ok d0) flashchip_contents
    (opaque_ok d0) opaque_access (opaque_ok d0) (opaque_ok d0)"
  by (intro fmap_device.intro fmap_device_axioms.intro opaque_image_device assms)

interpretation ofm: fmap_device sample_ctx 4194304 "opaque_ok sample_data" flashchip_contents
    "opaque_ok sample_data" opaque_access "opaque_ok sample_data" "opaque_ok sample_data"
  unfolding sample_ctx_def sample_data_simps(2) [symmetric]
  by (rule opaque_fmap_device [OF sample_variable_chip(1) default_layout_checked(2) [OF sample_variable_chip(1)]])

text \<open>C13: \<^verbatim>\<open>fmap_read_from_rom\<close> on a chip of the dummy programmer whose maps are complete, for every range that holds a
  header: the search with decreasing strides and the linear search after it together return a map of
  the chip if there is one at any offset of the range, and 2 if there is none; the chip keeps its bytes.\<close>

theorem fmap_read_from_rom_correct:
  assumes v: "variable_chip d0"
    and lay: "layout_sanity_checks (emu_chip_size d0 div 1024) (get_layout (opaque_ctx d0 lay fl ratio fresh)) = 0"
    and ok: "opaque_ok d0 d" and le: "rom_offset + len \<le> emu_chip_size d0" "56 \<le> len"
    and full: "complete_maps (flashchip_contents d) rom_offset len"
  shows "\<exists>ret out d'. fmap_read_from_rom (opaque_ctx d0 lay fl ratio fresh) opaque_access fns0 rom_offset len d = Some (ret, out, d') \<and>
    opaque_ok d0 d' \<and> flashchip_contents d' = flashchip_contents d \<and>
    (if \<exists>p. rom_offset \<le> p \<and> p + 56 \<le> rom_offset + len \<and> map_at (flashchip_contents d) p
     then ret = 0 \<and> (\<exists>fm. out = Some fm \<and> found_map (flashchip_contents d) rom_offset len fm)
     else ret = 2 \<and> out = None)"
  using fmap_device.read_from_rom_ok [OF opaque_fmap_device [OF v lay] ok le full, of fns0] by (auto split: if_splits)

section \<open>Encoding a map\<close>

text \<open>The bytes of a map with the given areas (offset, size, name and flags), as a tool that writes maps makes them.\<close>

definition name_bytes :: "string \<Rightarrow> bytes" where
  "name_bytes s = map (\<lambda>ch. word_of_nat (of_char ch)) s @ replicate (32 - length s) 0"

type_synonym area = "nat \<times> nat \<times> string \<times> nat"

definition encode_area :: "area \<Rightarrow> bytes" where
  "encode_area ar = (case ar of (ofs, sz, name, fls) \<Rightarrow> le_bytes 4 ofs @ le_bytes 4 sz @ name_bytes name @ le_bytes 2 fls)"

definition encode_fmap :: "nat \<Rightarrow> nat \<Rightarrow> nat \<Rightarrow> string \<Rightarrow> area list \<Rightarrow> bytes" where
  "encode_fmap minor base sz name areas =
     FMAP_SIGNATURE @ [FMAP_VER_MAJOR, word_of_nat minor] @ le_bytes 8 base @ le_bytes 4 sz @ name_bytes name @
     le_bytes 2 (length areas) @ concat (map encode_area areas)"

text \<open>Names of a map: printable characters without spaces, at most 31 of them.\<close>

definition fmap_name :: "string \<Rightarrow> bool" where
  "fmap_name s \<longleftrightarrow> length s < 32 \<and> (\<forall>ch \<in> set s. 0x21 \<le> (of_char ch :: nat) \<and> (of_char ch :: nat) \<le> 0x7e)"

definition area_ok :: "area \<Rightarrow> bool" where
  "area_ok ar = (case ar of (ofs, sz, name, fls) \<Rightarrow> ofs + sz \<le> 4294967296 \<and> ofs < 4294967296 \<and> sz < 4294967296 \<and> fmap_name name)"

definition area_entry :: "area \<Rightarrow> romentry" where
  "area_entry ar = (case ar of (ofs, sz, name, fls) \<Rightarrow>
     \<lparr>re_included = False, re_file = None, re_region = \<lparr>fr_name = name, fr_start = ofs, fr_end = ofs + sz - 1,
        fr_read_prot = False, fr_write_prot = False\<rparr>\<rparr>)"

lemma length_name_bytes: "length s \<le> 32 \<Longrightarrow> length (name_bytes s) = 32"
  by (simp add: name_bytes_def)

lemma unat_char: "unat (word_of_nat (of_char ch :: nat) :: u8) = of_char ch"
  by (simp add: unat_of_nat)

lemma char_byte_zero: "(word_of_nat (of_char ch :: nat) :: u8) = 0 \<longleftrightarrow> (of_char ch :: nat) = 0"
  using unat_char [of ch] by (metis unat_0 unat_eq_zero)

lemma graph_byte:
  assumes "0x21 \<le> (of_char ch :: nat)" and "(of_char ch :: nat) \<le> 0x7e"
  shows "c_isgraph (word_of_nat (of_char ch :: nat))" "(word_of_nat (of_char ch :: nat) :: u8) \<noteq> 0"
  using assms by (simp_all add: c_isgraph_def word_le_nat_alt unat_char char_byte_zero)

lemma name_ok: "fmap_name s \<Longrightarrow> fmap_name_ok (name_bytes s)"
proof -
  have "fmap_name_ok (map (\<lambda>ch. word_of_nat (of_char ch :: nat)) s @ replicate (Suc k) 0)"
    if "\<forall>ch \<in> set s. 0x21 \<le> (of_char ch :: nat) \<and> (of_char ch :: nat) \<le> 0x7e" for k
    using that by (induction s) (auto simp: graph_byte)
  moreover assume n: "fmap_name s"
  moreover from n have "32 - length s = Suc (31 - length s)" unfolding fmap_name_def by linarith
  ultimately show ?thesis unfolding name_bytes_def fmap_name_def by presburger
qed

lemma c_string_name: "fmap_name s \<Longrightarrow> c_string (name_bytes s @ rest) = Some s"
proof -
  assume n: "fmap_name s"
  then have l: "32 - length s = Suc (31 - length s)" unfolding fmap_name_def by linarith
  have nz: "\<forall>b \<in> set (map (\<lambda>ch. word_of_nat (of_char ch :: nat) :: u8) s). b \<noteq> 0"
    using n by (auto simp: fmap_name_def graph_byte)
  have "takeWhile (\<lambda>b. b \<noteq> 0) (name_bytes s @ rest) = map (\<lambda>ch. word_of_nat (of_char ch :: nat)) s"
    unfolding name_bytes_def l append_assoc using nz by (subst takeWhile_append2) (blast, simp)
  moreover have "0 \<in> set (name_bytes s @ rest)" by (simp add: name_bytes_def l)
  ultimately show ?thesis by (simp add: c_string_def unat_char o_def)
qed

lemma length_encode_area: "area_ok ar \<Longrightarrow> length (encode_area ar) = 42"
  by (auto simp: encode_area_def area_ok_def fmap_name_def length_name_bytes split: prod.splits)

lemma parse_encoded_areas:
  "\<forall>ar \<in> set areas. area_ok ar \<Longrightarrow>
     parse_areas True (length areas) (concat (map encode_area areas) @ rest) l =
       Some (0, Some (rev (map area_entry (filter (\<lambda>(ofs, sz, name, fls). sz \<noteq> 0) areas)) @ l))"
proof (induction areas arbitrary: l)
  case (Cons ar areas)
  obtain ofs sz name fls where ar: "ar = (ofs, sz, name, fls)" by (cases ar) auto
  have ok: "area_ok ar" "ofs + sz \<le> 4294967296" "ofs < 4294967296" "sz < 4294967296" "fmap_name name"
    using Cons.prems by (simp_all add: ar area_ok_def)
  let ?tail = "concat (map encode_area areas) @ rest"
  have enc: "encode_area ar @ ?tail = le_bytes 4 ofs @ le_bytes 4 sz @ name_bytes name @ (le_bytes 2 fls @ ?tail)"
    by (simp add: encode_area_def ar)
  have fields: "area_offset (encode_area ar @ ?tail) = ofs" "area_size (encode_area ar @ ?tail) = sz"
    "c_string (drop 8 (encode_area ar @ ?tail)) = Some name" "drop FMAP_AREA (encode_area ar @ ?tail) = ?tail"
    unfolding enc area_offset_def area_size_def
    using bslice_mid [of "[]" 0 "le_bytes 4 ofs"] bslice_mid [of "le_bytes 4 ofs" 4 "le_bytes 4 sz"] c_string_name [OF ok(5)] ok
    by (simp_all add: le_value_le_bytes FMAP_AREA_def length_name_bytes fmap_name_def)
  have bound: "u32 ofs = ofs" "take FMAP_STRLEN name = name"
    using ok by (simp_all add: u32_def fmap_name_def FMAP_STRLEN_def)
  have last: "u32 (sub32 (add32 ofs sz) 1) = ofs + sz - 1" if "sz \<noteq> 0"
  proof (cases "ofs + sz = 4294967296")
    case False
    with that ok show ?thesis by (simp add: c_simps)
  qed (simp add: add32_def sub32_def u32_def)
  show ?case
  proof (cases "sz = 0")
    case True
    with Cons fields show ?thesis by (simp add: ar)
  next
    case False
    with Cons.IH Cons.prems fields bound last show ?thesis
      by (simp add: flashrom_layout_add_region_def) (simp add: ar area_entry_def)
  qed
qed simp

lemma header_fields:
  fixes minor base sz name areas rest
  defines "fm \<equiv> encode_fmap minor base sz name areas @ rest"
  assumes name: "fmap_name name" and n: "length areas < 65536" and sz: "sz < 4294967296"
  shows "bslice 0 8 fm = FMAP_SIGNATURE" "fm_ver_major fm = FMAP_VER_MAJOR" "fm_size fm = sz" "fm_name fm = name_bytes name"
    "fm_nareas fm = length areas" "drop FMAP_HEADER fm = concat (map encode_area areas) @ rest"
proof -
  let ?body = "concat (map encode_area areas) @ rest"
  let ?ver = "[FMAP_VER_MAJOR, word_of_nat minor] :: bytes"
  have l: "length FMAP_SIGNATURE = 8" "length (name_bytes name) = 32"
    using name by (simp_all add: FMAP_SIGNATURE_def fmap_name_def length_name_bytes)
  have fm: "fm = FMAP_SIGNATURE @ ?ver @ le_bytes 8 base @ le_bytes 4 sz @ name_bytes name @ le_bytes 2 (length areas) @ ?body"
    by (simp add: fm_def encode_fmap_def)
  show "bslice 0 8 fm = FMAP_SIGNATURE" using bslice_mid [of "[]" 0 FMAP_SIGNATURE 8] l by (simp add: fm)
  show "fm_ver_major fm = FMAP_VER_MAJOR" using l by (simp add: fm fm_ver_major_def nth_append)
  have "fm_size fm = le_value (le_bytes 4 sz)"
    using bslice_mid [of "FMAP_SIGNATURE @ ?ver @ le_bytes 8 base" 18 "le_bytes 4 sz" 4] l by (simp add: fm fm_size_def)
  then show "fm_size fm = sz" using sz by (simp add: le_value_le_bytes)
  show "fm_name fm = name_bytes name"
    using bslice_mid [of "FMAP_SIGNATURE @ ?ver @ le_bytes 8 base @ le_bytes 4 sz" 22 "name_bytes name" 32] l by (simp add: fm fm_name_def)
  have "fm_nareas fm = le_value (le_bytes 2 (length areas))"
    using bslice_mid [of "FMAP_SIGNATURE @ ?ver @ le_bytes 8 base @ le_bytes 4 sz @ name_bytes name" 54 "le_bytes 2 (length areas)" 2] l
    by (simp add: fm fm_nareas_def)
  then show "fm_nareas fm = length areas" using n by (simp add: le_value_le_bytes)
  show "drop FMAP_HEADER fm = ?body" using l by (simp add: fm FMAP_HEADER_def)
qed

lemma length_encode_fmap:
  assumes "fmap_name name" and "\<forall>ar \<in> set areas. area_ok ar"
  shows "length (encode_fmap minor base sz name areas) = 56 + length areas * 42"
proof -
  have "length (concat (map encode_area areas)) = length areas * 42"
    using assms(2) by (induction areas) (simp_all add: length_encode_area)
  with assms(1) show ?thesis by (simp add: encode_fmap_def FMAP_SIGNATURE_def fmap_name_def length_name_bytes)
qed

text \<open>C19: round trip. A flash map that is encoded at the start of a buffer, whatever follows it, is found by
  \<^verbatim>\<open>flashrom_layout_read_fmap_from_buffer\<close>, and the layout has exactly the areas of nonzero size with their
  names and bounds, the last area first.\<close>

theorem fmap_layout_roundtrip:
  assumes name: "fmap_name name" and areas: "\<forall>ar \<in> set areas. area_ok ar" and n: "length areas < 65536"
    and sz: "56 + length areas * 42 \<le> sz" "sz < 4294967296"
  shows "flashrom_layout_read_fmap_from_buffer (\<lambda>k. True) True True (Some (encode_fmap minor base sz name areas @ rest))
      (length (encode_fmap minor base sz name areas @ rest)) =
    Some (0, Some (rev (map area_entry (filter (\<lambda>(ofs, sz, name, fls). sz \<noteq> 0) areas))))"
proof -
  define fm where "fm = encode_fmap minor base sz name areas"
  note f = header_fields [OF name n sz(2), of minor base, folded fm_def]
  have len: "length fm = 56 + length areas * 42" using length_encode_fmap [OF name areas] by (simp add: fm_def)
  have size_fm: "fmap_size (fm @ r) = length fm" for r using f(5) [of r] by (simp add: fmap_size_def FMAP_HEADER_def FMAP_AREA_def len)
  have valid: "is_valid_fmap (fm @ rest)"
    unfolding is_valid_fmap_def f size_fm using name sz(1) len by (simp add: name_ok)
  have "lsearch_loop (fm @ rest) k 0 = Some 0" for k by (subst lsearch_loop.simps) (simp add: valid)
  then have "fmap_lsearch (fm @ rest) (length (fm @ rest)) = 0"
    using len by (simp add: fmap_lsearch_def FMAP_HEADER_def size_fm)
  then have rd: "fmap_read_from_buffer (\<lambda>k. True) (fm @ rest) (length (fm @ rest)) = (0, Some fm)"
    by (simp add: fmap_read_from_buffer_def size_fm Let_def)
  show ?thesis
    using rd len f(5,6) [of "[]"] parse_encoded_areas [OF areas, of "[]" "[]"]
    by (simp add: flashrom_layout_read_fmap_from_buffer_def flashrom_layout_parse_fmap_def flashrom_layout_new_def fm_def [symmetric])
qed

definition sample_areas :: "area list" where
  "sample_areas = [(0, 2097152, ''RO'', 1), (2097152, 0, ''EMPTY'', 0), (2097152, 2097152, ''RW'', 0)]"

theorem fmap_layout_witness:
  "flashrom_layout_read_fmap_from_buffer (\<lambda>k. True) True True
      (Some (encode_fmap 1 0 4194304 ''FLASH'' sample_areas @ [0xff, 0xff]))
      (length (encode_fmap 1 0 4194304 ''FLASH'' sample_areas @ [0xff, 0xff])) =
    Some (0, Some [area_entry (2097152, 2097152, ''RW'', 0), area_entry (0, 2097152, ''RO'', 1)])"
  using fmap_layout_roundtrip [of "''FLASH''" sample_areas 4194304 1 0 "[0xff, 0xff]"]
  by (simp add: sample_areas_def fmap_name_def area_ok_def)

text \<open>A chip of 4 MiB, erased but for a map at offset 4096.\<close>

definition sample_map :: bytes where
  "sample_map = encode_fmap 2 0 4194304 ''FLASH'' sample_areas"

definition mapped_image :: bytes where
  "mapped_image = blit 4096 sample_map (replicate 4194304 0xff)"

lemma sample_map_length: "length sample_map = 182"
  unfolding sample_map_def by (subst length_encode_fmap) (simp_all add: sample_areas_def fmap_name_def area_ok_def)

lemma map_at_first: "map_at img p \<Longrightarrow> p < length img \<Longrightarrow> img ! p = 0x5f"
proof -
  assume "map_at img p" and p: "p < length img"
  then have "bslice 0 8 (drop p img) ! 0 = FMAP_SIGNATURE ! 0" by (simp add: map_at_def is_valid_fmap_def split: if_splits)
  with p show ?thesis by (simp add: nth_bslice FMAP_SIGNATURE_def)
qed

lemma fmap_size_bound: "fmap_size fm \<le> 2752526"
proof -
  have "le_value (bslice 54 2 fm) < 256 ^ 2"
    using le_value_bound [of "bslice 54 2 fm"] power_increasing [of "length (bslice 54 2 fm)" 2 "256 :: nat"] by simp
  then show ?thesis by (simp add: fmap_size_def fm_nareas_def FMAP_HEADER_def FMAP_AREA_def)
qed

lemma mapped_image_complete: "complete_maps mapped_image 0 4194304"
  unfolding complete_maps_def
proof (intro allI impI)
  fix p assume p: "0 \<le> p \<and> p + 56 \<le> 0 + 4194304 \<and> map_at mapped_image p"
  have len: "length mapped_image = 4194304" by (simp add: mapped_image_def)
  have "p < 4278"
  proof (rule ccontr)
    assume "\<not> p < 4278"
    then have "mapped_image ! p = 0xff" using p unfolding mapped_image_def
      by (subst nth_blit) (auto simp: sample_map_length)
    with map_at_first [of mapped_image p] p len show False by simp
  qed
  with fmap_size_bound [of "drop p mapped_image"] show "p + fmap_size (drop p mapped_image) \<le> 0 + 4194304" by linarith
qed

lemma mapped_image_map: "map_at mapped_image 4096"
proof -
  have "drop 4096 mapped_image = sample_map @ drop 4278 mapped_image"
    by (rule nth_equalityI) (auto simp: mapped_image_def sample_map_length buf_simps nth_append)
  moreover have "is_valid_fmap (sample_map @ rest)" for rest
  proof -
    have pre: "fmap_name ''FLASH''" "length sample_areas < 65536" "(4194304 :: nat) < 4294967296"
      by (simp_all add: sample_areas_def fmap_name_def)
    note f = header_fields [OF pre, of 2 0 rest, folded sample_map_def]
    have "length sample_areas = 3" by (simp add: sample_areas_def)
    with f pre(1) show ?thesis by (simp add: is_valid_fmap_def fmap_size_def FMAP_HEADER_def FMAP_AREA_def name_ok)
  qed
  ultimately show ?thesis by (simp add: map_at_def)
qed

theorem fmap_read_from_rom_witness:
  "\<exists>fm d'. fmap_read_from_rom sample_ctx opaque_access [] 0 4194304 (sample_data\<lparr>flashchip_contents := mapped_image\<rparr>) = Some (0, Some fm, d') \<and>
    found_map mapped_image 0 4194304 fm"
proof -
  let ?d = "sample_data\<lparr>flashchip_contents := mapped_image\<rparr>"
  have ok: "opaque_ok sample_data ?d" by (simp add: opaque_ok_def sample_data_simps mapped_image_def)
  show ?thesis
    using fmap_read_from_rom_correct [OF sample_variable_chip(1) default_layout_checked(2) [OF sample_variable_chip(1)] ok,
        of 0 4194304 sample_flags 0 "\<lambda>i. 0" "[]", folded sample_ctx_def] mapped_image_complete mapped_image_map
    by (auto simp: sample_data_simps split: if_splits)
qed

end
