(* ===== verification/Sfdp.thy ===== *)
theory Sfdp
  imports Plans SpiProbe
begin

text \<open>
  Probing for SFDP (\<^verbatim>\<open>flashrom/sfdp.c\<close>): reading the parameter tables of a chip in chunks of two bytes, filling the
  description of the chip from the flash parameter table, and the parameters for replay-protected counters.
  A chip that was filled in this way has erase functions that the erase planning can use; the emulated
  MX25L6436 is found with its three block sizes.
\<close>

section \<open>Reading tables\<close>

definition SPI_PROGRAMMER_ERROR :: int where "SPI_PROGRAMMER_ERROR = -6"

text \<open>The bytes read, without the dummy byte; \<open>malloc\<close> tells which allocations succeed.\<close>

definition spi_sfdp_read_sfdp_chunk ::
    "(nat \<Rightarrow> bool) \<Rightarrow> 'd spi_master \<Rightarrow> nat \<Rightarrow> nat \<Rightarrow> 'd spi_state \<Rightarrow> (int \<times> bytes \<times> 'd spi_state) option" where
  "spi_sfdp_read_sfdp_chunk malloc m address len s =
     (let cmd = [JEDEC_SFDP, word_of_nat (field address 16 8), word_of_nat (field address 8 8), word_of_nat (field address 0 8)]
      in if \<not> malloc (len + 1) then Some (SPI_PROGRAMMER_ERROR, [], s)
         else map_option (\<lambda>(ret, newbuf, s'). (ret, bslice 1 len newbuf, s')) (spi_send_command m cmd (len + 1) s))"

text \<open>\<open>acc\<close> is what was read so far.\<close>

function read_sfdp_loop ::
    "(nat \<Rightarrow> bool) \<Rightarrow> 'd spi_master \<Rightarrow> nat \<Rightarrow> nat \<Rightarrow> bytes \<Rightarrow> 'd spi_state \<Rightarrow> (int \<times> bytes \<times> 'd spi_state) option" where
  "read_sfdp_loop malloc m address len acc s =
     (if 0 < len
      then
        let step = min len 2
        in Option.bind (spi_sfdp_read_sfdp_chunk malloc m address step s) (\<lambda>(ret, bs, s1).
             if ret \<noteq> 0 then Some (ret, acc @ bs, s1)
             else read_sfdp_loop malloc m (add32 address step) (len - step) (acc @ bs) s1)
      else Some (0, acc, s))"
  by pat_completeness auto
termination by (relation "measure (\<lambda>(malloc, m, address, len, acc, s). len)") auto

declare read_sfdp_loop.simps [simp del]

definition spi_sfdp_read_sfdp ::
    "(nat \<Rightarrow> bool) \<Rightarrow> 'd spi_master \<Rightarrow> nat \<Rightarrow> nat \<Rightarrow> 'd spi_state \<Rightarrow> (int \<times> bytes \<times> 'd spi_state) option" where
  "spi_sfdp_read_sfdp malloc m address len s = read_sfdp_loop malloc m address len [] s"

section \<open>Erase functions\<close>

text \<open>The loop over the array of erase functions: \<open>None\<close> when the function is there already or no place is free.\<close>

fun add_eraser_loop :: "block_erase_func \<Rightarrow> nat \<Rightarrow> nat \<Rightarrow> block_eraser list \<Rightarrow> block_eraser list option" where
  "add_eraser_loop f block_size count [] = None"
| "add_eraser_loop f block_size count (e # es) =
     (if eb_size (be_blocks e ! 0) = block_size \<and> be_erase e = f then None
      else if eb_size (be_blocks e ! 0) \<noteq> 0 \<or> be_erase e \<noteq> NO_BLOCK_ERASE_FUNC
      then map_option ((#) e) (add_eraser_loop f block_size count es)
      else Some (e\<lparr>be_erase := f, be_blocks := (be_blocks e)[0 := \<lparr>eb_size = block_size, eb_count = count\<rparr>]\<rparr> # es))"

definition sfdp_add_uniform_eraser :: "flashchip \<Rightarrow> u8 \<Rightarrow> nat \<Rightarrow> int \<times> flashchip" where
  "sfdp_add_uniform_eraser chip opc block_size =
     (let total_size = mul32 (ch_total_size chip) 1024; erasefn = spi25_get_erasefn_from_opcode opc
      in if erasefn = NO_BLOCK_ERASE_FUNC \<or> total_size = 0 \<or> block_size = 0 \<or> total_size mod block_size \<noteq> 0 then (1, chip)
         else case add_eraser_loop erasefn block_size (total_size div block_size) (ch_erasers chip) of
                None \<Rightarrow> (1, chip)
              | Some es \<Rightarrow> (0, chip\<lparr>ch_erasers := es\<rparr>))"

definition compare_erasers :: "block_eraser \<Rightarrow> block_eraser \<Rightarrow> int" where
  "compare_erasers a b =
     (if be_erase a = NO_BLOCK_ERASE_FUNC then 1
      else if be_erase b = NO_BLOCK_ERASE_FUNC then -1
      else s32 (eb_size (be_blocks a ! 0)) - s32 (eb_size (be_blocks b ! 0)))"

text \<open>\<^verbatim>\<open>qsort\<close> as insertion with the comparison function. The order of equal entries is unspecified in C, and the
  comparison contradicts itself on two unused entries; these are all the same.\<close>

fun insert_eraser :: "block_eraser \<Rightarrow> block_eraser list \<Rightarrow> block_eraser list" where
  "insert_eraser e [] = [e]"
| "insert_eraser e (f # fs) = (if compare_erasers e f \<le> 0 then e # f # fs else f # insert_eraser e fs)"

fun qsort_erasers :: "block_eraser list \<Rightarrow> block_eraser list" where
  "qsort_erasers [] = []"
| "qsort_erasers (e # es) = insert_eraser e (qsort_erasers es)"

section \<open>The flash parameter table\<close>

text \<open>Double word \<open>i\<close> of a table.\<close>

definition dword :: "bytes \<Rightarrow> nat \<Rightarrow> nat" where
  "dword buf i = le_value (bslice (4 * i) 4 buf)"

text \<open>The erase sector type \<open>j\<close> of double words 8 and 9.\<close>

definition sfdp_sector_type :: "bytes \<Rightarrow> nat \<Rightarrow> flashchip \<Rightarrow> flashchip" where
  "sfdp_sector_type buf j chip =
     (let sz = unat (buf ! (4 * 7 + j * 2)); opc = buf ! (4 * 7 + j * 2 + 1)
      in if sz = 0 then chip
         else if sz \<ge> 31 then chip
         else snd (sfdp_add_uniform_eraser chip opc (2 ^ sz)))"

text \<open>The part of \<^verbatim>\<open>sfdp_fill_flash\<close> that enters the erase functions; the opcode 0xff stands for none.\<close>

definition sfdp_fill_erasers :: "u8 \<Rightarrow> bytes \<Rightarrow> nat \<Rightarrow> flashchip \<Rightarrow> flashchip" where
  "sfdp_fill_erasers opcode_4k_erase buf len chip =
     (let chip3 = (if opcode_4k_erase \<noteq> 0xff then snd (sfdp_add_uniform_eraser chip opcode_4k_erase (4 * 1024)) else chip)
      in if len = 4 * 4 then chip3
         else let chip4 = fold (sfdp_sector_type buf) [0, 1, 2, 3] chip3
              in chip4\<lparr>ch_erasers := qsort_erasers (ch_erasers chip4)\<rparr>)"

definition sfdp_fill_flash :: "flashchip \<Rightarrow> bytes \<Rightarrow> nat \<Rightarrow> int \<times> flashchip" where
  "sfdp_fill_flash chip buf len =
     (let dw1 = dword buf 0; dw2 = dword buf 1
      in if field dw1 17 2 \<ge> 2 then (1, chip)
         else
           let chunk64 = (field dw1 2 1 = 1);
               chip1 = chip\<lparr>ch_feature_bits := (if field dw1 3 1 = 1 \<and> field dw1 4 1 = 1 then FEATURE_WRSR_WREN else FEATURE_WRSR_EWSR),
                            ch_page_size := (if chunk64 then 64 else 256),
                            ch_write := (if chunk64 then SPI_CHIP_WRITE256 else SPI_CHIP_WRITE1)\<rparr>;
               opcode_4k_erase = (if field dw1 0 2 = 1 then word_of_nat (field dw1 8 8) else 0xff :: u8)
           in if field dw2 31 1 = 1 then (1, chip1)
              else
                let total_size = (field dw2 0 31 + 1) div 8;
                    chip2 = chip1\<lparr>ch_total_size := total_size div 1024\<rparr>
                in if total_size > 16777216 then (1, chip2)
                   else (0, sfdp_fill_erasers opcode_4k_erase buf len chip2))"

section \<open>The parameters for monotonic counters\<close>

record rpmc_config =
  op1_opcode :: nat
  op2_opcode :: nat
  num_counters :: nat
  busy_polling_method :: nat
  update_rate :: nat
  polling_delay_read_counter_us :: nat
  polling_short_delay_write_counter_us :: nat
  polling_long_delay_write_counter_us :: nat

definition FEATURE_FLASH_HARDENING :: "32 word" where "FEATURE_FLASH_HARDENING = 0x4000000"

definition bits_to_counter_delay :: "nat \<Rightarrow> nat" where
  "bits_to_counter_delay bits =
     field bits 0 4 *
       (if field bits 4 2 = 0 then 1 else if field bits 4 2 = 1 then 16 else if field bits 4 2 = 2 then 128 else 1000)"

definition parse_rpmc_parameter_table :: "flashchip \<Rightarrow> rpmc_config \<Rightarrow> bytes \<Rightarrow> nat \<Rightarrow> int \<times> flashchip \<times> rpmc_config" where
  "parse_rpmc_parameter_table chip rpmc buf len =
     (if len \<noteq> 2 * 4 then (1, chip, rpmc)
      else
        let first = dword buf 0; second = dword buf 1
        in if field first 0 1 \<noteq> 0 then (0, chip, rpmc)
           else (0, chip\<lparr>ch_feature_bits := ch_feature_bits chip OR FEATURE_FLASH_HARDENING\<rparr>,
             \<lparr>op1_opcode = field first 8 8, op2_opcode = field first 16 8, num_counters = field first 4 4 + 1,
              busy_polling_method = field first 2 1, update_rate = 5 * 2 ^ field first 24 4,
              polling_delay_read_counter_us = bits_to_counter_delay (field second 0 4),
              polling_short_delay_write_counter_us = bits_to_counter_delay (field second 8 4),
              polling_long_delay_write_counter_us = bits_to_counter_delay (field second 16 4) * 1000\<rparr>))"

section \<open>The probe\<close>

text \<open>One parameter header, the \<open>i\<close>-th, after its table was read.\<close>

definition sfdp_table_found ::
    "nat \<Rightarrow> bytes \<Rightarrow> bytes \<Rightarrow> nat \<Rightarrow> int \<times> flashchip \<times> rpmc_config \<Rightarrow> int \<times> flashchip \<times> rpmc_config" where
  "sfdp_table_found i hdr tbuf len st =
     (case st of (ret, chip, rpmc) \<Rightarrow>
        if i = 0 then
          (if hdr ! 0 \<noteq> 0 then (ret, chip, rpmc)
           else if hdr ! 2 \<noteq> 1 then (ret, chip, rpmc)
           else if len \<noteq> 4 * 4 \<and> len < 9 * 4 then (ret, chip, rpmc)
           else case sfdp_fill_flash chip tbuf len of (r, chip') \<Rightarrow> (if r = 0 then 1 else ret, chip', rpmc))
        else if hdr ! 0 = 3 then
          (if hdr ! 2 \<noteq> 1 \<or> hdr ! 1 \<noteq> 0 then (ret, chip, rpmc)
           else case parse_rpmc_parameter_table chip rpmc tbuf len of (r, chip', rpmc') \<Rightarrow> (ret, chip', rpmc'))
        else (ret, chip, rpmc))"

text \<open>The loop over the headers, from the \<open>i\<close>-th on; \<open>hs\<close> are the headers that are left.\<close>

fun sfdp_headers ::
    "(nat \<Rightarrow> bool) \<Rightarrow> 'd spi_master \<Rightarrow> nat \<Rightarrow> bytes list \<Rightarrow> int \<times> flashchip \<times> rpmc_config \<Rightarrow> 'd spi_state \<Rightarrow>
     ((int \<times> flashchip \<times> rpmc_config) \<times> 'd spi_state) option" where
  "sfdp_headers malloc m i [] st s = Some (st, s)"
| "sfdp_headers malloc m i (hdr # hs) st s =
     (let len = unat (hdr ! 3) * 4; ptp = le_value (bslice 4 3 hdr)
      in if ptp + len \<ge> 16777216 then sfdp_headers malloc m (Suc i) hs st s
         else if \<not> malloc len then Some (st, s)
         else Option.bind (spi_sfdp_read_sfdp malloc m ptp len s) (\<lambda>(r, tbuf, s1).
           sfdp_headers malloc m (Suc i) hs (if r \<noteq> 0 then st else sfdp_table_found i hdr tbuf len st) s1))"

definition probe_spi_sfdp ::
    "(nat \<Rightarrow> bool) \<Rightarrow> 'd spi_master \<Rightarrow> flashchip \<Rightarrow> rpmc_config \<Rightarrow> 'd spi_state \<Rightarrow>
     ((int \<times> flashchip \<times> rpmc_config) \<times> 'd spi_state) option" where
  "probe_spi_sfdp malloc m chip rpmc s =
     Option.bind (spi_sfdp_read_sfdp malloc m 0 4 s) (\<lambda>(r1, buf, s1).
       if r1 \<noteq> 0 then Some ((0, chip, rpmc), s1)
       else if le_value buf \<noteq> 0x50444653 then Some ((0, chip, rpmc), s1)
       else Option.bind (spi_sfdp_read_sfdp malloc m 4 3 s1) (\<lambda>(r2, buf, s2).
         if r2 \<noteq> 0 then Some ((0, chip, rpmc), s2)
         else if buf ! 1 \<noteq> 1 then Some ((0, chip, rpmc), s2)
         else
           let nph = unat (buf ! 2)
           in if \<not> malloc ((nph + 1) * 8) \<or> \<not> malloc ((nph + 1) * 8) then Some ((0, chip, rpmc), s2)
              else Option.bind (spi_sfdp_read_sfdp malloc m 8 ((nph + 1) * 8) s2) (\<lambda>(r3, hbuf, s3).
                if r3 \<noteq> 0 then Some ((0, chip, rpmc), s3)
                else sfdp_headers malloc m 0 (map (\<lambda>i. bslice (8 * i) 8 hbuf) [0..<nph + 1]) (0, chip, rpmc) s3)))"

section \<open>The erase functions found fit together\<close>

text \<open>Every entry is unused or a uniform function with a power of two as its block size that covers the chip.\<close>

definition sfdp_eraser :: "nat \<Rightarrow> block_eraser \<Rightarrow> bool" where
  "sfdp_eraser n e \<longleftrightarrow> e = no_eraser \<or>
     (\<exists>k f. f \<noteq> NO_BLOCK_ERASE_FUNC \<and> k < 31 \<and> 2 ^ k dvd n \<and> 0 < n \<and> e = uniform_eraser (2 ^ k) (n div 2 ^ k) f)"

lemma no_eraser_simps [simp]:
  "be_erase no_eraser = NO_BLOCK_ERASE_FUNC" "eb_size (be_blocks no_eraser ! 0) = 0" "eb_count (be_blocks no_eraser ! 0) = 0"
  by (simp_all add: no_eraser_def NUM_ERASEREGIONS_def)

lemma uniform_simps [simp]:
  "be_erase (uniform_eraser sz count f) = f" "eb_size (be_blocks (uniform_eraser sz count f) ! 0) = sz"
  "eb_count (be_blocks (uniform_eraser sz count f) ! 0) = count"
  by (simp_all add: uniform_eraser_def)

lemma fill_no_eraser:
  "no_eraser\<lparr>be_erase := f, be_blocks := (be_blocks no_eraser)[0 := \<lparr>eb_size = sz, eb_count = count\<rparr>]\<rparr> = uniform_eraser sz count f"
  by (simp add: no_eraser_def uniform_eraser_def NUM_ERASEREGIONS_def numeral_nat)

lemma add_eraser_loop_ok:
  assumes "add_eraser_loop f (2 ^ k) (n div 2 ^ k) es = Some es'" and "\<forall>e \<in> set es. sfdp_eraser n e"
    and "f \<noteq> NO_BLOCK_ERASE_FUNC" "k < 31" "2 ^ k dvd n" "0 < n"
  shows "length es' = length es \<and> (\<forall>e \<in> set es'. sfdp_eraser n e)"
  using assms(1,2)
proof (induction es arbitrary: es')
  case (Cons e es)
  show ?case
  proof (cases "e = no_eraser")
    case True
    have "sfdp_eraser n (uniform_eraser (2 ^ k) (n div 2 ^ k) f)" using assms(3-6) by (auto simp: sfdp_eraser_def)
    with True Cons assms(3) show ?thesis by (auto simp: fill_no_eraser simp del: power_Suc)
  next
    case False
    then have "eb_size (be_blocks e ! 0) \<noteq> 0" using Cons.prems(2) by (auto simp: sfdp_eraser_def)
    with Cons show ?thesis by (auto split: if_splits)
  qed
qed simp

definition sfdp_chip_ok :: "flashchip \<Rightarrow> bool" where
  "sfdp_chip_ok chip \<longleftrightarrow> ch_total_size chip \<le> 16384 \<and> length (ch_erasers chip) = NUM_ERASEFUNCTIONS \<and>
     (\<forall>e \<in> set (ch_erasers chip). sfdp_eraser (ch_total_size chip * 1024) e)"

lemma add_uniform_ok:
  assumes "sfdp_chip_ok chip" and "k < 31"
  shows "sfdp_chip_ok (snd (sfdp_add_uniform_eraser chip opc (2 ^ k))) \<and>
    ch_total_size (snd (sfdp_add_uniform_eraser chip opc (2 ^ k))) = ch_total_size chip"
proof -
  have n: "mul32 (ch_total_size chip) 1024 = ch_total_size chip * 1024" using assms(1) by (simp add: sfdp_chip_ok_def c_simps)
  show ?thesis
    using assms add_eraser_loop_ok [of _ k "ch_total_size chip * 1024" "ch_erasers chip"]
    by (auto simp: sfdp_add_uniform_eraser_def Let_def n sfdp_chip_ok_def mod_eq_0_iff_dvd split: option.split)
qed

lemma sector_type_ok: "sfdp_chip_ok chip \<Longrightarrow> sfdp_chip_ok (sfdp_sector_type buf j chip)"
  using add_uniform_ok [of chip "unat (buf ! (4 * 7 + j * 2))"] by (simp add: sfdp_sector_type_def Let_def)

text \<open>Sorting puts used entries first, by size.\<close>

definition eraser_le :: "block_eraser \<Rightarrow> block_eraser \<Rightarrow> bool" where
  "eraser_le a b \<longleftrightarrow> be_erase b = NO_BLOCK_ERASE_FUNC \<or>
     be_erase a \<noteq> NO_BLOCK_ERASE_FUNC \<and> eb_size (be_blocks a ! 0) \<le> eb_size (be_blocks b ! 0)"

lemma eraser_le_trans: "eraser_le a b \<Longrightarrow> eraser_le b c \<Longrightarrow> eraser_le a c"
  by (auto simp: eraser_le_def)

lemma compare_eraser_le:
  assumes "eb_size (be_blocks a ! 0) < 2147483648" and "eb_size (be_blocks b ! 0) < 2147483648"
  shows "compare_erasers a b \<le> 0 \<Longrightarrow> eraser_le a b" "\<not> compare_erasers a b \<le> 0 \<Longrightarrow> eraser_le b a"
  using assms by (auto simp: compare_erasers_def eraser_le_def c_simps split: if_splits)

lemma set_insert_eraser [simp]: "set (insert_eraser e es) = insert e (set es)" "length (insert_eraser e es) = Suc (length es)"
  by (induction es) auto

lemma set_qsort_erasers [simp]: "set (qsort_erasers es) = set es" "length (qsort_erasers es) = length es"
  by (induction es) auto

lemma qsort_erasers_sorted:
  assumes "\<forall>e \<in> set es. eb_size (be_blocks e ! 0) < 2147483648"
  shows "sorted_wrt eraser_le (qsort_erasers es)"
proof -
  have ins: "sorted_wrt eraser_le (insert_eraser e fs)"
    if "sorted_wrt eraser_le fs" "\<forall>x \<in> insert e (set fs). eb_size (be_blocks x ! 0) < 2147483648" for e fs
    using that
  proof (induction fs)
    case (Cons f fs)
    then show ?case using compare_eraser_le [of e f] by (auto intro: eraser_le_trans)
  qed simp
  show ?thesis using assms by (induction es) (auto intro: ins)
qed

lemma sfdp_eraser_size: "sfdp_eraser n e \<Longrightarrow> eb_size (be_blocks e ! 0) < 2147483648"
proof -
  have "(2 :: nat) ^ k < 2147483648" if "k < 31" for k
    using power_strict_increasing [OF that, of "2 :: nat"] by simp
  then show "sfdp_eraser n e \<Longrightarrow> ?thesis" by (auto simp: sfdp_eraser_def)
qed

lemma sector_types_ok: "sfdp_chip_ok chip \<Longrightarrow> sfdp_chip_ok (fold (sfdp_sector_type buf) js chip)"
  by (induction js arbitrary: chip) (simp_all add: sector_type_ok)

lemma eight_unused: "replicate 8 no_eraser = no_eraser # replicate 7 no_eraser"
  using replicate_Suc [of 7 no_eraser] by simp

lemma first_eraser:
  assumes "ch_erasers chip = replicate 8 no_eraser"
  shows "\<exists>e. ch_erasers (snd (sfdp_add_uniform_eraser chip opc sz)) = e # replicate 7 no_eraser"
  using assms unfolding sfdp_add_uniform_eraser_def Let_def
  by (auto simp: fill_no_eraser eight_unused split: option.split)

lemma fill_erasers_ok:
  assumes "ch_erasers chip = replicate 8 no_eraser" and "ch_total_size chip \<le> 16384"
  shows "sfdp_chip_ok (sfdp_fill_erasers opc buf len chip) \<and> sorted_wrt eraser_le (ch_erasers (sfdp_fill_erasers opc buf len chip))"
proof -
  define chip3 where "chip3 = (if opc \<noteq> 0xff then snd (sfdp_add_uniform_eraser chip opc (4 * 1024)) else chip)"
  define chip4 where "chip4 = fold (sfdp_sector_type buf) [0, 1, 2, 3] chip3"
  have ok: "sfdp_chip_ok chip" using assms by (simp add: sfdp_chip_ok_def NUM_ERASEFUNCTIONS_def sfdp_eraser_def)
  have ok3: "sfdp_chip_ok chip3" using add_uniform_ok [OF ok, of 12 opc] ok by (auto simp: chip3_def)
  have ok4: "sfdp_chip_ok chip4" unfolding chip4_def by (rule sector_types_ok [OF ok3])
  show ?thesis
  proof (cases "len = 16")
    case True
    obtain e where "ch_erasers chip3 = e # replicate 7 no_eraser"
      using assms(1) first_eraser [OF assms(1), of opc "4 * 1024"] eight_unused
      by (cases "opc = 0xff") (simp_all only: chip3_def simp_thms if_True if_False, blast+)
    moreover have "sorted_wrt eraser_le (e # replicate k no_eraser)" for k by (induction k) (auto simp: eraser_le_def)
    ultimately show ?thesis using True ok3 by (simp add: sfdp_fill_erasers_def chip3_def [symmetric] eraser_le_def)
  next
    case False
    then have eq: "sfdp_fill_erasers opc buf len chip = chip4\<lparr>ch_erasers := qsort_erasers (ch_erasers chip4)\<rparr>"
      by (simp add: sfdp_fill_erasers_def chip3_def [symmetric] chip4_def Let_def)
    have "\<forall>e \<in> set (ch_erasers chip4). eb_size (be_blocks e ! 0) < 2147483648"
      using ok4 by (auto simp: sfdp_chip_ok_def sfdp_eraser_size)
    with ok4 show ?thesis unfolding eq by (simp add: qsort_erasers_sorted sfdp_chip_ok_def)
  qed
qed

lemma fill_ok:
  assumes "sfdp_fill_flash chip buf len = (0, chip')" and "ch_erasers chip = replicate 8 no_eraser"
  shows "sfdp_chip_ok chip' \<and> sorted_wrt eraser_le (ch_erasers chip')"
proof -
  have "\<exists>fb ps w opc T. T \<le> 16777216 \<and> chip' = sfdp_fill_erasers opc buf len
      (chip\<lparr>ch_feature_bits := fb, ch_page_size := ps, ch_write := w, ch_total_size := T div 1024\<rparr>)"
    using assms(1) unfolding sfdp_fill_flash_def Let_def by (simp split: if_split_asm) (metis not_less)+
  then obtain fb ps w opc T where T: "T \<le> 16777216" and c: "chip' = sfdp_fill_erasers opc buf len
      (chip\<lparr>ch_feature_bits := fb, ch_page_size := ps, ch_write := w, ch_total_size := T div 1024\<rparr>)" by blast
  have "T div 1024 \<le> 16384" using div_le_mono [OF T, of 1024] by simp
  then show ?thesis unfolding c by (intro fill_erasers_ok) (simp_all add: assms(2))
qed

lemma nested_pair:
  assumes "sfdp_eraser n d" "sfdp_eraser n e" "eraser_le d e" "be_erase e \<noteq> NO_BLOCK_ERASE_FUNC"
  shows "set (bounds_of e) \<subseteq> set (bounds_of d)"
proof -
  obtain k f k' g where d: "d = uniform_eraser (2 ^ k) (n div 2 ^ k) f" "2 ^ k dvd n" and
    e: "e = uniform_eraser (2 ^ k') (n div 2 ^ k') g" "2 ^ k' dvd n" using assms by (auto simp: sfdp_eraser_def eraser_le_def)
  have le: "k \<le> k'" using assms(3,4) by (auto simp: eraser_le_def d e)
  then have p: "(2 :: nat) ^ k' = 2 ^ (k' - k) * 2 ^ k" by (simp flip: power_add)
  obtain q where q: "n = q * 2 ^ k'" using e(2) by (metis dvd_def mult.commute)
  have "n div 2 ^ k = 2 ^ (k' - k) * (n div 2 ^ k')" by (simp add: q p)
  then show ?thesis unfolding d e by (rule nested_uniform) (simp_all add: p)
qed

lemma nested_sorted:
  assumes "sorted_wrt eraser_le es" and "\<forall>e \<in> set es. sfdp_eraser n e \<and> be_erase e \<noteq> NO_BLOCK_ERASE_FUNC"
  shows "nested_erasers es"
  using assms
proof (induction es rule: nested_erasers.induct)
  case (1 d e es)
  have "set (bounds_of e) \<subseteq> set (bounds_of d)" using 1(2,3) by (intro nested_pair) auto
  with 1 show ?case by simp
qed simp_all

lemma sfdp_eraser_ok: "sfdp_eraser n e \<Longrightarrow> be_erase e \<noteq> NO_BLOCK_ERASE_FUNC \<Longrightarrow> eraser_ok n e"
  by (auto simp: sfdp_eraser_def intro!: eraser_ok_uniform)

lemma usable_sorted:
  assumes "length (ch_erasers (c_chip c)) = NUM_ERASEFUNCTIONS" and "sorted_wrt R (ch_erasers (c_chip c))"
  shows "sorted_wrt R (usable_erasers c)" "set (usable_erasers c) \<subseteq> set (ch_erasers (c_chip c))"
    "\<forall>e \<in> set (usable_erasers c). be_erase e \<noteq> NO_BLOCK_ERASE_FUNC"
proof -
  have "sorted_wrt (\<lambda>i j. R (ch_erasers (c_chip c) ! i) (ch_erasers (c_chip c) ! j)) [0..<NUM_ERASEFUNCTIONS]"
    using assms by (auto simp: sorted_wrt_iff_nth_less)
  then show "sorted_wrt R (usable_erasers c)" unfolding usable_erasers_def sorted_wrt_map by (rule sorted_wrt_filter)
  show "set (usable_erasers c) \<subseteq> set (ch_erasers (c_chip c))" using assms(1) by (auto simp: usable_erasers_def)
  show "\<forall>e \<in> set (usable_erasers c). be_erase e \<noteq> NO_BLOCK_ERASE_FUNC"
    by (auto simp: usable_erasers_def check_block_eraser_def Let_def split: if_splits)
qed

text \<open>C22: whatever a flash parameter table contains, if \<^verbatim>\<open>sfdp_fill_flash\<close> accepts it, the chip has at most 16 MiB and its
  erase functions, in their final order, cover the chip with blocks that nest in each other: if one of
  them is usable, \<^verbatim>\<open>create_erase_layout\<close> builds a well-formed erase layout from them.\<close>

theorem sfdp_erase_layout:
  assumes fill: "sfdp_fill_flash chip buf len = (0, c_chip c)" and none: "ch_erasers chip = replicate 8 no_eraser"
    and us: "usable_erasers c \<noteq> []" and alloc: "\<And>k. c_malloc c k"
  shows "ch_total_size (c_chip c) \<le> 16384 \<and> geometry_ok (ch_total_size (c_chip c) * 1024) (usable_erasers c) \<and>
    (\<exists>l. create_erase_layout c = Some (int (length (usable_erasers c)), Some l) \<and> wf_layout (ch_total_size (c_chip c) * 1024) l)"
proof -
  let ?n = "ch_total_size (c_chip c) * 1024"
  have ok: "sfdp_chip_ok (c_chip c)" "sorted_wrt eraser_le (ch_erasers (c_chip c))" using fill_ok [OF fill none] by auto
  then have len: "length (ch_erasers (c_chip c)) = NUM_ERASEFUNCTIONS" and tot: "ch_total_size (c_chip c) \<le> 16384"
    and all: "\<forall>e \<in> set (ch_erasers (c_chip c)). sfdp_eraser ?n e" by (simp_all add: sfdp_chip_ok_def)
  note u = usable_sorted [OF len ok(2)]
  have mem: "\<forall>e \<in> set (usable_erasers c). sfdp_eraser ?n e \<and> be_erase e \<noteq> NO_BLOCK_ERASE_FUNC" using u(2,3) all by blast
  then have geo: "geometry_ok ?n (usable_erasers c)"
    using nested_sorted [OF u(1) mem] sfdp_eraser_ok by (auto simp: geometry_ok_def)
  obtain e where "sfdp_eraser ?n e" "be_erase e \<noteq> NO_BLOCK_ERASE_FUNC" using mem us by (metis list.set_intros(1) neq_Nil_conv)
  then have "0 < ?n" by (auto simp: sfdp_eraser_def)
  moreover have "?n < 4294967296" using tot by simp
  ultimately show ?thesis using create_erase_layout_ok [OF refl _ _ alloc us geo] geo tot by blast
qed

section \<open>The emulated MX25L6436\<close>

definition mx25_rest :: "emu_data \<Rightarrow> bool" where
  "mx25_rest d \<longleftrightarrow> emu_chip d = EMULATE_MACRONIX_MX25L6436 \<and> spi_blacklist d = [] \<and> spi_ignorelist d = [] \<and> emu_max_aai_size d = 0 \<and>
     emu_status d \<noteq> [] \<and> emu_status d ! 0 AND SPI_SR_WEL = 0"

lemma clear_wel_rest: "mx25_rest d \<Longrightarrow> clear_wel d = d"
proof -
  assume r: "mx25_rest d"
  have "emu_status d ! 0 AND NOT SPI_SR_WEL = emu_status d ! 0"
  proof (rule bit_eqI)
    fix n
    have "\<not> bit (emu_status d ! 0 AND SPI_SR_WEL) n" using r by (simp add: mx25_rest_def)
    then show "bit (emu_status d ! 0 AND NOT SPI_SR_WEL) n = bit (emu_status d ! 0) n"
      by (auto simp: bit_and_iff bit_not_iff dest: bit_imp_le_length)
  qed
  then show ?thesis by (simp add: clear_wel_def)
qed

lemma length_sfdp_table: "length sfdp_table = 88"
  by (simp add: sfdp_table_def)

lemma addr24_bytes:
  assumes "a < 16777216"
  shows "addr24 [opc, word_of_nat (field a 16 8), word_of_nat (field a 8 8), word_of_nat (field a 0 8)] = Some a"
proof -
  have "a div 65536 = a div 256 div 256" using div_mult2_eq [of a 256 256] by simp
  moreover have lt: "a div 65536 < 256" using assms by (simp add: less_mult_imp_div_less)
  ultimately have "a div 65536 mod 256 = a div 256 div 256" by simp
  then have "a div 65536 mod 256 * 65536 + a div 256 mod 256 * 256 + a mod 256 = a"
    using div_mult_mod_eq [of a 256] div_mult_mod_eq [of "a div 256" 256] by linarith
  then show ?thesis using lt by (simp add: addr24_def field_def unat_of_nat)
qed

lemma mx25_chunk:
  assumes d: "mx25_rest (sp_dev s)" and a: "a + len \<le> 88" "0 < len"
  shows "spi_sfdp_read_sfdp_chunk (\<lambda>k. True) spi_master_dummyflasher a len s = Some (0, bslice a len sfdp_table, s)"
proof -
  let ?w = "[JEDEC_SFDP, word_of_nat (field a 16 8), word_of_nat (field a 8 8), word_of_nat (field a 0 8)] :: bytes"
  have ad: "addr24 ?w = Some a" using a by (intro addr24_bytes) simp
  have sk: "min (88 - a) (len + 1 - 1) = len" using a by simp
  have e: "emu_sfdp ?w (replicate (len + 1) 0xff) (sp_dev s) = brk (blit 1 (bslice a len sfdp_table) (replicate (len + 1) 0xff)) (sp_dev s)"
    using d a sk by (simp add: emu_sfdp_def ad mx25_rest_def length_sfdp_table)
  have "emulate_spi_chip_response ?w (replicate (len + 1) 0xff) (sp_dev s) =
      Some (0, blit 1 (bslice a len sfdp_table) (replicate (len + 1) 0xff), sp_dev s)"
    using d e clear_wel_rest [OF d]
    by (simp add: emulate_spi_chip_response_def mx25_rest_def emu_switch_def opcode_defs brk_def)
  moreover have "emu_chip (sp_dev s) \<noteq> EMULATE_NONE" using d by (simp add: mx25_rest_def)
  moreover have "bslice 1 len (blit 1 (bslice a len sfdp_table) (replicate (len + 1) 0xff)) = bslice a len sfdp_table"
    using a by (intro nth_equalityI) (auto simp: buf_simps length_sfdp_table)
  ultimately show ?thesis
    by (simp add: spi_sfdp_read_sfdp_chunk_def spi_send_command_def spi_master_dummyflasher_def dummy_spi_send_command_def lift_dev_def Let_def)
qed

lemma mx25_read:
  assumes "mx25_rest (sp_dev s)" and "a + len \<le> 88"
  shows "spi_sfdp_read_sfdp (\<lambda>k. True) spi_master_dummyflasher a len s = Some (0, bslice a len sfdp_table, s)"
proof -
  have "read_sfdp_loop (\<lambda>k. True) spi_master_dummyflasher a len acc s = Some (0, acc @ bslice a len sfdp_table, s)" for acc
    using assms(2)
  proof (induction len arbitrary: a acc rule: less_induct)
    case (less len)
    show ?case
    proof (cases "len = 0")
      case False
      let ?k = "min len 2"
      have k: "0 < ?k" "?k \<le> len" using False by simp_all
      have ad: "add32 a ?k = a + ?k" using less.prems k by (simp add: c_simps)
      have sl: "bslice a ?k sfdp_table @ bslice (a + ?k) (len - ?k) sfdp_table = bslice a len sfdp_table"
        using bslice_add [of a ?k "len - ?k" sfdp_table] less.prems k by (simp add: length_sfdp_table)
      have "spi_sfdp_read_sfdp_chunk (\<lambda>k. True) spi_master_dummyflasher a ?k s = Some (0, bslice a ?k sfdp_table, s)"
        using less.prems k by (intro mx25_chunk [OF assms(1)]) simp_all
      then have "read_sfdp_loop (\<lambda>k. True) spi_master_dummyflasher a len acc s =
          read_sfdp_loop (\<lambda>k. True) spi_master_dummyflasher (a + ?k) (len - ?k) (acc @ bslice a ?k sfdp_table) s"
        using False ad by (subst read_sfdp_loop.simps) (simp add: Let_def)
      also have "\<dots> = Some (0, (acc @ bslice a ?k sfdp_table) @ bslice (a + ?k) (len - ?k) sfdp_table, s)"
        using less.prems k by (intro less.IH) simp_all
      finally show ?thesis using sl by simp
    qed (subst read_sfdp_loop.simps, simp)
  qed
  then show ?thesis by (simp add: spi_sfdp_read_sfdp_def)
qed

text \<open>The entry of the chip database that is filled by the probe.\<close>

definition SFDP_DEVICE_ID :: nat where "SFDP_DEVICE_ID = 0xFFFE"

definition sfdp_chip :: flashchip where
  "sfdp_chip =
     \<lparr>ch_vendor = Some ''Unknown'', ch_name = Some ''SFDP-capable chip'', ch_bustype = BUS_SPI,
      ch_manufacture_id = GENERIC_MANUF_ID, ch_model_id = SFDP_DEVICE_ID, ch_total_size = 0, ch_page_size = 0,
      ch_feature_bits = 0, ch_tested = \<lparr>t_probe = OK, t_read = OK, t_erase = OK, t_write = OK, t_wp = NA\<rparr>,
      ch_spi_cmd_set = SPI25, ch_probe = PROBE_SPI_SFDP, ch_probe_timing = 0,
      ch_erasers = replicate 8 no_eraser, ch_write = NO_WRITE_FUNC, ch_read = SPI_CHIP_READ, ch_gran = WRITE_GRAN_256BYTES\<rparr>"

definition mx25_chip :: flashchip where
  "mx25_chip = sfdp_chip\<lparr>ch_total_size := 8192, ch_page_size := 64, ch_feature_bits := FEATURE_WRSR_EWSR, ch_write := SPI_CHIP_WRITE256,
     ch_erasers := [uniform_eraser 4096 2048 SPI_BLOCK_ERASE_20, uniform_eraser 32768 256 SPI_BLOCK_ERASE_52,
       uniform_eraser 65536 128 SPI_BLOCK_ERASE_D8, no_eraser, no_eraser, no_eraser, no_eraser, no_eraser]\<rparr>"

lemma mx25_dwords: "dword (bslice 28 36 sfdp_table) 0 = 0xFFC920E5" "dword (bslice 28 36 sfdp_table) (Suc 0) = 0x03FFFFFF"
  by (simp_all add: dword_def bslice_def sfdp_table_def)

lemma mx25_sectors:
  "bslice 28 36 sfdp_table ! 28 = 0x0C" "bslice 28 36 sfdp_table ! 29 = 0x20" "bslice 28 36 sfdp_table ! 30 = 0x0F"
  "bslice 28 36 sfdp_table ! 31 = 0x52" "bslice 28 36 sfdp_table ! 32 = 0x10" "bslice 28 36 sfdp_table ! 33 = 0xD8"
  "bslice 28 36 sfdp_table ! 34 = 0"
  by (simp_all add: nth_bslice length_sfdp_table) (simp_all add: sfdp_table_def)

lemma eight_list: "replicate 8 no_eraser = [no_eraser, no_eraser, no_eraser, no_eraser, no_eraser, no_eraser, no_eraser, no_eraser]"
  by (simp add: eval_nat_numeral)

lemma mx25_erasers:
  assumes "ch_erasers chip = replicate 8 no_eraser" and "ch_total_size chip = 8192"
  shows "sfdp_fill_erasers 0x20 (bslice 28 36 sfdp_table) 36 chip =
    chip\<lparr>ch_erasers := [uniform_eraser 4096 2048 SPI_BLOCK_ERASE_20, uniform_eraser 32768 256 SPI_BLOCK_ERASE_52,
       uniform_eraser 65536 128 SPI_BLOCK_ERASE_D8, no_eraser, no_eraser, no_eraser, no_eraser, no_eraser]\<rparr>"
proof -
  have opc: "spi25_get_erasefn_from_opcode 0x20 = SPI_BLOCK_ERASE_20" "spi25_get_erasefn_from_opcode 0x52 = SPI_BLOCK_ERASE_52"
    "spi25_get_erasefn_from_opcode 0xD8 = SPI_BLOCK_ERASE_D8"
    by (simp_all add: spi25_get_erasefn_from_opcode_def spi25_function_opcode_list_def)
  have n: "mul32 8192 1024 = 8388608" by (simp add: mul32_def)
  show ?thesis
    using assms
    by (simp add: sfdp_fill_erasers_def sfdp_sector_type_def mx25_sectors Let_def sfdp_add_uniform_eraser_def n opc eight_list
        fill_no_eraser compare_erasers_def s32_def)
qed

lemma mx25_fill: "sfdp_fill_flash sfdp_chip (bslice 28 36 sfdp_table) 36 = (0, mx25_chip)"
  by (simp add: sfdp_fill_flash_def mx25_dwords field_def Let_def mx25_erasers sfdp_chip_def mx25_chip_def)

text \<open>C14: probing the emulated MX25L6436, through the SPI commands in chunks of two bytes, finds the chip: \<^verbatim>\<open>probe_spi_sfdp\<close>
  returns 1 and fills the entry for SFDP chips with 8 MiB, the page size and the write function of the table
  and the three erase functions, each once and sorted by size, although the table names the smallest twice.\<close>

theorem mx25_probe_sfdp:
  assumes "mx25_rest (sp_dev s)"
  shows "probe_spi_sfdp (\<lambda>k. True) spi_master_dummyflasher sfdp_chip rpmc s = Some ((1, mx25_chip, rpmc), s)"
proof -
  note rd = mx25_read [OF assms]
  have t: "bslice 0 4 sfdp_table = [0x53, 0x46, 0x44, 0x50]" "bslice 4 3 sfdp_table = [0x00, 0x01, 0x01]"
    "bslice 8 16 sfdp_table = [0, 0, 1, 9, 0x1C, 0, 0, 0xFF, 0xC2, 0, 1, 4, 0x48, 0, 0, 0xFF]"
    by (simp_all add: bslice_def sfdp_table_def)
  have h: "bslice 0 8 [0, 0, 1, 9, 0x1C, 0, 0, 0xFF, 0xC2, 0, 1, 4, 0x48, 0, 0, 0xFF :: u8] = [0, 0, 1, 9, 0x1C, 0, 0, 0xFF]"
    "bslice 8 8 [0, 0, 1, 9, 0x1C, 0, 0, 0xFF, 0xC2, 0, 1, 4, 0x48, 0, 0, 0xFF :: u8] = [0xC2, 0, 1, 4, 0x48, 0, 0, 0xFF]"
    by (simp_all add: bslice_def)
  have b: "bslice 4 3 [0, 0, 1, 9, 0x1C, 0, 0, 0xFF :: u8] = [0x1C, 0, 0]" "bslice 4 3 [0xC2, 0, 1, 4, 0x48, 0, 0, 0xFF :: u8] = [0x48, 0, 0]"
    by (simp_all add: bslice_def)
  show ?thesis
    by (simp add: probe_spi_sfdp_def rd t Let_def h b sfdp_table_found_def mx25_fill)
qed

definition mx25_data :: emu_data where
  "mx25_data = (case init_emulate ''MX25L6436'' (-1) zero_data of Some d \<Rightarrow> init_fill d | None \<Rightarrow> zero_data)"

theorem mx25_probe_witness:
  "probe_spi_sfdp (\<lambda>k. True) spi_master_dummyflasher sfdp_chip
      \<lparr>op1_opcode = 0, op2_opcode = 0, num_counters = 0, busy_polling_method = 0, update_rate = 0, polling_delay_read_counter_us = 0,
       polling_short_delay_write_counter_us = 0, polling_long_delay_write_counter_us = 0\<rparr>
      \<lparr>sp_dev = mx25_data, sp_address_high_byte = -1, sp_in_4ba_mode = False\<rparr> =
    Some ((1, mx25_chip,
      \<lparr>op1_opcode = 0, op2_opcode = 0, num_counters = 0, busy_polling_method = 0, update_rate = 0, polling_delay_read_counter_us = 0,
       polling_short_delay_write_counter_us = 0, polling_long_delay_write_counter_us = 0\<rparr>),
      \<lparr>sp_dev = mx25_data, sp_address_high_byte = -1, sp_in_4ba_mode = False\<rparr>)"
  by (rule mx25_probe_sfdp)
    (simp add: mx25_rest_def mx25_data_def init_emulate_def init_fill_def zero_data_def set_chip_def Let_def SPI_SR_WEL_def)

theorem sfdp_erase_layout_witness:
  "geometry_ok 8388608 (usable_erasers ((w25_ctx w25_data None sample_flags 0 (\<lambda>i. 0))\<lparr>c_chip := mx25_chip\<rparr>))"
proof -
  let ?c = "(w25_ctx w25_data None sample_flags 0 (\<lambda>i. 0))\<lparr>c_chip := mx25_chip\<rparr>"
  have fill: "sfdp_fill_flash sfdp_chip (bslice 28 36 sfdp_table) 36 = (0, c_chip ?c)" by (simp add: mx25_fill)
  have "check_block_eraser ?c 0 = 0"
    by (simp add: check_block_eraser_def mx25_chip_def w25_ctx_def spi_dummy_master_def bus_defs spi_get_opcode_from_erasefn_def
        function_opcode_list_def spi_probe_opcode_def dummy_spi_probe_opcode_def w25_data_simps)
  then have "usable_erasers ?c \<noteq> []" 
    by (auto simp: usable_erasers_def filter_empty_conv NUM_ERASEFUNCTIONS_def intro: bexI [of _ 0])
  from sfdp_erase_layout [OF fill _ this] show ?thesis by (simp add: sfdp_chip_def w25_ctx_simps mx25_chip_def)
qed

section \<open>The delays for counters\<close>

text \<open>\<^verbatim>\<open>parse_rpmc_parameter_table\<close> passes only four bits to \<^verbatim>\<open>bits_to_counter_delay\<close>, which expects the unit of the
  delay in the two bits above: every delay is the plain low nibble, in the smallest unit, whatever the table
  says.\<close>

theorem rpmc_delay_unit_lost:
  assumes "field (dword buf 0) 0 1 = 0"
  shows "\<exists>chip' r. parse_rpmc_parameter_table chip rpmc buf 8 = (0, chip', r) \<and>
    polling_delay_read_counter_us r = field (dword buf 1) 0 4 \<and>
    polling_short_delay_write_counter_us r = field (dword buf 1) 8 4 \<and>
    polling_long_delay_write_counter_us r = field (dword buf 1) 16 4 * 1000"
proof -
  have "bits_to_counter_delay (field n off 4) = field n off 4" for n off
    by (simp add: bits_to_counter_delay_def field_def)
  with assms show ?thesis by (simp add: parse_rpmc_parameter_table_def Let_def)
qed

text \<open>A table that asks for 15 units of 16 microseconds: 15 microseconds are used.\<close>

theorem rpmc_delay_witness:
  "\<exists>chip' r. parse_rpmc_parameter_table sfdp_chip
      \<lparr>op1_opcode = 0, op2_opcode = 0, num_counters = 0, busy_polling_method = 0, update_rate = 0, polling_delay_read_counter_us = 0,
       polling_short_delay_write_counter_us = 0, polling_long_delay_write_counter_us = 0\<rparr>
      [0xf0, 0x9b, 0x96, 0x01, 0x1f, 0, 0, 0] 8 = (0, chip', r) \<and>
    polling_delay_read_counter_us r = 15 \<and> bits_to_counter_delay 0x1f = 240"
proof -
  have "dword [0xf0, 0x9b, 0x96, 0x01, 0x1f, 0, 0, 0] 0 = 0x01969bf0" "dword [0xf0, 0x9b, 0x96, 0x01, 0x1f, 0, 0, 0] (Suc 0) = 0x1f"
    by (simp_all add: dword_def bslice_def)
  then show ?thesis
    using rpmc_delay_unit_lost [of "[0xf0, 0x9b, 0x96, 0x01, 0x1f, 0, 0, 0]" sfdp_chip
        "\<lparr>op1_opcode = 0, op2_opcode = 0, num_counters = 0, busy_polling_method = 0, update_rate = 0, polling_delay_read_counter_us = 0,
         polling_short_delay_write_counter_us = 0, polling_long_delay_write_counter_us = 0\<rparr>"]
    by (auto simp: field_def bits_to_counter_delay_def)
qed

end
