(* ===== verification/IchDescriptors.thy ===== *)
theory IchDescriptors
  imports Dummy
begin

text \<open>
  Intel flash descriptors (\<^verbatim>\<open>flashrom/ich_descriptors.c\<close>, \<^verbatim>\<open>include/ich_descriptors.h\<close>): the structures a descriptor is
  made of, reading them from a dump or through the observability registers of the chipset, guessing the chipset, and the
  layout made from the regions (\<^verbatim>\<open>layout_from_ich_descriptors\<close>, \<^verbatim>\<open>flashrom_layout_read_from_ifd\<close>).

  A \<^verbatim>\<open>uint32_t\<close> register is a natural number and a bit-field is its \<open>field\<close>, laid out from bit 0 on, which is the layout
  \<^verbatim>\<open>read_ich_descriptors_via_fdo\<close> tests for. The dump is the list of the bytes in memory, \<open>len\<close> the length the caller passes.
  A read past the end of the dump and a store past the end of an array are undefined and modelled as \<open>None\<close>.
\<close>

section \<open>Data\<close>

datatype ich_chipset =
  CHIPSET_ICH_UNKNOWN
| CHIPSET_ICH
| CHIPSET_ICH2345
| CHIPSET_ICH6
| CHIPSET_POULSBO
| CHIPSET_TUNNEL_CREEK
| CHIPSET_CENTERTON
| CHIPSET_ICH7
| CHIPSET_ICH8
| CHIPSET_ICH9
| CHIPSET_ICH10
| CHIPSET_5_SERIES_IBEX_PEAK
| CHIPSET_6_SERIES_COUGAR_POINT
| CHIPSET_7_SERIES_PANTHER_POINT
| CHIPSET_8_SERIES_LYNX_POINT
| CHIPSET_BAYTRAIL
| CHIPSET_8_SERIES_LYNX_POINT_LP
| CHIPSET_8_SERIES_WELLSBURG
| CHIPSET_9_SERIES_WILDCAT_POINT
| CHIPSET_9_SERIES_WILDCAT_POINT_LP
| CHIPSET_100_SERIES_SUNRISE_POINT
| CHIPSET_C620_SERIES_LEWISBURG
| CHIPSET_C740_SERIES_EMMITSBURG
| CHIPSET_300_SERIES_CANNON_POINT
| CHIPSET_400_SERIES_COMET_POINT
| CHIPSET_500_SERIES_TIGER_POINT
| CHIPSET_600_SERIES_ALDER_POINT
| CHIPSET_700_SERIES_RAPTOR_POINT
| CHIPSET_APOLLO_LAKE
| CHIPSET_GEMINI_LAKE
| CHIPSET_JASPER_LAKE
| CHIPSET_ELKHART_LAKE
| CHIPSET_METEOR_LAKE
| CHIPSET_PANTHER_LAKE
| CHIPSET_WILDCAT_LAKE

definition ICH_RET_OK :: int where "ICH_RET_OK = 0"
definition ICH_RET_ERR :: int where "ICH_RET_ERR = -1"
definition ICH_RET_PARAM :: int where "ICH_RET_PARAM = -3"
definition ICH_RET_OOB :: int where "ICH_RET_OOB = -4"

definition DESCRIPTOR_MODE_SIGNATURE :: nat where "DESCRIPTOR_MODE_SIGNATURE = 0x0ff0a55a"
definition UPPER_MAP_OFFSET :: nat where "UPPER_MAP_OFFSET = 4096 - 256 - 4"
definition MAX_NUM_MASTERS :: nat where "MAX_NUM_MASTERS = 6"

record ich_desc_content =
  FLVALSIG :: nat
  FLMAP0 :: nat
  FLMAP1 :: nat
  FLMAP2 :: nat

definition ct_NC :: "ich_desc_content \<Rightarrow> nat" where "ct_NC c = field (FLMAP0 c) 8 2"
definition ct_NR :: "ich_desc_content \<Rightarrow> nat" where "ct_NR c = field (FLMAP0 c) 24 3"
definition ct_NM :: "ich_desc_content \<Rightarrow> nat" where "ct_NM c = field (FLMAP1 c) 8 3"
definition ct_ISL :: "ich_desc_content \<Rightarrow> nat" where "ct_ISL c = field (FLMAP1 c) 24 8"
definition ct_FMSBA :: "ich_desc_content \<Rightarrow> nat" where "ct_FMSBA c = field (FLMAP2 c) 0 8"
definition ct_MSL :: "ich_desc_content \<Rightarrow> nat" where "ct_MSL c = field (FLMAP2 c) 8 8"
definition ct_ICCRIBA :: "ich_desc_content \<Rightarrow> nat" where "ct_ICCRIBA c = field (FLMAP2 c) 16 8"
definition ct_CSSO :: "ich_desc_content \<Rightarrow> nat" where "ct_CSSO c = field (FLMAP2 c) 2 10"
definition ct_CSSL :: "ich_desc_content \<Rightarrow> nat" where "ct_CSSL c = field (FLMAP2 c) 16 8"

record ich_desc_component =
  FLCOMP :: nat
  FLILL :: nat
  FLPB :: nat

record vscc_entry =
  JID :: nat
  VSCC :: nat

record ich_desc_upper_map =
  FLUMAP1 :: nat
  vscc_table :: "vscc_entry list"

definition up_VTL :: "ich_desc_upper_map \<Rightarrow> nat" where "up_VTL u = field (FLUMAP1 u) 8 8"
definition up_MDTBA :: "ich_desc_upper_map \<Rightarrow> nat" where "up_MDTBA u = field (FLUMAP1 u) 24 8"

text \<open>The arrays \<^verbatim>\<open>FLREGs\<close>, \<^verbatim>\<open>FLMSTRs\<close>, \<^verbatim>\<open>STRPs\<close> of the region, master and strap sections are lists.\<close>

record ich_descriptors =
  d_content :: ich_desc_content
  d_component :: ich_desc_component
  d_region :: "nat list"
  d_master :: "nat list"
  d_north :: "nat list"
  d_south :: "nat list"
  d_upper :: ich_desc_upper_map

text \<open>The sizes of the arrays, for the variable the caller declares.\<close>

definition descriptors_sized :: "ich_descriptors \<Rightarrow> bool" where
  "descriptors_sized d \<longleftrightarrow> length (d_region d) = 16 \<and> length (d_master d) = MAX_NUM_MASTERS \<and> length (d_north d) = 1 \<and>
     length (d_south d) = 23 \<and> length (vscc_table (d_upper d)) = 128"

text \<open>\<open>(x << 4) & 0xff0\<close> and \<open>(x >> 12) & 0xff0\<close>: 16 times an eight bit field.\<close>

definition getFCBA :: "ich_desc_content \<Rightarrow> nat" where "getFCBA c = 16 * field (FLMAP0 c) 0 8"
definition getFRBA :: "ich_desc_content \<Rightarrow> nat" where "getFRBA c = 16 * field (FLMAP0 c) 16 8"
definition getFMBA :: "ich_desc_content \<Rightarrow> nat" where "getFMBA c = 16 * field (FLMAP1 c) 0 8"
definition getFISBA :: "ich_desc_content \<Rightarrow> nat" where "getFISBA c = 16 * field (FLMAP1 c) 16 8"
definition getFMSBA :: "ich_desc_content \<Rightarrow> nat" where "getFMSBA c = 16 * field (FLMAP2 c) 0 8"
definition getVTBA :: "ich_desc_upper_map \<Rightarrow> nat" where "getVTBA u = 16 * field (FLUMAP1 u) 0 8"

definition ICH_FREG_BASE :: "nat \<Rightarrow> nat" where "ICH_FREG_BASE flreg = 4096 * field flreg 0 15"
definition ICH_FREG_LIMIT :: "nat \<Rightarrow> nat" where "ICH_FREG_LIMIT flreg = 4096 * field flreg 16 15 + 4095"

section \<open>Numbers of regions and masters\<close>

definition ich_number_of_regions :: "ich_chipset \<Rightarrow> ich_desc_content \<Rightarrow> int" where
  "ich_number_of_regions cs cont =
     (if cs \<in> {CHIPSET_APOLLO_LAKE, CHIPSET_GEMINI_LAKE} then 6
      else if cs \<in> {CHIPSET_C620_SERIES_LEWISBURG, CHIPSET_C740_SERIES_EMMITSBURG, CHIPSET_300_SERIES_CANNON_POINT,
                    CHIPSET_400_SERIES_COMET_POINT, CHIPSET_500_SERIES_TIGER_POINT, CHIPSET_600_SERIES_ALDER_POINT,
                    CHIPSET_700_SERIES_RAPTOR_POINT, CHIPSET_METEOR_LAKE, CHIPSET_PANTHER_LAKE, CHIPSET_WILDCAT_LAKE,
                    CHIPSET_ELKHART_LAKE, CHIPSET_JASPER_LAKE} then 16
      else if cs = CHIPSET_100_SERIES_SUNRISE_POINT then 10
      else if cs \<in> {CHIPSET_9_SERIES_WILDCAT_POINT_LP, CHIPSET_9_SERIES_WILDCAT_POINT, CHIPSET_8_SERIES_LYNX_POINT_LP,
                    CHIPSET_8_SERIES_LYNX_POINT, CHIPSET_8_SERIES_WELLSBURG}
      then (if ct_NR cont \<le> 6 then int (ct_NR cont) + 1 else -1)
      else (if ct_NR cont \<le> 4 then int (ct_NR cont) + 1 else -1))"

definition ich_number_of_masters :: "ich_chipset \<Rightarrow> ich_desc_content \<Rightarrow> int" where
  "ich_number_of_masters cs cont =
     (if cs \<in> {CHIPSET_C620_SERIES_LEWISBURG, CHIPSET_C740_SERIES_EMMITSBURG, CHIPSET_APOLLO_LAKE,
               CHIPSET_600_SERIES_ALDER_POINT, CHIPSET_700_SERIES_RAPTOR_POINT, CHIPSET_METEOR_LAKE, CHIPSET_PANTHER_LAKE,
               CHIPSET_WILDCAT_LAKE, CHIPSET_GEMINI_LAKE, CHIPSET_JASPER_LAKE, CHIPSET_ELKHART_LAKE}
      then (if ct_NM cont \<le> MAX_NUM_MASTERS then int (ct_NM cont) else -1)
      else (if ct_NM cont < MAX_NUM_MASTERS then int (ct_NM cont) + 1 else -1))"

section \<open>Guessing the chipset\<close>

definition guess_ich_chipset_from_content :: "ich_desc_content \<Rightarrow> ich_desc_upper_map \<Rightarrow> ich_chipset" where
  "guess_ich_chipset_from_content content upper =
     (if ct_ICCRIBA content = 0 then
        (if ct_MSL content = 0 \<and> ct_ISL content \<le> 2 then CHIPSET_ICH8
         else if ct_ISL content \<le> 2 then CHIPSET_ICH9
         else if ct_ISL content \<le> 10 then CHIPSET_ICH10
         else if ct_ISL content \<le> 16 then CHIPSET_5_SERIES_IBEX_PEAK
         else if FLMAP2 content = 0 then
           (if ct_ISL content = 19 then CHIPSET_APOLLO_LAKE
            else if ct_ISL content = 23 then CHIPSET_GEMINI_LAKE
            else CHIPSET_GEMINI_LAKE)
         else if ct_ISL content = 0x50 then CHIPSET_C740_SERIES_EMMITSBURG
         else CHIPSET_5_SERIES_IBEX_PEAK)
      else if up_MDTBA upper = 0 then
        (if ct_ICCRIBA content < 0x31 \<and> ct_FMSBA content < 0x30 then
           (if ct_MSL content = 0 \<and> ct_ISL content \<le> 17 then CHIPSET_BAYTRAIL
            else if ct_MSL content \<le> 1 \<and> ct_ISL content \<le> 18 then CHIPSET_6_SERIES_COUGAR_POINT
            else CHIPSET_8_SERIES_LYNX_POINT)
         else if ct_NM content = 6 then CHIPSET_C620_SERIES_LEWISBURG
         else CHIPSET_100_SERIES_SUNRISE_POINT)
      else
        (if ct_ICCRIBA content = 0x34 then CHIPSET_300_SERIES_CANNON_POINT
         else if ct_CSSL content = 0x11 \<and> ct_CSSO content = 0x68 then CHIPSET_500_SERIES_TIGER_POINT
         else if ct_CSSL content = 0x11 \<and> ct_CSSO content = 0x5c then CHIPSET_600_SERIES_ALDER_POINT
         else if ct_CSSL content = 0x14 then CHIPSET_600_SERIES_ALDER_POINT
         else if ct_CSSL content = 0x03 \<and> ct_CSSO content = 0x58 then CHIPSET_ELKHART_LAKE
         else if ct_CSSL content = 0x03 \<and> ct_CSSO content = 0x6c then CHIPSET_JASPER_LAKE
         else if ct_CSSL content = 0x03 \<and> ct_CSSO content = 0x70 then CHIPSET_METEOR_LAKE
         else if ct_CSSL content = 0x03 \<and> ct_CSSO content = 0x60 then CHIPSET_PANTHER_LAKE
         else CHIPSET_500_SERIES_TIGER_POINT))"

text \<open>The check of the read frequency only prints a warning.\<close>

definition guess_ich_chipset :: "ich_desc_content \<Rightarrow> ich_desc_component \<Rightarrow> ich_desc_upper_map \<Rightarrow> ich_chipset" where
  "guess_ich_chipset content component upper = guess_ich_chipset_from_content content upper"

section \<open>Reading a dump\<close>

definition dump_word :: "bytes \<Rightarrow> nat \<Rightarrow> nat option" where
  "dump_word dump i = (if 4 * i + 4 \<le> length dump then Some (le_value (bslice (4 * i) 4 dump)) else None)"

text \<open>\<^verbatim>\<open>for (; i < n; i++) arr[i] = dump[base + i]\<close>\<close>

function load_words :: "bytes \<Rightarrow> nat \<Rightarrow> nat \<Rightarrow> nat \<Rightarrow> nat list \<Rightarrow> nat list option" where
  "load_words dump base n i arr =
     (if i < n then
        Option.bind (dump_word dump (base + i)) (\<lambda>w.
          if i < length arr then load_words dump base n (Suc i) (arr[i := w]) else None)
      else Some arr)"
  by pat_completeness auto
termination by (relation "measure (\<lambda>(dump, base, n, i, arr). n - i)") auto

declare load_words.simps [simp del]

function load_vscc :: "bytes \<Rightarrow> nat \<Rightarrow> nat \<Rightarrow> nat \<Rightarrow> vscc_entry list \<Rightarrow> vscc_entry list option" where
  "load_vscc dump base n i arr =
     (if i < n then
        Option.bind (dump_word dump (base + i * 2 + 0)) (\<lambda>jid.
          Option.bind (dump_word dump (base + i * 2 + 1)) (\<lambda>vscc.
            if i < length arr then load_vscc dump base n (Suc i) (arr[i := \<lparr>JID = jid, VSCC = vscc\<rparr>]) else None))
      else Some arr)"
  by pat_completeness auto
termination by (relation "measure (\<lambda>(dump, base, n, i, arr). n - i)") auto

declare load_vscc.simps [simp del]

text \<open>The parts of \<^verbatim>\<open>read_ich_descriptors_from_dump\<close>, in the order of the code. A result other than \<open>ICH_RET_OK\<close> is returned
  at once, with what has been stored so far.\<close>

definition read_map :: "bytes \<Rightarrow> nat \<Rightarrow> nat \<Rightarrow> ich_descriptors \<Rightarrow> (int \<times> ich_descriptors) option" where
  "read_map dump len off d =
     (if len < (4 + off) * 4 then Some (ICH_RET_OOB, d)
      else
        Option.bind (dump_word dump (0 + off)) (\<lambda>sig.
        Option.bind (dump_word dump (1 + off)) (\<lambda>m0.
        Option.bind (dump_word dump (2 + off)) (\<lambda>m1.
        Option.bind (dump_word dump (3 + off)) (\<lambda>m2.
          Some (ICH_RET_OK, d\<lparr>d_content := \<lparr>FLVALSIG = sig, FLMAP0 = m0, FLMAP1 = m1, FLMAP2 = m2\<rparr>\<rparr>))))))"

definition read_component :: "bytes \<Rightarrow> nat \<Rightarrow> ich_descriptors \<Rightarrow> (int \<times> ich_descriptors) option" where
  "read_component dump len d =
     (let fcba = getFCBA (d_content d)
      in if len < fcba + 3 * 4 then Some (ICH_RET_OOB, d)
         else
           Option.bind (dump_word dump (fcba div 4 + 0)) (\<lambda>comp.
           Option.bind (dump_word dump (fcba div 4 + 1)) (\<lambda>ill.
           Option.bind (dump_word dump (fcba div 4 + 2)) (\<lambda>pb.
             Some (ICH_RET_OK, d\<lparr>d_component := \<lparr>FLCOMP = comp, FLILL = ill, FLPB = pb\<rparr>\<rparr>)))))"

definition read_upper_map :: "bytes \<Rightarrow> nat \<Rightarrow> ich_descriptors \<Rightarrow> (int \<times> ich_descriptors) option" where
  "read_upper_map dump len d =
     Option.bind (dump_word dump (UPPER_MAP_OFFSET div 4 + 0)) (\<lambda>umap.
       let u = (d_upper d)\<lparr>FLUMAP1 := umap\<rparr>
       in if len < getVTBA u + up_VTL u div 2 * 8 then Some (ICH_RET_OOB, d\<lparr>d_upper := u\<rparr>)
          else
            Option.bind (load_vscc dump (getVTBA u div 4) (up_VTL u div 2) 0 (vscc_table u)) (\<lambda>t.
              Some (ICH_RET_OK, d\<lparr>d_upper := u\<lparr>vscc_table := t\<rparr>\<rparr>)))"

definition read_regions :: "bytes \<Rightarrow> nat \<Rightarrow> ich_chipset \<Rightarrow> ich_descriptors \<Rightarrow> (int \<times> ich_descriptors) option" where
  "read_regions dump len cs d =
     (let nr = ich_number_of_regions cs (d_content d)
      in if nr < 0 \<or> len < getFRBA (d_content d) + nat nr * 4 then Some (ICH_RET_OOB, d)
         else Option.bind (load_words dump (getFRBA (d_content d) div 4) (nat nr) 0 (d_region d)) (\<lambda>rs.
           Some (ICH_RET_OK, d\<lparr>d_region := rs\<rparr>)))"

definition read_masters :: "bytes \<Rightarrow> nat \<Rightarrow> ich_chipset \<Rightarrow> ich_descriptors \<Rightarrow> (int \<times> ich_descriptors) option" where
  "read_masters dump len cs d =
     (let nm = ich_number_of_masters cs (d_content d)
      in if nm < 0 \<or> len < getFMBA (d_content d) + nat nm * 4 then Some (ICH_RET_OOB, d)
         else Option.bind (load_words dump (getFMBA (d_content d) div 4) (nat nm) 0 (d_master d)) (\<lambda>ms.
           Some (ICH_RET_OK, d\<lparr>d_master := ms\<rparr>)))"

definition read_north_straps :: "bytes \<Rightarrow> nat \<Rightarrow> ich_descriptors \<Rightarrow> (int \<times> ich_descriptors) option" where
  "read_north_straps dump len d =
     (if len < getFMSBA (d_content d) + ct_MSL (d_content d) * 4 then Some (ICH_RET_OOB, d)
      else Option.bind
        (load_words dump (getFMSBA (d_content d) div 4) (min (length (d_north d)) (ct_MSL (d_content d))) 0 (d_north d)) (\<lambda>ss.
           Some (ICH_RET_OK, d\<lparr>d_north := ss\<rparr>)))"

definition read_south_straps :: "bytes \<Rightarrow> nat \<Rightarrow> ich_descriptors \<Rightarrow> (int \<times> ich_descriptors) option" where
  "read_south_straps dump len d =
     (if len < getFISBA (d_content d) + ct_ISL (d_content d) * 4 then Some (ICH_RET_OOB, d)
      else Option.bind
        (load_words dump (getFISBA (d_content d) div 4) (min (length (d_south d)) (ct_ISL (d_content d))) 0 (d_south d)) (\<lambda>ss.
           Some (ICH_RET_OK, d\<lparr>d_south := ss\<rparr>)))"

definition and_then :: "(int \<times> 'd) option \<Rightarrow> ('d \<Rightarrow> (int \<times> 'd) option) \<Rightarrow> (int \<times> 'd) option" where
  "and_then m k = Option.bind m (\<lambda>(r, d). if r \<noteq> ICH_RET_OK then Some (r, d) else k d)"

definition read_sections :: "bytes \<Rightarrow> nat \<Rightarrow> ich_chipset \<Rightarrow> ich_descriptors \<Rightarrow> (int \<times> ich_descriptors) option" where
  "read_sections dump len cs d =
     and_then (read_regions dump len cs d) (\<lambda>d1.
     and_then (read_masters dump len cs d1) (\<lambda>d2.
     and_then (read_north_straps dump len d2) (\<lambda>d3.
       read_south_straps dump len d3)))"

text \<open>The dump may be a null pointer. The chipset is guessed when the caller does not know it.\<close>

definition read_ich_descriptors_from_dump ::
    "bytes option \<Rightarrow> nat \<Rightarrow> ich_chipset \<Rightarrow> ich_descriptors \<Rightarrow> (int \<times> ich_chipset \<times> ich_descriptors) option" where
  "read_ich_descriptors_from_dump dumpo len cs d =
     (case dumpo of
        None \<Rightarrow> Some (ICH_RET_PARAM, cs, d)
      | Some dump \<Rightarrow>
          Option.bind (dump_word dump 0) (\<lambda>w0.
          Option.bind (if w0 \<noteq> DESCRIPTOR_MODE_SIGNATURE
                       then Option.bind (dump_word dump 4) (\<lambda>w4.
                         Some (if w4 = DESCRIPTOR_MODE_SIGNATURE then Some 4 else None))
                       else Some (Some 0)) (\<lambda>offo.
            case offo of
              None \<Rightarrow> Some (ICH_RET_ERR, cs, d)
            | Some pch_bug_offset \<Rightarrow>
                Option.bind
                  (and_then (read_map dump len pch_bug_offset d) (\<lambda>d1.
                   and_then (read_component dump len d1) (\<lambda>d2.
                     read_upper_map dump len d2))) (\<lambda>(r, d3).
                  if r \<noteq> ICH_RET_OK then Some (r, cs, d3)
                  else
                    let cs' = (if cs = CHIPSET_ICH_UNKNOWN then guess_ich_chipset (d_content d3) (d_component d3) (d_upper d3) else cs)
                    in map_option (\<lambda>(r', d4). (r', cs', d4)) (read_sections dump len cs' d3)))))"

section \<open>Component density\<close>

definition getFCBA_component_density :: "ich_chipset \<Rightarrow> ich_descriptors \<Rightarrow> nat \<Rightarrow> int" where
  "getFCBA_component_density cs d idx =
     (if idx > 1 then -1
      else if ct_NC (d_content d) = 0 \<and> idx > 0 then 0
      else
        let result = (\<lambda>size_enc size_max. if size_enc > size_max then -1 else 2 ^ (19 + size_enc))
        in if cs \<in> {CHIPSET_ICH8, CHIPSET_ICH9, CHIPSET_ICH10, CHIPSET_5_SERIES_IBEX_PEAK, CHIPSET_6_SERIES_COUGAR_POINT,
                    CHIPSET_7_SERIES_PANTHER_POINT, CHIPSET_BAYTRAIL}
           then result (if idx = 0 then field (FLCOMP (d_component d)) 0 3 else field (FLCOMP (d_component d)) 3 3) 5
           else if cs \<in> {CHIPSET_8_SERIES_LYNX_POINT, CHIPSET_8_SERIES_LYNX_POINT_LP, CHIPSET_8_SERIES_WELLSBURG,
                    CHIPSET_9_SERIES_WILDCAT_POINT, CHIPSET_9_SERIES_WILDCAT_POINT_LP, CHIPSET_100_SERIES_SUNRISE_POINT,
                    CHIPSET_C620_SERIES_LEWISBURG, CHIPSET_C740_SERIES_EMMITSBURG, CHIPSET_300_SERIES_CANNON_POINT,
                    CHIPSET_400_SERIES_COMET_POINT, CHIPSET_500_SERIES_TIGER_POINT, CHIPSET_600_SERIES_ALDER_POINT,
                    CHIPSET_700_SERIES_RAPTOR_POINT, CHIPSET_METEOR_LAKE, CHIPSET_PANTHER_LAKE, CHIPSET_WILDCAT_LAKE,
                    CHIPSET_APOLLO_LAKE, CHIPSET_GEMINI_LAKE, CHIPSET_JASPER_LAKE, CHIPSET_ELKHART_LAKE}
           then result (if idx = 0 then field (FLCOMP (d_component d)) 0 4 else field (FLCOMP (d_component d)) 4 4) 7
           else -1)"

section \<open>Reading through the observability registers\<close>

text \<open>The register window of the controller is hardware: writing a register and reading one are parameters.\<close>

record 's mmio =
  mmio_le_writel :: "nat \<Rightarrow> nat \<Rightarrow> 's \<Rightarrow> 's"
  mmio_le_readl :: "nat \<Rightarrow> 's \<Rightarrow> nat \<times> 's"

definition ICH9_REG_FDOC :: nat where "ICH9_REG_FDOC = 0xB0"
definition PCH100_REG_FDOC :: nat where "PCH100_REG_FDOC = 0xB4"
definition ICH9_REG_FDOD :: nat where "ICH9_REG_FDOD = 0xB4"
definition PCH100_REG_FDOD :: nat where "PCH100_REG_FDOD = 0xB8"

text \<open>\<^verbatim>\<open>(section << FDOC_FDSS_OFF) & FDOC_FDSS\<close> and \<^verbatim>\<open>(offset << FDOC_FDSI_OFF) & FDOC_FDSI\<close> have no bit in common.\<close>

definition fdoc_control :: "nat \<Rightarrow> nat \<Rightarrow> nat" where
  "fdoc_control sect offset = (sect mod 4) * 2 ^ 12 + (offset mod 64) * 2 ^ 2"

text \<open>The offsets of the control and the data register, by chipset.\<close>

definition fdo_registers :: "ich_chipset \<Rightarrow> nat \<times> nat" where
  "fdo_registers cs =
     (if cs \<in> {CHIPSET_100_SERIES_SUNRISE_POINT, CHIPSET_C620_SERIES_LEWISBURG, CHIPSET_C740_SERIES_EMMITSBURG,
               CHIPSET_300_SERIES_CANNON_POINT, CHIPSET_400_SERIES_COMET_POINT, CHIPSET_500_SERIES_TIGER_POINT,
               CHIPSET_600_SERIES_ALDER_POINT, CHIPSET_700_SERIES_RAPTOR_POINT, CHIPSET_METEOR_LAKE,
               CHIPSET_PANTHER_LAKE, CHIPSET_WILDCAT_LAKE, CHIPSET_APOLLO_LAKE, CHIPSET_GEMINI_LAKE,
               CHIPSET_JASPER_LAKE, CHIPSET_ELKHART_LAKE}
      then (PCH100_REG_FDOC, PCH100_REG_FDOD)
      else (ICH9_REG_FDOC, ICH9_REG_FDOD))"

definition read_descriptor_reg :: "'s mmio \<Rightarrow> ich_chipset \<Rightarrow> nat \<Rightarrow> nat \<Rightarrow> 's \<Rightarrow> nat \<times> 's" where
  "read_descriptor_reg mm cs sect offset s =
     (case fdo_registers cs of
        (woffset, roffset) \<Rightarrow> mmio_le_readl mm roffset (mmio_le_writel mm (fdoc_control sect offset) woffset s))"

text \<open>\<^verbatim>\<open>for (; i < n; i++) arr[i] = read_descriptor_reg(cs, sect, i, spibar)\<close>\<close>

function load_regs :: "'s mmio \<Rightarrow> ich_chipset \<Rightarrow> nat \<Rightarrow> nat \<Rightarrow> nat \<Rightarrow> nat list \<Rightarrow> 's \<Rightarrow> (nat list \<times> 's) option" where
  "load_regs mm cs sect n i arr s =
     (if i < n then
        (case read_descriptor_reg mm cs sect i s of
           (w, s') \<Rightarrow> if i < length arr then load_regs mm cs sect n (Suc i) (arr[i := w]) s' else None)
      else Some (arr, s))"
  by pat_completeness auto
termination by (relation "measure (\<lambda>(mm, cs, sect, n, i, arr, s). n - i)") auto

declare load_regs.simps [simp del]

text \<open>The test of the bit-field layout, with \<open>base\<close> in bits 0 to 12 and \<open>limit\<close> in bits 16 to 28.\<close>

definition bit_field_pattern :: "nat list" where
  "bit_field_pattern = map (\<lambda>i. 0x5A * 2 ^ (i * 8)) [0..<4]"

definition bit_fields_ok :: "nat list \<Rightarrow> bool" where
  "bit_fields_ok r \<longleftrightarrow>
     \<not> (field (r ! 0) 0 13 \<noteq> 0x005A \<or> field (r ! 0) 16 13 \<noteq> 0x0000 \<or>
        field (r ! 1) 0 13 \<noteq> 0x1A00 \<or> field (r ! 1) 16 13 \<noteq> 0x0000 \<or>
        field (r ! 2) 0 13 \<noteq> 0x0000 \<or> field (r ! 2) 16 13 \<noteq> 0x005A \<or>
        field (r ! 3) 0 13 \<noteq> 0x0000 \<or> field (r ! 3) 16 13 \<noteq> 0x1A00)"

definition read_ich_descriptors_via_fdo ::
    "'s mmio \<Rightarrow> ich_chipset \<Rightarrow> ich_descriptors \<Rightarrow> 's \<Rightarrow> (int \<times> ich_descriptors \<times> 's) option" where
  "read_ich_descriptors_via_fdo mm cs d s =
     (if length (d_region d) < 4 then None
      else
        let d0 = d\<lparr>d_region := bit_field_pattern @ drop 4 (d_region d)\<rparr>
        in if \<not> bit_fields_ok (d_region d0) then Some (ICH_RET_ERR, d0, s)
           else
             let (sig, s1) = read_descriptor_reg mm cs 0 0 s;
                 (m0, s2) = read_descriptor_reg mm cs 0 1 s1;
                 (m1, s3) = read_descriptor_reg mm cs 0 2 s2;
                 (m2, s4) = read_descriptor_reg mm cs 0 3 s3;
                 (comp, s5) = read_descriptor_reg mm cs 1 0 s4;
                 (ill, s6) = read_descriptor_reg mm cs 1 1 s5;
                 (pb, s7) = read_descriptor_reg mm cs 1 2 s6;
                 d1 = d0\<lparr>d_content := \<lparr>FLVALSIG = sig, FLMAP0 = m0, FLMAP1 = m1, FLMAP2 = m2\<rparr>,
                         d_component := \<lparr>FLCOMP = comp, FLILL = ill, FLPB = pb\<rparr>\<rparr>;
                 nr = ich_number_of_regions cs (d_content d1)
             in if nr < 0 then Some (ICH_RET_ERR, d1, s7)
                else Option.bind (load_regs mm cs 2 (nat nr) 0 (d_region d1) s7) (\<lambda>(rs, s8).
                  let d2 = d1\<lparr>d_region := rs\<rparr>;
                      nm = ich_number_of_masters cs (d_content d2)
                  in if nm < 0 then Some (ICH_RET_ERR, d2, s8)
                     else map_option (\<lambda>(ms, s9). (ICH_RET_OK, d2\<lparr>d_master := ms\<rparr>, s9))
                            (load_regs mm cs 3 (nat nm) 0 (d_master d2) s8)))"

section \<open>Layouts from descriptors\<close>

definition ich_region_names :: "string list" where
  "ich_region_names = [''fd'', ''bios'', ''me'', ''gbe'', ''pd'', ''reg5'', ''bios2'', ''reg7'', ''ec'', ''reg9'', ''ie'',
     ''10gbe'', ''reg12'', ''reg13'', ''reg14'', ''reg15'']"

text \<open>The loop over the regions; \<open>alloc\<close> tells whether a list node can be allocated. An unset pointer is \<open>None\<close>.\<close>

function add_ich_regions :: "bool \<Rightarrow> nat list \<Rightarrow> nat \<Rightarrow> nat \<Rightarrow> layout \<Rightarrow> int \<times> layout option" where
  "add_ich_regions alloc flregs nr i l =
     (if i < nr then
        let base = ICH_FREG_BASE (flregs ! i); limit = ICH_FREG_LIMIT (flregs ! i)
        in if limit \<le> base then add_ich_regions alloc flregs nr (Suc i) l
           else case flashrom_layout_add_region alloc l base limit (ich_region_names ! i) of
                  (r, l') \<Rightarrow> if r \<noteq> 0 then (2, None) else add_ich_regions alloc flregs nr (Suc i) l'
      else (0, Some l))"
  by pat_completeness auto
termination by (relation "measure (\<lambda>(alloc, flregs, nr, i, l). nr - i)") auto

declare add_ich_regions.simps [simp del]

text \<open>The local variable \<^verbatim>\<open>desc\<close> is not initialised: its content is the argument \<open>d0\<close>.\<close>

definition layout_from_ich_descriptors ::
    "ich_descriptors \<Rightarrow> bool \<Rightarrow> bool \<Rightarrow> bytes option \<Rightarrow> nat \<Rightarrow> (int \<times> layout option) option" where
  "layout_from_ich_descriptors d0 new_ok alloc dumpo len =
     Option.bind (read_ich_descriptors_from_dump dumpo len CHIPSET_ICH_UNKNOWN d0) (\<lambda>(ret, cs, d).
       if ret \<noteq> 0 then Some (1, None)
       else case flashrom_layout_new new_ok of
              (r, None) \<Rightarrow> Some (2, None)
            | (r, Some l) \<Rightarrow>
                if r \<noteq> 0 then Some (2, None)
                else
                  let nr = min (ich_number_of_regions cs (d_content d)) (int (length ich_region_names))
                  in Some (add_ich_regions alloc (d_region d) (nat nr) 0 l))"

definition compare_region_with_dump :: "romentry \<Rightarrow> romentry \<Rightarrow> int" where
  "compare_region_with_dump a b =
     (if fr_start (re_region a) \<noteq> fr_start (re_region b) \<or> fr_end (re_region a) \<noteq> fr_end (re_region b) \<or>
         fr_name (re_region a) \<noteq> fr_name (re_region b) then 1 else 0)"

text \<open>The loop over both layouts from their heads: the entries left when it ends, and whether it stopped at a mismatch.\<close>

fun layout_compare_loop :: "layout \<Rightarrow> layout \<Rightarrow> int" where
  "layout_compare_loop (e1 # l1) (e2 # l2) = (if compare_region_with_dump e1 e2 \<noteq> 0 then 1 else layout_compare_loop l1 l2)"
| "layout_compare_loop [] [] = 0"
| "layout_compare_loop _ _ = 1"

definition flashrom_layout_compare :: "layout option \<Rightarrow> layout option \<Rightarrow> int" where
  "flashrom_layout_compare layout1 layout2 =
     (case (layout1, layout2) of (Some l1, Some l2) \<Rightarrow> layout_compare_loop l1 l2 | _ \<Rightarrow> 1)"

text \<open>The loop of \<^verbatim>\<open>flashrom_layout_read_from_ifd\<close> gives the entries at which it stops.\<close>

fun ifd_match_loop :: "layout \<Rightarrow> layout \<Rightarrow> layout \<times> layout" where
  "ifd_match_loop (e1 # l1) (e2 # l2) =
     (if compare_region_with_dump e1 e2 = 0 then ifd_match_loop l1 l2 else (e1 # l1, e2 # l2))"
| "ifd_match_loop l1 l2 = (l1, l2)"

text \<open>On a little-endian machine. The layout is given out only with the result 0; \<open>None\<close> stands for a pointer left as it was.\<close>

definition flashrom_layout_read_from_ifd ::
    "'s flashctx \<Rightarrow> 's access \<Rightarrow> 's restore_fns \<Rightarrow> ich_descriptors \<Rightarrow> bool \<Rightarrow> bool \<Rightarrow> bytes option \<Rightarrow> nat \<Rightarrow> 's \<Rightarrow>
      (int \<times> layout option \<times> 's) option" where
  "flashrom_layout_read_from_ifd c a fns0 d0 new_ok alloc dumpo len s =
     Option.bind (prepare_flash_access c a True False False False fns0 s) (\<lambda>(p, fns, s1).
       let fin = (\<lambda>ret out s'. map_option (\<lambda>s''. (ret, out, s'')) (finalize_flash_access a fns s'))
       in if p \<noteq> 0 then Some (1, None, s1)
          else if \<not> c_malloc c 4096 then None
          else Option.bind (read_flash c (fresh_buf c 4096) 0 0 4096 s1) (\<lambda>(r, desc, s2).
            if r \<noteq> 0 then fin 2 None s2
            else Option.bind (layout_from_ich_descriptors d0 new_ok alloc (Some desc) 4096) (\<lambda>(r3, chip_layout).
              if r3 \<noteq> 0 then fin 3 None s2
              else case dumpo of
                     None \<Rightarrow> fin 0 chip_layout s2
                   | Some dump \<Rightarrow>
                       Option.bind (layout_from_ich_descriptors d0 new_ok alloc (Some dump) len) (\<lambda>(r4, dump_layout).
                         if r4 \<noteq> 0 then fin 4 None s2
                         else case (chip_layout, dump_layout) of
                                (Some l1, Some l2) \<Rightarrow>
                                  (case ifd_match_loop l1 l2 of
                                     ([], []) \<Rightarrow> fin 0 chip_layout s2
                                   | _ \<Rightarrow> fin 5 None s2)
                              | _ \<Rightarrow> None))))"

end
