(* ===== verification/IchOk.thy ===== *)
theory IchOk
  imports IchDescriptors FmapOk
begin

text \<open>
  Correctness of the Intel descriptor code: from a dump that holds the upper map every access is in bounds, the layout has
  exactly the used regions, an encoded descriptor is read back, the two ways to read a descriptor agree, and the
  chip and dump layouts are compared faithfully.
\<close>

section \<open>Loading tables\<close>

definition dword_at :: "bytes \<Rightarrow> nat \<Rightarrow> nat" where
  "dword_at dump i = le_value (bslice (4 * i) 4 dump)"

lemma dump_word_ok: "4 * i + 4 \<le> length dump \<Longrightarrow> dump_word dump i = Some (dword_at dump i)"
  by (simp add: dump_word_def dword_at_def)

lemma load_words_ok:
  assumes "4 * (base + n) \<le> length dump" and "n \<le> length arr" and "i \<le> n"
  shows "load_words dump base n i arr = Some (take i arr @ map (\<lambda>k. dword_at dump (base + k)) [i..<n] @ drop n arr)"
  using assms(2,3)
proof (induction "n - i" arbitrary: i arr)
  case 0
  then show ?case by (subst load_words.simps) simp
next
  case (Suc k)
  then have i: "i < n" "i < length arr" by simp_all
  have "dump_word dump (base + i) = Some (dword_at dump (base + i))" using assms(1) i by (intro dump_word_ok) simp
  with i have "load_words dump base n i arr = load_words dump base n (Suc i) (arr[i := dword_at dump (base + i)])"
    by (subst load_words.simps) simp
  with Suc i show ?case by (simp add: take_Suc_conv_app_nth upt_conv_Cons)
qed

definition vscc_at :: "bytes \<Rightarrow> nat \<Rightarrow> nat \<Rightarrow> vscc_entry" where
  "vscc_at dump base k = \<lparr>JID = dword_at dump (base + k * 2), VSCC = dword_at dump (base + k * 2 + 1)\<rparr>"

lemma load_vscc_ok:
  assumes "4 * (base + 2 * n) \<le> length dump" and "n \<le> length arr" and "i \<le> n"
  shows "load_vscc dump base n i arr = Some (take i arr @ map (vscc_at dump base) [i..<n] @ drop n arr)"
  using assms(2,3)
proof (induction "n - i" arbitrary: i arr)
  case 0
  then show ?case by (subst load_vscc.simps) simp
next
  case (Suc k)
  then have i: "i < n" "i < length arr" by simp_all
  have "dump_word dump (base + i * 2 + j) = Some (dword_at dump (base + i * 2 + j))" if "j \<le> 1" for j
    using assms(1) i that by (intro dump_word_ok) simp
  from this [of 0] this [of 1] i
  have "load_vscc dump base n i arr = load_vscc dump base n (Suc i) (arr[i := vscc_at dump base i])"
    by (subst load_vscc.simps) (simp add: vscc_at_def)
  with Suc i show ?case by (simp add: take_Suc_conv_app_nth upt_conv_Cons)
qed

lemma number_of_regions_range: "-1 \<le> ich_number_of_regions cs cont" "ich_number_of_regions cs cont \<le> 16"
  unfolding ich_number_of_regions_def by (simp_all split: if_split)

lemma number_of_masters_range: "-1 \<le> ich_number_of_masters cs cont" "ich_number_of_masters cs cont \<le> 6"
  unfolding ich_number_of_masters_def MAX_NUM_MASTERS_def by (simp_all split: if_split)

section \<open>The sections of a dump\<close>

lemmas ret_simps = ICH_RET_OK_def ICH_RET_ERR_def ICH_RET_PARAM_def ICH_RET_OOB_def

text \<open>What the steps give when no access is out of bounds.\<close>

lemma read_map_eq:
  assumes "len \<le> length dump"
  shows "read_map dump len off d =
    (if len < (4 + off) * 4 then Some (ICH_RET_OOB, d)
     else Some (ICH_RET_OK, d\<lparr>d_content := \<lparr>FLVALSIG = dword_at dump off, FLMAP0 = dword_at dump (off + 1),
                                            FLMAP1 = dword_at dump (off + 2), FLMAP2 = dword_at dump (off + 3)\<rparr>\<rparr>))"
  using assms by (simp add: read_map_def dump_word_ok add.commute)

lemma read_component_eq:
  assumes "len \<le> length dump"
  shows "read_component dump len d =
    (let b = getFCBA (d_content d)
     in if len < b + 12 then Some (ICH_RET_OOB, d)
        else Some (ICH_RET_OK, d\<lparr>d_component := \<lparr>FLCOMP = dword_at dump (b div 4), FLILL = dword_at dump (b div 4 + 1),
                                                FLPB = dword_at dump (b div 4 + 2)\<rparr>\<rparr>))"
proof -
  have "getFCBA (d_content d) div 4 * 4 = getFCBA (d_content d)" by (simp add: getFCBA_def)
  with assms show ?thesis by (simp add: read_component_def dump_word_ok Let_def)
qed

lemma read_upper_map_eq:
  assumes "len \<le> length dump" and "3840 \<le> len" and "descriptors_sized d"
  shows "read_upper_map dump len d =
    (let u = (d_upper d)\<lparr>FLUMAP1 := dword_at dump 959\<rparr>; n = up_VTL u div 2
     in if len < getVTBA u + n * 8 then Some (ICH_RET_OOB, d\<lparr>d_upper := u\<rparr>)
        else Some (ICH_RET_OK, d\<lparr>d_upper := u\<lparr>vscc_table := map (vscc_at dump (getVTBA u div 4)) [0..<n] @ drop n (vscc_table u)\<rparr>\<rparr>))"
proof -
  define u where "u = (d_upper d)\<lparr>FLUMAP1 := dword_at dump 959\<rparr>"
  have w: "dump_word dump (UPPER_MAP_OFFSET div 4 + 0) = Some (dword_at dump 959)"
    using assms by (simp add: UPPER_MAP_OFFSET_def dump_word_ok)
  have n: "up_VTL u div 2 \<le> length (vscc_table u)"
    using field_bound [of "FLUMAP1 u" 8 8] assms(3) by (simp add: up_VTL_def descriptors_sized_def u_def)
  have "load_vscc dump (getVTBA u div 4) (up_VTL u div 2) 0 (vscc_table u) =
      Some (map (vscc_at dump (getVTBA u div 4)) [0..<up_VTL u div 2] @ drop (up_VTL u div 2) (vscc_table u))"
    if "\<not> len < getVTBA u + up_VTL u div 2 * 8"
    using that assms(1) load_vscc_ok [of "getVTBA u div 4" "up_VTL u div 2" dump "vscc_table u" 0] n by (simp add: getVTBA_def)
  then show ?thesis unfolding read_upper_map_def w by (simp add: Let_def flip: u_def)
qed

text \<open>The tables of words share one shape: \<open>n\<close> words from byte \<open>16 * b\<close> on.\<close>

lemma load_table:
  assumes "16 * b + n * 4 \<le> length dump" and "n \<le> length arr"
  shows "load_words dump (4 * b) n 0 arr = Some (map (\<lambda>k. dword_at dump (4 * b + k)) [0..<n] @ drop n arr)"
  using load_words_ok [of "4 * b" n dump arr 0] assms by simp

lemma read_regions_eq:
  assumes "len \<le> length dump" and "descriptors_sized d"
  shows "read_regions dump len cs d =
    (let nr = ich_number_of_regions cs (d_content d); b = getFRBA (d_content d)
     in if nr < 0 \<or> len < b + nat nr * 4 then Some (ICH_RET_OOB, d)
        else Some (ICH_RET_OK, d\<lparr>d_region := map (\<lambda>k. dword_at dump (b div 4 + k)) [0..<nat nr] @ drop (nat nr) (d_region d)\<rparr>))"
proof -
  have "nat (ich_number_of_regions cs (d_content d)) \<le> length (d_region d)"
    using number_of_regions_range(2) [of cs "d_content d"] assms(2) by (simp add: descriptors_sized_def)
  with assms(1) show ?thesis
    unfolding read_regions_def getFRBA_def Let_def by (simp add: load_table not_less)
qed

lemma read_masters_eq:
  assumes "len \<le> length dump" and "descriptors_sized d"
  shows "read_masters dump len cs d =
    (let nm = ich_number_of_masters cs (d_content d); b = getFMBA (d_content d)
     in if nm < 0 \<or> len < b + nat nm * 4 then Some (ICH_RET_OOB, d)
        else Some (ICH_RET_OK, d\<lparr>d_master := map (\<lambda>k. dword_at dump (b div 4 + k)) [0..<nat nm] @ drop (nat nm) (d_master d)\<rparr>))"
proof -
  have "nat (ich_number_of_masters cs (d_content d)) \<le> length (d_master d)"
    using number_of_masters_range(2) [of cs "d_content d"] assms(2) by (simp add: descriptors_sized_def MAX_NUM_MASTERS_def)
  with assms(1) show ?thesis
    unfolding read_masters_def getFMBA_def Let_def by (simp add: load_table not_less)
qed

lemma read_straps_eq:
  assumes "len \<le> length dump"
  shows "read_north_straps dump len d =
    (let b = getFMSBA (d_content d); n = min (length (d_north d)) (ct_MSL (d_content d))
     in if len < b + ct_MSL (d_content d) * 4 then Some (ICH_RET_OOB, d)
        else Some (ICH_RET_OK, d\<lparr>d_north := map (\<lambda>k. dword_at dump (b div 4 + k)) [0..<n] @ drop n (d_north d)\<rparr>))" (is ?n)
    "read_south_straps dump len d =
    (let b = getFISBA (d_content d); n = min (length (d_south d)) (ct_ISL (d_content d))
     in if len < b + ct_ISL (d_content d) * 4 then Some (ICH_RET_OOB, d)
        else Some (ICH_RET_OK, d\<lparr>d_south := map (\<lambda>k. dword_at dump (b div 4 + k)) [0..<n] @ drop n (d_south d)\<rparr>))" (is ?s)
proof -
  have fit: "16 * b + min l m * 4 \<le> length dump" if "\<not> len < 16 * b + m * 4" for b l m
    using that assms by linarith
  show ?n ?s
    unfolding read_north_straps_def read_south_straps_def getFMSBA_def getFISBA_def Let_def
    by (simp_all add: load_table fit)
qed

text \<open>What a step promises: it returns, with a result code of the interface, and keeps the array sizes.\<close>

definition section_ok :: "(int \<times> ich_descriptors) option \<Rightarrow> bool" where
  "section_ok m \<longleftrightarrow> (\<exists>r d. m = Some (r, d) \<and> (r = ICH_RET_OK \<or> r = ICH_RET_OOB) \<and> descriptors_sized d)"

lemma section_ok_Some [simp]: "section_ok (Some (r, d)) \<longleftrightarrow> (r = ICH_RET_OK \<or> r = ICH_RET_OOB) \<and> descriptors_sized d"
  by (simp add: section_ok_def)

lemma section_ok_and_then:
  assumes "section_ok m" and "\<And>d. descriptors_sized d \<Longrightarrow> section_ok (k d)"
  shows "section_ok (and_then m k)"
  using assms unfolding section_ok_def and_then_def by (auto simp: ret_simps split: if_splits)

lemma sections_ok:
  assumes "len \<le> length dump" and "descriptors_sized d"
  shows "section_ok (read_map dump len off d)" "section_ok (read_component dump len d)"
    "3840 \<le> len \<Longrightarrow> section_ok (read_upper_map dump len d)" "section_ok (read_regions dump len cs d)"
    "section_ok (read_masters dump len cs d)" "section_ok (read_north_straps dump len d)" "section_ok (read_south_straps dump len d)"
  using number_of_regions_range(2) [of cs "d_content d"] number_of_masters_range(2) [of cs "d_content d"]
    field_bound [of "dword_at dump 959" 8 8] assms
  by (simp_all add: read_map_eq read_component_eq read_upper_map_eq read_regions_eq read_masters_eq read_straps_eq Let_def)
    (simp_all add: descriptors_sized_def MAX_NUM_MASTERS_def up_VTL_def)

section \<open>Reading a dump\<close>

text \<open>Where the descriptor starts: the signature is the first word, or the fifth.\<close>

definition descriptor_offset :: "bytes \<Rightarrow> nat option" where
  "descriptor_offset dump =
     (if dword_at dump 0 = DESCRIPTOR_MODE_SIGNATURE then Some 0
      else if dword_at dump 4 = DESCRIPTOR_MODE_SIGNATURE then Some 4 else None)"

lemma read_from_dump_eq:
  assumes "20 \<le> length dump"
  shows "read_ich_descriptors_from_dump (Some dump) len cs d =
    (case descriptor_offset dump of
       None \<Rightarrow> Some (ICH_RET_ERR, cs, d)
     | Some off \<Rightarrow>
         Option.bind (and_then (read_map dump len off d) (\<lambda>d1. and_then (read_component dump len d1) (read_upper_map dump len))) (\<lambda>(r, d3).
           if r \<noteq> ICH_RET_OK then Some (r, cs, d3)
           else let cs' = (if cs = CHIPSET_ICH_UNKNOWN then guess_ich_chipset (d_content d3) (d_component d3) (d_upper d3) else cs)
                in map_option (\<lambda>(r', d4). (r', cs', d4)) (read_sections dump len cs' d3)))"
  using assms by (simp add: read_ich_descriptors_from_dump_def descriptor_offset_def dump_word_ok)

lemma read_from_dump_safe:
  assumes "3840 \<le> len" and "len \<le> length dump" and "descriptors_sized d"
  shows "\<exists>r cs' d'. read_ich_descriptors_from_dump (Some dump) len cs d = Some (r, cs', d') \<and>
    (r = ICH_RET_OK \<or> r = ICH_RET_ERR \<or> r = ICH_RET_OOB) \<and> descriptors_sized d' \<and>
    (r = ICH_RET_ERR \<longleftrightarrow> descriptor_offset dump = None)"
proof (cases "descriptor_offset dump")
  case None
  with assms show ?thesis by (simp add: read_from_dump_eq)
next
  case (Some off)
  note ok = sections_ok [OF assms(2)]
  have "section_ok (and_then (read_map dump len off d) (\<lambda>d1. and_then (read_component dump len d1) (read_upper_map dump len)))"
    by (intro section_ok_and_then ok assms(1,3))
  then obtain r d3 where m: "and_then (read_map dump len off d) (\<lambda>d1. and_then (read_component dump len d1) (read_upper_map dump len)) =
      Some (r, d3)" "r = ICH_RET_OK \<or> r = ICH_RET_OOB" "descriptors_sized d3" by (auto simp: section_ok_def)
  have sec: "section_ok (read_sections dump len cs' d3)" for cs'
    unfolding read_sections_def by (intro section_ok_and_then ok m(3))
  define cs' where "cs' = (if cs = CHIPSET_ICH_UNKNOWN then guess_ich_chipset (d_content d3) (d_component d3) (d_upper d3) else cs)"
  obtain r' d4 where t: "read_sections dump len cs' d3 = Some (r', d4)" "r' = ICH_RET_OK \<or> r' = ICH_RET_OOB" "descriptors_sized d4"
    using sec [of cs'] by (auto simp: section_ok_def)
  have "read_ich_descriptors_from_dump (Some dump) len cs d =
      (if r \<noteq> ICH_RET_OK then Some (r, cs, d3) else Some (r', cs', d4))"
    using assms Some by (simp add: read_from_dump_eq m(1) t(1) flip: cs'_def)
  with m(2,3) t(2,3) Some show ?thesis by (auto simp: ret_simps)
qed

text \<open>C21: reading a dump that holds the upper map (3840 bytes; a descriptor has 4096) never reads outside the dump
  nor writes outside the tables of the descriptor structure, whatever the bytes are and whichever chipset is named: it returns
  success, the error for a missing signature, or the error for a table that does not fit.\<close>

theorem read_ich_descriptors_safe:
  assumes "3840 \<le> len" and "len \<le> length dump" and "descriptors_sized d"
  shows "\<exists>r cs' d'. read_ich_descriptors_from_dump (Some dump) len cs d = Some (r, cs', d') \<and>
    (r = ICH_RET_OK \<or> r = ICH_RET_ERR \<or> r = ICH_RET_OOB) \<and> descriptors_sized d' \<and>
    (r = ICH_RET_ERR \<longleftrightarrow> descriptor_offset dump = None)"
  using assms by (rule read_from_dump_safe)

text \<open>The word of the upper map is read without a look at the length: for a dump that ends before it, with a
  signature and a component section in bounds, \<^verbatim>\<open>read_ich_descriptors_from_dump\<close> reads past the end.\<close>

theorem read_ich_descriptors_short_dump:
  assumes "length dump = len" and "20 \<le> len" and "len < 3840" and "dword_at dump 0 = DESCRIPTOR_MODE_SIGNATURE"
    and "16 * field (dword_at dump 1) 0 8 + 12 \<le> len"
  shows "read_ich_descriptors_from_dump (Some dump) len cs d = None"
proof -
  have "dump_word dump (UPPER_MAP_OFFSET div 4 + 0) = None"
    using assms by (simp add: dump_word_def UPPER_MAP_OFFSET_def)
  then have "read_upper_map dump len d' = None" for d' by (simp add: read_upper_map_def)
  with assms show ?thesis
    by (simp add: read_from_dump_eq descriptor_offset_def read_map_eq read_component_eq and_then_def getFCBA_def Let_def not_less)
qed

section \<open>The layout of a descriptor\<close>

definition ich_region_used :: "nat \<Rightarrow> bool" where
  "ich_region_used flreg \<longleftrightarrow> field flreg 0 15 \<le> field flreg 16 15"

definition ich_entry :: "nat \<Rightarrow> nat \<Rightarrow> romentry" where
  "ich_entry i flreg = \<lparr>re_included = False, re_file = None, re_region = \<lparr>fr_name = ich_region_names ! i,
     fr_start = 4096 * field flreg 0 15, fr_end = 4096 * field flreg 16 15 + 4095, fr_read_prot = False, fr_write_prot = False\<rparr>\<rparr>"

text \<open>The layout lists the used regions with the last one first.\<close>

definition ich_layout :: "nat list \<Rightarrow> layout" where
  "ich_layout flregs = rev (map (\<lambda>i. ich_entry i (flregs ! i)) (filter (\<lambda>i. ich_region_used (flregs ! i)) [0..<length flregs]))"

lemma freg_used: "ICH_FREG_LIMIT w \<le> ICH_FREG_BASE w \<longleftrightarrow> \<not> ich_region_used w"
  unfolding ICH_FREG_LIMIT_def ICH_FREG_BASE_def ich_region_used_def by linarith

lemma freg_bounds: "u32 (ICH_FREG_BASE w) = ICH_FREG_BASE w" "u32 (ICH_FREG_LIMIT w) = ICH_FREG_LIMIT w"
  using field_bound [of w 0 15] field_bound [of w 16 15] by (simp_all add: ICH_FREG_BASE_def ICH_FREG_LIMIT_def c_simps)

lemma add_ich_regions_eq:
  "i \<le> nr \<Longrightarrow> add_ich_regions True flregs nr i l =
     (0, Some (rev (map (\<lambda>k. ich_entry k (flregs ! k)) (filter (\<lambda>k. ich_region_used (flregs ! k)) [i..<nr])) @ l))"
proof (induction "nr - i" arbitrary: i l)
  case 0
  then show ?case by (subst add_ich_regions.simps) simp
next
  case (Suc k)
  then have i: "i < nr" by simp
  have ent: "flashrom_layout_add_region True l (ICH_FREG_BASE (flregs ! i)) (ICH_FREG_LIMIT (flregs ! i)) (ich_region_names ! i) =
      (0, ich_entry i (flregs ! i) # l)"
    by (simp add: flashrom_layout_add_region_def freg_bounds ich_entry_def) (simp add: ICH_FREG_BASE_def ICH_FREG_LIMIT_def)
  show ?case
    using Suc.hyps(1) [of "Suc i"] Suc.hyps(2) i
    by (subst add_ich_regions.simps) (simp add: freg_used ent upt_conv_Cons Let_def)
qed

text \<open>What a successful read has stored.\<close>

lemma and_then_OK: "and_then m k = Some (ICH_RET_OK, d') \<Longrightarrow> \<exists>d. m = Some (ICH_RET_OK, d) \<and> k d = Some (ICH_RET_OK, d')"
  by (auto simp: and_then_def bind_eq_Some_conv split: if_splits)

definition content_at :: "bytes \<Rightarrow> nat \<Rightarrow> ich_desc_content" where
  "content_at dump off = \<lparr>FLVALSIG = dword_at dump off, FLMAP0 = dword_at dump (off + 1), FLMAP1 = dword_at dump (off + 2),
     FLMAP2 = dword_at dump (off + 3)\<rparr>"

definition words_at :: "bytes \<Rightarrow> nat \<Rightarrow> nat \<Rightarrow> nat list" where
  "words_at dump b n = map (\<lambda>k. dword_at dump (b div 4 + k)) [0..<n]"

lemma read_success:
  assumes "3840 \<le> len" and "len \<le> length dump" and sz: "descriptors_sized d"
    and run: "read_ich_descriptors_from_dump (Some dump) len cs d = Some (ICH_RET_OK, cs', d')"
  shows "\<exists>off. descriptor_offset dump = Some off \<and> d_content d' = content_at dump off \<and>
    (cs \<noteq> CHIPSET_ICH_UNKNOWN \<longrightarrow> cs' = cs) \<and>
    (let b = getFCBA (d_content d') div 4
     in d_component d' = \<lparr>FLCOMP = dword_at dump b, FLILL = dword_at dump (b + 1), FLPB = dword_at dump (b + 2)\<rparr>) \<and>
    (let nr = ich_number_of_regions cs' (d_content d')
     in 0 \<le> nr \<and> getFRBA (d_content d') + nat nr * 4 \<le> len \<and>
        d_region d' = words_at dump (getFRBA (d_content d')) (nat nr) @ drop (nat nr) (d_region d)) \<and>
    (let nm = ich_number_of_masters cs' (d_content d')
     in 0 \<le> nm \<and> d_master d' = words_at dump (getFMBA (d_content d')) (nat nm) @ drop (nat nm) (d_master d))"
proof -
  obtain off where off: "descriptor_offset dump = Some off"
    using run assms by (cases "descriptor_offset dump") (auto simp: read_from_dump_eq ret_simps)
  have "\<exists>d3. and_then (read_map dump len off d) (\<lambda>d1. and_then (read_component dump len d1) (read_upper_map dump len)) = Some (ICH_RET_OK, d3) \<and>
      cs' = (if cs = CHIPSET_ICH_UNKNOWN then guess_ich_chipset (d_content d3) (d_component d3) (d_upper d3) else cs) \<and>
      read_sections dump len cs' d3 = Some (ICH_RET_OK, d')"
    using run assms off by (auto simp: read_from_dump_eq bind_eq_Some_conv Let_def split: if_splits)
  then obtain d3 where d3: "and_then (read_map dump len off d) (\<lambda>d1. and_then (read_component dump len d1) (read_upper_map dump len)) =
      Some (ICH_RET_OK, d3)" "cs' = (if cs = CHIPSET_ICH_UNKNOWN then guess_ich_chipset (d_content d3) (d_component d3) (d_upper d3) else cs)"
      "read_sections dump len cs' d3 = Some (ICH_RET_OK, d')" by blast
  from and_then_OK [OF d3(1)] obtain d1 where d1: "read_map dump len off d = Some (ICH_RET_OK, d1)"
    "and_then (read_component dump len d1) (read_upper_map dump len) = Some (ICH_RET_OK, d3)" by blast
  from and_then_OK [OF d1(2)] obtain d2 where d2: "read_component dump len d1 = Some (ICH_RET_OK, d2)"
    "read_upper_map dump len d2 = Some (ICH_RET_OK, d3)" by blast
  from and_then_OK [OF d3(3) [unfolded read_sections_def]] obtain e1 where e1: "read_regions dump len cs' d3 = Some (ICH_RET_OK, e1)"
    "and_then (read_masters dump len cs' e1) (\<lambda>d2. and_then (read_north_straps dump len d2) (read_south_straps dump len)) = Some (ICH_RET_OK, d')"
    by blast
  from and_then_OK [OF e1(2)] obtain e2 where e2: "read_masters dump len cs' e1 = Some (ICH_RET_OK, e2)"
    "and_then (read_north_straps dump len e2) (read_south_straps dump len) = Some (ICH_RET_OK, d')" by blast
  from and_then_OK [OF e2(2)] obtain e3 where e3: "read_north_straps dump len e2 = Some (ICH_RET_OK, e3)"
    "read_south_straps dump len e3 = Some (ICH_RET_OK, d')" by blast
  note ok = sections_ok [OF assms(2)]
  have s1: "descriptors_sized d1" using ok(1) [OF sz, of off] d1(1) by simp
  have s2: "descriptors_sized d2" using ok(2) [OF s1] d2(1) by simp
  have s3: "descriptors_sized d3" using ok(3) [OF s2 assms(1)] d2(2) by simp
  have t1: "descriptors_sized e1" using ok(4) [OF s3, of cs'] e1(1) by simp
  have m: "d_content d1 = content_at dump off" "d_region d1 = d_region d" "d_master d1 = d_master d"
    using d1(1) assms(2) by (auto simp: read_map_eq content_at_def ret_simps split: if_splits)
  have co: "d_content d2 = d_content d1" "d_region d2 = d_region d1" "d_master d2 = d_master d1"
    "d_component d2 = (let b = getFCBA (d_content d1) div 4 in \<lparr>FLCOMP = dword_at dump b, FLILL = dword_at dump (b + 1), FLPB = dword_at dump (b + 2)\<rparr>)"
    using d2(1) assms(2) by (auto simp: read_component_eq ret_simps Let_def split: if_splits)
  have up: "d_content d3 = d_content d2" "d_region d3 = d_region d2" "d_master d3 = d_master d2" "d_component d3 = d_component d2"
    using d2(2) assms(1,2) s2 by (auto simp: read_upper_map_eq ret_simps Let_def split: if_splits)
  have re: "d_content e1 = d_content d3" "d_master e1 = d_master d3" "d_component e1 = d_component d3"
    "let nr = ich_number_of_regions cs' (d_content d3) in 0 \<le> nr \<and> getFRBA (d_content d3) + nat nr * 4 \<le> len \<and>
       d_region e1 = words_at dump (getFRBA (d_content d3)) (nat nr) @ drop (nat nr) (d_region d3)"
    using e1(1) assms(2) s3 by (auto simp: read_regions_eq words_at_def ret_simps Let_def split: if_splits)
  have ma: "d_content e2 = d_content e1" "d_region e2 = d_region e1" "d_component e2 = d_component e1"
    "let nm = ich_number_of_masters cs' (d_content e1) in 0 \<le> nm \<and>
       d_master e2 = words_at dump (getFMBA (d_content e1)) (nat nm) @ drop (nat nm) (d_master e1)"
    using e2(1) assms(2) t1 by (auto simp: read_masters_eq words_at_def ret_simps Let_def split: if_splits)
  have st: "d_content d' = d_content e2" "d_region d' = d_region e2" "d_component d' = d_component e2" "d_master d' = d_master e2"
    using e3 assms(2) by (auto simp: read_straps_eq ret_simps Let_def split: if_splits)
  have "cs \<noteq> CHIPSET_ICH_UNKNOWN \<longrightarrow> cs' = cs" by (simp add: d3(2))
  with off m co up re ma st show ?thesis by (simp add: Let_def)
qed


section \<open>Round trip\<close>

text \<open>A descriptor as a tool for the older chipsets writes it: the maps, the component section at 0x30, the regions at 0x40, the
  masters at 0x60 and two straps at 0x100.\<close>

definition encode_freg :: "nat \<times> nat \<Rightarrow> nat" where
  "encode_freg r = (case r of (base, limit) \<Rightarrow> base + limit * 2 ^ 16)"

definition encode_words :: "nat list \<Rightarrow> bytes" where
  "encode_words ws = concat (map (le_bytes 4) ws)"

definition ifd_words :: "(nat \<times> nat) list \<Rightarrow> nat list" where
  "ifd_words regs = [DESCRIPTOR_MODE_SIGNATURE, 3 + 4 * 2 ^ 16 + (length regs - 1) * 2 ^ 24, 6 + 16 * 2 ^ 16 + 2 * 2 ^ 24, 32] @
     replicate 12 0 @ map encode_freg regs"

definition encode_ifd :: "(nat \<times> nat) list \<Rightarrow> bytes" where
  "encode_ifd regs = encode_words (ifd_words regs @ replicate (1024 - length (ifd_words regs)) 0)"

lemma length_encode_words [simp]: "length (encode_words ws) = 4 * length ws"
  by (induction ws) (simp_all add: encode_words_def)

lemma dword_at_encode: "i < length ws \<Longrightarrow> dword_at (encode_words ws) i = ws ! i mod 2 ^ 32"
proof -
  assume i: "i < length ws"
  then have "encode_words ws = encode_words (take i ws) @ le_bytes 4 (ws ! i) @ encode_words (drop (Suc i) ws)"
    unfolding encode_words_def by (subst id_take_nth_drop [OF i]) simp
  then have "bslice (4 * i) 4 (encode_words ws) = le_bytes 4 (ws ! i)"
    using i by (simp only:) (rule bslice_mid, simp_all)
  then show ?thesis by (simp add: dword_at_def le_value_le_bytes)
qed

lemma freg_fields:
  assumes "fst r < 2 ^ 15" and "snd r < 2 ^ 15"
  shows "field (encode_freg r) 0 15 = fst r" "field (encode_freg r) 16 15 = snd r" "encode_freg r < 2 ^ 32"
proof -
  obtain b l where r: "r = (b, l)" by (cases r)
  have b: "b < 32768" "l < 32768" using assms by (simp_all add: r)
  have "(b + l * 65536) mod 32768 = (b + (2 * l) * 32768) mod 32768" by (simp add: mult.commute)
  also have "\<dots> = b" using b(1) by (subst mod_mult_self1) simp
  finally show "field (encode_freg r) 0 15 = fst r" by (simp add: encode_freg_def field_def r)
  show "field (encode_freg r) 16 15 = snd r" using b by (simp add: encode_freg_def field_def r)
  show "encode_freg r < 2 ^ 32" using b by (simp add: encode_freg_def r)
qed

definition regions_ok :: "(nat \<times> nat) list \<Rightarrow> bool" where
  "regions_ok regs \<longleftrightarrow> 1 \<le> length regs \<and> length regs \<le> 5 \<and> (\<forall>r \<in> set regs. fst r < 2 ^ 15 \<and> snd r < 2 ^ 15)"

lemma encode_ifd_words:
  assumes "regions_ok regs"
  shows "length (encode_ifd regs) = 4096" "dword_at (encode_ifd regs) 0 = DESCRIPTOR_MODE_SIGNATURE"
    "dword_at (encode_ifd regs) 1 = 3 + 4 * 2 ^ 16 + (length regs - 1) * 2 ^ 24"
    "dword_at (encode_ifd regs) 2 = 6 + 16 * 2 ^ 16 + 2 * 2 ^ 24" "dword_at (encode_ifd regs) 3 = 32"
    "k < length regs \<Longrightarrow> dword_at (encode_ifd regs) (16 + k) = encode_freg (regs ! k)"
    "dword_at (encode_ifd regs) 959 = 0"
proof -
  define ws where "ws = ifd_words regs @ replicate (1024 - length (ifd_words regs)) 0"
  have n: "1 \<le> length regs" "length regs \<le> 5" using assms by (simp_all add: regions_ok_def)
  have len: "length (ifd_words regs) = 16 + length regs" by (simp add: ifd_words_def)
  then have lw: "length ws = 1024" using n by (simp add: ws_def)
  then show "length (encode_ifd regs) = 4096" by (simp add: encode_ifd_def flip: ws_def)
  have at: "dword_at (encode_ifd regs) i = ws ! i mod 2 ^ 32" if "i < 1024" for i
    using dword_at_encode [of i ws] lw that by (simp add: encode_ifd_def flip: ws_def)
  have w: "ws ! 0 = DESCRIPTOR_MODE_SIGNATURE" "ws ! 1 = 3 + 4 * 2 ^ 16 + (length regs - 1) * 2 ^ 24"
    "ws ! 2 = 6 + 16 * 2 ^ 16 + 2 * 2 ^ 24" "ws ! 3 = 32" "ws ! 959 = 0"
    using n len by (simp_all add: ws_def nth_append) (simp_all add: ifd_words_def)
  show "dword_at (encode_ifd regs) 0 = DESCRIPTOR_MODE_SIGNATURE"
    "dword_at (encode_ifd regs) 1 = 3 + 4 * 2 ^ 16 + (length regs - 1) * 2 ^ 24"
    "dword_at (encode_ifd regs) 2 = 6 + 16 * 2 ^ 16 + 2 * 2 ^ 24" "dword_at (encode_ifd regs) 3 = 32"
    "dword_at (encode_ifd regs) 959 = 0"
    using n by (subst at; simp only: w; simp add: DESCRIPTOR_MODE_SIGNATURE_def)+
  show "dword_at (encode_ifd regs) (16 + k) = encode_freg (regs ! k)" if k: "k < length regs"
  proof -
    have "ws ! (16 + k) = encode_freg (regs ! k)" using k len by (simp add: ws_def nth_append) (simp add: ifd_words_def nth_append)
    moreover have "encode_freg (regs ! k) < 2 ^ 32" using assms k by (intro freg_fields) (simp_all add: regions_ok_def)
    ultimately show ?thesis using at [of "16 + k"] k n by simp
  qed
qed

lemma encode_ifd_content:
  assumes "regions_ok regs"
  shows "getFCBA (content_at (encode_ifd regs) 0) = 48" "getFRBA (content_at (encode_ifd regs) 0) = 64"
    "getFMBA (content_at (encode_ifd regs) 0) = 96" "getFISBA (content_at (encode_ifd regs) 0) = 256"
    "getFMSBA (content_at (encode_ifd regs) 0) = 512" "ct_NR (content_at (encode_ifd regs) 0) = length regs - 1"
    "ct_NM (content_at (encode_ifd regs) 0) = 0" "ct_ISL (content_at (encode_ifd regs) 0) = 2"
    "ct_MSL (content_at (encode_ifd regs) 0) = 0" "ct_ICCRIBA (content_at (encode_ifd regs) 0) = 0"
proof -
  let ?c = "content_at (encode_ifd regs) 0"
  have m: "FLMAP0 ?c = 262147 + (length regs - 1) * 16777216" "FLMAP1 ?c = 34603014" "FLMAP2 ?c = 32"
    unfolding content_at_def ich_desc_content.select_convs add_0 encode_ifd_words(3-5) [OF assms] by simp_all
  define n where "n = length regs - 1"
  have n: "n < 5" using assms by (auto simp: n_def regions_ok_def)
  have "(262147 + n * 16777216) mod 256 = (3 + (1024 + n * 65536) * 256) mod 256" by (simp add: algebra_simps)
  then have f0: "(262147 + n * 16777216) mod 256 = 3" by (simp only: mod_mult_self1) simp
  have d16: "(262147 + n * 16777216) div 65536 = 4 + n * 256" by simp
  have d24: "(262147 + n * 16777216) div 16777216 = n" by simp
  show "getFCBA ?c = 48" "getFRBA ?c = 64" "getFMBA ?c = 96" "getFISBA ?c = 256" "getFMSBA ?c = 512" "ct_NR ?c = length regs - 1"
    "ct_NM ?c = 0" "ct_ISL ?c = 2" "ct_MSL ?c = 0" "ct_ICCRIBA ?c = 0"
    unfolding getFCBA_def getFRBA_def getFMBA_def getFISBA_def getFMSBA_def ct_NR_def ct_NM_def ct_ISL_def ct_MSL_def ct_ICCRIBA_def
      m field_def n_def [symmetric]
    using n by (simp_all add: f0 d16 d24)
qed

lemma encode_ifd_chipset:
  assumes "regions_ok regs" and "cs \<in> {CHIPSET_ICH8, CHIPSET_ICH9, CHIPSET_ICH10}"
  shows "ich_number_of_regions cs (content_at (encode_ifd regs) 0) = int (length regs)"
    "ich_number_of_masters cs (content_at (encode_ifd regs) 0) = 1"
    "guess_ich_chipset (content_at (encode_ifd regs) 0) co up = CHIPSET_ICH8"
proof -
  have "1 \<le> length regs" "length regs - 1 \<le> 4" using assms(1) by (auto simp: regions_ok_def)
  with assms(2) show "ich_number_of_regions cs (content_at (encode_ifd regs) 0) = int (length regs)"
    "ich_number_of_masters cs (content_at (encode_ifd regs) 0) = 1"
    "guess_ich_chipset (content_at (encode_ifd regs) 0) co up = CHIPSET_ICH8"
    by (auto simp: ich_number_of_regions_def ich_number_of_masters_def guess_ich_chipset_def guess_ich_chipset_from_content_def
        encode_ifd_content [OF assms(1)] MAX_NUM_MASTERS_def)
qed

text \<open>Every section of an encoded descriptor is in bounds, so reading it succeeds.\<close>

lemma read_encoded:
  assumes ok: "regions_ok regs" and sz: "descriptors_sized d"
    and cs: "cs' \<in> {CHIPSET_ICH8, CHIPSET_ICH9, CHIPSET_ICH10}" "cs = cs' \<or> cs = CHIPSET_ICH_UNKNOWN \<and> cs' = CHIPSET_ICH8"
  shows "\<exists>d'. read_ich_descriptors_from_dump (Some (encode_ifd regs)) 4096 cs d = Some (ICH_RET_OK, cs', d') \<and>
    d_content d' = content_at (encode_ifd regs) 0 \<and>
    d_region d' = map encode_freg regs @ drop (length regs) (d_region d)"
proof -
  let ?dump = "encode_ifd regs"
  let ?c = "content_at ?dump 0"
  have len: "4096 \<le> length ?dump" "length ?dump = 4096" using encode_ifd_words(1) [OF ok] by simp_all
  note ct = encode_ifd_content [OF ok] and n = encode_ifd_chipset [OF ok cs(1)]
  note sec = sections_ok [OF len(1)]
  have off: "descriptor_offset ?dump = Some 0" using encode_ifd_words(2) [OF ok] by (simp add: descriptor_offset_def)
  obtain d1 where d1: "read_map ?dump 4096 0 d = Some (ICH_RET_OK, d1)" "d_content d1 = ?c" "d_region d1 = d_region d" "descriptors_sized d1"
    using sec(1) [OF sz, of 0] len by (auto simp: read_map_eq content_at_def descriptors_sized_def)
  obtain d2 where d2: "read_component ?dump 4096 d1 = Some (ICH_RET_OK, d2)" "d_content d2 = ?c" "d_region d2 = d_region d" "descriptors_sized d2"
    using sec(2) [OF d1(4)] d1 len by (auto simp: read_component_eq ct Let_def)
  obtain d3 where d3: "read_upper_map ?dump 4096 d2 = Some (ICH_RET_OK, d3)" "d_content d3 = ?c" "d_region d3 = d_region d" "descriptors_sized d3"
    using sec(3) [OF d2(4)] d2 len by (auto simp: read_upper_map_eq encode_ifd_words(7) [OF ok] up_VTL_def getVTBA_def field_def Let_def)
  have regs: "map (\<lambda>k. dword_at ?dump (64 div 4 + k)) [0..<length regs] = map encode_freg regs"
    using encode_ifd_words(6) [OF ok] by (intro nth_equalityI) simp_all
  have l: "length regs \<le> 5" using ok by (simp add: regions_ok_def)
  obtain e1 where e1: "read_regions ?dump 4096 cs' d3 = Some (ICH_RET_OK, e1)" "d_content e1 = ?c"
    "d_region e1 = map encode_freg regs @ drop (length regs) (d_region d)" "descriptors_sized e1"
    using sec(4) [OF d3(4), of cs'] d3 len l regs by (auto simp: read_regions_eq n ct Let_def)
  obtain e2 where e2: "read_masters ?dump 4096 cs' e1 = Some (ICH_RET_OK, e2)" "d_content e2 = ?c" "d_region e2 = d_region e1" "descriptors_sized e2"
    using sec(5) [OF e1(4), of cs'] e1 len by (auto simp: read_masters_eq n ct Let_def)
  obtain e3 where e3: "read_north_straps ?dump 4096 e2 = Some (ICH_RET_OK, e3)" "d_content e3 = ?c" "d_region e3 = d_region e1"
    using e2 len by (auto simp: read_straps_eq ct Let_def)
  obtain d' where d': "read_south_straps ?dump 4096 e3 = Some (ICH_RET_OK, d')" "d_content d' = ?c" "d_region d' = d_region e1"
    using e3 len by (auto simp: read_straps_eq ct Let_def)
  have guess: "(if cs = CHIPSET_ICH_UNKNOWN then guess_ich_chipset (d_content d3) (d_component d3) (d_upper d3) else cs) = cs'"
    using cs n(3) by (auto simp: d3(2))
  have "read_ich_descriptors_from_dump (Some ?dump) 4096 cs d = Some (ICH_RET_OK, cs', d')"
    using len off guess by (simp add: read_from_dump_eq and_then_def read_sections_def d1(1) d2(1) d3(1) e1(1) e2(1) e3(1) d'(1) Let_def)
  with d' e1(3) show ?thesis by auto
qed

lemma layout_of_encoded:
  assumes "regions_ok regs" and "descriptors_sized d0"
  shows "layout_from_ich_descriptors d0 True True (Some (encode_ifd regs)) 4096 =
    Some (0, Some (rev (map (\<lambda>i. \<lparr>re_included = False, re_file = None, re_region = \<lparr>fr_name = ich_region_names ! i,
        fr_start = 4096 * fst (regs ! i), fr_end = 4096 * snd (regs ! i) + 4095, fr_read_prot = False, fr_write_prot = False\<rparr>\<rparr>)
      (filter (\<lambda>i. fst (regs ! i) \<le> snd (regs ! i)) [0..<length regs]))))"
proof -
  obtain d where d: "read_ich_descriptors_from_dump (Some (encode_ifd regs)) 4096 CHIPSET_ICH_UNKNOWN d0 = Some (ICH_RET_OK, CHIPSET_ICH8, d)"
    "d_content d = content_at (encode_ifd regs) 0" "d_region d = map encode_freg regs @ drop (length regs) (d_region d0)"
    using read_encoded [OF assms, of CHIPSET_ICH8 CHIPSET_ICH_UNKNOWN] by auto
  have nr: "nat (min (ich_number_of_regions CHIPSET_ICH8 (d_content d)) (int (length ich_region_names))) = length regs"
    using assms(1) by (simp add: d(2) encode_ifd_chipset ich_region_names_def regions_ok_def)
  have f: "field (d_region d ! i) 0 15 = fst (regs ! i)" "field (d_region d ! i) 16 15 = snd (regs ! i)" if "i < length regs" for i
    using that assms(1) freg_fields [of "regs ! i"] by (simp_all add: d(3) nth_append regions_ok_def)
  have "layout_from_ich_descriptors d0 True True (Some (encode_ifd regs)) 4096 = Some (add_ich_regions True (d_region d) (length regs) 0 [])"
    using nr by (simp add: layout_from_ich_descriptors_def d(1) flashrom_layout_new_def ICH_RET_OK_def Let_def)
  then show ?thesis
    unfolding add_ich_regions_eq [OF le0]
    by (auto simp: ich_entry_def ich_region_used_def f intro!: map_cong filter_cong)
qed

text \<open>Round trip. A descriptor with up to five regions, encoded for the older chipsets, is read back as the
  layout whose regions are the encoded ones that are in use, with their names and bounds, the last region first.\<close>

theorem ich_layout_roundtrip:
  assumes "regions_ok regs" and "descriptors_sized d0"
  shows "layout_from_ich_descriptors d0 True True (Some (encode_ifd regs)) 4096 =
    Some (0, Some (rev (map (\<lambda>i. \<lparr>re_included = False, re_file = None, re_region = \<lparr>fr_name = ich_region_names ! i,
        fr_start = 4096 * fst (regs ! i), fr_end = 4096 * snd (regs ! i) + 4095, fr_read_prot = False, fr_write_prot = False\<rparr>\<rparr>)
      (filter (\<lambda>i. fst (regs ! i) \<le> snd (regs ! i)) [0..<length regs]))))"
  using assms by (rule layout_of_encoded)

section \<open>The observability registers\<close>

text \<open>The word of a descriptor by section and index: the map, the component, the region and the master section.\<close>

definition fd_word :: "bytes \<Rightarrow> nat \<Rightarrow> nat \<Rightarrow> nat \<Rightarrow> nat" where
  "fd_word dump off sect i =
     dword_at dump ((if sect = 0 then off else if sect = 1 then getFCBA (content_at dump off) div 4
                     else if sect = 2 then getFRBA (content_at dump off) div 4 else getFMBA (content_at dump off) div 4) + i)"

text \<open>The documented behaviour of the registers: after the section and the index are written to the control register, the data
  register holds the word of the descriptor on the chip.\<close>

definition fdo_observes :: "'s mmio \<Rightarrow> ich_chipset \<Rightarrow> bytes \<Rightarrow> nat \<Rightarrow> bool" where
  "fdo_observes mm cs dump off \<longleftrightarrow>
     (\<forall>s sect i. sect < 4 \<longrightarrow> i < 64 \<longrightarrow>
        fst (mmio_le_readl mm (snd (fdo_registers cs)) (mmio_le_writel mm (4096 * sect + 4 * i) (fst (fdo_registers cs)) s)) =
          fd_word dump off sect i)"

lemma read_reg_observes:
  assumes "fdo_observes mm cs dump off" and "sect < 4" and "i < 64"
  shows "\<exists>s'. read_descriptor_reg mm cs sect i s = (fd_word dump off sect i, s')"
proof -
  have "fdoc_control sect i = 4096 * sect + 4 * i" using assms by (simp add: fdoc_control_def)
  then have "fst (read_descriptor_reg mm cs sect i s) = fd_word dump off sect i"
    using assms unfolding read_descriptor_reg_def fdo_observes_def by (cases "fdo_registers cs") auto
  then show ?thesis by (metis prod.collapse)
qed

lemma diff_Suc_eq: "Suc k = n - i \<Longrightarrow> k = n - Suc i"
  by simp

lemma load_regs_ok:
  assumes "fdo_observes mm cs dump off" and "sect < 4" and "n \<le> 64" and "n \<le> length arr" and "i \<le> n"
  shows "\<exists>s'. load_regs mm cs sect n i arr s = Some (take i arr @ map (fd_word dump off sect) [i..<n] @ drop n arr, s')"
  using assms(4,5)
proof (induction "n - i" arbitrary: i arr s)
  case 0
  then show ?case by (subst load_regs.simps) simp
next
  case (Suc k)
  then have i: "i < n" "i < length arr" by simp_all
  obtain s1 where s1: "read_descriptor_reg mm cs sect i s = (fd_word dump off sect i, s1)"
    using read_reg_observes [OF assms(1,2), of i s] i assms(3) by auto
  have "load_regs mm cs sect n i arr s = load_regs mm cs sect n (Suc i) (arr[i := fd_word dump off sect i]) s1"
    using i by (subst load_regs.simps) (simp add: s1)
  moreover obtain s' where "load_regs mm cs sect n (Suc i) (arr[i := fd_word dump off sect i]) s1 =
      Some (take (Suc i) (arr[i := fd_word dump off sect i]) @ map (fd_word dump off sect) [Suc i..<n] @ drop n (arr[i := fd_word dump off sect i]), s')"
    using Suc.hyps(1) [OF diff_Suc_eq [OF Suc.hyps(2)], of "arr[i := fd_word dump off sect i]" s1] Suc.prems i by auto
  ultimately show ?case using i by (simp add: take_Suc_conv_app_nth upt_conv_Cons)
qed

lemma bit_field_test_passes: "bit_fields_ok (bit_field_pattern @ xs)"
  by (simp add: bit_fields_ok_def bit_field_pattern_def field_def upt_rec nth_Cons' nth_append)

text \<open>C20: equivalence of the two readers. If the registers of the chipset show the descriptor on the chip and reading a dump of it
  succeeds, then \<^verbatim>\<open>read_ich_descriptors_via_fdo\<close> succeeds too and stores the same map, component section, regions and masters.\<close>

theorem fdo_agrees_with_dump:
  assumes "3840 \<le> len" and "len \<le> length dump" and "descriptors_sized d" and "descriptors_sized e" and "cs \<noteq> CHIPSET_ICH_UNKNOWN"
    and run: "read_ich_descriptors_from_dump (Some dump) len cs d = Some (ICH_RET_OK, cs', d')"
    and off: "descriptor_offset dump = Some off" and hw: "fdo_observes mm cs dump off"
  shows "\<exists>e' s'. read_ich_descriptors_via_fdo mm cs e s = Some (ICH_RET_OK, e', s') \<and>
    d_content e' = d_content d' \<and> d_component e' = d_component d' \<and>
    take (nat (ich_number_of_regions cs (d_content d'))) (d_region e') = take (nat (ich_number_of_regions cs (d_content d'))) (d_region d') \<and>
    take (nat (ich_number_of_masters cs (d_content d'))) (d_master e') = take (nat (ich_number_of_masters cs (d_content d'))) (d_master d')"
proof -
  define nr nm where "nr = nat (ich_number_of_regions cs (d_content d'))" and "nm = nat (ich_number_of_masters cs (d_content d'))"
  let ?c = "content_at dump off"
  from read_success [OF assms(1-3) run] assms(5) off
  have dump: "cs' = cs" "d_content d' = ?c"
    "d_component d' = \<lparr>FLCOMP = fd_word dump off 1 0, FLILL = fd_word dump off 1 1, FLPB = fd_word dump off 1 2\<rparr>"
    "0 \<le> ich_number_of_regions cs ?c" "d_region d' = map (fd_word dump off 2) [0..<nr] @ drop nr (d_region d)"
    "0 \<le> ich_number_of_masters cs ?c" "d_master d' = map (fd_word dump off 3) [0..<nm] @ drop nm (d_master d)"
    by (auto simp: Let_def nr_def nm_def words_at_def fd_word_def)
  have b: "nr \<le> 16" "nm \<le> 6" "length (d_region e) = 16" "length (d_master e) = 6"
    using number_of_regions_range(2) [of cs "d_content d'"] number_of_masters_range(2) [of cs "d_content d'"] assms(4)
    by (simp_all add: nr_def nm_def descriptors_sized_def MAX_NUM_MASTERS_def)
  note rd = read_reg_observes [OF hw]
  obtain s1 where s1: "read_descriptor_reg mm cs 0 0 s = (FLVALSIG ?c, s1)"
    using rd [of 0 0 s] by (auto simp: fd_word_def content_at_def)
  obtain s2 where s2: "read_descriptor_reg mm cs 0 1 s1 = (FLMAP0 ?c, s2)"
    using rd [of 0 1 s1] by (auto simp: fd_word_def content_at_def)
  obtain s3 where s3: "read_descriptor_reg mm cs 0 2 s2 = (FLMAP1 ?c, s3)"
    using rd [of 0 2 s2] by (auto simp: fd_word_def content_at_def)
  obtain s4 where s4: "read_descriptor_reg mm cs 0 3 s3 = (FLMAP2 ?c, s4)"
    using rd [of 0 3 s3] by (auto simp: fd_word_def content_at_def)
  obtain s5 s6 s7 where s5: "read_descriptor_reg mm cs 1 0 s4 = (fd_word dump off 1 0, s5)"
    "read_descriptor_reg mm cs 1 1 s5 = (fd_word dump off 1 1, s6)" "read_descriptor_reg mm cs 1 2 s6 = (fd_word dump off 1 2, s7)"
    using rd [of 1 0] rd [of 1 1] rd [of 1 2] by (metis less_numeral_extra(4) numeral_less_iff one_less_numeral_iff semiring_norm(76,78,80) zero_less_numeral)
  define r0 where "r0 = bit_field_pattern @ drop 4 (d_region e)"
  have l0: "length r0 = 16" "bit_fields_ok r0" using b by (simp_all add: r0_def bit_field_test_passes) (simp add: bit_field_pattern_def)
  obtain s8 where s8: "load_regs mm cs 2 nr 0 r0 s7 = Some (map (fd_word dump off 2) [0..<nr] @ drop nr r0, s8)"
    using load_regs_ok [OF hw, of 2 nr r0 0 s7] b l0 by auto
  obtain s9 where s9: "load_regs mm cs 3 nm 0 (d_master e) s8 = Some (map (fd_word dump off 3) [0..<nm] @ drop nm (d_master e), s9)"
    using load_regs_ok [OF hw, of 3 nm "d_master e" 0 s8] b by auto
  have c: "\<lparr>FLVALSIG = FLVALSIG ?c, FLMAP0 = FLMAP0 ?c, FLMAP1 = FLMAP1 ?c, FLMAP2 = FLMAP2 ?c\<rparr> = ?c" by (simp add: content_at_def)
  have nrm: "nat (ich_number_of_regions cs ?c) = nr" "nat (ich_number_of_masters cs ?c) = nm" by (simp_all add: nr_def nm_def dump(2))
  define e' where "e' = e\<lparr>d_region := map (fd_word dump off 2) [0..<nr] @ drop nr r0, d_content := ?c, d_component := d_component d',
      d_master := map (fd_word dump off 3) [0..<nm] @ drop nm (d_master e)\<rparr>"
  have "read_ich_descriptors_via_fdo mm cs e s = Some (ICH_RET_OK, e', s9)"
    using b(3) l0(2) dump(4,6) unfolding read_ich_descriptors_via_fdo_def r0_def [symmetric]
    by (simp add: s1 s2 [unfolded One_nat_def] s3 s4 s5 [unfolded One_nat_def] s8 s9 c nrm Let_def) (simp add: e'_def dump(3))
  then show ?thesis unfolding nr_def [symmetric] nm_def [symmetric] using dump b by (simp add: e'_def)
qed

section \<open>Comparing layouts\<close>

definition same_region :: "romentry \<Rightarrow> string \<times> nat \<times> nat" where
  "same_region e = (fr_name (re_region e), fr_start (re_region e), fr_end (re_region e))"

lemma compare_region_eq: "compare_region_with_dump a b = 0 \<longleftrightarrow> same_region a = same_region b"
  by (auto simp: compare_region_with_dump_def same_region_def)

lemma layout_compare_loop_eq: "layout_compare_loop l1 l2 = (if map same_region l1 = map same_region l2 then 0 else 1)"
  by (induction l1 l2 rule: layout_compare_loop.induct) (auto simp: compare_region_eq)

lemma ifd_match_loop_eq: "ifd_match_loop l1 l2 = ([], []) \<longleftrightarrow> map same_region l1 = map same_region l2"
  by (induction l1 l2 rule: ifd_match_loop.induct) (auto simp: compare_region_eq)

text \<open>\<^verbatim>\<open>flashrom_layout_compare\<close> returns 0 exactly when the two layouts exist and have the same names and bounds
  in the same order, and 1 otherwise; the comparison inside \<^verbatim>\<open>flashrom_layout_read_from_ifd\<close> ends with both layouts
  used up in the same case.\<close>

theorem layout_compare_correct:
  "flashrom_layout_compare lo1 lo2 =
     (if \<exists>l1 l2. lo1 = Some l1 \<and> lo2 = Some l2 \<and> map same_region l1 = map same_region l2 \<and> ifd_match_loop l1 l2 = ([], []) then 0 else 1)"
  unfolding flashrom_layout_compare_def by (cases lo1; cases lo2) (auto simp: layout_compare_loop_eq ifd_match_loop_eq)

section \<open>The layout of the descriptor on the chip\<close>

text \<open>The result codes of \<^verbatim>\<open>flashrom_layout_read_from_ifd\<close> after the descriptor has been read.\<close>

definition ifd_verdict :: "int \<times> layout option \<Rightarrow> (int \<times> layout option) option \<Rightarrow> int" where
  "ifd_verdict chip dump =
     (if fst chip \<noteq> 0 then 3
      else case dump of
             None \<Rightarrow> 0
           | Some (r, l) \<Rightarrow>
               if r \<noteq> 0 then 4 else if map_option (map same_region) (snd chip) = map_option (map same_region) l then 0 else 5)"

lemma layout_from_ich_total:
  assumes "3840 \<le> len" and "len \<le> length dump" and "descriptors_sized e0"
  shows "\<exists>r l. layout_from_ich_descriptors e0 True True (Some dump) len = Some (r, l) \<and> (r = 0 \<longrightarrow> l \<noteq> None)"
proof -
  obtain ret cs d where run: "read_ich_descriptors_from_dump (Some dump) len CHIPSET_ICH_UNKNOWN e0 = Some (ret, cs, d)"
    using read_from_dump_safe [OF assms] by blast
  show ?thesis by (simp add: layout_from_ich_descriptors_def run flashrom_layout_new_def add_ich_regions_eq [OF le0] Let_def)
qed

context fmap_device
begin

lemma read_from_ifd_ok:
  assumes s: "start_ok s" and n: "4096 \<le> n" and sz: "descriptors_sized e0"
    and dump: "\<And>dump. dumpo = Some dump \<Longrightarrow> 3840 \<le> len \<and> len \<le> length dump"
  shows "\<exists>chip s'. layout_from_ich_descriptors e0 True True (Some (take 4096 (contents s))) 4096 = Some chip \<and>
    flashrom_layout_read_from_ifd c a fns0 e0 True True dumpo len s =
      (let ret = ifd_verdict chip (case dumpo of None \<Rightarrow> None | Some dump \<Rightarrow> layout_from_ich_descriptors e0 True True (Some dump) len)
       in Some (ret, if ret = 0 then snd chip else None, s')) \<and>
    end_ok s' \<and> contents s' = contents s"
proof -
  obtain fns s1 where s1: "prepare_flash_access c a True False False False fns0 s = Some (0, fns, s1)" "read_ok s1"
    "contents s1 = contents s" and fin: "read_ok t \<Longrightarrow> \<exists>t'. finalize_flash_access a fns t = Some t' \<and> end_ok t' \<and> contents t' = contents t" for t
    using prepare_read_ok [OF s] by blast
  obtain s2 where s2: "read_flash c (fresh_buf c 4096) 0 0 4096 s1 =
      Some (0, blit 0 (bslice 0 4096 (contents s1)) (fresh_buf c 4096), s2)" "read_ok s2" "contents s2 = contents s1"
    using reader.read_plain [of 0 4096 0 "fresh_buf c 4096" s1] n s1(2) by auto
  have lc: "length (contents s) = n" using reader.contents_length [OF s2(2)] s2(3) s1(3) by simp
  have "blit 0 (bslice 0 4096 (contents s1)) (fresh_buf c 4096) = take 4096 (contents s)"
    using n lc s1(3) by (intro nth_equalityI) (auto simp: buf_simps)
  note s2 = s2(1) [unfolded this] s2(2,3)
  obtain s' where s': "finalize_flash_access a fns s2 = Some s'" "end_ok s'" "contents s' = contents s"
    using fin [OF s2(2)] s2(3) s1(3) by auto
  obtain r l where chip: "layout_from_ich_descriptors e0 True True (Some (take 4096 (contents s))) 4096 = Some (r, l)" "r = 0 \<longrightarrow> l \<noteq> None"
    using layout_from_ich_total [of 4096 "take 4096 (contents s)" e0] n lc sz by auto
  have run: "flashrom_layout_read_from_ifd c a fns0 e0 True True dumpo len s =
      (let ret = ifd_verdict (r, l) (case dumpo of None \<Rightarrow> None | Some dump \<Rightarrow> layout_from_ich_descriptors e0 True True (Some dump) len)
       in Some (ret, if ret = 0 then l else None, s'))"
  proof (cases dumpo)
    case None
    then show ?thesis using malloc_ok
      by (simp add: flashrom_layout_read_from_ifd_def s1(1) s2(1) chip(1) s'(1) ifd_verdict_def Let_def)
  next
    case (Some dump)
    with assms(4) obtain r' l' where d: "layout_from_ich_descriptors e0 True True (Some dump) len = Some (r', l')" "r' = 0 \<longrightarrow> l' \<noteq> None"
      using layout_from_ich_total [of len dump e0] sz by auto
    have m: "(case ifd_match_loop l1 l2 of ([], []) \<Rightarrow> x | _ \<Rightarrow> y) = (if map same_region l1 = map same_region l2 then x else y)" for l1 l2 x y
      by (auto simp flip: ifd_match_loop_eq split: prod.split list.split)
    show ?thesis using malloc_ok Some chip(2) d(2)
      by (auto simp: flashrom_layout_read_from_ifd_def s1(1) s2(1) chip(1) d(1) s'(1) m ifd_verdict_def Let_def)
  qed
  show ?thesis
    by (intro exI [of _ "(r, l)"] exI [of _ s'] conjI chip(1) s'(2,3)) (simp add: run Let_def)
qed

end

text \<open>\<^verbatim>\<open>flashrom_layout_read_from_ifd\<close> on a chip of the dummy programmer. The layout given out is the one of the
  descriptor in the first 4 KiB of the chip; the result is 3 if that descriptor cannot be read, 4 if the dump to
  compare with cannot, 5 if the two differ in a name, a bound, the order or the number of the regions, and 0
  otherwise; the chip keeps its bytes.\<close>

theorem ifd_layout_of_chip:
  assumes v: "variable_chip d0"
    and lay: "layout_sanity_checks (emu_chip_size d0 div 1024) (get_layout (opaque_ctx d0 lay fl ratio fresh)) = 0"
    and ok: "opaque_ok d0 d" and n: "4096 \<le> emu_chip_size d0" and sz: "descriptors_sized e0"
    and dump: "\<And>dump. dumpo = Some dump \<Longrightarrow> 3840 \<le> len \<and> len \<le> length dump"
  shows "\<exists>chip d'. layout_from_ich_descriptors e0 True True (Some (take 4096 (flashchip_contents d))) 4096 = Some chip \<and>
    flashrom_layout_read_from_ifd (opaque_ctx d0 lay fl ratio fresh) opaque_access fns0 e0 True True dumpo len d =
      (let ret = ifd_verdict chip (case dumpo of None \<Rightarrow> None | Some dump \<Rightarrow> layout_from_ich_descriptors e0 True True (Some dump) len)
       in Some (ret, if ret = 0 then snd chip else None, d')) \<and>
    opaque_ok d0 d' \<and> flashchip_contents d' = flashchip_contents d"
  using fmap_device.read_from_ifd_ok [OF opaque_fmap_device [OF v lay] ok n sz] dump by blast

section \<open>A sample descriptor\<close>

definition blank_descriptors :: ich_descriptors where
  "blank_descriptors = \<lparr>d_content = \<lparr>FLVALSIG = 0, FLMAP0 = 0, FLMAP1 = 0, FLMAP2 = 0\<rparr>,
     d_component = \<lparr>FLCOMP = 0, FLILL = 0, FLPB = 0\<rparr>, d_region = replicate 16 0, d_master = replicate 6 0, d_north = [0],
     d_south = replicate 23 0, d_upper = \<lparr>FLUMAP1 = 0, vscc_table = replicate 128 \<lparr>JID = 0, VSCC = 0\<rparr>\<rparr>\<rparr>"

text \<open>A chip of 4 MiB: the descriptor, the BIOS in the upper half, the ME between them; the fourth region is not used.\<close>

definition sample_regions :: "(nat \<times> nat) list" where
  "sample_regions = [(0, 0), (0x200, 0x3ff), (1, 0x1ff), (0x7fff, 0)]"

lemma sample_sized: "descriptors_sized blank_descriptors" "regions_ok sample_regions"
  by (simp_all add: descriptors_sized_def blank_descriptors_def MAX_NUM_MASTERS_def regions_ok_def sample_regions_def)

lemma sample_ifd_length: "4096 \<le> length (encode_ifd sample_regions)" "3840 \<le> (4096 :: nat)" "length (encode_ifd sample_regions) = 4096"
  using encode_ifd_words(1) [OF sample_sized(2)] by simp_all

theorem read_ich_descriptors_safe_witness:
  "\<exists>r cs' d'. read_ich_descriptors_from_dump (Some (encode_ifd sample_regions)) 4096 CHIPSET_APOLLO_LAKE blank_descriptors =
     Some (r, cs', d') \<and> r \<noteq> ICH_RET_ERR \<and> descriptors_sized d'"
proof -
  have "descriptor_offset (encode_ifd sample_regions) = Some 0"
    using encode_ifd_words(2) [OF sample_sized(2)] by (simp add: descriptor_offset_def)
  with read_ich_descriptors_safe [OF sample_ifd_length(2,1) sample_sized(1), of CHIPSET_APOLLO_LAKE] show ?thesis by auto
qed

theorem read_ich_descriptors_short_witness:
  "read_ich_descriptors_from_dump (Some (encode_words [DESCRIPTOR_MODE_SIGNATURE, 0, 0, 0, 0])) 20 CHIPSET_ICH9 blank_descriptors = None"
proof -
  have "dword_at (encode_words [DESCRIPTOR_MODE_SIGNATURE, 0, 0, 0, 0]) 0 = DESCRIPTOR_MODE_SIGNATURE"
    "dword_at (encode_words [DESCRIPTOR_MODE_SIGNATURE, 0, 0, 0, 0]) 1 = 0"
    by (simp_all add: dword_at_encode DESCRIPTOR_MODE_SIGNATURE_def)
  then show ?thesis by (intro read_ich_descriptors_short_dump) (simp_all add: field_def)
qed


theorem ich_layout_roundtrip_witness:
  "map_option (map_prod id (map_option (map same_region)))
     (layout_from_ich_descriptors blank_descriptors True True (Some (encode_ifd sample_regions)) 4096) =
   Some (0, Some [(''me'', 0x1000, 0x1fffff), (''bios'', 0x200000, 0x3fffff), (''fd'', 0, 0xfff)])"
  unfolding ich_layout_roundtrip [OF sample_sized(2,1)]
  by (simp add: sample_regions_def ich_region_names_def same_region_def upt_rec)

text \<open>Registers that show the sample descriptor: the state is the value of the control register.\<close>

definition sample_fdo :: "nat mmio" where
  "sample_fdo = \<lparr>mmio_le_writel = (\<lambda>v off s. if off = 0xB0 then v else s),
     mmio_le_readl = (\<lambda>off s. (if off = 0xB4 then fd_word (encode_ifd sample_regions) 0 (s div 4096) (s mod 4096 div 4) else s, s))\<rparr>"

lemma sample_fdo_observes: "fdo_observes sample_fdo CHIPSET_ICH9 (encode_ifd sample_regions) 0"
  by (simp add: fdo_observes_def sample_fdo_def fdo_registers_def ICH9_REG_FDOC_def ICH9_REG_FDOD_def)

theorem fdo_agrees_witness:
  "\<exists>e' s'. read_ich_descriptors_via_fdo sample_fdo CHIPSET_ICH9 blank_descriptors 0 = Some (ICH_RET_OK, e', s') \<and>
     take 4 (d_region e') = [0, 0x03ff0200, 0x01ff0001, 0x00007fff]"
proof -
  have "regions_ok sample_regions" "CHIPSET_ICH9 \<in> {CHIPSET_ICH8, CHIPSET_ICH9, CHIPSET_ICH10}" by (simp_all add: sample_sized)
  note n = encode_ifd_chipset [OF this]
  have off: "descriptor_offset (encode_ifd sample_regions) = Some 0"
    using encode_ifd_words(2) [OF sample_sized(2)] by (simp add: descriptor_offset_def)
  obtain d' where d': "read_ich_descriptors_from_dump (Some (encode_ifd sample_regions)) 4096 CHIPSET_ICH9 blank_descriptors =
      Some (ICH_RET_OK, CHIPSET_ICH9, d')" "d_content d' = content_at (encode_ifd sample_regions) 0"
      "d_region d' = map encode_freg sample_regions @ drop (length sample_regions) (d_region blank_descriptors)"
    using read_encoded [OF sample_sized(2,1), of CHIPSET_ICH9 CHIPSET_ICH9] by auto
  have "length sample_regions = 4" "map encode_freg sample_regions = [0, 0x03ff0200, 0x01ff0001, 0x00007fff]"
    by (simp_all add: sample_regions_def encode_freg_def)
  with fdo_agrees_with_dump [OF sample_ifd_length(2,1) sample_sized(1) sample_sized(1) _ d'(1) off sample_fdo_observes, of 0] d'(2,3) n(1)
  show ?thesis by auto
qed

definition ifd_image :: bytes where
  "ifd_image = encode_ifd sample_regions @ replicate 4190208 0xff"

theorem ifd_layout_witness:
  "\<exists>l d'. flashrom_layout_read_from_ifd sample_ctx opaque_access [] blank_descriptors True True (Some (encode_ifd sample_regions)) 4096
     (sample_data\<lparr>flashchip_contents := ifd_image\<rparr>) = Some (0, Some l, d') \<and> length l = 3"
proof -
  let ?d = "sample_data\<lparr>flashchip_contents := ifd_image\<rparr>"
  have ok: "opaque_ok sample_data ?d" by (simp add: opaque_ok_def sample_data_simps ifd_image_def sample_ifd_length)
  have img: "take 4096 ifd_image = encode_ifd sample_regions" by (simp add: ifd_image_def sample_ifd_length)
  obtain l where l: "layout_from_ich_descriptors blank_descriptors True True (Some (encode_ifd sample_regions)) 4096 = Some (0, Some l)"
    "length l = 3"
    unfolding layout_of_encoded [OF sample_sized(2,1)] by (simp add: sample_regions_def upt_rec)
  show ?thesis
    using ifd_layout_of_chip [OF sample_variable_chip(1) default_layout_checked(2) [OF sample_variable_chip(1)] ok,
        of blank_descriptors "Some (encode_ifd sample_regions)" 4096 sample_flags 0 "\<lambda>i. 0" "[]", folded sample_ctx_def]
      l sample_sized(1) sample_ifd_length
    by (auto simp: sample_data_simps img ifd_verdict_def Let_def)
qed

end
