(* ===== verification/IchSpi.thy ===== *)
theory IchSpi
  imports IchDescriptors Spi
begin

text \<open>
  The SPI controller of Intel chipsets (\<^verbatim>\<open>flashrom/ichspi.c\<close>), software sequencing: the opcode tables, the data registers,
  single cycles on the two register layouts, and the commands and command lists of the SPI master.

  The registers are hardware and a parameter: reading a register is a function of the state of the controller, writing one and
  waiting change the state. Register reads that only feed a debug message are left out. The static variables of the file
  are the record \<open>ich\<close>; \<open>curopcodes\<close> is the table it points to.
\<close>

section \<open>Registers\<close>

record 's regs =
  mmio_readb :: "nat \<Rightarrow> 's \<Rightarrow> 8 word"
  mmio_readw :: "nat \<Rightarrow> 's \<Rightarrow> 16 word"
  mmio_readl :: "nat \<Rightarrow> 's \<Rightarrow> 32 word"
  mmio_writeb :: "nat \<Rightarrow> 8 word \<Rightarrow> 's \<Rightarrow> 's"
  mmio_writew :: "nat \<Rightarrow> 16 word \<Rightarrow> 's \<Rightarrow> 's"
  mmio_writel :: "nat \<Rightarrow> 32 word \<Rightarrow> 's \<Rightarrow> 's"
  default_delay :: "nat \<Rightarrow> 's \<Rightarrow> 's"

text \<open>\<^verbatim>\<open>while (busy && --timeout) default_delay(us)\<close>; the result is the rest of the timeout.\<close>

function poll :: "('s \<Rightarrow> bool) \<Rightarrow> ('s \<Rightarrow> 's) \<Rightarrow> nat \<Rightarrow> 's \<Rightarrow> nat \<times> 's" where
  "poll busy wait timeout s =
     (if busy s then (if timeout \<le> 1 then (0, s) else poll busy wait (timeout - 1) (wait s)) else (timeout, s))"
  by pat_completeness auto
termination by (relation "measure (\<lambda>(busy, wait, timeout, s). timeout)") auto

declare poll.simps [simp del]

definition ICH9_REG_FADDR :: nat where "ICH9_REG_FADDR = 0x08"
definition ICH9_REG_FDATA0 :: nat where "ICH9_REG_FDATA0 = 0x10"
definition ICH9_REG_BBAR :: nat where "ICH9_REG_BBAR = 0xA0"
definition BBAR_MASK :: "32 word" where "BBAR_MASK = 0x00ffff00"

definition SSFS_SCIP :: "8 word" where "SSFS_SCIP = 0x01"
definition SSFS_FDONE :: "32 word" where "SSFS_FDONE = 0x04"
definition SSFS_FCERR :: "32 word" where "SSFS_FCERR = 0x08"
definition SSFS_RESERVED_MASK :: "32 word" where "SSFS_RESERVED_MASK = 0x000000e2"
definition SSFC_SCGO :: "32 word" where "SSFC_SCGO = 0x0200"
definition SSFC_ACS :: "32 word" where "SSFC_ACS = 0x0400"
definition SSFC_SPOP :: "32 word" where "SSFC_SPOP = 0x0800"
definition SSFC_DBC :: "32 word" where "SSFC_DBC = 0x3f0000"
definition SSFC_DS :: "32 word" where "SSFC_DS = 0x400000"
definition SSFC_SCF_20MHZ :: "32 word" where "SSFC_SCF_20MHZ = 0x00000000"
definition SSFC_RESERVED_MASK :: "32 word" where "SSFC_RESERVED_MASK = 0xf8008100"

definition ICH7_REG_SPIS :: nat where "ICH7_REG_SPIS = 0x00"
definition SPIS_SCIP :: "16 word" where "SPIS_SCIP = 0x0001"
definition SPIS_CDS :: "16 word" where "SPIS_CDS = 0x0004"
definition SPIS_FCERR :: "16 word" where "SPIS_FCERR = 0x0008"
definition SPIS_RESERVED_MASK :: "16 word" where "SPIS_RESERVED_MASK = 0x7ff0"
definition ICH7_REG_SPIC :: nat where "ICH7_REG_SPIC = 0x02"
definition SPIC_SCGO :: "16 word" where "SPIC_SCGO = 0x0002"
definition SPIC_ACS :: "16 word" where "SPIC_ACS = 0x0004"
definition SPIC_SPOP :: "16 word" where "SPIC_SPOP = 0x0008"
definition SPIC_DS :: "16 word" where "SPIC_DS = 0x4000"
definition ICH7_REG_SPIA :: nat where "ICH7_REG_SPIA = 0x04"
definition ICH7_REG_SPID0 :: nat where "ICH7_REG_SPID0 = 0x08"
definition ICH7_REG_PREOP :: nat where "ICH7_REG_PREOP = 0x54"
definition ICH7_REG_OPTYPE :: nat where "ICH7_REG_OPTYPE = 0x56"
definition ICH7_REG_OPMENU :: nat where "ICH7_REG_OPMENU = 0x58"

definition SPI_INVALID_ADDRESS :: int where "SPI_INVALID_ADDRESS = -3"
definition SPI_INVALID_LENGTH :: int where "SPI_INVALID_LENGTH = -4"

definition SPI_OPCODE_TYPE_READ_NO_ADDRESS :: nat where "SPI_OPCODE_TYPE_READ_NO_ADDRESS = 0"
definition SPI_OPCODE_TYPE_WRITE_NO_ADDRESS :: nat where "SPI_OPCODE_TYPE_WRITE_NO_ADDRESS = 1"
definition SPI_OPCODE_TYPE_READ_WITH_ADDRESS :: nat where "SPI_OPCODE_TYPE_READ_WITH_ADDRESS = 2"
definition SPI_OPCODE_TYPE_WRITE_WITH_ADDRESS :: nat where "SPI_OPCODE_TYPE_WRITE_WITH_ADDRESS = 3"

lemmas spi_type_defs = SPI_OPCODE_TYPE_READ_NO_ADDRESS_def SPI_OPCODE_TYPE_WRITE_NO_ADDRESS_def
  SPI_OPCODE_TYPE_READ_WITH_ADDRESS_def SPI_OPCODE_TYPE_WRITE_WITH_ADDRESS_def

section \<open>Opcode tables\<close>

record opcode =
  oc_opcode :: u8
  oc_spi_type :: nat
  oc_atomic :: nat

text \<open>Two prefix opcodes and eight opcodes.\<close>

record opcodes =
  ops_preop :: "u8 list"
  ops_opcode :: "opcode list"

definition O_ST_M25P :: opcodes where
  "O_ST_M25P = \<lparr>ops_preop = [JEDEC_WREN, JEDEC_EWSR],
     ops_opcode =
       [\<lparr>oc_opcode = JEDEC_BYTE_PROGRAM, oc_spi_type = SPI_OPCODE_TYPE_WRITE_WITH_ADDRESS, oc_atomic = 0\<rparr>,
        \<lparr>oc_opcode = JEDEC_READ, oc_spi_type = SPI_OPCODE_TYPE_READ_WITH_ADDRESS, oc_atomic = 0\<rparr>,
        \<lparr>oc_opcode = JEDEC_SE, oc_spi_type = SPI_OPCODE_TYPE_WRITE_WITH_ADDRESS, oc_atomic = 0\<rparr>,
        \<lparr>oc_opcode = JEDEC_RDSR, oc_spi_type = SPI_OPCODE_TYPE_READ_NO_ADDRESS, oc_atomic = 0\<rparr>,
        \<lparr>oc_opcode = JEDEC_REMS, oc_spi_type = SPI_OPCODE_TYPE_READ_WITH_ADDRESS, oc_atomic = 0\<rparr>,
        \<lparr>oc_opcode = JEDEC_WRSR, oc_spi_type = SPI_OPCODE_TYPE_WRITE_NO_ADDRESS, oc_atomic = 0\<rparr>,
        \<lparr>oc_opcode = JEDEC_RDID, oc_spi_type = SPI_OPCODE_TYPE_READ_NO_ADDRESS, oc_atomic = 0\<rparr>,
        \<lparr>oc_opcode = JEDEC_CE_C7, oc_spi_type = SPI_OPCODE_TYPE_WRITE_NO_ADDRESS, oc_atomic = 0\<rparr>]\<rparr>"

definition POSSIBLE_OPCODES :: "(u8 \<times> nat) list" where
  "POSSIBLE_OPCODES =
     [(JEDEC_BYTE_PROGRAM, SPI_OPCODE_TYPE_WRITE_WITH_ADDRESS), (JEDEC_READ, SPI_OPCODE_TYPE_READ_WITH_ADDRESS),
      (JEDEC_BE_D8, SPI_OPCODE_TYPE_WRITE_WITH_ADDRESS), (JEDEC_RDSR, SPI_OPCODE_TYPE_READ_NO_ADDRESS),
      (JEDEC_REMS, SPI_OPCODE_TYPE_READ_WITH_ADDRESS), (JEDEC_WRSR, SPI_OPCODE_TYPE_WRITE_NO_ADDRESS),
      (JEDEC_RDID, SPI_OPCODE_TYPE_READ_NO_ADDRESS), (JEDEC_CE_C7, SPI_OPCODE_TYPE_WRITE_NO_ADDRESS),
      (JEDEC_SE, SPI_OPCODE_TYPE_WRITE_WITH_ADDRESS), (JEDEC_BE_52, SPI_OPCODE_TYPE_WRITE_WITH_ADDRESS),
      (JEDEC_AAI_WORD_PROGRAM, SPI_OPCODE_TYPE_WRITE_NO_ADDRESS)]"

fun find_index :: "('a \<Rightarrow> bool) \<Rightarrow> int \<Rightarrow> 'a list \<Rightarrow> int" where
  "find_index P a [] = -1"
| "find_index P a (x # xs) = (if P x then a else find_index P (a + 1) xs)"

definition find_opcode :: "opcodes option \<Rightarrow> u8 \<Rightarrow> int" where
  "find_opcode op opc = (case op of None \<Rightarrow> -1 | Some t \<Rightarrow> find_index (\<lambda>e. oc_opcode e = opc) 0 (ops_opcode t))"

definition find_preop :: "opcodes option \<Rightarrow> u8 \<Rightarrow> int" where
  "find_preop op preop = (case op of None \<Rightarrow> -1 | Some t \<Rightarrow> find_index (\<lambda>p. p = preop) 0 (ops_preop t))"

definition lookup_spi_type :: "u8 \<Rightarrow> nat" where
  "lookup_spi_type opc = (case map_of POSSIBLE_OPCODES opc of Some t \<Rightarrow> t | None \<Rightarrow> 0xFF)"

section \<open>State\<close>

text \<open>The registers that move between generations (\<^verbatim>\<open>struct swseq_data\<close>).\<close>

record swseq =
  reg_ssfsc :: nat
  reg_preop :: nat
  reg_optype :: nat
  reg_opmenu :: nat

datatype undo = Undo_w nat "16 word" | Undo_l nat "32 word"

record 's ich =
  ich_hw :: 's
  curopcodes :: "opcodes option"
  ichspi_lock :: bool
  ichspi_bbar :: "32 word"
  ich_generation :: ich_chipset
  swseq_data :: swseq
  ich_undo :: "undo list"

definition upd_hw :: "('s \<Rightarrow> 's) \<Rightarrow> 's ich \<Rightarrow> 's ich" where
  "upd_hw f st = st\<lparr>ich_hw := f (ich_hw st)\<rparr>"

definition ich7_family :: "ich_chipset \<Rightarrow> bool" where
  "ich7_family gen \<longleftrightarrow> gen \<in> {CHIPSET_ICH7, CHIPSET_TUNNEL_CREEK, CHIPSET_CENTERTON}"

text \<open>\<^verbatim>\<open>rmmio_valw\<close> and \<^verbatim>\<open>rmmio_vall\<close> save the register for the shutdown; \<^verbatim>\<open>rmmio_writel\<close> saves it and writes.\<close>

definition rmmio_valw :: "'s regs \<Rightarrow> nat \<Rightarrow> 's ich \<Rightarrow> 's ich" where
  "rmmio_valw R off st = st\<lparr>ich_undo := Undo_w off (mmio_readw R off (ich_hw st)) # ich_undo st\<rparr>"

definition rmmio_vall :: "'s regs \<Rightarrow> nat \<Rightarrow> 's ich \<Rightarrow> 's ich" where
  "rmmio_vall R off st = st\<lparr>ich_undo := Undo_l off (mmio_readl R off (ich_hw st)) # ich_undo st\<rparr>"

definition rmmio_writel :: "'s regs \<Rightarrow> 32 word \<Rightarrow> nat \<Rightarrow> 's ich \<Rightarrow> 's ich" where
  "rmmio_writel R v off st = upd_hw (mmio_writel R off v) (rmmio_vall R off st)"

fun undo_mmio_write :: "'s regs \<Rightarrow> undo \<Rightarrow> 's \<Rightarrow> 's" where
  "undo_mmio_write R (Undo_w off v) s = mmio_writew R off v s"
| "undo_mmio_write R (Undo_l off v) s = mmio_writel R off v s"

section \<open>Programming the tables\<close>

text \<open>The loops \<open>acc |= value << (a * width)\<close> and \<open>value & mask; value >>= width\<close>.\<close>

fun pack :: "nat \<Rightarrow> nat \<Rightarrow> ('a::len) word list \<Rightarrow> ('b::len) word" where
  "pack w a [] = 0"
| "pack w a (v # vs) = push_bit (a * w) (ucast v) OR pack w (Suc a) vs"

fun unpack :: "nat \<Rightarrow> nat \<Rightarrow> ('b::len) word \<Rightarrow> ('a::len) word list" where
  "unpack w 0 x = []"
| "unpack w (Suc k) x = ucast (take_bit w x) # unpack w k (drop_bit w x)"

definition preop_reg :: "opcodes \<Rightarrow> 16 word" where
  "preop_reg op = ucast (ops_preop op ! 0) OR push_bit 8 (ucast (ops_preop op ! 1))"

definition optype_reg :: "opcodes \<Rightarrow> 16 word" where
  "optype_reg op = pack 2 0 (map (\<lambda>e. word_of_nat (oc_spi_type e) :: 8 word) (ops_opcode op))"

definition opmenu_reg :: "opcodes \<Rightarrow> nat \<Rightarrow> 32 word" where
  "opmenu_reg op k = pack 8 0 (map oc_opcode (bslice (4 * k) 4 (ops_opcode op)))"

text \<open>The offsets of the prefix, type and opcode registers.\<close>

definition table_regs :: "ich_chipset \<Rightarrow> swseq \<Rightarrow> nat \<times> nat \<times> nat" where
  "table_regs gen sw =
     (if ich7_family gen then (ICH7_REG_PREOP, ICH7_REG_OPTYPE, ICH7_REG_OPMENU)
      else (reg_preop sw, reg_optype sw, reg_opmenu sw))"

definition program_opcodes :: "'s regs \<Rightarrow> opcodes \<Rightarrow> bool \<Rightarrow> ich_chipset \<Rightarrow> 's ich \<Rightarrow> int \<times> 's ich" where
  "program_opcodes R op enable_undo gen st =
     (case table_regs gen (swseq_data st) of
        (preop, optype, opmenu) \<Rightarrow>
          let st1 = (if enable_undo
                     then rmmio_vall R (opmenu + 4) (rmmio_vall R opmenu (rmmio_valw R optype (rmmio_valw R preop st)))
                     else st)
          in (0, upd_hw (\<lambda>s. mmio_writel R (opmenu + 4) (opmenu_reg op 1) (mmio_writel R opmenu (opmenu_reg op 0)
                               (mmio_writew R optype (optype_reg op) (mmio_writew R preop (preop_reg op) s)))) st1))"

text \<open>\<^verbatim>\<open>curopcodes->opcode[oppos].x = v\<close>; a null pointer and an index outside the array are undefined.\<close>

definition upd_opcode :: "int \<Rightarrow> (opcode \<Rightarrow> opcode) \<Rightarrow> 's ich \<Rightarrow> 's ich option" where
  "upd_opcode oppos f st =
     (case curopcodes st of
        None \<Rightarrow> None
      | Some t \<Rightarrow>
          if 0 \<le> oppos \<and> oppos < int (length (ops_opcode t))
          then Some (st\<lparr>curopcodes := Some (t\<lparr>ops_opcode := (ops_opcode t)[nat oppos := f (ops_opcode t ! nat oppos)]\<rparr>)\<rparr>)
          else None)"

definition reprogram_opcode_on_the_fly :: "'s regs \<Rightarrow> u8 \<Rightarrow> nat \<Rightarrow> nat \<Rightarrow> 's ich \<Rightarrow> (int \<times> 's ich) option" where
  "reprogram_opcode_on_the_fly R opc writecnt readcnt st =
     (let looked = lookup_spi_type opc;
          spi_type =
            (if looked > 3 then
               if readcnt = 0 then Some SPI_OPCODE_TYPE_WRITE_NO_ADDRESS
               else if writecnt = 1 then Some SPI_OPCODE_TYPE_READ_NO_ADDRESS
               else if writecnt = 4 then Some SPI_OPCODE_TYPE_READ_WITH_ADDRESS
               else None
             else Some looked)
      in case spi_type of
           None \<Rightarrow> Some (SPI_INVALID_LENGTH, st)
         | Some t \<Rightarrow>
             Option.bind (upd_opcode 4 (\<lambda>e. e\<lparr>oc_opcode := opc, oc_spi_type := t\<rparr>) st) (\<lambda>st1.
               case curopcodes st1 of
                 None \<Rightarrow> None
               | Some tab \<Rightarrow>
                   let st2 = snd (program_opcodes R tab False (ich_generation st1) st1)
                   in Some (find_opcode (curopcodes st2) opc, st2)))"

definition ich_missing_opcodes :: "'s ich \<Rightarrow> int" where
  "ich_missing_opcodes st =
     (if \<exists>opc \<in> set [JEDEC_READ, JEDEC_RDSR]. find_opcode (curopcodes st) opc = -1 then -1 else 0)"

definition ich_set_bbar :: "'s regs \<Rightarrow> 32 word \<Rightarrow> ich_chipset \<Rightarrow> 's ich \<Rightarrow> 's ich" where
  "ich_set_bbar R min_addr gen st =
     (if gen \<in> {CHIPSET_ICH8, CHIPSET_BAYTRAIL} then st
      else
        let bbar_off = (if ich7_family gen then 0x50 else ICH9_REG_BBAR);
            min = min_addr AND BBAR_MASK;
            bbar = (mmio_readl R bbar_off (ich_hw st) AND NOT BBAR_MASK) OR min;
            st1 = rmmio_writel R bbar bbar_off st
        in st1\<lparr>ichspi_bbar := mmio_readl R bbar_off (ich_hw st1) AND BBAR_MASK\<rparr>)"

definition generate_opcodes :: "'s regs \<Rightarrow> ich_chipset \<Rightarrow> 's ich \<Rightarrow> opcodes" where
  "generate_opcodes R gen st =
     (case table_regs gen (swseq_data st) of
        (preop, optype, opmenu) \<Rightarrow>
          let s = ich_hw st;
              types = unpack 2 8 (mmio_readw R optype s) :: 8 word list;
              codes = unpack 8 4 (mmio_readl R opmenu s) @ unpack 8 4 (mmio_readl R (opmenu + 4) s)
          in \<lparr>ops_preop = [ucast (mmio_readw R preop s), ucast (drop_bit 8 (mmio_readw R preop s))],
              ops_opcode = map2 (\<lambda>c t. \<lparr>oc_opcode = c, oc_spi_type = unat t, oc_atomic = 0\<rparr>) codes types\<rparr>)"

definition ich_init_opcodes :: "'s regs \<Rightarrow> ich_chipset \<Rightarrow> 's ich \<Rightarrow> int \<times> 's ich" where
  "ich_init_opcodes R gen st =
     (if curopcodes st \<noteq> None then (0, st)
      else if ichspi_lock st then (0, st\<lparr>curopcodes := Some (generate_opcodes R gen st)\<rparr>)
      else
        case program_opcodes R O_ST_M25P True gen st of
          (rc, st1) \<Rightarrow> if rc \<noteq> 0 then (1, st1\<lparr>curopcodes := None\<rparr>) else (0, st1\<lparr>curopcodes := Some O_ST_M25P\<rparr>))"

section \<open>Data registers\<close>

text \<open>The loop over the bytes; \<open>temp\<close> collects a word. Words that are full are written.\<close>

function fill_loop :: "'s regs \<Rightarrow> bytes \<Rightarrow> nat \<Rightarrow> nat \<Rightarrow> nat \<Rightarrow> 32 word \<Rightarrow> 's \<Rightarrow> 32 word \<times> 's" where
  "fill_loop R data len reg0_off i temp s =
     (if i < len then
        let temp1 = (if i mod 4 = 0 then 0 else temp) OR push_bit (i mod 4 * 8) (ucast (data ! i));
            s1 = (if i mod 4 = 3 then mmio_writel R (reg0_off + (i - i mod 4)) temp1 s else s)
        in fill_loop R data len reg0_off (Suc i) temp1 s1
      else (temp, s))"
  by pat_completeness auto
termination by (relation "measure (\<lambda>(R, data, len, reg0_off, i, temp, s). len - i)") auto

declare fill_loop.simps [simp del]

definition ich_fill_data :: "'s regs \<Rightarrow> bytes \<Rightarrow> nat \<Rightarrow> nat \<Rightarrow> 's \<Rightarrow> 's" where
  "ich_fill_data R data len reg0_off s =
     (if len = 0 then s
      else case fill_loop R data len reg0_off 0 0 s of
             (temp, s1) \<Rightarrow>
               let i = len - 1
               in if i mod 4 \<noteq> 3 then mmio_writel R (reg0_off + (i - i mod 4)) temp s1 else s1)"

function read_loop :: "'s regs \<Rightarrow> nat \<Rightarrow> nat \<Rightarrow> nat \<Rightarrow> 32 word \<Rightarrow> 's \<Rightarrow> bytes" where
  "read_loop R len reg0_off i temp s =
     (if i < len then
        let temp1 = (if i mod 4 = 0 then mmio_readl R (reg0_off + i) s else temp)
        in ucast (drop_bit (i mod 4 * 8) temp1) # read_loop R len reg0_off (Suc i) temp1 s
      else [])"
  by pat_completeness auto
termination by (relation "measure (\<lambda>(R, len, reg0_off, i, temp, s). len - i)") auto

declare read_loop.simps [simp del]

definition ich_read_data :: "'s regs \<Rightarrow> nat \<Rightarrow> nat \<Rightarrow> 's \<Rightarrow> bytes" where
  "ich_read_data R len reg0_off s = read_loop R len reg0_off 0 0 s"

section \<open>One cycle\<close>

definition write_type :: "nat \<Rightarrow> bool" where
  "write_type t \<longleftrightarrow> t = SPI_OPCODE_TYPE_WRITE_NO_ADDRESS \<or> t = SPI_OPCODE_TYPE_WRITE_WITH_ADDRESS"

text \<open>The position of an opcode in the menu of the chipset, \<open>-1\<close> if it is not there.\<close>

definition menu_index :: "'s regs \<Rightarrow> nat \<Rightarrow> u8 \<Rightarrow> 's \<Rightarrow> int" where
  "menu_index R off opc s =
     find_index (\<lambda>b. b = opc) 0 (unpack 8 4 (mmio_readl R off s) @ unpack 8 4 (mmio_readl R (off + 4) s))"

text \<open>The result code, the bytes received and the new state of the controller; \<open>data\<close> are the bytes to write.\<close>

definition ich7_run_opcode :: "'s regs \<Rightarrow> opcode \<Rightarrow> 32 word \<Rightarrow> nat \<Rightarrow> bytes \<Rightarrow> nat \<Rightarrow> 's \<Rightarrow> int \<times> bytes \<times> 's" where
  "ich7_run_opcode R op offset datalength data maxdata s =
     (let write_cmd = write_type (oc_spi_type op);
          (timeout, s1) = poll (\<lambda>s. mmio_readw R ICH7_REG_SPIS s AND SPIS_SCIP \<noteq> 0) (default_delay R 10) 6000 s
      in if timeout = 0 then (1, [], s1)
         else
           let temp32 = mmio_readl R ICH7_REG_SPIA s1 AND NOT 0x00FFFFFF;
               s2 = mmio_writel R ICH7_REG_SPIA ((offset AND 0x00FFFFFF) OR temp32) s1;
               s3 = (if write_cmd \<and> datalength \<noteq> 0 then ich_fill_data R data datalength ICH7_REG_SPID0 s2 else s2);
               spis = (mmio_readw R ICH7_REG_SPIS s3 AND SPIS_RESERVED_MASK) OR (SPIS_CDS OR SPIS_FCERR);
               s4 = mmio_writew R ICH7_REG_SPIS spis s3;
               len_bits = (if datalength \<noteq> 0
                           then SPIC_DS OR push_bit 8 (word_of_nat (datalength - 1) AND (word_of_nat maxdata - 1)) else 0);
               opcode_index = menu_index R ICH7_REG_OPMENU (oc_opcode op) s4
           in if opcode_index = -1 then (1, [], s4)
              else
                let spic = len_bits OR push_bit 4 (word_of_int opcode_index AND 0x07);
                    spic1 = (if oc_atomic op = 2 then spic OR SPIC_SPOP else spic);
                    atomic = oc_atomic op = 1 \<or> oc_atomic op = 2;
                    spic2 = (if atomic then spic1 OR SPIC_ACS else spic1);
                    s5 = mmio_writew R ICH7_REG_SPIC (spic2 OR SPIC_SCGO) s4;
                    (timeout2, s6) = poll (\<lambda>s. mmio_readw R ICH7_REG_SPIS s AND (SPIS_CDS OR SPIS_FCERR) = 0)
                                       (default_delay R 10) (if atomic then 6000000 else 6000) s5
                in if timeout2 = 0 then (1, [], s6)
                   else
                     let st = mmio_readw R ICH7_REG_SPIS s6
                     in if st AND SPIS_FCERR \<noteq> 0
                        then (1, [], mmio_writew R ICH7_REG_SPIS ((st AND SPIS_RESERVED_MASK) OR SPIS_FCERR) s6)
                        else (0, if \<not> write_cmd \<and> datalength \<noteq> 0 then ich_read_data R datalength ICH7_REG_SPID0 s6 else [], s6))"

definition ich9_run_opcode :: "'s regs \<Rightarrow> swseq \<Rightarrow> opcode \<Rightarrow> 32 word \<Rightarrow> nat \<Rightarrow> bytes \<Rightarrow> 's \<Rightarrow> int \<times> bytes \<times> 's" where
  "ich9_run_opcode R sw op offset datalength data s =
     (let write_cmd = write_type (oc_spi_type op);
          (timeout, s1) = poll (\<lambda>s. mmio_readb R (reg_ssfsc sw) s AND SSFS_SCIP \<noteq> 0) (default_delay R 10) 6000 s
      in if timeout = 0 then (1, [], s1)
         else
           let temp32 = mmio_readl R ICH9_REG_FADDR s1 AND NOT 0x01FFFFFF;
               s2 = mmio_writel R ICH9_REG_FADDR ((offset AND 0x00FFFFFF) OR temp32) s1;
               s3 = (if write_cmd \<and> datalength \<noteq> 0 then ich_fill_data R data datalength ICH9_REG_FDATA0 s2 else s2);
               ssfsc = (mmio_readl R (reg_ssfsc sw) s3 AND (SSFS_RESERVED_MASK OR SSFC_RESERVED_MASK)) OR (SSFS_FDONE OR SSFS_FCERR);
               s4 = mmio_writel R (reg_ssfsc sw) ssfsc s3;
               ssfsc1 = ssfsc OR SSFC_SCF_20MHZ;
               ssfsc2 = (if datalength \<noteq> 0
                         then (ssfsc1 OR SSFC_DS) OR (push_bit 16 (word_of_nat datalength - 1) AND SSFC_DBC) else ssfsc1);
               opcode_index = menu_index R (reg_opmenu sw) (oc_opcode op) s4
           in if opcode_index = -1 then (1, [], s4)
              else
                let ssfsc3 = ssfsc2 OR push_bit 12 (word_of_int opcode_index AND 0x07);
                    ssfsc4 = (if oc_atomic op = 2 then ssfsc3 OR SSFC_SPOP else ssfsc3);
                    atomic = oc_atomic op = 1 \<or> oc_atomic op = 2;
                    ssfsc5 = (if atomic then ssfsc4 OR SSFC_ACS else ssfsc4);
                    s5 = mmio_writel R (reg_ssfsc sw) (ssfsc5 OR SSFC_SCGO) s4;
                    (timeout2, s6) = poll (\<lambda>s. mmio_readl R (reg_ssfsc sw) s AND (SSFS_FDONE OR SSFS_FCERR) = 0)
                                       (default_delay R 10) (if atomic then 6000000 else 6000) s5
                in if timeout2 = 0 then (1, [], s6)
                   else
                     let st = mmio_readl R (reg_ssfsc sw) s6
                     in if st AND SSFS_FCERR \<noteq> 0
                        then (1, [], mmio_writel R (reg_ssfsc sw)
                                ((st AND (SSFS_RESERVED_MASK OR SSFC_RESERVED_MASK)) OR SSFS_FCERR) s6)
                        else (0, if \<not> write_cmd \<and> datalength \<noteq> 0 then ich_read_data R datalength ICH9_REG_FDATA0 s6 else [], s6))"

text \<open>The length is converted to a \<^verbatim>\<open>uint8_t\<close> by the call.\<close>

definition run_opcode :: "'s regs \<Rightarrow> nat \<Rightarrow> opcode \<Rightarrow> 32 word \<Rightarrow> nat \<Rightarrow> bytes \<Rightarrow> 's ich \<Rightarrow> int \<times> bytes \<times> 's ich" where
  "run_opcode R max_data op offset count data st =
     (let datalength = count mod 256; maxlength = max_data mod 256
      in if ich_generation st = CHIPSET_ICH_UNKNOWN then (-1, [], st)
         else if datalength > maxlength then (SPI_INVALID_LENGTH, [], st)
         else
           case (if ich7_family (ich_generation st) then ich7_run_opcode R op offset datalength data maxlength (ich_hw st)
                 else ich9_run_opcode R (swseq_data st) op offset datalength data (ich_hw st)) of
             (r, received, s') \<Rightarrow> (r, received, st\<lparr>ich_hw := s'\<rparr>))"

section \<open>Commands\<close>

text \<open>The address window: the lowest and the end of the addresses that can be reached, and the offset that is added.\<close>

definition addr_window :: "32 word \<Rightarrow> nat \<Rightarrow> 32 word \<times> 32 word \<times> 32 word" where
  "addr_window bbar total_size =
     (let valid_base = bbar AND (word_of_nat (mul32 total_size 1024) - 1);
          addr_offset = bbar - valid_base
      in (valid_base, 0x1000000 - addr_offset, addr_offset))"

definition command_addr :: "bytes \<Rightarrow> 32 word" where
  "command_addr w = push_bit 16 (ucast (w ! 1)) OR push_bit 8 (ucast (w ! 2)) OR ucast (w ! 3)"

text \<open>\<open>total_size\<close> is the size of the chip in KiB, \<open>max_data\<close> the limit of the master. A command without bytes is undefined.\<close>

definition ich_spi_send_command ::
    "'s regs \<Rightarrow> nat \<Rightarrow> nat \<Rightarrow> bytes \<Rightarrow> nat \<Rightarrow> 's ich \<Rightarrow> (int \<times> bytes \<times> 's ich) option" where
  "ich_spi_send_command R max_data total_size writearr readcnt st =
     (case writearr of
        [] \<Rightarrow> None
      | cmd # rest \<Rightarrow>
          Option.bind
            (let index0 = find_opcode (curopcodes st) cmd
             in if index0 = -1 \<and> \<not> ichspi_lock st then reprogram_opcode_on_the_fly R cmd (length writearr) readcnt st
                else Some (index0, st)) (\<lambda>(opcode_index, st1).
            if opcode_index = SPI_INVALID_LENGTH then Some (SPI_INVALID_LENGTH, [], st1)
            else if opcode_index = -1 then Some (SPI_INVALID_OPCODE, [], st1)
            else
              case curopcodes st1 of
                None \<Rightarrow> None
              | Some tab \<Rightarrow>
                  let op = ops_opcode tab ! nat opcode_index; t = oc_spi_type op; writecnt = length writearr
                  in if t = SPI_OPCODE_TYPE_READ_WITH_ADDRESS \<and> writecnt \<noteq> 4 then Some (SPI_INVALID_LENGTH, [], st1)
                     else if t = SPI_OPCODE_TYPE_READ_NO_ADDRESS \<and> writecnt \<noteq> 1 then Some (SPI_INVALID_LENGTH, [], st1)
                     else if t = SPI_OPCODE_TYPE_WRITE_WITH_ADDRESS \<and> writecnt < 4 then Some (SPI_INVALID_LENGTH, [], st1)
                     else if write_type t \<and> readcnt \<noteq> 0 then Some (SPI_INVALID_LENGTH, [], st1)
                     else
                       let (data, count) =
                             (if t = SPI_OPCODE_TYPE_WRITE_NO_ADDRESS then (drop 1 writearr, writecnt - 1)
                              else if t = SPI_OPCODE_TYPE_WRITE_WITH_ADDRESS then (drop 4 writearr, writecnt - 4)
                              else ([], readcnt))
                       in if cmd = JEDEC_REMS \<or> cmd = JEDEC_RES
                          then Some (run_opcode R max_data op (ichspi_bbar st1) count data st1)
                          else if t = SPI_OPCODE_TYPE_READ_WITH_ADDRESS \<or> t = SPI_OPCODE_TYPE_WRITE_WITH_ADDRESS
                          then
                            case addr_window (ichspi_bbar st1) total_size of
                              (valid_base, valid_end, addr_offset) \<Rightarrow>
                                let addr = command_addr writearr; addr_end = addr + word_of_nat count
                                in if addr < valid_base \<or> addr_end < addr \<or> addr_end > valid_end
                                   then Some (SPI_INVALID_ADDRESS, [], st1)
                                   else Some (run_opcode R max_data op (addr + addr_offset) count data st1)
                          else Some (run_opcode R max_data op 0 count data st1)))"

text \<open>Setting the prefix of all opcodes back to none; a null pointer is undefined.\<close>

definition clear_atomic :: "'s ich \<Rightarrow> 's ich option" where
  "clear_atomic st =
     (case curopcodes st of
        None \<Rightarrow> None
      | Some t \<Rightarrow> Some (st\<lparr>curopcodes := Some (t\<lparr>ops_opcode := map (\<lambda>e. e\<lparr>oc_atomic := 0\<rparr>) (ops_opcode t)\<rparr>)\<rparr>))"

definition empty_command :: "bytes \<times> nat \<Rightarrow> bool" where
  "empty_command cmd \<longleftrightarrow> fst cmd = [] \<and> snd cmd = 0"

text \<open>The list ends with an empty command or with the end of the list. The bytes received are given per command sent; a prefix
  command that is merged with the next one contributes an empty list.\<close>

fun ich_multicommand_loop ::
    "'s regs \<Rightarrow> nat \<Rightarrow> nat \<Rightarrow> (bytes \<times> nat) list \<Rightarrow> int \<Rightarrow> 's ich \<Rightarrow> (int \<times> bytes list \<times> 's ich) option" where
  "ich_multicommand_loop R max_data total_size [] ret st = Some (ret, [], st)"
| "ich_multicommand_loop R max_data total_size (cmd # cmds) ret st =
     (if empty_command cmd \<or> ret \<noteq> 0 then Some (ret, [], st)
      else
        let send =
              (\<lambda>st. Option.bind (ich_spi_send_command R max_data total_size (fst cmd) (snd cmd) st) (\<lambda>(r, received, st1).
                 Option.bind (clear_atomic st1) (\<lambda>st2. map_option (\<lambda>(ret', rs, st3). (ret', received # rs, st3))
                   (ich_multicommand_loop R max_data total_size cmds r st2))));
            skip = (\<lambda>st. map_option (\<lambda>(ret', rs, st2). (ret', [] # rs, st2)) (ich_multicommand_loop R max_data total_size cmds ret st))
        in case cmds of
             [] \<Rightarrow> send st
           | next # _ \<Rightarrow>
               if empty_command next then send st
               else if fst cmd = [] \<or> fst next = [] then None
               else
                 let preoppos = find_preop (curopcodes st) (hd (fst cmd));
                     oppos = find_opcode (curopcodes st) (hd (fst next))
                 in if oppos = -1 \<and> preoppos \<noteq> -1 then
                      if find_preop (curopcodes st) (hd (fst next)) \<noteq> -1 then skip st
                      else if \<not> ichspi_lock st then
                        Option.bind (reprogram_opcode_on_the_fly R (hd (fst next)) (length (fst next)) (snd next) st) (\<lambda>(oppos1, st1).
                          if oppos1 = -1 then skip st1
                          else Option.bind (upd_opcode oppos1 (\<lambda>e. e\<lparr>oc_atomic := nat (preoppos + 1)\<rparr>) st1) skip)
                      else send st
                    else if oppos \<noteq> -1 \<and> preoppos \<noteq> -1
                    then Option.bind (upd_opcode oppos (\<lambda>e. e\<lparr>oc_atomic := nat (preoppos + 1)\<rparr>) st) skip
                    else send st)"

definition ich_spi_send_multicommand ::
    "'s regs \<Rightarrow> nat \<Rightarrow> nat \<Rightarrow> (bytes \<times> nat) list \<Rightarrow> 's ich \<Rightarrow> (int \<times> bytes list \<times> 's ich) option" where
  "ich_spi_send_multicommand R max_data total_size cmds st = ich_multicommand_loop R max_data total_size cmds 0 st"

definition ich_spi_probe_opcode :: "u8 \<Rightarrow> 's ich \<Rightarrow> bool" where
  "ich_spi_probe_opcode opc st =
     (let ret = find_opcode (curopcodes st) opc
      in if ret = -1 \<and> lookup_spi_type opc \<le> 3 \<and> \<not> ichspi_lock st then True else 0 \<le> ret)"

definition spi_master_ich :: "'s regs \<Rightarrow> nat \<Rightarrow> 's ich spi_master" where
  "spi_master_ich R total_size = \<lparr>sm_features = 0, sm_max_data_read = 64, sm_max_data_write = 64,
     sm_command = Some (ich_spi_send_command R 64 total_size), sm_multicommand = Some (ich_spi_send_multicommand R 64 total_size),
     sm_probe_opcode = Some ich_spi_probe_opcode\<rparr>"

definition spi_master_via :: "'s regs \<Rightarrow> nat \<Rightarrow> 's ich spi_master" where
  "spi_master_via R total_size = \<lparr>sm_features = 0, sm_max_data_read = 16, sm_max_data_write = 16,
     sm_command = Some (ich_spi_send_command R 16 total_size), sm_multicommand = Some (ich_spi_send_multicommand R 16 total_size),
     sm_probe_opcode = Some ich_spi_probe_opcode\<rparr>"

end
