(* ===== verification/IchHwseq.thy ===== *)
theory IchHwseq
  imports IchSpi Dummy
begin

text \<open>
  The SPI controller of Intel chipsets, hardware sequencing (\<^verbatim>\<open>flashrom/ichspi.c\<close>): transfers, erasing, probing, the
  regions and protected ranges the chipset enforces, and the initialisation that chooses between the two ways.
\<close>

section \<open>Registers\<close>

definition ICH9_REG_HSFS :: nat where "ICH9_REG_HSFS = 0x04"
definition HSFS_FDONE :: "16 word" where "HSFS_FDONE = 0x0001"
definition HSFS_FCERR :: "16 word" where "HSFS_FCERR = 0x0002"
definition HSFS_BERASE_OFF :: nat where "HSFS_BERASE_OFF = 3"
definition HSFS_BERASE :: "16 word" where "HSFS_BERASE = 0x0018"
definition HSFS_SCIP :: "8 word" where "HSFS_SCIP = 0x20"
definition HSFS_FDV :: "16 word" where "HSFS_FDV = 0x4000"
definition HSFS_FLOCKDN :: "16 word" where "HSFS_FLOCKDN = 0x8000"
definition ICH9_REG_HSFC :: nat where "ICH9_REG_HSFC = 0x06"
definition HSFC_FGO :: "16 word" where "HSFC_FGO = 0x0001"
definition HSFC_FDBC_VAL :: "nat \<Rightarrow> 16 word" where "HSFC_FDBC_VAL n = push_bit 8 (word_of_nat n) AND 0x3f00"
definition HSFC_CYCLE_READ :: "16 word" where "HSFC_CYCLE_READ = 0x00"
definition HSFC_CYCLE_WRITE :: "16 word" where "HSFC_CYCLE_WRITE = 0x04"
definition HSFC_CYCLE_BLOCK_ERASE :: "16 word" where "HSFC_CYCLE_BLOCK_ERASE = 0x06"
definition HSFC_CYCLE_RDID :: "16 word" where "HSFC_CYCLE_RDID = 0x0c"
definition HSFC_CYCLE_WR_STATUS :: "16 word" where "HSFC_CYCLE_WR_STATUS = 0x0e"
definition HSFC_CYCLE_RD_STATUS :: "16 word" where "HSFC_CYCLE_RD_STATUS = 0x10"
definition ICH9_HSFC_FCYCLE :: nat where "ICH9_HSFC_FCYCLE = 3 * 2"
definition PCH100_HSFC_FCYCLE :: nat where "PCH100_HSFC_FCYCLE = 0xf * 2"
definition ICH9_FADDR_FLA :: "32 word" where "ICH9_FADDR_FLA = 0x01ffffff"
definition PCH100_FADDR_FLA :: "32 word" where "PCH100_FADDR_FLA = 0x07ffffff"
definition ICH9_REG_FPB :: nat where "ICH9_REG_FPB = 0xD0"
definition FPB_FPBA :: "32 word" where "FPB_FPBA = 0x1FFF"
definition ICH9_REG_FRAP :: nat where "ICH9_REG_FRAP = 0x50"
definition ICH9_REG_FREG0 :: nat where "ICH9_REG_FREG0 = 0x54"
definition APL_REG_FREG12 :: nat where "APL_REG_FREG12 = 0xe0"
definition ICH_REG_BIOS_BM_RAP :: nat where "ICH_REG_BIOS_BM_RAP = 0x118"
definition ICH_REG_BIOS_BM_WAP :: nat where "ICH_REG_BIOS_BM_WAP = 0x11c"
definition ICH9_REG_PR0 :: nat where "ICH9_REG_PR0 = 0x74"
definition PCH100_REG_FPR0 :: nat where "PCH100_REG_FPR0 = 0x84"
definition PR_WP_OFF :: nat where "PR_WP_OFF = 31"
definition PR_RP_OFF :: nat where "PR_RP_OFF = 15"
definition ICH9_REG_SSFS :: nat where "ICH9_REG_SSFS = 0x90"
definition ICH9_REG_PREOP :: nat where "ICH9_REG_PREOP = 0x94"
definition ICH9_REG_OPTYPE :: nat where "ICH9_REG_OPTYPE = 0x96"
definition ICH9_REG_OPMENU :: nat where "ICH9_REG_OPMENU = 0x98"
definition PCH100_REG_SSFSC :: nat where "PCH100_REG_SSFSC = 0xA0"
definition PCH100_REG_PREOP :: nat where "PCH100_REG_PREOP = 0xA4"
definition PCH100_REG_OPTYPE :: nat where "PCH100_REG_OPTYPE = 0xA6"
definition PCH100_REG_OPMENU :: nat where "PCH100_REG_OPMENU = 0xA8"

section \<open>Data\<close>

datatype ich_access_protection = NO_PROT | READ_PROT | WRITE_PROT | LOCKED

record fd_region =
  fd_name :: "string option"
  fd_level :: ich_access_protection
  fd_base :: nat
  fd_limit :: nat

record hwseq_data =
  size_comp0 :: nat
  size_comp1 :: nat
  addr_mask :: "32 word"
  only_4k :: bool
  hsfc_fcycle :: nat
  fd_regions :: "fd_region list"

definition MAX_FD_REGIONS :: nat where "MAX_FD_REGIONS = 16"
definition MAX_PR_REGISTERS :: nat where "MAX_PR_REGISTERS = 6"

section \<open>Transfers\<close>

definition ich_hwseq_set_addr :: "'s regs \<Rightarrow> nat \<Rightarrow> 32 word \<Rightarrow> 's \<Rightarrow> 's" where
  "ich_hwseq_set_addr R addr amask s =
     (let addr_old = mmio_readl R ICH9_REG_FADDR s AND NOT amask
      in mmio_writel R ICH9_REG_FADDR ((word_of_nat addr AND amask) OR addr_old) s)"

definition dec_berase :: "nat list" where
  "dec_berase = [256, 4 * 1024, 8 * 1024, 64 * 1024]"

definition ich_hwseq_get_erase_block_size :: "'s regs \<Rightarrow> nat \<Rightarrow> 32 word \<Rightarrow> bool \<Rightarrow> 's \<Rightarrow> nat \<times> 's" where
  "ich_hwseq_get_erase_block_size R addr amask only4k s =
     (if only4k then (4 * 1024, s)
      else
        let s1 = ich_hwseq_set_addr R addr amask s;
            enc_berase = drop_bit HSFS_BERASE_OFF (mmio_readw R ICH9_REG_HSFS s1 AND HSFS_BERASE)
        in (dec_berase ! unat enc_berase, s1))"

text \<open>\<^verbatim>\<open>REGWRITE16(ICH9_REG_HSFS, REGREAD16(ICH9_REG_HSFS))\<close>: the status bits that are set are cleared by writing them.\<close>

definition clear_hsfs :: "'s regs \<Rightarrow> 's \<Rightarrow> 's" where
  "clear_hsfs R s = mmio_writew R ICH9_REG_HSFS (mmio_readw R ICH9_REG_HSFS s) s"

definition ich_hwseq_wait_for_cycle_complete :: "'s regs \<Rightarrow> 's \<Rightarrow> int \<times> 's" where
  "ich_hwseq_wait_for_cycle_complete R s =
     (let (timeout, s1) = poll (\<lambda>s. mmio_readw R ICH9_REG_HSFS s AND (HSFS_FDONE OR HSFS_FCERR) = 0) (default_delay R 8) 3750000 s;
          hsfs = mmio_readw R ICH9_REG_HSFS s1;
          s2 = clear_hsfs R s1
      in if timeout = 0 then (1, s2)
         else if hsfs AND HSFS_FCERR \<noteq> 0 then (1, s2)
         else (0, s2))"

definition ich_start_hwseq_xfer :: "'s regs \<Rightarrow> 16 word \<Rightarrow> nat \<Rightarrow> nat \<Rightarrow> 32 word \<Rightarrow> 's \<Rightarrow> 's" where
  "ich_start_hwseq_xfer R hsfc_cycle flash_addr len amask s =
     (let s1 = clear_hsfs R (ich_hwseq_set_addr R flash_addr amask s);
          hsfc = hsfc_cycle OR HSFC_FDBC_VAL (len - 1) OR HSFC_FGO
      in mmio_writew R ICH9_REG_HSFC hsfc s1)"

definition ich_wait_for_hwseq_spi_cycle_complete :: "'s regs \<Rightarrow> 's \<Rightarrow> int" where
  "ich_wait_for_hwseq_spi_cycle_complete R s = (if mmio_readb R ICH9_REG_HSFS s AND HSFS_SCIP \<noteq> 0 then 1 else 0)"

definition ich_exec_sync_hwseq_xfer :: "'s regs \<Rightarrow> 16 word \<Rightarrow> nat \<Rightarrow> nat \<Rightarrow> 32 word \<Rightarrow> 's \<Rightarrow> int \<times> 's" where
  "ich_exec_sync_hwseq_xfer R hsfc_cycle flash_addr len amask s =
     (if ich_wait_for_hwseq_spi_cycle_complete R s \<noteq> 0 then (1, s)
      else ich_hwseq_wait_for_cycle_complete R (ich_start_hwseq_xfer R hsfc_cycle flash_addr len amask s))"

section \<open>Regions\<close>

text \<open>The loop over the regions: \<open>r\<close> is the region so far, \<open>name\<close> its name.\<close>

fun get_region_loop :: "nat \<Rightarrow> fd_region list \<Rightarrow> flash_region \<Rightarrow> flash_region" where
  "get_region_loop addr [] r = r"
| "get_region_loop addr (fd # fds) r =
     (if addr < fd_base fd then get_region_loop addr fds (r\<lparr>fr_end := min (fr_end r) (fd_base fd)\<rparr>)
      else if addr > fd_limit fd then get_region_loop addr fds (r\<lparr>fr_start := max (fr_start r) (add32 (fd_limit fd) 1)\<rparr>)
      else \<lparr>fr_name = (case fd_name fd of Some n \<Rightarrow> n | None \<Rightarrow> []), fr_start = fd_base fd, fr_end = fd_limit fd,
            fr_read_prot = (fd_level fd = LOCKED \<or> fd_level fd = READ_PROT),
            fr_write_prot = (fd_level fd = LOCKED \<or> fd_level fd = WRITE_PROT)\<rparr>)"

text \<open>The number of regions is taken from a descriptor that is all zero; \<open>chip_size\<close> is the size of the chip in bytes.\<close>

definition zero_content :: ich_desc_content where
  "zero_content = \<lparr>FLVALSIG = 0, FLMAP0 = 0, FLMAP1 = 0, FLMAP2 = 0\<rparr>"

definition ich_get_region :: "ich_chipset \<Rightarrow> hwseq_data \<Rightarrow> nat \<Rightarrow> nat \<Rightarrow> flash_region" where
  "ich_get_region gen hq chip_size addr =
     (let nr = ich_number_of_regions gen zero_content
      in get_region_loop addr (take (nat nr) (fd_regions hq))
           \<lparr>fr_name = [], fr_start = 0, fr_end = sub32 chip_size 1, fr_read_prot = False, fr_write_prot = False\<rparr>)"

section \<open>Status register and identification\<close>

definition ich_hwseq_read_status :: "'s regs \<Rightarrow> hwseq_data \<Rightarrow> flash_reg \<Rightarrow> 's \<Rightarrow> int \<times> u8 \<times> 's" where
  "ich_hwseq_read_status R hq reg s =
     (if reg \<noteq> STATUS1 then (SPI_INVALID_OPCODE, 0, s)
      else case ich_exec_sync_hwseq_xfer R HSFC_CYCLE_RD_STATUS 1 1 (addr_mask hq) s of
             (r, s1) \<Rightarrow> if r \<noteq> 0 then (-1, 0, s1) else (0, ich_read_data R 1 ICH9_REG_FDATA0 s1 ! 0, s1))"

definition ich_hwseq_write_status :: "'s regs \<Rightarrow> hwseq_data \<Rightarrow> flash_reg \<Rightarrow> u8 \<Rightarrow> 's \<Rightarrow> int \<times> 's" where
  "ich_hwseq_write_status R hq reg v s =
     (if reg \<noteq> STATUS1 then (SPI_INVALID_OPCODE, s)
      else case ich_exec_sync_hwseq_xfer R HSFC_CYCLE_WR_STATUS 1 1 (addr_mask hq) (ich_fill_data R [v] 1 ICH9_REG_FDATA0 s) of
             (r, s1) \<Rightarrow> if r \<noteq> 0 then (-1, s1) else (0, s1))"

text \<open>The chip database is a list of entries, each with a flag that tells whether its probe function is \<^verbatim>\<open>PROBE_SPI_RDID\<close>.\<close>

fun flash_id_to_entry :: "(bool \<times> flashchip) list \<Rightarrow> nat \<Rightarrow> nat \<Rightarrow> flashchip option" where
  "flash_id_to_entry [] mfg_id model_id = None"
| "flash_id_to_entry ((rdid, chip) # chips) mfg_id model_id =
     (if ch_manufacture_id chip = mfg_id \<and> ch_model_id chip = model_id \<and> rdid \<and> ch_bustype chip AND BUS_SPI = BUS_SPI
      then Some chip else flash_id_to_entry chips mfg_id model_id)"

definition ich_hwseq_get_flash_id ::
    "'s regs \<Rightarrow> hwseq_data \<Rightarrow> (bool \<times> flashchip) list \<Rightarrow> flashchip \<Rightarrow> 's \<Rightarrow> flashchip \<times> 's" where
  "ich_hwseq_get_flash_id R hq chips chip s =
     (if size_comp1 hq \<noteq> 0 then (chip, s)
      else if hsfc_fcycle hq \<noteq> PCH100_HSFC_FCYCLE then (chip, s)
      else
        let (r, s1) = ich_exec_sync_hwseq_xfer R HSFC_CYCLE_RDID 1 3 (addr_mask hq) s;
            data = ich_read_data R 3 ICH9_REG_FDATA0 s1
        in case flash_id_to_entry chips (unat (data ! 0)) (unat (data ! 1) * 256 + unat (data ! 2)) of
             None \<Rightarrow> (chip, s1)
           | Some entry \<Rightarrow>
               (chip\<lparr>ch_vendor := ch_vendor entry, ch_name := ch_name entry, ch_manufacture_id := ch_manufacture_id entry,
                     ch_model_id := ch_model_id entry, ch_page_size := ch_page_size entry,
                     ch_feature_bits := ch_feature_bits entry, ch_tested := ch_tested entry\<rparr>, s1))"

text \<open>The changes to \<^verbatim>\<open>eraser->eraseblocks[i]\<close> of the first eraser.\<close>

definition set_blocks :: "flashchip \<Rightarrow> (nat \<times> nat) list \<Rightarrow> flashchip" where
  "set_blocks chip bs =
     (let e = ch_erasers chip ! 0; blocks = map (\<lambda>(sz, cnt). \<lparr>eb_size = sz, eb_count = cnt\<rparr>) bs
      in chip\<lparr>ch_erasers := (ch_erasers chip)[0 := e\<lparr>be_blocks := blocks @ drop (length bs) (be_blocks e)\<rparr>]\<rparr>)"

definition ich_hwseq_probe ::
    "'s regs \<Rightarrow> hwseq_data \<Rightarrow> (bool \<times> flashchip) list \<Rightarrow> flashchip \<Rightarrow> 's \<Rightarrow> int \<times> flashchip \<times> 's" where
  "ich_hwseq_probe R hq chips chip s =
     (let total_size = add32 (size_comp0 hq) (size_comp1 hq);
          chip1 = chip\<lparr>ch_total_size := total_size div 1024\<rparr>;
          boundary = (if \<not> only_4k hq then unat (push_bit 12 (mmio_readl R ICH9_REG_FPB s AND FPB_FPBA)) else 0);
          size_high = sub32 total_size boundary;
          (erase_size_high, s1) = ich_hwseq_get_erase_block_size R boundary (addr_mask hq) (only_4k hq) s;
          (chip2, s2) =
            (if boundary = 0 then (set_blocks chip1 [(erase_size_high, size_high div erase_size_high)], s1)
             else
               let size_low = sub32 total_size size_high;
                   (erase_size_low, s2) = ich_hwseq_get_erase_block_size R 0 (addr_mask hq) (only_4k hq) s1
               in (set_blocks chip1 [(erase_size_low, size_low div erase_size_low), (erase_size_high, size_high div erase_size_high)], s2));
          chip3 = chip2\<lparr>ch_tested := \<lparr>t_probe = OK, t_read = OK, t_erase = OK, t_write = OK, t_wp = OK\<rparr>\<rparr>;
          (chip4, s3) = ich_hwseq_get_flash_id R hq chips chip3 s2
      in (1, chip4, s3))"

section \<open>Reading, writing and erasing\<close>

definition ich_hwseq_block_erase :: "'s regs \<Rightarrow> hwseq_data \<Rightarrow> nat \<Rightarrow> nat \<Rightarrow> nat \<Rightarrow> 's \<Rightarrow> int \<times> 's" where
  "ich_hwseq_block_erase R hq total_size addr len s =
     (let (erase_block, s1) = ich_hwseq_get_erase_block_size R addr (addr_mask hq) (only_4k hq) s
      in if len \<noteq> erase_block then (-1, s1)
         else if addr mod erase_block \<noteq> 0 then (-1, s1)
         else if add32 addr len > mul32 total_size 1024 then (-1, s1)
         else case ich_exec_sync_hwseq_xfer R HSFC_CYCLE_BLOCK_ERASE addr 1 (addr_mask hq) s1 of
                (r, s2) \<Rightarrow> if r \<noteq> 0 then (-1, s2) else (0, s2))"

text \<open>The limit \<^verbatim>\<open>max_data_read\<close> and \<^verbatim>\<open>max_data_write\<close> of \<^verbatim>\<open>opaque_master_ich_hwseq\<close>, and the length of the next block.\<close>

definition hwseq_max_data :: nat where "hwseq_max_data = 64"

definition hwseq_block_len :: "nat \<Rightarrow> nat \<Rightarrow> nat" where
  "hwseq_block_len addr len = min (min len hwseq_max_data) (256 - addr mod 256)"

lemma hwseq_block_len_bounds: "0 < len \<Longrightarrow> 0 < hwseq_block_len addr len" "hwseq_block_len addr len \<le> len" "hwseq_block_len addr len \<le> 64"
  by (simp_all add: hwseq_block_len_def hwseq_max_data_def)

function hwseq_read_loop :: "'s regs \<Rightarrow> 32 word \<Rightarrow> nat \<Rightarrow> nat \<Rightarrow> 's \<Rightarrow> int \<times> bytes \<times> 's" where
  "hwseq_read_loop R amask addr len s =
     (if len > 0 then
        let block_len = hwseq_block_len addr len
        in case ich_exec_sync_hwseq_xfer R HSFC_CYCLE_READ addr block_len amask s of
             (r, s1) \<Rightarrow>
               if r \<noteq> 0 then (1, [], s1)
               else
                 let data = ich_read_data R block_len ICH9_REG_FDATA0 s1
                 in case hwseq_read_loop R amask (add32 addr block_len) (len - block_len) s1 of
                      (r', rest, s2) \<Rightarrow> (r', data @ rest, s2)
      else (0, [], s))"
  by pat_completeness auto
termination
  by (relation "measure (\<lambda>(R, amask, addr, len, s). len)") (use hwseq_block_len_bounds in auto)

declare hwseq_read_loop.simps [simp del]

text \<open>The bytes are those stored in the buffer, also when the function fails.\<close>

definition ich_hwseq_read :: "'s regs \<Rightarrow> hwseq_data \<Rightarrow> nat \<Rightarrow> nat \<Rightarrow> nat \<Rightarrow> 's \<Rightarrow> int \<times> bytes \<times> 's" where
  "ich_hwseq_read R hq total_size addr len s =
     (if add32 addr len > mul32 total_size 1024 then (-1, [], s)
      else hwseq_read_loop R (addr_mask hq) addr len (clear_hsfs R s))"

function hwseq_write_loop :: "'s regs \<Rightarrow> 32 word \<Rightarrow> bytes \<Rightarrow> nat \<Rightarrow> nat \<Rightarrow> 's \<Rightarrow> int \<times> 's" where
  "hwseq_write_loop R amask buf addr len s =
     (if len > 0 then
        let block_len = hwseq_block_len addr len
        in case ich_exec_sync_hwseq_xfer R HSFC_CYCLE_WRITE addr block_len amask (ich_fill_data R buf block_len ICH9_REG_FDATA0 s) of
             (r, s1) \<Rightarrow>
               if r \<noteq> 0 then (-1, s1)
               else hwseq_write_loop R amask (drop block_len buf) (add32 addr block_len) (len - block_len) s1
      else (0, s))"
  by pat_completeness auto
termination
  by (relation "measure (\<lambda>(R, amask, buf, addr, len, s). len)") (use hwseq_block_len_bounds in auto)

declare hwseq_write_loop.simps [simp del]

definition ich_hwseq_write :: "'s regs \<Rightarrow> hwseq_data \<Rightarrow> nat \<Rightarrow> bytes \<Rightarrow> nat \<Rightarrow> nat \<Rightarrow> 's \<Rightarrow> int \<times> 's" where
  "ich_hwseq_write R hq total_size buf addr len s =
     (if add32 addr len > mul32 total_size 1024 then (-1, s)
      else hwseq_write_loop R (addr_mask hq) buf addr len (clear_hsfs R s))"

end
