(* ===== verification/IchHwseqOk.thy ===== *)
theory IchHwseqOk
  imports IchHwseq
begin

text \<open>
  Hardware sequencing on a controller that behaves as documented. The interface \<open>ich_controller\<close> states what the registers
  promise: the address and data registers hold what is written, a cycle that is started ends in time, and it reads,
  programs or erases the chip. Under it the driver reads, writes and erases what it is asked to.
\<close>

section \<open>Polling\<close>

lemma poll_done:
  assumes "\<And>j. j < k \<Longrightarrow> busy ((wait ^^ j) s)" and "\<not> busy ((wait ^^ k) s)" and "k < timeout"
  shows "poll busy wait timeout s = (timeout - k, (wait ^^ k) s)"
  using assms
proof (induction k arbitrary: s timeout)
  case 0
  then show ?case by (subst poll.simps) simp
next
  case (Suc k)
  have b: "busy s" using Suc.prems(1) [of 0] by simp
  have sh: "(wait ^^ j) (wait s) = (wait ^^ Suc j) s" for j by (simp add: funpow_swap1)
  have "poll busy wait (timeout - 1) (wait s) = (timeout - 1 - k, (wait ^^ k) (wait s))"
    using Suc.prems(2,3) by (intro Suc.IH) (simp_all only: sh Suc.prems(1) Suc_less_eq, simp)
  with b Suc.prems(3) show ?case by (subst poll.simps) (simp add: funpow_Suc_right del: funpow.simps)
qed

section \<open>Data registers\<close>

text \<open>Byte \<open>i\<close> of the data registers.\<close>

definition fdata_byte :: "'s regs \<Rightarrow> 's \<Rightarrow> nat \<Rightarrow> u8" where
  "fdata_byte R s i = ucast (drop_bit (i mod 4 * 8) (mmio_readl R (ICH9_REG_FDATA0 + 4 * (i div 4)) s))"

lemma read_loop_eq:
  assumes "i mod 4 \<noteq> 0 \<longrightarrow> temp = mmio_readl R (ICH9_REG_FDATA0 + 4 * (i div 4)) s"
  shows "read_loop R len ICH9_REG_FDATA0 i temp s = map (fdata_byte R s) [i..<len]"
  using assms
proof (induction "len - i" arbitrary: i temp)
  case 0
  then show ?case by (subst read_loop.simps) simp
next
  case (Suc k)
  then have i: "i < len" "k = len - Suc i" by simp_all
  let ?w = "mmio_readl R (ICH9_REG_FDATA0 + 4 * (i div 4)) s"
  have t: "(if i mod 4 = 0 then mmio_readl R (ICH9_REG_FDATA0 + i) s else temp) = ?w"
  proof (cases "i mod 4 = 0")
    case True
    moreover have "4 * (i div 4) + i mod 4 = i" by simp
    ultimately have "4 * (i div 4) = i" by linarith
    with True show ?thesis by simp
  qed (use Suc.prems in simp)
  have "Suc i mod 4 \<noteq> 0 \<longrightarrow> ?w = mmio_readl R (ICH9_REG_FDATA0 + 4 * (Suc i div 4)) s"
    by (auto simp: div_Suc mod_Suc split: if_splits)
  from Suc.hyps(1) [OF i(2) this] show ?case
    using i(1) by (subst read_loop.simps) (simp add: t Let_def upt_conv_Cons fdata_byte_def)
qed

lemma ich_read_data_eq: "ich_read_data R len ICH9_REG_FDATA0 s = map (fdata_byte R s) [0..<len]"
  unfolding ich_read_data_def by (rule read_loop_eq) simp

definition byte_of :: "32 word \<Rightarrow> nat \<Rightarrow> u8" where
  "byte_of w m = ucast (drop_bit (m * 8) w)"

lemma fdata_byte_of: "fdata_byte R s i = byte_of (mmio_readl R (ICH9_REG_FDATA0 + 4 * (i div 4)) s) (i mod 4)"
  by (simp add: fdata_byte_def byte_of_def)

lemma byte_of_or: "byte_of (a OR b) m = byte_of a m OR byte_of b m"
  by (rule bit_eqI) (simp add: byte_of_def bit_simps)

lemma byte_of_zero: "byte_of 0 m = 0"
  by (simp add: byte_of_def)

lemma byte_of_push: "m < 4 \<Longrightarrow> k < 4 \<Longrightarrow> byte_of (push_bit (k * 8) (ucast (b :: u8))) m = (if m = k then b else 0)"
proof -
  assume mk: "m < 4" "k < 4"
  have "bit (byte_of (push_bit (k * 8) (ucast b)) m) n = bit (if m = k then b else 0) n" if "n < 8" for n
  proof -
    have "k * 8 \<le> m * 8 + n \<and> m * 8 + n - k * 8 < 8 \<longleftrightarrow> m = k" using that by auto
    moreover have "m * 8 + n < 32" using mk that by simp
    ultimately show ?thesis using that by (auto simp: byte_of_def bit_simps dest: bit_imp_le_length)
  qed
  then show ?thesis by (intro bit_word_eqI) simp
qed

section \<open>The interface\<close>

text \<open>The \<open>k\<close>-th state while a cycle runs and the driver waits, and the end of the cycle: no status bit before it, then the done bit
  without the error bit, within 30 seconds.\<close>

definition cycle_done :: "'s regs \<Rightarrow> 's \<Rightarrow> 's \<Rightarrow> bool" where
  "cycle_done R s t \<longleftrightarrow>
     (\<exists>k < 3750000. (\<forall>j < k. mmio_readw R ICH9_REG_HSFS ((default_delay R 8 ^^ j) s) AND (HSFS_FDONE OR HSFS_FCERR) = 0) \<and>
        t = (default_delay R 8 ^^ k) s \<and> mmio_readw R ICH9_REG_HSFS t AND HSFS_FDONE \<noteq> 0 \<and>
        mmio_readw R ICH9_REG_HSFS t AND HSFS_FCERR = 0)"

definition start_cycle :: "'s regs \<Rightarrow> 16 word \<Rightarrow> nat \<Rightarrow> 's \<Rightarrow> 's" where
  "start_cycle R cyc len s = mmio_writew R ICH9_REG_HSFC (cyc OR HSFC_FDBC_VAL (len - 1) OR HSFC_FGO) s"

definition flash_addr :: "'s regs \<Rightarrow> 32 word \<Rightarrow> 's \<Rightarrow> nat" where
  "flash_addr R amask s = unat (mmio_readl R ICH9_REG_FADDR s AND amask)"

text \<open>Neither status bit of an earlier cycle is set.\<close>

definition status_clear :: "'s regs \<Rightarrow> 's \<Rightarrow> bool" where
  "status_clear R s \<longleftrightarrow> mmio_readw R ICH9_REG_HSFS s AND (HSFS_FDONE OR HSFS_FCERR) = 0"

text \<open>Two states with the same chip and data registers.\<close>

definition same_data :: "'s regs \<Rightarrow> ('s \<Rightarrow> bytes) \<Rightarrow> 's \<Rightarrow> 's \<Rightarrow> bool" where
  "same_data R mem s s' \<longleftrightarrow> mem s' = mem s \<and>
     (\<forall>j < 16. mmio_readl R (ICH9_REG_FDATA0 + 4 * j) s' = mmio_readl R (ICH9_REG_FDATA0 + 4 * j) s)"

text \<open>\<open>n\<close> is the size of the chip, \<open>bits\<close> the width of its addresses, \<open>es\<close> the size of an erase block; \<open>hw_ok\<close> are the states in
  which no cycle runs.\<close>

locale ich_controller =
  fixes R :: "'s regs" and hq :: hwseq_data and n :: nat and bits :: nat and es :: nat
    and hw_ok :: "'s \<Rightarrow> bool" and mem :: "'s \<Rightarrow> bytes"
  assumes sizes: "n = size_comp0 hq + size_comp1 hq" "1024 dvd n" "0 < n" "n < 2147483648"
    and mask_bits: "addr_mask hq = mask bits" "n \<le> 2 ^ bits" "bits \<le> 32"
    and blocks: "es dvd n" "es \<in> set dec_berase" "only_4k hq \<longrightarrow> es = 4096"
    and mem_length: "hw_ok s \<Longrightarrow> length (mem s) = n"
    and idle: "hw_ok s \<Longrightarrow> mmio_readb R ICH9_REG_HSFS s AND HSFS_SCIP = 0"
    and one_partition: "hw_ok s \<Longrightarrow> \<not> only_4k hq \<Longrightarrow>
      mmio_readl R ICH9_REG_FPB s AND FPB_FPBA = 0 \<and>
      dec_berase ! unat (drop_bit HSFS_BERASE_OFF (mmio_readw R ICH9_REG_HSFS s AND HSFS_BERASE)) = es"
    and write_addr: "hw_ok s \<Longrightarrow> hw_ok (mmio_writel R ICH9_REG_FADDR v s) \<and>
      mmio_readl R ICH9_REG_FADDR (mmio_writel R ICH9_REG_FADDR v s) = v \<and> same_data R mem s (mmio_writel R ICH9_REG_FADDR v s)"
    and write_data: "hw_ok s \<Longrightarrow> k < 16 \<Longrightarrow> hw_ok (mmio_writel R (ICH9_REG_FDATA0 + 4 * k) v s) \<and>
      mem (mmio_writel R (ICH9_REG_FDATA0 + 4 * k) v s) = mem s \<and>
      (\<forall>j < 16. mmio_readl R (ICH9_REG_FDATA0 + 4 * j) (mmio_writel R (ICH9_REG_FDATA0 + 4 * k) v s) =
         (if j = k then v else mmio_readl R (ICH9_REG_FDATA0 + 4 * j) s))"
    and write_status: "hw_ok s \<Longrightarrow> hw_ok (mmio_writew R ICH9_REG_HSFS w s) \<and> same_data R mem s (mmio_writew R ICH9_REG_HSFS w s) \<and>
      mmio_readl R ICH9_REG_FADDR (mmio_writew R ICH9_REG_HSFS w s) = mmio_readl R ICH9_REG_FADDR s"
    and write_clears: "hw_ok s \<Longrightarrow> status_clear R (mmio_writew R ICH9_REG_HSFS (mmio_readw R ICH9_REG_HSFS s) s)"
    and read_cycle: "hw_ok s \<Longrightarrow> status_clear R s \<Longrightarrow> flash_addr R (addr_mask hq) s = a \<Longrightarrow> 0 < len \<Longrightarrow> len \<le> 64 \<Longrightarrow> a + len \<le> n \<Longrightarrow>
      a mod 256 + len \<le> 256 \<Longrightarrow>
      \<exists>t. cycle_done R (start_cycle R HSFC_CYCLE_READ len s) t \<and> hw_ok t \<and> mem t = mem s \<and>
        (\<forall>i < len. fdata_byte R t i = mem s ! (a + i))"
    and write_cycle: "hw_ok s \<Longrightarrow> status_clear R s \<Longrightarrow> flash_addr R (addr_mask hq) s = a \<Longrightarrow> 0 < len \<Longrightarrow> len \<le> 64 \<Longrightarrow> a + len \<le> n \<Longrightarrow>
      a mod 256 + len \<le> 256 \<Longrightarrow>
      \<exists>t. cycle_done R (start_cycle R HSFC_CYCLE_WRITE len s) t \<and> hw_ok t \<and>
        mem t = blit a (map (\<lambda>i. mem s ! (a + i) AND fdata_byte R s i) [0..<len]) (mem s)"
    and erase_cycle: "hw_ok s \<Longrightarrow> status_clear R s \<Longrightarrow> flash_addr R (addr_mask hq) s = a \<Longrightarrow> es dvd a \<Longrightarrow> a + es \<le> n \<Longrightarrow>
      \<exists>t. cycle_done R (start_cycle R HSFC_CYCLE_BLOCK_ERASE 1 s) t \<and> hw_ok t \<and> mem t = memset_at a 0xff es (mem s)"
    and delay_idle: "hw_ok s \<Longrightarrow> hw_ok (default_delay R us s) \<and> mem (default_delay R us s) = mem s"
begin

text \<open>Filling the data registers.\<close>

lemma fill_loop_ok:
  assumes "hw_ok s" and "len \<le> 64" and "i \<le> len"
    and "\<And>m. m < 4 \<Longrightarrow> i mod 4 \<noteq> 0 \<Longrightarrow> byte_of temp m = (if m < i mod 4 then data ! (i - i mod 4 + m) else 0)"
    and "\<And>j. j < i - i mod 4 \<Longrightarrow> fdata_byte R s j = data ! j"
  shows "\<exists>temp' s'. fill_loop R data len ICH9_REG_FDATA0 i temp s = (temp', s') \<and> hw_ok s' \<and> mem s' = mem s \<and>
    (\<forall>m < 4. len mod 4 \<noteq> 0 \<longrightarrow> byte_of temp' m = (if m < len mod 4 then data ! (len - len mod 4 + m) else 0)) \<and>
    (\<forall>j < len - len mod 4. fdata_byte R s' j = data ! j)"
  using assms(1,3-5)
proof (induction "len - i" arbitrary: i temp s)
  case 0
  then have "i = len" by simp
  with 0 show ?case by (subst fill_loop.simps) simp
next
  case (Suc k)
  then have i: "i < len" "k = len - Suc i" by simp_all
  define t1 where "t1 = (if i mod 4 = 0 then 0 else temp) OR push_bit (i mod 4 * 8) (ucast (data ! i))"
  have b1: "byte_of t1 m = (if m \<le> i mod 4 then data ! (i - i mod 4 + m) else 0)" if "m < 4" for m
    using Suc.prems(3) [OF that] that by (auto simp: t1_def byte_of_or byte_of_push byte_of_zero)
  define s1 where "s1 = (if i mod 4 = 3 then mmio_writel R (ICH9_REG_FDATA0 + (i - i mod 4)) t1 s else s)"
  have step: "fill_loop R data len ICH9_REG_FDATA0 i temp s = fill_loop R data len ICH9_REG_FDATA0 (Suc i) t1 s1"
    using i(1) by (subst fill_loop.simps) (simp add: t1_def s1_def Let_def)
  show ?case
  proof (cases "i mod 4 = 3")
    case True
    have al: "i - i mod 4 = 4 * (i div 4)" by (simp add: minus_mod_eq_mult_div)
    have k16: "i div 4 < 16" using i(1) assms(2) by (simp add: div_less_iff_less_mult)
    note w = write_data [OF Suc.prems(1) k16, of t1, folded al]
    have s1: "s1 = mmio_writel R (ICH9_REG_FDATA0 + (i - i mod 4)) t1 s" using True by (simp add: s1_def)
    have nx: "Suc i mod 4 = 0" "Suc i - Suc i mod 4 = 4 * (i div 4) + 4" using True al by (simp_all add: mod_Suc)
    have "fdata_byte R s1 j = data ! j" if j: "j < Suc i - Suc i mod 4" for j
    proof (cases "j div 4 = i div 4")
      case same: True
      have "fdata_byte R s1 j = byte_of t1 (j mod 4)" unfolding fdata_byte_of s1 using w k16 same by simp
      also have "\<dots> = data ! (4 * (i div 4) + j mod 4)" using b1 [of "j mod 4"] True al by auto
      also have "4 * (i div 4) + j mod 4 = j" unfolding same [symmetric] by simp
      finally show ?thesis .
    next
      case False
      have "j div 4 < Suc (i div 4)" using j nx(2) by (simp add: div_less_iff_less_mult)
      with False have "j div 4 < i div 4" by simp
      then have lt: "j < 4 * (i div 4)" by (simp add: div_less_iff_less_mult mult.commute)
      then have "j div 4 < 16" using k16 by simp
      then have "fdata_byte R s1 j = fdata_byte R s j" unfolding fdata_byte_of s1 using w False by simp
      with Suc.prems(4) lt al show ?thesis by simp
    qed
    with Suc.hyps(1) [OF i(2), of s1 t1] w i(1) nx(1) s1 show ?thesis unfolding step by auto
  next
    case False
    then have nx: "Suc i mod 4 = Suc (i mod 4)" "Suc i - Suc i mod 4 = i - i mod 4"
      by (simp_all add: mod_Suc)
    have s1: "s1 = s" using False by (simp add: s1_def)
    show ?thesis unfolding step s1
      using Suc.hyps(1) [OF i(2), of s t1] Suc.prems i(1) nx b1 by (simp add: less_Suc_eq_le)
  qed
qed

lemma ich_fill_data_ok:
  assumes "hw_ok s" and "0 < len" and "len \<le> 64"
  shows "\<exists>s'. ich_fill_data R data len ICH9_REG_FDATA0 s = s' \<and> hw_ok s' \<and> mem s' = mem s \<and> (\<forall>i < len. fdata_byte R s' i = data ! i)"
proof -
  obtain t s1 where f: "fill_loop R data len ICH9_REG_FDATA0 0 0 s = (t, s1)" "hw_ok s1" "mem s1 = mem s"
    "\<forall>m < 4. len mod 4 \<noteq> 0 \<longrightarrow> byte_of t m = (if m < len mod 4 then data ! (len - len mod 4 + m) else 0)"
    "\<forall>j < len - len mod 4. fdata_byte R s1 j = data ! j"
    using fill_loop_ok [OF assms(1,3), of 0 0 data] by auto
  show ?thesis
  proof (cases "len mod 4 = 0")
    case True
    then have "(len - 1) mod 4 = 3" using assms(2) by (cases len) (auto simp: mod_Suc split: if_splits)
    with f True assms(2) show ?thesis by (simp add: ich_fill_data_def Let_def)
  next
    case False
    have m: "(len - 1) mod 4 = len mod 4 - 1" "(len - 1) - (len - 1) mod 4 = 4 * (len div 4)" "(len - 1) mod 4 \<noteq> 3"
      using False assms(2) by (cases len; auto simp: mod_Suc div_Suc minus_mod_eq_mult_div [symmetric] split: if_splits)+
    have k16: "len div 4 < 16" using assms(3) False by (cases "len = 64") auto
    note w = write_data [OF f(2) k16, of t]
    define s' where "s' = mmio_writel R (ICH9_REG_FDATA0 + 4 * (len div 4)) t s1"
    have run: "ich_fill_data R data len ICH9_REG_FDATA0 s = s'"
      using f(1) m assms(2) by (simp add: ich_fill_data_def Let_def s'_def)
    have "fdata_byte R s' i = data ! i" if i: "i < len" for i
    proof (cases "i div 4 = len div 4")
      case True
      have eq: "4 * (i div 4) + i mod 4 = i" "4 * (len div 4) + len mod 4 = len" by simp_all
      then have lt: "i mod 4 < len mod 4" using i True by linarith
      have "fdata_byte R s' i = byte_of t (i mod 4)" unfolding fdata_byte_of s'_def using w k16 True by simp
      also have "\<dots> = data ! (len - len mod 4 + i mod 4)" using f(4) False lt by simp
      also have "len - len mod 4 + i mod 4 = i" using eq True by linarith
      finally show ?thesis .
    next
      case other: False
      have eq: "4 * (i div 4) + i mod 4 = i" "4 * (len div 4) + len mod 4 = len" by simp_all
      have "i div 4 \<le> len div 4" using i by (intro div_le_mono) simp
      with other have lt: "i div 4 < len div 4" by simp
      have "i mod 4 < 4" by simp
      then have "i < len - len mod 4" using eq lt by linarith
      moreover have "fdata_byte R s' i = fdata_byte R s1 i" unfolding fdata_byte_of s'_def using w lt k16 by simp
      ultimately show ?thesis using f(5) by simp
    qed
    with w f(3) run show ?thesis by (auto simp: s'_def)
  qed
qed

text \<open>The address register.\<close>

lemma set_addr_ok:
  assumes "hw_ok s" and "a < n"
  shows "\<exists>s'. ich_hwseq_set_addr R a (addr_mask hq) s = s' \<and> hw_ok s' \<and> same_data R mem s s' \<and> flash_addr R (addr_mask hq) s' = a"
proof -
  let ?v = "(word_of_nat a AND addr_mask hq) OR (mmio_readl R ICH9_REG_FADDR s AND NOT (addr_mask hq))"
  have m: "a < 2 ^ bits" using assms(2) mask_bits(2) by simp
  have a: "?v AND addr_mask hq = word_of_nat a AND addr_mask hq" by (rule bit_eqI) (auto simp: bit_simps)
  have "unat (word_of_nat a AND addr_mask hq :: 32 word) = take_bit bits (take_bit 32 a)"
    unfolding mask_bits(1) take_bit_eq_mask [symmetric] by (simp add: unsigned_take_bit_eq unsigned_of_nat)
  also have "\<dots> = a" using m mask_bits(3) power_increasing [of bits 32 "2 :: nat"] by (simp add: take_bit_nat_eq_self)
  finally have "unat (word_of_nat a AND addr_mask hq :: 32 word) = a" .
  with write_addr [OF assms(1), of ?v] a show ?thesis
    by (simp add: ich_hwseq_set_addr_def flash_addr_def Let_def)
qed

lemma same_data_trans: "same_data R mem s t \<Longrightarrow> same_data R mem t u \<Longrightarrow> same_data R mem s u"
  by (simp add: same_data_def)

lemma same_data_byte: "same_data R mem s t \<Longrightarrow> i < 64 \<Longrightarrow> fdata_byte R t i = fdata_byte R s i"
  by (simp add: same_data_def fdata_byte_def)

lemma clear_hsfs_ok:
  "hw_ok s \<Longrightarrow> hw_ok (clear_hsfs R s) \<and> same_data R mem s (clear_hsfs R s) \<and>
     flash_addr R amask (clear_hsfs R s) = flash_addr R amask s \<and> status_clear R (clear_hsfs R s)"
  using write_status [of s] write_clears [of s] by (simp add: clear_hsfs_def flash_addr_def)

text \<open>A transfer is the start of a cycle in a state with the address set, and its end.\<close>

lemma exec_ok:
  assumes "hw_ok s" and "a < n"
  shows "\<exists>s1. hw_ok s1 \<and> status_clear R s1 \<and> same_data R mem s s1 \<and> flash_addr R (addr_mask hq) s1 = a \<and>
    (\<forall>t. cycle_done R (start_cycle R cyc len s1) t \<and> hw_ok t \<longrightarrow>
       (\<exists>s'. ich_exec_sync_hwseq_xfer R cyc a len (addr_mask hq) s = (0, s') \<and> hw_ok s' \<and> same_data R mem t s'))"
proof -
  obtain s0 where s0: "ich_hwseq_set_addr R a (addr_mask hq) s = s0" "hw_ok s0" "same_data R mem s s0"
    "flash_addr R (addr_mask hq) s0 = a" using set_addr_ok [OF assms] by blast
  define s1 where "s1 = clear_hsfs R s0"
  have s1: "hw_ok s1" "status_clear R s1" "same_data R mem s s1" "flash_addr R (addr_mask hq) s1 = a"
    using clear_hsfs_ok [OF s0(2)] s0(3,4) by (auto simp: s1_def intro: same_data_trans)
  have start: "ich_start_hwseq_xfer R cyc a len (addr_mask hq) s = start_cycle R cyc len s1"
    by (simp add: ich_start_hwseq_xfer_def s0(1) s1_def start_cycle_def Let_def)
  have "\<exists>s'. ich_exec_sync_hwseq_xfer R cyc a len (addr_mask hq) s = (0, s') \<and> hw_ok s' \<and> same_data R mem t s'"
    if t: "cycle_done R (start_cycle R cyc len s1) t" "hw_ok t" for t
  proof -
    let ?g = "start_cycle R cyc len s1"
    obtain k where k: "k < 3750000" "\<And>j. j < k \<Longrightarrow> mmio_readw R ICH9_REG_HSFS ((default_delay R 8 ^^ j) ?g) AND (HSFS_FDONE OR HSFS_FCERR) = 0"
      "t = (default_delay R 8 ^^ k) ?g" "mmio_readw R ICH9_REG_HSFS t AND HSFS_FDONE \<noteq> 0" "mmio_readw R ICH9_REG_HSFS t AND HSFS_FCERR = 0"
      using t(1) unfolding cycle_done_def by blast
    have "mmio_readw R ICH9_REG_HSFS t AND (HSFS_FDONE OR HSFS_FCERR) \<noteq> 0" using k(4,5) by (simp add: bit.conj_disj_distrib)
    then have "poll (\<lambda>s. mmio_readw R ICH9_REG_HSFS s AND (HSFS_FDONE OR HSFS_FCERR) = 0) (default_delay R 8) 3750000 ?g = (3750000 - k, t)"
      unfolding k(3) using k(1,2) by (intro poll_done) simp_all
    then have "ich_hwseq_wait_for_cycle_complete R ?g = (0, clear_hsfs R t)"
      using k(1,5) by (simp add: ich_hwseq_wait_for_cycle_complete_def Let_def)
    then show ?thesis
      using clear_hsfs_ok [OF t(2)] idle [OF assms(1)]
      by (simp add: ich_exec_sync_hwseq_xfer_def ich_wait_for_hwseq_spi_cycle_complete_def start)
  qed
  with s1 show ?thesis by blast
qed

lemma block_len_page: "0 < len \<Longrightarrow> a mod 256 + hwseq_block_len a len \<le> 256"
  using mod_less_divisor [of 256 a] by (simp add: hwseq_block_len_def)

lemma read_loop_ok:
  "hw_ok s \<Longrightarrow> a + len \<le> n \<Longrightarrow>
     \<exists>s'. hwseq_read_loop R (addr_mask hq) a len s = (0, bslice a len (mem s), s') \<and> hw_ok s' \<and> mem s' = mem s"
proof (induction len arbitrary: a s rule: less_induct)
  case (less len)
  show ?case
  proof (cases "len = 0")
    case True
    with less.prems show ?thesis by (subst hwseq_read_loop.simps) (simp add: bslice_def)
  next
    case False
    define bl where "bl = hwseq_block_len a len"
    have bl: "0 < bl" "bl \<le> len" "bl \<le> 64" "a mod 256 + bl \<le> 256" "a + bl \<le> n" "a < n"
      using hwseq_block_len_bounds(1) [of len a] hwseq_block_len_bounds(2,3) [of a len] block_len_page [of len a] False less.prems(2) by (simp_all add: bl_def)
    obtain s1 where s1: "hw_ok s1" "same_data R mem s s1" "flash_addr R (addr_mask hq) s1 = a" "status_clear R s1"
      "\<And>t. cycle_done R (start_cycle R HSFC_CYCLE_READ bl s1) t \<Longrightarrow> hw_ok t \<Longrightarrow>
         \<exists>s'. ich_exec_sync_hwseq_xfer R HSFC_CYCLE_READ a bl (addr_mask hq) s = (0, s') \<and> hw_ok s' \<and> same_data R mem t s'"
      using exec_ok [OF less.prems(1) bl(6)] by metis
    obtain t where t: "cycle_done R (start_cycle R HSFC_CYCLE_READ bl s1) t" "hw_ok t" "mem t = mem s1"
      "\<forall>i < bl. fdata_byte R t i = mem s1 ! (a + i)"
      using read_cycle [OF s1(1,4,3) bl(1,3,5,4)] by blast
    obtain s2 where s2: "ich_exec_sync_hwseq_xfer R HSFC_CYCLE_READ a bl (addr_mask hq) s = (0, s2)" "hw_ok s2" "same_data R mem t s2"
      using s1(5) [OF t(1,2)] by blast
    have mem2: "mem s2 = mem s" using s1(2) s2(3) t(3) by (simp add: same_data_def)
    have data: "ich_read_data R bl ICH9_REG_FDATA0 s2 = bslice a bl (mem s)"
      using t(4) bl(3,5) mem_length [OF less.prems(1)] s1(2) same_data_byte [OF s2(3)]
      by (intro nth_equalityI) (auto simp: ich_read_data_eq same_data_def buf_simps)
    have nx: "add32 a bl = a + bl" using bl sizes by (simp add: c_simps)
    obtain s3 where s3: "hwseq_read_loop R (addr_mask hq) (a + bl) (len - bl) s2 = (0, bslice (a + bl) (len - bl) (mem s), s3)"
      "hw_ok s3" "mem s3 = mem s"
      using less.IH [of "len - bl" s2 "a + bl"] bl less.prems(2) s2(2) mem2 by auto
    have "hwseq_read_loop R (addr_mask hq) a len s = (0, bslice a bl (mem s) @ bslice (a + bl) (len - bl) (mem s), s3)"
      using False by (subst hwseq_read_loop.simps) (simp add: s2(1) data nx s3(1) Let_def flip: bl_def)
    moreover have "bslice a bl (mem s) @ bslice (a + bl) (len - bl) (mem s) = bslice a len (mem s)"
      using bslice_add [of a bl "len - bl" "mem s"] bl less.prems mem_length [OF less.prems(1)] by simp
    ultimately show ?thesis using s3 by simp
  qed
qed

lemma hwseq_read_ok:
  assumes "hw_ok s" and "a + len \<le> n"
  shows "\<exists>s'. ich_hwseq_read R hq (n div 1024) a len s = (0, bslice a len (mem s), s') \<and> hw_ok s' \<and> mem s' = mem s"
proof -
  have "add32 a len = a + len" "mul32 (n div 1024) 1024 = n" using assms(2) sizes by (simp_all add: c_simps)
  with read_loop_ok [of "clear_hsfs R s" a len] clear_hsfs_ok [OF assms(1)] assms show ?thesis
    by (auto simp: ich_hwseq_read_def same_data_def)
qed

lemma write_loop_ok:
  "hw_ok s \<Longrightarrow> a + len \<le> n \<Longrightarrow> len \<le> length buf \<Longrightarrow> (\<And>i. i < len \<Longrightarrow> mem s ! (a + i) AND buf ! i = buf ! i) \<Longrightarrow>
     \<exists>s'. hwseq_write_loop R (addr_mask hq) buf a len s = (0, s') \<and> hw_ok s' \<and> mem s' = blit a (take len buf) (mem s)"
proof (induction len arbitrary: a buf s rule: less_induct)
  case (less len)
  show ?case
  proof (cases "len = 0")
    case True
    with less.prems show ?thesis by (subst hwseq_write_loop.simps) (auto simp: buf_simps intro!: nth_equalityI)
  next
    case False
    define bl where "bl = hwseq_block_len a len"
    have bl: "0 < bl" "bl \<le> len" "bl \<le> 64" "a mod 256 + bl \<le> 256" "a + bl \<le> n" "a < n"
      using hwseq_block_len_bounds(1) [of len a] hwseq_block_len_bounds(2,3) [of a len] block_len_page [of len a] False less.prems(2) by (simp_all add: bl_def)
    obtain s0 where s0: "ich_fill_data R buf bl ICH9_REG_FDATA0 s = s0" "hw_ok s0" "mem s0 = mem s" "\<forall>i < bl. fdata_byte R s0 i = buf ! i"
      using ich_fill_data_ok [OF less.prems(1) bl(1,3)] by blast
    obtain s1 where s1: "hw_ok s1" "same_data R mem s0 s1" "flash_addr R (addr_mask hq) s1 = a" "status_clear R s1"
      "\<And>t. cycle_done R (start_cycle R HSFC_CYCLE_WRITE bl s1) t \<Longrightarrow> hw_ok t \<Longrightarrow>
         \<exists>s'. ich_exec_sync_hwseq_xfer R HSFC_CYCLE_WRITE a bl (addr_mask hq) s0 = (0, s') \<and> hw_ok s' \<and> same_data R mem t s'"
      using exec_ok [OF s0(2) bl(6)] by metis
    obtain t where t: "cycle_done R (start_cycle R HSFC_CYCLE_WRITE bl s1) t" "hw_ok t"
      "mem t = blit a (map (\<lambda>i. mem s1 ! (a + i) AND fdata_byte R s1 i) [0..<bl]) (mem s1)"
      using write_cycle [OF s1(1,4,3) bl(1,3,5,4)] by blast
    obtain s2 where s2: "ich_exec_sync_hwseq_xfer R HSFC_CYCLE_WRITE a bl (addr_mask hq) s0 = (0, s2)" "hw_ok s2" "same_data R mem t s2"
      using s1(5) [OF t(1,2)] by blast
    have "map (\<lambda>i. mem s1 ! (a + i) AND fdata_byte R s1 i) [0..<bl] = take bl buf"
      using less.prems(3,4) bl(2,3) s0(3,4) s1(2) same_data_byte [OF s1(2)]
      by (intro nth_equalityI) (auto simp: same_data_def)
    then have mem2: "mem s2 = blit a (take bl buf) (mem s)" using t(3) s2(3) s1(2) s0(3) by (simp add: same_data_def)
    have lm: "length (mem s) = n" using less.prems(1) by (rule mem_length)
    have prog: "mem s2 ! (a + bl + i) AND drop bl buf ! i = drop bl buf ! i" if "i < len - bl" for i
      using less.prems(4) [of "bl + i"] that less.prems(2,3) bl lm unfolding mem2
      by (subst nth_blit) (auto simp: add.assoc)
    have nx: "add32 a bl = a + bl" using bl sizes by (simp add: c_simps)
    obtain s3 where s3: "hwseq_write_loop R (addr_mask hq) (drop bl buf) (a + bl) (len - bl) s2 = (0, s3)"
      "hw_ok s3" "mem s3 = blit (a + bl) (take (len - bl) (drop bl buf)) (mem s2)"
      using less.IH [of "len - bl" s2 "a + bl" "drop bl buf"] bl less.prems(2,3) s2(2) prog
      diff_le_mono [OF less.prems(3), of bl] by auto
    have "hwseq_write_loop R (addr_mask hq) buf a len s = (0, s3)"
      using False by (subst hwseq_write_loop.simps) (simp add: s0(1) s2(1) nx s3(1) Let_def flip: bl_def)
    moreover have "mem s3 = blit a (take len buf) (mem s)"
      unfolding s3(3) mem2 using bl less.prems(2,3) lm
      by (intro nth_equalityI) (auto simp: buf_simps min_def)
    ultimately show ?thesis using s3 by simp
  qed
qed

lemma hwseq_write_ok:
  assumes "hw_ok s" and "a + length buf \<le> n" and "\<And>i. i < length buf \<Longrightarrow> mem s ! (a + i) AND buf ! i = buf ! i"
  shows "\<exists>s'. ich_hwseq_write R hq (n div 1024) buf a (length buf) s = (0, s') \<and> hw_ok s' \<and> mem s' = blit a buf (mem s)"
proof -
  have "add32 a (length buf) = a + length buf" "mul32 (n div 1024) 1024 = n" using assms(2) sizes by (simp_all add: c_simps)
  with write_loop_ok [of "clear_hsfs R s" a "length buf" buf] clear_hsfs_ok [OF assms(1)] assms show ?thesis
    by (auto simp: ich_hwseq_write_def same_data_def)
qed

lemma erase_size_ok:
  assumes "hw_ok s" and "a < n"
  shows "\<exists>s'. ich_hwseq_get_erase_block_size R a (addr_mask hq) (only_4k hq) s = (es, s') \<and> hw_ok s' \<and> mem s' = mem s"
proof (cases "only_4k hq")
  case True
  with assms blocks(3) show ?thesis by (simp add: ich_hwseq_get_erase_block_size_def)
next
  case False
  with set_addr_ok [OF assms] one_partition show ?thesis
    by (auto simp: ich_hwseq_get_erase_block_size_def same_data_def Let_def)
qed

lemma es_pos: "0 < es"
  using blocks(2) by (auto simp: dec_berase_def)

lemma hwseq_erase_ok:
  assumes "hw_ok s" and "es dvd a" and "a + es \<le> n"
  shows "\<exists>s'. ich_hwseq_block_erase R hq (n div 1024) a es s = (0, s') \<and> hw_ok s' \<and> mem s' = memset_at a 0xff es (mem s)"
proof -
  have a: "a < n" using assms(3) es_pos by simp
  obtain s0 where s0: "ich_hwseq_get_erase_block_size R a (addr_mask hq) (only_4k hq) s = (es, s0)" "hw_ok s0" "mem s0 = mem s"
    using erase_size_ok [OF assms(1) a] by blast
  obtain s1 where s1: "hw_ok s1" "same_data R mem s0 s1" "flash_addr R (addr_mask hq) s1 = a" "status_clear R s1"
    "\<And>t. cycle_done R (start_cycle R HSFC_CYCLE_BLOCK_ERASE 1 s1) t \<Longrightarrow> hw_ok t \<Longrightarrow>
       \<exists>s'. ich_exec_sync_hwseq_xfer R HSFC_CYCLE_BLOCK_ERASE a 1 (addr_mask hq) s0 = (0, s') \<and> hw_ok s' \<and> same_data R mem t s'"
    using exec_ok [OF s0(2) a] by metis
  obtain t where t: "cycle_done R (start_cycle R HSFC_CYCLE_BLOCK_ERASE 1 s1) t" "hw_ok t" "mem t = memset_at a 0xff es (mem s1)"
    using erase_cycle [OF s1(1,4,3) assms(2,3)] by blast
  obtain s2 where s2: "ich_exec_sync_hwseq_xfer R HSFC_CYCLE_BLOCK_ERASE a 1 (addr_mask hq) s0 = (0, s2)" "hw_ok s2" "same_data R mem t s2"
    using s1(5) [OF t(1,2)] by blast
  have "add32 a es = a + es" "mul32 (n div 1024) 1024 = n" using assms(3) sizes by (simp_all add: c_simps)
  with assms(2,3) s2 t(3) s1(2) s0 show ?thesis
    by (simp add: ich_hwseq_block_erase_def same_data_def dvd_eq_mod_eq_0)
qed

end

end
