(* ===== verification/IchInit.thy ===== *)
theory IchInit
  imports IchHwseq
begin

text \<open>
  Initialisation of the SPI controller of Intel chipsets (\<^verbatim>\<open>flashrom/ichspi.c\<close>): the permissions of the flash regions, the
  protected ranges, the properties of the generations and the choice between software and hardware sequencing. The
  master that is registered is part of the result.
\<close>

section \<open>Permissions of regions\<close>

definition access_perms_to_protection :: "ich_access_protection list" where
  "access_perms_to_protection = [LOCKED, WRITE_PROT, READ_PROT, NO_PROT]"

text \<open>The enumeration orders the chipsets; these are the ones from Meteor Lake on.\<close>

definition from_meteor_lake :: "ich_chipset \<Rightarrow> bool" where
  "from_meteor_lake gen \<longleftrightarrow> gen \<in> {CHIPSET_METEOR_LAKE, CHIPSET_PANTHER_LAKE, CHIPSET_WILDCAT_LAKE}"

definition ICH_BRRA :: "32 word \<Rightarrow> 32 word" where "ICH_BRRA x = x AND 0xff"
definition ICH_BRWA :: "32 word \<Rightarrow> 32 word" where "ICH_BRWA x = drop_bit 8 x AND 0xff"

definition ich_get_bios_region_access :: "'s regs \<Rightarrow> ich_chipset \<Rightarrow> 's \<Rightarrow> 16 word \<times> 16 word" where
  "ich_get_bios_region_access R gen s =
     (if from_meteor_lake gen then (mmio_readw R ICH_REG_BIOS_BM_RAP s, mmio_readw R ICH_REG_BIOS_BM_WAP s)
      else
        let tmp = mmio_readl R ICH9_REG_FRAP s
        in (ucast (ICH_BRRA tmp), ucast (ICH_BRWA tmp)))"

definition ich_get_defined_region_count :: "ich_chipset \<Rightarrow> nat" where
  "ich_get_defined_region_count gen = (if from_meteor_lake gen then 16 else 8)"

definition region_names :: "string list" where
  "region_names = [''Flash Descriptor'', ''BIOS'', ''Management Engine'', ''Gigabit Ethernet'', ''Platform Data'',
     ''Device Expansion'', ''BIOS2'', ''unknown'', ''EC/BMC'', ''Device Expansion 2'', ''Innovation Engine'', ''10GbE0'', ''10GbE1'',
     ''unknown'', ''unknown'', ''PTT'']"

definition ich9_handle_region_access ::
    "'s regs \<Rightarrow> ich_chipset \<Rightarrow> 's \<Rightarrow> 16 word \<Rightarrow> 16 word \<Rightarrow> nat \<Rightarrow> fd_region list \<Rightarrow> ich_access_protection \<times> fd_region list" where
  "ich9_handle_region_access R gen s region_read_access region_write_access i fds =
     (let region_name = (if i < length region_names then region_names ! i else ''unknown'');
          offset = (if i < 12 then ICH9_REG_FREG0 + i * 4 else APL_REG_FREG12 + (i - 12) * 4);
          freg = unat (mmio_readl R offset s);
          base = ICH_FREG_BASE freg;
          limit = ICH_FREG_LIMIT freg
      in if base > limit \<or> freg = 0 \<and> i > 0 then (NO_PROT, fds)
         else if i < ich_get_defined_region_count gen then
           let rwperms_idx = (if bit region_write_access i then 2 else 0) + (if bit region_read_access i then 1 else 0);
               rwperms = access_perms_to_protection ! rwperms_idx
           in (rwperms, fds[i := \<lparr>fd_name = Some region_name, fd_level = rwperms, fd_base = base, fd_limit = limit\<rparr>])
         else (NO_PROT, fds))"

section \<open>Protected ranges\<close>

text \<open>The bits of \<^verbatim>\<open>ICH_PR_PERMS\<close>: 1 for an access that is not prohibited.\<close>

definition ICH_PR_PERMS :: "32 word \<Rightarrow> nat" where
  "ICH_PR_PERMS pr = (if bit pr PR_RP_OFF then 0 else 1) + (if bit pr PR_WP_OFF then 0 else 2)"

definition ich9_handle_pr :: "'s regs \<Rightarrow> nat \<Rightarrow> nat \<Rightarrow> 's \<Rightarrow> ich_access_protection \<times> flash_region" where
  "ich9_handle_pr R reg_pr0 i s =
     (let off = (reg_pr0 + i * 4) mod 256;
          pr = mmio_readl R off s;
          rwperms = access_perms_to_protection ! ICH_PR_PERMS pr
      in (rwperms, \<lparr>fr_name = [], fr_start = ICH_FREG_BASE (unat pr), fr_end = ICH_FREG_LIMIT (unat pr),
                    fr_read_prot = (rwperms = READ_PROT \<or> rwperms = LOCKED),
                    fr_write_prot = (rwperms = WRITE_PROT \<or> rwperms = LOCKED)\<rparr>))"

definition ich9_set_pr :: "'s regs \<Rightarrow> nat \<Rightarrow> nat \<Rightarrow> bool \<Rightarrow> bool \<Rightarrow> 's ich \<Rightarrow> 's ich" where
  "ich9_set_pr R reg_pr0 i read_prot write_prot st =
     (let addr = reg_pr0 + i * 4;
          old = mmio_readl R addr (ich_hw st);
          new0 = old AND NOT (push_bit PR_RP_OFF 1 OR push_bit PR_WP_OFF 1);
          new1 = (if read_prot then new0 OR push_bit PR_RP_OFF 1 else new0);
          new2 = (if write_prot then new1 OR push_bit PR_WP_OFF 1 else new1)
      in if old = new2 then st else rmmio_writel R new2 addr st)"

section \<open>Properties of the generations\<close>

definition pch100_family :: "ich_chipset \<Rightarrow> bool" where
  "pch100_family gen \<longleftrightarrow> gen \<in>
     {CHIPSET_100_SERIES_SUNRISE_POINT, CHIPSET_C620_SERIES_LEWISBURG, CHIPSET_C740_SERIES_EMMITSBURG,
      CHIPSET_300_SERIES_CANNON_POINT, CHIPSET_400_SERIES_COMET_POINT, CHIPSET_500_SERIES_TIGER_POINT,
      CHIPSET_600_SERIES_ALDER_POINT, CHIPSET_700_SERIES_RAPTOR_POINT, CHIPSET_APOLLO_LAKE, CHIPSET_GEMINI_LAKE,
      CHIPSET_JASPER_LAKE, CHIPSET_ELKHART_LAKE, CHIPSET_METEOR_LAKE, CHIPSET_PANTHER_LAKE, CHIPSET_WILDCAT_LAKE}"

record chipset_properties =
  cp_num_freg :: nat
  cp_num_pr :: nat
  cp_reg_pr0 :: nat
  cp_swseq :: swseq
  cp_hwseq :: hwseq_data

definition zero_hwseq :: hwseq_data where
  "zero_hwseq = \<lparr>size_comp0 = 0, size_comp1 = 0, addr_mask = 0, only_4k = False, hsfc_fcycle = 0,
     fd_regions = replicate MAX_FD_REGIONS \<lparr>fd_name = None, fd_level = NO_PROT, fd_base = 0, fd_limit = 0\<rparr>\<rparr>"

definition init_chipset_properties :: "ich_chipset \<Rightarrow> chipset_properties" where
  "init_chipset_properties gen =
     (let num_freg =
            (if gen = CHIPSET_100_SERIES_SUNRISE_POINT then 10
             else if gen \<in> {CHIPSET_C620_SERIES_LEWISBURG, CHIPSET_C740_SERIES_EMMITSBURG} then 12
             else if pch100_family gen then 16
             else 5)
      in if pch100_family gen
         then \<lparr>cp_num_freg = num_freg, cp_num_pr = 6, cp_reg_pr0 = PCH100_REG_FPR0,
               cp_swseq = \<lparr>reg_ssfsc = PCH100_REG_SSFSC, reg_preop = PCH100_REG_PREOP, reg_optype = PCH100_REG_OPTYPE,
                           reg_opmenu = PCH100_REG_OPMENU\<rparr>,
               cp_hwseq = zero_hwseq\<lparr>addr_mask := PCH100_FADDR_FLA, only_4k := True, hsfc_fcycle := PCH100_HSFC_FCYCLE\<rparr>\<rparr>
         else \<lparr>cp_num_freg = num_freg, cp_num_pr = 5, cp_reg_pr0 = ICH9_REG_PR0,
               cp_swseq = \<lparr>reg_ssfsc = ICH9_REG_SSFS, reg_preop = ICH9_REG_PREOP, reg_optype = ICH9_REG_OPTYPE,
                           reg_opmenu = ICH9_REG_OPMENU\<rparr>,
               cp_hwseq = zero_hwseq\<lparr>addr_mask := ICH9_FADDR_FLA, only_4k := False, hsfc_fcycle := ICH9_HSFC_FCYCLE\<rparr>\<rparr>)"

section \<open>Initialisation\<close>

datatype ich_spi_mode = ich_auto | ich_hwseq | ich_swseq

text \<open>The value of the programmer parameter \<^verbatim>\<open>ich_spi_mode\<close>, if it is given; \<open>None\<close> is the fatal error.\<close>

definition get_ich_spi_mode_param :: "string option \<Rightarrow> ich_spi_mode option" where
  "get_ich_spi_mode_param arg =
     (case arg of
        None \<Rightarrow> Some ich_auto
      | Some s \<Rightarrow>
          if s = ''hwseq'' then Some ich_hwseq
          else if s = ''swseq'' then Some ich_swseq
          else if s = ''auto'' then Some ich_auto
          else None)"

text \<open>The loop over the region registers.\<close>

fun handle_regions :: "'s regs \<Rightarrow> ich_chipset \<Rightarrow> 's \<Rightarrow> 16 word \<Rightarrow> 16 word \<Rightarrow> nat list \<Rightarrow> fd_region list \<Rightarrow> fd_region list" where
  "handle_regions R gen s ra wa [] fds = fds"
| "handle_regions R gen s ra wa (i # is) fds =
     handle_regions R gen s ra wa is (snd (ich9_handle_region_access R gen s ra wa i fds))"

text \<open>The loop over the protected ranges. The array has room for six; storing more is undefined.\<close>

fun handle_prs :: "'s regs \<Rightarrow> nat \<Rightarrow> nat list \<Rightarrow> flash_region list \<Rightarrow> 's ich \<Rightarrow> (flash_region list \<times> 's ich) option" where
  "handle_prs R reg_pr0 [] ranges st = Some (ranges, st)"
| "handle_prs R reg_pr0 (i # is) ranges st =
     (let st1 = (if \<not> ichspi_lock st then ich9_set_pr R reg_pr0 i False False st else st);
          (rwperms, pr_region) = ich9_handle_pr R reg_pr0 i (ich_hw st1)
      in if rwperms = NO_PROT then handle_prs R reg_pr0 is ranges st1
         else if length ranges < MAX_PR_REGISTERS then handle_prs R reg_pr0 is (ranges @ [pr_region]) st1
         else None)"

datatype ich_master = Hwseq_master hwseq_data | Spi_master

text \<open>When the mode is still \<open>ich_auto\<close>: several chips, a locked table without the mandatory opcodes, or a generation that
  prefers hardware sequencing.\<close>

definition choose_mode :: "ich_spi_mode \<Rightarrow> ich_chipset \<Rightarrow> bool \<Rightarrow> nat \<Rightarrow> 's ich \<Rightarrow> ich_spi_mode" where
  "choose_mode mode gen desc_valid nc st =
     (if mode \<noteq> ich_auto then mode
      else if desc_valid \<and> nc \<noteq> 0 then ich_hwseq
      else if ichspi_lock st \<and> ich_missing_opcodes st \<noteq> 0 then ich_hwseq
      else if gen \<in> {CHIPSET_100_SERIES_SUNRISE_POINT, CHIPSET_300_SERIES_CANNON_POINT, CHIPSET_400_SERIES_COMET_POINT,
                     CHIPSET_500_SERIES_TIGER_POINT, CHIPSET_600_SERIES_ALDER_POINT, CHIPSET_700_SERIES_RAPTOR_POINT,
                     CHIPSET_C740_SERIES_EMMITSBURG} then ich_hwseq
      else if gen \<in> {CHIPSET_APOLLO_LAKE, CHIPSET_GEMINI_LAKE, CHIPSET_JASPER_LAKE, CHIPSET_ELKHART_LAKE, CHIPSET_METEOR_LAKE,
                     CHIPSET_PANTHER_LAKE, CHIPSET_WILDCAT_LAKE} then ich_hwseq
      else ich_auto)"

text \<open>The generations whose bottom address register is not set.\<close>

definition no_bbar :: "ich_chipset \<Rightarrow> bool" where
  "no_bbar gen \<longleftrightarrow> gen \<in> {CHIPSET_ICH8, CHIPSET_BAYTRAIL} \<or> pch100_family gen"

text \<open>\<open>fdo\<close> are the registers through which the descriptor is read, on the same state; \<open>zero_desc\<close> is the structure \<^verbatim>\<open>desc\<close>
  initialised with zeros. The master is \<open>None\<close> when the function fails.\<close>

definition zero_desc :: ich_descriptors where
  "zero_desc = \<lparr>d_content = zero_content, d_component = \<lparr>FLCOMP = 0, FLILL = 0, FLPB = 0\<rparr>, d_region = replicate 16 0,
     d_master = replicate MAX_NUM_MASTERS 0, d_north = [0], d_south = replicate 23 0,
     d_upper = \<lparr>FLUMAP1 = 0, vscc_table = replicate 128 \<lparr>JID = 0, VSCC = 0\<rparr>\<rparr>\<rparr>"

text \<open>The last part: the sizes of the chips and the master.\<close>

definition register_ich_master :: "ich_spi_mode \<Rightarrow> ich_chipset \<Rightarrow> bool \<Rightarrow> bool \<Rightarrow> ich_descriptors \<Rightarrow> hwseq_data \<Rightarrow> int \<times> ich_master option" where
  "register_ich_master mode gen desc_valid calloc_ok desc hq =
     (if mode = ich_hwseq then
        if \<not> desc_valid then (ERROR_FLASHROM_FATAL, None)
        else
          let comp0 = getFCBA_component_density gen desc 0; comp1 = getFCBA_component_density gen desc 1
          in if comp0 < 0 then (ERROR_FLASHROM_FATAL, None)
             else if comp1 < 0 then (ERROR_FLASHROM_FATAL, None)
             else if \<not> calloc_ok then (ERROR_FLASHROM_FATAL, None)
             else (0, Some (Hwseq_master (hq\<lparr>size_comp0 := nat comp0, size_comp1 := nat comp1\<rparr>)))
      else (0, Some Spi_master))"

definition init_ich_default ::
    "'s regs \<Rightarrow> 's mmio \<Rightarrow> bool \<Rightarrow> string option \<Rightarrow> ich_chipset \<Rightarrow> flash_region list \<Rightarrow> 's ich \<Rightarrow>
      (int \<times> ich_master option \<times> flash_region list \<times> 's ich) option" where
  "init_ich_default R fdo calloc_ok param gen ranges st0 =
     (let cp = init_chipset_properties gen; st = st0\<lparr>swseq_data := cp_swseq cp\<rparr>
      in case get_ich_spi_mode_param param of
           None \<Rightarrow> Some (ERROR_FLASHROM_FATAL, None, ranges, st)
         | Some mode \<Rightarrow>
             let hsfs = mmio_readw R ICH9_REG_HSFS (ich_hw st);
                 st1 = (if hsfs AND HSFS_FLOCKDN \<noteq> 0 then st\<lparr>ichspi_lock := True\<rparr> else st);
                 desc_valid = (hsfs AND HSFS_FDV \<noteq> 0);
                 st2 = snd (ich_init_opcodes R gen st1);
                 hq = (if desc_valid
                       then case ich_get_bios_region_access R gen (ich_hw st2) of
                              (ra, wa) \<Rightarrow> (cp_hwseq cp)\<lparr>fd_regions :=
                                 handle_regions R gen (ich_hw st2) ra wa [0..<cp_num_freg cp] (fd_regions (cp_hwseq cp))\<rparr>
                       else cp_hwseq cp)
             in Option.bind (handle_prs R (cp_reg_pr0 cp) [0..<cp_num_pr cp] ranges st2) (\<lambda>(ranges1, st3).
                  let ssfs = mmio_readl R (reg_ssfsc (swseq_data st3)) (ich_hw st3);
                      st4 = (if ssfs AND SSFS_FCERR \<noteq> 0
                             then upd_hw (mmio_writeb R (reg_ssfsc (swseq_data st3)) (ucast SSFS_FCERR)) st3 else st3);
                      st5 = (if desc_valid \<and> \<not> no_bbar gen
                             then ich_set_bbar R 0 gen (st4\<lparr>ichspi_bbar := mmio_readl R ICH9_REG_BBAR (ich_hw st4)\<rparr>) else st4)
                  in Option.bind (if desc_valid then read_ich_descriptors_via_fdo fdo gen zero_desc (ich_hw st5)
                                  else Some (0, zero_desc, ich_hw st5)) (\<lambda>(fdo_ret, desc, s6).
                       let st6 = st5\<lparr>ich_hw := s6\<rparr>;
                           mode1 = choose_mode mode gen desc_valid (ct_NC (d_content desc)) st6
                       in case register_ich_master mode1 gen desc_valid calloc_ok desc hq of
                            (ret, master) \<Rightarrow> Some (ret, master, ranges1, st6))))"

definition init_ich7_spi :: "'s regs \<Rightarrow> ich_chipset \<Rightarrow> 's ich \<Rightarrow> int \<times> ich_master option \<times> 's ich" where
  "init_ich7_spi R gen st =
     (let st1 = st\<lparr>ichspi_bbar := mmio_readl R 0x50 (ich_hw st)\<rparr>;
          st2 = (if bit (mmio_readw R 0 (ich_hw st1)) 15 then st1\<lparr>ichspi_lock := True\<rparr> else st1);
          st3 = snd (ich_init_opcodes R gen st2)
      in (0, Some Spi_master, ich_set_bbar R 0 gen st3))"

definition ich_init_spi ::
    "'s regs \<Rightarrow> 's mmio \<Rightarrow> bool \<Rightarrow> string option \<Rightarrow> ich_chipset \<Rightarrow> flash_region list \<Rightarrow> 's ich \<Rightarrow>
      (int \<times> ich_master option \<times> flash_region list \<times> 's ich) option" where
  "ich_init_spi R fdo calloc_ok param gen ranges st =
     (let st1 = st\<lparr>ich_generation := gen\<rparr>
      in if ich7_family gen
         then case init_ich7_spi R gen st1 of (r, m, st2) \<Rightarrow> Some (r, m, ranges, st2)
         else init_ich_default R fdo calloc_ok param gen ranges st1)"

text \<open>The VIA chipsets: \<open>mapped\<close> says whether the registers could be mapped, \<open>buses\<close> is \<^verbatim>\<open>internal_buses_supported\<close>.\<close>

definition via_init_spi :: "'s regs \<Rightarrow> bool \<Rightarrow> bus_mask \<Rightarrow> 's ich \<Rightarrow> int \<times> bus_mask \<times> 's ich" where
  "via_init_spi R mapped buses st =
     (if \<not> mapped then (ERROR_FLASHROM_FATAL, buses, st)
      else
        let st1 = st\<lparr>ich_generation := CHIPSET_ICH7\<rparr>;
            st2 = st1\<lparr>ichspi_bbar := mmio_readl R 0x50 (ich_hw st1)\<rparr>;
            st3 = (if bit (mmio_readw R 0 (ich_hw st2)) 15 then st2\<lparr>ichspi_lock := True\<rparr> else st2);
            st4 = ich_set_bbar R 0 CHIPSET_ICH7 st3
        in (0, buses AND (BUS_LPC OR BUS_FWH), snd (ich_init_opcodes R CHIPSET_ICH7 st4)))"

end
