(* ===== verification/IchSpiOk.thy ===== *)
theory IchSpiOk
  imports IchHwseqOk IchInit
begin

text \<open>
  Software sequencing on Intel chipsets: the opcode tables in the registers, the window of addresses that a command can reach,
  and the merging of prefix commands in command lists.
\<close>

section \<open>Opcode tables\<close>

lemma length_unpack [simp]: "length (unpack w k x) = k"
  by (induction k arbitrary: x) simp_all

lemma nth_unpack: "i < k \<Longrightarrow> unpack w k x ! i = ucast (take_bit w (drop_bit (i * w) x))"
proof (induction k arbitrary: i x)
  case (Suc k)
  then show ?case by (cases i) (simp_all add: add.commute)
qed simp

lemma bit_pack:
  "bit (pack w a vs :: 'b::len word) n \<longleftrightarrow> n < LENGTH('b) \<and> (\<exists>i < length vs. (a + i) * w \<le> n \<and> bit (vs ! i) (n - (a + i) * w))"
proof (induction vs arbitrary: a)
  case (Cons v vs)
  have "(\<exists>i < length (v # vs). (a + i) * w \<le> n \<and> bit ((v # vs) ! i) (n - (a + i) * w)) \<longleftrightarrow>
      a * w \<le> n \<and> bit v (n - a * w) \<or> (\<exists>i < length vs. (Suc a + i) * w \<le> n \<and> bit (vs ! i) (n - (Suc a + i) * w))"
    by (auto simp: less_Suc_eq_0_disj)
  with Cons show ?case by (auto simp: bit_simps)
qed simp

lemma unpack_pack:
  fixes vs :: "'a::len word list"
  assumes len: "length vs * w \<le> LENGTH('b::len)" and v: "\<And>v. v \<in> set vs \<Longrightarrow> take_bit w v = v"
  shows "unpack w (length vs) (pack w 0 vs :: 'b word) = vs"
proof (rule nth_equalityI)
  fix i assume "i < length (unpack w (length vs) (pack w 0 vs :: 'b word) :: 'a word list)"
  then have i: "i < length vs" by simp
  have small: "bit (vs ! j) m \<Longrightarrow> m < w" if "j < length vs" for j m
    using v [of "vs ! j"] that bit_take_bit_iff [of w "vs ! j" m] by (metis nth_mem)
  have "bit (ucast (take_bit w (drop_bit (i * w) (pack w 0 vs :: 'b word))) :: 'a word) m = bit (vs ! i) m" if m: "m < LENGTH('a)" for m
  proof (cases "m < w")
    case True
    have "Suc i * w \<le> length vs * w" using i by (intro mult_le_mono1) simp
    then have lt: "i * w + m < LENGTH('b)" using len True by simp
    have only: "j = i" if "j < length vs" "j * w \<le> i * w + m" "bit (vs ! j) (i * w + m - j * w)" for j
    proof (rule ccontr)
      assume "j \<noteq> i"
      then consider "Suc i \<le> j" | "Suc j \<le> i" by linarith
      then show False
      proof cases
        case 1
        then have "Suc i * w \<le> j * w" by (intro mult_le_mono1) simp
        with that(2) True show False by simp
      next
        case 2
        then have "Suc j * w \<le> i * w" by (intro mult_le_mono1) simp
        with small [OF that(1,3)] True show False by simp
      qed
    qed
    have "(\<exists>j < length vs. j * w \<le> i * w + m \<and> bit (vs ! j) (i * w + m - j * w)) \<longleftrightarrow> bit (vs ! i) m"
    proof
      assume "\<exists>j < length vs. j * w \<le> i * w + m \<and> bit (vs ! j) (i * w + m - j * w)"
      then obtain j where j: "j < length vs" "j * w \<le> i * w + m" "bit (vs ! j) (i * w + m - j * w)" by blast
      from only [OF this] j(3) show "bit (vs ! i) m" by simp
    qed (use i in auto)
    then show ?thesis using True lt m by (simp add: bit_simps bit_pack)
  next
    case False
    then show ?thesis using small [OF i, of m] by (auto simp: bit_simps)
  qed
  then show "unpack w (length vs) (pack w 0 vs :: 'b word) ! i = vs ! i"
    unfolding nth_unpack [OF i] by (intro bit_word_eqI) simp
qed simp

text \<open>A table as the registers can hold it.\<close>

definition table_ok :: "opcodes \<Rightarrow> bool" where
  "table_ok t \<longleftrightarrow> length (ops_preop t) = 2 \<and> length (ops_opcode t) = 8 \<and> (\<forall>e \<in> set (ops_opcode t). oc_spi_type e < 4)"

lemma O_ST_M25P_ok: "table_ok O_ST_M25P"
  by (simp add: table_ok_def O_ST_M25P_def spi_type_defs)

text \<open>Registers that hold what is written, until an overlapping one is written.\<close>

locale register_file =
  fixes R :: "'s regs"
  assumes readw_writew: "mmio_readw R off (mmio_writew R off v s) = v"
    and readl_writel: "mmio_readl R off (mmio_writel R off x s) = x"
    and readw_other: "off + 2 \<le> off' \<or> off' + 2 \<le> off \<Longrightarrow> mmio_readw R off (mmio_writew R off' v s) = mmio_readw R off s"
      "off + 2 \<le> off' \<or> off' + 4 \<le> off \<Longrightarrow> mmio_readw R off (mmio_writel R off' x s) = mmio_readw R off s"
    and readl_other: "off + 4 \<le> off' \<or> off' + 4 \<le> off \<Longrightarrow> mmio_readl R off (mmio_writel R off' x s) = mmio_readl R off s"
      "off + 4 \<le> off' \<or> off' + 2 \<le> off \<Longrightarrow> mmio_readl R off (mmio_writew R off' v s) = mmio_readl R off s"
begin

lemma generate_program:
  assumes t: "table_ok t" and regs: "table_regs gen (swseq_data st) = (p, p + 2, p + 4)"
  shows "generate_opcodes R gen (snd (program_opcodes R t undo gen st)) =
    t\<lparr>ops_opcode := map (\<lambda>e. e\<lparr>oc_atomic := 0\<rparr>) (ops_opcode t)\<rparr>"
proof -
  let ?st = "snd (program_opcodes R t undo gen st)"
  have gen: "table_regs gen (swseq_data ?st) = (p, p + 2, p + 4)"
    and hw: "ich_hw ?st = mmio_writel R (p + 4 + 4) (opmenu_reg t 1) (mmio_writel R (p + 4) (opmenu_reg t 0)
      (mmio_writew R (p + 2) (optype_reg t) (mmio_writew R p (preop_reg t) (ich_hw st))))"
    using regs by (simp_all add: program_opcodes_def upd_hw_def rmmio_vall_def rmmio_valw_def Let_def)
  have rd: "mmio_readw R p (ich_hw ?st) = preop_reg t" "mmio_readw R (p + 2) (ich_hw ?st) = optype_reg t"
    "mmio_readl R (p + 4) (ich_hw ?st) = opmenu_reg t 0" "mmio_readl R (p + 4 + 4) (ich_hw ?st) = opmenu_reg t 1"
    unfolding hw by (simp_all add: readw_writew readl_writel readw_other readl_other)
  have l: "length (ops_opcode t) = 8" "length (ops_preop t) = 2" "e \<in> set (ops_opcode t) \<Longrightarrow> oc_spi_type e < 4" for e
    using t by (simp_all add: table_ok_def)
  have types: "unpack 2 8 (optype_reg t) = map (\<lambda>e. word_of_nat (oc_spi_type e) :: 8 word) (ops_opcode t)"
  proof -
    let ?vs = "map (\<lambda>e. word_of_nat (oc_spi_type e) :: 8 word) (ops_opcode t)"
    have "unpack 2 (length ?vs) (pack 2 0 ?vs :: 16 word) = ?vs"
      by (rule unpack_pack) (use l in \<open>auto simp: take_bit_of_nat take_bit_nat_eq_self\<close>)
    with l(1) show ?thesis by (simp add: optype_reg_def)
  qed
  have codes: "unpack 8 4 (opmenu_reg t k) = map oc_opcode (bslice (4 * k) 4 (ops_opcode t))" if "k < 2" for k
  proof -
    let ?vs = "map oc_opcode (bslice (4 * k) 4 (ops_opcode t))"
    have vs: "length ?vs = 4" using that l(1) by (simp add: bslice_def)
    have "unpack 8 (length ?vs) (pack 8 0 ?vs :: 32 word) = ?vs"
      by (rule unpack_pack) (use vs in \<open>auto simp: take_bit_word_eq_self\<close>)
    with vs show ?thesis by (simp add: opmenu_reg_def)
  qed
  have "bslice 0 4 (ops_opcode t) @ bslice 4 4 (ops_opcode t) = ops_opcode t" using l(1)
    by (intro nth_equalityI) (auto simp: bslice_def nth_append)
  then have all: "unpack 8 4 (opmenu_reg t 0) @ unpack 8 4 (opmenu_reg t 1) = map oc_opcode (ops_opcode t)"
    using codes [of 0] codes [of 1] by (simp flip: map_append)
  have pre: "[ucast (preop_reg t), ucast (drop_bit 8 (preop_reg t))] = ops_preop t"
  proof -
    have "ucast (preop_reg t) = ops_preop t ! 0" "ucast (drop_bit 8 (preop_reg t)) = ops_preop t ! 1"
      using bit_imp_le_length [of "ops_preop t ! 0"] by (fastforce simp: preop_reg_def bit_simps intro!: bit_word_eqI)+
    moreover obtain a b where "ops_preop t = [a, b]" using l(2) by (auto simp: length_Suc_conv numeral_2_eq_2)
    ultimately show ?thesis by simp
  qed
  have z: "map2 (\<lambda>c ty. \<lparr>oc_opcode = c, oc_spi_type = unat ty, oc_atomic = 0\<rparr>) (map oc_opcode es)
      (map (\<lambda>e. word_of_nat (oc_spi_type e) :: 8 word) es) = map (\<lambda>e. e\<lparr>oc_atomic := 0\<rparr>) es"
    if "\<And>e. e \<in> set es \<Longrightarrow> oc_spi_type e < 4" for es
  proof -
    have u: "unat (word_of_nat (oc_spi_type e) :: 8 word) = oc_spi_type e" if "e \<in> set es" for e
      using \<open>\<And>e. e \<in> set es \<Longrightarrow> oc_spi_type e < 4\<close> [OF that] by (simp add: unat_of_nat)
    then show ?thesis by (auto simp: zip_map_map zip_same_conv_map)
  qed
  show ?thesis
    unfolding generate_opcodes_def gen prod.case Let_def rd types all pre
    using z [of "ops_opcode t"] l(3) by simp
qed

end

text \<open>The registers as bytes of memory, with the low byte first.\<close>

definition byte_regs :: "(nat \<Rightarrow> u8) regs" where
  "byte_regs =
     \<lparr>mmio_readb = (\<lambda>off m. m off),
      mmio_readw = (\<lambda>off m. ucast (m off) OR push_bit 8 (ucast (m (off + 1)))),
      mmio_readl = (\<lambda>off m. pack 8 0 (map m [off, off + 1, off + 2, off + 3])),
      mmio_writeb = (\<lambda>off v m. m(off := v)),
      mmio_writew = (\<lambda>off v m. m(off := ucast v, off + 1 := ucast (drop_bit 8 v))),
      mmio_writel = (\<lambda>off v m i. if off \<le> i \<and> i < off + 4 then byte_of v (i - off) else m i),
      default_delay = (\<lambda>us m. m)\<rparr>"

lemma word_bytes16: "ucast (ucast v :: u8) OR push_bit 8 (ucast (ucast (drop_bit 8 v) :: u8)) = (v :: 16 word)"
  by (rule bit_word_eqI) (auto simp: bit_simps)

lemma pack_byte_of: "pack 8 0 (map (byte_of v) [0, 1, 2, 3]) = (v :: 32 word)"
proof (rule bit_word_eqI)
  fix n assume "n < LENGTH(32)"
  then consider "n < 8" | m where "n = 8 + m" "m < 8" | m where "n = 16 + m" "m < 8" | m where "n = 24 + m" "m < 8"
    using le_Suc_ex [of 8 n] le_Suc_ex [of 16 n] le_Suc_ex [of 24 n] by force
  then show "bit (pack 8 0 (map (byte_of v) [0, 1, 2, 3]) :: 32 word) n \<longleftrightarrow> bit v n"
    by cases (simp_all add: byte_of_def bit_simps)
qed

interpretation mem_regs: register_file byte_regs
proof
  fix off off' :: nat and v :: "16 word" and x :: "32 word" and s :: "nat \<Rightarrow> u8"
  show "mmio_readw byte_regs off (mmio_writew byte_regs off v s) = v" by (simp add: byte_regs_def word_bytes16)
  show "mmio_readl byte_regs off (mmio_writel byte_regs off x s) = x" using pack_byte_of [of x] by (simp add: byte_regs_def)
  show "mmio_readw byte_regs off (mmio_writew byte_regs off' v s) = mmio_readw byte_regs off s" if "off + 2 \<le> off' \<or> off' + 2 \<le> off"
    using that by (auto simp: byte_regs_def)
  show "mmio_readw byte_regs off (mmio_writel byte_regs off' x s) = mmio_readw byte_regs off s" if "off + 2 \<le> off' \<or> off' + 4 \<le> off"
    using that by (auto simp: byte_regs_def)
  show "mmio_readl byte_regs off (mmio_writew byte_regs off' v s) = mmio_readl byte_regs off s" if "off + 4 \<le> off' \<or> off' + 2 \<le> off"
    using that by (auto simp: byte_regs_def)
  show "mmio_readl byte_regs off (mmio_writel byte_regs off' x s) = mmio_readl byte_regs off s" if "off + 4 \<le> off' \<or> off' + 4 \<le> off"
    using that by (auto simp: byte_regs_def)
qed

lemma table_regs_init: "\<exists>p. table_regs gen (cp_swseq (init_chipset_properties gen)) = (p, p + 2, p + 4)"
  by (auto simp: table_regs_def init_chipset_properties_def Let_def ICH7_REG_PREOP_def ICH7_REG_OPTYPE_def ICH7_REG_OPMENU_def
      ICH9_REG_PREOP_def ICH9_REG_OPTYPE_def ICH9_REG_OPMENU_def PCH100_REG_PREOP_def PCH100_REG_OPTYPE_def PCH100_REG_OPMENU_def)

text \<open>On every generation, writing an opcode table to the registers with \<^verbatim>\<open>program_opcodes\<close> and reading the
  registers with \<^verbatim>\<open>generate_opcodes\<close>, as is done when they are locked, gives the same prefixes, opcodes and types,
  with no opcode atomic.\<close>

theorem opcode_table_roundtrip:
  assumes "register_file R" and "table_ok t" and "swseq_data st = cp_swseq (init_chipset_properties gen)"
  shows "generate_opcodes R gen (snd (program_opcodes R t undo gen st)) =
    t\<lparr>ops_opcode := map (\<lambda>e. e\<lparr>oc_atomic := 0\<rparr>) (ops_opcode t)\<rparr>"
  using register_file.generate_program [OF assms(1,2)] table_regs_init [of gen] assms(3) by auto

definition sample_ich :: "(nat \<Rightarrow> u8) ich" where
  "sample_ich = \<lparr>ich_hw = (\<lambda>i. 0), curopcodes = Some O_ST_M25P, ichspi_lock = False, ichspi_bbar = 0, ich_generation = CHIPSET_ICH9,
     swseq_data = cp_swseq (init_chipset_properties CHIPSET_ICH9), ich_undo = []\<rparr>"

theorem opcode_table_witness:
  "generate_opcodes byte_regs CHIPSET_ICH9 (snd (program_opcodes byte_regs O_ST_M25P True CHIPSET_ICH9 sample_ich)) =
    O_ST_M25P\<lparr>ops_opcode := map (\<lambda>e. e\<lparr>oc_atomic := 0\<rparr>) (ops_opcode O_ST_M25P)\<rparr>"
  by (rule opcode_table_roundtrip [OF mem_regs.register_file_axioms O_ST_M25P_ok]) (simp add: sample_ich_def)

text \<open>What \<^verbatim>\<open>program_opcodes\<close> saves when it is asked to lets the shutdown restore the registers: running the saved
  writes in reverse order gives the four registers the values they had before.\<close>

theorem program_opcodes_undone:
  assumes "register_file R" and "swseq_data st = cp_swseq (init_chipset_properties gen)"
    and "table_regs gen (swseq_data st) = (preop, optype, opmenu)"
    and "ich_undo (snd (program_opcodes R t True gen st)) = saved @ ich_undo st"
    and "s' = fold (undo_mmio_write R) saved (ich_hw (snd (program_opcodes R t True gen st)))"
  shows "length saved = 4 \<and> mmio_readw R preop s' = mmio_readw R preop (ich_hw st) \<and> mmio_readw R optype s' = mmio_readw R optype (ich_hw st) \<and>
    mmio_readl R opmenu s' = mmio_readl R opmenu (ich_hw st) \<and> mmio_readl R (opmenu + 4) s' = mmio_readl R (opmenu + 4) (ich_hw st)"
proof -
  obtain p where p: "preop = p" "optype = p + 2" "opmenu = p + 4" using table_regs_init [of gen] assms(2,3) by auto
  note rf = register_file.readw_writew [OF assms(1)] register_file.readl_writel [OF assms(1)] register_file.readw_other [OF assms(1)]
    register_file.readl_other [OF assms(1)]
  have "saved = [Undo_l (opmenu + 4) (mmio_readl R (opmenu + 4) (ich_hw st)), Undo_l opmenu (mmio_readl R opmenu (ich_hw st)),
      Undo_w optype (mmio_readw R optype (ich_hw st)), Undo_w preop (mmio_readw R preop (ich_hw st))]"
    using assms(3,4) by (simp add: program_opcodes_def upd_hw_def rmmio_vall_def rmmio_valw_def Let_def)
  then show ?thesis by (simp add: assms(5) p rf)
qed

theorem program_opcodes_undone_witness:
  "let st' = snd (program_opcodes byte_regs O_ST_M25P True CHIPSET_ICH9 sample_ich);
       s' = fold (undo_mmio_write byte_regs) (ich_undo st') (ich_hw st')
   in length (ich_undo st') = 4 \<and> mmio_readw byte_regs 0x94 s' = 0 \<and> mmio_readl byte_regs 0x98 s' = 0"
proof -
  have z: "mmio_readw byte_regs off (ich_hw sample_ich) = 0" "mmio_readl byte_regs off (ich_hw sample_ich) = 0" for off
    by (simp_all add: byte_regs_def sample_ich_def)
  have t: "table_regs CHIPSET_ICH9 (swseq_data sample_ich) = (0x94, 0x96, 0x98)"
    by (simp add: table_regs_def ich7_family_def sample_ich_def init_chipset_properties_def pch100_family_def
        ICH9_REG_PREOP_def ICH9_REG_OPTYPE_def ICH9_REG_OPMENU_def)
  show ?thesis
    unfolding Let_def
    using program_opcodes_undone [OF mem_regs.register_file_axioms _ t, of O_ST_M25P "ich_undo (snd (program_opcodes byte_regs O_ST_M25P True CHIPSET_ICH9 sample_ich))" _]
    by (simp add: z) (simp add: sample_ich_def)
qed

section \<open>Addresses\<close>

text \<open>What the window accepts: the address on the bus is not below the bottom address register, and neither it nor the data run
  over the top of the 16 MiB below 4 GiB.\<close>

lemma addr_window_ok:
  assumes w: "addr_window bbar size_kib = (valid_base, valid_end, addr_offset)" and b: "unat bbar < 2 ^ 24"
    and c: "count < 2 ^ 32" and ok: "\<not> (addr < valid_base \<or> addr + word_of_nat count < addr \<or> addr + word_of_nat count > valid_end)"
  shows "unat bbar \<le> unat (addr + addr_offset) \<and> unat (addr + addr_offset) + count \<le> 2 ^ 24"
proof -
  have vb: "valid_base = bbar AND (word_of_nat (mul32 size_kib 1024) - 1)" and off: "addr_offset = bbar - valid_base"
    and ve: "valid_end = 0x1000000 - addr_offset" using w by (auto simp: addr_window_def Let_def)
  have le: "valid_base \<le> bbar" unfolding vb by (rule word_and_le2)
  have o: "unat addr_offset = unat bbar - unat valid_base" unfolding off using le by (simp add: unat_sub)
  have "addr_offset \<le> 0x1000000" using o b by (simp add: word_le_nat_alt)
  then have e: "unat valid_end = 2 ^ 24 - unat addr_offset" unfolding ve by (simp add: unat_sub)
  have cw: "unat (word_of_nat count :: 32 word) = count" using c by (simp add: unat_of_nat)
  have "addr \<le> addr + word_of_nat count" using ok by (simp add: not_less)
  then have s: "unat (addr + word_of_nat count) = unat addr + count"
    using cw unat_plus_simple [of addr "word_of_nat count"] by simp
  have "unat valid_base \<le> unat addr" "unat addr + count \<le> 2 ^ 24 - unat addr_offset" using ok s e by (simp_all add: word_less_nat_alt not_less)
  moreover have "unat (addr + addr_offset) = unat addr + unat addr_offset"
    using calculation o b by (subst unat_add_lem [symmetric]) simp
  ultimately show ?thesis using o b le by (simp add: word_le_nat_alt) linarith
qed

text \<open>C23: a read or write with an address either is refused with \<^verbatim>\<open>SPI_INVALID_ADDRESS\<close> before any register is written, or runs a cycle
  whose address is the one of the command plus the offset of the chip in the window, not below the bottom address register,
  and whose data end within the 16 MiB that the chipset decodes.\<close>

theorem ich_command_window:
  assumes tab: "curopcodes st = Some tab" "find_opcode (Some tab) cmd = int q" "op = ops_opcode tab ! q"
    and cmd: "cmd \<noteq> JEDEC_REMS" "cmd \<noteq> JEDEC_RES" and writearr: "writearr = cmd # rest" "4 \<le> length writearr"
    and ty: "oc_spi_type op = SPI_OPCODE_TYPE_READ_WITH_ADDRESS \<and> length writearr = 4 \<and> count = readcnt \<or>
      oc_spi_type op = SPI_OPCODE_TYPE_WRITE_WITH_ADDRESS \<and> readcnt = 0 \<and> count = length writearr - 4"
    and bbar: "unat (ichspi_bbar st) < 2 ^ 24" and count: "count < 2 ^ 32"
  shows "ich_spi_send_command R max_data size_kib writearr readcnt st = Some (SPI_INVALID_ADDRESS, [], st) \<or>
    (\<exists>off. ich_spi_send_command R max_data size_kib writearr readcnt st = Some (run_opcode R max_data op off count (drop 4 writearr) st) \<and>
      off = command_addr writearr + snd (snd (addr_window (ichspi_bbar st) size_kib)) \<and>
      unat (ichspi_bbar st) \<le> unat off \<and> unat off + count \<le> 2 ^ 24)"
proof -
  obtain vb ve ao where w: "addr_window (ichspi_bbar st) size_kib = (vb, ve, ao)" by (cases "addr_window (ichspi_bbar st) size_kib") auto
  let ?a = "command_addr writearr"
  let ?bad = "?a < vb \<or> ?a + word_of_nat count < ?a \<or> ?a + word_of_nat count > ve"
  have nl: "int q \<noteq> SPI_INVALID_LENGTH" by (simp add: SPI_INVALID_LENGTH_def)
  have run: "ich_spi_send_command R max_data size_kib writearr readcnt st =
      (if ?bad then Some (SPI_INVALID_ADDRESS, [], st) else Some (run_opcode R max_data op (?a + ao) count (drop 4 writearr) st))"
    using ty writearr(2) cmd unfolding writearr(1)
    by (elim disjE conjE)
      (simp_all add: ich_spi_send_command_def tab Let_def nl w write_type_def spi_type_defs flip: tab(3))
  show ?thesis
  proof (cases ?bad)
    case False
    then show ?thesis using addr_window_ok [OF w bbar count, of ?a] run w by auto
  qed (use run in simp)
qed

theorem ich_command_window_witness:
  "ich_spi_send_command byte_regs 64 16384 [JEDEC_READ, 0x12, 0x34, 0x56] 16 sample_ich = Some (SPI_INVALID_ADDRESS, [], sample_ich) \<or>
    (\<exists>off. ich_spi_send_command byte_regs 64 16384 [JEDEC_READ, 0x12, 0x34, 0x56] 16 sample_ich =
        Some (run_opcode byte_regs 64 (ops_opcode O_ST_M25P ! 1) off 16 [] sample_ich) \<and>
      off = command_addr [JEDEC_READ, 0x12, 0x34, 0x56] + snd (snd (addr_window (ichspi_bbar sample_ich) 16384)) \<and>
      unat (ichspi_bbar sample_ich) \<le> unat off \<and> unat off + 16 \<le> 2 ^ 24)"
proof -
  have f: "find_opcode (Some O_ST_M25P) JEDEC_READ = int 1"
    by (simp add: find_opcode_def O_ST_M25P_def JEDEC_READ_def JEDEC_BYTE_PROGRAM_def)
  have st: "curopcodes sample_ich = Some O_ST_M25P" "ichspi_bbar sample_ich = 0" by (simp_all add: sample_ich_def)
  show ?thesis
    using ich_command_window [OF st(1) f refl, of "[JEDEC_READ, 0x12, 0x34, 0x56]" "[0x12, 0x34, 0x56]" 16 16 byte_regs 64 16384]
    by (simp add: st O_ST_M25P_def JEDEC_READ_def JEDEC_REMS_def JEDEC_RES_def)
qed

section \<open>Command lists\<close>

definition atomics_clear :: "'s ich \<Rightarrow> bool" where
  "atomics_clear st \<longleftrightarrow> (case curopcodes st of None \<Rightarrow> True | Some t \<Rightarrow> \<forall>e \<in> set (ops_opcode t). oc_atomic e = 0)"

lemma clear_atomic_clear: "clear_atomic st = Some st' \<Longrightarrow> atomics_clear st'"
  by (auto simp: atomics_clear_def clear_atomic_def split: option.splits)

text \<open>A command is always sent before the loop ends, and sending one clears the prefixes.\<close>

lemma multicommand_loop_clear:
  "ich_multicommand_loop R m t cmds ret st = Some (r, rs, st') \<Longrightarrow>
     atomics_clear st \<or> cmds \<noteq> [] \<and> \<not> empty_command (hd cmds) \<and> ret = 0 \<Longrightarrow> atomics_clear st'"
proof (induction cmds arbitrary: ret st r rs st')
  case (Cons cmd cmds)
  show ?case
  proof (cases "empty_command cmd \<or> ret \<noteq> 0")
    case True
    then show ?thesis using Cons.prems by auto
  next
    case False
    define S where "S = (\<lambda>x. Option.bind (ich_spi_send_command R m t (fst cmd) (snd cmd) x) (\<lambda>(r, received, st1).
          Option.bind (clear_atomic st1) (\<lambda>st2. map_option (\<lambda>(ret', rs, st3). (ret', received # rs, st3)) (ich_multicommand_loop R m t cmds r st2))))"
    define K where "K = (\<lambda>x. map_option (\<lambda>(ret', rs, st2). (ret', [] # rs, st2)) (ich_multicommand_loop R m t cmds ret x))"
    have S: "Option.bind (ich_spi_send_command R m t (fst cmd) (snd cmd) x) (\<lambda>(r, received, st1).
          Option.bind (clear_atomic st1) (\<lambda>st2. map_option (\<lambda>(ret', rs, st3). (ret', received # rs, st3)) (ich_multicommand_loop R m t cmds r st2))) = S x"
      and K: "map_option (\<lambda>(ret', rs, st2). (ret', [] # rs, st2)) (ich_multicommand_loop R m t cmds ret x) = K x" for x
      by (simp_all add: S_def K_def)
    note run = Cons.prems(1) [unfolded ich_multicommand_loop.simps(2) Let_def S K]
    have send: "S x = Some (r, rs, st') \<Longrightarrow> atomics_clear st'" for x
      using Cons.IH [OF _ disjI1] clear_atomic_clear by (fastforce simp: S_def bind_eq_Some_conv)
    have skip: "K x = Some (r, rs, st') \<Longrightarrow> cmds \<noteq> [] \<Longrightarrow> \<not> empty_command (hd cmds) \<Longrightarrow> atomics_clear st'" for x
      using Cons.IH [of ret x] False by (auto simp: K_def)
    have bound: "Option.bind y K = Some (r, rs, st') \<Longrightarrow> cmds \<noteq> [] \<Longrightarrow> \<not> empty_command (hd cmds) \<Longrightarrow> atomics_clear st'" for y
      using skip by (auto simp: bind_eq_Some_conv)
    show ?thesis
    proof (cases cmds)
      case Nil
      then show ?thesis using run False send [of st] by simp
    next
      case (Cons next_cmd more)
      then have ne: "cmds \<noteq> []" "hd cmds = next_cmd" by simp_all
      show ?thesis
      proof (cases "empty_command next_cmd")
        case True
        then show ?thesis using run False send [of st] Cons by simp
      next
        case full: False
        show ?thesis
          using run False full send skip [OF _ ne(1)] bound [OF _ ne(1)] ne(2)
          by (simp add: Cons split: if_splits) (auto simp: bind_eq_Some_conv split: if_splits)
      qed
    qed
  qed
qed simp

text \<open>No opcode stays marked as atomic after a list of commands: if none is marked before
  \<^verbatim>\<open>ich_spi_send_multicommand\<close>, none is marked when it returns, whatever the commands and whether they succeed.\<close>

theorem multicommand_clears_prefixes:
  assumes "ich_spi_send_multicommand R max_data size_kib cmds st = Some (r, rs, st')" and "atomics_clear st"
  shows "atomics_clear st'"
  using multicommand_loop_clear assms unfolding ich_spi_send_multicommand_def by blast

text \<open>A write enable followed by a command of the opcode table becomes one cycle: only the second command is
  sent, with its opcode marked with the position of the prefix, and the marks are cleared afterwards.\<close>

theorem prefix_merged:
  assumes tab: "curopcodes st = Some t" "find_preop (Some t) pre = int p" "find_opcode (Some t) cmd = int q" and q: "q < length (ops_opcode t)"
  shows "ich_spi_send_multicommand R max_data size_kib [([pre], 0), (cmd # rest, k)] st =
    Option.bind (ich_spi_send_command R max_data size_kib (cmd # rest) k
        (st\<lparr>curopcodes := Some (t\<lparr>ops_opcode := (ops_opcode t)[q := (ops_opcode t ! q)\<lparr>oc_atomic := p + 1\<rparr>]\<rparr>)\<rparr>))
      (\<lambda>(r, received, st1). map_option (\<lambda>st2. (r, [[], received], st2)) (clear_atomic st1))"
proof -
  define st1 where "st1 = st\<lparr>curopcodes := Some (t\<lparr>ops_opcode := (ops_opcode t)[q := (ops_opcode t ! q)\<lparr>oc_atomic := p + 1\<rparr>]\<rparr>)\<rparr>"
  have "upd_opcode (int q) (\<lambda>e. e\<lparr>oc_atomic := nat (int p + 1)\<rparr>) st = Some st1"
    using q by (simp add: upd_opcode_def tab st1_def nat_add_distrib)
  then show ?thesis
    unfolding st1_def [symmetric]
    by (cases "ich_spi_send_command R max_data size_kib (cmd # rest) k st1")
      (auto simp: ich_spi_send_multicommand_def empty_command_def tab Let_def map_conv_bind_option comp_def)
qed

theorem prefix_merged_witness:
  "ich_spi_send_multicommand byte_regs 64 16384 [([JEDEC_WREN], 0), ([JEDEC_SE, 0, 0x10, 0], 0)] sample_ich =
    Option.bind (ich_spi_send_command byte_regs 64 16384 [JEDEC_SE, 0, 0x10, 0] 0
        (sample_ich\<lparr>curopcodes := Some (O_ST_M25P\<lparr>ops_opcode := (ops_opcode O_ST_M25P)[2 := (ops_opcode O_ST_M25P ! 2)\<lparr>oc_atomic := 0 + 1\<rparr>]\<rparr>)\<rparr>))
      (\<lambda>(r, received, st1). map_option (\<lambda>st2. (r, [[], received], st2)) (clear_atomic st1))"
  by (rule prefix_merged)
    (simp_all add: sample_ich_def find_preop_def find_opcode_def O_ST_M25P_def JEDEC_READ_def JEDEC_BYTE_PROGRAM_def JEDEC_SE_def)

theorem multicommand_clears_witness:
  "case ich_spi_send_multicommand byte_regs 64 16384 [([JEDEC_WREN], 0), ([JEDEC_SE, 0xff, 0xff], 0)] sample_ich of
     Some (r, rs, st') \<Rightarrow> r = SPI_INVALID_LENGTH \<and> atomics_clear st' | None \<Rightarrow> False"
proof -
  have "ich_spi_send_multicommand byte_regs 64 16384 [([JEDEC_WREN], 0), ([JEDEC_SE, 0xff, 0xff], 0)] sample_ich =
      Some (SPI_INVALID_LENGTH, [[], []], sample_ich)"
    by (simp add: ich_spi_send_multicommand_def ich_spi_send_command_def empty_command_def sample_ich_def find_preop_def find_opcode_def
        O_ST_M25P_def upd_opcode_def clear_atomic_def Let_def spi_type_defs JEDEC_READ_def JEDEC_BYTE_PROGRAM_def JEDEC_SE_def
        SPI_INVALID_LENGTH_def)
  moreover have "atomics_clear sample_ich" by (simp add: atomics_clear_def sample_ich_def O_ST_M25P_def)
  ultimately show ?thesis using multicommand_clears_prefixes [of byte_regs 64 16384 _ sample_ich SPI_INVALID_LENGTH "[[], []]" sample_ich] by simp
qed

text \<open>A prefix followed by a read command of unknown type with neither one nor four bytes is undefined on an
  unlocked chipset: \<^verbatim>\<open>reprogram_opcode_on_the_fly\<close> returns \<^verbatim>\<open>SPI_INVALID_LENGTH\<close>, which \<^verbatim>\<open>ich_spi_send_multicommand\<close> uses
  as an index into the table.\<close>

theorem multicommand_invalid_index:
  assumes tab: "curopcodes st = Some t" "find_preop (Some t) pre = int p" "find_opcode (Some t) cmd = -1" "find_preop (Some t) cmd = -1"
    and open_table: "\<not> ichspi_lock st" and unknown: "lookup_spi_type cmd > 3"
    and len: "k \<noteq> 0" "length (cmd # rest) \<notin> {1, 4}"
  shows "ich_spi_send_multicommand R max_data size_kib [([pre], 0), (cmd # rest, k)] st = None"
proof -
  have "reprogram_opcode_on_the_fly R cmd (length (cmd # rest)) k st = Some (SPI_INVALID_LENGTH, st)"
    using unknown len by (simp add: reprogram_opcode_on_the_fly_def)
  moreover have "upd_opcode SPI_INVALID_LENGTH f st = None" for f by (simp add: upd_opcode_def tab SPI_INVALID_LENGTH_def)
  ultimately show ?thesis
    using open_table by (simp add: ich_spi_send_multicommand_def empty_command_def tab Let_def SPI_INVALID_LENGTH_def)
qed

theorem multicommand_invalid_index_witness:
  "ich_spi_send_multicommand byte_regs 64 16384 [([JEDEC_WREN], 0), ([0x5a, 0, 0, 0, 0], 8)] sample_ich = None"
  by (rule multicommand_invalid_index [where t = O_ST_M25P and p = 0])
    (simp_all add: sample_ich_def find_preop_def find_opcode_def O_ST_M25P_def lookup_spi_type_def POSSIBLE_OPCODES_def
      JEDEC_READ_def JEDEC_BYTE_PROGRAM_def JEDEC_SE_def JEDEC_RDSR_def JEDEC_REMS_def JEDEC_WRSR_def JEDEC_RDID_def JEDEC_CE_C7_def
      JEDEC_WREN_def JEDEC_EWSR_def JEDEC_BE_D8_def JEDEC_BE_52_def JEDEC_AAI_WORD_PROGRAM_def)

section \<open>Reprogramming\<close>

lemma find_index_hit: "find_index P a xs = -1 \<longleftrightarrow> (\<forall>x \<in> set xs. \<not> P x)" if "0 \<le> a"
  using that by (induction xs arbitrary: a) auto

lemma find_index_nth:
  "0 \<le> a \<Longrightarrow> find_index P a xs \<noteq> -1 \<Longrightarrow> a \<le> find_index P a xs \<and> find_index P a xs < a + int (length xs) \<and> P (xs ! nat (find_index P a xs - a))"
proof (induction xs arbitrary: a)
  case (Cons x xs)
  show ?case
  proof (cases "P x")
    case False
    define k where "k = nat (find_index P (a + 1) xs - (a + 1))"
    have "a + 1 \<le> find_index P (a + 1) xs" "find_index P (a + 1) xs < a + 1 + int (length xs)" "P (xs ! k)"
      using Cons.IH [of "a + 1"] Cons.prems False by (simp_all add: k_def)
    moreover from this have "nat (find_index P (a + 1) xs - a) = Suc k" by (simp add: k_def)
    ultimately show ?thesis using False by simp
  qed (use Cons.prems in simp)
qed simp

text \<open>On an unlocked chipset with a well-formed table \<^verbatim>\<open>reprogram_opcode_on_the_fly\<close> is defined for every command:
  it refuses the length and changes nothing, or it returns a position of the table that holds the opcode, and
  the table stays well-formed and keeps its prefixes and all opcodes but the fifth.\<close>

theorem reprogram_correct:
  assumes st: "curopcodes st = Some t" "table_ok t"
  shows "(\<exists>i st' t'. reprogram_opcode_on_the_fly R opc writecnt readcnt st = Some (int i, st') \<and> curopcodes st' = Some t' \<and> table_ok t' \<and>
      i < 8 \<and> oc_opcode (ops_opcode t' ! i) = opc \<and> ops_preop t' = ops_preop t \<and> (\<forall>j < 8. j \<noteq> 4 \<longrightarrow> ops_opcode t' ! j = ops_opcode t ! j)) \<or>
    reprogram_opcode_on_the_fly R opc writecnt readcnt st = Some (SPI_INVALID_LENGTH, st) \<and> readcnt \<noteq> 0 \<and> writecnt \<notin> {1, 4}"
proof -
  have t: "length (ops_opcode t) = 8" using st(2) by (simp add: table_ok_def)
  define ty where "ty = (if lookup_spi_type opc > 3 then
      if readcnt = 0 then Some SPI_OPCODE_TYPE_WRITE_NO_ADDRESS
      else if writecnt = 1 then Some SPI_OPCODE_TYPE_READ_NO_ADDRESS
      else if writecnt = 4 then Some SPI_OPCODE_TYPE_READ_WITH_ADDRESS else None
      else Some (lookup_spi_type opc))"
  show ?thesis
  proof (cases ty)
    case None
    then have "reprogram_opcode_on_the_fly R opc writecnt readcnt st = Some (SPI_INVALID_LENGTH, st)" "readcnt \<noteq> 0" "writecnt \<notin> {1, 4}"
      by (auto simp: reprogram_opcode_on_the_fly_def ty_def Let_def split: if_splits)
    then show ?thesis by blast
  next
    case (Some x)
    then have x: "x < 4" by (auto simp: ty_def spi_type_defs split: if_splits)
    define t' where "t' = t\<lparr>ops_opcode := (ops_opcode t)[4 := (ops_opcode t ! 4)\<lparr>oc_opcode := opc, oc_spi_type := x\<rparr>]\<rparr>"
    define st' where "st' = snd (program_opcodes R t' False (ich_generation st) (st\<lparr>curopcodes := Some t'\<rparr>))"
    have up: "upd_opcode 4 (\<lambda>e. e\<lparr>oc_opcode := opc, oc_spi_type := x\<rparr>) st = Some (st\<lparr>curopcodes := Some t'\<rparr>)"
      using t by (simp add: upd_opcode_def st t'_def)
    have cur: "curopcodes st' = Some t'" by (simp add: st'_def program_opcodes_def upd_hw_def split: prod.split)
    have run: "reprogram_opcode_on_the_fly R opc writecnt readcnt st = Some (find_opcode (Some t') opc, st')"
      unfolding reprogram_opcode_on_the_fly_def Let_def ty_def [symmetric] Some option.case up using cur by (simp add: st'_def Let_def)
    have ok: "table_ok t'"
      using st(2) x set_update_subset_insert [of "ops_opcode t" 4] by (force simp: table_ok_def t'_def)
    have "opc = oc_opcode (ops_opcode t' ! 4)" "4 < length (ops_opcode t')" using t by (simp_all add: t'_def)
    then have "find_opcode (Some t') opc \<noteq> -1" unfolding find_opcode_def by (auto simp: find_index_hit intro: bexI [OF _ nth_mem])
    then have i: "0 \<le> find_opcode (Some t') opc" "find_opcode (Some t') opc < 8" "oc_opcode (ops_opcode t' ! nat (find_opcode (Some t') opc)) = opc"
      using find_index_nth [of 0 "\<lambda>e. oc_opcode e = opc" "ops_opcode t'"] t by (simp_all add: find_opcode_def t'_def)
    have "ops_preop t' = ops_preop t" "\<forall>j < 8. j \<noteq> 4 \<longrightarrow> ops_opcode t' ! j = ops_opcode t ! j" by (simp_all add: t'_def)
    with i run cur ok show ?thesis
      by (intro disjI1 exI [of _ "nat (find_opcode (Some t') opc)"] exI [of _ st'] exI [of _ t']) simp
  qed
qed

theorem reprogram_witness:
  "(\<exists>i st' t'. reprogram_opcode_on_the_fly byte_regs JEDEC_BE_D8 4 0 sample_ich = Some (int i, st') \<and> curopcodes st' = Some t' \<and> table_ok t' \<and>
      i < 8 \<and> oc_opcode (ops_opcode t' ! i) = JEDEC_BE_D8 \<and> ops_preop t' = ops_preop O_ST_M25P \<and>
      (\<forall>j < 8. j \<noteq> 4 \<longrightarrow> ops_opcode t' ! j = ops_opcode O_ST_M25P ! j)) \<or>
    reprogram_opcode_on_the_fly byte_regs JEDEC_BE_D8 4 0 sample_ich = Some (SPI_INVALID_LENGTH, sample_ich) \<and> (0 :: nat) \<noteq> 0 \<and> (4 :: nat) \<notin> {1, 4}"
  by (rule reprogram_correct [OF _ O_ST_M25P_ok]) (simp add: sample_ich_def)

end
