(* ===== verification/IchImage.thy ===== *)
theory IchImage
  imports IchHwseqOk IchInit W25q
begin

text \<open>
  The image operations of libflashrom on an Intel chipset in hardware sequencing mode: the chip that \<open>ich_hwseq_probe\<close> fills in,
  the opaque master \<^verbatim>\<open>opaque_master_ich_hwseq\<close> with its drivers, and the regions of the descriptor. A controller that
  keeps the laws of \<open>ich_controller\<close>, with regions that are open to the host, is a device of the write algorithm.
\<close>

section \<open>The context\<close>

definition probed_chip :: "'s regs \<Rightarrow> hwseq_data \<Rightarrow> (bool \<times> flashchip) list \<Rightarrow> 's \<Rightarrow> flashchip" where
  "probed_chip R hq chips s0 = fst (snd (ich_hwseq_probe R hq chips opaque_chip s0))"

text \<open>\<^verbatim>\<open>opaque_master_ich_hwseq\<close>; the size of the chip in bytes is what \<^verbatim>\<open>flashrom_flash_getsize\<close> returns.\<close>

definition ich_hwseq_master :: "ich_chipset \<Rightarrow> hwseq_data \<Rightarrow> flashchip \<Rightarrow> master" where
  "ich_hwseq_master gen hq chip =
     \<lparr>m_buses_supported = BUS_PROG, m_opaque_get_region = Some (ich_get_region gen hq (mul32 (ch_total_size chip) 1024)),
      m_spi_get_region = None, m_spi_probe_opcode = None\<rparr>"

definition ich_hwseq_drivers :: "'s regs \<Rightarrow> hwseq_data \<Rightarrow> flashchip \<Rightarrow> 's drivers" where
  "ich_hwseq_drivers R hq chip =
     \<lparr>drv_read = (\<lambda>f start len s. if f = READ_OPAQUE then Some (ich_hwseq_read R hq (ch_total_size chip) start len s) else None),
      drv_write = (\<lambda>f buf start len s. if f = WRITE_OPAQUE then Some (ich_hwseq_write R hq (ch_total_size chip) buf start len s) else None),
      drv_erase = (\<lambda>f a len s. if f = OPAQUE_ERASE then Some (ich_hwseq_block_erase R hq (ch_total_size chip) a len s) else None)\<rparr>"

definition ich_ctx ::
    "'s regs \<Rightarrow> ich_chipset \<Rightarrow> hwseq_data \<Rightarrow> (bool \<times> flashchip) list \<Rightarrow> 's \<Rightarrow> layout option \<Rightarrow> flags \<Rightarrow> int \<Rightarrow> (nat \<Rightarrow> u8) \<Rightarrow>
      's flashctx" where
  "ich_ctx R gen hq chips s0 lay fl ratio fresh =
     (let chip = probed_chip R hq chips s0
      in \<lparr>c_chip = chip, c_mst = ich_hwseq_master gen hq chip, c_layout = lay,
          c_default_layout = (case snd (init_default_layout True True chip) of Some l \<Rightarrow> l | None \<Rightarrow> []),
          c_flags = fl, c_sacrifice_ratio = ratio, c_drivers = ich_hwseq_drivers R hq chip, c_malloc = (\<lambda>m. True),
          c_fresh = fresh\<rparr>)"

text \<open>The write-protect support reads and writes the status register through the controller, but the opaque chip has no range
  decoder; no protected range register is active.\<close>

definition ich_wp_env :: "'s regs \<Rightarrow> hwseq_data \<Rightarrow> 's wp_env" where
  "ich_wp_env R hq =
     \<lparr>we_buses = BUS_PROG, we_opaque_read = Some (ich_hwseq_read_status R hq),
      we_opaque_write = Some (ich_hwseq_write_status R hq),
      we_spi_read = (\<lambda>r s. (SPI_INVALID_OPCODE, 0, s)), we_spi_write = (\<lambda>r v s. (SPI_INVALID_OPCODE, s)),
      we_opaque_write_cfg = None, we_opaque_read_cfg = None,
      we_reg_bits = we_reg_bits opaque_wp_env, we_decode_range = NO_DECODE_RANGE_FUNC, we_chip_len = 0, we_calloc = True,
      we_junk = we_junk opaque_wp_env\<rparr>"

definition ich_access :: "'s regs \<Rightarrow> hwseq_data \<Rightarrow> 's access" where
  "ich_access R hq =
     \<lparr>ac_programmer_may_write = True, ac_spi_features = 0, ac_map_flash = (\<lambda>s. (0, s)), ac_unmap_flash = (\<lambda>s. s),
      ac_wp = ich_wp_env R hq, ac_cfg_alloc = True, ac_blockprotect = None, ac_protected_ranges = [],
      ac_clear_addressing = (\<lambda>s. s), ac_enter_4ba = (\<lambda>s. None), ac_exit_4ba = (\<lambda>s. None),
      ac_delay = default_delay R 1000000, ac_image_mismatch = (\<lambda>b. False)\<rparr>"

section \<open>The chip\<close>

text \<open>When the chip was identified and its entry copied, it is one that erases to ones and that is not marked as broken.\<close>

definition entry_ok :: "flashchip \<Rightarrow> bool" where
  "entry_ok chip \<longleftrightarrow> ch_feature_bits chip AND FEATURE_ERASED_ZERO = 0 \<and> t_read (ch_tested chip) \<noteq> BAD \<and>
     t_erase (ch_tested chip) \<notin> {NA, BAD} \<and> t_write (ch_tested chip) \<notin> {NA, BAD}"

text \<open>The regions the driver reports: no address is protected, and each region ends at the end of an erase block.\<close>

definition regions_open :: "ich_chipset \<Rightarrow> hwseq_data \<Rightarrow> nat \<Rightarrow> nat \<Rightarrow> bool" where
  "regions_open gen hq n es \<longleftrightarrow>
     (\<forall>a < n. let r = ich_get_region gen hq n a
              in \<not> fr_read_prot r \<and> \<not> fr_write_prot r \<and> a \<le> fr_end r \<and> fr_end r < n \<and> es dvd Suc (fr_end r) \<and>
                 (\<forall>b. a \<le> b \<and> b \<le> fr_end r \<longrightarrow> ich_get_region gen hq n b = r))"

lemma regions_openD:
  assumes "regions_open gen hq n es" and "a < n"
  shows "\<not> fr_read_prot (ich_get_region gen hq n a)" "\<not> fr_write_prot (ich_get_region gen hq n a)"
    "a \<le> fr_end (ich_get_region gen hq n a)" "fr_end (ich_get_region gen hq n a) < n"
    "es dvd Suc (fr_end (ich_get_region gen hq n a))"
    "a \<le> b \<Longrightarrow> b \<le> fr_end (ich_get_region gen hq n a) \<Longrightarrow> ich_get_region gen hq n b = ich_get_region gen hq n a"
proof -
  have "let r = ich_get_region gen hq n a
      in \<not> fr_read_prot r \<and> \<not> fr_write_prot r \<and> a \<le> fr_end r \<and> fr_end r < n \<and> es dvd Suc (fr_end r) \<and>
         (\<forall>b. a \<le> b \<and> b \<le> fr_end r \<longrightarrow> ich_get_region gen hq n b = r)"
    using assms unfolding regions_open_def by blast
  note r = this [unfolded Let_def]
  show "\<not> fr_read_prot (ich_get_region gen hq n a)" "\<not> fr_write_prot (ich_get_region gen hq n a)"
    "a \<le> fr_end (ich_get_region gen hq n a)" "fr_end (ich_get_region gen hq n a) < n"
    "es dvd Suc (fr_end (ich_get_region gen hq n a))"
    "a \<le> b \<Longrightarrow> b \<le> fr_end (ich_get_region gen hq n a) \<Longrightarrow> ich_get_region gen hq n b = ich_get_region gen hq n a"
    using r by blast+
qed

text \<open>Identification changes neither the size nor the functions of the chip.\<close>

lemma get_flash_id_chip:
  "ch_total_size (fst (ich_hwseq_get_flash_id R hq chips chip s)) = ch_total_size chip"
  "ch_erasers (fst (ich_hwseq_get_flash_id R hq chips chip s)) = ch_erasers chip"
  "ch_bustype (fst (ich_hwseq_get_flash_id R hq chips chip s)) = ch_bustype chip"
  "ch_read (fst (ich_hwseq_get_flash_id R hq chips chip s)) = ch_read chip"
  "ch_write (fst (ich_hwseq_get_flash_id R hq chips chip s)) = ch_write chip"
  "ch_gran (fst (ich_hwseq_get_flash_id R hq chips chip s)) = ch_gran chip"
  by (auto simp: ich_hwseq_get_flash_id_def Let_def split: prod.splits option.splits)

lemma ones_prog_at:
  assumes "prog_at WRITE_GRAN_256BYTES 0xff old new i"
  shows "old ! i AND new ! i = new ! i"
proof -
  have "i div 256 * 256 \<le> i \<and> i < Suc (i div 256) * 256" using chunk_mem [of 256 "i div 256" i] by simp
  moreover have "(0xff :: u8) AND x = x" for x
  proof -
    have "(0xff :: u8) = -1" by simp
    then show ?thesis by (simp only: and.left_neutral)
  qed
  ultimately show ?thesis using assms by (auto simp: prog_at_def chunk_eq_def chunk_all_def)
qed

context ich_controller
begin

lemma es_le: "es \<le> n" "n div es * es = n" "es < 2147483648"
  using blocks(1,2) sizes by (auto simp: dvd_imp_le dec_berase_def)

lemma total_size: "n div 1024 * 1024 = n" "mul32 (n div 1024) 1024 = n"
  using sizes by (simp_all add: c_simps)

lemma probed_chip_simps:
  assumes "hw_ok s0"
  shows "ch_total_size (probed_chip R hq chips s0) = n div 1024"
    and "ch_erasers (probed_chip R hq chips s0) = uniform_eraser es (n div es) OPAQUE_ERASE # replicate 7 no_eraser"
    and "ch_bustype (probed_chip R hq chips s0) = BUS_PROG" "ch_read (probed_chip R hq chips s0) = READ_OPAQUE"
    and "ch_write (probed_chip R hq chips s0) = WRITE_OPAQUE" "ch_gran (probed_chip R hq chips s0) = WRITE_GRAN_256BYTES"
proof -
  have sum: "add32 (size_comp0 hq) (size_comp1 hq) = n" using sizes by (simp add: c_simps)
  obtain s1 where s1: "ich_hwseq_get_erase_block_size R 0 (addr_mask hq) (only_4k hq) s0 = (es, s1)"
    using erase_size_ok [OF assms sizes(3)] by blast
  have fpb: "(if \<not> only_4k hq then unat (push_bit 12 (mmio_readl R ICH9_REG_FPB s0 AND FPB_FPBA)) else 0) = 0"
    using one_partition [OF assms] by simp
  have sub: "sub32 n 0 = n" using sizes by (simp add: c_simps)
  have blk: "set_blocks (opaque_chip\<lparr>ch_total_size := n div 1024\<rparr>) [(es, n div es)] =
      opaque_chip\<lparr>ch_total_size := n div 1024, ch_erasers := uniform_eraser es (n div es) OPAQUE_ERASE # replicate 7 no_eraser\<rparr>"
    by (simp add: set_blocks_def opaque_chip_def Let_def uniform_eraser_def no_eraser_def NUM_ERASEREGIONS_def
        NUM_ERASEFUNCTIONS_def replicate5)
  have p: "probed_chip R hq chips s0 = fst (ich_hwseq_get_flash_id R hq chips
      (opaque_chip\<lparr>ch_total_size := n div 1024, ch_erasers := uniform_eraser es (n div es) OPAQUE_ERASE # replicate 7 no_eraser,
         ch_tested := \<lparr>t_probe = OK, t_read = OK, t_erase = OK, t_write = OK, t_wp = OK\<rparr>\<rparr>) s1)"
    unfolding probed_chip_def ich_hwseq_probe_def sum fpb Let_def sub
    by (simp add: s1 blk sub Let_def split: prod.splits)
  show "ch_total_size (probed_chip R hq chips s0) = n div 1024"
    "ch_erasers (probed_chip R hq chips s0) = uniform_eraser es (n div es) OPAQUE_ERASE # replicate 7 no_eraser"
    "ch_bustype (probed_chip R hq chips s0) = BUS_PROG" "ch_read (probed_chip R hq chips s0) = READ_OPAQUE"
    "ch_write (probed_chip R hq chips s0) = WRITE_OPAQUE" "ch_gran (probed_chip R hq chips s0) = WRITE_GRAN_256BYTES"
    unfolding p get_flash_id_chip by (simp_all add: opaque_chip_def)
qed

text \<open>The context of a probed chip.\<close>

lemma ich_ctx_simps:
  fixes gen :: ich_chipset and chips :: "(bool \<times> flashchip) list" and lay :: "layout option" and fl :: flags
    and ratio :: int and fresh :: "nat \<Rightarrow> u8"
  assumes "hw_ok s0"
  defines "c \<equiv> ich_ctx R gen hq chips s0 lay fl ratio fresh"
  shows "c_chip c = probed_chip R hq chips s0" "c_layout c = lay" "c_flags c = fl"
    and "c_malloc c = (\<lambda>m. True)" "c_default_layout c = whole_chip n"
    and "c_mst c = ich_hwseq_master gen hq (probed_chip R hq chips s0)"
    and "c_drivers c = ich_hwseq_drivers R hq (probed_chip R hq chips s0)"
    and "get_flash_region c a = ich_get_region gen hq n a"
    and "usable_erasers c = [uniform_eraser es (n div es) OPAQUE_ERASE]"
proof -
  let ?p = "probed_chip R hq chips s0"
  note pc = probed_chip_simps [OF assms(1), of chips]
  show c: "c_chip c = ?p" "c_layout c = lay" "c_flags c = fl" "c_malloc c = (\<lambda>m. True)"
    and m: "c_mst c = ich_hwseq_master gen hq ?p" "c_drivers c = ich_hwseq_drivers R hq ?p"
    by (simp_all add: c_def ich_ctx_def Let_def)
  have "init_default_layout True True ?p = (0, Some (whole_chip n))"
    by (rule init_default_layout_eq) (use pc(1) total_size sizes in auto)
  then show "c_default_layout c = whole_chip n" by (simp add: c_def ich_ctx_def Let_def)
  show "get_flash_region c a = ich_get_region gen hq n a"
    by (simp add: get_flash_region_def m ich_hwseq_master_def bus_defs pc total_size)
  show "usable_erasers c = [uniform_eraser es (n div es) OPAQUE_ERASE]"
    by (simp add: usable_erasers_def c m check_block_eraser_def ich_hwseq_master_def bus_defs NUM_ERASEFUNCTIONS_def upt8 pc
        replicate7 no_eraser_def uniform_eraser_def NUM_ERASEREGIONS_def replicate5 Let_def) (use es_pos es_le sizes in \<open>auto simp: div_greater_zero_iff\<close>)
qed

lemma ich_erased: "hw_ok s0 \<Longrightarrow> entry_ok (probed_chip R hq chips s0) \<Longrightarrow> ERASED_VALUE (ich_ctx R gen hq chips s0 lay fl ratio fresh) = 0xff"
  by (simp add: ERASED_VALUE_def ich_ctx_simps entry_ok_def)

lemma ich_reader:
  assumes "hw_ok s0" and "regions_open gen hq n es"
  shows "flash_reader (ich_ctx R gen hq chips s0 lay fl ratio fresh) n hw_ok mem"
proof (intro flash_reader.intro flash_regions.intro flash_reader_axioms.intro)
  let ?c = "ich_ctx R gen hq chips s0 lay fl ratio fresh"
  note cs = ich_ctx_simps [OF assms(1)] and ps = probed_chip_simps [OF assms(1)] and rg = regions_openD [OF assms(2)]
  show "n = ch_total_size (c_chip ?c) * 1024" "0 < n" "n < 2147483648" "ch_read (c_chip ?c) \<noteq> NO_READ_FUNC"
    by (simp_all only: cs ps total_size sizes(3,4)) simp
  show "a \<le> fr_end (get_flash_region ?c a) \<and> fr_end (get_flash_region ?c a) < n" if "a < n" for a
    using rg(3,4) [OF that] by (simp add: cs)
  show "get_flash_region ?c b = get_flash_region ?c a" if "a < n" "a \<le> b" "b \<le> fr_end (get_flash_region ?c a)" for a b
    using rg(6) [OF that(1,2)] that(3) by (simp add: cs)
  show "length (mem s) = n" if "hw_ok s" for s using that by (rule mem_length)
  show "\<exists>s'. drv_read (c_drivers ?c) (ch_read (c_chip ?c)) a len s = Some (0, bslice a len (mem s), s') \<and> hw_ok s' \<and> mem s' = mem s"
    if "hw_ok s" "a + len \<le> n" for s a len
    using hwseq_read_ok [OF that] by (simp add: cs ps ich_hwseq_drivers_def)
qed

lemma ich_write:
  assumes "hw_ok s" and "a + length buf \<le> n"
    and "\<forall>i. a \<le> i \<and> i < a + length buf \<longrightarrow> prog_at WRITE_GRAN_256BYTES 0xff (mem s) (blit a buf (mem s)) i"
  shows "\<exists>s'. ich_hwseq_write R hq (n div 1024) buf a (length buf) s = (0, s') \<and> hw_ok s' \<and> mem s' = blit a buf (mem s)"
proof (rule hwseq_write_ok [OF assms(1,2)])
  fix i assume "i < length buf"
  then show "mem s ! (a + i) AND buf ! i = buf ! i"
    using ones_prog_at [of "mem s" "blit a buf (mem s)" "a + i"] assms mem_length [OF assms(1)] by (auto simp: buf_simps)
qed

lemma ich_erase:
  assumes "hw_ok s" and "(a, len) \<in> set (eraser_blocks (uniform_eraser es (n div es) OPAQUE_ERASE))"
  shows "\<exists>s'. ich_hwseq_block_erase R hq (n div 1024) a len s = (0, s') \<and> hw_ok s' \<and> mem s' = memset_at a 0xff len (mem s)"
proof -
  have "\<exists>i. a = i * es \<and> len = es \<and> i < n div es" using assms(2) by (auto simp: eraser_blocks_uniform)
  then obtain i where i: "a = i * es" "len = es" "i < n div es" by blast
  have "Suc i * es \<le> n div es * es" using i(3) by (intro mult_le_mono1) simp
  with i hwseq_erase_ok [OF assms(1), of a] es_le show ?thesis by simp
qed

lemma es_stride: "256 dvd es" "x dvd 256 \<Longrightarrow> es dvd y \<Longrightarrow> x dvd y"
proof -
  show 256: "256 dvd es" using blocks(2) by (auto simp: dec_berase_def)
  show "x dvd 256 \<Longrightarrow> es dvd y \<Longrightarrow> x dvd y" using dvd_trans [OF 256, of y] dvd_trans [of x 256 y] by simp
qed

lemma ich_erase_device:
  assumes ok: "hw_ok s0" "entry_ok (probed_chip R hq chips s0)" and open_regions: "regions_open gen hq n es"
  shows "erase_device (ich_ctx R gen hq chips s0 lay fl ratio fresh) n hw_ok mem"
proof (intro erase_device.intro flash_device.intro ich_reader ok(1) open_regions flash_device_axioms.intro erase_device_axioms.intro)
  let ?c = "ich_ctx R gen hq chips s0 lay fl ratio fresh"
  note cs = ich_ctx_simps [OF ok(1)] and ps = probed_chip_simps [OF ok(1)] and ev = ich_erased [OF ok] and rg = regions_openD [OF open_regions]
  show "ch_write (c_chip ?c) \<noteq> NO_WRITE_FUNC" "c_malloc ?c m" "usable_erasers ?c \<noteq> []" for m
    by (simp_all add: cs ps)
  show "\<exists>s'. drv_write (c_drivers ?c) (ch_write (c_chip ?c)) buf a (length buf) s = Some (0, s') \<and> hw_ok s' \<and> mem s' = blit a buf (mem s)"
    if "hw_ok s" "a + length buf \<le> n" "\<forall>i. a \<le> i \<and> i < a + length buf \<longrightarrow>
        prog_at (ch_gran (c_chip ?c)) (ERASED_VALUE ?c) (mem s) (blit a buf (mem s)) i" for s buf a
    using that by (simp add: cs ps ev ich_write ich_hwseq_drivers_def)
  show "\<exists>s'. drv_erase (c_drivers ?c) (be_erase e) a len s = Some (0, s') \<and> hw_ok s' \<and> mem s' = memset_at a (ERASED_VALUE ?c) len (mem s)"
    if "e \<in> set (usable_erasers ?c)" "(a, len) \<in> set (eraser_blocks e)" "hw_ok s" for e a len s
    using that ich_erase [of s a len] by (auto simp: cs ps ev ich_hwseq_drivers_def uniform_eraser_def)
  show "be_erase e \<noteq> SPI_BLOCK_ERASE_40" if "e \<in> set (usable_erasers ?c)" for e
    using that by (simp add: cs uniform_eraser_def)
  show "gran_stride (ch_gran (c_chip ?c)) dvd Suc (fr_end (get_flash_region ?c a))" if "a < n" for a
    using rg(5) [OF that] by (auto simp: cs ps intro: es_stride)
  show "geometry_ok n (usable_erasers ?c)"
    using es_pos es_le(2) by (simp add: cs geometry_ok_def eraser_ok_uniform)
  show "gran_stride (ch_gran (c_chip ?c)) dvd sz" if "sz \<in> set (eraser_sizes (usable_erasers ?c ! 0))" for sz
    using that es_stride(1) by (auto simp: cs ps eraser_sizes_uniform)
  show "Suc (fr_end (get_flash_region ?c a)) = n \<or> Suc (fr_end (get_flash_region ?c a)) \<in> set (bounds_of (usable_erasers ?c ! 0))"
    if lt: "a < n" for a
  proof -
    obtain k where k: "Suc (fr_end (ich_get_region gen hq n a)) = es * k" using rg(5) [OF lt] unfolding dvd_def ..
    have "es * k \<le> n div es * es" using rg(4) [OF lt] es_le(2) k by simp
    then have "k \<le> n div es" using es_pos by (simp add: mult.commute)
    then consider "k = n div es" | "k < n div es" by linarith
    then show ?thesis
    proof cases
      case 1
      then show ?thesis using k es_le(2) by (simp add: cs mult.commute)
    next
      case 2
      then show ?thesis using k by (auto simp: cs bounds_uniform mult.commute)
    qed
  qed
  show "ERASED_VALUE ?c = 0xff" by (rule ev)
  show "\<not> fr_read_prot (get_flash_region ?c a)" if "a < n" for a using rg(1) [OF that] by (simp add: cs)
qed

lemma ich_unlock: "unlock_chip (ich_access R hq) wr er s = Some ([], s)"
  by (simp add: unlock_chip_def ich_access_def ich_wp_env_def)

lemma ich_finalize: "finalize_flash_access (ich_access R hq) [] s = Some s"
  by (simp add: finalize_flash_access_def deregister_chip_restore_def ich_access_def)

lemma ich_checks:
  assumes "hw_ok s0" and "entry_ok (probed_chip R hq chips s0)"
  shows "chip_safety_check (ich_ctx R gen hq chips s0 lay fl ratio fresh) (ich_access R hq) force rd wr er ve = 0"
  using assms(2)
  by (auto simp: chip_safety_check_def ich_ctx_simps [OF assms(1)] probed_chip_simps [OF assms(1)] Let_def lookup_read_func_ptr_def
      lookup_write_func_ptr_def ich_access_def length_usable_erasers [symmetric] entry_ok_def)

lemma ich_image_device:
  assumes ok: "hw_ok s0" "entry_ok (probed_chip R hq chips s0)" and open_regions: "regions_open gen hq n es"
    and lay: "layout_sanity_checks (n div 1024) (get_layout (ich_ctx R gen hq chips s0 lay fl ratio fresh)) = 0"
  shows "image_device (ich_ctx R gen hq chips s0 lay fl ratio fresh) n hw_ok mem hw_ok (ich_access R hq) hw_ok hw_ok"
proof (intro image_device.intro image_device_axioms.intro ich_erase_device ok open_regions full_reader.intro full_reader_axioms.intro ich_reader)
  let ?c = "ich_ctx R gen hq chips s0 lay fl ratio fresh" and ?a = "ich_access R hq"
  note cs = ich_ctx_simps [OF ok(1)] and ps = probed_chip_simps [OF ok(1)] and rg = regions_openD [OF open_regions]
  show "\<not> fr_read_prot (get_flash_region ?c i)" "\<not> write_protected ?c i" if "i < n" for i
    using rg(1,2) [OF that] by (simp_all add: cs write_protected_def)
  show "chip_safety_check ?c ?a (fl_force (c_flags ?c)) rd wr er ve = 0" for rd wr er ve using ok by (rule ich_checks)
  show "layout_sanity_checks (ch_total_size (c_chip ?c)) (get_layout ?c) = 0" using lay by (simp add: cs ps)
  show "entries_ok n (get_default_layout ?c)"
    using sizes(3,4) by (simp add: get_default_layout_def cs entries_whole_chip)
  show "\<exists>s'. ac_map_flash ?a s = (0, s') \<and> hw_ok s' \<and> mem s' = mem s" if "hw_ok s" for s using that by (simp add: ich_access_def)
  show "\<exists>fns s'. unlock_chip ?a wr er s = Some (fns, s') \<and> hw_ok s' \<and> mem s' = mem s \<and>
      (\<forall>t. hw_ok t \<longrightarrow> (\<exists>t'. finalize_flash_access ?a fns t = Some t' \<and> hw_ok t' \<and> mem t' = mem t))" if "hw_ok s" for s wr er
    using that by (simp add: ich_unlock ich_finalize)
  then show "\<exists>fns s'. unlock_chip ?a False False s = Some (fns, s') \<and> hw_ok s' \<and> mem s' = mem s \<and>
      (\<forall>t. hw_ok t \<longrightarrow> (\<exists>t'. finalize_flash_access ?a fns t = Some t' \<and> hw_ok t' \<and> mem t' = mem t))" if "hw_ok s" for s
    using that by blast
  show "\<exists>s'. active_wp_range ?a s = Some (None, s') \<and> hw_ok s' \<and> mem s' = mem s" if "hw_ok s" for s
    using that by (simp add: active_wp_range_def ich_access_def ich_wp_env_def bus_defs flashrom_wp_read_cfg_def
        wp_operations_available_def wp_read_cfg_def chip_supported_def)
  show "ac_protected_ranges ?a = []" by (simp add: ich_access_def)
  have "prepare_4ba ?c ?a s = Some (0, s)" for s
    by (simp add: prepare_4ba_def cs ps ich_hwseq_master_def bus_defs spi_master_no_4ba_modes_def spi_chip_4ba_def ich_access_def)
  then show "\<exists>s'. prepare_4ba ?c ?a s = Some (0, s') \<and> hw_ok s' \<and> mem s' = mem s" if "hw_ok s" for s using that by blast
  then show "\<exists>s'. prepare_4ba ?c ?a s = Some (0, s') \<and> hw_ok s' \<and> mem s' = mem s" if "hw_ok s" for s using that by blast
  show "hw_ok (ac_delay ?a s) \<and> mem (ac_delay ?a s) = mem s" if "hw_ok s" for s
    using delay_idle [OF that, of 1000000] by (simp add: ich_access_def)
qed

end

end
