(* ===== verification/IchMachine.thy ===== *)
theory IchMachine
  imports IchImage
begin

text \<open>
  A 100 series chipset with one 16 MiB chip whose regions are open to the host, as a machine with the registers that hardware
  sequencing uses: a cycle starts when the go bit is written, runs while the driver waits, and then sets the done bit. It
  keeps the laws of \<open>ich_controller\<close>, so that the image operations on it are correct.
\<close>

section \<open>The machine\<close>

record ich_hw =
  hw_faddr :: "32 word"
  hw_fdata :: "32 word list"
  hw_done :: bool
  hw_cycle :: "16 word option"
  hw_flash :: bytes

definition word4 :: "(nat \<Rightarrow> u8) \<Rightarrow> 32 word" where
  "word4 f = push_bit (0 * 8) (ucast (f 0)) OR push_bit (1 * 8) (ucast (f 1)) OR push_bit (2 * 8) (ucast (f 2)) OR
     push_bit (3 * 8) (ucast (f 3))"

definition hw_byte :: "ich_hw \<Rightarrow> nat \<Rightarrow> u8" where
  "hw_byte h i = byte_of (hw_fdata h ! (i div 4)) (i mod 4)"

text \<open>A cycle: bits 1 to 4 of the control register are its kind and bits 8 to 13 one less than the number of bytes.\<close>

definition hw_run :: "16 word \<Rightarrow> ich_hw \<Rightarrow> ich_hw" where
  "hw_run w h =
     (let cyc = w AND 0x1e; len = unat (drop_bit 8 w AND 0x3f) + 1; a = unat (hw_faddr h AND PCH100_FADDR_FLA)
      in if cyc = HSFC_CYCLE_READ then
           h\<lparr>hw_fdata := map (\<lambda>k. word4 (\<lambda>m. if 4 * k + m < len then hw_flash h ! (a + (4 * k + m)) else hw_byte h (4 * k + m))) [0..<16]\<rparr>
         else if cyc = HSFC_CYCLE_WRITE then
           h\<lparr>hw_flash := blit a (map (\<lambda>i. hw_flash h ! (a + i) AND hw_byte h i) [0..<len]) (hw_flash h)\<rparr>
         else if cyc = HSFC_CYCLE_BLOCK_ERASE then h\<lparr>hw_flash := memset_at a 0xff 4096 (hw_flash h)\<rparr>
         else if cyc = HSFC_CYCLE_RDID then h\<lparr>hw_fdata := (hw_fdata h)[0 := 0x1840ef]\<rparr>
         else h)"

text \<open>The status: bit 0 a cycle has ended, bit 5 one is running.\<close>

definition hw_hsfs :: "ich_hw \<Rightarrow> 16 word" where
  "hw_hsfs h = (if hw_done h then HSFS_FDONE else 0) OR (if hw_cycle h = None then 0 else ucast HSFS_SCIP)"

definition is_fdata :: "nat \<Rightarrow> bool" where
  "is_fdata off \<longleftrightarrow> ICH9_REG_FDATA0 \<le> off \<and> off < ICH9_REG_FDATA0 + 64"

definition ich_machine :: "ich_hw regs" where
  "ich_machine =
     \<lparr>mmio_readb = (\<lambda>off h. if off = ICH9_REG_HSFS then ucast (hw_hsfs h) else 0),
      mmio_readw = (\<lambda>off h. if off = ICH9_REG_HSFS then hw_hsfs h else 0),
      mmio_readl = (\<lambda>off h. if off = ICH9_REG_FADDR then hw_faddr h
                            else if is_fdata off then hw_fdata h ! ((off - ICH9_REG_FDATA0) div 4) else 0),
      mmio_writeb = (\<lambda>off v h. h),
      mmio_writew = (\<lambda>off v h. if off = ICH9_REG_HSFS then (if bit v 0 then h\<lparr>hw_done := False\<rparr> else h)
                              else if off = ICH9_REG_HSFC \<and> v AND HSFC_FGO \<noteq> 0 then h\<lparr>hw_cycle := Some v\<rparr> else h),
      mmio_writel = (\<lambda>off v h. if off = ICH9_REG_FADDR then h\<lparr>hw_faddr := v\<rparr>
                              else if is_fdata off then h\<lparr>hw_fdata := (hw_fdata h)[(off - ICH9_REG_FDATA0) div 4 := v]\<rparr> else h),
      default_delay = (\<lambda>us h. case hw_cycle h of
                                 None \<Rightarrow> h
                               | Some w \<Rightarrow> (hw_run w h)\<lparr>hw_cycle := None, hw_done := True\<rparr>)\<rparr>"

definition hw_idle :: "ich_hw \<Rightarrow> bool" where
  "hw_idle h \<longleftrightarrow> hw_cycle h = None \<and> length (hw_fdata h) = 16 \<and> length (hw_flash h) = 16777216"

text \<open>What \<open>init_chipset_properties\<close> and the descriptor of this chip give: the descriptor, the management engine and the BIOS region.\<close>

definition machine_fds :: "fd_region list" where
  "machine_fds =
     [\<lparr>fd_name = Some ''Flash Descriptor'', fd_level = NO_PROT, fd_base = 0, fd_limit = 0xfff\<rparr>,
      \<lparr>fd_name = Some ''BIOS'', fd_level = NO_PROT, fd_base = 0x300000, fd_limit = 0xffffff\<rparr>,
      \<lparr>fd_name = Some ''Management Engine'', fd_level = NO_PROT, fd_base = 0x1000, fd_limit = 0x2fffff\<rparr>]"

definition machine_hwseq :: hwseq_data where
  "machine_hwseq = (cp_hwseq (init_chipset_properties CHIPSET_100_SERIES_SUNRISE_POINT))
     \<lparr>size_comp0 := 16777216,
      fd_regions := machine_fds @ replicate 13 \<lparr>fd_name = None, fd_level = NO_PROT, fd_base = 0, fd_limit = 0\<rparr>\<rparr>"

section \<open>Its laws\<close>

lemma byte_of_word4: "m < 4 \<Longrightarrow> byte_of (word4 f) m = f m"
proof -
  assume m: "m < 4"
  have k: "0 < (4 :: nat)" "1 < (4 :: nat)" "2 < (4 :: nat)" "3 < (4 :: nat)" by simp_all
  have "byte_of (word4 f) m = (if m = 0 then f 0 else 0) OR (if m = 1 then f 1 else 0) OR (if m = 2 then f 2 else 0) OR (if m = 3 then f 3 else 0)"
    unfolding word4_def byte_of_or by (simp only: byte_of_push [OF m k(1)] byte_of_push [OF m k(2)] byte_of_push [OF m k(3)] byte_of_push [OF m k(4)])
  moreover have "m = 0 \<or> m = 1 \<or> m = 2 \<or> m = 3" using m by linarith
  ultimately show "byte_of (word4 f) m = f m" by auto
qed

lemmas ich9_regs = ICH9_REG_HSFS_def ICH9_REG_HSFC_def ICH9_REG_FADDR_def ICH9_REG_FDATA0_def ICH9_REG_FPB_def is_fdata_def

lemma machine_fdata: "k < 16 \<Longrightarrow> mmio_readl ich_machine (ICH9_REG_FDATA0 + 4 * k) h = hw_fdata h ! k"
  by (simp add: ich_machine_def ich9_regs)

lemma machine_fdata_byte: "i < 64 \<Longrightarrow> fdata_byte ich_machine h i = hw_byte h i"
  by (simp add: fdata_byte_of machine_fdata hw_byte_def)

lemma hsfc_len: "k < 64 \<Longrightarrow> cyc \<in> {HSFC_CYCLE_READ, HSFC_CYCLE_WRITE, HSFC_CYCLE_BLOCK_ERASE} \<Longrightarrow>
    unat (drop_bit 8 (cyc OR HSFC_FDBC_VAL k OR HSFC_FGO) AND 0x3f) = k \<and> (cyc OR HSFC_FDBC_VAL k OR HSFC_FGO) AND 0x1e = cyc \<and>
    (cyc OR HSFC_FDBC_VAL k OR HSFC_FGO) AND HSFC_FGO \<noteq> 0"
proof -
  have "\<forall>k \<in> set [0..<64]. \<forall>cyc \<in> set [HSFC_CYCLE_READ, HSFC_CYCLE_WRITE, HSFC_CYCLE_BLOCK_ERASE].
    unat (drop_bit 8 (cyc OR HSFC_FDBC_VAL k OR HSFC_FGO) AND 0x3f) = k \<and> (cyc OR HSFC_FDBC_VAL k OR HSFC_FGO) AND 0x1e = cyc \<and>
    (cyc OR HSFC_FDBC_VAL k OR HSFC_FGO) AND HSFC_FGO \<noteq> 0"
    by code_simp
  then show "k < 64 \<Longrightarrow> cyc \<in> {HSFC_CYCLE_READ, HSFC_CYCLE_WRITE, HSFC_CYCLE_BLOCK_ERASE} \<Longrightarrow> ?thesis" by auto
qed

text \<open>A cycle ends after the first wait.\<close>

lemma machine_cycle:
  assumes h: "hw_idle h" "status_clear ich_machine h"
    and k: "0 < len" "len \<le> 64" "cyc \<in> {HSFC_CYCLE_READ, HSFC_CYCLE_WRITE, HSFC_CYCLE_BLOCK_ERASE}"
  defines "w \<equiv> cyc OR HSFC_FDBC_VAL (len - 1) OR HSFC_FGO"
  shows "cycle_done ich_machine (start_cycle ich_machine cyc len h)
      ((hw_run w (h\<lparr>hw_cycle := Some w\<rparr>))\<lparr>hw_cycle := None, hw_done := True\<rparr>)"
    and "unat (drop_bit 8 w AND 0x3f) + 1 = len" "w AND 0x1e = cyc"
proof -
  have w: "unat (drop_bit 8 w AND 0x3f) = len - 1 \<and> w AND 0x1e = cyc \<and> w AND HSFC_FGO \<noteq> 0"
    using hsfc_len [of "len - 1" cyc] k unfolding w_def by simp
  then show "unat (drop_bit 8 w AND 0x3f) + 1 = len" "w AND 0x1e = cyc" using k(1) by simp_all
  let ?t = "(hw_run w (h\<lparr>hw_cycle := Some w\<rparr>))\<lparr>hw_cycle := None, hw_done := True\<rparr>"
  have start: "start_cycle ich_machine cyc len h = h\<lparr>hw_cycle := Some w\<rparr>"
    using w by (simp add: start_cycle_def ich_machine_def w_def ICH9_REG_HSFC_def ICH9_REG_HSFS_def)
  have t: "default_delay ich_machine 8 (h\<lparr>hw_cycle := Some w\<rparr>) = ?t" by (simp add: ich_machine_def)
  have "mmio_readw ich_machine ICH9_REG_HSFS x = hw_hsfs x" for x by (simp add: ich_machine_def)
  moreover have "\<not> hw_done h" using h(2) by (auto simp: status_clear_def ich_machine_def hw_hsfs_def HSFS_FDONE_def HSFS_FCERR_def HSFS_SCIP_def split: if_splits)
  ultimately show "cycle_done ich_machine (start_cycle ich_machine cyc len h) ?t"
    unfolding cycle_done_def start
    by (intro exI [of _ 1]) (simp add: t hw_hsfs_def HSFS_FDONE_def HSFS_FCERR_def HSFS_SCIP_def)
qed

lemma machine_hwseq_simps:
  "size_comp0 machine_hwseq = 16777216" "size_comp1 machine_hwseq = 0" "addr_mask machine_hwseq = PCH100_FADDR_FLA" "only_4k machine_hwseq"
  by (simp_all add: machine_hwseq_def init_chipset_properties_def pch100_family_def zero_hwseq_def Let_def)

lemma machine_faddr:
  "mmio_readl ich_machine ICH9_REG_FADDR (mmio_writel ich_machine ICH9_REG_FADDR v h) = v"
  "mmio_readl ich_machine ICH9_REG_FADDR (mmio_writew ich_machine ICH9_REG_HSFS w h) = mmio_readl ich_machine ICH9_REG_FADDR h"
  by (simp_all add: ich_machine_def)

lemma machine_writes:
  assumes "hw_idle h"
  shows "hw_idle (mmio_writel ich_machine off v h)" "hw_idle (mmio_writew ich_machine ICH9_REG_HSFS w h)"
    "same_data ich_machine hw_flash h (mmio_writew ich_machine ICH9_REG_HSFS w h)"
    "same_data ich_machine hw_flash h (mmio_writel ich_machine ICH9_REG_FADDR v h)"
proof -
  show "hw_idle (mmio_writel ich_machine off v h)" using assms by (simp add: ich_machine_def hw_idle_def)
  show "hw_idle (mmio_writew ich_machine ICH9_REG_HSFS w h)" using assms by (simp add: ich_machine_def hw_idle_def)
  show "same_data ich_machine hw_flash h (mmio_writew ich_machine ICH9_REG_HSFS w h)"
    by (simp add: same_data_def machine_fdata) (simp add: ich_machine_def)
  show "same_data ich_machine hw_flash h (mmio_writel ich_machine ICH9_REG_FADDR v h)"
    by (simp add: same_data_def machine_fdata) (simp add: ich_machine_def)
qed

lemma idle_after_cycle:
  assumes "length (hw_fdata g) = 16" and "length (hw_flash g) = 16777216"
  shows "hw_idle (g\<lparr>hw_cycle := None, hw_done := True\<rparr>)"
  using assms by (simp add: hw_idle_def)

lemma machine_read:
  assumes h: "hw_idle h" "status_clear ich_machine h" and a: "flash_addr ich_machine PCH100_FADDR_FLA h = a"
    and len: "0 < len" "len \<le> 64"
  shows "\<exists>t. cycle_done ich_machine (start_cycle ich_machine HSFC_CYCLE_READ len h) t \<and> hw_idle t \<and> hw_flash t = hw_flash h \<and>
    (\<forall>i < len. fdata_byte ich_machine t i = hw_flash h ! (a + i))"
proof -
  define w where "w = HSFC_CYCLE_READ OR HSFC_FDBC_VAL (len - 1) OR HSFC_FGO"
  note c = machine_cycle [OF h len, of HSFC_CYCLE_READ, folded w_def, simplified]
  have ad: "unat (hw_faddr h AND PCH100_FADDR_FLA) = a" using a by (simp add: flash_addr_def ich_machine_def)
  define g where "g = hw_run w (h\<lparr>hw_cycle := Some w\<rparr>)"
  have g: "hw_flash g = hw_flash h" "hw_fdata g = map (\<lambda>k. word4 (\<lambda>m. if 4 * k + m < len then hw_flash h ! (a + (4 * k + m)) else hw_byte h (4 * k + m))) [0..<16]"
    using c(2,3) ad by (simp_all add: g_def hw_run_def Let_def hw_byte_def cong: if_cong)
  let ?t = "g\<lparr>hw_cycle := None, hw_done := True\<rparr>"
  have "hw_idle ?t" using h(1) g by (intro idle_after_cycle) (simp_all add: hw_idle_def)
  moreover have "fdata_byte ich_machine ?t i = hw_flash h ! (a + i)" if "i < len" for i
    using that len by (simp add: machine_fdata_byte hw_byte_def g byte_of_word4)
  ultimately show ?thesis using c(1) g(1) unfolding g_def [symmetric] by (intro exI [of _ ?t]) simp
qed

lemma machine_write:
  assumes h: "hw_idle h" "status_clear ich_machine h" and a: "flash_addr ich_machine PCH100_FADDR_FLA h = a"
    and len: "0 < len" "len \<le> 64"
  shows "\<exists>t. cycle_done ich_machine (start_cycle ich_machine HSFC_CYCLE_WRITE len h) t \<and> hw_idle t \<and>
    hw_flash t = blit a (map (\<lambda>i. hw_flash h ! (a + i) AND fdata_byte ich_machine h i) [0..<len]) (hw_flash h)"
proof -
  define w where "w = HSFC_CYCLE_WRITE OR HSFC_FDBC_VAL (len - 1) OR HSFC_FGO"
  note c = machine_cycle [OF h len, of HSFC_CYCLE_WRITE, folded w_def, simplified]
  have ad: "unat (hw_faddr h AND PCH100_FADDR_FLA) = a" using a by (simp add: flash_addr_def ich_machine_def)
  have bytes: "map (\<lambda>i. hw_flash h ! (a + i) AND fdata_byte ich_machine h i) [0..<len] = map (\<lambda>i. hw_flash h ! (a + i) AND hw_byte h i) [0..<len]"
    using len by (simp add: machine_fdata_byte)
  define g where "g = hw_run w (h\<lparr>hw_cycle := Some w\<rparr>)"
  have g: "hw_fdata g = hw_fdata h" "hw_flash g = blit a (map (\<lambda>i. hw_flash h ! (a + i) AND hw_byte h i) [0..<len]) (hw_flash h)"
    using c(2,3) ad by (simp_all add: g_def hw_run_def Let_def hw_byte_def HSFC_CYCLE_READ_def HSFC_CYCLE_WRITE_def)
  let ?t = "g\<lparr>hw_cycle := None, hw_done := True\<rparr>"
  have "hw_idle ?t" using h(1) g by (intro idle_after_cycle) (simp_all add: hw_idle_def)
  with c(1) g(2) show ?thesis unfolding g_def [symmetric] bytes by (intro exI [of _ ?t]) simp
qed

lemma machine_erase:
  assumes h: "hw_idle h" "status_clear ich_machine h" and a: "flash_addr ich_machine PCH100_FADDR_FLA h = a"
  shows "\<exists>t. cycle_done ich_machine (start_cycle ich_machine HSFC_CYCLE_BLOCK_ERASE 1 h) t \<and> hw_idle t \<and>
    hw_flash t = memset_at a 0xff 4096 (hw_flash h)"
proof -
  define w where "w = HSFC_CYCLE_BLOCK_ERASE OR HSFC_FDBC_VAL (1 - 1) OR HSFC_FGO"
  note c = machine_cycle [OF h, of 1 HSFC_CYCLE_BLOCK_ERASE, folded w_def, simplified]
  have ad: "unat (hw_faddr h AND PCH100_FADDR_FLA) = a" using a by (simp add: flash_addr_def ich_machine_def)
  define g where "g = hw_run w (h\<lparr>hw_cycle := Some w\<rparr>)"
  have cyc: "w AND 0x1e = HSFC_CYCLE_BLOCK_ERASE" using hsfc_len [of 0 HSFC_CYCLE_BLOCK_ERASE] by (simp add: w_def)
  have g: "hw_fdata g = hw_fdata h" "hw_flash g = memset_at a 0xff 4096 (hw_flash h)"
    using cyc ad by (simp_all add: g_def hw_run_def Let_def HSFC_CYCLE_READ_def HSFC_CYCLE_WRITE_def HSFC_CYCLE_BLOCK_ERASE_def)
  let ?t = "g\<lparr>hw_cycle := None, hw_done := True\<rparr>"
  have "hw_idle ?t" using h(1) g by (intro idle_after_cycle) (simp_all add: hw_idle_def)
  moreover have "cycle_done ich_machine (start_cycle ich_machine HSFC_CYCLE_BLOCK_ERASE 1 h) ?t"
    using machine_cycle(1) [OF h, of 1 HSFC_CYCLE_BLOCK_ERASE] unfolding w_def g_def by simp
  ultimately show ?thesis using g(2) by (intro exI [of _ ?t]) simp
qed

interpretation machine: ich_controller ich_machine machine_hwseq 16777216 27 4096 hw_idle hw_flash
proof
  show "16777216 = size_comp0 machine_hwseq + size_comp1 machine_hwseq" "1024 dvd (16777216 :: nat)" "0 < (16777216 :: nat)"
    "(16777216 :: nat) < 2147483648" "(16777216 :: nat) \<le> 2 ^ 27" "27 \<le> (32 :: nat)" "4096 dvd (16777216 :: nat)"
    "4096 \<in> set dec_berase" "only_4k machine_hwseq \<longrightarrow> 4096 = (4096 :: nat)"
    by (simp_all add: machine_hwseq_simps dec_berase_def)
  show "addr_mask machine_hwseq = mask 27" by (simp add: machine_hwseq_simps PCH100_FADDR_FLA_def mask_eq_exp_minus_1)
  fix h assume h: "hw_idle h"
  show "length (hw_flash h) = 16777216" using h by (simp add: hw_idle_def)
  show "mmio_readb ich_machine ICH9_REG_HSFS h AND HSFS_SCIP = 0"
    using h by (simp add: ich_machine_def hw_idle_def hw_hsfs_def HSFS_SCIP_def HSFS_FDONE_def)
  show "mmio_readl ich_machine ICH9_REG_FPB h AND FPB_FPBA = 0 \<and>
      dec_berase ! unat (drop_bit HSFS_BERASE_OFF (mmio_readw ich_machine ICH9_REG_HSFS h AND HSFS_BERASE)) = 4096"
    if "\<not> only_4k machine_hwseq" using that by (simp add: machine_hwseq_simps)
  show "hw_idle (mmio_writel ich_machine ICH9_REG_FADDR v h) \<and>
      mmio_readl ich_machine ICH9_REG_FADDR (mmio_writel ich_machine ICH9_REG_FADDR v h) = v \<and>
      same_data ich_machine hw_flash h (mmio_writel ich_machine ICH9_REG_FADDR v h)" for v
    using machine_writes(1,4) [OF h] by (simp add: machine_faddr)
  show "hw_idle (mmio_writel ich_machine (ICH9_REG_FDATA0 + 4 * k) v h) \<and>
      hw_flash (mmio_writel ich_machine (ICH9_REG_FDATA0 + 4 * k) v h) = hw_flash h \<and>
      (\<forall>j < 16. mmio_readl ich_machine (ICH9_REG_FDATA0 + 4 * j) (mmio_writel ich_machine (ICH9_REG_FDATA0 + 4 * k) v h) =
         (if j = k then v else mmio_readl ich_machine (ICH9_REG_FDATA0 + 4 * j) h))" if "k < 16" for k v
    using that machine_writes(1) [OF h, of "ICH9_REG_FDATA0 + 4 * k" v] h
    by (intro conjI allI impI; (simp only: machine_fdata)?) (simp_all add: ich_machine_def ich9_regs hw_idle_def nth_list_update)
  show "hw_idle (mmio_writew ich_machine ICH9_REG_HSFS w h) \<and> same_data ich_machine hw_flash h (mmio_writew ich_machine ICH9_REG_HSFS w h) \<and>
      mmio_readl ich_machine ICH9_REG_FADDR (mmio_writew ich_machine ICH9_REG_HSFS w h) = mmio_readl ich_machine ICH9_REG_FADDR h" for w
    using machine_writes(2,3) [OF h] by (simp add: machine_faddr)
  show "status_clear ich_machine (mmio_writew ich_machine ICH9_REG_HSFS (mmio_readw ich_machine ICH9_REG_HSFS h) h)"
    using h by (simp add: status_clear_def ich_machine_def hw_idle_def hw_hsfs_def HSFS_FDONE_def HSFS_FCERR_def)
  show "hw_idle (default_delay ich_machine us h) \<and> hw_flash (default_delay ich_machine us h) = hw_flash h" for us
    using h by (simp add: ich_machine_def hw_idle_def)
qed (use machine_read machine_write machine_erase in \<open>simp_all add: machine_hwseq_simps\<close>)

section \<open>The regions\<close>

text \<open>An address that a region contains gets that region, if no region before it contains the address.\<close>

definition fd_to_region :: "fd_region \<Rightarrow> flash_region" where
  "fd_to_region fd = \<lparr>fr_name = (case fd_name fd of Some n \<Rightarrow> n | None \<Rightarrow> []), fr_start = fd_base fd, fr_end = fd_limit fd,
     fr_read_prot = (fd_level fd = LOCKED \<or> fd_level fd = READ_PROT),
     fr_write_prot = (fd_level fd = LOCKED \<or> fd_level fd = WRITE_PROT)\<rparr>"

lemma get_region_loop_prot:
  assumes "\<not> fr_write_prot r" and "\<not> fr_read_prot r"
  shows "fr_write_prot (get_region_loop a fds r) \<longleftrightarrow>
      (case find (\<lambda>fd. fd_base fd \<le> a \<and> a \<le> fd_limit fd) fds of Some fd \<Rightarrow> fd_level fd \<in> {LOCKED, WRITE_PROT} | None \<Rightarrow> False)"
    and "fr_read_prot (get_region_loop a fds r) \<longleftrightarrow>
      (case find (\<lambda>fd. fd_base fd \<le> a \<and> a \<le> fd_limit fd) fds of Some fd \<Rightarrow> fd_level fd \<in> {LOCKED, READ_PROT} | None \<Rightarrow> False)"
  using assms by (induction fds arbitrary: r) auto

lemma machine_region:
  shows "a \<le> 0xfff \<Longrightarrow> ich_get_region CHIPSET_100_SERIES_SUNRISE_POINT machine_hwseq sz a = fd_to_region (machine_fds ! 0)"
    and "0x1000 \<le> a \<Longrightarrow> a \<le> 0x2fffff \<Longrightarrow>
      ich_get_region CHIPSET_100_SERIES_SUNRISE_POINT machine_hwseq sz a = fd_to_region (machine_fds ! 2)"
    and "0x300000 \<le> a \<Longrightarrow> a \<le> 0xffffff \<Longrightarrow>
      ich_get_region CHIPSET_100_SERIES_SUNRISE_POINT machine_hwseq sz a = fd_to_region (machine_fds ! 1)"
proof -
  have nr: "nat (ich_number_of_regions CHIPSET_100_SERIES_SUNRISE_POINT zero_content) = 10"
    by (simp add: ich_number_of_regions_def)
  obtain r where r: "\<And>a. ich_get_region CHIPSET_100_SERIES_SUNRISE_POINT machine_hwseq sz a =
      get_region_loop a (machine_fds @ replicate 7 \<lparr>fd_name = None, fd_level = NO_PROT, fd_base = 0, fd_limit = 0\<rparr>) r"
    unfolding ich_get_region_def nr Let_def by (simp add: machine_hwseq_def machine_fds_def)
  show "a \<le> 0xfff \<Longrightarrow> ich_get_region CHIPSET_100_SERIES_SUNRISE_POINT machine_hwseq sz a = fd_to_region (machine_fds ! 0)"
    "0x1000 \<le> a \<Longrightarrow> a \<le> 0x2fffff \<Longrightarrow>
      ich_get_region CHIPSET_100_SERIES_SUNRISE_POINT machine_hwseq sz a = fd_to_region (machine_fds ! 2)"
    "0x300000 \<le> a \<Longrightarrow> a \<le> 0xffffff \<Longrightarrow>
      ich_get_region CHIPSET_100_SERIES_SUNRISE_POINT machine_hwseq sz a = fd_to_region (machine_fds ! 1)"
    unfolding r by (simp_all add: machine_fds_def fd_to_region_def)
qed

lemma machine_open: "regions_open CHIPSET_100_SERIES_SUNRISE_POINT machine_hwseq 16777216 4096"
  unfolding regions_open_def Let_def
proof (intro allI impI)
  fix a :: nat assume "a < 16777216"
  then consider "a \<le> 0xfff" | "0x1000 \<le> a" "a \<le> 0x2fffff" | "0x300000 \<le> a" "a \<le> 0xffffff" by linarith
  then show "\<not> fr_read_prot (ich_get_region CHIPSET_100_SERIES_SUNRISE_POINT machine_hwseq 16777216 a) \<and>
      \<not> fr_write_prot (ich_get_region CHIPSET_100_SERIES_SUNRISE_POINT machine_hwseq 16777216 a) \<and>
      a \<le> fr_end (ich_get_region CHIPSET_100_SERIES_SUNRISE_POINT machine_hwseq 16777216 a) \<and>
      fr_end (ich_get_region CHIPSET_100_SERIES_SUNRISE_POINT machine_hwseq 16777216 a) < 16777216 \<and>
      4096 dvd Suc (fr_end (ich_get_region CHIPSET_100_SERIES_SUNRISE_POINT machine_hwseq 16777216 a)) \<and>
      (\<forall>b. a \<le> b \<and> b \<le> fr_end (ich_get_region CHIPSET_100_SERIES_SUNRISE_POINT machine_hwseq 16777216 a) \<longrightarrow>
        ich_get_region CHIPSET_100_SERIES_SUNRISE_POINT machine_hwseq 16777216 b =
        ich_get_region CHIPSET_100_SERIES_SUNRISE_POINT machine_hwseq 16777216 a)"
    by cases (simp_all add: machine_region fd_to_region_def machine_fds_def)
qed

text \<open>\<^verbatim>\<open>ich_get_region\<close> reports an address as protected against writing or reading exactly when the first region
  of the descriptor that contains it is; an address outside the regions is not protected.\<close>

theorem ich_get_region_protection:
  "fr_write_prot (ich_get_region gen hq n a) =
     (case find (\<lambda>fd. fd_base fd \<le> a \<and> a \<le> fd_limit fd) (take (nat (ich_number_of_regions gen zero_content)) (fd_regions hq)) of
        Some fd \<Rightarrow> fd_level fd \<in> {LOCKED, WRITE_PROT} | None \<Rightarrow> False) \<and>
   fr_read_prot (ich_get_region gen hq n a) =
     (case find (\<lambda>fd. fd_base fd \<le> a \<and> a \<le> fd_limit fd) (take (nat (ich_number_of_regions gen zero_content)) (fd_regions hq)) of
        Some fd \<Rightarrow> fd_level fd \<in> {LOCKED, READ_PROT} | None \<Rightarrow> False)"
  unfolding ich_get_region_def Let_def by (intro conjI get_region_loop_prot) simp_all

text \<open>The free space below a region is reported one byte too long: for an address below a write-protected
  region that is the only one, the reported region is writable and ends at the first byte of the protected one.\<close>

theorem ich_get_region_gap:
  assumes "fd_regions hq = fd # rest" and "nat (ich_number_of_regions gen zero_content) = 1"
    and "fd_level fd = WRITE_PROT" and "a < fd_base fd" and "fd_base fd \<le> fd_limit fd" and "fd_limit fd < n" and "n < 4294967296"
  shows "\<not> fr_write_prot (ich_get_region gen hq n a) \<and> fr_end (ich_get_region gen hq n a) = fd_base fd \<and>
    fr_write_prot (ich_get_region gen hq n (fd_base fd))"
  using assms by (simp add: ich_get_region_def c_simps)

lemma old_region_count:
  "gen \<in> {CHIPSET_ICH8, CHIPSET_ICH9, CHIPSET_ICH10, CHIPSET_5_SERIES_IBEX_PEAK, CHIPSET_6_SERIES_COUGAR_POINT,
    CHIPSET_7_SERIES_PANTHER_POINT, CHIPSET_8_SERIES_LYNX_POINT, CHIPSET_9_SERIES_WILDCAT_POINT} \<Longrightarrow> ich_number_of_regions gen zero_content = 1"
  by (auto simp: ich_number_of_regions_def ct_NR_def zero_content_def field_def)

definition gap_hwseq :: hwseq_data where
  "gap_hwseq = zero_hwseq\<lparr>fd_regions := [\<lparr>fd_name = Some ''BIOS'', fd_level = WRITE_PROT, fd_base = 0x1000, fd_limit = 0xffff\<rparr>]\<rparr>"

theorem ich_get_region_gap_witness:
  "\<not> fr_write_prot (ich_get_region CHIPSET_ICH9 gap_hwseq 0x10000 0) \<and> fr_end (ich_get_region CHIPSET_ICH9 gap_hwseq 0x10000 0) = 0x1000 \<and>
    fr_write_prot (ich_get_region CHIPSET_ICH9 gap_hwseq 0x10000 0x1000)"
  using ich_get_region_gap [of gap_hwseq "\<lparr>fd_name = Some ''BIOS'', fd_level = WRITE_PROT, fd_base = 0x1000, fd_limit = 0xffff\<rparr>" "[]" CHIPSET_ICH9 0 65536]
  by (simp add: gap_hwseq_def zero_hwseq_def old_region_count)

text \<open>On the generations up to the 9 series the number of regions is taken from a descriptor that is all zero,
  so that only the first region counts: whatever protection the registers report for the others, the result is
  the same.\<close>

theorem ich_old_regions_ignored:
  assumes "gen \<in> {CHIPSET_ICH8, CHIPSET_ICH9, CHIPSET_ICH10, CHIPSET_5_SERIES_IBEX_PEAK, CHIPSET_6_SERIES_COUGAR_POINT,
    CHIPSET_7_SERIES_PANTHER_POINT, CHIPSET_8_SERIES_LYNX_POINT, CHIPSET_9_SERIES_WILDCAT_POINT}"
  shows "ich_get_region gen (hq\<lparr>fd_regions := fd # rest\<rparr>) n a = ich_get_region gen (hq\<lparr>fd_regions := fd # rest'\<rparr>) n a"
  using assms by (simp add: ich_get_region_def old_region_count)

theorem ich_old_regions_ignored_witness:
  "ich_get_region CHIPSET_7_SERIES_PANTHER_POINT (zero_hwseq\<lparr>fd_regions := machine_fds ! 0 # [(machine_fds ! 1)\<lparr>fd_level := LOCKED\<rparr>]\<rparr>) 16777216 0x400000 =
   ich_get_region CHIPSET_7_SERIES_PANTHER_POINT (zero_hwseq\<lparr>fd_regions := machine_fds ! 0 # []\<rparr>) 16777216 0x400000"
  by (rule ich_old_regions_ignored) simp

section \<open>Image operations\<close>

lemma default_ich_layout:
  assumes "ich_controller R hq n bits es hw_ok mem" and "hw_ok s0"
  shows "get_layout (ich_ctx R gen hq chips s0 None fl ratio fresh) = whole_chip n"
    and "layout_sanity_checks (n div 1024) (whole_chip n) = 0"
proof -
  note i = ich_controller.ich_ctx_simps [OF assms] and t = ich_controller.total_size [OF assms(1)] and sz = ich_controller.sizes(3,4) [OF assms(1)]
  show "get_layout (ich_ctx R gen hq chips s0 None fl ratio fresh) = whole_chip n"
    by (simp add: get_layout_def get_default_layout_def i)
  show "layout_sanity_checks (n div 1024) (whole_chip n) = 0"
    using whole_chip_checked [of "n div 1024"] t sz by auto
qed


text \<open>The machine at the start, its chip erased, and a database with one entry.\<close>

definition machine0 :: ich_hw where
  "machine0 = \<lparr>hw_faddr = 0, hw_fdata = replicate 16 0, hw_done = False, hw_cycle = None, hw_flash = replicate 16777216 0xff\<rparr>"

lemma machine0_idle: "hw_idle machine0" "hw_flash machine0 = replicate 16777216 0xff"
  by (simp_all add: hw_idle_def machine0_def)

lemma probed_entry_ok:
  assumes "\<And>e. e \<in> set chips \<Longrightarrow> entry_ok (snd e)"
  shows "entry_ok (probed_chip R hq chips s0)"
proof -
  have find: "flash_id_to_entry cs m k = Some e \<Longrightarrow> \<exists>x \<in> set cs. snd x = e" for cs m k e
    by (induction cs m k rule: flash_id_to_entry.induct) (auto split: if_splits)
  have "entry_ok (fst (ich_hwseq_get_flash_id R hq chips chip s))" if "entry_ok chip" for chip s
  proof -
    have "flash_id_to_entry chips m k = Some e \<Longrightarrow> entry_ok (chip\<lparr>ch_vendor := ch_vendor e, ch_name := ch_name e,
        ch_manufacture_id := ch_manufacture_id e, ch_model_id := ch_model_id e, ch_page_size := ch_page_size e,
        ch_feature_bits := ch_feature_bits e, ch_tested := ch_tested e\<rparr>)" for m k e
      using find [of chips m k e] assms by (auto simp: entry_ok_def)
    with that show ?thesis by (auto simp: ich_hwseq_get_flash_id_def Let_def split: prod.splits option.splits)
  qed
  moreover have "entry_ok (c\<lparr>ch_tested := \<lparr>t_probe = OK, t_read = OK, t_erase = OK, t_write = OK, t_wp = OK\<rparr>\<rparr>)"
    if "ch_feature_bits c = 0" for c using that by (simp add: entry_ok_def)
  moreover have "ch_feature_bits (set_blocks (opaque_chip\<lparr>ch_total_size := t\<rparr>) bs) = 0" for t bs
    by (simp add: set_blocks_def Let_def opaque_chip_def)
  ultimately show ?thesis unfolding probed_chip_def ich_hwseq_probe_def Let_def
    by (auto split: prod.splits if_splits)
qed

definition machine_chips :: "(bool \<times> flashchip) list" where
  "machine_chips = [(True, w25q128_chip)]"

lemma machine_entry_ok: "entry_ok (probed_chip ich_machine machine_hwseq machine_chips s)"
  by (rule probed_entry_ok) (simp add: machine_chips_def entry_ok_def w25q128_chip_def FEATURE_ERASED_ZERO_def FEATURE_WRSR_WREN_def
      FEATURE_OTP_def FEATURE_WRSR_EXT2_def FEATURE_WRSR2_def FEATURE_WRSR3_def)

definition machine_ctx :: "ich_hw flashctx" where
  "machine_ctx = ich_ctx ich_machine CHIPSET_100_SERIES_SUNRISE_POINT machine_hwseq machine_chips machine0 None sample_flags 0 (\<lambda>i. 0)"

lemmas machine_layout = default_ich_layout [OF machine.ich_controller_axioms machine0_idle(1)]


text \<open>Reading the chip of such a chipset returns 0 and the bytes of the included regions, and writing an image
  over the whole chip and reading it back returns the image, whatever the chip held before.\<close>

theorem ich_write_read_roundtrip:
  assumes hw: "ich_controller R hq n bits es hw_ok mem" and probe: "hw_ok s0" "entry_ok (probed_chip R hq chips s0)"
    and regions: "regions_open gen hq n es" and ok: "hw_ok s" and len: "length img = n" "length buf = n"
  shows "\<exists>b1 s1 s2.
    flashrom_image_write (ich_ctx R gen hq chips s0 None fl ratio fresh) (ich_access R hq) fns0 img None s = Some (0, b1, s1) \<and>
    flashrom_image_read (ich_ctx R gen hq chips s0 None fl ratio fresh) (ich_access R hq) fns1 buf s1 = Some (0, img, s2) \<and> mem s2 = img"
proof -
  let ?c = "ich_ctx R gen hq chips s0 None fl ratio fresh" and ?a = "ich_access R hq"
  note l = default_ich_layout [OF hw probe(1)]
  have dev: "image_device ?c n hw_ok mem hw_ok ?a hw_ok hw_ok"
    using ich_controller.ich_image_device [OF hw probe regions] l by simp
  have pos: "0 < n" by (rule ich_controller.sizes(3) [OF hw])
  have w: "walk_included (get_layout ?c) [] \<noteq> []" unfolding l(1) by (simp add: whole_chip_def)
  have m: "ac_image_mismatch ?a img \<longrightarrow> fl_force_boardmismatch (c_flags ?c)" by (simp add: ich_access_def)
  obtain b1 s1 where 1: "flashrom_image_write ?c ?a fns0 img None s = Some (0, b1, s1)" "hw_ok s1"
    "mem s1 = overlay img (covered (get_layout ?c)) (mem s)"
    using image_device.image_write_ok [OF dev ok len(1) _ w m] by blast
  have img: "mem s1 = img"
    unfolding 1(3) l(1) using len ich_controller.mem_length [OF hw ok]
    by (intro nth_equalityI) (auto simp: buf_simps covered_whole_chip [OF pos])
  obtain b2 s2 where 2: "flashrom_image_read ?c ?a fns1 buf s1 = Some (0, b2, s2)" "mem s2 = mem s1" "length b2 = length buf"
    "\<forall>i < length buf. b2 ! i = (if covered (get_layout ?c) i then mem s1 ! i else buf ! i)"
    using image_device.image_read_ok [OF dev 1(2), where buf = buf and ?fns0.0 = fns1] len by auto
  have "b2 = img" using 2(3,4) len unfolding img l(1)
    by (intro nth_equalityI) (auto simp: covered_whole_chip [OF pos])
  with 1 2 img show ?thesis by blast
qed

theorem ich_write_read_witness:
  "\<exists>b1 s1 s2.
    flashrom_image_write machine_ctx (ich_access ich_machine machine_hwseq) [] (replicate 16777216 0x5a) None machine0 = Some (0, b1, s1) \<and>
    flashrom_image_read machine_ctx (ich_access ich_machine machine_hwseq) [] (replicate 16777216 0) s1 = Some (0, replicate 16777216 0x5a, s2) \<and>
    hw_flash s2 = replicate 16777216 0x5a"
  unfolding machine_ctx_def
  by (rule ich_write_read_roundtrip [OF machine.ich_controller_axioms machine0_idle(1) machine_entry_ok machine_open])
    (simp_all add: machine0_idle)

end
