(* ===== verification/Programmers.thy ===== *)
theory Programmers
  imports FlashCtx "HOL-Library.Sublist"
begin

text \<open>
  The life cycle of a programmer: registration of bus masters (\<^verbatim>\<open>flashrom/programmer.c\<close>,
  \<^verbatim>\<open>register_spi_master\<close> in \<^verbatim>\<open>spi.c\<close>, \<^verbatim>\<open>register_opaque_master\<close> in \<^verbatim>\<open>opaque.c\<close>, \<^verbatim>\<open>register_par_master\<close> in
  \<^verbatim>\<open>parallel.c\<close>), shutdown functions, programmer parameters, \<^verbatim>\<open>programmer_init\<close> and
  \<^verbatim>\<open>programmer_shutdown\<close> (\<^verbatim>\<open>flashrom.c\<close>) with their entry points in \<^verbatim>\<open>libflashrom.c\<close>.

  A function pointer is an optional address, \<open>None\<close> being the null pointer, and a data pointer is an address
  with 0 for null. What the code behind an address does is a parameter of the operations that call
  it: \<open>call f data w\<close> is the result and the new state of the hardware \<open>w\<close>, or \<open>None\<close> when the
  function does not return. The static variables of the sources are the record \<open>globals\<close>; the
  counters of its arrays are the lengths of the lists.
\<close>

section \<open>Masters and static variables\<close>

type_synonym fptr = "nat option"
type_synonym ptr = nat
type_synonym 'w callee = "nat \<Rightarrow> ptr \<Rightarrow> 'w \<Rightarrow> (int \<times> 'w) option"

record spi_callbacks =
  sc_features :: "32 word"
  sc_max_data_read :: nat
  sc_max_data_write :: nat
  sc_command :: fptr
  sc_multicommand :: fptr
  sc_map_flash_region :: fptr
  sc_unmap_flash_region :: fptr
  sc_read :: fptr
  sc_write_256 :: fptr
  sc_write_aai :: fptr
  sc_shutdown :: fptr
  sc_probe_opcode :: fptr
  sc_delay :: fptr
  sc_get_region :: fptr
  sc_data :: ptr

record opaque_callbacks =
  oc_max_data_read :: int
  oc_max_data_write :: int
  oc_probe :: fptr
  oc_read :: fptr
  oc_write :: fptr
  oc_erase :: fptr
  oc_read_register :: fptr
  oc_write_register :: fptr
  oc_wp_write_cfg :: fptr
  oc_wp_read_cfg :: fptr
  oc_wp_get_ranges :: fptr
  oc_get_region :: fptr
  oc_get_protected_ranges :: fptr
  oc_shutdown :: fptr
  oc_delay :: fptr
  oc_data :: ptr

record par_callbacks =
  pc_map_flash_region :: fptr
  pc_unmap_flash_region :: fptr
  pc_chip_writeb :: fptr
  pc_chip_writew :: fptr
  pc_chip_writel :: fptr
  pc_chip_writen :: fptr
  pc_chip_readb :: fptr
  pc_chip_readw :: fptr
  pc_chip_readl :: fptr
  pc_chip_readn :: fptr
  pc_shutdown :: fptr
  pc_delay :: fptr
  pc_data :: ptr

record registered_master =
  rm_buses_supported :: bus_mask
  rm_par :: par_callbacks
  rm_spi :: spi_callbacks
  rm_opaque :: opaque_callbacks

text \<open>\<open>struct registered_master rmst = {0}\<close>.\<close>

definition zero_spi :: spi_callbacks where
  "zero_spi = \<lparr>sc_features = 0, sc_max_data_read = 0, sc_max_data_write = 0, sc_command = None, sc_multicommand = None,
     sc_map_flash_region = None, sc_unmap_flash_region = None, sc_read = None, sc_write_256 = None, sc_write_aai = None,
     sc_shutdown = None, sc_probe_opcode = None, sc_delay = None, sc_get_region = None, sc_data = 0\<rparr>"

definition zero_opaque :: opaque_callbacks where
  "zero_opaque = \<lparr>oc_max_data_read = 0, oc_max_data_write = 0, oc_probe = None, oc_read = None, oc_write = None, oc_erase = None,
     oc_read_register = None, oc_write_register = None, oc_wp_write_cfg = None, oc_wp_read_cfg = None, oc_wp_get_ranges = None,
     oc_get_region = None, oc_get_protected_ranges = None, oc_shutdown = None, oc_delay = None, oc_data = 0\<rparr>"

definition zero_par :: par_callbacks where
  "zero_par = \<lparr>pc_map_flash_region = None, pc_unmap_flash_region = None, pc_chip_writeb = None, pc_chip_writew = None,
     pc_chip_writel = None, pc_chip_writen = None, pc_chip_readb = None, pc_chip_readw = None, pc_chip_readl = None,
     pc_chip_readn = None, pc_shutdown = None, pc_delay = None, pc_data = 0\<rparr>"

definition zero_master :: registered_master where
  "zero_master = \<lparr>rm_buses_supported = BUS_NONE, rm_par = zero_par, rm_spi = zero_spi, rm_opaque = zero_opaque\<rparr>"

record decode_sizes =
  ds_parallel :: nat
  ds_lpc :: nat
  ds_fwh :: nat
  ds_spi :: nat

record shutdown_func_data =
  sf_func :: nat
  sf_data :: ptr

record globals =
  g_programmer :: "string option"
  g_max_rom_decode :: decode_sizes
  g_flashbase :: nat
  g_programmer_may_write :: bool
  g_may_register_shutdown :: bool
  g_shutdown_fn :: "shutdown_func_data list"
  g_registered_masters :: "registered_master list"

definition SHUTDOWN_MAXFN :: nat where "SHUTDOWN_MAXFN = 32"
definition MASTERS_MAX :: nat where "MASTERS_MAX = 4"

text \<open>The values at the start of the program.\<close>

definition initial_globals :: globals where
  "initial_globals = \<lparr>g_programmer = None, g_max_rom_decode = \<lparr>ds_parallel = 0, ds_lpc = 0, ds_fwh = 0, ds_spi = 0\<rparr>,
     g_flashbase = 0, g_programmer_may_write = False, g_may_register_shutdown = False, g_shutdown_fn = [],
     g_registered_masters = []\<rparr>"

section \<open>Shutdown functions\<close>

definition register_shutdown :: "nat \<Rightarrow> ptr \<Rightarrow> globals \<Rightarrow> int \<times> globals" where
  "register_shutdown function data g =
     (if length (g_shutdown_fn g) \<ge> SHUTDOWN_MAXFN then (1, g)
      else if \<not> g_may_register_shutdown g then (1, g)
      else (0, g\<lparr>g_shutdown_fn := g_shutdown_fn g @ [\<lparr>sf_func = function, sf_data = data\<rparr>]\<rparr>))"

text \<open>The loop of \<^verbatim>\<open>programmer_shutdown\<close>: \<open>count\<close> is \<^verbatim>\<open>shutdown_fn_count\<close>.\<close>

fun shutdown_loop :: "'w callee \<Rightarrow> shutdown_func_data list \<Rightarrow> nat \<Rightarrow> int \<Rightarrow> 'w \<Rightarrow> (int \<times> 'w) option" where
  "shutdown_loop call fns 0 ret w = Some (ret, w)"
| "shutdown_loop call fns (Suc i) ret w =
     Option.bind (call (sf_func (fns ! i)) (sf_data (fns ! i)) w) (\<lambda>(r, w'). shutdown_loop call fns i (ret OR r) w')"

definition programmer_shutdown :: "'w callee \<Rightarrow> globals \<Rightarrow> 'w \<Rightarrow> (int \<times> globals \<times> 'w) option" where
  "programmer_shutdown call g w =
     map_option (\<lambda>(ret, w'). (ret, g\<lparr>g_may_register_shutdown := False, g_shutdown_fn := [], g_registered_masters := []\<rparr>, w'))
       (shutdown_loop call (g_shutdown_fn g) (length (g_shutdown_fn g)) 0 w)"

definition flashrom_programmer_shutdown :: "'w callee \<Rightarrow> globals \<Rightarrow> 'w \<Rightarrow> (int \<times> globals \<times> 'w) option" where
  "flashrom_programmer_shutdown call g w = programmer_shutdown call g w"

section \<open>Masters\<close>

definition register_master :: "registered_master \<Rightarrow> globals \<Rightarrow> int \<times> globals" where
  "register_master mst g =
     (if length (g_registered_masters g) \<ge> MASTERS_MAX then (ERROR_FLASHROM_LIMIT, g)
      else (0, g\<lparr>g_registered_masters := g_registered_masters g @ [mst]\<rparr>))"

definition get_buses_supported :: "globals \<Rightarrow> bus_mask" where
  "get_buses_supported g = fold (\<lambda>m ret. ret OR rm_buses_supported m) (g_registered_masters g) BUS_NONE"

text \<open>The common beginning of the three registration functions: the shutdown function of the master is
  registered, and when that fails it is called at once. The Boolean tells whether to go on.\<close>

definition register_master_shutdown ::
    "'w callee \<Rightarrow> fptr \<Rightarrow> ptr \<Rightarrow> globals \<Rightarrow> 'w \<Rightarrow> (bool \<times> globals \<times> 'w) option" where
  "register_master_shutdown call shutdown data g w =
     (case shutdown of
        None \<Rightarrow> Some (True, g, w)
      | Some f \<Rightarrow>
          (case register_shutdown f data g of
             (ret, g') \<Rightarrow>
               if ret \<noteq> 0 then map_option (\<lambda>(_, w'). (False, g', w')) (call f data w)
               else Some (True, g', w)))"

definition register_opaque_master ::
    "'w callee \<Rightarrow> opaque_callbacks \<Rightarrow> ptr \<Rightarrow> globals \<Rightarrow> 'w \<Rightarrow> (int \<times> globals \<times> 'w) option" where
  "register_opaque_master call mst data g w =
     Option.bind (register_master_shutdown call (oc_shutdown mst) data g w) (\<lambda>(go_on, g', w').
       if \<not> go_on then Some (1, g', w')
       else if oc_probe mst = None \<or> oc_read mst = None \<or> oc_write mst = None \<or> oc_erase mst = None
       then Some (ERROR_FLASHROM_BUG, g', w')
       else let rmst = zero_master\<lparr>rm_buses_supported := BUS_PROG,
                         rm_opaque := (if data \<noteq> 0 then mst\<lparr>oc_data := data\<rparr> else mst)\<rparr>
            in case register_master rmst g' of (ret, g'') \<Rightarrow> Some (ret, g'', w'))"

definition register_spi_master ::
    "'w callee \<Rightarrow> spi_callbacks \<Rightarrow> ptr \<Rightarrow> globals \<Rightarrow> 'w \<Rightarrow> (int \<times> globals \<times> 'w) option" where
  "register_spi_master call mst data g w =
     Option.bind (register_master_shutdown call (sc_shutdown mst) data g w) (\<lambda>(go_on, g', w').
       if \<not> go_on then Some (1, g', w')
       else if sc_write_256 mst = None \<or> sc_read mst = None \<or> (sc_command mst = None \<and> sc_multicommand mst = None)
       then Some (ERROR_FLASHROM_BUG, g', w')
       else let rmst = zero_master\<lparr>rm_buses_supported := BUS_SPI,
                         rm_spi := (if data \<noteq> 0 then mst\<lparr>sc_data := data\<rparr> else mst)\<rparr>
            in case register_master rmst g' of (ret, g'') \<Rightarrow> Some (ret, g'', w'))"

definition register_par_master ::
    "'w callee \<Rightarrow> par_callbacks \<Rightarrow> bus_mask \<Rightarrow> ptr \<Rightarrow> globals \<Rightarrow> 'w \<Rightarrow> (int \<times> globals \<times> 'w) option" where
  "register_par_master call mst buses data g w =
     Option.bind (register_master_shutdown call (pc_shutdown mst) data g w) (\<lambda>(go_on, g', w').
       if \<not> go_on then Some (1, g', w')
       else if has_bus buses (BUS_FWH OR BUS_LPC) \<and> pc_map_flash_region mst = None then Some (ERROR_FLASHROM_BUG, g', w')
       else if pc_chip_writeb mst = None \<or> pc_chip_readb mst = None then Some (ERROR_FLASHROM_BUG, g', w')
       else let rmst = zero_master\<lparr>rm_buses_supported := buses,
                         rm_par := (if data \<noteq> 0 then mst\<lparr>pc_data := data\<rparr> else mst)\<rparr>
            in case register_master rmst g' of (ret, g'') \<Rightarrow> Some (ret, g'', w'))"

section \<open>Programmer parameters\<close>

text \<open>The functions of \<^verbatim>\<open>string.h\<close> on strings without their final null character: the position
  of the first occurrence, and the lengths of the prefixes without or with only given characters.\<close>

definition strstr :: "string \<Rightarrow> string \<Rightarrow> nat option" where
  "strstr haystack needle = find (\<lambda>i. prefix needle (drop i haystack)) [0..<Suc (length haystack)]"

definition strcspn :: "string \<Rightarrow> string \<Rightarrow> nat" where
  "strcspn s reject = length (takeWhile (\<lambda>c. c \<notin> set reject) s)"

definition strspn :: "string \<Rightarrow> string \<Rightarrow> nat" where
  "strspn s accept = length (takeWhile (\<lambda>c. c \<in> set accept) s)"

lemma strstr_bound: "strstr h n = Some k \<Longrightarrow> k + length n \<le> length h"
proof -
  assume "strstr h n = Some k"
  then have k: "k \<le> length h" and p: "prefix n (drop k h)"
    by (auto simp: strstr_def find_Some_iff simp del: upt_Suc)
  from p have "length n \<le> length (drop k h)" by (rule prefix_length_le)
  with k show ?thesis by simp
qed

text \<open>The search of \<^verbatim>\<open>extract_param\<close> from position \<open>pos\<close> on: an occurrence of the needle counts when an
  equals sign follows it and the string begins there or a delimiter precedes it.\<close>

function param_search :: "string \<Rightarrow> string \<Rightarrow> string \<Rightarrow> nat \<Rightarrow> nat option" where
  "param_search haystack needle delim pos =
     (if needle = [] then None
      else case strstr (drop pos haystack) needle of
             None \<Rightarrow> None
           | Some k \<Rightarrow>
               let param_pos = pos + k in
               if param_pos + length needle < length haystack \<and> haystack ! (param_pos + length needle) = CHR ''='' \<and>
                  (param_pos = 0 \<or> haystack ! (param_pos - 1) \<in> set delim)
               then Some param_pos
               else param_search haystack needle delim (Suc param_pos))"
  by pat_completeness auto
termination
proof (relation "measure (\<lambda>(h, n, d, pos). length h - pos)", goal_cases)
  case (2 haystack needle delim pos k param_pos)
  have "k + length needle \<le> length haystack - pos"
    using strstr_bound [OF 2(2)] by simp
  moreover have "0 < length needle" using 2(1) by simp
  ultimately have "k < length haystack - pos" by linarith
  then show ?case using 2(3) by simp
qed simp

declare param_search.simps [simp del]

text \<open>\<^verbatim>\<open>extract_param\<close>: the result and the haystack that is left, in place; \<open>alloc\<close> says whether the memory
  for the copy is there.\<close>

definition extract_param :: "bool \<Rightarrow> string option \<Rightarrow> string \<Rightarrow> string \<Rightarrow> string option \<times> string option" where
  "extract_param alloc haystack needle delim =
     (if length needle = 0 then (None, haystack)
      else case haystack of
             None \<Rightarrow> (None, None)
           | Some hay \<Rightarrow>
               (case param_search hay needle delim 0 of
                  None \<Rightarrow> (None, Some hay)
                | Some param_pos \<Rightarrow>
                    let opt_pos = param_pos + length needle + 1;
                        optlen = strcspn (drop opt_pos hay) delim
                    in if \<not> alloc then (None, Some hay)
                       else let opt = take optlen (drop opt_pos hay);
                                rest = opt_pos + optlen;
                                rest' = rest + strspn (drop rest hay) delim
                            in (Some opt, Some (take param_pos hay @ drop rest' hay))))"

definition extract_programmer_param_str :: "bool \<Rightarrow> string option \<Rightarrow> string \<Rightarrow> string option \<times> string option" where
  "extract_programmer_param_str alloc params param_name = extract_param alloc params param_name '',''"

section \<open>Initialisation\<close>

text \<open>The table of programmers: an init function takes the parameters, which it shortens, and the state.\<close>

datatype programmer_type = USB | PCI | OTHER | OTHER_VALUE

record 'w programmer_entry =
  pe_name :: "string option"
  pe_type :: programmer_type
  pe_note :: "ptr"
  pe_init :: "(string option \<Rightarrow> globals \<Rightarrow> 'w \<Rightarrow> (int \<times> string option \<times> globals \<times> 'w) option) option"

text \<open>\<open>alloc\<close> says whether \<^verbatim>\<open>strdup\<close> succeeds.\<close>

definition programmer_init ::
    "bool \<Rightarrow> 'w programmer_entry option \<Rightarrow> string option \<Rightarrow> globals \<Rightarrow> 'w \<Rightarrow> (int \<times> globals \<times> 'w) option" where
  "programmer_init alloc prog param g w =
     (case prog of
        None \<Rightarrow> Some (-1, g, w)
      | Some p \<Rightarrow>
          let g1 = g\<lparr>g_programmer := pe_name p,
                     g_max_rom_decode := \<lparr>ds_parallel = 0xffffffff, ds_lpc = 0xffffffff, ds_fwh = 0xffffffff, ds_spi = 0xffffffff\<rparr>,
                     g_flashbase := 0, g_may_register_shutdown := True, g_programmer_may_write := True\<rparr>
          in if param \<noteq> None \<and> \<not> alloc then Some (ERROR_FLASHROM_FATAL, g1, w)
             else case pe_init p of
                    None \<Rightarrow> None
                  | Some init \<Rightarrow>
                      Option.bind (init param g1 w) (\<lambda>(ret, params, g2, w2).
                        case params of
                          None \<Rightarrow> Some (ret, g2, w2)
                        | Some ps \<Rightarrow> Some (if length ps \<noteq> 0 \<and> ret = 0 then ERROR_FLASHROM_FATAL else ret, g2, w2)))"

text \<open>\<^verbatim>\<open>flashrom_programmer_init\<close> compares the name with those of the table; an entry without a name would be
  a null pointer for \<^verbatim>\<open>strcmp\<close>.\<close>

fun find_programmer :: "'w programmer_entry list \<Rightarrow> string \<Rightarrow> 'w programmer_entry option option" where
  "find_programmer [] prog_name = Some None"
| "find_programmer (p # ps) prog_name =
     (case pe_name p of
        None \<Rightarrow> None
      | Some nm \<Rightarrow> if prog_name = nm then Some (Some p) else find_programmer ps prog_name)"

definition flashrom_programmer_init ::
    "bool \<Rightarrow> 'w programmer_entry list \<Rightarrow> string \<Rightarrow> string option \<Rightarrow> globals \<Rightarrow> 'w \<Rightarrow> (int \<times> globals \<times> 'w) option" where
  "flashrom_programmer_init alloc table prog_name prog_param g w =
     Option.bind (find_programmer table prog_name) (\<lambda>prog.
       case prog of
         None \<Rightarrow> Some (1, g, w)
       | Some p \<Rightarrow> programmer_init alloc (Some p) prog_param g w)"

section \<open>Shutdown functions run in reverse order\<close>

text \<open>Registration of a list of functions, and a run of a list of functions with their results.\<close>

fun register_all :: "shutdown_func_data list \<Rightarrow> globals \<Rightarrow> int list \<times> globals" where
  "register_all [] g = ([], g)"
| "register_all (f # fs) g =
     (case register_shutdown (sf_func f) (sf_data f) g of
        (r, g') \<Rightarrow> (case register_all fs g' of (rs, g'') \<Rightarrow> (r # rs, g'')))"

fun run_all :: "'w callee \<Rightarrow> shutdown_func_data list \<Rightarrow> 'w \<Rightarrow> (int list \<times> 'w) option" where
  "run_all call [] w = Some ([], w)"
| "run_all call (f # fs) w =
     Option.bind (call (sf_func f) (sf_data f) w) (\<lambda>(r, w'). map_option (\<lambda>(rs, w''). (r # rs, w'')) (run_all call fs w'))"

lemma register_all_ok:
  assumes "g_may_register_shutdown g" and "length (g_shutdown_fn g) + length fs \<le> SHUTDOWN_MAXFN"
  shows "register_all fs g = (replicate (length fs) 0, g\<lparr>g_shutdown_fn := g_shutdown_fn g @ fs\<rparr>)"
  using assms by (induction fs arbitrary: g) (auto simp: register_shutdown_def)

lemma shutdown_loop_run_all:
  "n \<le> length fns \<Longrightarrow>
     shutdown_loop call fns n ret w =
       map_option (\<lambda>(rs, w'). (fold (\<lambda>r a. a OR r) rs ret, w')) (run_all call (rev (take n fns)) w)"
proof (induction n arbitrary: ret w)
  case (Suc n)
  then have *: "rev (take (Suc n) fns) = fns ! n # rev (take n fns)" by (simp add: take_Suc_conv_app_nth)
  have le: "n \<le> length fns" using Suc.prems by simp
  show ?case
    unfolding shutdown_loop.simps(2) * run_all.simps(2) Suc.IH [OF le]
    by (cases "call (sf_func (fns ! n)) (sf_data (fns ! n)) w")
      (auto simp: option.map_comp comp_def case_prod_unfold)
qed simp

lemma fold_or_zero: "fold (\<lambda>r a. a OR r) rs (b::int) = 0 \<longleftrightarrow> b = 0 \<and> (\<forall>r \<in> set rs. r = 0)"
  by (induction rs arbitrary: b) (auto simp: or_eq_0_iff)

text \<open>C28: For every list of at most 32 functions that is registered after the initialisation of a programmer, all
  registrations succeed and \<^verbatim>\<open>programmer_shutdown\<close> calls every function once, with its data, the last one
  registered first. The result is 0 exactly when every function returns 0, and afterwards neither
  functions nor masters are registered and further registrations are refused.\<close>

theorem shutdown_reverse_order:
  assumes "g_may_register_shutdown g" and "g_shutdown_fn g = []" and "length fs \<le> SHUTDOWN_MAXFN"
    and run: "run_all call (rev fs) w = Some (rs, w')"
  shows "\<exists>g' ret g''. register_all fs g = (replicate (length fs) 0, g') \<and>
           programmer_shutdown call g' w = Some (ret, g'', w') \<and> (ret = 0 \<longleftrightarrow> (\<forall>r \<in> set rs. r = 0)) \<and>
           g_shutdown_fn g'' = [] \<and> g_registered_masters g'' = [] \<and>
           (\<forall>f d. register_shutdown f d g'' = (1, g''))"
proof -
  let ?g = "g\<lparr>g_shutdown_fn := fs\<rparr>"
  have "register_all fs g = (replicate (length fs) 0, ?g)"
    using assms by (simp add: register_all_ok)
  moreover have "programmer_shutdown call ?g w =
      Some (fold (\<lambda>r a. a OR r) rs 0, ?g\<lparr>g_may_register_shutdown := False, g_shutdown_fn := [], g_registered_masters := []\<rparr>, w')"
    using run by (simp add: programmer_shutdown_def shutdown_loop_run_all)
  ultimately show ?thesis
    by (auto simp: fold_or_zero register_shutdown_def SHUTDOWN_MAXFN_def)
qed

text \<open>Three functions that append their data to a log.\<close>

definition log_callee :: "ptr list callee" where
  "log_callee f data w = Some (0, w @ [data])"

theorem shutdown_reverse_order_witness:
  "\<exists>g' ret g''. register_all [\<lparr>sf_func = 10, sf_data = 1\<rparr>, \<lparr>sf_func = 20, sf_data = 2\<rparr>, \<lparr>sf_func = 10, sf_data = 3\<rparr>]
       (initial_globals\<lparr>g_may_register_shutdown := True\<rparr>) = ([0, 0, 0], g') \<and>
     programmer_shutdown log_callee g' [] = Some (ret, g'', [3, 2, 1]) \<and> ret = 0"
  using shutdown_reverse_order [of "initial_globals\<lparr>g_may_register_shutdown := True\<rparr>"
      "[\<lparr>sf_func = 10, sf_data = 1\<rparr>, \<lparr>sf_func = 20, sf_data = 2\<rparr>, \<lparr>sf_func = 10, sf_data = 3\<rparr>]" log_callee "[]" "[0, 0, 0]" "[3, 2, 1]"]
  by (auto simp: initial_globals_def SHUTDOWN_MAXFN_def log_callee_def numeral_3_eq_3)

section \<open>Invariant of the registrations\<close>

text \<open>The calls that change the static variables: the beginning of an initialisation (the code of the programmer
  then registers what it likes), the registrations and the shutdown. Parallel masters are registered for
  parallel buses only, as all programmers do.\<close>

definition idle_entry :: "string option \<Rightarrow> 'w programmer_entry" where
  "idle_entry nm = \<lparr>pe_name = nm, pe_type = OTHER, pe_note = 1, pe_init = Some (\<lambda>ps g w. Some (0, None, g, w))\<rparr>"

inductive api_step :: "'w callee \<Rightarrow> globals \<times> 'w \<Rightarrow> globals \<times> 'w \<Rightarrow> bool" for call where
  init: "programmer_init alloc (Some (idle_entry nm)) param g w = Some (ret, g', w') \<Longrightarrow> api_step call (g, w) (g', w')"
| shutdown_fn: "register_shutdown f d g = (ret, g') \<Longrightarrow> api_step call (g, w) (g', w)"
| opaque: "register_opaque_master call om d g w = Some (ret, g', w') \<Longrightarrow> api_step call (g, w) (g', w')"
| spi: "register_spi_master call sm d g w = Some (ret, g', w') \<Longrightarrow> api_step call (g, w) (g', w')"
| par: "register_par_master call pm buses d g w = Some (ret, g', w') \<Longrightarrow> \<not> has_bus buses (BUS_SPI OR BUS_PROG) \<Longrightarrow>
          api_step call (g, w) (g', w')"
| shutdown: "programmer_shutdown call g w = Some (ret, g', w') \<Longrightarrow> api_step call (g, w) (g', w')"

definition master_complete :: "registered_master \<Rightarrow> bool" where
  "master_complete m \<longleftrightarrow>
     (has_bus (rm_buses_supported m) BUS_PROG \<longrightarrow>
        oc_probe (rm_opaque m) \<noteq> None \<and> oc_read (rm_opaque m) \<noteq> None \<and> oc_write (rm_opaque m) \<noteq> None \<and> oc_erase (rm_opaque m) \<noteq> None) \<and>
     (has_bus (rm_buses_supported m) BUS_SPI \<longrightarrow>
        sc_read (rm_spi m) \<noteq> None \<and> sc_write_256 (rm_spi m) \<noteq> None \<and>
        (sc_command (rm_spi m) \<noteq> None \<or> sc_multicommand (rm_spi m) \<noteq> None)) \<and>
     (has_bus (rm_buses_supported m) (BUS_FWH OR BUS_LPC) \<longrightarrow> pc_map_flash_region (rm_par m) \<noteq> None) \<and>
     (has_bus (rm_buses_supported m) BUS_NONSPI \<longrightarrow> pc_chip_writeb (rm_par m) \<noteq> None \<and> pc_chip_readb (rm_par m) \<noteq> None)"

definition globals_ok :: "globals \<Rightarrow> bool" where
  "globals_ok g \<longleftrightarrow> length (g_shutdown_fn g) \<le> SHUTDOWN_MAXFN \<and> length (g_registered_masters g) \<le> MASTERS_MAX \<and>
     list_all master_complete (g_registered_masters g) \<and> (\<not> g_may_register_shutdown g \<longrightarrow> g_shutdown_fn g = [])"

lemma register_shutdown_ok: "register_shutdown f d g = (ret, g') \<Longrightarrow> globals_ok g \<Longrightarrow> globals_ok g'"
  by (auto simp: register_shutdown_def globals_ok_def split: if_splits)

lemma register_master_ok: "register_master m g = (ret, g') \<Longrightarrow> globals_ok g \<Longrightarrow> master_complete m \<Longrightarrow> globals_ok g'"
  by (auto simp: register_master_def globals_ok_def split: if_splits)

lemma register_master_shutdown_ok:
  "register_master_shutdown call sh d g w = Some (b, g', w') \<Longrightarrow> globals_ok g \<Longrightarrow> globals_ok g'"
  by (auto simp: register_master_shutdown_def split: option.splits prod.splits if_splits intro: register_shutdown_ok)

lemma has_bus_simps [simp]:
  "has_bus BUS_PROG BUS_PROG" "\<not> has_bus BUS_PROG BUS_SPI" "\<not> has_bus BUS_PROG (BUS_FWH OR BUS_LPC)" "\<not> has_bus BUS_PROG BUS_NONSPI"
  "has_bus BUS_SPI BUS_SPI" "\<not> has_bus BUS_SPI BUS_PROG" "\<not> has_bus BUS_SPI (BUS_FWH OR BUS_LPC)" "\<not> has_bus BUS_SPI BUS_NONSPI"
  by (simp_all add: bus_defs)

lemma has_bus_or: "has_bus m (a OR b) \<longleftrightarrow> has_bus m a \<or> has_bus m b"
  by (simp add: has_bus_def bit.conj_disj_distrib or_eq_0_iff)

lemma api_step_ok:
  assumes "api_step call (g, w) (g', w')" and ok: "globals_ok g"
  shows "globals_ok g'"
  using assms(1)
proof (cases rule: api_step.cases)
  case init
  then show ?thesis using ok
    by (auto simp: programmer_init_def idle_entry_def globals_ok_def Let_def split: if_splits)
next
  case shutdown_fn
  then show ?thesis using ok by (auto intro: register_shutdown_ok)
next
  case (opaque om d ret)
  then show ?thesis using ok
    by (auto simp: register_opaque_master_def Let_def bind_eq_Some_conv master_complete_def zero_master_def
        split: if_splits prod.splits elim!: register_master_ok register_master_shutdown_ok intro: register_master_shutdown_ok)
next
  case (spi sm d ret)
  then show ?thesis using ok
    by (auto simp: register_spi_master_def Let_def bind_eq_Some_conv master_complete_def zero_master_def
        split: if_splits prod.splits elim!: register_master_ok intro: register_master_shutdown_ok)
next
  case (par pm buses d ret)
  then show ?thesis using ok
    by (auto simp: register_par_master_def Let_def bind_eq_Some_conv master_complete_def zero_master_def has_bus_or
        split: if_splits prod.splits elim!: register_master_ok intro: register_master_shutdown_ok)
next
  case shutdown
  then show ?thesis by (auto simp: programmer_shutdown_def globals_ok_def)
qed

text \<open>C29: In every state that calls of the interface lead to, at most 32 shutdown functions and 4 masters are
  registered, no shutdown function is registered while registration is not allowed, and every master has
  the functions that are called through it without a check.\<close>

theorem registrations_invariant:
  assumes "(api_step call)\<^sup>*\<^sup>* (initial_globals, w) (g, w')"
  shows "globals_ok g"
proof -
  have "globals_ok (fst (g, w'))" using assms
  proof (induction rule: rtranclp_induct)
    case base
    show ?case by (simp add: globals_ok_def initial_globals_def)
  next
    case (step y z)
    then show ?case by (cases y, cases z) (auto intro: api_step_ok)
  qed
  then show ?thesis by simp
qed


text \<open>An opaque master is registered and its shutdown function with it.\<close>

theorem registrations_invariant_witness:
  "\<exists>g. (api_step log_callee)\<^sup>*\<^sup>* (initial_globals, []) (g, []) \<and> globals_ok g \<and>
       length (g_registered_masters g) = 1 \<and> length (g_shutdown_fn g) = 1"
proof -
  let ?om = "zero_opaque\<lparr>oc_probe := Some 1, oc_read := Some 2, oc_write := Some 3, oc_erase := Some 4, oc_shutdown := Some 5\<rparr>"
  define g1 where "g1 = initial_globals\<lparr>g_programmer := Some ''dummy'', g_max_rom_decode :=
    \<lparr>ds_parallel = 0xffffffff, ds_lpc = 0xffffffff, ds_fwh = 0xffffffff, ds_spi = 0xffffffff\<rparr>,
    g_flashbase := 0, g_may_register_shutdown := True, g_programmer_may_write := True\<rparr>"
  define g2 where "g2 = g1\<lparr>g_shutdown_fn := [\<lparr>sf_func = 5, sf_data = 9\<rparr>],
    g_registered_masters := [zero_master\<lparr>rm_buses_supported := BUS_PROG, rm_opaque := ?om\<lparr>oc_data := 9\<rparr>\<rparr>]\<rparr>"
  have "programmer_init True (Some (idle_entry (Some ''dummy''))) None initial_globals ([]::ptr list) = Some (0, g1, [])"
    by (simp add: programmer_init_def idle_entry_def Let_def g1_def)
  then have "api_step log_callee (initial_globals, []) (g1, [])" by (rule api_step.init)
  moreover have "register_opaque_master log_callee ?om 9 g1 [] = Some (0, g2, [])"
    by (simp add: register_opaque_master_def register_master_shutdown_def register_shutdown_def register_master_def g1_def g2_def
        initial_globals_def SHUTDOWN_MAXFN_def MASTERS_MAX_def Let_def)
  then have "api_step log_callee (g1, []) (g2, [])" by (rule api_step.opaque)
  ultimately have "(api_step log_callee)\<^sup>*\<^sup>* (initial_globals, []) (g2, [])" by (meson converse_rtranclp_into_rtranclp rtranclp.rtrancl_refl)
  with registrations_invariant [OF this] show ?thesis by (intro exI [of _ g2]) (simp add: g2_def)
qed

section \<open>Programmer parameters are extracted\<close>

text \<open>Every string is a list of segments without commas, joined by commas.\<close>

fun cjoin :: "string list \<Rightarrow> string" where
  "cjoin [] = []"
| "cjoin [s] = s"
| "cjoin (s # t # ss) = s @ '','' @ cjoin (t # ss)"

definition comma_free :: "string \<Rightarrow> bool" where
  "comma_free s \<longleftrightarrow> CHR '','' \<notin> set s"

text \<open>Where an occurrence of the needle counts, and that the search finds the first such place.\<close>

definition param_at :: "string \<Rightarrow> string \<Rightarrow> nat \<Rightarrow> bool" where
  "param_at hay needle i \<longleftrightarrow> prefix (needle @ ''='') (drop i hay) \<and> (i = 0 \<or> hay ! (i - 1) = CHR '','')"

lemma prefix_snoc_iff: "prefix (n @ [c]) xs \<longleftrightarrow> prefix n xs \<and> length n < length xs \<and> xs ! length n = c"
proof
  assume "prefix (n @ [c]) xs"
  then show "prefix n xs \<and> length n < length xs \<and> xs ! length n = c"
    by (auto simp: prefix_def nth_append)
next
  assume "prefix n xs \<and> length n < length xs \<and> xs ! length n = c"
  then obtain zs where "xs = n @ zs" "zs \<noteq> []" "hd zs = c"
    by (auto simp: prefix_def nth_append hd_conv_nth)
  then show "prefix (n @ [c]) xs" by (cases zs) (auto simp: prefix_def)
qed

lemma strstr_None: "strstr h n = None \<Longrightarrow> \<not> prefix n (drop i h)"
  by (cases "i \<le> length h") (auto simp: strstr_def find_None_iff simp del: upt_Suc dest!: spec [of _ "length h"])

lemma strstr_Some:
  assumes "strstr h n = Some k"
  shows "prefix n (drop k h)" "i < k \<Longrightarrow> \<not> prefix n (drop i h)"
proof -
  obtain j where j: "j < Suc (length h)" "prefix n (drop ([0..<Suc (length h)] ! j) h)" "k = [0..<Suc (length h)] ! j"
    "\<forall>m<j. \<not> prefix n (drop ([0..<Suc (length h)] ! m) h)"
    using assms by (auto simp: strstr_def find_Some_iff simp del: upt_Suc)
  then have "k = j" by (simp del: upt_Suc)
  with j show "prefix n (drop k h)" by simp
  show "\<not> prefix n (drop i h)" if "i < k" using j that \<open>k = j\<close> by (auto simp del: upt_Suc)
qed

lemma param_search_None:
  assumes "param_search h n '','' pos = None" and "n \<noteq> []" and "i \<ge> pos"
  shows "\<not> param_at h n i"
  using assms
proof (induction h n "'',''" pos rule: param_search.induct)
  case (1 h n pos)
  show ?case
  proof (cases "strstr (drop pos h) n")
    case None
    from strstr_None [OF this, of "i - pos"] 1(4) show ?thesis by (simp add: param_at_def prefix_snoc_iff)
  next
    case (Some k)
    have no: "\<not> param_at h n (pos + k)"
      using 1(2,3) Some by (subst (asm) param_search.simps) (auto simp: param_at_def prefix_snoc_iff Let_def split: if_splits)
    have rest: "param_search h n '','' (Suc (pos + k)) = None"
      using 1(2,3) Some by (subst (asm) param_search.simps) (auto simp: Let_def split: if_splits)
    consider "i < pos + k" | "i = pos + k" | "i \<ge> Suc (pos + k)" by linarith
    then show ?thesis
    proof cases
      case 1
      then have "i - pos < k" using \<open>i \<ge> pos\<close> by simp
      from strstr_Some(2) [OF Some this] show ?thesis using \<open>i \<ge> pos\<close> by (simp add: param_at_def prefix_snoc_iff)
    next
      case 2
      with no show ?thesis by simp
    next
      case 3
      show ?thesis
      proof (rule 1(1) [OF 1(3) Some refl _ rest 1(3) 3])
        show "\<not> (pos + k + length n < length h \<and> h ! (pos + k + length n) = CHR ''='' \<and>
             (pos + k = 0 \<or> h ! (pos + k - 1) \<in> set '',''))"
          using no strstr_Some(1) [OF Some] by (auto simp: param_at_def prefix_snoc_iff add.commute)
      qed
    qed
  qed
qed

lemma param_search_Some:
  assumes "param_search h n '','' pos = Some p" and "n \<noteq> []"
  shows "param_at h n p \<and> (\<forall>i. pos \<le> i \<and> i < p \<longrightarrow> \<not> param_at h n i)"
  using assms
proof (induction h n "'',''" pos rule: param_search.induct)
  case (1 h n pos)
  then obtain k where k: "strstr (drop pos h) n = Some k"
    by (subst (asm) (2) param_search.simps) (auto split: option.splits)
  have below: "\<not> param_at h n i" if "pos \<le> i" "i < pos + k" for i
    using strstr_Some(2) [OF k, of "i - pos"] that by (simp add: param_at_def prefix_snoc_iff)
  let ?hit = "pos + k + length n < length h \<and> h ! (pos + k + length n) = CHR ''='' \<and> (pos + k = 0 \<or> h ! (pos + k - 1) \<in> set '','')"
  have hit: "?hit \<longleftrightarrow> param_at h n (pos + k)"
    using strstr_Some(1) [OF k] by (auto simp: param_at_def prefix_snoc_iff add.commute)
  show ?case
  proof (cases ?hit)
    case True
    then have "p = pos + k" using 1(2,3) k by (subst (asm) param_search.simps) (auto simp: Let_def split: if_splits)
    then show ?thesis using True hit below by blast
  next
    case False
    then have rest: "param_search h n '','' (Suc (pos + k)) = Some p"
      using 1(2,3) k by (subst (asm) param_search.simps) (auto simp: Let_def split: if_splits)
    have IH: "param_at h n p \<and> (\<forall>i. Suc (pos + k) \<le> i \<and> i < p \<longrightarrow> \<not> param_at h n i)"
      by (rule 1(1) [OF 1(3) k refl False rest 1(3)])
    have "\<not> param_at h n i" if "pos \<le> i" "i < p" for i
      using that below [of i] IH False hit by (cases i "pos + k" rule: linorder_cases) auto
    then show ?thesis using IH by blast
  qed
qed

lemma prefix_comma_free: "comma_free n \<Longrightarrow> prefix n (s @ CHR '','' # h) \<longleftrightarrow> prefix n s"
  by (auto simp: comma_free_def prefix_def append_eq_append_conv2 Cons_eq_append_conv)

lemma param_at_single: "comma_free s \<Longrightarrow> param_at s n i \<longleftrightarrow> i = 0 \<and> prefix (n @ ''='') s"
  by (cases "i - 1 < length s") (auto simp: param_at_def comma_free_def dest: nth_mem)

lemma param_at_Cons:
  assumes s: "comma_free s" and n: "comma_free n"
  shows "param_at (s @ CHR '','' # h) n i \<longleftrightarrow>
           (i = 0 \<and> prefix (n @ ''='') s) \<or> (length s < i \<and> param_at h n (i - Suc (length s)))"
proof -
  have n': "comma_free (n @ ''='')" using n by (simp add: comma_free_def)
  show ?thesis
  proof (cases "i \<le> length s")
    case le: True
    show ?thesis
    proof (cases "i = 0")
      case True
      then show ?thesis by (simp add: param_at_def prefix_comma_free [OF n'])
    next
      case False
      with le have "(s @ CHR '','' # h) ! (i - 1) = s ! (i - 1)" and mem: "s ! (i - 1) \<in> set s" by (auto simp: nth_append)
      moreover have "s ! (i - 1) \<noteq> CHR '',''" using mem s by (metis comma_free_def)
      ultimately show ?thesis using le False by (simp add: param_at_def)
    qed
  next
    case False
    then obtain j where "i = Suc (length s) + j" using le_Suc_ex [of "Suc (length s)" i] by auto
    then show ?thesis by (cases j) (auto simp: param_at_def nth_append)
  qed
qed

definition cpre :: "string list \<Rightarrow> string" where
  "cpre ss = concat (map (\<lambda>s. s @ '','') ss)"

lemma cjoin_append: "ts \<noteq> [] \<Longrightarrow> cjoin (ss @ ts) = cpre ss @ cjoin ts"
proof (induction ss)
  case (Cons s ss)
  then show ?case by (cases "ss @ ts") (auto simp: cpre_def)
qed (simp add: cpre_def)

lemma cjoin_Cons: "ts \<noteq> [] \<Longrightarrow> cjoin (s # ts) = s @ CHR '','' # cjoin ts"
  by (cases ts) auto

lemma param_at_segments:
  assumes "\<forall>s \<in> set segs. comma_free s" and "segs \<noteq> []" and n: "comma_free n"
  shows "case List.extract (prefix (n @ ''='')) segs of
           None \<Rightarrow> \<forall>i. \<not> param_at (cjoin segs) n i
         | Some (bs, t, as) \<Rightarrow> param_at (cjoin segs) n (length (cpre bs)) \<and> (\<forall>i < length (cpre bs). \<not> param_at (cjoin segs) n i)"
  using assms(1,2)
proof (induction segs)
  case (Cons s segs)
  have s: "comma_free s" using Cons.prems by simp
  show ?case
  proof (cases "segs = []")
    case True
    then show ?thesis using s by (simp add: extract_Cons_code extract_Nil_code param_at_single cpre_def)
  next
    case False
    note at = param_at_Cons [OF s n, of "cjoin segs"] cjoin_Cons [OF False, of s]
    have IH: "case List.extract (prefix (n @ ''='')) segs of
           None \<Rightarrow> \<forall>i. \<not> param_at (cjoin segs) n i
         | Some (bs, t, as) \<Rightarrow> param_at (cjoin segs) n (length (cpre bs)) \<and> (\<forall>i < length (cpre bs). \<not> param_at (cjoin segs) n i)"
      by (rule Cons.IH) (use Cons.prems False in auto)
    show ?thesis
    proof (cases "prefix (n @ ''='') s")
      case True
      then show ?thesis by (simp add: extract_Cons_code at cpre_def)
    next
      case miss: False
      with IH show ?thesis
        by (auto simp: extract_Cons_code at cpre_def split: option.splits)
    qed
  qed
qed simp

lemma param_search_segments:
  assumes "\<forall>s \<in> set segs. comma_free s" and "segs \<noteq> []" and n: "comma_free n" "n \<noteq> []"
  shows "param_search (cjoin segs) n '','' 0 = map_option (\<lambda>(bs, t, as). length (cpre bs)) (List.extract (prefix (n @ ''='')) segs)"
proof (cases "param_search (cjoin segs) n '','' 0")
  case None
  with param_search_None [OF None n(2)] param_at_segments [OF assms(1-3)] show ?thesis
    by (auto split: option.splits)
next
  case (Some p)
  from param_search_Some [OF Some n(2)] have p: "param_at (cjoin segs) n p" "\<And>i. i < p \<Longrightarrow> \<not> param_at (cjoin segs) n i" by auto
  with param_at_segments [OF assms(1-3)] obtain bs t as where e: "List.extract (prefix (n @ ''='')) segs = Some (bs, t, as)"
    and "param_at (cjoin segs) n (length (cpre bs))" "\<forall>i < length (cpre bs). \<not> param_at (cjoin segs) n i"
    by (auto split: option.splits)
  then have "p = length (cpre bs)" using p by (metis linorder_cases)
  with Some e show ?thesis by simp
qed

text \<open>What is left after a parameter was taken out: all empty segments behind it go too.\<close>

definition drop_empty :: "string list \<Rightarrow> string list" where
  "drop_empty ss = (let ts = dropWhile (\<lambda>s. s = []) ss in if ts = [] then [[]] else ts)"

lemma strspn_segments:
  assumes "\<forall>s \<in> set as. comma_free s"
  shows "drop (strspn (cjoin as) '','') (cjoin as) = cjoin (drop_empty as)"
  using assms
proof (induction as)
  case (Cons s as)
  show ?case
  proof (cases "s = []")
    case True
    show ?thesis
    proof (cases "as = []")
      case False
      with True Cons show ?thesis by (simp add: cjoin_Cons strspn_def drop_empty_def)
    qed (simp add: True strspn_def drop_empty_def)
  next
    case False
    then have "cjoin (s # as) ! 0 = s ! 0" "cjoin (s # as) \<noteq> []" "s ! 0 \<noteq> CHR '',''"
      using Cons.prems nth_mem [of 0 s] by (auto simp: comma_free_def nth_append cjoin_Cons neq_Nil_conv split: list.splits)
        (cases as; auto simp: comma_free_def)+
    then have "strspn (cjoin (s # as)) '','' = 0" by (cases "cjoin (s # as)") (auto simp: strspn_def)
    with False show ?thesis by (simp add: drop_empty_def)
  qed
qed (simp add: strspn_def drop_empty_def)

lemma extract_param_hit:
  assumes "\<forall>s \<in> set (bs @ t # as). comma_free s" and t: "prefix (n @ ''='') t" and pos: "p = length (cpre bs)"
    and search: "param_search (cjoin (bs @ t # as)) n '','' 0 = Some p" and n: "n \<noteq> []"
  shows "extract_param True (Some (cjoin (bs @ t # as))) n '','' =
           (Some (drop (Suc (length n)) t), Some (cjoin (bs @ drop_empty as)))"
proof -
  obtain v where v: "t = n @ ''='' @ v" using t by (auto simp: prefix_def)
  have cv: "comma_free v" using assms(1) by (simp add: v comma_free_def)
  let ?rest = "if as = [] then [] else CHR '','' # cjoin as"
  have h: "cjoin (bs @ t # as) = cpre bs @ n @ ''='' @ v @ ?rest"
    by (cases "as = []") (simp_all add: cjoin_append cjoin_Cons v)
  have dv: "drop (p + length n + 1) (cjoin (bs @ t # as)) = v @ ?rest" unfolding h pos by simp
  have "takeWhile (\<lambda>c. c \<notin> set '','') (v @ ?rest) = v @ takeWhile (\<lambda>c. c \<notin> set '','') ?rest"
    by (rule takeWhile_append2) (use cv in \<open>auto simp: comma_free_def\<close>)
  then have len: "strcspn (v @ ?rest) '','' = length v"
    by (auto simp: strcspn_def)
  have dr: "drop (p + length n + 1 + length v) (cjoin (bs @ t # as)) = ?rest" unfolding h pos by simp
  have sp: "drop (strspn ?rest '','') ?rest = cjoin (drop_empty as)"
    using strspn_segments [of as] assms(1) by (auto simp: strspn_def drop_empty_def)
  have tk: "take p (cjoin (bs @ t # as)) = cpre bs" unfolding h pos by simp
  have dd: "drop (p + length n + 1 + length v + strspn ?rest '','') (cjoin (bs @ t # as)) = cjoin (drop_empty as)"
  proof -
    have "drop (p + length n + 1 + length v + strspn ?rest '','') (cjoin (bs @ t # as)) =
        drop (strspn ?rest '','') (drop (p + length n + 1 + length v) (cjoin (bs @ t # as)))"
      unfolding drop_drop by (simp only: add.commute)
    then show ?thesis by (simp only: dr sp)
  qed
  have ne: "drop_empty as \<noteq> []" by (simp add: drop_empty_def Let_def)
  show ?thesis
    using n by (simp only: extract_param_def search option.case Let_def dv len dr dd tk length_0_conv if_False not_True_eq_False)
      (simp add: cjoin_append [OF ne] v)
qed

lemma extract_param_segments:
  assumes "\<forall>s \<in> set segs. comma_free s" and "segs \<noteq> []" and n: "comma_free param_name" "param_name \<noteq> []"
  shows "extract_programmer_param_str True (Some (cjoin segs)) param_name =
           (case List.extract (prefix (param_name @ ''='')) segs of
              None \<Rightarrow> (None, Some (cjoin segs))
            | Some (bs, t, as) \<Rightarrow> (Some (drop (Suc (length param_name)) t), Some (cjoin (bs @ drop_empty as))))"
proof (cases "List.extract (prefix (param_name @ ''='')) segs")
  case None
  then show ?thesis
    using n by (simp add: extract_programmer_param_str_def extract_param_def param_search_segments [OF assms])
next
  case (Some x)
  obtain bs t as where x: "x = (bs, t, as)" by (cases x)
  have segs: "segs = bs @ t # as" and t: "prefix (param_name @ ''='') t"
    using Some by (auto simp: x extract_Some_iff)
  have "param_search (cjoin segs) param_name '','' 0 = Some (length (cpre bs))"
    by (simp add: param_search_segments [OF assms] Some x)
  then have "extract_param True (Some (cjoin segs)) param_name '','' =
      (Some (drop (Suc (length param_name)) t), Some (cjoin (bs @ drop_empty as)))"
    unfolding segs by (intro extract_param_hit t n(2) refl) (use assms(1) segs in auto)
  then show ?thesis by (simp add: extract_programmer_param_str_def Some x)
qed

text \<open>C30: \<^verbatim>\<open>extract_programmer_param_str\<close> on any string of parameters, split at its commas: it returns
  what follows the equals sign of the first segment that begins with the name and an equals sign, and removes
  that segment with the commas behind it; the other segments, even those that contain the
  name elsewhere, stay. Without such a segment nothing changes.\<close>

theorem extract_param_correct:
  assumes "\<forall>s \<in> set segs. comma_free s" and "segs \<noteq> []" and n: "comma_free param_name" "param_name \<noteq> []"
  shows "extract_programmer_param_str True (Some (cjoin segs)) param_name =
           (case List.extract (prefix (param_name @ ''='')) segs of
              None \<Rightarrow> (None, Some (cjoin segs))
            | Some (bs, t, as) \<Rightarrow> (Some (drop (Suc (length param_name)) t), Some (cjoin (bs @ drop_empty as))))"
  by (rule extract_param_segments [OF assms])

theorem extract_param_witness:
  "extract_programmer_param_str True (Some ''bus=spi,image=a.bin,,emulate=W25Q128FV'') ''image'' =
     (Some ''a.bin'', Some ''bus=spi,emulate=W25Q128FV'')"
  using extract_param_correct [of "[''bus=spi'', ''image=a.bin'', [], ''emulate=W25Q128FV'']" "''image''"]
  by (simp add: comma_free_def extract_Cons_code drop_empty_def)

text \<open>The init function of a programmer takes the parameters it knows, here as a list of names.\<close>

fun extract_all :: "string list \<Rightarrow> string option \<Rightarrow> string option list \<times> string option" where
  "extract_all [] params = ([], params)"
| "extract_all (n # ns) params =
     (case extract_programmer_param_str True params n of
        (v, params') \<Rightarrow> (case extract_all ns params' of (vs, params'') \<Rightarrow> (v # vs, params'')))"

definition param_seg :: "string \<times> string \<Rightarrow> string" where
  "param_seg kv = fst kv @ ''='' @ snd kv"

definition param_ok :: "string \<times> string \<Rightarrow> bool" where
  "param_ok kv \<longleftrightarrow> fst kv \<noteq> [] \<and> comma_free (fst kv) \<and> CHR ''='' \<notin> set (fst kv) \<and> comma_free (snd kv)"

text \<open>The segments of the parameters that are left, with an empty one behind a final comma.\<close>

definition param_segs :: "(string \<times> string) list \<Rightarrow> bool \<Rightarrow> string list" where
  "param_segs kvs trail = (if kvs = [] then [[]] else map param_seg kvs @ (if trail then [[]] else []))"

lemma prefix_param_seg:
  assumes "CHR ''='' \<notin> set n" "CHR ''='' \<notin> set (fst kv)"
  shows "prefix (n @ ''='') (param_seg kv) \<longleftrightarrow> n = fst kv"
proof
  assume "prefix (n @ ''='') (param_seg kv)"
  then have "takeWhile (\<lambda>c. c \<noteq> CHR ''='') (n @ ''='') = takeWhile (\<lambda>c. c \<noteq> CHR ''='') (param_seg kv)"
    by (auto simp: prefix_def takeWhile_append2 takeWhile_tail)
  moreover have "takeWhile (\<lambda>c. c \<noteq> CHR ''='') (n @ ''='') = n" using assms(1) by (subst takeWhile_append2) auto
  moreover have "takeWhile (\<lambda>c. c \<noteq> CHR ''='') (param_seg kv) = fst kv"
    using assms(2) unfolding param_seg_def by (subst takeWhile_append2) auto
  ultimately show "n = fst kv" by simp
qed (simp add: param_seg_def prefix_def)

lemma extract_one:
  assumes kvs: "\<forall>kv \<in> set kvs. param_ok kv" and n: "n \<noteq> []" "comma_free n" "CHR ''='' \<notin> set n" and d: "distinct (map fst kvs)"
  shows "\<exists>tr'. extract_programmer_param_str True (Some (cjoin (param_segs kvs tr))) n =
           (map_of kvs n, Some (cjoin (param_segs (filter (\<lambda>kv. fst kv \<noteq> n) kvs) tr')))"
proof -
  have segs: "\<forall>s \<in> set (param_segs kvs tr). comma_free s" "param_segs kvs tr \<noteq> []"
    using kvs by (auto simp: param_segs_def param_ok_def param_seg_def comma_free_def)
  note ex = extract_param_segments [OF segs n(2,1)]
  have pk: "prefix (n @ ''='') (param_seg kv) \<longleftrightarrow> n = fst kv" if "kv \<in> set kvs" for kv
    using that kvs n(3) by (simp add: prefix_param_seg param_ok_def)
  show ?thesis
  proof (cases "n \<in> fst ` set kvs")
    case False
    then have "List.extract (prefix (n @ ''='')) (param_segs kvs tr) = None"
      by (force simp: extract_None_iff param_segs_def pk split: if_splits)
    moreover have "filter (\<lambda>kv. fst kv \<noteq> n) kvs = kvs" using False by (auto simp: filter_id_conv)
    moreover have "map_of kvs n = None" using False by (simp add: map_of_eq_None_iff)
    ultimately show ?thesis using ex by (intro exI [of _ tr]) simp
  next
    case True
    then obtain v where v: "(n, v) \<in> set kvs" by auto
    then obtain xs ys where k: "kvs = xs @ (n, v) # ys" by (auto dest: split_list)
    with d have no: "n \<notin> fst ` set xs" "n \<notin> fst ` set ys" by auto
    let ?tl = "map param_seg ys @ (if tr then [[]] else [])"
    have "List.extract (prefix (n @ ''='')) (param_segs kvs tr) = Some (map param_seg xs, param_seg (n, v), ?tl)"
      using kvs n(3) no by (auto simp: extract_Some_iff param_segs_def k prefix_param_seg param_ok_def)
    moreover have "drop (Suc (length n)) (param_seg (n, v)) = v" by (simp add: param_seg_def)
    moreover have "filter (\<lambda>kv. fst kv \<noteq> n) xs = xs" "filter (\<lambda>kv. fst kv \<noteq> n) ys = ys"
      using no by (force simp: filter_id_conv)+
    then have "filter (\<lambda>kv. fst kv \<noteq> n) kvs = xs @ ys" by (simp add: k)
    moreover have "map_of kvs n = Some v" using d v by simp
    moreover have "map param_seg xs @ drop_empty ?tl = param_segs (xs @ ys) (tr \<or> ys = [])"
      by (cases ys) (auto simp: drop_empty_def param_segs_def param_seg_def)
    ultimately show ?thesis using ex by auto
  qed
qed

lemma map_of_filter_ne: "m \<noteq> n \<Longrightarrow> map_of (filter (\<lambda>kv. fst kv \<noteq> n) kvs) m = map_of kvs m"
  by (induction kvs) auto

lemma extract_all_params:
  assumes "\<forall>kv \<in> set kvs. param_ok kv" and "\<forall>n \<in> set names. n \<noteq> [] \<and> comma_free n \<and> CHR ''='' \<notin> set n"
    and "distinct (map fst kvs)" and "distinct names"
  shows "\<exists>tr'. extract_all names (Some (cjoin (param_segs kvs tr))) =
           (map (map_of kvs) names, Some (cjoin (param_segs (filter (\<lambda>kv. fst kv \<notin> set names) kvs) tr')))"
  using assms
proof (induction names arbitrary: kvs tr)
  case (Cons n names)
  let ?kvs = "filter (\<lambda>kv. fst kv \<noteq> n) kvs"
  obtain tr1 where one: "extract_programmer_param_str True (Some (cjoin (param_segs kvs tr))) n =
      (map_of kvs n, Some (cjoin (param_segs ?kvs tr1)))"
    using extract_one [of kvs n tr] Cons.prems by auto
  obtain tr2 where all: "extract_all names (Some (cjoin (param_segs ?kvs tr1))) =
      (map (map_of ?kvs) names, Some (cjoin (param_segs (filter (\<lambda>kv. fst kv \<notin> set names) ?kvs) tr2)))"
    using Cons.IH [of ?kvs tr1] Cons.prems by (auto simp: distinct_map_filter)
  have "map (map_of ?kvs) names = map (map_of kvs) names"
    using Cons.prems(4) by (auto intro!: map_of_filter_ne)
  moreover have "filter (\<lambda>kv. fst kv \<notin> set names) ?kvs = filter (\<lambda>kv. fst kv \<notin> set (n # names)) kvs"
    by (auto intro: filter_cong simp: conj_commute)
  ultimately show ?case using one all by auto
qed auto

text \<open>A programmer whose init function takes the parameters it knows and then succeeds: the values it gets are
  the ones given, and \<^verbatim>\<open>programmer_init\<close> returns 0 exactly when every parameter that was given is one of the known
  ones; otherwise it aborts with \<^verbatim>\<open>ERROR_FLASHROM_FATAL\<close>.\<close>

theorem unhandled_parameters_abort:
  assumes kvs: "\<forall>kv \<in> set kvs. param_ok kv" "distinct (map fst kvs)" "kvs \<noteq> []"
    and names: "\<forall>n \<in> set names. n \<noteq> [] \<and> comma_free n \<and> CHR ''='' \<notin> set n" "distinct names"
    and init: "pe_init p = Some (\<lambda>params g w. case extract_all names params of (vs, params') \<Rightarrow> Some (0, params', setup vs g, w))"
  shows "\<exists>g' ret. programmer_init True (Some p) (Some (cjoin (map param_seg kvs))) g w = Some (ret, g', w) \<and>
           (\<exists>g0. g' = setup (map (map_of kvs) names) g0) \<and>
           ret = (if fst ` set kvs \<subseteq> set names then 0 else ERROR_FLASHROM_FATAL)"
proof -
  have segs: "map param_seg kvs = param_segs kvs False" using kvs(3) by (simp add: param_segs_def)
  let ?left = "filter (\<lambda>kv. fst kv \<notin> set names) kvs"
  obtain tr' where ex: "extract_all names (Some (cjoin (param_segs kvs False))) =
      (map (map_of kvs) names, Some (cjoin (param_segs ?left tr')))"
    using extract_all_params [OF kvs(1) names(1) kvs(2) names(2)] by blast
  have ne: "cjoin (param_segs ?left tr') = [] \<longleftrightarrow> ?left = []"
  proof (cases ?left)
    case (Cons kv l)
    then show ?thesis by (cases l; cases tr') (simp_all add: param_segs_def param_seg_def)
  qed (simp add: param_segs_def)
  have "?left = [] \<longleftrightarrow> fst ` set kvs \<subseteq> set names" by (auto simp: filter_empty_conv)
  then show ?thesis
    by (simp add: programmer_init_def Let_def init segs ex ne) blast
qed

theorem unhandled_parameters_witness:
  "\<exists>g' ret. programmer_init True (Some \<lparr>pe_name = Some ''dummy'', pe_type = OTHER, pe_note = 1,
       pe_init = Some (\<lambda>params g w. case extract_all [''bus''] params of (vs, params') \<Rightarrow> Some (0, params', g, w))\<rparr>)
     (Some ''bus=spi,size=4'') initial_globals () = Some (ret, g', ()) \<and> ret = ERROR_FLASHROM_FATAL"
proof -
  let ?p = "\<lparr>pe_name = Some ''dummy'', pe_type = OTHER, pe_note = 1,
       pe_init = Some (\<lambda>params g w. case extract_all [''bus''] params of (vs, params') \<Rightarrow> Some (0, params', g, w))\<rparr>"
  have "cjoin (map param_seg [(''bus'', ''spi''), (''size'', ''4'')]) = ''bus=spi,size=4''" by (simp add: param_seg_def)
  with unhandled_parameters_abort [of "[(''bus'', ''spi''), (''size'', ''4'')]" "[''bus'']" ?p "\<lambda>vs g. g" initial_globals "()"]
  show ?thesis by (auto simp: param_ok_def comma_free_def)
qed

end
