(* ===== verification/Probing.thy ===== *)
theory Probing
  imports Programmers Sfdp
begin

text \<open>
  Finding the chip: mapping of the chip into memory, the checks of chip descriptions, and probing
  (\<^verbatim>\<open>map_flash\<close>, \<^verbatim>\<open>unmap_flash\<close>, \<^verbatim>\<open>flashbuses_to_text\<close>, \<^verbatim>\<open>selfcheck\<close>, \<^verbatim>\<open>probe_flash\<close> in \<^verbatim>\<open>flashrom/flashrom.c\<close>,
  \<^verbatim>\<open>flashrom_flash_probe\<close>, \<^verbatim>\<open>flashrom_flash_probe_v2\<close> and the flags in \<^verbatim>\<open>libflashrom.c\<close>).

  Addresses in the memory of the process are numbers below \<open>2 ^ 64\<close>. The callbacks of the master for
  mapping, the probing functions of the chip drivers and the functions that print locks are the parameter
  \<open>probe_env\<close>; they act on the state \<open>'w\<close> of the hardware.
\<close>

section \<open>The context\<close>

definition ERROR_PTR :: nat where "ERROR_PTR = 0xffffffffffffffff"
definition FEATURE_REGISTERMAP :: "32 word" where "FEATURE_REGISTERMAP = 1"

record fctx =
  fx_chip :: "flashchip option"
  fx_mst :: "registered_master option"
  fx_physical_memory :: nat
  fx_virtual_memory :: nat
  fx_physical_registers :: nat
  fx_virtual_registers :: nat
  fx_default_layout :: "layout option"

definition zero_fctx :: fctx where
  "zero_fctx = \<lparr>fx_chip = None, fx_mst = None, fx_physical_memory = 0, fx_virtual_memory = 0, fx_physical_registers = 0,
     fx_virtual_registers = 0, fx_default_layout = None\<rparr>"

text \<open>A probing function takes the context, and may fill in the description of the chip. The last four fields
  say whether the allocation of the chip for the entry with the given index and those of the default layout
  succeed, and which opcodes the master supports.\<close>

record 'w probe_env =
  pv_map :: "nat \<Rightarrow> string option \<Rightarrow> nat \<Rightarrow> nat \<Rightarrow> 'w \<Rightarrow> nat \<times> 'w"
  pv_unmap :: "nat \<Rightarrow> nat \<Rightarrow> nat \<Rightarrow> 'w \<Rightarrow> 'w"
  pv_probe :: "probe_func \<Rightarrow> fctx \<Rightarrow> 'w \<Rightarrow> (int \<times> flashchip \<times> 'w) option"
  pv_printlock :: "fctx \<Rightarrow> 'w \<Rightarrow> 'w"
  pv_calloc :: "nat \<Rightarrow> bool"
  pv_alloc1 :: bool
  pv_alloc2 :: bool
  pv_probe_opcode :: "(u8 \<Rightarrow> bool) option"

section \<open>Mapping\<close>

definition master_map_flash_region ::
    "'w probe_env \<Rightarrow> registered_master \<Rightarrow> string option \<Rightarrow> nat \<Rightarrow> nat \<Rightarrow> 'w \<Rightarrow> nat \<times> 'w" where
  "master_map_flash_region env mst descr phys_addr len w =
     (let f = if has_bus (rm_buses_supported mst) BUS_SPI then sc_map_flash_region (rm_spi mst)
              else if has_bus (rm_buses_supported mst) BUS_NONSPI then pc_map_flash_region (rm_par mst)
              else None
      in case f of None \<Rightarrow> (0, w) | Some fn \<Rightarrow> pv_map env fn descr phys_addr len w)"

definition master_unmap_flash_region :: "'w probe_env \<Rightarrow> registered_master \<Rightarrow> nat \<Rightarrow> nat \<Rightarrow> 'w \<Rightarrow> 'w" where
  "master_unmap_flash_region env mst virt_addr len w =
     (let f = if has_bus (rm_buses_supported mst) BUS_SPI then sc_unmap_flash_region (rm_spi mst)
              else if has_bus (rm_buses_supported mst) BUS_NONSPI then pc_unmap_flash_region (rm_par mst)
              else None
      in case f of None \<Rightarrow> w | Some fn \<Rightarrow> pv_unmap env fn virt_addr len w)"

text \<open>Both functions read the chip and the master of the context.\<close>

definition unmap_flash :: "'w probe_env \<Rightarrow> fctx \<Rightarrow> 'w \<Rightarrow> (fctx \<times> 'w) option" where
  "unmap_flash env fx w =
     (case (fx_chip fx, fx_mst fx) of
        (Some chip, Some mst) \<Rightarrow>
          let size = mul32 (ch_total_size chip) 1024;
              (fx1, w1) = (if fx_virtual_registers fx \<noteq> ERROR_PTR
                           then (fx\<lparr>fx_physical_registers := 0, fx_virtual_registers := ERROR_PTR\<rparr>,
                                 master_unmap_flash_region env mst (fx_virtual_registers fx) size w)
                           else (fx, w))
          in Some (if fx_virtual_memory fx1 \<noteq> ERROR_PTR
                   then (fx1\<lparr>fx_physical_memory := 0, fx_virtual_memory := ERROR_PTR\<rparr>,
                         master_unmap_flash_region env mst (fx_virtual_memory fx1) size w1)
                   else (fx1, w1))
      | _ \<Rightarrow> None)"

definition map_flash :: "'w probe_env \<Rightarrow> nat \<Rightarrow> fctx \<Rightarrow> 'w \<Rightarrow> (int \<times> fctx \<times> 'w) option" where
  "map_flash env flashbase fx w =
     (case (fx_chip fx, fx_mst fx) of
        (Some chip, Some mst) \<Rightarrow>
          let fx0 = fx\<lparr>fx_virtual_memory := ERROR_PTR, fx_virtual_registers := ERROR_PTR\<rparr>
          in if ch_total_size chip = 0 then Some (0, fx0, w)
             else
               let size = mul32 (ch_total_size chip) 1024;
                   base = (if flashbase \<noteq> 0 then flashbase else add32 (sub32 0xffffffff size) 1);
                   (addr, w1) = master_map_flash_region env mst (ch_name chip) base size w
               in if addr = ERROR_PTR then Some (1, fx0, w1)
                  else
                    let fx1 = fx0\<lparr>fx_physical_memory := base, fx_virtual_memory := addr\<rparr>
                    in if ch_feature_bits chip AND FEATURE_REGISTERMAP \<noteq> 0
                       then
                         let base' = add32 (sub32 (sub32 0xffffffff size) 0x400000) 1;
                             (addr', w2) = master_map_flash_region env mst (Some ''flash chip registers'') base' size w1
                         in if addr' = ERROR_PTR then Some (0, fx1, w2)
                            else Some (0, fx1\<lparr>fx_physical_registers := base', fx_virtual_registers := addr'\<rparr>, w2)
                       else Some (0, fx1, w1)
      | _ \<Rightarrow> None)"

section \<open>Bus names\<close>

definition bustypes :: "(bus_mask \<times> string) list" where
  "bustypes = [(BUS_PARALLEL, ''Parallel, ''), (BUS_LPC, ''LPC, ''), (BUS_FWH, ''FWH, ''), (BUS_SPI, ''SPI, ''),
     (BUS_PROG, ''Programmer-specific, '')]"

text \<open>With memory available; \<open>None\<close> is the store before the beginning of an empty string.\<close>

definition flashbuses_to_text :: "bus_mask \<Rightarrow> string option" where
  "flashbuses_to_text bustype =
     (if bustype = BUS_NONSPI then Some ''Non-SPI''
      else if bustype = BUS_NONE then Some ''None''
      else let ret = concat (map snd (filter (\<lambda>bt. has_bus bustype (fst bt)) bustypes))
           in if length ret < 2 then None else Some (take (length ret - 2) ret))"

section \<open>Checks of chip descriptions\<close>

text \<open>The inner loop over the regions of an eraser: \<^verbatim>\<open>ret\<close>, \<^verbatim>\<open>done\<close> and \<^verbatim>\<open>curr_eraseblock_count\<close>.\<close>

fun selfcheck_regions :: "eraseblock list \<Rightarrow> int \<Rightarrow> nat \<Rightarrow> nat \<Rightarrow> int \<times> nat \<times> nat" where
  "selfcheck_regions [] ret dn cnt = (ret, dn, cnt)"
| "selfcheck_regions (b # bs) ret dn cnt =
     selfcheck_regions bs
       (if eb_count b \<noteq> 0 \<and> eb_size b = 0 \<or> eb_count b = 0 \<and> eb_size b \<noteq> 0 then 1 else ret)
       (add32 dn (mul32 (eb_count b) (eb_size b))) (add32 cnt (eb_count b))"

text \<open>The loop over the erasers \<open>k\<close>, for the list of the indices still to do.\<close>

fun selfcheck_erasers :: "flashchip \<Rightarrow> nat list \<Rightarrow> nat \<Rightarrow> int \<Rightarrow> int" where
  "selfcheck_erasers chip [] prev ret = ret"
| "selfcheck_erasers chip (k # ks) prev ret =
     (let eraser = ch_erasers chip ! k;
          (ret1, dn, curr) = selfcheck_regions (be_blocks eraser) ret 0 0
      in if dn = 0 then selfcheck_erasers chip ks prev ret1
         else
           let ret2 = (if dn \<noteq> mul32 (ch_total_size chip) 1024 then 1 else ret1)
           in if be_erase eraser = NO_BLOCK_ERASE_FUNC then selfcheck_erasers chip ks prev ret2
              else
                let ret3 = (if \<exists>j \<in> set [k + 1..<NUM_ERASEFUNCTIONS]. be_erase eraser = be_erase (ch_erasers chip ! j) then 1 else ret2);
                    ret4 = (if curr > prev then 1 else ret3)
                in selfcheck_erasers chip ks curr ret4)"

definition selfcheck_eraseblocks :: "flashchip \<Rightarrow> int" where
  "selfcheck_eraseblocks chip = selfcheck_erasers chip [0..<NUM_ERASEFUNCTIONS] (mul32 (ch_total_size chip) 1024) 0"

definition selfcheck_chip :: "flashchip \<Rightarrow> int" where
  "selfcheck_chip chip =
     (let ret = (if ch_name chip = None then 1 else 0);
          ret1 = (if ch_vendor chip = None then 1 else ret);
          ret2 = (if ch_bustype chip = BUS_NONE then 1 else ret1)
      in if selfcheck_eraseblocks chip \<noteq> 0 then 1 else ret2)"

text \<open>\<^verbatim>\<open>selfcheck\<close> on the tables of programmers and chips; \<open>boards\<close> is the result of \<^verbatim>\<open>selfcheck_board_enables\<close>.\<close>

definition selfcheck_programmer :: "'w programmer_entry option \<Rightarrow> bool" where
  "selfcheck_programmer p =
     (case p of
        None \<Rightarrow> False
      | Some e \<Rightarrow>
          (case pe_name e of
             None \<Rightarrow> False
           | Some nm \<Rightarrow>
               (case pe_type e of
                  OTHER_VALUE \<Rightarrow> False
                | _ \<Rightarrow> pe_note e \<noteq> 0 \<or> nm = ''internal'') \<and>
               pe_init e \<noteq> None))"

definition selfcheck :: "'w programmer_entry option list \<Rightarrow> flashchip list \<Rightarrow> int \<Rightarrow> int" where
  "selfcheck programmer_table flashchips boards =
     (let ret = (if \<forall>p \<in> set programmer_table. selfcheck_programmer p then 0 else 1);
          ret1 = (if length flashchips \<le> 1 \<or> ch_name (last flashchips) \<noteq> None then 1
                  else if \<exists>chip \<in> set (butlast flashchips). selfcheck_chip chip \<noteq> 0 then 1
                  else ret)
      in ret1 OR boards)"

section \<open>Probing\<close>

definition w29ee011_can_override :: "string \<Rightarrow> string option \<Rightarrow> bool" where
  "w29ee011_can_override chip_name override_chip \<longleftrightarrow> override_chip = Some chip_name"

text \<open>\<^verbatim>\<open>count_usable_erasers\<close> reads the chip and the master of the context only.\<close>

definition probe_ctx :: "flashchip \<Rightarrow> registered_master \<Rightarrow> (u8 \<Rightarrow> bool) option \<Rightarrow> unit flashctx" where
  "probe_ctx chip mst opcodes =
     \<lparr>c_chip = chip, c_mst = \<lparr>m_buses_supported = rm_buses_supported mst, m_opaque_get_region = None, m_spi_get_region = None,
        m_spi_probe_opcode = opcodes\<rparr>,
      c_layout = None, c_default_layout = [],
      c_flags = \<lparr>fl_force = False, fl_force_boardmismatch = False, fl_verify_after_write = False, fl_verify_whole_chip = False,
        fl_skip_unreadable_regions = False, fl_skip_unwritable_regions = False\<rparr>,
      c_sacrifice_ratio = 0,
      c_drivers = \<lparr>drv_read = (\<lambda>f a n s. None), drv_write = (\<lambda>f b a n s. None), drv_erase = (\<lambda>f a n s. None)\<rparr>,
      c_malloc = (\<lambda>n. True), c_fresh = (\<lambda>i. 0)\<rparr>"

text \<open>The guards that skip an entry before anything is done for it.\<close>

definition skip_entry :: "registered_master \<Rightarrow> bool \<Rightarrow> string option \<Rightarrow> flashchip \<Rightarrow> bool" where
  "skip_entry mst force chip_to_probe chip \<longleftrightarrow>
     (chip_to_probe \<noteq> None \<and> ch_name chip \<noteq> chip_to_probe) \<or>
     \<not> has_bus (rm_buses_supported mst) (ch_bustype chip) \<or>
     (ch_bustype chip = BUS_SPI \<and> chip_to_probe = None \<and> ch_spi_cmd_set chip \<noteq> SPI25) \<or>
     (ch_probe chip = NO_PROBE_FUNC \<and> \<not> force)"

datatype verdict = Accept | Reject | Broken

text \<open>The part of the loop body between the allocation of the chip and \<^verbatim>\<open>notfound\<close>.\<close>

definition probe_entry ::
    "'w probe_env \<Rightarrow> nat \<Rightarrow> registered_master \<Rightarrow> nat \<Rightarrow> bool \<Rightarrow> string option \<Rightarrow> flashchip \<Rightarrow> fctx \<Rightarrow> 'w \<Rightarrow>
     (verdict \<times> fctx \<times> 'w) option" where
  "probe_entry env flashbase mst startchip force chip_to_probe chip fx w =
     Option.bind (map_flash env flashbase fx w) (\<lambda>(r, fx1, w1).
       if r \<noteq> 0 then Some (Reject, fx1, w1)
       else if force then Some (Accept, fx1, w1)
       else if ch_probe chip = PROBE_W29EE011 \<and> \<not> w29ee011_can_override (the (ch_name chip)) chip_to_probe
       then Some (Reject, fx1, w1)
       else Option.bind (pv_probe env (ch_probe chip) fx1 w1) (\<lambda>(r2, chip2, w2).
         let fx2 = fx1\<lparr>fx_chip := Some chip2\<rparr>
         in if r2 \<noteq> 1 then Some (Reject, fx2, w2)
            else if startchip = 0 \<and> ch_model_id chip2 = SFDP_DEVICE_ID \<and>
                    count_usable_erasers (probe_ctx chip2 mst (pv_probe_opcode env)) \<noteq> 0 \<and> selfcheck_chip chip2 \<noteq> 0
            then Some (Broken, fx2, w2)
            else if startchip = 0 then Some (Accept, fx2, w2)
            else if ch_model_id chip2 \<noteq> GENERIC_DEVICE_ID \<and> ch_model_id chip2 \<noteq> SFDP_DEVICE_ID then Some (Accept, fx2, w2)
            else Some (Reject, fx2, w2)))"

text \<open>How the loop over the table ends: at an entry that is accepted, at the end of the table, or with an
  error. Reading past the table is \<open>None\<close>.\<close>

datatype probe_exit = Found nat | End | Failed

function probe_loop ::
    "'w probe_env \<Rightarrow> nat \<Rightarrow> flashchip list \<Rightarrow> registered_master \<Rightarrow> nat \<Rightarrow> bool \<Rightarrow> string option \<Rightarrow> nat \<Rightarrow> fctx \<Rightarrow> 'w \<Rightarrow>
     (probe_exit \<times> fctx \<times> 'w) option" where
  "probe_loop env flashbase flashchips mst startchip force chip_to_probe i fx w =
     (if i \<ge> length flashchips then None
      else if ch_name (flashchips ! i) = None then Some (End, fx, w)
      else if skip_entry mst force chip_to_probe (flashchips ! i)
      then probe_loop env flashbase flashchips mst startchip force chip_to_probe (Suc i) fx w
      else if \<not> pv_calloc env i then Some (Failed, fx\<lparr>fx_chip := None\<rparr>, w)
      else Option.bind (probe_entry env flashbase mst startchip force chip_to_probe (flashchips ! i)
                          (fx\<lparr>fx_chip := Some (flashchips ! i), fx_mst := Some mst\<rparr>) w) (\<lambda>(v, fx1, w1).
        case v of
          Accept \<Rightarrow> Some (Found i, fx1, w1)
        | Broken \<Rightarrow> Some (Failed, fx1, w1)
        | Reject \<Rightarrow>
            Option.bind (unmap_flash env fx1 w1) (\<lambda>(fx2, w2).
              probe_loop env flashbase flashchips mst startchip force chip_to_probe (Suc i) (fx2\<lparr>fx_chip := None\<rparr>) w2)))"
  by pat_completeness auto
termination
  by (relation "measure (\<lambda>(env, fb, table, mst, st, fc, nm, i, fx, w). length table - i)") auto

declare probe_loop.simps [simp del]

text \<open>The index of the terminator is the value of \<^verbatim>\<open>chip - flashchips\<close> when the loop has run to the end.\<close>

definition table_end :: "flashchip list \<Rightarrow> nat \<Rightarrow> nat" where
  "table_end flashchips start = start + length (takeWhile (\<lambda>chip. ch_name chip \<noteq> None) (drop start flashchips))"

definition probe_flash ::
    "'w probe_env \<Rightarrow> nat \<Rightarrow> flashchip list \<Rightarrow> registered_master \<Rightarrow> nat \<Rightarrow> bool \<Rightarrow> string option \<Rightarrow> fctx \<Rightarrow> 'w \<Rightarrow>
     (int \<times> fctx \<times> 'w) option" where
  "probe_flash env flashbase flashchips mst startchip force chip_to_probe fx w =
     Option.bind (probe_loop env flashbase flashchips mst startchip force chip_to_probe startchip fx w) (\<lambda>(e, fx1, w1).
       if e = Failed then Some (ERROR_FLASHROM_PROBE_INTERNAL_ERROR, fx1, w1)
       else case fx_chip fx1 of
         None \<Rightarrow> Some (ERROR_FLASHROM_PROBE_NO_CHIPS_FOUND, fx1, w1)
       | Some chip \<Rightarrow>
           (case init_default_layout (pv_alloc1 env) (pv_alloc2 env) chip of
              (r, lay) \<Rightarrow>
                let fx2 = fx1\<lparr>fx_default_layout := lay\<rparr>
                in if r < 0 then Some (ERROR_FLASHROM_PROBE_INTERNAL_ERROR, fx2, w1)
                   else Option.bind (flashbuses_to_text (ch_bustype chip)) (\<lambda>_.
                     let w2 = (if force then w1 else pv_printlock env fx2 w1)
                     in Option.bind (unmap_flash env fx2 w2) (\<lambda>(fx3, w3).
                          Some (int (case e of Found i \<Rightarrow> i | _ \<Rightarrow> table_end flashchips startchip), fx3, w3)))))"

section \<open>Probing in libflashrom\<close>

text \<open>\<^verbatim>\<open>flashrom_flash_probe\<close>: the loop over the masters, with the context of the first match, that of
  a second match, and the result so far. A loop that is left early has the Boolean false.\<close>

fun probe_masters ::
    "'w probe_env \<Rightarrow> nat \<Rightarrow> flashchip list \<Rightarrow> string option \<Rightarrow> registered_master list \<Rightarrow> int \<Rightarrow> fctx \<Rightarrow> fctx \<Rightarrow> 'w \<Rightarrow>
     (int \<times> fctx \<times> 'w) option" where
  "probe_masters env flashbase flashchips chip_name [] ret fx sx w = Some (ret, fx, w)"
| "probe_masters env flashbase flashchips chip_name (mst # msts) ret fx sx w =
     Option.bind (if ret = 0 then Some (ERROR_FLASHROM_PROBE_NO_CHIPS_FOUND, fx, w)
                  else probe_flash env flashbase flashchips mst 0 False chip_name fx w) (\<lambda>(flash_idx, fx1, w1).
       if ret \<noteq> 0 \<and> flash_idx = ERROR_FLASHROM_PROBE_NO_CHIPS_FOUND
       then probe_masters env flashbase flashchips chip_name msts ret fx1 sx w1
       else if flash_idx = ERROR_FLASHROM_PROBE_INTERNAL_ERROR then Some (1, fx1, w1)
       else Option.bind (probe_flash env flashbase flashchips mst (nat (flash_idx + 1)) False chip_name sx w1) (\<lambda>(second, sx1, w2).
         if second = ERROR_FLASHROM_PROBE_INTERNAL_ERROR then Some (1, fx1, w2)
         else if second \<noteq> ERROR_FLASHROM_PROBE_NO_CHIPS_FOUND then Some (3, fx1, w2)
         else probe_masters env flashbase flashchips chip_name msts 0 fx1 sx1 w2))"

definition flashrom_flash_probe ::
    "bool \<Rightarrow> 'w probe_env \<Rightarrow> globals \<Rightarrow> flashchip list \<Rightarrow> string option \<Rightarrow> 'w \<Rightarrow> (int \<times> fctx option \<times> 'w) option" where
  "flashrom_flash_probe alloc env g flashchips chip_name w =
     (if \<not> alloc then Some (1, None, w)
      else map_option (\<lambda>(ret, fx, w'). (ret, if ret \<noteq> 0 then None else Some fx, w'))
             (probe_masters env (g_flashbase g) flashchips chip_name (g_registered_masters g) 2 zero_fctx zero_fctx w))"

text \<open>The inner loop of \<^verbatim>\<open>flashrom_flash_probe_v2\<close> for one master: the result is the last value of \<^verbatim>\<open>startchip\<close>, the
  names found so far and the context of the first match.\<close>

function probe_v2_master ::
    "'w probe_env \<Rightarrow> nat \<Rightarrow> flashchip list \<Rightarrow> string option \<Rightarrow> registered_master \<Rightarrow> nat \<Rightarrow> string option list \<Rightarrow> fctx \<Rightarrow> 'w \<Rightarrow>
     (int \<times> string option list \<times> fctx \<times> 'w) option" where
  "probe_v2_master env flashbase flashchips chip_name mst startchip names fx w =
     (if length names < length flashchips
      then Option.bind (probe_flash env flashbase flashchips mst startchip False chip_name
                          (if names \<noteq> [] then zero_fctx else fx) w) (\<lambda>(idx, cx, w1).
             let fx1 = (if names \<noteq> [] then fx else cx)
             in if idx < 0 then Some (idx, names, fx1, w1)
                else case fx_chip cx of
                       None \<Rightarrow> None
                     | Some chip \<Rightarrow> probe_v2_master env flashbase flashchips chip_name mst (nat idx + 1) (names @ [ch_name chip]) fx1 w1)
      else Some (int startchip, names, fx, w))"
  by pat_completeness auto
termination
  by (relation "measure (\<lambda>(env, fb, table, nm, mst, st, names, fx, w). length table - length names)") auto

declare probe_v2_master.simps [simp del]

fun probe_v2_masters ::
    "'w probe_env \<Rightarrow> nat \<Rightarrow> flashchip list \<Rightarrow> string option \<Rightarrow> registered_master list \<Rightarrow> int \<Rightarrow> string option list \<Rightarrow> fctx \<Rightarrow> 'w \<Rightarrow>
     (int \<times> string option list \<times> fctx \<times> 'w) option" where
  "probe_v2_masters env flashbase flashchips chip_name [] startchip names fx w = Some (startchip, names, fx, w)"
| "probe_v2_masters env flashbase flashchips chip_name (mst # msts) startchip names fx w =
     Option.bind (probe_v2_master env flashbase flashchips chip_name mst 0 names fx w) (\<lambda>(startchip', names', fx', w').
       probe_v2_masters env flashbase flashchips chip_name msts startchip' names' fx' w')"

text \<open>The results of \<^verbatim>\<open>calloc\<close> and \<^verbatim>\<open>realloc\<close> are used without a check; \<open>alloc\<close> says that they succeed.\<close>

definition flashrom_flash_probe_v2 ::
    "bool \<Rightarrow> 'w probe_env \<Rightarrow> globals \<Rightarrow> flashchip list \<Rightarrow> string option \<Rightarrow> fctx \<Rightarrow> 'w \<Rightarrow>
     (int \<times> string option list \<times> fctx \<times> 'w) option" where
  "flashrom_flash_probe_v2 alloc env g flashchips chip_name fx w =
     (if \<not> alloc then None
      else map_option (\<lambda>(startchip, names, fx', w').
               (if startchip = ERROR_FLASHROM_PROBE_INTERNAL_ERROR then -1 else int (length names), names, fx', w'))
             (probe_v2_masters env (g_flashbase g) flashchips chip_name (g_registered_masters g) 0 [] fx w))"

section \<open>Flags\<close>

datatype flashrom_flag = FLASHROM_FLAG_FORCE | FLASHROM_FLAG_FORCE_BOARDMISMATCH | FLASHROM_FLAG_VERIFY_AFTER_WRITE
  | FLASHROM_FLAG_VERIFY_WHOLE_CHIP | FLASHROM_FLAG_SKIP_UNREADABLE_REGIONS | FLASHROM_FLAG_SKIP_UNWRITABLE_REGIONS

fun flashrom_flag_set :: "'s flashctx \<Rightarrow> flashrom_flag \<Rightarrow> bool \<Rightarrow> 's flashctx" where
  "flashrom_flag_set c FLASHROM_FLAG_FORCE v = c\<lparr>c_flags := (c_flags c)\<lparr>fl_force := v\<rparr>\<rparr>"
| "flashrom_flag_set c FLASHROM_FLAG_FORCE_BOARDMISMATCH v = c\<lparr>c_flags := (c_flags c)\<lparr>fl_force_boardmismatch := v\<rparr>\<rparr>"
| "flashrom_flag_set c FLASHROM_FLAG_VERIFY_AFTER_WRITE v = c\<lparr>c_flags := (c_flags c)\<lparr>fl_verify_after_write := v\<rparr>\<rparr>"
| "flashrom_flag_set c FLASHROM_FLAG_VERIFY_WHOLE_CHIP v = c\<lparr>c_flags := (c_flags c)\<lparr>fl_verify_whole_chip := v\<rparr>\<rparr>"
| "flashrom_flag_set c FLASHROM_FLAG_SKIP_UNREADABLE_REGIONS v = c\<lparr>c_flags := (c_flags c)\<lparr>fl_skip_unreadable_regions := v\<rparr>\<rparr>"
| "flashrom_flag_set c FLASHROM_FLAG_SKIP_UNWRITABLE_REGIONS v = c\<lparr>c_flags := (c_flags c)\<lparr>fl_skip_unwritable_regions := v\<rparr>\<rparr>"

fun flashrom_flag_get :: "'s flashctx \<Rightarrow> flashrom_flag \<Rightarrow> bool" where
  "flashrom_flag_get c FLASHROM_FLAG_FORCE = fl_force (c_flags c)"
| "flashrom_flag_get c FLASHROM_FLAG_FORCE_BOARDMISMATCH = fl_force_boardmismatch (c_flags c)"
| "flashrom_flag_get c FLASHROM_FLAG_VERIFY_AFTER_WRITE = fl_verify_after_write (c_flags c)"
| "flashrom_flag_get c FLASHROM_FLAG_VERIFY_WHOLE_CHIP = fl_verify_whole_chip (c_flags c)"
| "flashrom_flag_get c FLASHROM_FLAG_SKIP_UNREADABLE_REGIONS = fl_skip_unreadable_regions (c_flags c)"
| "flashrom_flag_get c FLASHROM_FLAG_SKIP_UNWRITABLE_REGIONS = fl_skip_unwritable_regions (c_flags c)"

lemma flag_get_set: "flashrom_flag_get (flashrom_flag_set c f v) g = (if f = g then v else flashrom_flag_get c g)"
  by (cases f; cases g) simp_all

end
