(* ===== verification/ProbingOk.thy ===== *)
theory ProbingOk
  imports Probing W25Image
begin

text \<open>
  What the checks of chip descriptions and the probing of \<open>Probing\<close> guarantee: the erase functions of
  a chip that passes the self check cover the chip, and probing finds the first match of the
  table, also on the emulated W25Q128FV.
\<close>

section \<open>The self check\<close>

lemma selfcheck_regions_eq:
  "selfcheck_regions bs ret dn cnt =
     (if \<exists>b \<in> set bs. (eb_count b = 0) \<noteq> (eb_size b = 0) then 1 else ret,
      foldl (\<lambda>a b. add32 a (mul32 (eb_count b) (eb_size b))) dn bs, foldl (\<lambda>a b. add32 a (eb_count b)) cnt bs)"
  by (induction bs arbitrary: ret dn cnt) auto

definition region_bytes :: "eraseblock list \<Rightarrow> nat" where
  "region_bytes bs = sum_list (map (\<lambda>b. eb_count b * eb_size b) bs)"

lemma region_bytes_sizes: "region_bytes (be_blocks e) = sum_list (eraser_sizes e)"
proof -
  have "sum_list (concat (map (\<lambda>b. replicate (eb_count b) (eb_size b)) bs)) = region_bytes bs" for bs
    by (induction bs) (auto simp: sum_list_replicate region_bytes_def)
  then show ?thesis by (simp add: eraser_sizes_def)
qed

lemma fold_bytes:
  "dn + region_bytes bs < 4294967296 \<Longrightarrow>
     foldl (\<lambda>a b. add32 a (mul32 (eb_count b) (eb_size b))) dn bs = dn + region_bytes bs"
  by (induction bs arbitrary: dn) (auto simp: region_bytes_def c_simps)

lemma selfcheck_step: "\<exists>p r. selfcheck_erasers chip (k # ks) prev ret = selfcheck_erasers chip ks p r"
proof -
  obtain a b d where eq: "selfcheck_regions (be_blocks (ch_erasers chip ! k)) ret 0 0 = (a, b, d)" by (rule prod_cases3)
  show ?thesis
  proof (cases "b = 0")
    case True
    then show ?thesis by (simp only: selfcheck_erasers.simps Let_def eq prod.case if_True simp_thms) blast
  next
    case False
    then show ?thesis
      by (cases "be_erase (ch_erasers chip ! k) = NO_BLOCK_ERASE_FUNC")
        (simp only: selfcheck_erasers.simps Let_def eq prod.case if_True if_False simp_thms, blast)+
  qed
qed

lemma selfcheck_mono: "selfcheck_erasers chip ks prev ret = 0 \<Longrightarrow> ret = 0"
proof (induction ks arbitrary: prev ret)
  case (Cons k ks)
  from Cons.prems show ?case
    by (auto simp: selfcheck_regions_eq Let_def split: if_splits dest!: Cons.IH)
qed simp

text \<open>What one round of the loop establishes when the final result is 0.\<close>

definition eraser_checked :: "flashchip \<Rightarrow> nat \<Rightarrow> bool" where
  "eraser_checked chip k \<longleftrightarrow>
     (let e = ch_erasers chip ! k; dn = foldl (\<lambda>a b. add32 a (mul32 (eb_count b) (eb_size b))) 0 (be_blocks e)
      in (\<forall>b \<in> set (be_blocks e). (eb_count b = 0) = (eb_size b = 0)) \<and>
         (dn \<noteq> 0 \<longrightarrow> dn = mul32 (ch_total_size chip) 1024 \<and>
           (be_erase e \<noteq> NO_BLOCK_ERASE_FUNC \<longrightarrow> (\<forall>j \<in> {k + 1..<NUM_ERASEFUNCTIONS}. be_erase e \<noteq> be_erase (ch_erasers chip ! j)))))"

lemma selfcheck_erasers_checked:
  "selfcheck_erasers chip ks prev 0 = 0 \<Longrightarrow> k \<in> set ks \<Longrightarrow> eraser_checked chip k"
proof (induction ks arbitrary: prev)
  case (Cons i ks)
  let ?e = "ch_erasers chip ! i"
  have r: "\<forall>b \<in> set (be_blocks ?e). (eb_count b = 0) = (eb_size b = 0)"
  proof (rule ccontr)
    assume "\<not> ?thesis"
    then have "\<exists>b \<in> set (be_blocks ?e). (eb_count b = 0) \<noteq> (eb_size b = 0)" by auto
    then have "fst (selfcheck_regions (be_blocks ?e) 0 0 0) = 1" by (simp add: selfcheck_regions_eq)
    with Cons.prems(1) show False
      by (auto simp: Let_def split: prod.splits if_splits dest!: selfcheck_mono)
  qed
  then have s: "selfcheck_regions (be_blocks ?e) 0 0 0 =
     (0, foldl (\<lambda>a b. add32 a (mul32 (eb_count b) (eb_size b))) 0 (be_blocks ?e), foldl (\<lambda>a b. add32 a (eb_count b)) 0 (be_blocks ?e))"
    by (auto simp: selfcheck_regions_eq)
  have "eraser_checked chip i"
    using Cons.prems(1) r by (auto simp: s eraser_checked_def Let_def split: if_splits dest!: selfcheck_mono)
  moreover have "\<exists>prev'. selfcheck_erasers chip ks prev' 0 = 0"
    using selfcheck_step [of chip i ks prev 0] Cons.prems(1) by (metis selfcheck_mono)
  ultimately show ?case using Cons by auto
qed simp

text \<open>C32: A chip that passes \<^verbatim>\<open>selfcheck_chip\<close>, and whose tables do not add up to 4 GiB: every usable erase function covers
  the chip exactly, with blocks that are not empty, and no two usable functions are the same. These
  are the requirements of the erase planning, except that the blocks must also nest.\<close>

theorem selfcheck_chip_sound:
  assumes ok: "selfcheck_chip (c_chip c) = 0" and n: "n = ch_total_size (c_chip c) * 1024" "n < 4294967296"
    and tabs: "\<forall>e \<in> set (ch_erasers (c_chip c)). length (be_blocks e) = NUM_ERASEREGIONS \<and> sum_list (eraser_sizes e) < 4294967296"
    and len: "length (ch_erasers (c_chip c)) = NUM_ERASEFUNCTIONS"
  shows "(\<forall>e \<in> set (usable_erasers c). eraser_ok n e) \<and> distinct (map be_erase (usable_erasers c)) \<and>
    (nested_erasers (usable_erasers c) \<longrightarrow> geometry_ok n (usable_erasers c))"
proof -
  let ?chip = "c_chip c" and ?us = "filter (\<lambda>k. check_block_eraser c k = 0) [0..<NUM_ERASEFUNCTIONS]"
  have checked: "eraser_checked ?chip k" if "k < NUM_ERASEFUNCTIONS" for k
    using ok that selfcheck_erasers_checked [of ?chip "[0..<NUM_ERASEFUNCTIONS]"]
    by (auto simp: selfcheck_chip_def selfcheck_eraseblocks_def Let_def split: if_splits)
  have use: "be_erase (ch_erasers ?chip ! k) \<noteq> NO_BLOCK_ERASE_FUNC \<and> eb_count (be_blocks (ch_erasers ?chip ! k) ! 0) \<noteq> 0" if "k \<in> set ?us" for k
    using that by (auto simp: check_block_eraser_def Let_def split: if_splits)
  have total: "sum_list (eraser_sizes (ch_erasers ?chip ! k)) = n \<and>
      (\<forall>b \<in> set (be_blocks (ch_erasers ?chip ! k)). (eb_count b = 0) = (eb_size b = 0)) \<and>
      (\<forall>j \<in> {k + 1..<NUM_ERASEFUNCTIONS}. be_erase (ch_erasers ?chip ! k) \<noteq> be_erase (ch_erasers ?chip ! j))" if k: "k \<in> set ?us" for k
  proof -
    let ?e = "ch_erasers ?chip ! k"
    have e: "?e \<in> set (ch_erasers ?chip)" using k len by simp
    have dn: "foldl (\<lambda>a b. add32 a (mul32 (eb_count b) (eb_size b))) 0 (be_blocks ?e) = sum_list (eraser_sizes ?e)"
      using fold_bytes [of 0 "be_blocks ?e"] tabs e by (simp add: region_bytes_sizes)
    have ck: "eraser_checked ?chip k" using k by (intro checked) simp
    have b0: "be_blocks ?e ! 0 \<in> set (be_blocks ?e)" using tabs e by (auto simp: NUM_ERASEREGIONS_def)
    then have "eb_size (be_blocks ?e ! 0) \<noteq> 0" using ck use [OF k] by (auto simp: eraser_checked_def Let_def)
    then have "eb_count (be_blocks ?e ! 0) * eb_size (be_blocks ?e ! 0) \<noteq> 0" using use [OF k] by simp
    then have "region_bytes (be_blocks ?e) \<noteq> 0" unfolding region_bytes_def sum_list_eq_0_iff using b0 by auto
    then have "sum_list (eraser_sizes ?e) \<noteq> 0" by (simp add: region_bytes_sizes)
    then show ?thesis using ck use [OF k] n by (auto simp: eraser_checked_def Let_def dn c_simps)
  qed
  have all: "\<forall>e \<in> set (usable_erasers c). eraser_ok n e"
    using total by (fastforce simp: usable_erasers_def eraser_ok_def)
  have "inj_on (\<lambda>k. be_erase (ch_erasers ?chip ! k)) (set ?us)"
  proof (rule linorder_inj_onI)
    fix i j assume "i < j" "i \<in> set ?us" "j \<in> set ?us"
    then show "be_erase (ch_erasers ?chip ! i) \<noteq> be_erase (ch_erasers ?chip ! j)" using total [of i] by auto
  qed auto
  then have "distinct (map be_erase (usable_erasers c))" by (simp add: usable_erasers_def distinct_map comp_def)
  with all show ?thesis by (simp add: geometry_ok_def)
qed

theorem selfcheck_chip_witness:
  "list_all (eraser_ok 16777216) (usable_erasers (w25_ctx w25_data None sample_flags 0 (\<lambda>i. 0))) \<and>
   distinct (map be_erase (usable_erasers (w25_ctx w25_data None sample_flags 0 (\<lambda>i. 0))))"
proof -
  let ?c = "w25_ctx w25_data None sample_flags 0 (\<lambda>i. 0)"
  have ers: "ch_erasers w25q128_chip = [uniform_eraser 4096 4096 SPI_BLOCK_ERASE_20, uniform_eraser 32768 512 SPI_BLOCK_ERASE_52,
      uniform_eraser 65536 256 SPI_BLOCK_ERASE_D8, uniform_eraser 16777216 1 SPI_BLOCK_ERASE_60, uniform_eraser 16777216 1 SPI_BLOCK_ERASE_C7,
      no_eraser, no_eraser, no_eraser]" by (simp add: w25q128_chip_def)
  have tot: "mul32 (ch_total_size w25q128_chip) 1024 = 16777216" by (simp add: w25q128_chip_def mul32_def)
  have rep4: "replicate (NUM_ERASEREGIONS - Suc 0) x = [x, x, x, x]" and rep5: "replicate NUM_ERASEREGIONS x = [x, x, x, x, x]" for x :: eraseblock
    by (simp_all add: NUM_ERASEREGIONS_def numeral_eq_Suc)
  have reg: "selfcheck_regions (be_blocks (uniform_eraser sz count f)) 0 0 0 = (0, sz * count, count)"
    if "0 < sz" "0 < count" "sz * count < 4294967296" "count < 4294967296" for sz count f
    using that by (simp add: uniform_eraser_def rep4 add32_def mul32_def mult.commute)
  have reg0: "selfcheck_regions (be_blocks no_eraser) 0 0 0 = (0, 0, 0)"
    by (simp add: no_eraser_def rep5 add32_def mul32_def)
  have be: "be_erase (uniform_eraser sz count f) = f" for sz count f by (simp add: uniform_eraser_def)
  have "selfcheck_eraseblocks w25q128_chip = 0"
    by (simp add: selfcheck_eraseblocks_def NUM_ERASEFUNCTIONS_def upt_rec ers tot reg reg0 be Let_def del: set_upt)
  then have "selfcheck_chip (c_chip ?c) = 0"
    by (simp add: selfcheck_chip_def Let_def w25_ctx_simps w25q128_chip_def bus_defs)
  moreover have "\<forall>e \<in> set (ch_erasers (c_chip ?c)). length (be_blocks e) = NUM_ERASEREGIONS \<and> sum_list (eraser_sizes e) < 4294967296"
    by (simp add: w25_ctx_simps ers region_bytes_sizes [symmetric])
      (simp add: uniform_eraser_def no_eraser_def NUM_ERASEREGIONS_def region_bytes_def sum_list_replicate)
  ultimately show ?thesis
    using selfcheck_chip_sound [of ?c 16777216] by (simp add: w25_ctx_simps ers NUM_ERASEFUNCTIONS_def list_all_iff) (simp add: w25q128_chip_def)
qed

section \<open>Probing finds the first match\<close>

lemma init_default_layout_alloc: "\<exists>l. init_default_layout True True chip = (0, Some l)"
  by (simp add: init_default_layout_def flashrom_layout_new_def flashrom_layout_add_region_def
      flashrom_layout_include_region_def include_region_def split: option.splits)

text \<open>The entries that match, when probing starts at \<open>startchip\<close> and \<open>ident\<close> gives the answers of the hardware: generic
  matches count only from the start of the table.\<close>

definition generic_chip :: "flashchip \<Rightarrow> bool" where
  "generic_chip chip \<longleftrightarrow> ch_model_id chip = GENERIC_DEVICE_ID \<or> ch_model_id chip = SFDP_DEVICE_ID"

definition entry_matches ::
    "flashchip list \<Rightarrow> registered_master \<Rightarrow> string option \<Rightarrow> (flashchip \<Rightarrow> int \<times> flashchip) \<Rightarrow> nat \<Rightarrow> nat \<Rightarrow> bool" where
  "entry_matches flashchips mst chip_name ident startchip i \<longleftrightarrow>
     (let chip = flashchips ! i
      in \<not> skip_entry mst False chip_name chip \<and> (ch_probe chip = PROBE_W29EE011 \<longrightarrow> ch_name chip = chip_name) \<and>
         fst (ident chip) = 1 \<and> (startchip = 0 \<or> \<not> generic_chip (snd (ident chip))))"

text \<open>Hardware whose state stays in \<open>I\<close> while it is probed: the answer to the probe of an entry depends on the
  entry alone, mapping succeeds, and there is memory. The table ends with an entry without a name and the
  entries found have a known bus.\<close>

locale steady_probe =
  fixes env :: "'w probe_env" and flashbase :: nat and flashchips :: "flashchip list" and mst :: registered_master
    and chip_name :: "string option" and I :: "'w \<Rightarrow> bool" and ident :: "flashchip \<Rightarrow> int \<times> flashchip"
  assumes base: "flashbase < 2 ^ 64" and table: "flashchips \<noteq> []" "ch_name (last flashchips) = None" "\<And>chip. chip \<in> set (butlast flashchips) \<Longrightarrow> ch_name chip \<noteq> None"
    and alloc: "\<And>i. pv_calloc env i" "pv_alloc1 env" "pv_alloc2 env"
    and map_law: "\<And>f d b n w. I w \<Longrightarrow> I (snd (pv_map env f d b n w)) \<and> fst (pv_map env f d b n w) \<noteq> ERROR_PTR"
    and unmap_law: "\<And>f a n w. I w \<Longrightarrow> I (pv_unmap env f a n w)"
    and printlock_law: "\<And>fx w. I w \<Longrightarrow> I (pv_printlock env fx w)"
    and probe_law: "\<And>chip fx w. chip \<in> set flashchips \<Longrightarrow> \<not> skip_entry mst False chip_name chip \<Longrightarrow> I w \<Longrightarrow> fx_chip fx = Some chip \<Longrightarrow>
      \<exists>w'. pv_probe env (ch_probe chip) fx w = Some (fst (ident chip), snd (ident chip), w') \<and> I w'"
    and bus_law: "\<And>chip. chip \<in> set flashchips \<Longrightarrow> flashbuses_to_text (ch_bustype (snd (ident chip))) \<noteq> None"
    and sfdp_law: "\<And>chip. chip \<in> set flashchips \<Longrightarrow> fst (ident chip) = 1 \<Longrightarrow> ch_model_id (snd (ident chip)) = SFDP_DEVICE_ID \<Longrightarrow>
      selfcheck_chip (snd (ident chip)) = 0"
begin

abbreviation matches :: "nat \<Rightarrow> nat \<Rightarrow> bool" where
  "matches \<equiv> entry_matches flashchips mst chip_name ident"

lemma map_flash_steady:
  assumes "I w" and "fx_chip fx = Some chip" and "fx_mst fx = Some m"
  shows "\<exists>fx' w'. map_flash env flashbase fx w = Some (0, fx', w') \<and> I w' \<and> fx_chip fx' = Some chip \<and> fx_mst fx' = Some m"
proof -
  have m: "I (snd (master_map_flash_region env m d b n w)) \<and> fst (master_map_flash_region env m d b n w) \<noteq> ERROR_PTR" if "I w" for d b n w
    using that map_law by (auto simp: master_map_flash_region_def Let_def ERROR_PTR_def split: option.splits)
  show ?thesis
    using assms m by (auto simp: map_flash_def Let_def case_prod_unfold)
qed

lemma unmap_flash_steady:
  assumes "I w" and "fx_chip fx = Some chip" and "fx_mst fx = Some m"
  shows "\<exists>fx' w'. unmap_flash env fx w = Some (fx', w') \<and> I w' \<and> fx_chip fx' = Some chip \<and> fx_default_layout fx' = fx_default_layout fx \<and>
    fx_virtual_memory fx' = ERROR_PTR \<and> fx_virtual_registers fx' = ERROR_PTR"
proof -
  have "I (master_unmap_flash_region env m a n w)" if "I w" for a n w
    using that unmap_law by (auto simp: master_unmap_flash_region_def Let_def split: option.splits)
  then show ?thesis using assms by (auto simp: unmap_flash_def Let_def)
qed

lemma probe_entry_steady:
  assumes w: "I w" and i: "i < length flashchips - 1" and go: "\<not> skip_entry mst False chip_name (flashchips ! i)"
  shows "\<exists>fx' w'. probe_entry env flashbase mst startchip False chip_name (flashchips ! i)
      (fx\<lparr>fx_chip := Some (flashchips ! i), fx_mst := Some mst\<rparr>) w = Some (if matches startchip i then Accept else Reject, fx', w') \<and>
    I w' \<and> fx_mst fx' = Some mst \<and> (\<exists>c. fx_chip fx' = Some c \<and> (matches startchip i \<longrightarrow> c = snd (ident (flashchips ! i))))"
proof -
  let ?chip = "flashchips ! i"
  have mem: "?chip \<in> set flashchips" using i by simp
  have "?chip \<in> set (butlast flashchips)" using i by (metis length_butlast nth_butlast nth_mem)
  then obtain nm where nm: "ch_name ?chip = Some nm" using table(3) by blast
  obtain fx1 w1 where m: "map_flash env flashbase (fx\<lparr>fx_chip := Some ?chip, fx_mst := Some mst\<rparr>) w = Some (0, fx1, w1)"
    "I w1" "fx_chip fx1 = Some ?chip" "fx_mst fx1 = Some mst"
    using map_flash_steady [OF w, of "fx\<lparr>fx_chip := Some ?chip, fx_mst := Some mst\<rparr>" ?chip mst] by auto
  obtain w2 where p: "pv_probe env (ch_probe ?chip) fx1 w1 = Some (fst (ident ?chip), snd (ident ?chip), w2)" "I w2"
    using probe_law [OF mem go m(2,3)] by blast
  show ?thesis
  proof (cases "ch_probe ?chip = PROBE_W29EE011 \<and> chip_name \<noteq> Some nm")
    case True
    then show ?thesis using m by (auto simp: probe_entry_def w29ee011_can_override_def nm entry_matches_def)
  next
    case False
    then show ?thesis using m p go sfdp_law [OF mem]
      by (auto simp: probe_entry_def w29ee011_can_override_def nm entry_matches_def generic_chip_def Let_def)
  qed
qed

lemma probe_loop_steady:
  assumes "I w" and "fx_chip fx = None" and "i \<le> length flashchips - 1"
  shows "\<exists>fx' w'. probe_loop env flashbase flashchips mst startchip False chip_name i fx w =
      Some (case find (matches startchip) [i..<length flashchips - 1] of None \<Rightarrow> End | Some j \<Rightarrow> Found j, fx', w') \<and> I w' \<and>
    fx_chip fx' = map_option (\<lambda>j. snd (ident (flashchips ! j))) (find (matches startchip) [i..<length flashchips - 1]) \<and>
    (fx_chip fx' \<noteq> None \<longrightarrow> fx_mst fx' = Some mst)"
  using assms
proof (induction "length flashchips - 1 - i" arbitrary: i fx w)
  case 0
  then have i: "i = length flashchips - 1" by simp
  then have "flashchips ! i = last flashchips" using table(1) by (simp add: last_conv_nth)
  moreover have "i < length flashchips" using i table(1) by (cases flashchips) auto
  ultimately show ?case using 0 table(2) i by (subst probe_loop.simps) (simp add: not_le [symmetric])
next
  case (Suc k)
  then have i: "i < length flashchips - 1" by simp
  have "flashchips ! i \<in> set (butlast flashchips)" using i by (metis length_butlast nth_butlast nth_mem)
  then have nm: "ch_name (flashchips ! i) \<noteq> None" using table(3) by blast
  let ?N = "length flashchips - 1"
  have fnd: "find (matches startchip) [i..<?N] = (if matches startchip i then Some i else find (matches startchip) [Suc i..<?N])"
    using i by (simp add: upt_conv_Cons)
  have lt: "\<not> length flashchips \<le> i" using i by simp
  have next_i: "k = length flashchips - 1 - Suc i" "Suc i \<le> length flashchips - 1" using Suc(2) i by simp_all
  show ?case
  proof (cases "skip_entry mst False chip_name (flashchips ! i)")
    case True
    then have "\<not> matches startchip i" by (simp add: entry_matches_def Let_def)
    moreover have "probe_loop env flashbase flashchips mst startchip False chip_name i fx w =
        probe_loop env flashbase flashchips mst startchip False chip_name (Suc i) fx w"
      by (subst probe_loop.simps) (simp only: lt nm True if_True if_False)
    ultimately show ?thesis using Suc(1) [OF next_i(1) Suc(3,4) next_i(2)] by (simp only: fnd if_False)
  next
    case False
    obtain fx1 w1 where e: "probe_entry env flashbase mst startchip False chip_name (flashchips ! i)
        (fx\<lparr>fx_chip := Some (flashchips ! i), fx_mst := Some mst\<rparr>) w = Some (if matches startchip i then Accept else Reject, fx1, w1)"
      "I w1" "fx_mst fx1 = Some mst" "\<exists>c. fx_chip fx1 = Some c \<and> (matches startchip i \<longrightarrow> c = snd (ident (flashchips ! i)))"
      using probe_entry_steady [OF Suc(3) i False] by blast
    show ?thesis
    proof (cases "matches startchip i")
      case True
      then have "probe_loop env flashbase flashchips mst startchip False chip_name i fx w = Some (Found i, fx1, w1)"
        using e(1) by (subst probe_loop.simps) (simp add: lt nm False alloc)
      then show ?thesis using True e by (simp only: fnd if_True option.case) auto
    next
      case no: False
      obtain c where c: "fx_chip fx1 = Some c" using e(4) by blast
      obtain fx2 w2 where u: "unmap_flash env fx1 w1 = Some (fx2, w2)" "I w2" using unmap_flash_steady [OF e(2) c e(3)] by blast
      have "probe_loop env flashbase flashchips mst startchip False chip_name i fx w =
          probe_loop env flashbase flashchips mst startchip False chip_name (Suc i) (fx2\<lparr>fx_chip := None\<rparr>) w2"
        using e(1) u no by (subst probe_loop.simps) (simp add: lt nm False alloc)
      moreover have "fx_chip (fx2\<lparr>fx_chip := None\<rparr>) = None" by simp
      ultimately show ?thesis
        using Suc(1) [OF next_i(1) u(2) _ next_i(2)] no by (simp only: fnd if_False)
    qed
  qed
qed

lemma probe_flash_steady:
  assumes w: "I w" and none: "fx_chip fx = None" and st: "startchip \<le> length flashchips - 1"
  shows "\<exists>fx' w'. probe_flash env flashbase flashchips mst startchip False chip_name fx w =
      Some (case find (matches startchip) [startchip..<length flashchips - 1] of
              None \<Rightarrow> ERROR_FLASHROM_PROBE_NO_CHIPS_FOUND | Some i \<Rightarrow> int i, fx', w') \<and> I w' \<and>
    (case find (matches startchip) [startchip..<length flashchips - 1] of
       None \<Rightarrow> fx_chip fx' = None
     | Some i \<Rightarrow> fx_chip fx' = Some (snd (ident (flashchips ! i))) \<and> fx_virtual_memory fx' = ERROR_PTR \<and>
         fx_virtual_registers fx' = ERROR_PTR \<and> fx_default_layout fx' = snd (init_default_layout True True (snd (ident (flashchips ! i)))))"
proof -
  let ?found = "find (matches startchip) [startchip..<length flashchips - 1]"
  obtain fx1 w1 where l: "probe_loop env flashbase flashchips mst startchip False chip_name startchip fx w =
      Some (case ?found of None \<Rightarrow> End | Some j \<Rightarrow> Found j, fx1, w1)" "I w1"
    "fx_chip fx1 = map_option (\<lambda>j. snd (ident (flashchips ! j))) ?found" "fx_chip fx1 \<noteq> None \<longrightarrow> fx_mst fx1 = Some mst"
    using probe_loop_steady [OF w none st] by blast
  show ?thesis
  proof (cases ?found)
    case None
    then have "probe_flash env flashbase flashchips mst startchip False chip_name fx w =
        Some (ERROR_FLASHROM_PROBE_NO_CHIPS_FOUND, fx1, w1)"
      using l(1,3) by (simp add: probe_flash_def)
    then show ?thesis using None l(2,3) by simp
  next
    case (Some i)
    let ?chip = "snd (ident (flashchips ! i))"
    have i: "i < length flashchips - 1"
      using Some by (metis (no_types, lifting) atLeastLessThan_iff find_Some_iff nth_mem set_upt)
    then have mem: "flashchips ! i \<in> set flashchips" by simp
    have c: "fx_chip fx1 = Some ?chip" "fx_mst fx1 = Some mst" using l(3,4) Some by simp_all
    obtain t where t: "flashbuses_to_text (ch_bustype ?chip) = Some t" using bus_law [OF mem] by blast
    obtain lay where lay: "init_default_layout True True ?chip = (0, Some lay)" using init_default_layout_alloc by blast
    let ?fx = "fx1\<lparr>fx_default_layout := Some lay\<rparr>"
    obtain fx3 w3 where u: "unmap_flash env ?fx (pv_printlock env ?fx w1) = Some (fx3, w3)" "I w3" "fx_chip fx3 = Some ?chip"
      "fx_default_layout fx3 = Some lay" "fx_virtual_memory fx3 = ERROR_PTR" "fx_virtual_registers fx3 = ERROR_PTR"
      using unmap_flash_steady [of "pv_printlock env ?fx w1" ?fx ?chip mst] printlock_law [OF l(2)] c by auto
    have "probe_flash env flashbase flashchips mst startchip False chip_name fx w = Some (int i, fx3, w3)"
      using l(1) Some c(1) t lay u(1) alloc(2,3) by (simp add: probe_flash_def Let_def)
    then show ?thesis using Some u lay by simp
  qed
qed

end

text \<open>The indices of all matches of the table: the first one, and the later ones that are not generic.\<close>

definition all_matches :: "flashchip list \<Rightarrow> registered_master \<Rightarrow> string option \<Rightarrow> (flashchip \<Rightarrow> int \<times> flashchip) \<Rightarrow> nat list" where
  "all_matches flashchips mst chip_name ident =
     (case find (entry_matches flashchips mst chip_name ident 0) [0..<length flashchips - 1] of
        None \<Rightarrow> []
      | Some i \<Rightarrow> i # filter (entry_matches flashchips mst chip_name ident 1) [Suc i..<length flashchips - 1])"

lemma entry_matches_Suc: "entry_matches t m nm ident (Suc k) = entry_matches t m nm ident 1"
  by (rule ext) (simp add: entry_matches_def)

lemma find_upt: 
  assumes "find P [a..<b] = Some i"
  shows "a \<le> i \<and> i < b \<and> filter P [a..<b] = i # filter P [Suc i..<b]"
  using assms
proof (induction "b - a" arbitrary: a)
  case (Suc k)
  then have ab: "a < b" "[a..<b] = a # [Suc a..<b]" by (simp_all add: upt_conv_Cons)
  show ?case
  proof (cases "P a")
    case True
    then show ?thesis using Suc ab by simp
  next
    case False
    have "k = b - Suc a" "find P [Suc a..<b] = Some i" using Suc(2,3) ab False by simp_all
    from Suc(1) [OF this] False ab show ?thesis by simp
  qed
qed simp

lemma find_upt_None: "find P [a..<b] = None \<Longrightarrow> filter P [a..<b] = []"
  by (auto simp: find_None_iff filter_empty_conv)

context steady_probe
begin

lemma probe_v2_rest:
  assumes "I w" and "0 < startchip" "startchip \<le> length flashchips - 1" and "names \<noteq> []" "length names \<le> startchip"
  shows "\<exists>w'. probe_v2_master env flashbase flashchips chip_name mst startchip names fx w =
      Some (ERROR_FLASHROM_PROBE_NO_CHIPS_FOUND,
        names @ map (\<lambda>i. ch_name (snd (ident (flashchips ! i)))) (filter (matches 1) [startchip..<length flashchips - 1]), fx, w') \<and> I w'"
  using assms
proof (induction "length flashchips - 1 - startchip" arbitrary: startchip names w rule: less_induct)
  case less
  have m1: "matches startchip = matches 1" using less.prems(2) entry_matches_Suc [of _ _ _ _ "startchip - 1"] by simp
  have lt: "length names < length flashchips" using less.prems(3,5) table(1) by (cases flashchips) auto
  let ?found = "find (matches 1) [startchip..<length flashchips - 1]"
  obtain cx w1 where p: "probe_flash env flashbase flashchips mst startchip False chip_name zero_fctx w =
      Some (case ?found of None \<Rightarrow> ERROR_FLASHROM_PROBE_NO_CHIPS_FOUND | Some i \<Rightarrow> int i, cx, w1)" "I w1"
    "case ?found of None \<Rightarrow> fx_chip cx = None | Some i \<Rightarrow> fx_chip cx = Some (snd (ident (flashchips ! i))) \<and>
       fx_virtual_memory cx = ERROR_PTR \<and> fx_virtual_registers cx = ERROR_PTR \<and>
       fx_default_layout cx = snd (init_default_layout True True (snd (ident (flashchips ! i))))"
    using probe_flash_steady [OF less.prems(1) _ less.prems(3), of zero_fctx] by (auto simp: zero_fctx_def m1)
  show ?case
  proof (cases ?found)
    case None
    then show ?thesis using p less.prems(4) find_upt_None [OF None]
      by (subst probe_v2_master.simps) (simp add: lt ERROR_FLASHROM_PROBE_NO_CHIPS_FOUND_def)
  next
    case (Some i)
    note f = find_upt [OF Some]
    let ?nm = "ch_name (snd (ident (flashchips ! i)))"
    have "probe_v2_master env flashbase flashchips chip_name mst startchip names fx w =
        probe_v2_master env flashbase flashchips chip_name mst (Suc i) (names @ [?nm]) fx w1"
      using p Some less.prems(4) by (subst probe_v2_master.simps) (simp add: lt)
    then show ?thesis
      using less.hyps [of "Suc i" w1 "names @ [?nm]"] f p(2) less.prems(2,5) by auto
  qed
qed

lemma probe_v2_master_steady:
  assumes "I w" and "fx_chip fx = None"
  shows "\<exists>fx' w'. probe_v2_master env flashbase flashchips chip_name mst 0 [] fx w =
      Some (ERROR_FLASHROM_PROBE_NO_CHIPS_FOUND,
        map (\<lambda>i. ch_name (snd (ident (flashchips ! i)))) (all_matches flashchips mst chip_name ident), fx', w') \<and>
    (all_matches flashchips mst chip_name ident \<noteq> [] \<longrightarrow>
       fx_chip fx' = Some (snd (ident (flashchips ! hd (all_matches flashchips mst chip_name ident)))))"
proof -
  let ?found = "find (matches 0) [0..<length flashchips - 1]"
  obtain cx w1 where p: "probe_flash env flashbase flashchips mst 0 False chip_name fx w =
      Some (case ?found of None \<Rightarrow> ERROR_FLASHROM_PROBE_NO_CHIPS_FOUND | Some i \<Rightarrow> int i, cx, w1)" "I w1"
    "case ?found of None \<Rightarrow> fx_chip cx = None | Some i \<Rightarrow> fx_chip cx = Some (snd (ident (flashchips ! i))) \<and>
       fx_virtual_memory cx = ERROR_PTR \<and> fx_virtual_registers cx = ERROR_PTR \<and>
       fx_default_layout cx = snd (init_default_layout True True (snd (ident (flashchips ! i))))"
    using probe_flash_steady [OF assms, of 0] by auto
  show ?thesis
  proof (cases ?found)
    case None
    then show ?thesis using p table(1)
      by (subst probe_v2_master.simps) (simp add: all_matches_def ERROR_FLASHROM_PROBE_NO_CHIPS_FOUND_def)
  next
    case (Some i)
    note f = find_upt [OF Some]
    have "probe_v2_master env flashbase flashchips chip_name mst 0 [] fx w =
        probe_v2_master env flashbase flashchips chip_name mst (Suc i) [ch_name (snd (ident (flashchips ! i)))] cx w1"
      using p Some table(1) by (subst probe_v2_master.simps) simp
    then show ?thesis
      using probe_v2_rest [OF p(2), of "Suc i" "[ch_name (snd (ident (flashchips ! i)))]" cx] f p(3) Some
      by (auto simp: all_matches_def)
  qed
qed

lemma probe_masters_steady:
  assumes w: "I w"
  shows "\<exists>fx' w'. probe_masters env flashbase flashchips chip_name [mst] 2 zero_fctx zero_fctx w =
      Some (case all_matches flashchips mst chip_name ident of [] \<Rightarrow> 2 | [i] \<Rightarrow> 0 | _ \<Rightarrow> 3, fx', w') \<and>
    (all_matches flashchips mst chip_name ident \<noteq> [] \<longrightarrow>
       fx_chip fx' = Some (snd (ident (flashchips ! hd (all_matches flashchips mst chip_name ident)))))"
proof -
  have z: "fx_chip zero_fctx = None" by (simp add: zero_fctx_def)
  let ?found = "find (matches 0) [0..<length flashchips - 1]"
  obtain cx w1 where p: "probe_flash env flashbase flashchips mst 0 False chip_name zero_fctx w =
      Some (case ?found of None \<Rightarrow> ERROR_FLASHROM_PROBE_NO_CHIPS_FOUND | Some i \<Rightarrow> int i, cx, w1)" "I w1"
    "case ?found of None \<Rightarrow> fx_chip cx = None | Some i \<Rightarrow> fx_chip cx = Some (snd (ident (flashchips ! i))) \<and>
       fx_virtual_memory cx = ERROR_PTR \<and> fx_virtual_registers cx = ERROR_PTR \<and>
       fx_default_layout cx = snd (init_default_layout True True (snd (ident (flashchips ! i))))"
    using probe_flash_steady [OF w z, of 0] by auto
  show ?thesis
  proof (cases ?found)
    case None
    then show ?thesis using p by (simp add: all_matches_def)
  next
    case (Some i)
    note f = find_upt [OF Some]
    have m1: "matches (Suc i) = matches 1" by (rule entry_matches_Suc)
    let ?more = "find (matches 1) [Suc i..<length flashchips - 1]"
    obtain sx w2 where q: "probe_flash env flashbase flashchips mst (Suc i) False chip_name zero_fctx w1 =
      Some (case ?more of None \<Rightarrow> ERROR_FLASHROM_PROBE_NO_CHIPS_FOUND | Some i \<Rightarrow> int i, sx, w2)"
      using probe_flash_steady [OF p(2) z, of "Suc i"] f unfolding m1 by auto
    have nat_i: "nat (int i + 1) = Suc i" by simp
    have run: "probe_masters env flashbase flashchips chip_name [mst] 2 zero_fctx zero_fctx w =
        Some (case ?more of None \<Rightarrow> 0 | Some j \<Rightarrow> 3, cx, w2)"
      using p(1) Some q by (simp add: nat_i ERROR_FLASHROM_PROBE_NO_CHIPS_FOUND_def ERROR_FLASHROM_PROBE_INTERNAL_ERROR_def split: option.split)
    have "case ?more of None \<Rightarrow> filter (matches 1) [Suc i..<length flashchips - 1] = []
      | Some j \<Rightarrow> \<exists>l. filter (matches 1) [Suc i..<length flashchips - 1] = j # l"
      using find_upt_None [of "matches 1"] find_upt [of "matches 1"] by (auto split: option.split)
    then have "(case all_matches flashchips mst chip_name ident of [] \<Rightarrow> 2 | [i] \<Rightarrow> 0 | _ \<Rightarrow> 3) = (case ?more of None \<Rightarrow> 0 | Some j \<Rightarrow> (3 :: int))"
      "hd (all_matches flashchips mst chip_name ident) = i"
      using Some by (auto simp: all_matches_def split: option.splits)
    then show ?thesis using run p(3) Some by (intro exI [of _ cx] exI [of _ w2]) simp
  qed
qed

end

text \<open>C31: For a programmer with one master, on hardware whose answers to the probes do not change: \<^verbatim>\<open>flashrom_flash_probe_v2\<close> returns the
  names of all matches of the table in their order, with generic entries counting only when they match
  first, and the context of the first; \<^verbatim>\<open>flashrom_flash_probe\<close> agrees with it: it finds
  no chip (2) when there is no match, the chip (0) when there is one, and refuses (3) when there are several.\<close>

theorem probe_apis_agree:
  assumes dev: "steady_probe env (g_flashbase g) flashchips mst chip_name I ident" and one: "g_registered_masters g = [mst]"
    and w: "I w" and fx: "fx_chip fx = None" and ms: "ms = all_matches flashchips mst chip_name ident"
  shows "(\<exists>fx' w'. flashrom_flash_probe_v2 True env g flashchips chip_name fx w =
             Some (int (length ms), map (\<lambda>i. ch_name (snd (ident (flashchips ! i)))) ms, fx', w') \<and>
           (ms \<noteq> [] \<longrightarrow> fx_chip fx' = Some (snd (ident (flashchips ! hd ms))))) \<and>
         (\<exists>f w'. flashrom_flash_probe True env g flashchips chip_name w = Some (case ms of [] \<Rightarrow> 2 | [i] \<Rightarrow> 0 | _ \<Rightarrow> 3, f, w') \<and>
           (case f of None \<Rightarrow> length ms \<noteq> 1 | Some fx' \<Rightarrow> length ms = 1 \<and> fx_chip fx' = Some (snd (ident (flashchips ! hd ms)))))"
proof
  show "\<exists>fx' w'. flashrom_flash_probe_v2 True env g flashchips chip_name fx w =
             Some (int (length ms), map (\<lambda>i. ch_name (snd (ident (flashchips ! i)))) ms, fx', w') \<and>
           (ms \<noteq> [] \<longrightarrow> fx_chip fx' = Some (snd (ident (flashchips ! hd ms))))"
  proof -
    obtain fx' w' where v: "probe_v2_master env (g_flashbase g) flashchips chip_name mst 0 [] fx w =
        Some (ERROR_FLASHROM_PROBE_NO_CHIPS_FOUND, map (\<lambda>i. ch_name (snd (ident (flashchips ! i)))) ms, fx', w')"
      "ms \<noteq> [] \<longrightarrow> fx_chip fx' = Some (snd (ident (flashchips ! hd ms)))"
      using steady_probe.probe_v2_master_steady [OF dev w fx] unfolding ms by blast
    then show ?thesis
      by (intro exI [of _ fx'] exI [of _ w'])
        (simp add: flashrom_flash_probe_v2_def one ERROR_FLASHROM_PROBE_NO_CHIPS_FOUND_def ERROR_FLASHROM_PROBE_INTERNAL_ERROR_def)
  qed
  show "\<exists>f w'. flashrom_flash_probe True env g flashchips chip_name w = Some (case ms of [] \<Rightarrow> 2 | [i] \<Rightarrow> 0 | _ \<Rightarrow> 3, f, w') \<and>
           (case f of None \<Rightarrow> length ms \<noteq> 1 | Some fx' \<Rightarrow> length ms = 1 \<and> fx_chip fx' = Some (snd (ident (flashchips ! hd ms))))"
    using steady_probe.probe_masters_steady [OF dev w] one
    by (auto simp: flashrom_flash_probe_def ms split: list.splits)
qed

section \<open>Probing the emulated chip\<close>

text \<open>The state is the cache of identifications and the emulator. The entries of the table below are probed with functions of
  \<^verbatim>\<open>spi25.c\<close>.\<close>

type_synonym emu_world = "id_cache \<times> emu_data spi_state"

definition emu_probe :: "probe_func \<Rightarrow> fctx \<Rightarrow> emu_world \<Rightarrow> (int \<times> flashchip \<times> emu_world) option" where
  "emu_probe f fx w =
     (case (fx_chip fx, w) of
        (Some chip, (cache, s)) \<Rightarrow>
          map_option (\<lambda>(r, cache', s'). (r, chip, (cache', s')))
            (case f of
               PROBE_SPI_RDID \<Rightarrow> probe_spi_rdid chip spi_master_dummyflasher cache s
             | PROBE_SPI_RDID4 \<Rightarrow> probe_spi_rdid4 chip spi_master_dummyflasher cache s
             | PROBE_SPI_REMS \<Rightarrow> probe_spi_rems chip spi_master_dummyflasher cache s
             | PROBE_SPI_RES2 \<Rightarrow> probe_spi_res2 chip spi_master_dummyflasher cache s
             | _ \<Rightarrow> None)
      | _ \<Rightarrow> None)"

definition emu_env :: "emu_world probe_env" where
  "emu_env = \<lparr>pv_map = (\<lambda>f d b n w. (0, w)), pv_unmap = (\<lambda>f a n w. w), pv_probe = emu_probe, pv_printlock = (\<lambda>fx w. w),
     pv_calloc = (\<lambda>i. True), pv_alloc1 = True, pv_alloc2 = True, pv_probe_opcode = None\<rparr>"

definition emu_master :: registered_master where
  "emu_master = zero_master\<lparr>rm_buses_supported := BUS_SPI\<rparr>"

definition no_chip :: flashchip where
  "no_chip = opaque_chip\<lparr>ch_vendor := None, ch_name := None\<rparr>"

text \<open>A table with another chip, the emulated one under two names, and chips that cannot be there.\<close>

definition emu_table :: "flashchip list" where
  "emu_table = [w25q128_chip\<lparr>ch_name := Some ''MX25L6405'', ch_manufacture_id := 0xC2, ch_model_id := 0x2017\<rparr>, w25q128_chip,
     opaque_chip, w25q128_chip\<lparr>ch_name := Some ''W25Q128.V..M''\<rparr>,
     w25q128_chip\<lparr>ch_name := Some ''Unknown Winbond'', ch_model_id := GENERIC_DEVICE_ID\<rparr>, no_chip]"

definition emu_ident :: "flashchip \<Rightarrow> int \<times> flashchip" where
  "emu_ident chip = (compare_id chip 0xef 0x4018, chip)"

definition emu_steady :: "emu_world \<Rightarrow> bool" where
  "emu_steady w \<longleftrightarrow> coherent (fst w) \<and> w25_ok (sp_dev (snd w))"

lemma emu_table_probe: "chip \<in> set emu_table \<Longrightarrow> \<not> skip_entry emu_master False nm chip \<Longrightarrow> ch_probe chip = PROBE_SPI_RDID"
  by (auto simp: emu_table_def w25q128_chip_def opaque_chip_def no_chip_def skip_entry_def emu_master_def zero_master_def)

lemma emu_table_bus: "chip \<in> set emu_table \<Longrightarrow> ch_bustype chip \<in> {BUS_SPI, BUS_PROG}"
  by (auto simp: emu_table_def w25q128_chip_def opaque_chip_def no_chip_def)

lemma emu_table_model: "chip \<in> set emu_table \<Longrightarrow> ch_model_id chip \<noteq> SFDP_DEVICE_ID"
  by (auto simp: emu_table_def w25q128_chip_def opaque_chip_def no_chip_def SFDP_DEVICE_ID_def GENERIC_DEVICE_ID_def PROGDEV_ID_def)

lemma rdid_ok:
  assumes "coherent cache" "w25_ok (sp_dev s)"
  shows "\<exists>cache'. probe_spi_rdid chip spi_master_dummyflasher cache s = Some (compare_id chip 0xef 0x4018, cache', s) \<and> coherent cache'"
  by (rule w25_rdid_correct [OF assms(2,1)])

interpretation emu: steady_probe emu_env 0 emu_table emu_master None emu_steady emu_ident
proof
  show "\<exists>w'. pv_probe emu_env (ch_probe chip) fx w = Some (fst (emu_ident chip), snd (emu_ident chip), w') \<and> emu_steady w'"
    if "chip \<in> set emu_table" "\<not> skip_entry emu_master False None chip" "emu_steady w" "fx_chip fx = Some chip" for chip fx w
  proof -
    obtain cache s where w: "w = (cache, s)" by (cases w)
    with that(3) have "coherent cache" "w25_ok (sp_dev s)" by (simp_all add: emu_steady_def)
    with rdid_ok [OF this, of chip] obtain cache' where "probe_spi_rdid chip spi_master_dummyflasher cache s = Some (compare_id chip 0xef 0x4018, cache', s)"
      "coherent cache'" by blast
    then show ?thesis using that by (simp add: emu_env_def emu_probe_def w emu_ident_def emu_steady_def emu_table_probe [OF that(1,2)])
  qed
  show "flashbuses_to_text (ch_bustype (snd (emu_ident chip))) \<noteq> None" if "chip \<in> set emu_table" for chip
    using emu_table_bus [OF that] by (auto simp: emu_ident_def flashbuses_to_text_def bustypes_def bus_defs)
qed (auto simp: emu_env_def ERROR_PTR_def emu_ident_def dest: emu_table_model, auto simp: emu_table_def no_chip_def w25q128_chip_def opaque_chip_def)

text \<open>The two entries for the emulated chip match; the generic entry behind them does not count.\<close>

theorem probe_apis_witness:
  "(\<exists>fx' w'. flashrom_flash_probe_v2 True emu_env (initial_globals\<lparr>g_registered_masters := [emu_master]\<rparr>) emu_table None zero_fctx
        (clear_spi_id_cache, w25_state) = Some (2, [Some ''W25Q128.V'', Some ''W25Q128.V..M''], fx', w') \<and> fx_chip fx' = Some w25q128_chip) \<and>
   (\<exists>w'. flashrom_flash_probe True emu_env (initial_globals\<lparr>g_registered_masters := [emu_master]\<rparr>) emu_table None
        (clear_spi_id_cache, w25_state) = Some (3, None, w'))"
proof -
  have up: "[0..<5] = [0, 1, 2, 3, 4 :: nat]" "[Suc (Suc 0)..<5] = [2, 3, 4]" by (simp_all add: upt_rec)
  have sk: "has_bus BUS_SPI BUS_SPI" "\<not> has_bus BUS_SPI BUS_PROG" by (simp_all add: bus_defs)
  have ms: "all_matches emu_table emu_master None emu_ident = [1, 3]"
    by (simp add: all_matches_def up emu_table_def entry_matches_def skip_entry_def emu_master_def zero_master_def
        emu_ident_def compare_id_def generic_chip_def w25q128_chip_def opaque_chip_def sk GENERIC_DEVICE_ID_def GENERIC_MANUF_ID_def SFDP_DEVICE_ID_def)
  have st: "emu_steady (clear_spi_id_cache, w25_state)" by (simp add: emu_steady_def coherent_clear w25_state_def w25_data_simps)
  have "steady_probe emu_env (g_flashbase (initial_globals\<lparr>g_registered_masters := [emu_master]\<rparr>)) emu_table emu_master None emu_steady emu_ident"
    using emu.steady_probe_axioms by (simp add: initial_globals_def)
  from probe_apis_agree [OF this _ st _ ms [symmetric], of zero_fctx]
  show ?thesis
    by (simp add: zero_fctx_def) (auto simp: emu_table_def emu_ident_def w25q128_chip_def split: option.splits)
qed

section \<open>A chip left over from a failed probe\<close>

lemma probe_loop_skips:
  assumes "\<forall>chip \<in> set (butlast flashchips). ch_name chip \<noteq> None \<and> skip_entry mst force nm chip"
    and "ch_name (last flashchips) = None" and "i \<le> length flashchips - 1" and "flashchips \<noteq> []"
  shows "probe_loop env base flashchips mst startchip force nm i fx w = Some (End, fx, w)"
  using assms(3)
proof (induction "length flashchips - 1 - i" arbitrary: i)
  case 0
  then have i: "i = length flashchips - 1" by simp
  then have "flashchips ! i = last flashchips" using assms(4) by (simp add: last_conv_nth)
  moreover have "i < length flashchips" using i assms(4) by (cases flashchips) auto
  ultimately show ?case using assms(2) by (subst probe_loop.simps) (simp add: not_le [symmetric])
next
  case (Suc k)
  then have i: "i < length flashchips - 1" by simp
  have "flashchips ! i \<in> set (butlast flashchips)" using i by (metis length_butlast nth_butlast nth_mem)
  then have "ch_name (flashchips ! i) \<noteq> None" "skip_entry mst force nm (flashchips ! i)" using assms(1) by auto
  moreover have "\<not> length flashchips \<le> i" using i by simp
  ultimately show ?case
    using Suc(1) [of "Suc i"] Suc(2) i by (subst probe_loop.simps) simp
qed

text \<open>C33: \<^verbatim>\<open>probe_flash\<close> takes the chip of the context for a match without having probed it: when the
  context still has a chip, as after an internal error, and no entry of the table is tried, the
  result is the index of the terminator of the table, which counts as a match.\<close>

theorem stale_chip_matches:
  assumes "\<forall>chip \<in> set (butlast flashchips). ch_name chip \<noteq> None \<and> skip_entry mst False nm chip"
    and "ch_name (last flashchips) = None" and "flashchips \<noteq> []"
    and "fx_chip fx = Some chip" "fx_mst fx = Some old" and "flashbuses_to_text (ch_bustype chip) \<noteq> None" and "pv_alloc1 env" "pv_alloc2 env"
  shows "\<exists>fx' w'. probe_flash env base flashchips mst 0 False nm fx w = Some (int (length flashchips - 1), fx', w') \<and>
    fx_chip fx' = Some chip \<and> fx_mst fx' = Some old"
proof -
  have l: "probe_loop env base flashchips mst 0 False nm 0 fx w = Some (End, fx, w)"
    by (rule probe_loop_skips) (use assms in auto)
  obtain lay where lay: "init_default_layout True True chip = (0, Some lay)" using init_default_layout_alloc by blast
  let ?fx = "fx\<lparr>fx_default_layout := Some lay\<rparr>"
  obtain fx3 w3 where u: "unmap_flash env ?fx (pv_printlock env ?fx w) = Some (fx3, w3)" "fx_chip fx3 = Some chip" "fx_mst fx3 = Some old"
    using assms(4,5) by (fastforce simp: unmap_flash_def Let_def split: prod.splits if_splits)
  have "takeWhile (\<lambda>chip. ch_name chip \<noteq> None) flashchips = butlast flashchips"
  proof -
    have "takeWhile (\<lambda>chip. ch_name chip \<noteq> None) (butlast flashchips @ [last flashchips]) = butlast flashchips"
      using assms(1,2) by (subst takeWhile_append2) auto
    then show ?thesis using assms(3) by simp
  qed
  then have "table_end flashchips 0 = length flashchips - 1" by (simp add: table_end_def)
  then show ?thesis using l lay u assms(4,6-8) by (auto simp: probe_flash_def Let_def)
qed

theorem stale_chip_witness:
  "\<exists>fx' w'. probe_flash emu_env 0 emu_table (zero_master\<lparr>rm_buses_supported := BUS_PARALLEL\<rparr>) 0 False None
      (zero_fctx\<lparr>fx_chip := Some mx25_chip, fx_mst := Some emu_master\<rparr>) (clear_spi_id_cache, w25_state) = Some (5, fx', w') \<and>
    fx_chip fx' = Some mx25_chip"
proof -
  have b: "\<not> has_bus BUS_PARALLEL BUS_SPI" "\<not> has_bus BUS_PARALLEL BUS_PROG" by (simp_all add: bus_defs)
  have t: "ch_bustype mx25_chip = BUS_SPI" by (simp add: mx25_chip_def sfdp_chip_def)
  have "\<forall>chip \<in> set (butlast emu_table). ch_name chip \<noteq> None \<and>
      skip_entry (zero_master\<lparr>rm_buses_supported := BUS_PARALLEL\<rparr>) False None chip"
    by (simp add: emu_table_def w25q128_chip_def opaque_chip_def skip_entry_def b zero_master_def)
  moreover have "ch_name (last emu_table) = None" "emu_table \<noteq> []" "length emu_table = 6" by (simp_all add: emu_table_def no_chip_def)
  moreover have "flashbuses_to_text (ch_bustype mx25_chip) \<noteq> None"
    by (simp add: t flashbuses_to_text_def bustypes_def bus_defs)
  moreover have "pv_alloc1 emu_env" "pv_alloc2 emu_env" by (simp_all add: emu_env_def)
  ultimately show ?thesis
    using stale_chip_matches [of emu_table "zero_master\<lparr>rm_buses_supported := BUS_PARALLEL\<rparr>" None
        "zero_fctx\<lparr>fx_chip := Some mx25_chip, fx_mst := Some emu_master\<rparr>" mx25_chip emu_master emu_env 0 "(clear_spi_id_cache, w25_state)"]
    by fastforce
qed

end
