(* ===== verification/Parallel.thy ===== *)
theory Parallel
  imports Spi
begin

text \<open>
  Chips on a parallel, LPC or FWH bus: the access functions of \<^verbatim>\<open>flashrom/parallel.c\<close> and
  \<^verbatim>\<open>read_memmapped\<close> of \<^verbatim>\<open>flashrom.c\<close>, and the chip drivers \<^verbatim>\<open>jedec.c\<close>, \<^verbatim>\<open>w29ee011.c\<close>,
  \<^verbatim>\<open>en29lv640b.c\<close> and \<^verbatim>\<open>sst28sf040.c\<close>, whose chips answer with a toggling bit while they are busy.

  The master is a record of callbacks on the state \<open>'w\<close> of the hardware; an optional one is \<open>None\<close> when it is a null pointer.
  An address is a number below \<open>2 ^ 64\<close> (\<^verbatim>\<open>chipaddr\<close>). The effect of \<^verbatim>\<open>programmer_delay\<close> on the hardware
  is a parameter, and so is \<^verbatim>\<open>verify_range\<close>, as it reads the chip through the driver of the context.
\<close>

section \<open>Masters and contexts\<close>

record 'w par_master =
  pm_writeb :: "u8 \<Rightarrow> nat \<Rightarrow> 'w \<Rightarrow> 'w"
  pm_writew :: "(16 word \<Rightarrow> nat \<Rightarrow> 'w \<Rightarrow> 'w) option"
  pm_writel :: "(32 word \<Rightarrow> nat \<Rightarrow> 'w \<Rightarrow> 'w) option"
  pm_writen :: "(bytes \<Rightarrow> nat \<Rightarrow> 'w \<Rightarrow> 'w) option"
  pm_readb :: "nat \<Rightarrow> 'w \<Rightarrow> u8 \<times> 'w"
  pm_readw :: "(nat \<Rightarrow> 'w \<Rightarrow> 16 word \<times> 'w) option"
  pm_readl :: "(nat \<Rightarrow> 'w \<Rightarrow> 32 word \<times> 'w) option"
  pm_readn :: "(nat \<Rightarrow> nat \<Rightarrow> 'w \<Rightarrow> bytes \<times> 'w) option"
  pm_delay :: "nat \<Rightarrow> 'w \<Rightarrow> 'w"

record 'w par_ctx =
  px_chip :: flashchip
  px_mst :: "'w par_master"
  px_virtual_memory :: nat
  px_virtual_registers :: nat
  px_verify_range :: "bytes \<Rightarrow> nat \<Rightarrow> nat \<Rightarrow> 'w \<Rightarrow> (int \<times> 'w) option"

definition par_delay :: "'w par_ctx \<Rightarrow> nat \<Rightarrow> 'w \<Rightarrow> 'w" where
  "par_delay c usecs w = (if usecs = 0 then w else pm_delay (px_mst c) usecs w)"

section \<open>Access functions\<close>

definition chip_writeb :: "'w par_ctx \<Rightarrow> u8 \<Rightarrow> nat \<Rightarrow> 'w \<Rightarrow> 'w" where
  "chip_writeb c val addr w = pm_writeb (px_mst c) val addr w"

definition fallback_chip_writew :: "'w par_ctx \<Rightarrow> 16 word \<Rightarrow> nat \<Rightarrow> 'w \<Rightarrow> 'w" where
  "fallback_chip_writew c val addr w =
     chip_writeb c (ucast (drop_bit 8 val AND 0xff)) (add64 addr 1) (chip_writeb c (ucast (val AND 0xff)) addr w)"

text \<open>There is no \<^verbatim>\<open>return\<close> after the call of the master's own function: the fallback always runs.\<close>

definition chip_writew :: "'w par_ctx \<Rightarrow> 16 word \<Rightarrow> nat \<Rightarrow> 'w \<Rightarrow> 'w" where
  "chip_writew c val addr w =
     fallback_chip_writew c val addr (case pm_writew (px_mst c) of None \<Rightarrow> w | Some f \<Rightarrow> f val addr w)"

definition fallback_chip_writel :: "'w par_ctx \<Rightarrow> 32 word \<Rightarrow> nat \<Rightarrow> 'w \<Rightarrow> 'w" where
  "fallback_chip_writel c val addr w =
     chip_writew c (ucast (drop_bit 16 val AND 0xffff)) (add64 addr 2) (chip_writew c (ucast (val AND 0xffff)) addr w)"

definition chip_writel :: "'w par_ctx \<Rightarrow> 32 word \<Rightarrow> nat \<Rightarrow> 'w \<Rightarrow> 'w" where
  "chip_writel c val addr w =
     fallback_chip_writel c val addr (case pm_writel (px_mst c) of None \<Rightarrow> w | Some f \<Rightarrow> f val addr w)"

definition fallback_chip_writen :: "'w par_ctx \<Rightarrow> bytes \<Rightarrow> nat \<Rightarrow> nat \<Rightarrow> 'w \<Rightarrow> 'w" where
  "fallback_chip_writen c buf addr len w = fold (\<lambda>i. chip_writeb c (buf ! i) (add64 addr i)) [0..<len] w"

definition chip_writen :: "'w par_ctx \<Rightarrow> bytes \<Rightarrow> nat \<Rightarrow> nat \<Rightarrow> 'w \<Rightarrow> 'w" where
  "chip_writen c buf addr len w =
     fallback_chip_writen c buf addr len (case pm_writen (px_mst c) of None \<Rightarrow> w | Some f \<Rightarrow> f (take len buf) addr w)"

definition chip_readb :: "'w par_ctx \<Rightarrow> nat \<Rightarrow> 'w \<Rightarrow> u8 \<times> 'w" where
  "chip_readb c addr w = pm_readb (px_mst c) addr w"

definition fallback_chip_readw :: "'w par_ctx \<Rightarrow> nat \<Rightarrow> 'w \<Rightarrow> 16 word \<times> 'w" where
  "fallback_chip_readw c addr w =
     (case chip_readb c addr w of (lo, w1) \<Rightarrow>
        case chip_readb c (add64 addr 1) w1 of (hi, w2) \<Rightarrow> (ucast lo OR push_bit 8 (ucast hi), w2))"

definition chip_readw :: "'w par_ctx \<Rightarrow> nat \<Rightarrow> 'w \<Rightarrow> 16 word \<times> 'w" where
  "chip_readw c addr w =
     (case pm_readw (px_mst c) of Some f \<Rightarrow> f addr w | None \<Rightarrow> fallback_chip_readw c addr w)"

definition fallback_chip_readl :: "'w par_ctx \<Rightarrow> nat \<Rightarrow> 'w \<Rightarrow> 32 word \<times> 'w" where
  "fallback_chip_readl c addr w =
     (case chip_readw c addr w of (lo, w1) \<Rightarrow>
        case chip_readw c (add64 addr 2) w1 of (hi, w2) \<Rightarrow> (ucast lo OR push_bit 16 (ucast hi), w2))"

definition chip_readl :: "'w par_ctx \<Rightarrow> nat \<Rightarrow> 'w \<Rightarrow> 32 word \<times> 'w" where
  "chip_readl c addr w =
     (case pm_readl (px_mst c) of Some f \<Rightarrow> f addr w | None \<Rightarrow> fallback_chip_readl c addr w)"

fun fallback_chip_readn :: "'w par_ctx \<Rightarrow> nat \<Rightarrow> nat \<Rightarrow> nat \<Rightarrow> 'w \<Rightarrow> bytes \<times> 'w" where
  "fallback_chip_readn c addr i 0 w = ([], w)"
| "fallback_chip_readn c addr i (Suc k) w =
     (case chip_readb c (add64 addr i) w of (b, w1) \<Rightarrow>
        case fallback_chip_readn c addr (Suc i) k w1 of (bs, w2) \<Rightarrow> (b # bs, w2))"

text \<open>What the master's own function has read is overwritten by the fallback.\<close>

definition chip_readn :: "'w par_ctx \<Rightarrow> nat \<Rightarrow> nat \<Rightarrow> 'w \<Rightarrow> bytes \<times> 'w" where
  "chip_readn c addr len w =
     fallback_chip_readn c addr 0 len (case pm_readn (px_mst c) of None \<Rightarrow> w | Some f \<Rightarrow> snd (f addr len w))"

definition read_memmapped :: "'w par_ctx \<Rightarrow> nat \<Rightarrow> nat \<Rightarrow> 'w \<Rightarrow> int \<times> bytes \<times> 'w" where
  "read_memmapped c start len w =
     (case chip_readn c (add64 (px_virtual_memory c) start) len w of (bs, w') \<Rightarrow> (0, bs, w'))"

text \<open>A list of bus cycles, written one after the other in the sources.\<close>

datatype bus_op = WB u8 nat | DELAY nat

fun bus :: "'w par_ctx \<Rightarrow> bus_op list \<Rightarrow> 'w \<Rightarrow> 'w" where
  "bus c [] w = w"
| "bus c (WB val addr # ops) w = bus c ops (chip_writeb c val addr w)"
| "bus c (DELAY us # ops) w = bus c ops (par_delay c us w)"

section \<open>The JEDEC command set\<close>

definition MAX_REFLASH_TRIES :: nat where "MAX_REFLASH_TRIES = 0x10"
definition MASK_FULL :: nat where "MASK_FULL = 0xffff"
definition MASK_2AA :: nat where "MASK_2AA = 0x7ff"
definition MASK_AAA :: nat where "MASK_AAA = 0xfff"

definition FEATURE_SHORT_RESET :: "32 word" where "FEATURE_SHORT_RESET = 0x10"
definition FEATURE_LONG_RESET :: "32 word" where "FEATURE_LONG_RESET = 0"
definition FEATURE_RESET_MASK :: "32 word" where "FEATURE_RESET_MASK = FEATURE_LONG_RESET OR FEATURE_SHORT_RESET"
definition FEATURE_ADDR_FULL :: "32 word" where "FEATURE_ADDR_FULL = 0"
definition FEATURE_ADDR_MASK :: "32 word" where "FEATURE_ADDR_MASK = 0xc"
definition FEATURE_ADDR_2AA :: "32 word" where "FEATURE_ADDR_2AA = 0x4"
definition FEATURE_ADDR_AAA :: "32 word" where "FEATURE_ADDR_AAA = 0x8"
definition FEATURE_ADDR_SHIFTED :: "32 word" where "FEATURE_ADDR_SHIFTED = 0x20"

definition oddparity :: "u8 \<Rightarrow> u8" where
  "oddparity val =
     (let v1 = (val XOR drop_bit 4 val) AND 0xf;
          v2 = (v1 XOR drop_bit 2 v1) AND 0x3
      in (v2 XOR drop_bit 1 v2) AND 0x1)"

text \<open>The polling loops end after \<^verbatim>\<open>0xFFFFFFF\<close> rounds; \<open>i\<close> counts them.\<close>

function toggle_loop :: "'w par_ctx \<Rightarrow> nat \<Rightarrow> nat \<Rightarrow> u8 \<Rightarrow> nat \<Rightarrow> 'w \<Rightarrow> 'w" where
  "toggle_loop c dst delay tmp1 i w =
     (if i < 0xFFFFFFF
      then case chip_readb c dst (par_delay c delay w) of (v, w2) \<Rightarrow>
             if tmp1 = v AND 0x40 then w2 else toggle_loop c dst delay (v AND 0x40) (Suc i) w2
      else w)"
  by pat_completeness auto
termination
  by (relation "measure (\<lambda>(c, dst, delay, tmp1, i, w). 0xFFFFFFF - i)") auto

declare toggle_loop.simps [simp del]

definition toggle_ready_jedec_common :: "'w par_ctx \<Rightarrow> nat \<Rightarrow> nat \<Rightarrow> 'w \<Rightarrow> 'w" where
  "toggle_ready_jedec_common c dst delay w =
     (case chip_readb c dst w of (v, w1) \<Rightarrow> toggle_loop c dst delay (v AND 0x40) 0 w1)"

definition toggle_ready_jedec :: "'w par_ctx \<Rightarrow> nat \<Rightarrow> 'w \<Rightarrow> 'w" where
  "toggle_ready_jedec c dst w = toggle_ready_jedec_common c dst 0 w"

definition toggle_ready_jedec_slow :: "'w par_ctx \<Rightarrow> 'w \<Rightarrow> 'w" where
  "toggle_ready_jedec_slow c w = toggle_ready_jedec_common c (px_virtual_memory c) (8 * 1000) w"

function data_polling_loop :: "'w par_ctx \<Rightarrow> nat \<Rightarrow> u8 \<Rightarrow> nat \<Rightarrow> 'w \<Rightarrow> 'w" where
  "data_polling_loop c dst data i w =
     (if i < 0xFFFFFFF
      then case chip_readb c dst w of (v, w1) \<Rightarrow> if v AND 0x80 = data then w1 else data_polling_loop c dst data (Suc i) w1
      else w)"
  by pat_completeness auto
termination
  by (relation "measure (\<lambda>(c, dst, data, i, w). 0xFFFFFFF - i)") auto

declare data_polling_loop.simps [simp del]

definition data_polling_jedec :: "'w par_ctx \<Rightarrow> nat \<Rightarrow> u8 \<Rightarrow> 'w \<Rightarrow> 'w" where
  "data_polling_jedec c dst data w = data_polling_loop c dst (data AND 0x80) 0 w"

definition getaddrmask :: "flashchip \<Rightarrow> nat" where
  "getaddrmask chip =
     (let f = ch_feature_bits chip AND FEATURE_ADDR_MASK
      in if f = FEATURE_ADDR_FULL then MASK_FULL
         else if f = FEATURE_ADDR_2AA then MASK_2AA
         else if f = FEATURE_ADDR_AAA then MASK_AAA
         else 0)"

definition chip_shifted :: "flashchip \<Rightarrow> bool" where
  "chip_shifted chip \<longleftrightarrow> ch_feature_bits chip AND FEATURE_ADDR_SHIFTED \<noteq> 0"

text \<open>The two addresses of the unlock sequence: \<^verbatim>\<open>bios + ((shifted ? 0x2AAA : 0x5555) & mask)\<close> and the other way round.\<close>

definition unlock1 :: "'w par_ctx \<Rightarrow> nat" where
  "unlock1 c = add64 (px_virtual_memory c) ((if chip_shifted (px_chip c) then 0x2AAA else 0x5555) AND getaddrmask (px_chip c))"

definition unlock2 :: "'w par_ctx \<Rightarrow> nat" where
  "unlock2 c = add64 (px_virtual_memory c) ((if chip_shifted (px_chip c) then 0x5555 else 0x2AAA) AND getaddrmask (px_chip c))"

definition start_program_jedec_common :: "'w par_ctx \<Rightarrow> 'w \<Rightarrow> 'w" where
  "start_program_jedec_common c w = bus c [WB 0xAA (unlock1 c), WB 0x55 (unlock2 c), WB 0xA0 (unlock1 c)] w"

text \<open>The reads that follow the identification only decide about messages.\<close>

definition probe_jedec_29gl :: "'w par_ctx \<Rightarrow> 'w \<Rightarrow> int \<times> 'w" where
  "probe_jedec_29gl c w =
     (let bios = px_virtual_memory c; mask = getaddrmask (px_chip c);
          u1 = add64 bios (0x5555 AND mask); u2 = add64 bios (0x2AAA AND mask);
          w1 = bus c [WB 0xF0 u1, WB 0xAA u1, WB 0x55 u2, WB 0x90 u1] w;
          (man, w2) = chip_readb c (add64 bios 0x00) w1;
          (d1, w3) = chip_readb c (add64 bios 0x01) w2;
          (d2, w4) = chip_readb c (add64 bios 0x0E) w3;
          (d3, w5) = chip_readb c (add64 bios 0x0F) w4;
          w6 = bus c [WB 0xF0 u1] w5;
          (_, w7) = chip_readb c (add64 bios 0x00) w6;
          (_, w8) = chip_readb c (add64 bios 0x01) w7;
          (_, w9) = chip_readb c (add64 bios 0x0E) w8;
          (_, w10) = chip_readb c (add64 bios 0x0F) w9;
          dev_id = unat d1 * 65536 + unat d2 * 256 + unat d3
      in (if unat man \<noteq> ch_manufacture_id (px_chip c) \<or> dev_id \<noteq> ch_model_id (px_chip c) then 0 else 1, w10))"

text \<open>\<open>None\<close> stands for the result \<open>-1\<close>.\<close>

definition probe_timings :: "flashchip \<Rightarrow> (nat \<times> nat) option" where
  "probe_timings chip =
     (if ch_probe_timing chip > 0 then Some (nat (ch_probe_timing chip), nat (ch_probe_timing chip))
      else if ch_probe_timing chip = TIMING_ZERO then Some (0, 0)
      else if ch_probe_timing chip = TIMING_FIXME then Some (10000, 40)
      else None)"

text \<open>The delays between the cycles of a sequence are made only when the timing is not zero. The short sequence
  is a single reset cycle.\<close>

definition reset_cycles :: "'w par_ctx \<Rightarrow> nat \<Rightarrow> bus_op list" where
  "reset_cycles c texit =
     (let d = (if texit \<noteq> 0 then [DELAY 10] else [])
      in (if ch_feature_bits (px_chip c) AND FEATURE_RESET_MASK = FEATURE_LONG_RESET
          then [WB 0xAA (unlock1 c)] @ d @ [WB 0x55 (unlock2 c)] @ d else []) @
         [WB 0xF0 (unlock1 c), DELAY texit])"

text \<open>One or two bytes of an identification: 0x7F announces a second one at \<open>cont\<close>.\<close>

definition jedec_id_cont :: "'w par_ctx \<Rightarrow> u8 \<Rightarrow> nat \<Rightarrow> 'w \<Rightarrow> nat \<times> 'w" where
  "jedec_id_cont c b cont w =
     (if b = 0x7F then case chip_readb c (add64 (px_virtual_memory c) cont) w of (v, w1) \<Rightarrow> (0x7F00 + unat v, w1)
      else (unat b, w))"

definition probe_jedec :: "'w par_ctx \<Rightarrow> 'w \<Rightarrow> int \<times> 'w" where
  "probe_jedec c w =
     (let chip = px_chip c; bios = px_virtual_memory c; a1 = (if chip_shifted chip then 2 else 1)
      in case probe_timings chip of
           None \<Rightarrow> (0, w)
         | Some (tenter, texit) \<Rightarrow>
             let d = (if tenter \<noteq> 0 then [DELAY 10] else []);
                 w1 = bus c ([DELAY tenter] @ reset_cycles c texit @
                        [WB 0xAA (unlock1 c)] @ d @ [WB 0x55 (unlock2 c)] @ d @ [WB 0x90 (unlock1 c), DELAY tenter]) w;
                 (id1, w2) = chip_readb c (add64 bios 0) w1;
                 (id2, w3) = chip_readb c (add64 bios a1) w2;
                 (largeid1, w4) = jedec_id_cont c id1 0x100 w3;
                 (largeid2, w5) = jedec_id_cont c id2 0x101 w4;
                 w6 = bus c (reset_cycles c texit) w5;
                 (f1, w7) = chip_readb c (add64 bios 0) w6;
                 (f2, w8) = chip_readb c (add64 bios a1) w7;
                 (_, w9) = jedec_id_cont c f1 0x100 w8;
                 (_, w10) = jedec_id_cont c f2 0x101 w9
             in (if largeid1 \<noteq> ch_manufacture_id chip \<or> largeid2 \<noteq> ch_model_id chip then 0 else 1, w10))"

text \<open>An operand of zero stands for the address of the unlock cycle.\<close>

definition issuecmd :: "'w par_ctx \<Rightarrow> u8 \<Rightarrow> nat \<Rightarrow> 'w \<Rightarrow> 'w" where
  "issuecmd c op operand w =
     (let delay_us = (if ch_probe_timing (px_chip c) = TIMING_ZERO then 0 else 10);
          target = (if operand = 0 then unlock1 c else add64 (px_virtual_memory c) operand)
      in bus c [WB 0xAA (unlock1 c), DELAY delay_us, WB 0x55 (unlock2 c), DELAY delay_us, WB op target, DELAY delay_us] w)"

definition erase_sector_jedec :: "'w par_ctx \<Rightarrow> nat \<Rightarrow> nat \<Rightarrow> 'w \<Rightarrow> int \<times> 'w" where
  "erase_sector_jedec c page sz w = (0, toggle_ready_jedec_slow c (issuecmd c 0x30 page (issuecmd c 0x80 0 w)))"

definition erase_block_jedec :: "'w par_ctx \<Rightarrow> nat \<Rightarrow> nat \<Rightarrow> 'w \<Rightarrow> int \<times> 'w" where
  "erase_block_jedec c blk sz w = (0, toggle_ready_jedec_slow c (issuecmd c 0x50 blk (issuecmd c 0x80 0 w)))"

definition erase_chip_block_jedec :: "'w par_ctx \<Rightarrow> nat \<Rightarrow> nat \<Rightarrow> 'w \<Rightarrow> int \<times> 'w" where
  "erase_chip_block_jedec c addr blocksize w =
     (if addr \<noteq> 0 \<or> blocksize \<noteq> mul32 (ch_total_size (px_chip c)) 1024 then (-1, w)
      else (0, toggle_ready_jedec_slow c (issuecmd c 0x10 0 (issuecmd c 0x80 0 w))))"

text \<open>The loop of \<^verbatim>\<open>write_byte_program_jedec_common\<close>, for the number of tries that are left.\<close>

fun program_tries :: "'w par_ctx \<Rightarrow> u8 \<Rightarrow> nat \<Rightarrow> nat \<Rightarrow> 'w \<Rightarrow> int \<times> 'w" where
  "program_tries c src dst 0 w = (1, w)"
| "program_tries c src dst (Suc k) w =
     (let w1 = toggle_ready_jedec c (px_virtual_memory c) (chip_writeb c src dst (start_program_jedec_common c w));
          (v, w2) = chip_readb c dst w1
      in if v = src then (0, w2) else program_tries c src dst k w2)"

definition write_byte_program_jedec_common :: "'w par_ctx \<Rightarrow> u8 \<Rightarrow> nat \<Rightarrow> 'w \<Rightarrow> int \<times> 'w" where
  "write_byte_program_jedec_common c src dst w =
     (if src = 0xFF then (0, w) else program_tries c src dst MAX_REFLASH_TRIES w)"

fun write_jedec_1_loop :: "'w par_ctx \<Rightarrow> bytes \<Rightarrow> nat \<Rightarrow> int \<Rightarrow> 'w \<Rightarrow> int \<times> 'w" where
  "write_jedec_1_loop c [] dst failed w = (failed, w)"
| "write_jedec_1_loop c (b # src) dst failed w =
     (case write_byte_program_jedec_common c b dst w of (r, w1) \<Rightarrow>
        write_jedec_1_loop c src (add64 dst 1) (if r \<noteq> 0 then 1 else failed) w1)"

text \<open>A source buffer that is too short is read past its end.\<close>

definition write_jedec_1 :: "'w par_ctx \<Rightarrow> bytes \<Rightarrow> nat \<Rightarrow> nat \<Rightarrow> 'w \<Rightarrow> (int \<times> 'w) option" where
  "write_jedec_1 c src start len w =
     (if length src < len then None
      else Some (write_jedec_1_loop c (take len src) (add64 (px_virtual_memory c) start) 0 w))"

fun load_page :: "'w par_ctx \<Rightarrow> bytes \<Rightarrow> nat \<Rightarrow> 'w \<Rightarrow> 'w" where
  "load_page c [] dst w = w"
| "load_page c (b # src) dst w = load_page c src (add64 dst 1) (if b \<noteq> 0xFF then chip_writeb c b dst w else w)"

fun write_page_tries :: "'w par_ctx \<Rightarrow> bytes \<Rightarrow> nat \<Rightarrow> nat \<Rightarrow> int \<Rightarrow> nat \<Rightarrow> 'w \<Rightarrow> (int \<times> 'w) option" where
  "write_page_tries c src start page_size failed 0 w = Some (failed, w)"
| "write_page_tries c src start page_size failed (Suc k) w =
     (let dst = add64 (px_virtual_memory c) start;
          w1 = load_page c (take page_size src) dst (start_program_jedec_common c w);
          w2 = toggle_ready_jedec c (sub64 (add64 dst page_size) 1) w1
      in Option.bind (px_verify_range c src start page_size w2) (\<lambda>(failed', w3).
           if failed' = 0 then Some (0, w3) else write_page_tries c src start page_size failed' k w3))"

definition jedec_write_page :: "'w par_ctx \<Rightarrow> bytes \<Rightarrow> nat \<Rightarrow> nat \<Rightarrow> 'w \<Rightarrow> (int \<times> 'w) option" where
  "jedec_write_page c src start page_size w =
     (if length src < page_size then None else write_page_tries c src start page_size 0 MAX_REFLASH_TRIES w)"

text \<open>\<^verbatim>\<open>max\<close> on \<^verbatim>\<open>unsigned int\<close> values, like \<open>min32\<close>.\<close>

definition max32 :: "nat \<Rightarrow> nat \<Rightarrow> nat" where
  "max32 a b = u32_of_int (c_max (s32 a) (s32 b))"

partial_function (option) write_jedec_loop :: "'w par_ctx \<Rightarrow> bytes \<Rightarrow> nat \<Rightarrow> nat \<Rightarrow> nat \<Rightarrow> 'w \<Rightarrow> (int \<times> 'w) option" where
  "write_jedec_loop c buf start len i w =
     (let page_size = ch_page_size (px_chip c)
      in if i \<le> sub32 (add32 start len) 1 div page_size
         then
           let starthere = max32 start (mul32 i page_size);
               lenhere = sub32 (min32 (add32 start len) (mul32 (add32 i 1) page_size)) starthere
           in if starthere < start \<or> length buf < starthere - start then None
              else Option.bind (jedec_write_page c (drop (starthere - start) buf) starthere lenhere w) (\<lambda>(r, w').
                     if r \<noteq> 0 then Some (1, w') else write_jedec_loop c buf start len (add32 i 1) w')
         else Some (0, w))"

definition write_jedec :: "'w par_ctx \<Rightarrow> bytes \<Rightarrow> nat \<Rightarrow> nat \<Rightarrow> 'w \<Rightarrow> (int \<times> 'w) option" where
  "write_jedec c buf start len w =
     (if ch_page_size (px_chip c) = 0 then None else write_jedec_loop c buf start len (start div ch_page_size (px_chip c)) w)"

section \<open>Single chip families\<close>

text \<open>\<^verbatim>\<open>w29ee011.c\<close>.\<close>

definition probe_w29ee011 :: "'w par_ctx \<Rightarrow> 'w \<Rightarrow> int \<times> 'w" where
  "probe_w29ee011 c w =
     (let bios = px_virtual_memory c; u1 = add64 bios 0x5555; u2 = add64 bios 0x2AAA;
          w1 = bus c [WB 0xAA u1, DELAY 10, WB 0x55 u2, DELAY 10, WB 0x80 u1, DELAY 10,
                      WB 0xAA u1, DELAY 10, WB 0x55 u2, DELAY 10, WB 0x60 u1, DELAY 10] w;
          (id1, w2) = chip_readb c bios w1;
          (id2, w3) = chip_readb c (add64 bios 1) w2;
          w4 = bus c [WB 0xAA u1, DELAY 10, WB 0x55 u2, DELAY 10, WB 0xF0 u1, DELAY 10] w3
      in (if unat id1 = ch_manufacture_id (px_chip c) \<and> unat id2 = ch_model_id (px_chip c) then 1 else 0, w4))"

text \<open>\<^verbatim>\<open>en29lv640b.c\<close>: words are programmed, and with an odd length the last one takes a byte behind the
  data.\<close>

function write_en29lv640b_loop :: "'w par_ctx \<Rightarrow> bytes \<Rightarrow> nat \<Rightarrow> nat \<Rightarrow> nat \<Rightarrow> 'w \<Rightarrow> (int \<times> 'w) option" where
  "write_en29lv640b_loop c src len dst i w =
     (if i < len
      then if length src \<le> i + 1 then None
           else let bios = px_virtual_memory c;
                    w1 = bus c [WB 0xAA (add64 bios 0xAAA), WB 0x55 (add64 bios 0x555), WB 0xA0 (add64 bios 0xAAA)] w;
                    w2 = chip_writew c (ucast (src ! i) OR push_bit 8 (ucast (src ! (i + 1)))) dst w1
                in write_en29lv640b_loop c src len (add64 dst 2) (i + 2) (toggle_ready_jedec c dst w2)
      else Some (0, w))"
  by pat_completeness auto
termination
  by (relation "measure (\<lambda>(c, src, len, dst, i, w). len - i)") auto

declare write_en29lv640b_loop.simps [simp del]

definition write_en29lv640b :: "'w par_ctx \<Rightarrow> bytes \<Rightarrow> nat \<Rightarrow> nat \<Rightarrow> 'w \<Rightarrow> (int \<times> 'w) option" where
  "write_en29lv640b c src start len w = write_en29lv640b_loop c src len (add64 (px_virtual_memory c) start) 0 w"

definition probe_en29lv640b :: "'w par_ctx \<Rightarrow> 'w \<Rightarrow> int \<times> 'w" where
  "probe_en29lv640b c w =
     (let bios = px_virtual_memory c;
          w1 = bus c [WB 0xAA (add64 bios 0xAAA), WB 0x55 (add64 bios 0x555), WB 0x90 (add64 bios 0xAAA), DELAY 10] w;
          (lo, w2) = chip_readb c (add64 bios 0x200) w1;
          (hi, w3) = chip_readb c bios w2;
          (id2, w4) = chip_readb c (add64 bios 0x02) w3;
          w5 = bus c [WB 0xF0 (add64 bios 0xAAA), DELAY 10] w4
      in (if unat hi * 256 + unat lo = ch_manufacture_id (px_chip c) \<and> unat id2 = ch_model_id (px_chip c) then 1 else 0, w5))"

text \<open>\<^verbatim>\<open>sst28sf040.c\<close>: a sequence of reads switches the protection.\<close>

definition AUTO_PG_ERASE1 :: u8 where "AUTO_PG_ERASE1 = 0x20"
definition AUTO_PG_ERASE2 :: u8 where "AUTO_PG_ERASE2 = 0xD0"
definition AUTO_PGRM :: u8 where "AUTO_PGRM = 0x10"
definition CHIP_ERASE :: u8 where "CHIP_ERASE = 0x30"

definition read_sequence :: "'w par_ctx \<Rightarrow> nat list \<Rightarrow> 'w \<Rightarrow> 'w" where
  "read_sequence c offs w = fold (\<lambda>off w. snd (chip_readb c (add64 (px_virtual_memory c) off) w)) offs w"

definition protect_28sf040 :: "'w par_ctx \<Rightarrow> 'w \<Rightarrow> int \<times> 'w" where
  "protect_28sf040 c w = (0, read_sequence c [0x1823, 0x1820, 0x1822, 0x0418, 0x041B, 0x0419, 0x040A] w)"

definition unprotect_28sf040 :: "'w par_ctx \<Rightarrow> 'w \<Rightarrow> int \<times> 'w" where
  "unprotect_28sf040 c w = (0, read_sequence c [0x1823, 0x1820, 0x1822, 0x0418, 0x041B, 0x0419, 0x041A] w)"

definition erase_sector_28sf040 :: "'w par_ctx \<Rightarrow> nat \<Rightarrow> nat \<Rightarrow> 'w \<Rightarrow> int \<times> 'w" where
  "erase_sector_28sf040 c address sector_size w =
     (let bios = px_virtual_memory c
      in (0, toggle_ready_jedec c bios (bus c [WB AUTO_PG_ERASE1 bios, WB AUTO_PG_ERASE2 (add64 bios address)] w)))"

fun write_28sf040_loop :: "'w par_ctx \<Rightarrow> bytes \<Rightarrow> nat \<Rightarrow> 'w \<Rightarrow> 'w" where
  "write_28sf040_loop c [] dst w = w"
| "write_28sf040_loop c (b # src) dst w =
     (if b = 0xFF then write_28sf040_loop c src (add64 dst 1) w
      else write_28sf040_loop c src (add64 dst 1) (toggle_ready_jedec c (px_virtual_memory c) (bus c [WB AUTO_PGRM dst, WB b dst] w)))"

definition write_28sf040 :: "'w par_ctx \<Rightarrow> bytes \<Rightarrow> nat \<Rightarrow> nat \<Rightarrow> 'w \<Rightarrow> (int \<times> 'w) option" where
  "write_28sf040 c src start len w =
     (if length src < len then None
      else Some (0, write_28sf040_loop c (take len src) (add64 (px_virtual_memory c) start) w))"

definition erase_28sf040 :: "'w par_ctx \<Rightarrow> 'w \<Rightarrow> int \<times> 'w" where
  "erase_28sf040 c w =
     (let bios = px_virtual_memory c
      in (0, toggle_ready_jedec c bios (bus c [WB CHIP_ERASE bios, WB CHIP_ERASE bios, DELAY 10] w)))"

definition erase_chip_28sf040 :: "'w par_ctx \<Rightarrow> nat \<Rightarrow> nat \<Rightarrow> 'w \<Rightarrow> int \<times> 'w" where
  "erase_chip_28sf040 c addr blocklen w =
     (if addr \<noteq> 0 \<or> blocklen \<noteq> mul32 (ch_total_size (px_chip c)) 1024 then (-1, w) else erase_28sf040 c w)"

end
