(* ===== verification/Fwh.thy ===== *)
theory Fwh
  imports Parallel
begin

text \<open>
  Firmware hub and similar chips with a status register: \<^verbatim>\<open>82802ab.c\<close>, \<^verbatim>\<open>stm50.c\<close>, \<^verbatim>\<open>sst49lfxxxc.c\<close>, and the lock
  registers of \<^verbatim>\<open>sst_fwhub.c\<close> and \<^verbatim>\<open>printlock.c\<close>. \<open>None\<close> is a wait without end; functions and branches that only
  print are left out.
\<close>

section \<open>Chips with a status register\<close>

definition probe_82802ab :: "'w par_ctx \<Rightarrow> 'w \<Rightarrow> int \<times> 'w" where
  "probe_82802ab c w =
     (let bios = px_virtual_memory c; a1 = (if chip_shifted (px_chip c) then 2 else 1);
          w1 = bus c [WB 0xFF bios, DELAY 10, WB 0x90 bios, DELAY 10] w;
          (id1, w2) = chip_readb c (add64 bios 0) w1;
          (id2, w3) = chip_readb c (add64 bios a1) w2;
          w4 = bus c [WB 0xFF bios, DELAY 10] w3;
          (_, w5) = chip_readb c (add64 bios 0) w4;
          (_, w6) = chip_readb c (add64 bios a1) w5
      in (if unat id1 \<noteq> ch_manufacture_id (px_chip c) \<or> unat id2 \<noteq> ch_model_id (px_chip c) then 0 else 1, w6))"

partial_function (option) wait_status_loop :: "'w par_ctx \<Rightarrow> 'w \<Rightarrow> 'w option" where
  "wait_status_loop c w =
     (case chip_readb c (px_virtual_memory c) w of (v, w1) \<Rightarrow>
        if v AND 0x80 = 0 then wait_status_loop c w1 else Some w1)"

definition wait_82802ab :: "'w par_ctx \<Rightarrow> 'w \<Rightarrow> (u8 \<times> 'w) option" where
  "wait_82802ab c w =
     (let bios = px_virtual_memory c
      in Option.bind (wait_status_loop c (chip_writeb c 0x70 bios w)) (\<lambda>w1.
           case chip_readb c bios w1 of (status, w2) \<Rightarrow> Some (status, chip_writeb c 0xFF bios w2)))"

definition erase_block_82802ab :: "'w par_ctx \<Rightarrow> nat \<Rightarrow> nat \<Rightarrow> 'w \<Rightarrow> (int \<times> 'w) option" where
  "erase_block_82802ab c page pagesize w =
     (let a = add64 (px_virtual_memory c) page
      in map_option (\<lambda>(status, w'). (0, w')) (wait_82802ab c (bus c [WB 0x50 a, WB 0x20 a, WB 0xd0 a, DELAY 10] w)))"

fun write_82802ab_loop :: "'w par_ctx \<Rightarrow> bytes \<Rightarrow> nat \<Rightarrow> 'w \<Rightarrow> (int \<times> 'w) option" where
  "write_82802ab_loop c [] dst w = Some (0, w)"
| "write_82802ab_loop c (b # src) dst w =
     Option.bind (wait_82802ab c (bus c [WB 0x40 dst, WB b dst] w)) (\<lambda>(status, w'). write_82802ab_loop c src (add64 dst 1) w')"

definition write_82802ab :: "'w par_ctx \<Rightarrow> bytes \<Rightarrow> nat \<Rightarrow> nat \<Rightarrow> 'w \<Rightarrow> (int \<times> 'w) option" where
  "write_82802ab c src start len w =
     (if length src < len then None else write_82802ab_loop c (take len src) (add64 (px_virtual_memory c) start) w)"

text \<open>Reading the lock bits of the blocks: \<open>step i\<close> is the distance to the next block. The loop counter is a 32-bit number.\<close>

partial_function (option) block_lock_loop :: "'w par_ctx \<Rightarrow> (nat \<Rightarrow> nat) \<Rightarrow> nat \<Rightarrow> bool \<Rightarrow> 'w \<Rightarrow> (bool \<times> 'w) option" where
  "block_lock_loop c step i need_unlock w =
     (if i < mul32 (ch_total_size (px_chip c)) 1024
      then case chip_readb c (add64 (add64 (px_virtual_memory c) i) 2) w of (bcfg, w1) \<Rightarrow>
             block_lock_loop c step (add32 i (step i)) (if bcfg \<noteq> 0 then True else need_unlock) w1
      else Some (need_unlock, w))"

text \<open>The common part of the two unlock functions; \<open>waits\<close> tells whether the clearing of the lock bits is waited for.\<close>

definition unlock_blocks :: "'w par_ctx \<Rightarrow> (nat \<Rightarrow> nat) \<Rightarrow> bool \<Rightarrow> 'w \<Rightarrow> (int \<times> 'w) option" where
  "unlock_blocks c step waits w =
     (let bios = px_virtual_memory c;
          w1 = chip_writeb c 0x90 bios w;
          (mcfg, w2) = chip_readb c (add64 bios 3) w1;
          can_unlock = (mcfg = 0)
      in Option.bind (block_lock_loop c step 0 False w2) (\<lambda>(need_unlock, w3).
           let w4 = chip_writeb c 0xFF bios w3
           in Option.bind (if can_unlock \<and> need_unlock
                           then let w5 = bus c [WB 0x60 bios, WB 0xD0 bios, WB 0xFF bios] w4
                                in if waits then map_option snd (wait_82802ab c w5) else Some w5
                           else Some w4) (\<lambda>w6.
                Some (if \<not> can_unlock \<and> need_unlock then -1 else 0, w6))))"

definition unlock_28f004s5 :: "'w par_ctx \<Rightarrow> 'w \<Rightarrow> (int \<times> 'w) option" where
  "unlock_28f004s5 c w = unlock_blocks c (\<lambda>i. 64 * 1024) False (chip_writeb c 0x50 (px_virtual_memory c) w)"

definition unlock_lh28f008bjt :: "'w par_ctx \<Rightarrow> 'w \<Rightarrow> (int \<times> 'w) option" where
  "unlock_lh28f008bjt c w =
     Option.bind (wait_82802ab c w) (\<lambda>(status, w').
       unlock_blocks c (\<lambda>i. if i \<ge> 64 * 1024 then 64 * 1024 else 8 * 1024) True w')"

text \<open>\<^verbatim>\<open>stm50.c\<close>: the result of the comparison is returned as the result code.\<close>

definition stm50_erase_sector :: "'w par_ctx \<Rightarrow> nat \<Rightarrow> 'w \<Rightarrow> (int \<times> 'w) option" where
  "stm50_erase_sector c addr w =
     (let a = add64 (px_virtual_memory c) addr
      in map_option (\<lambda>(status, w'). (if status = 0x80 then 1 else 0, w'))
           (wait_82802ab c (bus c [WB 0x50 a, WB 0x32 a, WB 0xd0 a, DELAY 10] w)))"

definition erase_sector_stm50 :: "'w par_ctx \<Rightarrow> nat \<Rightarrow> nat \<Rightarrow> 'w \<Rightarrow> (int \<times> 'w) option" where
  "erase_sector_stm50 c addr len w = (if len = 4096 then stm50_erase_sector c addr w else erase_block_82802ab c addr len w)"

text \<open>\<^verbatim>\<open>sst49lfxxxc.c\<close>.\<close>

definition erase_sector_49lfxxxc :: "'w par_ctx \<Rightarrow> nat \<Rightarrow> nat \<Rightarrow> 'w \<Rightarrow> (int \<times> 'w) option" where
  "erase_sector_49lfxxxc c address sector_size w =
     (let bios = px_virtual_memory c
      in map_option (\<lambda>(status, w'). (0, w')) (wait_82802ab c (bus c [WB 0x30 bios, WB 0xD0 (add64 bios address)] w)))"

section \<open>Lock registers\<close>

text \<open>\<^verbatim>\<open>sst_fwhub.c\<close>: the registers of the blocks are \<^verbatim>\<open>page_size\<close> apart.\<close>

definition check_sst_fwhub_block_lock :: "'w par_ctx \<Rightarrow> nat \<Rightarrow> 'w \<Rightarrow> u8 \<times> 'w" where
  "check_sst_fwhub_block_lock c offset w =
     (case chip_readb c (add64 (add64 (px_virtual_registers c) offset) 2) w of (blockstatus, w') \<Rightarrow> (blockstatus AND 1, w'))"

definition clear_sst_fwhub_block_lock :: "'w par_ctx \<Rightarrow> nat \<Rightarrow> 'w \<Rightarrow> u8 \<times> 'w" where
  "clear_sst_fwhub_block_lock c offset w =
     (case check_sst_fwhub_block_lock c offset w of (blockstatus, w1) \<Rightarrow>
        if blockstatus \<noteq> 0
        then check_sst_fwhub_block_lock c offset (chip_writeb c 0 (add64 (add64 (px_virtual_registers c) offset) 2) w1)
        else (blockstatus, w1))"

partial_function (option) unlock_sst_fwhub_loop :: "'w par_ctx \<Rightarrow> nat \<Rightarrow> int \<Rightarrow> 'w \<Rightarrow> (int \<times> 'w) option" where
  "unlock_sst_fwhub_loop c i ret w =
     (if i < mul32 (ch_total_size (px_chip c)) 1024
      then case clear_sst_fwhub_block_lock c i w of (locked, w1) \<Rightarrow>
             unlock_sst_fwhub_loop c (add32 i (ch_page_size (px_chip c))) (if locked \<noteq> 0 then ret + 1 else ret) w1
      else Some (ret, w))"

definition unlock_sst_fwhub :: "'w par_ctx \<Rightarrow> 'w \<Rightarrow> (int \<times> 'w) option" where
  "unlock_sst_fwhub c w = unlock_sst_fwhub_loop c 0 0 w"

text \<open>\<^verbatim>\<open>printlock.c\<close>.\<close>

definition REG2_RWLOCK :: u8 where "REG2_RWLOCK = 5"
definition REG2_LOCKDOWN :: u8 where "REG2_LOCKDOWN = 2"
definition REG2_MASK :: u8 where "REG2_MASK = REG2_RWLOCK OR REG2_LOCKDOWN"

fun walk_block :: "(nat \<Rightarrow> 'w \<Rightarrow> int \<times> 'w) \<Rightarrow> nat \<Rightarrow> nat \<Rightarrow> nat \<Rightarrow> 'w \<Rightarrow> (int \<times> nat) \<times> 'w" where
  "walk_block func sz 0 off w = ((0, off), w)"
| "walk_block func sz (Suc k) off w =
     (case func off w of (r, w1) \<Rightarrow> if r \<noteq> 0 then ((-1, off), w1) else walk_block func sz k (add64 off sz) w1)"

text \<open>The array ends with an entry whose count is zero; without one it is read past its end.\<close>

fun walk_unlockblocks :: "(nat \<Rightarrow> 'w \<Rightarrow> int \<times> 'w) \<Rightarrow> eraseblock list \<Rightarrow> nat \<Rightarrow> 'w \<Rightarrow> (int \<times> 'w) option" where
  "walk_unlockblocks func [] off w = None"
| "walk_unlockblocks func (b # bs) off w =
     (if eb_count b = 0 then Some (0, w)
      else case walk_block func (eb_size b) (eb_count b) off w of ((r, off'), w') \<Rightarrow>
             if r \<noteq> 0 then Some (-1, w') else walk_unlockblocks func bs off' w')"

definition regspace2_walk_unlockblocks ::
    "'w par_ctx \<Rightarrow> eraseblock list \<Rightarrow> (nat \<Rightarrow> 'w \<Rightarrow> int \<times> 'w) \<Rightarrow> 'w \<Rightarrow> (int \<times> 'w) option" where
  "regspace2_walk_unlockblocks c blocks func w = walk_unlockblocks func blocks (add64 (px_virtual_registers c) 2) w"

text \<open>The three steps of \<^verbatim>\<open>changelock_regspace2_block\<close>: each returns the value of the register, or fails.\<close>

definition clear_lockdown :: "'w par_ctx \<Rightarrow> nat \<Rightarrow> u8 \<Rightarrow> u8 \<Rightarrow> 'w \<Rightarrow> u8 option \<times> 'w" where
  "clear_lockdown c lockreg cur new w =
     (if cur AND REG2_LOCKDOWN \<noteq> 0 \<and> new AND REG2_LOCKDOWN = 0
      then case chip_readb c lockreg (chip_writeb c (cur AND NOT REG2_LOCKDOWN) lockreg w) of (cur', w') \<Rightarrow>
             (if cur' AND REG2_LOCKDOWN = REG2_LOCKDOWN then None else Some cur', w')
      else (Some cur, w))"

definition change_rwlock :: "'w par_ctx \<Rightarrow> nat \<Rightarrow> u8 \<Rightarrow> u8 \<Rightarrow> 'w \<Rightarrow> u8 option \<times> 'w" where
  "change_rwlock c lockreg cur new w =
     (if (cur XOR new) AND REG2_RWLOCK \<noteq> 0
      then let wanted = (cur AND NOT REG2_RWLOCK) OR (new AND REG2_RWLOCK)
           in case chip_readb c lockreg (chip_writeb c wanted lockreg w) of (cur', w') \<Rightarrow>
                (if cur' \<noteq> wanted then None else Some cur', w')
      else (Some cur, w))"

definition set_lockdown :: "'w par_ctx \<Rightarrow> nat \<Rightarrow> u8 \<Rightarrow> u8 \<Rightarrow> 'w \<Rightarrow> u8 option \<times> 'w" where
  "set_lockdown c lockreg cur new w =
     (if cur AND REG2_LOCKDOWN = 0 \<and> new AND REG2_LOCKDOWN \<noteq> 0
      then case chip_readb c lockreg (chip_writeb c new lockreg w) of (cur', w') \<Rightarrow> (if cur' \<noteq> new then None else Some cur', w')
      else (Some cur, w))"

definition changelock_regspace2_block :: "'w par_ctx \<Rightarrow> nat \<Rightarrow> u8 \<Rightarrow> u8 \<Rightarrow> 'w \<Rightarrow> int \<times> 'w" where
  "changelock_regspace2_block c lockreg cur new w =
     (if (cur XOR new) AND NOT REG2_MASK \<noteq> 0 then (-1, w)
      else if (cur XOR new) AND REG2_MASK = 0 then (0, w)
      else case clear_lockdown c lockreg cur new w of
        (None, w1) \<Rightarrow> (-1, w1)
      | (Some cur1, w1) \<Rightarrow>
          (case change_rwlock c lockreg cur1 new w1 of
             (None, w2) \<Rightarrow> (-1, w2)
           | (Some cur2, w2) \<Rightarrow>
               (case set_lockdown c lockreg cur2 new w2 of
                  (None, w3) \<Rightarrow> (-1, w3)
                | (Some cur3, w3) \<Rightarrow> (0, w3))))"

definition unlock_regspace2_block_generic :: "'w par_ctx \<Rightarrow> nat \<Rightarrow> 'w \<Rightarrow> int \<times> 'w" where
  "unlock_regspace2_block_generic c lockreg w =
     (case chip_readb c lockreg w of (old, w1) \<Rightarrow> changelock_regspace2_block c lockreg old (old AND NOT REG2_RWLOCK) w1)"

definition unlock_regspace2_uniform :: "'w par_ctx \<Rightarrow> nat \<Rightarrow> 'w \<Rightarrow> (int \<times> 'w) option" where
  "unlock_regspace2_uniform c block_size w =
     regspace2_walk_unlockblocks c
       [\<lparr>eb_size = block_size, eb_count = mul32 (ch_total_size (px_chip c)) 1024 div block_size\<rparr>, \<lparr>eb_size = 0, eb_count = 0\<rparr>]
       (unlock_regspace2_block_generic c) w"

definition unlock_regspace2_uniform_64k :: "'w par_ctx \<Rightarrow> 'w \<Rightarrow> (int \<times> 'w) option" where
  "unlock_regspace2_uniform_64k c w = unlock_regspace2_uniform c (64 * 1024) w"

definition unlock_regspace2_uniform_32k :: "'w par_ctx \<Rightarrow> 'w \<Rightarrow> (int \<times> 'w) option" where
  "unlock_regspace2_uniform_32k c w = unlock_regspace2_uniform c (32 * 1024) w"

definition unlock_regspace2_block_eraser_0 :: "'w par_ctx \<Rightarrow> 'w \<Rightarrow> (int \<times> 'w) option" where
  "unlock_regspace2_block_eraser_0 c w =
     regspace2_walk_unlockblocks c (be_blocks (ch_erasers (px_chip c) ! 0)) (unlock_regspace2_block_generic c) w"

definition unlock_regspace2_block_eraser_1 :: "'w par_ctx \<Rightarrow> 'w \<Rightarrow> (int \<times> 'w) option" where
  "unlock_regspace2_block_eraser_1 c w =
     regspace2_walk_unlockblocks c (be_blocks (ch_erasers (px_chip c) ! 1)) (unlock_regspace2_block_generic c) w"

end
