(* ===== verification/ParallelOk.thy ===== *)
theory ParallelOk
  imports Fwh IchImage
begin

text \<open>
  Correctness of the drivers for parallel chips. The locale \<open>jedec_chip\<close> states what a chip with the JEDEC command set
  documents: the unlock cycles before a command, the toggling bit while it is busy, and what programming and erasing do.
  \<open>jedec_hw\<close> is such a chip as a machine, and the instance of the locale.
\<close>

section \<open>Chips with the JEDEC command set\<close>

lemma and_0x40_eq_iff: "(v AND 0x40 = v' AND 0x40) \<longleftrightarrow> (bit (v :: u8) 6 = bit v' 6)"
proof -
  have "bit (x AND 0x40) i \<longleftrightarrow> i = 6 \<and> bit x 6" for x :: u8 and i
  proof -
    have "bit (0x40 :: u8) i \<longleftrightarrow> bit (2 ^ 6 :: u8) i" by simp
    also have "\<dots> \<longleftrightarrow> i = 6" by (simp only: bit_exp_iff possible_bit_word) auto
    finally show ?thesis by (auto simp: bit_and_iff)
  qed
  then show ?thesis by (metis bit_eqI)
qed

text \<open>The sector of \<open>sz\<close> bytes that contains \<open>x\<close>, erased.\<close>

definition sector_erased :: "nat \<Rightarrow> nat \<Rightarrow> bytes \<Rightarrow> bytes" where
  "sector_erased sz x m = memset_at (x div sz * sz) 0xFF sz m"

text \<open>The memory \<open>m\<close> after the bytes \<open>bs\<close> were programmed at \<open>x\<close> without an erase, and whether
  each of them can be or is 0xFF, which is not looked at.\<close>

definition programmed :: "bytes \<Rightarrow> nat \<Rightarrow> bytes \<Rightarrow> bytes" where
  "programmed m x bs = map (\<lambda>i. if x \<le> i \<and> i < x + length bs then m ! i AND bs ! (i - x) else m ! i) [0..<length m]"

definition takes :: "bytes \<Rightarrow> nat \<Rightarrow> bytes \<Rightarrow> bool" where
  "takes m x bs \<longleftrightarrow> list_all (\<lambda>i. bs ! i = 0xFF \<or> m ! (x + i) AND bs ! i = bs ! i) [0..<length bs]"

lemma programmed_Nil [simp]: "programmed m x [] = m"
  by (rule nth_equalityI) (auto simp: programmed_def)

lemma nth_programmed: "i < length m \<Longrightarrow> programmed m x bs ! i = (if x \<le> i \<and> i < x + length bs then m ! i AND bs ! (i - x) else m ! i)"
  by (simp add: programmed_def)

lemma length_programmed [simp]: "length (programmed m x bs) = length m"
  by (simp add: programmed_def)

lemma programmed_append:
  "programmed (programmed m x xs) (x + length xs) ys = programmed m x (xs @ ys)"
  by (rule nth_equalityI) (auto simp: nth_programmed nth_append)

lemma programmed_again [simp]: "programmed (programmed m x bs) x bs = programmed m x bs"
  by (rule nth_equalityI) (auto simp: nth_programmed and.assoc)

lemma takes_Nil [simp]: "takes m x []"
  by (simp add: takes_def)

lemma programmed_Cons:
  assumes "x < length m"
  shows "programmed m x (b # bs) = programmed (m[x := m ! x AND b]) (Suc x) bs"
proof (rule nth_equalityI)
  fix i assume "i < length (programmed m x (b # bs))"
  then have "i < length m" by (simp add: programmed_def)
  moreover have "(b # bs) ! (i - x) = bs ! (i - Suc x)" if "x < i" using that by (simp add: nth_Cons')
  ultimately show "programmed m x (b # bs) ! i = programmed (m[x := m ! x AND b]) (Suc x) bs ! i"
    using assms by (cases "i = x") (auto simp: programmed_def not_less_eq_eq)
qed (simp add: programmed_def)

lemma takes_Cons:
  "takes m x (b # bs) \<longleftrightarrow> (b = 0xFF \<or> m ! x AND b = b) \<and> takes (m[x := m ! x AND b]) (Suc x) bs"
proof -
  have "[0..<length (b # bs)] = 0 # map Suc [0..<length bs]" by (simp only: list.size add_0_right add_Suc_right map_Suc_upt upt_conv_Cons [OF zero_less_Suc])
  then show ?thesis unfolding takes_def by (simp only: list.pred_map list.pred_inject o_def nth_Cons_0 nth_Cons_Suc) (simp add: list_all_iff)
qed

text \<open>\<open>busy k t m w\<close>: the chip is busy for \<open>k\<close> more reads, the next of which has the toggle bit \<open>t\<close>, and will then hold \<open>m\<close>.
  \<open>a1\<close> and \<open>a2\<close> are the addresses of the unlock cycles.\<close>

locale jedec_chip =
  fixes c :: "'w par_ctx" and n sector a1 a2 :: nat and content :: "'w \<Rightarrow> bytes" and ready :: "'w \<Rightarrow> bool"
    and busy :: "nat \<Rightarrow> bool \<Rightarrow> bytes \<Rightarrow> 'w \<Rightarrow> bool"
  assumes space: "px_virtual_memory c + n < 2 ^ 64" and some: "0 < n" and a1: "0 < a1"
    and unlock: "unlock1 c = px_virtual_memory c + a1" "unlock2 c = px_virtual_memory c + a2"
    and len: "ready w \<Longrightarrow> length (content w) = n"
    and read: "ready w \<Longrightarrow> x < n \<Longrightarrow> pm_readb (px_mst c) (px_virtual_memory c + x) w = (content w ! x, w)"
    and readn: "ready w \<Longrightarrow> pm_readn (px_mst c) = Some f \<Longrightarrow> snd (f addr len w) = w"
    and busy_read: "busy (Suc k) t m w \<Longrightarrow>
      \<exists>v w'. pm_readb (px_mst c) addr w = (v, w') \<and> bit v 6 = t \<and> busy k (\<not> t) m w'"
    and busy_done: "busy 0 t m w \<Longrightarrow> ready w \<and> content w = m"
    and busy_delay: "busy k t m w \<Longrightarrow> \<exists>k' \<le> k. busy k' t m (pm_delay (px_mst c) us w)"
    and ready_delay: "ready w \<Longrightarrow> ready (pm_delay (px_mst c) us w) \<and> content (pm_delay (px_mst c) us w) = content w"
    and program: "ready w \<Longrightarrow> x < n \<Longrightarrow>
      \<exists>k t. k < 0xFFFFFFE \<and> busy k t ((content w)[x := content w ! x AND v])
        (bus c [WB 0xAA (px_virtual_memory c + a1), WB 0x55 (px_virtual_memory c + a2), WB 0xA0 (px_virtual_memory c + a1),
          WB v (px_virtual_memory c + x)] w)"
    and erase_sector: "ready w \<Longrightarrow> x < n \<Longrightarrow>
      \<exists>k t. k < 0xFFFFFFE \<and> busy k t (sector_erased sector x (content w))
        (bus c [WB 0xAA (px_virtual_memory c + a1), DELAY d, WB 0x55 (px_virtual_memory c + a2), DELAY d, WB 0x80 (px_virtual_memory c + a1), DELAY d,
          WB 0xAA (px_virtual_memory c + a1), DELAY d, WB 0x55 (px_virtual_memory c + a2), DELAY d, WB 0x30 (px_virtual_memory c + x), DELAY d] w)"
    and erase_chip: "ready w \<Longrightarrow>
      \<exists>k t. k < 0xFFFFFFE \<and> busy k t (replicate n 0xFF)
        (bus c [WB 0xAA (px_virtual_memory c + a1), DELAY d, WB 0x55 (px_virtual_memory c + a2), DELAY d, WB 0x80 (px_virtual_memory c + a1), DELAY d,
          WB 0xAA (px_virtual_memory c + a1), DELAY d, WB 0x55 (px_virtual_memory c + a2), DELAY d, WB 0x10 (px_virtual_memory c + a1), DELAY d] w)"
begin

lemma par_delay_busy: "busy k t m w \<Longrightarrow> \<exists>k' \<le> k. busy k' t m (par_delay c us w)"
  using busy_delay [of k t m w us] by (cases "us = 0") (auto simp: par_delay_def)

lemma par_delay_ready: "ready w \<Longrightarrow> ready (par_delay c us w) \<and> content (par_delay c us w) = content w"
  using ready_delay [of w us] by (auto simp: par_delay_def)

lemma fallback_chip_readn_correct:
  "ready w \<Longrightarrow> x + i + k \<le> n \<Longrightarrow> fallback_chip_readn c (px_virtual_memory c + x) i k w = (bslice (x + i) k (content w), w)"
proof (induction k arbitrary: i)
  case (Suc k)
  have "add64 (px_virtual_memory c + x) i = px_virtual_memory c + (x + i)" using space Suc.prems by (simp add: add64_def)
  then show ?case
    using Suc.IH [of "Suc i"] Suc.prems read [of w "x + i"] len [of w]
    by (simp add: chip_readb_def bslice_def Cons_nth_drop_Suc [symmetric])
qed simp

lemma read_memmapped_correct:
  assumes "ready w" and "x + k \<le> n"
  shows "read_memmapped c x k w = (0, bslice x k (content w), w)"
proof -
  have "add64 (px_virtual_memory c) x = px_virtual_memory c + x" using space assms(2) by (simp add: add64_def)
  then show ?thesis
    using fallback_chip_readn_correct [OF assms(1), of x 0 k] assms readn
    by (auto simp: read_memmapped_def chip_readn_def split: option.splits)
qed

lemma toggle_loop_ready:
  assumes "ready w" and "x < n" and "Suc i < 0xFFFFFFF"
  shows "ready (toggle_loop c (px_virtual_memory c + x) us tmp i w) \<and> content (toggle_loop c (px_virtual_memory c + x) us tmp i w) = content w"
proof -
  have d: "ready (par_delay c us w)" "content (par_delay c us w) = content w" "ready (par_delay c us (par_delay c us w))"
    "content (par_delay c us (par_delay c us w)) = content w" using par_delay_ready assms(1) by auto
  have "toggle_loop c (px_virtual_memory c + x) us tmp i w \<in> {par_delay c us w, par_delay c us (par_delay c us w)}"
    using assms(2,3) read [OF d(1)] read [OF d(3)] d(2,4)
    by (subst toggle_loop.simps, subst toggle_loop.simps) (simp add: chip_readb_def)
  then show ?thesis using d by auto
qed

lemma toggle_loop_busy:
  assumes "busy k (\<not> t) m w" and "bit v 6 = t" and "x < n" and "i + k + 1 < 0xFFFFFFF"
  shows "ready (toggle_loop c (px_virtual_memory c + x) us (v AND 0x40) i w) \<and>
    content (toggle_loop c (px_virtual_memory c + x) us (v AND 0x40) i w) = m"
  using assms
proof (induction k arbitrary: t v w i rule: less_induct)
  case (less k)
  obtain k' where k': "k' \<le> k" "busy k' (\<not> t) m (par_delay c us w)" using par_delay_busy [OF less.prems(1)] by blast
  show ?case
  proof (cases k')
    case 0
    then have r: "ready (par_delay c us w)" "content (par_delay c us w) = m" using busy_done k'(2) by blast+
    have rd: "pm_readb (px_mst c) (px_virtual_memory c + x) (par_delay c us w) = (m ! x, par_delay c us w)"
      using read [OF r(1) less.prems(3)] r(2) by simp
    have "toggle_loop c (px_virtual_memory c + x) us (v AND 0x40) i w =
        (if v AND 0x40 = m ! x AND 0x40 then par_delay c us w
         else toggle_loop c (px_virtual_memory c + x) us (m ! x AND 0x40) (Suc i) (par_delay c us w))"
      using less.prems(4) by (subst toggle_loop.simps) (simp add: chip_readb_def rd)
    moreover have "k = 0 \<Longrightarrow> Suc (Suc i) < 0xFFFFFFF \<or> True" by simp
    ultimately show ?thesis
    proof (cases "v AND 0x40 = m ! x AND 0x40")
      case False
      have "toggle_loop c (px_virtual_memory c + x) us (m ! x AND 0x40) (Suc i) (par_delay c us w) \<in>
          {par_delay c us w, par_delay c us (par_delay c us w)}"
        using read [OF conjunct1 [OF par_delay_ready [OF r(1)]] less.prems(3), of us] par_delay_ready [OF r(1), of us] r(2)
        by (subst toggle_loop.simps) (simp add: chip_readb_def)
      then show ?thesis using False r par_delay_ready [OF r(1), of us]
          \<open>toggle_loop c (px_virtual_memory c + x) us (v AND 0x40) i w = _\<close> by auto
    qed (use r in auto)
  next
    case (Suc j)
    obtain v' w' where rd: "pm_readb (px_mst c) (px_virtual_memory c + x) (par_delay c us w) = (v', w')" "bit v' 6 = (\<not> t)" "busy j t m w'"
      using busy_read [of j "\<not> t" m "par_delay c us w" "px_virtual_memory c + x"] k'(2) Suc by auto
    have ne: "v AND 0x40 \<noteq> v' AND 0x40" using rd(2) less.prems(2) by (simp add: and_0x40_eq_iff)
    have "toggle_loop c (px_virtual_memory c + x) us (v AND 0x40) i w = toggle_loop c (px_virtual_memory c + x) us (v' AND 0x40) (Suc i) w'"
      using less.prems(4) ne by (subst toggle_loop.simps) (simp add: chip_readb_def rd(1))
    moreover have "j < k" "Suc i + j + 1 < 0xFFFFFFF" using k'(1) Suc less.prems(4) by auto
    ultimately show ?thesis using less.IH [of j "\<not> t" w' v' "Suc i"] rd less.prems(3) by simp
  qed
qed

lemma toggle_settles:
  assumes "busy k t m w" and "k < 0xFFFFFFE" and "x < n"
  shows "ready (toggle_ready_jedec_common c (px_virtual_memory c + x) us w) \<and>
    content (toggle_ready_jedec_common c (px_virtual_memory c + x) us w) = m"
proof (cases k)
  case 0
  then have r: "ready w" "content w = m" using busy_done assms(1) by blast+
  then show ?thesis
    using toggle_loop_ready [OF r(1) assms(3), of 0] read [OF r(1) assms(3)]
    by (simp add: toggle_ready_jedec_common_def chip_readb_def)
next
  case (Suc j)
  obtain v w' where rd: "pm_readb (px_mst c) (px_virtual_memory c + x) w = (v, w')" "bit v 6 = t" "busy j (\<not> t) m w'"
    using busy_read assms(1) Suc by blast
  then show ?thesis
    using toggle_loop_busy [OF rd(3,2) assms(3), of 0 us] assms(2) Suc
    by (simp add: toggle_ready_jedec_common_def chip_readb_def)
qed

text \<open>One attempt to program a byte: bits can only be cleared.\<close>

lemma program_step:
  fixes v :: u8
  assumes "ready w" and "x < n"
  defines "w1 \<equiv> toggle_ready_jedec c (px_virtual_memory c) (chip_writeb c v (px_virtual_memory c + x) (start_program_jedec_common c w))"
  shows "ready w1 \<and> content w1 = (content w)[x := content w ! x AND v]"
proof -
  obtain k t where "k < 0xFFFFFFE" "busy k t ((content w)[x := content w ! x AND v])
      (chip_writeb c v (px_virtual_memory c + x) (start_program_jedec_common c w))"
    using program [OF assms(1,2), of v] by (auto simp: start_program_jedec_common_def unlock)
  then show ?thesis
    using toggle_settles [of k t _ _ 0 0] some unfolding w1_def toggle_ready_jedec_def by auto
qed

lemma program_tries_correct:
  assumes "ready w" and "x < n"
  shows "\<exists>w'. program_tries c v (px_virtual_memory c + x) (Suc k) w = (if content w ! x AND v = v then 0 else 1, w') \<and>
    ready w' \<and> content w' = (content w)[x := content w ! x AND v]"
  using assms
proof (induction k arbitrary: w)
  case (0 w)
  note st = program_step [OF 0, of v] and ln = len [OF 0(1)]
  show ?case using st ln 0(2) read [OF conjunct1 [OF st] 0(2)] by (simp add: chip_readb_def)
next
  case (Suc k w)
  define w1 where
    "w1 = toggle_ready_jedec c (px_virtual_memory c) (chip_writeb c v (px_virtual_memory c + x) (start_program_jedec_common c w))"
  have st: "ready w1" "content w1 = (content w)[x := content w ! x AND v]"
    using program_step [OF Suc.prems, of v] by (simp_all add: w1_def)
  have rd: "chip_readb c (px_virtual_memory c + x) w1 = (content w ! x AND v, w1)"
    using read [OF st(1) Suc.prems(2)] st(2) len [OF Suc.prems(1)] Suc.prems(2) by (simp add: chip_readb_def)
  show ?case
  proof (cases "content w ! x AND v = v")
    case True
    then show ?thesis using rd st by (simp add: w1_def [symmetric])
  next
    case False
    have "program_tries c v (px_virtual_memory c + x) (Suc (Suc k)) w = program_tries c v (px_virtual_memory c + x) (Suc k) w1"
      using rd False by (subst program_tries.simps) (simp add: w1_def [symmetric] Let_def)
    then show ?thesis
      using Suc.IH [OF st(1) Suc.prems(2)] st(2) False len [OF Suc.prems(1)] Suc.prems(2) by (auto simp: and.assoc)
  qed
qed

lemma write_byte_correct:
  assumes "ready w" and "x < n"
  shows "\<exists>w'. write_byte_program_jedec_common c v (px_virtual_memory c + x) w = (if v = 0xFF \<or> content w ! x AND v = v then 0 else 1, w') \<and>
    ready w' \<and> content w' = (content w)[x := content w ! x AND v]"
proof (cases "v = 0xFF")
  case True
  have "(0xFF :: u8) = - 1" by simp
  then have "content w ! x AND 0xFF = content w ! x" by (simp only: and.right_neutral)
  then show ?thesis using True assms by (simp add: write_byte_program_jedec_common_def)
next
  case False
  have "MAX_REFLASH_TRIES = Suc 15" by (simp add: MAX_REFLASH_TRIES_def)
  then show ?thesis
    using program_tries_correct [OF assms, of v 15] False
    by (simp only: write_byte_program_jedec_common_def if_False simp_thms)
qed

lemma write_jedec_1_loop_correct:
  assumes "ready w" and "x + length bs \<le> n"
  shows "\<exists>w'. write_jedec_1_loop c bs (px_virtual_memory c + x) failed w = (if takes (content w) x bs then failed else 1, w') \<and>
    ready w' \<and> content w' = programmed (content w) x bs"
  using assms
proof (induction bs arbitrary: x failed w)
  case (Cons b bs)
  obtain w1 where w1: "write_byte_program_jedec_common c b (px_virtual_memory c + x) w =
      (if b = 0xFF \<or> content w ! x AND b = b then 0 else 1, w1)" "ready w1" "content w1 = (content w)[x := content w ! x AND b]"
    using write_byte_correct [of w x b] Cons.prems by auto
  have ad: "add64 (px_virtual_memory c + x) 1 = px_virtual_memory c + Suc x"
    using space Cons.prems(2) by (simp add: add64_def)
  define f where "f = (if b = 0xFF \<or> content w ! x AND b = b then failed else 1)"
  have e: "write_jedec_1_loop c (b # bs) (px_virtual_memory c + x) failed w =
      write_jedec_1_loop c bs (px_virtual_memory c + Suc x) f w1"
    by (simp add: w1(1) ad f_def del: One_nat_def)
  obtain w' where "write_jedec_1_loop c bs (px_virtual_memory c + Suc x) f w1 = (if takes (content w1) (Suc x) bs then f else 1, w')"
      "ready w'" "content w' = programmed (content w1) (Suc x) bs"
    using Cons.IH [OF w1(2), of "Suc x" f] Cons.prems(2) by auto
  then show ?case
    using e w1(3) len [OF Cons.prems(1)] Cons.prems(2) by (auto simp: programmed_Cons takes_Cons f_def)
qed simp

lemma write_jedec_1_correct:
  assumes "ready w" and "length src = len" and "start + len \<le> n"
  shows "\<exists>w'. write_jedec_1 c src start len w = Some (if takes (content w) start src then 0 else 1, w') \<and>
    ready w' \<and> content w' = programmed (content w) start src"
proof -
  have "add64 (px_virtual_memory c) start = px_virtual_memory c + start" using space assms(3) by (simp add: add64_def)
  then show ?thesis using write_jedec_1_loop_correct [OF assms(1), of start src 0] assms(2,3) by (auto simp: write_jedec_1_def)
qed

text \<open>The erase functions. With the address zero, the command goes to the unlock address.\<close>

lemma issuecmd_pair:
  assumes "x < n" and "y = (if x = 0 then a1 else x)"
  obtains d where "issuecmd c op x (issuecmd c 0x80 0 w) =
    bus c [WB 0xAA (px_virtual_memory c + a1), DELAY d, WB 0x55 (px_virtual_memory c + a2), DELAY d, WB 0x80 (px_virtual_memory c + a1), DELAY d,
      WB 0xAA (px_virtual_memory c + a1), DELAY d, WB 0x55 (px_virtual_memory c + a2), DELAY d,
      WB op (px_virtual_memory c + y), DELAY d] w"
  using assms space
  by (intro that [of "if ch_probe_timing (px_chip c) = TIMING_ZERO then 0 else 10"]) (simp add: issuecmd_def unlock Let_def add64_def)

lemma erase_sector_jedec_correct:
  assumes "ready w" and "x < n" and "a1 < n"
  shows "\<exists>w'. erase_sector_jedec c x sz w = (0, w') \<and> ready w' \<and>
    content w' = sector_erased sector (if x = 0 then a1 else x) (content w)"
proof -
  define y where "y = (if x = 0 then a1 else x)"
  have y: "y < n" using assms by (simp add: y_def)
  obtain d where d: "issuecmd c 0x30 x (issuecmd c 0x80 0 w) =
    bus c [WB 0xAA (px_virtual_memory c + a1), DELAY d, WB 0x55 (px_virtual_memory c + a2), DELAY d, WB 0x80 (px_virtual_memory c + a1), DELAY d,
      WB 0xAA (px_virtual_memory c + a1), DELAY d, WB 0x55 (px_virtual_memory c + a2), DELAY d, WB 0x30 (px_virtual_memory c + y), DELAY d] w"
    using issuecmd_pair [OF assms(2) y_def] by blast
  obtain k t where "k < 0xFFFFFFE" "busy k t (sector_erased sector y (content w)) (issuecmd c 0x30 x (issuecmd c 0x80 0 w))"
    using erase_sector [OF assms(1) y, of d] unfolding d by blast
  then show ?thesis
    using toggle_settles [of k t _ _ 0 "8 * 1000"] some unfolding y_def
    by (simp add: erase_sector_jedec_def toggle_ready_jedec_slow_def)
qed

lemma erase_chip_jedec_correct:
  assumes "ready w" and "mul32 (ch_total_size (px_chip c)) 1024 = n"
  shows "\<exists>w'. erase_chip_block_jedec c 0 n w = (0, w') \<and> ready w' \<and> content w' = replicate n 0xFF"
proof -
  obtain d where d: "issuecmd c 0x10 0 (issuecmd c 0x80 0 w) =
    bus c [WB 0xAA (px_virtual_memory c + a1), DELAY d, WB 0x55 (px_virtual_memory c + a2), DELAY d, WB 0x80 (px_virtual_memory c + a1), DELAY d,
      WB 0xAA (px_virtual_memory c + a1), DELAY d, WB 0x55 (px_virtual_memory c + a2), DELAY d, WB 0x10 (px_virtual_memory c + a1), DELAY d] w"
    using issuecmd_pair [OF some, of a1] by auto
  obtain k t where "k < 0xFFFFFFE" "busy k t (replicate n 0xFF) (issuecmd c 0x10 0 (issuecmd c 0x80 0 w))"
    using erase_chip [OF assms(1), of d] unfolding d by blast
  then show ?thesis
    using toggle_settles [of k t _ _ 0 "8 * 1000"] some assms(2)
    by (simp add: erase_chip_block_jedec_def toggle_ready_jedec_slow_def)
qed

end

section \<open>A machine with the JEDEC command set\<close>

text \<open>The chip follows the bus cycles through the states of its command register. While it is busy it ignores writes and
  answers a read with the toggling bit; a wait shortens the time it is busy.\<close>

datatype jedec_state = Idle | Unlock1 | Unlock2 | Program | Erase0 | Erase1 | Erase2

record jedec_hw =
  jh_mem :: bytes
  jh_state :: jedec_state
  jh_busy :: nat
  jh_toggle :: bool

definition jh_write :: "nat \<Rightarrow> nat \<Rightarrow> nat \<Rightarrow> nat \<Rightarrow> u8 \<Rightarrow> nat \<Rightarrow> jedec_hw \<Rightarrow> jedec_hw" where
  "jh_write sector lat a1 a2 v x h =
     (if jh_busy h \<noteq> 0 then h
      else case jh_state h of
        Idle \<Rightarrow> h\<lparr>jh_state := if v = 0xAA \<and> x = a1 then Unlock1 else Idle\<rparr>
      | Unlock1 \<Rightarrow> h\<lparr>jh_state := if v = 0x55 \<and> x = a2 then Unlock2 else Idle\<rparr>
      | Unlock2 \<Rightarrow> h\<lparr>jh_state := if x \<noteq> a1 then Idle else if v = 0xA0 then Program else if v = 0x80 then Erase0 else Idle\<rparr>
      | Program \<Rightarrow> h\<lparr>jh_state := Idle, jh_busy := lat, jh_mem := (jh_mem h)[x := jh_mem h ! x AND v]\<rparr>
      | Erase0 \<Rightarrow> h\<lparr>jh_state := if v = 0xAA \<and> x = a1 then Erase1 else Idle\<rparr>
      | Erase1 \<Rightarrow> h\<lparr>jh_state := if v = 0x55 \<and> x = a2 then Erase2 else Idle\<rparr>
      | Erase2 \<Rightarrow>
          (if v = 0x30 then h\<lparr>jh_state := Idle, jh_busy := lat, jh_mem := sector_erased sector x (jh_mem h)\<rparr>
           else if v = 0x10 \<and> x = a1 then h\<lparr>jh_state := Idle, jh_busy := lat, jh_mem := replicate (length (jh_mem h)) 0xFF\<rparr>
           else h\<lparr>jh_state := Idle\<rparr>))"

definition jh_read :: "nat \<Rightarrow> jedec_hw \<Rightarrow> u8 \<times> jedec_hw" where
  "jh_read x h =
     (if jh_busy h \<noteq> 0
      then (if jh_toggle h then 0x40 else 0, h\<lparr>jh_busy := jh_busy h - 1, jh_toggle := \<not> jh_toggle h\<rparr>)
      else (if x < length (jh_mem h) then jh_mem h ! x else 0xFF, h))"

definition jh_delay :: "nat \<Rightarrow> jedec_hw \<Rightarrow> jedec_hw" where
  "jh_delay us h = h\<lparr>jh_busy := jh_busy h - us\<rparr>"

text \<open>The offsets of the unlock cycles.\<close>

definition offset1 :: "flashchip \<Rightarrow> nat" where
  "offset1 chip = (if chip_shifted chip then 0x2AAA else 0x5555) AND getaddrmask chip"

definition offset2 :: "flashchip \<Rightarrow> nat" where
  "offset2 chip = (if chip_shifted chip then 0x5555 else 0x2AAA) AND getaddrmask chip"

definition jedec_ctx :: "flashchip \<Rightarrow> nat \<Rightarrow> nat \<Rightarrow> nat \<Rightarrow> jedec_hw par_ctx" where
  "jedec_ctx chip base sector lat =
     \<lparr>px_chip = chip,
      px_mst = \<lparr>pm_writeb = \<lambda>v addr. jh_write sector lat (offset1 chip) (offset2 chip) v (addr - base),
        pm_writew = None, pm_writel = None, pm_writen = None, pm_readb = \<lambda>addr. jh_read (addr - base),
        pm_readw = None, pm_readl = None, pm_readn = None, pm_delay = jh_delay\<rparr>,
      px_virtual_memory = base, px_virtual_registers = 0, px_verify_range = \<lambda>_ _ _ _. None\<rparr>"

definition jh_ready :: "nat \<Rightarrow> jedec_hw \<Rightarrow> bool" where
  "jh_ready n h \<longleftrightarrow> jh_busy h = 0 \<and> jh_state h = Idle \<and> length (jh_mem h) = n"

definition jh_working :: "nat \<Rightarrow> nat \<Rightarrow> bool \<Rightarrow> bytes \<Rightarrow> jedec_hw \<Rightarrow> bool" where
  "jh_working n k t m h \<longleftrightarrow> jh_busy h = k \<and> jh_toggle h = t \<and> jh_mem h = m \<and> jh_state h = Idle \<and> length m = n"

text \<open>A chip and where it is mapped: at least 32 KiB, whole sectors, one of the three address masks.\<close>

definition jedec_setup :: "flashchip \<Rightarrow> nat \<Rightarrow> nat \<Rightarrow> nat \<Rightarrow> nat \<Rightarrow> bool" where
  "jedec_setup chip base n sector lat \<longleftrightarrow>
     0x8000 \<le> n \<and> base + n < 2 ^ 64 \<and> getaddrmask chip \<noteq> 0 \<and> 0 < sector \<and> n mod sector = 0 \<and> lat < 0xFFFFFFE"

lemma offsets:
  assumes "getaddrmask chip \<noteq> 0"
  shows "0 < offset1 chip" "offset1 chip < 0x8000" "offset2 chip < 0x8000"
  using assms by (auto simp: offset1_def offset2_def getaddrmask_def MASK_FULL_def MASK_2AA_def MASK_AAA_def Let_def split: if_splits)

lemma jedec_ctx_simps [simp]:
  "px_virtual_memory (jedec_ctx chip base sector lat) = base" "px_chip (jedec_ctx chip base sector lat) = chip"
  "pm_readb (px_mst (jedec_ctx chip base sector lat)) addr h = jh_read (addr - base) h"
  "pm_delay (px_mst (jedec_ctx chip base sector lat)) us h = jh_delay us h"
  "chip_writeb (jedec_ctx chip base sector lat) v addr h = jh_write sector lat (offset1 chip) (offset2 chip) v (addr - base) h"
  "par_delay (jedec_ctx chip base sector lat) us h = h\<lparr>jh_busy := jh_busy h - us\<rparr>"
  by (simp_all add: jedec_ctx_def chip_writeb_def par_delay_def jh_delay_def)

lemma sector_erased_length [simp]: "length (sector_erased sector x m) = length m"
  by (simp add: sector_erased_def)

lemma jedec_hw_chip:
  assumes "jedec_setup chip base n sector lat"
  shows "jedec_chip (jedec_ctx chip base sector lat) n sector (offset1 chip) (offset2 chip) jh_mem (jh_ready n) (jh_working n)"
proof -
  note a = assms [unfolded jedec_setup_def]
  note off = offsets [of chip]
  show ?thesis
  proof (unfold_locales, goal_cases)
    case (4) then show ?case using a off(2) by (simp add: unlock1_def offset1_def add64_def)
  next
    case (5) then show ?case using a off(3) by (simp add: unlock2_def offset2_def add64_def)
  next
    case (8) then show ?case by (simp add: jedec_ctx_def)
  next
    case (9) then show ?case by (auto simp: jh_working_def jh_read_def)
  qed (use a off in \<open>auto simp: jh_ready_def jh_working_def jh_read_def jh_delay_def jh_write_def\<close>)
qed

text \<open>The entry \<^verbatim>\<open>Am29F040B\<close>: 512 KiB in sectors of 64 KiB, with addresses of eleven bits in the unlock cycles.\<close>

definition am29f040b_chip :: flashchip where
  "am29f040b_chip =
     \<lparr>ch_vendor = Some ''AMD'', ch_name = Some ''Am29F040B'', ch_bustype = BUS_PARALLEL,
      ch_manufacture_id = 0x01, ch_model_id = 0xA4, ch_total_size = 512, ch_page_size = 64 * 1024,
      ch_feature_bits = FEATURE_ADDR_2AA OR FEATURE_SHORT_RESET,
      ch_tested = \<lparr>t_probe = NT, t_read = NT, t_erase = NT, t_write = NT, t_wp = NT\<rparr>,
      ch_spi_cmd_set = SPI25, ch_probe = PROBE_JEDEC, ch_probe_timing = TIMING_ZERO,
      ch_erasers =
        [uniform_eraser (64 * 1024) 8 JEDEC_SECTOR_ERASE, uniform_eraser (512 * 1024) 1 JEDEC_CHIP_BLOCK_ERASE,
         no_eraser, no_eraser, no_eraser, no_eraser, no_eraser, no_eraser],
      ch_write = WRITE_JEDEC1, ch_read = READ_MEMMAPPED, ch_gran = WRITE_GRAN_256BYTES\<rparr>"

text \<open>The entry \<^verbatim>\<open>SST39SF010A\<close>: 128 KiB in sectors of 4 KiB, with full addresses.\<close>

definition sst39sf010a_chip :: flashchip where
  "sst39sf010a_chip =
     \<lparr>ch_vendor = Some ''SST'', ch_name = Some ''SST39SF010A'', ch_bustype = BUS_PARALLEL,
      ch_manufacture_id = 0xBF, ch_model_id = 0xB5, ch_total_size = 128, ch_page_size = 4096,
      ch_feature_bits = FEATURE_LONG_RESET,
      ch_tested = \<lparr>t_probe = OK, t_read = OK, t_erase = OK, t_write = OK, t_wp = NT\<rparr>,
      ch_spi_cmd_set = SPI25, ch_probe = PROBE_JEDEC, ch_probe_timing = 1,
      ch_erasers =
        [uniform_eraser (4 * 1024) 32 JEDEC_SECTOR_ERASE, uniform_eraser (128 * 1024) 1 JEDEC_CHIP_BLOCK_ERASE,
         no_eraser, no_eraser, no_eraser, no_eraser, no_eraser, no_eraser],
      ch_write = WRITE_JEDEC1, ch_read = READ_MEMMAPPED, ch_gran = WRITE_GRAN_256BYTES\<rparr>"

lemma sst39_setup: "jedec_setup sst39sf010a_chip 0xFFFE0000 131072 4096 100"
  by (simp add: jedec_setup_def sst39sf010a_chip_def getaddrmask_def FEATURE_LONG_RESET_def FEATURE_ADDR_FULL_def MASK_FULL_def)

lemma am29_setup: "jedec_setup am29f040b_chip 0xFFF80000 524288 65536 100"
  by (simp add: jedec_setup_def am29f040b_chip_def getaddrmask_def FEATURE_SHORT_RESET_def FEATURE_ADDR_2AA_def
      FEATURE_ADDR_FULL_def FEATURE_ADDR_MASK_def MASK_2AA_def)

interpretation sst39: jedec_chip "jedec_ctx sst39sf010a_chip 0xFFFE0000 4096 100" 131072 4096
    "offset1 sst39sf010a_chip" "offset2 sst39sf010a_chip" jh_mem "jh_ready 131072" "jh_working 131072"
  by (rule jedec_hw_chip [OF sst39_setup])

lemma sst39_offset1: "offset1 sst39sf010a_chip = 0x5555"
  by (simp add: offset1_def sst39sf010a_chip_def getaddrmask_def chip_shifted_def FEATURE_LONG_RESET_def FEATURE_ADDR_FULL_def MASK_FULL_def)

definition sst39_erased :: jedec_hw where
  "sst39_erased = \<lparr>jh_mem = replicate 131072 0xFF, jh_state = Idle, jh_busy = 0, jh_toggle = False\<rparr>"

lemma sst39_erased_ready: "jh_ready 131072 sst39_erased" "jh_mem sst39_erased = replicate 131072 0xFF"
  by (simp_all add: jh_ready_def sst39_erased_def)

section \<open>Writing and erasing\<close>

text \<open>\<^verbatim>\<open>write_jedec_1\<close> on a chip with the JEDEC command set whose bytes can only lose bits by programming: it
  ends, the bytes are programmed in place, and the result is 0 exactly if every byte that is not 0xFF now reads
  back; a byte 0xFF is never compared. Afterwards \<^verbatim>\<open>read_memmapped\<close> returns the new contents.\<close>

theorem write_jedec_1_programs:
  assumes "jedec_chip c n sector a1 a2 content ready busy" and "ready w" and "start + length src \<le> n"
  shows "\<exists>w'. write_jedec_1 c src start (length src) w =
      Some (if takes (content w) start src then 0 else 1, w') \<and> ready w' \<and> content w' = programmed (content w) start src \<and>
    read_memmapped c 0 n w' = (0, programmed (content w) start src, w')"
proof -
  obtain w' where w': "write_jedec_1 c src start (length src) w = Some (if takes (content w) start src then 0 else 1, w')"
      "ready w'" "content w' = programmed (content w) start src"
    using jedec_chip.write_jedec_1_correct [OF assms(1,2) refl assms(3)] by blast
  have "bslice 0 n (content w') = content w'" using jedec_chip.len [OF assms(1) w'(2)] by (simp add: bslice_def)
  then show ?thesis using jedec_chip.read_memmapped_correct [OF assms(1) w'(2), of 0 n] w' by auto
qed

theorem write_jedec_1_witness:
  "takes (jh_mem sst39_erased) 16 [0x12, 0x34] \<and> (\<exists>w'. write_jedec_1 (jedec_ctx sst39sf010a_chip 0xFFFE0000 4096 100) [0x12, 0x34] 16 2 sst39_erased =
      Some (0, w') \<and> jh_mem w' = programmed (replicate 131072 0xFF) 16 [0x12, 0x34])"
proof -
  have t: "takes (jh_mem sst39_erased) 16 [0x12, 0x34]"
    by (simp add: takes_def sst39_erased_ready upt_rec)
  show ?thesis
    using write_jedec_1_programs [OF jedec_hw_chip [OF sst39_setup] sst39_erased_ready(1), of 16 "[0x12, 0x34]"] t
    by (auto simp: sst39_erased_ready(2) numeral_2_eq_2)
qed

text \<open>C37: \<^verbatim>\<open>erase_sector_jedec\<close> ends with 0 and erases one sector, but not always the one it was called for: as
  \<^verbatim>\<open>issuecmd\<close> takes the operand 0 for the unlock address, erasing at address 0 erases the sector with the
  unlock address. On an SST39SF010A that is the sector at 0x5000, and the first one keeps its contents.\<close>

theorem erase_sector_jedec_address:
  assumes "jedec_chip c n sector a1 a2 content ready busy" and "ready w" and "x < n" and "a1 < n"
  shows "\<exists>w'. erase_sector_jedec c x sz w = (0, w') \<and> ready w' \<and>
    content w' = sector_erased sector (if x = 0 then a1 else x) (content w)"
  using assms by (rule jedec_chip.erase_sector_jedec_correct)

theorem erase_sector_jedec_witness:
  "\<exists>w'. erase_sector_jedec (jedec_ctx sst39sf010a_chip 0xFFFE0000 4096 100) 0 4096 (sst39_erased\<lparr>jh_mem := replicate 131072 0\<rparr>) = (0, w') \<and>
     jh_mem w' ! 0 = 0 \<and> jh_mem w' ! 0x5000 = 0xFF"
proof -
  have r: "jh_ready 131072 (sst39_erased\<lparr>jh_mem := replicate 131072 0\<rparr>)" by (simp add: jh_ready_def sst39_erased_def)
  obtain w' where w': "erase_sector_jedec (jedec_ctx sst39sf010a_chip 0xFFFE0000 4096 100) 0 4096 (sst39_erased\<lparr>jh_mem := replicate 131072 0\<rparr>) = (0, w')"
      "jh_mem w' = sector_erased 4096 0x5555 (replicate 131072 0)"
    using erase_sector_jedec_address [OF jedec_hw_chip [OF sst39_setup] r, of 0 4096] by (auto simp: sst39_offset1)
  then show ?thesis by (simp add: sector_erased_def nth_memset_at)
qed

end
