(* ===== verification/JedecImage.thy ===== *)
theory JedecImage
  imports ParallelOk
begin

text \<open>
  The image operations on a parallel chip. \<open>par_drivers\<close> are the drivers of \<open>Parallel\<close> and \<open>Fwh\<close> that the function tables of
  \<^verbatim>\<open>flashrom.c\<close> select, and \<open>par_flashctx\<close> is the context of a chip behind a parallel master. On an Am29F040B that follows
  the JEDEC command set they keep the laws of \<open>image_device\<close>, so that \<^verbatim>\<open>flashrom_image_write\<close> is correct on it.
\<close>

section \<open>The context of a parallel chip\<close>

definition par_drivers :: "'w par_ctx \<Rightarrow> 'w drivers" where
  "par_drivers c =
     \<lparr>drv_read = (\<lambda>f start len w. if f = READ_MEMMAPPED then Some (read_memmapped c start len w) else None),
      drv_write = (\<lambda>f buf start len w.
         case f of
           WRITE_JEDEC \<Rightarrow> write_jedec c buf start len w
         | WRITE_JEDEC1 \<Rightarrow> write_jedec_1 c buf start len w
         | WRITE_28SF040 \<Rightarrow> write_28sf040 c buf start len w
         | WRITE_82802AB \<Rightarrow> write_82802ab c buf start len w
         | WRITE_EN29LV640B \<Rightarrow> write_en29lv640b c buf start len w
         | _ \<Rightarrow> None),
      drv_erase = (\<lambda>f a len w.
         case f of
           JEDEC_SECTOR_ERASE \<Rightarrow> Some (erase_sector_jedec c a len w)
         | JEDEC_BLOCK_ERASE \<Rightarrow> Some (erase_block_jedec c a len w)
         | JEDEC_CHIP_BLOCK_ERASE \<Rightarrow> Some (erase_chip_block_jedec c a len w)
         | ERASE_CHIP_28SF040 \<Rightarrow> Some (erase_chip_28sf040 c a len w)
         | ERASE_SECTOR_28SF040 \<Rightarrow> Some (erase_sector_28sf040 c a len w)
         | ERASE_BLOCK_82802AB \<Rightarrow> erase_block_82802ab c a len w
         | ERASE_SECTOR_49LFXXXC \<Rightarrow> erase_sector_49lfxxxc c a len w
         | STM50_SECTOR_ERASE \<Rightarrow> erase_sector_stm50 c a len w
         | _ \<Rightarrow> None)\<rparr>"

text \<open>A parallel master has no region callback and no write protection of its own.\<close>

definition parallel_master :: master where
  "parallel_master = \<lparr>m_buses_supported = BUS_PARALLEL, m_opaque_get_region = None, m_spi_get_region = None,
     m_spi_probe_opcode = None\<rparr>"

definition par_flashctx :: "'w par_ctx \<Rightarrow> layout option \<Rightarrow> flags \<Rightarrow> int \<Rightarrow> (nat \<Rightarrow> u8) \<Rightarrow> 'w flashctx" where
  "par_flashctx c lay fl ratio fresh =
     \<lparr>c_chip = px_chip c, c_mst = parallel_master, c_layout = lay,
      c_default_layout = (case snd (init_default_layout True True (px_chip c)) of Some l \<Rightarrow> l | None \<Rightarrow> []),
      c_flags = fl, c_sacrifice_ratio = ratio, c_drivers = par_drivers c, c_malloc = (\<lambda>m. True), c_fresh = fresh\<rparr>"

definition par_wp_env :: "'w wp_env" where
  "par_wp_env =
     \<lparr>we_buses = BUS_PARALLEL, we_opaque_read = None, we_opaque_write = None,
      we_spi_read = (\<lambda>r s. (SPI_INVALID_OPCODE, 0, s)), we_spi_write = (\<lambda>r v s. (SPI_INVALID_OPCODE, s)),
      we_opaque_write_cfg = None, we_opaque_read_cfg = None,
      we_reg_bits = we_reg_bits opaque_wp_env, we_decode_range = NO_DECODE_RANGE_FUNC, we_chip_len = 0, we_calloc = True,
      we_junk = we_junk opaque_wp_env\<rparr>"

definition par_access :: "'w par_ctx \<Rightarrow> 'w access" where
  "par_access c =
     \<lparr>ac_programmer_may_write = True, ac_spi_features = 0, ac_map_flash = (\<lambda>s. (0, s)), ac_unmap_flash = (\<lambda>s. s),
      ac_wp = par_wp_env, ac_cfg_alloc = True, ac_blockprotect = None, ac_protected_ranges = [],
      ac_clear_addressing = (\<lambda>s. s), ac_enter_4ba = (\<lambda>s. None), ac_exit_4ba = (\<lambda>s. None),
      ac_delay = par_delay c 1000000, ac_image_mismatch = (\<lambda>b. False)\<rparr>"

section \<open>The Am29F040B\<close>

definition am29_erasers :: "block_eraser list" where
  "am29_erasers = [uniform_eraser 65536 8 JEDEC_SECTOR_ERASE, uniform_eraser 524288 1 JEDEC_CHIP_BLOCK_ERASE]"

lemma am29_simps:
  "ch_total_size am29f040b_chip = 512" "ch_bustype am29f040b_chip = BUS_PARALLEL" "ch_read am29f040b_chip = READ_MEMMAPPED"
  "ch_write am29f040b_chip = WRITE_JEDEC1" "ch_gran am29f040b_chip = WRITE_GRAN_256BYTES"
  "ch_feature_bits am29f040b_chip = 0x14"
  "ch_tested am29f040b_chip = \<lparr>t_probe = NT, t_read = NT, t_erase = NT, t_write = NT, t_wp = NT\<rparr>"
  by (simp_all add: am29f040b_chip_def FEATURE_SHORT_RESET_def FEATURE_ADDR_2AA_def)

lemma am29_ctx_simps:
  fixes lay :: "layout option" and fl :: flags and ratio :: int and fresh :: "nat \<Rightarrow> u8" and c :: "'w par_ctx"
  assumes "px_chip c = am29f040b_chip"
  defines "k \<equiv> par_flashctx c lay fl ratio fresh"
  shows "c_chip k = am29f040b_chip" "c_layout k = lay" "c_flags k = fl" "c_malloc k = (\<lambda>m. True)" "c_mst k = parallel_master"
    and "c_drivers k = par_drivers c" "c_default_layout k = whole_chip 524288" "ERASED_VALUE k = 0xff"
    and "usable_erasers k = am29_erasers"
proof -
  show cc: "c_chip k = am29f040b_chip" "c_layout k = lay" "c_flags k = fl" "c_malloc k = (\<lambda>m. True)" "c_mst k = parallel_master"
    "c_drivers k = par_drivers c" by (simp_all add: k_def par_flashctx_def assms(1))
  have "init_default_layout True True am29f040b_chip = (0, Some (whole_chip 524288))"
    by (rule init_default_layout_eq) (simp_all add: am29_simps)
  then show "c_default_layout k = whole_chip 524288" by (simp add: k_def par_flashctx_def assms(1))
  show "ERASED_VALUE k = 0xff" by (simp add: ERASED_VALUE_def cc am29_simps FEATURE_ERASED_ZERO_def)
  show "usable_erasers k = am29_erasers"
    by (simp add: usable_erasers_def cc am29f040b_chip_def check_block_eraser_def parallel_master_def
        bus_defs NUM_ERASEFUNCTIONS_def upt8 no_eraser_def NUM_ERASEREGIONS_def replicate5 uniform_eraser_def am29_erasers_def Let_def)
qed

lemma am29_region:
  assumes "px_chip c = am29f040b_chip"
  shows "get_flash_region (par_flashctx c lay fl ratio fresh) a =
    \<lparr>fr_name = [], fr_start = 0, fr_end = 524287, fr_read_prot = False, fr_write_prot = False\<rparr>"
  by (simp add: get_flash_region_def flashrom_flash_getsize_def am29_ctx_simps [OF assms] am29_simps parallel_master_def bus_defs c_simps)

lemma am29_geometry: "geometry_ok 524288 am29_erasers"
proof -
  have "nested_erasers am29_erasers" unfolding am29_erasers_def
    by (simp only: nested_erasers.simps simp_thms) (intro nested_uniform [where k = 8]; simp)
  moreover have "eraser_ok 524288 e" if "e \<in> set am29_erasers" for e
    using that by (auto simp: am29_erasers_def intro!: eraser_ok_uniform)
  ultimately show ?thesis by (simp add: geometry_ok_def)
qed

locale am29_chip = jedec_chip c 524288 65536 a1 a2 content ready busy
  for c :: "'w par_ctx" and a1 a2 :: nat and content :: "'w \<Rightarrow> bytes" and ready :: "'w \<Rightarrow> bool"
    and busy :: "nat \<Rightarrow> bool \<Rightarrow> bytes \<Rightarrow> 'w \<Rightarrow> bool" +
  assumes chip: "px_chip c = am29f040b_chip"
begin

lemma a1_eq: "a1 = 0x555"
  using unlock(1) space
  by (simp add: unlock1_def chip am29_simps chip_shifted_def getaddrmask_def FEATURE_ADDR_SHIFTED_def FEATURE_ADDR_MASK_def
      FEATURE_ADDR_2AA_def FEATURE_ADDR_FULL_def MASK_2AA_def add64_def)

lemma am29_write:
  assumes "ready w" and "a + length buf \<le> 524288"
    and "\<forall>i. a \<le> i \<and> i < a + length buf \<longrightarrow> prog_at WRITE_GRAN_256BYTES 0xff (content w) (blit a buf (content w)) i"
  shows "\<exists>w'. write_jedec_1 c buf a (length buf) w = Some (0, w') \<and> ready w' \<and> content w' = blit a buf (content w)"
proof -
  note ln = len [OF assms(1)]
  have bits: "content w ! (a + i) AND buf ! i = buf ! i" if "i < length buf" for i
    using ones_prog_at [of "content w" "blit a buf (content w)" "a + i"] assms that ln by (auto simp: buf_simps)
  then have "takes (content w) a buf" by (simp add: takes_def list_all_iff)
  moreover have "programmed (content w) a buf = blit a buf (content w)"
  proof (rule nth_equalityI)
    fix i assume "i < length (programmed (content w) a buf)"
    then show "programmed (content w) a buf ! i = blit a buf (content w) ! i"
      using bits [of "i - a"] ln assms(2) by (auto simp: programmed_def buf_simps)
  qed (simp add: programmed_def)
  ultimately show ?thesis using write_jedec_1_correct [OF assms(1) refl assms(2)] by simp
qed

lemma am29_erase:
  assumes "e \<in> set am29_erasers" and "(a, l) \<in> set (eraser_blocks e)" and "ready w"
  shows "\<exists>w'. drv_erase (par_drivers c) (be_erase e) a l w = Some (0, w') \<and> ready w' \<and> content w' = memset_at a 0xff l (content w)"
proof -
  consider i where "e = uniform_eraser 65536 8 JEDEC_SECTOR_ERASE" "a = i * 65536" "l = 65536" "i < 8"
    | "e = uniform_eraser 524288 1 JEDEC_CHIP_BLOCK_ERASE" "a = 0" "l = 524288"
    using assms(1,2) by (auto simp: am29_erasers_def eraser_blocks_uniform)
  then show ?thesis
  proof cases
    case 1
    have "sector_erased 65536 (if a = 0 then a1 else a) m = memset_at a 0xff 65536 m" for m
      using 1(2) by (simp add: sector_erased_def a1_eq)
    then show ?thesis
      using erase_sector_jedec_correct [OF assms(3), of a l] 1(2-4) by (simp add: 1(1) par_drivers_def uniform_eraser_def a1_eq)
  next
    case 2
    have "memset_at 0 0xff 524288 (content w) = replicate 524288 0xff"
      by (rule nth_equalityI) (use len [OF assms(3)] in \<open>simp_all add: nth_memset_at\<close>)
    then show ?thesis
      using erase_chip_jedec_correct [OF assms(3)] 2(2,3) by (simp add: 2(1) par_drivers_def uniform_eraser_def chip am29_simps c_simps)
  qed
qed

lemma am29_reader: "flash_reader (par_flashctx c lay fl ratio fresh) 524288 ready content"
  by (intro flash_reader.intro flash_regions.intro flash_reader_axioms.intro)
    (auto simp: am29_ctx_simps [OF chip] am29_region [OF chip] am29_simps len par_drivers_def read_memmapped_correct)

lemma am29_erase_device: "erase_device (par_flashctx c lay fl ratio fresh) 524288 ready content"
proof (intro erase_device.intro flash_device.intro am29_reader flash_device_axioms.intro erase_device_axioms.intro)
  let ?c = "par_flashctx c lay fl ratio fresh"
  note cs = am29_ctx_simps [OF chip] am29_simps
  show "ch_write (c_chip ?c) \<noteq> NO_WRITE_FUNC" "c_malloc ?c m" "usable_erasers ?c \<noteq> []" "ERASED_VALUE ?c = 0xff" for m
    by (simp_all add: cs am29_erasers_def)
  show "\<exists>s'. drv_write (c_drivers ?c) (ch_write (c_chip ?c)) buf a (length buf) s = Some (0, s') \<and> ready s' \<and> content s' = blit a buf (content s)"
    if "ready s" "a + length buf \<le> 524288" "\<forall>i. a \<le> i \<and> i < a + length buf \<longrightarrow>
        prog_at (ch_gran (c_chip ?c)) (ERASED_VALUE ?c) (content s) (blit a buf (content s)) i" for s buf a
    using that am29_write by (simp add: cs par_drivers_def)
  show "\<exists>s'. drv_erase (c_drivers ?c) (be_erase e) a l s = Some (0, s') \<and> ready s' \<and> content s' = memset_at a (ERASED_VALUE ?c) l (content s)"
    if "e \<in> set (usable_erasers ?c)" "(a, l) \<in> set (eraser_blocks e)" "ready s" for e a l s
    using that am29_erase [of e a l s] by (simp add: cs)
  show "be_erase e \<noteq> SPI_BLOCK_ERASE_40" if "e \<in> set (usable_erasers ?c)" for e
    using that by (auto simp: cs am29_erasers_def uniform_eraser_def)
  show "gran_stride (ch_gran (c_chip ?c)) dvd Suc (fr_end (get_flash_region ?c a))" for a by (simp add: cs am29_region [OF chip])
  show "geometry_ok 524288 (usable_erasers ?c)" by (simp add: cs am29_geometry)
  show "gran_stride (ch_gran (c_chip ?c)) dvd sz" if "sz \<in> set (eraser_sizes (usable_erasers ?c ! 0))" for sz
    using that by (auto simp: cs am29_erasers_def eraser_sizes_uniform)
  show "Suc (fr_end (get_flash_region ?c a)) = 524288 \<or> Suc (fr_end (get_flash_region ?c a)) \<in> set (bounds_of (usable_erasers ?c ! 0))" for a
    by (simp add: am29_region [OF chip])
  show "\<not> fr_read_prot (get_flash_region ?c a)" for a by (simp add: am29_region [OF chip])
qed

lemma am29_image_device:
  assumes lay: "layout_sanity_checks 512 (get_layout (par_flashctx c lay fl ratio fresh)) = 0"
  shows "image_device (par_flashctx c lay fl ratio fresh) 524288 ready content ready (par_access c) ready ready"
proof (intro image_device.intro image_device_axioms.intro am29_erase_device full_reader.intro full_reader_axioms.intro am29_reader)
  let ?c = "par_flashctx c lay fl ratio fresh" and ?a = "par_access c"
  note cs = am29_ctx_simps [OF chip] am29_simps
  show "\<not> fr_read_prot (get_flash_region ?c i)" "\<not> write_protected ?c i" for i
    by (simp_all add: write_protected_def am29_region [OF chip])
  show "chip_safety_check ?c ?a (fl_force (c_flags ?c)) rd wr er ve = 0" for rd wr er ve
    by (simp add: chip_safety_check_def cs Let_def lookup_read_func_ptr_def lookup_write_func_ptr_def par_access_def
        length_usable_erasers [symmetric] am29_erasers_def)
  show "layout_sanity_checks (ch_total_size (c_chip ?c)) (get_layout ?c) = 0" using lay by (simp add: cs)
  show "entries_ok 524288 (get_default_layout ?c)" by (simp add: get_default_layout_def cs entries_whole_chip)
  show "\<exists>s'. ac_map_flash ?a s = (0, s') \<and> ready s' \<and> content s' = content s" if "ready s" for s using that by (simp add: par_access_def)
  show "\<exists>fns s'. unlock_chip ?a wr er s = Some (fns, s') \<and> ready s' \<and> content s' = content s \<and>
      (\<forall>t. ready t \<longrightarrow> (\<exists>t'. finalize_flash_access ?a fns t = Some t' \<and> ready t' \<and> content t' = content t))" if "ready s" for s wr er
    using that by (simp add: unlock_chip_def finalize_flash_access_def deregister_chip_restore_def par_access_def par_wp_env_def bus_defs)
  then show "\<exists>fns s'. unlock_chip ?a False False s = Some (fns, s') \<and> ready s' \<and> content s' = content s \<and>
      (\<forall>t. ready t \<longrightarrow> (\<exists>t'. finalize_flash_access ?a fns t = Some t' \<and> ready t' \<and> content t' = content t))" if "ready s" for s
    using that by blast
  show "\<exists>s'. active_wp_range ?a s = Some (None, s') \<and> ready s' \<and> content s' = content s" if "ready s" for s
    using that by (simp add: active_wp_range_def par_access_def par_wp_env_def bus_defs flashrom_wp_read_cfg_def
        wp_operations_available_def wp_read_cfg_def chip_supported_def)
  show "ac_protected_ranges ?a = []" by (simp add: par_access_def)
  have "prepare_4ba ?c ?a s = Some (0, s)" for s
    by (simp add: prepare_4ba_def cs parallel_master_def bus_defs spi_master_no_4ba_modes_def spi_chip_4ba_def par_access_def)
  then show "\<exists>s'. prepare_4ba ?c ?a s = Some (0, s') \<and> ready s' \<and> content s' = content s" if "ready s" for s using that by blast
  then show "\<exists>s'. prepare_4ba ?c ?a s = Some (0, s') \<and> ready s' \<and> content s' = content s" if "ready s" for s using that by blast
  show "ready (ac_delay ?a s) \<and> content (ac_delay ?a s) = content s" if "ready s" for s
    using par_delay_ready [OF that, of 1000000] by (simp add: par_access_def)
qed

end

interpretation am29: am29_chip "jedec_ctx am29f040b_chip 0xFFF80000 65536 100"
    "offset1 am29f040b_chip" "offset2 am29f040b_chip" jh_mem "jh_ready 524288" "jh_working 524288"
  by (intro am29_chip.intro am29_chip_axioms.intro jedec_hw_chip [OF am29_setup] jedec_ctx_simps)

section \<open>Writing an image\<close>

text \<open>C6: \<^verbatim>\<open>flashrom_image_write\<close> on an Am29F040B behind a parallel programmer. The chip is any hardware that follows the
  JEDEC command set. The call returns 0, and afterwards the chip holds the bytes of the image in the included regions and
  its old bytes everywhere else.\<close>

theorem jedec_image_write_correct:
  assumes hw: "am29_chip c a1 a2 content ready busy"
    and lay: "layout_sanity_checks 512 (get_layout (par_flashctx c lay fl ratio fresh)) = 0"
    and some: "\<exists>e \<in> set (get_layout (par_flashctx c lay fl ratio fresh)). re_included e"
    and ok: "ready w" and len: "length buf = 524288" and ref: "ref = None \<or> ref = Some (content w)"
  shows "\<exists>buf' w'. flashrom_image_write (par_flashctx c lay fl ratio fresh) (par_access c) fns0 buf ref w = Some (0, buf', w') \<and>
    ready w' \<and> content w' = overlay buf (covered (get_layout (par_flashctx c lay fl ratio fresh))) (content w)"
proof -
  have "walk_included (get_layout (par_flashctx c lay fl ratio fresh)) [] \<noteq> []" using some by (auto simp: filter_empty_conv)
  moreover have "ac_image_mismatch (par_access c) buf \<longrightarrow> fl_force_boardmismatch (c_flags (par_flashctx c lay fl ratio fresh))"
    by (simp add: par_access_def)
  ultimately show ?thesis
    using image_device.image_write_ok [OF am29_chip.am29_image_device [OF hw lay] ok len ref] by blast
qed

text \<open>The erased chip at the top of the address space of a PC, with the layout of the whole chip.\<close>

definition am29_erased :: jedec_hw where
  "am29_erased = \<lparr>jh_mem = replicate 524288 0xFF, jh_state = Idle, jh_busy = 0, jh_toggle = False\<rparr>"

definition am29_pc :: "jedec_hw par_ctx" where
  "am29_pc = jedec_ctx am29f040b_chip 0xFFF80000 65536 100"

lemma am29_layout:
  "get_layout (par_flashctx am29_pc None fl ratio fresh) = whole_chip 524288"
  "layout_sanity_checks 512 (whole_chip 524288) = 0"
proof -
  show "get_layout (par_flashctx am29_pc None fl ratio fresh) = whole_chip 524288"
    by (simp add: get_layout_def get_default_layout_def am29_ctx_simps am29_pc_def)
  show "layout_sanity_checks 512 (whole_chip 524288) = 0" using whole_chip_checked [of 512] by simp
qed

theorem jedec_image_write_witness:
  "\<exists>buf' w'. flashrom_image_write (par_flashctx am29_pc None sample_flags 0 (\<lambda>i. 0)) (par_access am29_pc) [] (replicate 524288 0x5a) None am29_erased =
      Some (0, buf', w') \<and> jh_ready 524288 w' \<and> jh_mem w' =
      overlay (replicate 524288 0x5a) (covered (get_layout (par_flashctx am29_pc None sample_flags 0 (\<lambda>i. 0)))) (jh_mem am29_erased)"
  by (rule jedec_image_write_correct [OF am29.am29_chip_axioms [folded am29_pc_def]])
    (simp_all only: am29_layout, simp_all add: whole_chip_def jh_ready_def am29_erased_def)

end
