(* ===== verification/FwhOk.thy ===== *)
theory FwhOk
  imports Fwh Dummy
begin

text \<open>
  The lock registers of firmware hubs: a register follows what is written to it until its lock-down bit is set. The locale
  \<open>lock_registers\<close> states that, and \<open>fwh_ctx\<close> is hardware that does it.
\<close>

section \<open>Lock registers\<close>

text \<open>A block stays locked when it is locked now and its register is locked down.\<close>

definition stuck :: "u8 \<Rightarrow> bool" where
  "stuck v \<longleftrightarrow> v AND REG2_RWLOCK \<noteq> 0 \<and> v AND REG2_LOCKDOWN \<noteq> 0"

lemma and_reg2_iff:
  "(v :: u8) AND REG2_LOCKDOWN = 0 \<longleftrightarrow> \<not> bit v 1"
  "v AND REG2_RWLOCK = 0 \<longleftrightarrow> \<not> bit v 0 \<and> \<not> bit v 2"
  "v AND REG2_MASK = 0 \<longleftrightarrow> \<not> bit v 0 \<and> \<not> bit v 1 \<and> \<not> bit v 2"
  "v AND NOT REG2_MASK = 0 \<longleftrightarrow> (\<forall>i. 3 \<le> i \<longrightarrow> \<not> bit v i)"
proof -
  have b: "bit (2 :: u8) i \<longleftrightarrow> i = 1" "bit (5 :: u8) i \<longleftrightarrow> i = 0 \<or> i = 2" for i
  proof -
    have "bit (2 ^ 1 :: u8) i \<longleftrightarrow> i = 1" by (simp only: bit_exp_iff possible_bit_word) auto
    then show "bit (2 :: u8) i \<longleftrightarrow> i = 1" by simp
    have "(5 :: u8) = 2 ^ 0 OR 2 ^ 2" by simp
    then show "bit (5 :: u8) i \<longleftrightarrow> i = 0 \<or> i = 2" by (simp only: bit_or_iff bit_exp_iff possible_bit_word) auto
  qed
  have m: "bit REG2_MASK i \<longleftrightarrow> i < 3" for i
    by (simp only: REG2_MASK_def REG2_RWLOCK_def REG2_LOCKDOWN_def bit_or_iff b) auto
  have zero: "x = 0 \<longleftrightarrow> (\<forall>i. \<not> bit x i)" for x :: u8 using bit_word_eqI [of x 0] by auto
  have len: "bit v i \<Longrightarrow> i < 8" for i using bit_imp_le_length [of v i] by simp
  show "v AND REG2_LOCKDOWN = 0 \<longleftrightarrow> \<not> bit v 1"
    unfolding zero bit_and_iff REG2_LOCKDOWN_def b by blast
  show "v AND REG2_RWLOCK = 0 \<longleftrightarrow> \<not> bit v 0 \<and> \<not> bit v 2"
    unfolding zero bit_and_iff REG2_RWLOCK_def b by blast
  have three: "i < 3 \<longleftrightarrow> i = 0 \<or> i = 1 \<or> i = 2" for i :: nat by auto
  show "v AND REG2_MASK = 0 \<longleftrightarrow> \<not> bit v 0 \<and> \<not> bit v 1 \<and> \<not> bit v 2"
    unfolding zero bit_and_iff m three by blast
  show "v AND NOT REG2_MASK = 0 \<longleftrightarrow> (\<forall>i. 3 \<le> i \<longrightarrow> \<not> bit v i)"
    unfolding zero bit_and_iff bit_not_iff m not_less by (auto dest: len)
qed

lemma reg2_eqI:
  assumes "bit x 0 = bit y 0" and "bit x 1 = bit y 1" and "bit x 2 = bit y 2" and "\<And>i. 3 \<le> i \<Longrightarrow> bit x i = bit y i"
  shows "x = (y :: u8)"
proof (rule bit_word_eqI)
  fix i :: nat
  consider "i = 0" | "i = 1" | "i = 2" | "3 \<le> i" by linarith
  then show "bit x i = bit y i" by cases (use assms in auto)
qed

lemma bit_reg2:
  "bit REG2_RWLOCK i \<longleftrightarrow> i = 0 \<or> i = 2" "bit REG2_LOCKDOWN i \<longleftrightarrow> i = 1"
proof -
  have r: "REG2_RWLOCK = 2 ^ 0 OR 2 ^ 2" "REG2_LOCKDOWN = 2 ^ 1" by (simp_all add: REG2_RWLOCK_def REG2_LOCKDOWN_def)
  show "bit REG2_RWLOCK i \<longleftrightarrow> i = 0 \<or> i = 2" unfolding r by (simp only: bit_or_iff bit_exp_iff possible_bit_word) auto
  show "bit REG2_LOCKDOWN i \<longleftrightarrow> i = 1" unfolding r by (simp only: bit_exp_iff possible_bit_word) auto
qed

lemma reg2_same:
  assumes "(x XOR y) AND NOT REG2_MASK = 0" and "(x XOR y) AND REG2_MASK = 0"
  shows "x = (y :: u8)"
  by (rule reg2_eqI) (use assms in \<open>auto simp: and_reg2_iff bit_xor_iff\<close>)

locale lock_registers =
  fixes c :: "'w par_ctx" and R :: "nat set" and reg :: "nat \<Rightarrow> 'w \<Rightarrow> u8"
  assumes read: "a \<in> R \<Longrightarrow> pm_readb (px_mst c) a w = (reg a w, w)"
    and store: "a \<in> R \<Longrightarrow> b \<in> R \<Longrightarrow>
      reg b (pm_writeb (px_mst c) v a w) = (if b = a \<and> reg a w AND REG2_LOCKDOWN = 0 then v else reg b w)"
begin

text \<open>A change of the lock bits succeeds, and sets them, unless the register is locked down and the change is not empty.\<close>

lemma changelock_open:
  assumes "a \<in> R" and "\<not> bit (reg a w) 1" and "(reg a w XOR new) AND NOT REG2_MASK = 0"
  shows "\<exists>w'. changelock_regspace2_block c a (reg a w) new w = (0, w') \<and> reg a w' = new \<and> (\<forall>b \<in> R - {a}. reg b w' = reg b w)"
proof -
  let ?cur = "reg a w"
  have high: "bit ?cur i = bit new i" if "3 \<le> i" for i
    using assms(3) that by (auto simp: and_reg2_iff bit_xor_iff)
  have open1: "reg b (pm_writeb (px_mst c) v a u) = (if b = a then v else reg b u)" if "b \<in> R" "\<not> bit (reg a u) 1" for b v u
    using store [OF assms(1) that(1)] that(2) by (simp add: and_reg2_iff)
  define wanted where "wanted = (?cur AND NOT REG2_RWLOCK) OR (new AND REG2_RWLOCK)"
  have wb: "bit wanted i = (if i = 0 \<or> i = 2 then bit new i else bit ?cur i)" for i
    by (cases "i < 8") (auto simp: wanted_def bit_or_iff bit_and_iff bit_not_iff bit_reg2 dest: bit_imp_le_length)
  define w1 where "w1 = (if (?cur XOR new) AND REG2_RWLOCK \<noteq> 0 then pm_writeb (px_mst c) wanted a w else w)"
  have rw: "change_rwlock c a ?cur new w = (Some (reg a w1), w1)"
    using open1 [OF assms(1,2)] read [OF assms(1)]
    by (simp add: change_rwlock_def w1_def wanted_def Let_def chip_readb_def chip_writeb_def)
  have r1: "bit (reg a w1) 0 = bit new 0" "bit (reg a w1) 2 = bit new 2" "\<not> bit (reg a w1) 1" "3 \<le> i \<Longrightarrow> bit (reg a w1) i = bit new i" for i
    using open1 [OF assms(1,2)] assms(2) high by (auto simp: w1_def wb and_reg2_iff bit_xor_iff)
  have o1: "b \<in> R - {a} \<Longrightarrow> reg b w1 = reg b w" for b using open1 [OF _ assms(2)] by (auto simp: w1_def)
  define w2 where "w2 = (if bit new 1 then pm_writeb (px_mst c) new a w1 else w1)"
  have ld: "set_lockdown c a (reg a w1) new w1 = (Some (reg a w2), w2)"
    using open1 [OF assms(1) r1(3)] read [OF assms(1)] r1(3)
    by (simp add: set_lockdown_def w2_def chip_readb_def chip_writeb_def and_reg2_iff)
  have r2: "reg a w2 = new"
    using open1 [OF assms(1) r1(3)] r1 by (auto simp: w2_def intro: reg2_eqI)
  have o2: "b \<in> R - {a} \<Longrightarrow> reg b w2 = reg b w" for b using open1 [OF _ r1(3)] o1 by (auto simp: w2_def)
  have "?cur = new" if "(?cur XOR new) AND REG2_MASK = 0"
    using reg2_same [OF assms(3) that] .
  moreover have "clear_lockdown c a ?cur new w = (Some ?cur, w)" using assms(2) by (simp add: clear_lockdown_def and_reg2_iff)
  ultimately show ?thesis
    using rw ld r2 o2 assms(3) by (auto simp: changelock_regspace2_block_def)
qed

lemma changelock_locked_down:
  assumes "a \<in> R" and "bit (reg a w) 1" and "(reg a w XOR new) AND NOT REG2_MASK = 0"
  shows "\<exists>w'. changelock_regspace2_block c a (reg a w) new w = (if new = reg a w then 0 else -1, w') \<and> (\<forall>b \<in> R. reg b w' = reg b w)"
proof -
  let ?cur = "reg a w"
  have keep: "reg b (pm_writeb (px_mst c) v a w) = reg b w" if "b \<in> R" for b v
    using store [OF assms(1) that] assms(2) by (simp add: and_reg2_iff)
  have same: "(?cur XOR new) AND REG2_MASK = 0 \<longleftrightarrow> new = ?cur"
    using reg2_same [OF assms(3)] by auto
  have set1: "?cur AND REG2_LOCKDOWN = REG2_LOCKDOWN"
    by (rule bit_word_eqI) (use assms(2) in \<open>auto simp: bit_and_iff bit_reg2\<close>)
  have nz: "REG2_LOCKDOWN \<noteq> 0" by (simp add: REG2_LOCKDOWN_def)
  show ?thesis
  proof (cases "new = ?cur \<or> \<not> bit new 1")
    case True
    then show ?thesis
      using same assms(2,3) keep keep [OF assms(1)] set1 nz read [OF assms(1)]
      by (auto simp: changelock_regspace2_block_def clear_lockdown_def chip_readb_def chip_writeb_def and_reg2_iff)
  next
    case False
    have "(?cur XOR new) AND REG2_RWLOCK \<noteq> 0"
      using False same assms(2) by (auto simp: and_reg2_iff bit_xor_iff)
    moreover have "?cur \<noteq> (?cur AND NOT REG2_RWLOCK) OR (new AND REG2_RWLOCK)"
      using calculation by (auto simp: bit_eq_iff bit_or_iff bit_and_iff bit_not_iff bit_reg2 and_reg2_iff bit_xor_iff)
    ultimately show ?thesis
      using False same assms(2,3) keep keep [OF assms(1)] set1 nz read [OF assms(1)]
      by (auto simp: changelock_regspace2_block_def clear_lockdown_def change_rwlock_def Let_def chip_readb_def chip_writeb_def and_reg2_iff)
  qed
qed

lemma unlock_block:
  assumes "a \<in> R"
  shows "\<exists>w'. unlock_regspace2_block_generic c a w = (if stuck (reg a w) then -1 else 0, w') \<and>
    (\<forall>b \<in> R. reg b w' = (if b = a \<and> \<not> stuck (reg a w) then reg a w AND NOT REG2_RWLOCK else reg b w))"
proof -
  let ?cur = "reg a w" and ?new = "reg a w AND NOT REG2_RWLOCK"
  have nb: "bit ?new i \<longleftrightarrow> bit ?cur i \<and> i \<noteq> 0 \<and> i \<noteq> 2" for i
    by (cases "i < 8") (auto simp: bit_and_iff bit_not_iff bit_reg2 dest: bit_imp_le_length)
  have only: "(?cur XOR ?new) AND NOT REG2_MASK = 0" by (auto simp: and_reg2_iff bit_xor_iff nb)
  have e: "unlock_regspace2_block_generic c a w = changelock_regspace2_block c a ?cur ?new w"
    by (simp add: unlock_regspace2_block_generic_def chip_readb_def read [OF assms])
  show ?thesis
  proof (cases "bit ?cur 1")
    case True
    have "?new = ?cur \<longleftrightarrow> \<not> stuck ?cur"
    proof -
      have "?new = ?cur \<longleftrightarrow> \<not> bit ?cur 0 \<and> \<not> bit ?cur 2"
        using nb by (metis bit_word_eqI)
      then show ?thesis using True by (simp add: stuck_def and_reg2_iff)
    qed
    then show ?thesis unfolding e using changelock_locked_down [OF assms True only] by (cases "stuck ?cur") auto
  next
    case False
    then have "\<not> stuck ?cur" by (simp add: stuck_def and_reg2_iff)
    then show ?thesis unfolding e using changelock_open [OF assms False only] by auto
  qed
qed

text \<open>A row of blocks: the walk stops at the first block that stays locked.\<close>

lemma walk_block_unlocks:
  assumes "0 < sz" and "\<And>i. i < k \<Longrightarrow> off + i * sz \<in> R" and "off + k * sz < 2 ^ 64" and "\<And>i. i < k \<Longrightarrow> \<not> stuck (reg (off + i * sz) w)"
  shows "\<exists>w'. walk_block (unlock_regspace2_block_generic c) sz k off w = ((0, off + k * sz), w') \<and>
    (\<forall>b \<in> R. reg b w' = (if \<exists>i<k. b = off + i * sz then reg b w AND NOT REG2_RWLOCK else reg b w))"
  using assms
proof (induction k arbitrary: off w)
  case (Suc k)
  have ns: "\<not> stuck (reg off w)" and offR: "off \<in> R" using Suc.prems(2,4) [of 0] by auto
  obtain w1 where w1: "unlock_regspace2_block_generic c off w = (0, w1)"
      "\<forall>b \<in> R. reg b w1 = (if b = off then reg off w AND NOT REG2_RWLOCK else reg b w)"
    using unlock_block [OF offR, of w] ns by auto
  have ad: "add64 off sz = off + sz" using Suc.prems(3) by (simp add: add64_def)
  have R1: "off + sz + i * sz \<in> R" if "i < k" for i using Suc.prems(2) [of "Suc i"] that by (simp add: add.assoc)
  have "\<not> stuck (reg (off + sz + i * sz) w1)" if "i < k" for i
    using Suc.prems(4) [of "Suc i"] that w1(2) R1 [OF that] Suc.prems(1) by (simp add: add.assoc)
  then obtain w2 where w2: "walk_block (unlock_regspace2_block_generic c) sz k (off + sz) w1 = ((0, off + sz + k * sz), w2)"
      "\<forall>b \<in> R. reg b w2 = (if \<exists>i<k. b = off + sz + i * sz then reg b w1 AND NOT REG2_RWLOCK else reg b w1)"
    using Suc.IH [of "off + sz" w1] Suc.prems(1,3) R1 by (auto simp: add.assoc)
  have ex: "(\<exists>i<Suc k. b = off + i * sz) \<longleftrightarrow> b = off \<or> (\<exists>i<k. b = off + sz + i * sz)" for b
    using Ex_less_Suc2 [of k "\<lambda>i. b = off + i * sz"] by (simp add: add.assoc)
  have "walk_block (unlock_regspace2_block_generic c) sz (Suc k) off w = ((0, off + Suc k * sz), w2)"
    using w1(1) w2(1) ad by (simp add: add.assoc)
  moreover have "\<forall>b \<in> R. reg b w2 = (if \<exists>i<Suc k. b = off + i * sz then reg b w AND NOT REG2_RWLOCK else reg b w)"
    using w1(2) w2(2) Suc.prems(1) unfolding ex by auto
  ultimately show ?case by blast
qed simp

lemma walk_block_stops:
  assumes "0 < sz" and "\<And>i. i < k \<Longrightarrow> off + i * sz \<in> R" and "off + k * sz < 2 ^ 64" and "i < k" and "stuck (reg (off + i * sz) w)"
  shows "\<exists>off' w'. walk_block (unlock_regspace2_block_generic c) sz k off w = ((-1, off'), w')"
  using assms
proof (induction k arbitrary: off w i)
  case (Suc k)
  have offR: "off \<in> R" using Suc.prems(2) [of 0] by auto
  obtain w1 where w1: "unlock_regspace2_block_generic c off w = (if stuck (reg off w) then -1 else 0, w1)"
      "\<forall>b \<in> R. b \<noteq> off \<longrightarrow> reg b w1 = reg b w"
    using unlock_block [OF offR, of w] by auto
  show ?case
  proof (cases "stuck (reg off w)")
    case False
    then obtain j where j: "i = Suc j" using Suc.prems(5) by (cases i) auto
    have ad: "add64 off sz = off + sz" using Suc.prems(3) by (simp add: add64_def)
    have R1: "off + sz + m * sz \<in> R" if "m < k" for m using Suc.prems(2) [of "Suc m"] that by (simp add: add.assoc)
    have "stuck (reg (off + sz + j * sz) w1)" "j < k"
      using Suc.prems(1,4,5) j w1(2) R1 [of j] by (simp_all add: add.assoc)
    then show ?thesis using Suc.IH [of "off + sz" j w1] Suc.prems(1,3) R1 w1(1) False ad by (simp add: add.assoc)
  qed (simp add: w1(1))
qed simp

lemma uniform_unlocks:
  assumes "0 < bs" and "n = mul32 (ch_total_size (px_chip c)) 1024"
    and "\<And>i. i < n div bs \<Longrightarrow> px_virtual_registers c + 2 + i * bs \<in> R" and "px_virtual_registers c + 2 + n < 2 ^ 64"
  shows "\<exists>r w'. unlock_regspace2_uniform c bs w = Some (r, w') \<and>
    (r = 0 \<longleftrightarrow> (\<forall>i < n div bs. \<not> stuck (reg (px_virtual_registers c + 2 + i * bs) w))) \<and>
    (r = 0 \<longrightarrow> (\<forall>a \<in> R. reg a w' =
      (if \<exists>i < n div bs. a = px_virtual_registers c + 2 + i * bs then reg a w AND NOT REG2_RWLOCK else reg a w)))"
proof -
  let ?off = "px_virtual_registers c + 2" and ?k = "n div bs"
  have "?k * bs \<le> n" by simp
  then have fit: "?off + ?k * bs < 2 ^ 64" using assms(4) by linarith
  have off: "add64 (px_virtual_registers c) 2 = ?off" using assms(4) by (simp add: add64_def)
  show ?thesis
  proof (cases "\<forall>i < ?k. \<not> stuck (reg (?off + i * bs) w)")
    case True
    then obtain w' where "walk_block (unlock_regspace2_block_generic c) bs ?k ?off w = ((0, ?off + ?k * bs), w')"
        "\<forall>b \<in> R. reg b w' = (if \<exists>i<?k. b = ?off + i * bs then reg b w AND NOT REG2_RWLOCK else reg b w)"
      using walk_block_unlocks [OF assms(1,3) fit] by blast
    then show ?thesis
      using True by (cases "?k = 0") (simp_all add: unlock_regspace2_uniform_def regspace2_walk_unlockblocks_def off assms(2) [symmetric])
  next
    case False
    then obtain i where i: "i < ?k" "stuck (reg (?off + i * bs) w)" by blast
    then obtain off' w' where "walk_block (unlock_regspace2_block_generic c) bs ?k ?off w = ((-1, off'), w')"
      using walk_block_stops [OF assms(1,3) fit] by blast
    then show ?thesis
      using i by (auto simp: unlock_regspace2_uniform_def regspace2_walk_unlockblocks_def off assms(2) [symmetric])
  qed
qed

end

section \<open>Hardware with lock registers\<close>

definition fwh_ctx :: "flashchip \<Rightarrow> nat \<Rightarrow> (nat \<Rightarrow> u8) par_ctx" where
  "fwh_ctx chip regs =
     \<lparr>px_chip = chip,
      px_mst = \<lparr>pm_writeb = \<lambda>v a m. if m a AND REG2_LOCKDOWN = 0 then m(a := v) else m,
        pm_writew = None, pm_writel = None, pm_writen = None, pm_readb = \<lambda>a m. (m a, m),
        pm_readw = None, pm_readl = None, pm_readn = None, pm_delay = \<lambda>us m. m\<rparr>,
      px_virtual_memory = 0, px_virtual_registers = regs, px_verify_range = \<lambda>_ _ _ _. None\<rparr>"

lemma fwh_registers: "lock_registers (fwh_ctx chip regs) UNIV (\<lambda>a m. m a)"
  by unfold_locales (simp_all add: fwh_ctx_def)

interpretation fwh: lock_registers "fwh_ctx chip regs" UNIV "\<lambda>a m. m a"
  by (rule fwh_registers)

text \<open>C38: \<^verbatim>\<open>unlock_regspace2_uniform\<close> on registers whose value changes only while their lock-down bit is clear: it ends, the
  result is 0 exactly if no block is both locked and locked down, and then the lock bits of every block are clear and
  every other register and bit is as before.\<close>

theorem unlock_regspace2_uniform_correct:
  assumes "lock_registers c R reg" and "0 < bs" and "n = mul32 (ch_total_size (px_chip c)) 1024"
    and "\<And>i. i < n div bs \<Longrightarrow> px_virtual_registers c + 2 + i * bs \<in> R" and "px_virtual_registers c + 2 + n < 2 ^ 64"
  shows "\<exists>r w'. unlock_regspace2_uniform c bs w = Some (r, w') \<and>
    (r = 0 \<longleftrightarrow> (\<forall>i < n div bs. \<not> stuck (reg (px_virtual_registers c + 2 + i * bs) w))) \<and>
    (r = 0 \<longrightarrow> (\<forall>a \<in> R. reg a w' =
      (if \<exists>i < n div bs. a = px_virtual_registers c + 2 + i * bs then reg a w AND NOT REG2_RWLOCK else reg a w)))"
  using assms by (rule lock_registers.uniform_unlocks)

theorem unlock_regspace2_uniform_witness:
  "\<exists>w'. unlock_regspace2_uniform (fwh_ctx (opaque_chip\<lparr>ch_total_size := 512\<rparr>) 0xFFB80000) (64 * 1024) (\<lambda>a. 1) = Some (0, w') \<and>
     w' 0xFFB80002 = 0 \<and> w' 0xFFBF0002 = 0 \<and> w' 0xFFB80003 = 1"
proof -
  have n: "mul32 512 1024 = 524288" by (simp add: c_simps)
  have ns: "\<not> stuck 1" by (simp add: stuck_def REG2_LOCKDOWN_def)
  obtain r w' where w': "unlock_regspace2_uniform (fwh_ctx (opaque_chip\<lparr>ch_total_size := 512\<rparr>) 0xFFB80000) 65536 (\<lambda>a. 1) = Some (r, w')"
      "r = 0" "\<forall>a. w' a = (if \<exists>i < 8. a = 0xFFB80002 + i * 65536 then 1 AND NOT REG2_RWLOCK else 1)"
    using unlock_regspace2_uniform_correct [OF fwh_registers [of "opaque_chip\<lparr>ch_total_size := 512\<rparr>" "0xFFB80000"], of 65536 524288 "\<lambda>a. 1"] n ns
    by (auto simp: fwh_ctx_def)
  moreover have "(1 :: u8) AND NOT REG2_RWLOCK = 0" by (simp add: REG2_RWLOCK_def)
  moreover have "\<exists>i<8. (0xFFBF0002 :: nat) = 0xFFB80002 + i * 65536" by (rule exI [of _ 7]) simp
  moreover have "\<exists>i<8. (0xFFB80002 :: nat) = 0xFFB80002 + i * 65536" by (rule exI [of _ 0]) simp
  moreover have "(0xFFB80003 :: nat) \<noteq> 0xFFB80002 + i * 65536" for i by (cases i) simp_all
  ultimately have "r = 0 \<and> w' 0xFFB80002 = 0 \<and> w' 0xFFBF0002 = 0 \<and> w' 0xFFB80003 = 1" by (simp only: simp_thms if_True) auto
  then show ?thesis using w'(1) by simp
qed

end
