(* ===== verification/Dataflash.thy ===== *)
theory Dataflash
  imports SpiProbe
begin

text \<open>
  \<^verbatim>\<open>flashrom/at45db.c\<close>: the DataFlash chips of the AT45DB family. They are organised in pages whose size need not be a power of two;
  an address on the bus has the page in its upper and the offset in its lower bits. Data goes to a buffer on the chip first,
  which is then programmed into a page. Probing adapts the description of the chip to the page size it reports.

  The variable \<^verbatim>\<open>status\<close> is not initialised before a read of the status register: \<open>junk\<close> is its value if a read fails. The functions that
  only print registers are left out.
\<close>

section \<open>Commands\<close>

definition AT45DB_READY :: u8 where "AT45DB_READY = 0x80"
definition AT45DB_PROT :: u8 where "AT45DB_PROT = 0x02"
definition AT45DB_POWEROF2 :: u8 where "AT45DB_POWEROF2 = 0x01"
definition AT45DB_STATUS :: u8 where "AT45DB_STATUS = 0xD7"
definition AT45DB_DISABLE_PROTECT :: bytes where "AT45DB_DISABLE_PROTECT = [0x3D, 0x2A, 0x7F, 0x9A]"
definition AT45DB_READ_ARRAY :: u8 where "AT45DB_READ_ARRAY = 0xE8"
definition AT45DB_PAGE_ERASE :: u8 where "AT45DB_PAGE_ERASE = 0x81"
definition AT45DB_BLOCK_ERASE :: u8 where "AT45DB_BLOCK_ERASE = 0x50"
definition AT45DB_SECTOR_ERASE :: u8 where "AT45DB_SECTOR_ERASE = 0x7C"
definition AT45DB_CHIP_ERASE :: u8 where "AT45DB_CHIP_ERASE = 0xC7"
definition AT45DB_CHIP_ERASE_ADDR :: nat where "AT45DB_CHIP_ERASE_ADDR = 0x94809A"
definition AT45DB_BUFFER1_WRITE :: u8 where "AT45DB_BUFFER1_WRITE = 0x84"
definition AT45DB_BUFFER1_PAGE_PROGRAM :: u8 where "AT45DB_BUFFER1_PAGE_PROGRAM = 0x88"
definition AT45DB_EDI_ESERIES :: nat where "AT45DB_EDI_ESERIES = 0x0100"

text \<open>The result code is returned as a byte.\<close>

definition at45db_read_status_register :: "'d spi_master \<Rightarrow> u8 \<Rightarrow> 'd spi_state \<Rightarrow> (int \<times> u8 \<times> 'd spi_state) option" where
  "at45db_read_status_register m junk s =
     map_option (\<lambda>(ret, bs, s'). (ret mod 256, case bs of [] \<Rightarrow> junk | b # _ \<Rightarrow> b, s')) (spi_send_command m [AT45DB_STATUS] 1 s)"

definition at45db_read_edi :: "'d spi_master \<Rightarrow> 'd spi_state \<Rightarrow> (int \<times> nat \<times> 'd spi_state) option" where
  "at45db_read_edi m s =
     Option.bind (spi_send_command m [JEDEC_RDID] 5 s) (\<lambda>(ret, readarr, s').
       if ret \<noteq> 0 then Some (ret, 0, s')
       else if length readarr < 5 then None
       else Some (0, unat (readarr ! 3) * 256 + unat (readarr ! 4), s'))"

definition spi_disable_blockprotect_at45db :: "'d spi_master \<Rightarrow> u8 \<Rightarrow> 'd spi_state \<Rightarrow> (int \<times> 'd spi_state) option" where
  "spi_disable_blockprotect_at45db m junk s =
     Option.bind (spi_send_command m AT45DB_DISABLE_PROTECT 0 s) (\<lambda>(ret, r, s1).
       if ret \<noteq> 0 then Some (ret, s1)
       else map_option (\<lambda>(ret, status, s2). (if ret \<noteq> 0 \<or> status AND AT45DB_PROT \<noteq> 0 then 1 else 0, s2))
              (at45db_read_status_register m junk s1))"

section \<open>Probing\<close>

definition scale33 :: "nat \<Rightarrow> nat" where
  "scale33 x = mul32 (x div 32) 33"

definition scale_eraser :: "block_eraser \<Rightarrow> block_eraser" where
  "scale_eraser e = e\<lparr>be_blocks := map (\<lambda>b. b\<lparr>eb_size := scale33 (eb_size b)\<rparr>) (be_blocks e)\<rparr>"

definition scale_chip :: "flashchip \<Rightarrow> flashchip" where
  "scale_chip chip = chip\<lparr>ch_total_size := scale33 (ch_total_size chip), ch_page_size := scale33 (ch_page_size chip),
     ch_erasers := map scale_eraser (ch_erasers chip)\<rparr>"

definition page_gran :: "nat \<Rightarrow> write_granularity option" where
  "page_gran n =
     (if n = 256 then Some WRITE_GRAN_256BYTES else if n = 264 then Some WRITE_GRAN_264BYTES
      else if n = 512 then Some WRITE_GRAN_512BYTES else if n = 528 then Some WRITE_GRAN_528BYTES
      else if n = 1024 then Some WRITE_GRAN_1024BYTES else if n = 1056 then Some WRITE_GRAN_1056BYTES else None)"

text \<open>Probing changes the description of the chip, also where it fails in the end.\<close>

definition probe_spi_at45db ::
    "flashchip \<Rightarrow> 'd spi_master \<Rightarrow> u8 \<Rightarrow> id_cache \<Rightarrow> 'd spi_state \<Rightarrow> (int \<times> flashchip \<times> id_cache \<times> 'd spi_state) option" where
  "probe_spi_at45db chip m junk cache s =
     Option.bind (probe_spi_rdid chip m cache s) (\<lambda>(found, cache1, s1).
       if found = 0 then Some (0, chip, cache1, s1)
       else map_option
         (\<lambda>(ret, status, s2).
            if ret \<noteq> 0 then (0, chip, cache1, s2)
            else
              let chip1 = (if status AND AT45DB_POWEROF2 = 0 then scale_chip chip else chip)
              in case page_gran (ch_page_size chip1) of
                   None \<Rightarrow> (0, chip1, cache1, s2)
                 | Some g \<Rightarrow> (1, chip1\<lparr>ch_gran := g\<rparr>, cache1, s2))
         (at45db_read_status_register m junk s1))"

definition probe_spi_at45db_e ::
    "flashchip \<Rightarrow> 'd spi_master \<Rightarrow> u8 \<Rightarrow> id_cache \<Rightarrow> 'd spi_state \<Rightarrow> (int \<times> flashchip \<times> id_cache \<times> 'd spi_state) option" where
  "probe_spi_at45db_e chip m junk cache s =
     Option.bind (probe_spi_at45db chip m junk cache s) (\<lambda>(found, chip1, cache1, s1).
       if found = 0 then Some (0, chip1, cache1, s1)
       else map_option (\<lambda>(ret, edi, s2). (if ret \<noteq> 0 then 0 else if edi \<noteq> AT45DB_EDI_ESERIES then 0 else 1, chip1, cache1, s2))
              (at45db_read_edi m s1))"

section \<open>Addresses\<close>

text \<open>\<open>None\<close> for a division by zero and for shifts by 32 or more.\<close>

definition at45db_convert_addr :: "nat \<Rightarrow> nat \<Rightarrow> nat option" where
  "at45db_convert_addr addr page_size =
     (if page_size = 0 then None
      else Option.bind (address_to_bits (word_of_nat (sub32 page_size 1))) (\<lambda>page_bits.
        if page_bits \<ge> 32 then None
        else Some (u32 (addr div page_size * 2 ^ page_bits) OR (addr mod page_size))))"

definition at45db_cmd :: "u8 \<Rightarrow> nat \<Rightarrow> bytes" where
  "at45db_cmd opcode a = [opcode, addr_byte 2 a, addr_byte 1 a, addr_byte 0 a]"

section \<open>Reading\<close>

partial_function (option) at45db_read_loop ::
    "flashchip \<Rightarrow> 'd spi_master \<Rightarrow> nat \<Rightarrow> nat \<Rightarrow> nat \<Rightarrow> bytes \<Rightarrow> 'd spi_state \<Rightarrow> (int \<times> bytes \<times> 'd spi_state) option" where
  "at45db_read_loop chip m max_chunk addr len acc s =
     (if len = 0 then Some (0, acc, s)
      else
        let chunk = min32 max_chunk len
        in Option.bind (at45db_convert_addr addr (ch_page_size chip)) (\<lambda>a.
           Option.bind (spi_nbyte_read chip m a chunk s) (\<lambda>(ret, bs, s').
             if ret \<noteq> 0 then Some (ret, acc @ bs, s')
             else at45db_read_loop chip m max_chunk (add32 addr chunk) (sub32 len chunk) (acc @ bs) s')))"

definition at45db_max_chunk :: "flashchip \<Rightarrow> 'd spi_master \<Rightarrow> nat" where
  "at45db_max_chunk chip m = (if sm_max_data_read m > 0 then sm_max_data_read m else ch_page_size chip)"

definition spi_read_at45db ::
    "flashchip \<Rightarrow> 'd spi_master \<Rightarrow> nat \<Rightarrow> nat \<Rightarrow> 'd spi_state \<Rightarrow> (int \<times> bytes \<times> 'd spi_state) option" where
  "spi_read_at45db chip m addr len s =
     (if add32 addr len > mul32 (ch_total_size chip) 1024 then Some (1, [], s)
      else at45db_read_loop chip m (at45db_max_chunk chip m) addr len [] s)"

text \<open>The legacy command sends four bytes before the data. A chunk of less than four bytes makes the length of the copy wrap.\<close>

partial_function (option) at45db_e8_loop ::
    "flashchip \<Rightarrow> 'd spi_master \<Rightarrow> nat \<Rightarrow> nat \<Rightarrow> nat \<Rightarrow> bytes \<Rightarrow> 'd spi_state \<Rightarrow> (int \<times> bytes \<times> 'd spi_state) option" where
  "at45db_e8_loop chip m max_chunk addr len acc s =
     (if len = 0 then Some (0, acc, s)
      else
        let chunk = min32 max_chunk (add32 len 4)
        in Option.bind (at45db_convert_addr addr (ch_page_size chip)) (\<lambda>a.
           Option.bind (spi_send_command m (at45db_cmd AT45DB_READ_ARRAY a) chunk s) (\<lambda>(ret, tmp, s').
             if ret \<noteq> 0 then Some (ret, acc, s')
             else if chunk < 4 then None
             else at45db_e8_loop chip m max_chunk (add32 addr (chunk - 4)) (sub32 len (chunk - 4)) (acc @ drop 4 tmp) s')))"

definition spi_read_at45db_e8 ::
    "flashchip \<Rightarrow> 'd spi_master \<Rightarrow> nat \<Rightarrow> nat \<Rightarrow> 'd spi_state \<Rightarrow> (int \<times> bytes \<times> 'd spi_state) option" where
  "spi_read_at45db_e8 chip m addr len s =
     (if add32 addr len > mul32 (ch_total_size chip) 1024 then Some (1, [], s)
      else at45db_e8_loop chip m (at45db_max_chunk chip m) addr len [] s)"

section \<open>Erasing\<close>

text \<open>The status is looked at before the result code. \<open>retries\<close> counts down.\<close>

fun at45db_wait_ready :: "'d spi_master \<Rightarrow> u8 \<Rightarrow> nat \<Rightarrow> 'd spi_state \<Rightarrow> (int \<times> 'd spi_state) option" where
  "at45db_wait_ready m junk retries s =
     Option.bind (at45db_read_status_register m junk s) (\<lambda>(ret, status, s').
       if status AND AT45DB_READY = AT45DB_READY then Some (0, s')
       else if ret \<noteq> 0 then Some (1, s')
       else case retries of 0 \<Rightarrow> Some (1, s') | Suc k \<Rightarrow> at45db_wait_ready m junk k s')"

declare at45db_wait_ready.simps [simp del]

definition at45db_erase :: "'d spi_master \<Rightarrow> u8 \<Rightarrow> u8 \<Rightarrow> nat \<Rightarrow> nat \<Rightarrow> 'd spi_state \<Rightarrow> (int \<times> 'd spi_state) option" where
  "at45db_erase m junk opcode a retries s =
     Option.bind (spi_send_command m (at45db_cmd opcode a) 0 s) (\<lambda>(ret, r, s1).
       if ret \<noteq> 0 then Some (ret, s1) else at45db_wait_ready m junk retries s1)"

text \<open>The checks of the functions for pages, blocks and sectors.\<close>

definition at45db_checked_erase ::
    "flashchip \<Rightarrow> 'd spi_master \<Rightarrow> u8 \<Rightarrow> u8 \<Rightarrow> nat \<Rightarrow> nat \<Rightarrow> nat \<Rightarrow> 'd spi_state \<Rightarrow> (int \<times> 'd spi_state) option" where
  "at45db_checked_erase chip m junk opcode retries addr blocklen s =
     (let page_size = ch_page_size chip
      in if page_size = 0 then None
         else if addr mod page_size \<noteq> 0 \<or> blocklen mod page_size \<noteq> 0 then Some (1, s)
         else if add32 addr blocklen > mul32 (ch_total_size chip) 1024 then Some (1, s)
         else Option.bind (at45db_convert_addr addr page_size) (\<lambda>a. at45db_erase m junk opcode a retries s))"

definition spi_erase_at45db_page ::
    "flashchip \<Rightarrow> 'd spi_master \<Rightarrow> u8 \<Rightarrow> nat \<Rightarrow> nat \<Rightarrow> 'd spi_state \<Rightarrow> (int \<times> 'd spi_state) option" where
  "spi_erase_at45db_page chip m junk = at45db_checked_erase chip m junk AT45DB_PAGE_ERASE 200"

definition spi_erase_at45db_block ::
    "flashchip \<Rightarrow> 'd spi_master \<Rightarrow> u8 \<Rightarrow> nat \<Rightarrow> nat \<Rightarrow> 'd spi_state \<Rightarrow> (int \<times> 'd spi_state) option" where
  "spi_erase_at45db_block chip m junk = at45db_checked_erase chip m junk AT45DB_BLOCK_ERASE 300"

definition spi_erase_at45db_sector ::
    "flashchip \<Rightarrow> 'd spi_master \<Rightarrow> u8 \<Rightarrow> nat \<Rightarrow> nat \<Rightarrow> 'd spi_state \<Rightarrow> (int \<times> 'd spi_state) option" where
  "spi_erase_at45db_sector chip m junk = at45db_checked_erase chip m junk AT45DB_SECTOR_ERASE 100"

definition spi_erase_at45db_chip ::
    "flashchip \<Rightarrow> 'd spi_master \<Rightarrow> u8 \<Rightarrow> nat \<Rightarrow> nat \<Rightarrow> 'd spi_state \<Rightarrow> (int \<times> 'd spi_state) option" where
  "spi_erase_at45db_chip chip m junk addr blocklen s =
     (if add32 addr blocklen > mul32 (ch_total_size chip) 1024 then Some (1, s)
      else at45db_erase m junk AT45DB_CHIP_ERASE AT45DB_CHIP_ERASE_ADDR 200 s)"

text \<open>The sectors of the AT45CS1282: 8 pages, 248 pages, and then 256 pages each.\<close>

definition spi_erase_at45cs_sector ::
    "flashchip \<Rightarrow> 'd spi_master \<Rightarrow> u8 \<Rightarrow> nat \<Rightarrow> nat \<Rightarrow> 'd spi_state \<Rightarrow> (int \<times> 'd spi_state) option" where
  "spi_erase_at45cs_sector chip m junk addr blocklen s =
     (let page_size = ch_page_size chip;
          blocks = be_blocks (ch_erasers chip ! 0);
          sec_0a_top = eb_size (blocks ! 0);
          sec_0b_top = add32 (eb_size (blocks ! 0)) (eb_size (blocks ! 1))
      in if add32 addr blocklen > mul32 (ch_total_size chip) 1024 then Some (1, s)
         else if \<not> addr < sec_0a_top \<and> \<not> addr < sec_0b_top \<and> mul32 256 page_size = 0 then None
         else
           let partial_range =
                 (if addr < sec_0a_top then addr \<noteq> 0 \<or> blocklen \<noteq> mul32 8 page_size
                  else if addr < sec_0b_top then addr \<noteq> sec_0a_top \<or> blocklen \<noteq> mul32 248 page_size
                  else addr mod mul32 256 page_size \<noteq> 0 \<or> blocklen mod mul32 256 page_size \<noteq> 0)
           in if partial_range then Some (1, s)
              else Option.bind (at45db_convert_addr addr page_size) (\<lambda>a.
                     at45db_erase m junk (if addr < sec_0a_top then 0x50 else 0x7C) a 100 s))"

section \<open>Writing\<close>

text \<open>\<open>len\<close> is only checked: the loop always goes to the end of the page.\<close>

partial_function (option) at45db_fill_loop ::
    "'d spi_master \<Rightarrow> nat \<Rightarrow> nat \<Rightarrow> bytes \<Rightarrow> nat \<Rightarrow> 'd spi_state \<Rightarrow> (int \<times> 'd spi_state) option" where
  "at45db_fill_loop m page_size max_chunk bs off s =
     (if off < page_size
      then
        let cur_chunk = min32 max_chunk (page_size - off)
        in if length bs < off + cur_chunk then None
           else Option.bind (spi_send_command m (at45db_cmd AT45DB_BUFFER1_WRITE off @ bslice off cur_chunk bs) 0 s) (\<lambda>(ret, r, s').
                  if ret \<noteq> 0 then Some (ret, s') else at45db_fill_loop m page_size max_chunk bs (add32 off cur_chunk) s')
      else Some (0, s))"

definition at45db_fill_buffer1 ::
    "flashchip \<Rightarrow> 'd spi_master \<Rightarrow> bytes \<Rightarrow> nat \<Rightarrow> nat \<Rightarrow> 'd spi_state \<Rightarrow> (int \<times> 'd spi_state) option" where
  "at45db_fill_buffer1 chip m bs off len s =
     (let page_size = ch_page_size chip;
          max_data_write = sm_max_data_write m;
          max_chunk = (if max_data_write > 4 \<and> max_data_write - 4 \<le> page_size then max_data_write - 4 else page_size)
      in if add32 off len > page_size then Some (1, s) else at45db_fill_loop m page_size max_chunk bs off s)"

definition at45db_commit_buffer1 :: "'d spi_master \<Rightarrow> u8 \<Rightarrow> nat \<Rightarrow> 'd spi_state \<Rightarrow> (int \<times> 'd spi_state) option" where
  "at45db_commit_buffer1 m junk a s =
     Option.bind (spi_send_command m (at45db_cmd AT45DB_BUFFER1_PAGE_PROGRAM a) 0 s) (\<lambda>(ret, r, s1).
       if ret \<noteq> 0 then Some (ret, s1) else at45db_wait_ready m junk 200 s1)"

definition at45db_program_page ::
    "flashchip \<Rightarrow> 'd spi_master \<Rightarrow> u8 \<Rightarrow> bytes \<Rightarrow> nat \<Rightarrow> 'd spi_state \<Rightarrow> (int \<times> 'd spi_state) option" where
  "at45db_program_page chip m junk buf a s =
     Option.bind (at45db_fill_buffer1 chip m buf 0 (ch_page_size chip) s) (\<lambda>(ret, s1).
       if ret \<noteq> 0 then Some (ret, s1) else at45db_commit_buffer1 m junk a s1)"

partial_function (option) at45db_write_loop ::
    "flashchip \<Rightarrow> 'd spi_master \<Rightarrow> u8 \<Rightarrow> bytes \<Rightarrow> nat \<Rightarrow> nat \<Rightarrow> nat \<Rightarrow> 'd spi_state \<Rightarrow> (int \<times> 'd spi_state) option" where
  "at45db_write_loop chip m junk buf start len i s =
     (if i < len
      then Option.bind (at45db_convert_addr (add32 start i) (ch_page_size chip)) (\<lambda>a.
           Option.bind (at45db_program_page chip m junk (drop i buf) a s) (\<lambda>(ret, s').
             if ret \<noteq> 0 then Some (1, s') else at45db_write_loop chip m junk buf start len (add32 i (ch_page_size chip)) s'))
      else Some (0, s))"

definition spi_write_at45db ::
    "flashchip \<Rightarrow> 'd spi_master \<Rightarrow> u8 \<Rightarrow> bytes \<Rightarrow> nat \<Rightarrow> nat \<Rightarrow> 'd spi_state \<Rightarrow> (int \<times> 'd spi_state) option" where
  "spi_write_at45db chip m junk buf start len s =
     (let page_size = ch_page_size chip
      in if page_size = 0 then None
         else if start mod page_size \<noteq> 0 \<or> len mod page_size \<noteq> 0 then Some (1, s)
         else if add32 start len > mul32 (ch_total_size chip) 1024 then Some (1, s)
         else at45db_write_loop chip m junk buf start len 0 s)"

end
