(* ===== verification/DataflashOk.thy ===== *)
theory DataflashOk
  imports Dataflash SpiOk ParallelOk
begin

text \<open>
  What reading, writing and erasing do on a DataFlash chip. The locale \<open>dataflash\<close> states what the commands of such a chip do, with the
  time it is busy counted in reads of the status register; an AT45DB161D with pages of 528 bytes is an instance.
\<close>

section \<open>Addresses\<close>

lemma address_to_bits_eq:
  assumes "0 < pb" "2 ^ (pb - 1) < ps" "ps \<le> 2 ^ pb" "pb < 32"
  shows "address_to_bits (word_of_nat (sub32 ps 1)) = Some pb"
proof -
  have "(2 :: nat) ^ pb \<le> 2 ^ 31" using assms(4) by (intro power_increasing) auto
  then have ps: "ps \<le> 2147483648" using assms(3) by simp
  then have u: "unat (word_of_nat (sub32 ps 1) :: 32 word) = ps - 1"
    using assms(2) by (simp only: sub32_no_wrap unsigned_of_nat take_bit_eq_mod) simp
  have "(1 :: nat) \<le> 2 ^ (pb - 1)" by simp
  with assms(2) have ge: "2 ^ (pb - 1) \<le> ps - 1" "0 < ps - 1" by linarith+
  have "(LEAST n. ps - 1 < 2 ^ n) = pb"
  proof (rule Least_equality [where P = "\<lambda>n. ps - 1 < 2 ^ n"])
    show "ps - 1 < 2 ^ pb" using assms(2,3) by linarith
    fix k assume "ps - 1 < 2 ^ k"
    with ge(1) have "(2 :: nat) ^ (pb - 1) < 2 ^ k" by linarith
    then have "pb - 1 < k" by (rule power_less_imp_less_exp [rotated]) simp
    then show "pb \<le> k" by simp
  qed
  moreover have "word_of_nat (sub32 ps 1) \<noteq> (0 :: 32 word)" using u ge(2) by (metis unsigned_0 less_irrefl)
  ultimately show ?thesis unfolding address_to_bits_correct u by simp
qed

lemma or_eq_add: "y < 2 ^ k \<Longrightarrow> (x * 2 ^ k) OR y = x * 2 ^ k + (y :: nat)"
proof -
  assume y: "y < 2 ^ k"
  have "push_bit k x AND take_bit k y = 0" by (rule bit_eqI) (auto simp: bit_simps)
  then show ?thesis using y disjunctive_add_eq_or [of "push_bit k x" "take_bit k y"]
    by (simp add: push_bit_eq_mult take_bit_eq_mod)
qed

lemma convert_addr_eq:
  assumes "0 < pb" "2 ^ (pb - 1) < ps" "ps \<le> 2 ^ pb" "pb < 32" and "addr div ps * 2 ^ pb < 2 ^ 32"
  shows "at45db_convert_addr addr ps = Some (addr div ps * 2 ^ pb + addr mod ps)"
proof -
  have "0 < ps" using assms(2) by (cases ps) simp_all
  then have "addr mod ps < 2 ^ pb" using assms(3) by (meson less_le_trans mod_less_divisor)
  then show ?thesis using assms(4,5) \<open>0 < ps\<close>
    unfolding at45db_convert_addr_def address_to_bits_eq [OF assms(1-4)] by (simp add: u32_id or_eq_add)
qed

section \<open>Programming\<close>

lemma programmed_erased:
  assumes "x + length bs \<le> length m" and "bslice x (length bs) m = replicate (length bs) 0xFF"
  shows "bslice x (length bs) (programmed m x bs) = bs"
proof (rule nth_equalityI)
  fix i assume "i < length (bslice x (length bs) (programmed m x bs))"
  then have i: "i < length bs" by simp
  have "m ! (x + i) = 0xFF" using nth_bslice [of i "length bs" x m] assms i by simp
  also have "(0xFF :: u8) = - 1" by simp
  finally have "m ! (x + i) AND bs ! i = bs ! i" by simp
  then show "bslice x (length bs) (programmed m x bs) ! i = bs ! i"
    using i assms(1) by (simp add: nth_bslice programmed_def)
qed (use assms in simp)

section \<open>The interface\<close>

text \<open>\<open>np\<close> pages of \<open>ps\<close> bytes, with \<open>pb\<close> bits of the address for the offset.\<close>

locale dataflash =
  fixes chip :: flashchip and m :: "'d spi_master" and command :: "bytes \<Rightarrow> nat \<Rightarrow> 'd \<Rightarrow> (int \<times> bytes \<times> 'd) option"
    and ps pb np :: nat and dev_ok :: "'d \<Rightarrow> bool" and contents buffer :: "'d \<Rightarrow> bytes" and busy :: "'d \<Rightarrow> nat"
  assumes single: "sm_command m = Some command" and limits: "sm_max_data_read m < 2 ^ 31" "sm_max_data_write m < 2 ^ 31"
    and no_4ba: "\<not> has_feature chip (FEATURE_4BA_EAR_C5C8 OR FEATURE_4BA_EAR_1716)" "\<not> has_feature chip FEATURE_4BA_READ"
    and geometry: "ch_page_size chip = ps" "ch_total_size chip * 1024 = np * ps"
      "0 < pb" "2 ^ (pb - 1) < ps" "ps \<le> 2 ^ pb" "0 < np" "np * 2 ^ pb \<le> 2 ^ 24"
    and length_law: "dev_ok d \<Longrightarrow> length (contents d) = np * ps \<and> length (buffer d) = ps"
    and status_law: "dev_ok d \<Longrightarrow> \<exists>v r d'. command [AT45DB_STATUS] 1 d = Some (0, v # r, d') \<and>
      (v AND AT45DB_READY = AT45DB_READY \<longleftrightarrow> busy d = 0) \<and> busy d' = busy d - 1 \<and> dev_ok d' \<and> contents d' = contents d \<and> buffer d' = buffer d"
    and read_law: "dev_ok d \<Longrightarrow> busy d = 0 \<Longrightarrow> 0 < len \<Longrightarrow> a + len \<le> np * ps \<Longrightarrow>
      \<exists>d'. command (JEDEC_READ # abytes (a div ps * 2 ^ pb + a mod ps)) len d = Some (0, bslice a len (contents d), d') \<and>
        dev_ok d' \<and> busy d' = 0 \<and> contents d' = contents d"
    and buffer_law: "dev_ok d \<Longrightarrow> busy d = 0 \<Longrightarrow> bs \<noteq> [] \<Longrightarrow> off + length bs \<le> ps \<Longrightarrow>
      \<exists>r d'. command (AT45DB_BUFFER1_WRITE # abytes off @ bs) 0 d = Some (0, r, d') \<and>
        dev_ok d' \<and> busy d' = 0 \<and> contents d' = contents d \<and> buffer d' = blit off bs (buffer d)"
    and program_law: "dev_ok d \<Longrightarrow> busy d = 0 \<Longrightarrow> p < np \<Longrightarrow>
      \<exists>r d'. command (AT45DB_BUFFER1_PAGE_PROGRAM # abytes (p * 2 ^ pb)) 0 d = Some (0, r, d') \<and>
        dev_ok d' \<and> busy d' \<le> 200 \<and> contents d' = programmed (contents d) (p * ps) (buffer d)"
    and erase_law: "dev_ok d \<Longrightarrow> busy d = 0 \<Longrightarrow> p < np \<Longrightarrow>
      \<exists>r d'. command (AT45DB_PAGE_ERASE # abytes (p * 2 ^ pb)) 0 d = Some (0, r, d') \<and>
        dev_ok d' \<and> busy d' \<le> 200 \<and> contents d' = memset_at (p * ps) 0xFF ps (contents d)"
begin

text \<open>A chip that is not busy.\<close>

definition idle :: "'d spi_state \<Rightarrow> bool" where
  "idle s \<longleftrightarrow> on_dev (\<lambda>d. dev_ok d \<and> busy d = 0) s"

abbreviation img :: "'d spi_state \<Rightarrow> bytes" where "img \<equiv> dev_img contents"

lemma send_eq: "spi_send_command m w k s = lift_dev s (command w k (sp_dev s))"
  by (simp add: spi_send_command_def single)

lemma sizes: "0 < ps" "ps < 2 ^ 25" "np * ps \<le> 2 ^ 24" "pb < 32"
proof -
  show "0 < ps" using geometry(4) by (cases ps) simp_all
  have "np * ps \<le> np * 2 ^ pb" using geometry(5) by simp
  with geometry(7) show le: "np * ps \<le> 2 ^ 24" by linarith
  have "1 * ps \<le> np * ps" using geometry(6) by (intro mult_right_mono) simp_all
  then have "ps \<le> np * ps" by simp
  also note le
  finally show "ps < 2 ^ 25" by simp
  have "(1 :: nat) * 2 ^ pb \<le> np * 2 ^ pb" using geometry(6) by (intro mult_right_mono) simp_all
  then have "(2 :: nat) ^ pb \<le> np * 2 ^ pb" by simp
  also note geometry(7)
  finally have "pb \<le> 24" by (rule power_le_imp_le_exp [rotated]) simp
  then show "pb < 32" by simp
qed

lemma chip_bytes: "mul32 (ch_total_size chip) 1024 = np * ps"
  using geometry(2) sizes(3) by (simp add: mul32_def u32_def)

lemma convert: "a < np * ps \<Longrightarrow> at45db_convert_addr a ps = Some (a div ps * 2 ^ pb + a mod ps)"
proof -
  assume "a < np * ps"
  then have "a div ps < np" using sizes(1) by (simp add: less_mult_imp_div_less)
  then have "a div ps * 2 ^ pb < np * 2 ^ pb" by simp
  also note geometry(7)
  finally have "a div ps * 2 ^ pb < 2 ^ 32" by simp
  then show ?thesis by (intro convert_addr_eq geometry(3-5) sizes(4))
qed

lemma three_bytes: "a < np * ps \<Longrightarrow> (a div ps * 2 ^ pb + a mod ps) div 2 ^ 24 = 0"
proof -
  assume "a < np * ps"
  then have p: "Suc (a div ps) \<le> np" using sizes(1) by (simp add: less_mult_imp_div_less Suc_le_eq)
  have "a mod ps < 2 ^ pb" using geometry(5) mod_less_divisor [OF sizes(1), of a] by linarith
  then have "a div ps * 2 ^ pb + a mod ps < Suc (a div ps) * 2 ^ pb" by simp
  also have "\<dots> \<le> np * 2 ^ pb" using p by (intro mult_right_mono) simp_all
  also note geometry(7)
  finally show ?thesis by simp
qed

lemma wait_ready:
  assumes "on_dev dev_ok s" and "busy (sp_dev s) \<le> retries"
  shows "\<exists>s'. at45db_wait_ready m junk retries s = Some (0, s') \<and> idle s' \<and> img s' = img s"
  using assms
proof (induction retries arbitrary: s)
  case 0
  obtain v r d' where d': "command [AT45DB_STATUS] 1 (sp_dev s) = Some (0, v # r, d')" "v AND AT45DB_READY = AT45DB_READY \<longleftrightarrow> busy (sp_dev s) = 0"
      "busy d' = busy (sp_dev s) - 1" "dev_ok d'" "contents d' = contents (sp_dev s)"
    using status_law [of "sp_dev s"] 0(1) unfolding on_dev_def by metis
  show ?case using d' 0
    by (subst at45db_wait_ready.simps) (simp add: at45db_read_status_register_def send_eq lift_dev_def idle_def on_dev_def dev_img_def)
next
  case (Suc k)
  obtain v r d' where d': "command [AT45DB_STATUS] 1 (sp_dev s) = Some (0, v # r, d')" "v AND AT45DB_READY = AT45DB_READY \<longleftrightarrow> busy (sp_dev s) = 0"
      "busy d' = busy (sp_dev s) - 1" "dev_ok d'" "contents d' = contents (sp_dev s)"
    using status_law [of "sp_dev s"] Suc.prems(1) unfolding on_dev_def by metis
  have "\<exists>s'. at45db_wait_ready m junk k (s\<lparr>sp_dev := d'\<rparr>) = Some (0, s') \<and> idle s' \<and> img s' = img (s\<lparr>sp_dev := d'\<rparr>)"
    using d'(3,4) Suc.prems by (intro Suc.IH) (simp_all add: on_dev_def)
  then show ?case using d' Suc.prems
    by (subst at45db_wait_ready.simps)
      (auto simp add: at45db_read_status_register_def send_eq lift_dev_def idle_def on_dev_def dev_img_def)
qed

lemma read_loop:
  assumes "0 < max_chunk" "max_chunk < 2 ^ 31" and "idle s" and "a + len \<le> np * ps"
  shows "\<exists>s'. at45db_read_loop chip m max_chunk a len acc s = Some (0, acc @ bslice a len (img s), s') \<and> idle s' \<and> img s' = img s"
  using assms(3,4)
proof (induction len arbitrary: a acc s rule: less_induct)
  case (less len)
  show ?case
  proof (cases "len = 0")
    case True
    then show ?thesis using less.prems by (subst at45db_read_loop.simps) simp
  next
    case False
    define k where "k = min max_chunk len"
    have k: "0 < k" "k \<le> len" "min32 max_chunk len = k" "add32 a k = a + k" "sub32 len k = len - k"
      using False assms(1,2) less.prems(2) sizes(3) by (simp_all add: k_def c_simps)
    let ?a = "a div ps * 2 ^ pb + a mod ps"
    obtain d' where d': "command (JEDEC_READ # abytes ?a) k (sp_dev s) = Some (0, bslice a k (img s), d')" "dev_ok d'" "busy d' = 0"
        "contents d' = contents (sp_dev s)"
      using read_law [of "sp_dev s" k a] k(1,2) less.prems unfolding idle_def on_dev_def dev_img_def by fastforce
    have rd: "spi_nbyte_read chip m ?a k s = Some (0, bslice a k (img s), s\<lparr>sp_dev := d'\<rparr>)"
      using d'(1) no_4ba less.prems(1) three_bytes [of a] False less.prems(2)
      by (simp add: spi_nbyte_read_def spi_prepare_address_def idle_def on_dev_def send_eq lift_dev_def abytes_def)
    have "\<exists>s'. at45db_read_loop chip m max_chunk (a + k) (len - k) (acc @ bslice a k (img s)) (s\<lparr>sp_dev := d'\<rparr>) =
        Some (0, (acc @ bslice a k (img s)) @ bslice (a + k) (len - k) (img (s\<lparr>sp_dev := d'\<rparr>)), s') \<and> idle s' \<and> img s' = img (s\<lparr>sp_dev := d'\<rparr>)"
      using k d' less.prems by (intro less.IH) (simp_all add: idle_def on_dev_def)
    then show ?thesis using False k rd less.prems(2) convert [of a] geometry(1) bslice_split [OF k(2), of a "img s"] d'(4)
      by (subst at45db_read_loop.simps) (simp add: dev_img_def)
  qed
qed

lemma fill_loop_ok:
  assumes "0 < max_chunk" "max_chunk < 2 ^ 31" and "idle s" and "off \<le> ps" "ps \<le> length bs"
  shows "\<exists>s'. at45db_fill_loop m ps max_chunk bs off s = Some (0, s') \<and> idle s' \<and> img s' = img s \<and>
    buffer (sp_dev s') = blit off (bslice off (ps - off) bs) (buffer (sp_dev s))"
  using assms(3,4)
proof (induction "ps - off" arbitrary: off s rule: less_induct)
  case less
  show ?case
  proof (cases "off < ps")
    case False
    then show ?thesis using less.prems by (subst at45db_fill_loop.simps) simp
  next
    case True
    define k where "k = min max_chunk (ps - off)"
    have k: "0 < k" "off + k \<le> ps" "min32 max_chunk (ps - off) = k" "add32 off k = off + k"
      using True assms(1,2) sizes(2) by (simp_all add: k_def c_simps)
    have ne: "bslice off k bs \<noteq> []" "length (bslice off k bs) = k" using k assms(5) by (auto simp: bslice_def)
    obtain r d' where d': "command (AT45DB_BUFFER1_WRITE # abytes off @ bslice off k bs) 0 (sp_dev s) = Some (0, r, d')" "dev_ok d'" "busy d' = 0"
        "contents d' = contents (sp_dev s)" "buffer d' = blit off (bslice off k bs) (buffer (sp_dev s))"
      using buffer_law [of "sp_dev s" "bslice off k bs" off] ne k(2) less.prems unfolding idle_def on_dev_def by fastforce
    have "\<exists>s'. at45db_fill_loop m ps max_chunk bs (off + k) (s\<lparr>sp_dev := d'\<rparr>) = Some (0, s') \<and> idle s' \<and> img s' = img (s\<lparr>sp_dev := d'\<rparr>) \<and>
        buffer (sp_dev s') = blit (off + k) (bslice (off + k) (ps - (off + k)) bs) (buffer (sp_dev (s\<lparr>sp_dev := d'\<rparr>)))"
      using k d' less.prems True by (intro less.hyps) (simp_all add: idle_def on_dev_def)
    moreover have "blit off (bslice off (ps - off) bs) b = blit (off + k) (bslice (off + k) (ps - (off + k)) bs) (blit off (bslice off k bs) b)" for b
      using bslice_split [of k "ps - off" off bs] k(2) ne(2) by (simp add: blit_append)
    ultimately show ?thesis using True k d' assms(5)
      by (subst at45db_fill_loop.simps) (simp add: send_eq lift_dev_def at45db_cmd_def abytes_def dev_img_def)
  qed
qed

lemma cmd_eq: "at45db_cmd opc a = opc # abytes a"
  by (simp add: at45db_cmd_def abytes_def)

text \<open>A command that starts the chip working, and the wait for its end.\<close>

lemma command_and_wait:
  assumes "idle s" and "command (opc # abytes a) 0 (sp_dev s) = Some (0, r, d')" "dev_ok d'" "busy d' \<le> retries"
  shows "\<exists>s'. Option.bind (spi_send_command m (at45db_cmd opc a) 0 s) (\<lambda>(ret, r, s1).
      if ret \<noteq> 0 then Some (ret, s1) else at45db_wait_ready m junk retries s1) = Some (0, s') \<and> idle s' \<and> img s' = contents d'"
  using wait_ready [of "s\<lparr>sp_dev := d'\<rparr>" retries junk] assms
  by (simp add: send_eq lift_dev_def cmd_eq idle_def on_dev_def dev_img_def)

lemma program_page:
  assumes "idle s" and "p < np" and "ps \<le> length buf"
  shows "\<exists>s'. at45db_program_page chip m junk buf (p * 2 ^ pb) s = Some (0, s') \<and> idle s' \<and> img s' = programmed (img s) (p * ps) (take ps buf)"
proof -
  define mc where "mc = (if 4 < sm_max_data_write m \<and> sm_max_data_write m - 4 \<le> ps then sm_max_data_write m - 4 else ps)"
  have "0 < mc" "mc < 2 ^ 31" using sizes(1,2) limits(2) by (auto simp: mc_def)
  then obtain s1 where s1: "at45db_fill_loop m ps mc buf 0 s = Some (0, s1)" "idle s1" "img s1 = img s"
      "buffer (sp_dev s1) = blit 0 (bslice 0 ps buf) (buffer (sp_dev s))"
    using fill_loop_ok [of mc s 0 buf] assms(1,3) by auto
  have "length (buffer (sp_dev s)) = ps" using assms(1) length_law by (simp add: idle_def on_dev_def)
  then have buf: "buffer (sp_dev s1) = take ps buf"
    using s1(4) assms(3) take_blit [of "take ps buf" ps "buffer (sp_dev s)"] by (simp add: bslice_def)
  obtain r d' where d': "command (AT45DB_BUFFER1_PAGE_PROGRAM # abytes (p * 2 ^ pb)) 0 (sp_dev s1) = Some (0, r, d')" "dev_ok d'" "busy d' \<le> 200"
      "contents d' = programmed (contents (sp_dev s1)) (p * ps) (buffer (sp_dev s1))"
    using program_law [of "sp_dev s1" p] s1(2) assms(2) unfolding idle_def on_dev_def by fastforce
  obtain s2 where "at45db_commit_buffer1 m junk (p * 2 ^ pb) s1 = Some (0, s2)" "idle s2" "img s2 = contents d'"
    using command_and_wait [OF s1(2) d'(1-3)] unfolding at45db_commit_buffer1_def by blast
  then show ?thesis using s1(1,3) d'(4) buf sizes(2)
    by (simp add: at45db_program_page_def at45db_fill_buffer1_def geometry(1) Let_def mc_def [symmetric] add32_no_wrap dev_img_def)
qed

lemma write_loop:
  assumes "idle s" and "i + k * ps = length buf" "start = p * ps" "start + length buf \<le> np * ps" and "ps dvd i"
  shows "\<exists>s'. at45db_write_loop chip m junk buf start (length buf) i s = Some (0, s') \<and> idle s' \<and>
    img s' = programmed (img s) (start + i) (drop i buf)"
  using assms(1,2,5)
proof (induction k arbitrary: i s)
  case 0
  then show ?case by (subst at45db_write_loop.simps) simp
next
  case (Suc k)
  obtain q where q: "i = q * ps" using Suc.prems(3) by (metis dvd_def mult.commute)
  have i: "i + ps \<le> length buf" using Suc.prems(2) by simp
  have at: "add32 start i = start + i" "add32 i ps = i + ps" using i assms(4) sizes(2,3) by (simp_all add: add32_no_wrap)
  have "start + i < np * ps" using i assms(4) sizes(1) by linarith
  moreover have "start + i = (p + q) * ps" using q assms(3) by (simp add: algebra_simps)
  ultimately have cv: "at45db_convert_addr (start + i) ps = Some ((p + q) * 2 ^ pb)" and pq: "p + q < np"
    using convert [of "start + i"] sizes(1) by simp_all
  have "ps \<le> length (drop i buf)" using i by simp
  then obtain s1 where s1: "at45db_program_page chip m junk (drop i buf) ((p + q) * 2 ^ pb) s = Some (0, s1)" "idle s1"
      "img s1 = programmed (img s) ((p + q) * ps) (take ps (drop i buf))"
    using program_page [OF Suc.prems(1) pq, of "drop i buf" junk] by blast
  obtain s' where s': "at45db_write_loop chip m junk buf start (length buf) (i + ps) s1 = Some (0, s')" "idle s'"
      "img s' = programmed (img s1) (start + (i + ps)) (drop (i + ps) buf)"
    using Suc.IH [OF s1(2), of "i + ps"] Suc.prems by auto
  have "programmed (programmed (img s) (start + i) (take ps (drop i buf))) (start + i + ps) (drop ps (drop i buf)) = programmed (img s) (start + i) (drop i buf)"
    using programmed_append [of "img s" "start + i" "take ps (drop i buf)" "drop ps (drop i buf)"] i
    by (simp del: drop_drop)
  then have "img s' = programmed (img s) (start + i) (drop i buf)"
    using s'(3) s1(3) \<open>start + i = (p + q) * ps\<close> by (simp add: add.commute [of ps i] flip: add.assoc)
  then show ?case using s'(1,2) s1(1) cv at i sizes(1) by (subst at45db_write_loop.simps) (simp add: geometry(1))
qed

lemma write_ok:
  assumes "idle s" and "ps dvd start" "ps dvd length buf" "start + length buf \<le> np * ps"
  shows "\<exists>s'. spi_write_at45db chip m junk buf start (length buf) s = Some (0, s') \<and> idle s' \<and> img s' = programmed (img s) start buf"
proof -
  obtain p k where "start = p * ps" "length buf = k * ps" using assms(2,3) by (metis dvd_def mult.commute)
  then show ?thesis using write_loop [of s 0 k buf start p junk] assms sizes(1,3) chip_bytes
    by (simp add: spi_write_at45db_def geometry(1) Let_def add32_no_wrap)
qed

lemma read_ok:
  assumes "idle s" and "a + len \<le> np * ps"
  shows "\<exists>s'. spi_read_at45db chip m a len s = Some (0, bslice a len (img s), s') \<and> idle s' \<and> img s' = img s"
proof -
  have "0 < at45db_max_chunk chip m" "at45db_max_chunk chip m < 2 ^ 31" "add32 a len = a + len"
    using sizes(1-3) limits(1) assms(2) by (simp_all add: at45db_max_chunk_def geometry(1) add32_no_wrap)
  then show ?thesis using read_loop [of "at45db_max_chunk chip m" s a len "[]"] assms chip_bytes by (simp add: spi_read_at45db_def)
qed

lemma erase_page_ok:
  assumes "idle s" and "p < np"
  shows "\<exists>s'. spi_erase_at45db_page chip m junk (p * ps) ps s = Some (0, s') \<and> idle s' \<and> img s' = memset_at (p * ps) 0xFF ps (img s)"
proof -
  obtain r d' where d': "command (AT45DB_PAGE_ERASE # abytes (p * 2 ^ pb)) 0 (sp_dev s) = Some (0, r, d')" "dev_ok d'" "busy d' \<le> 200"
      "contents d' = memset_at (p * ps) 0xFF ps (contents (sp_dev s))"
    using erase_law [of "sp_dev s" p] assms unfolding idle_def on_dev_def by fastforce
  have le: "Suc p * ps \<le> np * ps" using assms(2) by (intro mult_right_mono) simp_all
  then have "at45db_convert_addr (p * ps) ps = Some (p * 2 ^ pb)" using convert [of "p * ps"] sizes(1) assms(2) by simp
  then show ?thesis using command_and_wait [OF assms(1) d'(1-3), of junk] le sizes(1,3) chip_bytes d'(4)
    by (simp add: spi_erase_at45db_page_def at45db_checked_erase_def at45db_erase_def geometry(1) Let_def add32_no_wrap add.commute dev_img_def)
qed

end

section \<open>An AT45DB161D\<close>

record df_chip =
  df_mem :: bytes
  df_buf :: bytes
  df_busy :: nat

text \<open>4096 pages of 528 bytes; programming and erasing keep the chip busy for three reads of the status.\<close>

definition df_command :: "bytes \<Rightarrow> nat \<Rightarrow> df_chip \<Rightarrow> (int \<times> bytes \<times> df_chip) option" where
  "df_command w n d =
     (if w = [JEDEC_RDID] then Some (0, take n [0x1F, 0x26, 0x00, 0x01, 0x00], d)
      else if w = [AT45DB_STATUS] then Some (0, replicate n (if df_busy d = 0 then 0xAC else 0x2C), d\<lparr>df_busy := df_busy d - 1\<rparr>)
      else case addr24 w of
        None \<Rightarrow> Some (0, replicate n 0xFF, d)
      | Some a \<Rightarrow>
          let p = a div 1024; off = a mod 1024
          in if df_busy d \<noteq> 0 then Some (0, replicate n 0xFF, d)
             else if hd w = JEDEC_READ then Some (0, bslice (p * 528 + off) n (df_mem d), d)
             else if hd w = AT45DB_BUFFER1_WRITE then Some (0, [], d\<lparr>df_buf := blit off (drop 4 w) (df_buf d)\<rparr>)
             else if hd w = AT45DB_BUFFER1_PAGE_PROGRAM
             then Some (0, [], d\<lparr>df_mem := programmed (df_mem d) (p * 528) (df_buf d), df_busy := 3\<rparr>)
             else if hd w = AT45DB_PAGE_ERASE then Some (0, [], d\<lparr>df_mem := memset_at (p * 528) 0xFF 528 (df_mem d), df_busy := 3\<rparr>)
             else Some (0, replicate n 0xFF, d))"

lemma df_command_addr:
  assumes "a < 16777216"
  shows "df_command (opc # abytes a @ data) n d =
     (let p = a div 1024; off = a mod 1024
      in if df_busy d \<noteq> 0 then Some (0, replicate n 0xFF, d)
         else if opc = JEDEC_READ then Some (0, bslice (p * 528 + off) n (df_mem d), d)
         else if opc = AT45DB_BUFFER1_WRITE then Some (0, [], d\<lparr>df_buf := blit off data (df_buf d)\<rparr>)
         else if opc = AT45DB_BUFFER1_PAGE_PROGRAM
         then Some (0, [], d\<lparr>df_mem := programmed (df_mem d) (p * 528) (df_buf d), df_busy := 3\<rparr>)
         else if opc = AT45DB_PAGE_ERASE then Some (0, [], d\<lparr>df_mem := memset_at (p * 528) 0xFF 528 (df_mem d), df_busy := 3\<rparr>)
         else Some (0, replicate n 0xFF, d))"
proof -
  have "drop 4 (opc # abytes a @ data) = data" "abytes a \<noteq> []" by (simp_all add: abytes_def)
  then show ?thesis unfolding df_command_def addr24_abytes [OF assms] by (simp add: Let_def)
qed

lemmas df_command_addr0 = df_command_addr [where data = "[]", simplified]

definition df_master :: "nat \<Rightarrow> df_chip spi_master" where
  "df_master n = \<lparr>sm_features = 0, sm_max_data_read = n, sm_max_data_write = n, sm_command = Some df_command, sm_multicommand = None,
     sm_probe_opcode = None\<rparr>"

definition df_ok :: "df_chip \<Rightarrow> bool" where
  "df_ok d \<longleftrightarrow> length (df_mem d) = 2162688 \<and> length (df_buf d) = 528"

text \<open>The entry \<^verbatim>\<open>AT45DB161D\<close> of \<^verbatim>\<open>flashchips/atmel.c\<close>, for pages of 512 bytes, and what probing makes of it.\<close>

definition at45db161d_chip :: flashchip where
  "at45db161d_chip =
     \<lparr>ch_vendor = Some ''Atmel'', ch_name = Some ''AT45DB161D'', ch_bustype = BUS_SPI, ch_manufacture_id = 0x1F, ch_model_id = 0x2600,
      ch_total_size = 2048, ch_page_size = 512, ch_feature_bits = FEATURE_OTP,
      ch_tested = \<lparr>t_probe = OK, t_read = OK, t_erase = OK, t_write = OK, t_wp = NT\<rparr>,
      ch_spi_cmd_set = SPI25, ch_probe = PROBE_SPI_AT45DB, ch_probe_timing = TIMING_ZERO,
      ch_erasers =
        [uniform_eraser 512 4096 SPI_ERASE_AT45DB_PAGE, uniform_eraser (8 * 512) (4096 div 8) SPI_ERASE_AT45DB_BLOCK,
         \<lparr>be_blocks = [\<lparr>eb_size = 8 * 512, eb_count = 1\<rparr>, \<lparr>eb_size = 248 * 512, eb_count = 1\<rparr>, \<lparr>eb_size = 256 * 512, eb_count = 15\<rparr>]
            @ replicate (NUM_ERASEREGIONS - 3) \<lparr>eb_size = 0, eb_count = 0\<rparr>, be_erase = SPI_ERASE_AT45DB_SECTOR\<rparr>,
         uniform_eraser (2048 * 1024) 1 SPI_ERASE_AT45DB_CHIP, no_eraser, no_eraser, no_eraser, no_eraser],
      ch_write = SPI_WRITE_AT45DB, ch_read = SPI_READ_AT45DB, ch_gran = WRITE_GRAN_256BYTES\<rparr>"

definition at45db161d_528 :: flashchip where
  "at45db161d_528 = (scale_chip at45db161d_chip)\<lparr>ch_gran := WRITE_GRAN_528BYTES\<rparr>"

lemma at45db161d_528_facts:
  "ch_page_size at45db161d_528 = 528" "ch_total_size at45db161d_528 = 2112" "ch_feature_bits at45db161d_528 = FEATURE_OTP"
  by (simp_all add: at45db161d_528_def scale_chip_def at45db161d_chip_def scale33_def mul32_def u32_def)

lemma df_dataflash:
  assumes "n < 2 ^ 31"
  shows "dataflash at45db161d_528 (df_master n) df_command 528 10 4096 df_ok df_mem df_buf df_busy"
proof (unfold_locales, goal_cases)
  case 1 show ?case by (simp add: df_master_def)
next
  case 2 show ?case using assms by (simp add: df_master_def)
next
  case 3 show ?case using assms by (simp add: df_master_def)
next
  case 4 show ?case by (simp add: has_feature_def at45db161d_528_facts FEATURE_OTP_def FEATURE_4BA_EAR_C5C8_def FEATURE_4BA_EAR_1716_def)
next
  case 5 show ?case by (simp add: has_feature_def at45db161d_528_facts FEATURE_OTP_def FEATURE_4BA_READ_def)
next
  case 6 show ?case by (simp add: at45db161d_528_facts)
next
  case 7 show ?case by (simp add: at45db161d_528_facts)
next
  case 8 show ?case by simp
next
  case 9 show ?case by simp
next
  case 10 show ?case by simp
next
  case 11 show ?case by simp
next
  case 12 show ?case by simp
next
  case (13 d) then show ?case by (simp add: df_ok_def)
next
  case (14 d) then show ?case by (simp add: df_command_def df_ok_def AT45DB_STATUS_def JEDEC_RDID_def AT45DB_READY_def)
next
  case (15 d len a)
  then have "a div 528 < 4096" by (simp add: less_mult_imp_div_less)
  then have a: "a div 528 * 1024 + a mod 528 < 16777216" "(a div 528 * 1024 + a mod 528) div 1024 = a div 528"
      "(a div 528 * 1024 + a mod 528) mod 1024 = a mod 528"
    using mod_less_divisor [of 528 a] by (linarith, simp_all)
  then show ?case using 15
    by (simp add: df_command_addr df_command_addr0 Let_def AT45DB_READY_def)
next
  case (16 d bs off)
  then have "off < 16777216" "off < 1024" using 16 by (cases bs; simp)+
  then show ?case using 16
    by (simp add: df_command_addr df_command_addr0 Let_def df_ok_def JEDEC_READ_def AT45DB_BUFFER1_WRITE_def)
next
  case (17 d p)
  then have "p * 1024 < 16777216" by simp
  then show ?case using 17
    by (simp add: df_command_addr df_command_addr0 Let_def df_ok_def JEDEC_READ_def AT45DB_BUFFER1_WRITE_def AT45DB_BUFFER1_PAGE_PROGRAM_def)
next
  case (18 d p)
  then have "p * 1024 < 16777216" by simp
  then show ?case using 18
    by (simp add: df_command_addr df_command_addr0 Let_def df_ok_def JEDEC_READ_def AT45DB_BUFFER1_WRITE_def AT45DB_BUFFER1_PAGE_PROGRAM_def
        AT45DB_PAGE_ERASE_def)
qed

interpretation df_pc: dataflash at45db161d_528 "df_master 64" df_command 528 10 4096 df_ok df_mem df_buf df_busy
  by (rule df_dataflash) simp

definition df_start :: "bytes \<Rightarrow> df_chip spi_state" where
  "df_start mem = \<lparr>sp_dev = \<lparr>df_mem = mem, df_buf = replicate 528 0, df_busy = 0\<rparr>, sp_address_high_byte = -1, sp_in_4ba_mode = False\<rparr>"

lemma df_start_idle: "length mem = 2162688 \<Longrightarrow> dataflash.idle df_ok df_busy (df_start mem)"
  by (simp add: df_pc.idle_def on_dev_def df_start_def df_ok_def)

section \<open>Reading and writing\<close>



text \<open>Probing a chip with pages of 528 bytes turns the entry of the table, which is written for pages of 512 bytes, into the
  description that the other theorems are about.\<close>

theorem at45db_probe_528:
  "\<exists>cache s'. probe_spi_at45db at45db161d_chip (df_master n) junk clear_spi_id_cache (df_start mem) = Some (1, at45db161d_528, cache, s') \<and>
     df_mem (sp_dev s') = mem"
proof -
  have b: "blit 0 [0x1F, 0x26, 0 :: u8] [0, 0, 0, 0] = [0x1F, 0x26, 0, 0]" by code_simp
  have id: "probe_spi_rdid at45db161d_chip (df_master n) clear_spi_id_cache (df_start mem) =
      Some (1, clear_spi_id_cache(RDID := \<lparr>is_cached = True, id_bytes = [0x1F, 0x26, 0, 0]\<rparr>), df_start mem)"
    by (simp add: probe_spi_rdid_def probe_spi_rdid_generic_def cached_probe_def clear_spi_id_cache_def spi_rdid_def read_id_def
        spi_send_command_def df_master_def df_command_def df_start_def lift_dev_def rdid_get_ids_def compare_id_def at45db161d_chip_def b)
  have "ch_page_size (scale_chip at45db161d_chip) = 528"
    by (simp add: scale_chip_def at45db161d_chip_def scale33_def mul32_def u32_def)
  moreover have "at45db_read_status_register (df_master n) junk (df_start mem) = Some (0, 0xAC, df_start mem)"
    by (simp add: at45db_read_status_register_def spi_send_command_def df_master_def df_command_def df_start_def lift_dev_def
        AT45DB_STATUS_def JEDEC_RDID_def)
  ultimately show ?thesis
    by (simp add: probe_spi_at45db_def id AT45DB_POWEROF2_def page_gran_def at45db161d_528_def Let_def) (simp add: df_start_def)
qed

section \<open>The legacy command\<close>

text \<open>A loop that asks for four bytes at a time makes no progress.\<close>

definition always_answers :: "'d spi_master \<Rightarrow> bool" where
  "always_answers m \<longleftrightarrow> (\<forall>w n s. \<exists>r s'. spi_send_command m w n s = Some (0, r, s'))"

lemma e8_never_ends:
  assumes "at45db_e8_loop chip m mc addr len acc s = Some y"
  shows "\<not> (mc = 4 \<and> always_answers m \<and> 0 < len \<and> len < 2147483640)"
  using assms
proof (rule at45db_e8_loop.raw_induct [rotated])
  fix loop and chip and m :: "'a spi_master" and mc addr len acc s y
  assume IH: "\<And>chip m mc addr len acc s y. loop chip m mc addr len acc s = Some y \<Longrightarrow>
      \<not> (mc = 4 \<and> always_answers m \<and> 0 < len \<and> len < 2147483640)"
    and run: "(if len = 0 then Some (0, acc, s)
      else
        let chunk = min32 mc (add32 len 4)
        in Option.bind (at45db_convert_addr addr (ch_page_size chip)) (\<lambda>a.
           Option.bind (spi_send_command m (at45db_cmd AT45DB_READ_ARRAY a) chunk s) (\<lambda>(ret, tmp, s').
             if ret \<noteq> 0 then Some (ret, acc, s')
             else if chunk < 4 then None
             else loop chip m mc (add32 addr (chunk - 4)) (sub32 len (chunk - 4)) (acc @ drop 4 tmp) s'))) = Some y"
  show "\<not> (mc = 4 \<and> always_answers m \<and> 0 < len \<and> len < 2147483640)"
  proof
    assume h: "mc = 4 \<and> always_answers m \<and> 0 < len \<and> len < 2147483640"
    then have c: "min32 mc (add32 len 4) = 4" "sub32 len 0 = len" by (simp_all add: c_simps)
    obtain a where a: "at45db_convert_addr addr (ch_page_size chip) = Some a" using run h by (auto simp: bind_eq_Some_conv Let_def)
    obtain r s' where "spi_send_command m (at45db_cmd AT45DB_READ_ARRAY a) 4 s = Some (0, r, s')"
      using h unfolding always_answers_def by meson
    then have "loop chip m mc (add32 addr 0) len (acc @ drop 4 r) s' = Some y" using run h a c by simp
    with IH h show False by blast
  qed
qed

text \<open>With a programmer that reads at most four bytes at a time, \<^verbatim>\<open>spi_read_at45db_e8\<close> never returns: every chunk consists of the four bytes
  that are dropped.\<close>

theorem at45db_e8_hangs:
  assumes "sm_max_data_read m = 4" and "always_answers m" and "0 < len" "len < 2147483640"
    and "add32 addr len \<le> mul32 (ch_total_size chip) 1024"
  shows "spi_read_at45db_e8 chip m addr len s = None"
  using assms e8_never_ends [of chip m 4 addr len "[]" s]
  by (cases "at45db_e8_loop chip m 4 addr len [] s") (auto simp: spi_read_at45db_e8_def at45db_max_chunk_def)

theorem at45db_e8_hangs_witness: "spi_read_at45db_e8 at45db161d_528 (df_master 4) 0 16 (df_start (replicate 2162688 0)) = None"
proof -
  have "\<exists>r d'. df_command w n d = Some (0, r, d')" for w n d
    by (auto simp: df_command_def Let_def split: option.split)
  then have "always_answers (df_master 4)"
    unfolding always_answers_def by (auto simp: spi_send_command_def df_master_def lift_dev_def split: prod.split)
  then show ?thesis by (intro at45db_e8_hangs) (simp_all add: df_master_def at45db161d_528_facts add32_def mul32_def u32_def)
qed

end
