(* ===== verification/Spansion.thy ===== *)
theory Spansion
  imports W25q
begin

text \<open>
  The SPI chips of \<^verbatim>\<open>flashrom/s25f.c\<close> (Spansion S25FL and S25FS) and \<^verbatim>\<open>flashrom/spi95.c\<close> (ST M95). A chip of the S25FS family has sectors of
  different sizes unless a bit of its non-volatile register CR3NV is set; the erase function sets the bit before the first erase and
  registers a function that is to restore the register in the end. The static variable \<^verbatim>\<open>cr3nv_checked\<close> is passed explicitly.
\<close>

section \<open>S25FL and S25FS\<close>

definition CMD_RDAR :: u8 where "CMD_RDAR = 0x65"
definition CMD_WRAR :: u8 where "CMD_WRAR = 0x71"
definition CMD_RSTEN :: u8 where "CMD_RSTEN = 0x66"
definition CMD_RST :: u8 where "CMD_RST = 0x99"
definition CR3NV_ADDR :: nat where "CR3NV_ADDR = 0x000004"
definition CR3NV_20H_NV :: u8 where "CR3NV_20H_NV = 0x08"
definition SPI_SR_ERA_ERR :: u8 where "SPI_SR_ERA_ERR = 0x20"
definition JEDEC_BE_DC :: u8 where "JEDEC_BE_DC = 0xdc"

definition s25f_legacy_software_reset :: "'d spi_master \<Rightarrow> 'd spi_state \<Rightarrow> (int \<times> 'd spi_state) option" where
  "s25f_legacy_software_reset m s =
     map_option (\<lambda>(result, rs, s'). (result, s')) (spi_send_multicommand m [([CMD_RSTEN], 0), ([0xf0], 0)] s)"

definition s25fs_software_reset :: "'d spi_master \<Rightarrow> 'd spi_state \<Rightarrow> (int \<times> 'd spi_state) option" where
  "s25fs_software_reset m s =
     map_option (\<lambda>(result, rs, s'). (result, s')) (spi_send_multicommand m [([CMD_RSTEN], 0), ([CMD_RST], 0)] s)"

text \<open>The bit for a cycle in progress stays set after an error.\<close>

partial_function (option) s25f_poll_status ::
    "flashchip \<Rightarrow> 'd spi_master \<Rightarrow> 'd spi_state \<Rightarrow> (int \<times> 'd spi_state) option" where
  "s25f_poll_status chip m s =
     Option.bind (spi_read_register chip m STATUS1 s) (\<lambda>(ret, tmp, s1).
       if ret \<noteq> 0 then Some (-1, s1)
       else if tmp AND SPI_SR_WIP = 0 then Some (0, s1)
       else if tmp AND SPI_SR_ERA_ERR \<noteq> 0 \<or> tmp AND 0x40 \<noteq> 0
       then map_option (\<lambda>(r, s2). (-1, s2)) (s25f_legacy_software_reset m s1)
       else s25f_poll_status chip m s1)"

definition s25fs_read_cr :: "'d spi_master \<Rightarrow> nat \<Rightarrow> 'd spi_state \<Rightarrow> (int \<times> 'd spi_state) option" where
  "s25fs_read_cr m addr s =
     Option.bind (spi_send_command m (CMD_RDAR # abytes addr @ replicate 8 0) 1 s) (\<lambda>(result, bs, s').
       if result \<noteq> 0 then Some (-1, s')
       else if bs = [] then None
       else Some (int (unat (bs ! 0)), s'))"

definition s25fs_write_cr :: "flashchip \<Rightarrow> 'd spi_master \<Rightarrow> nat \<Rightarrow> u8 \<Rightarrow> 'd spi_state \<Rightarrow> (int \<times> 'd spi_state) option" where
  "s25fs_write_cr chip m addr data s =
     Option.bind (spi_send_multicommand m [([JEDEC_WREN], 0), (CMD_WRAR # abytes addr @ [data], 0)] s) (\<lambda>(result, rs, s').
       if result \<noteq> 0 then Some (-1, s') else s25f_poll_status chip m s')"

definition s25fs_restore_cr3nv :: "flashchip \<Rightarrow> 'd spi_master \<Rightarrow> u8 \<Rightarrow> 'd spi_state \<Rightarrow> (int \<times> 'd spi_state) option" where
  "s25fs_restore_cr3nv chip m cfg s =
     Option.bind (s25fs_write_cr chip m CR3NV_ADDR cfg s) (\<lambda>(r1, s1).
       map_option (\<lambda>(r2, s2). (r1 OR r2, s2)) (s25fs_software_reset m s1))"

text \<open>The check for hybrid sectors: the result is \<open>None\<close> inside if the erase may go on. The value that is kept for the
  restoration is the one read after the change; the value of the debug message is read once more. A failed read of the register
  gives -1, that is 0xFF as a byte. \<open>alloc\<close> says whether the allocation succeeds.\<close>

definition cr3nv_check ::
    "flashchip \<Rightarrow> 'd spi_master \<Rightarrow> bool \<Rightarrow> 'd spi_state restore_fns \<Rightarrow> 'd spi_state \<Rightarrow> (int option \<times> 'd spi_state restore_fns \<times> 'd spi_state) option" where
  "cr3nv_check chip m alloc fns s =
     Option.bind (s25fs_read_cr m CR3NV_ADDR s) (\<lambda>(c1, s1).
       let cfg = (word_of_int c1 :: u8)
       in if cfg AND CR3NV_20H_NV \<noteq> 0 then Some (None, fns, s1)
          else
            Option.bind (s25fs_write_cr chip m CR3NV_ADDR (cfg OR CR3NV_20H_NV) s1) (\<lambda>(_, s2).
            Option.bind (s25fs_software_reset m s2) (\<lambda>(_, s3).
            Option.bind (s25fs_read_cr m CR3NV_ADDR s3) (\<lambda>(c2, s4).
              let cfg2 = (word_of_int c2 :: u8)
              in if cfg2 AND CR3NV_20H_NV = 0 then Some (Some 1, fns, s4)
                 else Option.bind (s25fs_read_cr m CR3NV_ADDR s4) (\<lambda>(_, s5).
                   if \<not> alloc then Some (Some 1, fns, s5)
                   else Some (None, snd (register_chip_restore (s25fs_restore_cr3nv chip m cfg2) fns), s5))))))"

definition s25fs_block_erase_d8 ::
    "flashchip \<Rightarrow> 'd spi_master \<Rightarrow> bool \<Rightarrow> nat \<Rightarrow> nat \<Rightarrow> bool \<Rightarrow> 'd spi_state restore_fns \<Rightarrow> 'd spi_state \<Rightarrow>
     (int \<times> bool \<times> 'd spi_state restore_fns \<times> 'd spi_state) option" where
  "s25fs_block_erase_d8 chip m alloc addr blocklen cr3nv_checked fns s =
     Option.bind (if cr3nv_checked then Some (None, fns, s) else cr3nv_check chip m alloc fns s) (\<lambda>(early, fns1, s1).
       case early of
         Some r \<Rightarrow> Some (r, False, fns1, s1)
       | None \<Rightarrow>
           Option.bind (spi_send_multicommand m [([JEDEC_WREN], 0), (JEDEC_BE_D8 # abytes addr, 0)] s1) (\<lambda>(result, rs, s2).
             if result \<noteq> 0 then Some (result, True, fns1, s2)
             else map_option (\<lambda>(r, s3). (r, True, fns1, s3)) (s25f_poll_status chip m s2)))"

definition s25fl_block_erase :: "flashchip \<Rightarrow> 'd spi_master \<Rightarrow> nat \<Rightarrow> nat \<Rightarrow> 'd spi_state \<Rightarrow> (int \<times> 'd spi_state) option" where
  "s25fl_block_erase chip m addr blocklen s =
     Option.bind (spi_send_multicommand m [([JEDEC_WREN], 0), (JEDEC_BE_DC # addr_byte 3 addr # abytes addr, 0)] s) (\<lambda>(result, rs, s1).
       if result \<noteq> 0 then Some (result, s1) else s25f_poll_status chip m s1)"

definition probe_spi_big_spansion :: "flashchip \<Rightarrow> 'd spi_master \<Rightarrow> 'd spi_state \<Rightarrow> (int \<times> 'd spi_state) option" where
  "probe_spi_big_spansion chip m s =
     Option.bind (spi_send_command m [JEDEC_RDID] 6 s) (\<lambda>(ret, dev_id, s').
       if ret \<noteq> 0 then Some (0, s')
       else if length dev_id < 6 then None
       else
         let model_id = unat (dev_id ! 1) * 2 ^ 24 + unat (dev_id ! 2) * 2 ^ 16 + unat (dev_id ! 4) * 2 ^ 8 + unat (dev_id ! 5)
         in Some (if unat (dev_id ! 0) = ch_manufacture_id chip \<and> model_id = ch_model_id chip then 1 else 0, s'))"

section \<open>M95\<close>

definition ST_M95_RDID :: u8 where "ST_M95_RDID = 0x83"
definition ST_M95_RDID_3BA_OUTSIZE :: nat where "ST_M95_RDID_3BA_OUTSIZE = 4"
definition ST_M95_RDID_2BA_OUTSIZE :: nat where "ST_M95_RDID_2BA_OUTSIZE = 3"

text \<open>A result code of the command is returned as the result of probing.\<close>

definition probe_spi_st95 :: "flashchip \<Rightarrow> 'd spi_master \<Rightarrow> 'd spi_state \<Rightarrow> (int \<times> 'd spi_state) option" where
  "probe_spi_st95 chip m s =
     (let rdid_outsize = (if mul32 (ch_total_size chip) 1024 > 64 * 1024 then ST_M95_RDID_3BA_OUTSIZE else ST_M95_RDID_2BA_OUTSIZE)
      in Option.bind (spi_send_command m (take rdid_outsize [ST_M95_RDID, 0, 0, 0]) 3 s) (\<lambda>(ret, readarr, s').
           if ret \<noteq> 0 then Some (ret, s')
           else if length readarr < 3 then None
           else Some (if unat (readarr ! 0) = ch_manufacture_id chip \<and> unat (readarr ! 1) * 256 + unat (readarr ! 2) = ch_model_id chip
                      then 1 else 0, s')))"

text \<open>These chips have no erase command; the address is not used.\<close>

definition spi_block_erase_emulation ::
    "flashchip \<Rightarrow> 'd spi_master \<Rightarrow> bool \<Rightarrow> nat \<Rightarrow> nat \<Rightarrow> 'd spi_state \<Rightarrow> (int \<times> 'd spi_state) option" where
  "spi_block_erase_emulation chip m alloc addr blocklen s =
     (if \<not> alloc then Some (1, s)
      else spi_write_chunked chip m (replicate blocklen (if has_feature chip FEATURE_ERASED_ZERO then 0x00 else 0xff)) 0 blocklen
             (ch_page_size chip) s)"

section \<open>Sectors of an S25FS\<close>

text \<open>What the commands of such a chip do: \<open>cr3\<close> is the register, and with the bit for uniform sectors set an erase erases a
  sector of \<open>sz\<close> bytes.\<close>

locale s25fs_chip = spi_reader chip m command n dev_ok contents
  for chip :: flashchip and m :: "'d spi_master" and command :: "bytes \<Rightarrow> nat \<Rightarrow> 'd \<Rightarrow> (int \<times> bytes \<times> 'd) option"
    and n :: nat and dev_ok :: "'d \<Rightarrow> bool" and contents :: "'d \<Rightarrow> bytes" +
  fixes cr3 :: "'d \<Rightarrow> u8" and sz :: nat
  assumes rdsr_cr3: "dev_ok d \<Longrightarrow> command [JEDEC_RDSR] 2 d = Some (r, bs, d') \<Longrightarrow> cr3 d' = cr3 d"
    and rdar_law: "dev_ok d \<Longrightarrow> \<exists>d'. command (CMD_RDAR # abytes CR3NV_ADDR @ replicate 8 0) 1 d = Some (0, [cr3 d], d') \<and>
      dev_ok d' \<and> contents d' = contents d \<and> cr3 d' = cr3 d"
    and wrar_law: "dev_ok d \<Longrightarrow> \<exists>r1 d1 r2 d2. command [JEDEC_WREN] 0 d = Some (0, r1, d1) \<and>
      command (CMD_WRAR # abytes CR3NV_ADDR @ [v]) 0 d1 = Some (0, r2, d2) \<and> dev_ok d2 \<and> contents d2 = contents d \<and> cr3 d2 = v"
    and reset_law: "dev_ok d \<Longrightarrow> \<exists>r1 d1 r2 d2. command [CMD_RSTEN] 0 d = Some (0, r1, d1) \<and>
      command [CMD_RST] 0 d1 = Some (0, r2, d2) \<and> dev_ok d2 \<and> contents d2 = contents d \<and> cr3 d2 = cr3 d"
    and sector_law: "dev_ok d \<Longrightarrow> cr3 d AND CR3NV_20H_NV \<noteq> 0 \<Longrightarrow> sz dvd a \<Longrightarrow> a + sz \<le> n \<Longrightarrow>
      \<exists>r1 d1 r2 d2. command [JEDEC_WREN] 0 d = Some (0, r1, d1) \<and> command (JEDEC_BE_D8 # abytes a) 0 d1 = Some (0, r2, d2) \<and>
        dev_ok d2 \<and> contents d2 = memset_at a 0xff sz (contents d) \<and> cr3 d2 = cr3 d"
begin

definition nv :: "'d spi_state \<Rightarrow> u8" where "nv s = cr3 (sp_dev s)"

lemma two_commands:
  assumes "command w1 0 (sp_dev s) = Some (0, r1, d1)" "command w2 0 d1 = Some (0, r2, d2)" "w1 \<noteq> []" "w2 \<noteq> []"
  shows "spi_send_multicommand m [(w1, 0), (w2, 0)] s = Some (0, [r1, r2], s\<lparr>sp_dev := d2\<rparr>)"
  using assms by (simp add: spi_send_multicommand_def no_multi send_eq lift_dev_def)

lemma status_ready: "st_ok s \<Longrightarrow> \<exists>s'. s25f_poll_status chip m s = Some (0, s') \<and> st_ok s' \<and> img s' = img s \<and> nv s' = nv s"
proof -
  assume st: "st_ok s"
  then have ok: "dev_ok (sp_dev s)" by (simp add: on_dev_def)
  obtain v r d' where d': "command [JEDEC_RDSR] 2 (sp_dev s) = Some (0, v # r, d')" "v AND SPI_SR_WIP = 0" "dev_ok d'"
      "contents d' = contents (sp_dev s)" using rdsr_law [OF ok] by blast
  have "spi_opcode_supported m JEDEC_RDSR s" using rdsr_law [OF ok] by (simp add: spi_opcode_supported_def)
  then have "spi_read_register chip m STATUS1 s = Some (0, v, s\<lparr>sp_dev := d'\<rparr>)"
    using d'(1) by (simp add: spi_read_register_def register_read_cmd_def send_eq lift_dev_def)
  then show ?thesis using d' rdsr_cr3 [OF ok d'(1)] st
    by (subst s25f_poll_status.simps) (simp add: on_dev_def dev_img_def nv_def)
qed

lemma read_cr: "st_ok s \<Longrightarrow> \<exists>s'. s25fs_read_cr m CR3NV_ADDR s = Some (int (unat (nv s)), s') \<and> st_ok s' \<and> img s' = img s \<and> nv s' = nv s"
  using rdar_law [of "sp_dev s"] by (auto simp: s25fs_read_cr_def send_eq lift_dev_def on_dev_def dev_img_def nv_def)

lemma write_cr:
  assumes "st_ok s"
  shows "\<exists>s'. s25fs_write_cr chip m CR3NV_ADDR v s = Some (0, s') \<and> st_ok s' \<and> img s' = img s \<and> nv s' = v"
proof -
  obtain r1 d1 r2 d2 where d: "command [JEDEC_WREN] 0 (sp_dev s) = Some (0, r1, d1)"
      "command (CMD_WRAR # abytes CR3NV_ADDR @ [v]) 0 d1 = Some (0, r2, d2)" "dev_ok d2" "contents d2 = contents (sp_dev s)" "cr3 d2 = v"
    using wrar_law [of "sp_dev s" v] assms unfolding on_dev_def by blast
  have "spi_send_multicommand m [([JEDEC_WREN], 0), (CMD_WRAR # abytes CR3NV_ADDR @ [v], 0)] s = Some (0, [r1, r2], s\<lparr>sp_dev := d2\<rparr>)"
    by (rule two_commands [OF d(1,2)]) simp_all
  moreover have "st_ok (s\<lparr>sp_dev := d2\<rparr>)" using assms d(3) by (simp add: on_dev_def)
  ultimately show ?thesis using status_ready [of "s\<lparr>sp_dev := d2\<rparr>"] d(4,5) by (simp add: s25fs_write_cr_def dev_img_def nv_def)
qed

lemma reset:
  assumes "st_ok s"
  shows "\<exists>s'. s25fs_software_reset m s = Some (0, s') \<and> st_ok s' \<and> img s' = img s \<and> nv s' = nv s"
proof -
  obtain r1 d1 r2 d2 where d: "command [CMD_RSTEN] 0 (sp_dev s) = Some (0, r1, d1)" "command [CMD_RST] 0 d1 = Some (0, r2, d2)"
      "dev_ok d2" "contents d2 = contents (sp_dev s)" "cr3 d2 = cr3 (sp_dev s)"
    using reset_law [of "sp_dev s"] assms unfolding on_dev_def by blast
  have "spi_send_multicommand m [([CMD_RSTEN], 0), ([CMD_RST], 0)] s = Some (0, [r1, r2], s\<lparr>sp_dev := d2\<rparr>)"
    by (rule two_commands [OF d(1,2)]) simp_all
  then show ?thesis using assms d(3-5) by (simp add: s25fs_software_reset_def on_dev_def dev_img_def nv_def)
qed

text \<open>The first erase on a chip with hybrid sectors: the sector is erased, and what is to be restored is the changed value.\<close>

lemma first_erase:
  assumes "st_ok s" and "nv s AND CR3NV_20H_NV = 0" and "sz dvd a" "a + sz \<le> n"
  shows "\<exists>s'. s25fs_block_erase_d8 chip m True a sz False [] s =
      Some (0, True, [s25fs_restore_cr3nv chip m (nv s OR CR3NV_20H_NV)], s') \<and>
    st_ok s' \<and> img s' = memset_at a 0xff sz (img s) \<and> nv s' = nv s OR CR3NV_20H_NV"
proof -
  let ?v = "nv s OR CR3NV_20H_NV"
  have "?v AND CR3NV_20H_NV = CR3NV_20H_NV" by (rule bit_eqI) (auto simp: bit_simps)
  then have v: "?v AND CR3NV_20H_NV \<noteq> 0" by (simp add: CR3NV_20H_NV_def)
  obtain s1 where s1: "s25fs_read_cr m CR3NV_ADDR s = Some (int (unat (nv s)), s1)" "st_ok s1" "img s1 = img s" "nv s1 = nv s"
    using read_cr [OF assms(1)] by blast
  obtain s2 where s2: "s25fs_write_cr chip m CR3NV_ADDR ?v s1 = Some (0, s2)" "st_ok s2" "img s2 = img s1" "nv s2 = ?v"
    using write_cr [OF s1(2)] by blast
  obtain s3 where s3: "s25fs_software_reset m s2 = Some (0, s3)" "st_ok s3" "img s3 = img s2" "nv s3 = nv s2" using reset [OF s2(2)] by blast
  obtain s4 where s4: "s25fs_read_cr m CR3NV_ADDR s3 = Some (int (unat (nv s3)), s4)" "st_ok s4" "img s4 = img s3" "nv s4 = nv s3"
    using read_cr [OF s3(2)] by blast
  obtain s5 where s5: "s25fs_read_cr m CR3NV_ADDR s4 = Some (int (unat (nv s4)), s5)" "st_ok s5" "img s5 = img s4" "nv s5 = nv s4"
    using read_cr [OF s4(2)] by blast
  have chk: "cr3nv_check chip m True [] s = Some (None, [s25fs_restore_cr3nv chip m ?v], s5)"
    using assms(2) v s1 s2 s3 s4 s5
    by (simp add: cr3nv_check_def Let_def register_chip_restore_def MAX_CHIP_RESTORE_FUNCTIONS_def)
  obtain r1 d1 r2 d2 where d: "command [JEDEC_WREN] 0 (sp_dev s5) = Some (0, r1, d1)" "command (JEDEC_BE_D8 # abytes a) 0 d1 = Some (0, r2, d2)"
      "dev_ok d2" "contents d2 = memset_at a 0xff sz (contents (sp_dev s5))" "cr3 d2 = cr3 (sp_dev s5)"
    using sector_law [of "sp_dev s5" a] s5(2,4) s4(4) s3(4) s2(4) v assms(3,4) unfolding on_dev_def nv_def by metis
  have "spi_send_multicommand m [([JEDEC_WREN], 0), (JEDEC_BE_D8 # abytes a, 0)] s5 = Some (0, [r1, r2], s5\<lparr>sp_dev := d2\<rparr>)"
    by (rule two_commands [OF d(1,2)]) simp_all
  moreover have "st_ok (s5\<lparr>sp_dev := d2\<rparr>)" using s5(2) d(3) by (simp add: on_dev_def)
  ultimately show ?thesis
    using chk status_ready [of "s5\<lparr>sp_dev := d2\<rparr>"] d(4,5) s5(3,4) s4(3,4) s3(3,4) s2(3,4) s1(3)
    by (simp add: s25fs_block_erase_d8_def dev_img_def nv_def)
qed

text \<open>Running the registered function writes that value again.\<close>

lemma restore_keeps:
  assumes "st_ok s"
  shows "\<exists>s'. deregister_chip_restore [s25fs_restore_cr3nv chip m v] s = Some (0, s') \<and> st_ok s' \<and> img s' = img s \<and> nv s' = v"
proof -
  obtain s1 where s1: "s25fs_write_cr chip m CR3NV_ADDR v s = Some (0, s1)" "st_ok s1" "img s1 = img s" "nv s1 = v" using write_cr [OF assms] by blast
  obtain s2 where "s25fs_software_reset m s1 = Some (0, s2)" "st_ok s2" "img s2 = img s1" "nv s2 = nv s1" using reset [OF s1(2)] by blast
  with s1 show ?thesis by (simp add: deregister_chip_restore_def s25fs_restore_cr3nv_def)
qed

end

section \<open>An S25FS128S\<close>

record sf_chip =
  sf_mem :: bytes
  sf_cr3 :: u8
  sf_wel :: bool

text \<open>The commands that the driver uses; with hybrid sectors an erase in the first 64 KiB covers 32 KiB only.\<close>

definition sf_command :: "bytes \<Rightarrow> nat \<Rightarrow> sf_chip \<Rightarrow> (int \<times> bytes \<times> sf_chip) option" where
  "sf_command w k d =
     (if w = [JEDEC_WREN] then Some (0, [], d\<lparr>sf_wel := True\<rparr>)
      else if w = [JEDEC_RDSR] then Some (0, replicate k 0, d)
      else case addr24 w of
        None \<Rightarrow> Some (0, replicate k 0xff, d)
      | Some a \<Rightarrow>
          if hd w = JEDEC_READ then Some (0, bslice a k (sf_mem d), d)
          else if hd w = CMD_RDAR \<and> a = CR3NV_ADDR then Some (0, replicate k (sf_cr3 d), d)
          else if hd w = CMD_WRAR \<and> a = CR3NV_ADDR \<and> sf_wel d then Some (0, [], d\<lparr>sf_cr3 := last w, sf_wel := False\<rparr>)
          else if hd w = JEDEC_BE_D8 \<and> sf_wel d
          then Some (0, [], d\<lparr>sf_mem := memset_at (a div 65536 * 65536) 0xff
                 (if sf_cr3 d AND CR3NV_20H_NV = 0 \<and> a < 65536 then 32768 else 65536) (sf_mem d), sf_wel := False\<rparr>)
          else Some (0, replicate k 0xff, d))"

definition sf_master :: "sf_chip spi_master" where
  "sf_master = \<lparr>sm_features = 0, sm_max_data_read = 256, sm_max_data_write = 256, sm_command = Some sf_command, sm_multicommand = None,
     sm_probe_opcode = None\<rparr>"

text \<open>The entry \<^verbatim>\<open>S25FS128S Small Sectors\<close> of \<^verbatim>\<open>flashchips/spansion.c\<close>.\<close>

definition s25fs128s_chip :: flashchip where
  "s25fs128s_chip =
     \<lparr>ch_vendor = Some ''Spansion'', ch_name = Some ''S25FS128S Small Sectors'', ch_bustype = BUS_SPI, ch_manufacture_id = 0x01,
      ch_model_id = 0x20180181, ch_total_size = 16384, ch_page_size = 256, ch_feature_bits = FEATURE_WRSR_WREN,
      ch_tested = \<lparr>t_probe = OK, t_read = OK, t_erase = OK, t_write = OK, t_wp = NT\<rparr>,
      ch_spi_cmd_set = SPI25, ch_probe = PROBE_SPI_BIG_SPANSION, ch_probe_timing = 0,
      ch_erasers =
        [uniform_eraser (64 * 1024) 256 S25FS_BLOCK_ERASE_D8, uniform_eraser (16 * 1024 * 1024) 1 SPI_BLOCK_ERASE_60,
         uniform_eraser (16 * 1024 * 1024) 1 SPI_BLOCK_ERASE_C7, no_eraser, no_eraser, no_eraser, no_eraser, no_eraser],
      ch_write = SPI_CHIP_WRITE256, ch_read = SPI_CHIP_READ, ch_gran = WRITE_GRAN_256BYTES\<rparr>"

definition sf_ok :: "sf_chip \<Rightarrow> bool" where "sf_ok d \<longleftrightarrow> length (sf_mem d) = 16777216"

lemma sf_command_addr:
  assumes "a < 16777216"
  shows "sf_command (opc # abytes a @ data) k d =
     (if opc = JEDEC_READ then Some (0, bslice a k (sf_mem d), d)
      else if opc = CMD_RDAR \<and> a = CR3NV_ADDR then Some (0, replicate k (sf_cr3 d), d)
      else if opc = CMD_WRAR \<and> a = CR3NV_ADDR \<and> sf_wel d then Some (0, [], d\<lparr>sf_cr3 := last (abytes a @ data), sf_wel := False\<rparr>)
      else if opc = JEDEC_BE_D8 \<and> sf_wel d
      then Some (0, [], d\<lparr>sf_mem := memset_at (a div 65536 * 65536) 0xff
             (if sf_cr3 d AND CR3NV_20H_NV = 0 \<and> a < 65536 then 32768 else 65536) (sf_mem d), sf_wel := False\<rparr>)
      else Some (0, replicate k 0xff, d))"
proof -
  have "abytes x \<noteq> []" for x by (simp add: abytes_def)
  then show ?thesis unfolding sf_command_def addr24_abytes [OF assms] by simp
qed

lemma sf_wren: "sf_command [JEDEC_WREN] k d = Some (0, [], d\<lparr>sf_wel := True\<rparr>)"
  by (simp add: sf_command_def)

lemmas sf_command_addr0 = sf_command_addr [where data = "[]", simplified]

interpretation sf_pc: s25fs_chip s25fs128s_chip sf_master sf_command 16777216 sf_ok sf_mem sf_cr3 65536
proof (unfold_locales, goal_cases)
  case 1 show ?case by (simp add: sf_master_def)
next
  case 2 show ?case by (simp add: sf_master_def)
next
  case 3 show ?case by (simp add: sf_master_def)
next
  case 4 show ?case by (simp add: s25fs128s_chip_def)
next
  case 5 show ?case by simp
next
  case 6 show ?case by (simp add: has_feature_def s25fs128s_chip_def FEATURE_WRSR_WREN_def FEATURE_4BA_EAR_C5C8_def FEATURE_4BA_EAR_1716_def)
next
  case 7 show ?case by (simp add: has_feature_def s25fs128s_chip_def FEATURE_WRSR_WREN_def FEATURE_4BA_WRITE_def)
next
  case 8 show ?case by (simp add: has_feature_def s25fs128s_chip_def FEATURE_WRSR_WREN_def FEATURE_4BA_READ_def)
next
  case (9 d) then show ?case by (simp add: sf_ok_def)
next
  case (10 d) then show ?case by (simp add: sf_command_def sf_master_def opcode_defs numeral_2_eq_2)
next
  case (11 d len a) then show ?case by (simp add: sf_command_addr0)
next
  case (12 d r bs d') then show ?case by (simp add: sf_command_def opcode_defs)
next
  case (13 d)
  show ?case using 13 by (simp add: sf_command_addr CR3NV_ADDR_def CMD_RDAR_def opcode_defs)
next
  case (14 d v)
  have "CR3NV_ADDR < 16777216" "CMD_WRAR \<noteq> JEDEC_READ" "CMD_WRAR \<noteq> CMD_RDAR"
    by (simp_all add: CR3NV_ADDR_def CMD_WRAR_def CMD_RDAR_def JEDEC_READ_def)
  then show ?case using 14 by (simp add: sf_wren sf_command_addr sf_ok_def)
next
  case (15 d)
  show ?case using 15 by (simp add: sf_command_def addr24_def CMD_RSTEN_def CMD_RST_def opcode_defs)
next
  case (16 d a)
  then have "a < 16777216" "a div 65536 * 65536 = a" by simp_all
  moreover have "JEDEC_BE_D8 \<noteq> JEDEC_READ" "JEDEC_BE_D8 \<noteq> CMD_RDAR" "JEDEC_BE_D8 \<noteq> CMD_WRAR"
    by (simp_all add: JEDEC_BE_D8_def CMD_WRAR_def CMD_RDAR_def JEDEC_READ_def)
  ultimately show ?case using 16 by (simp add: sf_wren sf_command_addr0 sf_ok_def)
qed

section \<open>The register is not restored\<close>

text \<open>C36: the first erase on an S25FS chip with hybrid sectors erases the sector and succeeds, and so does the restoration in the end,
  but it does not restore the register CR3NV: the value that was saved is the one read after the change, so the chip keeps
  uniform sectors.\<close>

theorem s25fs_cr3nv_not_restored:
  assumes "s25fs_chip chip m command n dev_ok contents cr3 sz" and "on_dev dev_ok s" and "cr3 (sp_dev s) AND CR3NV_20H_NV = 0"
    and "sz dvd a" "a + sz \<le> n"
  shows "\<exists>fns s1 s2. s25fs_block_erase_d8 chip m True a sz False [] s = Some (0, True, fns, s1) \<and>
    contents (sp_dev s1) = memset_at a 0xff sz (contents (sp_dev s)) \<and>
    deregister_chip_restore fns s1 = Some (0, s2) \<and> contents (sp_dev s2) = contents (sp_dev s1) \<and>
    cr3 (sp_dev s2) = cr3 (sp_dev s) OR CR3NV_20H_NV"
proof -
  note nv = s25fs_chip.nv_def [OF assms(1)]
  obtain s1 where s1: "s25fs_block_erase_d8 chip m True a sz False [] s =
        Some (0, True, [s25fs_restore_cr3nv chip m (cr3 (sp_dev s) OR CR3NV_20H_NV)], s1)"
      "on_dev dev_ok s1" "contents (sp_dev s1) = memset_at a 0xff sz (contents (sp_dev s))"
    using s25fs_chip.first_erase [OF assms(1,2), unfolded nv dev_img_def] assms(3-5) by blast
  obtain s2 where "deregister_chip_restore [s25fs_restore_cr3nv chip m (cr3 (sp_dev s) OR CR3NV_20H_NV)] s1 = Some (0, s2)"
      "contents (sp_dev s2) = contents (sp_dev s1)" "cr3 (sp_dev s2) = cr3 (sp_dev s) OR CR3NV_20H_NV"
    using s25fs_chip.restore_keeps [OF assms(1) s1(2), unfolded nv dev_img_def] by blast
  with s1 show ?thesis by blast
qed

theorem s25fs_cr3nv_not_restored_witness:
  "\<exists>fns s1 s2. s25fs_block_erase_d8 s25fs128s_chip sf_master True 0 65536 False []
      \<lparr>sp_dev = \<lparr>sf_mem = replicate 16777216 0, sf_cr3 = 0, sf_wel = False\<rparr>, sp_address_high_byte = -1, sp_in_4ba_mode = False\<rparr> = Some (0, True, fns, s1) \<and>
    sf_mem (sp_dev s1) = memset_at 0 0xff 65536 (replicate 16777216 0) \<and>
    deregister_chip_restore fns s1 = Some (0, s2) \<and> sf_cr3 (sp_dev s2) = 0x08"
  using s25fs_cr3nv_not_restored [OF sf_pc.s25fs_chip_axioms,
      of "\<lparr>sp_dev = \<lparr>sf_mem = replicate 16777216 0, sf_cr3 = 0, sf_wel = False\<rparr>, sp_address_high_byte = -1, sp_in_4ba_mode = False\<rparr>" 0]
  by (auto simp: on_dev_def sf_ok_def CR3NV_20H_NV_def)

end
