(* ===== verification/Bitbang.thy ===== *)
theory Bitbang
  imports Spi Programmers
begin

text \<open>
  \<^verbatim>\<open>flashrom/bitbang_spi.c\<close>: an SPI master made of functions that set and read single lines of the bus. The lines and whatever is connected to
  them are the state \<open>'h\<close>. Half a clock period is a delay and has no effect here. A call through a null pointer is \<open>None\<close>.
\<close>

section \<open>Lines\<close>

record 'h bitbang_spi_master =
  bb_set_cs :: "(int \<Rightarrow> 'h \<Rightarrow> 'h) option"
  bb_set_sck :: "(int \<Rightarrow> 'h \<Rightarrow> 'h) option"
  bb_set_mosi :: "(int \<Rightarrow> 'h \<Rightarrow> 'h) option"
  bb_get_miso :: "('h \<Rightarrow> int \<times> 'h) option"
  bb_request_bus :: "('h \<Rightarrow> 'h) option"
  bb_release_bus :: "('h \<Rightarrow> 'h) option"
  bb_set_sck_set_mosi :: "(int \<Rightarrow> int \<Rightarrow> 'h \<Rightarrow> 'h) option"
  bb_set_sck_get_miso :: "(int \<Rightarrow> 'h \<Rightarrow> int \<times> 'h) option"

definition bitbang_spi_set_cs :: "'h bitbang_spi_master \<Rightarrow> int \<Rightarrow> 'h \<Rightarrow> 'h option" where
  "bitbang_spi_set_cs b v h = map_option (\<lambda>f. f v h) (bb_set_cs b)"

definition bitbang_spi_set_sck :: "'h bitbang_spi_master \<Rightarrow> int \<Rightarrow> 'h \<Rightarrow> 'h option" where
  "bitbang_spi_set_sck b v h = map_option (\<lambda>f. f v h) (bb_set_sck b)"

definition bitbang_spi_request_bus :: "'h bitbang_spi_master \<Rightarrow> 'h \<Rightarrow> 'h" where
  "bitbang_spi_request_bus b h = (case bb_request_bus b of Some f \<Rightarrow> f h | None \<Rightarrow> h)"

definition bitbang_spi_release_bus :: "'h bitbang_spi_master \<Rightarrow> 'h \<Rightarrow> 'h" where
  "bitbang_spi_release_bus b h = (case bb_release_bus b of Some f \<Rightarrow> f h | None \<Rightarrow> h)"

definition bitbang_spi_set_sck_set_mosi :: "'h bitbang_spi_master \<Rightarrow> int \<Rightarrow> int \<Rightarrow> 'h \<Rightarrow> 'h option" where
  "bitbang_spi_set_sck_set_mosi b sck mosi h =
     (case bb_set_sck_set_mosi b of
        Some f \<Rightarrow> Some (f sck mosi h)
      | None \<Rightarrow> Option.bind (bitbang_spi_set_sck b sck h) (\<lambda>h1. map_option (\<lambda>f. f mosi h1) (bb_set_mosi b)))"

definition bitbang_spi_set_sck_get_miso :: "'h bitbang_spi_master \<Rightarrow> int \<Rightarrow> 'h \<Rightarrow> (int \<times> 'h) option" where
  "bitbang_spi_set_sck_get_miso b sck h =
     (case bb_set_sck_get_miso b of
        Some f \<Rightarrow> Some (f sck h)
      | None \<Rightarrow> Option.bind (bitbang_spi_set_sck b sck h) (\<lambda>h1. map_option (\<lambda>f. f h1) (bb_get_miso b)))"

section \<open>Bytes\<close>

text \<open>The loops from bit 7 down to bit 0, with the number of bits that are left.\<close>

primrec read_bits :: "'h bitbang_spi_master \<Rightarrow> nat \<Rightarrow> u8 \<Rightarrow> 'h \<Rightarrow> (u8 \<times> 'h) option" where
  "read_bits b 0 ret h = Some (ret, h)"
| "read_bits b (Suc i) ret h =
     Option.bind (if i = 0 then bitbang_spi_set_sck_set_mosi b 0 0 h else bitbang_spi_set_sck b 0 h) (\<lambda>h1.
     Option.bind (bitbang_spi_set_sck_get_miso b 1 h1) (\<lambda>(v, h2). read_bits b i (push_bit 1 ret OR word_of_int v) h2))"

definition bitbang_spi_read_byte :: "'h bitbang_spi_master \<Rightarrow> 'h \<Rightarrow> (u8 \<times> 'h) option" where
  "bitbang_spi_read_byte b h = read_bits b 8 0 h"

primrec write_bits :: "'h bitbang_spi_master \<Rightarrow> u8 \<Rightarrow> nat \<Rightarrow> 'h \<Rightarrow> 'h option" where
  "write_bits b val 0 h = Some h"
| "write_bits b val (Suc i) h =
     Option.bind (bitbang_spi_set_sck_set_mosi b 0 (uint (drop_bit i val AND 1)) h) (\<lambda>h1.
     Option.bind (bitbang_spi_set_sck b 1 h1) (\<lambda>h2. write_bits b val i h2))"

definition bitbang_spi_write_byte :: "'h bitbang_spi_master \<Rightarrow> u8 \<Rightarrow> 'h \<Rightarrow> 'h option" where
  "bitbang_spi_write_byte b val h = write_bits b val 8 h"

primrec write_all :: "'h bitbang_spi_master \<Rightarrow> bytes \<Rightarrow> 'h \<Rightarrow> 'h option" where
  "write_all b [] h = Some h"
| "write_all b (v # vs) h = Option.bind (bitbang_spi_write_byte b v h) (write_all b vs)"

primrec read_all :: "'h bitbang_spi_master \<Rightarrow> nat \<Rightarrow> 'h \<Rightarrow> (bytes \<times> 'h) option" where
  "read_all b 0 h = Some ([], h)"
| "read_all b (Suc n) h =
     Option.bind (bitbang_spi_read_byte b h) (\<lambda>(v, h1). map_option (\<lambda>(vs, h2). (v # vs, h2)) (read_all b n h1))"

definition bitbang_spi_send_command :: "'h bitbang_spi_master \<Rightarrow> bytes \<Rightarrow> nat \<Rightarrow> 'h \<Rightarrow> (int \<times> bytes \<times> 'h) option" where
  "bitbang_spi_send_command b writearr readcnt h =
     Option.bind (bitbang_spi_set_cs b 0 (bitbang_spi_request_bus b h)) (\<lambda>h1.
     Option.bind (write_all b writearr h1) (\<lambda>h2.
     Option.bind (read_all b readcnt h2) (\<lambda>(readarr, h3).
     Option.bind (bitbang_spi_set_sck b 0 h3) (\<lambda>h4.
     map_option (\<lambda>h5. (0, readarr, bitbang_spi_release_bus b h5)) (bitbang_spi_set_cs b 1 h4)))))"

section \<open>Registration\<close>

text \<open>\<open>fp\<close> gives the addresses of functions. The result of \<^verbatim>\<open>register_spi_master\<close> is not looked at; \<open>data\<close> is the address of the allocated
  structure, 0 if the allocation fails.\<close>

definition spi_master_bitbang :: "(string \<Rightarrow> nat) \<Rightarrow> spi_callbacks" where
  "spi_master_bitbang fp = zero_spi\<lparr>sc_features := SPI_MASTER_4BA, sc_max_data_read := 64 * 1024, sc_max_data_write := 256,
     sc_command := Some (fp ''bitbang_spi_send_command''), sc_read := Some (fp ''default_spi_read''),
     sc_write_256 := Some (fp ''default_spi_write_256''), sc_shutdown := Some (fp ''bitbang_spi_shutdown'')\<rparr>"

definition bitbang_complete :: "'h bitbang_spi_master \<Rightarrow> bool" where
  "bitbang_complete b \<longleftrightarrow> bb_set_cs b \<noteq> None \<and> bb_set_sck b \<noteq> None \<and> bb_set_mosi b \<noteq> None \<and> bb_get_miso b \<noteq> None \<and>
     \<not> (bb_request_bus b \<noteq> None \<and> bb_release_bus b = None) \<and> \<not> (bb_request_bus b = None \<and> bb_release_bus b \<noteq> None)"

definition register_spi_bitbang_master ::
    "(string \<Rightarrow> nat) \<Rightarrow> 'w callee \<Rightarrow> 'h bitbang_spi_master option \<Rightarrow> ptr \<Rightarrow> globals \<Rightarrow> 'w \<Rightarrow> 'h \<Rightarrow> (int \<times> globals \<times> 'w \<times> 'h) option" where
  "register_spi_bitbang_master fp call master data g w h =
     (case master of
        None \<Rightarrow> Some (ERROR_FLASHROM_BUG, g, w, h)
      | Some b \<Rightarrow>
          if \<not> bitbang_complete b then Some (ERROR_FLASHROM_BUG, g, w, h)
          else if data = 0 then Some (ERROR_FLASHROM_FATAL, g, w, h)
          else Option.bind (register_spi_master call (spi_master_bitbang fp) data g w) (\<lambda>(_, g', w').
               Option.bind (bitbang_spi_set_cs b 1 (bitbang_spi_request_bus b h)) (\<lambda>h1.
               map_option (\<lambda>h2. (0, g', w', bitbang_spi_release_bus b h2)) (bitbang_spi_set_sck_set_mosi b 0 0 h1))))"

section \<open>A device on the lines\<close>

text \<open>The bits that a device has seen since it was selected, taken at rising edges of the clock, and the device. \<open>ans d bits\<close> is the bit that the
  device drives after the bits \<open>bits\<close>, up to the next rising edge; \<open>fin bits d\<close> is the device when it is deselected.\<close>

record 'd pins =
  pn_cs :: bool
  pn_sck :: bool
  pn_mosi :: bool
  pn_bits :: "bool list"
  pn_dev :: 'd

definition pin_cs :: "(bool list \<Rightarrow> 'd \<Rightarrow> 'd) \<Rightarrow> int \<Rightarrow> 'd pins \<Rightarrow> 'd pins" where
  "pin_cs fin v h = h\<lparr>pn_cs := v \<noteq> 0, pn_bits := [], pn_dev := (if v \<noteq> 0 \<and> \<not> pn_cs h then fin (pn_bits h) (pn_dev h) else pn_dev h)\<rparr>"

definition pin_sck :: "int \<Rightarrow> 'd pins \<Rightarrow> 'd pins" where
  "pin_sck v h = h\<lparr>pn_sck := v \<noteq> 0, pn_bits := pn_bits h @ (if v \<noteq> 0 \<and> \<not> pn_sck h \<and> \<not> pn_cs h then [pn_mosi h] else [])\<rparr>"

definition pin_mosi :: "int \<Rightarrow> 'd pins \<Rightarrow> 'd pins" where
  "pin_mosi v h = h\<lparr>pn_mosi := v \<noteq> 0\<rparr>"

definition pin_miso :: "('d \<Rightarrow> bool list \<Rightarrow> bool) \<Rightarrow> 'd pins \<Rightarrow> int \<times> 'd pins" where
  "pin_miso ans h = (of_bool (ans (pn_dev h) (butlast (pn_bits h))), h)"

text \<open>The functions of a programmer for these lines, with or without the combined ones.\<close>

definition pin_master :: "bool \<Rightarrow> ('d \<Rightarrow> bool list \<Rightarrow> bool) \<Rightarrow> (bool list \<Rightarrow> 'd \<Rightarrow> 'd) \<Rightarrow> 'd pins bitbang_spi_master" where
  "pin_master combined ans fin =
     \<lparr>bb_set_cs = Some (pin_cs fin), bb_set_sck = Some pin_sck, bb_set_mosi = Some pin_mosi, bb_get_miso = Some (pin_miso ans),
      bb_request_bus = None, bb_release_bus = None,
      bb_set_sck_set_mosi = (if combined then Some (\<lambda>sck mosi h. pin_mosi mosi (pin_sck sck h)) else None),
      bb_set_sck_get_miso = (if combined then Some (\<lambda>sck h. pin_miso ans (pin_sck sck h)) else None)\<rparr>"

lemma pin_calls:
  "bitbang_spi_set_cs (pin_master c ans fin) v h = Some (pin_cs fin v h)"
  "bitbang_spi_set_sck (pin_master c ans fin) v h = Some (pin_sck v h)"
  "bitbang_spi_set_sck_set_mosi (pin_master c ans fin) sck mosi h = Some (pin_mosi mosi (pin_sck sck h))"
  "bitbang_spi_set_sck_get_miso (pin_master c ans fin) sck h = Some (pin_miso ans (pin_sck sck h))"
  "bitbang_spi_request_bus (pin_master c ans fin) h = h" "bitbang_spi_release_bus (pin_master c ans fin) h = h"
  by (simp_all add: pin_master_def bitbang_spi_set_cs_def bitbang_spi_set_sck_def bitbang_spi_set_sck_set_mosi_def
      bitbang_spi_set_sck_get_miso_def bitbang_spi_request_bus_def bitbang_spi_release_bus_def)

text \<open>The lowest \<open>i\<close> bits of a byte, the highest of them first.\<close>

primrec bits_from :: "u8 \<Rightarrow> nat \<Rightarrow> bool list" where
  "bits_from v 0 = []"
| "bits_from v (Suc i) = bit v i # bits_from v i"

definition bits_of :: "bytes \<Rightarrow> bool list" where
  "bits_of vs = concat (map (\<lambda>v. bits_from v 8) vs)"

lemma length_bits_from [simp]: "length (bits_from v i) = i"
  by (induction i) simp_all

lemma length_bits_of: "length (bits_of vs) = 8 * length vs"
  by (induction vs) (simp_all add: bits_of_def)

lemma nth_bits_from: "j < i \<Longrightarrow> bits_from v i ! j = bit v (i - 1 - j)"
  by (induction i arbitrary: j) (auto simp: nth_Cons split: nat.split)

lemma write_bits_pins:
  assumes "\<not> pn_cs h"
  shows "write_bits (pin_master c ans fin) val i h =
    Some (h\<lparr>pn_sck := pn_sck h \<or> 0 < i, pn_mosi := (if i = 0 then pn_mosi h else bit val 0), pn_bits := pn_bits h @ bits_from val i\<rparr>)"
  using assms
proof (induction i arbitrary: h)
  case (Suc i)
  have b: "uint (drop_bit i val AND 1) \<noteq> 0 \<longleftrightarrow> bit val i"
    by (simp add: and_one_eq mod_2_eq_odd bit_iff_odd_drop_bit)
  show ?case using Suc.prems by (simp add: pin_calls Suc.IH pin_sck_def pin_mosi_def b)
qed simp

lemma write_all_pins:
  assumes "\<not> pn_cs h"
  shows "\<exists>h'. write_all (pin_master c ans fin) vs h = Some h' \<and> \<not> pn_cs h' \<and> pn_dev h' = pn_dev h \<and> pn_bits h' = pn_bits h @ bits_of vs"
  using assms
proof (induction vs arbitrary: h)
  case (Cons v vs)
  let ?h = "h\<lparr>pn_sck := pn_sck h \<or> 0 < (8 :: nat), pn_mosi := bit v 0, pn_bits := pn_bits h @ bits_from v 8\<rparr>"
  have "bitbang_spi_write_byte (pin_master c ans fin) v h = Some ?h"
    using Cons.prems by (simp add: bitbang_spi_write_byte_def write_bits_pins)
  moreover obtain h' where "write_all (pin_master c ans fin) vs ?h = Some h'" "\<not> pn_cs h'" "pn_dev h' = pn_dev ?h" "pn_bits h' = pn_bits ?h @ bits_of vs"
    using Cons.IH [of ?h] Cons.prems by auto
  ultimately show ?case by (simp add: bits_of_def)
qed (simp add: bits_of_def)

text \<open>Reading \<open>i\<close> bits on top of \<open>ret\<close>: what the device answers to the bits before and to whatever is on the other line.\<close>

lemma read_bits_pins:
  assumes "\<not> pn_cs h" and "\<And>rest. length rest < i \<Longrightarrow> ans (pn_dev h) (pn_bits h @ rest) = bit v (i - 1 - length rest)"
    and "i \<le> 8" "ret = drop_bit i v"
  shows "\<exists>h' rest. read_bits (pin_master c ans fin) i ret h = Some (v, h') \<and> \<not> pn_cs h' \<and> pn_dev h' = pn_dev h \<and>
    pn_bits h' = pn_bits h @ rest \<and> length rest = i"
  using assms
proof (induction i arbitrary: ret h)
  case (Suc i)
  define h1 where "h1 = (if i = 0 then pin_mosi 0 (pin_sck 0 h) else pin_sck 0 h)"
  define h2 where "h2 = pin_sck 1 h1"
  have h: "\<not> pn_cs h2" "pn_dev h2 = pn_dev h" "pn_bits h2 = pn_bits h @ [pn_mosi h1]" "pn_dev h1 = pn_dev h"
    using Suc.prems(1) by (simp_all add: h1_def h2_def pin_sck_def pin_mosi_def)
  have a: "ans (pn_dev h) (pn_bits h) = bit v i" using Suc.prems(2) [of "[]"] by simp
  have r: "push_bit 1 ret OR of_bool (bit v i) = drop_bit i v"
  proof (rule bit_eqI)
    fix k assume "possible_bit TYPE(u8) k"
    then show "bit (push_bit 1 ret OR of_bool (bit v i)) k = bit (drop_bit i v) k"
      unfolding Suc.prems(4) bit_or_iff bit_push_bit_iff bit_drop_bit_eq comp_def by (cases k) (auto simp: bit_1_iff bit_of_bool_iff)
  qed
  have "\<exists>h' rest. read_bits (pin_master c ans fin) i (drop_bit i v) h2 = Some (v, h') \<and> \<not> pn_cs h' \<and> pn_dev h' = pn_dev h2 \<and>
      pn_bits h' = pn_bits h2 @ rest \<and> length rest = i"
  proof (rule Suc.IH [OF h(1)])
    fix rest :: "bool list" assume "length rest < i"
    then show "ans (pn_dev h2) (pn_bits h2 @ rest) = bit v (i - 1 - length rest)"
      using Suc.prems(2) [of "pn_mosi h1 # rest"] h by simp
  qed (use Suc.prems(3) in simp_all)
  then obtain h' rest where "read_bits (pin_master c ans fin) i (drop_bit i v) h2 = Some (v, h')" "\<not> pn_cs h'" "pn_dev h' = pn_dev h2"
      "pn_bits h' = pn_bits h2 @ rest" "length rest = i" by blast
  moreover have "read_bits (pin_master c ans fin) (Suc i) ret h = read_bits (pin_master c ans fin) i (drop_bit i v) h2"
  proof -
    have "pin_miso ans h2 = (of_bool (bit v i), h2)" using h a by (simp add: pin_miso_def)
    moreover have "word_of_int (of_bool (bit v i)) = (of_bool (bit v i) :: u8)" by (cases "bit v i") simp_all
    moreover have "(if i = 0 then Some (pin_mosi 0 (pin_sck 0 h)) else Some (pin_sck 0 h)) = Some h1" by (simp add: h1_def)
    ultimately show ?thesis by (simp only: read_bits.simps pin_calls bind.bind_lunit prod.case h2_def [symmetric] r)
  qed
  ultimately show ?case using h by (intro exI [of _ h'] exI [of _ "pn_mosi h1 # rest"]) simp
qed simp

lemma read_all_pins:
  assumes "\<not> pn_cs h" and "\<And>rest. length rest < 8 * length vs \<Longrightarrow>
      ans (pn_dev h) (pn_bits h @ rest) = bit (vs ! (length rest div 8)) (7 - length rest mod 8)"
  shows "\<exists>h' rest. read_all (pin_master c ans fin) (length vs) h = Some (vs, h') \<and> \<not> pn_cs h' \<and> pn_dev h' = pn_dev h \<and>
    pn_bits h' = pn_bits h @ rest \<and> length rest = 8 * length vs"
  using assms
proof (induction vs arbitrary: h)
  case (Cons v vs)
  have z: "(0 :: u8) = drop_bit 8 v" by (rule bit_eqI) (simp add: bit_simps)
  have "ans (pn_dev h) (pn_bits h @ rest) = bit v (8 - 1 - length rest)" if "length rest < 8" for rest
    using Cons.prems(2) [of rest] that by simp
  then obtain h1 r1 where h1: "read_bits (pin_master c ans fin) 8 0 h = Some (v, h1)" "\<not> pn_cs h1" "pn_dev h1 = pn_dev h"
      "pn_bits h1 = pn_bits h @ r1" "length r1 = 8"
    using read_bits_pins [of h 8 ans v 0 c fin, OF Cons.prems(1) _ _ z] by auto
  have "\<exists>h' rest. read_all (pin_master c ans fin) (length vs) h1 = Some (vs, h') \<and> \<not> pn_cs h' \<and> pn_dev h' = pn_dev h1 \<and>
      pn_bits h' = pn_bits h1 @ rest \<and> length rest = 8 * length vs"
  proof (rule Cons.IH [OF h1(2)])
    fix rest :: "bool list" assume "length rest < 8 * length vs"
    then show "ans (pn_dev h1) (pn_bits h1 @ rest) = bit (vs ! (length rest div 8)) (7 - length rest mod 8)"
      using Cons.prems(2) [of "r1 @ rest"] h1(3-5) div_add_self1 [of 8 "length rest"] by simp
  qed
  then obtain h' r2 where "read_all (pin_master c ans fin) (length vs) h1 = Some (vs, h')" "\<not> pn_cs h'" "pn_dev h' = pn_dev h1"
      "pn_bits h' = pn_bits h1 @ r2" "length r2 = 8 * length vs" by blast
  then show ?case using h1 by (intro exI [of _ h'] exI [of _ "r1 @ r2"]) (simp add: bitbang_spi_read_byte_def)
qed simp

section \<open>Commands on the lines\<close>

text \<open>C35: a command sent by setting lines is the command the device understands. If the device, after the bits of the written bytes, the highest
  bit of each first, and whatever follows, answers the bits of \<open>reply\<close> and becomes \<open>d'\<close> when it is deselected, then the result is 0, the
  bytes read are \<open>reply\<close>, and the device is \<open>d'\<close>. The combined functions of a programmer make no difference.\<close>

theorem bitbang_command:
  assumes "\<And>rest. length rest < 8 * length reply \<Longrightarrow>
      ans (pn_dev h) (bits_of w @ rest) = bit (reply ! (length rest div 8)) (7 - length rest mod 8)"
    and "\<And>rest. length rest = 8 * length reply \<Longrightarrow> fin (bits_of w @ rest) (pn_dev h) = d'"
  shows "\<exists>h'. bitbang_spi_send_command (pin_master combined ans fin) w (length reply) h = Some (0, reply, h') \<and>
    pn_dev h' = d' \<and> pn_cs h' \<and> \<not> pn_sck h'"
proof -
  let ?b = "pin_master combined ans fin"
  have h1: "\<not> pn_cs (pin_cs fin 0 h)" "pn_dev (pin_cs fin 0 h) = pn_dev h" "pn_bits (pin_cs fin 0 h) = []" by (simp_all add: pin_cs_def)
  obtain h2 where h2: "write_all ?b w (pin_cs fin 0 h) = Some h2" "\<not> pn_cs h2" "pn_dev h2 = pn_dev h" "pn_bits h2 = bits_of w"
    using write_all_pins [OF h1(1), of combined ans fin w] h1(2,3) by auto
  obtain h3 rest where h3: "read_all ?b (length reply) h2 = Some (reply, h3)" "\<not> pn_cs h3" "pn_dev h3 = pn_dev h" "pn_bits h3 = bits_of w @ rest"
      "length rest = 8 * length reply"
    using read_all_pins [of h2 reply ans combined fin] h2(2-4) assms(1) by auto
  have "bitbang_spi_send_command ?b w (length reply) h = Some (0, reply, pin_cs fin 1 (pin_sck 0 h3))"
    using h2(1) h3(1) by (simp add: bitbang_spi_send_command_def pin_calls)
  moreover have "pn_dev (pin_cs fin 1 (pin_sck 0 h3)) = d'" using h3(2-5) assms(2) by (simp add: pin_cs_def pin_sck_def)
  ultimately show ?thesis by (simp add: pin_cs_def pin_sck_def)
qed

text \<open>A device that answers its identification after one byte and counts commands.\<close>

theorem bitbang_command_witness:
  "\<exists>h'. bitbang_spi_send_command
      (pin_master True (\<lambda>d bits. bit ([0xEF, 0x40, 0x18 :: u8] ! ((length bits - 8) div 8)) (7 - (length bits - 8) mod 8)) (\<lambda>bits d. Suc d))
      [0x9F] 3 \<lparr>pn_cs = True, pn_sck = False, pn_mosi = False, pn_bits = [], pn_dev = 0\<rparr> = Some (0, [0xEF, 0x40, 0x18], h') \<and>
    pn_dev h' = 1 \<and> pn_cs h' \<and> \<not> pn_sck h'"
  using bitbang_command [of "[0xEF, 0x40, 0x18]" "\<lambda>d bits. bit ([0xEF, 0x40, 0x18 :: u8] ! ((length bits - 8) div 8)) (7 - (length bits - 8) mod 8)"
      "\<lparr>pn_cs = True, pn_sck = False, pn_mosi = False, pn_bits = [], pn_dev = 0\<rparr>" "[0x9F]" "\<lambda>bits d. Suc d" 1 True]
  by (simp add: length_bits_of numeral_3_eq_3)

end
