(* ===== verification/MeRestore.thy ===== *)
theory MeRestore
  imports IchMachine
begin

text \<open>
  The UEFI application \<^verbatim>\<open>edk2_shell_pkg/Application/MeRestoreApp/MeRestoreApp.c\<close>, which writes a dump of the management engine
  to the SPI flash through the registers of the controller, reads it back and tries again when it differs.

  Register accesses and waits are the callbacks \<open>'s regs\<close> that \<open>IchSpi\<close> uses too, here with absolute addresses. PCI configuration
  space, the allocation of memory and files are parameters; a file answers with a status and the bytes at a position.
  The static variables of the application are a record. Output is left out.
\<close>

section \<open>Environment\<close>

datatype efi_status =
    EFI_SUCCESS | EFI_INVALID_PARAMETER | EFI_NOT_READY | EFI_DEVICE_ERROR | EFI_OUT_OF_RESOURCES | EFI_NOT_FOUND
  | EFI_ACCESS_DENIED | EFI_TIMEOUT | EFI_OTHER_ERROR nat

definition EFI_ERROR :: "efi_status \<Rightarrow> bool" where
  "EFI_ERROR st \<longleftrightarrow> st \<noteq> EFI_SUCCESS"

record me_file =
  mf_size :: "efi_status \<times> nat"
  mf_seek :: "nat \<Rightarrow> efi_status"
  mf_read :: "nat \<Rightarrow> nat \<Rightarrow> efi_status \<times> bytes"

record 's me_env =
  me_regs :: "'s regs"
  me_pci16 :: "nat \<Rightarrow> nat \<Rightarrow> nat \<Rightarrow> nat \<Rightarrow> 16 word"
  me_pci32 :: "nat \<Rightarrow> nat \<Rightarrow> nat \<Rightarrow> nat \<Rightarrow> 32 word"
  me_open :: "string \<Rightarrow> efi_status \<times> me_file"
  me_alloc :: bool
  me_alloc_file :: bool
  me_alloc_flash :: bool

text \<open>A base address of zero is the null pointer.\<close>

record 's me_state =
  mSpiMmioBase :: nat
  mOriginalSpiClock :: "32 word"
  mEnableHap :: bool
  me_hw :: 's

section \<open>Registers\<close>

definition SPI_VENDOR_ID :: "16 word" where "SPI_VENDOR_ID = 0x8086"
definition SPI_DEVICE_ID :: "16 word" where "SPI_DEVICE_ID = 0x7E23"
definition SPI_MMIO_BASE :: nat where "SPI_MMIO_BASE = 0x7c120000"
definition HECI_MMIO_BASE :: nat where "HECI_MMIO_BASE = 0x50192DD000"
definition HECI_HFSTS1 :: nat where "HECI_HFSTS1 = 0x50192DD040"
definition HECI_HFSTS1_HAP_MODE :: "32 word" where "HECI_HFSTS1_HAP_MODE = 0x1000"
definition VSEC_ENG_MODE :: nat where "VSEC_ENG_MODE = 0x5019240000"
definition VSEC_DEBUG_CTRL :: nat where "VSEC_DEBUG_CTRL = 0x5019240004"
definition VSEC_FUSE_OVERRIDE :: nat where "VSEC_FUSE_OVERRIDE = 0x5019240008"
definition VSEC_SECURITY_BYPASS :: nat where "VSEC_SECURITY_BYPASS = 0x501924000C"
definition VSEC_CTRL_REG :: nat where "VSEC_CTRL_REG = 0x5019240014"
definition VSEC_FEAT_UNLOCK :: nat where "VSEC_FEAT_UNLOCK = 0x5019240100"
definition VSEC_ME_CONTROL :: nat where "VSEC_ME_CONTROL = 0x5019240300"
definition VSEC_CSME_BYPASS :: nat where "VSEC_CSME_BYPASS = 0x501924030C"
definition SPI_HSFSTS_CTL :: nat where "SPI_HSFSTS_CTL = 0x0000"
definition SPI_HSFCTL :: nat where "SPI_HSFCTL = 0x0004"
definition SPI_FADDR :: nat where "SPI_FADDR = 0x0008"
definition SPI_FDATA0 :: nat where "SPI_FDATA0 = 0x0010"
definition SPI_FRAP :: nat where "SPI_FRAP = 0x0050"
definition SPI_FREG2 :: nat where "SPI_FREG2 = 0x005C"
definition HSFSTS_CTL_FCYCLE_SHIFT :: nat where "HSFSTS_CTL_FCYCLE_SHIFT = 1"
definition HSFSTS_CTL_FCYCLE_READ :: "32 word" where "HSFSTS_CTL_FCYCLE_READ = 0x00"
definition HSFSTS_CTL_FCYCLE_WRITE :: "32 word" where "HSFSTS_CTL_FCYCLE_WRITE = 0x02"
definition HSFSTS_CTL_FDBC_SHIFT :: nat where "HSFSTS_CTL_FDBC_SHIFT = 24"
definition HSFSTS_CTL_FGO :: "32 word" where "HSFSTS_CTL_FGO = 0x1"
definition HSFSTS_CTL_FCERR :: "32 word" where "HSFSTS_CTL_FCERR = 0x4"
definition HSFSTS_CTL_FDONE :: "32 word" where "HSFSTS_CTL_FDONE = 0x8"
definition HSFSTS_CTL_SCIP :: "32 word" where "HSFSTS_CTL_SCIP = 0x20"
definition SPI_CLOCK_CTL :: nat where "SPI_CLOCK_CTL = 0x0010"
definition SPI_CLOCK_DIV_MASK :: "32 word" where "SPI_CLOCK_DIV_MASK = 0x700"
definition SPI_CLOCK_DIV_8 :: "32 word" where "SPI_CLOCK_DIV_8 = 0x300"
definition SPI_CLOCK_DIV_RELIABLE :: "32 word" where "SPI_CLOCK_DIV_RELIABLE = SPI_CLOCK_DIV_8"
definition HSFSTS_CTL_FSPI_MASK :: "32 word" where "HSFSTS_CTL_FSPI_MASK = 0x700"
definition HSFSTS_CTL_FSPI_DIV_8 :: "32 word" where "HSFSTS_CTL_FSPI_DIV_8 = 0x300"
definition HSFCTL_CLOCK_DIV_SHIFT :: nat where "HSFCTL_CLOCK_DIV_SHIFT = 8"
definition HSFCTL_CLOCK_DIV_MASK :: "32 word" where "HSFCTL_CLOCK_DIV_MASK = 0x700"
definition ME_FIRMWARE_START :: nat where "ME_FIRMWARE_START = 0x00126000"
definition ME_FIRMWARE_END :: nat where "ME_FIRMWARE_END = 0x00EC7FFF"
definition ME_FIRMWARE_SIZE :: nat where "ME_FIRMWARE_SIZE = ME_FIRMWARE_END - ME_FIRMWARE_START + 1"
definition ME_CHUNK_SIZE :: nat where "ME_CHUNK_SIZE = 256"

definition MmioRead32 :: "'s me_env \<Rightarrow> nat \<Rightarrow> 's me_state \<Rightarrow> 32 word" where
  "MmioRead32 e a st = mmio_readl (me_regs e) a (me_hw st)"

definition MmioWrite32 :: "'s me_env \<Rightarrow> nat \<Rightarrow> 32 word \<Rightarrow> 's me_state \<Rightarrow> 's me_state" where
  "MmioWrite32 e a v st = st\<lparr>me_hw := mmio_writel (me_regs e) a v (me_hw st)\<rparr>"

definition Stall :: "'s me_env \<Rightarrow> nat \<Rightarrow> 's me_state \<Rightarrow> 's me_state" where
  "Stall e us st = st\<lparr>me_hw := default_delay (me_regs e) us (me_hw st)\<rparr>"

text \<open>A register of the controller: \<^verbatim>\<open>SpiMmio + off\<close>.\<close>

definition spi_reg :: "'s me_state \<Rightarrow> nat \<Rightarrow> nat" where
  "spi_reg st off = add64 (mSpiMmioBase st) off"

section \<open>The controller\<close>

definition MapSpiController :: "'s me_env \<Rightarrow> 's me_state \<Rightarrow> efi_status \<times> 's me_state" where
  "MapSpiController e st =
     (if me_pci16 e 0 0x1f 5 0 \<noteq> SPI_VENDOR_ID \<or> me_pci16 e 0 0x1f 5 2 \<noteq> SPI_DEVICE_ID then (EFI_NOT_FOUND, st)
      else let SpiBar = unat (((ucast (me_pci32 e 0 0x1f 5 0x10) :: 64 word) OR push_bit 32 (ucast (me_pci32 e 0 0x1f 5 0x14))) AND NOT 0xF);
               SpiBar' = (if SpiBar = 0 \<or> SpiBar \<noteq> SPI_MMIO_BASE then SPI_MMIO_BASE else SpiBar)
           in (EFI_SUCCESS, st\<lparr>mSpiMmioBase := SpiBar'\<rparr>))"

definition VerifyMeRegion :: "'s me_env \<Rightarrow> 's me_state \<Rightarrow> efi_status" where
  "VerifyMeRegion e st =
     (if mSpiMmioBase st = 0 then EFI_NOT_READY
      else let Freg2 = MmioRead32 e (spi_reg st SPI_FREG2) st;
               Base = unat (Freg2 AND 0x7FFF) * 4096;
               Limit = unat (drop_bit 16 Freg2 AND 0x7FFF) * 4096
           in if Base = ME_FIRMWARE_START \<and> (Limit = ME_FIRMWARE_END \<or> Limit = ME_FIRMWARE_END div 4096 * 4096) then EFI_SUCCESS
              else EFI_NOT_FOUND)"

text \<open>\<^verbatim>\<open>for (Timeout = k; Timeout > 0; Timeout--)\<close> until no cycle is in progress: what is left of the timeout, and the last
  value read.\<close>

fun wait_idle :: "'s me_env \<Rightarrow> nat \<Rightarrow> 32 word \<Rightarrow> 's me_state \<Rightarrow> nat \<times> 32 word \<times> 's me_state" where
  "wait_idle e 0 v st = (0, v, st)"
| "wait_idle e (Suc k) v st =
     (let v' = MmioRead32 e (spi_reg st SPI_HSFSTS_CTL) st
      in if v' AND HSFSTS_CTL_SCIP = 0 then (Suc k, v', st) else wait_idle e k v' (Stall e 100 st))"

text \<open>The loop that waits for the end of a cycle, with the returns in and after it.\<close>

fun wait_done :: "'s me_env \<Rightarrow> nat \<Rightarrow> 's me_state \<Rightarrow> efi_status \<times> 's me_state" where
  "wait_done e 0 st = (EFI_TIMEOUT, st)"
| "wait_done e (Suc k) st =
     (let v = MmioRead32 e (spi_reg st SPI_HSFSTS_CTL) st
      in if v AND HSFSTS_CTL_FDONE \<noteq> 0 then (EFI_SUCCESS, st)
         else if v AND HSFSTS_CTL_FCERR \<noteq> 0 then (EFI_DEVICE_ERROR, st)
         else wait_done e k (Stall e 100 st))"

text \<open>One method of \<^verbatim>\<open>ProbeSpiClockControl\<close>: write a test value, read it back and restore the register.\<close>

definition probe_clock_at :: "'s me_env \<Rightarrow> nat \<Rightarrow> 32 word \<Rightarrow> 32 word \<Rightarrow> 32 word \<Rightarrow> 's me_state \<Rightarrow> bool \<times> 's me_state" where
  "probe_clock_at e off msk div8 original st =
     (let st1 = Stall e 1000 (MmioWrite32 e (spi_reg st off) ((original AND NOT msk) OR div8) st);
          ReadBack = MmioRead32 e (spi_reg st off) st1
      in (ReadBack AND msk = div8 AND msk, MmioWrite32 e (spi_reg st off) original st1))"

text \<open>The results are the status, and the offset and the mask of the register; the shift is 8 always.\<close>

definition ProbeSpiClockControl :: "'s me_env \<Rightarrow> 's me_state \<Rightarrow> efi_status \<times> (nat \<times> 32 word) \<times> 's me_state" where
  "ProbeSpiClockControl e st =
     (if mSpiMmioBase st = 0 then (EFI_NOT_READY, (0, 0), st)
      else
        let OriginalHsfstsCtl = MmioRead32 e (spi_reg st SPI_HSFSTS_CTL) st;
            OriginalHsfctl = MmioRead32 e (spi_reg st SPI_HSFCTL) st;
            (Timeout, _, st1) = wait_idle e 1000 OriginalHsfstsCtl st;
            (found1, st2) = (if Timeout > 0
               then probe_clock_at e SPI_CLOCK_CTL SPI_CLOCK_DIV_MASK SPI_CLOCK_DIV_8 (MmioRead32 e (spi_reg st1 SPI_CLOCK_CTL) st1) st1
               else (False, st1))
        in if found1 then (EFI_SUCCESS, (SPI_CLOCK_CTL, SPI_CLOCK_DIV_MASK), st2)
           else
             let (found2, st3) = (if OriginalHsfstsCtl AND HSFSTS_CTL_SCIP = 0
                    then probe_clock_at e SPI_HSFSTS_CTL HSFSTS_CTL_FSPI_MASK HSFSTS_CTL_FSPI_DIV_8 OriginalHsfstsCtl st2
                    else (False, st2))
             in if found2 then (EFI_SUCCESS, (SPI_HSFSTS_CTL, HSFSTS_CTL_FSPI_MASK), st3)
                else
                  let (found3, st4) = probe_clock_at e SPI_HSFCTL HSFCTL_CLOCK_DIV_MASK (push_bit HSFCTL_CLOCK_DIV_SHIFT 0x3) OriginalHsfctl st3
                  in if found3 then (EFI_SUCCESS, (SPI_HSFCTL, HSFCTL_CLOCK_DIV_MASK), st4)
                     else (EFI_NOT_FOUND, (SPI_CLOCK_CTL, SPI_CLOCK_DIV_MASK), st4))"

definition SetSpiClockSpeed :: "'s me_env \<Rightarrow> 32 word \<Rightarrow> 's me_state \<Rightarrow> efi_status \<times> 's me_state" where
  "SetSpiClockSpeed e ClockDivider st =
     (if mSpiMmioBase st = 0 then (EFI_NOT_READY, st)
      else
        let (_, (off, msk), st1) = ProbeSpiClockControl e st;
            RegValue = MmioRead32 e (spi_reg st1 off) st1;
            st2 = st1\<lparr>mOriginalSpiClock := RegValue AND msk\<rparr>;
            (Timeout, _, st3) = wait_idle e 1000 0 st2
        in if Timeout = 0 then (EFI_DEVICE_ERROR, st3)
           else
             let st4 = Stall e 1000 (MmioWrite32 e (spi_reg st3 off) ((RegValue AND NOT msk) OR (ClockDivider AND msk)) st3);
                 RegValue' = MmioRead32 e (spi_reg st4 off) st4
             in (if RegValue' AND msk = ClockDivider AND msk then EFI_SUCCESS else EFI_DEVICE_ERROR, st4))"

text \<open>A saved value of zero counts as no value.\<close>

definition RestoreSpiClockSpeed :: "'s me_env \<Rightarrow> 's me_state \<Rightarrow> efi_status \<times> 's me_state" where
  "RestoreSpiClockSpeed e st =
     (if mSpiMmioBase st = 0 then (EFI_NOT_READY, st)
      else if mOriginalSpiClock st = 0 then (EFI_SUCCESS, st)
      else
        let (s1, (off0, msk0), st1) = ProbeSpiClockControl e st;
            (off, msk) = (if EFI_ERROR s1 then (SPI_CLOCK_CTL, SPI_CLOCK_DIV_MASK) else (off0, msk0));
            (Timeout, _, st2) = wait_idle e 1000 0 st1
        in if Timeout = 0 then (EFI_DEVICE_ERROR, st2)
           else
             let RegValue = MmioRead32 e (spi_reg st2 off) st2;
                 st3 = Stall e 1000 (MmioWrite32 e (spi_reg st2 off) ((RegValue AND NOT msk) OR (mOriginalSpiClock st2 AND msk)) st2)
             in (EFI_SUCCESS, st3\<lparr>mOriginalSpiClock := 0\<rparr>))"

section \<open>Protection\<close>

text \<open>A write to a register and the wait of 100 ms behind it. The values read back are only printed.\<close>

definition poke :: "'s me_env \<Rightarrow> nat \<Rightarrow> 32 word \<Rightarrow> 's me_state \<Rightarrow> 's me_state" where
  "poke e a v st = Stall e 100000 (MmioWrite32 e a v st)"

definition UnlockMeProtection :: "'s me_env \<Rightarrow> 's me_state \<Rightarrow> efi_status \<times> 's me_state" where
  "UnlockMeProtection e st =
     (let st1 = fold (\<lambda>(a, v). poke e a v)
            [(VSEC_ENG_MODE, 0xA00A00A0), (VSEC_DEBUG_CTRL, 0xFFFFFFFF), (VSEC_FUSE_OVERRIDE, 0xFFFFFFFF),
             (VSEC_SECURITY_BYPASS, 0xFFFFFFFF), (VSEC_CTRL_REG, 0x0000007F), (VSEC_FEAT_UNLOCK, 0xFFFFFFFF),
             (VSEC_CSME_BYPASS, 0xFFFFFFFF)] st
      in (EFI_SUCCESS,
          if mEnableHap st1
          then let st2 = poke e VSEC_ME_CONTROL 0xFFFFFFFF st1
               in if MmioRead32 e HECI_HFSTS1 st2 AND HECI_HFSTS1_HAP_MODE \<noteq> 0 then st2
                  else poke e (HECI_MMIO_BASE + 0x14) 0x80000001 (Stall e 10000 (MmioWrite32 e (HECI_MMIO_BASE + 0x10) 0x85FF st2))
          else st1))"

definition DisableWriteProtection :: "'s me_env \<Rightarrow> 's me_state \<Rightarrow> efi_status \<times> 's me_state" where
  "DisableWriteProtection e st =
     (if mSpiMmioBase st = 0 then (EFI_NOT_READY, st)
      else
        let Frap = MmioRead32 e (spi_reg st SPI_FRAP) st
        in if Frap AND 4 \<noteq> 0
           then let st1 = poke e (spi_reg st SPI_FRAP) (Frap AND NOT 4) st
                in if MmioRead32 e (spi_reg st1 SPI_FRAP) st1 AND 4 \<noteq> 0
                   then let st2 = poke e (spi_reg st1 SPI_FRAP) 0
                              (poke e VSEC_ME_CONTROL 0x00000001 (poke e VSEC_CSME_BYPASS 0xFFFFFFFF st1))
                        in (if MmioRead32 e (spi_reg st2 SPI_FRAP) st2 AND 4 \<noteq> 0 then EFI_ACCESS_DENIED else EFI_SUCCESS, st2)
                   else (EFI_SUCCESS, st1)
           else (EFI_SUCCESS, st))"

section \<open>Transfers\<close>

text \<open>The data registers: four bytes each, the first one lowest; missing bytes are zero.\<close>

fun write_fdata :: "'s me_env \<Rightarrow> bytes \<Rightarrow> nat \<Rightarrow> 's me_state \<Rightarrow> 's me_state" where
  "write_fdata e [] i st = st"
| "write_fdata e (b # bs) i st =
     write_fdata e (drop 3 bs) (i + 4) (MmioWrite32 e (spi_reg st (SPI_FDATA0 + i)) (word_of_nat (le_value (take 4 (b # bs)))) st)"

fun read_fdata :: "'s me_env \<Rightarrow> nat \<Rightarrow> nat \<Rightarrow> 's me_state \<Rightarrow> bytes" where
  "read_fdata e i 0 st = []"
| "read_fdata e i (Suc k) st =
     take (Suc k) (le_bytes 4 (unat (MmioRead32 e (spi_reg st (SPI_FDATA0 + i)) st))) @ read_fdata e (i + 4) (k - 3) st"

text \<open>Clearing an error, the address, the data and the start of a cycle; \<open>data\<close> is empty for a read.\<close>

definition run_cycle :: "'s me_env \<Rightarrow> 32 word \<Rightarrow> 32 word \<Rightarrow> bytes \<Rightarrow> nat \<Rightarrow> 's me_state \<Rightarrow> efi_status \<times> 's me_state" where
  "run_cycle e cyc FlashAddr data DataSize st =
     (case wait_idle e 1000 0 st of (Timeout, HsfstsCtl, st1) \<Rightarrow>
        if Timeout = 0 then (EFI_DEVICE_ERROR, st1)
        else
          let st2 = (if HsfstsCtl AND HSFSTS_CTL_FCERR \<noteq> 0
                     then MmioWrite32 e (spi_reg st1 SPI_HSFSTS_CTL) (HsfstsCtl OR HSFSTS_CTL_FCERR) st1 else st1);
              st3 = MmioWrite32 e (spi_reg st2 SPI_FADDR) FlashAddr st2;
              st4 = write_fdata e data 0 st3;
              HsfstsVal = push_bit HSFSTS_CTL_FCYCLE_SHIFT cyc OR push_bit HSFSTS_CTL_FDBC_SHIFT (word_of_nat (DataSize - 1)) OR HSFSTS_CTL_FGO
          in wait_done e 10000 (MmioWrite32 e (spi_reg st4 SPI_HSFSTS_CTL) HsfstsVal st4))"

definition WriteSpiChunk :: "'s me_env \<Rightarrow> 32 word \<Rightarrow> bytes \<Rightarrow> 's me_state \<Rightarrow> efi_status \<times> 's me_state" where
  "WriteSpiChunk e FlashAddr Data st =
     (if mSpiMmioBase st = 0 \<or> length Data = 0 \<or> length Data > 16 then (EFI_INVALID_PARAMETER, st)
      else run_cycle e HSFSTS_CTL_FCYCLE_WRITE FlashAddr Data (length Data) st)"

definition ReadSpiChunk :: "'s me_env \<Rightarrow> 32 word \<Rightarrow> nat \<Rightarrow> 's me_state \<Rightarrow> efi_status \<times> bytes \<times> 's me_state" where
  "ReadSpiChunk e FlashAddr DataSize st =
     (if mSpiMmioBase st = 0 \<or> DataSize = 0 \<or> DataSize > 16 then (EFI_INVALID_PARAMETER, [], st)
      else case run_cycle e HSFSTS_CTL_FCYCLE_READ FlashAddr [] DataSize st of (s, st1) \<Rightarrow>
             if s \<noteq> EFI_SUCCESS then (s, [], st1) else (EFI_SUCCESS, read_fdata e 0 DataSize st1, st1))"

text \<open>The loops over pieces of 16 bytes of a chunk at \<open>addr\<close>.\<close>

function write_pieces :: "'s me_env \<Rightarrow> nat \<Rightarrow> bytes \<Rightarrow> 's me_state \<Rightarrow> efi_status \<times> 's me_state" where
  "write_pieces e addr bs st =
     (if bs = [] then (EFI_SUCCESS, st)
      else case WriteSpiChunk e (word_of_nat addr) (take 16 bs) st of (s, st1) \<Rightarrow>
             if EFI_ERROR s then (s, st1) else write_pieces e (addr + 16) (drop 16 bs) st1)"
  by pat_completeness auto
termination
  by (relation "measure (\<lambda>(e, addr, bs, st). length bs)") auto

function read_pieces :: "'s me_env \<Rightarrow> nat \<Rightarrow> nat \<Rightarrow> bytes \<Rightarrow> 's me_state \<Rightarrow> efi_status \<times> bytes \<times> 's me_state" where
  "read_pieces e addr len acc st =
     (if len = 0 then (EFI_SUCCESS, acc, st)
      else case ReadSpiChunk e (word_of_nat addr) (min len 16) st of (s, bs, st1) \<Rightarrow>
             if EFI_ERROR s then (s, acc, st1) else read_pieces e (addr + 16) (len - 16) (acc @ bs) st1)"
  by pat_completeness auto
termination
  by (relation "measure (\<lambda>(e, addr, len, acc, st). len)") auto

declare write_pieces.simps [simp del] read_pieces.simps [simp del]

text \<open>The size of the chunk at \<open>off\<close> of a file of \<open>FileSize\<close> bytes.\<close>

definition chunk_size :: "nat \<Rightarrow> nat \<Rightarrow> nat" where
  "chunk_size FileSize off = min (min (ME_FIRMWARE_SIZE - off) ME_CHUNK_SIZE) (FileSize - off)"

function write_chunks :: "'s me_env \<Rightarrow> me_file \<Rightarrow> nat \<Rightarrow> nat \<Rightarrow> 's me_state \<Rightarrow> efi_status \<times> 's me_state" where
  "write_chunks e f FileSize off st =
     (if off < ME_FIRMWARE_SIZE \<and> off < FileSize
      then let n = chunk_size FileSize off
           in case mf_read f off n of (s, bs) \<Rightarrow>
                if EFI_ERROR s \<or> length bs \<noteq> n then (EFI_DEVICE_ERROR, st)
                else case write_pieces e (ME_FIRMWARE_START + off) bs st of (s1, st1) \<Rightarrow>
                       if EFI_ERROR s1 then (s1, st1) else write_chunks e f FileSize (off + ME_CHUNK_SIZE) st1
      else (EFI_SUCCESS, st))"
  by pat_completeness auto
termination
  by (relation "measure (\<lambda>(e, f, FileSize, off, st). ME_FIRMWARE_SIZE - off)") (auto simp: ME_CHUNK_SIZE_def)

declare write_chunks.simps [simp del]

definition WriteMeFirmware :: "'s me_env \<Rightarrow> me_file \<Rightarrow> 's me_state \<Rightarrow> efi_status \<times> 's me_state" where
  "WriteMeFirmware e f st =
     (case mf_size f of (s, FileSize) \<Rightarrow>
        if EFI_ERROR s then (s, st)
        else if \<not> me_alloc e then (EFI_OUT_OF_RESOURCES, st)
        else if EFI_ERROR (mf_seek f 0) then (mf_seek f 0, st)
        else write_chunks e f FileSize 0 st)"

text \<open>The comparison counts the bytes that differ; only whether there are any is used.\<close>

function verify_chunks :: "'s me_env \<Rightarrow> me_file \<Rightarrow> nat \<Rightarrow> nat \<Rightarrow> nat \<Rightarrow> 's me_state \<Rightarrow> efi_status \<times> nat \<times> 's me_state" where
  "verify_chunks e f FileSize off mismatches st =
     (if off < ME_FIRMWARE_SIZE \<and> off < FileSize
      then let n = chunk_size FileSize off
           in case mf_read f off n of (s, bs) \<Rightarrow>
                if EFI_ERROR s \<or> length bs \<noteq> n then (EFI_DEVICE_ERROR, mismatches, st)
                else case read_pieces e (ME_FIRMWARE_START + off) n [] st of (s1, fs, st1) \<Rightarrow>
                       if EFI_ERROR s1 then (s1, mismatches, st1)
                       else verify_chunks e f FileSize (off + ME_CHUNK_SIZE)
                              (mismatches + length (filter (\<lambda>(a, b). a \<noteq> b) (zip bs fs))) st1
      else (EFI_SUCCESS, mismatches, st))"
  by pat_completeness auto
termination
  by (relation "measure (\<lambda>(e, f, FileSize, off, mismatches, st). ME_FIRMWARE_SIZE - off)") (auto simp: ME_CHUNK_SIZE_def)

declare verify_chunks.simps [simp del]

definition VerifyMeFirmware :: "'s me_env \<Rightarrow> me_file \<Rightarrow> 's me_state \<Rightarrow> efi_status \<times> bool \<times> 's me_state" where
  "VerifyMeFirmware e f st =
     (case mf_size f of (s, FileSize) \<Rightarrow>
        if EFI_ERROR s then (s, False, st)
        else if \<not> me_alloc_file e \<or> \<not> me_alloc_flash e then (EFI_OUT_OF_RESOURCES, False, st)
        else if EFI_ERROR (mf_seek f 0) then (mf_seek f 0, False, st)
        else case verify_chunks e f FileSize 0 0 st of (s1, mismatches, st1) \<Rightarrow>
               if EFI_ERROR s1 then (s1, False, st1) else (EFI_SUCCESS, mismatches = 0, st1))"

definition RestoreMeFirmware :: "'s me_env \<Rightarrow> me_file \<Rightarrow> 's me_state \<Rightarrow> efi_status \<times> 's me_state" where
  "RestoreMeFirmware e f st = WriteMeFirmware e f st"

section \<open>The application\<close>

text \<open>The loop of verification and new attempts: \<open>k\<close> attempts are left. The result is the status and whether the flash
  matched in the end.\<close>

fun restore_loop :: "'s me_env \<Rightarrow> me_file \<Rightarrow> nat \<Rightarrow> 's me_state \<Rightarrow> efi_status \<times> bool \<times> 's me_state" where
  "restore_loop e f k st =
     (case VerifyMeFirmware e f st of (s, Matches, st1) \<Rightarrow>
        if EFI_ERROR s then (s, Matches, st1)
        else if Matches then (s, True, st1)
        else case k of
          0 \<Rightarrow> (EFI_DEVICE_ERROR, False, st1)
        | Suc k' \<Rightarrow>
            if EFI_ERROR (mf_seek f 0) then (mf_seek f 0, False, st1)
            else case RestoreMeFirmware e f st1 of (s2, st2) \<Rightarrow>
                   if EFI_ERROR s2 then (s2, False, st2)
                   else if EFI_ERROR (mf_seek f 0) then (mf_seek f 0, False, st2)
                   else restore_loop e f k' st2)"

declare restore_loop.simps [simp del]

definition is_hap_flag :: "string \<Rightarrow> bool" where
  "is_hap_flag arg \<longleftrightarrow> arg \<in> {''-hap'', ''--hap'', ''-neutralize'', ''--neutralize''}"

fun parse_args :: "string list \<Rightarrow> bool \<Rightarrow> string option \<Rightarrow> bool \<times> string option" where
  "parse_args [] hap name = (hap, name)"
| "parse_args (arg # args) hap name =
     (if is_hap_flag arg then parse_args args True name
      else if arg = [] \<or> hd arg \<noteq> CHR ''-'' then parse_args args hap (if name = None then Some arg else name)
      else parse_args args hap name)"

definition ShellAppMain :: "'s me_env \<Rightarrow> string list \<Rightarrow> 's me_state \<Rightarrow> int \<times> 's me_state" where
  "ShellAppMain e args st =
     (let (hap, name) = parse_args args (mEnableHap st) None;
          FileName = (case name of None \<Rightarrow> ''fs0:'' @ [CHR 0x5C] @ ''dump.bin'' | Some s \<Rightarrow> s);
          (s1, st1) = MapSpiController e (st\<lparr>mEnableHap := hap\<rparr>)
      in if EFI_ERROR s1 then (1, st1)
         else if EFI_ERROR (VerifyMeRegion e st1) then (1, st1)
         else
           let st2 = snd (UnlockMeProtection e st1);
               st3 = snd (DisableWriteProtection e st2)
           in case me_open e FileName of (s4, f) \<Rightarrow>
                if EFI_ERROR s4 then (1, st3)
                else
                  let st5 = snd (SetSpiClockSpeed e SPI_CLOCK_DIV_RELIABLE st3)
                  in case WriteMeFirmware e f st5 of (s6, st6) \<Rightarrow>
                       if EFI_ERROR s6 then (1, snd (RestoreSpiClockSpeed e st6))
                       else case restore_loop e f 3 st6 of (s7, Matches, st7) \<Rightarrow>
                              (if EFI_ERROR s7 \<or> \<not> Matches then 1 else 0, snd (RestoreSpiClockSpeed e st7)))"

end
