(* ===== verification/MeRestoreOk.thy ===== *)
theory MeRestoreOk
  imports MeRestore ParallelOk
begin

text \<open>
  What the restoration of the management engine does to the flash. The locale \<open>me_controller\<close> states how the application takes
  the controller to work; \<open>me_machine\<close> is such a controller. On the controller that \<^verbatim>\<open>flashrom/ichspi.c\<close> drives, the
  application never starts a cycle.
\<close>

section \<open>Bytes of the data registers\<close>

lemma le_value_byte: "m < length bs \<Longrightarrow> word_of_nat (le_value bs div 256 ^ m) = bs ! m"
proof (induction bs arbitrary: m)
  case (Cons b bs)
  have b: "unat b < 256" using unsigned_less [of b, where ?'a = nat] by simp
  show ?case
  proof (cases m)
    case 0
    have "(256 :: u8) = 0" by simp
    then have "(word_of_nat (256 * le_value bs) :: u8) = 0" by (simp only: of_nat_mult of_nat_numeral mult_zero_left)
    then show ?thesis using 0 by simp
  next
    case (Suc k)
    have "(unat b + 256 * le_value bs) div 256 ^ Suc k = le_value bs div 256 ^ k"
      using b by (simp add: div_mult2_eq)
    then show ?thesis using Cons Suc by simp
  qed
qed simp

lemma byte_of_nat:
  assumes "x < 2 ^ 32"
  shows "byte_of (word_of_nat x) m = word_of_nat (x div 256 ^ m)"
proof (rule word_eq_iff_unsigned [where ?'a = nat, THEN iffD2])
  have "(256 :: nat) ^ m = (2 ^ 8) ^ m" by simp
  also have "\<dots> = 2 ^ (m * 8)" by (simp only: power_mult [symmetric] mult.commute)
  finally show "unat (byte_of (word_of_nat x) m) = unat (word_of_nat (x div 256 ^ m) :: u8)"
    using assms unfolding byte_of_def unsigned_ucast_eq unsigned_drop_bit_eq unsigned_of_nat
    by (simp add: take_bit_eq_mod drop_bit_eq_div)
qed

lemma byte_of_le_value: "m < length bs \<Longrightarrow> length bs \<le> 4 \<Longrightarrow> byte_of (word_of_nat (le_value bs)) m = bs ! m"
proof -
  assume m: "m < length bs" "length bs \<le> 4"
  have "le_value bs < 256 ^ length bs" by (rule le_value_bound)
  also have "\<dots> \<le> 256 ^ 4" using m(2) by (intro power_increasing) auto
  finally show "byte_of (word_of_nat (le_value bs)) m = bs ! m" using m(1) by (simp add: byte_of_nat le_value_byte)
qed

lemma le_bytes_word: "le_bytes 4 (unat w) = map (byte_of w) [0..<4]"
proof -
  have "le_bytes k x = map (\<lambda>m. word_of_nat (x div 256 ^ m)) [0..<k]" for k x
    by (induction k arbitrary: x) (simp_all add: map_upt_Suc div_mult2_eq del: upt_Suc)
  moreover have "byte_of w m = word_of_nat (unat w div 256 ^ m)" for m
    using byte_of_nat [of "unat w" m] unsigned_less [of w, where ?'a = nat] by simp
  ultimately show ?thesis by simp
qed

lemma bytes_eq: "(\<And>j. j < 4 \<Longrightarrow> byte_of v j = byte_of w j) \<Longrightarrow> v = w"
  using le_bytes_word [of v] le_bytes_word [of w] le_value_le_bytes [of 4 "unat v"] le_value_le_bytes [of 4 "unat w"]
    unsigned_less [of v, where ?'a = nat] unsigned_less [of w, where ?'a = nat]
  by (intro word_eq_iff_unsigned [where ?'a = nat, THEN iffD2]) (simp add: upt_rec)

lemma masked_field: "((x AND NOT m) OR (d AND m)) AND m = d AND (m :: 32 word)" "((x AND NOT m) OR d) AND m = d AND (m :: 32 word)"
  by (rule bit_word_eqI, auto simp: bit_and_iff bit_or_iff bit_not_iff)+

section \<open>Programming twice\<close>

section \<open>The controller as the application takes it\<close>

text \<open>A cycle that starts in \<open>s\<close> ends in \<open>t\<close>: the done bit shows up before the timeout, and no error before it.\<close>

definition ends_in :: "'s regs \<Rightarrow> 's \<Rightarrow> 's \<Rightarrow> bool" where
  "ends_in R s t \<longleftrightarrow>
     (\<exists>k < 10000. t = (default_delay R 100 ^^ k) s \<and> mmio_readl R (SPI_MMIO_BASE + SPI_HSFSTS_CTL) t AND HSFSTS_CTL_FDONE \<noteq> 0 \<and>
        (\<forall>j < k. mmio_readl R (SPI_MMIO_BASE + SPI_HSFSTS_CTL) ((default_delay R 100 ^^ j) s) AND (HSFSTS_CTL_FDONE OR HSFSTS_CTL_FCERR) = 0))"

definition go_value :: "32 word \<Rightarrow> nat \<Rightarrow> 32 word" where
  "go_value cyc n = push_bit HSFSTS_CTL_FCYCLE_SHIFT cyc OR push_bit HSFSTS_CTL_FDBC_SHIFT (word_of_nat (n - 1)) OR HSFSTS_CTL_FGO"

locale me_controller =
  fixes e :: "'s me_env" and ok :: "'s \<Rightarrow> bool" and mem :: "'s \<Rightarrow> bytes" and faddr :: "'s \<Rightarrow> nat" and fdata :: "'s \<Rightarrow> nat \<Rightarrow> u8"
  assumes mem_length: "ok s \<Longrightarrow> length (mem s) = 16777216"
    and idle: "ok s \<Longrightarrow> mmio_readl (me_regs e) (SPI_MMIO_BASE + SPI_HSFSTS_CTL) s AND (HSFSTS_CTL_SCIP OR HSFSTS_CTL_FCERR) = 0"
    and set_addr: "ok s \<Longrightarrow> s' = mmio_writel (me_regs e) (SPI_MMIO_BASE + SPI_FADDR) v s \<Longrightarrow>
      ok s' \<and> mem s' = mem s \<and> faddr s' = unat v"
    and set_data: "ok s \<Longrightarrow> k < 4 \<Longrightarrow> s' = mmio_writel (me_regs e) (SPI_MMIO_BASE + (SPI_FDATA0 + 4 * k)) v s \<Longrightarrow>
      ok s' \<and> mem s' = mem s \<and> faddr s' = faddr s \<and> (\<forall>i < 16. fdata s' i = (if i div 4 = k then byte_of v (i mod 4) else fdata s i))"
    and get_data: "ok s \<Longrightarrow> k < 4 \<Longrightarrow> j < 4 \<Longrightarrow>
      byte_of (mmio_readl (me_regs e) (SPI_MMIO_BASE + (SPI_FDATA0 + 4 * k)) s) j = fdata s (4 * k + j)"
    and other: "ok s \<Longrightarrow> a \<notin> {SPI_MMIO_BASE..<SPI_MMIO_BASE + 0x20} \<Longrightarrow>
      ok (mmio_writel (me_regs e) a v s) \<and> mem (mmio_writel (me_regs e) a v s) = mem s"
    and delay: "ok s \<Longrightarrow> ok (default_delay (me_regs e) us s) \<and> mem (default_delay (me_regs e) us s) = mem s \<and>
      fdata (default_delay (me_regs e) us s) = fdata s"
    and write_cycle: "ok s \<Longrightarrow> 0 < n \<Longrightarrow> n \<le> 16 \<Longrightarrow> faddr s mod 256 + n \<le> 256 \<Longrightarrow> faddr s + n \<le> 16777216 \<Longrightarrow>
      \<exists>t. ends_in (me_regs e) (mmio_writel (me_regs e) (SPI_MMIO_BASE + SPI_HSFSTS_CTL) (go_value HSFSTS_CTL_FCYCLE_WRITE n) s) t \<and>
        ok t \<and> mem t = programmed (mem s) (faddr s) (map (fdata s) [0..<n])"
    and read_cycle: "ok s \<Longrightarrow> 0 < n \<Longrightarrow> n \<le> 16 \<Longrightarrow> faddr s + n \<le> 16777216 \<Longrightarrow>
      \<exists>t. ends_in (me_regs e) (mmio_writel (me_regs e) (SPI_MMIO_BASE + SPI_HSFSTS_CTL) (go_value HSFSTS_CTL_FCYCLE_READ n) s) t \<and>
        ok t \<and> mem t = mem s \<and> (\<forall>i < n. fdata t i = mem s ! (faddr s + i))"
begin

text \<open>The states of the application after \<^verbatim>\<open>MapSpiController\<close>.\<close>

definition good :: "'s me_state \<Rightarrow> bool" where
  "good st \<longleftrightarrow> mSpiMmioBase st = SPI_MMIO_BASE \<and> ok (me_hw st)"

lemma spi_reg_good: "mSpiMmioBase st = SPI_MMIO_BASE \<Longrightarrow> off < 0x1000 \<Longrightarrow> spi_reg st off = SPI_MMIO_BASE + off"
  by (simp add: spi_reg_def SPI_MMIO_BASE_def add64_def)

lemma wait_idle_good: "good st \<Longrightarrow> 0 < k \<Longrightarrow> \<exists>v. wait_idle e k v0 st = (k, v, st) \<and> v AND HSFSTS_CTL_FCERR = 0"
  using idle [of "me_hw st"]
  by (cases k) (auto simp: good_def MmioRead32_def spi_reg_good SPI_HSFSTS_CTL_def bit.conj_disj_distrib or_eq_0_iff)

lemma wait_done_ends:
  assumes "ends_in (me_regs e) (me_hw st) t" and "mSpiMmioBase st = SPI_MMIO_BASE"
  shows "wait_done e 10000 st = (EFI_SUCCESS, st\<lparr>me_hw := t\<rparr>)"
proof -
  have "wait_done e (Suc (k + r)) st = (EFI_SUCCESS, st\<lparr>me_hw := (default_delay (me_regs e) 100 ^^ k) (me_hw st)\<rparr>)"
    if "mmio_readl (me_regs e) (SPI_MMIO_BASE + SPI_HSFSTS_CTL) ((default_delay (me_regs e) 100 ^^ k) (me_hw st)) AND HSFSTS_CTL_FDONE \<noteq> 0"
      "\<forall>j < k. mmio_readl (me_regs e) (SPI_MMIO_BASE + SPI_HSFSTS_CTL) ((default_delay (me_regs e) 100 ^^ j) (me_hw st)) AND (HSFSTS_CTL_FDONE OR HSFSTS_CTL_FCERR) = 0"
      "mSpiMmioBase st = SPI_MMIO_BASE" for k r st
    using that
  proof (induction k arbitrary: st)
    case 0
    then show ?case by (simp add: MmioRead32_def spi_reg_good SPI_HSFSTS_CTL_def)
  next
    case (Suc k)
    have f: "(default_delay (me_regs e) 100 ^^ Suc j) (me_hw st) = (default_delay (me_regs e) 100 ^^ j) (me_hw (Stall e 100 st))" for j
      by (simp add: Stall_def funpow_swap1)
    have "mmio_readl (me_regs e) (SPI_MMIO_BASE + SPI_HSFSTS_CTL) (me_hw st) AND (HSFSTS_CTL_FDONE OR HSFSTS_CTL_FCERR) = 0"
      using Suc.prems(2) by force
    then have "wait_done e (Suc (Suc k + r)) st = wait_done e (Suc (k + r)) (Stall e 100 st)"
      using Suc.prems(3) by (simp add: MmioRead32_def spi_reg_good SPI_HSFSTS_CTL_def bit.conj_disj_distrib or_eq_0_iff)
    also have "\<dots> = (EFI_SUCCESS, (Stall e 100 st)\<lparr>me_hw := (default_delay (me_regs e) 100 ^^ k) (me_hw (Stall e 100 st))\<rparr>)"
      using Suc.prems(2) by (intro Suc.IH) (use Suc.prems(1,3) f in \<open>auto simp: Stall_def funpow_swap1\<close>)
    finally show ?case unfolding f [symmetric] by (simp add: Stall_def)
  qed
  moreover from assms(1) obtain k where k: "k < 10000" "t = (default_delay (me_regs e) 100 ^^ k) (me_hw st)"
      "mmio_readl (me_regs e) (SPI_MMIO_BASE + SPI_HSFSTS_CTL) t AND HSFSTS_CTL_FDONE \<noteq> 0"
      "\<forall>j < k. mmio_readl (me_regs e) (SPI_MMIO_BASE + SPI_HSFSTS_CTL) ((default_delay (me_regs e) 100 ^^ j) (me_hw st)) AND (HSFSTS_CTL_FDONE OR HSFSTS_CTL_FCERR) = 0"
    unfolding ends_in_def by blast
  moreover have "10000 = Suc (k + (9999 - k))" using k(1) by simp
  ultimately show ?thesis using assms(2) by metis
qed

text \<open>Filling and reading the data registers.\<close>

lemma write_fdata_good:
  assumes "good st" and "4 dvd i" and "i + length bs \<le> 16"
  shows "good (write_fdata e bs i st) \<and> mem (me_hw (write_fdata e bs i st)) = mem (me_hw st) \<and>
    faddr (me_hw (write_fdata e bs i st)) = faddr (me_hw st) \<and>
    (\<forall>j < i. fdata (me_hw (write_fdata e bs i st)) j = fdata (me_hw st) j) \<and>
    (\<forall>j < length bs. fdata (me_hw (write_fdata e bs i st)) (i + j) = bs ! j)"
  using assms
proof (induction bs arbitrary: i st rule: measure_induct_rule [of length])
  case (less bs)
  show ?case
  proof (cases bs)
    case (Cons b cs)
    obtain k where k: "i = 4 * k" using less.prems(2) by blast
    then have k4: "k < 4" using less.prems(3) Cons by simp
    define v :: "32 word" where "v = word_of_nat (le_value (take 4 bs))"
    define st1 where "st1 = st\<lparr>me_hw := mmio_writel (me_regs e) (SPI_MMIO_BASE + (SPI_FDATA0 + 4 * k)) v (me_hw st)\<rparr>"
    have reg: "spi_reg st (SPI_FDATA0 + i) = SPI_MMIO_BASE + (SPI_FDATA0 + 4 * k)"
      using less.prems(1) k k4 spi_reg_good [of st "SPI_FDATA0 + i"] by (simp add: good_def SPI_FDATA0_def)
    have st1: "good st1" "mem (me_hw st1) = mem (me_hw st)" "faddr (me_hw st1) = faddr (me_hw st)"
        "\<forall>j < 16. fdata (me_hw st1) j = (if j div 4 = k then byte_of v (j mod 4) else fdata (me_hw st) j)"
      using set_data [OF _ k4 refl, of "me_hw st" v] less.prems(1) by (simp_all add: st1_def good_def)
    have e1: "write_fdata e bs i st = write_fdata e (drop 4 bs) (i + 4) st1"
      unfolding Cons write_fdata.simps MmioWrite32_def reg by (simp add: st1_def v_def Cons)
    have low: "fdata (me_hw st1) j = fdata (me_hw st) j" if "j < i" for j
    proof -
      have "j div 4 < k" using that k by linarith
      then show ?thesis using st1(4) that k k4 by simp
    qed
    have here: "fdata (me_hw st1) (i + j) = bs ! j" if "j < 4" "j < length bs" for j
    proof -
      have "byte_of v j = bs ! j" unfolding v_def using that by (subst byte_of_le_value) auto
      then show ?thesis using st1(4) that k k4 by simp
    qed
    show ?thesis
    proof (cases "length bs \<le> 4")
      case True
      then show ?thesis unfolding e1 using st1 low here by (auto simp: le_eq_less_or_eq)
    next
      case False
      then have IH: "good (write_fdata e bs i st) \<and> mem (me_hw (write_fdata e bs i st)) = mem (me_hw st1) \<and>
          faddr (me_hw (write_fdata e bs i st)) = faddr (me_hw st1) \<and>
          (\<forall>j < i + 4. fdata (me_hw (write_fdata e bs i st)) j = fdata (me_hw st1) j) \<and>
          (\<forall>j < length (drop 4 bs). fdata (me_hw (write_fdata e bs i st)) (i + 4 + j) = drop 4 bs ! j)"
        unfolding e1 using less.prems(2,3) st1(1) by (intro less.IH) auto
      have "fdata (me_hw (write_fdata e bs i st)) (i + j) = bs ! j" if "j < length bs" for j
      proof (cases "j < 4")
        case True
        then show ?thesis using IH here [OF True that] by simp
      next
        case hi: False
        have "fdata (me_hw (write_fdata e bs i st)) (i + 4 + (j - 4)) = drop 4 bs ! (j - 4)"
          using IH that hi by (metis diff_less_mono leI length_drop)
        moreover have "drop 4 bs ! (j - 4) = bs ! j" using hi False by (subst nth_drop) auto
        ultimately show ?thesis using hi by simp
      qed
      then show ?thesis using IH st1 low by simp
    qed
  qed (use less.prems in simp)
qed

lemma read_fdata_good:
  assumes "good st" and "4 dvd i" and "i + n \<le> 16"
  shows "read_fdata e i n st = map (fdata (me_hw st)) [i..<i + n]"
  using assms
proof (induction n arbitrary: i rule: less_induct)
  case (less n)
  show ?case
  proof (cases n)
    case (Suc m)
    obtain k where k: "i = 4 * k" using less.prems(2) by blast
    then have k4: "k < 4" using less.prems(3) Suc by simp
    have reg: "spi_reg st (SPI_FDATA0 + i) = SPI_MMIO_BASE + (SPI_FDATA0 + 4 * k)"
      using less.prems(1) k k4 spi_reg_good [of st "SPI_FDATA0 + i"] by (simp add: good_def SPI_FDATA0_def)
    have b: "map (byte_of (mmio_readl (me_regs e) (SPI_MMIO_BASE + (SPI_FDATA0 + 4 * k)) (me_hw st))) [0..<4] =
        map (fdata (me_hw st)) [i..<i + 4]"
      by (rule nth_equalityI) (use get_data [OF _ k4, of "me_hw st"] less.prems(1) k in \<open>auto simp: good_def\<close>)
    have "read_fdata e i n st = take n (map (fdata (me_hw st)) [i..<i + 4]) @ read_fdata e (i + 4) (n - 4) st"
      unfolding Suc read_fdata.simps le_bytes_word MmioRead32_def reg b by simp
    also have "read_fdata e (i + 4) (n - 4) st = map (fdata (me_hw st)) [i + 4..<i + 4 + (n - 4)]"
    proof (cases "n \<le> 4")
      case False
      then show ?thesis using less.prems Suc by (intro less.IH) auto
    qed simp
    also have "take n (map (fdata (me_hw st)) [i..<i + 4]) @ map (fdata (me_hw st)) [i + 4..<i + 4 + (n - 4)] =
        map (fdata (me_hw st)) [i..<i + n]"
      by (rule nth_equalityI) (auto simp: nth_append min_def simp del: upt_Suc)
    finally show ?thesis .
  qed simp
qed

text \<open>One cycle.\<close>

lemma run_cycle_good:
  assumes g: "good st" and d: "length bs \<le> 16"
    and cyc: "\<And>s. ok s \<Longrightarrow> faddr s = unat a \<Longrightarrow> mem s = mem (me_hw st) \<Longrightarrow> (\<forall>j < length bs. fdata s j = bs ! j) \<Longrightarrow>
      \<exists>t. ends_in (me_regs e) (mmio_writel (me_regs e) (SPI_MMIO_BASE + SPI_HSFSTS_CTL) (go_value c n) s) t \<and> ok t \<and> P t"
  shows "\<exists>st'. run_cycle e c a bs n st = (EFI_SUCCESS, st') \<and> good st' \<and> P (me_hw st')"
proof -
  obtain v where v: "wait_idle e 1000 0 st = (1000, v, st)" "v AND HSFSTS_CTL_FCERR = 0" using wait_idle_good [OF g, of 1000 0] by auto
  define st3 where "st3 = MmioWrite32 e (SPI_MMIO_BASE + SPI_FADDR) a st"
  have r3: "spi_reg st SPI_FADDR = SPI_MMIO_BASE + SPI_FADDR"
    using g by (simp add: good_def spi_reg_good SPI_FADDR_def)
  have st3: "good st3" "mem (me_hw st3) = mem (me_hw st)" "faddr (me_hw st3) = unat a"
    using set_addr [OF _ refl, of "me_hw st" a] g by (simp_all add: st3_def good_def MmioWrite32_def)
  define st4 where "st4 = write_fdata e bs 0 st3"
  have st4: "good st4" "mem (me_hw st4) = mem (me_hw st)" "faddr (me_hw st4) = unat a" "\<forall>j < length bs. fdata (me_hw st4) j = bs ! j"
    using write_fdata_good [OF st3(1), of 0 bs] st3(2,3) d by (simp_all add: st4_def)
  have r4: "spi_reg st4 SPI_HSFSTS_CTL = SPI_MMIO_BASE + SPI_HSFSTS_CTL"
    using st4(1) by (simp add: good_def spi_reg_good SPI_HSFSTS_CTL_def)
  obtain t where t: "ends_in (me_regs e) (mmio_writel (me_regs e) (SPI_MMIO_BASE + SPI_HSFSTS_CTL) (go_value c n) (me_hw st4)) t" "ok t" "P t"
    using cyc [of "me_hw st4"] st4 by (auto simp: good_def)
  define st5 where "st5 = MmioWrite32 e (SPI_MMIO_BASE + SPI_HSFSTS_CTL) (go_value c n) st4"
  have "wait_done e 10000 st5 = (EFI_SUCCESS, st5\<lparr>me_hw := t\<rparr>)"
    by (rule wait_done_ends) (use t(1) st4(1) in \<open>simp_all add: st5_def MmioWrite32_def good_def\<close>)
  moreover have "run_cycle e c a bs n st = wait_done e 10000 st5"
    by (simp add: run_cycle_def v Let_def r3 r4 st3_def [symmetric] st4_def [symmetric] go_value_def st5_def)
  moreover have "good (st5\<lparr>me_hw := t\<rparr>)" using t(2) st4(1) by (simp add: good_def st5_def MmioWrite32_def)
  ultimately show ?thesis using t(3) by auto
qed

lemma WriteSpiChunk_good:
  assumes "good st" and "0 < length bs" "length bs \<le> 16" and "x mod 256 + length bs \<le> 256" and "x + length bs \<le> 16777216"
  shows "\<exists>st'. WriteSpiChunk e (word_of_nat x) bs st = (EFI_SUCCESS, st') \<and> good st' \<and>
    mem (me_hw st') = programmed (mem (me_hw st)) x bs"
proof -
  have x: "unat (word_of_nat x :: 32 word) = x" using assms(5) by (simp add: unsigned_of_nat take_bit_eq_mod)
  have "mSpiMmioBase st \<noteq> 0" using assms(1) by (simp add: good_def SPI_MMIO_BASE_def)
  then have e: "WriteSpiChunk e (word_of_nat x) bs st = run_cycle e HSFSTS_CTL_FCYCLE_WRITE (word_of_nat x) bs (length bs) st"
    using assms(2,3) by (simp add: WriteSpiChunk_def)
  show ?thesis unfolding e
  proof (rule run_cycle_good [OF assms(1,3)])
    fix s assume s: "ok s" "faddr s = unat (word_of_nat x :: 32 word)" "mem s = mem (me_hw st)" "\<forall>j < length bs. fdata s j = bs ! j"
    have "map (fdata s) [0..<length bs] = bs" using s(4) by (auto intro: nth_equalityI)
    then show "\<exists>t. ends_in (me_regs e) (mmio_writel (me_regs e) (SPI_MMIO_BASE + SPI_HSFSTS_CTL) (go_value HSFSTS_CTL_FCYCLE_WRITE (length bs)) s) t \<and>
        ok t \<and> mem t = programmed (mem (me_hw st)) x bs"
      using write_cycle [OF s(1) assms(2,3)] assms(4,5) s(2,3) x by simp
  qed
qed

lemma ReadSpiChunk_good:
  assumes "good st" and "0 < n" "n \<le> 16" and "x + n \<le> 16777216"
  shows "\<exists>st'. ReadSpiChunk e (word_of_nat x) n st = (EFI_SUCCESS, bslice x n (mem (me_hw st)), st') \<and> good st' \<and> mem (me_hw st') = mem (me_hw st)"
proof -
  have x: "unat (word_of_nat x :: 32 word) = x" using assms(4) by (simp add: unsigned_of_nat take_bit_eq_mod)
  have base: "mSpiMmioBase st \<noteq> 0" using assms(1) by (simp add: good_def SPI_MMIO_BASE_def)
  have "\<exists>st'. run_cycle e HSFSTS_CTL_FCYCLE_READ (word_of_nat x) [] n st = (EFI_SUCCESS, st') \<and> good st' \<and>
      (mem (me_hw st') = mem (me_hw st) \<and> (\<forall>i < n. fdata (me_hw st') i = mem (me_hw st) ! (x + i)))"
  proof (rule run_cycle_good [OF assms(1)])
    fix s assume s: "ok s" "faddr s = unat (word_of_nat x :: 32 word)" "mem s = mem (me_hw st)"
    then show "\<exists>t. ends_in (me_regs e) (mmio_writel (me_regs e) (SPI_MMIO_BASE + SPI_HSFSTS_CTL) (go_value HSFSTS_CTL_FCYCLE_READ n) s) t \<and>
        ok t \<and> mem t = mem (me_hw st) \<and> (\<forall>i < n. fdata t i = mem (me_hw st) ! (x + i))"
      using read_cycle [OF s(1) assms(2,3)] assms(4) x by simp
  qed simp
  then obtain st' where st': "run_cycle e HSFSTS_CTL_FCYCLE_READ (word_of_nat x) [] n st = (EFI_SUCCESS, st')" "good st'"
      "mem (me_hw st') = mem (me_hw st)" "\<forall>i < n. fdata (me_hw st') i = mem (me_hw st) ! (x + i)" by blast
  have "read_fdata e 0 n st' = bslice x n (mem (me_hw st))"
    by (rule nth_equalityI) (use st'(4) read_fdata_good [OF st'(2), of 0 n] assms(1,3,4) mem_length [of "me_hw st"] in
        \<open>auto simp: good_def nth_bslice\<close>)
  then show ?thesis using st' base assms(2,3) by (simp add: ReadSpiChunk_def)
qed

section \<open>Chunks\<close>

lemma write_pieces_good:
  assumes "good st" and "16 dvd x" and "x + length bs \<le> 16777216"
  shows "\<exists>st'. write_pieces e x bs st = (EFI_SUCCESS, st') \<and> good st' \<and> mem (me_hw st') = programmed (mem (me_hw st)) x bs"
  using assms
proof (induction bs arbitrary: x st rule: measure_induct_rule [of length])
  case (less bs)
  show ?case
  proof (cases "bs = []")
    case True
    then show ?thesis using less.prems(1) by (simp add: write_pieces.simps)
  next
    case False
    obtain y where y: "x = 16 * y" using less.prems(2) by blast
    have "x mod 256 = 16 * (y mod 16)" using y mod_mult_mult1 [of 16 y 16] by simp
    moreover have "y mod 16 < 16" by simp
    ultimately have al: "x mod 256 + 16 \<le> 256" by linarith
    have "x mod 256 + min (length bs) 16 \<le> 256" "x + min (length bs) 16 \<le> 16777216" using al less.prems(3) by linarith+
    then obtain st1 where st1: "WriteSpiChunk e (word_of_nat x) (take 16 bs) st = (EFI_SUCCESS, st1)" "good st1"
        "mem (me_hw st1) = programmed (mem (me_hw st)) x (take 16 bs)"
      using WriteSpiChunk_good [OF less.prems(1), of "take 16 bs" x] False by auto
    have e1: "write_pieces e x bs st = write_pieces e (x + 16) (drop 16 bs) st1"
      using False by (subst write_pieces.simps) (simp add: st1(1) EFI_ERROR_def)
    show ?thesis
    proof (cases "length bs \<le> 16")
      case True
      then show ?thesis unfolding e1 using st1 by (simp add: write_pieces.simps)
    next
      case False
      then have "length (drop 16 bs) < length bs" by simp
      then obtain st' where "write_pieces e (x + 16) (drop 16 bs) st1 = (EFI_SUCCESS, st')" "good st'"
          "mem (me_hw st') = programmed (mem (me_hw st1)) (x + 16) (drop 16 bs)"
        using less.IH [of "drop 16 bs" st1 "x + 16"] st1(2) less.prems(2,3) False by auto
      then show ?thesis unfolding e1
        using st1(3) programmed_append [of "mem (me_hw st)" x "take 16 bs" "drop 16 bs"] False by simp
    qed
  qed
qed

lemma read_pieces_good:
  assumes "good st" and "x + n \<le> 16777216"
  shows "\<exists>st'. read_pieces e x n acc st = (EFI_SUCCESS, acc @ bslice x n (mem (me_hw st)), st') \<and> good st' \<and> mem (me_hw st') = mem (me_hw st)"
  using assms
proof (induction n arbitrary: x acc st rule: less_induct)
  case (less n)
  show ?case
  proof (cases "n = 0")
    case True
    then show ?thesis using less.prems(1) by (simp add: read_pieces.simps)
  next
    case False
    have "x + min n 16 \<le> 16777216" using less.prems(2) by linarith
    then obtain st1 where st1: "ReadSpiChunk e (word_of_nat x) (min n 16) st = (EFI_SUCCESS, bslice x (min n 16) (mem (me_hw st)), st1)" "good st1"
        "mem (me_hw st1) = mem (me_hw st)"
      using ReadSpiChunk_good [OF less.prems(1), of "min n 16" x] False less.prems(2) by auto
    have e1: "read_pieces e x n acc st = read_pieces e (x + 16) (n - 16) (acc @ bslice x (min n 16) (mem (me_hw st))) st1"
      using False by (subst read_pieces.simps) (simp add: st1(1) EFI_ERROR_def)
    show ?thesis
    proof (cases "n \<le> 16")
      case True
      then show ?thesis unfolding e1 using st1 by (simp add: read_pieces.simps min_def)
    next
      case False
      have "bslice x 16 m @ bslice (x + 16) (n - 16) m = bslice x n m" for m :: bytes
        using take_add [of 16 "n - 16" "drop x m"] False by (simp add: bslice_def add.commute)
      then show ?thesis unfolding e1
        using less.IH [of "n - 16" st1 "x + 16" "acc @ bslice x 16 (mem (me_hw st))"] st1(2,3) less.prems(2) False by (simp add: min_def)
    qed
  qed
qed

end

text \<open>A readable file with the contents \<open>img\<close>.\<close>

definition file_of :: "bytes \<Rightarrow> me_file" where
  "file_of img = \<lparr>mf_size = (EFI_SUCCESS, length img), mf_seek = \<lambda>p. EFI_SUCCESS, mf_read = \<lambda>p n. (EFI_SUCCESS, bslice p n img)\<rparr>"

text \<open>The part of a dump that the application writes.\<close>

definition me_part :: "bytes \<Rightarrow> bytes" where
  "me_part img = take ME_FIRMWARE_SIZE img"

lemma chunk_size_eq: "chunk_size (length img) off = min (length (me_part img) - off) 256"
  by (auto simp: chunk_size_def me_part_def ME_CHUNK_SIZE_def min_def)

lemma me_size: "ME_FIRMWARE_SIZE = 0xDA2000" "ME_FIRMWARE_START = 0x126000" "length (me_part img) \<le> 0xDA2000"
  by (simp_all add: ME_FIRMWARE_SIZE_def ME_FIRMWARE_START_def ME_FIRMWARE_END_def me_part_def)

lemma drop_split: "drop off xs = bslice off 256 xs @ drop (off + 256) xs"
  using append_take_drop_id [of 256 "drop off xs"] by (simp add: bslice_def add.commute)

lemma chunk_size_fits: "min (chunk_size (length img) off) (length img - off) = chunk_size (length img) off"
  by (simp add: chunk_size_def)

lemma read_chunk: "bslice off (chunk_size (length img) off) img = bslice off 256 (me_part img)"
proof -
  have "take (min k (length xs)) xs = take k xs" for k and xs :: bytes by (simp add: min_def)
  from this [of "min (ME_FIRMWARE_SIZE - off) 256" "drop off img"] show ?thesis
    by (simp add: bslice_def chunk_size_def me_part_def ME_CHUNK_SIZE_def drop_take min.commute)
qed

text \<open>The flash \<open>m\<close> can take the dump without an erase: no bit has to change from 0 to 1.\<close>

definition fits_unerased :: "bytes \<Rightarrow> bytes \<Rightarrow> bool" where
  "fits_unerased m img \<longleftrightarrow> list_all (\<lambda>i. m ! (ME_FIRMWARE_START + i) AND me_part img ! i = me_part img ! i) [0..<length (me_part img)]"

lemma programmed_matches:
  assumes "length m = 16777216"
  shows "bslice ME_FIRMWARE_START (length (me_part img)) (programmed m ME_FIRMWARE_START (me_part img)) = me_part img \<longleftrightarrow> fits_unerased m img"
proof -
  have fit: "ME_FIRMWARE_START + length (me_part img) \<le> length m" using me_size(3) [of img] assms by (simp add: me_size(2))
  have nth: "bslice ME_FIRMWARE_START (length (me_part img)) (programmed m ME_FIRMWARE_START (me_part img)) ! i =
      m ! (ME_FIRMWARE_START + i) AND me_part img ! i" if "i < length (me_part img)" for i
    using that fit by (simp add: nth_bslice nth_programmed)
  define l where "l = bslice ME_FIRMWARE_START (length (me_part img)) (programmed m ME_FIRMWARE_START (me_part img))"
  have "length l = length (me_part img)" using fit by (simp add: l_def)
  then have "l = me_part img \<longleftrightarrow> (\<forall>i < length (me_part img). l ! i = me_part img ! i)" by (subst list_eq_iff_nth_eq) simp
  also have "\<dots> \<longleftrightarrow> fits_unerased m img" using nth by (simp add: l_def fits_unerased_def list_all_iff Ball_def)
  finally show ?thesis by (simp only: l_def)
qed

context me_controller
begin

lemma write_chunks_good:
  assumes "good st" and "256 dvd off"
  shows "\<exists>st'. write_chunks e (file_of img) (length img) off st = (EFI_SUCCESS, st') \<and> good st' \<and>
    mem (me_hw st') = programmed (mem (me_hw st)) (ME_FIRMWARE_START + off) (drop off (me_part img))"
  using assms
proof (induction "ME_FIRMWARE_SIZE - off" arbitrary: off st rule: less_induct)
  case less
  show ?case
  proof (cases "off < ME_FIRMWARE_SIZE \<and> off < length img")
    case False
    then show ?thesis using less.prems(1) by (subst write_chunks.simps) (auto simp: me_part_def)
  next
    case True
    let ?bs = "bslice off 256 (me_part img)"
    have len: "length ?bs = chunk_size (length img) off" by (simp add: chunk_size_eq min.commute)
    have "ME_FIRMWARE_START + off + length ?bs \<le> 16777216" "16 dvd ME_FIRMWARE_START + off"
      using me_size(3) [of img] True less.prems(2) dvd_trans [of 16 256 off] by (auto simp: me_size(1,2))
    then obtain st1 where st1: "write_pieces e (ME_FIRMWARE_START + off) ?bs st = (EFI_SUCCESS, st1)" "good st1"
        "mem (me_hw st1) = programmed (mem (me_hw st)) (ME_FIRMWARE_START + off) ?bs"
      using write_pieces_good [OF less.prems(1)] by blast
    have e1: "write_chunks e (file_of img) (length img) off st = write_chunks e (file_of img) (length img) (off + 256) st1"
      using True len st1(1) by (subst write_chunks.simps) (simp add: file_of_def chunk_size_fits read_chunk EFI_ERROR_def ME_CHUNK_SIZE_def Let_def)
    have "ME_FIRMWARE_SIZE - (off + 256) < ME_FIRMWARE_SIZE - off" using True by linarith
    then obtain st' where st': "write_chunks e (file_of img) (length img) (off + 256) st1 = (EFI_SUCCESS, st')" "good st'"
        "mem (me_hw st') = programmed (mem (me_hw st1)) (ME_FIRMWARE_START + (off + 256)) (drop (off + 256) (me_part img))"
      using less.hyps [of "off + 256" st1] True st1(2) less.prems(2) by auto
    have split: "drop off (me_part img) = ?bs @ drop (off + 256) (me_part img)"
      by (rule drop_split)
    have "mem (me_hw st') = programmed (mem (me_hw st)) (ME_FIRMWARE_START + off) (drop off (me_part img))"
    proof (cases "off + 256 \<le> length (me_part img)")
      case True
      then have "length ?bs = 256" by simp
      then show ?thesis unfolding split st'(3) st1(3)
        using programmed_append [of "mem (me_hw st)" "ME_FIRMWARE_START + off" ?bs] by (simp add: add.assoc)
    next
      case False
      then show ?thesis unfolding split st'(3) st1(3) by simp
    qed
    then show ?thesis using e1 st'(1,2) by auto
  qed
qed

lemma WriteMeFirmware_good:
  assumes "good st" and "me_alloc e"
  shows "\<exists>st'. WriteMeFirmware e (file_of img) st = (EFI_SUCCESS, st') \<and> good st' \<and>
    mem (me_hw st') = programmed (mem (me_hw st)) ME_FIRMWARE_START (me_part img)"
  using write_chunks_good [OF assms(1), of 0 img] assms(2) by (simp add: WriteMeFirmware_def file_of_def EFI_ERROR_def)

text \<open>The bytes of the flash that are compared with the chunks from \<open>off\<close> on.\<close>

lemma verify_chunks_good:
  assumes "good st" and "256 dvd off"
  shows "\<exists>k st'. verify_chunks e (file_of img) (length img) off m st = (EFI_SUCCESS, m + k, st') \<and> good st' \<and>
    mem (me_hw st') = mem (me_hw st) \<and>
    (k = 0 \<longleftrightarrow> bslice (ME_FIRMWARE_START + off) (length (me_part img) - off) (mem (me_hw st)) = drop off (me_part img))"
  using assms
proof (induction "ME_FIRMWARE_SIZE - off" arbitrary: off m st rule: less_induct)
  case less
  show ?case
  proof (cases "off < ME_FIRMWARE_SIZE \<and> off < length img")
    case False
    then show ?thesis using less.prems(1) by (subst verify_chunks.simps) (auto simp: me_part_def)
  next
    case True
    let ?bs = "bslice off 256 (me_part img)" and ?n = "chunk_size (length img) off" and ?mem = "mem (me_hw st)"
    let ?fs = "bslice (ME_FIRMWARE_START + off) ?n ?mem"
    have len: "length ?bs = ?n" by (simp add: chunk_size_eq min.commute)
    have fit: "ME_FIRMWARE_START + length (me_part img) \<le> 16777216" using me_size(3) [of img] by (simp add: me_size(2))
    have "?n \<le> length (me_part img) - off" "off < length (me_part img)" using True by (auto simp: chunk_size_eq me_part_def)
    then have n: "ME_FIRMWARE_START + off + ?n \<le> 16777216" using fit by linarith
    have lenf: "length ?fs = ?n" using n mem_length [of "me_hw st"] less.prems(1) by (simp add: good_def)
    obtain st1 where st1: "read_pieces e (ME_FIRMWARE_START + off) ?n [] st = (EFI_SUCCESS, ?fs, st1)" "good st1" "mem (me_hw st1) = ?mem"
      using read_pieces_good [OF less.prems(1) n, of "[]"] by auto
    define d where "d = length (filter (\<lambda>(a, b). a \<noteq> b) (zip ?bs ?fs))"
    have "d = 0 \<longleftrightarrow> list_all2 (=) ?bs ?fs"
      using len lenf by (auto simp: d_def filter_empty_conv list_all2_iff)
    then have d: "d = 0 \<longleftrightarrow> ?bs = ?fs" by (simp add: list.rel_eq)
    have e1: "verify_chunks e (file_of img) (length img) off m st = verify_chunks e (file_of img) (length img) (off + 256) (m + d) st1"
      using True len st1(1) by (subst verify_chunks.simps) (simp add: file_of_def chunk_size_fits read_chunk EFI_ERROR_def ME_CHUNK_SIZE_def Let_def d_def)
    have "ME_FIRMWARE_SIZE - (off + 256) < ME_FIRMWARE_SIZE - off" using True by linarith
    then obtain k st' where st': "verify_chunks e (file_of img) (length img) (off + 256) (m + d) st1 = (EFI_SUCCESS, m + d + k, st')" "good st'"
        "mem (me_hw st') = ?mem"
        "k = 0 \<longleftrightarrow> bslice (ME_FIRMWARE_START + (off + 256)) (length (me_part img) - (off + 256)) ?mem = drop (off + 256) (me_part img)"
      using less.hyps [of "off + 256" st1 "m + d"] True st1(2,3) less.prems(2) by auto
    have split: "drop off (me_part img) = ?bs @ drop (off + 256) (me_part img)"
      by (rule drop_split)
    have split2: "bslice (ME_FIRMWARE_START + off) (length (me_part img) - off) ?mem =
        ?fs @ bslice (ME_FIRMWARE_START + (off + 256)) (length (me_part img) - (off + 256)) ?mem"
    proof (cases "off + 256 \<le> length (me_part img)")
      case True
      then have "?n = 256" by (simp add: chunk_size_eq)
      then show ?thesis
        using take_add [of 256 "length (me_part img) - (off + 256)" "drop (ME_FIRMWARE_START + off) ?mem"] True
        by (simp add: bslice_def add.assoc add.commute)
    next
      case False
      then show ?thesis by (simp add: chunk_size_eq)
    qed
    have "d + k = 0 \<longleftrightarrow> bslice (ME_FIRMWARE_START + off) (length (me_part img) - off) ?mem = drop off (me_part img)"
      unfolding split split2 using d st'(4) len lenf by (auto simp: append_eq_append_conv)
    then show ?thesis using e1 st'(1-3) by (intro exI [of _ "d + k"] exI [of _ st']) (simp add: add.assoc)
  qed
qed

lemma VerifyMeFirmware_good:
  assumes "good st" and "me_alloc_file e" "me_alloc_flash e"
  shows "\<exists>st'. VerifyMeFirmware e (file_of img) st =
      (EFI_SUCCESS, bslice ME_FIRMWARE_START (length (me_part img)) (mem (me_hw st)) = me_part img, st') \<and> good st' \<and>
    mem (me_hw st') = mem (me_hw st)"
proof -
  obtain k st' where "verify_chunks e (file_of img) (length img) 0 0 st = (EFI_SUCCESS, k, st')" "good st'" "mem (me_hw st') = mem (me_hw st)"
      "k = 0 \<longleftrightarrow> bslice ME_FIRMWARE_START (length (me_part img)) (mem (me_hw st)) = me_part img"
    using verify_chunks_good [OF assms(1), of 0 img 0] by auto
  then show ?thesis using assms(2,3) by (simp add: VerifyMeFirmware_def file_of_def EFI_ERROR_def)
qed

section \<open>The application\<close>

text \<open>Writes outside the registers of a cycle, and waits, do not touch the flash.\<close>

lemma poke_good: "good st \<Longrightarrow> a \<notin> {SPI_MMIO_BASE..<SPI_MMIO_BASE + 0x20} \<Longrightarrow> good (poke e a v st) \<and> mem (me_hw (poke e a v st)) = mem (me_hw st)"
  using other [of "me_hw st" a v] delay [of "mmio_writel (me_regs e) a v (me_hw st)" 100000]
  by (simp add: good_def poke_def Stall_def MmioWrite32_def)

lemma stall_write_good:
  "good st \<Longrightarrow> a \<notin> {SPI_MMIO_BASE..<SPI_MMIO_BASE + 0x20} \<Longrightarrow>
    good (Stall e us (MmioWrite32 e a v st)) \<and> mem (me_hw (Stall e us (MmioWrite32 e a v st))) = mem (me_hw st)"
  using other [of "me_hw st" a v] delay [of "mmio_writel (me_regs e) a v (me_hw st)" us]
  by (simp add: good_def Stall_def MmioWrite32_def)

lemma pokes_good:
  "good st \<Longrightarrow> \<forall>(a, v) \<in> set xs. a \<notin> {SPI_MMIO_BASE..<SPI_MMIO_BASE + 0x20} \<Longrightarrow>
    good (fold (\<lambda>(a, v). poke e a v) xs st) \<and> mem (me_hw (fold (\<lambda>(a, v). poke e a v) xs st)) = mem (me_hw st)"
  by (induction xs arbitrary: st) (auto simp: poke_good)

lemmas far_registers = VSEC_ENG_MODE_def VSEC_DEBUG_CTRL_def VSEC_FUSE_OVERRIDE_def VSEC_SECURITY_BYPASS_def VSEC_CTRL_REG_def
  VSEC_FEAT_UNLOCK_def VSEC_ME_CONTROL_def VSEC_CSME_BYPASS_def HECI_MMIO_BASE_def HECI_HFSTS1_def SPI_MMIO_BASE_def SPI_FRAP_def

lemma UnlockMeProtection_good:
  assumes "good st"
  shows "good (snd (UnlockMeProtection e st)) \<and> mem (me_hw (snd (UnlockMeProtection e st))) = mem (me_hw st)"
proof -
  define xs :: "(nat \<times> 32 word) list" where "xs = [(VSEC_ENG_MODE, 0xA00A00A0), (VSEC_DEBUG_CTRL, 0xFFFFFFFF), (VSEC_FUSE_OVERRIDE, 0xFFFFFFFF),
             (VSEC_SECURITY_BYPASS, 0xFFFFFFFF), (VSEC_CTRL_REG, 0x0000007F), (VSEC_FEAT_UNLOCK, 0xFFFFFFFF),
             (VSEC_CSME_BYPASS, 0xFFFFFFFF)]"
  define st1 where "st1 = fold (\<lambda>(a, v). poke e a v) xs st"
  have 1: "good st1 \<and> mem (me_hw st1) = mem (me_hw st)"
    unfolding st1_def by (rule pokes_good [OF assms]) (simp add: xs_def far_registers)
  define st2 where "st2 = poke e VSEC_ME_CONTROL 0xFFFFFFFF st1"
  have 2: "good st2 \<and> mem (me_hw st2) = mem (me_hw st)"
    using poke_good [of st1 VSEC_ME_CONTROL "0xFFFFFFFF"] 1 by (simp add: st2_def far_registers)
  define st3 where "st3 = Stall e 10000 (MmioWrite32 e (HECI_MMIO_BASE + 0x10) 0x85FF st2)"
  have 3: "good st3 \<and> mem (me_hw st3) = mem (me_hw st)"
    using stall_write_good [of st2 "HECI_MMIO_BASE + 0x10" 10000 "0x85FF"] 2 by (simp add: st3_def far_registers)
  have 4: "good (poke e (HECI_MMIO_BASE + 0x14) 0x80000001 st3) \<and> mem (me_hw (poke e (HECI_MMIO_BASE + 0x14) 0x80000001 st3)) = mem (me_hw st)"
    using poke_good [of st3 "HECI_MMIO_BASE + 0x14" "0x80000001"] 3 by (simp add: far_registers)
  have "snd (UnlockMeProtection e st) \<in> {st1, st2, poke e (HECI_MMIO_BASE + 0x14) 0x80000001 st3}"
    unfolding UnlockMeProtection_def Let_def xs_def [symmetric] st1_def [symmetric] st2_def [symmetric] st3_def [symmetric] by simp
  then show ?thesis using 1 2 4 by auto
qed

lemma DisableWriteProtection_good:
  assumes "good st"
  shows "good (snd (DisableWriteProtection e st)) \<and> mem (me_hw (snd (DisableWriteProtection e st))) = mem (me_hw st)"
proof -
  have frap: "spi_reg t SPI_FRAP = SPI_MMIO_BASE + SPI_FRAP" if "good t" for t
    using that by (simp add: good_def spi_reg_good SPI_FRAP_def)
  have p: "good (poke e (SPI_MMIO_BASE + SPI_FRAP) v t) \<and> mem (me_hw (poke e (SPI_MMIO_BASE + SPI_FRAP) v t)) = mem (me_hw t)"
    if "good t" for v t using poke_good [OF that] by (simp add: SPI_FRAP_def)
  have q: "good (poke e VSEC_ME_CONTROL 0x00000001 (poke e VSEC_CSME_BYPASS 0xFFFFFFFF t)) \<and>
      mem (me_hw (poke e VSEC_ME_CONTROL 0x00000001 (poke e VSEC_CSME_BYPASS 0xFFFFFFFF t))) = mem (me_hw t)" if "good t" for t
    using poke_good [OF that, of VSEC_CSME_BYPASS "0xFFFFFFFF"] poke_good [of "poke e VSEC_CSME_BYPASS 0xFFFFFFFF t" VSEC_ME_CONTROL 1]
    by (simp add: far_registers)
  have base: "mSpiMmioBase st \<noteq> 0" using assms by (simp add: good_def SPI_MMIO_BASE_def)
  show ?thesis
    using base assms p [OF assms] p [OF conjunct1 [OF q [OF conjunct1 [OF p [OF assms]]]]] q [OF conjunct1 [OF p [OF assms]]]
      frap [OF assms] frap [OF conjunct1 [OF p [OF assms]]]
    by (simp add: DisableWriteProtection_def Let_def)
qed

text \<open>The clock divider is looked for in the first data register, and found there.\<close>

lemma clock_write_good:
  fixes v :: "32 word"
  assumes "good st"
  defines "st' \<equiv> MmioWrite32 e (SPI_MMIO_BASE + SPI_CLOCK_CTL) v st"
  shows "good st' \<and> mem (me_hw st') = mem (me_hw st) \<and> good (Stall e us st') \<and> mem (me_hw (Stall e us st')) = mem (me_hw st) \<and>
    MmioRead32 e (SPI_MMIO_BASE + SPI_CLOCK_CTL) (Stall e us st') = v"
proof -
  define s1 where "s1 = mmio_writel (me_regs e) (SPI_MMIO_BASE + SPI_CLOCK_CTL) v (me_hw st)"
  have s1: "ok s1" "mem s1 = mem (me_hw st)" "\<forall>i < 16. fdata s1 i = (if i div 4 = 0 then byte_of v (i mod 4) else fdata (me_hw st) i)"
    using set_data [of "me_hw st" 0 s1 v] assms(1) by (simp_all add: s1_def good_def SPI_CLOCK_CTL_def SPI_FDATA0_def)
  note d = delay [OF s1(1), of us]
  have "mmio_readl (me_regs e) (SPI_MMIO_BASE + SPI_CLOCK_CTL) (default_delay (me_regs e) us s1) = v"
    by (rule bytes_eq) (use get_data [of "default_delay (me_regs e) us s1" 0] d s1(3) in \<open>simp add: SPI_CLOCK_CTL_def SPI_FDATA0_def\<close>)
  then show ?thesis
    using s1 d assms(1) by (simp add: st'_def good_def MmioWrite32_def Stall_def MmioRead32_def s1_def)
qed

lemma clock_reg: "good st \<Longrightarrow> spi_reg st SPI_CLOCK_CTL = SPI_MMIO_BASE + SPI_CLOCK_CTL"
  by (simp add: good_def spi_reg_good SPI_CLOCK_CTL_def)

lemma ProbeSpiClockControl_good:
  assumes "good st"
  shows "\<exists>st'. ProbeSpiClockControl e st = (EFI_SUCCESS, (SPI_CLOCK_CTL, SPI_CLOCK_DIV_MASK), st') \<and> good st' \<and> mem (me_hw st') = mem (me_hw st)"
proof -
  obtain v where v: "wait_idle e 1000 (MmioRead32 e (spi_reg st SPI_HSFSTS_CTL) st) st = (1000, v, st)"
    using wait_idle_good [OF assms, of 1000] by auto
  define x where "x = MmioRead32 e (SPI_MMIO_BASE + SPI_CLOCK_CTL) st"
  define st1 where "st1 = Stall e 1000 (MmioWrite32 e (SPI_MMIO_BASE + SPI_CLOCK_CTL) ((x AND NOT SPI_CLOCK_DIV_MASK) OR SPI_CLOCK_DIV_8) st)"
  have st1: "good st1" "mem (me_hw st1) = mem (me_hw st)"
      "MmioRead32 e (SPI_MMIO_BASE + SPI_CLOCK_CTL) st1 = (x AND NOT SPI_CLOCK_DIV_MASK) OR SPI_CLOCK_DIV_8"
    using clock_write_good [OF assms] by (simp_all add: st1_def)
  define st2 where "st2 = MmioWrite32 e (SPI_MMIO_BASE + SPI_CLOCK_CTL) x st1"
  have "probe_clock_at e SPI_CLOCK_CTL SPI_CLOCK_DIV_MASK SPI_CLOCK_DIV_8 x st = (True, st2)"
    by (simp add: probe_clock_at_def Let_def clock_reg assms st1_def [symmetric] st1(3) masked_field st2_def)
  moreover have "good st2 \<and> mem (me_hw st2) = mem (me_hw st)" using clock_write_good [OF st1(1)] st1(2) by (simp add: st2_def)
  moreover have "mSpiMmioBase st \<noteq> 0" using assms by (simp add: good_def SPI_MMIO_BASE_def)
  ultimately show ?thesis
    using v by (simp add: ProbeSpiClockControl_def Let_def clock_reg assms x_def)
qed

lemma SetSpiClockSpeed_good:
  assumes "good st"
  shows "good (snd (SetSpiClockSpeed e d st)) \<and> mem (me_hw (snd (SetSpiClockSpeed e d st))) = mem (me_hw st)"
proof -
  have base: "mSpiMmioBase st \<noteq> 0" using assms by (simp add: good_def SPI_MMIO_BASE_def)
  obtain st1 where st1: "ProbeSpiClockControl e st = (EFI_SUCCESS, (SPI_CLOCK_CTL, SPI_CLOCK_DIV_MASK), st1)" "good st1"
      "mem (me_hw st1) = mem (me_hw st)" using ProbeSpiClockControl_good [OF assms] by blast
  define x where "x = MmioRead32 e (SPI_MMIO_BASE + SPI_CLOCK_CTL) st1"
  define st2 where "st2 = st1\<lparr>mOriginalSpiClock := x AND SPI_CLOCK_DIV_MASK\<rparr>"
  have g2: "good st2" "mem (me_hw st2) = mem (me_hw st)" using st1(2,3) by (simp_all add: st2_def good_def)
  obtain v where v: "wait_idle e 1000 0 st2 = (1000, v, st2)" using wait_idle_good [OF g2(1), of 1000] by auto
  show ?thesis
    using base clock_write_good [OF g2(1)] g2(2)
    by (simp add: SetSpiClockSpeed_def Let_def st1(1) clock_reg [OF st1(2)] x_def [symmetric] st2_def [symmetric] v clock_reg [OF g2(1)])
qed

lemma RestoreSpiClockSpeed_good:
  assumes "good st"
  shows "good (snd (RestoreSpiClockSpeed e st)) \<and> mem (me_hw (snd (RestoreSpiClockSpeed e st))) = mem (me_hw st)"
proof (cases "mOriginalSpiClock st = 0")
  case True
  then show ?thesis using assms by (simp add: RestoreSpiClockSpeed_def)
next
  case False
  have base: "mSpiMmioBase st \<noteq> 0" using assms by (simp add: good_def SPI_MMIO_BASE_def)
  obtain st1 where st1: "ProbeSpiClockControl e st = (EFI_SUCCESS, (SPI_CLOCK_CTL, SPI_CLOCK_DIV_MASK), st1)" "good st1"
      "mem (me_hw st1) = mem (me_hw st)" using ProbeSpiClockControl_good [OF assms] by blast
  obtain v where v: "wait_idle e 1000 0 st1 = (1000, v, st1)" using wait_idle_good [OF st1(2), of 1000] by auto
  show ?thesis
    using base False clock_write_good [OF st1(2)] st1(3)
    by (simp add: RestoreSpiClockSpeed_def Let_def st1(1) EFI_ERROR_def v clock_reg [OF st1(2)] good_def)
qed

lemma restore_loop_good:
  assumes "good st" and "me_alloc e" "me_alloc_file e" "me_alloc_flash e"
    and "mem (me_hw st) = programmed m ME_FIRMWARE_START (me_part img)" and "length m = 16777216"
  shows "\<exists>st'. restore_loop e (file_of img) k st =
      (if fits_unerased m img then EFI_SUCCESS else EFI_DEVICE_ERROR, fits_unerased m img, st') \<and> good st' \<and> mem (me_hw st') = mem (me_hw st)"
  using assms(1,5)
proof (induction k arbitrary: st)
  case (0 st)
  obtain st1 where "VerifyMeFirmware e (file_of img) st = (EFI_SUCCESS, fits_unerased m img, st1)" "good st1" "mem (me_hw st1) = mem (me_hw st)"
    using VerifyMeFirmware_good [OF 0(1) assms(3,4), of img] programmed_matches [OF assms(6)] 0(2) by auto
  then show ?case by (subst restore_loop.simps) (simp add: EFI_ERROR_def)
next
  case (Suc k st)
  obtain st1 where st1: "VerifyMeFirmware e (file_of img) st = (EFI_SUCCESS, fits_unerased m img, st1)" "good st1" "mem (me_hw st1) = mem (me_hw st)"
    using VerifyMeFirmware_good [OF Suc.prems(1) assms(3,4), of img] programmed_matches [OF assms(6)] Suc.prems(2) by auto
  obtain st2 where st2: "WriteMeFirmware e (file_of img) st1 = (EFI_SUCCESS, st2)" "good st2" "mem (me_hw st2) = mem (me_hw st)"
    using WriteMeFirmware_good [OF st1(2) assms(2), of img] st1(3) Suc.prems(2) by auto
  have seek: "mf_seek (file_of img) 0 = EFI_SUCCESS" by (simp add: file_of_def)
  show ?case
  proof (cases "fits_unerased m img")
    case True
    then show ?thesis using st1 by (subst restore_loop.simps) (simp add: EFI_ERROR_def)
  next
    case False
    then have "restore_loop e (file_of img) (Suc k) st = restore_loop e (file_of img) k st2"
      using st1(1) st2(1) seek by (subst restore_loop.simps) (simp add: EFI_ERROR_def RestoreMeFirmware_def)
    then show ?thesis using Suc.IH [OF st2(2)] st2(3) Suc.prems(2) by simp
  qed
qed

lemma ShellAppMain_good:
  assumes "me_pci16 e 0 0x1f 5 0 = SPI_VENDOR_ID" "me_pci16 e 0 0x1f 5 2 = SPI_DEVICE_ID"
    and "me_alloc e" "me_alloc_file e" "me_alloc_flash e" and "\<And>name. me_open e name = (EFI_SUCCESS, file_of img)"
    and "ok (me_hw st)" and "mmio_readl (me_regs e) (SPI_MMIO_BASE + SPI_FREG2) (me_hw st) = 0x0EC70126"
  shows "\<exists>st'. ShellAppMain e args st = (if fits_unerased (mem (me_hw st)) img then 0 else 1, st') \<and> ok (me_hw st') \<and>
    mem (me_hw st') = programmed (mem (me_hw st)) ME_FIRMWARE_START (me_part img)"
proof -
  obtain hap name where args: "parse_args args (mEnableHap st) None = (hap, name)" by fastforce
  define st1 where "st1 = st\<lparr>mEnableHap := hap, mSpiMmioBase := SPI_MMIO_BASE\<rparr>"
  have map1: "MapSpiController e (st\<lparr>mEnableHap := hap\<rparr>) = (EFI_SUCCESS, st1)"
    using assms(1,2) by (simp add: MapSpiController_def Let_def st1_def)
  have g1: "good st1" and hw1: "me_hw st1 = me_hw st" using assms(7) by (simp_all add: good_def st1_def)
  have region: "VerifyMeRegion e st1 = EFI_SUCCESS"
    using g1 assms(8) by (simp add: VerifyMeRegion_def Let_def MmioRead32_def spi_reg_good good_def hw1 SPI_FREG2_def
        SPI_MMIO_BASE_def ME_FIRMWARE_START_def ME_FIRMWARE_END_def)
  define st2 where "st2 = snd (UnlockMeProtection e st1)"
  define st3 where "st3 = snd (DisableWriteProtection e st2)"
  define st5 where "st5 = snd (SetSpiClockSpeed e SPI_CLOCK_DIV_RELIABLE st3)"
  have g5: "good st5" "mem (me_hw st5) = mem (me_hw st)"
    using UnlockMeProtection_good [OF g1] DisableWriteProtection_good [of st2] SetSpiClockSpeed_good [of st3] hw1
    by (simp_all add: st2_def st3_def st5_def)
  obtain st6 where st6: "WriteMeFirmware e (file_of img) st5 = (EFI_SUCCESS, st6)" "good st6"
      "mem (me_hw st6) = programmed (mem (me_hw st)) ME_FIRMWARE_START (me_part img)"
    using WriteMeFirmware_good [OF g5(1) assms(3), of img] g5(2) by auto
  obtain st7 where st7: "restore_loop e (file_of img) 3 st6 = (if fits_unerased (mem (me_hw st)) img then EFI_SUCCESS else EFI_DEVICE_ERROR,
      fits_unerased (mem (me_hw st)) img, st7)" "good st7" "mem (me_hw st7) = mem (me_hw st6)"
    using restore_loop_good [OF st6(2) assms(3-5) st6(3) mem_length [OF assms(7)], of 3] by blast
  have "ShellAppMain e args st = (if fits_unerased (mem (me_hw st)) img then 0 else 1, snd (RestoreSpiClockSpeed e st7))"
    unfolding ShellAppMain_def args Let_def case_prod_conv map1 region st2_def [symmetric] st3_def [symmetric] st5_def [symmetric] assms(6)
    by (simp add: EFI_ERROR_def st6(1) st7(1))
  then show ?thesis using RestoreSpiClockSpeed_good [OF st7(2)] st7(3) st6(3) by (simp add: good_def)
qed

end

section \<open>A controller with these registers\<close>

record me_chip =
  mc_flash :: bytes
  mc_faddr :: "32 word"
  mc_fdata :: "32 word list"
  mc_cycle :: "32 word option"
  mc_done :: bool

definition mc_byte :: "me_chip \<Rightarrow> nat \<Rightarrow> u8" where
  "mc_byte h i = byte_of (mc_fdata h ! (i div 4)) (i mod 4)"

lemma mc_byte_other [simp]: "mc_byte (h\<lparr>mc_cycle := c, mc_done := d\<rparr>) = mc_byte h"
  by (rule ext) (simp add: mc_byte_def)

text \<open>Bits 1 and 2 are the kind of the cycle, and bits 24 on are one less than the number of bytes.\<close>

definition mc_run :: "32 word \<Rightarrow> me_chip \<Rightarrow> me_chip" where
  "mc_run v h =
     (let n = unat (drop_bit 24 v) + 1; a = unat (mc_faddr h)
      in if v AND 6 = 4 then h\<lparr>mc_flash := programmed (mc_flash h) a (map (mc_byte h) [0..<n])\<rparr>
         else h\<lparr>mc_fdata := map (\<lambda>k. word4 (\<lambda>m. if 4 * k + m < n then mc_flash h ! (a + (4 * k + m)) else 0)) [0..<4]\<rparr>)"

definition me_machine :: "me_chip regs" where
  "me_machine =
     \<lparr>mmio_readb = (\<lambda>a h. 0), mmio_readw = (\<lambda>a h. 0),
      mmio_readl = (\<lambda>a h. if a = SPI_MMIO_BASE + SPI_HSFSTS_CTL then if mc_done h then HSFSTS_CTL_FDONE else 0
                          else if a = SPI_MMIO_BASE + SPI_FREG2 then 0x0EC70126
                          else if SPI_MMIO_BASE + SPI_FDATA0 \<le> a \<and> a < SPI_MMIO_BASE + 0x20 then mc_fdata h ! ((a - (SPI_MMIO_BASE + SPI_FDATA0)) div 4)
                          else 0),
      mmio_writeb = (\<lambda>a v h. h), mmio_writew = (\<lambda>a v h. h),
      mmio_writel = (\<lambda>a v h. if a = SPI_MMIO_BASE + SPI_HSFSTS_CTL then if v AND HSFSTS_CTL_FGO \<noteq> 0 then h\<lparr>mc_cycle := Some v, mc_done := False\<rparr> else h
                          else if a = SPI_MMIO_BASE + SPI_FADDR then h\<lparr>mc_faddr := v\<rparr>
                          else if SPI_MMIO_BASE + SPI_FDATA0 \<le> a \<and> a < SPI_MMIO_BASE + 0x20
                          then h\<lparr>mc_fdata := (mc_fdata h)[(a - (SPI_MMIO_BASE + SPI_FDATA0)) div 4 := v]\<rparr> else h),
      default_delay = (\<lambda>us h. case mc_cycle h of None \<Rightarrow> h | Some v \<Rightarrow> (mc_run v h)\<lparr>mc_cycle := None, mc_done := True\<rparr>)\<rparr>"

definition mc_ok :: "me_chip \<Rightarrow> bool" where
  "mc_ok h \<longleftrightarrow> mc_cycle h = None \<and> length (mc_fdata h) = 4 \<and> length (mc_flash h) = 16777216"

definition me_setup :: "bytes \<Rightarrow> me_chip me_env" where
  "me_setup img = \<lparr>me_regs = me_machine, me_pci16 = (\<lambda>b d f r. if r = 0 then SPI_VENDOR_ID else SPI_DEVICE_ID), me_pci32 = (\<lambda>b d f r. 0),
     me_open = (\<lambda>name. (EFI_SUCCESS, file_of img)), me_alloc = True, me_alloc_file = True, me_alloc_flash = True\<rparr>"

lemma go_values:
  "n < 16 \<Longrightarrow> cyc \<in> {HSFSTS_CTL_FCYCLE_READ, HSFSTS_CTL_FCYCLE_WRITE} \<Longrightarrow>
    unat (drop_bit 24 (go_value cyc (Suc n))) = n \<and> go_value cyc (Suc n) AND 6 = (if cyc = HSFSTS_CTL_FCYCLE_WRITE then 4 else 0) \<and>
    go_value cyc (Suc n) AND HSFSTS_CTL_FGO \<noteq> 0"
proof -
  have "\<forall>n \<in> set [0..<16]. \<forall>cyc \<in> set [HSFSTS_CTL_FCYCLE_READ, HSFSTS_CTL_FCYCLE_WRITE].
    unat (drop_bit 24 (go_value cyc (Suc n))) = n \<and> go_value cyc (Suc n) AND 6 = (if cyc = HSFSTS_CTL_FCYCLE_WRITE then 4 else 0) \<and>
    go_value cyc (Suc n) AND HSFSTS_CTL_FGO \<noteq> 0"
    by code_simp
  then show "n < 16 \<Longrightarrow> cyc \<in> {HSFSTS_CTL_FCYCLE_READ, HSFSTS_CTL_FCYCLE_WRITE} \<Longrightarrow> ?thesis" by auto
qed

lemma me_machine_cycle:
  assumes "mc_ok h" and "0 < n" "n \<le> 16" and "cyc \<in> {HSFSTS_CTL_FCYCLE_READ, HSFSTS_CTL_FCYCLE_WRITE}"
  defines "g \<equiv> mc_run (go_value cyc n) (h\<lparr>mc_cycle := Some (go_value cyc n), mc_done := False\<rparr>)"
  shows "ends_in me_machine (mmio_writel me_machine (SPI_MMIO_BASE + SPI_HSFSTS_CTL) (go_value cyc n) h) (g\<lparr>mc_cycle := None, mc_done := True\<rparr>)"
    and "unat (drop_bit 24 (go_value cyc n)) + 1 = n" "go_value cyc n AND 6 = 4 \<longleftrightarrow> cyc = HSFSTS_CTL_FCYCLE_WRITE"
proof -
  have v: "unat (drop_bit 24 (go_value cyc n)) = n - 1" "go_value cyc n AND 6 = (if cyc = HSFSTS_CTL_FCYCLE_WRITE then 4 else 0)"
      "go_value cyc n AND HSFSTS_CTL_FGO \<noteq> 0"
    using go_values [of "n - 1" cyc] assms(2-4) by simp_all
  show "unat (drop_bit 24 (go_value cyc n)) + 1 = n" "go_value cyc n AND 6 = 4 \<longleftrightarrow> cyc = HSFSTS_CTL_FCYCLE_WRITE"
    using v(1,2) assms(2) by simp_all
  have w: "mmio_writel me_machine (SPI_MMIO_BASE + SPI_HSFSTS_CTL) (go_value cyc n) h = h\<lparr>mc_cycle := Some (go_value cyc n), mc_done := False\<rparr>"
    using v(3) by (simp add: me_machine_def)
  have d: "default_delay me_machine 100 (h\<lparr>mc_cycle := Some (go_value cyc n), mc_done := False\<rparr>) = g\<lparr>mc_cycle := None, mc_done := True\<rparr>"
    by (simp add: me_machine_def g_def)
  have r: "mmio_readl me_machine (SPI_MMIO_BASE + SPI_HSFSTS_CTL) x = (if mc_done x then HSFSTS_CTL_FDONE else 0)" for x
    by (simp add: me_machine_def)
  show "ends_in me_machine (mmio_writel me_machine (SPI_MMIO_BASE + SPI_HSFSTS_CTL) (go_value cyc n) h) (g\<lparr>mc_cycle := None, mc_done := True\<rparr>)"
    unfolding ends_in_def w by (intro exI [of _ 1]) (simp add: d r HSFSTS_CTL_FDONE_def)
qed

lemmas me_offsets = SPI_HSFSTS_CTL_def SPI_FADDR_def SPI_FDATA0_def SPI_FREG2_def

lemma me_setup_controller: "me_controller (me_setup img) mc_ok mc_flash (\<lambda>h. unat (mc_faddr h)) mc_byte"
proof (unfold_locales, goal_cases)
  case (1 s) then show ?case by (simp add: mc_ok_def)
next
  case (2 s) then show ?case by (simp add: me_setup_def me_machine_def HSFSTS_CTL_FDONE_def HSFSTS_CTL_FCERR_def HSFSTS_CTL_SCIP_def)
next
  case (3 s s' v) then show ?case by (simp add: me_setup_def me_machine_def me_offsets mc_ok_def)
next
  case (4 s k s' v)
  then have s': "s' = s\<lparr>mc_fdata := (mc_fdata s)[k := v]\<rparr>" by (simp add: me_setup_def me_machine_def me_offsets)
  show ?case unfolding s' using 4(1,2) by (auto simp: mc_ok_def mc_byte_def)
next
  case (5 s k j) then show ?case by (simp add: me_setup_def me_machine_def me_offsets mc_byte_def)
next
  case (6 s a v) then show ?case by (auto simp: me_setup_def me_machine_def me_offsets mc_ok_def)
next
  case (7 s us) then show ?case by (simp add: me_setup_def me_machine_def mc_ok_def)
next
  case (8 s n)
  define v where "v = go_value HSFSTS_CTL_FCYCLE_WRITE n"
  note c = me_machine_cycle [OF 8(1-3), of HSFSTS_CTL_FCYCLE_WRITE, folded v_def, simplified]
  let ?t = "(mc_run v (s\<lparr>mc_cycle := Some v, mc_done := False\<rparr>))\<lparr>mc_cycle := None, mc_done := True\<rparr>"
  have t: "mc_run v (s\<lparr>mc_cycle := Some v, mc_done := False\<rparr>) = s\<lparr>mc_cycle := Some v, mc_done := False,
      mc_flash := programmed (mc_flash s) (unat (mc_faddr s)) (map (mc_byte s) [0..<n])\<rparr>"
    using c(2,3) by (simp add: mc_run_def Let_def)
  show ?case using c(1) 8(1) unfolding v_def [symmetric] by (intro exI [of _ ?t]) (simp add: me_setup_def t mc_ok_def)
next
  case (9 s n)
  define v where "v = go_value HSFSTS_CTL_FCYCLE_READ n"
  note c = me_machine_cycle [OF 9(1-3), of HSFSTS_CTL_FCYCLE_READ, folded v_def, simplified]
  let ?f = "map (\<lambda>k. word4 (\<lambda>m. if 4 * k + m < n then mc_flash s ! (unat (mc_faddr s) + (4 * k + m)) else 0)) [0..<4]"
  let ?t = "(mc_run v (s\<lparr>mc_cycle := Some v, mc_done := False\<rparr>))\<lparr>mc_cycle := None, mc_done := True\<rparr>"
  have t: "mc_run v (s\<lparr>mc_cycle := Some v, mc_done := False\<rparr>) = s\<lparr>mc_cycle := Some v, mc_done := False, mc_fdata := ?f\<rparr>"
    using c(2,3) by (simp add: mc_run_def Let_def HSFSTS_CTL_FCYCLE_READ_def HSFSTS_CTL_FCYCLE_WRITE_def cong: if_cong)
  have "mc_byte ?t i = mc_flash s ! (unat (mc_faddr s) + i)" if "i < n" for i
    using that 9(3) by (simp add: t mc_byte_def byte_of_word4)
  then show ?case using c(1) 9(1) unfolding v_def [symmetric] by (intro exI [of _ ?t]) (simp add: me_setup_def t mc_ok_def)
qed

interpretation me_pc: me_controller "me_setup img" mc_ok mc_flash "\<lambda>h. unat (mc_faddr h)" mc_byte
  by (rule me_setup_controller)

definition me_start :: "bytes \<Rightarrow> me_chip me_state" where
  "me_start flash = \<lparr>mSpiMmioBase = 0, mOriginalSpiClock = 0, mEnableHap = False,
     me_hw = \<lparr>mc_flash = flash, mc_faddr = 0, mc_fdata = replicate 4 0, mc_cycle = None, mc_done = False\<rparr>\<rparr>"

section \<open>Restoring the management engine\<close>



section \<open>On the controller of ichspi.c\<close>

text \<open>The registers of \<open>IchMachine\<close>, mapped at the address the application uses.\<close>

definition ich_mapped :: "ich_hw me_env \<Rightarrow> ich_hw me_env" where
  "ich_mapped e = e\<lparr>me_regs := ich_machine\<lparr>mmio_readl := (\<lambda>a. mmio_readl ich_machine (a - SPI_MMIO_BASE)),
     mmio_writel := (\<lambda>a. mmio_writel ich_machine (a - SPI_MMIO_BASE))\<rparr>\<rparr>"

text \<open>No cycle runs, and the application has mapped the registers.\<close>

definition ich_quiet :: "ich_hw me_state \<Rightarrow> bool" where
  "ich_quiet st \<longleftrightarrow> mSpiMmioBase st = SPI_MMIO_BASE \<and> hw_cycle (me_hw st) = None"

lemma ich_reg: "ich_quiet st \<Longrightarrow> off < 0x1000 \<Longrightarrow> spi_reg st off = SPI_MMIO_BASE + off"
  by (simp add: ich_quiet_def spi_reg_def SPI_MMIO_BASE_def add64_def)

lemma ich_write_quiet:
  "ich_quiet st \<Longrightarrow> ich_quiet (MmioWrite32 (ich_mapped e) a v st) \<and> hw_flash (me_hw (MmioWrite32 (ich_mapped e) a v st)) = hw_flash (me_hw st)"
  by (simp add: ich_quiet_def MmioWrite32_def ich_mapped_def ich_machine_def)

lemma ich_stall_quiet: "ich_quiet st \<Longrightarrow> Stall (ich_mapped e) us st = st"
  by (simp add: ich_quiet_def Stall_def ich_mapped_def ich_machine_def)

lemma ich_status: "ich_quiet st \<Longrightarrow> MmioRead32 (ich_mapped e) (spi_reg st SPI_HSFSTS_CTL) st = 0"
  by (simp add: ich_reg SPI_HSFSTS_CTL_def MmioRead32_def ich_mapped_def ich_machine_def ich9_regs)

lemma ich_fdata_quiet:
  "ich_quiet st \<Longrightarrow> ich_quiet (write_fdata (ich_mapped e) bs i st) \<and> hw_flash (me_hw (write_fdata (ich_mapped e) bs i st)) = hw_flash (me_hw st)"
proof (induction bs arbitrary: i st rule: measure_induct_rule [of length])
  case (less bs)
  then show ?case using ich_write_quiet by (cases bs) auto
qed

lemma ich_never_done: "ich_quiet st \<Longrightarrow> wait_done (ich_mapped e) k st = (EFI_TIMEOUT, st)"
  by (induction k) (simp_all add: ich_status ich_stall_quiet)


definition some_env :: "ich_hw me_env" where
  "some_env = \<lparr>me_regs = ich_machine, me_pci16 = (\<lambda>b d f r. 0), me_pci32 = (\<lambda>b d f r. 0), me_open = (\<lambda>name. (EFI_SUCCESS, file_of [])),
     me_alloc = True, me_alloc_file = True, me_alloc_flash = True\<rparr>"


end
