(* ===== verification/Devmem2.thy ===== *)
theory Devmem2
  imports Helpers
begin

text \<open>
  \<^verbatim>\<open>devmem2/devmem2.c\<close>: reading and writing physical memory through \<^verbatim>\<open>/dev/mem\<close>. The memory is a function from addresses to
  bytes; whether the device can be opened and a page be mapped are parameters. Options come as a record, as
  \<^verbatim>\<open>getopt_long\<close> leaves them with the rest of the arguments. The format of the output is left out: an access yields the value
  that is printed. \<open>None\<close> is an access outside the mapped page or a signed overflow; accesses
  that are not aligned work as on x86.
\<close>

section \<open>Numbers\<close>

definition space_char :: "char \<Rightarrow> bool" where
  "space_char c \<longleftrightarrow> c = CHR '' '' \<or> (9 \<le> (of_char c :: nat) \<and> (of_char c :: nat) \<le> 13)"

definition digit_of :: "char \<Rightarrow> nat option" where
  "digit_of c =
     (let n = of_char c :: nat
      in if 48 \<le> n \<and> n \<le> 57 then Some (n - 48)
         else if 97 \<le> n \<and> n \<le> 122 then Some (n - 87)
         else if 65 \<le> n \<and> n \<le> 90 then Some (n - 55) else None)"

fun digits :: "nat \<Rightarrow> string \<Rightarrow> nat \<Rightarrow> nat" where
  "digits b [] acc = acc"
| "digits b (c # cs) acc = (case digit_of c of Some d \<Rightarrow> if d < b then digits b cs (acc * b + d) else acc | None \<Rightarrow> acc)"

text \<open>\<^verbatim>\<open>strtoul(s, NULL, 0)\<close>: a value that is too large gives the largest one, and a sign negates modulo \<open>2 ^ 64\<close>.\<close>

definition strtoul0 :: "string \<Rightarrow> nat" where
  "strtoul0 s =
     (let s1 = dropWhile space_char s;
          neg = (s1 \<noteq> [] \<and> hd s1 = CHR ''-'');
          s2 = (if s1 \<noteq> [] \<and> hd s1 \<in> {CHR ''-'', CHR ''+''} then tl s1 else s1);
          v = (if length s2 \<ge> 3 \<and> s2 ! 0 = CHR ''0'' \<and> s2 ! 1 \<in> {CHR ''x'', CHR ''X''} \<and>
                  (case digit_of (s2 ! 2) of Some d \<Rightarrow> d < 16 | None \<Rightarrow> False) then digits 16 (drop 2 s2) 0
               else if s2 \<noteq> [] \<and> hd s2 = CHR ''0'' then digits 8 s2 0 else digits 10 s2 0)
      in if v \<ge> 2 ^ 64 then 2 ^ 64 - 1 else if neg then (2 ^ 64 - v) mod 2 ^ 64 else v)"

text \<open>The conversion to \<^verbatim>\<open>off_t\<close>.\<close>

definition off_of :: "nat \<Rightarrow> int" where
  "off_of v = (if v < 2 ^ 63 then int v else int v - 2 ^ 64)"

section \<open>One access\<close>

record dm_env =
  dm_open :: bool
  dm_map :: "nat \<Rightarrow> bool"
  dm_unmap :: bool

type_synonym phys_mem = "nat \<Rightarrow> u8"

definition load :: "phys_mem \<Rightarrow> nat \<Rightarrow> nat \<Rightarrow> nat" where
  "load m a w = le_value (map (\<lambda>i. m (a + i)) [0..<w])"

definition store :: "phys_mem \<Rightarrow> nat \<Rightarrow> bytes \<Rightarrow> phys_mem" where
  "store m a bs = (\<lambda>x. if a \<le> x \<and> x < a + length bs then bs ! (x - a) else m x)"

definition MAP_SIZE :: nat where "MAP_SIZE = 4096"

definition access_width :: "char \<Rightarrow> nat option" where
  "access_width t =
     (if t = CHR ''b'' then Some 1 else if t = CHR ''h'' then Some 2 else if t = CHR ''w'' then Some 4
      else if t = CHR ''d'' then Some 8 else None)"

text \<open>The result code, the value that is printed, and the memory.\<close>

definition access_memory ::
    "dm_env \<Rightarrow> int \<Rightarrow> char \<Rightarrow> nat \<Rightarrow> bool \<Rightarrow> phys_mem \<Rightarrow> (int \<times> nat option \<times> phys_mem) option" where
  "access_memory e target access_type writeval do_write m =
     (let a = nat (target mod 2 ^ 64)
      in if \<not> dm_open e then Some (-1, None, m)
         else if \<not> dm_map e (a div MAP_SIZE * MAP_SIZE) then Some (-1, None, m)
         else case access_width access_type of
                None \<Rightarrow> Some (-1, None, m)
              | Some w \<Rightarrow>
                  if a mod MAP_SIZE + w > MAP_SIZE then None
                  else let m' = (if do_write then store m a (le_bytes w writeval) else m)
                       in Some (if dm_unmap e then 0 else -1, Some (load m' a w), m'))"

section \<open>The modes of the program\<close>

function range_loop :: "dm_env \<Rightarrow> phys_mem \<Rightarrow> int \<Rightarrow> int \<Rightarrow> nat option list option" where
  "range_loop e m addr range_end =
     (if addr \<le> range_end
      then Option.bind (access_memory e addr CHR ''w'' 0 False m) (\<lambda>(r, v, m').
             if addr + 4 \<ge> 2 ^ 63 then None else map_option (Cons v) (range_loop e m (addr + 4) range_end))
      else Some [])"
  by pat_completeness auto
termination
  by (relation "measure (\<lambda>(e, m, addr, range_end). nat (range_end + 1 - addr))") auto

declare range_loop.simps [simp del]

fun batch_loop :: "dm_env \<Rightarrow> phys_mem \<Rightarrow> char \<Rightarrow> string list \<Rightarrow> nat option list option" where
  "batch_loop e m access_type [] = Some []"
| "batch_loop e m access_type (arg # args) =
     Option.bind (access_memory e (off_of (strtoul0 arg)) access_type 0 False m) (\<lambda>(r, v, m').
       map_option (Cons v) (batch_loop e m access_type args))"

text \<open>The first character of an argument in lower case; that of an empty one is the terminator.\<close>

definition type_char :: "string \<Rightarrow> char" where
  "type_char arg = (if arg = [] then CHR 0x00 else c_tolower (hd arg))"

record dm_opts =
  batch_mode :: bool
  range_mode :: "(int \<times> int) option"

text \<open>\<^verbatim>\<open>main\<close> behind the options, on the arguments that are left: the exit code, the values that are printed, and the memory.\<close>

definition dm_main :: "dm_env \<Rightarrow> dm_opts \<Rightarrow> string list \<Rightarrow> phys_mem \<Rightarrow> (int \<times> nat option list \<times> phys_mem) option" where
  "dm_main e opts args m =
     (case range_mode opts of
        Some (range_start, range_end) \<Rightarrow>
          if range_start > range_end then Some (1, [], m)
          else map_option (\<lambda>vs. (0, vs, m)) (range_loop e m range_start range_end)
      | None \<Rightarrow>
          if batch_mode opts
          then if args = [] then Some (1, [], m)
               else map_option (\<lambda>vs. (0, vs, m)) (batch_loop e m (if length args > 1 then type_char (args ! 1) else CHR ''w'') args)
          else if args = [] then Some (1, [], m)
          else map_option (\<lambda>(r, v, m'). (if r < 0 then 1 else 0, [v], m'))
                 (access_memory e (off_of (strtoul0 (args ! 0)))
                    (if length args > 1 then type_char (args ! 1) else CHR ''w'')
                    (if length args > 2 then strtoul0 (args ! 2) else 0) (length args > 2) m))"

section \<open>What the modes do\<close>

lemma load_store: "load (store m a bs) a (length bs) = le_value bs"
proof -
  have "map (\<lambda>i. store m a bs (a + i)) [0..<length bs] = bs" by (rule nth_equalityI) (auto simp: store_def)
  then show ?thesis by (simp add: load_def)
qed

lemma access_read:
  assumes "dm_open e" and "dm_map e (nat a div 4096 * 4096)" and "access_width t = Some w" and "0 \<le> a" "a < 2 ^ 63" and "nat a mod 4096 + w \<le> 4096"
  shows "access_memory e a t v False m = Some (if dm_unmap e then 0 else -1, Some (load m (nat a) w), m)"
  using assms by (simp add: access_memory_def MAP_SIZE_def)

text \<open>C40: with an address and a type and a value, the program writes the low bytes of the value at the address and nothing
  else, and prints what it reads back: the value modulo the width of the access. The access has to lie in one page.\<close>

theorem devmem_write:
  assumes "dm_open e" "dm_unmap e" and "dm_map e (a div 4096 * 4096)"
    and "(type_char t, w) \<in> {(CHR ''b'', 1), (CHR ''h'', 2), (CHR ''w'', 4), (CHR ''d'', 8)}"
    and "strtoul0 s = a" "a < 2 ^ 63" "a mod 4096 + w \<le> 4096"
  shows "dm_main e \<lparr>batch_mode = False, range_mode = None\<rparr> [s, t, d] m =
    Some (0, [Some (strtoul0 d mod 256 ^ w)], store m a (le_bytes w (strtoul0 d)))"
proof -
  have "access_width (type_char t) = Some w" using assms(4) by (auto simp: access_width_def)
  moreover have "off_of a = int a" "nat (int a mod 2 ^ 64) = a" using assms(6) by (simp_all add: off_of_def nat_mod_distrib)
  moreover have "load (store m a (le_bytes w x)) a w = x mod 256 ^ w" for x
    using load_store [of m a "le_bytes w x"] by (simp add: le_value_le_bytes)
  ultimately show ?thesis
    using assms by (simp add: dm_main_def access_memory_def MAP_SIZE_def Let_def)
qed

theorem devmem_write_witness:
  "dm_main \<lparr>dm_open = True, dm_map = \<lambda>p. True, dm_unmap = True\<rparr> \<lparr>batch_mode = False, range_mode = None\<rparr> [''0x1000'', ''H'', ''0x12345''] (\<lambda>x. 0) =
    Some (0, [Some 0x2345], store (\<lambda>x. 0) 0x1000 [0x45, 0x23])"
proof -
  have s: "strtoul0 ''0x1000'' = 0x1000" "strtoul0 ''0x12345'' = 0x12345" by (simp_all add: strtoul0_def space_char_def digit_of_def)
  have t: "type_char ''H'' = CHR ''h''" by code_simp
  have "le_bytes (Suc (Suc 0)) 0x12345 = [0x45, 0x23]" by simp
  then have b: "le_bytes 2 0x12345 = [0x45, 0x23]" by (simp only: numeral_2_eq_2)
  from s t b show ?thesis
    using devmem_write [of "\<lparr>dm_open = True, dm_map = \<lambda>p. True, dm_unmap = True\<rparr>" "0x1000" "''H''" 2 "''0x1000''" "''0x12345''" "\<lambda>x. 0"] by simp
qed

text \<open>The documented use of the batch mode, a list of addresses, reads nothing: the second address is taken for
  the type of the access, its first digit is no type, and every access fails. The exit code is 0.\<close>

theorem devmem_batch_fails:
  assumes "access_width (type_char s2) = None"
  shows "dm_main e \<lparr>batch_mode = True, range_mode = None\<rparr> (s1 # s2 # args) m = Some (0, replicate (length args + 2) None, m)"
proof -
  have acc: "access_memory e a (type_char s2) 0 False m = Some (-1, None, m)" for a
    using assms by (simp add: access_memory_def Let_def)
  have "batch_loop e m (type_char s2) xs = Some (replicate (length xs) None)" for xs by (induction xs) (simp_all add: acc)
  from this [of "s1 # s2 # args"] show ?thesis by (simp add: dm_main_def del: batch_loop.simps)
qed

theorem devmem_batch_witness:
  "dm_main \<lparr>dm_open = True, dm_map = \<lambda>p. True, dm_unmap = True\<rparr> \<lparr>batch_mode = True, range_mode = None\<rparr>
     [''0x10000000'', ''0x10000004'', ''0x10000008''] (\<lambda>x. 0) = Some (0, [None, None, None], (\<lambda>x. 0))"
proof -
  have "access_width (type_char ''0x10000004'') = None" by code_simp
  then show ?thesis
    using devmem_batch_fails [of "''0x10000004''" _ "''0x10000000''" "[''0x10000008'']" "\<lambda>x. 0"] by simp
qed

text \<open>A range of aligned addresses prints the words from the first to the last address in steps of four.\<close>

theorem devmem_range:
  assumes "dm_open e" and "\<And>p. dm_map e p" and "4 dvd a" and "a + 4 * k < 2 ^ 63 - 4"
  shows "dm_main e \<lparr>batch_mode = b, range_mode = Some (int a, int (a + 4 * k))\<rparr> args m =
    Some (0, map (\<lambda>i. Some (load m (a + 4 * i) 4)) [0..<Suc k], m)"
proof -
  have w: "access_width CHR ''w'' = Some 4" by (simp add: access_width_def)
  have al: "x mod 4096 + 4 \<le> 4096" if "4 dvd x" for x :: nat
  proof -
    have "x mod 4096 = 4 * (x div 4 mod 1024)" using that mod_mult_mult1 [of 4 "x div 4" 1024] by simp
    moreover have "x div 4 mod 1024 < 1024" by simp
    ultimately show ?thesis by linarith
  qed
  have "range_loop e m (int x) (int (a + 4 * k)) = Some (map (\<lambda>i. Some (load m (x + 4 * i) 4)) [0..<Suc j])"
    if "4 dvd x" "x + 4 * j = a + 4 * k" for j x
    using that
  proof (induction j arbitrary: x)
    case 0
    have "access_memory e (int x) CHR ''w'' 0 False m = Some (if dm_unmap e then 0 else -1, Some (load m x 4), m)"
      using access_read [of e "int x" "CHR ''w''" 4 0 m] assms(1,2,4) w al [OF 0(1)] 0(2) by simp
    moreover have "int x = int (a + 4 * k)" "\<not> int x + 4 \<ge> 2 ^ 63" using 0(2) assms(4) by simp_all
    moreover have "range_loop e m (int x + 4) (int x) = Some []" by (subst range_loop.simps) simp
    ultimately show ?case by (subst range_loop.simps) (simp del: of_nat_add of_nat_mult)
  next
    case (Suc j)
    have "range_loop e m (int (x + 4)) (int (a + 4 * k)) = Some (map (\<lambda>i. Some (load m (x + 4 + 4 * i) 4)) [0..<Suc j])"
      using Suc.prems by (intro Suc.IH) auto
    moreover have "map (\<lambda>i. Some (load m (x + 4 * i) 4)) [0..<Suc (Suc j)] =
        Some (load m x 4) # map (\<lambda>i. Some (load m (x + 4 + 4 * i) 4)) [0..<Suc j]"
      by (simp add: map_upt_Suc add.assoc del: upt_Suc)
    moreover have "access_memory e (int x) CHR ''w'' 0 False m = Some (if dm_unmap e then 0 else -1, Some (load m x 4), m)"
      using access_read [of e "int x" "CHR ''w''" 4 0 m] assms(1,2,4) w al [OF Suc.prems(1)] Suc.prems(2) by simp
    ultimately show ?case using Suc.prems(2) assms(4) by (subst range_loop.simps) (simp del: upt_Suc)
  qed
  from this [of a k] assms(3) show ?thesis by (simp add: dm_main_def del: upt_Suc)
qed

theorem devmem_range_witness:
  "dm_main \<lparr>dm_open = True, dm_map = \<lambda>p. True, dm_unmap = True\<rparr> \<lparr>batch_mode = False, range_mode = Some (4096, 4104)\<rparr> [] (\<lambda>x. 1) =
    Some (0, map (\<lambda>i. Some (load (\<lambda>x. 1) (4096 + 4 * i) 4)) [0..<Suc 2], (\<lambda>x. 1))"
  using devmem_range [of "\<lparr>dm_open = True, dm_map = \<lambda>p. True, dm_unmap = True\<rparr>" 4096 2 False "[]" "\<lambda>x. 1"] by simp

end
