(* ===== verification/Spec2Isabelle.thy ===== *)
theory Spec2Isabelle
  imports EmuSafety SpiProbe SpiFacts Regions Plans Sessions FmapOk Sfdp IchOk IchSpiOk IchMachine
    ProbingOk JedecImage FwhOk DataflashOk Spansion Bitbang MeRestoreOk Devmem2
begin

text \<open>
  \<^bold>\<open>Verification of flashrom and of the tools beside it.\<close>

  The repository collects tools for the firmware of Intel platforms. Its own logic that decides what
  happens to the bytes of a flash chip is in \<^verbatim>\<open>src/flashrom\<close>: libflashrom, the drivers of SPI chips, the SPI
  controller of Intel chipsets, and the dummy programmer, which emulates chips in memory. Beside it stand a UEFI application that writes a dump of the management engine to
  the flash (\<^verbatim>\<open>src/edk2_shell_pkg/Application/MeRestoreApp\<close>) and a tool for physical memory (\<^verbatim>\<open>src/devmem2\<close>). This development models
  their logic as functions in HOL and proves what the operations do to the chip and to memory.

  \<^bold>\<open>The parts and how they interact.\<close> A layout (\<^verbatim>\<open>layout.c\<close>) names regions of the chip and says which are
  included. The image operations (\<^verbatim>\<open>flashrom_image_read\<close>, \<^verbatim>\<open>flashrom_image_write\<close>, \<^verbatim>\<open>flashrom_image_verify\<close>,
  \<^verbatim>\<open>flashrom_flash_erase\<close> in \<^verbatim>\<open>flashrom.c\<close>) check the layout, lift the write protection of the chip
  (\<^verbatim>\<open>prepare_flash_access\<close>, through \<^verbatim>\<open>writeprotect.c\<close>), and walk the included regions. For each region the
  erase planning (\<^verbatim>\<open>erasure_layout.c\<close>) selects erase blocks from layers of nested blocks, saves the margins,
  erases and programs only what differs (\<^verbatim>\<open>need_erase\<close>, \<^verbatim>\<open>get_next_write\<close>). Reads, writes and erases go through
  the region access wrappers (\<^verbatim>\<open>read_flash\<close>, \<^verbatim>\<open>write_flash\<close>, \<^verbatim>\<open>verify_range\<close>), which respect the access rights a
  programmer reports, to a driver: the opaque callbacks of a programmer or the SPI layer (\<^verbatim>\<open>spi25.c\<close>,
  \<^verbatim>\<open>spi25_statusreg.c\<close>, \<^verbatim>\<open>spi.c\<close>), which sends commands to an SPI master. The dummy programmer
  (\<^verbatim>\<open>programmers/dummyflasher.c\<close>) is both: an opaque chip of variable size and a set of emulated SPI chips. So is
  the controller of Intel chipsets (\<^verbatim>\<open>ichspi.c\<close>): with hardware sequencing it is an opaque programmer that runs
  read, write and erase cycles and reports the regions of the flash descriptor, with software sequencing an SPI
  master whose commands must be in a table of opcodes. Layouts also come from the descriptor of the chip
  (\<^verbatim>\<open>ich_descriptors.c\<close>) or from a flash map (\<^verbatim>\<open>fmap.c\<close>), and chips can describe themselves (\<^verbatim>\<open>sfdp.c\<close>).
  Chips on a parallel bus are driven by sequences of bus cycles (\<^verbatim>\<open>parallel.c\<close>, \<^verbatim>\<open>jedec.c\<close> and the files of single families).
  A programmer is initialised with its parameters and registers masters and shutdown functions
  (\<^verbatim>\<open>programmer_init\<close>, \<^verbatim>\<open>register_master\<close>); probing walks the table of chips for each master (\<^verbatim>\<open>probe_flash\<close>) and fills
  the context that the image operations work on.
  In the end the original protection is restored (\<^verbatim>\<open>finalize_flash_access\<close>). The restore application and the memory tool are programs
  of their own; the application uses the registers of the same Intel controller.

  \<^bold>\<open>Theories and sources.\<close>
    \<^item> \<open>Prelude\<close>: 32-bit unsigned arithmetic on natural numbers (\<open>add32\<close>, \<open>sub32\<close>, \<open>mul32\<close>), signed values as integers,
      buffers as lists of 8-bit words with slices, copies and fills.
    \<^item> \<open>Helpers\<close>: \<^verbatim>\<open>helpers.c\<close>. \<open>Layout\<close>: \<^verbatim>\<open>layout.c\<close>, \<^verbatim>\<open>include/layout.h\<close>.
    \<^item> \<open>FlashCtx\<close>: the data model of \<^verbatim>\<open>include/flash.h\<close> and \<^verbatim>\<open>include/programmer.h\<close> (\<^verbatim>\<open>struct flashchip\<close>, \<^verbatim>\<open>struct
      flashctx\<close>, erase functions, flags); drivers are record fields that return a result code and a new state.
    \<^item> \<open>WriteGran\<close>: \<^verbatim>\<open>need_erase\<close>, \<^verbatim>\<open>get_next_write\<close>. \<open>FlashOps\<close>: the access wrappers of \<^verbatim>\<open>flashrom.c\<close>.
    \<^item> \<open>EraseLayout\<close>, \<open>EraseWrite\<close>: \<^verbatim>\<open>erasure_layout.c\<close>; \<open>EraseSelect\<close>, \<open>ErasePlan\<close>, \<open>EraseBuild\<close>, \<open>EraseWriteOk\<close>,
      \<open>Plans\<close>: their correctness.
    \<^item> \<open>WpRanges\<close>: \<^verbatim>\<open>writeprotect_ranges.c\<close>. \<open>WriteProtect\<close>: \<^verbatim>\<open>writeprotect.c\<close> and its entry points in
      \<^verbatim>\<open>libflashrom.c\<close>; \<open>WpEnum\<close>, \<open>WpDevice\<close>: their correctness.
    \<^item> \<open>FlashAccess\<close>, \<open>ImageOps\<close>: access preparation and the image operations of \<^verbatim>\<open>flashrom.c\<close>; \<open>ImageOpsOk\<close>: their
      correctness.
    \<^item> \<open>Spi\<close>: \<^verbatim>\<open>spi.c\<close>, \<^verbatim>\<open>spi25.c\<close>, \<^verbatim>\<open>spi25_statusreg.c\<close>; \<open>SpiProbe\<close>: the probing functions of \<^verbatim>\<open>spi25.c\<close>; \<open>SpiFacts\<close>:
      the unlock functions and facts for every master; \<open>SpiOk\<close>: correctness for chips with three address bytes.
    \<^item> \<open>Dummy\<close>, \<open>DummySpi\<close>: \<^verbatim>\<open>programmers/dummyflasher.c\<close>, the opaque and the SPI side; \<open>EmuSafety\<close>: what the
      emulated chips guarantee. \<open>W25q\<close>, \<open>W25Wp\<close>, \<open>W25Image\<close>: the W25Q128FV of \<^verbatim>\<open>flashchips/winbond.c\<close> on the
      emulator. \<open>Regions\<close>: chips behind a programmer that reports regions. \<open>Sessions\<close>: runs of several
      operations against an abstract chip.
    \<^item> \<open>Fmap\<close>, \<open>FmapOk\<close>: \<^verbatim>\<open>fmap.c\<close> and the layouts from flash maps in \<^verbatim>\<open>libflashrom.c\<close>. \<open>Sfdp\<close>: \<^verbatim>\<open>sfdp.c\<close>.
      \<open>IchDescriptors\<close>, \<open>IchOk\<close>: \<^verbatim>\<open>ich_descriptors.c\<close> and the layouts from descriptors in \<^verbatim>\<open>libflashrom.c\<close>.
    \<^item> \<open>IchSpi\<close>, \<open>IchSpiOk\<close>: \<^verbatim>\<open>ichspi.c\<close>, software sequencing. \<open>IchHwseq\<close>, \<open>IchHwseqOk\<close>: hardware sequencing.
      \<open>IchInit\<close>: the permissions of the regions, the protected ranges and the initialisation. \<open>IchImage\<close>: the image
      operations on such a chipset. \<open>IchMachine\<close>: a 100 series chipset as a machine with registers.
    \<^item> \<open>Programmers\<close>: the life of a programmer in \<^verbatim>\<open>flashrom.c\<close>, \<^verbatim>\<open>programmer.c\<close>, \<^verbatim>\<open>opaque.c\<close> and the register functions of
      \<^verbatim>\<open>spi.c\<close> and \<^verbatim>\<open>parallel.c\<close>. \<open>Probing\<close>, \<open>ProbingOk\<close>: mapping, self checks and \<^verbatim>\<open>probe_flash\<close> of \<^verbatim>\<open>flashrom.c\<close>, and
      the two probing functions of \<^verbatim>\<open>libflashrom.c\<close>.
    \<^item> \<open>Parallel\<close>: \<^verbatim>\<open>parallel.c\<close>, \<^verbatim>\<open>jedec.c\<close>, \<^verbatim>\<open>w29ee011.c\<close>, \<^verbatim>\<open>en29lv640b.c\<close>, \<^verbatim>\<open>sst28sf040.c\<close>. \<open>Fwh\<close>: \<^verbatim>\<open>82802ab.c\<close>, \<^verbatim>\<open>stm50.c\<close>,
      \<^verbatim>\<open>sst49lfxxxc.c\<close>, \<^verbatim>\<open>sst_fwhub.c\<close>, \<^verbatim>\<open>printlock.c\<close>. \<open>ParallelOk\<close>: chips with the JEDEC command set; \<open>JedecImage\<close>: the
      image operations on one of them; \<open>FwhOk\<close>: lock registers.
    \<^item> \<open>Dataflash\<close>, \<open>DataflashOk\<close>: \<^verbatim>\<open>at45db.c\<close>. \<open>Spansion\<close>: \<^verbatim>\<open>s25f.c\<close> and \<^verbatim>\<open>spi95.c\<close>. \<open>Bitbang\<close>: \<^verbatim>\<open>bitbang_spi.c\<close>.
    \<^item> \<open>MeRestore\<close>: \<^verbatim>\<open>MeRestoreApp.c\<close>; \<open>MeRestoreOk\<close>: the application on a controller that works the way it expects, and on
      the one that \<^verbatim>\<open>ichspi.c\<close> drives. \<open>Devmem2\<close>: \<^verbatim>\<open>devmem2/devmem2.c\<close>.

  \<^bold>\<open>Interfaces.\<close> Locales state what one layer needs of the next, and every one is interpreted on the model:
  \<open>flash_regions\<close>, \<open>flash_reader\<close> and \<open>flash_device\<close> (drivers read, program and erase exactly what they are asked to),
  \<open>erase_device\<close> (with an erase geometry), \<open>image_device\<close> (with access preparation and restoration), \<open>wp_registers\<close>
  and \<open>wp_writer\<close> (registers with writable and read-only bits), \<open>spi_reader\<close> and \<open>spi_chip\<close> (the commands of a chip).
  \<open>fmap_device\<close> adds what the search for a flash map needs; \<open>register_file\<close> and \<open>ich_controller\<close> state what the
  registers of the Intel controller promise, and the machine of \<open>IchMachine\<close> keeps it. \<open>steady_probe\<close> states that
  probing leaves the hardware as it is, \<open>jedec_chip\<close> and \<open>am29_chip\<close> what a chip with the JEDEC command set promises, and
  \<open>lock_registers\<close> what lock registers do, \<open>dataflash\<close> and \<open>s25fs_chip\<close> what the commands of these families do, \<open>me_controller\<close> what the restore application expects of the SPI controller; the instances are the emulated chip and
  machines for the bus, the chips and the controller.
  The opaque chip and the emulated W25Q128FV are the instances of the others, so every theorem about them goes through all
  the layers down to the emulated array.

  \<^bold>\<open>What is shown.\<close> Functional correctness of the image operations on both kinds of chip, for every layout
  that passes the sanity checks, every image, every sacrifice ratio and every protected range; that a sequence
  of operations refines an abstract chip; that the emulator never changes a protected byte and keeps locked
  registers; that the erase plan is safe and complete and erase layouts are well formed; exactness of
  \<^verbatim>\<open>need_erase\<close> and \<^verbatim>\<open>get_next_write\<close>; the range decoding stays inside the chip, the enumeration of ranges is
  complete, and setting a range makes the chip protect that range; layouts read from a file are the ones
  printed, and the selection, sanity and overlap checks decide what they are meant to; loops end. A flash map is
  found wherever it is on the chip, and maps and descriptors that are encoded are read back as their layouts;
  parsing a descriptor stays inside the dump, and both ways to read one agree; the erase functions from SFDP tables
  suit the erase planning. On every Intel controller that runs the documented cycles, and whose regions are
  open, the image operations are correct; commands of software sequencing stay inside the decoded window, their
  tables stay well formed, and prefixes are merged and cleared. Shutdown functions run once in reverse order,
  registered masters are complete, and parameters are taken apart as documented; the two probing functions agree,
  and chip descriptions that pass the self check suit the erase planning. On hardware with the JEDEC command set
  writing ends and tells whether the bytes are there, and the image operations on an Am29F040B are correct. DataFlash chips
  are written page by page and read as documented, and a command sent line by line is the one the device understands. The
  restore application ends, touches only the bytes of the region that the dump covers, and reports success exactly if
  they hold the dump, which without an erase they do only if no bit has to be set; the memory tool writes and prints the bytes it is
  asked for. The defects that modelling showed are theorems about the code as it is.

  \<^bold>\<open>Conventions and bounds.\<close> A result \<open>None\<close> stands for a run that does not return or has undefined behaviour
  (an access outside a buffer, a division by zero, a null callback), so a result \<open>Some\<close> excludes both. Loops whose
  counters may wrap are partial functions into option, and the theorems prove that they return; no fuel is
  used. Chips are below 2 GiB where 32-bit sums must not wrap, as in the code's own arithmetic. Uninitialised
  memory is an arbitrary parameter (\<open>junk\<close>, \<open>fresh\<close>). Allocation can fail through the parameter \<open>c_malloc\<close>.

  \<^bold>\<open>Not modelled.\<close> Messages, progress reports and delays have no effect on the model. The programmers for real
  hardware other than the Intel controller and the chipset and board code talk to devices whose behaviour is not
  in the sources; for the Intel controller the registers are a parameter, and for parallel chips the bus. The
  debug interface of embedded controllers and the replay protected counters, which need a cryptographic library, are left out. The chip database is data; a few of
  its entries are used. The command line and files are input and output. The UEFI shell package, emba and the
  images in the repository are third-party code, scripts and data. The DSMIL unlock command of that package is a fixed
  sequence of register writes with unknown effects.
\<close>

end
